(* ===== verification/UB_Prelude.thy ===== *)
theory UB_Prelude
  imports Main "HOL-Library.Word" "HOL-Library.Monad_Syntax"
begin

text \<open>
  Shared vocabulary of the development: the C integer types as words, little-endian byte
  images of integers, splicing of byte ranges, the 32-bit halves of 64-bit registers, the
  arithmetic of ring indices (locale \<open>ring\<close>) and the contract of a machine whose steps keep
  an invariant (locale \<open>inv_machine\<close>).
\<close>

unbundle bit_operations_syntax

section \<open>Machine types\<close>

type_synonym u8 = "8 word"
type_synonym u16 = "16 word"
type_synonym u32 = "32 word"
type_synonym u64 = "64 word"
type_synonym hwaddr = u64
type_synonym bytes = "u8 list"

named_theorems ub_defs \<open>definitions that component proofs unfold together\<close>
named_theorems ub_frame \<open>fields an operation leaves alone\<close>

lemma if_predI: "(c \<Longrightarrow> P x) \<Longrightarrow> (\<not> c \<Longrightarrow> P y) \<Longrightarrow> P (if c then x else y)"
  by simp

lemma option_predI:
  "(x = None \<Longrightarrow> P a) \<Longrightarrow> (\<And>y. x = Some y \<Longrightarrow> P (f y)) \<Longrightarrow> P (case x of None \<Rightarrow> a | Some y \<Rightarrow> f y)"
  by (simp split: option.split)

lemma prod_predI: "(\<And>a b. x = (a, b) \<Longrightarrow> P (f a b)) \<Longrightarrow> P (case x of (a, b) \<Rightarrow> f a b)"
  by (simp split: prod.split)

section \<open>Byte images of integers\<close>

text \<open>
  The programs run on little-endian machines (x86-64 and AArch64), so \<open>cpu_to_le32\<close> and its
  kin are the identity and \<open>memcpy\<close> of an integer lays its bytes out lowest first.
\<close>

primrec le_bytes :: "nat \<Rightarrow> 'a::len word \<Rightarrow> bytes" where
  "le_bytes 0 w = []"
| "le_bytes (Suc n) w = ucast w # le_bytes n (drop_bit 8 w)"

primrec of_le :: "bytes \<Rightarrow> 'a::len word" where
  "of_le [] = 0"
| "of_le (b # bs) = ucast b OR push_bit 8 (of_le bs)"

abbreviation le16 :: "u16 \<Rightarrow> bytes" where "le16 \<equiv> le_bytes 2"
abbreviation le32 :: "u32 \<Rightarrow> bytes" where "le32 \<equiv> le_bytes 4"
abbreviation le64 :: "u64 \<Rightarrow> bytes" where "le64 \<equiv> le_bytes 8"

text \<open>The bytes of a C string, without the terminator.\<close>

definition str_bytes :: "string \<Rightarrow> bytes" where
  "str_bytes s = map of_char s"

lemma length_le_bytes [simp]: "length (le_bytes n w) = n"
  by (induction n arbitrary: w) simp_all

lemma of_le_le_bytes: "of_le (le_bytes n w) = take_bit (8 * n) (w :: 'a::len word)"
proof (induction n arbitrary: w)
  case 0
  show ?case by simp
next
  case (Suc n)
  show ?case
    by (rule bit_word_eqI)
      (auto simp: Suc bit_simps not_less less_diff_conv2 le_diff_conv2)
qed

lemma of_le_le32 [simp]: "of_le (le32 w) = w"
  by (simp add: of_le_le_bytes take_bit_word_eq_self)

lemma of_le_le64 [simp]: "of_le (le64 w) = w"
  by (simp add: of_le_le_bytes take_bit_word_eq_self)

lemma of_le_le16 [simp]: "of_le (le16 w) = w"
  by (simp add: of_le_le_bytes take_bit_word_eq_self)

section \<open>Byte ranges\<close>

text \<open>\<open>bytes_at off n xs\<close> are the \<open>n\<close> bytes of \<open>xs\<close> from \<open>off\<close>; \<open>put_at off ys xs\<close> is
  \<open>xs\<close> after \<open>memcpy(xs + off, ys, length ys)\<close>, for a range inside \<open>xs\<close>.\<close>

definition bytes_at :: "nat \<Rightarrow> nat \<Rightarrow> 'a list \<Rightarrow> 'a list" where
  "bytes_at off n xs = take n (drop off xs)"

definition put_at :: "nat \<Rightarrow> 'a list \<Rightarrow> 'a list \<Rightarrow> 'a list" where
  "put_at off ys xs = take off xs @ ys @ drop (off + length ys) xs"

lemma length_bytes_at [simp]: "off + n \<le> length xs \<Longrightarrow> length (bytes_at off n xs) = n"
  by (simp add: bytes_at_def)

lemma length_put_at [simp]:
  "off + length ys \<le> length xs \<Longrightarrow> length (put_at off ys xs) = length xs"
  by (simp add: put_at_def)

lemma bytes_at_put_at_same [simp]:
  "off + length ys \<le> length xs \<Longrightarrow> n = length ys \<Longrightarrow> bytes_at off n (put_at off ys xs) = ys"
  by (simp add: bytes_at_def put_at_def)

lemma bytes_at_put_at_before:
  assumes "off + length ys \<le> length xs" and "o' + n \<le> off"
  shows "bytes_at o' n (put_at off ys xs) = bytes_at o' n xs"
proof -
  have "take (o' + n) (put_at off ys xs) = take (o' + n) xs"
    using assms by (simp add: put_at_def min_def)
  then show ?thesis by (simp add: bytes_at_def take_drop add.commute)
qed

lemma bytes_at_put_at_after:
  assumes "off + length ys \<le> length xs" and "off + length ys \<le> o'"
  shows "bytes_at o' n (put_at off ys xs) = bytes_at o' n xs"
proof -
  have "drop o' (put_at off ys xs) = drop o' xs"
    using assms by (simp add: put_at_def drop_append min_def add.commute)
  then show ?thesis by (simp add: bytes_at_def)
qed

section \<open>Halves of 64-bit registers\<close>

definition set_lo32 :: "u64 \<Rightarrow> u64 \<Rightarrow> u64" where
  "set_lo32 cur v = (cur AND 0xffffffff00000000) OR (v AND 0xffffffff)"

definition set_hi32 :: "u64 \<Rightarrow> u64 \<Rightarrow> u64" where
  "set_hi32 cur v = (cur AND 0x00000000ffffffff) OR push_bit 32 v"

lemma mask_lo32: "(0xffffffff :: u64) = mask 32"
  by (simp add: mask_eq_exp_minus_1)

lemma mask_hi32: "(0xffffffff00000000 :: u64) = NOT (mask 32)"
  by (simp add: mask_eq_exp_minus_1)

lemma hi_set_lo32 [simp]: "drop_bit 32 (set_lo32 cur v) = drop_bit 32 cur"
  unfolding set_lo32_def mask_lo32 mask_hi32
  by (rule bit_word_eqI) (auto simp: bit_simps dest: bit_imp_le_length)

lemma lo_set_lo32 [simp]: "set_lo32 cur v AND 0xffffffff = v AND 0xffffffff"
  unfolding set_lo32_def mask_lo32 mask_hi32
  by (rule bit_word_eqI) (auto simp: bit_simps)

lemma hi_set_hi32 [simp]: "drop_bit 32 (set_hi32 cur v) = v AND 0xffffffff"
  unfolding set_hi32_def mask_lo32
  by (rule bit_word_eqI) (auto simp: bit_simps)

lemma lo_set_hi32 [simp]: "set_hi32 cur v AND 0xffffffff = cur AND 0xffffffff"
  unfolding set_hi32_def mask_lo32
  by (rule bit_word_eqI) (auto simp: bit_simps)

lemma hi_zero_iff: "drop_bit 32 (w :: u64) = 0 \<longleftrightarrow> w AND 0xffffffff = w"
proof
  assume "drop_bit 32 w = 0"
  then have b: "\<not> bit w (32 + n)" for n
    using bit_drop_bit_eq [of 32 w] by (auto simp: fun_eq_iff)
  show "w AND 0xffffffff = w"
    unfolding mask_lo32
  proof (rule bit_word_eqI)
    fix n
    show "bit (w AND mask 32) n \<longleftrightarrow> bit w n"
      using b [of "n - 32"] by (cases "n < 32") (auto simp: bit_simps)
  qed
next
  assume "w AND 0xffffffff = w"
  then have "drop_bit 32 w = drop_bit 32 (w AND mask 32)"
    by (simp add: mask_lo32)
  also have "\<dots> = 0"
    by (rule bit_word_eqI) (auto simp: bit_simps)
  finally show "drop_bit 32 w = 0" .
qed

section \<open>Word conversions\<close>

lemma unat_u32_mono: "(a :: u32) < b \<Longrightarrow> unat a < unat b"
  by (simp add: word_less_nat_alt)

lemma take_bit_small:
  assumes "unat (w :: u32) < 2 ^ n"
  shows "take_bit n (ucast w :: u64) = ucast w"
proof -
  have "take_bit n w = w"
    using assms by (simp add: word_unat_eq_iff unsigned_take_bit_eq take_bit_nat_eq_self)
  then have "ucast (take_bit n w) = (ucast w :: u64)" by simp
  moreover have "ucast (take_bit n w) = take_bit n (ucast w :: u64)"
    by (rule bit_word_eqI) (auto simp: bit_simps)
  ultimately show ?thesis by simp
qed

lemma unat_ucast_u32 [simp]: "unat (ucast (w :: u32) :: u64) = unat w"
proof -
  have "unat w < 2 ^ 64"
    using unsigned_less [of w, where ?'a = nat] by simp
  then show ?thesis by (simp add: unsigned_ucast_eq take_bit_nat_eq_self)
qed

lemma u32_of_below:
  assumes "\<not> ucast (d :: u32) \<le> (v :: u64)"
  shows "(ucast v :: u32) < d"
proof -
  have "unat v < unat d" using assms by (simp add: word_le_nat_alt not_le)
  moreover have "unat d < 2 ^ 32" using unsigned_less [of d, where ?'a = nat] by simp
  ultimately have "unat (ucast v :: u32) = unat v"
    by (simp add: unsigned_ucast_eq take_bit_nat_eq_self)
  with \<open>unat v < unat d\<close> show ?thesis by (simp add: word_less_nat_alt)
qed

lemma ucast_u64_u32 [simp]: "ucast (ucast (v :: u32) :: u64) = v"
  by (rule bit_word_eqI) (auto simp: bit_simps)

lemma dword_lo [simp]:
  "ucast (((cur :: u64) AND 0xffffffff00000000 OR ucast (v :: u32)) AND 0xffffffff) = v"
  unfolding mask_lo32 mask_hi32 by (rule bit_word_eqI) (auto simp: bit_simps)

lemma dword_hi [simp]:
  "ucast (drop_bit 32 ((cur :: u64) AND 0xffffffff OR push_bit 32 (ucast (v :: u32)))) = v"
  unfolding mask_lo32 by (rule bit_word_eqI) (auto simp: bit_simps)

lemma dword_hi_push [simp]: "ucast (drop_bit 32 (push_bit 32 (ucast (v :: u32) :: u64))) = v"
  by (rule bit_word_eqI) (auto simp: bit_simps)

section \<open>Ring indices\<close>

text \<open>
  Every queue of the system is a ring of \<open>depth\<close> slots indexed by a \<open>uint32_t\<close>; an index
  advances by \<open>(i + 1) % depth\<close> and the producer stops one slot short of the consumer.
\<close>

definition ring_next :: "u32 \<Rightarrow> u32 \<Rightarrow> u32" where
  "ring_next depth i = (i + 1) mod depth"

text \<open>\<open>ring_dist depth a b\<close> is the number of steps from slot \<open>a\<close> to slot \<open>b\<close>.\<close>

definition ring_dist :: "u32 \<Rightarrow> u32 \<Rightarrow> u32 \<Rightarrow> nat" where
  "ring_dist depth a b = (unat b + unat depth - unat a) mod unat depth"

lemma wrap_sub_mod:
  fixes a b d :: nat
  assumes "a < d" and "b < d"
  shows "(b + d - a) mod d = (if a \<le> b then b - a else d - a + b)"
proof (cases "a \<le> b")
  case True
  then have "b + d - a = (b - a) + d" by linarith
  then have "(b + d - a) mod d = (b - a) mod d" by (simp only: mod_add_self2)
  with True assms show ?thesis by simp
next
  case False
  then have "b + d - a < d" and "b + d - a = d - a + b"
    using assms by linarith+
  with False show ?thesis by simp
qed

locale ring =
  fixes depth :: u32
  assumes depth_pos: "0 < depth"
begin

lemma unat_depth_pos: "0 < unat depth"
  using depth_pos by (simp add: word_less_nat_alt)

lemma next_less [simp]: "ring_next depth i < depth"
  using unat_depth_pos by (simp add: ring_next_def word_less_nat_alt unat_mod)

lemma unat_next: "i < depth \<Longrightarrow> unat (ring_next depth i) = (unat i + 1) mod unat depth"
proof -
  assume "i < depth"
  then have "unat i < unat depth"
    by (simp add: word_less_nat_alt)
  moreover have "unat depth < 2 ^ 32"
    using unsigned_less [of depth, where ?'a = nat] by simp
  ultimately have "unat (i + 1) = unat i + 1"
    by (simp add: unat_word_ariths)
  then show ?thesis
    by (simp add: ring_next_def unat_mod)
qed

lemma dist_less: "ring_dist depth a b < unat depth"
  using unat_depth_pos by (simp add: ring_dist_def)

lemma dist_cases:
  assumes "a < depth" and "b < depth"
  shows "ring_dist depth a b =
    (if a \<le> b then unat b - unat a else unat depth - unat a + unat b)"
  unfolding ring_dist_def
  using wrap_sub_mod [of "unat a" "unat depth" "unat b"] assms
  by (simp only: word_less_nat_alt word_le_nat_alt)

lemma dist_zero_iff:
  assumes "a < depth" and "b < depth"
  shows "ring_dist depth a b = 0 \<longleftrightarrow> a = b"
proof -
  have ab: "unat a < unat depth" "unat b < unat depth"
    using assms by (simp_all add: word_less_nat_alt)
  show ?thesis
    using ab by (auto simp: dist_cases [OF assms] word_le_nat_alt word_unat_eq_iff)
qed

lemma dist_next:
  assumes "a < depth" and "b < depth" and "a \<noteq> b"
  shows "ring_dist depth (ring_next depth a) b = ring_dist depth a b - 1"
proof -
  have ab: "unat a < unat depth" "unat b < unat depth" "unat a \<noteq> unat b"
    using assms by (simp_all add: word_less_nat_alt word_unat_eq_iff)
  have n: "ring_next depth a < depth" by simp
  show ?thesis
  proof (cases "unat a + 1 = unat depth")
    case True
    then have "unat (ring_next depth a) = 0"
      using assms(1) by (simp add: unat_next)
    with True ab show ?thesis
      by (auto simp: dist_cases [OF n assms(2)] dist_cases [OF assms(1,2)] word_le_nat_alt)
  next
    case False
    with ab have "unat (ring_next depth a) = unat a + 1"
      using assms(1) by (simp add: unat_next)
    with ab show ?thesis
      by (auto simp: dist_cases [OF n assms(2)] dist_cases [OF assms(1,2)] word_le_nat_alt)
  qed
qed

lemma dist_next_right:
  assumes "a < depth" and "b < depth" and "ring_next depth b \<noteq> a"
  shows "ring_dist depth a (ring_next depth b) = Suc (ring_dist depth a b)"
proof -
  have ab: "unat a < unat depth" "unat b < unat depth"
    using assms by (simp_all add: word_less_nat_alt)
  have n: "ring_next depth b < depth" by simp
  have ne: "unat (ring_next depth b) \<noteq> unat a"
    using assms(3) by (simp add: word_unat_eq_iff)
  show ?thesis
  proof (cases "unat b + 1 = unat depth")
    case True
    then have "unat (ring_next depth b) = 0"
      using assms(2) by (simp add: unat_next)
    with True ab ne show ?thesis
      by (auto simp: dist_cases [OF assms(1) n] dist_cases [OF assms(1,2)] word_le_nat_alt)
  next
    case False
    with ab have "unat (ring_next depth b) = unat b + 1"
      using assms(2) by (simp add: unat_next)
    with ab ne show ?thesis
      by (auto simp: dist_cases [OF assms(1) n] dist_cases [OF assms(1,2)] word_le_nat_alt)
  qed
qed

lemma full_dist:
  assumes "a < depth" and "b < depth"
  shows "ring_next depth b = a \<longleftrightarrow> Suc (ring_dist depth a b) = unat depth"
proof
  assume eq: "ring_next depth b = a"
  have ub: "unat b < unat depth" using assms by (simp add: word_less_nat_alt)
  have "unat a = (unat b + 1) mod unat depth"
    using unat_next [OF assms(2)] eq by simp
  with ub show "Suc (ring_dist depth a b) = unat depth"
    by (cases "unat b + 1 = unat depth")
      (auto simp: dist_cases [OF assms] word_le_nat_alt)
next
  assume "Suc (ring_dist depth a b) = unat depth"
  then show "ring_next depth b = a"
    using dist_next_right [OF assms] dist_less [of a "ring_next depth b"] by fastforce
qed

lemma funpow_less: "h < depth \<Longrightarrow> (ring_next depth ^^ k) h < depth"
  by (cases k) simp_all

lemma unat_funpow:
  assumes "h < depth"
  shows "unat ((ring_next depth ^^ k) h) = (unat h + k) mod unat depth"
proof (induction k)
  case 0
  show ?case using assms by (simp add: word_less_nat_alt)
next
  case (Suc k)
  then show ?case by (simp add: unat_next [OF funpow_less [OF assms]] mod_Suc_eq)
qed

lemma funpow_dist:
  assumes "h < depth" and "t < depth"
  shows "(ring_next depth ^^ ring_dist depth h t) h = t"
proof (rule word_unat_eq_iff [THEN iffD2])
  have lt: "unat h < unat depth" "unat t < unat depth"
    using assms by (simp_all add: word_less_nat_alt)
  then have "(unat h + (unat t + unat depth - unat h)) mod unat depth = unat t" by simp
  then show "unat ((ring_next depth ^^ ring_dist depth h t) h) = unat t"
    by (simp add: unat_funpow [OF assms(1)] ring_dist_def mod_add_right_eq)
qed

lemma funpow_neq:
  assumes "h < depth" and "k < n" and "n < unat depth"
  shows "(ring_next depth ^^ k) h \<noteq> (ring_next depth ^^ n) h"
proof
  assume "(ring_next depth ^^ k) h = (ring_next depth ^^ n) h"
  then have "(unat h + k) mod unat depth = (unat h + n) mod unat depth"
    using unat_funpow [OF assms(1)] by metis
  then have "unat depth dvd (unat h + n) - (unat h + k)"
    using assms(2) by (metis mod_eq_dvd_iff_nat add_le_cancel_left less_imp_le)
  with assms(2,3) show False by (simp add: nat_dvd_not_less)
qed

lemma dist_funpow:
  assumes "h < depth" and "t < depth" and "n \<le> ring_dist depth h t"
  shows "ring_dist depth ((ring_next depth ^^ n) h) t = ring_dist depth h t - n"
  using assms(3)
proof (induction n)
  case (Suc n)
  let ?h = "(ring_next depth ^^ n) h"
  have h: "?h < depth" by (rule funpow_less [OF assms(1)])
  from Suc have "ring_dist depth ?h t = ring_dist depth h t - n" "ring_dist depth ?h t \<noteq> 0" by simp_all
  then show ?case using dist_next [OF h assms(2)] dist_zero_iff [OF h assms(2)] by simp
qed simp

text \<open>The number of filled slots as the code computes it, in wrap-around 32-bit arithmetic.\<close>

lemma pending_word:
  assumes "h < depth" and "t < depth"
  shows "unat (if h \<le> t then t - h else depth - h + t) = ring_dist depth h t"
  using assms dist_cases [OF assms] unsigned_less [of depth, where ?'a = nat]
  by (auto simp: unat_sub word_le_nat_alt word_less_nat_alt unat_word_ariths)

end

lemma ringI: "d \<noteq> 0 \<Longrightarrow> ring d"
  by unfold_locales (simp add: word_gt_0)

section \<open>Machines with an invariant\<close>

text \<open>
  A deterministic machine that may fail to return (\<open>None\<close>: an endless loop), with an
  invariant under which every step returns and keeps it.
\<close>

primrec run_steps :: "('e \<Rightarrow> 's \<Rightarrow> 's option) \<Rightarrow> 'e list \<Rightarrow> 's \<Rightarrow> 's option" where
  "run_steps step [] s = Some s"
| "run_steps step (e # es) s = Option.bind (step e s) (run_steps step es)"

locale inv_machine =
  fixes step :: "'e \<Rightarrow> 's \<Rightarrow> 's option"
    and inv :: "'s \<Rightarrow> bool"
  assumes step_inv: "inv s \<Longrightarrow> \<exists>s'. step e s = Some s' \<and> inv s'"
begin

lemma run_inv: "inv s \<Longrightarrow> \<exists>s'. run_steps step es s = Some s' \<and> inv s'"
proof (induction es arbitrary: s)
  case Nil
  then show ?case by simp
next
  case (Cons e es)
  obtain t where "step e s = Some t" and "inv t"
    using step_inv [OF Cons.prems] by blast
  with Cons.IH [of t] show ?case by simp
qed

lemma run_defined: "inv s \<Longrightarrow> run_steps step es s \<noteq> None"
  using run_inv by fastforce

lemma run_inv_the: "inv s \<Longrightarrow> run_steps step es s = Some t \<Longrightarrow> inv t"
  using run_inv [of s es] by auto

end

end
