(* ===== verification/UB_Regs.thy ===== *)
theory UB_Regs
  imports UB_Prelude
begin

text \<open>
  The constants of the \<^verbatim>\<open>linqu-ub\<close> device: the register layout of
  \<^verbatim>\<open>linqu_ub_regs.h\<close> and the protocol constants that open
  \<^verbatim>\<open>linqu_ub.c\<close>. C macros have no type of their own, so each is a numeral at
  every word type; shift counts are naturals.
\<close>

section \<open>Constants of \<^verbatim>\<open>linqu_ub_regs.h\<close>\<close>

abbreviation (input) LINQU_UB_MMIO_REGION_SIZE :: "'a::len word" where "LINQU_UB_MMIO_REGION_SIZE \<equiv> 0x10000"
abbreviation (input) LINQU_UB_UBIOS_REGION_SIZE :: "'a::len word" where "LINQU_UB_UBIOS_REGION_SIZE \<equiv> 0x1000"
abbreviation (input) LINQU_UB_MSGQ_BASE :: "'a::len word" where "LINQU_UB_MSGQ_BASE \<equiv> 0x200"
abbreviation (input) LINQU_UB_MSGQ_WINDOW_SIZE :: "'a::len word" where "LINQU_UB_MSGQ_WINDOW_SIZE \<equiv> 0x120"
abbreviation (input) LINQU_UB_ENDPOINT_BASE :: "'a::len word" where "LINQU_UB_ENDPOINT_BASE \<equiv> 0x1000"
abbreviation (input) LINQU_UB_ENDPOINT_STRIDE :: "'a::len word" where "LINQU_UB_ENDPOINT_STRIDE \<equiv> 0x100"
abbreviation (input) LINQU_UB_UMMU_BASE :: "'a::len word" where "LINQU_UB_UMMU_BASE \<equiv> 0x8000"
abbreviation (input) LINQU_UB_UMMU_REGION_SIZE :: "'a::len word" where "LINQU_UB_UMMU_REGION_SIZE \<equiv> 0x5000"
abbreviation (input) LINQU_UB_UMMU_IIDR :: "'a::len word" where "LINQU_UB_UMMU_IIDR \<equiv> 0"
abbreviation (input) LINQU_UB_UMMU_AIDR :: "'a::len word" where "LINQU_UB_UMMU_AIDR \<equiv> 0x0004"
abbreviation (input) LINQU_UB_UMMU_CAP0 :: "'a::len word" where "LINQU_UB_UMMU_CAP0 \<equiv> 0x0010"
abbreviation (input) LINQU_UB_UMMU_CAP1 :: "'a::len word" where "LINQU_UB_UMMU_CAP1 \<equiv> 0x0014"
abbreviation (input) LINQU_UB_UMMU_CAP2 :: "'a::len word" where "LINQU_UB_UMMU_CAP2 \<equiv> 0x0018"
abbreviation (input) LINQU_UB_UMMU_CAP3 :: "'a::len word" where "LINQU_UB_UMMU_CAP3 \<equiv> 0x001c"
abbreviation (input) LINQU_UB_UMMU_CAP4 :: "'a::len word" where "LINQU_UB_UMMU_CAP4 \<equiv> 0x0020"
abbreviation (input) LINQU_UB_UMMU_CAP5 :: "'a::len word" where "LINQU_UB_UMMU_CAP5 \<equiv> 0x0024"
abbreviation (input) LINQU_UB_UMMU_CAP6 :: "'a::len word" where "LINQU_UB_UMMU_CAP6 \<equiv> 0x0028"
abbreviation (input) LINQU_UB_UMMU_CR0 :: "'a::len word" where "LINQU_UB_UMMU_CR0 \<equiv> 0x0030"
abbreviation (input) LINQU_UB_UMMU_CR0ACK :: "'a::len word" where "LINQU_UB_UMMU_CR0ACK \<equiv> 0x0034"
abbreviation (input) LINQU_UB_UMMU_CR1 :: "'a::len word" where "LINQU_UB_UMMU_CR1 \<equiv> 0x0038"
abbreviation (input) LINQU_UB_UMMU_GBPA :: "'a::len word" where "LINQU_UB_UMMU_GBPA \<equiv> 0x0050"
abbreviation (input) LINQU_UB_UMMU_TECT_BASE :: "'a::len word" where "LINQU_UB_UMMU_TECT_BASE \<equiv> 0x0070"
abbreviation (input) LINQU_UB_UMMU_TECT_BASE_CFG :: "'a::len word" where "LINQU_UB_UMMU_TECT_BASE_CFG \<equiv> 0x0078"
abbreviation (input) LINQU_UB_UMMU_MCMDQ_BASE :: "'a::len word" where "LINQU_UB_UMMU_MCMDQ_BASE \<equiv> 0x0100"
abbreviation (input) LINQU_UB_UMMU_MCMDQ_PROD :: "'a::len word" where "LINQU_UB_UMMU_MCMDQ_PROD \<equiv> 0x0108"
abbreviation (input) LINQU_UB_UMMU_MCMDQ_CONS :: "'a::len word" where "LINQU_UB_UMMU_MCMDQ_CONS \<equiv> 0x010c"
abbreviation (input) LINQU_UB_UMMU_EVTQ_BASE :: "'a::len word" where "LINQU_UB_UMMU_EVTQ_BASE \<equiv> 0x1100"
abbreviation (input) LINQU_UB_UMMU_EVTQ_PROD :: "'a::len word" where "LINQU_UB_UMMU_EVTQ_PROD \<equiv> 0x1108"
abbreviation (input) LINQU_UB_UMMU_EVTQ_CONS :: "'a::len word" where "LINQU_UB_UMMU_EVTQ_CONS \<equiv> 0x110c"
abbreviation (input) LINQU_UB_REG_VERSION :: "'a::len word" where "LINQU_UB_REG_VERSION \<equiv> 0"
abbreviation (input) LINQU_UB_REG_FEATURES :: "'a::len word" where "LINQU_UB_REG_FEATURES \<equiv> 0x08"
abbreviation (input) LINQU_UB_REG_CMDQ_BASE_LO :: "'a::len word" where "LINQU_UB_REG_CMDQ_BASE_LO \<equiv> 0x10"
abbreviation (input) LINQU_UB_REG_CMDQ_BASE_HI :: "'a::len word" where "LINQU_UB_REG_CMDQ_BASE_HI \<equiv> 0x18"
abbreviation (input) LINQU_UB_REG_CMDQ_SIZE :: "'a::len word" where "LINQU_UB_REG_CMDQ_SIZE \<equiv> 0x20"
abbreviation (input) LINQU_UB_REG_CMDQ_HEAD :: "'a::len word" where "LINQU_UB_REG_CMDQ_HEAD \<equiv> 0x28"
abbreviation (input) LINQU_UB_REG_CMDQ_TAIL :: "'a::len word" where "LINQU_UB_REG_CMDQ_TAIL \<equiv> 0x30"
abbreviation (input) LINQU_UB_REG_CQ_BASE_LO :: "'a::len word" where "LINQU_UB_REG_CQ_BASE_LO \<equiv> 0x38"
abbreviation (input) LINQU_UB_REG_CQ_BASE_HI :: "'a::len word" where "LINQU_UB_REG_CQ_BASE_HI \<equiv> 0x40"
abbreviation (input) LINQU_UB_REG_CQ_SIZE :: "'a::len word" where "LINQU_UB_REG_CQ_SIZE \<equiv> 0x48"
abbreviation (input) LINQU_UB_REG_CQ_HEAD :: "'a::len word" where "LINQU_UB_REG_CQ_HEAD \<equiv> 0x50"
abbreviation (input) LINQU_UB_REG_CQ_TAIL :: "'a::len word" where "LINQU_UB_REG_CQ_TAIL \<equiv> 0x58"
abbreviation (input) LINQU_UB_REG_STATUS :: "'a::len word" where "LINQU_UB_REG_STATUS \<equiv> 0x60"
abbreviation (input) LINQU_UB_REG_DOORBELL :: "'a::len word" where "LINQU_UB_REG_DOORBELL \<equiv> 0x68"
abbreviation (input) LINQU_UB_REG_LAST_ERROR :: "'a::len word" where "LINQU_UB_REG_LAST_ERROR \<equiv> 0x70"
abbreviation (input) LINQU_UB_REG_IRQ_STATUS :: "'a::len word" where "LINQU_UB_REG_IRQ_STATUS \<equiv> 0x78"
abbreviation (input) LINQU_UB_REG_IRQ_ACK :: "'a::len word" where "LINQU_UB_REG_IRQ_ACK \<equiv> 0x80"
abbreviation (input) LINQU_UB_REG_DEFAULT_SEGMENT :: "'a::len word" where "LINQU_UB_REG_DEFAULT_SEGMENT \<equiv> 0x88"
abbreviation (input) LINQU_UB_MSGQ_SQ_ADDR_L :: "'a::len word" where "LINQU_UB_MSGQ_SQ_ADDR_L \<equiv> 0"
abbreviation (input) LINQU_UB_MSGQ_SQ_ADDR_H :: "'a::len word" where "LINQU_UB_MSGQ_SQ_ADDR_H \<equiv> 0x004"
abbreviation (input) LINQU_UB_MSGQ_SQ_PI :: "'a::len word" where "LINQU_UB_MSGQ_SQ_PI \<equiv> 0x008"
abbreviation (input) LINQU_UB_MSGQ_SQ_CI :: "'a::len word" where "LINQU_UB_MSGQ_SQ_CI \<equiv> 0x00c"
abbreviation (input) LINQU_UB_MSGQ_SQ_DEPTH :: "'a::len word" where "LINQU_UB_MSGQ_SQ_DEPTH \<equiv> 0x010"
abbreviation (input) LINQU_UB_MSGQ_SQ_STATUS :: "'a::len word" where "LINQU_UB_MSGQ_SQ_STATUS \<equiv> 0x014"
abbreviation (input) LINQU_UB_MSGQ_SQ_INT_MSK :: "'a::len word" where "LINQU_UB_MSGQ_SQ_INT_MSK \<equiv> 0x018"
abbreviation (input) LINQU_UB_MSGQ_RQ_ADDR_L :: "'a::len word" where "LINQU_UB_MSGQ_RQ_ADDR_L \<equiv> 0x040"
abbreviation (input) LINQU_UB_MSGQ_RQ_ADDR_H :: "'a::len word" where "LINQU_UB_MSGQ_RQ_ADDR_H \<equiv> 0x044"
abbreviation (input) LINQU_UB_MSGQ_RQ_PI :: "'a::len word" where "LINQU_UB_MSGQ_RQ_PI \<equiv> 0x048"
abbreviation (input) LINQU_UB_MSGQ_RQ_CI :: "'a::len word" where "LINQU_UB_MSGQ_RQ_CI \<equiv> 0x04c"
abbreviation (input) LINQU_UB_MSGQ_RQ_DEPTH :: "'a::len word" where "LINQU_UB_MSGQ_RQ_DEPTH \<equiv> 0x050"
abbreviation (input) LINQU_UB_MSGQ_RQ_ENTRY_SIZE :: "'a::len word" where "LINQU_UB_MSGQ_RQ_ENTRY_SIZE \<equiv> 0x054"
abbreviation (input) LINQU_UB_MSGQ_RQ_STATUS :: "'a::len word" where "LINQU_UB_MSGQ_RQ_STATUS \<equiv> 0x058"
abbreviation (input) LINQU_UB_MSGQ_CQ_ADDR_L :: "'a::len word" where "LINQU_UB_MSGQ_CQ_ADDR_L \<equiv> 0x070"
abbreviation (input) LINQU_UB_MSGQ_CQ_ADDR_H :: "'a::len word" where "LINQU_UB_MSGQ_CQ_ADDR_H \<equiv> 0x074"
abbreviation (input) LINQU_UB_MSGQ_CQ_PI :: "'a::len word" where "LINQU_UB_MSGQ_CQ_PI \<equiv> 0x078"
abbreviation (input) LINQU_UB_MSGQ_CQ_CI :: "'a::len word" where "LINQU_UB_MSGQ_CQ_CI \<equiv> 0x07c"
abbreviation (input) LINQU_UB_MSGQ_CQ_DEPTH :: "'a::len word" where "LINQU_UB_MSGQ_CQ_DEPTH \<equiv> 0x080"
abbreviation (input) LINQU_UB_MSGQ_CQ_STATUS :: "'a::len word" where "LINQU_UB_MSGQ_CQ_STATUS \<equiv> 0x084"
abbreviation (input) LINQU_UB_MSGQ_CQ_INT_MASK :: "'a::len word" where "LINQU_UB_MSGQ_CQ_INT_MASK \<equiv> 0x088"
abbreviation (input) LINQU_UB_MSGQ_CQ_INT_STATUS :: "'a::len word" where "LINQU_UB_MSGQ_CQ_INT_STATUS \<equiv> 0x08c"
abbreviation (input) LINQU_UB_MSGQ_CQ_INT_RO :: "'a::len word" where "LINQU_UB_MSGQ_CQ_INT_RO \<equiv> 0x090"
abbreviation (input) LINQU_UB_MSGQ_RST :: "'a::len word" where "LINQU_UB_MSGQ_RST \<equiv> 0x0b0"
abbreviation (input) LINQU_UB_MSGQ_INT_SEL :: "'a::len word" where "LINQU_UB_MSGQ_INT_SEL \<equiv> 0x0c0"
abbreviation (input) LINQU_UB_MSGQ_SQE_SIZE :: "'a::len word" where "LINQU_UB_MSGQ_SQE_SIZE \<equiv> 16"
abbreviation (input) LINQU_UB_MSGQ_CQE_SIZE :: "'a::len word" where "LINQU_UB_MSGQ_CQE_SIZE \<equiv> 16"
abbreviation (input) LINQU_UB_MSGQ_RQE_SIZE :: "'a::len word" where "LINQU_UB_MSGQ_RQE_SIZE \<equiv> 0x800"
abbreviation (input) LINQU_UB_MSGQ_SQE_PLD_SIZE :: "'a::len word" where "LINQU_UB_MSGQ_SQE_PLD_SIZE \<equiv> 0x800"
abbreviation (input) LINQU_UB_DESC_BYTES :: "'a::len word" where "LINQU_UB_DESC_BYTES \<equiv> 64"
abbreviation (input) LINQU_UB_MAX_ENDPOINTS :: "'a::len word" where "LINQU_UB_MAX_ENDPOINTS \<equiv> 16"
abbreviation (input) LINQU_UB_DEFAULT_CMDQ_DEPTH :: "'a::len word" where "LINQU_UB_DEFAULT_CMDQ_DEPTH \<equiv> 32"
abbreviation (input) LINQU_UB_DEFAULT_CQ_DEPTH :: "'a::len word" where "LINQU_UB_DEFAULT_CQ_DEPTH \<equiv> 64"
abbreviation (input) LINQU_UB_IRQ_COMPLETION :: "'a::len word" where "LINQU_UB_IRQ_COMPLETION \<equiv> 0x1"
abbreviation (input) LINQU_UB_IRQ_ERROR :: "'a::len word" where "LINQU_UB_IRQ_ERROR \<equiv> 0x2"
abbreviation (input) LINQU_UB_IRQ_CQ_OVERFLOW :: "'a::len word" where "LINQU_UB_IRQ_CQ_OVERFLOW \<equiv> 0x4"
abbreviation (input) LINQU_UB_STATUS_CMDQ_PENDING_SHIFT :: "nat" where "LINQU_UB_STATUS_CMDQ_PENDING_SHIFT \<equiv> 0"
abbreviation (input) LINQU_UB_STATUS_CQ_PENDING_SHIFT :: "nat" where "LINQU_UB_STATUS_CQ_PENDING_SHIFT \<equiv> 16"
abbreviation (input) LINQU_UB_STATUS_CMDQ_HEAD_SHIFT :: "nat" where "LINQU_UB_STATUS_CMDQ_HEAD_SHIFT \<equiv> 32"
abbreviation (input) LINQU_UB_STATUS_CMDQ_TAIL_SHIFT :: "nat" where "LINQU_UB_STATUS_CMDQ_TAIL_SHIFT \<equiv> 40"
abbreviation (input) LINQU_UB_STATUS_CQ_HEAD_SHIFT :: "nat" where "LINQU_UB_STATUS_CQ_HEAD_SHIFT \<equiv> 48"
abbreviation (input) LINQU_UB_STATUS_CQ_TAIL_SHIFT :: "nat" where "LINQU_UB_STATUS_CQ_TAIL_SHIFT \<equiv> 56"
abbreviation (input) LINQU_UB_ERR_NONE :: "'a::len word" where "LINQU_UB_ERR_NONE \<equiv> 0"
abbreviation (input) LINQU_UB_ERR_INVALID_REGISTER_WRITE :: "'a::len word" where "LINQU_UB_ERR_INVALID_REGISTER_WRITE \<equiv> 1"
abbreviation (input) LINQU_UB_ERR_INVALID_REGISTER_READ :: "'a::len word" where "LINQU_UB_ERR_INVALID_REGISTER_READ \<equiv> 2"
abbreviation (input) LINQU_UB_ERR_INVALID_OFFSET :: "'a::len word" where "LINQU_UB_ERR_INVALID_OFFSET \<equiv> 3"
abbreviation (input) LINQU_UB_ERR_ENDPOINT_NOT_FOUND :: "'a::len word" where "LINQU_UB_ERR_ENDPOINT_NOT_FOUND \<equiv> 4"
abbreviation (input) LINQU_UB_ERR_QUEUE_OVERFLOW :: "'a::len word" where "LINQU_UB_ERR_QUEUE_OVERFLOW \<equiv> 5"
abbreviation (input) LINQU_UB_ERR_RANGE :: "'a::len word" where "LINQU_UB_ERR_RANGE \<equiv> 6"
abbreviation (input) LINQU_UB_ERR_INVALID_DESCRIPTOR :: "'a::len word" where "LINQU_UB_ERR_INVALID_DESCRIPTOR \<equiv> 7"
abbreviation (input) LINQU_UB_ERR_NOT_IMPLEMENTED :: "'a::len word" where "LINQU_UB_ERR_NOT_IMPLEMENTED \<equiv> 8"

section \<open>Constants of \<^verbatim>\<open>linqu_ub.c\<close>\<close>

abbreviation (input) LINQU_UB_MSG_REQ_CODE_CFG0_READ :: "'a::len word" where "LINQU_UB_MSG_REQ_CODE_CFG0_READ \<equiv> 0x4"
abbreviation (input) LINQU_UB_MSG_REQ_CODE_CFG0_WRITE :: "'a::len word" where "LINQU_UB_MSG_REQ_CODE_CFG0_WRITE \<equiv> 0x14"
abbreviation (input) LINQU_UB_MSG_REQ_CODE_CFG1_READ :: "'a::len word" where "LINQU_UB_MSG_REQ_CODE_CFG1_READ \<equiv> 0x24"
abbreviation (input) LINQU_UB_MSG_REQ_CODE_CFG1_WRITE :: "'a::len word" where "LINQU_UB_MSG_REQ_CODE_CFG1_WRITE \<equiv> 0x34"
abbreviation (input) LINQU_UB_MSG_RSP_BIT :: "'a::len word" where "LINQU_UB_MSG_RSP_BIT \<equiv> 0x1"
abbreviation (input) LINQU_UB_MSG_CQE_SUCCESS :: "'a::len word" where "LINQU_UB_MSG_CQE_SUCCESS \<equiv> 0"
abbreviation (input) LINQU_UB_TASK_PROTOCOL_MSG :: "'a::len word" where "LINQU_UB_TASK_PROTOCOL_MSG \<equiv> 0"
abbreviation (input) LINQU_UB_TASK_PROTOCOL_ENUM :: "'a::len word" where "LINQU_UB_TASK_PROTOCOL_ENUM \<equiv> 1"
abbreviation (input) LINQU_UB_TASK_HISI_PRIVATE :: "'a::len word" where "LINQU_UB_TASK_HISI_PRIVATE \<equiv> 2"
abbreviation (input) LINQU_UB_HISI_PRIVATE_EU_TABLE_CFG_CMD :: "'a::len word" where "LINQU_UB_HISI_PRIVATE_EU_TABLE_CFG_CMD \<equiv> 0x2"
abbreviation (input) LINQU_UB_CFG_SPACE_CFG1_BASIC :: "'a::len word" where "LINQU_UB_CFG_SPACE_CFG1_BASIC \<equiv> 0x40000"
abbreviation (input) LINQU_UB_CFG_SPACE_GUID :: "'a::len word" where "LINQU_UB_CFG_SPACE_GUID \<equiv> 0x38"
abbreviation (input) LINQU_UB_CFG_SPACE_NUM_PORTS :: "'a::len word" where "LINQU_UB_CFG_SPACE_NUM_PORTS \<equiv> 0x4"
abbreviation (input) LINQU_UB_CFG_SPACE_NUM_ENTITIES :: "'a::len word" where "LINQU_UB_CFG_SPACE_NUM_ENTITIES \<equiv> 0x6"
abbreviation (input) LINQU_UB_CFG_SPACE_CAP_BITMAP :: "'a::len word" where "LINQU_UB_CFG_SPACE_CAP_BITMAP \<equiv> 0x8"
abbreviation (input) LINQU_UB_CFG_SPACE_FEATURE0 :: "'a::len word" where "LINQU_UB_CFG_SPACE_FEATURE0 \<equiv> 0x28"
abbreviation (input) LINQU_UB_CFG1_CAP_BITMAP :: "'a::len word" where "LINQU_UB_CFG1_CAP_BITMAP \<equiv> 0x40004"
abbreviation (input) LINQU_UB_CFG1_SUPPORT_FEATURE_L :: "'a::len word" where "LINQU_UB_CFG1_SUPPORT_FEATURE_L \<equiv> 0x40024"
abbreviation (input) LINQU_UB_CFG1_ERS0_SS :: "'a::len word" where "LINQU_UB_CFG1_ERS0_SS \<equiv> 0x40034"
abbreviation (input) LINQU_UB_CFG1_SYS_PGS :: "'a::len word" where "LINQU_UB_CFG1_SYS_PGS \<equiv> 0x40084"
abbreviation (input) LINQU_UB_CFG1_EU_TBA_L :: "'a::len word" where "LINQU_UB_CFG1_EU_TBA_L \<equiv> 0x40088"
abbreviation (input) LINQU_UB_CFG1_EU_TBA_H :: "'a::len word" where "LINQU_UB_CFG1_EU_TBA_H \<equiv> 0x4008c"
abbreviation (input) LINQU_UB_CFG1_EU_TEN :: "'a::len word" where "LINQU_UB_CFG1_EU_TEN \<equiv> 0x40090"
abbreviation (input) LINQU_UB_CFG1_CLASS_CODE :: "'a::len word" where "LINQU_UB_CFG1_CLASS_CODE \<equiv> 0x400a4"
abbreviation (input) LINQU_UB_DECODER_CAP :: "'a::len word" where "LINQU_UB_DECODER_CAP \<equiv> 0x40404"
abbreviation (input) LINQU_UB_DECODER_CTRL :: "'a::len word" where "LINQU_UB_DECODER_CTRL \<equiv> 0x40408"
abbreviation (input) LINQU_UB_DECODER_MATT_BA0 :: "'a::len word" where "LINQU_UB_DECODER_MATT_BA0 \<equiv> 0x4040c"
abbreviation (input) LINQU_UB_DECODER_MATT_BA1 :: "'a::len word" where "LINQU_UB_DECODER_MATT_BA1 \<equiv> 0x40410"
abbreviation (input) LINQU_UB_DECODER_MMIO_BA0 :: "'a::len word" where "LINQU_UB_DECODER_MMIO_BA0 \<equiv> 0x40414"
abbreviation (input) LINQU_UB_DECODER_MMIO_BA1 :: "'a::len word" where "LINQU_UB_DECODER_MMIO_BA1 \<equiv> 0x40418"
abbreviation (input) LINQU_UB_DECODER_USI_IDX :: "'a::len word" where "LINQU_UB_DECODER_USI_IDX \<equiv> 0x4041c"
abbreviation (input) LINQU_UB_DECODER_CMDQ_CFG :: "'a::len word" where "LINQU_UB_DECODER_CMDQ_CFG \<equiv> 0x40440"
abbreviation (input) LINQU_UB_DECODER_CMDQ_PROD :: "'a::len word" where "LINQU_UB_DECODER_CMDQ_PROD \<equiv> 0x40444"
abbreviation (input) LINQU_UB_DECODER_CMDQ_CONS :: "'a::len word" where "LINQU_UB_DECODER_CMDQ_CONS \<equiv> 0x40448"
abbreviation (input) LINQU_UB_DECODER_CMDQ_BASE0 :: "'a::len word" where "LINQU_UB_DECODER_CMDQ_BASE0 \<equiv> 0x4044c"
abbreviation (input) LINQU_UB_DECODER_CMDQ_BASE1 :: "'a::len word" where "LINQU_UB_DECODER_CMDQ_BASE1 \<equiv> 0x40450"
abbreviation (input) LINQU_UB_DECODER_EVENTQ_CFG :: "'a::len word" where "LINQU_UB_DECODER_EVENTQ_CFG \<equiv> 0x40480"
abbreviation (input) LINQU_UB_DECODER_EVENTQ_PROD :: "'a::len word" where "LINQU_UB_DECODER_EVENTQ_PROD \<equiv> 0x40484"
abbreviation (input) LINQU_UB_DECODER_EVENTQ_CONS :: "'a::len word" where "LINQU_UB_DECODER_EVENTQ_CONS \<equiv> 0x40488"
abbreviation (input) LINQU_UB_DECODER_EVENTQ_BASE0 :: "'a::len word" where "LINQU_UB_DECODER_EVENTQ_BASE0 \<equiv> 0x4048c"
abbreviation (input) LINQU_UB_DECODER_EVENTQ_BASE1 :: "'a::len word" where "LINQU_UB_DECODER_EVENTQ_BASE1 \<equiv> 0x40490"
abbreviation (input) LINQU_UB_CFG1_CAP_BITMAP_WORD0 :: "'a::len word" where "LINQU_UB_CFG1_CAP_BITMAP_WORD0 \<equiv> 0x4b"
abbreviation (input) LINQU_UB_CFG1_SUPPORT_WORD0 :: "'a::len word" where "LINQU_UB_CFG1_SUPPORT_WORD0 \<equiv> 0x660"
abbreviation (input) LINQU_UB_DECODER_CAP_VALUE :: "'a::len word" where "LINQU_UB_DECODER_CAP_VALUE \<equiv> push_bit 16 1 OR push_bit 12 8 OR push_bit 4 8"
abbreviation (input) LINQU_UB_ENUM_CMD_TOPO_QUERY :: "'a::len word" where "LINQU_UB_ENUM_CMD_TOPO_QUERY \<equiv> 0"
abbreviation (input) LINQU_UB_ENUM_CMD_NA_CFG :: "'a::len word" where "LINQU_UB_ENUM_CMD_NA_CFG \<equiv> 1"
abbreviation (input) LINQU_UB_ENUM_CMD_NA_QUERY :: "'a::len word" where "LINQU_UB_ENUM_CMD_NA_QUERY \<equiv> 2"
abbreviation (input) LINQU_UB_ENUM_TOPO_QUERY_REQ :: "'a::len word" where "LINQU_UB_ENUM_TOPO_QUERY_REQ \<equiv> 1"
abbreviation (input) LINQU_UB_ENUM_TOPO_QUERY_RSP :: "'a::len word" where "LINQU_UB_ENUM_TOPO_QUERY_RSP \<equiv> 0"
abbreviation (input) LINQU_UB_ENUM_NA_CFG_RSP :: "'a::len word" where "LINQU_UB_ENUM_NA_CFG_RSP \<equiv> 0"
abbreviation (input) LINQU_UB_ENUM_NA_QUERY_RSP :: "'a::len word" where "LINQU_UB_ENUM_NA_QUERY_RSP \<equiv> 0"
abbreviation (input) LINQU_UB_ENUM_VERSION :: "'a::len word" where "LINQU_UB_ENUM_VERSION \<equiv> 1"
abbreviation (input) LINQU_UB_ENUM_TLV_SLICE_INFO :: "'a::len word" where "LINQU_UB_ENUM_TLV_SLICE_INFO \<equiv> 0"
abbreviation (input) LINQU_UB_ENUM_TLV_PORT_NUM :: "'a::len word" where "LINQU_UB_ENUM_TLV_PORT_NUM \<equiv> 1"
abbreviation (input) LINQU_UB_ENUM_TLV_PORT_INFO :: "'a::len word" where "LINQU_UB_ENUM_TLV_PORT_INFO \<equiv> 2"
abbreviation (input) LINQU_UB_ENUM_TLV_CAP_INFO :: "'a::len word" where "LINQU_UB_ENUM_TLV_CAP_INFO \<equiv> 4"
abbreviation (input) LINQU_UB_CLASS_BUS_CONTROLLER :: "'a::len word" where "LINQU_UB_CLASS_BUS_CONTROLLER \<equiv> 0"
abbreviation (input) LINQU_UB_FIRMWARE_EID_START :: "'a::len word" where "LINQU_UB_FIRMWARE_EID_START \<equiv> 1"
abbreviation (input) LINQU_UB_FIRMWARE_EID_END :: "'a::len word" where "LINQU_UB_FIRMWARE_EID_END \<equiv> 0x100"
abbreviation (input) LINQU_UB_UMMU_MIN_TID :: "'a::len word" where "LINQU_UB_UMMU_MIN_TID \<equiv> 1"
abbreviation (input) LINQU_UB_UMMU_MAX_TID :: "'a::len word" where "LINQU_UB_UMMU_MAX_TID \<equiv> 0x1000"
abbreviation (input) LINQU_UB_UMMU_PXM_INVALID :: "'a::len word" where "LINQU_UB_UMMU_PXM_INVALID \<equiv> 0xffff"
abbreviation (input) LINQU_UB_UMMU_VENDOR_ID :: "'a::len word" where "LINQU_UB_UMMU_VENDOR_ID \<equiv> 0xCC08"
abbreviation (input) LINQU_UB_MEM_VERSION :: "'a::len word" where "LINQU_UB_MEM_VERSION \<equiv> 0"
abbreviation (input) LINQU_UB_MEM_DECODER_COUNT :: "'a::len word" where "LINQU_UB_MEM_DECODER_COUNT \<equiv> 5"
abbreviation (input) LINQU_UB_MEM_DECODER_BASE :: "'a::len word" where "LINQU_UB_MEM_DECODER_BASE \<equiv> 0x6000"
abbreviation (input) LINQU_UB_MEM_DECODER_STRIDE :: "'a::len word" where "LINQU_UB_MEM_DECODER_STRIDE \<equiv> 0x40"
abbreviation (input) LINQU_UB_HI_EU_CFG_STATUS_SHIFT :: "nat" where "LINQU_UB_HI_EU_CFG_STATUS_SHIFT \<equiv> 15"
abbreviation (input) LINQU_UB_HI_EU_CFG_STATUS_SUCCESS :: "'a::len word" where "LINQU_UB_HI_EU_CFG_STATUS_SUCCESS \<equiv> push_bit 15 1"

end
