(* ===== verification/UB_State.thy ===== *)
theory UB_State
  imports UB_Regs
begin

text \<open>
  The state of the \<^verbatim>\<open>linqu-ub\<close> device (\<^verbatim>\<open>linqu_ub.h\<close>), the operations a
  host backend supplies (\<^verbatim>\<open>linqu_ub_backend.h\<close>) and the two interfaces of QEMU the
  device uses: DMA access to guest memory and the level of its interrupt line.

  QEMU is not part of the repository. Its DMA functions are the parameter \<open>bus\<close> of every
  operation that uses them, what the proofs rely on is the locale \<open>dma_memory\<close>, and flat guest
  RAM (\<open>ram_bus\<close>) is an instance of it. \<^verbatim>\<open>qemu_set_irq\<close> drives an output line: the
  field \<open>irq\<close> holds the level it was last driven to.
\<close>

section \<open>Device state\<close>

record ep_state =
  ep_endpoint_id :: u16
  ep_entity_id :: u32
  ep_cmdq_iova :: u64
  ep_cq_iova :: u64
  ep_cmdq_depth :: u32
  ep_cq_depth :: u32
  ep_cmdq_head :: u32
  ep_cmdq_tail :: u32
  ep_cq_head :: u32
  ep_cq_tail :: u32
  ep_default_segment :: u64
  ep_last_error :: u64
  ep_irq_status :: u64

record msgq_state =
  mq_sq_iova :: u64
  mq_rq_iova :: u64
  mq_cq_iova :: u64
  mq_sq_pi :: u32
  mq_sq_ci :: u32
  mq_sq_depth :: u32
  mq_rq_pi :: u32
  mq_rq_ci :: u32
  mq_rq_depth :: u32
  mq_rq_entry_size :: u32
  mq_cq_pi :: u32
  mq_cq_ci :: u32
  mq_cq_depth :: u32
  mq_cq_int_mask :: u32
  mq_cq_int_status :: u32
  mq_cq_int_ro :: u32
  mq_msgq_int_sel :: u32

record decoder_state =
  dec_mmio_ba :: u64
  dec_matt_ba :: u64
  dec_cmdq_base :: u64
  dec_eventq_base :: u64
  dec_ctrl :: u32
  dec_cap :: u32
  dec_usi_idx :: u32
  dec_cmdq_cfg :: u32
  dec_cmdq_prod :: u32
  dec_cmdq_cons :: u32
  dec_eventq_cfg :: u32
  dec_eventq_prod :: u32
  dec_eventq_cons :: u32

record ummu_state =
  um_iidr :: u32
  um_aidr :: u32
  um_cap0 :: u32
  um_cap1 :: u32
  um_cap2 :: u32
  um_cap3 :: u32
  um_cap4 :: u32
  um_cap5 :: u32
  um_cap6 :: u32
  um_cr0 :: u32
  um_cr0ack :: u32
  um_cr1 :: u32
  um_gbpa :: u32
  um_tect_base :: u64
  um_tect_base_cfg :: u32
  um_mcmdq_base :: u64
  um_mcmdq_prod :: u32
  um_mcmdq_cons :: u32
  um_evtq_base :: u64
  um_evtq_prod :: u32
  um_evtq_cons :: u32

text \<open>
  A backend is a table of function pointers over an opaque session; a pointer may be
  \<^verbatim>\<open>NULL\<close>. Each function maps the session to its result code, its out-parameters and
  the session afterwards.
\<close>

record 'b backend_ops =
  op_register_endpoint :: "('b \<Rightarrow> u16 \<Rightarrow> u32 \<Rightarrow> int \<times> 'b) option"
  op_get_default_segment :: "('b \<Rightarrow> u16 \<Rightarrow> int \<times> u64 \<times> 'b) option"
  op_submit_slot :: "('b \<Rightarrow> u16 \<Rightarrow> bytes \<Rightarrow> int \<times> 'b) option"
  op_ring_doorbell :: "('b \<Rightarrow> u16 \<Rightarrow> u32 \<Rightarrow> int \<times> u32 \<times> u32 \<times> 'b) option"
  op_poll_completion :: "('b \<Rightarrow> u16 \<Rightarrow> u32 \<Rightarrow> int \<times> bytes \<times> 'b) option"

definition no_backend :: "'b backend_ops" where
  "no_backend = \<lparr>op_register_endpoint = None, op_get_default_segment = None,
     op_submit_slot = None, op_ring_doorbell = None, op_poll_completion = None\<rparr>"

text \<open>
  \<^verbatim>\<open>LinquUbState\<close>, with what the device reaches through pointers made explicit: the
  backend's session (\<open>opaque\<close>) and guest memory (\<open>address_space_memory\<close>). The pointer
  \<open>rust_bridge\<close> is kept as whether it is set.
\<close>

record ('m, 'b) ub_state =
  num_endpoints :: u32
  desc_bytes :: u32
  scenario_path :: "string option"
  rust_bridge :: bool
  backend :: "'b backend_ops"
  cfg_upi :: u32
  cfg_th_en :: u32
  msgq :: msgq_state
  decoder :: decoder_state
  ummu :: ummu_state
  endpoints :: "ep_state list"
  ubios :: bytes
  ubios_readonly :: bool
  irq :: bool
  opaque :: 'b
  address_space_memory :: 'm

abbreviation ep_at :: "('m, 'b) ub_state \<Rightarrow> nat \<Rightarrow> ep_state" where
  "ep_at s i \<equiv> endpoints s ! i"

definition upd_ep :: "nat \<Rightarrow> (ep_state \<Rightarrow> ep_state) \<Rightarrow> ('m, 'b) ub_state \<Rightarrow> ('m, 'b) ub_state" where
  "upd_ep i f s = s\<lparr>endpoints := (endpoints s)[i := f (ep_at s i)]\<rparr>"

definition upd_msgq :: "(msgq_state \<Rightarrow> msgq_state) \<Rightarrow> ('m, 'b) ub_state \<Rightarrow> ('m, 'b) ub_state" where
  "upd_msgq f s = s\<lparr>msgq := f (msgq s)\<rparr>"

definition upd_decoder :: "(decoder_state \<Rightarrow> decoder_state) \<Rightarrow> ('m, 'b) ub_state \<Rightarrow> ('m, 'b) ub_state" where
  "upd_decoder f s = s\<lparr>decoder := f (decoder s)\<rparr>"

definition upd_ummu :: "(ummu_state \<Rightarrow> ummu_state) \<Rightarrow> ('m, 'b) ub_state \<Rightarrow> ('m, 'b) ub_state" where
  "upd_ummu f s = s\<lparr>ummu := f (ummu s)\<rparr>"

definition qemu_set_irq :: "bool \<Rightarrow> ('m, 'b) ub_state \<Rightarrow> ('m, 'b) ub_state" where
  "qemu_set_irq level s = s\<lparr>irq := level\<rparr>"

lemmas upd_defs = upd_ep_def upd_msgq_def upd_decoder_def upd_ummu_def qemu_set_irq_def
declare upd_defs [ub_defs]

section \<open>Guest memory\<close>

record 'm dma_bus =
  dma_memory_read :: "'m \<Rightarrow> hwaddr \<Rightarrow> nat \<Rightarrow> bytes option"
  dma_memory_write :: "'m \<Rightarrow> hwaddr \<Rightarrow> bytes \<Rightarrow> bool \<times> 'm"

text \<open>A read gives \<open>None\<close> and a write \<open>False\<close> where QEMU's result is not
  \<^verbatim>\<open>MEMTX_OK\<close>.\<close>

locale dma_memory =
  fixes bus :: "'m dma_bus"
  assumes read_length: "dma_memory_read bus m a n = Some bs \<Longrightarrow> length bs = n"
    and read_written:
      "dma_memory_write bus m a bs = (True, m') \<Longrightarrow> dma_memory_read bus m' a (length bs) = Some bs"
    and read_other:
      "dma_memory_write bus m a bs = (ok, m') \<Longrightarrow>
       unat a + length bs \<le> unat b \<or> unat b + n \<le> unat a \<Longrightarrow>
       dma_memory_read bus m' b n = dma_memory_read bus m b n"

record guest_ram =
  ram_limit :: nat
  ram_byte :: "u64 \<Rightarrow> u8"

definition ram_read :: "guest_ram \<Rightarrow> hwaddr \<Rightarrow> nat \<Rightarrow> bytes option" where
  "ram_read m a n =
     (if unat a + n \<le> ram_limit m \<and> unat a + n \<le> 2 ^ 64
      then Some (map (\<lambda>k. ram_byte m (a + of_nat k)) [0..<n]) else None)"

definition ram_write :: "guest_ram \<Rightarrow> hwaddr \<Rightarrow> bytes \<Rightarrow> bool \<times> guest_ram" where
  "ram_write m a bs =
     (if unat a + length bs \<le> ram_limit m \<and> unat a + length bs \<le> 2 ^ 64
      then (True, m\<lparr>ram_byte := \<lambda>x. if unat a \<le> unat x \<and> unat x < unat a + length bs
                                    then bs ! (unat x - unat a) else ram_byte m x\<rparr>)
      else (False, m))"

definition ram_bus :: "guest_ram dma_bus" where
  "ram_bus = \<lparr>dma_memory_read = ram_read, dma_memory_write = ram_write\<rparr>"

lemma unat_add_of_nat:
  fixes a :: u64
  assumes "unat a + n \<le> 2 ^ 64" and "k < n"
  shows "unat (a + of_nat k) = unat a + k"
proof -
  have "k < 2 ^ 64" and "unat a + k < 2 ^ 64" using assms by simp_all
  then show ?thesis by (simp add: unat_word_ariths unat_of_nat)
qed

interpretation guest_ram: dma_memory ram_bus
proof
  show "dma_memory_read ram_bus m a n = Some bs \<Longrightarrow> length bs = n" for m a n bs
    by (auto simp: ram_bus_def ram_read_def split: if_splits)
next
  fix m a bs m'
  assume "dma_memory_write ram_bus m a bs = (True, m')"
  then show "dma_memory_read ram_bus m' a (length bs) = Some bs"
    by (auto simp: ram_bus_def ram_read_def ram_write_def unat_add_of_nat
        intro!: nth_equalityI split: if_splits)
next
  fix m and a b :: hwaddr and bs ok m' n
  assume "dma_memory_write ram_bus m a bs = (ok, m')"
    and "unat a + length bs \<le> unat b \<or> unat b + n \<le> unat a"
  moreover have "unat a < 2 ^ 64" by (rule order_less_le_trans [OF unsigned_less]) simp
  ultimately show "dma_memory_read ram_bus m' b n = dma_memory_read ram_bus m b n"
    using unat_add_of_nat [of b n]
    by (auto simp: ram_bus_def ram_read_def ram_write_def split: if_splits)
qed

end
