(* ===== verification/UB_Core.thy ===== *)
theory UB_Core
  imports UB_State
begin

text \<open>
  The core of \<^verbatim>\<open>linqu_ub.c\<close>: endpoint lookup, the status word, the interrupt line,
  error reporting, backend registration, the reset of the message queue and the configuration
  space. The lemmas give the meaning of the status word's fields, the exact state of the
  interrupt line, and the read-back of the writable configuration registers.
\<close>

section \<open>Endpoints\<close>

definition linqu_ub_get_endpoint :: "('m, 'b) ub_state \<Rightarrow> u16 \<Rightarrow> nat option" where
  "linqu_ub_get_endpoint s endpoint_id =
     (if endpoint_id = 0 \<or> num_endpoints s < ucast endpoint_id then None
      else Some (unat (endpoint_id - 1)))"

definition linqu_ub_encode_status :: "ep_state \<Rightarrow> u64" where
  "linqu_ub_encode_status ep =
     (let cmdq_pending =
            (if ep_cmdq_head ep \<le> ep_cmdq_tail ep then ep_cmdq_tail ep - ep_cmdq_head ep
             else ep_cmdq_depth ep - ep_cmdq_head ep + ep_cmdq_tail ep);
          cq_pending =
            (if ep_cq_head ep \<le> ep_cq_tail ep then ep_cq_tail ep - ep_cq_head ep
             else ep_cq_depth ep - ep_cq_head ep + ep_cq_tail ep)
      in push_bit LINQU_UB_STATUS_CMDQ_PENDING_SHIFT (ucast cmdq_pending) OR
         push_bit LINQU_UB_STATUS_CQ_PENDING_SHIFT (ucast cq_pending) OR
         push_bit LINQU_UB_STATUS_CMDQ_HEAD_SHIFT (ucast (ep_cmdq_head ep)) OR
         push_bit LINQU_UB_STATUS_CMDQ_TAIL_SHIFT (ucast (ep_cmdq_tail ep)) OR
         push_bit LINQU_UB_STATUS_CQ_HEAD_SHIFT (ucast (ep_cq_head ep)) OR
         push_bit LINQU_UB_STATUS_CQ_TAIL_SHIFT (ucast (ep_cq_tail ep)))"

section \<open>Interrupt line and errors\<close>

definition linqu_ub_has_pending_irq :: "('m, 'b) ub_state \<Rightarrow> bool" where
  "linqu_ub_has_pending_irq s \<longleftrightarrow>
     list_ex (\<lambda>ep. ep_irq_status ep \<noteq> 0) (take (unat (num_endpoints s)) (endpoints s)) \<or>
     (mq_cq_int_ro (msgq s) \<noteq> 0 \<and> mq_cq_int_mask (msgq s) = 0)"

definition linqu_ub_update_irq :: "('m, 'b) ub_state \<Rightarrow> ('m, 'b) ub_state" where
  "linqu_ub_update_irq s = qemu_set_irq (linqu_ub_has_pending_irq s) s"

definition linqu_ub_set_error :: "nat \<Rightarrow> u64 \<Rightarrow> ('m, 'b) ub_state \<Rightarrow> ('m, 'b) ub_state" where
  "linqu_ub_set_error i code s =
     linqu_ub_update_irq
       (upd_ep i (\<lambda>ep. ep\<lparr>ep_last_error := code,
                          ep_irq_status := ep_irq_status ep OR LINQU_UB_IRQ_ERROR\<rparr>) s)"

definition linqu_ub_msgq_raise_cq_irq :: "('m, 'b) ub_state \<Rightarrow> ('m, 'b) ub_state" where
  "linqu_ub_msgq_raise_cq_irq s =
     linqu_ub_update_irq (upd_msgq (\<lambda>q. q\<lparr>mq_cq_int_status := 1, mq_cq_int_ro := 0\<rparr>) s)"

definition linqu_ub_msgq_reset :: "('m, 'b) ub_state \<Rightarrow> ('m, 'b) ub_state" where
  "linqu_ub_msgq_reset s =
     linqu_ub_update_irq
       (upd_msgq (\<lambda>q. q\<lparr>mq_sq_pi := 0, mq_sq_ci := 0, mq_rq_pi := 0, mq_rq_ci := 0,
                         mq_cq_pi := 0, mq_cq_ci := 0,
                         mq_cq_int_status := 0, mq_cq_int_ro := 0\<rparr>) s)"

section \<open>Backend registration\<close>

datatype realize_error =
    Bad_num_endpoints
  | Bad_desc_bytes
  | Bridge_new_failed
  | Fill_ops_failed
  | Ram_init_failed
  | Register_failed u16 u32
  | Default_segment_failed u16

definition linqu_ub_register_backend_endpoint ::
  "nat \<Rightarrow> ('m, 'b) ub_state \<Rightarrow> realize_error option \<times> ('m, 'b) ub_state" where
  "linqu_ub_register_backend_endpoint i s =
     (case op_register_endpoint (backend s) of
        None \<Rightarrow> (None, s)
      | Some reg \<Rightarrow>
          let ep = ep_at s i; (rc, b) = reg (opaque s) (ep_endpoint_id ep) (ep_entity_id ep);
              s1 = s\<lparr>opaque := b\<rparr>
          in if rc < 0 then (Some (Register_failed (ep_endpoint_id ep) (ep_entity_id ep)), s1)
             else (case op_get_default_segment (backend s) of
                     None \<Rightarrow> (None, s1)
                   | Some seg \<Rightarrow>
                       let (rc2, segment, b2) = seg b (ep_endpoint_id ep); s2 = s1\<lparr>opaque := b2\<rparr>
                       in if rc2 < 0 then (Some (Default_segment_failed (ep_endpoint_id ep)), s2)
                          else (None, upd_ep i (\<lambda>ep. ep\<lparr>ep_default_segment := segment\<rparr>) s2)))"

section \<open>Configuration space\<close>

definition guid_dw :: "u32 list" where
  "guid_dw = [0x00000001, 0x00000000, 0x12000000, 0x0000CC08]"

definition linqu_ub_cfg_read_dword :: "('m, 'b) ub_state \<Rightarrow> u32 \<Rightarrow> int \<times> u32" where
  "linqu_ub_cfg_read_dword s req_addr =
     (let pos = req_addr * 4; d = decoder s;
          lo = (\<lambda>w :: u64. ucast (w AND 0xffffffff) :: u32);
          hi = (\<lambda>w :: u64. ucast (drop_bit 32 w) :: u32)
      in if pos = LINQU_UB_CFG_SPACE_NUM_PORTS
         then (0, push_bit 16 (num_endpoints s + 1) OR 1)
         else if pos = LINQU_UB_CFG_SPACE_CAP_BITMAP then (0, 0)
         else if pos = LINQU_UB_CFG_SPACE_FEATURE0 then (0, 0)
         else if pos = LINQU_UB_CFG_SPACE_GUID + 0 then (0, guid_dw ! 0)
         else if pos = LINQU_UB_CFG_SPACE_GUID + 4 then (0, guid_dw ! 1)
         else if pos = LINQU_UB_CFG_SPACE_GUID + 8 then (0, guid_dw ! 2)
         else if pos = LINQU_UB_CFG_SPACE_GUID + 12 then (0, guid_dw ! 3)
         else if pos = 0x48 then (0, 1)
         else if pos = 0x7c then (0, cfg_upi s AND 0x7fff)
         else if pos = 0x80 then (0, 0)
         else if pos = LINQU_UB_CFG1_CAP_BITMAP then (0, LINQU_UB_CFG1_CAP_BITMAP_WORD0)
         else if pos = LINQU_UB_CFG1_SUPPORT_FEATURE_L then (0, LINQU_UB_CFG1_SUPPORT_WORD0)
         else if pos = LINQU_UB_CFG1_ERS0_SS then (0, 0x100000)
         else if pos = LINQU_UB_CFG1_SYS_PGS then (0, 0)
         else if pos = LINQU_UB_CFG1_EU_TBA_L then (0, lo (dec_matt_ba d))
         else if pos = LINQU_UB_CFG1_EU_TBA_H then (0, hi (dec_matt_ba d))
         else if pos = LINQU_UB_CFG1_EU_TEN then (0, 1)
         else if pos = LINQU_UB_CFG1_CLASS_CODE then (0, LINQU_UB_CLASS_BUS_CONTROLLER)
         else if pos = LINQU_UB_DECODER_CAP then (0, dec_cap d)
         else if pos = LINQU_UB_DECODER_CTRL then (0, dec_ctrl d)
         else if pos = LINQU_UB_DECODER_MATT_BA0 then (0, lo (dec_matt_ba d))
         else if pos = LINQU_UB_DECODER_MATT_BA1 then (0, hi (dec_matt_ba d))
         else if pos = LINQU_UB_DECODER_MMIO_BA0 then (0, lo (dec_mmio_ba d))
         else if pos = LINQU_UB_DECODER_MMIO_BA1 then (0, hi (dec_mmio_ba d))
         else if pos = LINQU_UB_DECODER_USI_IDX then (0, dec_usi_idx d)
         else if pos = LINQU_UB_DECODER_CMDQ_CFG then (0, dec_cmdq_cfg d)
         else if pos = LINQU_UB_DECODER_CMDQ_PROD then (0, dec_cmdq_prod d)
         else if pos = LINQU_UB_DECODER_CMDQ_CONS then (0, dec_cmdq_cons d)
         else if pos = LINQU_UB_DECODER_CMDQ_BASE0 then (0, lo (dec_cmdq_base d))
         else if pos = LINQU_UB_DECODER_CMDQ_BASE1 then (0, hi (dec_cmdq_base d))
         else if pos = LINQU_UB_DECODER_EVENTQ_CFG then (0, dec_eventq_cfg d)
         else if pos = LINQU_UB_DECODER_EVENTQ_PROD then (0, dec_eventq_prod d)
         else if pos = LINQU_UB_DECODER_EVENTQ_CONS then (0, dec_eventq_cons d)
         else if pos = LINQU_UB_DECODER_EVENTQ_BASE0 then (0, lo (dec_eventq_base d))
         else if pos = LINQU_UB_DECODER_EVENTQ_BASE1 then (0, hi (dec_eventq_base d))
         else (0, 0))"

definition linqu_ub_cfg_write_dword ::
  "('m, 'b) ub_state \<Rightarrow> u32 \<Rightarrow> u32 \<Rightarrow> int \<times> ('m, 'b) ub_state" where
  "linqu_ub_cfg_write_dword s req_addr write_data =
     (let pos = req_addr * 4;
          lo = (\<lambda>cur :: u64. (cur AND 0xffffffff00000000) OR ucast write_data);
          hi = (\<lambda>cur :: u64. (cur AND 0x00000000ffffffff) OR push_bit 32 (ucast write_data))
      in if pos = 0x7c then (0, s\<lparr>cfg_upi := write_data AND 0x7fff\<rparr>)
         else if pos = 0x94 then (0, s\<lparr>cfg_th_en := write_data AND 0x1\<rparr>)
         else if pos = LINQU_UB_CFG1_EU_TBA_L
         then (0, upd_decoder (\<lambda>d. d\<lparr>dec_matt_ba := lo (dec_matt_ba d)\<rparr>) s)
         else if pos = LINQU_UB_CFG1_EU_TBA_H
         then (0, upd_decoder (\<lambda>d. d\<lparr>dec_matt_ba := hi (dec_matt_ba d)\<rparr>) s)
         else if pos = LINQU_UB_DECODER_CTRL
         then (0, upd_decoder (\<lambda>d. d\<lparr>dec_ctrl := write_data\<rparr>) s)
         else if pos = LINQU_UB_DECODER_MATT_BA0
         then (0, upd_decoder (\<lambda>d. d\<lparr>dec_matt_ba := lo (dec_matt_ba d)\<rparr>) s)
         else if pos = LINQU_UB_DECODER_MATT_BA1
         then (0, upd_decoder (\<lambda>d. d\<lparr>dec_matt_ba := hi (dec_matt_ba d)\<rparr>) s)
         else if pos = LINQU_UB_DECODER_MMIO_BA0
         then (0, upd_decoder (\<lambda>d. d\<lparr>dec_mmio_ba := lo (dec_mmio_ba d)\<rparr>) s)
         else if pos = LINQU_UB_DECODER_MMIO_BA1
         then (0, upd_decoder (\<lambda>d. d\<lparr>dec_mmio_ba := hi (dec_mmio_ba d)\<rparr>) s)
         else if pos = LINQU_UB_DECODER_CMDQ_CFG
         then (0, upd_decoder (\<lambda>d. d\<lparr>dec_cmdq_cfg := write_data\<rparr>) s)
         else if pos = LINQU_UB_DECODER_CMDQ_PROD
         then (0, upd_decoder (\<lambda>d. d\<lparr>dec_cmdq_prod := write_data\<rparr>) s)
         else if pos = LINQU_UB_DECODER_CMDQ_CONS
         then (0, upd_decoder (\<lambda>d. d\<lparr>dec_cmdq_cons := write_data\<rparr>) s)
         else if pos = LINQU_UB_DECODER_CMDQ_BASE0
         then (0, upd_decoder (\<lambda>d. d\<lparr>dec_cmdq_base := lo (dec_cmdq_base d)\<rparr>) s)
         else if pos = LINQU_UB_DECODER_CMDQ_BASE1
         then (0, upd_decoder (\<lambda>d. d\<lparr>dec_cmdq_base := hi (dec_cmdq_base d)\<rparr>) s)
         else if pos = LINQU_UB_DECODER_EVENTQ_CFG
         then (0, upd_decoder (\<lambda>d. d\<lparr>dec_eventq_cfg := write_data\<rparr>) s)
         else if pos = LINQU_UB_DECODER_EVENTQ_PROD
         then (0, upd_decoder (\<lambda>d. d\<lparr>dec_eventq_prod := write_data\<rparr>) s)
         else if pos = LINQU_UB_DECODER_EVENTQ_CONS
         then (0, upd_decoder (\<lambda>d. d\<lparr>dec_eventq_cons := write_data\<rparr>) s)
         else if pos = LINQU_UB_DECODER_EVENTQ_BASE0
         then (0, upd_decoder (\<lambda>d. d\<lparr>dec_eventq_base := lo (dec_eventq_base d)\<rparr>) s)
         else if pos = LINQU_UB_DECODER_EVENTQ_BASE1
         then (0, upd_decoder (\<lambda>d. d\<lparr>dec_eventq_base := hi (dec_eventq_base d)\<rparr>) s)
         else (0, s))"

section \<open>The status word\<close>

text \<open>An endpoint between two accesses: the ring depths are the fixed ones of
  \<^verbatim>\<open>linqu_ub_reset\<close> and every index points into its ring.\<close>

definition ep_ok :: "ep_state \<Rightarrow> bool" where
  "ep_ok ep \<longleftrightarrow>
     ep_cmdq_depth ep = LINQU_UB_DEFAULT_CMDQ_DEPTH \<and> ep_cq_depth ep = LINQU_UB_DEFAULT_CQ_DEPTH \<and>
     ep_cmdq_head ep < LINQU_UB_DEFAULT_CMDQ_DEPTH \<and> ep_cmdq_tail ep < LINQU_UB_DEFAULT_CMDQ_DEPTH \<and>
     ep_cq_head ep < LINQU_UB_DEFAULT_CQ_DEPTH \<and> ep_cq_tail ep < LINQU_UB_DEFAULT_CQ_DEPTH"

interpretation cmdq: ring LINQU_UB_DEFAULT_CMDQ_DEPTH
  by unfold_locales simp

interpretation cq: ring LINQU_UB_DEFAULT_CQ_DEPTH
  by unfold_locales simp

definition cmdq_pending :: "ep_state \<Rightarrow> nat" where
  "cmdq_pending ep = ring_dist (ep_cmdq_depth ep) (ep_cmdq_head ep) (ep_cmdq_tail ep)"

definition cq_pending :: "ep_state \<Rightarrow> nat" where
  "cq_pending ep = ring_dist (ep_cq_depth ep) (ep_cq_head ep) (ep_cq_tail ep)"

lemma ep_okD:
  assumes "ep_ok ep"
  shows "ep_cmdq_depth ep = 32" "ep_cq_depth ep = 64"
    "ep_cmdq_head ep < 32" "ep_cmdq_tail ep < 32" "ep_cq_head ep < 64" "ep_cq_tail ep < 64"
  using assms by (auto simp: ep_ok_def)

definition pack_status :: "u64 \<Rightarrow> u64 \<Rightarrow> u64 \<Rightarrow> u64 \<Rightarrow> u64 \<Rightarrow> u64 \<Rightarrow> u64" where
  "pack_status a b c d e f =
     push_bit 0 (take_bit 16 a) OR push_bit 16 (take_bit 16 b) OR push_bit 32 (take_bit 8 c) OR
     push_bit 40 (take_bit 8 d) OR push_bit 48 (take_bit 8 e) OR push_bit 56 (take_bit 8 f)"

lemma pack_status_fields:
  "take_bit 16 (pack_status a b c d e f) = take_bit 16 a"
  "take_bit 16 (drop_bit 16 (pack_status a b c d e f)) = take_bit 16 b"
  "take_bit 8 (drop_bit 32 (pack_status a b c d e f)) = take_bit 8 c"
  "take_bit 8 (drop_bit 40 (pack_status a b c d e f)) = take_bit 8 d"
  "take_bit 8 (drop_bit 48 (pack_status a b c d e f)) = take_bit 8 e"
  "take_bit 8 (drop_bit 56 (pack_status a b c d e f)) = take_bit 8 f"
  unfolding pack_status_def
  by - (rule bit_word_eqI, (auto simp: bit_simps)[1])+

definition status_field :: "nat \<Rightarrow> nat \<Rightarrow> u64 \<Rightarrow> nat" where
  "status_field shift width st = unat (take_bit width (drop_bit shift st))"

lemma encode_status_pack:
  assumes "ep_ok ep"
  obtains p q where "unat p = cmdq_pending ep" and "unat q = cq_pending ep"
    and "unat p < 2 ^ 16" and "unat q < 2 ^ 16"
    and "linqu_ub_encode_status ep =
      pack_status (ucast (p :: u32)) (ucast (q :: u32)) (ucast (ep_cmdq_head ep))
        (ucast (ep_cmdq_tail ep)) (ucast (ep_cq_head ep)) (ucast (ep_cq_tail ep))"
proof -
  note ok = ep_okD [OF assms]
  define p where "p = (if ep_cmdq_head ep \<le> ep_cmdq_tail ep then ep_cmdq_tail ep - ep_cmdq_head ep
      else ep_cmdq_depth ep - ep_cmdq_head ep + ep_cmdq_tail ep)"
  define q where "q = (if ep_cq_head ep \<le> ep_cq_tail ep then ep_cq_tail ep - ep_cq_head ep
      else ep_cq_depth ep - ep_cq_head ep + ep_cq_tail ep)"
  have p: "unat p = cmdq_pending ep"
    unfolding p_def cmdq_pending_def ok(1) by (rule cmdq.pending_word [OF ok(3,4)])
  have q: "unat q = cq_pending ep"
    unfolding q_def cq_pending_def ok(2) by (rule cq.pending_word [OF ok(5,6)])
  have small: "unat p < 2 ^ 16" "unat q < 2 ^ 16"
    unfolding p q cmdq_pending_def cq_pending_def ok
    using cmdq.dist_less [of "ep_cmdq_head ep" "ep_cmdq_tail ep"]
      cq.dist_less [of "ep_cq_head ep" "ep_cq_tail ep"] by simp_all
  have idx: "unat (ep_cmdq_head ep) < 2 ^ 8" "unat (ep_cmdq_tail ep) < 2 ^ 8"
    "unat (ep_cq_head ep) < 2 ^ 8" "unat (ep_cq_tail ep) < 2 ^ 8"
    using ok(3-6) [THEN unat_u32_mono] by simp_all
  have "linqu_ub_encode_status ep =
      pack_status (ucast p) (ucast q) (ucast (ep_cmdq_head ep))
        (ucast (ep_cmdq_tail ep)) (ucast (ep_cq_head ep)) (ucast (ep_cq_tail ep))"
    unfolding linqu_ub_encode_status_def Let_def pack_status_def
    using small idx by (simp only: take_bit_small p_def [symmetric] q_def [symmetric])
  with p q small that show thesis by blast
qed

text \<open>
  the 64-bit status register of a well-formed endpoint carries, in separate bit fields, the
  number of submitted and not yet consumed commands, the number of unread completions, and the
  four ring indices; no field spills into its neighbour.
\<close>

theorem status_word_fields:
  assumes "ep_ok ep"
  shows "let st = linqu_ub_encode_status ep in
    status_field LINQU_UB_STATUS_CMDQ_PENDING_SHIFT 16 st = cmdq_pending ep \<and>
    status_field LINQU_UB_STATUS_CQ_PENDING_SHIFT 16 st = cq_pending ep \<and>
    status_field LINQU_UB_STATUS_CMDQ_HEAD_SHIFT 8 st = unat (ep_cmdq_head ep) \<and>
    status_field LINQU_UB_STATUS_CMDQ_TAIL_SHIFT 8 st = unat (ep_cmdq_tail ep) \<and>
    status_field LINQU_UB_STATUS_CQ_HEAD_SHIFT 8 st = unat (ep_cq_head ep) \<and>
    status_field LINQU_UB_STATUS_CQ_TAIL_SHIFT 8 st = unat (ep_cq_tail ep)"
proof -
  from assms(1) obtain p q where pq: "unat p = cmdq_pending ep" "unat q = cq_pending ep"
    and small: "unat p < 2 ^ 16" "unat q < 2 ^ 16"
    and eq: "linqu_ub_encode_status ep = pack_status (ucast (p :: u32)) (ucast (q :: u32)) (ucast (ep_cmdq_head ep))
        (ucast (ep_cmdq_tail ep)) (ucast (ep_cq_head ep)) (ucast (ep_cq_tail ep))"
    by (rule encode_status_pack)
  have idx: "unat (ep_cmdq_head ep) < 2 ^ 8" "unat (ep_cmdq_tail ep) < 2 ^ 8"
    "unat (ep_cq_head ep) < 2 ^ 8" "unat (ep_cq_tail ep) < 2 ^ 8"
    using ep_okD(3-6) [OF assms(1), THEN unat_u32_mono] by simp_all
  show ?thesis
    unfolding Let_def status_field_def eq drop_bit_0 id_apply pack_status_fields
    using small idx by (simp only: take_bit_small unat_ucast_u32 pq simp_thms)
qed

section \<open>The interrupt line\<close>

text \<open>The line is in step with the pending causes: the level last driven is the one
  \<^verbatim>\<open>linqu_ub_has_pending_irq\<close> computes.\<close>

definition irq_synced :: "('m, 'b) ub_state \<Rightarrow> bool" where
  "irq_synced s \<longleftrightarrow> irq s = linqu_ub_has_pending_irq s"

lemma has_pending_set_irq [simp]:
  "linqu_ub_has_pending_irq (qemu_set_irq l s) = linqu_ub_has_pending_irq s"
  by (simp add: linqu_ub_has_pending_irq_def qemu_set_irq_def)

lemma update_irq_synced [simp]: "irq_synced (linqu_ub_update_irq s)"
  by (simp add: irq_synced_def linqu_ub_update_irq_def) (simp add: qemu_set_irq_def)

lemma raisers_synced [simp]:
  "irq_synced (linqu_ub_set_error i code s)"
  "irq_synced (linqu_ub_msgq_raise_cq_irq s)"
  "irq_synced (linqu_ub_msgq_reset s)"
  by (simp_all add: linqu_ub_set_error_def linqu_ub_msgq_raise_cq_irq_def linqu_ub_msgq_reset_def)

text \<open>Nothing the line depends on.\<close>

lemma irq_synced_frame:
  "num_endpoints t = num_endpoints s \<Longrightarrow> endpoints t = endpoints s \<Longrightarrow>
   mq_cq_int_ro (msgq t) = mq_cq_int_ro (msgq s) \<Longrightarrow>
   mq_cq_int_mask (msgq t) = mq_cq_int_mask (msgq s) \<Longrightarrow> irq t = irq s \<Longrightarrow>
   irq_synced t = irq_synced s"
  by (simp add: irq_synced_def linqu_ub_has_pending_irq_def)

section \<open>Reading back the configuration space\<close>

definition cfg_rw_regs :: "u32 list" where
  "cfg_rw_regs = [LINQU_UB_CFG1_EU_TBA_L, LINQU_UB_CFG1_EU_TBA_H, LINQU_UB_DECODER_CTRL,
     LINQU_UB_DECODER_MATT_BA0, LINQU_UB_DECODER_MATT_BA1,
     LINQU_UB_DECODER_MMIO_BA0, LINQU_UB_DECODER_MMIO_BA1,
     LINQU_UB_DECODER_CMDQ_CFG, LINQU_UB_DECODER_CMDQ_PROD, LINQU_UB_DECODER_CMDQ_CONS,
     LINQU_UB_DECODER_CMDQ_BASE0, LINQU_UB_DECODER_CMDQ_BASE1,
     LINQU_UB_DECODER_EVENTQ_CFG, LINQU_UB_DECODER_EVENTQ_PROD, LINQU_UB_DECODER_EVENTQ_CONS,
     LINQU_UB_DECODER_EVENTQ_BASE0, LINQU_UB_DECODER_EVENTQ_BASE1]"

lemma cfg_read_rc [simp]: "fst (linqu_ub_cfg_read_dword s a) = 0"
  by (simp add: linqu_ub_cfg_read_dword_def Let_def)

lemma cfg_write_rc [simp]: "fst (linqu_ub_cfg_write_dword s a v) = 0"
  by (simp add: linqu_ub_cfg_write_dword_def Let_def)

text \<open>
  A read of a read-write configuration register right after a write of it gives the value
  written, for each of the seventeen dwords, the halves of 64-bit registers included.
\<close>

theorem cfg_write_readback:
  assumes "req_addr * 4 \<in> set cfg_rw_regs"
  shows "linqu_ub_cfg_read_dword (snd (linqu_ub_cfg_write_dword s req_addr v)) req_addr = (0, v)"
  using assms
  unfolding cfg_rw_regs_def linqu_ub_cfg_write_dword_def linqu_ub_cfg_read_dword_def Let_def
  by (elim set_ConsD [elim_format] disjE; simp add: upd_decoder_def)

text \<open>A configuration write touches the decoder and the two configuration words only.\<close>

lemma cfg_write_cases:
  "\<exists>d u t. snd (linqu_ub_cfg_write_dword s a v) = s\<lparr>decoder := d, cfg_upi := u, cfg_th_en := t\<rparr>"
proof -
  define P :: "int \<times> ('a, 'b) ub_state \<Rightarrow> bool" where
    "P x \<longleftrightarrow> (\<exists>d u t. snd x = s\<lparr>decoder := d, cfg_upi := u, cfg_th_en := t\<rparr>)" for x
  have "P (0, s)"
    unfolding P_def snd_conv
    by (rule exI [of _ "decoder s"], rule exI [of _ "cfg_upi s"], rule exI [of _ "cfg_th_en s"]) simp
  moreover have "P (0, s\<lparr>cfg_upi := x\<rparr>)" for x
    unfolding P_def snd_conv
    by (rule exI [of _ "decoder s"], rule exI [of _ x], rule exI [of _ "cfg_th_en s"]) simp
  moreover have "P (0, s\<lparr>cfg_th_en := x\<rparr>)" for x
    unfolding P_def snd_conv
    by (rule exI [of _ "decoder s"], rule exI [of _ "cfg_upi s"], rule exI [of _ x]) simp
  moreover have "P (0, upd_decoder f s)" for f
    unfolding P_def snd_conv upd_decoder_def
    by (rule exI [of _ "f (decoder s)"], rule exI [of _ "cfg_upi s"], rule exI [of _ "cfg_th_en s"]) simp
  ultimately have "P (linqu_ub_cfg_write_dword s a v)"
    unfolding linqu_ub_cfg_write_dword_def Let_def by (intro if_predI [where P = P])
  then show ?thesis by (simp add: P_def)
qed

end
