(* ===== verification/UB_Ubios.thy ===== *)
theory UB_Ubios
  imports UB_Core
begin

text \<open>
  The firmware tables the device publishes to the guest (\<^verbatim>\<open>linqu_ub_populate_ubios\<close>):
  a root table that points at the controller table \<^verbatim>\<open>ubc\<close> and the memory-management
  table \<^verbatim>\<open>ummu\<close>. Each packed C struct is a record with the function that lays its
  bytes out. The lemmas show that the tables do not overlap, that the root's pointers and every
  size field are right, and that every checksum verifies.
\<close>

section \<open>Packed structures\<close>

record table_header =
  th_name :: bytes
  th_total_size :: u32
  th_version :: u8
  th_remaining_size :: u32
  th_checksum :: u32

definition zeros :: "nat \<Rightarrow> bytes" where
  "zeros n = replicate n 0"

definition header_bytes :: "table_header \<Rightarrow> bytes" where
  "header_bytes h = th_name h @ le32 (th_total_size h) @ [th_version h] @ zeros 3 @
     le32 (th_remaining_size h) @ le32 (th_checksum h)"

record ubios_root_table =
  rt_header :: table_header
  rt_count :: u16
  rt_sub_tables :: "u64 list"

definition ubios_root_bytes :: "ubios_root_table \<Rightarrow> bytes" where
  "ubios_root_bytes t = header_bytes (rt_header t) @
     le16 (rt_count t) @ zeros 6 @ concat (map le64 (rt_sub_tables t))"

record mem_pa_info =
  pa_decode_addr :: u64
  pa_cc_base_addr :: u32
  pa_cc_base_size :: u32
  pa_nc_base_addr :: u32
  pa_nc_base_size :: u32

definition mem_pa_info_bytes :: "mem_pa_info \<Rightarrow> bytes" where
  "mem_pa_info_bytes p = le64 (pa_decode_addr p) @ le32 (pa_cc_base_addr p) @
     le32 (pa_cc_base_size p) @ le32 (pa_nc_base_addr p) @ le32 (pa_nc_base_size p)"

record hi_ubc_private_data =
  hp_ub_mem_version :: u32
  hp_max_addr_bits :: u8
  hp_mem_pa_info :: "mem_pa_info list"
  hp_io_decoder_cmdq :: u64
  hp_io_decoder_evtq :: u64
  hp_features :: u8

definition hi_ubc_private_bytes :: "hi_ubc_private_data \<Rightarrow> bytes" where
  "hi_ubc_private_bytes v = le32 (hp_ub_mem_version v) @ [hp_max_addr_bits v] @ zeros 3 @
     concat (map mem_pa_info_bytes (hp_mem_pa_info v)) @
     le64 (hp_io_decoder_cmdq v) @ le64 (hp_io_decoder_evtq v) @ [hp_features v] @ zeros 111"

record ubc_node =
  un_int_id_start :: u32
  un_int_id_end :: u32
  un_hpa_base :: u64
  un_hpa_size :: u64
  un_mem_size_limit :: u8
  un_dma_cca :: u8
  un_ummu_mapping :: u16
  un_proximity_domain :: u16
  un_msg_queue_base :: u64
  un_msg_queue_size :: u64
  un_msg_queue_depth :: u16
  un_msg_int :: u16
  un_msg_int_attr :: u8
  un_ubc_guid_low :: u64
  un_ubc_guid_high :: u64
  un_vendor_info :: hi_ubc_private_data

definition ubc_node_bytes :: "ubc_node \<Rightarrow> bytes" where
  "ubc_node_bytes n = le32 (un_int_id_start n) @ le32 (un_int_id_end n) @
     le64 (un_hpa_base n) @ le64 (un_hpa_size n) @ [un_mem_size_limit n, un_dma_cca n] @
     le16 (un_ummu_mapping n) @ le16 (un_proximity_domain n) @ zeros 2 @
     le64 (un_msg_queue_base n) @ le64 (un_msg_queue_size n) @ le16 (un_msg_queue_depth n) @
     le16 (un_msg_int n) @ [un_msg_int_attr n] @ zeros 59 @
     le64 (un_ubc_guid_low n) @ le64 (un_ubc_guid_high n) @ hi_ubc_private_bytes (un_vendor_info n)"

record ubc_table =
  ut_header :: table_header
  ut_cna_start :: u32
  ut_cna_end :: u32
  ut_eid_start :: u32
  ut_eid_end :: u32
  ut_feature :: u8
  ut_cluster_mode :: u16
  ut_ubc_count :: u16
  ut_ubcs :: ubc_node

definition ubc_table_bytes :: "ubc_table \<Rightarrow> bytes" where
  "ubc_table_bytes t = header_bytes (ut_header t) @
     le32 (ut_cna_start t) @ le32 (ut_cna_end t) @ le32 (ut_eid_start t) @ le32 (ut_eid_end t) @
     [ut_feature t] @ zeros 3 @ le16 (ut_cluster_mode t) @ le16 (ut_ubc_count t) @
     ubc_node_bytes (ut_ubcs t)"

record ummu_node =
  mn_base_addr :: u64
  mn_addr_size :: u64
  mn_intr_id :: u32
  mn_pxm :: u16
  mn_its_index :: u16
  mn_pmu_addr :: u64
  mn_pmu_size :: u64
  mn_pmu_intr_id :: u32
  mn_min_tid :: u32
  mn_max_tid :: u32
  mn_vendor_id :: u16

definition ummu_node_bytes :: "ummu_node \<Rightarrow> bytes" where
  "ummu_node_bytes n = le64 (mn_base_addr n) @ le64 (mn_addr_size n) @ le32 (mn_intr_id n) @
     le16 (mn_pxm n) @ le16 (mn_its_index n) @ le64 (mn_pmu_addr n) @ le64 (mn_pmu_size n) @
     le32 (mn_pmu_intr_id n) @ le32 (mn_min_tid n) @ le32 (mn_max_tid n) @ zeros 26 @
     le16 (mn_vendor_id n) @ zeros 80"

record ummu_table =
  mt_header :: table_header
  mt_count :: u16
  mt_ummus :: ummu_node

definition ummu_table_bytes :: "ummu_table \<Rightarrow> bytes" where
  "ummu_table_bytes t = header_bytes (mt_header t) @ le16 (mt_count t) @ zeros 6 @
     ummu_node_bytes (mt_ummus t)"

section \<open>Building the tables\<close>

definition linqu_ub_table_checksum :: "bytes \<Rightarrow> u32" where
  "linqu_ub_table_checksum buf = 0 - fold (\<lambda>b sum. sum + ucast b) buf 0"

text \<open>\<^verbatim>\<open>pstrcpy\<close> into a zeroed array keeps at most \<open>n - 1\<close> characters.\<close>

definition pstrcpy :: "nat \<Rightarrow> string \<Rightarrow> bytes" where
  "pstrcpy n name = (let cs = take (n - 1) (map of_char name) in cs @ zeros (n - length cs))"

definition linqu_ub_init_table_header :: "string \<Rightarrow> u32 \<Rightarrow> table_header" where
  "linqu_ub_init_table_header name total_size =
     \<lparr>th_name = pstrcpy 16 name, th_total_size = total_size, th_version = 1,
      th_remaining_size = 0, th_checksum = 0\<rparr>"

definition root_size :: nat where "root_size = 56"
definition ubc_size :: nat where "ubc_size = 440"
definition ummu_size :: nat where "ummu_size = 200"
definition ubc_off :: nat where "ubc_off = 0x100"
definition ummu_off :: nat where "ummu_off = 0x300"

definition ubios_root :: "u64 \<Rightarrow> ubios_root_table" where
  "ubios_root ubios_base =
     (let t = \<lparr>rt_header = linqu_ub_init_table_header ''ubios'' (of_nat root_size),
               rt_count = 2,
               rt_sub_tables = [ubios_base + of_nat ubc_off, ubios_base + of_nat ummu_off]\<rparr>
      in t\<lparr>rt_header := (rt_header t)\<lparr>th_checksum := linqu_ub_table_checksum (ubios_root_bytes t)\<rparr>\<rparr>)"

definition hi_ubc_vendor :: "u64 \<Rightarrow> hi_ubc_private_data" where
  "hi_ubc_vendor mmio_base =
     \<lparr>hp_ub_mem_version = LINQU_UB_MEM_VERSION, hp_max_addr_bits = 48,
      hp_mem_pa_info =
        map (\<lambda>i. \<lparr>pa_decode_addr = mmio_base + LINQU_UB_MEM_DECODER_BASE +
                                   of_nat i * LINQU_UB_MEM_DECODER_STRIDE,
                   pa_cc_base_addr = 0, pa_cc_base_size = 0,
                   pa_nc_base_addr = 0, pa_nc_base_size = 0\<rparr>)
          [0..<unat (LINQU_UB_MEM_DECODER_COUNT :: u32)],
      hp_io_decoder_cmdq = mmio_base + 0x2000, hp_io_decoder_evtq = mmio_base + 0x3000,
      hp_features = 0\<rparr>"

definition ubc_node_of :: "('m, 'b) ub_state \<Rightarrow> u64 \<Rightarrow> u32 \<Rightarrow> ubc_node" where
  "ubc_node_of s mmio_base msg_irq =
     \<lparr>un_int_id_start = 1, un_int_id_end = 1024, un_hpa_base = mmio_base,
      un_hpa_size = LINQU_UB_MMIO_REGION_SIZE, un_mem_size_limit = 48, un_dma_cca = 1,
      un_ummu_mapping = 0xffff, un_proximity_domain = 0,
      un_msg_queue_base = mmio_base + LINQU_UB_MSGQ_BASE,
      un_msg_queue_size = LINQU_UB_MSGQ_WINDOW_SIZE,
      un_msg_queue_depth = ucast (ep_cmdq_depth (ep_at s 0)), un_msg_int = ucast msg_irq,
      un_msg_int_attr = 0, un_ubc_guid_low = 0x55425553494d0001,
      un_ubc_guid_high = 0xCC08000000010542, un_vendor_info = hi_ubc_vendor mmio_base\<rparr>"

definition ubios_ubc :: "('m, 'b) ub_state \<Rightarrow> u64 \<Rightarrow> u32 \<Rightarrow> ubc_table" where
  "ubios_ubc s mmio_base msg_irq =
     (let t = \<lparr>ut_header = linqu_ub_init_table_header ''ubc'' (of_nat ubc_size),
               ut_cna_start = 1, ut_cna_end = 1, ut_eid_start = LINQU_UB_FIRMWARE_EID_START,
               ut_eid_end = LINQU_UB_FIRMWARE_EID_END, ut_feature = 0, ut_cluster_mode = 0,
               ut_ubc_count = 1, ut_ubcs = ubc_node_of s mmio_base msg_irq\<rparr>
      in t\<lparr>ut_header := (ut_header t)\<lparr>th_checksum := linqu_ub_table_checksum (ubc_table_bytes t)\<rparr>\<rparr>)"

definition ubios_ummu :: "u64 \<Rightarrow> ummu_table" where
  "ubios_ummu mmio_base =
     (let t = \<lparr>mt_header = linqu_ub_init_table_header ''ummu'' (of_nat ummu_size), mt_count = 1,
               mt_ummus =
                 \<lparr>mn_base_addr = mmio_base + LINQU_UB_UMMU_BASE,
                  mn_addr_size = LINQU_UB_UMMU_REGION_SIZE, mn_intr_id = 0,
                  mn_pxm = LINQU_UB_UMMU_PXM_INVALID, mn_its_index = 0, mn_pmu_addr = 0,
                  mn_pmu_size = 0, mn_pmu_intr_id = 0, mn_min_tid = LINQU_UB_UMMU_MIN_TID,
                  mn_max_tid = LINQU_UB_UMMU_MAX_TID, mn_vendor_id = LINQU_UB_UMMU_VENDOR_ID\<rparr>\<rparr>
      in t\<lparr>mt_header := (mt_header t)\<lparr>th_checksum := linqu_ub_table_checksum (ummu_table_bytes t)\<rparr>\<rparr>)"

definition linqu_ub_populate_ubios ::
  "('m, 'b) ub_state \<Rightarrow> hwaddr \<Rightarrow> hwaddr \<Rightarrow> u32 \<Rightarrow> bool \<times> ('m, 'b) ub_state" where
  "linqu_ub_populate_ubios s ubios_base mmio_base msg_irq =
     (if unat (LINQU_UB_UBIOS_REGION_SIZE :: u32) < ubc_off + ubc_size \<or>
         unat (LINQU_UB_UBIOS_REGION_SIZE :: u32) < ummu_off + ummu_size
      then (False, s)
      else let blob0 = zeros (unat (LINQU_UB_UBIOS_REGION_SIZE :: u32));
               blob1 = put_at 0 (ubios_root_bytes (ubios_root ubios_base)) blob0;
               blob2 = put_at ubc_off (ubc_table_bytes (ubios_ubc s mmio_base msg_irq)) blob1;
               blob3 = put_at ummu_off (ummu_table_bytes (ubios_ummu mmio_base)) blob2
           in (True, s\<lparr>ubios := blob3, ubios_readonly := True\<rparr>))"

section \<open>Layout\<close>

lemma length_zeros [simp]: "length (zeros n) = n"
  by (simp add: zeros_def)

lemma length_header_bytes [simp]:
  "length (th_name h) = 16 \<Longrightarrow> length (header_bytes h) = 32"
  by (simp add: header_bytes_def)

lemma length_pstrcpy [simp]: "0 < n \<Longrightarrow> length (pstrcpy n name) = n"
  by (simp add: pstrcpy_def Let_def min_def)

lemma init_header_simps [simp]:
  "length (th_name (linqu_ub_init_table_header name sz)) = 16"
  "th_checksum (linqu_ub_init_table_header name sz) = 0"
  "th_total_size (linqu_ub_init_table_header name sz) = sz"
  by (simp_all add: linqu_ub_init_table_header_def)

lemma length_mem_pa_info_bytes [simp]: "length (mem_pa_info_bytes p) = 24"
  by (simp add: mem_pa_info_bytes_def)

lemma length_hi_ubc_private_bytes [simp]: "length (hi_ubc_private_bytes (hi_ubc_vendor b)) = 256"
  by (simp add: hi_ubc_private_bytes_def hi_ubc_vendor_def length_concat comp_def sum_list_triv)

lemma length_ubc_node_bytes [simp]: "length (ubc_node_bytes (ubc_node_of s b q)) = 384"
  by (simp add: ubc_node_bytes_def ubc_node_of_def)

lemma length_root [simp]: "length (ubios_root_bytes (ubios_root b)) = root_size"
  by (simp add: ubios_root_bytes_def ubios_root_def root_size_def Let_def)

lemma length_ubc [simp]: "length (ubc_table_bytes (ubios_ubc s b q)) = ubc_size"
  by (simp add: ubc_table_bytes_def ubios_ubc_def ubc_size_def Let_def)

lemma length_ummu [simp]: "length (ummu_table_bytes (ubios_ummu b)) = ummu_size"
  by (simp add: ummu_table_bytes_def ubios_ummu_def ummu_node_bytes_def ummu_size_def Let_def)

section \<open>Validity\<close>

text \<open>What a reader of a table checks: the size field, and that the byte sum of the table with
  its checksum field taken as zero cancels against the checksum.\<close>

definition table_valid :: "string \<Rightarrow> nat \<Rightarrow> bytes \<Rightarrow> bool" where
  "table_valid name sz tbl \<longleftrightarrow>
     length tbl = sz \<and> bytes_at 0 16 tbl = pstrcpy 16 name \<and>
     of_le (bytes_at 16 4 tbl) = (of_nat sz :: u32) \<and>
     sum_list (map ucast (put_at 28 (zeros 4) tbl)) + of_le (bytes_at 28 4 tbl) = (0 :: u32)"

lemma fold_sum: "fold (\<lambda>b sum. sum + ucast b) bs a = a + sum_list (map ucast bs :: u32 list)"
  by (induction bs arbitrary: a) (simp_all add: add.assoc)

lemma checksum_sum: "linqu_ub_table_checksum bs = - sum_list (map ucast bs)"
  by (simp add: linqu_ub_table_checksum_def fold_sum)

lemma bytes_at_append_left: "off + n \<le> length xs \<Longrightarrow> bytes_at off n (xs @ ys) = bytes_at off n xs"
  by (simp add: bytes_at_def)

lemma bytes_at_append_right:
  "length xs \<le> off \<Longrightarrow> bytes_at off n (xs @ ys) = bytes_at (off - length xs) n ys"
  by (simp add: bytes_at_def)

lemma le32_zero: "le32 0 = zeros 4"
  by (simp add: zeros_def numeral_eq_Suc)

text \<open>Every table is a header whose checksum is computed over the header, with a zero checksum,
  and the rest.\<close>

lemma table_validI:
  assumes h: "h = linqu_ub_init_table_header name (of_nat sz)"
    and len: "length (header_bytes h @ rest) = sz"
    and chk: "c = linqu_ub_table_checksum (header_bytes h @ rest)"
  shows "table_valid name sz (header_bytes (h\<lparr>th_checksum := c\<rparr>) @ rest)"
proof -
  define pre where "pre = pstrcpy 16 name @ le32 (of_nat sz) @ [1] @ zeros 3 @ le32 0"
  have hb: "header_bytes (h\<lparr>th_checksum := x\<rparr>) = pre @ le32 x" for x
    by (simp add: pre_def h header_bytes_def linqu_ub_init_table_header_def)
  have h0: "header_bytes h = pre @ zeros 4"
    by (simp add: pre_def h header_bytes_def linqu_ub_init_table_header_def le32_zero)
  have lp: "length pre = 28" by (simp add: pre_def)
  have "put_at 28 (zeros 4) (pre @ le32 c @ rest) = pre @ zeros 4 @ rest"
    using lp by (simp add: put_at_def)
  moreover have "bytes_at 28 4 (pre @ le32 c @ rest) = le32 c"
    using lp by (simp add: bytes_at_def)
  moreover have "bytes_at 0 16 (pre @ le32 c @ rest) = pstrcpy 16 name"
    by (simp add: pre_def bytes_at_def)
  moreover have "bytes_at 16 4 (pre @ le32 c @ rest) = le32 (of_nat sz)"
    by (simp add: pre_def bytes_at_def)
  ultimately show ?thesis
    using len chk lp by (simp add: table_valid_def hb h0 checksum_sum)
qed

lemma root_valid: "table_valid ''ubios'' root_size (ubios_root_bytes (ubios_root b))"
  unfolding ubios_root_bytes_def ubios_root_def Let_def ubios_root_table.simps
  by (rule table_validI) (simp_all add: root_size_def)

lemma ubc_valid: "table_valid ''ubc'' ubc_size (ubc_table_bytes (ubios_ubc s b q))"
  unfolding ubc_table_bytes_def ubios_ubc_def Let_def ubc_table.simps
  by (rule table_validI) (simp_all add: ubc_size_def)

lemma ummu_valid: "table_valid ''ummu'' ummu_size (ummu_table_bytes (ubios_ummu b))"
  unfolding ummu_table_bytes_def ubios_ummu_def Let_def ummu_table.simps
  by (rule table_validI) (simp_all add: ummu_size_def ummu_node_bytes_def)

lemma root_pointers:
  "of_le (bytes_at 40 8 (ubios_root_bytes (ubios_root b))) = b + of_nat ubc_off"
  "of_le (bytes_at 48 8 (ubios_root_bytes (ubios_root b))) = b + of_nat ummu_off"
  by (simp_all add: ubios_root_bytes_def ubios_root_def Let_def bytes_at_append_right
      bytes_at_append_left) (simp_all add: bytes_at_def)

lemmas table_offsets = root_size_def ubc_size_def ummu_size_def ubc_off_def ummu_off_def

text \<open>
  C33: populating the firmware region always succeeds, fills exactly its 4096 bytes, makes it
  read-only, and leaves three well-formed, non-overlapping tables in it: the root at offset 0,
  \<^verbatim>\<open>ubc\<close> and \<^verbatim>\<open>ummu\<close> at the two places the root's pointers name, each with
  its right name and size and a checksum that verifies.
\<close>

theorem populate_ubios_tables:
  "\<exists>blob. linqu_ub_populate_ubios s ubios_base mmio_base msg_irq =
       (True, s\<lparr>ubios := blob, ubios_readonly := True\<rparr>) \<and> length blob = 0x1000 \<and>
     table_valid ''ubios'' root_size (bytes_at 0 root_size blob) \<and>
     of_le (bytes_at 40 8 blob) = ubios_base + of_nat ubc_off \<and>
     of_le (bytes_at 48 8 blob) = ubios_base + of_nat ummu_off \<and>
     table_valid ''ubc'' ubc_size (bytes_at ubc_off ubc_size blob) \<and>
     table_valid ''ummu'' ummu_size (bytes_at ummu_off ummu_size blob)"
proof -
  define b1 where "b1 = put_at 0 (ubios_root_bytes (ubios_root ubios_base)) (zeros 0x1000)"
  define b2 where "b2 = put_at ubc_off (ubc_table_bytes (ubios_ubc s mmio_base msg_irq)) b1"
  define b3 where "b3 = put_at ummu_off (ummu_table_bytes (ubios_ummu mmio_base)) b2"
  have r: "linqu_ub_populate_ubios s ubios_base mmio_base msg_irq =
      (True, s\<lparr>ubios := b3, ubios_readonly := True\<rparr>)"
    by (simp add: linqu_ub_populate_ubios_def b1_def b2_def b3_def table_offsets)
  have l1: "length b1 = 0x1000" by (simp add: b1_def table_offsets)
  have l2: "length b2 = 0x1000" using l1 by (simp add: b2_def table_offsets)
  have l3: "length b3 = 0x1000" using l2 by (simp add: b3_def table_offsets)
  have low: "bytes_at o' n b3 = bytes_at o' n b1" if "o' + n \<le> ubc_off" for o' n
    using that l1 l2
    by (simp add: b3_def b2_def bytes_at_put_at_before table_offsets)
  have root: "bytes_at 0 root_size b3 = ubios_root_bytes (ubios_root ubios_base)"
    using low [of 0 root_size] by (simp add: b1_def table_offsets)
  have sub: "bytes_at o' n b3 = bytes_at o' n (ubios_root_bytes (ubios_root ubios_base))"
    if "o' + n \<le> root_size" for o' n
  proof -
    have "bytes_at o' n (bytes_at 0 root_size b3) = bytes_at o' n b3"
      using that by (simp add: bytes_at_def drop_take min_def)
    then show ?thesis by (simp add: root)
  qed
  have ubc: "bytes_at ubc_off ubc_size b3 = ubc_table_bytes (ubios_ubc s mmio_base msg_irq)"
    using l1 l2 by (simp add: b3_def bytes_at_put_at_before b2_def table_offsets
        bytes_at_put_at_same [where n = 440, folded ubc_size_def])
  have ummu: "bytes_at ummu_off ummu_size b3 = ummu_table_bytes (ubios_ummu mmio_base)"
    using l2 by (simp add: b3_def table_offsets)
  have ptr: "of_le (bytes_at 40 8 b3) = ubios_base + of_nat ubc_off"
    "of_le (bytes_at 48 8 b3) = ubios_base + of_nat ummu_off"
    using sub [of 40 8] sub [of 48 8] by (simp_all add: root_pointers root_size_def)
  show ?thesis
    by (intro exI [of _ b3])
      (simp only: r root ubc ummu ptr l3 root_valid ubc_valid ummu_valid simp_thms)
qed

end
