(* ===== verification/UB_Msgq.thy ===== *)
theory UB_Msgq
  imports UB_Core
begin

text \<open>
  The message queue of the \<^verbatim>\<open>linqu-ub\<close> device: the responders for configuration,
  enumeration and vendor messages, the dispatch of one submission entry and the loop that drains
  the submission ring. A response packet goes into the receive ring, a completion entry into the
  completion ring.

  The locale \<open>msgq_responder\<close> is the contract the dispatcher relies on; each responder is an
  interpretation of it. The loop is a \<^theory_text>\<open>partial_function\<close>, so that not returning is the
  value \<open>None\<close>; \<open>ring_sq_drains\<close> shows that it always returns and what it has done then.
\<close>

section \<open>Messages\<close>

record msg_sqe =
  sqe_dw0 :: u32
  sqe_dw1 :: u32
  sqe_p_addr :: u32
  sqe_dw3 :: u32

definition msg_sqe_of :: "bytes \<Rightarrow> msg_sqe" where
  "msg_sqe_of bs = \<lparr>sqe_dw0 = of_le (bytes_at 0 4 bs), sqe_dw1 = of_le (bytes_at 4 4 bs),
     sqe_p_addr = of_le (bytes_at 8 4 bs), sqe_dw3 = of_le (bytes_at 12 4 bs)\<rparr>"

record msg_cqe =
  cqe_dw0 :: u32
  cqe_dw1 :: u32
  cqe_dw2 :: u32
  cqe_dw3 :: u32

definition msg_cqe_bytes :: "msg_cqe \<Rightarrow> bytes" where
  "msg_cqe_bytes c = le32 (cqe_dw0 c) @ le32 (cqe_dw1 c) @ le32 (cqe_dw2 c) @ le32 (cqe_dw3 c)"

text \<open>A message packet is 48 bytes: eight header dwords and a 16-byte payload.\<close>

definition msg_packet_size :: nat where "msg_packet_size = 48"

definition pkt_dword :: "bytes \<Rightarrow> nat \<Rightarrow> u32" where
  "pkt_dword pkt k = of_le (bytes_at (4 * k) 4 pkt)"

record cfg_req_payload =
  req_dw0 :: u32
  req_addr :: u32
  req_write_data :: u32

definition cfg_req_payload_of :: "bytes \<Rightarrow> cfg_req_payload" where
  "cfg_req_payload_of pkt =
     \<lparr>req_dw0 = pkt_dword pkt 8, req_addr = pkt_dword pkt 9, req_write_data = pkt_dword pkt 11\<rparr>"

section \<open>Ring writes\<close>

definition linqu_ub_msgq_write_rq_packet ::
  "'m dma_bus \<Rightarrow> ('m, 'b) ub_state \<Rightarrow> u32 \<Rightarrow> bytes \<Rightarrow> bool \<times> ('m, 'b) ub_state" where
  "linqu_ub_msgq_write_rq_packet bus s rq_idx buf =
     (let (ok, m) = dma_memory_write bus (address_space_memory s)
                      (mq_rq_iova (msgq s) + ucast rq_idx * LINQU_UB_MSGQ_RQE_SIZE) buf
      in (ok, s\<lparr>address_space_memory := m\<rparr>))"

definition linqu_ub_msgq_write_cqe ::
  "'m dma_bus \<Rightarrow> ('m, 'b) ub_state \<Rightarrow> u32 \<Rightarrow> msg_cqe \<Rightarrow> bool \<times> ('m, 'b) ub_state" where
  "linqu_ub_msgq_write_cqe bus s cq_idx cqe =
     (let (ok, m) = dma_memory_write bus (address_space_memory s)
                      (mq_cq_iova (msgq s) + ucast cq_idx * LINQU_UB_MSGQ_CQE_SIZE)
                      (msg_cqe_bytes cqe)
      in (ok, s\<lparr>address_space_memory := m\<rparr>))"

text \<open>The tail every responder shares: the packet into the receive ring, the completion into
  the completion ring, then both producer indices and the interrupt state.\<close>

definition msgq_complete ::
  "'m dma_bus \<Rightarrow> ('m, 'b) ub_state \<Rightarrow> msg_sqe \<Rightarrow> bytes \<Rightarrow> u32 \<Rightarrow> int \<times> ('m, 'b) ub_state" where
  "msgq_complete bus s sqe rsp dw0 =
     (let rq_idx = mq_rq_pi (msgq s);
          (ok, s1) = linqu_ub_msgq_write_rq_packet bus s rq_idx rsp
      in if \<not> ok then (-1, s1)
         else let cq_idx = mq_cq_pi (msgq s1);
                  cqe = \<lparr>cqe_dw0 = dw0, cqe_dw1 = sqe_dw1 sqe,
                         cqe_dw2 = (rq_idx AND 0x3ff) OR push_bit 16 LINQU_UB_MSG_CQE_SUCCESS,
                         cqe_dw3 = 0\<rparr>;
                  (ok2, s2) = linqu_ub_msgq_write_cqe bus s1 cq_idx cqe
              in if \<not> ok2 then (-1, s2)
                 else (0, linqu_ub_msgq_raise_cq_irq
                            (upd_msgq (\<lambda>q. q\<lparr>mq_rq_pi := (mq_rq_pi q + 1) mod mq_rq_depth q,
                                              mq_cq_pi := (mq_cq_pi q + 1) mod mq_cq_depth q\<rparr>) s2)))"

section \<open>Responders\<close>

text \<open>The header of a configuration response: CNA halves exchanged, source and destination
  entity ids exchanged, the response bit set in the opcode, the rest copied.\<close>

definition cfg_rsp_packet :: "bytes \<Rightarrow> u32 \<Rightarrow> u32 \<Rightarrow> bytes" where
  "cfg_rsp_packet pkt rsp_code read_data =
     (let d = pkt_dword pkt;
          rsp_dw1 = push_bit 16 (d 1) OR drop_bit 16 (d 1);
          req_dw3 = d 3; req_dw4 = d 4;
          req_seid = push_bit 12 (req_dw3 AND 0xff) OR (drop_bit 20 req_dw4 AND 0xfff);
          req_deid = req_dw4 AND 0xfffff;
          rsp_seid = req_deid; rsp_deid = req_seid;
          rsp_dw3 = (req_dw3 AND NOT 0xff) OR (drop_bit 12 rsp_seid AND 0xff);
          rsp_dw4 = (rsp_deid AND 0xfffff) OR push_bit 20 (rsp_seid AND 0xfff);
          rsp_dw7 = (d 7 AND 0x00ffffff) OR push_bit 24 rsp_code
      in concat (map le32 [d 0, rsp_dw1, d 2, rsp_dw3, rsp_dw4, d 5, d 6, rsp_dw7,
                           read_data, 0, 0, 0]))"

definition linqu_ub_msgq_respond_cfg ::
  "'m dma_bus \<Rightarrow> ('m, 'b) ub_state \<Rightarrow> msg_sqe \<Rightarrow> bytes \<Rightarrow> int \<times> ('m, 'b) ub_state" where
  "linqu_ub_msgq_respond_cfg bus s sqe req_pkt =
     (if mq_rq_depth (msgq s) = 0 \<or> mq_cq_depth (msgq s) = 0 then (-1, s)
      else let req_pld = cfg_req_payload_of req_pkt;
               code = drop_bit 24 (pkt_dword req_pkt 7);
               rsp_code = code OR LINQU_UB_MSG_RSP_BIT
           in if code \<noteq> LINQU_UB_MSG_REQ_CODE_CFG0_READ \<and> code \<noteq> LINQU_UB_MSG_REQ_CODE_CFG0_WRITE \<and>
                 code \<noteq> LINQU_UB_MSG_REQ_CODE_CFG1_READ \<and> code \<noteq> LINQU_UB_MSG_REQ_CODE_CFG1_WRITE
              then (-1, s)
              else let is_write = (code = LINQU_UB_MSG_REQ_CODE_CFG0_WRITE \<or>
                                   code = LINQU_UB_MSG_REQ_CODE_CFG1_WRITE);
                       (rc, read_data, s1) =
                         (if is_write
                          then (let (rc, t) = linqu_ub_cfg_write_dword s (req_addr req_pld)
                                                (req_write_data req_pld) in (rc, 0, t))
                          else (let (rc, v) = linqu_ub_cfg_read_dword s (req_addr req_pld)
                                in (rc, v, s)))
                   in if rc < 0 then (-1, s1)
                      else msgq_complete bus s1 sqe (cfg_rsp_packet req_pkt rsp_code read_data)
                             ((sqe_dw0 sqe AND NOT (push_bit 8 0xff)) OR
                              push_bit 8 (rsp_code AND 0xff)))"

text \<open>Enumeration responses open with the first 16 request bytes, bytes 12 and 13 cleared, and a
  zero path word; the completion's length field is the response length.\<close>

definition enum_rsp_head :: "bytes \<Rightarrow> bytes" where
  "enum_rsp_head req_buf = bytes_at 0 12 req_buf @ [0, 0] @ bytes_at 14 2 req_buf @ [0, 0, 0, 0]"

definition cqe_len_dw0 :: "msg_sqe \<Rightarrow> u32 \<Rightarrow> u32" where
  "cqe_len_dw0 sqe rsp_len =
     (sqe_dw0 sqe AND NOT (push_bit 16 0xfff)) OR push_bit 16 (rsp_len AND 0xfff)"

definition enum_topo_rsp :: "bytes \<Rightarrow> bytes" where
  "enum_topo_rsp req_buf =
     enum_rsp_head req_buf @
     [0, LINQU_UB_ENUM_TOPO_QUERY_RSP, LINQU_UB_ENUM_CMD_TOPO_QUERY, LINQU_UB_ENUM_VERSION,
      0, 0, (24 + 4 + 8 + 8 + 28) div 4, 0] @ bytes_at 28 16 req_buf @
     [0, 1, 4, LINQU_UB_ENUM_TLV_SLICE_INFO] @
     [1, 0, 8, LINQU_UB_ENUM_TLV_PORT_NUM, 0, 0, 1, 0] @
     [0, 0, 8, LINQU_UB_ENUM_TLV_CAP_INFO, 0, 0, 0, 0] @
     [0, 0, 28, LINQU_UB_ENUM_TLV_PORT_INFO, 0, 0, 0, 0] @ replicate 20 0"

definition linqu_ub_msgq_respond_enum_topo_query ::
  "'m dma_bus \<Rightarrow> ('m, 'b) ub_state \<Rightarrow> msg_sqe \<Rightarrow> bytes \<Rightarrow> int \<times> ('m, 'b) ub_state" where
  "linqu_ub_msgq_respond_enum_topo_query bus s sqe req_buf =
     (if mq_rq_depth (msgq s) = 0 \<or> mq_cq_depth (msgq s) = 0 then (-1, s)
      else msgq_complete bus s sqe (enum_topo_rsp req_buf)
             (cqe_len_dw0 sqe (16 + 4 + 24 + 4 + 8 + 8 + 28)))"

definition enum_na_cfg_rsp :: "bytes \<Rightarrow> bytes" where
  "enum_na_cfg_rsp req_buf =
     enum_rsp_head req_buf @
     [0, LINQU_UB_ENUM_NA_CFG_RSP, LINQU_UB_ENUM_CMD_NA_CFG, LINQU_UB_ENUM_VERSION] @
     bytes_at 21 1 req_buf @ bytes_at 20 1 req_buf @ [24 div 4] @ bytes_at 23 1 req_buf @
     bytes_at 24 16 req_buf"

definition linqu_ub_msgq_respond_enum_na_cfg ::
  "'m dma_bus \<Rightarrow> ('m, 'b) ub_state \<Rightarrow> msg_sqe \<Rightarrow> bytes \<Rightarrow> int \<times> ('m, 'b) ub_state" where
  "linqu_ub_msgq_respond_enum_na_cfg bus s sqe req_buf =
     (if mq_rq_depth (msgq s) = 0 \<or> mq_cq_depth (msgq s) = 0 then (-1, s)
      else msgq_complete bus s sqe (enum_na_cfg_rsp req_buf) (cqe_len_dw0 sqe (16 + 4 + 24)))"

definition enum_na_query_rsp :: "bytes \<Rightarrow> bytes" where
  "enum_na_query_rsp req_buf =
     (let cna = 1 :: u32
      in enum_rsp_head req_buf @
         [0, LINQU_UB_ENUM_NA_QUERY_RSP, LINQU_UB_ENUM_CMD_NA_QUERY, LINQU_UB_ENUM_VERSION] @
         bytes_at 21 1 req_buf @ bytes_at 20 1 req_buf @ [28 div 4] @ bytes_at 23 1 req_buf @
         bytes_at 24 16 req_buf @
         [ucast (cna AND 0xff), ucast (drop_bit 8 cna AND 0xff), ucast (drop_bit 16 cna AND 0xff), 0])"

definition linqu_ub_msgq_respond_enum_na_query ::
  "'m dma_bus \<Rightarrow> ('m, 'b) ub_state \<Rightarrow> msg_sqe \<Rightarrow> bytes \<Rightarrow> int \<times> ('m, 'b) ub_state" where
  "linqu_ub_msgq_respond_enum_na_query bus s sqe req_buf =
     (if mq_rq_depth (msgq s) = 0 \<or> mq_cq_depth (msgq s) = 0 then (-1, s)
      else msgq_complete bus s sqe (enum_na_query_rsp req_buf) (cqe_len_dw0 sqe (16 + 4 + 28)))"

definition linqu_ub_msgq_respond_hi_eu_cfg ::
  "'m dma_bus \<Rightarrow> ('m, 'b) ub_state \<Rightarrow> msg_sqe \<Rightarrow> bytes \<Rightarrow> int \<times> ('m, 'b) ub_state" where
  "linqu_ub_msgq_respond_hi_eu_cfg bus s sqe req_buf =
     (if mq_rq_depth (msgq s) = 0 \<or> mq_cq_depth (msgq s) = 0 then (-1, s)
      else let rsp_dw0 = pkt_dword req_buf 0 OR LINQU_UB_HI_EU_CFG_STATUS_SUCCESS
           in msgq_complete bus s sqe (le32 rsp_dw0) (cqe_len_dw0 sqe 4))"

section \<open>Dispatch and the submission ring\<close>

definition linqu_ub_msgq_process_sqe ::
  "'m dma_bus \<Rightarrow> ('m, 'b) ub_state \<Rightarrow> u32 \<Rightarrow> int \<times> ('m, 'b) ub_state" where
  "linqu_ub_msgq_process_sqe bus s sq_idx =
     (if mq_sq_iova (msgq s) = 0 then (-1, s)
      else case dma_memory_read bus (address_space_memory s)
                  (mq_sq_iova (msgq s) + ucast sq_idx * LINQU_UB_MSGQ_SQE_SIZE) 16 of
        None \<Rightarrow> (-1, s)
      | Some raw \<Rightarrow>
          let sqe = msg_sqe_of raw
          in case dma_memory_read bus (address_space_memory s)
                    (mq_sq_iova (msgq s) + ucast (sqe_p_addr sqe)) msg_packet_size of
            None \<Rightarrow> (-1, s)
          | Some pkt \<Rightarrow>
              let task_type = sqe_dw0 sqe AND 0x3;
                  opcode = drop_bit 8 (sqe_dw0 sqe) AND 0xff
              in if task_type = LINQU_UB_TASK_PROTOCOL_MSG
                 then linqu_ub_msgq_respond_cfg bus s sqe pkt
                 else if task_type = LINQU_UB_TASK_PROTOCOL_ENUM \<and> opcode = LINQU_UB_ENUM_CMD_TOPO_QUERY
                 then linqu_ub_msgq_respond_enum_topo_query bus s sqe pkt
                 else if task_type = LINQU_UB_TASK_PROTOCOL_ENUM \<and> opcode = LINQU_UB_ENUM_CMD_NA_CFG
                 then linqu_ub_msgq_respond_enum_na_cfg bus s sqe pkt
                 else if task_type = LINQU_UB_TASK_PROTOCOL_ENUM \<and> opcode = LINQU_UB_ENUM_CMD_NA_QUERY
                 then linqu_ub_msgq_respond_enum_na_query bus s sqe pkt
                 else if task_type = LINQU_UB_TASK_HISI_PRIVATE \<and>
                         opcode = LINQU_UB_HISI_PRIVATE_EU_TABLE_CFG_CMD
                 then linqu_ub_msgq_respond_hi_eu_cfg bus s sqe pkt
                 else (-1, s))"

partial_function (option) msgq_ring_loop ::
  "'m dma_bus \<Rightarrow> u32 \<Rightarrow> u32 \<Rightarrow> ('m, 'b) ub_state \<Rightarrow> (int \<times> ('m, 'b) ub_state) option" where
  "msgq_ring_loop bus new_sq_pi sq_idx s =
     (if sq_idx \<noteq> new_sq_pi
      then (let r = linqu_ub_msgq_process_sqe bus s sq_idx
            in if fst r < 0 then Some (-1, snd r)
               else msgq_ring_loop bus new_sq_pi
                      ((sq_idx + 1) mod mq_sq_depth (msgq (snd r))) (snd r))
      else Some (0, s))"

definition linqu_ub_msgq_ring_sq ::
  "'m dma_bus \<Rightarrow> ('m, 'b) ub_state \<Rightarrow> u32 \<Rightarrow> (int \<times> ('m, 'b) ub_state) option" where
  "linqu_ub_msgq_ring_sq bus s new_sq_pi =
     Option.bind (msgq_ring_loop bus new_sq_pi (mq_sq_ci (msgq s)) s)
       (\<lambda>(rc, s1). Some (if rc < 0 then (-1, s1)
                         else (0, upd_msgq (\<lambda>q. q\<lparr>mq_sq_ci := new_sq_pi\<rparr>) s1)))"

section \<open>The contract of a responder\<close>

text \<open>What a message may change: the two producer indices, the completion interrupt, the
  configuration words, the line and memory. Everything else is the frame.\<close>

definition msgq_fixed :: "msgq_state \<Rightarrow> msgq_state" where
  "msgq_fixed q = q\<lparr>mq_rq_pi := 0, mq_cq_pi := 0, mq_cq_int_status := 0, mq_cq_int_ro := 0\<rparr>"

definition msgq_frame :: "('m, 'b) ub_state \<Rightarrow> ('m, 'b) ub_state \<Rightarrow> bool" where
  "msgq_frame s t \<longleftrightarrow>
     num_endpoints t = num_endpoints s \<and> desc_bytes t = desc_bytes s \<and>
     scenario_path t = scenario_path s \<and> rust_bridge t = rust_bridge s \<and> backend t = backend s \<and> endpoints t = endpoints s \<and>
     ummu t = ummu s \<and> ubios t = ubios s \<and> ubios_readonly t = ubios_readonly s \<and>
     opaque t = opaque s \<and>
     msgq_fixed (msgq t) = msgq_fixed (msgq s)"

text \<open>The completion entry a successful responder leaves at the old producer index: it carries
  the submission's second dword and the slot of the response packet.\<close>

definition completion_at :: "'m dma_bus \<Rightarrow> ('m, 'b) ub_state \<Rightarrow> msg_sqe \<Rightarrow> ('m, 'b) ub_state \<Rightarrow> bool" where
  "completion_at bus s sqe t \<longleftrightarrow>
     (\<exists>dw0. dma_memory_read bus (address_space_memory t)
              (mq_cq_iova (msgq s) + ucast (mq_cq_pi (msgq s)) * LINQU_UB_MSGQ_CQE_SIZE) 16 =
            Some (msg_cqe_bytes \<lparr>cqe_dw0 = dw0, cqe_dw1 = sqe_dw1 sqe,
                                 cqe_dw2 = mq_rq_pi (msgq s) AND 0x3ff, cqe_dw3 = 0\<rparr>))"

text \<open>A responder either fails and moves no index, or produces one packet and one completion.\<close>

definition msgq_post ::
  "'m dma_bus \<Rightarrow> ('m, 'b) ub_state \<Rightarrow> msg_sqe \<Rightarrow> int \<times> ('m, 'b) ub_state \<Rightarrow> bool" where
  "msgq_post bus s sqe r \<longleftrightarrow>
     msgq_frame s (snd r) \<and> (irq_synced s \<longrightarrow> irq_synced (snd r)) \<and>
     (fst r = -1 \<and> msgq (snd r) = msgq s \<or>
      fst r = 0 \<and> mq_rq_depth (msgq s) \<noteq> 0 \<and> mq_cq_depth (msgq s) \<noteq> 0 \<and>
      msgq (snd r) = (msgq s)\<lparr>mq_rq_pi := ring_next (mq_rq_depth (msgq s)) (mq_rq_pi (msgq s)),
                              mq_cq_pi := ring_next (mq_cq_depth (msgq s)) (mq_cq_pi (msgq s)),
                              mq_cq_int_status := 1, mq_cq_int_ro := 0\<rparr> \<and>
      (dma_memory bus \<longrightarrow> completion_at bus s sqe (snd r)))"

lemma msgq_frame_refl [simp]: "msgq_frame s s"
  by (simp add: msgq_frame_def)

lemma msgq_frame_trans [trans]: "msgq_frame s t \<Longrightarrow> msgq_frame t u \<Longrightarrow> msgq_frame s u"
  by (simp add: msgq_frame_def)

lemma msgq_fixed_fields:
  assumes "msgq_fixed q = msgq_fixed r"
  shows "mq_sq_depth q = mq_sq_depth r" "mq_rq_depth q = mq_rq_depth r"
    "mq_cq_depth q = mq_cq_depth r" "mq_sq_ci q = mq_sq_ci r" "mq_sq_pi q = mq_sq_pi r"
    "mq_sq_iova q = mq_sq_iova r" "mq_rq_iova q = mq_rq_iova r" "mq_cq_iova q = mq_cq_iova r"
    "mq_cq_ci q = mq_cq_ci r" "mq_rq_ci q = mq_rq_ci r"
    "mq_rq_entry_size q = mq_rq_entry_size r" "mq_cq_int_mask q = mq_cq_int_mask r"
  using assms unfolding msgq_fixed_def by (cases q; cases r; simp)+

lemma msgq_frame_fields:
  assumes "msgq_frame s t"
  shows "num_endpoints t = num_endpoints s" "desc_bytes t = desc_bytes s" "backend t = backend s"
    "endpoints t = endpoints s" "ummu t = ummu s" "opaque t = opaque s" "ubios t = ubios s"
    "ubios_readonly t = ubios_readonly s" "msgq_fixed (msgq t) = msgq_fixed (msgq s)"
  using assms by (simp_all add: msgq_frame_def)

lemma msgq_post_fail [simp]: "msgq_post bus s sqe (-1, s)"
  by (simp add: msgq_post_def)

lemma length_cqe_bytes [simp]: "length (msg_cqe_bytes c) = 16"
  by (simp add: msg_cqe_bytes_def)

lemma msgq_complete_post:
  assumes depth: "mq_rq_depth (msgq s) \<noteq> 0" "mq_cq_depth (msgq s) \<noteq> 0"
  shows "msgq_post bus s sqe (msgq_complete bus s sqe rsp dw0)"
proof -
  let ?raddr = "mq_rq_iova (msgq s) + ucast (mq_rq_pi (msgq s)) * LINQU_UB_MSGQ_RQE_SIZE"
  let ?caddr = "mq_cq_iova (msgq s) + ucast (mq_cq_pi (msgq s)) * LINQU_UB_MSGQ_CQE_SIZE"
  let ?cqe = "\<lparr>cqe_dw0 = dw0, cqe_dw1 = sqe_dw1 sqe, cqe_dw2 = mq_rq_pi (msgq s) AND 0x3ff, cqe_dw3 = 0\<rparr>"
  obtain ok m where w1: "dma_memory_write bus (address_space_memory s) ?raddr rsp = (ok, m)"
    by fastforce
  obtain ok2 m2 where w2: "dma_memory_write bus m ?caddr (msg_cqe_bytes ?cqe) = (ok2, m2)"
    by fastforce
  note defs = msgq_complete_def linqu_ub_msgq_write_rq_packet_def linqu_ub_msgq_write_cqe_def
    Let_def w1 [simplified] w2 [simplified]
  have comp: "completion_at bus s sqe t"
    if "dma_memory bus" and "address_space_memory t = m2" and ok2 for t :: "('a, 'b) ub_state"
    using dma_memory.read_written [OF that(1), of m ?caddr "msg_cqe_bytes ?cqe" m2] w2 that(2,3)
    by (auto simp: completion_at_def)
  show ?thesis
    using depth comp
    by (simp add: defs msgq_post_def linqu_ub_msgq_raise_cq_irq_def linqu_ub_update_irq_def upd_defs
        ring_next_def msgq_frame_def msgq_fixed_def irq_synced_def linqu_ub_has_pending_irq_def)
qed

locale msgq_responder =
  fixes respond :: "'m dma_bus \<Rightarrow> ('m, 'b) ub_state \<Rightarrow> msg_sqe \<Rightarrow> bytes \<Rightarrow> int \<times> ('m, 'b) ub_state"
  assumes respond_post: "msgq_post bus s sqe (respond bus s sqe req)"
begin

lemma respond_rc: "fst (respond bus s sqe req) = 0 \<or> fst (respond bus s sqe req) = -1"
  using respond_post [of bus s sqe req] by (auto simp: msgq_post_def)

lemma respond_fail_keeps_indices:
  "fst (respond bus s sqe req) < 0 \<Longrightarrow> msgq (snd (respond bus s sqe req)) = msgq s"
  using respond_post [of bus s sqe req] by (auto simp: msgq_post_def)

lemma respond_masks_irq:
  "fst (respond bus s sqe req) = 0 \<Longrightarrow> mq_cq_int_ro (msgq (snd (respond bus s sqe req))) = 0"
  using respond_post [of bus s sqe req] by (auto simp: msgq_post_def)

end

lemma guarded_complete_post:
  "msgq_post bus s sqe
     (if mq_rq_depth (msgq s) = 0 \<or> mq_cq_depth (msgq s) = 0 then (-1, s)
      else msgq_complete bus s sqe rsp dw0)"
  by (simp add: msgq_complete_post)

interpretation enum_topo_query: msgq_responder linqu_ub_msgq_respond_enum_topo_query
  by unfold_locales
    (simp only: linqu_ub_msgq_respond_enum_topo_query_def Let_def guarded_complete_post)

interpretation enum_na_cfg: msgq_responder linqu_ub_msgq_respond_enum_na_cfg
  by unfold_locales
    (simp only: linqu_ub_msgq_respond_enum_na_cfg_def Let_def guarded_complete_post)

interpretation enum_na_query: msgq_responder linqu_ub_msgq_respond_enum_na_query
  by unfold_locales
    (simp only: linqu_ub_msgq_respond_enum_na_query_def Let_def guarded_complete_post)

interpretation hi_eu_cfg: msgq_responder linqu_ub_msgq_respond_hi_eu_cfg
  by unfold_locales
    (simp only: linqu_ub_msgq_respond_hi_eu_cfg_def Let_def guarded_complete_post)

lemma msgq_post_cfg_write:
  assumes "msgq_post bus (s\<lparr>decoder := d, cfg_upi := u, cfg_th_en := t\<rparr>) sqe r"
  shows "msgq_post bus s sqe r"
  using assms
  by (simp add: msgq_post_def msgq_frame_def completion_at_def irq_synced_def
      linqu_ub_has_pending_irq_def)

interpretation respond_cfg: msgq_responder linqu_ub_msgq_respond_cfg
proof
  fix bus :: "'a dma_bus" and s :: "('a, 'b) ub_state" and sqe req
  define a v where "a = req_addr (cfg_req_payload_of req)"
    and "v = req_write_data (cfg_req_payload_of req)"
  obtain d u th where w: "snd (linqu_ub_cfg_write_dword s a v) =
      s\<lparr>decoder := d, cfg_upi := u, cfg_th_en := th\<rparr>"
    using cfg_write_cases by blast
  have wr: "linqu_ub_cfg_write_dword s a v = (0, s\<lparr>decoder := d, cfg_upi := u, cfg_th_en := th\<rparr>)"
    by (rule prod_eqI) (simp_all add: w)
  obtain rv where rd: "linqu_ub_cfg_read_dword s a = (0, rv)"
    using cfg_read_rc [of s a] by (metis prod.collapse)
  have post: "msgq_post bus s sqe
      (msgq_complete bus (s\<lparr>decoder := d, cfg_upi := u, cfg_th_en := th\<rparr>) sqe rsp dw0)"
    if "mq_rq_depth (msgq s) \<noteq> 0" "mq_cq_depth (msgq s) \<noteq> 0" for rsp dw0
    by (rule msgq_post_cfg_write [OF msgq_complete_post]) (simp_all add: that)
  define P where "P r \<longleftrightarrow> msgq_post bus s sqe r" for r :: "int \<times> ('a, 'b) ub_state"
  have P: "P (case (if c then case (0, s\<lparr>decoder := d, cfg_upi := u, cfg_th_en := th\<rparr>) of (rc, t) \<Rightarrow> (rc, 0, t)
                    else case (0, rv) of (rc, x) \<Rightarrow> (rc, x, s)) of
              (rc :: int, x, s1) \<Rightarrow> if rc < 0 then (-1, s1) else msgq_complete bus s1 sqe (f x) dw0)"
    if "\<not> (mq_rq_depth (msgq s) = 0 \<or> mq_cq_depth (msgq s) = 0)" for c f dw0
    using that by (cases c) (simp_all add: P_def msgq_complete_post post)
  have "P (linqu_ub_msgq_respond_cfg bus s sqe req)"
    unfolding linqu_ub_msgq_respond_cfg_def Let_def a_def [symmetric] v_def [symmetric] wr rd
    by (intro if_predI [where P = P] P) (simp_all only: P_def msgq_post_fail simp_thms)
  then show "msgq_post bus s sqe (linqu_ub_msgq_respond_cfg bus s sqe req)"
    by (simp add: P_def)
qed

section \<open>Draining the ring\<close>

lemma process_sqe_post: "\<exists>sqe. msgq_post bus s sqe (linqu_ub_msgq_process_sqe bus s sq_idx)"
proof -
  define P :: "int \<times> ('a, 'b) ub_state \<Rightarrow> bool" where
    "P r \<longleftrightarrow> (\<exists>sqe. msgq_post bus s sqe r)" for r
  have "P (-1, s)" by (simp add: P_def)
  moreover have "P (linqu_ub_msgq_respond_cfg bus s sqe pkt)"
    "P (linqu_ub_msgq_respond_enum_topo_query bus s sqe pkt)"
    "P (linqu_ub_msgq_respond_enum_na_cfg bus s sqe pkt)"
    "P (linqu_ub_msgq_respond_enum_na_query bus s sqe pkt)"
    "P (linqu_ub_msgq_respond_hi_eu_cfg bus s sqe pkt)" for sqe pkt
    unfolding P_def
    by (rule exI, rule respond_cfg.respond_post enum_topo_query.respond_post
        enum_na_cfg.respond_post enum_na_query.respond_post hi_eu_cfg.respond_post)+
  ultimately have "P (linqu_ub_msgq_process_sqe bus s sq_idx)"
    unfolding linqu_ub_msgq_process_sqe_def Let_def
    by (intro if_predI [where P = P] option_predI [where P = P])
  then show ?thesis by (simp add: P_def)
qed

text \<open>What draining \<open>n\<close> entries does to the two producer indices.\<close>

definition produced :: "nat \<Rightarrow> msgq_state \<Rightarrow> msgq_state \<Rightarrow> bool" where
  "produced n q q' \<longleftrightarrow>
     q' = (if n = 0 then q
           else q\<lparr>mq_rq_pi := (ring_next (mq_rq_depth q) ^^ n) (mq_rq_pi q),
                   mq_cq_pi := (ring_next (mq_cq_depth q) ^^ n) (mq_cq_pi q),
                   mq_cq_int_status := 1, mq_cq_int_ro := 0\<rparr>)"

definition ring_loop_post ::
  "('m, 'b) ub_state \<Rightarrow> nat \<Rightarrow> int \<times> ('m, 'b) ub_state \<Rightarrow> bool" where
  "ring_loop_post s n r \<longleftrightarrow>
     msgq_frame s (snd r) \<and> (irq_synced s \<longrightarrow> irq_synced (snd r)) \<and>
     (fst r = -1 \<and> (\<exists>k < n. produced k (msgq s) (msgq (snd r))) \<or>
      fst r = 0 \<and> produced n (msgq s) (msgq (snd r)))"

lemma ring_loop_post_0: "ring_loop_post s 0 (0, s)"
  by (simp add: ring_loop_post_def produced_def)

lemma produced_step:
  assumes "q1 = q\<lparr>mq_rq_pi := ring_next (mq_rq_depth q) (mq_rq_pi q),
       mq_cq_pi := ring_next (mq_cq_depth q) (mq_cq_pi q),
       mq_cq_int_status := 1, mq_cq_int_ro := 0\<rparr>"
    and "produced n q1 q'"
  shows "produced (Suc n) q q'"
  using assms by (cases n) (auto simp: produced_def funpow_swap1)

lemma ring_loop_post_fail:
  assumes "msgq_post bus s sqe r" and "fst r < 0"
  shows "ring_loop_post s (Suc n) (-1, snd r)"
  using assms by (auto simp: ring_loop_post_def msgq_post_def produced_def intro!: exI [of _ 0])

lemma ring_loop_post_Suc:
  assumes post: "msgq_post bus s sqe r" and rc: "\<not> fst r < 0"
    and rest: "ring_loop_post (snd r) n r'"
  shows "ring_loop_post s (Suc n) r'"
proof -
  have q: "msgq (snd r) = (msgq s)\<lparr>mq_rq_pi := ring_next (mq_rq_depth (msgq s)) (mq_rq_pi (msgq s)),
       mq_cq_pi := ring_next (mq_cq_depth (msgq s)) (mq_cq_pi (msgq s)),
       mq_cq_int_status := 1, mq_cq_int_ro := 0\<rparr>"
    and f: "msgq_frame s (snd r)" and i: "irq_synced s \<Longrightarrow> irq_synced (snd r)"
    using post rc by (auto simp: msgq_post_def)
  have f': "msgq_frame s (snd r')" and i': "irq_synced s \<Longrightarrow> irq_synced (snd r')"
    using rest i msgq_frame_trans [OF f] by (auto simp: ring_loop_post_def)
  show ?thesis
    using rest produced_step [OF q] f' i' unfolding ring_loop_post_def
    by (metis Suc_less_eq)
qed

lemma msgq_post_frame: "msgq_post bus s sqe r \<Longrightarrow> msgq_frame s (snd r)"
  by (simp add: msgq_post_def)

lemma msgq_ring_loop_returns:
  assumes "mq_sq_depth (msgq s) = d" and "d \<noteq> 0" and "pi < d" and "idx < d"
  shows "\<exists>r. msgq_ring_loop bus pi idx s = Some r \<and> ring_loop_post s (ring_dist d idx pi) r"
  using assms
proof (induction "ring_dist d idx pi" arbitrary: idx s)
  case 0
  then have "idx = pi"
    using ring.dist_zero_iff [OF ringI] by metis
  with 0 show ?case by (simp add: msgq_ring_loop.simps ring_loop_post_0)
next
  case (Suc n)
  then have ne: "idx \<noteq> pi"
    using ring.dist_zero_iff [OF ringI] by (metis Zero_not_Suc)
  define r where "r = linqu_ub_msgq_process_sqe bus s idx"
  obtain sqe where post: "msgq_post bus s sqe r"
    using process_sqe_post r_def by metis
  show ?case
  proof (cases "fst r < 0")
    case True
    with ne have "msgq_ring_loop bus pi idx s = Some (-1, snd r)"
      by (subst msgq_ring_loop.simps) (simp add: r_def Let_def)
    with ring_loop_post_fail [OF post True] Suc.hyps(2) show ?thesis by metis
  next
    case False
    have d: "mq_sq_depth (msgq (snd r)) = d"
      using msgq_fixed_fields(1) [OF msgq_frame_fields(9) [OF msgq_post_frame [OF post]]] Suc.prems(1)
      by simp
    have "n = ring_dist d (ring_next d idx) pi"
      using ring.dist_next [OF ringI] Suc.hyps(2) Suc.prems ne by (metis diff_Suc_1)
    from Suc.hyps(1) [OF this d Suc.prems(2,3) ring.next_less [OF ringI]] Suc.prems(2)
    obtain r' where r': "msgq_ring_loop bus pi (ring_next d idx) (snd r) = Some r'"
      "ring_loop_post (snd r) n r'"
      using \<open>n = ring_dist d (ring_next d idx) pi\<close> by auto
    from ne False d r'(1) have "msgq_ring_loop bus pi idx s = Some r'"
      by (subst msgq_ring_loop.simps) (simp add: r_def Let_def ring_next_def)
    with ring_loop_post_Suc [OF post False r'(2)] Suc.hyps(2) show ?thesis by metis
  qed
qed

text \<open>The number of entries between the consumer index and a new producer index; a consumer
  index beyond a shrunk ring re-enters it with its first step.\<close>

definition sq_backlog :: "u32 \<Rightarrow> u32 \<Rightarrow> u32 \<Rightarrow> nat" where
  "sq_backlog d ci pi = (if ci < d then ring_dist d ci pi else Suc (ring_dist d (ring_next d ci) pi))"

lemma msgq_ring_loop_backlog:
  assumes d: "mq_sq_depth (msgq s) = d" "d \<noteq> 0" and pi: "pi < d"
  shows "\<exists>r. msgq_ring_loop bus pi idx s = Some r \<and> ring_loop_post s (sq_backlog d idx pi) r"
proof (cases "idx < d")
  case True
  with msgq_ring_loop_returns [OF d pi] show ?thesis by (simp add: sq_backlog_def)
next
  case False
  with pi have ne: "idx \<noteq> pi" by auto
  define r where "r = linqu_ub_msgq_process_sqe bus s idx"
  obtain sqe where post: "msgq_post bus s sqe r"
    using process_sqe_post r_def by metis
  show ?thesis
  proof (cases "fst r < 0")
    case True
    with ne have "msgq_ring_loop bus pi idx s = Some (-1, snd r)"
      by (subst msgq_ring_loop.simps) (simp add: r_def Let_def)
    with ring_loop_post_fail [OF post True] False show ?thesis by (auto simp: sq_backlog_def)
  next
    case ok: False
    have d': "mq_sq_depth (msgq (snd r)) = d"
      using msgq_fixed_fields(1) [OF msgq_frame_fields(9) [OF msgq_post_frame [OF post]]] d by simp
    obtain r' where r': "msgq_ring_loop bus pi (ring_next d idx) (snd r) = Some r'"
      "ring_loop_post (snd r) (ring_dist d (ring_next d idx) pi) r'"
      using msgq_ring_loop_returns [OF d' d(2) pi ring.next_less [OF ringI [OF d(2)]]] by blast
    from ne ok d' r'(1) have "msgq_ring_loop bus pi idx s = Some r'"
      by (subst msgq_ring_loop.simps) (simp add: r_def Let_def ring_next_def)
    with ring_loop_post_Suc [OF post ok r'(2)] False show ?thesis by (simp add: sq_backlog_def)
  qed
qed

lemma ring_sq_cases:
  assumes "mq_sq_depth (msgq s) \<noteq> 0" and "new_pi < mq_sq_depth (msgq s)"
  obtains rc t where
    "linqu_ub_msgq_ring_sq bus s new_pi =
       Some (if rc < 0 then (-1, t) else (0, upd_msgq (\<lambda>q. q\<lparr>mq_sq_ci := new_pi\<rparr>) t))"
    and "ring_loop_post s (sq_backlog (mq_sq_depth (msgq s)) (mq_sq_ci (msgq s)) new_pi) (rc, t)"
proof -
  obtain rc t where "msgq_ring_loop bus new_pi (mq_sq_ci (msgq s)) s = Some (rc, t)"
    and "ring_loop_post s (sq_backlog (mq_sq_depth (msgq s)) (mq_sq_ci (msgq s)) new_pi) (rc, t)"
    using msgq_ring_loop_backlog [OF refl assms, of bus "mq_sq_ci (msgq s)"] by fastforce
  with that show thesis by (simp add: linqu_ub_msgq_ring_sq_def)
qed

text \<open>
  C5: ringing the submission doorbell with an index inside the ring always returns, even when the
  consumer index lies beyond a ring that was shrunk. On success every entry between the old
  consumer index and the new producer index was answered: both producer indices advanced by
  exactly that many steps and the consumer index is the new producer index. On failure a proper
  prefix was answered and the consumer index did not move. Endpoints and backend are untouched.
\<close>

theorem ring_sq_drains:
  assumes "mq_sq_depth (msgq s) \<noteq> 0" and "new_pi < mq_sq_depth (msgq s)"
  shows "let n = sq_backlog (mq_sq_depth (msgq s)) (mq_sq_ci (msgq s)) new_pi in
    \<exists>t. endpoints t = endpoints s \<and> opaque t = opaque s \<and>
     (linqu_ub_msgq_ring_sq bus s new_pi = Some (0, upd_msgq (\<lambda>q. q\<lparr>mq_sq_ci := new_pi\<rparr>) t) \<and>
        produced n (msgq s) (msgq t) \<or>
      linqu_ub_msgq_ring_sq bus s new_pi = Some (-1, t) \<and>
        (\<exists>k < n. produced k (msgq s) (msgq t)))"
proof -
  obtain rc t where "linqu_ub_msgq_ring_sq bus s new_pi =
       Some (if rc < 0 then (-1, t) else (0, upd_msgq (\<lambda>q. q\<lparr>mq_sq_ci := new_pi\<rparr>) t))"
    and "ring_loop_post s (sq_backlog (mq_sq_depth (msgq s)) (mq_sq_ci (msgq s)) new_pi) (rc, t)"
    by (rule ring_sq_cases [OF assms])
  then show ?thesis
    unfolding Let_def ring_loop_post_def msgq_frame_def
    by (intro exI [of _ t]) auto
qed

section \<open>Configuration responses\<close>

text \<open>The fields of a packet header that a requester matches a response by.\<close>

definition pkt_seid :: "bytes \<Rightarrow> u32" where
  "pkt_seid p = push_bit 12 (pkt_dword p 3 AND 0xff) OR (drop_bit 20 (pkt_dword p 4) AND 0xfff)"

definition pkt_deid :: "bytes \<Rightarrow> u32" where
  "pkt_deid p = pkt_dword p 4 AND 0xfffff"

definition pkt_code :: "bytes \<Rightarrow> u32" where
  "pkt_code p = drop_bit 24 (pkt_dword p 7)"

lemma pkt_dword_concat:
  assumes "k < length ws"
  shows "pkt_dword (concat (map le32 ws)) k = ws ! k"
  using assms
proof (induction ws arbitrary: k)
  case (Cons w ws)
  then show ?case
    by (cases k) (auto simp: pkt_dword_def bytes_at_def)
qed simp

lemma cfg_rsp_packet_dwords:
  "pkt_dword (cfg_rsp_packet p c v) 3 =
     (pkt_dword p 3 AND NOT 0xff) OR (drop_bit 12 (pkt_deid p) AND 0xff)"
  "pkt_dword (cfg_rsp_packet p c v) 4 =
     (pkt_seid p AND 0xfffff) OR push_bit 20 (pkt_deid p AND 0xfff)"
  "pkt_dword (cfg_rsp_packet p c v) 7 = (pkt_dword p 7 AND 0x00ffffff) OR push_bit 24 c"
  "pkt_dword (cfg_rsp_packet p c v) 8 = v"
  "pkt_dword (cfg_rsp_packet p c v) 1 = push_bit 16 (pkt_dword p 1) OR drop_bit 16 (pkt_dword p 1)"
  unfolding cfg_rsp_packet_def Let_def pkt_seid_def pkt_deid_def
  by (subst pkt_dword_concat; simp)+

lemma u32_masks:
  "(0xff :: u32) = mask 8" "(0xfff :: u32) = mask 12" "(0xfffff :: u32) = mask 20"
  "(0x00ffffff :: u32) = mask 24"
  by (simp_all add: mask_eq_exp_minus_1)

lemma cfg_rsp_packet_eids:
  "pkt_seid (cfg_rsp_packet p c v) = pkt_deid p"
  "pkt_deid (cfg_rsp_packet p c v) = pkt_seid p"
proof -
  note defs = cfg_rsp_packet_dwords pkt_seid_def [of p] pkt_deid_def [of p] u32_masks
  show "pkt_seid (cfg_rsp_packet p c v) = pkt_deid p"
    unfolding pkt_seid_def [of "cfg_rsp_packet p c v"] defs
  proof (rule bit_word_eqI, goal_cases)
    case (1 n)
    then show ?case by (cases "n < 12") (auto simp: bit_simps)
  qed
  show "pkt_deid (cfg_rsp_packet p c v) = pkt_seid p"
    unfolding pkt_deid_def [of "cfg_rsp_packet p c v"] defs
    by (rule bit_word_eqI) (auto simp: bit_simps)
qed

lemma cfg_rsp_packet_code: "pkt_code (cfg_rsp_packet p c v) = c AND 0xff"
  unfolding pkt_code_def cfg_rsp_packet_dwords u32_masks
  by (rule bit_word_eqI) (auto simp: bit_simps)

lemma msgq_complete_packet:
  assumes bus: "dma_memory bus"
    and ok: "msgq_complete bus s sqe rsp dw0 = (0, t)"
    and apart: "let r = mq_rq_iova (msgq s) + ucast (mq_rq_pi (msgq s)) * LINQU_UB_MSGQ_RQE_SIZE;
                    c = mq_cq_iova (msgq s) + ucast (mq_cq_pi (msgq s)) * LINQU_UB_MSGQ_CQE_SIZE
                in unat c + 16 \<le> unat r \<or> unat r + length rsp \<le> unat c"
  shows "dma_memory_read bus (address_space_memory t)
           (mq_rq_iova (msgq s) + ucast (mq_rq_pi (msgq s)) * LINQU_UB_MSGQ_RQE_SIZE) (length rsp) = Some rsp"
    and "dma_memory_read bus (address_space_memory t)
           (mq_cq_iova (msgq s) + ucast (mq_cq_pi (msgq s)) * LINQU_UB_MSGQ_CQE_SIZE) 16 =
         Some (msg_cqe_bytes \<lparr>cqe_dw0 = dw0, cqe_dw1 = sqe_dw1 sqe, cqe_dw2 = mq_rq_pi (msgq s) AND 0x3ff, cqe_dw3 = 0\<rparr>)"
    and "mq_rq_pi (msgq t) = (mq_rq_pi (msgq s) + 1) mod mq_rq_depth (msgq s)"
    and "mq_cq_pi (msgq t) = (mq_cq_pi (msgq s) + 1) mod mq_cq_depth (msgq s)"
    and "mq_cq_int_status (msgq t) = 1"
proof -
  let ?raddr = "mq_rq_iova (msgq s) + ucast (mq_rq_pi (msgq s)) * LINQU_UB_MSGQ_RQE_SIZE"
  let ?caddr = "mq_cq_iova (msgq s) + ucast (mq_cq_pi (msgq s)) * LINQU_UB_MSGQ_CQE_SIZE"
  let ?cqe = "\<lparr>cqe_dw0 = dw0, cqe_dw1 = sqe_dw1 sqe, cqe_dw2 = mq_rq_pi (msgq s) AND 0x3ff, cqe_dw3 = 0\<rparr>"
  obtain o1 m where w1: "dma_memory_write bus (address_space_memory s) ?raddr rsp = (o1, m)"
    by fastforce
  obtain o2 m2 where w2: "dma_memory_write bus m ?caddr (msg_cqe_bytes ?cqe) = (o2, m2)"
    by fastforce
  have t: "o1" "o2" "address_space_memory t = m2" "msgq t = (msgq s)\<lparr>mq_rq_pi := (mq_rq_pi (msgq s) + 1) mod mq_rq_depth (msgq s),
      mq_cq_pi := (mq_cq_pi (msgq s) + 1) mod mq_cq_depth (msgq s), mq_cq_int_status := 1, mq_cq_int_ro := 0\<rparr>"
    using ok w1 [simplified] w2 [simplified]
    by (auto simp: msgq_complete_def linqu_ub_msgq_write_rq_packet_def linqu_ub_msgq_write_cqe_def
        linqu_ub_msgq_raise_cq_irq_def linqu_ub_update_irq_def upd_defs Let_def split: if_splits)
  have "dma_memory_read bus m ?raddr (length rsp) = Some rsp"
    using dma_memory.read_written [OF bus] w1 t(1) by simp
  then show "dma_memory_read bus (address_space_memory t) ?raddr (length rsp) = Some rsp"
    using dma_memory.read_other [OF bus w2, of ?raddr "length rsp"] apart t by (simp add: Let_def)
  show "dma_memory_read bus (address_space_memory t) ?caddr 16 = Some (msg_cqe_bytes ?cqe)"
    using dma_memory.read_written [OF bus, of m ?caddr "msg_cqe_bytes ?cqe" m2] w2 t by simp
  show "mq_rq_pi (msgq t) = (mq_rq_pi (msgq s) + 1) mod mq_rq_depth (msgq s)"
    "mq_cq_pi (msgq t) = (mq_cq_pi (msgq s) + 1) mod mq_cq_depth (msgq s)" "mq_cq_int_status (msgq t) = 1"
    by (simp_all add: t)
qed

lemma respond_cfg_read_complete:
  assumes "mq_rq_depth (msgq s) \<noteq> 0" and "mq_cq_depth (msgq s) \<noteq> 0"
    and "pkt_code req = LINQU_UB_MSG_REQ_CODE_CFG0_READ \<or> pkt_code req = LINQU_UB_MSG_REQ_CODE_CFG1_READ"
  shows "linqu_ub_msgq_respond_cfg bus s sqe req =
    msgq_complete bus s sqe
      (cfg_rsp_packet req (pkt_code req OR LINQU_UB_MSG_RSP_BIT)
         (snd (linqu_ub_cfg_read_dword s (pkt_dword req 9))))
      ((sqe_dw0 sqe AND NOT (push_bit 8 0xff)) OR
        push_bit 8 ((pkt_code req OR LINQU_UB_MSG_RSP_BIT) AND 0xff))"
proof -
  obtain v where v: "linqu_ub_cfg_read_dword s (pkt_dword req 9) = (0, v)"
    using cfg_read_rc [of s "pkt_dword req 9"] by (metis prod.collapse)
  show ?thesis
    using assms unfolding linqu_ub_msgq_respond_cfg_def pkt_code_def cfg_req_payload_of_def Let_def
    by (auto simp: v)
qed

text \<open>
  C32: a configuration read that succeeds leaves in the receive slot a packet addressed back to the
  requester (source and destination entity ids exchanged), with the request's opcode and the
  response bit, whose data dword is the value of the register that was read. In the completion slot
  it leaves an entry with the response code in place of the opcode of the submission, the second dword
  of the submission, and the slot of the packet with the status of success; and both producer
  indices are one further.
\<close>

theorem cfg_read_answered:
  assumes "dma_memory bus"
    and "pkt_code req = LINQU_UB_MSG_REQ_CODE_CFG0_READ \<or> pkt_code req = LINQU_UB_MSG_REQ_CODE_CFG1_READ"
    and "linqu_ub_msgq_respond_cfg bus s sqe req = (0, t)"
    and "let r = mq_rq_iova (msgq s) + ucast (mq_rq_pi (msgq s)) * LINQU_UB_MSGQ_RQE_SIZE;
             c = mq_cq_iova (msgq s) + ucast (mq_cq_pi (msgq s)) * LINQU_UB_MSGQ_CQE_SIZE
         in unat c + 16 \<le> unat r \<or> unat r + msg_packet_size \<le> unat c"
  shows "(\<exists>rsp. dma_memory_read bus (address_space_memory t)
             (mq_rq_iova (msgq s) + ucast (mq_rq_pi (msgq s)) * LINQU_UB_MSGQ_RQE_SIZE)
             msg_packet_size = Some rsp \<and>
           pkt_seid rsp = pkt_deid req \<and> pkt_deid rsp = pkt_seid req \<and>
           pkt_code rsp = pkt_code req OR LINQU_UB_MSG_RSP_BIT \<and>
           (0, pkt_dword rsp 8) = linqu_ub_cfg_read_dword s (pkt_dword req 9)) \<and>
    dma_memory_read bus (address_space_memory t)
           (mq_cq_iova (msgq s) + ucast (mq_cq_pi (msgq s)) * LINQU_UB_MSGQ_CQE_SIZE) 16 =
         Some (msg_cqe_bytes
           \<lparr>cqe_dw0 = (sqe_dw0 sqe AND NOT (push_bit 8 0xff)) OR push_bit 8 (pkt_code req OR LINQU_UB_MSG_RSP_BIT),
            cqe_dw1 = sqe_dw1 sqe,
            cqe_dw2 = mq_rq_pi (msgq s) AND 0x3ff OR push_bit 16 LINQU_UB_MSG_CQE_SUCCESS, cqe_dw3 = 0\<rparr>) \<and>
    mq_rq_pi (msgq t) = (mq_rq_pi (msgq s) + 1) mod mq_rq_depth (msgq s) \<and>
         mq_cq_pi (msgq t) = (mq_cq_pi (msgq s) + 1) mod mq_cq_depth (msgq s) \<and> mq_cq_int_status (msgq t) = 1"
proof -
  let ?v = "snd (linqu_ub_cfg_read_dword s (pkt_dword req 9))"
  let ?rsp = "cfg_rsp_packet req (pkt_code req OR LINQU_UB_MSG_RSP_BIT) ?v"
  have depth: "mq_rq_depth (msgq s) \<noteq> 0" "mq_cq_depth (msgq s) \<noteq> 0"
    using assms(3) by (auto simp: linqu_ub_msgq_respond_cfg_def split: if_splits)
  have len: "length ?rsp = msg_packet_size"
    by (simp add: cfg_rsp_packet_def msg_packet_size_def Let_def)
  have code: "(pkt_code req OR LINQU_UB_MSG_RSP_BIT) AND 0xff = pkt_code req OR LINQU_UB_MSG_RSP_BIT"
    using assms(2) by auto
  note completed = msgq_complete_packet [OF assms(1) assms(3) [unfolded respond_cfg_read_complete [OF depth assms(2)]],
      unfolded len, OF assms(4)]
  have "\<exists>rsp. dma_memory_read bus (address_space_memory t)
      (mq_rq_iova (msgq s) + ucast (mq_rq_pi (msgq s)) * LINQU_UB_MSGQ_RQE_SIZE) msg_packet_size = Some rsp \<and>
      pkt_seid rsp = pkt_deid req \<and> pkt_deid rsp = pkt_seid req \<and>
      pkt_code rsp = pkt_code req OR LINQU_UB_MSG_RSP_BIT \<and>
      (0, pkt_dword rsp 8) = linqu_ub_cfg_read_dword s (pkt_dword req 9)"
    using completed(1) cfg_rsp_packet_eids cfg_rsp_packet_dwords(4)
      cfg_rsp_packet_code [of req "pkt_code req OR LINQU_UB_MSG_RSP_BIT" ?v, unfolded code]
    by (intro exI [of _ ?rsp] conjI) (simp_all add: prod_eq_iff)
  moreover have "dma_memory_read bus (address_space_memory t)
      (mq_cq_iova (msgq s) + ucast (mq_cq_pi (msgq s)) * LINQU_UB_MSGQ_CQE_SIZE) 16 =
      Some (msg_cqe_bytes
        \<lparr>cqe_dw0 = (sqe_dw0 sqe AND NOT (push_bit 8 0xff)) OR push_bit 8 (pkt_code req OR LINQU_UB_MSG_RSP_BIT),
         cqe_dw1 = sqe_dw1 sqe,
         cqe_dw2 = mq_rq_pi (msgq s) AND 0x3ff OR push_bit 16 LINQU_UB_MSG_CQE_SUCCESS, cqe_dw3 = 0\<rparr>)"
    using completed(2) by (simp add: code)
  moreover have "mq_rq_pi (msgq t) = (mq_rq_pi (msgq s) + 1) mod mq_rq_depth (msgq s) \<and>
      mq_cq_pi (msgq t) = (mq_cq_pi (msgq s) + 1) mod mq_cq_depth (msgq s) \<and> mq_cq_int_status (msgq t) = 1"
    using completed(3-5) by simp
  ultimately show ?thesis by blast
qed

end
