(* ===== verification/UB_Rings.thy ===== *)
theory UB_Rings
  imports UB_Core
begin

text \<open>
  The command and completion rings of an endpoint: \<^verbatim>\<open>linqu_ub_kick\<close> hands the
  descriptors between head and tail of the command ring to the backend,
  \<^verbatim>\<open>linqu_ub_flush_cq\<close> moves the backend's completions into the completion ring.

  Abstractly a ring is a FIFO queue, the list of the slots between its head and its tail. The
  refinement theorems state that a flush appends what the backend delivered and that a kick
  submits a prefix of the queue, in order. The loop of the flush is a
  \<^theory_text>\<open>partial_function\<close>; that it returns is part of the theorems.
\<close>

section \<open>Slots\<close>

definition linqu_ub_read_slot ::
  "'m dma_bus \<Rightarrow> ('m, 'b) ub_state \<Rightarrow> hwaddr \<Rightarrow> u32 \<Rightarrow> u32 \<Rightarrow> bytes option" where
  "linqu_ub_read_slot bus s base slot slot_bytes =
     dma_memory_read bus (address_space_memory s) (base + ucast slot * ucast slot_bytes)
       (unat slot_bytes)"

definition linqu_ub_write_slot ::
  "'m dma_bus \<Rightarrow> hwaddr \<Rightarrow> u32 \<Rightarrow> u32 \<Rightarrow> bytes \<Rightarrow> ('m, 'b) ub_state \<Rightarrow> bool \<times> ('m, 'b) ub_state" where
  "linqu_ub_write_slot bus base slot slot_bytes buf s =
     (let (ok, m) = dma_memory_write bus (address_space_memory s)
                      (base + ucast slot * ucast slot_bytes) (take (unat slot_bytes) buf)
      in (ok, s\<lparr>address_space_memory := m\<rparr>))"

section \<open>Flushing completions\<close>

type_synonym 'b poll_op = "'b \<Rightarrow> u16 \<Rightarrow> u32 \<Rightarrow> int \<times> bytes \<times> 'b"

text \<open>The \<^verbatim>\<open>while\<close> loop: \<open>Some rc\<close> where the function returns from inside it, \<open>None\<close>
  where it is left.\<close>

partial_function (option) flush_cq_loop ::
  "'m dma_bus \<Rightarrow> 'b poll_op \<Rightarrow> nat \<Rightarrow> ('m, 'b) ub_state \<Rightarrow> (int option \<times> ('m, 'b) ub_state) option" where
  "flush_cq_loop bus poll i s =
     (let ep = ep_at s i
      in if (ep_cq_tail ep + 1) mod ep_cq_depth ep = ep_cq_head ep then Some (None, s)
         else let r = poll (opaque s) (ep_endpoint_id ep) (desc_bytes s);
                  s1 = s\<lparr>opaque := snd (snd r)\<rparr>
              in if fst r = 1 then Some (None, s1)
                 else if fst r < 0
                 then Some (Some (fst r), linqu_ub_set_error i LINQU_UB_ERR_INVALID_DESCRIPTOR s1)
                 else let w = linqu_ub_write_slot bus (ep_cq_iova ep) (ep_cq_tail ep) (desc_bytes s)
                                (fst (snd r)) s1
                      in if \<not> fst w
                         then Some (Some (-1), linqu_ub_set_error i LINQU_UB_ERR_RANGE (snd w))
                         else flush_cq_loop bus poll i
                                (upd_ep i (\<lambda>ep. ep\<lparr>ep_cq_tail := (ep_cq_tail ep + 1) mod ep_cq_depth ep,
                                                   ep_irq_status := ep_irq_status ep OR
                                                                    LINQU_UB_IRQ_COMPLETION\<rparr>)
                                   (snd w)))"

definition linqu_ub_flush_cq ::
  "'m dma_bus \<Rightarrow> nat \<Rightarrow> ('m, 'b) ub_state \<Rightarrow> (int \<times> ('m, 'b) ub_state) option" where
  "linqu_ub_flush_cq bus i s =
     (case op_poll_completion (backend s) of
        None \<Rightarrow> Some (0, s)
      | Some poll \<Rightarrow>
          Option.bind (flush_cq_loop bus poll i s)
            (\<lambda>(rc, s1). case rc of
               Some e \<Rightarrow> Some (e, s1)
             | None \<Rightarrow>
                 let ep = ep_at s1 i;
                     s2 = (if (ep_cq_tail ep + 1) mod ep_cq_depth ep = ep_cq_head ep
                           then upd_ep i (\<lambda>ep. ep\<lparr>ep_irq_status := ep_irq_status ep OR
                                                                  LINQU_UB_IRQ_CQ_OVERFLOW\<rparr>) s1
                           else s1)
                 in Some (0, linqu_ub_update_irq s2)))"

section \<open>Submitting descriptors\<close>

type_synonym 'b submit_op = "'b \<Rightarrow> u16 \<Rightarrow> bytes \<Rightarrow> int \<times> 'b"

function kick_loop ::
  "'m dma_bus \<Rightarrow> 'b submit_op \<Rightarrow> nat \<Rightarrow> u32 \<Rightarrow> u32 \<Rightarrow> u32 \<Rightarrow> ('m, 'b) ub_state \<Rightarrow>
   int \<times> ('m, 'b) ub_state + u32 \<times> u32 \<times> ('m, 'b) ub_state" where
  "kick_loop bus submit i batch head submitted s =
     (let ep = ep_at s i
      in if head \<noteq> ep_cmdq_tail ep \<and> submitted < batch
         then case linqu_ub_read_slot bus s (ep_cmdq_iova ep) head (desc_bytes s) of
                None \<Rightarrow> Inl (-1, linqu_ub_set_error i LINQU_UB_ERR_RANGE s)
              | Some slot \<Rightarrow>
                  let r = submit (opaque s) (ep_endpoint_id ep) slot; s1 = s\<lparr>opaque := snd r\<rparr>
                  in if fst r < 0
                     then Inl (fst r, linqu_ub_set_error i LINQU_UB_ERR_INVALID_DESCRIPTOR s1)
                     else kick_loop bus submit i batch ((head + 1) mod ep_cmdq_depth ep)
                            (submitted + 1) s1
         else Inr (head, submitted, s))"
  by pat_completeness auto

lemma unat_Suc_below: "(a :: u32) < b \<Longrightarrow> unat (a + 1) = Suc (unat a)"
  using unsigned_less [of b, where ?'a = nat]
  by (simp add: word_less_nat_alt unat_word_ariths)

termination kick_loop
  by (relation "measure (\<lambda>(_, _, _, batch, _, submitted, _). unat batch - unat submitted)")
    (auto simp: unat_Suc_below word_less_nat_alt)

declare kick_loop.simps [simp del]

definition linqu_ub_kick ::
  "'m dma_bus \<Rightarrow> nat \<Rightarrow> u32 \<Rightarrow> ('m, 'b) ub_state \<Rightarrow> (int \<times> ('m, 'b) ub_state) option" where
  "linqu_ub_kick bus i batch s =
     (case (op_submit_slot (backend s), op_ring_doorbell (backend s)) of
        (Some submit, Some ring_doorbell) \<Rightarrow>
          (case kick_loop bus submit i batch (ep_cmdq_head (ep_at s i)) 0 s of
             Inl r \<Rightarrow> Some r
           | Inr (head, submitted, s1) \<Rightarrow>
               let (rc, _, _, b) = ring_doorbell (opaque s1) (ep_endpoint_id (ep_at s1 i)) submitted;
                   s2 = s1\<lparr>opaque := b\<rparr>
               in if rc < 0 then Some (rc, linqu_ub_set_error i LINQU_UB_ERR_QUEUE_OVERFLOW s2)
                  else linqu_ub_flush_cq bus i (upd_ep i (\<lambda>ep. ep\<lparr>ep_cmdq_head := head\<rparr>) s2))
      | _ \<Rightarrow> Some (-1, linqu_ub_set_error i LINQU_UB_ERR_NOT_IMPLEMENTED s))"

section \<open>Frames\<close>

text \<open>What the ring operations of endpoint \<open>i\<close> leave alone: the whole device but the
  endpoint's head of the command ring, tail of the completion ring, interrupt and error words,
  the line, the backend's session and guest memory.\<close>

definition ep_fixed :: "ep_state \<Rightarrow> ep_state" where
  "ep_fixed ep = ep\<lparr>ep_cmdq_head := 0, ep_cq_tail := 0, ep_irq_status := 0, ep_last_error := 0\<rparr>"

definition ring_frame :: "nat \<Rightarrow> ('m, 'b) ub_state \<Rightarrow> ('m, 'b) ub_state \<Rightarrow> bool" where
  "ring_frame i s t \<longleftrightarrow>
     num_endpoints t = num_endpoints s \<and> desc_bytes t = desc_bytes s \<and>
     scenario_path t = scenario_path s \<and> rust_bridge t = rust_bridge s \<and> backend t = backend s \<and>
     cfg_upi t = cfg_upi s \<and> cfg_th_en t = cfg_th_en s \<and> msgq t = msgq s \<and>
     decoder t = decoder s \<and> ummu t = ummu s \<and> ubios t = ubios s \<and>
     ubios_readonly t = ubios_readonly s \<and>
     length (endpoints t) = length (endpoints s) \<and>
     (\<forall>j. j \<noteq> i \<longrightarrow> ep_at t j = ep_at s j) \<and> ep_fixed (ep_at t i) = ep_fixed (ep_at s i)"

lemma ring_frame_refl [simp]: "ring_frame i s s"
  by (simp add: ring_frame_def)

lemma ring_frame_trans [trans]: "ring_frame i s t \<Longrightarrow> ring_frame i t u \<Longrightarrow> ring_frame i s u"
  by (simp add: ring_frame_def)

lemma ring_frame_mem [simp]:
  "ring_frame i s (t\<lparr>opaque := b\<rparr>) = ring_frame i s t"
  "ring_frame i s (t\<lparr>address_space_memory := m\<rparr>) = ring_frame i s t"
  "ring_frame i (s\<lparr>opaque := b\<rparr>) t = ring_frame i s t"
  "ring_frame i (s\<lparr>address_space_memory := m\<rparr>) t = ring_frame i s t"
  by (simp_all add: ring_frame_def)

lemma ring_frame_irq [simp]: "ring_frame i s (linqu_ub_update_irq t) = ring_frame i s t"
  by (simp add: ring_frame_def linqu_ub_update_irq_def qemu_set_irq_def)

lemma ring_frame_upd:
  "ep_fixed (f (ep_at s i)) = ep_fixed (ep_at s i) \<Longrightarrow> ring_frame i s (upd_ep i f s)"
  by (cases "i < length (endpoints s)") (simp_all add: ring_frame_def upd_ep_def list_update_beyond)

lemma ring_frame_set_error [simp]:
  "ring_frame i s t \<Longrightarrow> ring_frame i s (linqu_ub_set_error i c t)"
  unfolding linqu_ub_set_error_def ring_frame_irq
  by (erule ring_frame_trans, rule ring_frame_upd) (simp add: ep_fixed_def)

lemma ep_fixed_fields:
  assumes "ep_fixed a = ep_fixed b"
  shows "ep_endpoint_id a = ep_endpoint_id b" "ep_entity_id a = ep_entity_id b"
    "ep_cmdq_iova a = ep_cmdq_iova b" "ep_cq_iova a = ep_cq_iova b"
    "ep_cmdq_depth a = ep_cmdq_depth b" "ep_cq_depth a = ep_cq_depth b"
    "ep_cmdq_tail a = ep_cmdq_tail b" "ep_cq_head a = ep_cq_head b"
    "ep_default_segment a = ep_default_segment b"
  using assms by (cases a; cases b; simp add: ep_fixed_def)+

lemma slot_addr:
  fixes base :: u64 and j d n :: u32
  assumes "unat base + unat d * unat n \<le> 2 ^ 64" and "j < d"
  shows "unat (base + ucast j * ucast n) = unat base + unat j * unat n"
proof (cases "n = 0")
  case False
  then have n: "0 < unat n" by (simp add: unat_gt_0)
  have "(unat j + 1) * unat n \<le> unat d * unat n"
    using assms(2) by (intro mult_le_mono1) (simp add: word_less_nat_alt)
  with assms(1) n have lt: "unat base + unat j * unat n < 2 ^ 64" by simp
  then have "unat (ucast j * ucast n :: u64) = unat j * unat n"
    by (simp add: unat_word_ariths)
  with lt show ?thesis by (simp add: unat_word_ariths)
qed simp

lemma slot_apart:
  fixes base :: u64 and j k d n :: u32
  assumes "unat base + unat d * unat n \<le> 2 ^ 64" and "j < d" and "k < d" and "j \<noteq> k"
  shows "unat (base + ucast j * ucast n) + unat n \<le> unat (base + ucast k * ucast n) \<or>
         unat (base + ucast k * ucast n) + unat n \<le> unat (base + ucast j * ucast n)"
proof -
  have "unat j < unat k \<or> unat k < unat j"
    using assms(4) by (metis linorder_neqE_nat word_unat_eq_iff)
  then have "Suc (unat j) * unat n \<le> unat k * unat n \<or> Suc (unat k) * unat n \<le> unat j * unat n"
    using mult_le_mono1 [OF Suc_leI] by blast
  then show ?thesis
    unfolding slot_addr [OF assms(1,2)] slot_addr [OF assms(1,3)] by auto
qed
section \<open>The loop of the flush\<close>

text \<open>The ring is full one slot early, so that a full ring is not an empty one.\<close>

definition cq_full :: "ep_state \<Rightarrow> bool" where
  "cq_full ep \<longleftrightarrow> (ep_cq_tail ep + 1) mod ep_cq_depth ep = ep_cq_head ep"

definition push_cq :: "nat \<Rightarrow> ('m, 'b) ub_state \<Rightarrow> ('m, 'b) ub_state" where
  "push_cq i = upd_ep i (\<lambda>ep. ep\<lparr>ep_cq_tail := (ep_cq_tail ep + 1) mod ep_cq_depth ep,
     ep_irq_status := ep_irq_status ep OR LINQU_UB_IRQ_COMPLETION\<rparr>)"

definition ep_valid :: "nat \<Rightarrow> ('m, 'b) ub_state \<Rightarrow> bool" where
  "ep_valid i s \<longleftrightarrow> i < length (endpoints s) \<and> ep_ok (ep_at s i)"

lemma cq_full_iff: "ep_ok ep \<Longrightarrow> cq_full ep \<longleftrightarrow> Suc (cq_pending ep) = 64"
  using cq.full_dist [of "ep_cq_head ep" "ep_cq_tail ep"] ep_okD [of ep]
  by (simp add: cq_full_def cq_pending_def ring_next_def)

lemma ep_push_ok:
  assumes "ep_ok ep" and "\<not> cq_full ep"
  shows "ep_ok (ep\<lparr>ep_cq_tail := (ep_cq_tail ep + 1) mod ep_cq_depth ep, ep_irq_status := st\<rparr>)"
    and "cq_pending (ep\<lparr>ep_cq_tail := (ep_cq_tail ep + 1) mod ep_cq_depth ep, ep_irq_status := st\<rparr>) =
         Suc (cq_pending ep)"
proof -
  note ok = ep_okD [OF assms(1)]
  have tail: "(ep_cq_tail ep + 1) mod ep_cq_depth ep = ring_next 64 (ep_cq_tail ep)"
    by (simp only: ring_next_def ok)
  show "ep_ok (ep\<lparr>ep_cq_tail := (ep_cq_tail ep + 1) mod ep_cq_depth ep, ep_irq_status := st\<rparr>)"
    unfolding tail using ok cq.next_less [of "ep_cq_tail ep"] by (simp add: ep_ok_def)
  have "ring_next 64 (ep_cq_tail ep) \<noteq> ep_cq_head ep"
    using assms(2) by (simp only: cq_full_def tail not_False_eq_True)
  then show "cq_pending (ep\<lparr>ep_cq_tail := (ep_cq_tail ep + 1) mod ep_cq_depth ep, ep_irq_status := st\<rparr>) =
      Suc (cq_pending ep)"
    unfolding tail using cq.dist_next_right [of "ep_cq_head ep" "ep_cq_tail ep"] ok
    by (simp add: cq_pending_def)
qed

lemma push_cq_pending:
  assumes "ep_valid i s" and "\<not> cq_full (ep_at s i)"
  shows "ep_valid i (push_cq i s)" 
    and "cq_pending (ep_at (push_cq i s) i) = Suc (cq_pending (ep_at s i))"
  using assms ep_push_ok [of "ep_at s i"] by (simp_all add: push_cq_def upd_ep_def ep_valid_def)

lemma write_slot_state:
  "linqu_ub_write_slot bus base k n buf s = (ok, t) \<Longrightarrow> \<exists>m. t = s\<lparr>address_space_memory := m\<rparr>"
  by (auto simp: linqu_ub_write_slot_def split: prod.splits)

text \<open>Total correctness of the loop: a relation between start and result that holds at each
  of its four exits and is carried back over an iteration holds of a run, and the run returns.\<close>

lemma flush_cq_loop_rule [consumes 1, case_names full empty poll_error write_error step]:
  assumes "ep_valid i s"
    and full: "\<And>s. ep_valid i s \<Longrightarrow> cq_full (ep_at s i) \<Longrightarrow> Q s (None, s)"
    and empty: "\<And>s slot b. ep_valid i s \<Longrightarrow> \<not> cq_full (ep_at s i) \<Longrightarrow>
      poll (opaque s) (ep_endpoint_id (ep_at s i)) (desc_bytes s) = (1, slot, b) \<Longrightarrow>
      Q s (None, s\<lparr>opaque := b\<rparr>)"
    and poll_error: "\<And>s rc slot b. ep_valid i s \<Longrightarrow> \<not> cq_full (ep_at s i) \<Longrightarrow>
      poll (opaque s) (ep_endpoint_id (ep_at s i)) (desc_bytes s) = (rc, slot, b) \<Longrightarrow> rc < 0 \<Longrightarrow>
      Q s (Some rc, linqu_ub_set_error i LINQU_UB_ERR_INVALID_DESCRIPTOR (s\<lparr>opaque := b\<rparr>))"
    and write_error: "\<And>s rc slot b t. ep_valid i s \<Longrightarrow> \<not> cq_full (ep_at s i) \<Longrightarrow>
      poll (opaque s) (ep_endpoint_id (ep_at s i)) (desc_bytes s) = (rc, slot, b) \<Longrightarrow>
      0 \<le> rc \<Longrightarrow> rc \<noteq> 1 \<Longrightarrow>
      linqu_ub_write_slot bus (ep_cq_iova (ep_at s i)) (ep_cq_tail (ep_at s i)) (desc_bytes s) slot
        (s\<lparr>opaque := b\<rparr>) = (False, t) \<Longrightarrow>
      Q s (Some (-1), linqu_ub_set_error i LINQU_UB_ERR_RANGE t)"
    and step: "\<And>s rc slot b t r. ep_valid i s \<Longrightarrow> \<not> cq_full (ep_at s i) \<Longrightarrow>
      poll (opaque s) (ep_endpoint_id (ep_at s i)) (desc_bytes s) = (rc, slot, b) \<Longrightarrow>
      0 \<le> rc \<Longrightarrow> rc \<noteq> 1 \<Longrightarrow>
      linqu_ub_write_slot bus (ep_cq_iova (ep_at s i)) (ep_cq_tail (ep_at s i)) (desc_bytes s) slot
        (s\<lparr>opaque := b\<rparr>) = (True, t) \<Longrightarrow> Q (push_cq i t) r \<Longrightarrow> Q s r"
  shows "\<exists>r. flush_cq_loop bus poll i s = Some r \<and> Q s r"
  using assms(1)
proof (induction "63 - cq_pending (ep_at s i)" arbitrary: s rule: less_induct)
  case (less s)
  note ok = \<open>ep_valid i s\<close>
  obtain rc slot b where p: "poll (opaque s) (ep_endpoint_id (ep_at s i)) (desc_bytes s) = (rc, slot, b)"
    by (metis prod_cases3)
  obtain w t where w: "linqu_ub_write_slot bus (ep_cq_iova (ep_at s i)) (ep_cq_tail (ep_at s i))
      (desc_bytes s) slot (s\<lparr>opaque := b\<rparr>) = (w, t)"
    by fastforce
  note unfold = flush_cq_loop.simps [of bus poll i s] Let_def
  show ?case
  proof (cases "cq_full (ep_at s i)")
    case True
    with full [OF ok True] show ?thesis by (simp add: unfold cq_full_def)
  next
    case nf: False
    note nf' = nf [unfolded cq_full_def]
    consider (e) "rc = 1" | (p) "rc < 0" | (w) "0 \<le> rc" "rc \<noteq> 1" "\<not> w" | (s) "0 \<le> rc" "rc \<noteq> 1" w
      by linarith
    then show ?thesis
    proof cases
      case e
      with empty [OF ok nf] p nf' show ?thesis by (simp add: unfold)
    next
      case p': p
      with poll_error [OF ok nf p] p nf' show ?thesis by (simp add: unfold)
    next
      case w': w
      with write_error [OF ok nf p] p nf' w show ?thesis by (simp add: unfold)
    next
      case s
      obtain m where t: "t = s\<lparr>opaque := b, address_space_memory := m\<rparr>"
        using write_slot_state [OF w] by auto
      have t': "ep_valid i t" "\<not> cq_full (ep_at t i)" "ep_at t i = ep_at s i"
        using ok nf by (simp_all add: t ep_valid_def)
      have "63 - cq_pending (ep_at (push_cq i t) i) < 63 - cq_pending (ep_at s i)"
        using push_cq_pending(2) [OF t'(1,2)] cq_full_iff [of "ep_at s i"] nf ok t'(3)
          cq.dist_less [of "ep_cq_head (ep_at s i)" "ep_cq_tail (ep_at s i)"]
          ep_okD(2) [of "ep_at s i"] by (simp add: ep_valid_def cq_pending_def)
      from less.hyps [OF this push_cq_pending(1) [OF t'(1,2)]]
      obtain r where "flush_cq_loop bus poll i (push_cq i t) = Some r" "Q (push_cq i t) r" by blast
      with step [OF ok nf p s(1,2) w [unfolded s(3) [THEN eqTrueI]]] p nf' w s show ?thesis
        by (simp add: unfold push_cq_def)
    qed
  qed
qed

lemma set_error_ep:
  "ep_valid i s \<Longrightarrow> ep_valid i (linqu_ub_set_error i c s)"
  "ep_valid i s \<Longrightarrow> ep_at (linqu_ub_set_error i c s) i =
     (ep_at s i)\<lparr>ep_last_error := c, ep_irq_status := ep_irq_status (ep_at s i) OR LINQU_UB_IRQ_ERROR\<rparr>"
  "opaque (linqu_ub_set_error i c s) = opaque s"
  "address_space_memory (linqu_ub_set_error i c s) = address_space_memory s"
  "desc_bytes (linqu_ub_set_error i c s) = desc_bytes s"
  by (simp_all add: linqu_ub_set_error_def linqu_ub_update_irq_def upd_defs ep_valid_def ep_ok_def)

lemma ep_valid_mem [simp]:
  "ep_valid i (s\<lparr>opaque := b\<rparr>) = ep_valid i s"
  "ep_valid i (s\<lparr>address_space_memory := m\<rparr>) = ep_valid i s"
  by (simp_all add: ep_valid_def)

text \<open>Safety of the loop: it returns, keeps the endpoint well-formed and everything else as it
  was, and a return from inside it leaves the interrupt line in step.\<close>

lemma flush_cq_loop_safe:
  assumes "ep_valid i s"
  shows "\<exists>r. flush_cq_loop bus poll i s = Some r \<and>
    (ring_frame i s (snd r) \<and> ep_valid i (snd r) \<and> (fst r \<noteq> None \<longrightarrow> irq_synced (snd r)) \<and>
     ep_cmdq_head (ep_at (snd r) i) = ep_cmdq_head (ep_at s i))"
  using assms
proof (induction rule: flush_cq_loop_rule)
  case (full s)
  then show ?case by simp
next
  case (empty s slot b)
  then show ?case by simp
next
  case (poll_error s rc slot b)
  then show ?case
    using set_error_ep [where s = "s\<lparr>opaque := b\<rparr>"] by simp
next
  case (write_error s rc slot b t)
  then obtain m where t: "t = s\<lparr>opaque := b, address_space_memory := m\<rparr>"
    using write_slot_state by blast
  show ?case
    using set_error_ep [where s = t] write_error(1) 
    by (simp add: t)
next
  case (step s rc slot b t r)
  then obtain m where t: "t = s\<lparr>opaque := b, address_space_memory := m\<rparr>"
    using write_slot_state by blast
  have "ring_frame i t (push_cq i t)"
    unfolding push_cq_def by (rule ring_frame_upd) (simp add: ep_fixed_def)
  then have "ring_frame i s (push_cq i t)" by (simp add: t)
  moreover have "ep_cmdq_head (ep_at (push_cq i t) i) = ep_cmdq_head (ep_at s i)"
    using step(1) by (simp add: push_cq_def upd_ep_def t ep_valid_def)
  ultimately show ?case
    using step(7) ring_frame_trans by auto
qed

section \<open>The rings as queues\<close>

text \<open>The slots from \<open>head\<close> on, as DMA reads them.\<close>

definition ring_slots ::
  "'m dma_bus \<Rightarrow> ('m, 'b) ub_state \<Rightarrow> hwaddr \<Rightarrow> u32 \<Rightarrow> u32 \<Rightarrow> nat \<Rightarrow> bytes option list" where
  "ring_slots bus s base depth head n =
     map (\<lambda>k. linqu_ub_read_slot bus s base ((ring_next depth ^^ k) head) (desc_bytes s)) [0..<n]"

definition cq_queue :: "'m dma_bus \<Rightarrow> ('m, 'b) ub_state \<Rightarrow> nat \<Rightarrow> bytes option list" where
  "cq_queue bus s i =
     (let ep = ep_at s i
      in ring_slots bus s (ep_cq_iova ep) (ep_cq_depth ep) (ep_cq_head ep) (cq_pending ep))"

definition cmdq_queue :: "'m dma_bus \<Rightarrow> ('m, 'b) ub_state \<Rightarrow> nat \<Rightarrow> bytes option list" where
  "cmdq_queue bus s i =
     (let ep = ep_at s i
      in ring_slots bus s (ep_cmdq_iova ep) (ep_cmdq_depth ep) (ep_cmdq_head ep) (cmdq_pending ep))"

text \<open>\<open>poll_run poll eid len b xs\<close> is the session after the polls that delivered exactly \<open>xs\<close>.\<close>

fun poll_run :: "'b poll_op \<Rightarrow> u16 \<Rightarrow> u32 \<Rightarrow> 'b \<Rightarrow> bytes list \<Rightarrow> 'b option" where
  "poll_run poll eid len b [] = Some b"
| "poll_run poll eid len b (x # xs) =
     (let (rc, slot, b1) = poll b eid len
      in if rc < 0 \<or> rc = 1 \<or> slot \<noteq> x then None else poll_run poll eid len b1 xs)"

text \<open>The ring does not wrap around the address space; and a poll fills the buffer it is given.\<close>

definition cq_window :: "ep_state \<Rightarrow> u32 \<Rightarrow> bool" where
  "cq_window ep n \<longleftrightarrow> unat (ep_cq_iova ep) + unat (ep_cq_depth ep) * unat n \<le> 2 ^ 64"

definition poll_sized :: "'b poll_op \<Rightarrow> bool" where
  "poll_sized poll \<longleftrightarrow> (\<forall>b eid n. length (fst (snd (poll b eid n))) = unat n)"

text \<open>Writing the slot at the tail, whether it succeeds or not, leaves the slots in the queue
  alone.\<close>

lemma write_tail_keeps_queue:
  assumes bus: "dma_memory bus" and ok: "ep_valid i s"
    and win: "cq_window (ep_at s i) (desc_bytes s)" and len: "length slot = unat (desc_bytes s)"
    and w: "linqu_ub_write_slot bus (ep_cq_iova (ep_at s i)) (ep_cq_tail (ep_at s i)) (desc_bytes s)
       slot (s\<lparr>opaque := b\<rparr>) = (w, t)"
  shows "cq_queue bus t i = cq_queue bus s i"
proof -
  let ?ep = "ep_at s i" and ?n = "desc_bytes s"
  let ?at = "\<lambda>k. ep_cq_iova ?ep + ucast ((ring_next 64 ^^ k) (ep_cq_head ?ep)) * ucast ?n"
  have eo: "ep_cq_depth ?ep = 64" "ep_cq_head ?ep < 64" "ep_cq_tail ?ep < 64"
    using ok ep_okD [of ?ep] by (auto simp: ep_valid_def)
  have p: "cq_pending ?ep = ring_dist 64 (ep_cq_head ?ep) (ep_cq_tail ?ep)"
    by (simp add: cq_pending_def eo)
  have tail: "(ring_next 64 ^^ cq_pending ?ep) (ep_cq_head ?ep) = ep_cq_tail ?ep"
    unfolding p by (rule cq.funpow_dist) (fact eo)+
  obtain m where t: "t = s\<lparr>opaque := b, address_space_memory := m\<rparr>" and
    wm: "dma_memory_write bus (address_space_memory s) (?at (cq_pending ?ep)) slot = (w, m)"
    using w len by (auto simp: linqu_ub_write_slot_def tail split: prod.splits)
  have old: "dma_memory_read bus m (?at k) (unat ?n) =
      dma_memory_read bus (address_space_memory s) (?at k) (unat ?n)" if "k < cq_pending ?ep" for k
  proof (rule dma_memory.read_other [OF bus wm])
    have "cq_pending ?ep < unat (64 :: u32)" unfolding p by (rule cq.dist_less)
    from cq.funpow_neq [OF eo(2) that this]
    show "unat (?at (cq_pending ?ep)) + length slot \<le> unat (?at k) \<or>
        unat (?at k) + unat ?n \<le> unat (?at (cq_pending ?ep))"
      using slot_apart [of "ep_cq_iova ?ep" 64 ?n] win cq.funpow_less [OF eo(2)] len
      by (simp add: cq_window_def eo)
  qed
  then show ?thesis
    by (simp add: cq_queue_def ring_slots_def linqu_ub_read_slot_def eo t Let_def)
qed

lemma push_cq_appends:
  assumes ok: "ep_valid i t" "\<not> cq_full (ep_at t i)"
  shows "cq_queue bus (push_cq i t) i = cq_queue bus t i @
    [linqu_ub_read_slot bus t (ep_cq_iova (ep_at t i)) (ep_cq_tail (ep_at t i)) (desc_bytes t)]"
proof -
  let ?ep = "ep_at t i"
  have eo: "ep_cq_depth ?ep = 64" "ep_cq_head ?ep < 64" "ep_cq_tail ?ep < 64"
    using ok ep_okD [of ?ep] by (auto simp: ep_valid_def)
  have "(ring_next 64 ^^ cq_pending ?ep) (ep_cq_head ?ep) = ep_cq_tail ?ep"
    unfolding cq_pending_def eo(1) by (rule cq.funpow_dist) (fact eo)+
  moreover have "ep_at (push_cq i t) i = ?ep\<lparr>ep_cq_tail := (ep_cq_tail ?ep + 1) mod ep_cq_depth ?ep,
      ep_irq_status := ep_irq_status ?ep OR LINQU_UB_IRQ_COMPLETION\<rparr>"
    "address_space_memory (push_cq i t) = address_space_memory t"
    "desc_bytes (push_cq i t) = desc_bytes t"
    using ok by (simp_all add: push_cq_def upd_ep_def ep_valid_def)
  ultimately show ?thesis
    using push_cq_pending(2) [OF ok]
    by (simp add: cq_queue_def ring_slots_def linqu_ub_read_slot_def eo Let_def)
qed

lemma push_cq_queue:
  assumes bus: "dma_memory bus" and ok: "ep_valid i s" "\<not> cq_full (ep_at s i)"
    and win: "cq_window (ep_at s i) (desc_bytes s)" and len: "length slot = unat (desc_bytes s)"
    and w: "linqu_ub_write_slot bus (ep_cq_iova (ep_at s i)) (ep_cq_tail (ep_at s i)) (desc_bytes s)
       slot (s\<lparr>opaque := b\<rparr>) = (True, t)"
  shows "cq_queue bus (push_cq i t) i = cq_queue bus s i @ [Some slot]"
proof -
  obtain m where t: "t = s\<lparr>opaque := b, address_space_memory := m\<rparr>" and
    wm: "dma_memory_write bus (address_space_memory s)
      (ep_cq_iova (ep_at s i) + ucast (ep_cq_tail (ep_at s i)) * ucast (desc_bytes s)) slot = (True, m)"
    using w len by (auto simp: linqu_ub_write_slot_def split: prod.splits)
  have "ep_valid i t" "\<not> cq_full (ep_at t i)" using ok by (simp_all add: t)
  from push_cq_appends [OF this] write_tail_keeps_queue [OF bus ok(1) win len w]
    dma_memory.read_written [OF bus wm] len
  show ?thesis by (simp add: linqu_ub_read_slot_def t)
qed

text \<open>Why the loop ended, after it delivered \<open>xs\<close>: the ring is full, the backend has no more, the
  backend failed, or the completion \<open>x\<close> could not be written to guest memory.\<close>

definition flush_outcome ::
  "'b poll_op \<Rightarrow> u16 \<Rightarrow> u32 \<Rightarrow> 'b \<Rightarrow> bytes list \<Rightarrow> int option \<Rightarrow> ep_state \<Rightarrow> 'b \<Rightarrow> bool" where
  "flush_outcome poll eid n b xs rc ep' b' \<longleftrightarrow>
     (case rc of
        None \<Rightarrow>
          cq_full ep' \<and> poll_run poll eid n b xs = Some b' \<or>
          (\<exists>b1 x. poll_run poll eid n b xs = Some b1 \<and> poll b1 eid n = (1, x, b'))
      | Some e \<Rightarrow>
          e < 0 \<and> (\<exists>b1 x. poll_run poll eid n b xs = Some b1 \<and> poll b1 eid n = (e, x, b')) \<and>
            ep_last_error ep' = LINQU_UB_ERR_INVALID_DESCRIPTOR \<or>
          e = -1 \<and> (\<exists>x. poll_run poll eid n b (xs @ [x]) = Some b') \<and>
            ep_last_error ep' = LINQU_UB_ERR_RANGE)"

text \<open>The causes such a loop adds: a completion when anything was delivered, an error when it failed.\<close>

definition flush_causes :: "bytes list \<Rightarrow> int option \<Rightarrow> u64" where
  "flush_causes xs rc = (if xs = [] then 0 else LINQU_UB_IRQ_COMPLETION) OR (if rc = None then 0 else LINQU_UB_IRQ_ERROR)"

lemma flush_causes_simps:
  "flush_causes [] None = 0" "flush_causes [] (Some e) = LINQU_UB_IRQ_ERROR"
  "flush_causes (x # xs) rc = LINQU_UB_IRQ_COMPLETION OR flush_causes xs rc"
  by (simp_all add: flush_causes_def or.assoc [symmetric])

lemma flush_outcome_Cons:
  assumes "poll b eid n = (rc, slot, b1)" and "0 \<le> rc" and "rc \<noteq> 1"
    and "flush_outcome poll eid n b1 xs r ep' b'"
  shows "flush_outcome poll eid n b (slot # xs) r ep' b'"
  using assms by (cases r) (simp_all add: flush_outcome_def)

lemma cq_queue_frame:
  assumes "ep_cq_iova (ep_at t i) = ep_cq_iova (ep_at s i)" "ep_cq_depth (ep_at t i) = ep_cq_depth (ep_at s i)"
    "ep_cq_head (ep_at t i) = ep_cq_head (ep_at s i)" "ep_cq_tail (ep_at t i) = ep_cq_tail (ep_at s i)"
    "desc_bytes t = desc_bytes s" "address_space_memory t = address_space_memory s"
  shows "cq_queue bus t i = cq_queue bus s i"
  using assms by (simp add: cq_queue_def ring_slots_def linqu_ub_read_slot_def cq_pending_def Let_def)

lemma cq_queue_opaque [simp]: "cq_queue bus (s\<lparr>opaque := b\<rparr>) i = cq_queue bus s i"
  by (rule cq_queue_frame) simp_all

lemma flush_cq_loop_fifo:
  assumes bus: "dma_memory bus" and poll: "poll_sized poll"
    and ok: "ep_valid i s" and win: "cq_window (ep_at s i) (desc_bytes s)"
  shows "\<exists>r. flush_cq_loop bus poll i s = Some r \<and>
    (\<lambda>s (rc, t). cq_window (ep_at s i) (desc_bytes s) \<longrightarrow>
       (\<exists>xs. cq_queue bus t i = cq_queue bus s i @ map Some xs \<and>
         flush_outcome poll (ep_endpoint_id (ep_at s i)) (desc_bytes s) (opaque s) xs rc (ep_at t i) (opaque t) \<and>
         ep_irq_status (ep_at t i) = ep_irq_status (ep_at s i) OR flush_causes xs rc)) s r"
  (is "\<exists>r. _ \<and> ?Q s r")
  using ok
proof (induction rule: flush_cq_loop_rule)
  case (full s)
  then show ?case by (auto simp: flush_outcome_def flush_causes_simps intro!: exI [of _ "[]"])
next
  case (empty s slot b)
  then show ?case by (auto simp: flush_outcome_def flush_causes_simps intro!: exI [of _ "[]"])
next
  case (poll_error s rc slot b)
  let ?s = "s\<lparr>opaque := b\<rparr>"
  have ok: "ep_valid i ?s" using poll_error by simp
  then have "cq_queue bus (linqu_ub_set_error i LINQU_UB_ERR_INVALID_DESCRIPTOR ?s) i = cq_queue bus s i"
    by (intro cq_queue_frame) (simp_all add: set_error_ep)
  with poll_error ok show ?case
    by (auto simp: flush_outcome_def flush_causes_simps set_error_ep intro!: exI [of _ "[]"])
next
  case (write_error s rc slot b t)
  then obtain m where t: "t = s\<lparr>opaque := b, address_space_memory := m\<rparr>"
    using write_slot_state by blast
  have ok: "ep_valid i t" using write_error by (simp add: t)
  have "cq_queue bus (linqu_ub_set_error i LINQU_UB_ERR_RANGE t) i = cq_queue bus t i"
    using ok by (intro cq_queue_frame) (simp_all add: set_error_ep)
  moreover have "length slot = unat (desc_bytes s)"
    using poll write_error(3) by (metis poll_sized_def fst_conv snd_conv)
  ultimately show ?case
    using write_error ok write_tail_keeps_queue [OF bus write_error(1) _ _ write_error(6)]
    by (auto simp: flush_outcome_def flush_causes_simps set_error_ep t intro!: exI [of _ "[]"])
next
  case (step s rc slot b t r)
  then obtain m where t: "t = s\<lparr>opaque := b, address_space_memory := m\<rparr>"
    using write_slot_state by blast
  have fx: "ep_cq_iova (ep_at (push_cq i t) i) = ep_cq_iova (ep_at s i)"
    "ep_cq_depth (ep_at (push_cq i t) i) = ep_cq_depth (ep_at s i)"
    "ep_endpoint_id (ep_at (push_cq i t) i) = ep_endpoint_id (ep_at s i)"
    "desc_bytes (push_cq i t) = desc_bytes s" "opaque (push_cq i t) = b"
    "ep_irq_status (ep_at (push_cq i t) i) = ep_irq_status (ep_at s i) OR LINQU_UB_IRQ_COMPLETION"
    using step(1) by (simp_all add: push_cq_def upd_ep_def t ep_valid_def)
  have len: "length slot = unat (desc_bytes s)"
    using poll step(3) by (metis poll_sized_def fst_conv snd_conv)
  show ?case
  proof (cases r, simp only: prod.case, intro impI)
    fix rc' t' assume r: "r = (rc', t')" and win: "cq_window (ep_at s i) (desc_bytes s)"
    from step(7) r fx win obtain xs where
      "cq_queue bus t' i = cq_queue bus (push_cq i t) i @ map Some xs"
      "flush_outcome poll (ep_endpoint_id (ep_at s i)) (desc_bytes s) b xs rc' (ep_at t' i) (opaque t')"
      "ep_irq_status (ep_at t' i) = ep_irq_status (ep_at s i) OR (LINQU_UB_IRQ_COMPLETION OR flush_causes xs rc')"
      by (auto simp: cq_window_def or.assoc)
    with push_cq_queue [OF bus step(1,2) win len step(6)] flush_outcome_Cons [where poll = poll, OF step(3-5)]
    show "\<exists>xs. cq_queue bus t' i = cq_queue bus s i @ map Some xs \<and>
      flush_outcome poll (ep_endpoint_id (ep_at s i)) (desc_bytes s) (opaque s) xs rc' (ep_at t' i) (opaque t') \<and>
      ep_irq_status (ep_at t' i) = ep_irq_status (ep_at s i) OR flush_causes xs rc'"
      by (intro exI [of _ "slot # xs"]) (simp add: flush_causes_simps)
  qed
qed

definition flush_end :: "nat \<Rightarrow> ('m, 'b) ub_state \<Rightarrow> ('m, 'b) ub_state" where
  "flush_end i s1 =
     linqu_ub_update_irq
       (if cq_full (ep_at s1 i)
        then upd_ep i (\<lambda>ep. ep\<lparr>ep_irq_status := ep_irq_status ep OR LINQU_UB_IRQ_CQ_OVERFLOW\<rparr>) s1
        else s1)"

lemma flush_cq_end:
  assumes "op_poll_completion (backend s) = Some poll"
    and "flush_cq_loop bus poll i s = Some (rc, s1)"
  shows "linqu_ub_flush_cq bus i s =
    (case rc of Some e \<Rightarrow> Some (e, s1) | None \<Rightarrow> Some (0, flush_end i s1))"
  using assms
  by (simp add: linqu_ub_flush_cq_def flush_end_def cq_full_def Let_def split: option.split)

lemma flush_end_frame:
  "ring_frame i s (flush_end i s)" "irq_synced (flush_end i s)"
  "opaque (flush_end i s) = opaque s"
  "ep_valid i s \<Longrightarrow> ep_valid i (flush_end i s)"
  "ep_valid i s \<Longrightarrow> cq_full (ep_at (flush_end i s) i) = cq_full (ep_at s i)"
  "ep_valid i s \<Longrightarrow> cq_queue bus (flush_end i s) i = cq_queue bus s i"
  "ep_valid i s \<Longrightarrow> ep_cmdq_head (ep_at (flush_end i s) i) = ep_cmdq_head (ep_at s i)"
  "ep_valid i s \<Longrightarrow> ep_irq_status (ep_at (flush_end i s) i) =
     ep_irq_status (ep_at s i) OR (if cq_full (ep_at s i) then LINQU_UB_IRQ_CQ_OVERFLOW else 0)"
proof -
  show "ring_frame i s (flush_end i s)"
    unfolding flush_end_def ring_frame_irq by (auto intro!: ring_frame_upd simp: ep_fixed_def)
  show "irq_synced (flush_end i s)" by (simp add: flush_end_def)
  show "opaque (flush_end i s) = opaque s"
    by (simp add: flush_end_def linqu_ub_update_irq_def upd_defs)
  assume ok: "ep_valid i s"
  obtain st where ep: "ep_at (flush_end i s) i = (ep_at s i)\<lparr>ep_irq_status := st\<rparr>"
    and len: "length (endpoints (flush_end i s)) = length (endpoints s)"
  proof (cases "cq_full (ep_at s i)")
    case True
    with ok that show thesis
      by (simp add: flush_end_def linqu_ub_update_irq_def upd_defs ep_valid_def)
  next
    case False
    with that [of "ep_irq_status (ep_at s i)"] show thesis
      by (simp add: flush_end_def linqu_ub_update_irq_def upd_defs)
  qed
  show "ep_valid i (flush_end i s)"
    using ok ep len by (simp add: ep_valid_def ep_ok_def)
  show "ep_irq_status (ep_at (flush_end i s) i) =
      ep_irq_status (ep_at s i) OR (if cq_full (ep_at s i) then LINQU_UB_IRQ_CQ_OVERFLOW else 0)"
    using ok by (auto simp: flush_end_def linqu_ub_update_irq_def upd_defs ep_valid_def)
  show "cq_full (ep_at (flush_end i s) i) = cq_full (ep_at s i)"
    "ep_cmdq_head (ep_at (flush_end i s) i) = ep_cmdq_head (ep_at s i)"
    by (simp_all add: ep cq_full_def)
  show "cq_queue bus (flush_end i s) i = cq_queue bus s i"
    by (rule cq_queue_frame) (simp_all add: ep, simp_all add: flush_end_def linqu_ub_update_irq_def upd_defs)
qed

lemma flush_cq_safe:
  assumes "ep_valid i s"
  obtains rc t where "linqu_ub_flush_cq bus i s = Some (rc, t)" and "ring_frame i s t" and "ep_valid i t"
    and "irq_synced s \<Longrightarrow> irq_synced t" and "ep_cmdq_head (ep_at t i) = ep_cmdq_head (ep_at s i)"
proof (cases "op_poll_completion (backend s)")
  case None
  with assms that [of 0 s] show thesis by (simp add: linqu_ub_flush_cq_def)
next
  case (Some poll)
  obtain rc s1 where l: "flush_cq_loop bus poll i s = Some (rc, s1)"
    and f: "ring_frame i s s1" "ep_valid i s1" "rc \<noteq> None \<Longrightarrow> irq_synced s1"
      "ep_cmdq_head (ep_at s1 i) = ep_cmdq_head (ep_at s i)"
    using flush_cq_loop_safe [OF assms, of bus poll] by auto
  show thesis
    using that flush_cq_end [OF Some l] f flush_end_frame [of i s1] ring_frame_trans [OF f(1)]
    by (cases rc) simp_all
qed

text \<open>
  C1: a flush returns, and refines appending to a FIFO queue: the completions the backend delivered
  follow the unread ones, in the order of delivery, and no unread completion is overwritten. It
  stops exactly when the ring is full, the backend has no more, the backend fails, or guest memory
  refuses the write; in the last case the completion just polled is lost. Of the interrupt causes it
  adds the completion when anything was delivered, the error when it failed, and the overflow when
  it ended without failing on a full ring; and the line equals the pending causes afterwards.
\<close>

theorem flush_cq_appends:
  assumes "dma_memory bus" and "poll_sized poll" and "op_poll_completion (backend s) = Some poll"
    and "i < length (endpoints s)" and "ep_ok (ep_at s i)" and "cq_window (ep_at s i) (desc_bytes s)"
  shows "\<exists>rc t xs. linqu_ub_flush_cq bus i s = Some (rc, t) \<and>
    cq_queue bus t i = cq_queue bus s i @ map Some xs \<and>
    flush_outcome poll (ep_endpoint_id (ep_at s i)) (desc_bytes s) (opaque s) xs
      (if rc = 0 then None else Some rc) (ep_at t i) (opaque t) \<and>
    ep_irq_status (ep_at t i) = ep_irq_status (ep_at s i) OR
      ((if xs = [] then 0 else LINQU_UB_IRQ_COMPLETION) OR
       (if rc \<noteq> 0 then LINQU_UB_IRQ_ERROR else if cq_full (ep_at t i) then LINQU_UB_IRQ_CQ_OVERFLOW else 0)) \<and>
    irq t = linqu_ub_has_pending_irq t"
proof -
  have ok: "ep_valid i s" using assms by (simp add: ep_valid_def)
  from flush_cq_loop_fifo [OF assms(1,2) ok assms(6)] assms(6)
  obtain rc s1 xs where l: "flush_cq_loop bus poll i s = Some (rc, s1)"
    and q: "cq_queue bus s1 i = cq_queue bus s i @ map Some xs"
    and out: "flush_outcome poll (ep_endpoint_id (ep_at s i)) (desc_bytes s) (opaque s) xs rc (ep_at s1 i) (opaque s1)"
    and st: "ep_irq_status (ep_at s1 i) = ep_irq_status (ep_at s i) OR flush_causes xs rc"
    by auto
  have v: "ep_valid i s1" and sy: "rc \<noteq> None \<Longrightarrow> irq_synced s1"
    using flush_cq_loop_safe [OF ok, of bus poll] l by auto
  show ?thesis
  proof (cases rc)
    case None
    with out q st flush_cq_end [OF assms(3) l] flush_end_frame(2-6,8) [of i s1] v show ?thesis
      by (intro exI [of _ 0] exI [of _ "flush_end i s1"] exI [of _ xs])
        (simp add: flush_outcome_def irq_synced_def flush_causes_def or.assoc)
  next
    case (Some e)
    moreover from out Some have "e \<noteq> 0" by (auto simp: flush_outcome_def)
    ultimately show ?thesis using flush_cq_end [OF assms(3) l] q out st sy
      by (intro exI [of _ e] exI [of _ s1] exI [of _ xs]) (simp add: irq_synced_def flush_causes_def)
  qed
qed

section \<open>Kicking the command ring\<close>

text \<open>Submitting a list of slots, the reference for the loop of \<^verbatim>\<open>linqu_ub_kick\<close>: stop at
  the first slot that cannot be read or that the backend refuses, with the result code and the
  error the endpoint reports.\<close>

fun submit_run ::
  "'b submit_op \<Rightarrow> u16 \<Rightarrow> 'b \<Rightarrow> bytes option list \<Rightarrow> (int \<times> u64) option \<times> 'b" where
  "submit_run submit eid b [] = (None, b)"
| "submit_run submit eid b (None # xs) = (Some (-1, LINQU_UB_ERR_RANGE), b)"
| "submit_run submit eid b (Some x # xs) =
     (let (rc, b1) = submit b eid x
      in if rc < 0 then (Some (rc, LINQU_UB_ERR_INVALID_DESCRIPTOR), b1)
         else submit_run submit eid b1 xs)"

lemma ring_slots_Suc:
  "ring_slots bus s base d h (Suc n) =
     linqu_ub_read_slot bus s base h (desc_bytes s) # ring_slots bus s base d (ring_next d h) n"
  unfolding ring_slots_def map_upt_Suc by (simp add: funpow_swap1)

lemma ring_slots_opaque [simp]:
  "ring_slots bus (s\<lparr>opaque := b\<rparr>) base d h n = ring_slots bus s base d h n"
  by (simp add: ring_slots_def linqu_ub_read_slot_def)

lemma kick_loop_run:
  fixes s :: "('m, 'b) ub_state"
  assumes "ep_valid i s" and "head < 32" and "submitted \<le> batch"
  shows "kick_loop bus submit i batch head submitted s =
    (let ep = ep_at s i;
         m = ring_dist 32 head (ep_cmdq_tail ep);
         k = min (unat batch - unat submitted) m
     in case submit_run submit (ep_endpoint_id ep) (opaque s)
               (take (unat batch - unat submitted) (ring_slots bus s (ep_cmdq_iova ep) 32 head m)) of
          (Some (rc, err), b) \<Rightarrow> Inl (rc, linqu_ub_set_error i err (s\<lparr>opaque := b\<rparr>))
        | (None, b) \<Rightarrow> Inr ((ring_next 32 ^^ k) head, submitted + of_nat k, s\<lparr>opaque := b\<rparr>))"
  using assms
proof (induction "unat batch - unat submitted" arbitrary: submitted head s)
  case 0
  then have "\<not> submitted < batch" by (simp add: word_less_nat_alt)
  with 0 show ?case by (subst kick_loop.simps) (simp add: Let_def)
next
  case (Suc n)
  let ?ep = "ep_at s i"
  have eo: "ep_cmdq_depth ?ep = 32" "ep_cmdq_tail ?ep < 32"
    using Suc.prems(1) ep_okD [of ?ep] by (auto simp: ep_valid_def)
  have lt: "submitted < batch" using Suc.hyps(2) by (simp add: word_less_nat_alt)
  have le: "submitted + 1 \<le> batch" and n: "n = unat batch - unat (submitted + 1)"
    using Suc.hyps(2) lt unat_Suc_below [OF lt] by (simp_all add: word_le_nat_alt)
  show ?case
  proof (cases "head = ep_cmdq_tail ?ep")
    case True
    then have "ring_dist 32 head (ep_cmdq_tail ?ep) = 0"
      using cmdq.dist_zero_iff [of head "ep_cmdq_tail ?ep"] eo by simp
    with True show ?thesis by (subst kick_loop.simps) (simp add: Let_def ring_slots_def)
  next
    case False
    define m where "m = ring_dist 32 (ring_next 32 head) (ep_cmdq_tail ?ep)"
    have m: "ring_dist 32 head (ep_cmdq_tail ?ep) = Suc m"
      using cmdq.dist_next [OF Suc.prems(2) eo(2) False] cmdq.dist_zero_iff [OF Suc.prems(2) eo(2)] False
      by (simp add: m_def)
    note step = kick_loop.simps [of bus submit i batch head submitted s]
    show ?thesis
    proof (cases "linqu_ub_read_slot bus s (ep_cmdq_iova ?ep) head (desc_bytes s)")
      case None
      then show ?thesis
        unfolding Let_def m Suc.hyps(2) [symmetric] ring_slots_Suc using False lt
        by (subst step) (simp add: Let_def)
    next
      case (Some slot)
      obtain rc b where r: "submit (opaque s) (ep_endpoint_id ?ep) slot = (rc, b)" by fastforce
      have IH: "kick_loop bus submit i batch (ring_next 32 head) (submitted + 1) (s\<lparr>opaque := b\<rparr>) =
        (let k = min n m
         in case submit_run submit (ep_endpoint_id ?ep) b
               (take n (ring_slots bus s (ep_cmdq_iova ?ep) 32 (ring_next 32 head) m)) of
            (Some (rc, err), b') \<Rightarrow> Inl (rc, linqu_ub_set_error i err (s\<lparr>opaque := b'\<rparr>))
          | (None, b') \<Rightarrow> Inr ((ring_next 32 ^^ k) (ring_next 32 head), submitted + 1 + of_nat k, s\<lparr>opaque := b'\<rparr>))"
        using Suc.hyps(1) [OF n, of "s\<lparr>opaque := b\<rparr>" "ring_next 32 head"] Suc.prems(1) le
          cmdq.next_less [of head] by (simp add: m_def n Let_def split: prod.split option.split)
      show ?thesis
        unfolding Let_def m Suc.hyps(2) [symmetric] ring_slots_Suc using False lt Some r IH eo
        by (subst step)
          (simp add: Let_def ring_next_def funpow_swap1 add.assoc split: prod.split option.split)
    qed
  qed
qed

lemma kick_run:
  fixes s :: "('m, 'b) ub_state"
  assumes "op_submit_slot (backend s) = Some submit" and "op_ring_doorbell (backend s) = Some doorbell"
    and "i < length (endpoints s)" and "ep_ok (ep_at s i)"
  shows "linqu_ub_kick bus i batch s =
    (let ep = ep_at s i; q = take (unat batch) (cmdq_queue bus s i) in
     case submit_run submit (ep_endpoint_id ep) (opaque s) q of
       (Some (rc, err), b) \<Rightarrow> Some (rc, linqu_ub_set_error i err (s\<lparr>opaque := b\<rparr>))
     | (None, b) \<Rightarrow>
         (case doorbell b (ep_endpoint_id ep) (of_nat (length q)) of (rc, _, _, b') \<Rightarrow>
            if rc < 0 then Some (rc, linqu_ub_set_error i LINQU_UB_ERR_QUEUE_OVERFLOW (s\<lparr>opaque := b'\<rparr>))
            else linqu_ub_flush_cq bus i
                   (upd_ep i (\<lambda>ep. ep\<lparr>ep_cmdq_head := (ring_next (ep_cmdq_depth ep) ^^ length q) (ep_cmdq_head ep)\<rparr>)
                      (s\<lparr>opaque := b'\<rparr>))))"
proof -
  have v: "ep_valid i s" using assms by (simp add: ep_valid_def)
  note eo = ep_okD [OF assms(4)]
  have q: "cmdq_queue bus s i = ring_slots bus s (ep_cmdq_iova (ep_at s i)) 32 (ep_cmdq_head (ep_at s i))
      (ring_dist 32 (ep_cmdq_head (ep_at s i)) (ep_cmdq_tail (ep_at s i)))"
    by (simp add: cmdq_queue_def cmdq_pending_def eo Let_def)
  have len: "length (cmdq_queue bus s i) =
      ring_dist 32 (ep_cmdq_head (ep_at s i)) (ep_cmdq_tail (ep_at s i))"
    by (simp add: q ring_slots_def)
  let ?q = "take (unat batch) (cmdq_queue bus s i)"
  obtain e b where r: "submit_run submit (ep_endpoint_id (ep_at s i)) (opaque s) ?q = (e, b)"
    by fastforce
  obtain rc x y b' where
    d: "doorbell b (ep_endpoint_id (ep_at s i)) (of_nat (length ?q)) = (rc, x, y, b')"
    by (metis prod_cases4)
  show ?thesis
    using assms(1,2) r d
    unfolding linqu_ub_kick_def kick_loop_run [OF v eo(3) word_zero_le] Let_def q [symmetric]
    by (cases e) (auto simp: upd_ep_def eo len min.commute)
qed

text \<open>
  C2: a doorbell submits the first \<open>batch\<close> descriptors of the command queue, in order, and stops
  at the first that cannot be read or is refused, reporting that error and moving nothing. Only
  when all are accepted does the backend's doorbell ring, with their number; only when that is
  accepted does the head advance, by that number, before completions are flushed.
\<close>

theorem kick_submits_in_order:
  fixes s :: "('m, 'b) ub_state"
  assumes "op_submit_slot (backend s) = Some submit" and "op_ring_doorbell (backend s) = Some doorbell"
    and "i < length (endpoints s)" and "ep_ok (ep_at s i)"
  shows "linqu_ub_kick bus i batch s =
    (let ep = ep_at s i; q = take (unat batch) (cmdq_queue bus s i) in
     case submit_run submit (ep_endpoint_id ep) (opaque s) q of
       (Some (rc, err), b) \<Rightarrow> Some (rc, linqu_ub_set_error i err (s\<lparr>opaque := b\<rparr>))
     | (None, b) \<Rightarrow>
         (case doorbell b (ep_endpoint_id ep) (of_nat (length q)) of (rc, _, _, b') \<Rightarrow>
            if rc < 0 then Some (rc, linqu_ub_set_error i LINQU_UB_ERR_QUEUE_OVERFLOW (s\<lparr>opaque := b'\<rparr>))
            else linqu_ub_flush_cq bus i
                   (upd_ep i (\<lambda>ep. ep\<lparr>ep_cmdq_head := (ring_next (ep_cmdq_depth ep) ^^ length q) (ep_cmdq_head ep)\<rparr>)
                      (s\<lparr>opaque := b'\<rparr>))))"
  by (rule kick_run [OF assms])

text \<open>Advancing the head past \<open>n\<close> slots.\<close>

definition advance_cmdq :: "nat \<Rightarrow> nat \<Rightarrow> ('m, 'b) ub_state \<Rightarrow> ('m, 'b) ub_state" where
  "advance_cmdq i n = upd_ep i
     (\<lambda>ep. ep\<lparr>ep_cmdq_head := (ring_next (ep_cmdq_depth ep) ^^ n) (ep_cmdq_head ep)\<rparr>)"

lemma irq_synced_upd_ep:
  assumes "ep_irq_status (f (ep_at s i)) = ep_irq_status (ep_at s i)"
  shows "irq_synced (upd_ep i f s) = irq_synced s"
proof -
  have "map ep_irq_status (endpoints (upd_ep i f s)) = map ep_irq_status (endpoints s)"
    using assms by (cases "i < length (endpoints s)")
      (auto simp: upd_ep_def map_update list_update_same_conv list_update_beyond)
  then have "list_ex (\<lambda>x. x \<noteq> 0) (take n (map ep_irq_status (endpoints (upd_ep i f s)))) =
      list_ex (\<lambda>x. x \<noteq> 0) (take n (map ep_irq_status (endpoints s)))" for n by simp
  then have "list_ex (\<lambda>e. ep_irq_status e \<noteq> 0) (take n (endpoints (upd_ep i f s))) =
      list_ex (\<lambda>e. ep_irq_status e \<noteq> 0) (take n (endpoints s))" for n
    by (simp add: take_map list_ex_iff)
  then show ?thesis
    by (simp add: irq_synced_def linqu_ub_has_pending_irq_def) (simp add: upd_ep_def)
qed

lemma irq_synced_mem [simp]:
  "irq_synced (s\<lparr>opaque := b\<rparr>) = irq_synced s"
  "irq_synced (s\<lparr>address_space_memory := m\<rparr>) = irq_synced s"
  by (simp_all add: irq_synced_def linqu_ub_has_pending_irq_def)

lemma advance_cmdq_facts:
  "irq_synced (advance_cmdq i n s) = irq_synced s"
  "ring_frame i s (advance_cmdq i n s)"
  "ep_valid i s \<Longrightarrow> ep_valid i (advance_cmdq i n s)"
  unfolding advance_cmdq_def
  using cmdq.funpow_less [of "ep_cmdq_head (ep_at s i)" n]
  by (auto intro!: irq_synced_upd_ep ring_frame_upd simp: ep_fixed_def)
    (auto simp: upd_ep_def ep_valid_def ep_ok_def)

lemma kick_safe:
  assumes v: "ep_valid i s"
  obtains rc t where "linqu_ub_kick bus i batch s = Some (rc, t)" and "ring_frame i s t" and "ep_valid i t"
    and "irq_synced s \<Longrightarrow> irq_synced t"
proof -
  have err: "ring_frame i s (linqu_ub_set_error i c (s\<lparr>opaque := b\<rparr>)) \<and>
      ep_valid i (linqu_ub_set_error i c (s\<lparr>opaque := b\<rparr>)) \<and> irq_synced (linqu_ub_set_error i c (s\<lparr>opaque := b\<rparr>))"
    for c b using v by (simp add: set_error_ep)
  show thesis
  proof (cases "op_submit_slot (backend s) = None \<or> op_ring_doorbell (backend s) = None")
    case True
    then have "linqu_ub_kick bus i batch s = Some (-1, linqu_ub_set_error i LINQU_UB_ERR_NOT_IMPLEMENTED s)"
      by (auto simp: linqu_ub_kick_def split: option.split)
    with that v show thesis by (simp add: set_error_ep)
  next
    case False
    then obtain submit doorbell where ops: "op_submit_slot (backend s) = Some submit"
      "op_ring_doorbell (backend s) = Some doorbell" by auto
    let ?ep = "ep_at s i" and ?q = "take (unat batch) (cmdq_queue bus s i)"
    note k = kick_run [OF ops v [unfolded ep_valid_def, THEN conjunct1]
        v [unfolded ep_valid_def, THEN conjunct2], of bus batch, unfolded Let_def]
    obtain e b where r: "submit_run submit (ep_endpoint_id ?ep) (opaque s) ?q = (e, b)" by fastforce
    obtain rc x y b' where d: "doorbell b (ep_endpoint_id ?ep) (of_nat (length ?q)) = (rc, x, y, b')"
      by (metis prod_cases4)
    define s' where "s' = advance_cmdq i (length ?q) (s\<lparr>opaque := b'\<rparr>)"
    have s': "ep_valid i s'" "irq_synced s' = irq_synced s" "ring_frame i s s'"
      using v advance_cmdq_facts [where s = "s\<lparr>opaque := b'\<rparr>" and n = "length ?q"] by (simp_all add: s'_def)
    obtain rc' t where fl: "linqu_ub_flush_cq bus i s' = Some (rc', t)" "ring_frame i s' t" "ep_valid i t"
      "irq_synced s' \<Longrightarrow> irq_synced t"
      by (rule flush_cq_safe [OF s'(1), of bus]) blast
    show thesis
    proof (cases e)
      case None
      with k r d that err fl ring_frame_trans [OF s'(3) fl(2)] s'(2) show thesis
        by (cases "rc < 0") (simp_all add: s'_def advance_cmdq_def)
    next
      case (Some a)
      with k r that err show thesis by (cases a) simp
    qed
  qed
qed

lemma set_error_queue:
  assumes "ep_valid i s"
  shows "cmdq_queue bus (linqu_ub_set_error i c (s\<lparr>opaque := b\<rparr>)) i = cmdq_queue bus s i"
    and "ep_cmdq_head (ep_at (linqu_ub_set_error i c (s\<lparr>opaque := b\<rparr>)) i) = ep_cmdq_head (ep_at s i)"
  using assms
  by (simp_all add: cmdq_queue_def cmdq_pending_def ring_slots_def linqu_ub_read_slot_def
      set_error_ep Let_def)

lemma submit_run_refused:
  assumes "submit_run submit eid b0 (map Some good) = (None, b)" and "submit b eid bad = (rc, b')" and "rc < 0"
  shows "submit_run submit eid b0 (map Some good @ Some bad # xs) = (Some (rc, LINQU_UB_ERR_INVALID_DESCRIPTOR), b')"
  using assms by (induction good arbitrary: b0) (auto split: prod.splits if_splits)

lemma kick_refused:
  assumes "op_submit_slot (backend s) = Some submit" and "op_ring_doorbell (backend s) = Some doorbell"
    and "i < length (endpoints s)" and "ep_ok (ep_at s i)"
    and "cmdq_queue bus s i = map Some good @ Some bad # rest" and "length good < unat batch"
    and "submit_run submit (ep_endpoint_id (ep_at s i)) (opaque s) (map Some good) = (None, b)"
    and "submit b (ep_endpoint_id (ep_at s i)) bad = (rc, b')" and "rc < 0"
  shows "linqu_ub_kick bus i batch s =
    Some (rc, linqu_ub_set_error i LINQU_UB_ERR_INVALID_DESCRIPTOR (s\<lparr>opaque := b'\<rparr>))"
proof -
  have q: "take (unat batch) (cmdq_queue bus s i) =
      map Some good @ Some bad # take (unat batch - Suc (length good)) rest"
    using assms(5,6) by (simp add: take_Cons')
  show ?thesis
    using kick_run [OF assms(1-4), of bus batch] submit_run_refused [OF assms(7-9)] by (simp add: Let_def q)
qed

text \<open>
  C31: a doorbell in which the backend refuses a descriptor fails with the backend's code and an error
  in the endpoint, and consumes nothing: the backend's session holds the descriptors accepted before,
  but the queue and its head are as they were. So the next doorbell submits the accepted descriptors
  a second time, from that session on, before it comes to the refused one again.
\<close>

theorem kick_failure_keeps_queue:
  assumes "op_submit_slot (backend s) = Some submit" and "op_ring_doorbell (backend s) = Some doorbell"
    and "i < length (endpoints s)" and "ep_ok (ep_at s i)"
    and "cmdq_queue bus s i = map Some good @ Some bad # rest" and "length good < unat batch"
    and "submit_run submit (ep_endpoint_id (ep_at s i)) (opaque s) (map Some good) = (None, b)"
    and "submit b (ep_endpoint_id (ep_at s i)) bad = (rc, b')" and "rc < 0"
    and "submit_run submit (ep_endpoint_id (ep_at s i)) b' (map Some good) = (None, c)"
    and "submit c (ep_endpoint_id (ep_at s i)) bad = (rc2, c')" and "rc2 < 0"
  shows "\<exists>t u. linqu_ub_kick bus i batch s = Some (rc, t) \<and> opaque t = b' \<and>
    cmdq_queue bus t i = cmdq_queue bus s i \<and>
    ep_cmdq_head (ep_at t i) = ep_cmdq_head (ep_at s i) \<and>
    ep_last_error (ep_at t i) = LINQU_UB_ERR_INVALID_DESCRIPTOR \<and>
    linqu_ub_kick bus i batch t = Some (rc2, u) \<and> opaque u = c' \<and> cmdq_queue bus u i = cmdq_queue bus s i"
proof -
  have v: "ep_valid i s" using assms by (simp add: ep_valid_def)
  define t where "t = linqu_ub_set_error i LINQU_UB_ERR_INVALID_DESCRIPTOR (s\<lparr>opaque := b'\<rparr>)"
  have f: "ring_frame i s t" unfolding t_def by (rule ring_frame_set_error) simp
  have t: "ep_valid i t" "opaque t = b'" "cmdq_queue bus t i = cmdq_queue bus s i"
    "ep_cmdq_head (ep_at t i) = ep_cmdq_head (ep_at s i)" "ep_last_error (ep_at t i) = LINQU_UB_ERR_INVALID_DESCRIPTOR"
    using v set_error_ep [where s = "s\<lparr>opaque := b'\<rparr>" and i = i] set_error_queue [OF v]
    by (simp_all add: t_def)
  have id: "ep_endpoint_id (ep_at t i) = ep_endpoint_id (ep_at s i)" and be: "backend t = backend s"
    using f ep_fixed_fields(1) [of "ep_at t i" "ep_at s i"] by (simp_all add: ring_frame_def)
  have "linqu_ub_kick bus i batch t = Some (rc2, linqu_ub_set_error i LINQU_UB_ERR_INVALID_DESCRIPTOR (t\<lparr>opaque := c'\<rparr>))"
    using kick_refused [of t submit doorbell i bus good bad rest batch c rc2 c'] assms t id be by (simp add: ep_valid_def)
  then show ?thesis
    using kick_refused [OF assms(1-9)] t set_error_queue [OF t(1)]
    by (simp add: t_def [symmetric] set_error_ep)
qed

text \<open>
  An accepted batch leaves the ring: the doorbell returns, and the number of pending commands
  falls by the batch size (to zero when the batch covers the queue).
\<close>

theorem kick_success_consumes:
  assumes "op_submit_slot (backend s) = Some submit" and "op_ring_doorbell (backend s) = Some doorbell"
    and "i < length (endpoints s)" and "ep_ok (ep_at s i)"
    and "submit_run submit (ep_endpoint_id (ep_at s i)) (opaque s)
           (take (unat batch) (cmdq_queue bus s i)) = (None, b)"
    and "doorbell b (ep_endpoint_id (ep_at s i)) (of_nat (min (unat batch) (cmdq_pending (ep_at s i)))) = (rc, x, y, b')"
    and "0 \<le> rc"
  shows "\<exists>rc t. linqu_ub_kick bus i batch s = Some (rc, t) \<and>
    cmdq_pending (ep_at t i) = cmdq_pending (ep_at s i) - unat batch \<and>
    ep_cmdq_tail (ep_at t i) = ep_cmdq_tail (ep_at s i)"
proof -
  let ?n = "min (unat batch) (cmdq_pending (ep_at s i))"
  let ?s = "advance_cmdq i ?n (s\<lparr>opaque := b'\<rparr>)"
  have v: "ep_valid i s" using assms by (simp add: ep_valid_def)
  note eo = ep_okD [OF assms(4)]
  have len: "length (take (unat batch) (cmdq_queue bus s i)) = ?n"
    by (simp add: cmdq_queue_def ring_slots_def Let_def min.commute)
  have k: "linqu_ub_kick bus i batch s = linqu_ub_flush_cq bus i ?s"
    using kick_run [OF assms(1-4), of bus batch] assms(5-7) 
    unfolding Let_def len advance_cmdq_def by simp
  have v': "ep_valid i ?s" using v advance_cmdq_facts(3) [of i "s\<lparr>opaque := b'\<rparr>"] by simp
  obtain rc' t where t: "linqu_ub_flush_cq bus i ?s = Some (rc', t)" "ring_frame i ?s t"
    "ep_cmdq_head (ep_at t i) = ep_cmdq_head (ep_at ?s i)"
    by (rule flush_cq_safe [OF v', of bus]) blast
  have fx: "ep_cmdq_tail (ep_at t i) = ep_cmdq_tail (ep_at ?s i)" "ep_cmdq_depth (ep_at t i) = ep_cmdq_depth (ep_at ?s i)"
    using ep_fixed_fields(5,7) [of "ep_at t i" "ep_at ?s i"] t(2) by (simp_all add: ring_frame_def)
  have s: "ep_at ?s i = (ep_at s i)\<lparr>ep_cmdq_head := (ring_next 32 ^^ ?n) (ep_cmdq_head (ep_at s i))\<rparr>"
    using assms(3) by (simp add: advance_cmdq_def upd_ep_def eo)
  have "cmdq_pending (ep_at t i) = cmdq_pending (ep_at s i) - ?n"
    unfolding cmdq_pending_def [of "ep_at t i"] fx t(3) s
    using cmdq.dist_funpow [OF eo(3,4), of ?n] by (simp add: eo cmdq_pending_def)
  then show ?thesis using k t(1) fx s by auto
qed

end
