(* ===== verification/UB_Mmio.thy ===== *)
theory UB_Mmio
  imports UB_Msgq UB_Rings
begin

text \<open>
  The register file of the \<^verbatim>\<open>linqu-ub\<close> device and its life cycle: the decoding of an
  MMIO access into the message queue window, the UMMU window or an endpoint's window, the
  registers behind each, and realize, reset and unrealize together with the glue to the Rust
  backend.

  A write may run the loops of the rings, so it is option-valued; the device as a whole is an
  \<open>inv_machine\<close> whose steps are accesses of the guest, resets and changes of guest memory and of
  the backend's session behind the device's back.
\<close>

section \<open>Address decoding\<close>

definition linqu_ub_msgq_offset_valid :: "hwaddr \<Rightarrow> bool" where
  "linqu_ub_msgq_offset_valid addr \<longleftrightarrow>
     LINQU_UB_MSGQ_BASE \<le> addr \<and> addr < LINQU_UB_MSGQ_BASE + LINQU_UB_MSGQ_WINDOW_SIZE"

definition linqu_ub_msgq_reg :: "hwaddr \<Rightarrow> u32" where
  "linqu_ub_msgq_reg addr = ucast (addr - LINQU_UB_MSGQ_BASE)"

definition linqu_ub_decode_offset :: "hwaddr \<Rightarrow> (u16 \<times> hwaddr) option" where
  "linqu_ub_decode_offset addr =
     (if addr < LINQU_UB_ENDPOINT_BASE then None
      else let relative = addr - LINQU_UB_ENDPOINT_BASE;
               endpoint_index = relative div LINQU_UB_ENDPOINT_STRIDE
           in Some (ucast (endpoint_index + 1), relative mod LINQU_UB_ENDPOINT_STRIDE))"

definition linqu_ub_access_extract :: "u64 \<Rightarrow> hwaddr \<Rightarrow> nat \<Rightarrow> u64" where
  "linqu_ub_access_extract full_value reg sz =
     (if sz = 8 then full_value
      else if sz = 4
      then (if reg AND 0x4 \<noteq> 0 then drop_bit 32 full_value AND 0xffffffff
            else full_value AND 0xffffffff)
      else 0)"

definition linqu_ub_access_merge :: "u64 \<Rightarrow> hwaddr \<Rightarrow> u64 \<Rightarrow> nat \<Rightarrow> u64" where
  "linqu_ub_access_merge current_value reg value sz =
     (if sz = 8 then value
      else if sz = 4
      then (if reg AND 0x4 \<noteq> 0
            then (current_value AND 0x00000000ffffffff) OR push_bit 32 (value AND 0xffffffff)
            else (current_value AND 0xffffffff00000000) OR (value AND 0xffffffff))
      else current_value)"

definition linqu_ub_ummu_offset_valid :: "hwaddr \<Rightarrow> hwaddr option" where
  "linqu_ub_ummu_offset_valid addr =
     (if addr < LINQU_UB_UMMU_BASE \<or> LINQU_UB_UMMU_BASE + LINQU_UB_UMMU_REGION_SIZE \<le> addr then None
      else Some (addr - LINQU_UB_UMMU_BASE))"

section \<open>UMMU registers\<close>

definition linqu_ub_ummu_reg_read :: "('m, 'b) ub_state \<Rightarrow> hwaddr \<Rightarrow> u64" where
  "linqu_ub_ummu_reg_read s reg =
     (let u = ummu s
      in if reg = LINQU_UB_UMMU_IIDR then ucast (um_iidr u)
         else if reg = LINQU_UB_UMMU_AIDR then ucast (um_aidr u)
         else if reg = LINQU_UB_UMMU_CAP0 then ucast (um_cap0 u)
         else if reg = LINQU_UB_UMMU_CAP1 then ucast (um_cap1 u)
         else if reg = LINQU_UB_UMMU_CAP2 then ucast (um_cap2 u)
         else if reg = LINQU_UB_UMMU_CAP3 then ucast (um_cap3 u)
         else if reg = LINQU_UB_UMMU_CAP4 then ucast (um_cap4 u)
         else if reg = LINQU_UB_UMMU_CAP5 then ucast (um_cap5 u)
         else if reg = LINQU_UB_UMMU_CAP6 then ucast (um_cap6 u)
         else if reg = LINQU_UB_UMMU_CR0 then ucast (um_cr0 u)
         else if reg = LINQU_UB_UMMU_CR0ACK then ucast (um_cr0ack u)
         else if reg = LINQU_UB_UMMU_CR1 then ucast (um_cr1 u)
         else if reg = LINQU_UB_UMMU_GBPA then ucast (um_gbpa u)
         else if reg = LINQU_UB_UMMU_TECT_BASE then um_tect_base u
         else if reg = LINQU_UB_UMMU_TECT_BASE_CFG then ucast (um_tect_base_cfg u)
         else if reg = LINQU_UB_UMMU_MCMDQ_BASE then um_mcmdq_base u
         else if reg = LINQU_UB_UMMU_MCMDQ_PROD then ucast (um_mcmdq_prod u)
         else if reg = LINQU_UB_UMMU_MCMDQ_CONS then ucast (um_mcmdq_cons u)
         else if reg = LINQU_UB_UMMU_EVTQ_BASE then um_evtq_base u
         else if reg = LINQU_UB_UMMU_EVTQ_PROD then ucast (um_evtq_prod u)
         else if reg = LINQU_UB_UMMU_EVTQ_CONS then ucast (um_evtq_cons u)
         else 0)"

definition linqu_ub_ummu_reg_write :: "hwaddr \<Rightarrow> u64 \<Rightarrow> ('m, 'b) ub_state \<Rightarrow> ('m, 'b) ub_state" where
  "linqu_ub_ummu_reg_write reg value s =
     (if reg = LINQU_UB_UMMU_CR0
      then upd_ummu (\<lambda>u. u\<lparr>um_cr0 := ucast value, um_cr0ack := ucast value\<rparr>) s
      else if reg = LINQU_UB_UMMU_CR1 then upd_ummu (\<lambda>u. u\<lparr>um_cr1 := ucast value\<rparr>) s
      else if reg = LINQU_UB_UMMU_GBPA
      then upd_ummu (\<lambda>u. u\<lparr>um_gbpa := ucast (value AND ucast (NOT (push_bit 31 (1 :: u32))))\<rparr>) s
      else if reg = LINQU_UB_UMMU_TECT_BASE then upd_ummu (\<lambda>u. u\<lparr>um_tect_base := value\<rparr>) s
      else if reg = LINQU_UB_UMMU_TECT_BASE_CFG
      then upd_ummu (\<lambda>u. u\<lparr>um_tect_base_cfg := ucast value\<rparr>) s
      else if reg = LINQU_UB_UMMU_MCMDQ_BASE then upd_ummu (\<lambda>u. u\<lparr>um_mcmdq_base := value\<rparr>) s
      else if reg = LINQU_UB_UMMU_MCMDQ_PROD
      then upd_ummu (\<lambda>u. u\<lparr>um_mcmdq_prod := ucast value, um_mcmdq_cons := ucast value\<rparr>) s
      else if reg = LINQU_UB_UMMU_MCMDQ_CONS then upd_ummu (\<lambda>u. u\<lparr>um_mcmdq_cons := ucast value\<rparr>) s
      else if reg = LINQU_UB_UMMU_EVTQ_BASE then upd_ummu (\<lambda>u. u\<lparr>um_evtq_base := value\<rparr>) s
      else if reg = LINQU_UB_UMMU_EVTQ_PROD then upd_ummu (\<lambda>u. u\<lparr>um_evtq_prod := ucast value\<rparr>) s
      else if reg = LINQU_UB_UMMU_EVTQ_CONS then upd_ummu (\<lambda>u. u\<lparr>um_evtq_cons := ucast value\<rparr>) s
      else s)"

section \<open>Endpoint registers\<close>

text \<open>A read of an unknown register reports an error.\<close>

definition linqu_ub_ep_reg_read :: "nat \<Rightarrow> hwaddr \<Rightarrow> ('m, 'b) ub_state \<Rightarrow> u64 \<times> ('m, 'b) ub_state" where
  "linqu_ub_ep_reg_read i reg s =
     (let ep = ep_at s i
      in if reg = LINQU_UB_REG_CMDQ_BASE_LO then (ucast (ucast (ep_cmdq_iova ep) :: u32), s)
         else if reg = LINQU_UB_REG_CMDQ_BASE_HI then (drop_bit 32 (ep_cmdq_iova ep), s)
         else if reg = LINQU_UB_REG_CMDQ_SIZE then (ucast (ep_cmdq_depth ep), s)
         else if reg = LINQU_UB_REG_CMDQ_HEAD then (ucast (ep_cmdq_head ep), s)
         else if reg = LINQU_UB_REG_CMDQ_TAIL then (ucast (ep_cmdq_tail ep), s)
         else if reg = LINQU_UB_REG_CQ_BASE_LO then (ucast (ucast (ep_cq_iova ep) :: u32), s)
         else if reg = LINQU_UB_REG_CQ_BASE_HI then (drop_bit 32 (ep_cq_iova ep), s)
         else if reg = LINQU_UB_REG_CQ_SIZE then (ucast (ep_cq_depth ep), s)
         else if reg = LINQU_UB_REG_CQ_HEAD then (ucast (ep_cq_head ep), s)
         else if reg = LINQU_UB_REG_CQ_TAIL then (ucast (ep_cq_tail ep), s)
         else if reg = LINQU_UB_REG_STATUS then (linqu_ub_encode_status ep, s)
         else if reg = LINQU_UB_REG_DOORBELL then (0, s)
         else if reg = LINQU_UB_REG_LAST_ERROR then (ep_last_error ep, s)
         else if reg = LINQU_UB_REG_IRQ_STATUS then (ep_irq_status ep, s)
         else if reg = LINQU_UB_REG_DEFAULT_SEGMENT then (ep_default_segment ep, s)
         else if reg = LINQU_UB_REG_IRQ_ACK then (0, s)
         else (0, linqu_ub_set_error i LINQU_UB_ERR_INVALID_REGISTER_READ s))"

definition linqu_ub_ep_reg_write ::
  "'m dma_bus \<Rightarrow> nat \<Rightarrow> hwaddr \<Rightarrow> u64 \<Rightarrow> ('m, 'b) ub_state \<Rightarrow> ('m, 'b) ub_state option" where
  "linqu_ub_ep_reg_write bus i reg value s =
     (let ep = ep_at s i
      in if reg = LINQU_UB_REG_CMDQ_BASE_LO
         then Some (upd_ep i (\<lambda>ep. ep\<lparr>ep_cmdq_iova := set_lo32 (ep_cmdq_iova ep) value\<rparr>) s)
         else if reg = LINQU_UB_REG_CMDQ_BASE_HI
         then Some (upd_ep i (\<lambda>ep. ep\<lparr>ep_cmdq_iova := set_hi32 (ep_cmdq_iova ep) value\<rparr>) s)
         else if reg = LINQU_UB_REG_CMDQ_TAIL
         then if ucast (ep_cmdq_depth ep) \<le> value
              then Some (linqu_ub_set_error i LINQU_UB_ERR_RANGE s)
              else Some (upd_ep i (\<lambda>ep. ep\<lparr>ep_cmdq_tail := ucast value\<rparr>) s)
         else if reg = LINQU_UB_REG_CQ_BASE_LO
         then Some (upd_ep i (\<lambda>ep. ep\<lparr>ep_cq_iova := set_lo32 (ep_cq_iova ep) value\<rparr>) s)
         else if reg = LINQU_UB_REG_CQ_BASE_HI
         then Some (upd_ep i (\<lambda>ep. ep\<lparr>ep_cq_iova := set_hi32 (ep_cq_iova ep) value\<rparr>) s)
         else if reg = LINQU_UB_REG_CQ_HEAD
         then if ucast (ep_cq_depth ep) \<le> value
              then Some (linqu_ub_set_error i LINQU_UB_ERR_RANGE s)
              else let s1 = upd_ep i (\<lambda>ep. ep\<lparr>ep_cq_head := ucast value\<rparr>) s
                   in if ep_cq_head (ep_at s1 i) = ep_cq_tail (ep_at s1 i)
                      then Some (linqu_ub_update_irq
                             (upd_ep i (\<lambda>ep. ep\<lparr>ep_irq_status := ep_irq_status ep AND
                                                                NOT LINQU_UB_IRQ_COMPLETION\<rparr>) s1))
                      else Some s1
         else if reg = LINQU_UB_REG_DOORBELL
         then map_option snd
                (linqu_ub_kick bus i (if value \<noteq> 0 then ucast value else ep_cmdq_depth ep) s)
         else if reg = LINQU_UB_REG_IRQ_ACK
         then Some (linqu_ub_update_irq
                (upd_ep i (\<lambda>ep. ep\<lparr>ep_irq_status := ep_irq_status ep AND NOT value\<rparr>) s))
         else if reg \<in> {LINQU_UB_REG_CMDQ_SIZE, LINQU_UB_REG_CQ_SIZE, LINQU_UB_REG_CMDQ_HEAD,
                        LINQU_UB_REG_CQ_TAIL, LINQU_UB_REG_STATUS, LINQU_UB_REG_LAST_ERROR,
                        LINQU_UB_REG_IRQ_STATUS, LINQU_UB_REG_DEFAULT_SEGMENT}
         then Some (linqu_ub_set_error i LINQU_UB_ERR_INVALID_REGISTER_WRITE s)
         else Some (linqu_ub_set_error i LINQU_UB_ERR_INVALID_OFFSET s))"

section \<open>Message queue registers\<close>

definition linqu_ub_msgq_reg_read :: "('m, 'b) ub_state \<Rightarrow> u32 \<Rightarrow> u64" where
  "linqu_ub_msgq_reg_read s reg =
     (let q = msgq s
      in if reg = LINQU_UB_MSGQ_SQ_ADDR_L then ucast (ucast (mq_sq_iova q) :: u32)
         else if reg = LINQU_UB_MSGQ_SQ_ADDR_H then drop_bit 32 (mq_sq_iova q)
         else if reg = LINQU_UB_MSGQ_SQ_PI then ucast (mq_sq_pi q)
         else if reg = LINQU_UB_MSGQ_SQ_CI then ucast (mq_sq_ci q)
         else if reg = LINQU_UB_MSGQ_SQ_DEPTH then ucast (mq_sq_depth q)
         else if reg = LINQU_UB_MSGQ_SQ_STATUS then 0
         else if reg = LINQU_UB_MSGQ_SQ_INT_MSK then 0
         else if reg = LINQU_UB_MSGQ_RQ_ADDR_L then ucast (ucast (mq_rq_iova q) :: u32)
         else if reg = LINQU_UB_MSGQ_RQ_ADDR_H then drop_bit 32 (mq_rq_iova q)
         else if reg = LINQU_UB_MSGQ_RQ_PI then ucast (mq_rq_pi q)
         else if reg = LINQU_UB_MSGQ_RQ_CI then ucast (mq_rq_ci q)
         else if reg = LINQU_UB_MSGQ_RQ_DEPTH then ucast (mq_rq_depth q)
         else if reg = LINQU_UB_MSGQ_RQ_ENTRY_SIZE then ucast (mq_rq_entry_size q)
         else if reg = LINQU_UB_MSGQ_RQ_STATUS then 0
         else if reg = LINQU_UB_MSGQ_CQ_ADDR_L then ucast (ucast (mq_cq_iova q) :: u32)
         else if reg = LINQU_UB_MSGQ_CQ_ADDR_H then drop_bit 32 (mq_cq_iova q)
         else if reg = LINQU_UB_MSGQ_CQ_PI then ucast (mq_cq_pi q)
         else if reg = LINQU_UB_MSGQ_CQ_CI then ucast (mq_cq_ci q)
         else if reg = LINQU_UB_MSGQ_CQ_DEPTH then ucast (mq_cq_depth q)
         else if reg = LINQU_UB_MSGQ_CQ_STATUS then 0
         else if reg = LINQU_UB_MSGQ_CQ_INT_MASK then ucast (mq_cq_int_mask q)
         else if reg = LINQU_UB_MSGQ_CQ_INT_STATUS then ucast (mq_cq_int_status q)
         else if reg = LINQU_UB_MSGQ_CQ_INT_RO then ucast (mq_cq_int_ro q)
         else if reg = LINQU_UB_MSGQ_INT_SEL then ucast (mq_msgq_int_sel q)
         else if reg = LINQU_UB_MSGQ_RST then 0
         else 0)"

definition linqu_ub_msgq_reg_write ::
  "'m dma_bus \<Rightarrow> u32 \<Rightarrow> u64 \<Rightarrow> ('m, 'b) ub_state \<Rightarrow> ('m, 'b) ub_state option" where
  "linqu_ub_msgq_reg_write bus reg value s =
     (let q = msgq s
      in if reg = LINQU_UB_MSGQ_SQ_ADDR_L
         then Some (upd_msgq (\<lambda>q. q\<lparr>mq_sq_iova := set_lo32 (mq_sq_iova q) value\<rparr>) s)
         else if reg = LINQU_UB_MSGQ_SQ_ADDR_H
         then Some (upd_msgq (\<lambda>q. q\<lparr>mq_sq_iova := set_hi32 (mq_sq_iova q) value\<rparr>) s)
         else if reg = LINQU_UB_MSGQ_SQ_DEPTH
         then Some (upd_msgq (\<lambda>q. q\<lparr>mq_sq_depth := ucast value\<rparr>) s)
         else if reg = LINQU_UB_MSGQ_SQ_PI
         then if mq_sq_depth q = 0 \<or> ucast (mq_sq_depth q) \<le> value then Some s
              else Option.bind
                     (linqu_ub_msgq_ring_sq bus (upd_msgq (\<lambda>q. q\<lparr>mq_sq_pi := ucast value\<rparr>) s)
                        (ucast value))
                     (\<lambda>(rc, s1). Some (if rc < 0
                        then linqu_ub_update_irq
                               (upd_msgq (\<lambda>q. q\<lparr>mq_cq_int_status := 1, mq_cq_int_ro := 1\<rparr>) s1)
                        else s1))
         else if reg = LINQU_UB_MSGQ_RQ_ADDR_L
         then Some (upd_msgq (\<lambda>q. q\<lparr>mq_rq_iova := set_lo32 (mq_rq_iova q) value\<rparr>) s)
         else if reg = LINQU_UB_MSGQ_RQ_ADDR_H
         then Some (upd_msgq (\<lambda>q. q\<lparr>mq_rq_iova := set_hi32 (mq_rq_iova q) value\<rparr>) s)
         else if reg = LINQU_UB_MSGQ_RQ_CI
         then Some (upd_msgq (\<lambda>q. q\<lparr>mq_rq_ci := ucast value\<rparr>) s)
         else if reg = LINQU_UB_MSGQ_RQ_DEPTH
         then Some (upd_msgq (\<lambda>q. q\<lparr>mq_rq_depth := ucast value\<rparr>) s)
         else if reg = LINQU_UB_MSGQ_RQ_ENTRY_SIZE
         then Some (upd_msgq (\<lambda>q. q\<lparr>mq_rq_entry_size := ucast value\<rparr>) s)
         else if reg = LINQU_UB_MSGQ_CQ_ADDR_L
         then Some (upd_msgq (\<lambda>q. q\<lparr>mq_cq_iova := set_lo32 (mq_cq_iova q) value\<rparr>) s)
         else if reg = LINQU_UB_MSGQ_CQ_ADDR_H
         then Some (upd_msgq (\<lambda>q. q\<lparr>mq_cq_iova := set_hi32 (mq_cq_iova q) value\<rparr>) s)
         else if reg = LINQU_UB_MSGQ_CQ_CI
         then let s1 = upd_msgq (\<lambda>q. q\<lparr>mq_cq_ci := ucast value\<rparr>) s
              in Some (linqu_ub_update_irq
                   (if mq_cq_ci (msgq s1) = mq_cq_pi (msgq s1)
                    then upd_msgq (\<lambda>q. q\<lparr>mq_cq_int_ro := 0, mq_cq_int_status := 0\<rparr>) s1 else s1))
         else if reg = LINQU_UB_MSGQ_CQ_DEPTH
         then Some (upd_msgq (\<lambda>q. q\<lparr>mq_cq_depth := ucast value\<rparr>) s)
         else if reg = LINQU_UB_MSGQ_CQ_INT_MASK
         then Some (linqu_ub_update_irq
                (upd_msgq (\<lambda>q. q\<lparr>mq_cq_int_mask := ucast (value AND 0x1)\<rparr>) s))
         else if reg = LINQU_UB_MSGQ_CQ_INT_STATUS
         then Some (linqu_ub_update_irq
                (if value AND 0x1 \<noteq> 0
                 then upd_msgq (\<lambda>q. q\<lparr>mq_cq_int_status := 0, mq_cq_int_ro := 0\<rparr>) s else s))
         else if reg = LINQU_UB_MSGQ_RST
         then Some (if value AND 0x1 \<noteq> 0 then linqu_ub_msgq_reset s else s)
         else if reg = LINQU_UB_MSGQ_INT_SEL
         then Some (upd_msgq (\<lambda>q. q\<lparr>mq_msgq_int_sel := ucast value\<rparr>) s)
         else Some s)"

section \<open>MMIO accesses\<close>

definition linqu_ub_mmio_read ::
  "hwaddr \<Rightarrow> nat \<Rightarrow> ('m, 'b) ub_state \<Rightarrow> u64 \<times> ('m, 'b) ub_state" where
  "linqu_ub_mmio_read addr sz s =
     (if sz \<noteq> 4 \<and> sz \<noteq> 8 then (0, s)
      else if addr = LINQU_UB_REG_VERSION then (linqu_ub_access_extract 1 addr sz, s)
      else if addr = LINQU_UB_REG_FEATURES then (0, s)
      else if linqu_ub_msgq_offset_valid addr
      then let reg = linqu_ub_msgq_reg (addr AND NOT 0x7)
           in (linqu_ub_access_extract (linqu_ub_msgq_reg_read s reg) addr sz, s)
      else case linqu_ub_ummu_offset_valid addr of
        Some reg \<Rightarrow>
          let v = linqu_ub_ummu_reg_read s (reg AND NOT 0x3)
          in (if sz = 4 then v AND 0xffffffff else v, s)
      | None \<Rightarrow>
          (case linqu_ub_decode_offset addr of
             None \<Rightarrow> (0, s)
           | Some (endpoint_id, reg) \<Rightarrow>
               (case linqu_ub_get_endpoint s endpoint_id of
                  None \<Rightarrow> (0, s)
                | Some i \<Rightarrow>
                    let (v, s1) = linqu_ub_ep_reg_read i (reg AND NOT 0x7) s
                    in (linqu_ub_access_extract v addr sz, s1))))"

definition linqu_ub_mmio_write ::
  "'m dma_bus \<Rightarrow> hwaddr \<Rightarrow> u64 \<Rightarrow> nat \<Rightarrow> ('m, 'b) ub_state \<Rightarrow> ('m, 'b) ub_state option" where
  "linqu_ub_mmio_write bus addr value sz s =
     (if sz \<noteq> 4 \<and> sz \<noteq> 8 then Some s
      else if linqu_ub_msgq_offset_valid addr
      then let reg = linqu_ub_msgq_reg (addr AND NOT 0x7)
           in linqu_ub_msgq_reg_write bus reg
                (linqu_ub_access_merge (linqu_ub_msgq_reg_read s reg) addr value sz) s
      else case linqu_ub_ummu_offset_valid addr of
        Some reg \<Rightarrow>
          Some (linqu_ub_ummu_reg_write (reg AND NOT 0x3)
                  (if sz = 4 then value AND 0xffffffff else value) s)
      | None \<Rightarrow>
          (case linqu_ub_decode_offset addr of
             None \<Rightarrow> Some s
           | Some (endpoint_id, reg) \<Rightarrow>
               (case linqu_ub_get_endpoint s endpoint_id of
                  None \<Rightarrow> Some s
                | Some i \<Rightarrow>
                    let (cur, s1) = linqu_ub_ep_reg_read i (reg AND NOT 0x7) s
                    in linqu_ub_ep_reg_write bus i (reg AND NOT 0x7)
                         (linqu_ub_access_merge cur addr value sz) s1)))"

section \<open>The Rust backend\<close>

text \<open>
  The functions of \<^verbatim>\<open>linqu_ub_bridge.h\<close>, implemented by the Rust crate, are a
  parameter. A bridge is allocated with \<^verbatim>\<open>calloc\<close>, whose success is a parameter too.
\<close>

record 'b rust_abi =
  linqu_ub_bridge_new_from_yaml :: "string \<Rightarrow> 'b option"
  linqu_ub_bridge_register_endpoint :: "'b \<Rightarrow> u16 \<Rightarrow> u32 \<Rightarrow> int \<times> 'b"
  linqu_ub_bridge_get_default_segment :: "'b \<Rightarrow> u16 \<Rightarrow> int \<times> u64 \<times> 'b"
  linqu_ub_bridge_submit_slot :: "'b \<Rightarrow> u16 \<Rightarrow> bytes \<Rightarrow> int \<times> 'b"
  linqu_ub_bridge_ring_doorbell :: "'b \<Rightarrow> u16 \<Rightarrow> u32 \<Rightarrow> int \<times> u32 \<times> u32 \<times> 'b"
  linqu_ub_bridge_poll_completion :: "'b \<Rightarrow> u16 \<Rightarrow> u32 \<Rightarrow> int \<times> bytes \<times> 'b"

definition linqu_ub_rust_bridge_new :: "'b rust_abi \<Rightarrow> bool \<Rightarrow> string \<Rightarrow> 'b option" where
  "linqu_ub_rust_bridge_new abi calloc_ok path =
     (if \<not> calloc_ok then None else linqu_ub_bridge_new_from_yaml abi path)"

definition linqu_ub_rust_register_endpoint :: "'b rust_abi \<Rightarrow> 'b \<Rightarrow> u16 \<Rightarrow> u32 \<Rightarrow> int \<times> 'b" where
  "linqu_ub_rust_register_endpoint abi bridge endpoint_id entity_id = linqu_ub_bridge_register_endpoint abi bridge endpoint_id entity_id"

definition linqu_ub_rust_get_default_segment :: "'b rust_abi \<Rightarrow> 'b \<Rightarrow> u16 \<Rightarrow> int \<times> u64 \<times> 'b" where
  "linqu_ub_rust_get_default_segment abi bridge endpoint_id = linqu_ub_bridge_get_default_segment abi bridge endpoint_id"

definition linqu_ub_rust_submit_slot :: "'b rust_abi \<Rightarrow> 'b \<Rightarrow> u16 \<Rightarrow> bytes \<Rightarrow> int \<times> 'b" where
  "linqu_ub_rust_submit_slot abi bridge endpoint_id slot = linqu_ub_bridge_submit_slot abi bridge endpoint_id slot"

definition linqu_ub_rust_ring_doorbell :: "'b rust_abi \<Rightarrow> 'b \<Rightarrow> u16 \<Rightarrow> u32 \<Rightarrow> int \<times> u32 \<times> u32 \<times> 'b" where
  "linqu_ub_rust_ring_doorbell abi bridge endpoint_id max_batch = linqu_ub_bridge_ring_doorbell abi bridge endpoint_id max_batch"

definition linqu_ub_rust_poll_completion :: "'b rust_abi \<Rightarrow> 'b \<Rightarrow> u16 \<Rightarrow> u32 \<Rightarrow> int \<times> bytes \<times> 'b" where
  "linqu_ub_rust_poll_completion abi bridge endpoint_id slot_len = linqu_ub_bridge_poll_completion abi bridge endpoint_id slot_len"

definition linqu_ub_rust_bridge_fill_ops :: "'b rust_abi \<Rightarrow> 'b option \<Rightarrow> 'b backend_ops option" where
  "linqu_ub_rust_bridge_fill_ops abi bridge =
     (case bridge of
        None \<Rightarrow> None
      | Some _ \<Rightarrow>
          Some \<lparr>op_register_endpoint = Some (linqu_ub_rust_register_endpoint abi),
                op_get_default_segment = Some (linqu_ub_rust_get_default_segment abi),
                op_submit_slot = Some (linqu_ub_rust_submit_slot abi),
                op_ring_doorbell = Some (linqu_ub_rust_ring_doorbell abi),
                op_poll_completion = Some (linqu_ub_rust_poll_completion abi)\<rparr>)"

section \<open>Life cycle\<close>

definition linqu_ub_set_backend ::
  "'b backend_ops \<Rightarrow> 'b \<Rightarrow> ('m, 'b) ub_state \<Rightarrow> ('m, 'b) ub_state" where
  "linqu_ub_set_backend ops session s = s\<lparr>backend := ops, opaque := session\<rparr>"

definition msgq_zero :: msgq_state where
  "msgq_zero = \<lparr>mq_sq_iova = 0, mq_rq_iova = 0, mq_cq_iova = 0, mq_sq_pi = 0, mq_sq_ci = 0,
     mq_sq_depth = 0, mq_rq_pi = 0, mq_rq_ci = 0, mq_rq_depth = 0, mq_rq_entry_size = 0,
     mq_cq_pi = 0, mq_cq_ci = 0, mq_cq_depth = 0, mq_cq_int_mask = 0, mq_cq_int_status = 0,
     mq_cq_int_ro = 0, mq_msgq_int_sel = 0\<rparr>"

definition decoder_zero :: decoder_state where
  "decoder_zero = \<lparr>dec_mmio_ba = 0, dec_matt_ba = 0, dec_cmdq_base = 0, dec_eventq_base = 0,
     dec_ctrl = 0, dec_cap = 0, dec_usi_idx = 0, dec_cmdq_cfg = 0, dec_cmdq_prod = 0,
     dec_cmdq_cons = 0, dec_eventq_cfg = 0, dec_eventq_prod = 0, dec_eventq_cons = 0\<rparr>"

definition ummu_zero :: ummu_state where
  "ummu_zero = \<lparr>um_iidr = 0, um_aidr = 0, um_cap0 = 0, um_cap1 = 0, um_cap2 = 0, um_cap3 = 0,
     um_cap4 = 0, um_cap5 = 0, um_cap6 = 0, um_cr0 = 0, um_cr0ack = 0, um_cr1 = 0, um_gbpa = 0,
     um_tect_base = 0, um_tect_base_cfg = 0, um_mcmdq_base = 0, um_mcmdq_prod = 0,
     um_mcmdq_cons = 0, um_evtq_base = 0, um_evtq_prod = 0, um_evtq_cons = 0\<rparr>"

definition reset_ep :: "nat \<Rightarrow> ep_state \<Rightarrow> ep_state" where
  "reset_ep i ep = ep\<lparr>ep_endpoint_id := of_nat (i + 1), ep_entity_id := of_nat i,
     ep_cmdq_depth := LINQU_UB_DEFAULT_CMDQ_DEPTH, ep_cq_depth := LINQU_UB_DEFAULT_CQ_DEPTH,
     ep_cmdq_head := 0, ep_cmdq_tail := 0, ep_cq_head := 0, ep_cq_tail := 0,
     ep_cmdq_iova := 0, ep_cq_iova := 0, ep_last_error := LINQU_UB_ERR_NONE, ep_irq_status := 0\<rparr>"

definition linqu_ub_reset :: "('m, 'b) ub_state \<Rightarrow> ('m, 'b) ub_state" where
  "linqu_ub_reset s =
     qemu_set_irq False
       (s\<lparr>cfg_upi := 0, cfg_th_en := 0, msgq := msgq_zero,
          decoder := decoder_zero\<lparr>dec_cap := LINQU_UB_DECODER_CAP_VALUE\<rparr>,
          ummu := ummu_zero
            \<lparr>um_iidr := push_bit 8 1,
             um_cap0 := push_bit 8 20 OR 8,
             um_cap1 := push_bit 18 1 OR push_bit 9 1 OR push_bit 10 6 OR 6,
             um_cap2 := push_bit 14 2 OR push_bit 12 1 OR push_bit 6 1 OR push_bit 3 5,
             um_cap3 := push_bit 4 1,
             um_cap5 := push_bit 4 1 OR 1\<rparr>,
          endpoints := fold (\<lambda>i eps. eps[i := reset_ep i (eps ! i)])
            [0..<unat (num_endpoints s)] (endpoints s)\<rparr>)"

fun register_endpoints ::
  "nat list \<Rightarrow> ('m, 'b) ub_state \<Rightarrow> realize_error option \<times> ('m, 'b) ub_state" where
  "register_endpoints [] s = (None, s)"
| "register_endpoints (i # is) s =
     (case linqu_ub_register_backend_endpoint i s of
        (Some e, t) \<Rightarrow> (Some e, t)
      | (None, t) \<Rightarrow> register_endpoints is t)"

text \<open>\<open>ram_ok\<close> is whether \<^verbatim>\<open>memory_region_init_ram\<close> succeeds.\<close>

definition linqu_ub_realize ::
  "'b rust_abi \<Rightarrow> bool \<Rightarrow> bool \<Rightarrow> ('m, 'b) ub_state \<Rightarrow> realize_error option \<times> ('m, 'b) ub_state" where
  "linqu_ub_realize abi calloc_ok ram_ok s =
     (if num_endpoints s = 0 \<or> LINQU_UB_MAX_ENDPOINTS < num_endpoints s then (Some Bad_num_endpoints, s)
      else if desc_bytes s \<noteq> LINQU_UB_DESC_BYTES then (Some Bad_desc_bytes, s)
      else let (err, s1) =
             (case scenario_path s of
                None \<Rightarrow> (None, s)
              | Some path \<Rightarrow>
                  (case linqu_ub_rust_bridge_new abi calloc_ok path of
                     None \<Rightarrow> (Some Bridge_new_failed, s\<lparr>rust_bridge := False\<rparr>)
                   | Some session \<Rightarrow>
                       (case linqu_ub_rust_bridge_fill_ops abi (Some session) of
                          None \<Rightarrow> (Some Fill_ops_failed, s\<lparr>rust_bridge := True\<rparr>)
                        | Some ops \<Rightarrow>
                            (None, linqu_ub_set_backend ops session (s\<lparr>rust_bridge := True\<rparr>)))))
           in if err \<noteq> None then (err, s1)
              else if \<not> ram_ok then (Some Ram_init_failed, s1)
              else register_endpoints [0..<unat (num_endpoints s)] (linqu_ub_reset s1))"

definition linqu_ub_unrealize :: "('m, 'b) ub_state \<Rightarrow> ('m, 'b) ub_state" where
  "linqu_ub_unrealize s = s\<lparr>rust_bridge := False, backend := no_backend\<rparr>"

section \<open>The device as a machine\<close>

text \<open>The invariant between two accesses.\<close>

definition dev_ok :: "('m, 'b) ub_state \<Rightarrow> bool" where
  "dev_ok s \<longleftrightarrow>
     0 < num_endpoints s \<and> num_endpoints s \<le> LINQU_UB_MAX_ENDPOINTS \<and>
     desc_bytes s = LINQU_UB_DESC_BYTES \<and> length (endpoints s) = 16 \<and>
     (\<forall>i < unat (num_endpoints s). ep_ok (ep_at s i) \<and> ep_endpoint_id (ep_at s i) = of_nat (i + 1)) \<and>
     irq_synced s"

datatype ('m, 'b) ub_event =
    Mmio_read hwaddr nat
  | Mmio_write hwaddr u64 nat
  | Device_reset
  | Environment 'm 'b

fun ub_step :: "'m dma_bus \<Rightarrow> ('m, 'b) ub_event \<Rightarrow> ('m, 'b) ub_state \<Rightarrow> ('m, 'b) ub_state option" where
  "ub_step bus (Mmio_read addr sz) s = Some (snd (linqu_ub_mmio_read addr sz s))"
| "ub_step bus (Mmio_write addr value sz) s = linqu_ub_mmio_write bus addr value sz s"
| "ub_step bus Device_reset s = Some (linqu_ub_reset s)"
| "ub_step bus (Environment m b) s = Some (s\<lparr>address_space_memory := m, opaque := b\<rparr>)"

lemma dev_ok_endpoint:
  assumes "dev_ok s" and "i < unat (num_endpoints s)"
  shows "ep_valid i s" "i < length (endpoints s)" "ep_ok (ep_at s i)"
    "ep_endpoint_id (ep_at s i) = of_nat (i + 1)"
proof -
  have "unat (num_endpoints s) \<le> 16"
    using assms(1) by (simp add: dev_ok_def word_le_nat_alt)
  with assms show "ep_valid i s" "i < length (endpoints s)" "ep_ok (ep_at s i)"
    "ep_endpoint_id (ep_at s i) = of_nat (i + 1)"
    by (simp_all add: dev_ok_def ep_valid_def)
qed

lemma dev_ok_upd_ep:
  assumes "dev_ok s" and "i < unat (num_endpoints s)"
    and "ep_ok (f (ep_at s i))" and "ep_endpoint_id (f (ep_at s i)) = ep_endpoint_id (ep_at s i)"
    and "ep_irq_status (f (ep_at s i)) = ep_irq_status (ep_at s i)"
  shows "dev_ok (upd_ep i f s)"
proof -
  have "irq_synced (upd_ep i f s)"
    using assms(1) irq_synced_upd_ep [of f s i, OF assms(5)] by (simp add: dev_ok_def)
  then show ?thesis
    using assms dev_ok_endpoint [OF assms(1,2)]
    by (auto simp: dev_ok_def upd_ep_def nth_list_update)
qed

lemma dev_ok_upd_ep_irq:
  assumes "dev_ok s" and "i < unat (num_endpoints s)"
    and "ep_ok (f (ep_at s i))" and "ep_endpoint_id (f (ep_at s i)) = ep_endpoint_id (ep_at s i)"
  shows "dev_ok (linqu_ub_update_irq (upd_ep i f s))"
  using assms dev_ok_endpoint [OF assms(1,2)] update_irq_synced [of "upd_ep i f s"]
  by (auto simp: dev_ok_def linqu_ub_update_irq_def upd_defs nth_list_update)

lemma dev_ok_set_error: "dev_ok s \<Longrightarrow> i < unat (num_endpoints s) \<Longrightarrow> dev_ok (linqu_ub_set_error i c s)"
  unfolding linqu_ub_set_error_def
  using dev_ok_endpoint [of s i] by (intro dev_ok_upd_ep_irq) (auto simp: ep_ok_def)

lemma dev_ok_ring_frame:
  assumes "dev_ok s" and "i < unat (num_endpoints s)" and "ring_frame i s t" and "ep_valid i t"
    and "irq_synced s \<Longrightarrow> irq_synced t"
  shows "dev_ok t"
proof -
  have "ep_endpoint_id (ep_at t i) = ep_endpoint_id (ep_at s i)"
    using assms(3) by (intro ep_fixed_fields(1)) (simp add: ring_frame_def)
  moreover have "ep_ok (ep_at t j) \<and> ep_endpoint_id (ep_at t j) = of_nat (j + 1)"
    if "j < unat (num_endpoints s)" for j
    using that assms calculation by (cases "j = i") (auto simp: dev_ok_def ring_frame_def ep_valid_def)
  ultimately show ?thesis
    using assms by (simp add: dev_ok_def ring_frame_def)
qed

lemma dev_ok_frame:
  assumes "dev_ok s" and "num_endpoints t = num_endpoints s" and "desc_bytes t = desc_bytes s"
    and "endpoints t = endpoints s" and "irq_synced t"
  shows "dev_ok t"
  using assms by (simp add: dev_ok_def)

lemma dev_ok_upd_msgq:
  "dev_ok s \<Longrightarrow> mq_cq_int_ro (f (msgq s)) = mq_cq_int_ro (msgq s) \<Longrightarrow>
   mq_cq_int_mask (f (msgq s)) = mq_cq_int_mask (msgq s) \<Longrightarrow> dev_ok (upd_msgq f s)"
  by (rule dev_ok_frame [of s])
    (simp_all add: upd_msgq_def irq_synced_def linqu_ub_has_pending_irq_def dev_ok_def)

lemma dev_ok_upd_msgq_irq: "dev_ok s \<Longrightarrow> dev_ok (linqu_ub_update_irq (upd_msgq f s))"
  by (rule dev_ok_frame [of s]) (simp_all, simp_all add: upd_defs linqu_ub_update_irq_def)

lemma dev_ok_update_irq: "dev_ok s \<Longrightarrow> dev_ok (linqu_ub_update_irq s)"
  by (rule dev_ok_frame [of s]) (simp_all, simp_all add: upd_defs linqu_ub_update_irq_def)

lemma dev_ok_upd_ummu: "dev_ok s \<Longrightarrow> dev_ok (upd_ummu f s)"
  by (rule dev_ok_frame [of s])
    (simp_all add: upd_ummu_def irq_synced_def linqu_ub_has_pending_irq_def dev_ok_def)

lemma get_endpoint_less:
  assumes "linqu_ub_get_endpoint s eid = Some i"
  shows "i < unat (num_endpoints s)" and "eid = of_nat (i + 1)"
proof -
  have ne: "eid \<noteq> 0" and le: "ucast eid \<le> num_endpoints s" and i: "i = unat (eid - 1)"
    using assms by (auto simp: linqu_ub_get_endpoint_def split: if_splits)
  have "unat (eid - 1) = unat eid - 1" using ne by (simp add: unat_minus_one)
  moreover have "0 < unat eid" using ne by (simp add: unat_gt_0)
  moreover have "unat (ucast eid :: u32) = unat eid"
    using unsigned_less [of eid, where ?'a = nat] by (simp add: unsigned_ucast_eq take_bit_nat_eq_self)
  ultimately show "i < unat (num_endpoints s)" and "eid = of_nat (i + 1)"
    using le i by (simp_all add: word_le_nat_alt)
qed

lemma set_error_num [simp]: "num_endpoints (linqu_ub_set_error i c s) = num_endpoints s"
  by (simp add: linqu_ub_set_error_def linqu_ub_update_irq_def upd_defs)

lemma ep_reg_read_cases:
  "snd (linqu_ub_ep_reg_read i reg s) = s \<or>
   snd (linqu_ub_ep_reg_read i reg s) = linqu_ub_set_error i LINQU_UB_ERR_INVALID_REGISTER_READ s"
  by (simp add: linqu_ub_ep_reg_read_def Let_def)

lemma ep_reg_read_ok:
  assumes "dev_ok s" and "i < unat (num_endpoints s)"
  shows "dev_ok (snd (linqu_ub_ep_reg_read i reg s))"
    and "num_endpoints (snd (linqu_ub_ep_reg_read i reg s)) = num_endpoints s"
  using ep_reg_read_cases [of i reg s] assms(1) dev_ok_set_error [OF assms]
  by (elim disjE; simp add: set_error_num)+

lemma mmio_read_ok:
  assumes "dev_ok s"
  shows "dev_ok (snd (linqu_ub_mmio_read addr sz s))"
proof -
  define P :: "u64 \<times> ('a, 'b) ub_state \<Rightarrow> bool" where "P r \<longleftrightarrow> dev_ok (snd r)" for r
  have "P (v, s)" for v using assms by (simp add: P_def)
  moreover have "P (linqu_ub_access_extract v addr sz, s1)"
    if "linqu_ub_get_endpoint s eid = Some i" "linqu_ub_ep_reg_read i reg s = (v, s1)" for eid i reg v s1
    using ep_reg_read_ok(1) [OF assms get_endpoint_less(1) [OF that(1)], of reg] that(2)
    by (simp add: P_def)
  ultimately have "P (linqu_ub_mmio_read addr sz s)"
    unfolding linqu_ub_mmio_read_def Let_def
    by (intro if_predI [where P = P] option_predI [where P = P] prod_predI [where P = P])
  then show ?thesis by (simp add: P_def)
qed


text \<open>An access returns, in a state that satisfies the invariant.\<close>

definition returns_ok :: "('m, 'b) ub_state option \<Rightarrow> bool" where
  "returns_ok r \<longleftrightarrow> (\<exists>t. r = Some t \<and> dev_ok t)"

lemma returns_okI: "dev_ok t \<Longrightarrow> returns_ok (Some t)"
  by (simp add: returns_ok_def)

lemma ep_reg_write_ok:
  assumes ok: "dev_ok s" and i: "i < unat (num_endpoints s)"
  shows "returns_ok (linqu_ub_ep_reg_write bus i reg value s)"
proof -
  note e = dev_ok_endpoint [OF ok i]
  note eo = ep_okD [OF e(3)]
  have err: "returns_ok (Some (linqu_ub_set_error i c s))" for c
    by (rule returns_okI, rule dev_ok_set_error [OF ok i])
  have iova: "returns_ok (Some (upd_ep i (\<lambda>ep. ep\<lparr>ep_cmdq_iova := f ep\<rparr>) s))"
    "returns_ok (Some (upd_ep i (\<lambda>ep. ep\<lparr>ep_cq_iova := f ep\<rparr>) s))" for f
    using e(3) by (auto intro!: returns_okI dev_ok_upd_ep [OF ok i] simp: ep_ok_def)
  have tail: "returns_ok (Some (upd_ep i (\<lambda>ep. ep\<lparr>ep_cmdq_tail := ucast value\<rparr>) s))"
    if "\<not> ucast (ep_cmdq_depth (ep_at s i)) \<le> value"
    using e(3) u32_of_below [OF that]
    by (intro returns_okI dev_ok_upd_ep [OF ok i]) (auto simp: ep_ok_def)
  have ack: "returns_ok (Some (linqu_ub_update_irq (upd_ep i (\<lambda>ep. ep\<lparr>ep_irq_status := f ep\<rparr>) s)))" for f
    using e(3) by (intro returns_okI dev_ok_upd_ep_irq [OF ok i]) (auto simp: ep_ok_def)
  have kick: "returns_ok (map_option snd (linqu_ub_kick bus i n s))" for n
    using kick_safe [OF e(1), of bus n] dev_ok_ring_frame [OF ok i]
    by (metis (no_types, lifting) option.map(2) returns_okI snd_conv)
  let ?h = "upd_ep i (\<lambda>ep. ep\<lparr>ep_cq_head := ucast value\<rparr>) s"
  have head: "dev_ok ?h" if "\<not> ucast (ep_cq_depth (ep_at s i)) \<le> value"
    using e(3) u32_of_below [OF that]
    by (intro dev_ok_upd_ep [OF ok i]) (auto simp: ep_ok_def)
  have head_irq: "returns_ok (Some (linqu_ub_update_irq (upd_ep i (\<lambda>ep. ep\<lparr>ep_irq_status := f ep\<rparr>) ?h)))"
    if "\<not> ucast (ep_cq_depth (ep_at s i)) \<le> value" for f
  proof -
    have "i < unat (num_endpoints ?h)" using i by (simp add: upd_ep_def)
    with dev_ok_endpoint [OF head [OF that] this] show ?thesis
      by (intro returns_okI dev_ok_upd_ep_irq [OF head [OF that]]) (auto simp: ep_ok_def)
  qed
  show ?thesis
    unfolding linqu_ub_ep_reg_write_def Let_def
    by (intro if_predI [where P = returns_ok] err iova tail ack kick head_irq returns_okI head) assumption+
qed

lemma msgq_reg_write_ok:
  assumes ok: "dev_ok s"
  shows "returns_ok (linqu_ub_msgq_reg_write bus reg value s)"
proof -
  have s: "returns_ok (Some s)" by (rule returns_okI [OF ok])
  have upd: "returns_ok (Some (upd_msgq f s))"
    if "\<And>q. mq_cq_int_ro (f q) = mq_cq_int_ro q" "\<And>q. mq_cq_int_mask (f q) = mq_cq_int_mask q" for f
    by (intro returns_okI dev_ok_upd_msgq ok that)
  have irq: "returns_ok (Some (linqu_ub_update_irq t))" if "dev_ok t \<or> (\<exists>f u. dev_ok u \<and> t = upd_msgq f u)" for t :: "('a,'b) ub_state"
    using that dev_ok_upd_msgq_irq dev_ok_update_irq by (auto intro!: returns_okI)
  have ring: "returns_ok (Option.bind (linqu_ub_msgq_ring_sq bus (upd_msgq (\<lambda>q. q\<lparr>mq_sq_pi := ucast value\<rparr>) s) (ucast value))
      (\<lambda>(rc, s1). Some (if rc < 0 then linqu_ub_update_irq (upd_msgq (\<lambda>q. q\<lparr>mq_cq_int_status := 1, mq_cq_int_ro := 1\<rparr>) s1) else s1)))"
    if "\<not> (mq_sq_depth (msgq s) = 0 \<or> ucast (mq_sq_depth (msgq s)) \<le> value)"
  proof -
    let ?s = "upd_msgq (\<lambda>q. q\<lparr>mq_sq_pi := ucast value\<rparr>) s"
    have ok': "dev_ok ?s" by (rule dev_ok_upd_msgq [OF ok]) simp_all
    have d: "mq_sq_depth (msgq ?s) \<noteq> 0" "(ucast value :: u32) < mq_sq_depth (msgq ?s)"
      using that u32_of_below by (auto simp: upd_msgq_def)
    obtain rc t where r: "linqu_ub_msgq_ring_sq bus ?s (ucast value) =
        Some (if rc < 0 then (-1, t) else (0, upd_msgq (\<lambda>q. q\<lparr>mq_sq_ci := ucast value\<rparr>) t))"
      and post: "ring_loop_post ?s (sq_backlog (mq_sq_depth (msgq ?s)) (mq_sq_ci (msgq ?s)) (ucast value)) (rc, t)"
      by (rule ring_sq_cases [OF d])
    have "dev_ok t"
      by (rule dev_ok_frame [OF ok'])
        (use post ok' in \<open>simp_all add: ring_loop_post_def msgq_frame_def dev_ok_def\<close>)
    then show ?thesis
      using dev_ok_upd_msgq [of t "\<lambda>q. q\<lparr>mq_sq_ci := ucast value\<rparr>"] dev_ok_upd_msgq_irq [of t]
      by (auto simp: r returns_ok_def)
  qed
  have ci: "dev_ok (upd_msgq (\<lambda>q. q\<lparr>mq_cq_ci := v\<rparr>) s)" for v
    by (rule dev_ok_upd_msgq [OF ok]) simp_all
  have cq_ci: "returns_ok (Some (linqu_ub_update_irq (if c then upd_msgq f (upd_msgq (\<lambda>q. q\<lparr>mq_cq_ci := v\<rparr>) s)
      else upd_msgq (\<lambda>q. q\<lparr>mq_cq_ci := v\<rparr>) s)))" for c f v
    by (rule irq) (use ci in auto)
  have st: "returns_ok (Some (linqu_ub_update_irq (if c then upd_msgq f s else s)))" for c f
    by (rule irq) (use ok in auto)
  have mask: "returns_ok (Some (linqu_ub_update_irq (upd_msgq f s)))" for f
    by (rule irq) (use ok in auto)
  have rst: "returns_ok (Some (if c then linqu_ub_msgq_reset s else s))" for c
    using irq [of "upd_msgq _ s"] ok s by (auto simp: linqu_ub_msgq_reset_def)
  show ?thesis
    unfolding linqu_ub_msgq_reg_write_def Let_def
    by (intro if_predI [where P = returns_ok] s cq_ci st mask rst ring upd) simp_all
qed


lemma ummu_reg_write_ok: "dev_ok s \<Longrightarrow> dev_ok (linqu_ub_ummu_reg_write reg value s)"
  unfolding linqu_ub_ummu_reg_write_def
  by (intro if_predI [where P = dev_ok] dev_ok_upd_ummu)

lemma mmio_write_ok:
  assumes ok: "dev_ok s"
  shows "returns_ok (linqu_ub_mmio_write bus addr value sz s)"
proof -
  have ep: "returns_ok (linqu_ub_ep_reg_write bus i reg x s1)"
    if "linqu_ub_get_endpoint s eid = Some i" "linqu_ub_ep_reg_read i reg' s = (v, s1)"
    for eid i reg reg' v s1 x
    using ep_reg_read_ok [OF ok get_endpoint_less(1) [OF that(1)], of reg'] that(2)
      get_endpoint_less(1) [OF that(1)] by (intro ep_reg_write_ok) simp_all
  show ?thesis
    unfolding linqu_ub_mmio_write_def Let_def
    by (intro if_predI [where P = returns_ok] option_predI [where P = returns_ok]
        prod_predI [where P = returns_ok] returns_okI ok msgq_reg_write_ok ummu_reg_write_ok ep)
qed

lemma reset_endpoints:
  assumes "n \<le> length eps"
  shows "length (fold (\<lambda>i eps. eps[i := reset_ep i (eps ! i)]) [0..<n] eps) = length eps"
    and "fold (\<lambda>i eps. eps[i := reset_ep i (eps ! i)]) [0..<n] eps ! j =
      (if j < n then reset_ep j (eps ! j) else eps ! j)"
  using assms
proof (induction n arbitrary: j)
  case 0
  { case 1 show ?case by simp next case 2 show ?case by simp }
next
  case (Suc n)
  { case 1 with Suc.IH show ?case by simp
  next
    case 2 with Suc.IH show ?case by (auto simp: nth_list_update less_Suc_eq) }
qed

text \<open>The device right after a reset.\<close>

lemma reset_ok:
  assumes "0 < num_endpoints s" and "num_endpoints s \<le> LINQU_UB_MAX_ENDPOINTS"
    and "desc_bytes s = LINQU_UB_DESC_BYTES" and "length (endpoints s) = 16"
  shows "dev_ok (linqu_ub_reset s)"
proof -
  have n: "unat (num_endpoints s) \<le> length (endpoints s)"
    using assms(2,4) by (simp add: word_le_nat_alt)
  have ep: "ep_at (linqu_ub_reset s) j = reset_ep j (ep_at s j)" if "j < unat (num_endpoints s)" for j
    using reset_endpoints(2) [OF n] that by (simp add: linqu_ub_reset_def qemu_set_irq_def)
  have fields: "num_endpoints (linqu_ub_reset s) = num_endpoints s"
    "desc_bytes (linqu_ub_reset s) = desc_bytes s" "irq (linqu_ub_reset s) = False"
    "length (endpoints (linqu_ub_reset s)) = length (endpoints s)"
    "mq_cq_int_ro (msgq (linqu_ub_reset s)) = 0"
    using reset_endpoints(1) [OF n]
    by (simp_all add: linqu_ub_reset_def qemu_set_irq_def msgq_zero_def)
  have quiet: "\<not> list_ex (\<lambda>e. ep_irq_status e \<noteq> 0)
      (take (unat (num_endpoints s)) (endpoints (linqu_ub_reset s)))"
    using ep n fields(4) by (auto simp: list_ex_iff in_set_conv_nth reset_ep_def)
  show ?thesis
    using assms fields ep quiet
    by (simp add: dev_ok_def irq_synced_def linqu_ub_has_pending_irq_def reset_ep_def ep_ok_def)
qed

lemma ub_step_ok: "dev_ok s \<Longrightarrow> returns_ok (ub_step bus e s)"
proof (cases e)
  case (Environment m b)
  assume "dev_ok s"
  moreover have "dev_ok (s\<lparr>address_space_memory := m, opaque := b\<rparr>)"
    by (rule dev_ok_frame [OF \<open>dev_ok s\<close>]) (use \<open>dev_ok s\<close> in \<open>simp_all add: dev_ok_def\<close>)
  ultimately show ?thesis using Environment by (simp add: returns_ok_def)
qed (auto simp: mmio_write_ok intro!: returns_okI mmio_read_ok reset_ok, auto simp: dev_ok_def)

interpretation ub: inv_machine "ub_step bus" dev_ok
  using ub_step_ok by unfold_locales (simp add: returns_ok_def)

lemma register_endpoint_ok:
  assumes "dev_ok s" and "i < unat (num_endpoints s)"
  shows "dev_ok (snd (linqu_ub_register_backend_endpoint i s)) \<and>
    num_endpoints (snd (linqu_ub_register_backend_endpoint i s)) = num_endpoints s"
proof -
  have o: "dev_ok (s\<lparr>opaque := b\<rparr>)" for b
    by (rule dev_ok_frame [OF assms(1)]) (use assms(1) in \<open>simp_all add: dev_ok_def\<close>)
  have seg: "dev_ok (upd_ep i (\<lambda>ep. ep\<lparr>ep_default_segment := g\<rparr>) (s\<lparr>opaque := b\<rparr>))" for g b
    using dev_ok_endpoint [OF assms] assms(2)
    by (intro dev_ok_upd_ep [OF o]) (simp_all add: ep_ok_def)
  show ?thesis
    using assms(1) o seg
    by (auto simp: linqu_ub_register_backend_endpoint_def Let_def split: option.split prod.split)
       (auto simp: upd_ep_def)
qed

lemma register_endpoints_ok:
  assumes "dev_ok s" and "\<forall>i\<in>set is. i < unat (num_endpoints s)"
  shows "dev_ok (snd (register_endpoints is s))"
  using assms
proof (induction "is" arbitrary: s)
  case (Cons i js)
  obtain e t where r: "linqu_ub_register_backend_endpoint i s = (e, t)" by fastforce
  have "dev_ok t" "num_endpoints t = num_endpoints s"
    using register_endpoint_ok [of s i] Cons.prems r by auto
  with Cons r show ?case by (cases e) auto
qed simp

end
