(* ===== verification/UB_Device.thy ===== *)
theory UB_Device
  imports UB_Mmio
begin

text \<open>
  The device as the guest sees it: accesses to one endpoint's window touch nothing else, partial
  accesses compose, and over its whole lifetime, from a successful realize through any sequence
  of accesses, resets and changes of the environment, the device answers every access and keeps
  its invariant. Two further results are about what the register file does not offer: some
  registers of the message queue cannot be reached, and a message that succeeds raises no
  interrupt.
\<close>

section \<open>Isolation\<close>

text \<open>Everything but endpoint \<open>i\<close>, the line, the session and memory is kept.\<close>

definition ep_only :: "nat \<Rightarrow> ('m, 'b) ub_state \<Rightarrow> ('m, 'b) ub_state \<Rightarrow> bool" where
  "ep_only i s t \<longleftrightarrow>
     num_endpoints t = num_endpoints s \<and> desc_bytes t = desc_bytes s \<and> backend t = backend s \<and>
     cfg_upi t = cfg_upi s \<and> cfg_th_en t = cfg_th_en s \<and> msgq t = msgq s \<and>
     decoder t = decoder s \<and> ummu t = ummu s \<and> ubios t = ubios s \<and>
     length (endpoints t) = length (endpoints s) \<and> (\<forall>j. j \<noteq> i \<longrightarrow> ep_at t j = ep_at s j)"

lemma ep_only_refl [simp]: "ep_only i s s"
  by (simp add: ep_only_def)

lemma ep_only_trans [trans]: "ep_only i s t \<Longrightarrow> ep_only i t u \<Longrightarrow> ep_only i s u"
  by (simp add: ep_only_def)

lemma ep_only_upd_ep [simp]: "ep_only i s (upd_ep i f s)"
  by (simp add: ep_only_def upd_ep_def)

lemma ep_only_irq [simp]: "ep_only i s (linqu_ub_update_irq t) = ep_only i s t"
  by (simp add: ep_only_def linqu_ub_update_irq_def qemu_set_irq_def)

lemma ring_frame_ep_only: "ring_frame i s t \<Longrightarrow> ep_only i s t"
  by (simp add: ring_frame_def ep_only_def)

lemma ep_only_set_error [simp]: "ep_only i s (linqu_ub_set_error i c s)"
  by (simp add: linqu_ub_set_error_def)

lemma ep_reg_read_only: "ep_only i s (snd (linqu_ub_ep_reg_read i reg s))"
  using ep_reg_read_cases [of i reg s] by (elim disjE) simp_all

lemma ep_reg_write_only:
  assumes "ep_valid i s" and "linqu_ub_ep_reg_write bus i reg value s = Some t"
  shows "ep_only i s t"
proof -
  define P where "P r \<longleftrightarrow> (\<exists>t. r = Some t \<and> ep_only i s t)" for r
  have P: "P (Some t)" if "ep_only i s t" for t using that by (simp add: P_def)
  have kick: "P (map_option snd (linqu_ub_kick bus i n s))" for n
    using kick_safe [OF assms(1), of bus n] ring_frame_ep_only
    by (metis (no_types, lifting) P option.map(2) snd_conv)
  have two: "ep_only i s (upd_ep i f (upd_ep i g s))" for f g
    by (rule ep_only_trans [OF ep_only_upd_ep ep_only_upd_ep])
  have "P (linqu_ub_ep_reg_write bus i reg value s)"
    unfolding linqu_ub_ep_reg_write_def Let_def
    by (intro if_predI [where P = P] kick P) (simp_all add: two)
  with assms(2) show ?thesis by (simp add: P_def)
qed

lemma mmio_write_endpoint:
  assumes "dev_ok s" and "linqu_ub_mmio_write bus addr value sz s = Some t"
    and "\<not> linqu_ub_msgq_offset_valid addr" and "linqu_ub_ummu_offset_valid addr = None"
  shows "t = s \<or> (\<exists>eid reg i. linqu_ub_decode_offset addr = Some (eid, reg) \<and>
     linqu_ub_get_endpoint s eid = Some i \<and> ep_only i s t)"
proof (cases "linqu_ub_decode_offset addr")
  case None
  with assms show ?thesis by (auto simp: linqu_ub_mmio_write_def split: if_splits)
next
  case (Some a)
  obtain eid reg where a: "a = (eid, reg)" by fastforce
  show ?thesis
  proof (cases "linqu_ub_get_endpoint s eid")
    case None
    with Some a assms show ?thesis by (auto simp: linqu_ub_mmio_write_def split: if_splits)
  next
    case g: (Some i)
    obtain v s1 where r: "linqu_ub_ep_reg_read i (reg AND NOT 0x7) s = (v, s1)" by fastforce
    have i: "i < unat (num_endpoints s)" by (rule get_endpoint_less(1) [OF g])
    have s1: "ep_only i s s1" using ep_reg_read_only [of i s "reg AND NOT 0x7"] r by simp
    have v: "ep_valid i s1"
      using ep_reg_read_ok [OF assms(1) i, of "reg AND NOT 0x7"] r dev_ok_endpoint(1) [of s1 i] i by simp
    have "linqu_ub_mmio_write bus addr value sz s =
        (if sz \<noteq> 4 \<and> sz \<noteq> 8 then Some s
         else linqu_ub_ep_reg_write bus i (reg AND NOT 0x7) (linqu_ub_access_merge v addr value sz) s1)"
      using assms(3,4) Some a g r by (simp add: linqu_ub_mmio_write_def)
    then consider "t = s" |
        "linqu_ub_ep_reg_write bus i (reg AND NOT 0x7) (linqu_ub_access_merge v addr value sz) s1 = Some t"
      using assms(2) by (cases "sz \<noteq> 4 \<and> sz \<noteq> 8") simp_all
    then show ?thesis
    proof cases
      case 2
      from ep_only_trans [OF s1 ep_reg_write_only [OF v 2]] Some a g show ?thesis by auto
    qed simp
  qed
qed

lemma endpoint_window:
  fixes addr :: hwaddr
  assumes "addr = LINQU_UB_ENDPOINT_BASE + of_nat i * LINQU_UB_ENDPOINT_STRIDE + off"
    and "i < 16" and "off < LINQU_UB_ENDPOINT_STRIDE"
  shows "linqu_ub_decode_offset addr = Some (of_nat (i + 1), off)"
    and "\<not> linqu_ub_msgq_offset_valid addr" and "linqu_ub_ummu_offset_valid addr = None"
proof -
  have off: "unat off < 256" using assms(3) by (simp add: word_less_nat_alt)
  have i: "unat (of_nat i :: u64) = i" using assms(2) by (simp add: unat_of_nat take_bit_nat_eq_self)
  have rel: "unat (addr - 0x1000) = i * 256 + unat off"
    using off assms(2) by (simp add: assms(1) unat_word_ariths i)
  have a: "unat addr = 0x1000 + i * 256 + unat off"
    using off assms(2) by (simp add: assms(1) unat_word_ariths i)
  show "\<not> linqu_ub_msgq_offset_valid addr" and "linqu_ub_ummu_offset_valid addr = None"
    using a off assms(2)
    by (auto simp: linqu_ub_msgq_offset_valid_def linqu_ub_ummu_offset_valid_def word_le_nat_alt word_less_nat_alt)
  have "(addr - 0x1000) div 0x100 = of_nat i" "(addr - 0x1000) mod 0x100 = off"
    using rel off assms(2) by (simp_all add: word_unat_eq_iff unat_div unat_mod i)
  moreover have "\<not> addr < 0x1000" using a by (simp add: word_less_nat_alt)
  moreover have "(ucast (of_nat i + 1 :: u64) :: u16) = of_nat (i + 1)"
    using assms(2) by (simp add: word_unat_eq_iff unsigned_ucast_eq take_bit_nat_eq_self unat_word_ariths i unat_of_nat)
  ultimately show "linqu_ub_decode_offset addr = Some (of_nat (i + 1), off)"
    by (simp add: linqu_ub_decode_offset_def Let_def)
qed

lemma mmio_read_endpoint:
  assumes "\<not> linqu_ub_msgq_offset_valid addr" and "linqu_ub_ummu_offset_valid addr = None"
  shows "snd (linqu_ub_mmio_read addr sz s) = s \<or> (\<exists>eid reg i. linqu_ub_decode_offset addr = Some (eid, reg) \<and>
     linqu_ub_get_endpoint s eid = Some i \<and> ep_only i s (snd (linqu_ub_mmio_read addr sz s)))"
  using assms ep_reg_read_only
  by (fastforce simp: linqu_ub_mmio_read_def Let_def case_prod_beta split: option.split)

text \<open>
  C30: endpoints are isolated: a write anywhere in the window of endpoint \<open>i\<close> returns, doorbells
  included, and neither it nor a read there changes a register of another endpoint or any of the
  message queue, the decoder, the UMMU or the firmware tables.
\<close>

theorem endpoint_isolation:
  assumes "dev_ok s" and "i < unat (num_endpoints s)" and "off < LINQU_UB_ENDPOINT_STRIDE"
  shows "\<exists>t. linqu_ub_mmio_write bus
      (LINQU_UB_ENDPOINT_BASE + of_nat i * LINQU_UB_ENDPOINT_STRIDE + off) value sz s = Some t \<and>
    (\<forall>u \<in> {t, snd (linqu_ub_mmio_read (LINQU_UB_ENDPOINT_BASE + of_nat i * LINQU_UB_ENDPOINT_STRIDE + off) sz s)}.
      (\<forall>j. j \<noteq> i \<longrightarrow> ep_at u j = ep_at s j) \<and> msgq u = msgq s \<and> decoder u = decoder s \<and>
      ummu u = ummu s \<and> ubios u = ubios s)"
proof -
  let ?addr = "LINQU_UB_ENDPOINT_BASE + of_nat i * LINQU_UB_ENDPOINT_STRIDE + off :: hwaddr"
  have i: "i < 16" using assms(1,2) by (simp add: dev_ok_def word_le_nat_alt)
  note w = endpoint_window [OF refl i assms(3)]
  obtain t where t: "linqu_ub_mmio_write bus ?addr value sz s = Some t"
    using mmio_write_ok [OF assms(1), of bus ?addr "value" sz] unfolding returns_ok_def by blast
  have "i = k" if "linqu_ub_get_endpoint s (of_nat (i + 1)) = Some k" for k
  proof -
    have "k < 16" using get_endpoint_less(1) [OF that] assms(1) by (simp add: dev_ok_def word_le_nat_alt)
    moreover have "(of_nat (i + 1) :: u16) = of_nat (k + 1)" by (rule get_endpoint_less(2) [OF that])
    then have "unat (of_nat (i + 1) :: u16) = unat (of_nat (k + 1) :: u16)" by simp
    ultimately show ?thesis using i by (simp only: unat_of_nat) (simp add: take_bit_nat_eq_self)
  qed
  then show ?thesis
    using mmio_write_endpoint [OF assms(1) t w(2,3)] mmio_read_endpoint [OF w(2,3), of sz s] w(1) t
    by (auto simp: ep_only_def)
qed


section \<open>Partial accesses\<close>

text \<open>
  a partial write followed by the same partial read gives the bits written, and a 4-byte
  write leaves the other half of the register as it was.
\<close>

lemma xor_four: "((a :: u64) XOR 4) AND 4 = 0 \<longleftrightarrow> a AND 4 \<noteq> 0"
proof -
  have b: "(w AND 4 = 0) = (\<not> bit w 2)" for w :: u64
    using and_exp_eq_0_iff_not_bit [of w 2] by simp
  have "bit (4 :: u64) 2" using b [of 4] by simp
  then show ?thesis unfolding b by (simp add: bit_xor_iff)
qed

theorem access_merge_extract:
  assumes "sz = 4 \<or> sz = 8"
  shows "linqu_ub_access_extract (linqu_ub_access_merge cur a v sz) a sz =
      (if sz = 8 then v else v AND 0xffffffff) \<and>
    (sz = 4 \<longrightarrow> linqu_ub_access_extract (linqu_ub_access_merge cur a v sz) (a XOR 4) sz =
      linqu_ub_access_extract cur (a XOR 4) sz)"
proof -
  have hi: "drop_bit 32 (cur AND 0xffffffff00000000 OR v AND 0xffffffff) = drop_bit 32 cur"
    using hi_set_lo32 [of cur v] by (simp add: set_lo32_def)
  have lo: "(cur AND 0xffffffff00000000 OR v AND 0xffffffff) AND 0xffffffff = v AND 0xffffffff"
    using lo_set_lo32 [of cur v] by (simp add: set_lo32_def)
  have hi': "drop_bit 32 (cur AND 0xffffffff OR push_bit 32 (v AND 0xffffffff)) = v AND 0xffffffff"
    using hi_set_hi32 [of cur "v AND 0xffffffff"] by (simp add: set_hi32_def and.assoc)
  have lo': "(cur AND 0xffffffff OR push_bit 32 (v AND 0xffffffff)) AND 0xffffffff = cur AND 0xffffffff"
    using lo_set_hi32 [of cur "v AND 0xffffffff"] by (simp add: set_hi32_def)
  have z: "drop_bit 32 (push_bit 32 (v AND 0xffffffff)) AND 0xffffffff = v AND 0xffffffff"
    unfolding mask_lo32 by (rule bit_word_eqI) (auto simp: bit_simps)
  show ?thesis
    using assms unfolding linqu_ub_access_extract_def linqu_ub_access_merge_def xor_four
    by (auto simp: hi hi' lo lo' z and.assoc simp del: push_bit_and)
qed

section \<open>What the guest can reach of the message queue\<close>

text \<open>The registers that stay at their reset value.\<close>

definition msgq_low :: "('m, 'b) ub_state \<Rightarrow> bool" where
  "msgq_low s \<longleftrightarrow>
     drop_bit 32 (mq_sq_iova (msgq s)) = 0 \<and> drop_bit 32 (mq_rq_iova (msgq s)) = 0 \<and>
     drop_bit 32 (mq_cq_iova (msgq s)) = 0 \<and>
     mq_rq_ci (msgq s) = 0 \<and> mq_cq_ci (msgq s) = 0 \<and> mq_rq_entry_size (msgq s) = 0"

lemma msgq_low_cong: "msgq t = msgq s \<Longrightarrow> msgq_low t = msgq_low s"
  by (simp add: msgq_low_def)

lemma msgq_reg_aligned: "take_bit 3 (linqu_ub_msgq_reg (addr AND NOT 0x7)) = 0"
proof -
  have m: "(7 :: u64) = mask 3" by (simp add: mask_eq_exp_minus_1)
  have "addr AND NOT (mask 3) = push_bit 3 (drop_bit 3 addr)"
    by (rule bit_word_eqI) (auto simp: bit_simps)
  then have "(addr AND NOT (mask 3)) - 0x200 = push_bit 3 (drop_bit 3 addr - 0x40)"
    by (simp add: push_bit_eq_mult algebra_simps)
  moreover have "take_bit 3 (ucast (push_bit 3 w) :: u32) = 0" for w :: u64
    by (rule bit_word_eqI) (auto simp: bit_simps)
  ultimately show ?thesis unfolding linqu_ub_msgq_reg_def m by simp
qed

lemma msgq_fixed_low:
  assumes "msgq_fixed (msgq t) = msgq_fixed (msgq s)"
  shows "msgq_low t = msgq_low s"
  by (simp only: msgq_low_def msgq_fixed_fields [OF assms])

lemma msgq_reg_write_low:
  assumes low: "msgq_low s" and al: "take_bit 3 reg = 0"
    and w: "linqu_ub_msgq_reg_write bus reg value s = Some t"
  shows "msgq_low t"
proof -
  define P where "P r \<longleftrightarrow> (\<forall>t. r = Some t \<longrightarrow> msgq_low t)" for r :: "('a, 'b) ub_state option"
  have no: "reg \<noteq> LINQU_UB_MSGQ_SQ_ADDR_H" "reg \<noteq> LINQU_UB_MSGQ_RQ_ADDR_H" "reg \<noteq> LINQU_UB_MSGQ_CQ_ADDR_H"
    "reg \<noteq> LINQU_UB_MSGQ_RQ_CI" "reg \<noteq> LINQU_UB_MSGQ_CQ_CI" "reg \<noteq> LINQU_UB_MSGQ_RQ_ENTRY_SIZE"
    using al by auto
  have upd: "P (Some (upd_msgq f s))"
    if "msgq_low (upd_msgq f s)" for f using that by (simp add: P_def)
  have irq: "P (Some (linqu_ub_update_irq t))" if "msgq_low t" for t :: "('a, 'b) ub_state"
    using that by (simp add: P_def msgq_low_def linqu_ub_update_irq_def qemu_set_irq_def)
  have ring: "P (Option.bind (linqu_ub_msgq_ring_sq bus (upd_msgq (\<lambda>q. q\<lparr>mq_sq_pi := ucast value\<rparr>) s) (ucast value))
      (\<lambda>(rc, s1). Some (if rc < 0 then linqu_ub_update_irq (upd_msgq (\<lambda>q. q\<lparr>mq_cq_int_status := 1, mq_cq_int_ro := 1\<rparr>) s1) else s1)))"
    if "\<not> (mq_sq_depth (msgq s) = 0 \<or> ucast (mq_sq_depth (msgq s)) \<le> value)"
  proof -
    let ?s = "upd_msgq (\<lambda>q. q\<lparr>mq_sq_pi := ucast value\<rparr>) s"
    have d: "mq_sq_depth (msgq ?s) \<noteq> 0" "(ucast value :: u32) < mq_sq_depth (msgq ?s)"
      using that u32_of_below by (auto simp: upd_msgq_def)
    obtain rc t where r: "linqu_ub_msgq_ring_sq bus ?s (ucast value) =
        Some (if rc < 0 then (-1, t) else (0, upd_msgq (\<lambda>q. q\<lparr>mq_sq_ci := ucast value\<rparr>) t))"
      and post: "ring_loop_post ?s (sq_backlog (mq_sq_depth (msgq ?s)) (mq_sq_ci (msgq ?s)) (ucast value)) (rc, t)"
      by (rule ring_sq_cases [OF d])
    have "msgq_low ?s" using low by (simp add: msgq_low_def upd_msgq_def)
    then have "msgq_low t"
      using msgq_fixed_low [of t ?s] post by (simp add: ring_loop_post_def msgq_frame_def)
    then show ?thesis
      unfolding r by (auto simp: P_def msgq_low_def upd_msgq_def linqu_ub_update_irq_def qemu_set_irq_def)
  qed
  note lowd = msgq_low_def upd_msgq_def Let_def linqu_ub_msgq_reset_def linqu_ub_update_irq_def qemu_set_irq_def
  have s: "P (Some s)" using low by (simp add: P_def)
  have rst: "P (Some (if c then linqu_ub_msgq_reset s else s))" for c
    using low by (simp add: P_def lowd)
  have "P (linqu_ub_msgq_reg_write bus reg value s)"
    unfolding linqu_ub_msgq_reg_write_def Let_def
    by (intro if_predI [where P = P] s rst ring irq upd) (use no low in \<open>simp_all add: lowd\<close>)
  with w show ?thesis by (simp add: P_def)
qed

lemma ummu_reg_write_msgq: "msgq (linqu_ub_ummu_reg_write reg v s) = msgq s"
  unfolding linqu_ub_ummu_reg_write_def
  by (intro if_predI [where P = "\<lambda>u. msgq u = msgq s"]) (simp_all add: upd_ummu_def)

lemma mmio_write_low:
  assumes ok: "dev_ok s" and low: "msgq_low s" and w: "linqu_ub_mmio_write bus addr value sz s = Some t"
  shows "msgq_low t"
proof (cases "linqu_ub_msgq_offset_valid addr")
  case True
  then show ?thesis
    using w low msgq_reg_write_low [OF low msgq_reg_aligned]
    by (cases "sz \<noteq> 4 \<and> sz \<noteq> 8") (simp_all add: linqu_ub_mmio_write_def Let_def)
next
  case False
  show ?thesis
  proof (cases "linqu_ub_ummu_offset_valid addr")
    case None
    from mmio_write_endpoint [OF ok w False this] low show ?thesis
      by (auto simp: ep_only_def msgq_low_def)
  next
    case (Some r)
    define x where "x = linqu_ub_ummu_reg_write (r AND NOT 0x3) (if sz = 4 then value AND 0xffffffff else value) s"
    have "linqu_ub_mmio_write bus addr value sz s = (if sz \<noteq> 4 \<and> sz \<noteq> 8 then Some s else Some x)"
      using False Some by (simp add: linqu_ub_mmio_write_def x_def)
    moreover have "msgq x = msgq s" unfolding x_def by (rule ummu_reg_write_msgq)
    ultimately have "msgq t = msgq s" using w by (auto split: if_splits)
    with low show ?thesis by (simp add: msgq_low_def)
  qed
qed


lemma mmio_read_msgq:
  assumes "dev_ok s"
  shows "msgq (snd (linqu_ub_mmio_read addr sz s)) = msgq s"
proof -
  define P :: "u64 \<times> ('a, 'b) ub_state \<Rightarrow> bool" where "P r \<longleftrightarrow> msgq (snd r) = msgq s" for r
  have "P (v, s)" for v by (simp add: P_def)
  moreover have "P (linqu_ub_access_extract v addr sz, s1)"
    if "linqu_ub_ep_reg_read i reg s = (v, s1)" for i reg v s1
    using ep_reg_read_only [of i s reg] that by (simp add: P_def ep_only_def)
  ultimately have "P (linqu_ub_mmio_read addr sz s)"
    unfolding linqu_ub_mmio_read_def Let_def
    by (intro if_predI [where P = P] option_predI [where P = P] prod_predI [where P = P])
  then show ?thesis by (simp add: P_def)
qed

lemma reset_low: "msgq_low (linqu_ub_reset s)"
  by (simp add: msgq_low_def linqu_ub_reset_def qemu_set_irq_def msgq_zero_def)

interpretation ub_low: inv_machine "ub_step bus" "\<lambda>s. dev_ok s \<and> msgq_low s"
proof
  fix s :: "('a, 'b) ub_state" and e
  assume ok: "dev_ok s \<and> msgq_low s"
  obtain t where t: "ub_step bus e s = Some t" "dev_ok t"
    using ub.step_inv [of s bus e] ok by blast
  have "msgq_low t"
  proof (cases e)
    case (Mmio_read addr sz)
    with t ok mmio_read_msgq [of s addr sz] show ?thesis by (auto simp: msgq_low_def)
  next
    case (Mmio_write addr v sz)
    with t ok mmio_write_low [of s bus addr v sz t] show ?thesis by simp
  next
    case Device_reset
    with t reset_low show ?thesis by auto
  next
    case (Environment m b)
    with t ok show ?thesis by (auto simp: msgq_low_def)
  qed
  with t show "\<exists>s'. ub_step bus e s = Some s' \<and> dev_ok s' \<and> msgq_low s'" by blast
qed

section \<open>The device over its lifetime\<close>

lemma realize_ok:
  assumes "linqu_ub_realize abi calloc_ok ram_ok s = (None, t)" and "length (endpoints s) = 16"
  shows "dev_ok t"
proof -
  have n: "num_endpoints s \<noteq> 0" "\<not> LINQU_UB_MAX_ENDPOINTS < num_endpoints s" "desc_bytes s = LINQU_UB_DESC_BYTES"
    using assms(1) by (auto simp: linqu_ub_realize_def split: if_splits)
  obtain s1 where s1: "register_endpoints [0..<unat (num_endpoints s)] (linqu_ub_reset s1) = (None, t)"
    and f: "num_endpoints s1 = num_endpoints s" "desc_bytes s1 = desc_bytes s" "endpoints s1 = endpoints s"
    using assms(1) n
    by (auto simp: linqu_ub_realize_def linqu_ub_set_backend_def Let_def linqu_ub_rust_bridge_fill_ops_def
        split: option.splits if_splits)
  have ok: "dev_ok (linqu_ub_reset s1)"
    using n assms(2) f by (intro reset_ok) (auto simp: word_gt_0)
  moreover have "num_endpoints (linqu_ub_reset s1) = num_endpoints s"
    using f by (simp add: linqu_ub_reset_def qemu_set_irq_def)
  ultimately show ?thesis
    using register_endpoints_ok [of "linqu_ub_reset s1" "[0..<unat (num_endpoints s)]"] s1 by simp
qed

text \<open>
  C3: once the device is realized, it answers every access in every sequence of guest accesses,
  resets and changes of memory and backend, and the invariant holds at the end: ring indices in
  range, endpoints numbered, the interrupt line equal to the pending causes.
\<close>

theorem device_runs:
  assumes "linqu_ub_realize abi calloc_ok ram_ok s = (None, t)" and "length (endpoints s) = 16"
  shows "\<exists>u. run_steps (ub_step bus) es t = Some u \<and> dev_ok u"
  by (rule ub.run_inv [OF realize_ok [OF assms]])

text \<open>
  Because an access to the message queue window is rounded down to 8 bytes, the registers at
  odd dword offsets are never written: from a reset on, whatever the guest does, the upper halves
  of the three ring addresses, both consumer indices the guest should advance and the receive
  entry size stay zero.
\<close>

theorem msgq_high_registers_unreachable:
  assumes "dev_ok s"
  shows "\<exists>t. run_steps (ub_step bus) es (linqu_ub_reset s) = Some t \<and> msgq_low t"
proof -
  have "dev_ok (linqu_ub_reset s)" using assms by (intro reset_ok) (auto simp: dev_ok_def)
  then show ?thesis using ub_low.run_inv [of "linqu_ub_reset s" bus es] reset_low by blast
qed

text \<open>
  C37: when the message queue asks for an interrupt. A write of the submission index returns. When all
  its messages succeed, a request that stood before is withdrawn (unless there was no message), and
  the queue does not ask for one; when a message fails, the queue asks for one, whatever completed
  before it. After that the line is up exactly if an endpoint has a cause pending or the queue asks
  and is not masked. So the completion of a message never raises the line: failing does.
\<close>

theorem message_interrupt_on_failure_only:
  assumes "dev_ok s" and "mq_sq_depth (msgq s) \<noteq> 0" and "v < mq_sq_depth (msgq s)"
  shows "\<exists>rc r u. linqu_ub_msgq_ring_sq bus (upd_msgq (\<lambda>q. q\<lparr>mq_sq_pi := v\<rparr>) s) v = Some (rc, r) \<and>
    linqu_ub_msgq_reg_write bus LINQU_UB_MSGQ_SQ_PI (ucast v) s = Some u \<and>
    mq_cq_int_ro (msgq u) = (if rc < 0 then 1 else if v = mq_sq_ci (msgq s) then mq_cq_int_ro (msgq s) else 0) \<and>
    mq_cq_int_status (msgq u) = (if rc < 0 \<or> v \<noteq> mq_sq_ci (msgq s) then 1 else mq_cq_int_status (msgq s)) \<and>
    (irq u \<longleftrightarrow> (\<exists>ep \<in> set (take (unat (num_endpoints u)) (endpoints u)). ep_irq_status ep \<noteq> 0) \<or>
      mq_cq_int_ro (msgq u) \<noteq> 0 \<and> mq_cq_int_mask (msgq u) = 0)"
proof -
  let ?s = "upd_msgq (\<lambda>q. q\<lparr>mq_sq_pi := v\<rparr>) s"
  let ?n = "sq_backlog (mq_sq_depth (msgq ?s)) (mq_sq_ci (msgq ?s)) v"
  have d: "mq_sq_depth (msgq ?s) \<noteq> 0" "v < mq_sq_depth (msgq ?s)"
    using assms(2,3) by (simp_all add: upd_msgq_def)
  obtain rc t where r: "linqu_ub_msgq_ring_sq bus ?s v =
      Some (if rc < 0 then (-1, t) else (0, upd_msgq (\<lambda>q. q\<lparr>mq_sq_ci := v\<rparr>) t))"
    and post: "ring_loop_post ?s ?n (rc, t)"
    by (rule ring_sq_cases [OF d])
  have n: "?n = 0 \<longleftrightarrow> v = mq_sq_ci (msgq s)"
    using ring.dist_zero_iff [OF ringI [OF d(1)] _ d(2)] d by (auto simp: sq_backlog_def upd_msgq_def)
  have p: "produced ?n (msgq ?s) (msgq t)" if "\<not> rc < 0" using post that by (auto simp: ring_loop_post_def)
  define u where "u = (if rc < 0 then linqu_ub_update_irq (upd_msgq (\<lambda>q. q\<lparr>mq_cq_int_status := 1, mq_cq_int_ro := 1\<rparr>) t)
    else upd_msgq (\<lambda>q. q\<lparr>mq_sq_ci := v\<rparr>) t)"
  have "dev_ok ?s" by (rule dev_ok_upd_msgq [OF assms(1)]) simp_all
  then have "irq_synced t" using post by (simp add: ring_loop_post_def dev_ok_def)
  then have "irq_synced u"
    by (simp add: u_def) (simp add: irq_synced_def linqu_ub_has_pending_irq_def upd_msgq_def)
  then have "irq u \<longleftrightarrow> (\<exists>ep \<in> set (take (unat (num_endpoints u)) (endpoints u)). ep_irq_status ep \<noteq> 0) \<or>
      mq_cq_int_ro (msgq u) \<noteq> 0 \<and> mq_cq_int_mask (msgq u) = 0"
    by (auto simp: irq_synced_def linqu_ub_has_pending_irq_def list_ex_iff)
  moreover have "mq_cq_int_ro (msgq u) = (if rc < 0 then 1 else if v = mq_sq_ci (msgq s) then mq_cq_int_ro (msgq s) else 0)"
    "mq_cq_int_status (msgq u) = (if rc < 0 \<or> v \<noteq> mq_sq_ci (msgq s) then 1 else mq_cq_int_status (msgq s))"
    using p n by (auto simp: u_def produced_def upd_msgq_def linqu_ub_update_irq_def qemu_set_irq_def)
  moreover have "\<not> ucast (mq_sq_depth (msgq s)) \<le> (ucast v :: u64)"
    using assms(3) by (simp add: word_le_nat_alt word_less_nat_alt not_le)
  then have "linqu_ub_msgq_reg_write bus LINQU_UB_MSGQ_SQ_PI (ucast v) s = Some u"
    using assms(2) r by (simp add: linqu_ub_msgq_reg_write_def Let_def u_def)
  ultimately show ?thesis using r
    by (intro exI [of _ "if rc < 0 then -1 else 0"] exI [of _ "if rc < 0 then t else upd_msgq (\<lambda>q. q\<lparr>mq_sq_ci := v\<rparr>) t"] exI [of _ u])
      simp
qed

end
