(* ===== verification/UB_Driver.thy ===== *)
theory UB_Driver
  imports UB_Device
begin

text \<open>
  The guest's platform driver (\<^verbatim>\<open>linqu_ub_drv.c\<close>) on top of the device model: the threaded
  interrupt handler reads and acknowledges endpoint 1 through the device's registers, the
  character device hands a snapshot to user space, and probe acquires what remove releases.

  The handler is a sequence of three steps (read, acknowledge, record), so that other accesses and
  the host can run between them. Kernel services are parameters: the result of each acquisition,
  whether a wait was interrupted, whether \<^verbatim>\<open>copy_to_user\<close> failed. Resources are kept in
  a list, the most recent first.
\<close>

section \<open>State\<close>

record linqu_ub_drv =
  event_pending :: bool
  irq_count :: u64
  last_irq_status :: u64

record linqu_ub_irq_snapshot =
  snap_irq_count :: u64
  snap_irq_status :: u64

abbreviation (input) LINQU_UB_ENDPOINT1_OFFSET :: hwaddr where "LINQU_UB_ENDPOINT1_OFFSET \<equiv> 0x1000"
abbreviation (input) EINVAL :: int where "EINVAL \<equiv> 22"
abbreviation (input) EFAULT :: int where "EFAULT \<equiv> 14"
abbreviation (input) ENOMEM :: int where "ENOMEM \<equiv> 12"

definition sizeof_snapshot :: nat where "sizeof_snapshot = 16"

section \<open>User space\<close>

text \<open>
  A read blocks while no event is pending. \<open>signal\<close> is the error of an interrupted wait;
  \<open>None\<close> as result means that the call has not returned. The snapshot is taken and the event
  consumed before it is copied out.
\<close>

datatype read_result = Blocked | Errno int | Delivered linqu_ub_irq_snapshot

definition linqu_ub_read ::
  "nat \<Rightarrow> int option \<Rightarrow> bool \<Rightarrow> linqu_ub_drv \<Rightarrow> read_result \<times> linqu_ub_drv" where
  "linqu_ub_read count signal copy_fails drv =
     (if count < sizeof_snapshot then (Errno (- EINVAL), drv)
      else if \<not> event_pending drv
      then (case signal of Some e \<Rightarrow> (Errno e, drv) | None \<Rightarrow> (Blocked, drv))
      else let snapshot = \<lparr>snap_irq_count = irq_count drv, snap_irq_status = last_irq_status drv\<rparr>;
               drv1 = drv\<lparr>event_pending := False\<rparr>
           in if copy_fails then (Errno (- EFAULT), drv1) else (Delivered snapshot, drv1))"

definition linqu_ub_poll :: "linqu_ub_drv \<Rightarrow> bool" where
  "linqu_ub_poll drv = event_pending drv"

section \<open>Interrupt handling\<close>

definition irq_thread_read :: "('m, 'b) ub_state \<Rightarrow> u64 \<times> ('m, 'b) ub_state" where
  "irq_thread_read s = linqu_ub_mmio_read (LINQU_UB_ENDPOINT1_OFFSET + LINQU_UB_REG_IRQ_STATUS) 8 s"

definition irq_thread_ack :: "'m dma_bus \<Rightarrow> u64 \<Rightarrow> ('m, 'b) ub_state \<Rightarrow> ('m, 'b) ub_state option" where
  "irq_thread_ack bus irq_status s =
     linqu_ub_mmio_write bus (LINQU_UB_ENDPOINT1_OFFSET + LINQU_UB_REG_IRQ_ACK) irq_status 8 s"

definition irq_thread_record :: "u64 \<Rightarrow> linqu_ub_drv \<Rightarrow> linqu_ub_drv" where
  "irq_thread_record irq_status drv =
     drv\<lparr>irq_count := irq_count drv + 1, last_irq_status := irq_status, event_pending := True\<rparr>"

text \<open>The handler; \<open>es\<close> is what happens to the device between the read and the acknowledgement.\<close>

definition linqu_ub_irq_thread ::
  "'m dma_bus \<Rightarrow> ('m, 'b) ub_event list \<Rightarrow> linqu_ub_drv \<times> ('m, 'b) ub_state \<Rightarrow>
   (linqu_ub_drv \<times> ('m, 'b) ub_state) option" where
  "linqu_ub_irq_thread bus es ds =
     (let (irq_status, s1) = irq_thread_read (snd ds)
      in if irq_status = 0 then Some (fst ds, s1)
         else Option.bind (run_steps (ub_step bus) es s1)
                (\<lambda>s2. Option.bind (irq_thread_ack bus irq_status s2)
                   (\<lambda>s3. Some (irq_thread_record irq_status (fst ds), s3))))"

section \<open>Probe and remove\<close>

datatype drv_resource = Chrdev_region | Cdev | Class | Device_node | Mmio_mapping | Irq_line

text \<open>\<open>r_region\<close> to \<open>r_device\<close> are the results of the four acquisitions, 0 for success.\<close>

definition linqu_ub_chrdev_init ::
  "int \<Rightarrow> int \<Rightarrow> int \<Rightarrow> int \<Rightarrow> drv_resource list \<Rightarrow> int \<times> drv_resource list" where
  "linqu_ub_chrdev_init r_region r_cdev r_class r_device held =
     (if r_region \<noteq> 0 then (r_region, held)
      else let held1 = Chrdev_region # held
           in if r_cdev \<noteq> 0 then (r_cdev, remove1 Chrdev_region held1)
              else let held2 = Cdev # held1
                   in if r_class \<noteq> 0
                      then (r_class, remove1 Chrdev_region (remove1 Cdev held2))
                      else let held3 = Class # held2
                           in if r_device \<noteq> 0
                              then (- EINVAL,
                                    remove1 Chrdev_region (remove1 Cdev (remove1 Class held3)))
                              else (0, Device_node # held3))"

definition linqu_ub_chrdev_cleanup :: "drv_resource list \<Rightarrow> drv_resource list" where
  "linqu_ub_chrdev_cleanup held =
     remove1 Chrdev_region (remove1 Cdev (remove1 Class (remove1 Device_node held)))"

text \<open>Managed (\<^verbatim>\<open>devm_\<close>) resources are released by the kernel when probe fails or the
  device goes away, so they are dropped from the list on every error path.\<close>

definition linqu_ub_probe ::
  "bool \<Rightarrow> int \<Rightarrow> int \<Rightarrow> int \<Rightarrow> int \<Rightarrow> int \<Rightarrow> int \<Rightarrow> int \<Rightarrow>
   int \<times> drv_resource list \<times> linqu_ub_drv option" where
  "linqu_ub_probe alloc_ok r_ioremap r_irq r_request r_region r_cdev r_class r_device =
     (if \<not> alloc_ok then (- ENOMEM, [], None)
      else let drv = \<lparr>event_pending = False, irq_count = 0, last_irq_status = 0\<rparr>
           in if r_ioremap \<noteq> 0 then (r_ioremap, [], None)
              else if r_irq < 0 then (r_irq, [], None)
              else if r_request \<noteq> 0 then (r_request, [], None)
              else let (ret, held) = linqu_ub_chrdev_init r_region r_cdev r_class r_device
                                       [Irq_line, Mmio_mapping]
                   in if ret \<noteq> 0
                      then (ret, filter (\<lambda>r. r \<noteq> Irq_line \<and> r \<noteq> Mmio_mapping) held, None)
                      else (0, held, Some drv))"

definition linqu_ub_remove :: "drv_resource list \<Rightarrow> drv_resource list" where
  "linqu_ub_remove held = linqu_ub_chrdev_cleanup held"

section \<open>The handler against the device\<close>

lemma ep1_decode:
  assumes "dev_ok s"
  shows "linqu_ub_get_endpoint s 1 = Some 0"
proof -
  have "\<not> num_endpoints s < 1"
    using assms by (simp add: dev_ok_def word_less_nat_alt)
  then show ?thesis by (simp add: linqu_ub_get_endpoint_def)
qed

lemma irq_thread_read_ep:
  assumes "dev_ok s"
  shows "irq_thread_read s = (ep_irq_status (ep_at s 0), s)"
  using ep1_decode [OF assms]
  by (simp add: irq_thread_read_def linqu_ub_mmio_read_def linqu_ub_msgq_offset_valid_def
      linqu_ub_ummu_offset_valid_def linqu_ub_decode_offset_def linqu_ub_ep_reg_read_def
      linqu_ub_access_extract_def)

lemma irq_thread_ack_ep:
  assumes "dev_ok s"
  shows "irq_thread_ack bus v s =
    Some (linqu_ub_update_irq (upd_ep 0 (\<lambda>ep. ep\<lparr>ep_irq_status := ep_irq_status ep AND NOT v\<rparr>) s))"
  using ep1_decode [OF assms]
  by (simp add: irq_thread_ack_def linqu_ub_mmio_write_def linqu_ub_msgq_offset_valid_def
      linqu_ub_ummu_offset_valid_def linqu_ub_decode_offset_def linqu_ub_ep_reg_read_def
      linqu_ub_ep_reg_write_def linqu_ub_access_merge_def)

lemma dev_ok_first: "dev_ok s \<Longrightarrow> 0 < unat (num_endpoints s) \<and> 0 < length (endpoints s)"
  by (auto simp: dev_ok_def word_less_nat_alt)

lemma ack_state:
  assumes "dev_ok s"
    and "t = linqu_ub_update_irq (upd_ep 0 (\<lambda>ep. ep\<lparr>ep_irq_status := ep_irq_status ep AND NOT v\<rparr>) s)"
  shows "dev_ok t" and "ep_irq_status (ep_at t 0) = ep_irq_status (ep_at s 0) AND NOT v"
    and "ep_irq_status (ep_at t 0) \<noteq> 0 \<Longrightarrow> irq t"
proof -
  note e = dev_ok_first [OF assms(1)]
  show ok: "dev_ok t"
    unfolding assms(2) using e dev_ok_endpoint(3) [OF assms(1), of 0]
    by (intro dev_ok_upd_ep_irq [OF assms(1)]) (simp_all add: ep_ok_def)
  show "ep_irq_status (ep_at t 0) = ep_irq_status (ep_at s 0) AND NOT v"
    using e by (simp add: assms(2) linqu_ub_update_irq_def upd_defs)
  assume "ep_irq_status (ep_at t 0) \<noteq> 0"
  moreover have "ep_at t 0 \<in> set (take (unat (num_endpoints t)) (endpoints t))"
    using dev_ok_first [OF ok] by (cases "endpoints t"; cases "unat (num_endpoints t)") simp_all
  ultimately show "irq t"
    using ok by (auto simp: dev_ok_def irq_synced_def linqu_ub_has_pending_irq_def list_ex_iff)
qed

text \<open>
  C34: the handler loses no interrupt. Whatever accesses and host activity come between reading the
  status and acknowledging it, the handler returns, records exactly the causes it read, and clears
  only those: a cause raised in between is still set afterwards and keeps the line asserted, so
  the handler runs again.
\<close>

theorem irq_thread_keeps_new_causes:
  assumes "dev_ok s" and "ep_irq_status (ep_at s 0) = st" and "st \<noteq> 0"
    and "run_steps (ub_step bus) es s = Some s2"
  shows "\<exists>t. linqu_ub_irq_thread bus es (drv, s) = Some (irq_thread_record st drv, t) \<and> dev_ok t \<and>
    ep_irq_status (ep_at t 0) = ep_irq_status (ep_at s2 0) AND NOT st \<and>
    (ep_irq_status (ep_at s2 0) AND NOT st \<noteq> 0 \<longrightarrow> irq t)"
proof -
  have "dev_ok s2" by (rule ub.run_inv_the [OF assms(1,4)])
  note a = ack_state [OF this refl, of st] irq_thread_ack_ep [OF this, of bus st]
  then show ?thesis
    using irq_thread_read_ep [OF assms(1)] assms(2-4) by (simp add: linqu_ub_irq_thread_def)
qed

text \<open>
  The handler serves endpoint 1 only. When endpoint 1 has no cause pending, it changes neither
  the driver nor the device; so a cause of another endpoint keeps the line asserted for good.
\<close>

theorem irq_thread_ignores_other_endpoints:
  assumes "dev_ok s" and "ep_irq_status (ep_at s 0) = 0"
    and "0 < i" and "i < unat (num_endpoints s)" and "ep_irq_status (ep_at s i) \<noteq> 0"
  shows "linqu_ub_irq_thread bus es (drv, s) = Some (drv, s) \<and> irq s"
proof -
  have "ep_at s i \<in> set (take (unat (num_endpoints s)) (endpoints s))"
    using assms(4) dev_ok_endpoint(2) [OF assms(1,4)] by (auto simp: in_set_conv_nth)
  then have "irq s"
    using assms(1,5) by (auto simp: dev_ok_def irq_synced_def linqu_ub_has_pending_irq_def list_ex_iff)
  then show ?thesis
    using irq_thread_read_ep [OF assms(1)] assms(2) by (simp add: linqu_ub_irq_thread_def)
qed

section \<open>Events and user space\<close>

text \<open>Interrupts since the last read: the handler runs once for each status in the list.\<close>

definition record_all :: "u64 list \<Rightarrow> linqu_ub_drv \<Rightarrow> linqu_ub_drv" where
  "record_all = fold irq_thread_record"

lemma record_all_state:
  "record_all sts drv =
     drv\<lparr>irq_count := irq_count drv + of_nat (length sts),
         last_irq_status := (if sts = [] then last_irq_status drv else last sts),
         event_pending := (event_pending drv \<or> sts \<noteq> [])\<rparr>"
  by (induction sts arbitrary: drv) (auto simp: record_all_def irq_thread_record_def)

text \<open>
  Interrupts coalesce: after any number of interrupts the next read returns at once, with the
  number of interrupts so far but the causes of the last one only, and consumes the event; the read
  after it blocks until the next interrupt.
\<close>

theorem read_coalesces:
  assumes "sts \<noteq> []" and "sizeof_snapshot \<le> count"
  shows "\<exists>drv'. linqu_ub_read count sig False (record_all sts drv) =
      (Delivered \<lparr>snap_irq_count = irq_count drv + of_nat (length sts), snap_irq_status = last sts\<rparr>, drv') \<and>
    \<not> linqu_ub_poll drv' \<and> fst (linqu_ub_read count None False drv') = Blocked"
  using assms by (simp add: record_all_state linqu_ub_read_def linqu_ub_poll_def Let_def)

text \<open>
  C36: probe leaks nothing: when it fails it holds no resource, and when it succeeds, remove
  releases everything but the managed mapping and interrupt, which the kernel releases.
\<close>

theorem probe_balanced:
  "let (ret, held, drv) =
     linqu_ub_probe alloc_ok r_ioremap r_irq r_request r_region r_cdev r_class r_device
   in (drv = None \<longrightarrow> held = []) \<and>
      (drv \<noteq> None \<longrightarrow> ret = 0 \<and> linqu_ub_remove held = [Irq_line, Mmio_mapping])"
  by (simp add: linqu_ub_probe_def linqu_ub_chrdev_init_def linqu_ub_remove_def
      linqu_ub_chrdev_cleanup_def Let_def)

end
