(* ===== verification/UB_Examples.thy ===== *)
theory UB_Examples
  imports UB_Driver
begin

text \<open>
  A concrete device, with flat guest RAM and a backend that echoes descriptors as completions and
  refuses those that start with \<^verbatim>\<open>0xff\<close>. Each theorem applies a theorem about the
  device to it, which shows that its hypotheses can be met.
\<close>

section \<open>A device\<close>

definition sample_ep :: ep_state where
  "sample_ep = \<lparr>ep_endpoint_id = 1, ep_entity_id = 0, ep_cmdq_iova = 0x4000, ep_cq_iova = 0x8000,
     ep_cmdq_depth = 32, ep_cq_depth = 64, ep_cmdq_head = 31, ep_cmdq_tail = 1, ep_cq_head = 0,
     ep_cq_tail = 0, ep_default_segment = 0, ep_last_error = 0, ep_irq_status = 0\<rparr>"

definition loop_submit :: "bytes list submit_op" where
  "loop_submit b eid slot = (if hd slot = 0xff then (-22, b) else (0, b @ [slot]))"

definition loop_doorbell :: "bytes list \<Rightarrow> u16 \<Rightarrow> u32 \<Rightarrow> int \<times> u32 \<times> u32 \<times> bytes list" where
  "loop_doorbell b eid n = (0, n, 0, b)"

definition loop_poll :: "bytes list poll_op" where
  "loop_poll b eid n = (case b of
     [] \<Rightarrow> (1, replicate (unat n) 0, [])
   | x # xs \<Rightarrow> (0, take (unat n) (x @ replicate (unat n) 0), xs))"

definition loop_ops :: "bytes list backend_ops" where
  "loop_ops = \<lparr>op_register_endpoint = Some (\<lambda>b _ _. (0, b)),
     op_get_default_segment = Some (\<lambda>b _. (0, 7, b)),
     op_submit_slot = Some loop_submit, op_ring_doorbell = Some loop_doorbell,
     op_poll_completion = Some loop_poll\<rparr>"

definition sample_ram :: guest_ram where
  "sample_ram = \<lparr>ram_limit = 0x100000, ram_byte = (\<lambda>a. if 0x4000 \<le> a \<and> a < 0x4040 then 0xff
       else if a = 0x10000 \<or> a = 0x10001 then 2 else 0)\<rparr>"

definition sample_dev :: "(guest_ram, bytes list) ub_state" where
  "sample_dev = \<lparr>num_endpoints = 1, desc_bytes = 64, scenario_path = None, rust_bridge = False,
     backend = loop_ops, cfg_upi = 0, cfg_th_en = 0,
     msgq = msgq_zero\<lparr>mq_sq_iova := 0x10000, mq_rq_iova := 0x20000, mq_cq_iova := 0x30000,
       mq_sq_depth := 8, mq_rq_depth := 8, mq_cq_depth := 8\<rparr>,
     decoder = decoder_zero, ummu = ummu_zero, endpoints = replicate 16 sample_ep, ubios = [],
     ubios_readonly = False, irq = False, opaque = [], address_space_memory = sample_ram\<rparr>"

lemma sample_ep_ok: "ep_ok sample_ep"
  by (simp add: sample_ep_def ep_ok_def)

lemma sample_endpoint: "ep_at sample_dev 0 = sample_ep" "0 < length (endpoints sample_dev)"
  by (simp_all add: sample_dev_def)

lemma sample_dev_ok: "dev_ok sample_dev"
  by (simp add: dev_ok_def sample_dev_def sample_ep_ok irq_synced_def linqu_ub_has_pending_irq_def
      msgq_zero_def, simp add: sample_ep_def)

theorem status_word_fields_witness:
  "ep_ok sample_ep \<and>
   status_field LINQU_UB_STATUS_CMDQ_PENDING_SHIFT 16 (linqu_ub_encode_status sample_ep) = 2"
  using status_word_fields [OF sample_ep_ok] sample_ep_ok
  by (simp add: Let_def cmdq_pending_def ring_dist_def) (simp add: sample_ep_def)

theorem endpoint_isolation_witness:
  "\<exists>t. linqu_ub_mmio_write ram_bus (LINQU_UB_ENDPOINT_BASE + of_nat 0 * LINQU_UB_ENDPOINT_STRIDE +
      LINQU_UB_REG_DOORBELL) 0 4 sample_dev = Some t \<and>
    (\<forall>u \<in> {t, snd (linqu_ub_mmio_read (LINQU_UB_ENDPOINT_BASE + of_nat 0 * LINQU_UB_ENDPOINT_STRIDE +
        LINQU_UB_REG_DOORBELL) 4 sample_dev)}.
      (\<forall>j. j \<noteq> 0 \<longrightarrow> ep_at u j = ep_at sample_dev j) \<and> msgq u = msgq sample_dev \<and>
      decoder u = decoder sample_dev \<and> ummu u = ummu sample_dev \<and> ubios u = ubios sample_dev)"
  by (rule endpoint_isolation [OF sample_dev_ok]) (simp_all add: sample_dev_def)

theorem access_merge_extract_witness:
  "linqu_ub_access_extract (linqu_ub_access_merge 0x1111111122222222 0x14 0x33 4) 0x14 4 = 0x33"
  using access_merge_extract [of 4 "0x1111111122222222" "0x14" "0x33"] by simp

theorem msgq_high_registers_unreachable_witness:
  "\<exists>t. run_steps (ub_step ram_bus) [Mmio_write 0x204 1 4] (linqu_ub_reset sample_dev) = Some t \<and> msgq_low t"
  by (rule msgq_high_registers_unreachable [OF sample_dev_ok])

lemma poll_sized_loop: "poll_sized loop_poll"
  by (auto simp: loop_poll_def poll_sized_def split: list.split)

lemma sample_ops: "op_submit_slot (backend sample_dev) = Some loop_submit"
  "op_ring_doorbell (backend sample_dev) = Some loop_doorbell"
  by (simp_all add: sample_dev_def loop_ops_def)

theorem flush_cq_appends_witness:
  "\<exists>rc t xs. linqu_ub_flush_cq ram_bus 0 (sample_dev\<lparr>opaque := [[1], [2]]\<rparr>) = Some (rc, t) \<and>
     cq_queue ram_bus t 0 = cq_queue ram_bus (sample_dev\<lparr>opaque := [[1], [2]]\<rparr>) 0 @ map Some xs \<and>
     flush_outcome loop_poll 1 64 [[1], [2]] xs (if rc = 0 then None else Some rc) (ep_at t 0) (opaque t) \<and>
     ep_irq_status (ep_at t 0) = 0 OR
       ((if xs = [] then 0 else LINQU_UB_IRQ_COMPLETION) OR
        (if rc \<noteq> 0 then LINQU_UB_IRQ_ERROR else if cq_full (ep_at t 0) then LINQU_UB_IRQ_CQ_OVERFLOW else 0)) \<and>
     irq t = linqu_ub_has_pending_irq t"
proof -
  let ?s = "sample_dev\<lparr>opaque := [[1], [2]]\<rparr>"
  have s: "op_poll_completion (backend ?s) = Some loop_poll" "0 < length (endpoints ?s)" "ep_ok (ep_at ?s 0)"
    "cq_window (ep_at ?s 0) (desc_bytes ?s)"
    using sample_ep_ok by (simp_all add: sample_dev_def cq_window_def sample_ep_def loop_ops_def)
  show ?thesis
    using flush_cq_appends [OF guest_ram.dma_memory_axioms poll_sized_loop s] 
    by (simp add: sample_dev_def sample_ep_def)
qed

theorem ring_sq_drains_witness:
  "\<exists>t. endpoints t = endpoints sample_dev \<and> opaque t = opaque sample_dev \<and>
     (linqu_ub_msgq_ring_sq ram_bus sample_dev 3 = Some (0, upd_msgq (\<lambda>q. q\<lparr>mq_sq_ci := 3\<rparr>) t) \<and>
        produced 3 (msgq sample_dev) (msgq t) \<or>
      linqu_ub_msgq_ring_sq ram_bus sample_dev 3 = Some (-1, t) \<and>
        (\<exists>k < 3. produced k (msgq sample_dev) (msgq t)))"
proof -
  have d: "mq_sq_depth (msgq sample_dev) = 8" "mq_sq_ci (msgq sample_dev) = 0"
    by (simp_all add: sample_dev_def msgq_zero_def)
  have "sq_backlog 8 0 3 = 3" by (simp add: sq_backlog_def ring_dist_def)
  with ring_sq_drains [of sample_dev 3 ram_bus] show ?thesis by (simp add: d Let_def)
qed


theorem device_runs_witness:
  "\<exists>u. run_steps (ub_step ram_bus) [Mmio_write 0x1030 40 8, Device_reset, Mmio_read 0x1070 8]
     (snd (linqu_ub_realize \<lparr>linqu_ub_bridge_new_from_yaml = (\<lambda>_. Some []),
        linqu_ub_bridge_register_endpoint = (\<lambda>b _ _. (0, b)),
        linqu_ub_bridge_get_default_segment = (\<lambda>b _. (0, 7, b)),
        linqu_ub_bridge_submit_slot = (\<lambda>b _ slot. (0, b @ [slot])),
        linqu_ub_bridge_ring_doorbell = (\<lambda>b _ n. (0, n, 0, b)),
        linqu_ub_bridge_poll_completion = (\<lambda>b _ n. (1, replicate (unat n) 0, b))\<rparr>
       True True (sample_dev\<lparr>scenario_path := Some ''s.yaml''\<rparr>))) = Some u \<and> dev_ok u"
  (is "\<exists>u. run_steps _ _ (snd ?r) = _ \<and> _")
proof -
  have "fst ?r = None"
    by (simp add: linqu_ub_realize_def linqu_ub_rust_bridge_new_def linqu_ub_rust_bridge_fill_ops_def
        linqu_ub_set_backend_def sample_dev_def linqu_ub_reset_def qemu_set_irq_def upd_ep_def
        linqu_ub_register_backend_endpoint_def linqu_ub_rust_register_endpoint_def
        linqu_ub_rust_get_default_segment_def Let_def)
  then have "?r = (None, snd ?r)" by (metis prod.collapse)
  then show ?thesis by (rule device_runs) (simp add: sample_dev_def)
qed

lemma sample_queue: "cmdq_queue ram_bus sample_dev 0 = map Some [replicate 64 0] @ Some (replicate 64 0xff) # []"
proof -
  have q: "cmdq_queue ram_bus sample_dev 0 =
      map (\<lambda>k. ram_read sample_ram (0x4000 + ucast ((ring_next 32 ^^ k) 31) * 64) 64) [0..<2]"
    by (simp add: cmdq_queue_def ring_slots_def linqu_ub_read_slot_def sample_endpoint ram_bus_def
        Let_def cmdq_pending_def ring_dist_def)
      (simp add: sample_ep_def sample_dev_def)
  show ?thesis unfolding q
    by (simp add: upt_rec ring_next_def ram_read_def sample_ram_def) code_simp
qed


lemma loop_submit_simps: "loop_submit b eid (replicate 64 0) = (0, b @ [replicate 64 0])"
  "loop_submit b eid (replicate 64 0xff) = (-22, b)"
  by (simp_all add: loop_submit_def)

theorem kick_submits_in_order_witness:
  "map_option fst (linqu_ub_kick ram_bus 0 2 sample_dev) = Some (-22)"
  unfolding kick_submits_in_order [OF sample_ops sample_endpoint(2) sample_ep_ok [folded sample_endpoint(1)]]
    sample_queue
  by (simp add: Let_def loop_submit_simps)

theorem kick_failure_keeps_queue_witness:
  "\<exists>t u. linqu_ub_kick ram_bus 0 32 sample_dev = Some (-22, t) \<and> opaque t = [replicate 64 0] \<and>
    cmdq_queue ram_bus t 0 = cmdq_queue ram_bus sample_dev 0 \<and>
    ep_cmdq_head (ep_at t 0) = ep_cmdq_head (ep_at sample_dev 0) \<and>
    ep_last_error (ep_at t 0) = LINQU_UB_ERR_INVALID_DESCRIPTOR \<and>
    linqu_ub_kick ram_bus 0 32 t = Some (-22, u) \<and> opaque u = [replicate 64 0, replicate 64 0] \<and>
    cmdq_queue ram_bus u 0 = cmdq_queue ram_bus sample_dev 0"
  by (rule kick_failure_keeps_queue [OF sample_ops sample_endpoint(2) sample_ep_ok [folded sample_endpoint(1)] sample_queue])
    (simp_all add: loop_submit_simps, simp_all add: sample_dev_def)

theorem kick_success_consumes_witness:
  "\<exists>rc t. linqu_ub_kick ram_bus 0 1 sample_dev = Some (rc, t) \<and>
    cmdq_pending (ep_at t 0) = cmdq_pending (ep_at sample_dev 0) - unat (1 :: u32) \<and>
    ep_cmdq_tail (ep_at t 0) = ep_cmdq_tail (ep_at sample_dev 0)"
  by (rule kick_success_consumes [OF sample_ops sample_endpoint(2) sample_ep_ok [folded sample_endpoint(1)],
        where b = "[replicate 64 0]" and rc = 0 and x = 1 and y = 0 and b' = "[replicate 64 0]"])
    (simp_all add: sample_queue loop_submit_simps loop_doorbell_def cmdq_pending_def ring_dist_def sample_endpoint, 
      simp_all add: sample_dev_def sample_ep_def)

theorem message_interrupt_on_failure_only_witness:
  "\<exists>rc r u. linqu_ub_msgq_ring_sq ram_bus (upd_msgq (\<lambda>q. q\<lparr>mq_sq_pi := 1\<rparr>) sample_dev) 1 = Some (rc, r) \<and>
    linqu_ub_msgq_reg_write ram_bus LINQU_UB_MSGQ_SQ_PI (ucast (1 :: u32)) sample_dev = Some u \<and>
    mq_cq_int_ro (msgq u) = (if rc < 0 then 1 else 0) \<and> mq_cq_int_status (msgq u) = 1 \<and>
    (irq u \<longleftrightarrow> (\<exists>ep \<in> set (take (unat (num_endpoints u)) (endpoints u)). ep_irq_status ep \<noteq> 0) \<or>
      mq_cq_int_ro (msgq u) \<noteq> 0 \<and> mq_cq_int_mask (msgq u) = 0)"
proof -
  have q: "mq_sq_depth (msgq sample_dev) = 8" "mq_sq_ci (msgq sample_dev) = 0"
    by (simp_all add: sample_dev_def msgq_zero_def)
  show ?thesis
    using message_interrupt_on_failure_only [OF sample_dev_ok, of 1 ram_bus] by (simp add: q cong: if_cong)
qed

definition sample_req :: bytes where
  "sample_req = replicate 31 0 @ [4] @ replicate 16 0"

theorem cfg_read_answered_witness:
  "\<exists>t rsp. linqu_ub_msgq_respond_cfg ram_bus sample_dev (msg_sqe_of []) sample_req = (0, t) \<and>
     dma_memory_read ram_bus (address_space_memory t) 0x20000 msg_packet_size = Some rsp \<and>
     pkt_seid rsp = pkt_deid sample_req \<and> pkt_deid rsp = pkt_seid sample_req \<and>
     pkt_code rsp = pkt_code sample_req OR LINQU_UB_MSG_RSP_BIT \<and>
     (0, pkt_dword rsp 8) = linqu_ub_cfg_read_dword sample_dev (pkt_dword sample_req 9) \<and>
     dma_memory_read ram_bus (address_space_memory t) 0x30000 16 =
       Some (msg_cqe_bytes \<lparr>cqe_dw0 = (sqe_dw0 (msg_sqe_of []) AND NOT (push_bit 8 0xff)) OR push_bit 8 (4 OR LINQU_UB_MSG_RSP_BIT),
         cqe_dw1 = sqe_dw1 (msg_sqe_of []), cqe_dw2 = 0, cqe_dw3 = 0\<rparr>) \<and>
     mq_rq_pi (msgq t) = 1 \<and> mq_cq_pi (msgq t) = 1"
proof -
  have q: "mq_rq_iova (msgq sample_dev) = 0x20000" "mq_cq_iova (msgq sample_dev) = 0x30000"
    "mq_rq_depth (msgq sample_dev) = 8" "mq_cq_depth (msgq sample_dev) = 8"
    "mq_rq_pi (msgq sample_dev) = 0" "mq_cq_pi (msgq sample_dev) = 0" "address_space_memory sample_dev = sample_ram"
    by (simp_all add: sample_dev_def msgq_zero_def)
  have code: "pkt_code sample_req = 4"
    by code_simp
  have "fst (linqu_ub_msgq_respond_cfg ram_bus sample_dev (msg_sqe_of []) sample_req) = 0"
    by (subst respond_cfg_read_complete)
      (simp_all add: q code msgq_complete_def linqu_ub_msgq_write_rq_packet_def
        linqu_ub_msgq_write_cqe_def ram_bus_def ram_write_def sample_ram_def cfg_rsp_packet_def Let_def)
  then obtain t where t: "linqu_ub_msgq_respond_cfg ram_bus sample_dev (msg_sqe_of []) sample_req = (0, t)"
    by (metis prod.collapse)
  from cfg_read_answered [OF guest_ram.dma_memory_axioms _ t] t show ?thesis
    by (simp add: code q msg_packet_size_def)
qed

theorem cfg_write_readback_witness:
  "linqu_ub_cfg_read_dword (snd (linqu_ub_cfg_write_dword sample_dev (LINQU_UB_DECODER_CTRL div 4) 5))
     (LINQU_UB_DECODER_CTRL div 4) = (0, 5)"
  by (rule cfg_write_readback) (simp add: cfg_rw_regs_def)

section \<open>The driver\<close>

definition sample_drv :: linqu_ub_drv where
  "sample_drv = \<lparr>event_pending = False, irq_count = 5, last_irq_status = 0\<rparr>"

theorem irq_thread_keeps_new_causes_witness:
  "\<exists>t. linqu_ub_irq_thread ram_bus [] (sample_drv, linqu_ub_set_error 0 LINQU_UB_ERR_RANGE sample_dev) =
      Some (irq_thread_record LINQU_UB_IRQ_ERROR sample_drv, t) \<and> dev_ok t \<and>
    ep_irq_status (ep_at t 0) = LINQU_UB_IRQ_ERROR AND NOT LINQU_UB_IRQ_ERROR"
proof -
  let ?s = "linqu_ub_set_error 0 LINQU_UB_ERR_RANGE sample_dev"
  have v: "ep_valid 0 sample_dev" using sample_endpoint sample_ep_ok by (simp add: ep_valid_def)
  have st: "ep_irq_status (ep_at ?s 0) = 2"
    using set_error_ep(2) [OF v] by (simp add: sample_endpoint sample_ep_def)
  have ok: "dev_ok ?s" by (rule dev_ok_set_error [OF sample_dev_ok]) (simp add: sample_dev_def)
  show ?thesis
    using irq_thread_keeps_new_causes [OF ok st, of ram_bus "[]" ?s sample_drv] st by auto
qed

theorem irq_thread_ignores_other_endpoints_witness:
  "let s = linqu_ub_set_error 1 LINQU_UB_ERR_RANGE (linqu_ub_reset (sample_dev\<lparr>num_endpoints := 2\<rparr>))
   in linqu_ub_irq_thread ram_bus [] (sample_drv, s) = Some (sample_drv, s) \<and> irq s"
proof -
  let ?r = "linqu_ub_reset (sample_dev\<lparr>num_endpoints := 2\<rparr>)"
  let ?s = "linqu_ub_set_error 1 LINQU_UB_ERR_RANGE ?r"
  have r: "dev_ok ?r" by (rule reset_ok) (simp_all add: sample_dev_def)
  have n: "num_endpoints ?r = 2" by (simp add: linqu_ub_reset_def qemu_set_irq_def)
  have ok: "dev_ok ?s" by (rule dev_ok_set_error [OF r]) (simp add: n)
  have v: "ep_valid 1 ?r" by (rule dev_ok_endpoint(1) [OF r]) (simp add: n)
  have "ep_irq_status (ep_at ?s 0) = 0"
    by (simp add: linqu_ub_set_error_def linqu_ub_update_irq_def upd_defs linqu_ub_reset_def
        sample_dev_def reset_ep_def upt_rec)
  moreover have "ep_irq_status (ep_at ?s 1) \<noteq> 0"
    using set_error_ep(2) [OF v] by (simp add: linqu_ub_reset_def qemu_set_irq_def
        sample_dev_def reset_ep_def upt_rec)
  ultimately show ?thesis
    using irq_thread_ignores_other_endpoints [OF ok, of 1 ram_bus "[]" sample_drv] by (simp add: n Let_def)
qed

theorem read_coalesces_witness:
  "\<exists>drv'. linqu_ub_read 16 None False
      (record_all [2, 1] \<lparr>event_pending = False, irq_count = 5, last_irq_status = 0\<rparr>) =
      (Delivered \<lparr>snap_irq_count = 7, snap_irq_status = 1\<rparr>, drv')"
  using read_coalesces [of "[2, 1]" 16 None "\<lparr>event_pending = False, irq_count = 5, last_irq_status = 0\<rparr>"]
  by (auto simp: sizeof_snapshot_def)

theorem probe_balanced_witness:
  "fst (snd (linqu_ub_probe True 0 40 0 0 0 (-12) 0)) = []"
  using probe_balanced [of True 0 40 0 0 0 "-12" 0]
  by (simp add: linqu_ub_probe_def linqu_ub_chrdev_init_def)

end
