(* ===== verification/RPC_Wire.thy ===== *)
theory RPC_Wire
  imports UB_Prelude
begin

text \<open>
  The wire format of the RPC demo (\<^verbatim>\<open>ub_rpc_demo.c\<close>): the decimal conversions of the C
  library it uses, building and parsing of requests and responses, the arithmetic of
  \<^verbatim>\<open>COMPUTE\<close> and the checksum of \<^verbatim>\<open>CRC32\<close>.

  C strings are lists of characters without the terminating NUL. The locale \<open>codec\<close> is what the
  client and the server rely on, a round trip for the messages they exchange; requests and
  responses are interpretations of it. The checksum loop is proved equal to the table-driven
  algorithm.
\<close>

section \<open>Characters and decimal conversion\<close>

definition code :: "char \<Rightarrow> nat" where "code c = of_char c"

definition is_digit :: "char \<Rightarrow> bool" where
  "is_digit c \<longleftrightarrow> 48 \<le> code c \<and> code c \<le> 57"

definition c_isspace :: "char \<Rightarrow> bool" where
  "c_isspace c \<longleftrightarrow> code c = 32 \<or> (9 \<le> code c \<and> code c \<le> 13)"

definition digit_char :: "nat \<Rightarrow> char" where
  "digit_char d = char_of (48 + d)"

definition digit_val :: "char \<Rightarrow> nat" where
  "digit_val c = code c - 48"

text \<open>Conversion \<open>%zu\<close>, and \<open>%d\<close> and \<open>%ld\<close>.\<close>

fun show_nat :: "nat \<Rightarrow> string" where
  "show_nat n = (if n < 10 then [digit_char n] else show_nat (n div 10) @ [digit_char (n mod 10)])"

declare show_nat.simps [simp del]

definition show_int :: "int \<Rightarrow> string" where
  "show_int i = (if i < 0 then CHR ''-'' # show_nat (nat (- i)) else show_nat (nat i))"

definition num_of :: "string \<Rightarrow> nat" where
  "num_of = foldl (\<lambda>a c. a * 10 + digit_val c) 0"

abbreviation LONG_MAX :: int where "LONG_MAX \<equiv> 2 ^ 63 - 1"
abbreviation LONG_MIN :: int where "LONG_MIN \<equiv> - (2 ^ 63)"

text \<open>\<^verbatim>\<open>strtol(s, &end, 10)\<close> with \<^verbatim>\<open>errno\<close> cleared: the value, the string at
  \<^verbatim>\<open>end\<close> (\<open>s\<close> itself where there is no number) and whether \<^verbatim>\<open>errno\<close> was set.\<close>

definition strtol :: "string \<Rightarrow> int \<times> string \<times> bool" where
  "strtol s =
     (let p = dropWhile c_isspace s;
          neg = (p \<noteq> [] \<and> hd p = CHR ''-'');
          q = (if p \<noteq> [] \<and> (hd p = CHR ''-'' \<or> hd p = CHR ''+'') then tl p else p);
          ds = takeWhile is_digit q;
          v = (if neg then - int (num_of ds) else int (num_of ds))
      in if ds = [] then (0, s, False)
         else if LONG_MAX < v then (LONG_MAX, dropWhile is_digit q, True)
         else if v < LONG_MIN then (LONG_MIN, dropWhile is_digit q, True)
         else (v, dropWhile is_digit q, False))"

section \<open>Messages\<close>

text \<open>\<^verbatim>\<open>snprintf\<close> into a buffer of \<open>n\<close> bytes keeps \<open>n - 1\<close> characters.\<close>

definition snprintf_s :: "nat \<Rightarrow> string \<Rightarrow> string" where
  "snprintf_s n s = take (n - 1) s"

text \<open>The conversions \<^verbatim>\<open>(int)val\<close> and \<^verbatim>\<open>(size_t)plen\<close>.\<close>

definition to_int :: "int \<Rightarrow> int" where
  "to_int v = sint (word_of_int v :: u32)"

definition to_size :: "int \<Rightarrow> nat" where
  "to_size v = unat (word_of_int v :: u64)"

definition rpc_build_request :: "nat \<Rightarrow> int \<Rightarrow> string \<Rightarrow> string \<Rightarrow> string option" where
  "rpc_build_request buf_len msg_id op payload =
     (let s = ''RPC:'' @ show_int msg_id @ '':'' @ op @ '':'' @ show_nat (length payload) @ '':'' @ payload
      in if buf_len \<le> length s then None else Some s)"

definition rpc_build_response :: "nat \<Rightarrow> int \<Rightarrow> string \<Rightarrow> string \<Rightarrow> string option" where
  "rpc_build_response buf_len msg_id status payload =
     (let s = ''RPC_RSP:'' @ show_int msg_id @ '':'' @ status @ '':'' @ show_nat (length payload) @ '':'' @ payload
      in if buf_len \<le> length s then None else Some s)"

record rpc_msg =
  rm_id :: int
  rm_tag :: string
  rm_plen :: nat
  rm_payload :: string

text \<open>What follows the prefix, the same in both parsers: message id, operation or status of at
  most 63 characters, payload length, payload. \<open>cap\<close> is the size of the payload buffer.\<close>

definition rpc_parse_fields :: "nat \<Rightarrow> nat \<Rightarrow> string \<Rightarrow> rpc_msg option" where
  "rpc_parse_fields tag_len cap p =
     (let (val, end1, err) = strtol p
      in if err \<or> end1 = p \<or> take 1 end1 \<noteq> '':'' then None
         else let tmp_id = to_int val; p1 = tl end1;
                  tmp_tag = take 63 (takeWhile (\<lambda>c. c \<noteq> CHR '':'') p1);
                  p2 = drop (length tmp_tag) p1
              in if take 1 p2 \<noteq> '':'' then None
                 else let p3 = tl p2; (val2, end2, err2) = strtol p3
                      in if err2 \<or> end2 = p3 \<or> take 1 end2 \<noteq> '':'' then None
                         else let plen = to_size (to_int val2); p4 = tl end2;
                                  copy0 = (if length p4 < plen then length p4 else plen);
                                  copy = (if cap \<le> copy0 then cap - 1 else copy0)
                              in Some \<lparr>rm_id = tmp_id, rm_tag = snprintf_s tag_len tmp_tag,
                                       rm_plen = plen, rm_payload = take copy p4\<rparr>)"

definition rpc_parse_request :: "nat \<Rightarrow> nat \<Rightarrow> string \<Rightarrow> rpc_msg option" where
  "rpc_parse_request op_len payload_cap pkt =
     (if take 4 pkt = ''RPC:'' then rpc_parse_fields op_len payload_cap (drop 4 pkt)
      else if length pkt < 6 \<or> take 4 (drop 2 pkt) \<noteq> ''RPC:'' then None
      else rpc_parse_fields op_len payload_cap (drop 4 (drop 2 pkt)))"

definition rpc_parse_response :: "nat \<Rightarrow> nat \<Rightarrow> string \<Rightarrow> rpc_msg option" where
  "rpc_parse_response status_len payload_cap pkt =
     (if take 8 pkt = ''RPC_RSP:'' then rpc_parse_fields status_len payload_cap (drop 8 pkt)
      else if length pkt < 10 \<or> take 8 (drop 2 pkt) \<noteq> ''RPC_RSP:'' then None
      else rpc_parse_fields status_len payload_cap (drop 8 (drop 2 pkt)))"

section \<open>Arithmetic requests\<close>

text \<open>Signed overflow, and \<^verbatim>\<open>LONG_MIN / -1\<close>, are undefined in C.\<close>

datatype compute_result = Value int | Invalid | Undefined

definition in_long :: "int \<Rightarrow> bool" where
  "in_long v \<longleftrightarrow> LONG_MIN \<le> v \<and> v \<le> LONG_MAX"

definition c_long :: "int \<Rightarrow> compute_result" where
  "c_long v = (if in_long v then Value v else Undefined)"

text \<open>C division truncates towards zero.\<close>

definition c_div :: "int \<Rightarrow> int \<Rightarrow> int" where
  "c_div a b = (if (a < 0) = (b < 0) then \<bar>a\<bar> div \<bar>b\<bar> else - (\<bar>a\<bar> div \<bar>b\<bar>))"

definition compute_eval :: "string \<Rightarrow> compute_result" where
  "compute_eval expr =
     (let p = dropWhile (\<lambda>c. c = CHR '' '' \<or> code c = 9) expr;
          (a, end1, err) = strtol p
      in if err \<or> end1 = p then Invalid
         else case dropWhile (\<lambda>c. c = CHR '' '') end1 of
           [] \<Rightarrow> Invalid
         | opc # r \<Rightarrow>
             if opc \<notin> {CHR ''+'', CHR ''-'', CHR ''*'', CHR ''/''} then Invalid
             else let p2 = dropWhile (\<lambda>c. c = CHR '' '') r; (b, end2, err2) = strtol p2
                  in if err2 \<or> end2 = p2 then Invalid
                     else if opc = CHR ''+'' then c_long (a + b)
                     else if opc = CHR ''-'' then c_long (a - b)
                     else if opc = CHR ''*'' then c_long (a * b)
                     else if b = 0 then Invalid
                     else c_long (c_div a b))"

section \<open>Checksum\<close>

definition crc_shift :: "u32 \<Rightarrow> u32" where
  "crc_shift crc = (if crc AND 1 \<noteq> 0 then drop_bit 1 crc XOR 0xedb88320 else drop_bit 1 crc)"

definition crc32_ieee :: "bytes \<Rightarrow> u32" where
  "crc32_ieee data = foldl (\<lambda>crc b. (crc_shift ^^ 8) (crc XOR ucast b)) 0xffffffff data XOR 0xffffffff"

section \<open>Decimal round trip\<close>

lemma code_char_of: "n < 256 \<Longrightarrow> code (char_of n) = n"
  by (simp add: code_def)

lemma digit_char_facts:
  assumes "d < 10"
  shows "is_digit (digit_char d)" "digit_val (digit_char d) = d"
  using assms by (simp_all add: is_digit_def digit_val_def digit_char_def code_char_of)

lemma show_nat_nonempty [simp]: "show_nat n \<noteq> []" "[] \<noteq> show_nat n"
  by (subst show_nat.simps, simp)+

lemma show_nat_digits: "\<forall>c \<in> set (show_nat n). is_digit c"
proof (induction n rule: show_nat.induct)
  case (1 n)
  then show ?case by (subst show_nat.simps) (auto simp: digit_char_facts)
qed

lemma num_of_snoc: "num_of (xs @ [c]) = num_of xs * 10 + digit_val c"
  by (simp add: num_of_def)

lemma num_of_show_nat [simp]: "num_of (show_nat n) = n"
proof (induction n rule: show_nat.induct)
  case (1 n)
  show ?case
  proof (cases "n < 10")
    case True
    then show ?thesis by (subst show_nat.simps) (simp add: num_of_def digit_char_facts)
  next
    case False
    with 1 show ?thesis
      by (subst show_nat.simps) (simp add: num_of_snoc digit_char_facts)
  qed
qed

lemma show_nat_takeWhile:
  assumes "\<not> is_digit c"
  shows "takeWhile is_digit (show_nat n @ c # r) = show_nat n"
    and "dropWhile is_digit (show_nat n @ c # r) = c # r"
  using assms show_nat_digits [of n] by (simp_all add: takeWhile_append2 dropWhile_append2)

lemma hd_show_nat: "is_digit (hd (show_nat n))"
  using show_nat_digits [of n] by simp

lemma digit_not_special: "is_digit c \<Longrightarrow> \<not> c_isspace c \<and> c \<noteq> CHR ''-'' \<and> c \<noteq> CHR ''+''"
  by (auto simp: is_digit_def c_isspace_def code_def)

lemma strtol_show_int:
  assumes "in_long i" and "\<not> is_digit c"
  shows "strtol (show_int i @ c # r) = (i, c # r, False)"
proof -
  have h: "hd (show_nat n @ xs) = hd (show_nat n)" for n xs by simp
  have d: "dropWhile c_isspace (show_nat n @ xs) = show_nat n @ xs" for n xs
    using digit_not_special [OF hd_show_nat [of n]] by (cases "show_nat n") simp_all
  have m: "\<not> c_isspace (CHR ''-'')"
    by (simp add: c_isspace_def code_def)
  show ?thesis
  proof (cases "i < 0")
    case True
    then show ?thesis
      using assms by (simp add: strtol_def show_int_def m show_nat_takeWhile Let_def in_long_def)
  next
    case False
    then show ?thesis
      using assms digit_not_special [OF hd_show_nat [of "nat i"]]
      by (simp add: strtol_def show_int_def d h show_nat_takeWhile Let_def in_long_def)
  qed
qed

lemma show_int_nat: "show_int (int n) = show_nat n"
  by (simp add: show_int_def)

lemma to_int_id: "- (2 ^ 31) \<le> i \<Longrightarrow> i < 2 ^ 31 \<Longrightarrow> to_int i = i"
  by (simp add: to_int_def signed_of_int signed_take_bit_int_eq_self)

lemma to_size_id: "n < 2 ^ 31 \<Longrightarrow> to_size (int n) = n"
  by (simp add: to_size_def unsigned_of_nat take_bit_nat_eq_self)

section \<open>Messages round trip\<close>

definition tag_ok :: "string \<Rightarrow> bool" where
  "tag_ok s \<longleftrightarrow> CHR '':'' \<notin> set s \<and> length s \<le> 63"

lemma colon_not_digit: "\<not> is_digit (CHR '':'')"
  by (simp add: is_digit_def code_def)

lemma parse_fields_built:
  assumes id: "- (2 ^ 31) \<le> i" "i < 2 ^ 31" and tag: "tag_ok tag" "length tag < tag_len"
    and pl: "length payload < cap" "length payload < 2 ^ 31"
  shows "rpc_parse_fields tag_len cap
      (show_int i @ '':'' @ tag @ '':'' @ show_nat (length payload) @ '':'' @ payload) =
    Some \<lparr>rm_id = i, rm_tag = tag, rm_plen = length payload, rm_payload = payload\<rparr>"
proof -
  have L: "in_long i" "in_long (int (length payload))"
    using id pl by (simp_all add: in_long_def)
  have s1: "strtol (show_int i @ '':'' @ xs) = (i, '':'' @ xs, False)" for xs
    using strtol_show_int [OF L(1) colon_not_digit] by simp
  have s2: "strtol (show_nat (length payload) @ '':'' @ xs) = (int (length payload), '':'' @ xs, False)" for xs
    using strtol_show_int [OF L(2) colon_not_digit] by (simp add: show_int_nat)
  have n1: "'':'' @ xs \<noteq> show_int i @ '':'' @ xs" "'':'' @ xs \<noteq> show_nat n @ '':'' @ xs" for xs n
    by (simp_all add: show_int_def)
  have "CHR '':'' \<notin> set tag" using tag by (simp add: tag_ok_def)
  then have t: "takeWhile (\<lambda>c. c \<noteq> CHR '':'') (tag @ CHR '':'' # xs) = tag" for xs
    by (subst takeWhile_append2) auto
  have t63: "take 63 tag = tag" "snprintf_s tag_len tag = tag"
    using tag by (simp_all add: tag_ok_def snprintf_s_def)
  show ?thesis
    unfolding rpc_parse_fields_def s1 Let_def prod.case
    using n1 id pl by (simp add: t t63 s2 [simplified] to_int_id to_size_id)
qed


text \<open>A codec whose messages survive encoding; what client and server exchange.\<close>

locale codec =
  fixes enc :: "'a \<Rightarrow> string option" and dec :: "string \<Rightarrow> 'a option" and ok :: "'a \<Rightarrow> bool"
  assumes dec_enc: "ok x \<Longrightarrow> enc x = Some s \<Longrightarrow> dec s = Some x"
begin

lemma enc_inj: "ok x \<Longrightarrow> ok y \<Longrightarrow> enc x = Some s \<Longrightarrow> enc y = Some s \<Longrightarrow> x = y"
  using dec_enc [of x s] dec_enc [of y s] by simp

lemma dec_enc_iff: "ok x \<Longrightarrow> ok y \<Longrightarrow> enc y = Some s \<Longrightarrow> dec s = Some x \<longleftrightarrow> x = y"
  using dec_enc [of y s] by auto

end

text \<open>The buffers of the demo: packets of 1024 bytes, operations and statuses of 64, payloads
  of 512.\<close>

definition rpc_ok :: "rpc_msg \<Rightarrow> bool" where
  "rpc_ok m \<longleftrightarrow> - (2 ^ 31) \<le> rm_id m \<and> rm_id m < 2 ^ 31 \<and> tag_ok (rm_tag m) \<and>
     length (rm_payload m) < 512 \<and> rm_plen m = length (rm_payload m)"

definition enc_request :: "rpc_msg \<Rightarrow> string option" where
  "enc_request m = rpc_build_request 1024 (rm_id m) (rm_tag m) (rm_payload m)"

definition enc_response :: "rpc_msg \<Rightarrow> string option" where
  "enc_response m = rpc_build_response 1024 (rm_id m) (rm_tag m) (rm_payload m)"

lemma rpc_ok_fields:
  assumes "rpc_ok m"
  shows "rpc_parse_fields 64 512 (show_int (rm_id m) @ '':'' @ rm_tag m @ '':'' @
      show_nat (length (rm_payload m)) @ '':'' @ rm_payload m) = Some m"
  using assms parse_fields_built [of "rm_id m" "rm_tag m" 64 "rm_payload m" 512]
  by (simp add: rpc_ok_def tag_ok_def)

interpretation request: codec enc_request "rpc_parse_request 64 512" rpc_ok
proof
  fix m s assume "rpc_ok m" and "enc_request m = Some s"
  then show "rpc_parse_request 64 512 s = Some m"
    using rpc_ok_fields [of m]
    by (auto simp: enc_request_def rpc_build_request_def rpc_parse_request_def Let_def split: if_splits)
qed

interpretation response: codec enc_response "rpc_parse_response 64 512" rpc_ok
proof
  fix m s assume "rpc_ok m" and "enc_response m = Some s"
  then show "rpc_parse_response 64 512 s = Some m"
    using rpc_ok_fields [of m]
    by (auto simp: enc_response_def rpc_build_response_def rpc_parse_response_def Let_def split: if_splits)
qed

lemma length_show_nat: "n < 10 ^ k \<Longrightarrow> 0 < k \<Longrightarrow> length (show_nat n) \<le> k"
proof (induction n arbitrary: k rule: show_nat.induct)
  case (1 n)
  show ?case
  proof (cases "n < 10")
    case True
    with 1 show ?thesis by (subst show_nat.simps) simp
  next
    case False
    then obtain k' where k: "k = Suc k'" "0 < k'"
      using 1(2,3) by (cases k; cases "k - 1") auto
    with 1(1) [OF False, of k'] 1(2) False show ?thesis by (subst show_nat.simps) auto
  qed
qed

lemma length_show_int:
  assumes "- (2 ^ 31) \<le> i" and "i < 2 ^ 31"
  shows "length (show_int i) \<le> 11"
proof -
  have "nat i < 10 ^ 10" and "nat (- i) < 10 ^ 10"
    using assms by (cases "i < 0"; simp add: nat_less_iff)+
  then show ?thesis
    using length_show_nat [of "nat i" 10] length_show_nat [of "nat (- i)" 10]
    by (simp add: show_int_def)
qed

text \<open>A response always fits its buffer.\<close>

lemma response_fits:
  assumes "- (2 ^ 31) \<le> i" and "i < 2 ^ 31" and "length status \<le> 63" and "length payload < 512"
  shows "\<exists>s. rpc_build_response 1024 i status payload = Some s"
  using assms length_show_int [OF assms(1,2)] length_show_nat [of "length payload" 3]
  by (simp add: rpc_build_response_def)

text \<open>
  C35: what the client builds the server parses back, for every message id of 32 bits, operation of
  at most 63 characters without a colon and payload of at most 511 characters: the same id,
  operation, length and payload, a payload with colons or digits included.
\<close>

theorem request_roundtrip:
  assumes "- (2 ^ 31) \<le> i" and "i < 2 ^ 31" and "tag_ok op" and "length payload < 512"
    and "rpc_build_request 1024 i op payload = Some s"
  shows "rpc_parse_request 64 512 s =
    Some \<lparr>rm_id = i, rm_tag = op, rm_plen = length payload, rm_payload = payload\<rparr>"
  using request.dec_enc [of "\<lparr>rm_id = i, rm_tag = op, rm_plen = length payload, rm_payload = payload\<rparr>" s] assms
  by (simp add: rpc_ok_def enc_request_def)

text \<open>
  a response for such values always fits its buffer, and the client parses from it what the
  server put in.
\<close>

theorem response_roundtrip:
  assumes "- (2 ^ 31) \<le> i" and "i < 2 ^ 31" and "tag_ok status" and "length payload < 512"
  shows "\<exists>s. rpc_build_response 1024 i status payload = Some s \<and>
    rpc_parse_response 64 512 s =
      Some \<lparr>rm_id = i, rm_tag = status, rm_plen = length payload, rm_payload = payload\<rparr>"
proof -
  obtain s where "rpc_build_response 1024 i status payload = Some s"
    using response_fits [OF assms(1,2) _ assms(4)] assms(3) by (auto simp: tag_ok_def)
  then show ?thesis
    using response.dec_enc [of "\<lparr>rm_id = i, rm_tag = status, rm_plen = length payload, rm_payload = payload\<rparr>" s] assms
    by (simp add: rpc_ok_def enc_response_def)
qed

section \<open>COMPUTE\<close>

lemma show_int_nonempty [simp]: "show_int i \<noteq> []" "[] \<noteq> show_int i"
  by (simp_all add: show_int_def)

lemma show_int_hd: "\<not> c_isspace (hd (show_int i)) \<and> show_int i \<noteq> []"
  using digit_not_special [OF hd_show_nat] by (auto simp: show_int_def c_isspace_def code_def)

lemma space_isspace: "c_isspace (CHR '' '')" "code c = 9 \<Longrightarrow> c_isspace c"
  by (simp_all add: c_isspace_def code_def)

lemma strtol_end:
  assumes "in_long i"
  shows "strtol (show_int i) = (i, [], False)"
proof -
  have t: "takeWhile is_digit (show_nat n) = show_nat n" "dropWhile is_digit (show_nat n) = []" for n
    using show_nat_digits [of n] by (simp_all add: takeWhile_eq_all_conv dropWhile_eq_Nil_conv)
  have d: "dropWhile c_isspace (show_nat n) = show_nat n" for n
    using digit_not_special [OF hd_show_nat [of n]] by (cases "show_nat n") simp_all
  have m: "\<not> c_isspace (CHR ''-'')" by (simp add: c_isspace_def code_def)
  show ?thesis
    using assms digit_not_special [OF hd_show_nat [of "nat i"]]
    by (cases "i < 0") (simp_all add: strtol_def show_int_def t d m Let_def in_long_def)
qed

definition c_binop :: "char \<Rightarrow> int \<Rightarrow> int \<Rightarrow> compute_result" where
  "c_binop opc a b =
     (if opc = CHR ''+'' then c_long (a + b) else if opc = CHR ''-'' then c_long (a - b)
      else if opc = CHR ''*'' then c_long (a * b)
      else if b = 0 then Invalid else c_long (c_div a b))"

text \<open>
  an arithmetic request over two longs evaluates to their sum, difference, product or quotient
  truncated towards zero; division by zero is refused; and where the exact result does not fit a
  long the code runs into undefined behaviour.
\<close>

theorem compute_eval_correct:
  assumes "in_long a" and "in_long b" and "opc \<in> {CHR ''+'', CHR ''-'', CHR ''*'', CHR ''/''}"
  shows "compute_eval (show_int a @ '' '' @ [opc] @ '' '' @ show_int b) = c_binop opc a b"
proof -
  have ns: "\<not> is_digit (CHR '' '')" by (simp add: is_digit_def code_def)
  have d: "dropWhile (\<lambda>c. c = CHR '' '' \<or> code c = 9) (show_int i @ xs) = show_int i @ xs" for i xs
    using show_int_hd [of i] space_isspace by (cases "show_int i") auto
  have d2: "dropWhile (\<lambda>c. c = CHR '' '') (show_int i) = show_int i" for i
    using show_int_hd [of i] space_isspace by (cases "show_int i") auto
  have ne: "CHR '' '' # xs \<noteq> show_int a @ CHR '' '' # xs" for xs using show_int_hd [of a] by auto
  have op: "opc \<noteq> CHR '' ''" using assms(3) by auto
  show ?thesis
    using assms(3)
    by (auto simp: compute_eval_def d strtol_show_int [OF assms(1) ns] d2 strtol_end [OF assms(2)] ne op
        Let_def c_binop_def)
qed

section \<open>CRC32\<close>

abbreviation (input) crc_poly :: u32 where "crc_poly \<equiv> 0xedb88320"

lemma crc_shift_bit: "crc_shift x = drop_bit 1 x XOR (if bit x 0 then crc_poly else 0)"
  using and_exp_eq_0_iff_not_bit [of x 0] by (simp add: crc_shift_def)

lemma crc_shift_xor: "crc_shift (a XOR b) = crc_shift a XOR crc_shift b"
proof -
  have d: "drop_bit 1 (a XOR b) = drop_bit 1 a XOR drop_bit 1 b"
    by (rule bit_word_eqI) (auto simp: bit_simps)
  show ?thesis
    unfolding crc_shift_bit d bit_xor_iff
    by (cases "bit a 0"; cases "bit b 0") (simp_all add: ac_simps xor.assoc)
qed

lemma crc_shifts_xor: "(crc_shift ^^ n) (a XOR b) = (crc_shift ^^ n) a XOR (crc_shift ^^ n) b"
  by (induction n) (simp_all add: crc_shift_xor)

lemma crc_shifts_low_zero: "take_bit n w = 0 \<Longrightarrow> (crc_shift ^^ n) w = drop_bit n w"
proof (induction n)
  case (Suc n)
  have b: "\<not> bit w k" if "k \<le> n" for k
    using Suc.prems bit_take_bit_iff [of "Suc n" w k] that by simp
  have "take_bit n w = 0"
    by (rule bit_word_eqI) (auto simp: bit_simps b)
  then show ?case
    using b [of n] Suc.IH by (simp add: crc_shift_bit bit_drop_bit_eq drop_bit_drop_bit)
qed simp

lemma crc_byte_table:
  "(crc_shift ^^ 8) w = drop_bit 8 w XOR (crc_shift ^^ 8) (w AND 0xff)"
proof -
  have m: "(0xff :: u32) = mask 8" by (simp add: mask_eq_exp_minus_1)
  have split: "w = (w AND NOT (mask 8)) XOR (w AND mask 8)"
    by (rule bit_word_eqI) (auto simp: bit_simps)
  have z: "take_bit 8 (w AND NOT (mask 8)) = 0"
    by (rule bit_word_eqI) (auto simp: bit_simps)
  have d: "drop_bit 8 (w AND NOT (mask 8)) = drop_bit 8 w"
    by (rule bit_word_eqI) (auto simp: bit_simps dest: bit_imp_le_length)
  have "(crc_shift ^^ 8) w = (crc_shift ^^ 8) ((w AND NOT (mask 8)) XOR (w AND mask 8))"
    using split by simp
  also have "\<dots> = drop_bit 8 w XOR (crc_shift ^^ 8) (w AND mask 8)"
    unfolding crc_shifts_xor crc_shifts_low_zero [OF z] d ..
  finally show ?thesis unfolding m .
qed

text \<open>The table of the byte-wise algorithm and its loop.\<close>

definition crc_table :: "u8 \<Rightarrow> u32" where
  "crc_table i = (crc_shift ^^ 8) (ucast i)"

definition crc32_table_driven :: "bytes \<Rightarrow> u32" where
  "crc32_table_driven data =
     foldl (\<lambda>crc b. drop_bit 8 crc XOR crc_table (ucast crc XOR b)) 0xffffffff data XOR 0xffffffff"

lemma crc_step_table:
  "(crc_shift ^^ 8) (crc XOR ucast b) = drop_bit 8 crc XOR crc_table (ucast crc XOR b)"
proof -
  have "drop_bit 8 (crc XOR ucast b) = drop_bit 8 crc"
    by (rule bit_word_eqI) (auto simp: bit_simps dest: bit_imp_le_length)
  moreover have "(crc XOR ucast b) AND mask 8 = ucast (ucast crc XOR b :: u8)"
    by (rule bit_word_eqI) (auto simp: bit_simps dest: bit_imp_le_length)
  moreover have "(0xff :: u32) = mask 8" by (simp add: mask_eq_exp_minus_1)
  ultimately show ?thesis
    using crc_byte_table [of "crc XOR ucast b"] by (simp only: crc_table_def)
qed

text \<open>
  The bit-by-bit checksum loop equals the table-driven algorithm, which consumes a byte per
  step, on every input.
\<close>

theorem crc32_ieee_table: "crc32_ieee data = crc32_table_driven data"
  unfolding crc32_ieee_def crc32_table_driven_def crc_step_table ..

lemma crc_shift_inj: "crc_shift a = crc_shift b \<Longrightarrow> a = b"
proof -
  assume eq: "crc_shift a = crc_shift b"
  have p: "bit crc_poly 31" by simp
  have top: "bit (crc_shift x) 31 = bit x 0" for x
    unfolding crc_shift_bit bit_xor_iff using p by (auto simp: bit_drop_bit_eq dest: bit_imp_le_length)
  then have b0: "bit a 0 = bit b 0" using eq by metis
  have dr: "drop_bit 1 x = crc_shift x XOR (if bit x 0 then crc_poly else 0)" for x
    unfolding crc_shift_bit by (simp add: xor.assoc)
  have d: "drop_bit 1 a = drop_bit 1 b" unfolding dr eq b0 ..
  show "a = b"
  proof (rule bit_word_eqI)
    fix n
    show "bit a n = bit b n"
    proof (cases n)
      case (Suc k)
      then show ?thesis using d bit_drop_bit_eq [of 1 a] bit_drop_bit_eq [of 1 b] by (auto simp: fun_eq_iff)
    qed (use b0 in simp)
  qed
qed

lemma crc_shifts_inj: "(crc_shift ^^ n) a = (crc_shift ^^ n) b \<Longrightarrow> a = b"
  by (induction n) (auto dest: crc_shift_inj)

lemma crc_fold_inj:
  "foldl (\<lambda>crc b. (crc_shift ^^ 8) (crc XOR ucast b)) c data =
   foldl (\<lambda>crc b. (crc_shift ^^ 8) (crc XOR ucast b)) d data \<Longrightarrow> c = d"
proof (induction data arbitrary: c d)
  case (Cons x xs)
  from Cons.IH [OF Cons.prems [simplified foldl.simps]]
  have "c XOR ucast x = d XOR ucast x" by (rule crc_shifts_inj)
  then have "(c XOR ucast x) XOR ucast x = (d XOR ucast x) XOR ucast x" by simp
  then show ?case by (simp add: xor.assoc)
qed simp

lemma xor_cancel: "(x :: u32) XOR k = y XOR k \<Longrightarrow> x = y"
proof -
  assume "x XOR k = y XOR k"
  then have "(x XOR k) XOR k = (y XOR k) XOR k" by simp
  then show "x = y" by (simp add: xor.assoc)
qed

text \<open>
  The checksum detects every corruption of a single byte: two payloads of equal length that
  differ in one byte have different checksums.
\<close>

theorem crc32_detects_byte_change:
  assumes "crc32_ieee (xs @ [a] @ ys) = crc32_ieee (xs @ [b] @ ys)"
  shows "a = b"
proof -
  define c where "c = foldl (\<lambda>crc b. (crc_shift ^^ 8) (crc XOR ucast b)) 0xffffffff xs"
  let ?f = "\<lambda>x. foldl (\<lambda>crc b. (crc_shift ^^ 8) (crc XOR ucast b)) x ys"
  have "?f ((crc_shift ^^ 8) (c XOR ucast a)) XOR 0xffffffff = ?f ((crc_shift ^^ 8) (c XOR ucast b)) XOR 0xffffffff"
    using assms by (simp only: crc32_ieee_def foldl_append foldl.simps c_def)
  then have "?f ((crc_shift ^^ 8) (c XOR ucast a)) = ?f ((crc_shift ^^ 8) (c XOR ucast b))"
    by (rule xor_cancel)
  then have "c XOR ucast a = c XOR ucast b"
    using crc_fold_inj crc_shifts_inj by blast
  then have "(ucast a :: u32) = ucast b"
    using xor_cancel [of "ucast a" c "ucast b"] by (simp add: xor.commute)
  then have "ucast (ucast a :: u32) = (ucast (ucast b :: u32) :: u8)" by simp
  moreover have "ucast (ucast x :: u32) = x" for x :: u8
    by (rule bit_word_eqI) (auto simp: bit_simps)
  ultimately show ?thesis by simp
qed

end
