(* ===== verification/RPC_Config.thy ===== *)
theory RPC_Config
  imports RPC_Wire
begin

text \<open>
  The configuration of the RPC demo: environment variables first, then the kernel command line,
  then the defaults of the two legacy roles. The environment, the contents of
  \<^verbatim>\<open>/proc/cmdline\<close> and the address syntax accepted by \<^verbatim>\<open>inet_pton\<close> are
  parameters. The lemmas state the order of precedence and that what is resolved is a valid
  address.
\<close>

section \<open>Sources of configuration\<close>

record host_env =
  getenv :: "string \<Rightarrow> string option"
  proc_cmdline :: "string option"
  valid_ipv4 :: "string \<Rightarrow> bool"

text \<open>\<^verbatim>\<open>read_file\<close> gives at most \<open>len - 1\<close> characters, and fails on an empty file.\<close>

definition read_file :: "nat \<Rightarrow> string option \<Rightarrow> string option" where
  "read_file len contents =
     (case contents of None \<Rightarrow> None | Some s \<Rightarrow> if take (len - 1) s = [] then None else Some (take (len - 1) s))"

text \<open>The tokens of \<^verbatim>\<open>strtok_r\<close>: the maximal runs of characters that are not delimiters.\<close>

function strtok :: "(char \<Rightarrow> bool) \<Rightarrow> string \<Rightarrow> string list" where
  "strtok delim s =
     (let s1 = dropWhile delim s
      in if s1 = [] then []
         else takeWhile (\<lambda>c. \<not> delim c) s1 # strtok delim (dropWhile (\<lambda>c. \<not> delim c) s1))"
  by pat_completeness auto

lemma strtok_rest_shorter:
  assumes "dropWhile delim s \<noteq> []"
  shows "length (dropWhile (\<lambda>c. \<not> delim c) (dropWhile delim s)) < length s"
proof -
  obtain c r where r: "dropWhile delim s = c # r" using assms by (cases "dropWhile delim s") auto
  have "\<not> delim c" using hd_dropWhile [OF assms] by (simp add: r)
  then have "length (dropWhile (\<lambda>c. \<not> delim c) (dropWhile delim s)) \<le> length r"
    by (simp add: r length_dropWhile_le)
  moreover have "length (c # r) \<le> length s" using length_dropWhile_le [of delim s] by (simp add: r)
  ultimately show ?thesis by simp
qed

termination strtok
  by (relation "measure (\<lambda>(_, s). length s)") (auto simp: strtok_rest_shorter)

declare strtok.simps [simp del]

definition cmdline_delim :: "char \<Rightarrow> bool" where
  "cmdline_delim c \<longleftrightarrow> c = CHR '' '' \<or> code c = 9 \<or> code c = 10"

definition cmdline_get_value :: "host_env \<Rightarrow> string \<Rightarrow> nat \<Rightarrow> string option" where
  "cmdline_get_value env key out_len =
     (case read_file 2048 (proc_cmdline env) of
        None \<Rightarrow> None
      | Some buf \<Rightarrow>
          (case find (\<lambda>tok. take (length key + 1) tok = key @ ''='') (strtok cmdline_delim buf) of
             None \<Rightarrow> None
           | Some tok \<Rightarrow> Some (snprintf_s out_len (drop (length key + 1) tok))))"

definition get_env_value :: "host_env \<Rightarrow> string \<Rightarrow> nat \<Rightarrow> string option" where
  "get_env_value env key out_len =
     (case getenv env key of
        None \<Rightarrow> None
      | Some v \<Rightarrow> if v = [] then None else Some (snprintf_s out_len v))"

definition get_config_value :: "host_env \<Rightarrow> string \<Rightarrow> string \<Rightarrow> nat \<Rightarrow> string option" where
  "get_config_value env env_key cmd_key out_len =
     (case get_env_value env env_key out_len of
        Some v \<Rightarrow> Some v
      | None \<Rightarrow> cmdline_get_value env cmd_key out_len)"

section \<open>Mode, addresses and call count\<close>

datatype rpc_mode = RPC_MODE_UNKNOWN | RPC_MODE_CLIENT | RPC_MODE_SERVER

definition parse_rpc_mode :: "string \<Rightarrow> rpc_mode" where
  "parse_rpc_mode v =
     (if v = ''client'' \<or> v = ''initiator'' \<or> v = ''nodeA'' then RPC_MODE_CLIENT
      else if v = ''server'' \<or> v = ''responder'' \<or> v = ''nodeB'' then RPC_MODE_SERVER
      else RPC_MODE_UNKNOWN)"

definition rpc_mode_name :: "rpc_mode \<Rightarrow> string" where
  "rpc_mode_name mode =
     (case mode of RPC_MODE_CLIENT \<Rightarrow> ''client'' | RPC_MODE_SERVER \<Rightarrow> ''server'' | _ \<Rightarrow> ''unknown'')"

definition INET_ADDRSTRLEN :: nat where "INET_ADDRSTRLEN = 16"

text \<open>The local and the peer address of a legacy role.\<close>

definition legacy_role_ipv4_defaults :: "string \<Rightarrow> (string \<times> string) option" where
  "legacy_role_ipv4_defaults role =
     (if role = ''nodeA'' then Some (''10.0.0.1'', ''10.0.0.2'')
      else if role = ''nodeB'' then Some (''10.0.0.2'', ''10.0.0.1'')
      else None)"

definition resolve_local_ipv4 :: "host_env \<Rightarrow> string \<Rightarrow> nat \<Rightarrow> string option" where
  "resolve_local_ipv4 env legacy_role local_len =
     (case (case get_config_value env ''LINQU_UB_LOCAL_IP'' ''linqu_ipourma_ipv4'' local_len of
              Some v \<Rightarrow> Some v
            | None \<Rightarrow> map_option (\<lambda>(l, _). snprintf_s local_len l) (legacy_role_ipv4_defaults legacy_role)) of
        None \<Rightarrow> None
      | Some local \<Rightarrow> if valid_ipv4 env local then Some local else None)"

definition resolve_peer_ipv4 :: "host_env \<Rightarrow> string \<Rightarrow> nat \<Rightarrow> string option" where
  "resolve_peer_ipv4 env legacy_role peer_len =
     (case (case get_config_value env ''LINQU_UB_PEER_IP'' ''linqu_ipourma_peer_ipv4'' peer_len of
              Some v \<Rightarrow> Some v
            | None \<Rightarrow> map_option (\<lambda>(_, p). snprintf_s peer_len p) (legacy_role_ipv4_defaults legacy_role)) of
        None \<Rightarrow> None
      | Some peer \<Rightarrow> if valid_ipv4 env peer then Some peer else None)"

definition get_rpc_mode :: "host_env \<Rightarrow> nat \<Rightarrow> (rpc_mode \<times> string) option" where
  "get_rpc_mode env legacy_role_len =
     (let fallback =
            (case cmdline_get_value env ''linqu_urma_dp_role'' legacy_role_len of
               None \<Rightarrow> None
             | Some role \<Rightarrow>
                 if parse_rpc_mode role = RPC_MODE_UNKNOWN then None else Some (parse_rpc_mode role, role))
      in case get_config_value env ''LINQU_RPC_MODE'' ''linqu_rpc_mode'' 32 of
           None \<Rightarrow> fallback
         | Some v \<Rightarrow>
             if parse_rpc_mode v \<noteq> RPC_MODE_UNKNOWN
             then Some (parse_rpc_mode v, snprintf_s legacy_role_len v) else fallback)"

text \<open>\<^verbatim>\<open>strtoul\<close>: a minus sign negates in the unsigned type.\<close>

definition strtoul :: "string \<Rightarrow> nat \<times> string \<times> bool" where
  "strtoul s =
     (let p = dropWhile c_isspace s;
          neg = (p \<noteq> [] \<and> hd p = CHR ''-'');
          q = (if p \<noteq> [] \<and> (hd p = CHR ''-'' \<or> hd p = CHR ''+'') then tl p else p);
          ds = takeWhile is_digit q; v = num_of ds
      in if ds = [] then (0, s, False)
         else if 2 ^ 64 \<le> v then (2 ^ 64 - 1, dropWhile is_digit q, True)
         else (if neg then (2 ^ 64 - v) mod 2 ^ 64 else v, dropWhile is_digit q, False))"

definition get_expected_call_count :: "host_env \<Rightarrow> rpc_mode \<Rightarrow> u32" where
  "get_expected_call_count env mode =
     (let value =
            (case get_env_value env ''LINQU_RPC_EXPECT_CALLS'' 32 of
               Some v \<Rightarrow> Some v
             | None \<Rightarrow> cmdline_get_value env ''linqu_rpc_expected_calls'' 32);
          default = (if mode = RPC_MODE_SERVER then 2 else 0)
      in case value of
           None \<Rightarrow> default
         | Some v \<Rightarrow>
             (case strtoul v of (parsed, rest, err) \<Rightarrow>
                if \<not> err \<and> rest \<noteq> v \<and> rest = [] \<and> parsed \<le> 2 ^ 32 - 1
                then of_nat parsed else default))"

section \<open>Precedence\<close>

lemma config_prefers_env:
  "getenv env k = Some v \<Longrightarrow> v \<noteq> [] \<Longrightarrow> get_config_value env k ck n = Some (snprintf_s n v)"
  by (simp add: get_config_value_def get_env_value_def)

lemma resolve_valid:
  "resolve_local_ipv4 env role n = Some a \<Longrightarrow> valid_ipv4 env a"
  "resolve_peer_ipv4 env role n = Some a \<Longrightarrow> valid_ipv4 env a"
  by (auto simp: resolve_local_ipv4_def resolve_peer_ipv4_def split: option.splits if_splits)

text \<open>
  the two legacy roles are configured for each other: with nothing else configured and their
  default addresses accepted, each node's peer is the other node's local address, and one is the
  client and the other the server.
\<close>

theorem legacy_roles_meet:
  assumes "getenv env = (\<lambda>_. None)" and "proc_cmdline env = None"
    and "valid_ipv4 env ''10.0.0.1''" and "valid_ipv4 env ''10.0.0.2''"
  shows "resolve_local_ipv4 env ''nodeA'' INET_ADDRSTRLEN = resolve_peer_ipv4 env ''nodeB'' INET_ADDRSTRLEN \<and>
    resolve_peer_ipv4 env ''nodeA'' INET_ADDRSTRLEN = resolve_local_ipv4 env ''nodeB'' INET_ADDRSTRLEN \<and>
    resolve_peer_ipv4 env ''nodeA'' INET_ADDRSTRLEN \<noteq> None \<and>
    parse_rpc_mode ''nodeA'' = RPC_MODE_CLIENT \<and> parse_rpc_mode ''nodeB'' = RPC_MODE_SERVER"
  using assms
  by (simp add: resolve_local_ipv4_def resolve_peer_ipv4_def get_config_value_def get_env_value_def
      cmdline_get_value_def read_file_def legacy_role_ipv4_defaults_def parse_rpc_mode_def
      snprintf_s_def INET_ADDRSTRLEN_def)

lemma strtoul_show_nat:
  assumes "n < 2 ^ 64"
  shows "strtoul (show_nat n) = (n, [], False)"
proof -
  have t: "takeWhile is_digit (show_nat n) = show_nat n" "dropWhile is_digit (show_nat n) = []"
    using show_nat_digits [of n] by (simp_all add: takeWhile_eq_all_conv dropWhile_eq_Nil_conv)
  have d: "dropWhile c_isspace (show_nat n) = show_nat n"
    using digit_not_special [OF hd_show_nat [of n]] by (cases "show_nat n") simp_all
  show ?thesis
    using assms digit_not_special [OF hd_show_nat [of n]] by (simp add: strtoul_def t d Let_def)
qed

text \<open>
  a decimal number in the environment that fits an unsigned int is the expected number of
  calls; one that does not leaves the default, two calls for a server and no limit for a client.
\<close>

theorem expected_calls_from_env:
  assumes "getenv env ''LINQU_RPC_EXPECT_CALLS'' = Some (show_nat n)" and "n < 2 ^ 64"
  shows "get_expected_call_count env mode =
    (if n < 2 ^ 32 then of_nat n else if mode = RPC_MODE_SERVER then 2 else 0)"
proof -
  have "length (show_nat n) \<le> 20" using assms(2) length_show_nat [of n 20] by simp
  then have "get_env_value env ''LINQU_RPC_EXPECT_CALLS'' 32 = Some (show_nat n)"
    using assms(1) by (simp add: get_env_value_def snprintf_s_def)
  then show ?thesis
    using strtoul_show_nat [OF assms(2)] by (auto simp: get_expected_call_count_def Let_def)
qed

end
