(* ===== verification/RPC_Server.thy ===== *)
theory RPC_Server
  imports RPC_Config
begin

text \<open>
  The two sides of the RPC demo. The server answers each datagram it can parse, remembers the
  reply under (peer, message id, operation) in a table of 256 entries and answers a repeated
  request from the table; the client sends a request up to ten times until a matching response
  arrives.

  The locale \<open>reply_cache\<close> is the contract between the server and its table: at-most-once
  execution is proved from it, and the table of the code is its interpretation. Sockets, the clock
  and \<^verbatim>\<open>/proc/meminfo\<close> appear as the sequence of events a run sees; undefined arithmetic
  in a request is the result \<open>None\<close>.
\<close>

section \<open>The table of replies\<close>

definition RPC_SERVER_MAX_SEEN :: nat where "RPC_SERVER_MAX_SEEN = 256"

record rpc_seen_entry =
  se_valid :: bool
  se_peer_ip :: string
  se_msg_id :: int
  se_op :: string
  se_rsp_payload :: string

text \<open>The scan for the entry of a request: the slot (a match, or else the first free one) and
  whether it is a match.\<close>

fun seen_scan ::
  "int \<Rightarrow> string \<Rightarrow> string \<Rightarrow> nat \<Rightarrow> nat option \<Rightarrow> rpc_seen_entry list \<Rightarrow> nat option \<times> bool" where
  "seen_scan msg_id peer_ip op i slot [] = (slot, False)"
| "seen_scan msg_id peer_ip op i slot (e # es) =
     (if \<not> se_valid e
      then seen_scan msg_id peer_ip op (Suc i) (if slot = None then Some i else slot) es
      else if se_msg_id e = msg_id \<and> se_peer_ip e = peer_ip \<and> se_op e = op then (Some i, True)
      else seen_scan msg_id peer_ip op (Suc i) slot es)"

definition seen_record ::
  "string \<Rightarrow> int \<Rightarrow> string \<Rightarrow> string \<Rightarrow> rpc_seen_entry" where
  "seen_record peer_ip msg_id op rsp_payload =
     \<lparr>se_valid = True, se_peer_ip = snprintf_s INET_ADDRSTRLEN peer_ip, se_msg_id = msg_id,
      se_op = snprintf_s 64 op, se_rsp_payload = snprintf_s 512 rsp_payload\<rparr>"

section \<open>Operations\<close>

definition hex_digit :: "nat \<Rightarrow> char" where
  "hex_digit d = (if d < 10 then char_of (48 + d) else char_of (87 + d))"

text \<open>\<^verbatim>\<open>0x%08x\<close>.\<close>

definition show_hex32 :: "u32 \<Rightarrow> string" where
  "show_hex32 w = ''0x'' @ map (\<lambda>i. hex_digit (unat (drop_bit (4 * i) w AND 0xf))) [7, 6, 5, 4, 3, 2, 1, 0]"

definition atol :: "string \<Rightarrow> int" where
  "atol s = fst (strtol s)"

definition read_meminfo :: "string option \<Rightarrow> nat \<Rightarrow> string option" where
  "read_meminfo contents out_len =
     (case read_file 1024 contents of
        None \<Rightarrow> None
      | Some buf \<Rightarrow>
          let (memtotal, memfree) =
                foldl (\<lambda>(t, f) line.
                         if take 9 line = ''MemTotal:'' then (atol (drop 9 line), f)
                         else if take 8 line = ''MemFree:'' then (t, atol (drop 8 line))
                         else (t, f))
                  (-1, -1) (strtok (\<lambda>c. code c = 10) buf)
          in if memtotal < 0 \<or> memfree < 0 then None
             else Some (snprintf_s out_len (''MemTotal:'' @ show_int memtotal @ '' MemFree:'' @ show_int memfree)))"

record packet_env =
  pe_now_ms :: int
  pe_meminfo :: "string option"

text \<open>The payload of the reply to a new request; \<open>None\<close> where the arithmetic is undefined.\<close>

definition rpc_execute ::
  "packet_env \<Rightarrow> int \<Rightarrow> u32 \<Rightarrow> string \<Rightarrow> string \<Rightarrow> string option" where
  "rpc_execute env start_ms rpc_count req_op req_payload =
     (if req_op = ''ECHO'' then Some (snprintf_s 512 req_payload)
      else if req_op = ''CRC32''
      then Some (snprintf_s 512 (show_hex32 (crc32_ieee (str_bytes req_payload))))
      else if req_op = ''COMPUTE''
      then (case compute_eval req_payload of
              Value v \<Rightarrow> Some (snprintf_s 512 (show_int v))
            | Invalid \<Rightarrow> Some (snprintf_s 512 ''ERR'')
            | Undefined \<Rightarrow> None)
      else if req_op = ''STATUS''
      then Some (snprintf_s 512 (''rpcs:'' @ show_nat (unat rpc_count) @ '' uptime:'' @
                   show_int (c_div (pe_now_ms env - start_ms) 1000) @ ''s''))
      else if req_op = ''MEMINFO''
      then (case read_meminfo (pe_meminfo env) 512 of
              Some m \<Rightarrow> Some m | None \<Rightarrow> Some (snprintf_s 512 ''ERR''))
      else Some (snprintf_s 512 ''UNKNOWN_OP''))"

section \<open>The server\<close>

record rpc_server =
  sv_seen :: "rpc_seen_entry list"
  sv_count :: u32
  sv_start_ms :: int

definition free_entry :: rpc_seen_entry where
  "free_entry = \<lparr>se_valid = False, se_peer_ip = [], se_msg_id = 0, se_op = [], se_rsp_payload = []\<rparr>"

definition server_init :: "int \<Rightarrow> rpc_server" where
  "server_init now = \<lparr>sv_seen = replicate RPC_SERVER_MAX_SEEN free_entry, sv_count = 0, sv_start_ms = now\<rparr>"

text \<open>The C string in a buffer.\<close>

definition c_string :: "string \<Rightarrow> string" where
  "c_string buf = takeWhile (\<lambda>c. code c \<noteq> 0) buf"

text \<open>One datagram: the datagram sent back, whether the expected number of calls is reached, and
  the server afterwards.\<close>

definition rpc_server_handle ::
  "u32 \<Rightarrow> packet_env \<Rightarrow> string \<Rightarrow> string \<Rightarrow> rpc_server \<Rightarrow> (string option \<times> bool \<times> rpc_server) option" where
  "rpc_server_handle expected_calls env peer_ip buf sv =
     (case rpc_parse_request 64 512 (c_string (take 1023 buf)) of
        None \<Rightarrow> Some (None, False, sv)
      | Some req \<Rightarrow>
          (case seen_scan (rm_id req) peer_ip (rm_tag req) 0 None (sv_seen sv) of
             (slot, duplicate) \<Rightarrow>
               if duplicate
               then Some (rpc_build_response 1024 (rm_id req) ''OK''
                            (snprintf_s 512 (se_rsp_payload (sv_seen sv ! the slot))), False, sv)
               else (case rpc_execute env (sv_start_ms sv) (sv_count sv) (rm_tag req) (rm_payload req) of
                       None \<Rightarrow> None
                     | Some rsp_payload \<Rightarrow>
                         let seen' = (case slot of
                               None \<Rightarrow> sv_seen sv
                             | Some i \<Rightarrow> (sv_seen sv)[i := seen_record peer_ip (rm_id req) (rm_tag req) rsp_payload]);
                             count' = sv_count sv + 1
                         in Some (rpc_build_response 1024 (rm_id req) ''OK'' rsp_payload,
                                  0 < expected_calls \<and> expected_calls \<le> count',
                                  sv\<lparr>sv_seen := seen', sv_count := count'\<rparr>))))"

datatype net_event =
    Alarm
  | No_data
  | Recv_error
  | Datagram packet_env string string

text \<open>The loop over what the socket and the alarm deliver: the exit status (\<open>None\<close> while the
  server still runs at the end of the events), the datagrams sent, the server.\<close>

fun run_rpc_server ::
  "u32 \<Rightarrow> net_event list \<Rightarrow> rpc_server \<Rightarrow> (int option \<times> string list \<times> rpc_server) option" where
  "run_rpc_server expected_calls [] sv = Some (None, [], sv)"
| "run_rpc_server expected_calls (Alarm # es) sv = Some (Some 1, [], sv)"
| "run_rpc_server expected_calls (No_data # es) sv = run_rpc_server expected_calls es sv"
| "run_rpc_server expected_calls (Recv_error # es) sv = Some (Some 1, [], sv)"
| "run_rpc_server expected_calls (Datagram env peer_ip buf # es) sv =
     (case rpc_server_handle expected_calls env peer_ip buf sv of
        None \<Rightarrow> None
      | Some (rsp, stop, sv1) \<Rightarrow>
          let out = (case rsp of None \<Rightarrow> [] | Some r \<Rightarrow> [r])
          in if stop then Some (Some 0, out, sv1)
             else map_option (\<lambda>(rc, sent, sv2). (rc, out @ sent, sv2)) (run_rpc_server expected_calls es sv1))"

section \<open>The client\<close>

text \<open>What one look at the socket meets: the alarm, the clock in milliseconds, and what the receive gives.\<close>

datatype rx = Rx_none | Rx_error | Rx_data string

record recv_poll =
  rp_alarm :: bool
  rp_now :: int
  rp_rx :: rx

text \<open>The datagram, if one comes before the deadline. The list of looks ends where the loop does.\<close>

fun recv_with_retry :: "int \<Rightarrow> recv_poll list \<Rightarrow> string option" where
  "recv_with_retry deadline [] = None"
| "recv_with_retry deadline (p # ps) =
     (if rp_alarm p \<or> deadline \<le> rp_now p then None
      else case rp_rx p of
             Rx_data d \<Rightarrow> Some (take 1023 d)
           | Rx_error \<Rightarrow> None
           | Rx_none \<Rightarrow> recv_with_retry deadline ps)"

text \<open>What one round of the client meets: the alarm and the clock when the loop looks at them, a send that
  fails, the clock when the receive begins, and its looks at the socket.\<close>

record attempt =
  at_alarm :: bool
  at_now :: int
  at_send_fails :: bool
  at_recv_from :: int
  at_polls :: "recv_poll list"

definition at_recv :: "attempt \<Rightarrow> string option" where
  "at_recv a = recv_with_retry (at_recv_from a + 1000) (at_polls a)"

definition max_retries :: nat where "max_retries = 10"

text \<open>Result code, response payload and the number of datagrams sent.\<close>

fun client_loop :: "int \<Rightarrow> int \<Rightarrow> nat \<Rightarrow> attempt list \<Rightarrow> int \<times> string \<times> nat" where
  "client_loop msg_id deadline retries [] = (-1, [], 0)"
| "client_loop msg_id deadline retries (a # as) =
     (if at_alarm a \<or> deadline \<le> at_now a \<or> \<not> retries < max_retries then (-1, [], 0)
      else if at_send_fails a then (-1, [], 1)
      else let again = (case client_loop msg_id deadline (retries + 1) as of (rc, p, n) \<Rightarrow> (rc, p, n + 1))
           in case at_recv a of
                None \<Rightarrow> again
              | Some rx \<Rightarrow>
                  (case rpc_parse_response 64 512 (c_string rx) of
                     None \<Rightarrow> again
                   | Some m \<Rightarrow>
                       if rm_id m = msg_id
                       then (if rm_tag m \<noteq> ''OK'' then (-1, rm_payload m, 1) else (0, rm_payload m, 1))
                       else again))"

text \<open>\<open>start\<close> is the clock when the call begins.\<close>

definition rpc_client_send_recv ::
  "int \<Rightarrow> string \<Rightarrow> string \<Rightarrow> int \<Rightarrow> attempt list \<Rightarrow> int \<times> string \<times> nat" where
  "rpc_client_send_recv msg_id op payload start as =
     (case rpc_build_request 1024 msg_id op payload of
        None \<Rightarrow> (-1, [], 0)
      | Some req_buf \<Rightarrow> client_loop msg_id (start + 5000) 0 as)"

definition echo_text :: "string \<Rightarrow> string" where
  "echo_text local_ip = snprintf_s 128 (''greeting from rpc client '' @ local_ip)"

definition crc_payload :: "string \<Rightarrow> string \<Rightarrow> string" where
  "crc_payload local_ip peer_ip =
     snprintf_s 192 (''rpc crc payload from '' @ local_ip @ '' to '' @ peer_ip @ '' over ub_link'')"

definition run_rpc_client :: "string \<Rightarrow> string \<Rightarrow> int \<Rightarrow> attempt list \<Rightarrow> int \<Rightarrow> attempt list \<Rightarrow> int" where
  "run_rpc_client local_ip peer_ip start1 as1 start2 as2 =
     (let (rc1, rsp1, _) = rpc_client_send_recv 1 ''ECHO'' (echo_text local_ip) start1 as1;
          fail1 = (if rc1 \<noteq> 0 then 1 else if rsp1 \<noteq> echo_text local_ip then 1 else 0 :: nat);
          expected_crc = snprintf_s 32 (show_hex32 (crc32_ieee (str_bytes (crc_payload local_ip peer_ip))));
          (rc2, rsp2, _) = rpc_client_send_recv 2 ''CRC32'' (crc_payload local_ip peer_ip) start2 as2;
          fail2 = (if rc2 \<noteq> 0 then 1 else if rsp2 \<noteq> expected_crc then 1 else 0 :: nat)
      in if 0 < fail1 + fail2 then 1 else 0)"

section \<open>At most once\<close>

text \<open>What the server needs of its table: replies are found again, storing one disturbs no other,
  and a full table stays as it is.\<close>

locale reply_cache =
  fixes look :: "'c \<Rightarrow> 'k \<Rightarrow> 'v option" and put :: "'c \<Rightarrow> 'k \<Rightarrow> 'v \<Rightarrow> 'c"
    and room :: "'c \<Rightarrow> bool" and okk :: "'k \<Rightarrow> bool" and okv :: "'v \<Rightarrow> bool"
  assumes look_put: "okk k \<Longrightarrow> okv v \<Longrightarrow> room c \<Longrightarrow> look c k = None \<Longrightarrow> look (put c k v) k = Some v"
    and look_put_other: "okk k \<Longrightarrow> okv v \<Longrightarrow> k' \<noteq> k \<Longrightarrow> look (put c k v) k' = look c k'"
    and put_full: "\<not> room c \<Longrightarrow> put c k v = c"
begin

text \<open>Serving a request: from the cache, or by running it and storing the reply.\<close>

definition serve :: "'c \<Rightarrow> 'k \<Rightarrow> 'v \<Rightarrow> 'v \<times> bool \<times> 'c" where
  "serve c k run = (case look c k of Some v \<Rightarrow> (v, False, c) | None \<Rightarrow> (run, True, put c k run))"

fun serve_all :: "'c \<Rightarrow> ('k \<times> 'v) list \<Rightarrow> 'c" where
  "serve_all c [] = c"
| "serve_all c ((k, v) # rs) = serve_all (snd (snd (serve c k v))) rs"

lemma look_put_mono: "okk k \<Longrightarrow> okv v \<Longrightarrow> look c k = None \<Longrightarrow> look c k' = Some w \<Longrightarrow> look (put c k v) k' = Some w"
  using look_put_other [of k v k' c] by (cases "k' = k") simp_all

lemma serve_all_keeps:
  "\<forall>(k, v) \<in> set rs. okk k \<and> okv v \<Longrightarrow> look c k' = Some w \<Longrightarrow> look (serve_all c rs) k' = Some w"
proof (induction rs arbitrary: c)
  case (Cons r rs)
  obtain k v where r: "r = (k, v)" by fastforce
  show ?case
  proof (cases "look c k")
    case None
    with Cons.prems r look_put_mono [of k v c k' w] have "look (put c k v) k' = Some w" by simp
    with Cons r None show ?thesis by (simp add: serve_def)
  next
    case (Some x)
    with Cons r show ?thesis by (simp add: serve_def)
  qed
qed simp

text \<open>A request that was run while there was room is never run again.\<close>

lemma at_most_once:
  assumes "okk k" and "okv v" and "room c" and "look c k = None" and "\<forall>(k, v) \<in> set rs. okk k \<and> okv v"
  shows "serve (serve_all (snd (snd (serve c k v))) rs) k v' =
    (v, False, serve_all (snd (snd (serve c k v))) rs)"
proof -
  have "look (snd (snd (serve c k v))) k = Some v"
    using assms look_put by (simp add: serve_def)
  from serve_all_keeps [OF assms(5) this] show ?thesis by (simp add: serve_def)
qed

end

section \<open>The table is a reply cache\<close>

type_synonym seen_key = "string \<times> int \<times> string"

fun seen_match :: "seen_key \<Rightarrow> rpc_seen_entry \<Rightarrow> bool" where
  "seen_match (peer_ip, msg_id, op) e \<longleftrightarrow>
     se_valid e \<and> se_msg_id e = msg_id \<and> se_peer_ip e = peer_ip \<and> se_op e = op"

fun find_index :: "('a \<Rightarrow> bool) \<Rightarrow> 'a list \<Rightarrow> nat option" where
  "find_index P [] = None"
| "find_index P (x # xs) = (if P x then Some 0 else map_option Suc (find_index P xs))"

definition seen_look :: "rpc_seen_entry list \<Rightarrow> seen_key \<Rightarrow> string option" where
  "seen_look es k = map_option se_rsp_payload (find (seen_match k) es)"

fun seen_put :: "rpc_seen_entry list \<Rightarrow> seen_key \<Rightarrow> string \<Rightarrow> rpc_seen_entry list" where
  "seen_put es (peer_ip, msg_id, op) v =
     (case find_index (\<lambda>e. \<not> se_valid e) es of
        None \<Rightarrow> es | Some i \<Rightarrow> es[i := seen_record peer_ip msg_id op v])"

definition seen_room :: "rpc_seen_entry list \<Rightarrow> bool" where
  "seen_room es \<longleftrightarrow> (\<exists>e \<in> set es. \<not> se_valid e)"

text \<open>What fits the fields of an entry.\<close>

fun key_ok :: "seen_key \<Rightarrow> bool" where
  "key_ok (peer_ip, msg_id, op) \<longleftrightarrow> length peer_ip \<le> 15 \<and> length op \<le> 63"

definition reply_ok :: "string \<Rightarrow> bool" where
  "reply_ok v \<longleftrightarrow> length v \<le> 511"

lemma find_index_None: "find_index P xs = None \<longleftrightarrow> (\<forall>x \<in> set xs. \<not> P x)"
  by (induction xs) auto

lemma find_index_split:
  "find_index P xs = Some i \<Longrightarrow>
    \<exists>ys x zs. xs = ys @ x # zs \<and> length ys = i \<and> P x \<and> (\<forall>y \<in> set ys. \<not> P y)"
proof (induction xs arbitrary: i)
  case (Cons x xs)
  show ?case
  proof (cases "P x")
    case True
    with Cons.prems show ?thesis by (intro exI [of _ "[]"]) simp
  next
    case False
    then obtain j where j: "find_index P xs = Some j" "i = Suc j" using Cons.prems by auto
    from Cons.IH [OF j(1)] obtain ys y zs where
      "xs = ys @ y # zs" "length ys = j" "P y" "\<forall>y \<in> set ys. \<not> P y" by blast
    with j False show ?thesis by (intro exI [of _ "x # ys"] exI [of _ y] exI [of _ zs]) simp
  qed
qed simp

lemma find_index_find: "find P xs = map_option (\<lambda>i. xs ! i) (find_index P xs)"
  by (induction xs) (simp_all add: option.map_comp comp_def)

lemma find_append: "find P (xs @ ys) = (case find P xs of None \<Rightarrow> find P ys | Some x \<Rightarrow> Some x)"
  by (induction xs) auto

lemma seen_record_match:
  assumes "key_ok (peer_ip, msg_id, op)"
  shows "seen_match k (seen_record peer_ip msg_id op v) \<longleftrightarrow> k = (peer_ip, msg_id, op)"
  using assms by (cases k) (auto simp: seen_record_def snprintf_s_def INET_ADDRSTRLEN_def)

lemma seen_put_cases:
  obtains (full) "\<not> seen_room es" "seen_put es (ip, i, op) v = es"
  | (slot) ys x zs where "seen_room es" "es = ys @ x # zs" "\<not> se_valid x" "\<forall>y \<in> set ys. se_valid y"
      "seen_put es (ip, i, op) v = ys @ seen_record ip i op v # zs"
proof (cases "find_index (\<lambda>e. \<not> se_valid e) es")
  case None
  then have "\<forall>e \<in> set es. se_valid e" by (simp add: find_index_None)
  with None full show thesis by (simp add: seen_room_def)
next
  case (Some j)
  from find_index_split [OF this] obtain ys x zs where
    e: "es = ys @ x # zs" "length ys = j" "\<not> se_valid x" "\<forall>y \<in> set ys. se_valid y" by auto
  moreover have "seen_put es (ip, i, op) v = ys @ seen_record ip i op v # zs"
    using Some by (simp add: e(1) e(2) [symmetric])
  ultimately show thesis using slot [of ys x zs] by (simp add: seen_room_def)
qed

lemma seen_match_invalid: "\<not> se_valid x \<Longrightarrow> \<not> seen_match k x"
  by (cases k) simp

interpretation seen: reply_cache seen_look seen_put seen_room key_ok reply_ok
proof
  fix k :: seen_key and v es
  obtain ip i op where k: "k = (ip, i, op)" by (cases k)
  assume ok: "key_ok k" "reply_ok v"
  have pl: "se_rsp_payload (seen_record ip i op v) = v"
    using ok by (simp add: seen_record_def snprintf_s_def reply_ok_def)
  note m = seen_record_match [OF ok(1) [unfolded k]]
  {
    assume room: "seen_room es" and none: "seen_look es k = None"
    show "seen_look (seen_put es k v) k = Some v"
    proof (cases rule: seen_put_cases [of es ip i op v])
      case (slot ys x zs)
      have "find (seen_match k) ys = None"
        using none slot(2) by (auto simp: seen_look_def find_None_iff)
      then show ?thesis
        unfolding k slot(5) using m pl by (simp add: seen_look_def find_append)
    qed (use room in simp)
  }
  {
    fix k' assume "k' \<noteq> k"
    then show "seen_look (seen_put es k v) k' = seen_look es k'"
    proof (cases rule: seen_put_cases [of es ip i op v])
      case (slot ys x zs)
      then show ?thesis
        using \<open>k' \<noteq> k\<close> m [of k'] k seen_match_invalid [OF slot(3)]
        by (auto simp: seen_look_def find_append split: option.split)
    qed (simp add: k)
  }
next
  fix es :: "rpc_seen_entry list" and k :: seen_key and v
  assume "\<not> seen_room es"
  then show "seen_put es k v = es"
    by (cases k) (use seen_put_cases in blast)
qed

lemma map_option_plus_Suc: "map_option ((+) (Suc i)) x = map_option (\<lambda>j. Suc (i + j)) x"
  by (cases x) simp_all

lemma map_option_plus_0: "map_option ((+) (0 :: nat)) x = x"
  by (cases x) simp_all

lemma seen_scan_eq:
  "seen_scan msg_id ip op i slot es =
    (case find_index (seen_match (ip, msg_id, op)) es of
       Some j \<Rightarrow> (Some (i + j), True)
     | None \<Rightarrow> (case slot of Some s \<Rightarrow> Some s
               | None \<Rightarrow> map_option ((+) i) (find_index (\<lambda>e. \<not> se_valid e) es), False))"
  by (induction msg_id ip op i slot es rule: seen_scan.induct)
    (auto simp: option.map_comp comp_def map_option_plus_Suc split: option.splits)

lemma seen_scan_hit:
  assumes "seen_look es (ip, msg_id, op) = Some v"
  shows "\<exists>i. seen_scan msg_id ip op 0 None es = (Some i, True) \<and> se_rsp_payload (es ! i) = v"
  using assms by (auto simp: seen_scan_eq seen_look_def find_index_find)

lemma seen_scan_miss:
  assumes "seen_look es (ip, msg_id, op) = None"
  shows "seen_scan msg_id ip op 0 None es = (find_index (\<lambda>e. \<not> se_valid e) es, False)"
  using assms by (simp add: seen_scan_eq seen_look_def find_index_find map_option_plus_0)

section \<open>What the server answers\<close>

text \<open>The request in a datagram.\<close>

definition parsed :: "string \<Rightarrow> rpc_msg option" where
  "parsed buf = rpc_parse_request 64 512 (c_string (take 1023 buf))"

definition key_of :: "string \<Rightarrow> rpc_msg \<Rightarrow> seen_key" where
  "key_of peer_ip req = (peer_ip, rm_id req, rm_tag req)"

lemma handle_unparsed: "parsed buf = None \<Longrightarrow> rpc_server_handle n env ip buf sv = Some (None, False, sv)"
  by (simp add: rpc_server_handle_def parsed_def)

lemma handle_hit:
  assumes "parsed buf = Some req" and "seen_look (sv_seen sv) (key_of ip req) = Some v"
  shows "rpc_server_handle n env ip buf sv =
    Some (rpc_build_response 1024 (rm_id req) ''OK'' (snprintf_s 512 v), False, sv)"
  using seen_scan_hit [OF assms(2) [unfolded key_of_def]] assms(1)
  by (auto simp: rpc_server_handle_def parsed_def)

lemma handle_miss:
  assumes "parsed buf = Some req" and "seen_look (sv_seen sv) (key_of ip req) = None"
  shows "rpc_server_handle n env ip buf sv =
    map_option (\<lambda>p. (rpc_build_response 1024 (rm_id req) ''OK'' p, 0 < n \<and> n \<le> sv_count sv + 1,
        sv\<lparr>sv_seen := seen_put (sv_seen sv) (key_of ip req) p, sv_count := sv_count sv + 1\<rparr>))
      (rpc_execute env (sv_start_ms sv) (sv_count sv) (rm_tag req) (rm_payload req))"
  using seen_scan_miss [OF assms(2) [unfolded key_of_def]] assms(1)
  by (simp add: rpc_server_handle_def parsed_def key_of_def Let_def split: option.split)

lemma length_snprintf: "0 < n \<Longrightarrow> length (snprintf_s n s) < n"
  by (simp add: snprintf_s_def)

lemma reply_ok_snprintf: "reply_ok (snprintf_s 512 s)"
  by (simp add: reply_ok_def snprintf_s_def)

lemma read_meminfo_ok:
  assumes "read_meminfo f 512 = Some v"
  shows "reply_ok v"
proof -
  have "\<exists>s. v = snprintf_s 512 s"
    using assms unfolding read_meminfo_def Let_def by (simp split: option.splits prod.splits if_splits) blast
  then show ?thesis using reply_ok_snprintf by blast
qed

lemma execute_reply_ok:
  assumes "rpc_execute env t c op p = Some v"
  shows "reply_ok v"
proof -
  let ?P = "\<lambda>r. \<forall>v. r = Some v \<longrightarrow> reply_ok v"
  have "?P (rpc_execute env t c op p)"
    unfolding rpc_execute_def
    by (intro if_predI [where P = ?P])
      (auto simp: reply_ok_snprintf read_meminfo_ok split: compute_result.split option.split)
  with assms show ?thesis by blast
qed

lemma fields_tag:
  assumes "rpc_parse_fields n cap s = Some m"
  shows "length (rm_tag m) \<le> 63"
proof -
  let ?P = "\<lambda>r. \<forall>m. r = Some m \<longrightarrow> length (rm_tag m) \<le> 63"
  have "?P (rpc_parse_fields n cap s)"
    unfolding rpc_parse_fields_def Let_def case_prod_beta
    by (intro if_predI [where P = ?P]) (simp_all add: snprintf_s_def)
  with assms show ?thesis by blast
qed

lemma parsed_key_ok: "parsed buf = Some req \<Longrightarrow> length ip \<le> 15 \<Longrightarrow> key_ok (key_of ip req)"
  using fields_tag by (auto simp: parsed_def rpc_parse_request_def key_of_def split: if_splits)

section \<open>Runs of the server\<close>

text \<open>The addresses the kernel prints have at most 15 characters.\<close>

definition event_ok :: "net_event \<Rightarrow> bool" where
  "event_ok e = (case e of Datagram env ip buf \<Rightarrow> length ip \<le> 15 | _ \<Rightarrow> True)"

text \<open>What a datagram can do to the server.\<close>

lemma handle_cases:
  assumes "rpc_server_handle n env ip buf sv = Some (rsp, stop, sv')"
  obtains (same) "sv' = sv" "\<not> stop"
  | (new) req p where "parsed buf = Some req" "seen_look (sv_seen sv) (key_of ip req) = None" "reply_ok p"
      "sv' = sv\<lparr>sv_seen := seen_put (sv_seen sv) (key_of ip req) p, sv_count := sv_count sv + 1\<rparr>"
      "rsp = rpc_build_response 1024 (rm_id req) ''OK'' p"
proof (cases "parsed buf")
  case None
  with assms same show thesis by (simp add: handle_unparsed)
next
  case (Some req)
  show thesis
  proof (cases "seen_look (sv_seen sv) (key_of ip req)")
    case None
    from assms [unfolded handle_miss [OF Some None]] obtain p where
      "rpc_execute env (sv_start_ms sv) (sv_count sv) (rm_tag req) (rm_payload req) = Some p"
      "rsp = rpc_build_response 1024 (rm_id req) ''OK'' p"
      "sv' = sv\<lparr>sv_seen := seen_put (sv_seen sv) (key_of ip req) p, sv_count := sv_count sv + 1\<rparr>"
      by auto
    with new [OF Some None] execute_reply_ok show thesis by blast
  next
    case (Some v)
    with \<open>parsed buf = Some req\<close> assms same show thesis by (simp add: handle_hit)
  qed
qed

lemma handle_keeps_look:
  assumes "rpc_server_handle n env ip buf sv = Some (rsp, stop, sv')" and "length ip \<le> 15"
    and "seen_look (sv_seen sv) k = Some w"
  shows "seen_look (sv_seen sv') k = Some w"
  using assms(1)
proof (cases rule: handle_cases)
  case (new req p)
  with seen.look_put_mono [OF parsed_key_ok [OF new(1) assms(2)] new(3,2) assms(3)] show ?thesis by simp
qed (use assms in simp)

lemma run_invariant:
  assumes "run_rpc_server n es sv = Some (rc, out, sv')" and "\<forall>e \<in> set es. event_ok e" and "I sv"
    and step: "\<And>env ip buf sv rsp stop sv'. rpc_server_handle n env ip buf sv = Some (rsp, stop, sv') \<Longrightarrow>
      length ip \<le> 15 \<Longrightarrow> I sv \<Longrightarrow> I sv'"
  shows "I sv'"
  using assms(1-3)
proof (induction es arbitrary: sv rc out)
  case (Cons e es)
  show ?case
  proof (cases e)
    case (Datagram env ip buf)
    with Cons.prems obtain rsp stop sv1 where h: "rpc_server_handle n env ip buf sv = Some (rsp, stop, sv1)"
      by (auto split: option.splits)
    have "I sv1" using step [OF h] Cons.prems Datagram by (simp add: event_ok_def)
    with Cons h Datagram show ?thesis by (cases stop) (auto simp: Let_def)
  qed (use Cons in auto)
qed auto

lemma run_keeps_look:
  "run_rpc_server n es sv = Some (rc, out, sv') \<Longrightarrow> \<forall>e \<in> set es. event_ok e \<Longrightarrow>
    seen_look (sv_seen sv) k = Some w \<Longrightarrow> seen_look (sv_seen sv') k = Some w"
  by (rule run_invariant [where I = "\<lambda>sv. seen_look (sv_seen sv) k = Some w"]) (auto intro: handle_keeps_look)

text \<open>
  C4: a request is executed at most once while the table has room: after its first execution,
  and after any traffic of any peers in between, every datagram of the same peer with the same
  message id and operation is answered with the same datagram as the first time, and neither the
  call count nor the table changes.
\<close>

theorem server_at_most_once:
  assumes "rpc_server_handle n env ip buf sv = Some (rsp, stop, sv1)" and "parsed buf = Some req"
    and "seen_look (sv_seen sv) (key_of ip req) = None" and "seen_room (sv_seen sv)" and "length ip \<le> 15"
    and "run_rpc_server n es sv1 = Some (rc, out, sv2)" and "\<forall>e \<in> set es. event_ok e"
    and "parsed buf' = Some req'" and "rm_id req' = rm_id req" and "rm_tag req' = rm_tag req"
  shows "rpc_server_handle n env' ip buf' sv2 = Some (rsp, False, sv2)"
proof -
  from assms(1,2,3) handle_miss [OF assms(2,3)] obtain p where
    p: "rpc_execute env (sv_start_ms sv) (sv_count sv) (rm_tag req) (rm_payload req) = Some p"
    and sv1: "sv_seen sv1 = seen_put (sv_seen sv) (key_of ip req) p"
    and rsp: "rsp = rpc_build_response 1024 (rm_id req) ''OK'' p"
    by auto
  note ok = execute_reply_ok [OF p]
  have "seen_look (sv_seen sv1) (key_of ip req) = Some p"
    unfolding sv1 by (rule seen.look_put [OF parsed_key_ok [OF assms(2,5)] ok assms(4,3)])
  from run_keeps_look [OF assms(6,7) this]
  have "seen_look (sv_seen sv2) (key_of ip req') = Some p"
    using assms(9,10) by (simp add: key_of_def)
  from handle_hit [OF assms(8) this] show ?thesis
    using ok assms(9) by (simp add: rsp snprintf_s_def reply_ok_def)
qed

text \<open>
  Once the table is full a request that is not in it is executed again each time it arrives:
  the table stays as it is and every copy is counted.
\<close>

theorem server_full_reexecutes:
  assumes "rpc_server_handle n env ip buf sv = Some (rsp, stop, sv1)" and "parsed buf = Some req"
    and "seen_look (sv_seen sv) (key_of ip req) = None" and "\<not> seen_room (sv_seen sv)"
    and "rpc_execute env' (sv_start_ms sv) (sv_count sv + 1) (rm_tag req) (rm_payload req) = Some p"
  shows "\<exists>stop'. rpc_server_handle n env' ip buf sv1 =
    Some (rpc_build_response 1024 (rm_id req) ''OK'' p, stop', sv1\<lparr>sv_count := sv_count sv + 2\<rparr>)"
proof -
  have sv1: "sv1 = sv\<lparr>sv_count := sv_count sv + 1\<rparr>"
    using assms(1) handle_miss [OF assms(2,3)] seen.put_full [OF assms(4)] by auto
  then have "seen_look (sv_seen sv1) (key_of ip req) = None" using assms(3) by simp
  from handle_miss [OF assms(2) this] assms(5) show ?thesis
    using seen.put_full [OF assms(4)] by (simp add: sv1)
qed

section \<open>The table over a run\<close>

definition entry_key :: "rpc_seen_entry \<Rightarrow> seen_key" where
  "entry_key e = (se_peer_ip e, se_msg_id e, se_op e)"

definition seen_wf :: "rpc_server \<Rightarrow> bool" where
  "seen_wf sv \<longleftrightarrow>
     (let used = takeWhile se_valid (sv_seen sv)
      in length (sv_seen sv) = RPC_SERVER_MAX_SEEN \<and>
         (\<forall>e \<in> set (drop (length used) (sv_seen sv)). \<not> se_valid e) \<and>
         distinct (map entry_key used) \<and>
         (length used = RPC_SERVER_MAX_SEEN \<or> length used = unat (sv_count sv)))"

lemma look_None_key: "seen_look es k = None \<Longrightarrow> e \<in> set es \<Longrightarrow> se_valid e \<Longrightarrow> entry_key e \<noteq> k"
  by (cases k) (auto simp: seen_look_def find_None_iff entry_key_def)

lemma put_wf:
  assumes wf: "seen_wf sv" and k: "key_ok k" and none: "seen_look (sv_seen sv) k = None"
  shows "seen_wf (sv\<lparr>sv_seen := seen_put (sv_seen sv) k p, sv_count := sv_count sv + 1\<rparr>)"
proof -
  obtain ip i op where [simp]: "k = (ip, i, op)" by (cases k)
  show ?thesis
  proof (cases rule: seen_put_cases [of "sv_seen sv" ip i op p])
    case full
    have t: "takeWhile se_valid (sv_seen sv) = sv_seen sv"
      using full(1) unfolding takeWhile_eq_all_conv seen_room_def by blast
    show ?thesis using full(2) wf by (simp add: seen_wf_def t Let_def del: seen_put.simps)
  next
    case (slot ys x zs)
    let ?r = "seen_record ip i op p"
    have t: "takeWhile se_valid (sv_seen sv) = ys" unfolding slot(2) using slot(3,4) by simp
    have L: "length ys < RPC_SERVER_MAX_SEEN" "length (sv_seen sv) = RPC_SERVER_MAX_SEEN"
      and zs: "\<forall>e \<in> set zs. \<not> se_valid e" and d: "distinct (map entry_key ys)"
      and c: "length ys = unat (sv_count sv)"
      using wf slot(2) unfolding seen_wf_def t by (auto simp: Let_def)
    have tz: "takeWhile se_valid zs = []" using zs by (cases zs) auto
    have t': "takeWhile se_valid (ys @ ?r # zs) = ys @ [?r]"
      using slot(4) tz by (simp add: seen_record_def)
    have "entry_key ?r = k" using k by (simp add: entry_key_def seen_record_def snprintf_s_def INET_ADDRSTRLEN_def)
    with look_None_key [OF none] slot(2,4) have "entry_key ?r \<notin> entry_key ` set ys" by fastforce
    moreover have "unat (sv_count sv + 1) = Suc (length ys)"
      using L(1) c by (simp add: RPC_SERVER_MAX_SEEN_def unat_word_ariths unsigned_1)
    moreover have "Suc (length ys + length zs) = RPC_SERVER_MAX_SEEN" using L(2) slot(2) by simp
    ultimately show ?thesis
      using zs d by (simp add: seen_wf_def slot(5) t' Let_def del: seen_put.simps)
  qed
qed

text \<open>
  Over every run from the start the table keeps its 256 entries, the used ones first and with
  pairwise different keys, and until it is full there is one used entry per call counted.
\<close>

theorem server_table_invariant:
  assumes "run_rpc_server n es (server_init now) = Some (rc, out, sv)" and "\<forall>e \<in> set es. event_ok e"
  shows "seen_wf sv"
proof (rule run_invariant [OF assms])
  show "seen_wf (server_init now)"
    by (simp add: seen_wf_def server_init_def free_entry_def RPC_SERVER_MAX_SEEN_def Let_def)
next
  fix env ip buf sv rsp stop sv'
  assume h: "rpc_server_handle n env ip buf sv = Some (rsp, stop, sv')" and "length ip \<le> 15" "seen_wf sv"
  from h show "seen_wf sv'"
  proof (cases rule: handle_cases)
    case (new req p)
    with put_wf [OF \<open>seen_wf sv\<close> parsed_key_ok [OF new(1) \<open>length ip \<le> 15\<close>] new(2)] show ?thesis by simp
  qed (use \<open>seen_wf sv\<close> in simp)
qed

section \<open>Answers and the client\<close>

definition no_nul :: "string \<Rightarrow> bool" where
  "no_nul s \<longleftrightarrow> (\<forall>c \<in> set s. code c \<noteq> 0)"

lemma no_nul_append [simp]: "no_nul (xs @ ys) \<longleftrightarrow> no_nul xs \<and> no_nul ys"
  by (auto simp: no_nul_def)

lemma no_nul_Nil [simp]: "no_nul []"
  by (simp add: no_nul_def)

lemma no_nul_Cons: "no_nul (c # xs) \<longleftrightarrow> code c \<noteq> 0 \<and> no_nul xs"
  by (simp add: no_nul_def)

lemma no_nul_take: "no_nul s \<Longrightarrow> no_nul (take n s)"
  by (auto simp: no_nul_def dest: in_set_takeD)

lemma no_nul_show [simp]: "no_nul (show_nat n)" "no_nul (show_int i)"
proof -
  have n: "no_nul (show_nat n)" for n
    using show_nat_digits [of n] by (force simp: no_nul_def is_digit_def)
  then show "no_nul (show_nat n)" "no_nul (show_int i)"
    by (simp_all add: show_int_def no_nul_Cons code_def)
qed

lemma c_string_id: "no_nul s \<Longrightarrow> c_string s = s"
  by (simp add: c_string_def no_nul_def takeWhile_eq_all_conv)

lemma built_request_parsed:
  assumes "rpc_build_request 1024 i op payload = Some s" and "- (2 ^ 31) \<le> i" and "i < 2 ^ 31"
    and "tag_ok op" and "length payload < 512" and "no_nul op" and "no_nul payload"
  shows "parsed s = Some \<lparr>rm_id = i, rm_tag = op, rm_plen = length payload, rm_payload = payload\<rparr>"
proof -
  have "no_nul s \<and> length s < 1024"
    using assms(1,6,7) by (auto simp: rpc_build_request_def no_nul_Cons code_def Let_def split: if_splits)
  moreover have "rpc_parse_request 64 512 s =
      Some \<lparr>rm_id = i, rm_tag = op, rm_plen = length payload, rm_payload = payload\<rparr>"
    using request.dec_enc [of "\<lparr>rm_id = i, rm_tag = op, rm_plen = length payload, rm_payload = payload\<rparr>" s] assms
    by (simp add: rpc_ok_def enc_request_def)
  ultimately show ?thesis by (simp add: parsed_def c_string_id)
qed

lemma built_response_parsed:
  assumes "- (2 ^ 31) \<le> i" and "i < 2 ^ 31" and "reply_ok p" and "no_nul p"
  shows "\<exists>r. rpc_build_response 1024 i ''OK'' p = Some r \<and>
    rpc_parse_response 64 512 (c_string (take 1023 r)) =
      Some \<lparr>rm_id = i, rm_tag = ''OK'', rm_plen = length p, rm_payload = p\<rparr>"
proof -
  let ?m = "\<lparr>rm_id = i, rm_tag = ''OK'', rm_plen = length p, rm_payload = p\<rparr>"
  have L: "length p < 512" using assms(3) by (simp add: reply_ok_def)
  from response_fits [OF assms(1,2) _ L, of "''OK''"]
  obtain r where r: "rpc_build_response 1024 i ''OK'' p = Some r" by auto
  have "rpc_parse_response 64 512 r = Some ?m"
    using response.dec_enc [of ?m r] assms L r by (simp add: rpc_ok_def enc_response_def tag_ok_def)
  moreover have "no_nul r \<and> length r < 1024"
    using r assms(4) by (auto simp: rpc_build_response_def no_nul_Cons code_def Let_def split: if_splits)
  ultimately show ?thesis using r by (simp add: c_string_id)
qed

lemma handle_new:
  assumes "rpc_build_request 1024 i op payload = Some s" and "- (2 ^ 31) \<le> i" and "i < 2 ^ 31"
    and "tag_ok op" and "length payload < 512" and "no_nul op" and "no_nul payload"
    and "rpc_execute env (sv_start_ms sv) (sv_count sv) op payload = Some p" and "no_nul p"
    and "seen_look (sv_seen sv) (ip, i, op) = None"
  shows "\<exists>r. (\<forall>n. rpc_server_handle n env ip s sv = Some (Some r, 0 < n \<and> n \<le> sv_count sv + 1,
      sv\<lparr>sv_seen := seen_put (sv_seen sv) (ip, i, op) p, sv_count := sv_count sv + 1\<rparr>)) \<and>
    rpc_build_response 1024 i ''OK'' p = Some r \<and> rpc_parse_response 64 512 (c_string (take 1023 r)) =
      Some \<lparr>rm_id = i, rm_tag = ''OK'', rm_plen = length p, rm_payload = p\<rparr>"
  using handle_miss [OF built_request_parsed [OF assms(1-7)], of sv ip _ env] assms(8-10)
    built_response_parsed [OF assms(2,3) execute_reply_ok [OF assms(8)] assms(9)]
  by (auto simp: key_of_def simp del: seen_put.simps)

text \<open>
  Every request the client can build is answered: if it was not seen before and its execution
  is defined, the server counts it and sends one response, from which the client reads the message
  id, the status OK and exactly the payload the operation produced.
\<close>

theorem server_replies:
  assumes "rpc_build_request 1024 i op payload = Some s" and "- (2 ^ 31) \<le> i" and "i < 2 ^ 31"
    and "tag_ok op" and "length payload < 512" and "no_nul op" and "no_nul payload"
    and "rpc_execute env (sv_start_ms sv) (sv_count sv) op payload = Some p" and "no_nul p"
    and "seen_look (sv_seen sv) (ip, i, op) = None"
  shows "\<exists>r stop sv'. rpc_server_handle n env ip s sv = Some (Some r, stop, sv') \<and>
    sv_count sv' = sv_count sv + 1 \<and>
    rpc_parse_response 64 512 (c_string (take 1023 r)) =
      Some \<lparr>rm_id = i, rm_tag = ''OK'', rm_plen = length p, rm_payload = p\<rparr>"
  using handle_new [OF assms] by (force simp del: seen_put.simps)

text \<open>The response the client takes from an attempt.\<close>

definition answer :: "int \<Rightarrow> attempt \<Rightarrow> rpc_msg option" where
  "answer msg_id a =
     (case at_recv a of
        None \<Rightarrow> None
      | Some rx \<Rightarrow> (case rpc_parse_response 64 512 (c_string rx) of
                     None \<Rightarrow> None | Some m \<Rightarrow> if rm_id m = msg_id then Some m else None))"

lemma client_loop_step:
  "client_loop msg_id deadline retries (a # as) =
    (if at_alarm a \<or> deadline \<le> at_now a \<or> \<not> retries < max_retries then (-1, [], 0)
     else if at_send_fails a then (-1, [], 1)
     else case answer msg_id a of
       None \<Rightarrow> (case client_loop msg_id deadline (retries + 1) as of (rc, p, n) \<Rightarrow> (rc, p, n + 1))
     | Some m \<Rightarrow> (if rm_tag m \<noteq> ''OK'' then -1 else 0, rm_payload m, 1))"
proof (cases "at_recv a")
  case (Some rx)
  then show ?thesis
    by (cases "rpc_parse_response 64 512 (c_string rx)") (simp_all add: answer_def Let_def)
qed (simp add: answer_def Let_def)

lemma client_loop_bound: "client_loop msg_id deadline k as = (rc, p, n) \<Longrightarrow> n \<le> max_retries - k \<and> n \<le> length as"
proof (induction as arbitrary: k rc p n)
  case (Cons a as)
  obtain rc' p' n' where r: "client_loop msg_id deadline (k + 1) as = (rc', p', n')" by (metis prod_cases3)
  from Cons.IH [OF r] Cons.prems show ?case
    unfolding client_loop_step r by (auto split: if_splits option.splits)
qed simp

lemma client_loop_ok:
  assumes "client_loop msg_id deadline k as = (0, p, n)"
  shows "0 < n \<and> n \<le> length as \<and> (\<forall>a \<in> set (take (n - 1) as). answer msg_id a = None) \<and>
    (\<exists>m. answer msg_id (as ! (n - 1)) = Some m \<and> rm_tag m = ''OK'' \<and> rm_payload m = p)"
  using assms
proof (induction as arbitrary: k n)
  case (Cons a as)
  show ?case
  proof (cases "answer msg_id a")
    case None
    obtain rc' p' n' where r: "client_loop msg_id deadline (k + 1) as = (rc', p', n')" by (metis prod_cases3)
    with Cons.prems None have e: "rc' = 0" "p' = p" "n = Suc n'"
      by (auto simp: client_loop_step simp del: client_loop.simps split: if_splits)
    from Cons.IH [of "k + 1" n'] r e None show ?thesis by (cases n') auto
  next
    case (Some m)
    with Cons.prems show ?thesis
      by (auto simp: client_loop_step simp del: client_loop.simps split: if_splits)
  qed
qed simp

text \<open>
  A client call sends its request at most ten times, and it returns success only on a response
  with its own message id and the status OK, the first response with that id it received, whose
  payload it hands back.
\<close>

theorem client_call_sound:
  assumes "rpc_client_send_recv msg_id op payload start as = (rc, p, n)"
  shows "n \<le> 10 \<and> (rc = 0 \<longrightarrow> 0 < n \<and> n \<le> length as \<and>
    (\<forall>a \<in> set (take (n - 1) as). answer msg_id a = None) \<and>
    (\<exists>m. answer msg_id (as ! (n - 1)) = Some m \<and> rm_tag m = ''OK'' \<and> rm_payload m = p))"
proof (cases "rpc_build_request 1024 msg_id op payload")
  case None
  with assms show ?thesis by (auto simp: rpc_client_send_recv_def)
next
  case (Some s)
  with assms have c: "client_loop msg_id (start + 5000) 0 as = (rc, p, n)" by (simp add: rpc_client_send_recv_def)
  show ?thesis
    using client_loop_bound [OF c] client_loop_ok [of msg_id "start + 5000" 0 as p n] c by (auto simp: max_retries_def)
qed

section \<open>Client and server together\<close>

text \<open>A receive that runs into its deadline, and a call that hears \<open>r\<close> in its last round, begun before its
  five seconds are over, after rounds that hear nothing. The clock does not go backwards, so a round that
  hears nothing lasts a second.\<close>

fun timed_out :: "int \<Rightarrow> recv_poll list \<Rightarrow> bool" where
  "timed_out deadline [] \<longleftrightarrow> False"
| "timed_out deadline (p # ps) \<longleftrightarrow>
     \<not> rp_alarm p \<and> (deadline \<le> rp_now p \<or> rp_rx p = Rx_none \<and> timed_out deadline ps)"

fun heard_in_time :: "string \<Rightarrow> int \<Rightarrow> int \<Rightarrow> attempt list \<Rightarrow> bool" where
  "heard_in_time r start now [] \<longleftrightarrow> False"
| "heard_in_time r start now (a # as) \<longleftrightarrow>
     now \<le> at_now a \<and> at_now a < start + 5000 \<and> at_now a \<le> at_recv_from a \<and> \<not> at_alarm a \<and> \<not> at_send_fails a \<and>
     (if as = [] then at_recv a = Some (take 1023 r)
      else timed_out (at_recv_from a + 1000) (at_polls a) \<and> heard_in_time r start (at_recv_from a + 1000) as)"

lemma timed_out_none: "timed_out deadline ps \<Longrightarrow> recv_with_retry deadline ps = None"
  by (induction ps) auto

lemma heard_rounds: "heard_in_time r start now as \<Longrightarrow> as \<noteq> [] \<and> now + 1000 * int (length as) < start + 6000"
proof (induction as arbitrary: now)
  case (Cons a as)
  then show ?case by (cases "as = []") fastforce+
qed simp

text \<open>Five seconds are five rounds.\<close>

lemma heard_at_most_five: "heard_in_time r start start as \<Longrightarrow> length as \<le> 5"
  using heard_rounds [of r start start as] by linarith

lemma client_loop_heard:
  assumes "rpc_parse_response 64 512 (c_string (take 1023 r)) = Some m" and "rm_id m = i" and "rm_tag m = ''OK''"
  shows "heard_in_time r start now as \<Longrightarrow> length as + k \<le> max_retries \<Longrightarrow>
    client_loop i (start + 5000) k as = (0, rm_payload m, length as)"
proof (induction as arbitrary: now k)
  case (Cons a as)
  then show ?case
    using timed_out_none [of "at_recv_from a + 1000" "at_polls a"]
    by (cases "as = []") (auto simp: assms at_recv_def)
qed simp

lemma request_fits:
  assumes "0 \<le> i" and "i < 10" and "length op \<le> 63" and "length payload < 512"
  shows "\<exists>s. rpc_build_request 1024 i op payload = Some s"
  using assms length_show_int [of i] length_show_nat [of "length payload" 3]
  by (simp add: rpc_build_request_def)

lemma client_call_answered:
  assumes "rpc_build_request 1024 i op payload = Some s"
    and "rpc_parse_response 64 512 (c_string (take 1023 r)) =
      Some \<lparr>rm_id = i, rm_tag = ''OK'', rm_plen = length p, rm_payload = p\<rparr>"
    and "heard_in_time r start start as"
  shows "rpc_client_send_recv i op payload start as = (0, p, length as)"
  using client_loop_heard [OF assms(2) _ _ assms(3), of i 0] heard_at_most_five [OF assms(3)] assms(1)
  by (simp add: rpc_client_send_recv_def max_retries_def)

lemma no_nul_hex: "no_nul (show_hex32 w)"
proof -
  have "code (hex_digit d) \<noteq> 0" if "d < 16" for d
    using that by (auto simp: hex_digit_def code_char_of)
  moreover have "unat (x AND 0xf) < 16" for x :: u32
  proof -
    have "x AND 0xf = take_bit 4 x" by (simp add: take_bit_eq_mask mask_eq_exp_minus_1)
    then show ?thesis using take_bit_nat_less_exp [of 4 "unat x"] by (simp add: unsigned_take_bit_eq)
  qed
  ultimately show ?thesis by (auto simp: show_hex32_def no_nul_def code_def)
qed

lemma length_show_hex32: "length (show_hex32 w) = 10"
  by (simp add: show_hex32_def)

text \<open>The two calls of the client, as the server takes them.\<close>

definition crc_reply :: "string \<Rightarrow> string \<Rightarrow> string" where
  "crc_reply local_ip peer_ip = show_hex32 (crc32_ieee (str_bytes (crc_payload local_ip peer_ip)))"

lemma client_calls_served:
  assumes "length local_ip \<le> 15" and "no_nul local_ip" and "no_nul peer_ip"
    and "seen_look (sv_seen sv) (local_ip, 1, ''ECHO'') = None"
    and "seen_look (sv_seen sv) (local_ip, 2, ''CRC32'') = None"
  shows "\<exists>s1 s2 r1 r2.
    rpc_build_request 1024 1 ''ECHO'' (echo_text local_ip) = Some s1 \<and>
    rpc_build_request 1024 2 ''CRC32'' (crc_payload local_ip peer_ip) = Some s2 \<and>
    parsed s2 = Some \<lparr>rm_id = 2, rm_tag = ''CRC32'', rm_plen = length (crc_payload local_ip peer_ip),
      rm_payload = crc_payload local_ip peer_ip\<rparr> \<and>
    (\<forall>n. rpc_server_handle n env1 local_ip s1 sv = Some (Some r1, 0 < n \<and> n \<le> sv_count sv + 1,
      sv\<lparr>sv_seen := seen_put (sv_seen sv) (local_ip, 1, ''ECHO'') (echo_text local_ip), sv_count := sv_count sv + 1\<rparr>)) \<and>
    (\<forall>n. rpc_server_handle n env2 local_ip s2
        (sv\<lparr>sv_seen := seen_put (sv_seen sv) (local_ip, 1, ''ECHO'') (echo_text local_ip), sv_count := sv_count sv + 1\<rparr>) =
      Some (Some r2, 0 < n \<and> n \<le> sv_count sv + 2,
        sv\<lparr>sv_seen := seen_put (seen_put (sv_seen sv) (local_ip, 1, ''ECHO'') (echo_text local_ip)) (local_ip, 2, ''CRC32'')
            (crc_reply local_ip peer_ip), sv_count := sv_count sv + 2\<rparr>)) \<and>
    rpc_build_response 1024 2 ''OK'' (crc_reply local_ip peer_ip) = Some r2 \<and>
    rpc_parse_response 64 512 (c_string (take 1023 r1)) =
      Some \<lparr>rm_id = 1, rm_tag = ''OK'', rm_plen = length (echo_text local_ip), rm_payload = echo_text local_ip\<rparr> \<and>
    rpc_parse_response 64 512 (c_string (take 1023 r2)) =
      Some \<lparr>rm_id = 2, rm_tag = ''OK'', rm_plen = length (crc_reply local_ip peer_ip), rm_payload = crc_reply local_ip peer_ip\<rparr>"
proof -
  let ?e = "echo_text local_ip" and ?c = "crc_payload local_ip peer_ip" and ?h = "crc_reply local_ip peer_ip"
  have e: "length ?e < 512" "no_nul ?e"
    using assms(1,2) by (simp_all add: echo_text_def snprintf_s_def no_nul_take no_nul_Cons code_def)
  have c: "length ?c < 512" by (simp add: crc_payload_def snprintf_s_def)
  have cn: "no_nul ?c"
    unfolding crc_payload_def snprintf_s_def
    by (intro no_nul_take) (simp add: assms(2,3) no_nul_Cons code_def)
  obtain s1 where s1: "rpc_build_request 1024 1 ''ECHO'' ?e = Some s1"
    using request_fits [of 1 "''ECHO''" ?e] e by auto
  obtain s2 where s2: "rpc_build_request 1024 2 ''CRC32'' ?c = Some s2"
    using request_fits [of 2 "''CRC32''" ?c] c by auto
  have x1: "rpc_execute env1 (sv_start_ms sv) (sv_count sv) ''ECHO'' ?e = Some ?e"
    using e by (simp add: rpc_execute_def snprintf_s_def)
  let ?sv = "sv\<lparr>sv_seen := seen_put (sv_seen sv) (local_ip, 1, ''ECHO'') ?e, sv_count := sv_count sv + 1\<rparr>"
  have x2: "rpc_execute env2 (sv_start_ms ?sv) (sv_count ?sv) ''CRC32'' ?c = Some ?h"
    using length_show_hex32 by (simp add: rpc_execute_def snprintf_s_def crc_reply_def)
  have l2: "seen_look (sv_seen ?sv) (local_ip, 2, ''CRC32'') = None"
    using seen.look_put_other [of "(local_ip, 1, ''ECHO'')" ?e "(local_ip, 2, ''CRC32'')" "sv_seen sv"] assms(1,5) e
    by (simp add: reply_ok_def del: seen_put.simps)
  have tags: "tag_ok ''ECHO''" "tag_ok ''CRC32''" "no_nul ''ECHO''" "no_nul ''CRC32''" "no_nul ?h"
    by (simp_all add: tag_ok_def no_nul_def code_def crc_reply_def no_nul_hex [unfolded no_nul_def code_def])
  show ?thesis
    using s1 s2 built_request_parsed [OF s2 _ _ tags(2) c tags(4) cn]
      handle_new [OF s1 _ _ tags(1) e(1) tags(3) e(2) x1 e(2) assms(4)]
      handle_new [OF s2 _ _ tags(2) c tags(4) cn x2 tags(5) l2]
    by (auto simp: add.assoc simp del: seen_put.simps)
qed

text \<open>
  C6: against a server that has not seen this client, the whole client run (an ECHO and a CRC32
  call) ends with exit status 0, whatever the two addresses are, when each call hears the answer in a
  round begun in its five seconds. Rounds before that which hear nothing do no harm; there is time for
  at most four of them, as each takes a second.
\<close>

theorem client_server_run:
  assumes "length local_ip \<le> 15" and "length peer_ip \<le> 15" and "no_nul local_ip" and "no_nul peer_ip"
    and "seen_look (sv_seen sv) (local_ip, 1, ''ECHO'') = None"
    and "seen_look (sv_seen sv) (local_ip, 2, ''CRC32'') = None"
  shows "\<exists>s1 s2 r1 r2 stop1 stop2 sv1 sv2.
    rpc_build_request 1024 1 ''ECHO'' (echo_text local_ip) = Some s1 \<and>
    rpc_build_request 1024 2 ''CRC32'' (crc_payload local_ip peer_ip) = Some s2 \<and>
    rpc_server_handle n env1 local_ip s1 sv = Some (Some r1, stop1, sv1) \<and>
    rpc_server_handle n env2 local_ip s2 sv1 = Some (Some r2, stop2, sv2) \<and>
    (\<forall>start1 as1 start2 as2. heard_in_time r1 start1 start1 as1 \<and> heard_in_time r2 start2 start2 as2 \<longrightarrow>
      length as1 \<le> 5 \<and> length as2 \<le> 5 \<and> run_rpc_client local_ip peer_ip start1 as1 start2 as2 = 0)"
proof -
  let ?h = "crc_reply local_ip peer_ip"
  from client_calls_served [OF assms(1,3,4,5,6), of env1 env2] obtain s1 s2 r1 r2 sv1 sv2 where
    s: "rpc_build_request 1024 1 ''ECHO'' (echo_text local_ip) = Some s1"
      "rpc_build_request 1024 2 ''CRC32'' (crc_payload local_ip peer_ip) = Some s2"
    and h: "rpc_server_handle n env1 local_ip s1 sv = Some (Some r1, 0 < n \<and> n \<le> sv_count sv + 1, sv1)"
      "rpc_server_handle n env2 local_ip s2 sv1 = Some (Some r2, 0 < n \<and> n \<le> sv_count sv + 2, sv2)"
    and r: "rpc_parse_response 64 512 (c_string (take 1023 r1)) =
        Some \<lparr>rm_id = 1, rm_tag = ''OK'', rm_plen = length (echo_text local_ip), rm_payload = echo_text local_ip\<rparr>"
      "rpc_parse_response 64 512 (c_string (take 1023 r2)) = Some \<lparr>rm_id = 2, rm_tag = ''OK'', rm_plen = length ?h, rm_payload = ?h\<rparr>"
    by blast
  have "snprintf_s 32 ?h = ?h" using length_show_hex32 by (simp add: crc_reply_def snprintf_s_def)
  then have "run_rpc_client local_ip peer_ip start1 as1 start2 as2 = 0"
    if "heard_in_time r1 start1 start1 as1" "heard_in_time r2 start2 start2 as2" for start1 as1 start2 as2
    using client_call_answered [OF s(1) r(1) that(1)] client_call_answered [OF s(2) r(2) that(2)]
    by (simp add: run_rpc_client_def crc_reply_def Let_def)
  with s h heard_at_most_five show ?thesis by blast
qed

end
