(* ===== verification/RPC_Examples.thy ===== *)
theory RPC_Examples
  imports RPC_Server
begin

text \<open>
  Concrete runs of the RPC demo: the requests of a client at 10.0.0.1, servers with small and with
  full tables, and the theorems of the RPC theories applied to them.
\<close>

section \<open>Sample requests and servers\<close>

definition echo_req :: string where "echo_req = ''RPC:7:ECHO:2:hi''"
definition env0 :: packet_env where "env0 = \<lparr>pe_now_ms = 5000, pe_meminfo = None\<rparr>"
definition client_ip :: string where "client_ip = ''10.0.0.1''"

definition small_server :: rpc_server where
  "small_server = \<lparr>sv_seen = [free_entry, free_entry], sv_count = 0, sv_start_ms = 0\<rparr>"

definition full_server :: rpc_server where
  "full_server = \<lparr>sv_seen = [seen_record ''10.0.0.9'' 1 ''ECHO'' ''x''], sv_count = 1, sv_start_ms = 0\<rparr>"

definition echo_rpc :: rpc_msg where
  "echo_rpc = \<lparr>rm_id = 7, rm_tag = ''ECHO'', rm_plen = 2, rm_payload = ''hi''\<rparr>"

definition echo_rsp :: string where "echo_rsp = ''RPC_RSP:7:OK:2:hi''"

lemma echo_built: "rpc_build_request 1024 7 ''ECHO'' ''hi'' = Some echo_req"
  by code_simp

lemma echo_parsed: "parsed echo_req = Some echo_rpc"
  by code_simp

lemma small_step:
  "rpc_server_handle 0 env0 client_ip echo_req small_server =
    Some (Some echo_rsp, False,
      \<lparr>sv_seen = [seen_record client_ip 7 ''ECHO'' ''hi'', free_entry], sv_count = 1, sv_start_ms = 0\<rparr>)"
  by code_simp

section \<open>Wire format\<close>

theorem request_roundtrip_witness:
  "rpc_parse_request 64 512 echo_req = Some echo_rpc"
  using request_roundtrip [OF _ _ _ _ echo_built] by (simp add: tag_ok_def echo_rpc_def)

theorem response_roundtrip_witness:
  "\<exists>s. rpc_build_response 1024 7 ''OK'' ''hi'' = Some s \<and>
    rpc_parse_response 64 512 s = Some \<lparr>rm_id = 7, rm_tag = ''OK'', rm_plen = 2, rm_payload = ''hi''\<rparr>"
  using response_roundtrip [of 7 "''OK''" "''hi''"] by (simp add: tag_ok_def eval_nat_numeral)

theorem compute_eval_correct_witness:
  "in_long (-7) \<and> in_long 2 \<and> compute_eval (show_int (-7) @ '' / '' @ show_int 2) = Value (-3)"
  using compute_eval_correct [of "-7" 2 "CHR ''/''"]
  by (simp add: in_long_def c_binop_def c_long_def c_div_def)

theorem crc32_detects_byte_change_witness:
  "crc32_ieee ([1, 2] @ [3] @ [4]) \<noteq> crc32_ieee ([1, 2] @ [5] @ [4])"
  using crc32_detects_byte_change [of "[1, 2]" 3 "[4]" 5] by auto

section \<open>Configuration\<close>

definition bare_env :: host_env where
  "bare_env = \<lparr>getenv = (\<lambda>_. None), proc_cmdline = None, valid_ipv4 = (\<lambda>s. s = ''10.0.0.1'' \<or> s = ''10.0.0.2'')\<rparr>"

definition calls_env :: host_env where
  "calls_env = bare_env\<lparr>getenv := (\<lambda>k. if k = ''LINQU_RPC_EXPECT_CALLS'' then Some (show_nat 12) else None)\<rparr>"

theorem legacy_roles_meet_witness:
  "resolve_local_ipv4 bare_env ''nodeA'' INET_ADDRSTRLEN = resolve_peer_ipv4 bare_env ''nodeB'' INET_ADDRSTRLEN"
  using legacy_roles_meet [of bare_env] by (simp add: bare_env_def)

theorem expected_calls_from_env_witness: "get_expected_call_count calls_env RPC_MODE_SERVER = 12"
  using expected_calls_from_env [of calls_env 12 RPC_MODE_SERVER] by (simp add: calls_env_def)

section \<open>Server and client\<close>

theorem server_at_most_once_witness:
  "rpc_server_handle 0 (env0\<lparr>pe_now_ms := 9\<rparr>) client_ip ''RPC:7:ECHO:3:bye''
      \<lparr>sv_seen = [seen_record client_ip 7 ''ECHO'' ''hi'', free_entry], sv_count = 1, sv_start_ms = 0\<rparr> =
    Some (Some echo_rsp, False,
      \<lparr>sv_seen = [seen_record client_ip 7 ''ECHO'' ''hi'', free_entry], sv_count = 1, sv_start_ms = 0\<rparr>)"
proof (rule server_at_most_once [OF small_step echo_parsed])
  show "seen_look (sv_seen small_server) (key_of client_ip echo_rpc) = None" by code_simp
  show "seen_room (sv_seen small_server)" by code_simp
  show "length client_ip \<le> 15" by code_simp
  show "run_rpc_server 0 [No_data]
      \<lparr>sv_seen = [seen_record client_ip 7 ''ECHO'' ''hi'', free_entry], sv_count = 1, sv_start_ms = 0\<rparr> =
    Some (None, [], \<lparr>sv_seen = [seen_record client_ip 7 ''ECHO'' ''hi'', free_entry], sv_count = 1, sv_start_ms = 0\<rparr>)"
    by simp
  show "\<forall>e \<in> set [No_data]. event_ok e" by (simp add: event_ok_def)
  show "parsed ''RPC:7:ECHO:3:bye'' =
      Some \<lparr>rm_id = 7, rm_tag = ''ECHO'', rm_plen = 3, rm_payload = ''bye''\<rparr>" by code_simp
qed (simp_all add: echo_rpc_def)

theorem server_full_reexecutes_witness:
  "\<exists>stop'. rpc_server_handle 0 env0 client_ip echo_req (full_server\<lparr>sv_count := 2\<rparr>) =
    Some (rpc_build_response 1024 7 ''OK'' ''hi'', stop', full_server\<lparr>sv_count := 3\<rparr>)"
proof -
  have 1: "rpc_server_handle 0 env0 client_ip echo_req full_server =
      Some (Some echo_rsp, False, full_server\<lparr>sv_count := 2\<rparr>)" by code_simp
  have 2: "seen_look (sv_seen full_server) (key_of client_ip echo_rpc) = None" by code_simp
  have 3: "\<not> seen_room (sv_seen full_server)" by code_simp
  have 4: "rpc_execute env0 (sv_start_ms full_server) (sv_count full_server + 1) (rm_tag echo_rpc)
      (rm_payload echo_rpc) = Some ''hi''" by code_simp
  show ?thesis
    using server_full_reexecutes [OF 1 echo_parsed 2 3 4] by (simp add: echo_rpc_def full_server_def)
qed

theorem server_table_invariant_witness:
  "\<exists>rc out sv. run_rpc_server 1 [No_data, Datagram env0 client_ip echo_req] (server_init 0) = Some (rc, out, sv) \<and>
    rc = Some 0 \<and> out = [echo_rsp] \<and> seen_wf sv"
proof -
  let ?es = "[No_data, Datagram env0 client_ip echo_req]"
  have "\<exists>sv. run_rpc_server 1 ?es (server_init 0) = Some (Some 0, [echo_rsp], sv)"
  proof -
    have l: "seen_look (sv_seen (server_init 0)) (key_of client_ip echo_rpc) = None" by code_simp
    have x: "rpc_execute env0 (sv_start_ms (server_init 0)) (sv_count (server_init 0)) (rm_tag echo_rpc)
        (rm_payload echo_rpc) = Some ''hi''" by code_simp
    have b: "rpc_build_response 1024 (rm_id echo_rpc) ''OK'' ''hi'' = Some echo_rsp" by code_simp
    have c: "sv_count (server_init 0) = 0" by (simp add: server_init_def)
    show ?thesis by (simp add: handle_miss [OF echo_parsed l] x [unfolded c] b c Let_def)
  qed
  moreover have "\<forall>e \<in> set ?es. event_ok e" by (simp add: event_ok_def client_ip_def)
  ultimately show ?thesis using server_table_invariant [of 1 ?es 0 "Some 0" "[echo_rsp]"] by blast
qed

theorem server_replies_witness:
  "\<exists>r stop sv'. rpc_server_handle 0 env0 client_ip echo_req small_server = Some (Some r, stop, sv') \<and>
    sv_count sv' = sv_count small_server + 1 \<and>
    rpc_parse_response 64 512 (c_string (take 1023 r)) =
      Some \<lparr>rm_id = 7, rm_tag = ''OK'', rm_plen = length ''hi'', rm_payload = ''hi''\<rparr>"
proof (rule server_replies [OF echo_built])
  show "rpc_execute env0 (sv_start_ms small_server) (sv_count small_server) ''ECHO'' ''hi'' = Some ''hi''"
    by code_simp
  show "seen_look (sv_seen small_server) (client_ip, 7, ''ECHO'') = None" by code_simp
qed (simp_all add: tag_ok_def no_nul_def code_def)

text \<open>A call begun at 0 that hears nothing in \<open>k\<close> rounds, of a second each, and \<open>r\<close> at once in the next.\<close>

definition quiet_poll :: "int \<Rightarrow> recv_poll" where
  "quiet_poll t = \<lparr>rp_alarm = False, rp_now = t, rp_rx = Rx_none\<rparr>"

definition late_answer :: "nat \<Rightarrow> string \<Rightarrow> attempt list" where
  "late_answer k r =
     map (\<lambda>j. \<lparr>at_alarm = False, at_now = 1000 * int j, at_send_fails = False, at_recv_from = 1000 * int j,
               at_polls = [quiet_poll (1000 * int j), quiet_poll (1000 * int j + 1000)]\<rparr>) [0..<k] @
     [\<lparr>at_alarm = False, at_now = 1000 * int k, at_send_fails = False, at_recv_from = 1000 * int k,
       at_polls = [\<lparr>rp_alarm = False, rp_now = 1000 * int k, rp_rx = Rx_data r\<rparr>]\<rparr>]"

lemma late_answers_heard: "heard_in_time r 0 0 (late_answer 4 r)" "heard_in_time r 0 0 (late_answer 0 r)"
  by (simp_all add: late_answer_def quiet_poll_def at_recv_def upt_rec)

theorem client_call_sound_witness:
  "rpc_client_send_recv 7 ''ECHO'' ''hi'' 0 (late_answer 1 echo_rsp) = (0, ''hi'', 2) \<and>
    (\<exists>m. answer 7 (late_answer 1 echo_rsp ! 1) = Some m \<and> rm_tag m = ''OK'' \<and> rm_payload m = ''hi'')"
proof -
  have 1: "rpc_client_send_recv 7 ''ECHO'' ''hi'' 0 (late_answer 1 echo_rsp) = (0, ''hi'', 2)" by code_simp
  show ?thesis using client_call_sound [OF 1] 1 by simp
qed

theorem client_server_run_witness:
  "\<exists>s1 s2 r1 r2 stop1 stop2 sv1 sv2.
    rpc_build_request 1024 1 ''ECHO'' (echo_text client_ip) = Some s1 \<and>
    rpc_build_request 1024 2 ''CRC32'' (crc_payload client_ip ''10.0.0.2'') = Some s2 \<and>
    rpc_server_handle 2 env0 client_ip s1 small_server = Some (Some r1, stop1, sv1) \<and>
    rpc_server_handle 2 env0 client_ip s2 sv1 = Some (Some r2, stop2, sv2) \<and>
    run_rpc_client client_ip ''10.0.0.2'' 0 (late_answer 4 r1) 0 (late_answer 0 r2) = 0"
proof -
  have h: "length client_ip \<le> 15" "length ''10.0.0.2'' \<le> 15" "no_nul client_ip" "no_nul ''10.0.0.2''"
    "seen_look (sv_seen small_server) (client_ip, 1, ''ECHO'') = None" "seen_look (sv_seen small_server) (client_ip, 2, ''CRC32'') = None"
    by (simp_all add: client_ip_def no_nul_def code_def small_server_def seen_look_def free_entry_def)
  show ?thesis using client_server_run [OF h, of 2 env0 env0] late_answers_heard by blast
qed

end
