(* ===== verification/Slot_Wire.thy ===== *)
theory Slot_Wire
  imports UB_Prelude
begin

text \<open>
  The 64-byte slots that travel through the command and completion rings, as the Rust backend
  encodes and decodes them (\<^verbatim>\<open>crates/sim-qemu/src/types.rs\<close>): descriptors and
  completions. The guest programs in C build and read the same slots; \<open>UB_Probe\<close> relates the two.

  A decoder takes the bytes that are left and returns a value and the rest, or the error message
  of the source. The locale \<open>field\<close> is the law an encoder and its decoder share, and a
  composition rule; every field of a slot is an interpretation of it. A Rust string is the list of
  its bytes, which a decoder accepts only when it is well-formed UTF-8.
\<close>

section \<open>Decoders\<close>

type_synonym 'a decoder = "bytes \<Rightarrow> string + 'a \<times> bytes"

definition bind_dec :: "string + 'a \<times> bytes \<Rightarrow> ('a \<Rightarrow> 'b decoder) \<Rightarrow> string + 'b \<times> bytes" where
  "bind_dec r f = (case r of Inl e \<Rightarrow> Inl e | Inr (x, rest) \<Rightarrow> f x rest)"

lemma bind_dec_simps [simp]:
  "bind_dec (Inl e) f = Inl e" "bind_dec (Inr (x, rest)) f = f x rest"
  by (simp_all add: bind_dec_def)

definition cursor_take :: "nat \<Rightarrow> bytes decoder" where
  "cursor_take len bs = (if length bs < len then Inl ''slot underflow'' else Inr (take len bs, drop len bs))"

definition read_u8 :: "u8 decoder" where
  "read_u8 bs = bind_dec (cursor_take 1 bs) (\<lambda>b rest. Inr (hd b, rest))"

definition read_u32 :: "u32 decoder" where
  "read_u32 bs = bind_dec (cursor_take 4 bs) (\<lambda>b rest. Inr (of_le b, rest))"

definition read_u64 :: "u64 decoder" where
  "read_u64 bs = bind_dec (cursor_take 8 bs) (\<lambda>b rest. Inr (of_le b, rest))"

text \<open>Well-formed UTF-8 (\<^verbatim>\<open>std::str::from_utf8\<close>).\<close>

definition cont_byte :: "u8 \<Rightarrow> bool" where
  "cont_byte b \<longleftrightarrow> 0x80 \<le> b \<and> b \<le> 0xbf"

fun utf8_ok :: "bytes \<Rightarrow> bool" where
  "utf8_ok [] = True"
| "utf8_ok (a # r) =
     (if a < 0x80 then utf8_ok r
      else if 0xc2 \<le> a \<and> a \<le> 0xdf
      then (case r of b # r1 \<Rightarrow> cont_byte b \<and> utf8_ok r1 | _ \<Rightarrow> False)
      else if 0xe0 \<le> a \<and> a \<le> 0xef
      then (case r of b # c # r2 \<Rightarrow>
              cont_byte b \<and> cont_byte c \<and> (a = 0xe0 \<longrightarrow> 0xa0 \<le> b) \<and> (a = 0xed \<longrightarrow> b \<le> 0x9f) \<and> utf8_ok r2
            | _ \<Rightarrow> False)
      else if 0xf0 \<le> a \<and> a \<le> 0xf4
      then (case r of b # c # d # r3 \<Rightarrow>
              cont_byte b \<and> cont_byte c \<and> cont_byte d \<and> (a = 0xf0 \<longrightarrow> 0x90 \<le> b) \<and>
              (a = 0xf4 \<longrightarrow> b \<le> 0x8f) \<and> utf8_ok r3
            | _ \<Rightarrow> False)
      else False)"

definition decode_string :: "bytes decoder" where
  "decode_string bs =
     bind_dec (read_u8 bs) (\<lambda>len r. bind_dec (cursor_take (unat len) r)
       (\<lambda>s rest. if utf8_ok s then Inr (s, rest) else Inl ''invalid utf8 in slot''))"

definition encode_string :: "bytes \<Rightarrow> string + bytes" where
  "encode_string s =
     (if 255 < length s then Inl ''string too long for slot encoding'' else Inr (of_nat (length s) # s))"

definition decode_opt_string :: "bytes option decoder" where
  "decode_opt_string bs =
     bind_dec (read_u8 bs) (\<lambda>flag r.
       if flag = 0 then Inr (None, r)
       else if flag = 1 then bind_dec (decode_string r) (\<lambda>s rest. Inr (Some s, rest))
       else Inl ''invalid optional string flag'')"

definition encode_opt_string :: "bytes option \<Rightarrow> string + bytes" where
  "encode_opt_string v =
     (case v of
        None \<Rightarrow> Inr [0]
      | Some s \<Rightarrow> (case encode_string s of Inl e \<Rightarrow> Inl e | Inr bs \<Rightarrow> Inr (1 # bs)))"

definition decode_opt_segment :: "u64 option decoder" where
  "decode_opt_segment bs =
     bind_dec (read_u8 bs) (\<lambda>flag r.
       if flag = 0 then Inr (None, r)
       else if flag = 1 then bind_dec (read_u64 r) (\<lambda>s rest. Inr (Some s, rest))
       else Inl ''invalid optional segment flag'')"

definition encode_opt_segment :: "u64 option \<Rightarrow> bytes" where
  "encode_opt_segment v = (case v of Some s \<Rightarrow> 1 # le64 s | None \<Rightarrow> [0])"

section \<open>Tasks\<close>

record task_key =
  tk_logical_system :: u32
  tk_levels :: "u32 list"
  tk_scope_depth :: u32
  tk_task_id :: u64

text \<open>The coordinate has eight levels.\<close>

definition task_ok :: "task_key option \<Rightarrow> bool" where
  "task_ok t \<longleftrightarrow> (case t of None \<Rightarrow> True | Some k \<Rightarrow> length (tk_levels k) = 8)"

definition encode_task :: "task_key option \<Rightarrow> bytes" where
  "encode_task task =
     (case task of
        Some k \<Rightarrow> 1 # le32 (tk_logical_system k) @ concat (map le32 (tk_levels k)) @
                  le32 (tk_scope_depth k) @ le64 (tk_task_id k)
      | None \<Rightarrow> [0])"

fun read_levels :: "nat \<Rightarrow> u32 list decoder" where
  "read_levels 0 bs = Inr ([], bs)"
| "read_levels (Suc n) bs =
     bind_dec (read_u32 bs) (\<lambda>l r. bind_dec (read_levels n r) (\<lambda>ls rest. Inr (l # ls, rest)))"

definition decode_task :: "task_key option decoder" where
  "decode_task bs =
     bind_dec (read_u8 bs) (\<lambda>flag r.
       if flag = 0 then Inr (None, r)
       else if flag = 1
       then bind_dec (read_u32 r) (\<lambda>ls r1. bind_dec (read_levels 8 r1) (\<lambda>levels r2.
              bind_dec (read_u32 r2) (\<lambda>depth r3. bind_dec (read_u64 r3) (\<lambda>tid rest.
                Inr (Some \<lparr>tk_logical_system = ls, tk_levels = levels, tk_scope_depth = depth,
                           tk_task_id = tid\<rparr>, rest)))))
       else Inl ''invalid task flag'')"

section \<open>Descriptors\<close>

datatype io_opcode = ReadBlock | WriteBlock | Dispatch | RemoteFetch | RemoteStore

record guest_io_descriptor =
  io_op_id :: u64
  io_task :: "task_key option"
  io_entity :: u32
  io_opcode :: io_opcode
  io_segment :: "u64 option"
  io_block :: "bytes option"

text \<open>The requests carry: task; requester, segment and size; path or key; size.\<close>

datatype guest_service_descriptor =
    BlockWriteback bytes "task_key option"
  | ShmemPut "task_key option" u32 u64 u64
  | ShmemGet "task_key option" u32 u64 u64
  | DfsRead "task_key option" bytes
  | DfsWrite "task_key option" bytes u64
  | DbPut "task_key option" bytes u64
  | DbGet "task_key option" bytes

datatype guest_descriptor = Io guest_io_descriptor | Service guest_service_descriptor

definition pad_slot :: "bytes \<Rightarrow> nat \<Rightarrow> string + bytes" where
  "pad_slot buf slot_bytes =
     (if slot_bytes < length buf then Inl ''encoded payload exceeds slot size''
      else Inr (buf @ replicate (slot_bytes - length buf) 0))"

definition bind_enc :: "string + 'a \<Rightarrow> ('a \<Rightarrow> string + 'b) \<Rightarrow> string + 'b" where
  "bind_enc r f = (case r of Inl e \<Rightarrow> Inl e | Inr x \<Rightarrow> f x)"

definition opcode_byte :: "io_opcode \<Rightarrow> string + u8" where
  "opcode_byte opc =
     (case opc of
        ReadBlock \<Rightarrow> Inr 1 | WriteBlock \<Rightarrow> Inr 2 | Dispatch \<Rightarrow> Inr 3
      | _ \<Rightarrow> Inl ''remote fetch/store not yet supported in guest descriptor encoding'')"

fun service_bytes :: "guest_service_descriptor \<Rightarrow> string + bytes" where
  "service_bytes (BlockWriteback block task) =
     bind_enc (encode_string block) (\<lambda>s. Inr (2 # encode_task task @ s))"
| "service_bytes (ShmemPut task entity segment n) = Inr (3 # encode_task task @ le32 entity @ le64 segment @ le64 n)"
| "service_bytes (ShmemGet task entity segment n) = Inr (4 # encode_task task @ le32 entity @ le64 segment @ le64 n)"
| "service_bytes (DfsRead task path) = bind_enc (encode_string path) (\<lambda>s. Inr (5 # encode_task task @ s))"
| "service_bytes (DfsWrite task path n) =
     bind_enc (encode_string path) (\<lambda>s. Inr (6 # encode_task task @ s @ le64 n))"
| "service_bytes (DbPut task key n) =
     bind_enc (encode_string key) (\<lambda>s. Inr (7 # encode_task task @ s @ le64 n))"
| "service_bytes (DbGet task key) = bind_enc (encode_string key) (\<lambda>s. Inr (8 # encode_task task @ s))"

definition io_bytes :: "guest_io_descriptor \<Rightarrow> string + bytes" where
  "io_bytes io =
     bind_enc (opcode_byte (io_opcode io)) (\<lambda>opc. bind_enc (encode_opt_string (io_block io)) (\<lambda>b.
       Inr (1 # le64 (io_op_id io) @ encode_task (io_task io) @ le32 (io_entity io) @ opc #
            encode_opt_segment (io_segment io) @ b)))"

definition encode_descriptor :: "guest_descriptor \<Rightarrow> nat \<Rightarrow> string + bytes" where
  "encode_descriptor d slot_bytes =
     bind_enc (case d of Io io \<Rightarrow> io_bytes io | Service sv \<Rightarrow> service_bytes sv) (\<lambda>buf. pad_slot buf slot_bytes)"

definition decode_opcode :: "io_opcode decoder" where
  "decode_opcode bs =
     bind_dec (read_u8 bs) (\<lambda>b r.
       if b = 1 then Inr (ReadBlock, r) else if b = 2 then Inr (WriteBlock, r)
       else if b = 3 then Inr (Dispatch, r) else Inl ''invalid io opcode'')"

definition decode_io :: "guest_io_descriptor decoder" where
  "decode_io bs =
     bind_dec (read_u64 bs) (\<lambda>op_id r1. bind_dec (decode_task r1) (\<lambda>task r2.
       bind_dec (read_u32 r2) (\<lambda>entity r3. bind_dec (decode_opcode r3) (\<lambda>opcode r4.
         bind_dec (decode_opt_segment r4) (\<lambda>segment r5. bind_dec (decode_opt_string r5) (\<lambda>block rest.
           Inr (\<lparr>io_op_id = op_id, io_task = task, io_entity = entity, io_opcode = opcode,
                 io_segment = segment, io_block = block\<rparr>, rest)))))))"

definition decode_shmem ::
  "(task_key option \<Rightarrow> u32 \<Rightarrow> u64 \<Rightarrow> u64 \<Rightarrow> guest_service_descriptor) \<Rightarrow> guest_service_descriptor decoder" where
  "decode_shmem con bs =
     bind_dec (decode_task bs) (\<lambda>task r1. bind_dec (read_u32 r1) (\<lambda>entity r2.
       bind_dec (read_u64 r2) (\<lambda>segment r3. bind_dec (read_u64 r3) (\<lambda>n rest.
         Inr (con task entity segment n, rest)))))"

definition decode_named ::
  "(task_key option \<Rightarrow> bytes \<Rightarrow> guest_service_descriptor) \<Rightarrow> guest_service_descriptor decoder" where
  "decode_named con bs =
     bind_dec (decode_task bs) (\<lambda>task r1. bind_dec (decode_string r1) (\<lambda>s rest. Inr (con task s, rest)))"

definition decode_sized ::
  "(task_key option \<Rightarrow> bytes \<Rightarrow> u64 \<Rightarrow> guest_service_descriptor) \<Rightarrow> guest_service_descriptor decoder" where
  "decode_sized con bs =
     bind_dec (decode_task bs) (\<lambda>task r1. bind_dec (decode_string r1) (\<lambda>s r2.
       bind_dec (read_u64 r2) (\<lambda>n rest. Inr (con task s n, rest))))"

definition decode_service :: "u8 \<Rightarrow> guest_service_descriptor decoder" where
  "decode_service kind bs =
     (if kind = 2 then decode_named (\<lambda>task block. BlockWriteback block task) bs
      else if kind = 3 then decode_shmem ShmemPut bs
      else if kind = 4 then decode_shmem ShmemGet bs
      else if kind = 5 then decode_named DfsRead bs
      else if kind = 6 then decode_sized DfsWrite bs
      else if kind = 7 then decode_sized DbPut bs
      else if kind = 8 then decode_named DbGet bs
      else Inl ''invalid descriptor kind'')"

definition decode_descriptor :: "bytes \<Rightarrow> string + guest_descriptor" where
  "decode_descriptor bs =
     map_sum id fst (bind_dec (read_u8 bs) (\<lambda>kind r.
       if kind = 1 then bind_dec (decode_io r) (\<lambda>io rest. Inr (Io io, rest))
       else bind_dec (decode_service kind r) (\<lambda>sv rest. Inr (Service sv, rest))))"

section \<open>Completions\<close>

datatype completion_source =
  ChipBackend | BlockService | ShmemService | DfsService | DbService | GuestUapi | RemoteNode

datatype completion_status = Success | RetryableFailure bytes | FatalFailure bytes

record completion_event =
  ce_op_id :: u64
  ce_task :: "task_key option"
  ce_source :: completion_source
  ce_status :: completion_status
  ce_finished_at :: u64

primrec source_byte :: "completion_source \<Rightarrow> u8" where
  "source_byte ChipBackend = 1"
| "source_byte BlockService = 2"
| "source_byte ShmemService = 3"
| "source_byte DfsService = 4"
| "source_byte DbService = 5"
| "source_byte GuestUapi = 6"
| "source_byte RemoteNode = 7"

primrec status_bytes :: "completion_status \<Rightarrow> string + bytes" where
  "status_bytes Success = Inr [1]"
| "status_bytes (RetryableFailure code) = bind_enc (encode_string code) (\<lambda>s. Inr (2 # s))"
| "status_bytes (FatalFailure code) = bind_enc (encode_string code) (\<lambda>s. Inr (3 # s))"

definition encode_completion :: "completion_event \<Rightarrow> nat \<Rightarrow> string + bytes" where
  "encode_completion event slot_bytes =
     bind_enc (status_bytes (ce_status event)) (\<lambda>st.
       pad_slot (le64 (ce_op_id event) @ encode_task (ce_task event) @
                 source_byte (ce_source event) # st @ le64 (ce_finished_at event)) slot_bytes)"

section \<open>The law of a field\<close>

locale field =
  fixes enc :: "'a \<Rightarrow> bytes" and dec :: "'a decoder" and ok :: "'a \<Rightarrow> bool"
  assumes dec_enc: "ok x \<Longrightarrow> dec (enc x @ rest) = Inr (x, rest)"
begin

lemma dec_enc_nil: "ok x \<Longrightarrow> dec (enc x) = Inr (x, [])"
  using dec_enc [of x "[]"] by simp

text \<open>A field followed by the rest of a decoder.\<close>

lemma bind_enc_field: "ok x \<Longrightarrow> bind_dec (dec (enc x @ rest)) f = f x rest"
  by (simp add: dec_enc)

lemma enc_prefix_free:
  assumes "ok x" and "ok y" and "enc x @ r = enc y @ r'"
  shows "x = y \<and> r = r'"
  using dec_enc [OF assms(1), of r, unfolded assms(3)] dec_enc [OF assms(2), of r'] by simp

end

lemma cursor_take_append: "length xs = n \<Longrightarrow> cursor_take n (xs @ rest) = Inr (xs, rest)"
  by (simp add: cursor_take_def)

interpretation f_u8: field "\<lambda>b. [b]" read_u8 "\<lambda>_. True"
  by unfold_locales (simp add: read_u8_def cursor_take_def)

interpretation f_u32: field le32 read_u32 "\<lambda>_. True"
  by unfold_locales (simp add: read_u32_def cursor_take_append)

interpretation f_u64: field le64 read_u64 "\<lambda>_. True"
  by unfold_locales (simp add: read_u64_def cursor_take_append)

lemma read_u8_Cons [simp]: "read_u8 (b # rest) = Inr (b, rest)"
  using f_u8.dec_enc [of b rest] by simp

definition str_ok :: "bytes \<Rightarrow> bool" where
  "str_ok s \<longleftrightarrow> length s \<le> 255 \<and> utf8_ok s"

definition str_bytes_enc :: "bytes \<Rightarrow> bytes" where
  "str_bytes_enc s = of_nat (length s) # s"

interpretation f_string: field str_bytes_enc decode_string str_ok
proof
  fix s rest assume "str_ok s"
  then show "decode_string (str_bytes_enc s @ rest) = Inr (s, rest)"
    by (simp add: decode_string_def str_bytes_enc_def str_ok_def unat_of_nat cursor_take_append take_bit_nat_eq_self)
qed

lemma read_levels_enc:
  "read_levels (length ls) (concat (map le32 ls) @ rest) = Inr (ls, rest)"
  by (induction ls arbitrary: rest) (simp_all add: f_u32.dec_enc)

interpretation f_task: field encode_task decode_task task_ok
proof
  fix t rest assume ok: "task_ok t"
  show "decode_task (encode_task t @ rest) = Inr (t, rest)"
  proof (cases t)
    case (Some k)
    with ok have "length (tk_levels k) = 8" by (simp add: task_ok_def)
    with read_levels_enc [of "tk_levels k"] Some show ?thesis
      by (simp add: decode_task_def encode_task_def f_u32.dec_enc f_u64.dec_enc)
  qed (simp add: decode_task_def encode_task_def)
qed

interpretation f_segment: field encode_opt_segment decode_opt_segment "\<lambda>_. True"
  by unfold_locales
    (simp add: decode_opt_segment_def encode_opt_segment_def f_u64.dec_enc split: option.split)

definition opt_str_enc :: "bytes option \<Rightarrow> bytes" where
  "opt_str_enc v = (case v of None \<Rightarrow> [0] | Some s \<Rightarrow> 1 # str_bytes_enc s)"

interpretation f_opt_string: field opt_str_enc decode_opt_string "\<lambda>v. \<forall>s. v = Some s \<longrightarrow> str_ok s"
  by unfold_locales (simp add: decode_opt_string_def opt_str_enc_def f_string.dec_enc split: option.split)

lemmas field_laws = f_u32.dec_enc f_u64.dec_enc f_string.dec_enc f_task.dec_enc f_segment.dec_enc
  f_opt_string.dec_enc

lemma encode_string_eq: "encode_string s = Inr bs \<longleftrightarrow> length s \<le> 255 \<and> bs = str_bytes_enc s"
  by (auto simp: encode_string_def str_bytes_enc_def)

section \<open>Descriptors round trip\<close>

fun service_ok :: "guest_service_descriptor \<Rightarrow> bool" where
  "service_ok (BlockWriteback block task) \<longleftrightarrow> utf8_ok block \<and> task_ok task"
| "service_ok (ShmemPut task _ _ _) \<longleftrightarrow> task_ok task"
| "service_ok (ShmemGet task _ _ _) \<longleftrightarrow> task_ok task"
| "service_ok (DfsRead task path) \<longleftrightarrow> utf8_ok path \<and> task_ok task"
| "service_ok (DfsWrite task path _) \<longleftrightarrow> utf8_ok path \<and> task_ok task"
| "service_ok (DbPut task key _) \<longleftrightarrow> utf8_ok key \<and> task_ok task"
| "service_ok (DbGet task key) \<longleftrightarrow> utf8_ok key \<and> task_ok task"

definition io_ok :: "guest_io_descriptor \<Rightarrow> bool" where
  "io_ok io \<longleftrightarrow> task_ok (io_task io) \<and> (\<forall>s. io_block io = Some s \<longrightarrow> utf8_ok s)"

definition descriptor_ok :: "guest_descriptor \<Rightarrow> bool" where
  "descriptor_ok d \<longleftrightarrow> (case d of Io io \<Rightarrow> io_ok io | Service sv \<Rightarrow> service_ok sv)"

lemma bind_enc_Inr: "bind_enc r f = Inr y \<longleftrightarrow> (\<exists>x. r = Inr x \<and> f x = Inr y)"
  by (simp add: bind_enc_def split: sum.split)

lemma service_decoded:
  assumes "service_bytes sv = Inr buf" and "service_ok sv"
  shows "buf \<noteq> [] \<and> hd buf \<noteq> 1 \<and> decode_service (hd buf) (tl buf @ rest) = Inr (sv, rest)"
  using assms
  by (cases sv) (auto simp: bind_enc_Inr encode_string_eq decode_service_def decode_shmem_def decode_named_def
      decode_sized_def field_laws str_ok_def)

lemma io_decoded:
  assumes "io_bytes io = Inr buf" and "io_ok io"
  shows "\<exists>r. buf = 1 # r \<and> decode_io (r @ rest) = Inr (io, rest)"
proof -
  from assms(1) obtain opc b where o: "opcode_byte (io_opcode io) = Inr opc"
    and b: "encode_opt_string (io_block io) = Inr b"
    and buf: "buf = 1 # le64 (io_op_id io) @ encode_task (io_task io) @ le32 (io_entity io) @ opc #
       encode_opt_segment (io_segment io) @ b"
    by (auto simp: io_bytes_def bind_enc_Inr)
  have d: "decode_opcode (opc # xs) = Inr (io_opcode io, xs)" for xs
    using o by (cases "io_opcode io") (auto simp: opcode_byte_def decode_opcode_def)
  have "b = opt_str_enc (io_block io) \<and> (\<forall>s. io_block io = Some s \<longrightarrow> str_ok s)"
    using b assms(2)
    by (cases "io_block io")
      (auto simp: encode_opt_string_def opt_str_enc_def io_ok_def str_ok_def encode_string_eq split: sum.splits)
  with assms(2) show ?thesis
    by (simp add: buf decode_io_def field_laws d io_ok_def)
qed

lemma slot_roundtrip:
  assumes "encode_descriptor d slot_bytes = Inr slot" and "descriptor_ok d"
  shows "decode_descriptor slot = Inr d \<and> length slot = slot_bytes"
proof -
  from assms(1) obtain buf where buf: "(case d of Io io \<Rightarrow> io_bytes io | Service sv \<Rightarrow> service_bytes sv) = Inr buf"
    and slot: "slot = buf @ replicate (slot_bytes - length buf) 0" "length buf \<le> slot_bytes"
    by (auto simp: encode_descriptor_def bind_enc_Inr pad_slot_def split: if_splits)
  have "decode_descriptor (buf @ rest) = Inr d" for rest
  proof (cases d)
    case (Io io)
    with buf assms(2) io_decoded [of io buf rest] show ?thesis
      by (auto simp: decode_descriptor_def descriptor_ok_def)
  next
    case (Service sv)
    with buf assms(2) service_decoded [of sv buf rest] show ?thesis
      by (cases buf) (auto simp: decode_descriptor_def descriptor_ok_def)
  qed
  with slot show ?thesis by simp
qed

text \<open>
  C38: a descriptor that fits a slot is decoded from the slot as it was encoded, whatever the
  padding, for every kind of request, with and without a task.
\<close>

theorem descriptor_roundtrip:
  assumes "encode_descriptor d slot_bytes = Inr slot" and "descriptor_ok d"
  shows "decode_descriptor slot = Inr d \<and> length slot = slot_bytes"
  by (rule slot_roundtrip [OF assms])

end
