(* ===== verification/UB_Probe.thy ===== *)
theory UB_Probe
  imports UB_Device Slot_Wire
begin

text \<open>
  The guest's ring probe (\<^verbatim>\<open>probe.c\<close>): the descriptors it builds, the completions it
  decodes, its address arithmetic, and the phases of \<^verbatim>\<open>probe_ring_path\<close> as scripts of
  accesses to the registers of endpoint 1 and to the two queue pages.

  The descriptors are proved to be the encodings the Rust backend decodes (\<open>Slot_Wire\<close>).
  \<open>UB_Probe_Run\<close> runs the scripts against the device model.
\<close>

section \<open>Descriptors\<close>

definition write_u8_le :: "u8 \<Rightarrow> bytes \<times> nat \<Rightarrow> bytes \<times> nat" where
  "write_u8_le v bo = (put_at (snd bo) [v] (fst bo), snd bo + 1)"

definition write_u32_le :: "u32 \<Rightarrow> bytes \<times> nat \<Rightarrow> bytes \<times> nat" where
  "write_u32_le v bo = (put_at (snd bo) (le32 v) (fst bo), snd bo + 4)"

definition write_u64_le :: "u64 \<Rightarrow> bytes \<times> nat \<Rightarrow> bytes \<times> nat" where
  "write_u64_le v bo = (put_at (snd bo) (le64 v) (fst bo), snd bo + 8)"

text \<open>\<^verbatim>\<open>memcpy\<close> of a key or path and the step past it.\<close>

definition write_text :: "bytes \<Rightarrow> bytes \<times> nat \<Rightarrow> bytes \<times> nat" where
  "write_text t bo = (put_at (snd bo) t (fst bo), snd bo + length t)"

definition clear_slot :: "nat \<Rightarrow> bytes \<times> nat" where
  "clear_slot slot_bytes = (replicate slot_bytes 0, 0)"

definition db_key :: bytes where "db_key = str_bytes ''guest-probe-dbput''"
definition dfs_path :: bytes where "dfs_path = str_bytes ''/guest/probe/dfs-path''"

definition build_dbput_descriptor :: "nat \<Rightarrow> bytes" where
  "build_dbput_descriptor slot_bytes =
     fst (write_u64_le 16 (write_text db_key (write_u8_le (of_nat (length db_key))
           (write_u8_le 0 (write_u8_le 7 (clear_slot slot_bytes))))))"

definition build_dbget_descriptor :: "nat \<Rightarrow> bytes" where
  "build_dbget_descriptor slot_bytes =
     fst (write_text db_key (write_u8_le (of_nat (length db_key))
           (write_u8_le 0 (write_u8_le 8 (clear_slot slot_bytes)))))"

definition build_dfswrite_descriptor :: "nat \<Rightarrow> bytes" where
  "build_dfswrite_descriptor slot_bytes =
     fst (write_u64_le 32 (write_text dfs_path (write_u8_le (of_nat (length dfs_path))
           (write_u8_le 0 (write_u8_le 6 (clear_slot slot_bytes))))))"

definition build_dfsread_descriptor :: "nat \<Rightarrow> bytes" where
  "build_dfsread_descriptor slot_bytes =
     fst (write_text dfs_path (write_u8_le (of_nat (length dfs_path))
           (write_u8_le 0 (write_u8_le 5 (clear_slot slot_bytes)))))"

definition build_shmemput_descriptor :: "nat \<Rightarrow> u32 \<Rightarrow> u64 \<Rightarrow> u64 \<Rightarrow> bytes" where
  "build_shmemput_descriptor slot_bytes requester_entity segment n =
     fst (write_u64_le n (write_u64_le segment (write_u32_le requester_entity
           (write_u8_le 0 (write_u8_le 3 (clear_slot slot_bytes))))))"

definition build_shmemget_descriptor :: "nat \<Rightarrow> u32 \<Rightarrow> u64 \<Rightarrow> u64 \<Rightarrow> bytes" where
  "build_shmemget_descriptor slot_bytes requester_entity segment n =
     fst (write_u64_le n (write_u64_le segment (write_u32_le requester_entity
           (write_u8_le 0 (write_u8_le 4 (clear_slot slot_bytes))))))"

definition build_mixed_descriptor :: "nat \<Rightarrow> nat \<Rightarrow> u64 \<Rightarrow> bytes" where
  "build_mixed_descriptor slot_bytes kind_index default_segment =
     (let k = kind_index mod 6
      in if k = 0 then build_dbput_descriptor slot_bytes
         else if k = 1 then build_dbget_descriptor slot_bytes
         else if k = 2 then build_dfswrite_descriptor slot_bytes
         else if k = 3 then build_dfsread_descriptor slot_bytes
         else if k = 4 then build_shmemput_descriptor slot_bytes 0 default_segment 128
         else build_shmemget_descriptor slot_bytes 0 default_segment 128)"

definition build_invalid_descriptor :: "nat \<Rightarrow> bytes" where
  "build_invalid_descriptor slot_bytes = (replicate slot_bytes 0)[0 := 0xff]"

section \<open>Completions\<close>

record completion_preview =
  cp_op_id :: u64
  cp_task_flag :: u8
  cp_source :: u8
  cp_status :: u8
  cp_finished_at :: u64

definition decode_completion_preview :: "bytes \<Rightarrow> completion_preview option" where
  "decode_completion_preview slot =
     (if length slot < 19 then None
      else Some \<lparr>cp_op_id = of_le (bytes_at 0 8 slot), cp_task_flag = slot ! 8, cp_source = slot ! 9,
                 cp_status = slot ! 10, cp_finished_at = of_le (bytes_at 11 8 slot)\<rparr>)"

record completion_counts =
  cc_shmem :: u64
  cc_dfs :: u64
  cc_db :: u64
  cc_success :: u64
  cc_retryable :: u64
  cc_fatal :: u64

definition no_counts :: completion_counts where
  "no_counts = \<lparr>cc_shmem = 0, cc_dfs = 0, cc_db = 0, cc_success = 0, cc_retryable = 0, cc_fatal = 0\<rparr>"

definition count_completion :: "completion_preview \<Rightarrow> completion_counts \<Rightarrow> completion_counts" where
  "count_completion preview counts =
     (let c1 = (if cp_source preview = 3 then counts\<lparr>cc_shmem := cc_shmem counts + 1\<rparr>
                else if cp_source preview = 4 then counts\<lparr>cc_dfs := cc_dfs counts + 1\<rparr>
                else if cp_source preview = 5 then counts\<lparr>cc_db := cc_db counts + 1\<rparr>
                else counts)
      in if cp_status preview = 1 then c1\<lparr>cc_success := cc_success c1 + 1\<rparr>
         else if cp_status preview = 2 then c1\<lparr>cc_retryable := cc_retryable c1 + 1\<rparr>
         else if cp_status preview = 3 then c1\<lparr>cc_fatal := cc_fatal c1 + 1\<rparr>
         else c1)"

section \<open>Device tree and page map\<close>

definition be32 :: "bytes \<Rightarrow> u32" where
  "be32 p = push_bit 24 (ucast (p ! 0)) OR push_bit 16 (ucast (p ! 1)) OR push_bit 8 (ucast (p ! 2)) OR ucast (p ! 3)"

text \<open>The contents of the property file, \<open>None\<close> where it cannot be read.\<close>

definition read_file_bytes :: "bytes option \<Rightarrow> nat \<Rightarrow> bytes option" where
  "read_file_bytes contents len = map_option (take len) contents"

definition parse_reg_prop :: "bytes option \<Rightarrow> (u64 \<times> u64) option" where
  "parse_reg_prop contents =
     (case read_file_bytes contents 16 of
        None \<Rightarrow> None
      | Some buf \<Rightarrow>
          if length buf < 8 then None
          else if 16 \<le> length buf
          then Some (push_bit 32 (ucast (be32 buf)) OR ucast (be32 (drop 4 buf)),
                     push_bit 32 (ucast (be32 (drop 8 buf))) OR ucast (be32 (drop 12 buf)))
          else Some (ucast (be32 buf), ucast (be32 (drop 4 buf))))"

definition parse_interrupts_prop :: "bytes option \<Rightarrow> (u32 \<times> u32 \<times> u32) option" where
  "parse_interrupts_prop contents =
     (case read_file_bytes contents 12 of
        None \<Rightarrow> None
      | Some buf \<Rightarrow>
          if length buf < 12 then None
          else Some (be32 buf, be32 (drop 4 buf), be32 (drop 8 buf)))"

abbreviation (input) PAGE_SIZE_BYTES :: u64 where "PAGE_SIZE_BYTES \<equiv> 4096"

text \<open>\<open>pagemap\<close> gives the entry of a page, \<open>None\<close> where the read fails.\<close>

definition phys_for_virt :: "(u64 \<Rightarrow> u64 option) \<Rightarrow> u64 \<Rightarrow> u64 option" where
  "phys_for_virt pagemap virt =
     (let page_index = virt div PAGE_SIZE_BYTES; page_off = virt mod PAGE_SIZE_BYTES
      in case pagemap page_index of
           None \<Rightarrow> None
         | Some entry \<Rightarrow>
             if entry AND push_bit 63 1 = 0 then None
             else Some ((entry AND (push_bit 55 1 - 1)) * PAGE_SIZE_BYTES + page_off))"

section \<open>The register script\<close>

text \<open>
  An access to a register of endpoint 1 (\<open>Copy\<close> writes one with the value read from another;
  \<open>Show\<close> is a read whose value is only printed), a store into a queue page and a load of a slot.
\<close>

datatype probe_op =
    Put u64 u64
  | Copy u64 u64
  | Get u64
  | Show u64
  | Store hwaddr bytes
  | Load hwaddr

definition LINQU_ENDPOINT1_OFFSET :: u64 where "LINQU_ENDPOINT1_OFFSET = 0x1000"

definition ep_read :: "u64 \<Rightarrow> ('m, 'b) ub_state \<Rightarrow> u64 \<times> ('m, 'b) ub_state" where
  "ep_read reg s = linqu_ub_mmio_read (LINQU_ENDPOINT1_OFFSET + reg) 8 s"

definition ep_write :: "'m dma_bus \<Rightarrow> u64 \<Rightarrow> u64 \<Rightarrow> ('m, 'b) ub_state \<Rightarrow> ('m, 'b) ub_state option" where
  "ep_write bus reg v s = linqu_ub_mmio_write bus (LINQU_ENDPOINT1_OFFSET + reg) v 8 s"

text \<open>The values and slots obtained, and the device afterwards.\<close>

fun run_probe ::
  "'m dma_bus \<Rightarrow> probe_op list \<Rightarrow> ('m, 'b) ub_state \<Rightarrow> (u64 list \<times> bytes list \<times> ('m, 'b) ub_state) option" where
  "run_probe bus [] s = Some ([], [], s)"
| "run_probe bus (Put reg v # ops) s = Option.bind (ep_write bus reg v s) (run_probe bus ops)"
| "run_probe bus (Copy dst src # ops) s =
     (let (v, s1) = ep_read src s in Option.bind (ep_write bus dst v s1) (run_probe bus ops))"
| "run_probe bus (Get reg # ops) s =
     (let (v, s1) = ep_read reg s
      in map_option (\<lambda>(vs, slots, t). (v # vs, slots, t)) (run_probe bus ops s1))"
| "run_probe bus (Show reg # ops) s = run_probe bus ops (snd (ep_read reg s))"
| "run_probe bus (Store a bs # ops) s =
     run_probe bus ops (s\<lparr>address_space_memory := snd (dma_memory_write bus (address_space_memory s) a bs)\<rparr>)"
| "run_probe bus (Load a # ops) s =
     (case dma_memory_read bus (address_space_memory s) a 64 of
        None \<Rightarrow> None
      | Some slot \<Rightarrow> map_option (\<lambda>(vs, slots, t). (vs, slot # slots, t)) (run_probe bus ops s))"

lemma run_probe_append:
  "run_probe bus (xs @ ys) s =
    Option.bind (run_probe bus xs s) (\<lambda>(vs, slots, t).
      map_option (\<lambda>(ws, slots', u). (vs @ ws, slots @ slots', u)) (run_probe bus ys t))"
proof (induction xs arbitrary: s)
  case Nil
  show ?case by (cases "run_probe bus ys s") auto
next
  case (Cons x xs)
  show ?case
    using Cons
    by (cases x) (auto simp: Let_def case_prod_beta option.map_comp comp_def split: bind_splits option.split)
qed

section \<open>The phases of the ring probe\<close>

text \<open>
  \<open>cmdq\<close> and \<open>cq\<close> are the physical addresses of the two queue pages and \<open>seg\<close> the
  default segment read at the start. The scripts cover the probe without its two interrupt modes,
  in which a kernel driver or a UIO file acknowledges interrupts in between
  (\<^verbatim>\<open>guest_driver_mode\<close> is false).
\<close>

definition page_zero :: bytes where "page_zero = replicate 4096 0"

definition slot_at :: "hwaddr \<Rightarrow> nat \<Rightarrow> hwaddr" where
  "slot_at base k = base + of_nat (k * 64)"

definition probe_init :: "hwaddr \<Rightarrow> hwaddr \<Rightarrow> probe_op list" where
  "probe_init cmdq cq =
     [Store cmdq page_zero, Store cq page_zero, Store cmdq (build_dbput_descriptor 64),
      Get LINQU_UB_REG_DEFAULT_SEGMENT]"

definition probe_descriptors :: "hwaddr \<Rightarrow> u64 \<Rightarrow> probe_op list" where
  "probe_descriptors cmdq seg =
     [Store (slot_at cmdq 0) (build_dbput_descriptor 64), Store (slot_at cmdq 1) (build_dbget_descriptor 64),
      Store (slot_at cmdq 2) (build_dfswrite_descriptor 64), Store (slot_at cmdq 3) (build_dfsread_descriptor 64),
      Store (slot_at cmdq 4) (build_shmemput_descriptor 64 0 seg 128),
      Store (slot_at cmdq 5) (build_shmemget_descriptor 64 0 seg 128)]"

definition program_rings :: "hwaddr \<Rightarrow> hwaddr \<Rightarrow> probe_op list" where
  "program_rings cmdq cq =
     [Put LINQU_UB_REG_CMDQ_BASE_LO (ucast (ucast cmdq :: u32)), Put LINQU_UB_REG_CMDQ_BASE_HI (drop_bit 32 cmdq),
      Put LINQU_UB_REG_CQ_BASE_LO (ucast (ucast cq :: u32)), Put LINQU_UB_REG_CQ_BASE_HI (drop_bit 32 cq),
      Put LINQU_UB_REG_CQ_HEAD 0, Put LINQU_UB_REG_CMDQ_TAIL 6]"

definition backend_overflow_phase :: "hwaddr \<Rightarrow> hwaddr \<Rightarrow> probe_op list" where
  "backend_overflow_phase cmdq cq =
     program_rings cmdq cq @
     [Put LINQU_UB_REG_DOORBELL 6, Get LINQU_UB_REG_CMDQ_HEAD, Get LINQU_UB_REG_CQ_TAIL,
      Get LINQU_UB_REG_LAST_ERROR, Get LINQU_UB_REG_IRQ_STATUS,
      Copy LINQU_UB_REG_IRQ_ACK LINQU_UB_REG_IRQ_STATUS, Get LINQU_UB_REG_IRQ_STATUS]"

definition ring_phase :: "hwaddr \<Rightarrow> hwaddr \<Rightarrow> probe_op list" where
  "ring_phase cmdq cq =
     program_rings cmdq cq @
     [Show LINQU_UB_REG_CMDQ_TAIL, Show LINQU_UB_REG_IRQ_STATUS, Show LINQU_UB_REG_STATUS,
      Put LINQU_UB_REG_DOORBELL 6, Show LINQU_UB_REG_IRQ_STATUS, Show LINQU_UB_REG_STATUS,
      Get LINQU_UB_REG_CMDQ_HEAD, Get LINQU_UB_REG_CQ_TAIL, Show LINQU_UB_REG_STATUS,
      Get LINQU_UB_REG_IRQ_STATUS, Get LINQU_UB_REG_LAST_ERROR] @
     map (\<lambda>i. Load (slot_at cq i)) [0..<6] @
     [Put LINQU_UB_REG_CQ_HEAD 3, Get LINQU_UB_REG_CQ_HEAD, Show LINQU_UB_REG_STATUS,
      Get LINQU_UB_REG_IRQ_STATUS, Copy LINQU_UB_REG_CQ_HEAD LINQU_UB_REG_CQ_TAIL,
      Get LINQU_UB_REG_CQ_HEAD, Show LINQU_UB_REG_STATUS, Get LINQU_UB_REG_IRQ_STATUS,
      Copy LINQU_UB_REG_IRQ_ACK LINQU_UB_REG_IRQ_STATUS, Get LINQU_UB_REG_IRQ_STATUS]"

definition stress_batch :: nat where "stress_batch = 18"
definition stress_start :: nat where "stress_start = 6"
definition stress_cq_start :: nat where "stress_cq_start = 6"

definition stress_phase :: "hwaddr \<Rightarrow> hwaddr \<Rightarrow> u64 \<Rightarrow> probe_op list" where
  "stress_phase cmdq cq seg =
     [Store cq page_zero, Put LINQU_UB_REG_CQ_HEAD 0, Copy LINQU_UB_REG_IRQ_ACK LINQU_UB_REG_IRQ_STATUS] @
     map (\<lambda>i. Store (slot_at cmdq (stress_start + i)) (build_mixed_descriptor 64 i seg)) [0..<stress_batch] @
     [Put LINQU_UB_REG_CMDQ_TAIL (of_nat (stress_start + stress_batch)), Show LINQU_UB_REG_CMDQ_TAIL,
      Put LINQU_UB_REG_DOORBELL (of_nat stress_batch), Get LINQU_UB_REG_CMDQ_HEAD, Get LINQU_UB_REG_CQ_TAIL,
      Get LINQU_UB_REG_LAST_ERROR, Get LINQU_UB_REG_IRQ_STATUS] @
     map (\<lambda>i. Load (slot_at cq (stress_cq_start + i))) [0..<stress_batch] @
     [Copy LINQU_UB_REG_CQ_HEAD LINQU_UB_REG_CQ_TAIL, Get LINQU_UB_REG_CQ_HEAD, Get LINQU_UB_REG_IRQ_STATUS,
      Copy LINQU_UB_REG_IRQ_ACK LINQU_UB_REG_IRQ_STATUS, Get LINQU_UB_REG_IRQ_STATUS]"

text \<open>One round of the overflow phase: descriptors from \<open>start\<close> on, wrapping at 32, the new tail
  and the doorbell.\<close>

definition overflow_round :: "hwaddr \<Rightarrow> u64 \<Rightarrow> nat \<Rightarrow> nat \<Rightarrow> u64 \<Rightarrow> probe_op list" where
  "overflow_round cmdq seg start batch tail =
     map (\<lambda>i. Store (slot_at cmdq ((start + i) mod 32)) (build_mixed_descriptor 64 i seg)) [0..<batch] @
     [Put LINQU_UB_REG_CMDQ_TAIL tail, Put LINQU_UB_REG_DOORBELL (of_nat batch), Get LINQU_UB_REG_CMDQ_HEAD]"

definition overflow_phase :: "hwaddr \<Rightarrow> u64 \<Rightarrow> probe_op list" where
  "overflow_phase cmdq seg =
     overflow_round cmdq seg 24 31 23 @ overflow_round cmdq seg 55 31 22 @ overflow_round cmdq seg 86 2 24 @
     [Get LINQU_UB_REG_CQ_TAIL, Get LINQU_UB_REG_LAST_ERROR, Get LINQU_UB_REG_IRQ_STATUS,
      Copy LINQU_UB_REG_CQ_HEAD LINQU_UB_REG_CQ_TAIL, Get LINQU_UB_REG_CQ_HEAD, Get LINQU_UB_REG_IRQ_STATUS,
      Put LINQU_UB_REG_DOORBELL 0, Get LINQU_UB_REG_CQ_TAIL, Get LINQU_UB_REG_IRQ_STATUS,
      Copy LINQU_UB_REG_CQ_HEAD LINQU_UB_REG_CQ_TAIL, Get LINQU_UB_REG_CQ_HEAD,
      Copy LINQU_UB_REG_IRQ_ACK LINQU_UB_REG_IRQ_STATUS, Get LINQU_UB_REG_IRQ_STATUS]"

definition invalid_phase :: "hwaddr \<Rightarrow> hwaddr \<Rightarrow> probe_op list" where
  "invalid_phase cmdq cq =
     [Store cq page_zero, Put LINQU_UB_REG_CQ_HEAD 0, Copy LINQU_UB_REG_IRQ_ACK LINQU_UB_REG_IRQ_STATUS,
      Store (slot_at cmdq (stress_start + stress_batch)) (build_invalid_descriptor 64),
      Put LINQU_UB_REG_CMDQ_TAIL (of_nat (stress_start + stress_batch + 1)), Show LINQU_UB_REG_CMDQ_TAIL,
      Put LINQU_UB_REG_DOORBELL 1, Get LINQU_UB_REG_CMDQ_HEAD, Get LINQU_UB_REG_CQ_TAIL,
      Get LINQU_UB_REG_LAST_ERROR, Get LINQU_UB_REG_IRQ_STATUS,
      Copy LINQU_UB_REG_IRQ_ACK LINQU_UB_REG_IRQ_STATUS, Get LINQU_UB_REG_IRQ_STATUS]"

definition range_phase :: "probe_op list" where
  "range_phase =
     [Copy LINQU_UB_REG_IRQ_ACK LINQU_UB_REG_IRQ_STATUS, Get LINQU_UB_REG_CMDQ_TAIL,
      Copy LINQU_UB_REG_CMDQ_TAIL LINQU_UB_REG_CMDQ_SIZE, Get LINQU_UB_REG_CMDQ_TAIL,
      Get LINQU_UB_REG_LAST_ERROR, Get LINQU_UB_REG_IRQ_STATUS,
      Copy LINQU_UB_REG_IRQ_ACK LINQU_UB_REG_IRQ_STATUS, Get LINQU_UB_REG_IRQ_STATUS]"

section \<open>What the probe expects\<close>

text \<open>The assertions, as pairs of the actual and the expected value.\<close>

fun expect_backend_overflow :: "u64 list \<Rightarrow> (u64 \<times> u64) list" where
  "expect_backend_overflow [head, tail, err, irqs, irq_ack] = [(head, 0), (tail, 0), (err, 5), (irqs, 2), (irq_ack, 0)]"
| "expect_backend_overflow _ = [(0, 1)]"

fun expect_ring :: "u64 \<Rightarrow> u64 list \<Rightarrow> (u64 \<times> u64) list" where
  "expect_ring seg [head, tail, irqs, err, cqh_partial, irq_partial, cqh_consume, irq_consume, irq_ack] =
     [(if seg \<noteq> 0 then 1 else 0, 1), (head, 6), (tail, 6), (err, 0), (irqs, 1), (cqh_partial, 3),
      (irq_partial, 1), (cqh_consume, 6), (irq_consume, 0), (irq_ack, 0)]"
| "expect_ring seg _ = [(0, 1)]"

definition expect_completion :: "completion_preview \<Rightarrow> u64 \<times> u8 \<Rightarrow> (u64 \<times> u64) list" where
  "expect_completion p e = [(cp_op_id p, fst e), (ucast (cp_source p), ucast (snd e)), (ucast (cp_status p), 1)]"

text \<open>The operation id and source expected of each of the six completions.\<close>

definition ring_completions :: "(u64 \<times> u8) list" where
  "ring_completions = [(1, 3), (2, 3), (1, 4), (2, 4), (1, 5), (2, 5)]"

definition expect_completions :: "completion_preview list \<Rightarrow> (u64 \<times> u64) list" where
  "expect_completions ps = concat (map (\<lambda>(p, e). expect_completion p e) (zip ps ring_completions))"

fun expect_stress :: "u64 list \<Rightarrow> (u64 \<times> u64) list" where
  "expect_stress [head, tail, err, irqs, cqh, irq_consume, irq_ack] =
     [(head, of_nat (stress_start + stress_batch)), (tail, of_nat (stress_cq_start + stress_batch)), (err, 0),
      (irqs, 1), (cqh, of_nat (stress_cq_start + stress_batch)), (irq_consume, 0), (irq_ack, 0)]"
| "expect_stress _ = [(0, 1)]"

definition expect_counts :: "completion_counts \<Rightarrow> (u64 \<times> u64) list" where
  "expect_counts c = [(cc_shmem c, 6), (cc_dfs c, 6), (cc_db c, 6), (cc_success c, 18), (cc_retryable c, 0), (cc_fatal c, 0)]"

fun expect_overflow :: "u64 list \<Rightarrow> (u64 \<times> u64) list" where
  "expect_overflow [h1, h2, h3, tail3, err3, irq3, cqh_drain, irq_drain, tail_repoll, irq_repoll, cqh_repoll, irq_ack] =
     [(h1, 23), (h2, 22), (h3, 24), (tail3, 23), (err3, 0), (irq3, 5), (cqh_drain, 23), (irq_drain, 4),
      (tail_repoll, 24), (irq_repoll, 5), (cqh_repoll, 24), (irq_ack, 0)]"
| "expect_overflow _ = [(0, 1)]"

fun expect_invalid :: "u64 list \<Rightarrow> (u64 \<times> u64) list" where
  "expect_invalid [head, tail, err, irqs, irq_ack] =
     [(head, of_nat (stress_start + stress_batch)), (tail, of_nat (stress_cq_start + stress_batch)), (err, 7),
      (irqs, 2), (irq_ack, 0)]"
| "expect_invalid _ = [(0, 1)]"

fun expect_range :: "u64 list \<Rightarrow> (u64 \<times> u64) list" where
  "expect_range [tail_before, tail_after, err, irqs, irq_ack] =
     [(tail_after, tail_before), (err, 6), (irqs, 2), (irq_ack, 0)]"
| "expect_range _ = [(0, 1)]"

definition expect_all :: "(u64 \<times> u64) list \<Rightarrow> bool" where
  "expect_all ps = list_all (\<lambda>(actual, expected). actual = expected) ps"

definition previews :: "bytes list \<Rightarrow> completion_preview list" where
  "previews slots = map (\<lambda>slot. the (decode_completion_preview slot)) slots"

text \<open>
  \<^verbatim>\<open>probe_ring_path\<close> after the mappings are made: whether it returns 0, and the device. The
  slots loaded have 64 bytes, so \<open>decode_completion_preview\<close> returns a value.
\<close>

definition probe_ring_path ::
  "'m dma_bus \<Rightarrow> bool \<Rightarrow> hwaddr \<Rightarrow> hwaddr \<Rightarrow> ('m, 'b) ub_state \<Rightarrow> (bool \<times> ('m, 'b) ub_state) option" where
  "probe_ring_path bus backend_overflow_mode cmdq cq s =
     Option.bind (run_probe bus (probe_init cmdq cq) s) (\<lambda>(start, _, s1). let seg = hd start in
     Option.bind (run_probe bus (probe_descriptors cmdq seg) s1) (\<lambda>(_, _, s2).
     if backend_overflow_mode
     then map_option (\<lambda>(vs, _, t). (expect_all (expect_backend_overflow vs), t))
            (run_probe bus (backend_overflow_phase cmdq cq) s2)
     else
       Option.bind (run_probe bus (ring_phase cmdq cq) s2) (\<lambda>(rs, slots, s3).
       Option.bind (run_probe bus (stress_phase cmdq cq seg) s3) (\<lambda>(ss, slots', s4).
       Option.bind (run_probe bus (overflow_phase cmdq seg) s4) (\<lambda>(os, _, s5).
       Option.bind (run_probe bus (invalid_phase cmdq cq) s5) (\<lambda>(is, _, s6).
       Option.bind (run_probe bus range_phase s6) (\<lambda>(gs, _, s7).
         Some (expect_all (expect_ring seg rs @ expect_completions (previews slots) @ expect_stress ss @
                 expect_counts (fold count_completion (previews slots') no_counts) @
                 expect_overflow os @ expect_invalid is @ expect_range gs), s7))))))))"

section \<open>The descriptors are what the backend decodes\<close>

lemma put_at_replicate:
  "length xs = n \<Longrightarrow> length ys \<le> m \<Longrightarrow>
    put_at n ys (xs @ replicate m 0) = (xs @ ys) @ replicate (m - length ys) 0"
  by (simp add: put_at_def drop_append min_def)

text \<open>A slot whose first \<open>n\<close> bytes are written: the next field is appended.\<close>

definition built :: "nat \<Rightarrow> bytes \<Rightarrow> bytes \<times> nat" where
  "built slot_bytes xs = (xs @ replicate (slot_bytes - length xs) 0, length xs)"

lemma built_start: "clear_slot n = built n []"
  by (simp add: clear_slot_def built_def)

lemma fst_built: "fst (built n xs) = xs @ replicate (n - length xs) 0"
  by (simp add: built_def)

lemma built_fields:
  "length xs + 1 \<le> n \<Longrightarrow> write_u8_le v (built n xs) = built n (xs @ [v])"
  "length xs + 4 \<le> n \<Longrightarrow> write_u32_le w (built n xs) = built n (xs @ le32 w)"
  "length xs + 8 \<le> n \<Longrightarrow> write_u64_le x (built n xs) = built n (xs @ le64 x)"
  "length xs + length t \<le> n \<Longrightarrow> write_text t (built n xs) = built n (xs @ t)"
  by (simp_all add: write_u8_le_def write_u32_le_def write_u64_le_def write_text_def built_def
      put_at_replicate)

definition mixed_request :: "nat \<Rightarrow> u64 \<Rightarrow> guest_service_descriptor" where
  "mixed_request kind_index seg =
     (let k = kind_index mod 6
      in if k = 0 then DbPut None db_key 16 else if k = 1 then DbGet None db_key
         else if k = 2 then DfsWrite None dfs_path 32 else if k = 3 then DfsRead None dfs_path
         else if k = 4 then ShmemPut None 0 seg 128 else ShmemGet None 0 seg 128)"

lemma text_facts:
  "length db_key = 17" "utf8_ok db_key" "length dfs_path = 21" "utf8_ok dfs_path"
  by (simp_all add: db_key_def dfs_path_def str_bytes_def)

lemma mixed_encoded:
  "encode_descriptor (Service (mixed_request k seg)) 64 = Inr (build_mixed_descriptor 64 k seg)"
  by (simp add: mixed_request_def build_mixed_descriptor_def Let_def build_dbput_descriptor_def
      build_dbget_descriptor_def build_dfswrite_descriptor_def build_dfsread_descriptor_def
      build_shmemput_descriptor_def build_shmemget_descriptor_def built_start built_fields text_facts
      fst_built encode_descriptor_def encode_string_def bind_enc_def pad_slot_def encode_task_def)

lemma mixed_ok: "descriptor_ok (Service (mixed_request k seg))"
  by (simp add: descriptor_ok_def mixed_request_def Let_def text_facts task_ok_def)

text \<open>
  Every descriptor the probe builds, for every kind index and segment, is the slot the backend
  decodes to the intended request; the probe's invalid descriptor is one the backend refuses.
\<close>

theorem probe_descriptors_decoded:
  "decode_descriptor (build_mixed_descriptor 64 k seg) = Inr (Service (mixed_request k seg)) \<and>
   length (build_mixed_descriptor 64 k seg) = 64 \<and>
   decode_descriptor (build_invalid_descriptor 64) = Inl ''invalid descriptor kind''"
proof -
  have "build_invalid_descriptor 64 = 0xff # replicate 63 0"
    by (simp add: build_invalid_descriptor_def eval_nat_numeral)
  then have "decode_descriptor (build_invalid_descriptor 64) = Inl ''invalid descriptor kind''"
    by (simp add: decode_descriptor_def decode_service_def)
  moreover have "decode_descriptor (build_mixed_descriptor 64 k seg) = Inr (Service (mixed_request k seg)) \<and>
      length (build_mixed_descriptor 64 k seg) = 64"
    by (rule slot_roundtrip [OF mixed_encoded mixed_ok])
  ultimately show ?thesis by blast
qed

text \<open>
  A completion without a task is read correctly by the probe in its id, source and status; the
  time it finished is read correctly when it succeeded (a failure carries a message where the probe
  expects the time).
\<close>

theorem completion_preview_reads:
  assumes "encode_completion ev 64 = Inr slot" and "ce_task ev = None"
  shows "\<exists>p. decode_completion_preview slot = Some p \<and> cp_op_id p = ce_op_id ev \<and> cp_task_flag p = 0 \<and>
    cp_source p = source_byte (ce_source ev) \<and>
    cp_status p = (case ce_status ev of Success \<Rightarrow> 1 | RetryableFailure _ \<Rightarrow> 2 | FatalFailure _ \<Rightarrow> 3) \<and>
    (ce_status ev = Success \<longrightarrow> cp_finished_at p = ce_finished_at ev)"
proof -
  from assms obtain st m where st: "status_bytes (ce_status ev) = Inr st"
    and slot: "slot = le64 (ce_op_id ev) @ [0, source_byte (ce_source ev)] @ st @ le64 (ce_finished_at ev) @ replicate m 0"
    by (auto simp: encode_completion_def bind_enc_Inr pad_slot_def encode_task_def split: if_splits)
  have hd: "st \<noteq> []" "hd st = (case ce_status ev of Success \<Rightarrow> 1 | RetryableFailure _ \<Rightarrow> 2 | FatalFailure _ \<Rightarrow> 3)"
    "ce_status ev = Success \<Longrightarrow> st = [1]"
    using st by (cases "ce_status ev"; auto simp: bind_enc_Inr)+
  then obtain s0 st' where c: "st = s0 # st'" by (cases st) auto
  have "length slot \<ge> 19" by (simp add: slot c)
  moreover have "bytes_at 0 8 slot = le64 (ce_op_id ev)" "slot ! 8 = 0" "slot ! 9 = source_byte (ce_source ev)" "slot ! 10 = s0"
    by (simp_all add: slot c bytes_at_def nth_append)
  moreover have "bytes_at 11 8 slot = le64 (ce_finished_at ev)" if "ce_status ev = Success"
    using hd(3) [OF that] by (simp add: slot bytes_at_def)
  ultimately show ?thesis
    using hd(2) c by (simp add: decode_completion_preview_def)
qed

end
