(* ===== verification/UB_Probe_Run.thy ===== *)
theory UB_Probe_Run
  imports UB_Driver UB_Probe
begin

text \<open>
  The ring probe against the device. \<open>ring_view\<close> is an abstract machine with the registers the
  probe looks at, numbers for indices, the numbers of the completions in the completion ring, and a
  counter of completions produced and delivered; \<open>run_view\<close> runs scripts on it. The device with
  flat guest RAM and a backend that keeps its contract (\<open>fifo_backend\<close>) simulates that machine, so
  what the probe observes can be computed on it.
\<close>

section \<open>What the device relies on in the backend\<close>

text \<open>
  The contract of \<^verbatim>\<open>linqu_ub_bridge.h\<close>, with \<open>acc\<close> the descriptors submitted since the
  last doorbell, \<open>ready\<close> the completions not yet polled and \<open>log\<close> all completions produced: a slot that decodes is accepted while
  there is room, another is refused; a doorbell over all submitted descriptors produces one completion
  for each; a poll delivers the oldest completion, or returns 1.
\<close>

definition accepts :: "('b \<Rightarrow> bytes list) \<Rightarrow> ('b \<Rightarrow> bytes list) \<Rightarrow> ('b \<Rightarrow> bytes list) \<Rightarrow> ('b \<Rightarrow> u16 \<Rightarrow> bytes \<Rightarrow> int \<times> 'b) \<Rightarrow> bool" where
  "accepts acc ready log submit \<longleftrightarrow>
     (\<forall>b slot. length (acc b) < 32 \<longrightarrow>
        ready (snd (submit b 1 slot)) = ready b \<and> log (snd (submit b 1 slot)) = log b \<and>
        (case decode_descriptor slot of
           Inr _ \<Rightarrow> fst (submit b 1 slot) = 0 \<and> acc (snd (submit b 1 slot)) = acc b @ [slot]
         | Inl _ \<Rightarrow> fst (submit b 1 slot) = -1 \<and> acc (snd (submit b 1 slot)) = acc b))"

definition executes :: "('b \<Rightarrow> bytes list) \<Rightarrow> ('b \<Rightarrow> bytes list) \<Rightarrow> ('b \<Rightarrow> bytes list) \<Rightarrow> ('b \<Rightarrow> u16 \<Rightarrow> u32 \<Rightarrow> int \<times> u32 \<times> u32 \<times> 'b) \<Rightarrow> bool" where
  "executes acc ready log doorbell \<longleftrightarrow>
     (\<forall>b. length (acc b) \<le> 32 \<longrightarrow>
        (\<exists>p q b' cs. doorbell b 1 (of_nat (length (acc b))) = (0, p, q, b') \<and> acc b' = [] \<and>
           ready b' = ready b @ cs \<and> log b' = log b @ cs \<and> length cs = length (acc b)))"

definition delivers :: "('b \<Rightarrow> bytes list) \<Rightarrow> ('b \<Rightarrow> bytes list) \<Rightarrow> ('b \<Rightarrow> bytes list) \<Rightarrow> ('b \<Rightarrow> u16 \<Rightarrow> u32 \<Rightarrow> int \<times> bytes \<times> 'b) \<Rightarrow> bool" where
  "delivers acc ready log poll \<longleftrightarrow>
     (\<forall>b. (\<forall>c \<in> set (ready b). length c = 64) \<and>
        (case ready b of
           [] \<Rightarrow> (\<exists>x b'. poll b 1 64 = (1, x, b') \<and> ready b' = [] \<and> acc b' = acc b \<and> log b' = log b)
         | c # cs \<Rightarrow> (\<exists>b'. poll b 1 64 = (0, c, b') \<and> ready b' = cs \<and> acc b' = acc b \<and> log b' = log b)))"

definition fifo_backend :: "('b \<Rightarrow> bytes list) \<Rightarrow> ('b \<Rightarrow> bytes list) \<Rightarrow> ('b \<Rightarrow> bytes list) \<Rightarrow> 'b backend_ops \<Rightarrow> bool" where
  "fifo_backend acc ready log ops \<longleftrightarrow>
     (\<exists>submit doorbell poll. op_submit_slot ops = Some submit \<and> op_ring_doorbell ops = Some doorbell \<and>
        op_poll_completion ops = Some poll \<and> accepts acc ready log submit \<and> executes acc ready log doorbell \<and>
        delivers acc ready log poll)"

section \<open>The abstract machine\<close>

record ring_view =
  rv_seg :: u64
  rv_head :: nat
  rv_tail :: nat
  rv_cq_head :: nat
  rv_cq_tail :: nat
  rv_irq :: u64
  rv_err :: u64
  rv_cmds :: "bool list"
  rv_cq :: "nat option list"
  rv_done :: nat
  rv_taken :: nat

datatype view_op =
    VPut u64 u64
  | VCopy u64 u64
  | VGet u64
  | VShow u64
  | VCmd nat bool
  | VClear
  | VLoad nat

definition view_error :: "u64 \<Rightarrow> ring_view \<Rightarrow> ring_view" where
  "view_error c v = v\<lparr>rv_err := c, rv_irq := rv_irq v OR LINQU_UB_IRQ_ERROR\<rparr>"

definition view_pending :: "ring_view \<Rightarrow> nat" where
  "view_pending v = (rv_tail v + 32 - rv_head v) mod 32"

definition view_cq_pending :: "ring_view \<Rightarrow> nat" where
  "view_cq_pending v = (rv_cq_tail v + 64 - rv_cq_head v) mod 64"

definition deliver1 :: "ring_view \<Rightarrow> ring_view" where
  "deliver1 v = v\<lparr>rv_cq := (rv_cq v)[rv_cq_tail v := Some (rv_taken v)], rv_cq_tail := (rv_cq_tail v + 1) mod 64,
     rv_taken := rv_taken v + 1, rv_irq := rv_irq v OR LINQU_UB_IRQ_COMPLETION\<rparr>"

definition view_flush :: "ring_view \<Rightarrow> ring_view" where
  "view_flush v =
     (let w = (deliver1 ^^ min (rv_done v - rv_taken v) (63 - view_cq_pending v)) v
      in if view_cq_pending w = 63 then w\<lparr>rv_irq := rv_irq w OR LINQU_UB_IRQ_CQ_OVERFLOW\<rparr> else w)"

text \<open>A doorbell whose batch is all decodable, or fails at its first descriptor.\<close>

definition view_doorbell :: "nat \<Rightarrow> ring_view \<Rightarrow> ring_view option" where
  "view_doorbell batch v =
     (let n = min batch (view_pending v);
          good = map (\<lambda>k. rv_cmds v ! ((rv_head v + k) mod 32)) [0..<n]
      in if list_all id good
         then Some (view_flush (v\<lparr>rv_head := (rv_head v + n) mod 32, rv_done := rv_done v + n\<rparr>))
         else if \<not> hd good then Some (view_error LINQU_UB_ERR_INVALID_DESCRIPTOR v)
         else None)"

definition view_put :: "u64 \<Rightarrow> u64 \<Rightarrow> ring_view \<Rightarrow> ring_view option" where
  "view_put reg x v =
     (if reg = LINQU_UB_REG_CMDQ_TAIL
      then Some (if 32 \<le> x then view_error LINQU_UB_ERR_RANGE v else v\<lparr>rv_tail := unat x\<rparr>)
      else if reg = LINQU_UB_REG_CQ_HEAD
      then Some (if 64 \<le> x then view_error LINQU_UB_ERR_RANGE v
                 else if unat x = rv_cq_tail v
                 then v\<lparr>rv_cq_head := unat x, rv_irq := rv_irq v AND NOT LINQU_UB_IRQ_COMPLETION\<rparr>
                 else v\<lparr>rv_cq_head := unat x\<rparr>)
      else if reg = LINQU_UB_REG_DOORBELL
      then (if x < 2 ^ 32 then view_doorbell (if x = 0 then 32 else unat x) v else None)
      else if reg = LINQU_UB_REG_IRQ_ACK then Some (v\<lparr>rv_irq := rv_irq v AND NOT x\<rparr>)
      else None)"

definition view_get :: "u64 \<Rightarrow> ring_view \<Rightarrow> u64 option" where
  "view_get reg v =
     (if reg = LINQU_UB_REG_CMDQ_SIZE then Some 32
      else if reg = LINQU_UB_REG_CMDQ_HEAD then Some (of_nat (rv_head v))
      else if reg = LINQU_UB_REG_CMDQ_TAIL then Some (of_nat (rv_tail v))
      else if reg = LINQU_UB_REG_CQ_HEAD then Some (of_nat (rv_cq_head v))
      else if reg = LINQU_UB_REG_CQ_TAIL then Some (of_nat (rv_cq_tail v))
      else if reg = LINQU_UB_REG_LAST_ERROR then Some (rv_err v)
      else if reg = LINQU_UB_REG_IRQ_STATUS then Some (rv_irq v)
      else if reg = LINQU_UB_REG_DEFAULT_SEGMENT then Some (rv_seg v)
      else None)"

definition shown_regs :: "u64 list" where
  "shown_regs = [LINQU_UB_REG_CMDQ_TAIL, LINQU_UB_REG_IRQ_STATUS, LINQU_UB_REG_STATUS]"

definition view_step :: "view_op \<Rightarrow> ring_view \<Rightarrow> (u64 list \<times> nat list \<times> ring_view) option" where
  "view_step vo v =
     (case vo of
        VPut reg x \<Rightarrow> map_option (\<lambda>w. ([], [], w)) (view_put reg x v)
      | VCopy dst src \<Rightarrow>
          Option.bind (view_get src v) (\<lambda>x. map_option (\<lambda>w. ([], [], w)) (view_put dst x v))
      | VGet reg \<Rightarrow> map_option (\<lambda>x. ([x], [], v)) (view_get reg v)
      | VShow reg \<Rightarrow> if reg \<in> set shown_regs then Some ([], [], v) else None
      | VCmd k good \<Rightarrow> if k < 32 then Some ([], [], v\<lparr>rv_cmds := (rv_cmds v)[k := good]\<rparr>) else None
      | VClear \<Rightarrow> Some ([], [], v\<lparr>rv_cq := replicate 64 None\<rparr>)
      | VLoad k \<Rightarrow> if k < 64 then map_option (\<lambda>i. ([], [i], v)) (rv_cq v ! k) else None)"

fun run_view :: "view_op list \<Rightarrow> ring_view \<Rightarrow> (u64 list \<times> nat list \<times> ring_view) option" where
  "run_view [] v = Some ([], [], v)"
| "run_view (vo # vos) v =
     Option.bind (view_step vo v) (\<lambda>(xs, ks, w).
       map_option (\<lambda>(ys, ls, u). (xs @ ys, ks @ ls, u)) (run_view vos w))"

text \<open>The abstract operation of a concrete one.\<close>

fun op_rel :: "hwaddr \<Rightarrow> hwaddr \<Rightarrow> probe_op \<Rightarrow> view_op \<Rightarrow> bool" where
  "op_rel cmdq cq (Put reg x) vo \<longleftrightarrow> vo = VPut reg x"
| "op_rel cmdq cq (Copy dst src) vo \<longleftrightarrow> vo = VCopy dst src"
| "op_rel cmdq cq (Get reg) vo \<longleftrightarrow> vo = VGet reg"
| "op_rel cmdq cq (Show reg) vo \<longleftrightarrow> vo = VShow reg"
| "op_rel cmdq cq (Store a bs) vo \<longleftrightarrow>
     (case vo of
        VCmd k good \<Rightarrow> a = slot_at cmdq k \<and> length bs = 64 \<and> (good \<longleftrightarrow> (\<exists>d. decode_descriptor bs = Inr d))
      | VClear \<Rightarrow> a = cq \<and> length bs = 4096
      | _ \<Rightarrow> False)"
| "op_rel cmdq cq (Load a) vo \<longleftrightarrow> (\<exists>k. vo = VLoad k \<and> a = slot_at cq k)"

section \<open>Guest memory\<close>

definition pages_ok :: "hwaddr \<Rightarrow> hwaddr \<Rightarrow> guest_ram \<Rightarrow> bool" where
  "pages_ok cmdq cq m \<longleftrightarrow>
     unat cmdq + 4096 \<le> ram_limit m \<and> unat cq + 4096 \<le> ram_limit m \<and>
     unat cmdq + 4096 \<le> 2 ^ 64 \<and> unat cq + 4096 \<le> 2 ^ 64 \<and>
     (unat cmdq + 4096 \<le> unat cq \<or> unat cq + 4096 \<le> unat cmdq)"

definition mem_rel :: "hwaddr \<Rightarrow> hwaddr \<Rightarrow> bytes list \<Rightarrow> guest_ram \<Rightarrow> ring_view \<Rightarrow> bool" where
  "mem_rel cmdq cq hist m v \<longleftrightarrow>
     pages_ok cmdq cq m \<and> length (rv_cmds v) = 32 \<and> length (rv_cq v) = 64 \<and>
     (\<forall>k < 32. \<exists>d. ram_read m (slot_at cmdq k) 64 = Some d \<and> (rv_cmds v ! k \<longleftrightarrow> (\<exists>x. decode_descriptor d = Inr x))) \<and>
     (\<forall>k < 64. \<forall>i. rv_cq v ! k = Some i \<longrightarrow> i < length hist \<and> ram_read m (slot_at cq k) 64 = Some (hist ! i))"

lemma unat_slot_at:
  assumes "unat base + 4096 \<le> 2 ^ 64" and "k < 64"
  shows "unat (slot_at base k) = unat base + k * 64"
  using unat_add_of_nat [of base 4096 "k * 64"] assms by (simp add: slot_at_def)

lemma ram_write_in:
  assumes "unat a + length bs \<le> ram_limit m" and "unat a + length bs \<le> 2 ^ 64"
  obtains m' where "ram_write m a bs = (True, m')" and "ram_limit m' = ram_limit m"
    and "ram_read m' a (length bs) = Some bs"
    and "\<And>b n. unat a + length bs \<le> unat b \<or> unat b + n \<le> unat a \<Longrightarrow> ram_read m' b n = ram_read m b n"
proof -
  obtain m' where w: "ram_write m a bs = (True, m')" and l: "ram_limit m' = ram_limit m"
    using assms by (simp add: ram_write_def)
  then have w': "dma_memory_write ram_bus m a bs = (True, m')" by (simp add: ram_bus_def)
  show thesis
    using that [OF w l] guest_ram.read_written [OF w'] guest_ram.read_other [OF w'] by (simp add: ram_bus_def)
qed

text \<open>A store into a command slot, into a completion slot, and over the whole completion page.\<close>

lemma mem_rel_cmd:
  assumes r: "mem_rel cmdq cq hist m v" and k: "k < 32" and bs: "length bs = 64"
  shows "mem_rel cmdq cq hist (snd (ram_write m (slot_at cmdq k) bs))
    (v\<lparr>rv_cmds := (rv_cmds v)[k := (\<exists>d. decode_descriptor bs = Inr d)]\<rparr>)"
proof -
  from r have p: "pages_ok cmdq cq m" by (simp add: mem_rel_def)
  then have a: "unat (slot_at cmdq j) = unat cmdq + j * 64" "unat (slot_at cq j) = unat cq + j * 64" if "j < 64" for j
    using that unat_slot_at by (simp_all add: pages_ok_def)
  obtain m' where m': "ram_write m (slot_at cmdq k) bs = (True, m')" "ram_limit m' = ram_limit m"
    "ram_read m' (slot_at cmdq k) 64 = Some bs"
    "\<And>b n. unat (slot_at cmdq k) + 64 \<le> unat b \<or> unat b + n \<le> unat (slot_at cmdq k) \<Longrightarrow> ram_read m' b n = ram_read m b n"
    using ram_write_in [of "slot_at cmdq k" bs m] p k bs a by (auto simp: pages_ok_def)
  have cmd: "ram_read m' (slot_at cmdq j) 64 = ram_read m (slot_at cmdq j) 64" if "j < 32" "j \<noteq> k" for j
    using that k by (intro m'(4)) (auto simp: a)
  have cqs: "ram_read m' (slot_at cq j) 64 = ram_read m (slot_at cq j) 64" if "j < 64" for j
    using that k p by (intro m'(4)) (auto simp: a pages_ok_def)
  have "pages_ok cmdq cq m'" using p m'(2) by (simp add: pages_ok_def)
  moreover have "\<exists>d. ram_read m' (slot_at cmdq j) 64 = Some d \<and>
      ((rv_cmds v)[k := (\<exists>d. decode_descriptor bs = Inr d)] ! j \<longleftrightarrow> (\<exists>x. decode_descriptor d = Inr x))" if "j < 32" for j
    using r that m'(3) cmd [OF that] by (cases "j = k") (simp_all add: mem_rel_def)
  ultimately show ?thesis using r m'(1) cqs by (simp add: mem_rel_def)
qed

lemma mem_rel_deliver:
  assumes r: "mem_rel cmdq cq hist m v" and k: "rv_cq_tail v < 64" and t: "rv_taken v < length hist"
    and bs: "length (hist ! rv_taken v) = 64"
  shows "\<exists>m'. ram_write m (slot_at cq (rv_cq_tail v)) (hist ! rv_taken v) = (True, m') \<and>
    mem_rel cmdq cq hist m' (deliver1 v)"
proof -
  let ?k = "rv_cq_tail v" and ?x = "hist ! rv_taken v"
  from r have p: "pages_ok cmdq cq m" by (simp add: mem_rel_def)
  then have a: "unat (slot_at cmdq j) = unat cmdq + j * 64" "unat (slot_at cq j) = unat cq + j * 64" if "j < 64" for j
    using that unat_slot_at by (simp_all add: pages_ok_def)
  obtain m' where m': "ram_write m (slot_at cq ?k) ?x = (True, m')" "ram_limit m' = ram_limit m"
    "ram_read m' (slot_at cq ?k) 64 = Some ?x"
    "\<And>b n. unat (slot_at cq ?k) + 64 \<le> unat b \<or> unat b + n \<le> unat (slot_at cq ?k) \<Longrightarrow> ram_read m' b n = ram_read m b n"
    using ram_write_in [of "slot_at cq ?k" ?x m] p k bs a by (auto simp: pages_ok_def)
  have cmd: "ram_read m' (slot_at cmdq j) 64 = ram_read m (slot_at cmdq j) 64" if "j < 32" for j
    using that k p by (intro m'(4)) (auto simp: a pages_ok_def)
  have cqs: "ram_read m' (slot_at cq j) 64 = ram_read m (slot_at cq j) 64" if "j < 64" "j \<noteq> ?k" for j
    using that k by (intro m'(4)) (auto simp: a)
  have "pages_ok cmdq cq m'" using p m'(2) by (simp add: pages_ok_def)
  moreover have "i < length hist \<and> ram_read m' (slot_at cq j) 64 = Some (hist ! i)"
    if "j < 64" "(rv_cq v)[?k := Some (rv_taken v)] ! j = Some i" for j i
    using r that m'(3) cqs [of j] t by (cases "j = ?k") (auto simp: mem_rel_def)
  ultimately have "mem_rel cmdq cq hist m' (deliver1 v)"
    using r cmd by (simp add: mem_rel_def deliver1_def)
  with m'(1) show ?thesis by blast
qed

lemma mem_rel_clear:
  assumes r: "mem_rel cmdq cq hist m v" and bs: "length bs = 4096"
  shows "mem_rel cmdq cq hist (snd (ram_write m cq bs)) (v\<lparr>rv_cq := replicate 64 None\<rparr>)"
proof -
  from r have p: "pages_ok cmdq cq m" by (simp add: mem_rel_def)
  then have a: "unat (slot_at cmdq j) = unat cmdq + j * 64" if "j < 64" for j
    using that unat_slot_at by (simp_all add: pages_ok_def)
  obtain m' where m': "ram_write m cq bs = (True, m')" "ram_limit m' = ram_limit m"
    "\<And>b n. unat cq + 4096 \<le> unat b \<or> unat b + n \<le> unat cq \<Longrightarrow> ram_read m' b n = ram_read m b n"
    by (rule ram_write_in [of cq bs m]) (use p bs in \<open>auto simp: pages_ok_def\<close>)
  have cmd: "ram_read m' (slot_at cmdq j) 64 = ram_read m (slot_at cmdq j) 64" if "j < 32" for j
    using that p by (intro m'(3)) (auto simp: a pages_ok_def)
  have "pages_ok cmdq cq m'" using p m'(2) by (simp add: pages_ok_def)
  with r cmd m'(1) show ?thesis by (simp add: mem_rel_def)
qed

lemma mem_rel_hist: "mem_rel cmdq cq hist m v \<Longrightarrow> mem_rel cmdq cq (hist @ cs) m v"
  by (fastforce simp: mem_rel_def nth_append)

lemma mem_rel_view:
  assumes "mem_rel cmdq cq hist m v" and "rv_cmds w = rv_cmds v" and "rv_cq w = rv_cq v"
  shows "mem_rel cmdq cq hist m w"
  using assms by (simp add: mem_rel_def)

section \<open>The simulation relation\<close>

definition regs_rel :: "hwaddr \<Rightarrow> hwaddr \<Rightarrow> ep_state \<Rightarrow> ring_view \<Rightarrow> bool" where
  "regs_rel cmdq cq ep v \<longleftrightarrow>
     ep_cmdq_iova ep = cmdq \<and> ep_cq_iova ep = cq \<and> ep_default_segment ep = rv_seg v \<and>
     ep_cmdq_head ep = of_nat (rv_head v) \<and> ep_cmdq_tail ep = of_nat (rv_tail v) \<and>
     ep_cq_head ep = of_nat (rv_cq_head v) \<and> ep_cq_tail ep = of_nat (rv_cq_tail v) \<and>
     ep_irq_status ep = rv_irq v \<and> ep_last_error ep = rv_err v \<and>
     rv_head v < 32 \<and> rv_tail v < 32 \<and> rv_cq_head v < 64 \<and> rv_cq_tail v < 64"

text \<open>\<open>flow\<close> is the relation inside an operation, where the interrupt line may lag behind;
  \<open>hist\<close> are all completions the backend has produced.\<close>

definition flow ::
  "('b \<Rightarrow> bytes list) \<Rightarrow> ('b \<Rightarrow> bytes list) \<Rightarrow> ('b \<Rightarrow> bytes list) \<Rightarrow> 'b backend_ops \<Rightarrow> hwaddr \<Rightarrow> hwaddr \<Rightarrow> bytes list \<Rightarrow>
   (guest_ram, 'b) ub_state \<Rightarrow> ring_view \<Rightarrow> bool" where
  "flow acc ready log ops cmdq cq hist s v \<longleftrightarrow>
     backend s = ops \<and> acc (opaque s) = [] \<and> ready (opaque s) = drop (rv_taken v) hist \<and>
     log (opaque s) = hist \<and>
     length hist = rv_done v \<and> rv_taken v \<le> rv_done v \<and> desc_bytes s = 64 \<and> ep_valid 0 s \<and>
     ep_endpoint_id (ep_at s 0) = 1 \<and> regs_rel cmdq cq (ep_at s 0) v \<and>
     mem_rel cmdq cq hist (address_space_memory s) v"

lemma dev_slot:
  assumes "k < 64"
  shows "base + ucast (of_nat k :: u32) * ucast (64 :: u32) = slot_at base k"
proof -
  have "unat (of_nat k :: u32) = k" using assms by (simp add: unat_of_nat take_bit_nat_eq_self)
  then have "unat (ucast (of_nat k :: u32) :: u64) = unat (of_nat k :: u64)"
    using assms by (simp add: unat_of_nat take_bit_nat_eq_self)
  then have "ucast (of_nat k :: u32) = (of_nat k :: u64)" by (simp only: word_unat_eq_iff)
  then show ?thesis by (simp add: slot_at_def)
qed

lemma read_slot_at:
  assumes "desc_bytes s = 64" and "k < 64"
  shows "linqu_ub_read_slot ram_bus s base (of_nat k) (desc_bytes s) = ram_read (address_space_memory s) (slot_at base k) 64"
  using assms dev_slot [OF assms(2)] by (simp add: linqu_ub_read_slot_def ram_bus_def)

lemma write_slot_at:
  assumes "k < 64" and "length bs = 64"
  shows "linqu_ub_write_slot ram_bus base (of_nat k) 64 bs s =
    (let (ok, m) = ram_write (address_space_memory s) (slot_at base k) bs in (ok, s\<lparr>address_space_memory := m\<rparr>))"
  using dev_slot [OF assms(1)] assms(2) by (simp add: linqu_ub_write_slot_def ram_bus_def)

lemma of_nat_u32_eq: "a < 2 ^ 32 \<Longrightarrow> b < 2 ^ 32 \<Longrightarrow> (of_nat a :: u32) = of_nat b \<longleftrightarrow> a = b"
  by (simp add: word_unat_eq_iff unat_of_nat take_bit_nat_eq_self)

lemma succ_mod_u32:
  assumes "a < 64"
  shows "(of_nat a + 1 :: u32) mod 64 = of_nat ((a + 1) mod 64)"
proof -
  have "unat ((of_nat a + 1 :: u32) mod 64) = (a + 1) mod 64"
    using assms by (simp add: unat_mod unat_word_ariths unat_of_nat take_bit_nat_eq_self)
  moreover have "unat (of_nat ((a + 1) mod 64) :: u32) = (a + 1) mod 64"
    by (simp add: unat_of_nat take_bit_nat_eq_self)
  ultimately show ?thesis by (simp only: word_unat_eq_iff)
qed

section \<open>Delivering completions\<close>

lemma view_cq_pending_dist:
  assumes "regs_rel cmdq cq ep v" and "ep_ok ep"
  shows "cq_pending ep = view_cq_pending v"
proof -
  have u: "unat (of_nat (rv_cq_head v) :: u32) = rv_cq_head v" "unat (of_nat (rv_cq_tail v) :: u32) = rv_cq_tail v"
    using assms(1) by (simp_all add: regs_rel_def unat_of_nat take_bit_nat_eq_self)
  show ?thesis
    using assms ep_okD [OF assms(2)] u
    by (simp add: cq_pending_def ring_dist_def regs_rel_def view_cq_pending_def)
qed

lemma flow_push:
  assumes f: "flow acc ready log ops cmdq cq hist s v" and d: "delivers acc ready log poll"
    and nf: "view_cq_pending v \<noteq> 63" and av: "rv_taken v < rv_done v"
  shows "\<exists>s'. flow acc ready log ops cmdq cq hist s' (deliver1 v) \<and>
    flush_cq_loop ram_bus poll 0 s = flush_cq_loop ram_bus poll 0 s'"
proof -
  let ?ep = "ep_at s 0" and ?x = "hist ! rv_taken v"
  from f have v: "ep_valid 0 s" and r: "regs_rel cmdq cq ?ep v" and b: "desc_bytes s = 64" "ep_endpoint_id ?ep = 1"
    and m: "mem_rel cmdq cq hist (address_space_memory s) v" and len: "length hist = rv_done v"
    and rd: "ready (opaque s) = drop (rv_taken v) hist" and ac: "acc (opaque s) = []"
    by (simp_all add: flow_def)
  have ok: "ep_ok ?ep" "0 < length (endpoints s)" using v by (simp_all add: ep_valid_def)
  have full: "(ep_cq_tail ?ep + 1) mod ep_cq_depth ?ep \<noteq> ep_cq_head ?ep"
    using cq_full_iff [OF ok(1)] view_cq_pending_dist [OF r ok(1)] nf by (simp add: cq_full_def)
  have "ready (opaque s) = ?x # drop (Suc (rv_taken v)) hist"
    using rd av len by (simp add: Cons_nth_drop_Suc)
  then obtain b' where p: "poll (opaque s) 1 64 = (0, ?x, b')" "ready b' = drop (Suc (rv_taken v)) hist" "acc b' = []" "log b' = log (opaque s)"
    and lx: "length ?x = 64"
    using d ac by (force simp: delivers_def dest: spec [of _ "opaque s"])
  have ct: "rv_cq_tail v < 64" "ep_cq_tail ?ep = of_nat (rv_cq_tail v)" using r by (simp_all add: regs_rel_def)
  obtain m' where w: "ram_write (address_space_memory s) (slot_at cq (rv_cq_tail v)) ?x = (True, m')"
    and m': "mem_rel cmdq cq hist m' (deliver1 v)"
    using mem_rel_deliver [OF m ct(1) _ lx] av len by auto
  let ?s' = "push_cq 0 (s\<lparr>opaque := b', address_space_memory := m'\<rparr>)"
  have wr: "linqu_ub_write_slot ram_bus (ep_cq_iova ?ep) (ep_cq_tail ?ep) 64 ?x (s\<lparr>opaque := b'\<rparr>) =
      (True, s\<lparr>opaque := b', address_space_memory := m'\<rparr>)"
    using write_slot_at [OF ct(1) lx, of cq "s\<lparr>opaque := b'\<rparr>"] ct(2) w r by (simp add: regs_rel_def)
  have step: "flush_cq_loop ram_bus poll 0 s = flush_cq_loop ram_bus poll 0 ?s'"
    using full p(1) wr b by (subst flush_cq_loop.simps) (simp add: Let_def push_cq_def)
  have v': "ep_valid 0 ?s'"
    using push_cq_pending(1) [of 0 "s\<lparr>opaque := b', address_space_memory := m'\<rparr>"] v full
    by (simp add: cq_full_def)
  have ep': "ep_at ?s' 0 = ?ep\<lparr>ep_cq_tail := (ep_cq_tail ?ep + 1) mod 64,
      ep_irq_status := ep_irq_status ?ep OR LINQU_UB_IRQ_COMPLETION\<rparr>"
    using ok ep_okD [OF ok(1)] by (simp add: push_cq_def upd_ep_def)
  have "regs_rel cmdq cq (ep_at ?s' 0) (deliver1 v)"
    using r succ_mod_u32 [OF ct(1)] by (simp add: ep' regs_rel_def deliver1_def)
  moreover have "mem_rel cmdq cq hist (address_space_memory ?s') (deliver1 v)"
    using m' by (simp add: push_cq_def upd_ep_def)
  ultimately have "flow acc ready log ops cmdq cq hist ?s' (deliver1 v)"
    using f v' p av ok(2) unfolding flow_def by (simp add: ep' deliver1_def push_cq_def upd_ep_def)
  with step show ?thesis by blast
qed

lemma deliver1_pending:
  assumes "rv_cq_head v < 64" and "view_cq_pending v \<noteq> 63"
  shows "view_cq_pending (deliver1 v) = Suc (view_cq_pending v)"
proof -
  have "view_cq_pending (deliver1 v) = (Suc (rv_cq_tail v) mod 64 + (64 - rv_cq_head v)) mod 64"
    using assms(1) by (simp add: view_cq_pending_def deliver1_def)
  also have "\<dots> = Suc (rv_cq_tail v + (64 - rv_cq_head v)) mod 64"
    by (simp add: mod_add_left_eq)
  finally show ?thesis
    using assms by (simp add: view_cq_pending_def mod_Suc)
qed

lemma flow_loop:
  assumes d: "delivers acc ready log poll"
  shows "k = min (rv_done v - rv_taken v) (63 - view_cq_pending v) \<Longrightarrow>
    flow acc ready log ops cmdq cq hist s v \<Longrightarrow>
    \<exists>s'. flush_cq_loop ram_bus poll 0 s = Some (None, s') \<and> flow acc ready log ops cmdq cq hist s' ((deliver1 ^^ k) v)"
proof (induction k arbitrary: s v)
  case 0
  let ?ep = "ep_at s 0"
  from 0(2) have ok: "ep_ok ?ep" and r: "regs_rel cmdq cq ?ep v" and b: "desc_bytes s = 64" "ep_endpoint_id ?ep = 1"
    and rd: "ready (opaque s) = drop (rv_taken v) hist" "acc (opaque s) = []" "length hist = rv_done v"
    by (simp_all add: flow_def ep_valid_def)
  have full: "(ep_cq_tail ?ep + 1) mod ep_cq_depth ?ep = ep_cq_head ?ep \<longleftrightarrow> view_cq_pending v = 63"
    using cq_full_iff [OF ok] view_cq_pending_dist [OF r ok] by (simp add: cq_full_def)
  show ?case
  proof (cases "view_cq_pending v = 63")
    case True
    with 0(2) full show ?thesis by (subst flush_cq_loop.simps) simp
  next
    case False
    then have "view_cq_pending v < 63" unfolding view_cq_pending_def using mod_less_divisor [of 64] by (simp add: less_le)
    with 0(1) have "ready (opaque s) = []" using rd by simp
    then obtain x b' where p: "poll (opaque s) 1 64 = (1, x, b')" "ready b' = []" "acc b' = []" "log b' = log (opaque s)"
      using d rd(2) by (force simp: delivers_def dest: spec [of _ "opaque s"])
    have "flush_cq_loop ram_bus poll 0 s = Some (None, s\<lparr>opaque := b'\<rparr>)"
      using full False p(1) b by (subst flush_cq_loop.simps) (simp add: Let_def)
    moreover have "flow acc ready log ops cmdq cq hist (s\<lparr>opaque := b'\<rparr>) v"
      using 0(2) p rd \<open>ready (opaque s) = []\<close> by (simp add: flow_def)
    ultimately show ?thesis by simp
  qed
next
  case (Suc k)
  then have nf: "view_cq_pending v \<noteq> 63" and av: "rv_taken v < rv_done v" by auto
  from flow_push [OF Suc(3) d nf av] obtain s1 where s1: "flow acc ready log ops cmdq cq hist s1 (deliver1 v)"
    "flush_cq_loop ram_bus poll 0 s = flush_cq_loop ram_bus poll 0 s1" by blast
  have "rv_cq_head v < 64" using Suc(3) by (simp add: flow_def regs_rel_def)
  from deliver1_pending [OF this nf]
  have "k = min (rv_done (deliver1 v) - rv_taken (deliver1 v)) (63 - view_cq_pending (deliver1 v))"
    using Suc(2) by (simp add: deliver1_def)
  from Suc.IH [OF this s1(1)] s1(2) show ?case by (auto simp: funpow_swap1)
qed

lemma flow_regs: "flow acc ready log ops cmdq cq hist s v \<Longrightarrow> regs_rel cmdq cq (ep_at s 0) v"
  by (simp add: flow_def)

lemma flow_upd:
  assumes "flow acc ready log ops cmdq cq hist s v" and "ep_ok (f (ep_at s 0))"
    and "ep_endpoint_id (f (ep_at s 0)) = ep_endpoint_id (ep_at s 0)"
    and "regs_rel cmdq cq (f (ep_at s 0)) w" and "rv_cmds w = rv_cmds v" and "rv_cq w = rv_cq v"
    and "rv_done w = rv_done v" and "rv_taken w = rv_taken v"
  shows "flow acc ready log ops cmdq cq hist (upd_ep 0 f s) w"
  using assms mem_rel_view [of cmdq cq hist "address_space_memory s" v w]
  by (auto simp: flow_def upd_ep_def ep_valid_def)

lemma flow_irq [simp]:
  "flow acc ready log ops cmdq cq hist (linqu_ub_update_irq s) v = flow acc ready log ops cmdq cq hist s v"
  by (simp add: flow_def linqu_ub_update_irq_def qemu_set_irq_def ep_valid_def)

lemma flow_error:
  assumes "flow acc ready log ops cmdq cq hist s v"
  shows "flow acc ready log ops cmdq cq hist (linqu_ub_set_error 0 c s) (view_error c v)"
  unfolding linqu_ub_set_error_def flow_irq
  by (rule flow_upd [OF assms])
    (use assms in \<open>auto simp: flow_def ep_valid_def ep_ok_def regs_rel_def view_error_def\<close>)

lemma flow_flush:
  assumes f: "flow acc ready log ops cmdq cq hist s v" and d: "delivers acc ready log poll"
    and p: "op_poll_completion ops = Some poll"
  shows "\<exists>s'. linqu_ub_flush_cq ram_bus 0 s = Some (0, s') \<and> flow acc ready log ops cmdq cq hist s' (view_flush v)"
proof -
  define w where "w = (deliver1 ^^ min (rv_done v - rv_taken v) (63 - view_cq_pending v)) v"
  obtain s1 where l: "flush_cq_loop ram_bus poll 0 s = Some (None, s1)" and f1: "flow acc ready log ops cmdq cq hist s1 w"
    using flow_loop [OF d refl f] by (auto simp: w_def)
  have b: "op_poll_completion (backend s) = Some poll" using f p by (simp add: flow_def)
  have ok: "ep_ok (ep_at s1 0)" using f1 by (simp add: flow_def ep_valid_def)
  have full: "cq_full (ep_at s1 0) \<longleftrightarrow> view_cq_pending w = 63"
    using cq_full_iff [OF ok] view_cq_pending_dist [OF flow_regs [OF f1] ok] by simp
  have "flow acc ready log ops cmdq cq hist (flush_end 0 s1) (view_flush v)"
  proof (cases "view_cq_pending w = 63")
    case True
    have "flow acc ready log ops cmdq cq hist
        (upd_ep 0 (\<lambda>ep. ep\<lparr>ep_irq_status := ep_irq_status ep OR LINQU_UB_IRQ_CQ_OVERFLOW\<rparr>) s1)
        (w\<lparr>rv_irq := rv_irq w OR LINQU_UB_IRQ_CQ_OVERFLOW\<rparr>)"
      by (rule flow_upd [OF f1]) (use flow_regs [OF f1] ok in \<open>auto simp: ep_ok_def regs_rel_def\<close>)
    with True full show ?thesis by (simp add: flush_end_def view_flush_def w_def Let_def)
  next
    case False
    with full f1 show ?thesis by (simp add: flush_end_def view_flush_def w_def Let_def)
  qed
  with flush_cq_end [OF b l] show ?thesis by simp
qed

section \<open>The doorbell\<close>

lemma head_funpow:
  assumes "h < 32"
  shows "(ring_next 32 ^^ k) (of_nat h) = of_nat ((h + k) mod 32)"
proof -
  have h: "unat (of_nat h :: u32) = h" using assms by (simp add: unat_of_nat take_bit_nat_eq_self)
  then have "(of_nat h :: u32) < 32" using assms by (simp add: word_less_nat_alt)
  from cmdq.unat_funpow [OF this, of k] h
  have "unat ((ring_next 32 ^^ k) (of_nat h)) = unat (of_nat ((h + k) mod 32) :: u32)"
    by (simp add: unat_of_nat take_bit_nat_eq_self)
  then show ?thesis by (simp only: word_unat_eq_iff)
qed

lemma flow_queue:
  assumes f: "flow acc ready log ops cmdq cq hist s v"
  shows "cmdq_queue ram_bus s 0 =
    map (\<lambda>k. ram_read (address_space_memory s) (slot_at cmdq ((rv_head v + k) mod 32)) 64) [0..<view_pending v]"
proof -
  from f have ok: "ep_ok (ep_at s 0)" and r: "regs_rel cmdq cq (ep_at s 0) v" and b: "desc_bytes s = 64"
    by (simp_all add: flow_def ep_valid_def)
  have u: "unat (of_nat (rv_head v) :: u32) = rv_head v" "unat (of_nat (rv_tail v) :: u32) = rv_tail v"
    using r by (simp_all add: regs_rel_def unat_of_nat take_bit_nat_eq_self)
  have "cmdq_pending (ep_at s 0) = view_pending v"
    using r u ep_okD [OF ok] by (simp add: cmdq_pending_def ring_dist_def regs_rel_def view_pending_def)
  moreover have "linqu_ub_read_slot ram_bus s cmdq (of_nat ((rv_head v + k) mod 32)) 64 =
      ram_read (address_space_memory s) (slot_at cmdq ((rv_head v + k) mod 32)) 64" for k
  proof -
    have "(rv_head v + k) mod 32 < 64" using mod_less_divisor [of 32 "rv_head v + k"] by linarith
    from read_slot_at [OF b this] b show ?thesis by simp
  qed
  ultimately show ?thesis
    using r ep_okD [OF ok] b
    by (simp add: cmdq_queue_def ring_slots_def Let_def regs_rel_def head_funpow)
qed

lemma submit_run_good:
  assumes a: "accepts acc ready log submit"
  shows "\<forall>x \<in> set ds. \<exists>d. decode_descriptor x = Inr d \<Longrightarrow> length (acc b) + length ds \<le> 32 \<Longrightarrow>
    \<exists>b'. submit_run submit 1 b (map Some ds) = (None, b') \<and> acc b' = acc b @ ds \<and> ready b' = ready b \<and> log b' = log b"
proof (induction ds arbitrary: b)
  case (Cons x ds)
  obtain rc b1 where sb: "submit b 1 x = (rc, b1)" by fastforce
  from Cons.prems(1) obtain d where "decode_descriptor x = Inr d" by auto
  with a sb Cons.prems(2) have "rc = 0" "acc b1 = acc b @ [x]" "ready b1 = ready b" "log b1 = log b"
    unfolding accepts_def by (auto dest!: spec [of _ b] spec [of _ x])
  with Cons.IH [of b1] Cons.prems sb show ?case by auto
qed simp

lemma mem_rel_cmdD:
  assumes "mem_rel cmdq cq hist m v"
  shows "\<exists>d. ram_read m (slot_at cmdq (k mod 32)) 64 = Some d \<and>
    (rv_cmds v ! (k mod 32) \<longleftrightarrow> (\<exists>x. decode_descriptor d = Inr x))"
proof -
  have "k mod 32 < 32" by simp
  with assms show ?thesis unfolding mem_rel_def by blast
qed

text \<open>The descriptors a doorbell submits.\<close>

lemma flow_batch:
  assumes f: "flow acc ready log ops cmdq cq hist s v"
    and good: "\<forall>k < min (unat batch) (view_pending v). rv_cmds v ! ((rv_head v + k) mod 32)"
  shows "\<exists>ds. take (unat batch) (cmdq_queue ram_bus s 0) = map Some ds \<and> length ds = min (unat batch) (view_pending v) \<and>
    length ds \<le> 32 \<and> (\<forall>x \<in> set ds. \<exists>d. decode_descriptor x = Inr d)"
proof -
  define n where "n = min (unat batch) (view_pending v)"
  have m: "mem_rel cmdq cq hist (address_space_memory s) v" using f by (simp add: flow_def)
  let ?a = "\<lambda>k. slot_at cmdq ((rv_head v + k) mod 32)"
  let ?ds = "map (\<lambda>k. the (ram_read (address_space_memory s) (?a k) 64)) [0..<n]"
  have rd: "\<exists>x. ram_read (address_space_memory s) (?a k) 64 = Some x \<and> (\<exists>d. decode_descriptor x = Inr d)"
    if "k < n" for k
    using mem_rel_cmdD [OF m, of "rv_head v + k"] good that by (auto simp: n_def)
  have "take (unat batch) (cmdq_queue ram_bus s 0) = map Some ?ds"
  proof (rule nth_equalityI)
    show "length (take (unat batch) (cmdq_queue ram_bus s 0)) = length (map Some ?ds)"
      by (simp add: flow_queue [OF f] n_def min.commute)
    fix i assume "i < length (take (unat batch) (cmdq_queue ram_bus s 0))"
    then have "i < n" by (simp add: flow_queue [OF f] n_def)
    with rd [OF this] show "take (unat batch) (cmdq_queue ram_bus s 0) ! i = map Some ?ds ! i"
      by (auto simp: flow_queue [OF f] n_def)
  qed
  moreover have "n \<le> 32" using mod_less_divisor [of 32 "rv_tail v + 32 - rv_head v"] by (simp add: n_def view_pending_def)
  moreover have "\<forall>x \<in> set ?ds. \<exists>d. decode_descriptor x = Inr d" using rd by fastforce
  ultimately show ?thesis by (intro exI [of _ ?ds]) (simp add: n_def)
qed

lemma flow_doorbell_good:
  assumes f: "flow acc ready log ops cmdq cq hist s v" and fb: "fifo_backend acc ready log ops"
    and good: "\<forall>k < min (unat batch) (view_pending v). rv_cmds v ! ((rv_head v + k) mod 32)"
  defines "n \<equiv> min (unat batch) (view_pending v)"
  shows "\<exists>s' cs. linqu_ub_kick ram_bus 0 batch s = Some (0, s') \<and> flow acc ready log ops cmdq cq (hist @ cs) s'
    (view_flush (v\<lparr>rv_head := (rv_head v + n) mod 32, rv_done := rv_done v + n\<rparr>))"
proof -
  from fb obtain submit doorbell poll where o: "op_submit_slot ops = Some submit" "op_ring_doorbell ops = Some doorbell"
    "op_poll_completion ops = Some poll" and a: "accepts acc ready log submit" and e: "executes acc ready log doorbell"
    and d: "delivers acc ready log poll" by (auto simp: fifo_backend_def)
  from f have ok: "ep_ok (ep_at s 0)" "0 < length (endpoints s)" and r: "regs_rel cmdq cq (ep_at s 0) v"
    and bk: "backend s = ops" "ep_endpoint_id (ep_at s 0) = 1" "acc (opaque s) = []"
    and m: "mem_rel cmdq cq hist (address_space_memory s) v"
    by (simp_all add: flow_def ep_valid_def)
  obtain ds where q: "take (unat batch) (cmdq_queue ram_bus s 0) = map Some ds" "length ds = n" "n \<le> 32"
    "\<forall>x \<in> set ds. \<exists>d. decode_descriptor x = Inr d"
    using flow_batch [OF f good] by (auto simp: n_def)
  from submit_run_good [OF a q(4), of "opaque s"] q(2,3) bk(3) obtain b1 where
    b1: "submit_run submit 1 (opaque s) (map Some ds) = (None, b1)" "acc b1 = ds" "ready b1 = ready (opaque s)"
    "log b1 = log (opaque s)" by auto
  from e b1(2) q(2,3) obtain p x b2 cs where b2: "doorbell b1 1 (of_nat n) = (0, p, x, b2)" "acc b2 = []"
    "ready b2 = ready b1 @ cs" "log b2 = log b1 @ cs" "length cs = n"
    unfolding executes_def by (auto dest!: spec [of _ b1])
  let ?s = "upd_ep 0 (\<lambda>ep. ep\<lparr>ep_cmdq_head := (ring_next (ep_cmdq_depth ep) ^^ n) (ep_cmdq_head ep)\<rparr>) (s\<lparr>opaque := b2\<rparr>)"
  let ?v = "v\<lparr>rv_head := (rv_head v + n) mod 32, rv_done := rv_done v + n\<rparr>"
  have k: "linqu_ub_kick ram_bus 0 batch s = linqu_ub_flush_cq ram_bus 0 ?s"
    using kick_run [OF o(1,2) [folded bk(1)] ok(2,1), of ram_bus batch] q(1,2) b1(1) b2(1) bk(2) by (simp add: Let_def)
  have h: "(ring_next 32 ^^ n) (of_nat (rv_head v)) = of_nat ((rv_head v + n) mod 32)"
    using r by (intro head_funpow) (simp add: regs_rel_def)
  have ep: "ep_at ?s 0 = (ep_at s 0)\<lparr>ep_cmdq_head := of_nat ((rv_head v + n) mod 32)\<rparr>"
    using ok h r ep_okD [OF ok(1)] by (simp add: upd_ep_def regs_rel_def)
  have "unat (of_nat ((rv_head v + n) mod 32) :: u32) < 32"
    using mod_less_divisor [of 32 "rv_head v + n"] by (simp add: unat_of_nat take_bit_nat_eq_self)
  then have "ep_ok (ep_at ?s 0)" using ok(1) by (simp add: ep ep_ok_def word_less_nat_alt)
  moreover have "regs_rel cmdq cq (ep_at ?s 0) ?v" using r by (simp add: ep regs_rel_def)
  moreover have "mem_rel cmdq cq (hist @ cs) (address_space_memory ?s) ?v"
    using mem_rel_view [OF mem_rel_hist [OF m, of cs], of ?v] by (simp add: upd_ep_def)
  ultimately have "flow acc ready log ops cmdq cq (hist @ cs) ?s ?v"
    using f b1(3,4) b2 ok(2) unfolding flow_def by (auto simp: ep ep_valid_def) (simp_all add: upd_ep_def)
  from flow_flush [OF this d o(3)] k show ?thesis by auto
qed

lemma flow_doorbell_bad:
  assumes f: "flow acc ready log ops cmdq cq hist s v" and fb: "fifo_backend acc ready log ops"
    and p: "0 < min (unat batch) (view_pending v)" and bad: "\<not> rv_cmds v ! (rv_head v mod 32)"
  shows "\<exists>s' rc. linqu_ub_kick ram_bus 0 batch s = Some (rc, s') \<and>
    flow acc ready log ops cmdq cq hist s' (view_error LINQU_UB_ERR_INVALID_DESCRIPTOR v)"
proof -
  from fb obtain submit doorbell where o: "op_submit_slot ops = Some submit" "op_ring_doorbell ops = Some doorbell"
    and a: "accepts acc ready log submit" by (auto simp: fifo_backend_def)
  from f have ok: "ep_ok (ep_at s 0)" "0 < length (endpoints s)"
    and bk: "backend s = ops" "ep_endpoint_id (ep_at s 0) = 1" "acc (opaque s) = []"
    and m: "mem_rel cmdq cq hist (address_space_memory s) v"
    by (simp_all add: flow_def ep_valid_def)
  obtain x where x: "ram_read (address_space_memory s) (slot_at cmdq (rv_head v mod 32)) 64 = Some x"
    and nd: "\<forall>d. decode_descriptor x \<noteq> Inr d"
    using mem_rel_cmdD [OF m, of "rv_head v"] bad by auto
  then obtain e where e: "decode_descriptor x = Inl e" by (cases "decode_descriptor x") auto
  obtain b1 where b1: "submit (opaque s) 1 x = (-1, b1)" "acc b1 = []" "ready b1 = ready (opaque s)" "log b1 = log (opaque s)"
    using a bk(3) e unfolding accepts_def
    by (cases "submit (opaque s) 1 x") (auto dest!: spec [of _ "opaque s"] spec [of _ x])
  obtain bt where bt: "unat batch = Suc bt" using p by (cases "unat batch") auto
  obtain vp where vp: "view_pending v = Suc vp" using p by (cases "view_pending v") auto
  have q: "\<exists>r. take (unat batch) (cmdq_queue ram_bus s 0) = Some x # r"
    unfolding flow_queue [OF f] bt vp by (simp add: upt_conv_Cons x del: upt_Suc)
  then obtain r where q: "take (unat batch) (cmdq_queue ram_bus s 0) = Some x # r" by blast
  have k: "linqu_ub_kick ram_bus 0 batch s =
      Some (-1, linqu_ub_set_error 0 LINQU_UB_ERR_INVALID_DESCRIPTOR (s\<lparr>opaque := b1\<rparr>))"
    using kick_run [OF o(1,2) [folded bk(1)] ok(2,1), of ram_bus batch] q b1(1) bk(2) by (simp add: Let_def)
  have "flow acc ready log ops cmdq cq hist (s\<lparr>opaque := b1\<rparr>) v"
    using f b1 by (simp add: flow_def)
  from flow_error [OF this] k show ?thesis by blast
qed

section \<open>Simulation\<close>

definition absr ::
  "('b \<Rightarrow> bytes list) \<Rightarrow> ('b \<Rightarrow> bytes list) \<Rightarrow> ('b \<Rightarrow> bytes list) \<Rightarrow> 'b backend_ops \<Rightarrow> hwaddr \<Rightarrow> hwaddr \<Rightarrow> bytes list \<Rightarrow>
   (guest_ram, 'b) ub_state \<Rightarrow> ring_view \<Rightarrow> bool" where
  "absr acc ready log ops cmdq cq hist s v \<longleftrightarrow> dev_ok s \<and> flow acc ready log ops cmdq cq hist s v"

text \<open>Access to a register of the first endpoint.\<close>

lemma ep1_window:
  assumes "reg < 0x100"
  shows "linqu_ub_decode_offset (LINQU_ENDPOINT1_OFFSET + reg) = Some (1, reg)"
    and "\<not> linqu_ub_msgq_offset_valid (LINQU_ENDPOINT1_OFFSET + reg)"
    and "linqu_ub_ummu_offset_valid (LINQU_ENDPOINT1_OFFSET + reg) = None"
    and "LINQU_ENDPOINT1_OFFSET + reg \<noteq> LINQU_UB_REG_VERSION" "LINQU_ENDPOINT1_OFFSET + reg \<noteq> LINQU_UB_REG_FEATURES"
proof -
  have e: "LINQU_ENDPOINT1_OFFSET + reg = LINQU_UB_ENDPOINT_BASE + of_nat 0 * LINQU_UB_ENDPOINT_STRIDE + reg"
    by (simp add: LINQU_ENDPOINT1_OFFSET_def)
  note w = endpoint_window [OF e]
  show "linqu_ub_decode_offset (LINQU_ENDPOINT1_OFFSET + reg) = Some (1, reg)"
    "\<not> linqu_ub_msgq_offset_valid (LINQU_ENDPOINT1_OFFSET + reg)"
    "linqu_ub_ummu_offset_valid (LINQU_ENDPOINT1_OFFSET + reg) = None"
    using w assms by simp_all
  have "unat (0x1000 + reg) = 0x1000 + unat reg"
    using assms by (simp add: word_less_nat_alt unat_word_ariths)
  then show "LINQU_ENDPOINT1_OFFSET + reg \<noteq> LINQU_UB_REG_VERSION" "LINQU_ENDPOINT1_OFFSET + reg \<noteq> LINQU_UB_REG_FEATURES"
    by (auto simp: LINQU_ENDPOINT1_OFFSET_def word_unat_eq_iff)
qed

lemma ep_read_reg:
  assumes "dev_ok s" and "reg < 0x100" and "reg AND NOT 0x7 = reg"
  shows "ep_read reg s = linqu_ub_ep_reg_read 0 reg s"
  using ep1_window [OF assms(2)] ep1_decode [OF assms(1)] assms(3)
  by (simp add: ep_read_def linqu_ub_mmio_read_def linqu_ub_access_extract_def split: prod.split)

lemma ep_write_reg:
  assumes "dev_ok s" and "reg < 0x100" and "reg AND NOT 0x7 = reg" and "snd (linqu_ub_ep_reg_read 0 reg s) = s"
  shows "ep_write bus reg x s = linqu_ub_ep_reg_write bus 0 reg x s"
  using ep1_window [OF assms(2)] ep1_decode [OF assms(1)] assms(3,4)
  by (cases "linqu_ub_ep_reg_read 0 reg s") (simp add: ep_write_def linqu_ub_mmio_write_def linqu_ub_access_merge_def)

lemma ep_write_dev_ok: "dev_ok s \<Longrightarrow> ep_write bus reg x s = Some t \<Longrightarrow> dev_ok t"
  using mmio_write_ok [of s bus "LINQU_ENDPOINT1_OFFSET + reg" x 8] by (auto simp: ep_write_def returns_ok_def)

lemma ucast_of_nat_u32:
  "k < 2 ^ 32 \<Longrightarrow> ucast (of_nat k :: u32) = (of_nat k :: u64)"
  by (simp add: word_unat_eq_iff unat_of_nat take_bit_nat_eq_self)

lemma view_get_sim:
  assumes r: "absr acc ready log ops cmdq cq hist s v" and g: "view_get reg v = Some x"
  shows "ep_read reg s = (x, s)"
proof -
  from r have ok: "dev_ok s" and e: "ep_ok (ep_at s 0)" and rr: "regs_rel cmdq cq (ep_at s 0) v"
    by (simp_all add: absr_def flow_def ep_valid_def)
  have reg: "reg \<in> {LINQU_UB_REG_CMDQ_SIZE, LINQU_UB_REG_CMDQ_HEAD, LINQU_UB_REG_CMDQ_TAIL, LINQU_UB_REG_CQ_HEAD,
      LINQU_UB_REG_CQ_TAIL, LINQU_UB_REG_LAST_ERROR, LINQU_UB_REG_IRQ_STATUS, LINQU_UB_REG_DEFAULT_SEGMENT}"
    using g by (auto simp: view_get_def split: if_splits)
  have "linqu_ub_ep_reg_read 0 reg s = (x, s)"
    using reg g rr ep_okD [OF e]
    by (elim insertE emptyE) (simp_all add: view_get_def linqu_ub_ep_reg_read_def regs_rel_def Let_def ucast_of_nat_u32)
  moreover have "reg < 0x100" "reg AND NOT 0x7 = reg" using reg by (elim insertE emptyE; simp)+
  ultimately show ?thesis using ep_read_reg [OF ok] by simp
qed

lemma view_show_sim:
  assumes "absr acc ready log ops cmdq cq hist s v" and "reg \<in> set shown_regs"
  shows "snd (ep_read reg s) = s"
proof -
  have "reg < 0x100" "reg AND NOT 0x7 = reg" using assms(2) by (auto simp: shown_regs_def)
  then show ?thesis
    using assms ep_read_reg [of s reg] by (auto simp: absr_def shown_regs_def linqu_ub_ep_reg_read_def Let_def)
qed

text \<open>Writes: the register's own effect, then the invariant of the device.\<close>

definition put_regs :: "u64 list" where
  "put_regs = [LINQU_UB_REG_CMDQ_TAIL, LINQU_UB_REG_CQ_HEAD, LINQU_UB_REG_DOORBELL, LINQU_UB_REG_IRQ_ACK]"

lemma ep_write_put:
  assumes "dev_ok s" and "reg \<in> set put_regs"
  shows "ep_write bus reg x s = linqu_ub_ep_reg_write bus 0 reg x s"
  using assms(2)
  by (intro ep_write_reg [OF assms(1)]) (auto simp: put_regs_def linqu_ub_ep_reg_read_def Let_def)

lemma ucast_u32_small:
  assumes "unat x < 2 ^ 32"
  shows "(ucast (x :: u64) :: u32) = of_nat (unat x)" and "unat (ucast x :: u32) = unat x"
  using assms by (simp_all add: word_unat_eq_iff unat_of_nat unsigned_ucast_eq take_bit_nat_eq_self)

lemma put_tail_sim:
  assumes f: "flow acc ready log ops cmdq cq hist s v"
  shows "\<exists>s'. linqu_ub_ep_reg_write ram_bus 0 LINQU_UB_REG_CMDQ_TAIL x s = Some s' \<and>
    flow acc ready log ops cmdq cq hist s' (if 32 \<le> x then view_error LINQU_UB_ERR_RANGE v else v\<lparr>rv_tail := unat x\<rparr>)"
proof -
  from f have ok: "ep_ok (ep_at s 0)" and r: "regs_rel cmdq cq (ep_at s 0) v" by (simp_all add: flow_def ep_valid_def)
  show ?thesis
  proof (cases "32 \<le> x")
    case True
    with flow_error [OF f] ep_okD [OF ok] show ?thesis by (simp add: linqu_ub_ep_reg_write_def Let_def)
  next
    case False
    then have x: "unat x < 32" by (simp add: word_le_nat_alt)
    then have u: "(ucast x :: u32) = of_nat (unat x)" "unat (ucast x :: u32) = unat x" using ucast_u32_small [of x] by simp_all
    have "flow acc ready log ops cmdq cq hist (upd_ep 0 (\<lambda>ep. ep\<lparr>ep_cmdq_tail := ucast x\<rparr>) s) (v\<lparr>rv_tail := unat x\<rparr>)"
      by (rule flow_upd [OF f]) (use ok r x u in \<open>simp_all add: ep_ok_def regs_rel_def word_less_nat_alt\<close>)
    with False ep_okD [OF ok] show ?thesis by (simp add: linqu_ub_ep_reg_write_def Let_def)
  qed
qed

lemma put_cq_head_sim:
  assumes f: "flow acc ready log ops cmdq cq hist s v"
  shows "\<exists>s'. linqu_ub_ep_reg_write ram_bus 0 LINQU_UB_REG_CQ_HEAD x s = Some s' \<and>
    flow acc ready log ops cmdq cq hist s'
      (if 64 \<le> x then view_error LINQU_UB_ERR_RANGE v
       else if unat x = rv_cq_tail v
       then v\<lparr>rv_cq_head := unat x, rv_irq := rv_irq v AND NOT LINQU_UB_IRQ_COMPLETION\<rparr>
       else v\<lparr>rv_cq_head := unat x\<rparr>)"
proof -
  from f have ok: "ep_ok (ep_at s 0)" "0 < length (endpoints s)" and r: "regs_rel cmdq cq (ep_at s 0) v"
    by (simp_all add: flow_def ep_valid_def)
  show ?thesis
  proof (cases "64 \<le> x")
    case True
    with flow_error [OF f] ep_okD [OF ok(1)] show ?thesis by (simp add: linqu_ub_ep_reg_write_def Let_def)
  next
    case False
    then have x: "unat x < 64" by (simp add: word_le_nat_alt)
    then have u: "(ucast x :: u32) = of_nat (unat x)" "unat (ucast x :: u32) = unat x" using ucast_u32_small [of x] by simp_all
    let ?s1 = "upd_ep 0 (\<lambda>ep. ep\<lparr>ep_cq_head := ucast x\<rparr>) s"
    have f1: "flow acc ready log ops cmdq cq hist ?s1 (v\<lparr>rv_cq_head := unat x\<rparr>)"
      by (rule flow_upd [OF f]) (use ok r x u in \<open>simp_all add: ep_ok_def regs_rel_def word_less_nat_alt\<close>)
    have e1: "ep_at ?s1 0 = (ep_at s 0)\<lparr>ep_cq_head := ucast x\<rparr>" using ok by (simp add: upd_ep_def)
    have eq: "ep_cq_head (ep_at ?s1 0) = ep_cq_tail (ep_at ?s1 0) \<longleftrightarrow> unat x = rv_cq_tail v"
      using u r x of_nat_u32_eq [of "unat x" "rv_cq_tail v"] by (simp add: e1 regs_rel_def)
    have "flow acc ready log ops cmdq cq hist
        (linqu_ub_update_irq (upd_ep 0 (\<lambda>ep. ep\<lparr>ep_irq_status := ep_irq_status ep AND NOT LINQU_UB_IRQ_COMPLETION\<rparr>) ?s1))
        (v\<lparr>rv_cq_head := unat x, rv_irq := rv_irq v AND NOT LINQU_UB_IRQ_COMPLETION\<rparr>)"
      unfolding flow_irq
      by (rule flow_upd [OF f1]) (use ok r x u e1 in \<open>simp_all add: ep_ok_def regs_rel_def word_less_nat_alt\<close>)
    with False f1 eq ep_okD [OF ok(1)] show ?thesis
      by (cases "unat x = rv_cq_tail v") (simp_all add: linqu_ub_ep_reg_write_def Let_def)
  qed
qed

lemma put_ack_sim:
  assumes f: "flow acc ready log ops cmdq cq hist s v"
  shows "\<exists>s'. linqu_ub_ep_reg_write ram_bus 0 LINQU_UB_REG_IRQ_ACK x s = Some s' \<and>
    flow acc ready log ops cmdq cq hist s' (v\<lparr>rv_irq := rv_irq v AND NOT x\<rparr>)"
proof -
  from f have ok: "ep_ok (ep_at s 0)" and r: "regs_rel cmdq cq (ep_at s 0) v" by (simp_all add: flow_def ep_valid_def)
  have "flow acc ready log ops cmdq cq hist
      (linqu_ub_update_irq (upd_ep 0 (\<lambda>ep. ep\<lparr>ep_irq_status := ep_irq_status ep AND NOT x\<rparr>) s))
      (v\<lparr>rv_irq := rv_irq v AND NOT x\<rparr>)"
    unfolding flow_irq by (rule flow_upd [OF f]) (use ok r in \<open>simp_all add: ep_ok_def regs_rel_def\<close>)
  then show ?thesis by (simp add: linqu_ub_ep_reg_write_def Let_def)
qed

lemma flow_nil: "flow acc ready log ops cmdq cq hist s v \<Longrightarrow> \<exists>cs. flow acc ready log ops cmdq cq (hist @ cs) s v"
  by (rule exI [of _ "[]"]) simp

lemma put_doorbell_sim:
  assumes f: "flow acc ready log ops cmdq cq hist s v" and fb: "fifo_backend acc ready log ops" and x: "x < 2 ^ 32"
    and w: "view_doorbell (if x = 0 then 32 else unat x) v = Some w"
  shows "\<exists>s' cs. linqu_ub_ep_reg_write ram_bus 0 LINQU_UB_REG_DOORBELL x s = Some s' \<and>
    flow acc ready log ops cmdq cq (hist @ cs) s' w"
proof -
  from f have ok: "ep_ok (ep_at s 0)" by (simp add: flow_def ep_valid_def)
  define batch where "batch = (if x \<noteq> 0 then ucast x else ep_cmdq_depth (ep_at s 0))"
  have "unat x < 2 ^ 32" using x by (simp add: word_less_nat_alt)
  then have ub: "unat batch = (if x = 0 then 32 else unat x)"
    using ep_okD [OF ok] ucast_u32_small [of x] by (simp add: batch_def)
  have k: "linqu_ub_ep_reg_write ram_bus 0 LINQU_UB_REG_DOORBELL x s = map_option snd (linqu_ub_kick ram_bus 0 batch s)"
    by (simp add: linqu_ub_ep_reg_write_def Let_def batch_def)
  let ?n = "min (unat batch) (view_pending v)"
  let ?good = "map (\<lambda>k. rv_cmds v ! ((rv_head v + k) mod 32)) [0..<?n]"
  show ?thesis
  proof (cases "list_all id ?good")
    case True
    then have "\<forall>k < ?n. rv_cmds v ! ((rv_head v + k) mod 32)" by (auto simp: list_all_length)
    from flow_doorbell_good [OF f fb this] True w k show ?thesis
      by (auto simp: view_doorbell_def Let_def ub [symmetric] simp del: upt_Suc)
  next
    case False
    then have n: "0 < ?n" by (cases "?n") auto
    with False w have "\<not> hd ?good" "w = view_error LINQU_UB_ERR_INVALID_DESCRIPTOR v"
      by (auto simp: view_doorbell_def Let_def ub [symmetric] simp del: upt_Suc split: if_splits)
    moreover from this n have "\<not> rv_cmds v ! (rv_head v mod 32)" by (simp add: upt_conv_Cons del: upt_Suc)
    ultimately show ?thesis
      using flow_doorbell_bad [OF f fb n] k flow_nil by fastforce
  qed
qed

lemma view_put_sim:
  assumes r: "absr acc ready log ops cmdq cq hist s v" and fb: "reg = LINQU_UB_REG_DOORBELL \<Longrightarrow> fifo_backend acc ready log ops"
    and p: "view_put reg x v = Some w"
  shows "\<exists>s' cs. ep_write ram_bus reg x s = Some s' \<and> absr acc ready log ops cmdq cq (hist @ cs) s' w"
proof -
  from r have ok: "dev_ok s" and f: "flow acc ready log ops cmdq cq hist s v" by (simp_all add: absr_def)
  have reg: "reg \<in> set put_regs" using p by (auto simp: view_put_def put_regs_def split: if_splits)
  then consider "reg = LINQU_UB_REG_CMDQ_TAIL" | "reg = LINQU_UB_REG_CQ_HEAD" | "reg = LINQU_UB_REG_DOORBELL"
    | "reg = LINQU_UB_REG_IRQ_ACK" by (auto simp: put_regs_def)
  then have "\<exists>s' cs. linqu_ub_ep_reg_write ram_bus 0 reg x s = Some s' \<and> flow acc ready log ops cmdq cq (hist @ cs) s' w"
  proof cases
    case 1
    with p put_tail_sim [OF f, of x] flow_nil show ?thesis by (fastforce simp: view_put_def)
  next
    case 2
    with p put_cq_head_sim [OF f, of x] flow_nil show ?thesis by (fastforce simp: view_put_def)
  next
    case 3
    with p have x: "x < 2 ^ 32" "view_doorbell (if x = 0 then 32 else unat x) v = Some w"
      by (simp_all add: view_put_def split: if_splits)
    from put_doorbell_sim [OF f fb [OF 3] x] 3 show ?thesis by simp
  next
    case 4
    with p put_ack_sim [OF f, of x] flow_nil show ?thesis by (fastforce simp: view_put_def)
  qed
  then obtain s' cs where s': "linqu_ub_ep_reg_write ram_bus 0 reg x s = Some s'"
    and f': "flow acc ready log ops cmdq cq (hist @ cs) s' w" by blast
  with ep_write_put [OF ok reg, of ram_bus x] have e: "ep_write ram_bus reg x s = Some s'" by simp
  with f' ep_write_dev_ok [OF ok e] show ?thesis by (auto simp: absr_def)
qed

lemma absr_mem:
  assumes "absr acc ready log ops cmdq cq hist s v" and "mem_rel cmdq cq hist m w"
    and "w = v\<lparr>rv_cmds := rv_cmds w, rv_cq := rv_cq w\<rparr>"
  shows "absr acc ready log ops cmdq cq hist (s\<lparr>address_space_memory := m\<rparr>) w"
proof -
  have "rv_taken w = rv_taken v" "rv_done w = rv_done v" "regs_rel cmdq cq (ep_at s 0) w = regs_rel cmdq cq (ep_at s 0) v"
    by (subst assms(3), simp add: regs_rel_def)+
  moreover have "dev_ok (s\<lparr>address_space_memory := m\<rparr>)"
    using assms(1) by (auto simp: absr_def intro: dev_ok_frame [of s] simp: dev_ok_def)
  ultimately show ?thesis using assms(1,2) by (simp add: absr_def flow_def)
qed

lemma ram_bus_sel [simp]: "dma_memory_read ram_bus = ram_read" "dma_memory_write ram_bus = ram_write"
  by (simp_all add: ram_bus_def)

definition prepend :: "u64 list \<Rightarrow> bytes list \<Rightarrow> u64 list \<times> bytes list \<times> 's \<Rightarrow> u64 list \<times> bytes list \<times> 's" where
  "prepend xs slots r = (xs @ fst r, slots @ fst (snd r), snd (snd r))"

lemma prepend_nil: "map_option (prepend [] []) r = r"
  by (cases r) (simp_all add: prepend_def)

lemma prepend_one:
  "map_option (\<lambda>(vs, y). (x # vs, y)) r = map_option (prepend [x] []) r"
  "map_option (\<lambda>(vs, slots, t). (vs, d # slots, t)) r = map_option (prepend [] [d]) r"
  by (cases r; auto simp: prepend_def)+

text \<open>The operations that ring the doorbell, the only ones that use the backend.\<close>

fun rings :: "view_op \<Rightarrow> bool" where
  "rings (VPut reg x) \<longleftrightarrow> reg = LINQU_UB_REG_DOORBELL"
| "rings (VCopy dst src) \<longleftrightarrow> dst = LINQU_UB_REG_DOORBELL"
| "rings _ \<longleftrightarrow> False"

lemma step_sim:
  assumes r: "absr acc ready log ops cmdq cq hist s v" and fb: "rings vo \<Longrightarrow> fifo_backend acc ready log ops"
    and o: "op_rel cmdq cq p vo" and st: "view_step vo v = Some (xs, ks, w)"
  shows "\<exists>s' cs. (\<forall>rest. run_probe ram_bus (p # rest) s =
      map_option (prepend xs (map ((!) (hist @ cs)) ks)) (run_probe ram_bus rest s')) \<and>
    absr acc ready log ops cmdq cq (hist @ cs) s' w \<and> (\<forall>k \<in> set ks. k < length hist)"
proof -
  have m: "mem_rel cmdq cq hist (address_space_memory s) v" using r by (simp add: absr_def flow_def)
  have same: ?thesis if "\<And>rest. run_probe ram_bus (p # rest) s =
      map_option (prepend xs (map ((!) hist) ks)) (run_probe ram_bus rest s')"
    "absr acc ready log ops cmdq cq hist s' w" "\<forall>k \<in> set ks. k < length hist" for s'
    using that by (intro exI [of _ s'] exI [of _ "[]"]) simp
  show ?thesis
  proof (cases p)
    case (Put reg x)
    with o st have g: "view_put reg x v = Some w" "xs = []" "ks = []" "vo = VPut reg x" by (auto simp: view_step_def)
    have "\<exists>s' cs. ep_write ram_bus reg x s = Some s' \<and> absr acc ready log ops cmdq cq (hist @ cs) s' w"
      by (rule view_put_sim [OF r _ g(1)]) (use fb g(4) in simp)
    with g Put show ?thesis by (auto simp: prepend_nil)
  next
    case (Copy dst src)
    with o st obtain x where g: "view_get src v = Some x" "view_put dst x v = Some w" "xs = []" "ks = []" "vo = VCopy dst src"
      by (auto simp: view_step_def bind_eq_Some_conv)
    have "\<exists>s' cs. ep_write ram_bus dst x s = Some s' \<and> absr acc ready log ops cmdq cq (hist @ cs) s' w"
      by (rule view_put_sim [OF r _ g(2)]) (use fb g(5) in simp)
    with g view_get_sim [OF r g(1)] Copy show ?thesis by (auto simp: prepend_nil)
  next
    case (Get reg)
    with o st obtain x where g: "view_get reg v = Some x" "xs = [x]" "ks = []" "w = v" by (auto simp: view_step_def)
    show ?thesis
      by (rule same [of s]) (use g view_get_sim [OF r g(1)] Get r in \<open>auto simp: prepend_one\<close>)
  next
    case (Show reg)
    with o st have g: "reg \<in> set shown_regs" "xs = []" "ks = []" "w = v"
      by (auto simp: view_step_def split: if_splits)
    show ?thesis
      by (rule same [of s]) (use g view_show_sim [OF r g(1)] Show r in \<open>auto simp: prepend_nil\<close>)
  next
    case (Store a bs)
    show ?thesis
    proof (cases vo)
      case (VCmd k good)
      with o st Store have g: "a = slot_at cmdq k" "length bs = 64" "k < 32" "xs = []" "ks = []"
        "w = v\<lparr>rv_cmds := (rv_cmds v)[k := (\<exists>d. decode_descriptor bs = Inr d)]\<rparr>"
        by (auto simp: view_step_def split: if_splits)
      show ?thesis
        by (rule same [of "s\<lparr>address_space_memory := snd (ram_write (address_space_memory s) a bs)\<rparr>"])
          (use g Store absr_mem [OF r mem_rel_cmd [OF m g(3,2)]] in \<open>auto simp: prepend_nil\<close>)
    next
      case VClear
      with o st Store have g: "a = cq" "length bs = 4096" "xs = []" "ks = []" "w = v\<lparr>rv_cq := replicate 64 None\<rparr>"
        by (auto simp: view_step_def)
      show ?thesis
        by (rule same [of "s\<lparr>address_space_memory := snd (ram_write (address_space_memory s) a bs)\<rparr>"])
          (use g Store absr_mem [OF r mem_rel_clear [OF m g(2)]] in \<open>auto simp: prepend_nil\<close>)
    qed (use o Store in auto)
  next
    case (Load a)
    with o st obtain k i where g: "a = slot_at cq k" "k < 64" "rv_cq v ! k = Some i" "xs = []" "ks = [i]" "w = v"
      by (auto simp: view_step_def split: if_splits)
    with m have "i < length hist" "ram_read (address_space_memory s) a 64 = Some (hist ! i)" by (auto simp: mem_rel_def)
    with g Load r show ?thesis by (intro same [of s]) (auto simp: prepend_one)
  qed
qed

text \<open>
  The device, flat guest RAM and a backend that keeps its contract simulate the abstract machine
  on every script: same values, and the slots loaded are the completions with the numbers the
  abstract machine reports, in the order the backend produced them.
\<close>

lemma run_sim:
  assumes "list_all2 (op_rel cmdq cq) ps vos" and fb: "list_ex rings vos \<Longrightarrow> fifo_backend acc ready log ops"
    and "absr acc ready log ops cmdq cq hist s v" and "run_view vos v = Some (xs, ks, w)"
  shows "\<exists>s' cs. run_probe ram_bus ps s = Some (xs, map ((!) (hist @ cs)) ks, s') \<and>
    absr acc ready log ops cmdq cq (hist @ cs) s' w \<and> (\<forall>k \<in> set ks. k < length (hist @ cs))"
  using assms
proof (induction ps vos arbitrary: hist s v xs ks rule: list_all2_induct)
  case Nil
  then show ?case by (intro exI [of _ s] exI [of _ "[]"]) simp
next
  case (Cons p ps vo vos)
  from Cons.prems(3) obtain xs1 ks1 v1 xs2 ks2 where 1: "view_step vo v = Some (xs1, ks1, v1)"
    and 2: "run_view vos v1 = Some (xs2, ks2, w)" and e: "xs = xs1 @ xs2" "ks = ks1 @ ks2"
    by (auto simp: bind_eq_Some_conv)
  from step_sim [OF Cons.prems(2) _ Cons.hyps(1) 1] Cons.prems(1) obtain s1 cs1 where
    s1: "\<forall>rest. run_probe ram_bus (p # rest) s =
      map_option (prepend xs1 (map ((!) (hist @ cs1)) ks1)) (run_probe ram_bus rest s1)"
    and r1: "absr acc ready log ops cmdq cq (hist @ cs1) s1 v1" and k1: "\<forall>k \<in> set ks1. k < length hist" by auto
  from Cons.IH [OF _ r1 2] Cons.prems(1) obtain s2 cs2 where
    s2: "run_probe ram_bus ps s1 = Some (xs2, map ((!) ((hist @ cs1) @ cs2)) ks2, s2)"
    and r2: "absr acc ready log ops cmdq cq ((hist @ cs1) @ cs2) s2 w" and k2: "\<forall>k \<in> set ks2. k < length ((hist @ cs1) @ cs2)"
    by auto
  have "map ((!) (hist @ cs1)) ks1 = map ((!) (hist @ cs1 @ cs2)) ks1"
    using k1 by (auto simp: nth_append)
  with s1 s2 r2 k1 k2 e show ?case
    by (intro exI [of _ s2] exI [of _ "cs1 @ cs2"]) (auto simp: prepend_def)
qed

end
