(* ===== verification/UB_Probe_Pass.thy ===== *)
theory UB_Probe_Pass
  imports UB_Probe_Run
begin

text \<open>
  The verdict of the ring probe. Its scripts are related to scripts of the abstract machine, these
  are evaluated, and the simulation carries the result to the device: on a device in its state after
  reset, with the two queue pages in guest RAM and a backend that keeps its contract, every check of
  a register succeeds, and the slots the probe loads are the completions of the backend in order.
\<close>

section \<open>The scripts on the abstract machine\<close>

text \<open>The abstract state once the six descriptors are stored and the queue addresses written.\<close>

definition view_start :: "u64 \<Rightarrow> ring_view" where
  "view_start seg = \<lparr>rv_seg = seg, rv_head = 0, rv_tail = 0, rv_cq_head = 0, rv_cq_tail = 0, rv_irq = 0, rv_err = 0,
     rv_cmds = replicate 6 True @ replicate 26 False, rv_cq = replicate 64 None, rv_done = 0, rv_taken = 0\<rparr>"

definition view_cmds :: "nat \<Rightarrow> nat \<Rightarrow> view_op list" where
  "view_cmds start n = map (\<lambda>i. VCmd ((start + i) mod 32) True) [0..<n]"

definition view_ring :: "view_op list" where
  "view_ring =
     [VPut LINQU_UB_REG_CQ_HEAD 0, VPut LINQU_UB_REG_CMDQ_TAIL 6,
      VShow LINQU_UB_REG_CMDQ_TAIL, VShow LINQU_UB_REG_IRQ_STATUS, VShow LINQU_UB_REG_STATUS,
      VPut LINQU_UB_REG_DOORBELL 6, VShow LINQU_UB_REG_IRQ_STATUS, VShow LINQU_UB_REG_STATUS,
      VGet LINQU_UB_REG_CMDQ_HEAD, VGet LINQU_UB_REG_CQ_TAIL, VShow LINQU_UB_REG_STATUS,
      VGet LINQU_UB_REG_IRQ_STATUS, VGet LINQU_UB_REG_LAST_ERROR] @
     map VLoad [0..<6] @
     [VPut LINQU_UB_REG_CQ_HEAD 3, VGet LINQU_UB_REG_CQ_HEAD, VShow LINQU_UB_REG_STATUS,
      VGet LINQU_UB_REG_IRQ_STATUS, VCopy LINQU_UB_REG_CQ_HEAD LINQU_UB_REG_CQ_TAIL,
      VGet LINQU_UB_REG_CQ_HEAD, VShow LINQU_UB_REG_STATUS, VGet LINQU_UB_REG_IRQ_STATUS,
      VCopy LINQU_UB_REG_IRQ_ACK LINQU_UB_REG_IRQ_STATUS, VGet LINQU_UB_REG_IRQ_STATUS]"

definition view_stress :: "view_op list" where
  "view_stress =
     [VClear, VPut LINQU_UB_REG_CQ_HEAD 0, VCopy LINQU_UB_REG_IRQ_ACK LINQU_UB_REG_IRQ_STATUS] @
     view_cmds stress_start stress_batch @
     [VPut LINQU_UB_REG_CMDQ_TAIL (of_nat (stress_start + stress_batch)), VShow LINQU_UB_REG_CMDQ_TAIL,
      VPut LINQU_UB_REG_DOORBELL (of_nat stress_batch), VGet LINQU_UB_REG_CMDQ_HEAD, VGet LINQU_UB_REG_CQ_TAIL,
      VGet LINQU_UB_REG_LAST_ERROR, VGet LINQU_UB_REG_IRQ_STATUS] @
     map (\<lambda>i. VLoad (stress_cq_start + i)) [0..<stress_batch] @
     [VCopy LINQU_UB_REG_CQ_HEAD LINQU_UB_REG_CQ_TAIL, VGet LINQU_UB_REG_CQ_HEAD, VGet LINQU_UB_REG_IRQ_STATUS,
      VCopy LINQU_UB_REG_IRQ_ACK LINQU_UB_REG_IRQ_STATUS, VGet LINQU_UB_REG_IRQ_STATUS]"

definition view_round :: "nat \<Rightarrow> nat \<Rightarrow> u64 \<Rightarrow> view_op list" where
  "view_round start batch tail = view_cmds start batch @
     [VPut LINQU_UB_REG_CMDQ_TAIL tail, VPut LINQU_UB_REG_DOORBELL (of_nat batch), VGet LINQU_UB_REG_CMDQ_HEAD]"

definition view_overflow :: "view_op list" where
  "view_overflow = view_round 24 31 23 @ view_round 55 31 22 @ view_round 86 2 24 @
     [VGet LINQU_UB_REG_CQ_TAIL, VGet LINQU_UB_REG_LAST_ERROR, VGet LINQU_UB_REG_IRQ_STATUS,
      VCopy LINQU_UB_REG_CQ_HEAD LINQU_UB_REG_CQ_TAIL, VGet LINQU_UB_REG_CQ_HEAD, VGet LINQU_UB_REG_IRQ_STATUS,
      VPut LINQU_UB_REG_DOORBELL 0, VGet LINQU_UB_REG_CQ_TAIL, VGet LINQU_UB_REG_IRQ_STATUS,
      VCopy LINQU_UB_REG_CQ_HEAD LINQU_UB_REG_CQ_TAIL, VGet LINQU_UB_REG_CQ_HEAD,
      VCopy LINQU_UB_REG_IRQ_ACK LINQU_UB_REG_IRQ_STATUS, VGet LINQU_UB_REG_IRQ_STATUS]"

definition view_invalid :: "view_op list" where
  "view_invalid =
     [VClear, VPut LINQU_UB_REG_CQ_HEAD 0, VCopy LINQU_UB_REG_IRQ_ACK LINQU_UB_REG_IRQ_STATUS,
      VCmd (stress_start + stress_batch) False,
      VPut LINQU_UB_REG_CMDQ_TAIL (of_nat (stress_start + stress_batch + 1)), VShow LINQU_UB_REG_CMDQ_TAIL,
      VPut LINQU_UB_REG_DOORBELL 1, VGet LINQU_UB_REG_CMDQ_HEAD, VGet LINQU_UB_REG_CQ_TAIL,
      VGet LINQU_UB_REG_LAST_ERROR, VGet LINQU_UB_REG_IRQ_STATUS,
      VCopy LINQU_UB_REG_IRQ_ACK LINQU_UB_REG_IRQ_STATUS, VGet LINQU_UB_REG_IRQ_STATUS]"

definition view_range :: "view_op list" where
  "view_range =
     [VCopy LINQU_UB_REG_IRQ_ACK LINQU_UB_REG_IRQ_STATUS, VGet LINQU_UB_REG_CMDQ_TAIL,
      VCopy LINQU_UB_REG_CMDQ_TAIL LINQU_UB_REG_CMDQ_SIZE, VGet LINQU_UB_REG_CMDQ_TAIL,
      VGet LINQU_UB_REG_LAST_ERROR, VGet LINQU_UB_REG_IRQ_STATUS,
      VCopy LINQU_UB_REG_IRQ_ACK LINQU_UB_REG_IRQ_STATUS, VGet LINQU_UB_REG_IRQ_STATUS]"

section \<open>Evaluation\<close>

lemma run_view_append:
  "run_view (xs @ ys) v =
    Option.bind (run_view xs v) (\<lambda>(a, k, w). map_option (\<lambda>(b, l, u). (a @ b, k @ l, u)) (run_view ys w))"
proof (induction xs arbitrary: v)
  case Nil
  show ?case by (cases "run_view ys v") auto
next
  case (Cons x xs)
  then show ?case
    by (auto simp: option.map_comp comp_def case_prod_beta split: bind_splits)
qed

text \<open>A run of stores marks its slots as decodable and changes nothing else.\<close>

lemma view_cmds_run:
  "length (rv_cmds v) = 32 \<Longrightarrow> n \<le> 32 \<Longrightarrow>
    \<exists>cmds. run_view (view_cmds start n) v = Some ([], [], v\<lparr>rv_cmds := cmds\<rparr>) \<and> length cmds = 32 \<and>
      (\<forall>k < n. cmds ! ((start + k) mod 32))"
proof (induction n)
  case 0
  show ?case by (rule exI [of _ "rv_cmds v"]) (use 0 in \<open>simp add: view_cmds_def\<close>)
next
  case (Suc n)
  then obtain cmds where c: "run_view (view_cmds start n) v = Some ([], [], v\<lparr>rv_cmds := cmds\<rparr>)" "length cmds = 32"
    "\<forall>k < n. cmds ! ((start + k) mod 32)" by auto
  have "view_cmds start (Suc n) = view_cmds start n @ [VCmd ((start + n) mod 32) True]" by (simp add: view_cmds_def)
  then have "run_view (view_cmds start (Suc n)) v = Some ([], [], v\<lparr>rv_cmds := cmds[(start + n) mod 32 := True]\<rparr>)"
    by (simp add: run_view_append c(1) view_step_def)
  moreover have "cmds[(start + n) mod 32 := True] ! ((start + k) mod 32)" if "k < Suc n" for k
    using that c(2,3) by (cases "k = n") (auto simp: nth_list_update less_Suc_eq)
  ultimately show ?case using c(2) by (intro exI [of _ "cmds[(start + n) mod 32 := True]"]) simp
qed

lemma view_loads_run:
  "\<forall>i < n. c + i < 64 \<and> rv_cq v ! (c + i) = Some (t + i) \<Longrightarrow>
    run_view (map (\<lambda>i. VLoad (c + i)) [0..<n]) v = Some ([], [t..<t + n], v)"
  by (induction n) (simp_all add: run_view_append view_step_def)

text \<open>The completion ring after \<open>k\<close> completions numbered from \<open>n\<close> on.\<close>

definition filled :: "nat \<Rightarrow> nat \<Rightarrow> nat \<Rightarrow> nat option list \<Rightarrow> nat option list" where
  "filled k at n cq = fold (\<lambda>i c. c[(at + i) mod 64 := Some (n + i)]) [0..<k] cq"

lemma filled_length [simp]: "length (filled k at n cq) = length cq"
  by (induction k) (simp_all add: filled_def)

lemma filled_nth:
  "i < k \<Longrightarrow> k \<le> 64 \<Longrightarrow> length cq = 64 \<Longrightarrow> filled k at n cq ! ((at + i) mod 64) = Some (n + i)"
proof (induction k)
  case (Suc k)
  have s: "filled (Suc k) at n cq = (filled k at n cq)[(at + k) mod 64 := Some (n + k)]" by (simp add: filled_def)
  show ?case
  proof (cases "i = k")
    case True
    then show ?thesis using Suc.prems by (simp add: s)
  next
    case False
    then have "i < k" using Suc.prems by simp
    then have "\<not> 64 dvd (at + k) - (at + i)" using Suc.prems by (auto dest: dvd_imp_le)
    then have "(at + k) mod 64 \<noteq> (at + i) mod 64"
      using \<open>i < k\<close> mod_eq_dvd_iff_nat [of "at + i" "at + k" 64] by auto
    then show ?thesis using Suc False by (simp add: s)
  qed
qed simp

lemma deliver_run:
  "rv_cq_tail v < 64 \<Longrightarrow>
    (deliver1 ^^ k) v = v\<lparr>rv_cq := filled k (rv_cq_tail v) (rv_taken v) (rv_cq v),
      rv_cq_tail := (rv_cq_tail v + k) mod 64, rv_taken := rv_taken v + k,
      rv_irq := if k = 0 then rv_irq v else rv_irq v OR LINQU_UB_IRQ_COMPLETION\<rparr>"
proof (induction k)
  case 0
  then show ?case by (simp add: filled_def)
next
  case (Suc k)
  then show ?case
    by (simp add: deliver1_def filled_def mod_Suc_eq)
qed

text \<open>A doorbell over decodable descriptors whose completions all fit, or fill the ring.\<close>

lemma doorbell_run:
  assumes "n = min batch (view_pending v)" and "\<forall>k < n. rv_cmds v ! ((rv_head v + k) mod 32)"
    and "rv_cq_tail v < 64" and "m = min (rv_done v + n - rv_taken v) (63 - view_cq_pending v)"
  shows "view_doorbell batch v = Some (let
      w = v\<lparr>rv_head := (rv_head v + n) mod 32, rv_done := rv_done v + n,
        rv_cq := filled m (rv_cq_tail v) (rv_taken v) (rv_cq v), rv_cq_tail := (rv_cq_tail v + m) mod 64,
        rv_taken := rv_taken v + m, rv_irq := if m = 0 then rv_irq v else rv_irq v OR LINQU_UB_IRQ_COMPLETION\<rparr>
      in if view_cq_pending w = 63 then w\<lparr>rv_irq := rv_irq w OR LINQU_UB_IRQ_CQ_OVERFLOW\<rparr> else w)"
proof -
  have "list_all id (map (\<lambda>k. rv_cmds v ! ((rv_head v + k) mod 32)) [0..<n])"
    using assms(2) by (auto simp: list_all_length)
  then have "view_doorbell batch v = Some (view_flush (v\<lparr>rv_head := (rv_head v + n) mod 32, rv_done := rv_done v + n\<rparr>))"
    unfolding view_doorbell_def Let_def assms(1) [symmetric] by (rule if_P)
  moreover have p: "view_cq_pending (v\<lparr>rv_head := (rv_head v + n) mod 32, rv_done := rv_done v + n\<rparr>) = view_cq_pending v"
    by (simp add: view_cq_pending_def)
  have "min (rv_done (v\<lparr>rv_head := (rv_head v + n) mod 32, rv_done := rv_done v + n\<rparr>) -
      rv_taken (v\<lparr>rv_head := (rv_head v + n) mod 32, rv_done := rv_done v + n\<rparr>)) (63 - view_cq_pending v) = m"
    by (simp add: assms(4))
  moreover have "(deliver1 ^^ m) (v\<lparr>rv_head := (rv_head v + n) mod 32, rv_done := rv_done v + n\<rparr>) =
      v\<lparr>rv_head := (rv_head v + n) mod 32, rv_done := rv_done v + n,
        rv_cq := filled m (rv_cq_tail v) (rv_taken v) (rv_cq v), rv_cq_tail := (rv_cq_tail v + m) mod 64,
        rv_taken := rv_taken v + m, rv_irq := if m = 0 then rv_irq v else rv_irq v OR LINQU_UB_IRQ_COMPLETION\<rparr>"
    using deliver_run [of "v\<lparr>rv_head := (rv_head v + n) mod 32, rv_done := rv_done v + n\<rparr>" m] assms(3) by simp
  ultimately show ?thesis
    unfolding view_flush_def p by (simp only: Let_def)
qed


text \<open>A state whose registers are known; the queues' contents are left open.\<close>

definition view_at ::
  "u64 \<Rightarrow> nat \<Rightarrow> nat \<Rightarrow> nat \<Rightarrow> u64 \<Rightarrow> u64 \<Rightarrow> nat \<Rightarrow> nat \<Rightarrow> bool list \<Rightarrow> nat option list \<Rightarrow> ring_view" where
  "view_at seg head cq_head cq_tail irqs err done taken cmds cq =
     \<lparr>rv_seg = seg, rv_head = head, rv_tail = head, rv_cq_head = cq_head, rv_cq_tail = cq_tail, rv_irq = irqs,
      rv_err = err, rv_cmds = cmds, rv_cq = cq, rv_done = done, rv_taken = taken\<rparr>"

lemmas view_eval =
  run_view_append view_step_def view_put_def view_get_def shown_regs_def view_error_def view_at_def

lemma ring_run:
  "\<exists>cq. run_view view_ring (view_start seg) =
    Some ([6, 6, 1, 0, 3, 1, 6, 0, 0], [0..<6], view_at seg 6 6 6 0 0 6 6 (rv_cmds (view_start seg)) cq) \<and> length cq = 64"
proof -
  let ?v = "(view_start seg)\<lparr>rv_tail := 6\<rparr>" and ?cq = "filled 6 0 0 (replicate 64 None)"
  have c: "\<forall>k < 6. rv_cmds ?v ! ((rv_head ?v + k) mod 32)" by (simp add: view_start_def nth_append)
  have d: "view_doorbell 6 ?v = Some (?v\<lparr>rv_head := 6, rv_done := 6, rv_cq := ?cq, rv_cq_tail := 6, rv_taken := 6, rv_irq := 1\<rparr>)"
    using doorbell_run [OF _ c, of 6 6] by (simp add: view_start_def view_pending_def view_cq_pending_def)
  have l: "run_view (map VLoad [0..<6]) w = Some ([], [0..<6], w)" if "rv_cq w = ?cq" for w
    using view_loads_run [of 6 0 w 0] that filled_nth [of _ 6 "replicate 64 None" 0 0] by simp
  show ?thesis
    by (rule exI [of _ ?cq]) (use d l in \<open>simp add: view_ring_def view_eval view_start_def\<close>)
qed

lemma stress_run:
  assumes "length cmds = 32"
  shows "\<exists>cmds' cq'. run_view view_stress (view_at seg 6 6 6 0 0 6 6 cmds cq) =
    Some ([24, 24, 0, 1, 24, 0, 0], [6..<24], view_at seg 24 24 24 0 0 24 24 cmds' cq') \<and>
    length cmds' = 32 \<and> length cq' = 64"
proof -
  let ?e = "replicate 64 (None :: nat option)" and ?cq = "filled 18 6 6 (replicate 64 None)"
  obtain cmds' where c: "run_view (view_cmds 6 18) (view_at seg 6 0 6 0 0 6 6 cmds ?e) =
      Some ([], [], view_at seg 6 0 6 0 0 6 6 cmds' ?e)" and c': "length cmds' = 32" "\<forall>k < 18. cmds' ! ((6 + k) mod 32)"
    using view_cmds_run [of "view_at seg 6 0 6 0 0 6 6 cmds ?e" 18 6] assms by (auto simp: view_at_def)
  let ?v = "(view_at seg 6 0 6 0 0 6 6 cmds' ?e)\<lparr>rv_tail := 24\<rparr>"
  have g: "\<forall>k < 18. rv_cmds ?v ! ((rv_head ?v + k) mod 32)" using c' by (simp add: view_at_def)
  have d: "view_doorbell 18 ?v =
      Some (?v\<lparr>rv_head := 24, rv_done := 24, rv_cq := ?cq, rv_cq_tail := 24, rv_taken := 24, rv_irq := 1\<rparr>)"
    using doorbell_run [OF _ g, of 18 18] by (simp add: view_at_def view_pending_def view_cq_pending_def)
  have l: "run_view (map (\<lambda>i. VLoad (6 + i)) [0..<18]) w = Some ([], [6..<24], w)" if "rv_cq w = ?cq" for w
    using view_loads_run [of 18 6 w 6] that filled_nth [of _ 18 "replicate 64 None" 6 6] by simp
  show ?thesis
    by (rule exI [of _ cmds'], rule exI [of _ ?cq])
      (use c c' d l in \<open>simp add: view_stress_def view_eval stress_start_def stress_batch_def stress_cq_start_def\<close>)
qed

text \<open>One round of the overflow phase, from a state in which all earlier descriptors are executed.\<close>

lemma round_run:
  assumes "length cmds = 32" and "length cq = 64" and "0 < n" "n \<le> 31" and "start mod 32 = h" and "ct < 64" and "ch < 64"
    and "tail = of_nat ((h + n) mod 32)"
    and "m = min (done + n - taken) (63 - (ct + 64 - ch) mod 64)" and "m \<noteq> 0"
  shows "\<exists>cmds' cq'. run_view (view_round start n tail) (view_at seg h ch ct irqs 0 done taken cmds cq) =
    Some ([tail], [], view_at seg ((h + n) mod 32) ch ((ct + m) mod 64)
      (irqs OR LINQU_UB_IRQ_COMPLETION OR (if ((ct + m) mod 64 + 64 - ch) mod 64 = 63 then LINQU_UB_IRQ_CQ_OVERFLOW else 0))
      0 (done + n) (taken + m) cmds' cq') \<and> length cmds' = 32 \<and> length cq' = 64"
proof -
  obtain cmds' where c: "run_view (view_cmds start n) (view_at seg h ch ct irqs 0 done taken cmds cq) =
      Some ([], [], view_at seg h ch ct irqs 0 done taken cmds' cq)" and c': "length cmds' = 32"
      "\<forall>k < n. cmds' ! ((start + k) mod 32)"
    using view_cmds_run [of "view_at seg h ch ct irqs 0 done taken cmds cq" n start] assms(1,4) by (auto simp: view_at_def)
  have h: "h < 32" using assms(5) by auto
  have "unat (of_nat n :: u64) = n" "unat (of_nat ((h + n) mod 32) :: u64) = (h + n) mod 32"
    using assms(4) mod_less_divisor [of 32 "h + n"] by (simp_all add: unat_of_nat take_bit_nat_eq_self)
  then have u: "unat (of_nat n :: u64) = n" "unat tail = (h + n) mod 32" "\<not> 32 \<le> tail" "(of_nat n :: u64) < 2 ^ 32"
    "(of_nat n :: u64) \<noteq> 0"
    using assms(3,4,8) by (auto simp: word_le_nat_alt word_less_nat_alt word_unat_eq_iff)
  let ?v = "(view_at seg h ch ct irqs 0 done taken cmds' cq)\<lparr>rv_tail := (h + n) mod 32\<rparr>"
  have p: "view_pending ?v = n" using assms(4) h by (cases "h + n < 32") (simp_all add: view_pending_def view_at_def mod_if)
  have g: "\<forall>k < n. rv_cmds ?v ! ((rv_head ?v + k) mod 32)"
    using c'(2) assms(5) by (simp add: view_at_def) (metis mod_add_left_eq)
  have bt: "n = min n (view_pending ?v)" by (simp only: p min.idem)
  note d = doorbell_run [OF bt g, of m]
  have mm: "m = min (rv_done ?v + n - rv_taken ?v) (63 - view_cq_pending ?v)"
    using assms(9) by (simp add: view_at_def view_cq_pending_def)
  have e: "view_doorbell n ?v = Some (view_at seg ((h + n) mod 32) ch ((ct + m) mod 64)
      (irqs OR LINQU_UB_IRQ_COMPLETION OR (if ((ct + m) mod 64 + 64 - ch) mod 64 = 63 then LINQU_UB_IRQ_CQ_OVERFLOW else 0))
      0 (done + n) (taken + m) cmds' (filled m ct taken cq))"
    using d [OF _ mm] assms(6,10) by (simp add: view_at_def view_cq_pending_def Let_def or.assoc)
  show ?thesis
    by (rule exI [of _ cmds'], rule exI [of _ "filled m ct taken cq"])
      (use c c' e u assms(2,8) in \<open>simp add: view_round_def view_eval\<close>)
qed

lemma overflow_run:
  assumes "length cmds = 32" and "length cq = 64"
  shows "\<exists>cmds' cq'. run_view view_overflow (view_at seg 24 24 24 0 0 24 24 cmds cq) =
    Some ([23, 22, 24, 23, 0, 5, 23, 4, 24, 5, 24, 0], [], view_at seg 24 24 24 0 0 88 88 cmds' cq') \<and>
    length cmds' = 32 \<and> length cq' = 64"
proof -
  obtain c1 q1 where 1: "run_view (view_round 24 31 23) (view_at seg 24 24 24 0 0 24 24 cmds cq) =
      Some ([23], [], view_at seg 23 24 55 1 0 55 55 c1 q1)" "length c1 = 32" "length q1 = 64"
    using round_run [OF assms, of 31 24 24 24 24 23 31 24 24 seg 0] by auto
  obtain c2 q2 where 2: "run_view (view_round 55 31 22) (view_at seg 23 24 55 1 0 55 55 c1 q1) =
      Some ([22], [], view_at seg 22 24 22 1 0 86 86 c2 q2)" "length c2 = 32" "length q2 = 64"
    using round_run [OF 1(2,3), of 31 55 23 55 24 22 31 55 55 seg 1] by auto
  obtain c3 q3 where 3: "run_view (view_round 86 2 24) (view_at seg 22 24 22 1 0 86 86 c2 q2) =
      Some ([24], [], view_at seg 24 24 23 5 0 88 87 c3 q3)" "length c3 = 32" "length q3 = 64"
    using round_run [OF 2(2,3), of 2 86 22 22 24 24 1 86 86 seg 1] by auto
  let ?v = "view_at seg 24 23 23 4 0 88 87 c3 q3"
  have d: "view_doorbell 32 ?v = Some (view_at seg 24 23 24 5 0 88 88 c3 (filled 1 23 87 q3))"
    using doorbell_run [of 0 32 ?v 1] by (simp add: view_at_def view_pending_def view_cq_pending_def)
  show ?thesis
    by (rule exI [of _ c3], rule exI [of _ "filled 1 23 87 q3"])
      (use 1 2 3 d in \<open>simp add: view_overflow_def view_eval\<close>)
qed

lemma invalid_run:
  assumes "length cmds = 32"
  shows "\<exists>cmds' cq'. run_view view_invalid (view_at seg 24 24 24 0 0 88 88 cmds cq) =
    Some ([24, 24, 7, 2, 0], [], (view_at seg 24 0 24 0 7 88 88 cmds' cq')\<lparr>rv_tail := 25\<rparr>)"
proof -
  let ?v = "(view_at seg 24 0 24 0 0 88 88 (cmds[24 := False]) (replicate 64 None))\<lparr>rv_tail := 25\<rparr>"
  have d: "view_doorbell 1 ?v = Some (view_error LINQU_UB_ERR_INVALID_DESCRIPTOR ?v)"
    using assms by (simp add: view_doorbell_def view_pending_def view_at_def)
  show ?thesis
    by (rule exI [of _ "cmds[24 := False]"], rule exI [of _ "replicate 64 None"])
      (use d in \<open>simp add: view_invalid_def view_eval stress_start_def stress_batch_def\<close>)
qed

lemma range_run:
  "\<exists>w. run_view view_range ((view_at seg 24 0 24 0 7 88 88 cmds cq)\<lparr>rv_tail := 25\<rparr>) = Some ([25, 25, 6, 2, 0], [], w)"
  by (simp add: view_range_def view_eval)

section \<open>The probe's scripts are related to them\<close>

lemma mixed_decodes: "\<exists>d. decode_descriptor (build_mixed_descriptor 64 k seg) = Inr d"
  using slot_roundtrip [OF mixed_encoded mixed_ok] by blast

lemma mixed_length: "length (build_mixed_descriptor 64 k seg) = 64"
  using slot_roundtrip [OF mixed_encoded mixed_ok] by blast

lemma invalid_refused: "length (build_invalid_descriptor 64) = 64" "decode_descriptor (build_invalid_descriptor 64) \<noteq> Inr d"
proof -
  have "build_invalid_descriptor 64 = 0xff # replicate 63 0"
    by (simp add: build_invalid_descriptor_def eval_nat_numeral)
  then show "length (build_invalid_descriptor 64) = 64" "decode_descriptor (build_invalid_descriptor 64) \<noteq> Inr d"
    by (simp_all add: decode_descriptor_def decode_service_def)
qed

lemma cmds_rel:
  "list_all2 (op_rel cmdq cq)
    (map (\<lambda>i. Store (slot_at cmdq ((start + i) mod 32)) (build_mixed_descriptor 64 i seg)) [0..<n]) (view_cmds start n)"
  by (simp add: view_cmds_def list_all2_map1 list_all2_map2 list_all2_same mixed_decodes mixed_length)

lemma loads_rel:
  "list_all2 (op_rel cmdq cq) (map (\<lambda>i. Load (slot_at cq (c + i))) [0..<n]) (map (\<lambda>i. VLoad (c + i)) [0..<n])"
  by (simp add: list_all2_map1 list_all2_map2 list_all2_same)

text \<open>The ring phase after the queue addresses are written.\<close>

definition ring_rest :: "hwaddr \<Rightarrow> probe_op list" where
  "ring_rest cq = drop 4 (ring_phase 0 cq)"

lemma ring_split:
  "ring_phase cmdq cq = take 4 (program_rings cmdq cq) @ ring_rest cq"
  by (simp add: ring_rest_def ring_phase_def program_rings_def)

lemma ring_rel: "list_all2 (op_rel cmdq cq) (ring_rest cq) view_ring"
  using loads_rel [of cmdq cq 0 6]
  by (simp add: ring_rest_def ring_phase_def program_rings_def view_ring_def list_all2_append)

lemma stress_rel: "list_all2 (op_rel cmdq cq) (stress_phase cmdq cq seg) view_stress"
proof -
  have "list_all2 (op_rel cmdq cq)
      (map (\<lambda>i. Store (slot_at cmdq (6 + i)) (build_mixed_descriptor 64 i seg)) [0..<18]) (view_cmds 6 18)"
    by (simp add: view_cmds_def list_all2_map1 list_all2_map2 list_all2_same mixed_decodes mixed_length)
  with loads_rel [of cmdq cq 6 18] show ?thesis
    by (simp add: stress_phase_def view_stress_def stress_start_def stress_batch_def stress_cq_start_def
        page_zero_def list_all2_appendI del: upt_conv_Cons)
qed

lemma round_rel: "list_all2 (op_rel cmdq cq) (overflow_round cmdq seg start n tail) (view_round start n tail)"
  using cmds_rel by (simp add: overflow_round_def view_round_def list_all2_appendI)

lemma overflow_rel: "list_all2 (op_rel cmdq cq) (overflow_phase cmdq seg) view_overflow"
  by (simp add: overflow_phase_def view_overflow_def list_all2_appendI round_rel)

lemma invalid_rel: "list_all2 (op_rel cmdq cq) (invalid_phase cmdq cq) view_invalid"
  by (simp add: invalid_phase_def view_invalid_def invalid_refused page_zero_def)

lemma range_rel: "list_all2 (op_rel cmdq cq) range_phase view_range"
  by (simp add: range_phase_def view_range_def)

section \<open>The start\<close>

text \<open>The state the probe starts from: the first endpoint as reset leaves it, its default segment
  known, a backend with nothing pending, and the two pages apart in guest RAM.\<close>

definition probe_start ::
  "('b \<Rightarrow> bytes list) \<Rightarrow> ('b \<Rightarrow> bytes list) \<Rightarrow> ('b \<Rightarrow> bytes list) \<Rightarrow> hwaddr \<Rightarrow> hwaddr \<Rightarrow> u64 \<Rightarrow>
   (guest_ram, 'b) ub_state \<Rightarrow> bool" where
  "probe_start acc ready log cmdq cq seg s \<longleftrightarrow>
     dev_ok s \<and> acc (opaque s) = [] \<and> ready (opaque s) = [] \<and> log (opaque s) = [] \<and>
     pages_ok cmdq cq (address_space_memory s) \<and>
     (let ep = ep_at s 0
      in ep_default_segment ep = seg \<and> ep_cmdq_head ep = 0 \<and> ep_cmdq_tail ep = 0 \<and> ep_cq_head ep = 0 \<and>
         ep_cq_tail ep = 0 \<and> ep_irq_status ep = 0 \<and> ep_last_error ep = 0)"

lemma ram_page:
  assumes "unat base + 4096 \<le> ram_limit m" and "unat base + 4096 \<le> 2 ^ 64" and "k < 64"
  shows "ram_read (snd (ram_write m base page_zero)) (slot_at base k) 64 = Some (replicate 64 0)"
proof -
  have u: "unat (slot_at base k) = unat base + k * 64" using unat_slot_at assms by simp
  have "unat (slot_at base k + of_nat j) = unat base + k * 64 + j" if "j < 64" for j
    using unat_add_of_nat [of "slot_at base k" 64 j] that assms u by simp
  then show ?thesis
    using assms u by (auto simp: ram_read_def ram_write_def page_zero_def intro!: nth_equalityI)
qed

lemma zero_refused: "decode_descriptor (replicate 64 0) \<noteq> Inr d"
proof -
  have "replicate 64 (0 :: u8) = 0 # replicate 63 0" using replicate_Suc [of 63 "0 :: u8"] by simp
  then show ?thesis by (simp add: decode_descriptor_def decode_service_def)
qed

text \<open>The queue pages after \<^verbatim>\<open>memset\<close>, the first descriptor, and the six descriptors.\<close>

definition start_cmds :: "u64 \<Rightarrow> (nat \<times> bytes) list" where
  "start_cmds seg = (0, build_dbput_descriptor 64) # map (\<lambda>i. (i, build_mixed_descriptor 64 i seg)) [0..<6]"

definition store_cmds :: "hwaddr \<Rightarrow> (nat \<times> bytes) list \<Rightarrow> guest_ram \<Rightarrow> guest_ram" where
  "store_cmds cmdq ds m = fold (\<lambda>(k, bs) m. snd (ram_write m (slot_at cmdq k) bs)) ds m"

definition start_ram :: "hwaddr \<Rightarrow> hwaddr \<Rightarrow> u64 \<Rightarrow> guest_ram \<Rightarrow> guest_ram" where
  "start_ram cmdq cq seg m =
     store_cmds cmdq (start_cmds seg) (snd (ram_write (snd (ram_write m cmdq page_zero)) cq page_zero))"

lemma store_cmds_rel:
  assumes "mem_rel cmdq cq hist m v"
    and "\<forall>(k, bs) \<in> set ds. k < 32 \<and> length bs = 64 \<and> (\<exists>d. decode_descriptor bs = Inr d)"
  shows "mem_rel cmdq cq hist (store_cmds cmdq ds m) (v\<lparr>rv_cmds := fold (\<lambda>(k, _) c. c[k := True]) ds (rv_cmds v)\<rparr>)"
  using assms
proof (induction ds arbitrary: m v)
  case Nil
  then show ?case by (simp add: store_cmds_def)
next
  case (Cons x ds)
  obtain k bs where x: "x = (k, bs)" by fastforce
  with Cons.prems have d: "k < 32" "length bs = 64" "(\<exists>d. decode_descriptor bs = Inr d) = True" by auto
  have "mem_rel cmdq cq hist (snd (ram_write m (slot_at cmdq k) bs)) (v\<lparr>rv_cmds := (rv_cmds v)[k := True]\<rparr>)"
    using mem_rel_cmd [OF Cons.prems(1) d(1,2)] unfolding d(3) .
  from Cons.IH [OF this] Cons.prems(2) show ?case by (simp add: x store_cmds_def)
qed

lemma start_cmds_ok: "\<forall>(k, bs) \<in> set (start_cmds seg). k < 32 \<and> length bs = 64 \<and> (\<exists>d. decode_descriptor bs = Inr d)"
  using mixed_decodes [of 0 seg] mixed_length [of 0 seg] mixed_decodes mixed_length
  by (auto simp: start_cmds_def build_mixed_descriptor_def [of 64 0])

lemma start_mem:
  assumes p: "pages_ok cmdq cq m"
  shows "mem_rel cmdq cq [] (start_ram cmdq cq seg m) (view_start seg)"
proof -
  let ?m1 = "snd (ram_write m cmdq page_zero)" and ?m2 = "snd (ram_write (snd (ram_write m cmdq page_zero)) cq page_zero)"
  let ?v = "(view_start seg)\<lparr>rv_cmds := replicate 32 False\<rparr>"
  have p1: "pages_ok cmdq cq ?m1" using p by (simp add: pages_ok_def ram_write_def)
  have "mem_rel cmdq cq [] ?m1 ?v"
    using p p1 ram_page [of cmdq m] zero_refused by (simp add: mem_rel_def pages_ok_def view_start_def)
  from mem_rel_clear [OF this, of page_zero] have "mem_rel cmdq cq [] ?m2 ?v"
    by (simp add: page_zero_def view_start_def)
  from store_cmds_rel [OF this start_cmds_ok] show ?thesis
    by (simp add: start_ram_def start_cmds_def view_start_def eval_nat_numeral)
qed

lemma set_lohi: "set_hi32 (set_lo32 old (ucast (ucast a :: u32))) (drop_bit 32 a) = a"
proof (rule bit_word_eqI)
  fix n assume "n < LENGTH(64)"
  then show "bit (set_hi32 (set_lo32 old (ucast (ucast a :: u32))) (drop_bit 32 a)) n = bit a n"
    unfolding set_lo32_def set_hi32_def mask_lo32 mask_hi32 by (cases "n < 32") (auto simp: bit_simps)
qed

lemma ep_write_base:
  assumes "dev_ok s" and "reg \<in> {LINQU_UB_REG_CMDQ_BASE_LO, LINQU_UB_REG_CMDQ_BASE_HI, LINQU_UB_REG_CQ_BASE_LO, LINQU_UB_REG_CQ_BASE_HI}"
  shows "ep_write bus reg x s = linqu_ub_ep_reg_write bus 0 reg x s"
  using assms(2)
  by (intro ep_write_reg [OF assms(1)]) (auto simp: linqu_ub_ep_reg_read_def Let_def)

lemma bases_run:
  fixes s :: "('m, 'b) ub_state"
  assumes ok: "dev_ok s"
  shows "\<exists>t. run_probe bus (take 4 (program_rings cmdq cq)) s = Some ([], [], t) \<and> dev_ok t \<and>
    ep_at t 0 = (ep_at s 0)\<lparr>ep_cmdq_iova := cmdq, ep_cq_iova := cq\<rparr> \<and> backend t = backend s \<and> opaque t = opaque s \<and>
    address_space_memory t = address_space_memory s"
proof -
  define s1 where "s1 = upd_ep 0 (\<lambda>ep. ep\<lparr>ep_cmdq_iova := set_lo32 (ep_cmdq_iova ep) (ucast (ucast cmdq :: u32))\<rparr>) s"
  define s2 where "s2 = upd_ep 0 (\<lambda>ep. ep\<lparr>ep_cmdq_iova := set_hi32 (ep_cmdq_iova ep) (drop_bit 32 cmdq)\<rparr>) s1"
  define s3 where "s3 = upd_ep 0 (\<lambda>ep. ep\<lparr>ep_cq_iova := set_lo32 (ep_cq_iova ep) (ucast (ucast cq :: u32))\<rparr>) s2"
  define s4 where "s4 = upd_ep 0 (\<lambda>ep. ep\<lparr>ep_cq_iova := set_hi32 (ep_cq_iova ep) (drop_bit 32 cq)\<rparr>) s3"
  have 1: "ep_write bus LINQU_UB_REG_CMDQ_BASE_LO (ucast (ucast cmdq :: u32)) s = Some s1"
    using ep_write_base [OF ok] by (simp add: linqu_ub_ep_reg_write_def Let_def s1_def)
  note ok1 = ep_write_dev_ok [OF ok 1]
  have 2: "ep_write bus LINQU_UB_REG_CMDQ_BASE_HI (drop_bit 32 cmdq) s1 = Some s2"
    using ep_write_base [OF ok1] by (simp add: linqu_ub_ep_reg_write_def Let_def s2_def)
  note ok2 = ep_write_dev_ok [OF ok1 2]
  have 3: "ep_write bus LINQU_UB_REG_CQ_BASE_LO (ucast (ucast cq :: u32)) s2 = Some s3"
    using ep_write_base [OF ok2] by (simp add: linqu_ub_ep_reg_write_def Let_def s3_def)
  note ok3 = ep_write_dev_ok [OF ok2 3]
  have 4: "ep_write bus LINQU_UB_REG_CQ_BASE_HI (drop_bit 32 cq) s3 = Some s4"
    using ep_write_base [OF ok3] by (simp add: linqu_ub_ep_reg_write_def Let_def s4_def)
  have "0 < length (endpoints s)" using ok by (simp add: dev_ok_def)
  then have e: "ep_at s4 0 = (ep_at s 0)\<lparr>ep_cmdq_iova := cmdq, ep_cq_iova := cq\<rparr>"
    by (simp add: s4_def s3_def s2_def s1_def upd_ep_def set_lohi)
  show ?thesis
    by (rule exI [of _ s4])
      (use 1 2 3 4 ep_write_dev_ok [OF ok3 4] e in \<open>simp add: program_rings_def\<close>,
        simp add: s4_def s3_def s2_def s1_def upd_ep_def)
qed

lemma dev_ok_mem: "dev_ok s \<Longrightarrow> dev_ok (s\<lparr>address_space_memory := m\<rparr>)"
  by (auto intro: dev_ok_frame [of s] simp: dev_ok_def)

lemma probe_init_run:
  assumes st: "probe_start acc ready log cmdq cq seg s"
  shows "run_probe ram_bus (probe_init cmdq cq) s = Some ([seg], [],
    s\<lparr>address_space_memory := store_cmds cmdq [(0, build_dbput_descriptor 64)]
      (snd (ram_write (snd (ram_write (address_space_memory s) cmdq page_zero)) cq page_zero))\<rparr>)"
proof -
  have ok: "dev_ok (s\<lparr>address_space_memory := m\<rparr>)" for m using st dev_ok_mem by (auto simp: probe_start_def)
  have "ep_read LINQU_UB_REG_DEFAULT_SEGMENT (s\<lparr>address_space_memory := m\<rparr>) = (seg, s\<lparr>address_space_memory := m\<rparr>)" for m
    using st ep_read_reg [OF ok, of LINQU_UB_REG_DEFAULT_SEGMENT]
    by (simp add: probe_start_def Let_def linqu_ub_ep_reg_read_def)
  then show ?thesis by (simp add: probe_init_def store_cmds_def slot_at_def)
qed

lemma start_run:
  assumes st: "probe_start acc ready log cmdq cq seg s"
  shows "\<exists>s1 s2 t. run_probe ram_bus (probe_init cmdq cq) s = Some ([seg], [], s1) \<and>
    run_probe ram_bus (probe_descriptors cmdq seg) s1 = Some ([], [], s2) \<and>
    run_probe ram_bus (take 4 (program_rings cmdq cq)) s2 = Some ([], [], t) \<and>
    absr acc ready log (backend s) cmdq cq [] t (view_start seg)"
proof -
  let ?m = "store_cmds cmdq [(0, build_dbput_descriptor 64)]
        (snd (ram_write (snd (ram_write (address_space_memory s) cmdq page_zero)) cq page_zero))"
  let ?s1 = "s\<lparr>address_space_memory := ?m\<rparr>" and ?s2 = "s\<lparr>address_space_memory := start_ram cmdq cq seg (address_space_memory s)\<rparr>"
  have u: "[0..<6] = [0, 1, 2, 3, 4, 5 :: nat]" by code_simp
  have 2: "run_probe ram_bus (probe_descriptors cmdq seg) ?s1 = Some ([], [], ?s2)"
    by (simp add: probe_descriptors_def store_cmds_def start_ram_def start_cmds_def build_mixed_descriptor_def u)
  have ok2: "dev_ok ?s2" using st dev_ok_mem by (auto simp: probe_start_def)
  obtain t where t: "run_probe ram_bus (take 4 (program_rings cmdq cq)) ?s2 = Some ([], [], t)" "dev_ok t"
    "ep_at t 0 = (ep_at ?s2 0)\<lparr>ep_cmdq_iova := cmdq, ep_cq_iova := cq\<rparr>" "backend t = backend s" "opaque t = opaque s"
    "address_space_memory t = start_ram cmdq cq seg (address_space_memory s)"
    using bases_run [OF ok2, of ram_bus cmdq cq] by auto
  have e: "ep_valid 0 t" "ep_endpoint_id (ep_at t 0) = 1"
    using dev_ok_endpoint [OF t(2), of 0] t(2) by (auto simp: dev_ok_def word_less_nat_alt)
  have "mem_rel cmdq cq [] (address_space_memory t) (view_start seg)"
    using st start_mem by (auto simp: t(6) probe_start_def)
  then have "absr acc ready log (backend s) cmdq cq [] t (view_start seg)"
    using st t(2-5) e by (simp add: absr_def flow_def probe_start_def Let_def regs_rel_def view_start_def dev_ok_def)
  with probe_init_run [OF st] 2 t(1) show ?thesis by blast
qed

section \<open>The verdict\<close>

text \<open>What the probe checks of the first 24 completions the backend produced.\<close>

definition completions_expected :: "bytes list \<Rightarrow> bool" where
  "completions_expected cs \<longleftrightarrow>
     expect_all (expect_completions (previews (take 6 cs))) \<and>
     expect_all (expect_counts (fold count_completion (previews (take 18 (drop 6 cs))) no_counts))"

lemma phase_sim:
  assumes "list_all2 (op_rel cmdq cq) ps vos" and "list_ex rings vos \<Longrightarrow> fifo_backend acc ready log ops"
    and "absr acc ready log ops cmdq cq hist s v" and "run_view vos v = Some (xs, ks, w)"
  obtains s' cs where "run_probe ram_bus ps s = Some (xs, map ((!) (hist @ cs)) ks, s')"
    and "absr acc ready log ops cmdq cq (hist @ cs) s' w" and "\<forall>k \<in> set ks. k < length (hist @ cs)"
  using run_sim [OF assms] by blast

lemma map_nth_take:
  assumes "\<forall>k \<in> set [a..<b]. k < length xs"
  shows "map ((!) xs) [a..<b] = take (b - a) (drop a xs)"
proof (cases "a < b")
  case True
  with assms have "b \<le> length xs" by (cases b) auto
  then show ?thesis by (auto intro: nth_equalityI)
qed simp

text \<open>The phases that read completions.\<close>

lemma ring_stress_pass:
  assumes r0: "absr acc ready log ops cmdq cq [] s (view_start seg)" and fb: "fifo_backend acc ready log ops"
  shows "\<exists>s1 s2 hist cmds cqs.
    run_probe ram_bus (ring_rest cq) s = Some ([6, 6, 1, 0, 3, 1, 6, 0, 0], take 6 hist, s1) \<and>
    run_probe ram_bus (stress_phase cmdq cq seg) s1 = Some ([24, 24, 0, 1, 24, 0, 0], take 18 (drop 6 hist), s2) \<and>
    absr acc ready log ops cmdq cq hist s2 (view_at seg 24 24 24 0 0 24 24 cmds cqs) \<and>
    24 \<le> length hist \<and> length cmds = 32 \<and> length cqs = 64"
proof -
  let ?c = "rv_cmds (view_start seg)"
  from ring_run obtain q1 where v1: "run_view view_ring (view_start seg) =
      Some ([6, 6, 1, 0, 3, 1, 6, 0, 0], [0..<6], view_at seg 6 6 6 0 0 6 6 ?c q1)" by blast
  obtain s1 h1 where 1: "run_probe ram_bus (ring_rest cq) s = Some ([6, 6, 1, 0, 3, 1, 6, 0, 0], map ((!) h1) [0..<6], s1)"
    and r1: "absr acc ready log ops cmdq cq h1 s1 (view_at seg 6 6 6 0 0 6 6 ?c q1)"
    and k1: "\<forall>k \<in> set [0..<6]. k < length h1"
    by (rule phase_sim [OF ring_rel fb r0 v1]) (simp only: append_Nil)
  have "length ?c = 32" by (simp add: view_start_def)
  from stress_run [OF this] obtain c2 q2 where v2: "run_view view_stress (view_at seg 6 6 6 0 0 6 6 ?c q1) =
      Some ([24, 24, 0, 1, 24, 0, 0], [6..<24], view_at seg 24 24 24 0 0 24 24 c2 q2)"
    and l2: "length c2 = 32" "length q2 = 64" by blast
  obtain s2 h2 where 2: "run_probe ram_bus (stress_phase cmdq cq seg) s1 =
      Some ([24, 24, 0, 1, 24, 0, 0], map ((!) (h1 @ h2)) [6..<24], s2)"
    and r2: "absr acc ready log ops cmdq cq (h1 @ h2) s2 (view_at seg 24 24 24 0 0 24 24 c2 q2)"
    and k2: "\<forall>k \<in> set [6..<24]. k < length (h1 @ h2)"
    by (rule phase_sim [OF stress_rel fb r1 v2])
  have len: "6 \<le> length h1" "24 \<le> length (h1 @ h2)" using bspec [OF k1, of 5] bspec [OF k2, of 23] by auto
  have "map ((!) h1) [0..<6] = take 6 (h1 @ h2)" "map ((!) (h1 @ h2)) [6..<24] = take 18 (drop 6 (h1 @ h2))"
    using map_nth_take [OF k1] map_nth_take [OF k2] len by simp_all
  with 1 2 r2 len l2 show ?thesis by metis
qed

text \<open>The phases that fill the completion ring, submit a bad descriptor and write a bad tail.\<close>

lemma checks_pass:
  assumes r0: "absr acc ready log ops cmdq cq hist s (view_at seg 24 24 24 0 0 24 24 cmds cqs)"
    and fb: "fifo_backend acc ready log ops" and l: "length cmds = 32" "length cqs = 64"
  shows "\<exists>s1 s2 t more w.
    run_probe ram_bus (overflow_phase cmdq seg) s = Some ([23, 22, 24, 23, 0, 5, 23, 4, 24, 5, 24, 0], [], s1) \<and>
    run_probe ram_bus (invalid_phase cmdq cq) s1 = Some ([24, 24, 7, 2, 0], [], s2) \<and>
    run_probe ram_bus range_phase s2 = Some ([25, 25, 6, 2, 0], [], t) \<and>
    absr acc ready log ops cmdq cq (hist @ more) t w"
proof -
  from overflow_run [OF l] obtain c1 q1 where v1: "run_view view_overflow (view_at seg 24 24 24 0 0 24 24 cmds cqs) =
      Some ([23, 22, 24, 23, 0, 5, 23, 4, 24, 5, 24, 0], [], view_at seg 24 24 24 0 0 88 88 c1 q1)" and l1: "length c1 = 32" by blast
  obtain s1 h1 where 1: "run_probe ram_bus (overflow_phase cmdq seg) s =
      Some ([23, 22, 24, 23, 0, 5, 23, 4, 24, 5, 24, 0], [], s1)"
    and r1: "absr acc ready log ops cmdq cq (hist @ h1) s1 (view_at seg 24 24 24 0 0 88 88 c1 q1)"
    by (rule phase_sim [OF overflow_rel fb r0 v1]) simp
  from invalid_run [OF l1] obtain c2 q2 where v2: "run_view view_invalid (view_at seg 24 24 24 0 0 88 88 c1 q1) =
      Some ([24, 24, 7, 2, 0], [], (view_at seg 24 0 24 0 7 88 88 c2 q2)\<lparr>rv_tail := 25\<rparr>)" by blast
  obtain s2 h2 where 2: "run_probe ram_bus (invalid_phase cmdq cq) s1 = Some ([24, 24, 7, 2, 0], [], s2)"
    and r2: "absr acc ready log ops cmdq cq ((hist @ h1) @ h2) s2 ((view_at seg 24 0 24 0 7 88 88 c2 q2)\<lparr>rv_tail := 25\<rparr>)"
    by (rule phase_sim [OF invalid_rel fb r1 v2]) simp
  from range_run obtain w where v3: "run_view view_range ((view_at seg 24 0 24 0 7 88 88 c2 q2)\<lparr>rv_tail := 25\<rparr>) =
      Some ([25, 25, 6, 2, 0], [], w)" by blast
  obtain t h3 where 3: "run_probe ram_bus range_phase s2 = Some ([25, 25, 6, 2, 0], [], t)"
    and r3: "absr acc ready log ops cmdq cq (((hist @ h1) @ h2) @ h3) t w"
    by (rule phase_sim [OF range_rel fb r2 v3]) simp
  from r3 have "absr acc ready log ops cmdq cq (hist @ (h1 @ h2 @ h3)) t w" by simp
  with 1 2 3 show ?thesis by blast
qed

text \<open>
  C7: on a device in the state reset leaves, with the two queue pages in guest RAM and a backend that
  keeps its contract, the ring probe runs to its end; every check of a register succeeds (the batch of
  6, the wrapped rounds that fill the completion ring and their drain, the refused descriptor and the
  tail out of range), and it reports success exactly when the default segment is not zero and the first
  24 completions the backend produced are the expected ones, which it reads in order.
\<close>

theorem probe_verdict:
  assumes "probe_start acc ready log cmdq cq seg s" and "fifo_backend acc ready log (backend s)"
  shows "\<exists>t. probe_ring_path ram_bus False cmdq cq s =
      Some (seg \<noteq> 0 \<and> completions_expected (log (opaque t)), t) \<and>
    24 \<le> length (log (opaque t)) \<and> dev_ok t"
proof -
  from start_run [OF assms(1)] obtain s1 s2 s3 where
    0: "run_probe ram_bus (probe_init cmdq cq) s = Some ([seg], [], s1)"
    "run_probe ram_bus (probe_descriptors cmdq seg) s1 = Some ([], [], s2)"
    "run_probe ram_bus (take 4 (program_rings cmdq cq)) s2 = Some ([], [], s3)"
    and r0: "absr acc ready log (backend s) cmdq cq [] s3 (view_start seg)" by blast
  from ring_stress_pass [OF r0 assms(2)] obtain s4 s5 hist c q where
    1: "run_probe ram_bus (ring_rest cq) s3 = Some ([6, 6, 1, 0, 3, 1, 6, 0, 0], take 6 hist, s4)"
    "run_probe ram_bus (stress_phase cmdq cq seg) s4 = Some ([24, 24, 0, 1, 24, 0, 0], take 18 (drop 6 hist), s5)"
    and r1: "absr acc ready log (backend s) cmdq cq hist s5 (view_at seg 24 24 24 0 0 24 24 c q)"
    and len: "24 \<le> length hist" and l: "length c = 32" "length q = 64" by blast
  from checks_pass [OF r1 assms(2) l] obtain s6 s7 t more w where
    2: "run_probe ram_bus (overflow_phase cmdq seg) s5 = Some ([23, 22, 24, 23, 0, 5, 23, 4, 24, 5, 24, 0], [], s6)"
    "run_probe ram_bus (invalid_phase cmdq cq) s6 = Some ([24, 24, 7, 2, 0], [], s7)"
    "run_probe ram_bus range_phase s7 = Some ([25, 25, 6, 2, 0], [], t)"
    and r2: "absr acc ready log (backend s) cmdq cq (hist @ more) t w" by blast
  have lg: "log (opaque t) = hist @ more" and ok: "dev_ok t" using r2 by (simp_all add: absr_def flow_def)
  have r: "run_probe ram_bus (ring_phase cmdq cq) s2 = Some ([6, 6, 1, 0, 3, 1, 6, 0, 0], take 6 hist, s4)"
    by (simp add: ring_split run_probe_append 0(3) 1(1))
  show ?thesis
    by (rule exI [of _ t])
      (use len ok in \<open>simp add: probe_ring_path_def 0(1,2) r 1(2) 2 lg completions_expected_def
        expect_all_def stress_start_def stress_batch_def stress_cq_start_def\<close>)
qed
section \<open>A backend that refuses the doorbell\<close>

text \<open>The scenario of \<^verbatim>\<open>linqu_probe_backend_overflow\<close>: descriptors are accepted, but there
  is no room to execute them.\<close>

definition refuses :: "('b \<Rightarrow> bytes list) \<Rightarrow> ('b \<Rightarrow> bytes list) \<Rightarrow> ('b \<Rightarrow> bytes list) \<Rightarrow> 'b backend_ops \<Rightarrow> bool" where
  "refuses acc ready log ops \<longleftrightarrow>
     (\<exists>submit doorbell. op_submit_slot ops = Some submit \<and> op_ring_doorbell ops = Some doorbell \<and>
        accepts acc ready log submit \<and>
        (\<forall>b n. \<exists>rc p q b'. doorbell b 1 n = (rc, p, q, b') \<and> rc < 0 \<and> acc b' = [] \<and> ready b' = ready b \<and> log b' = log b))"

lemma flow_doorbell_refused:
  assumes f: "flow acc ready log ops cmdq cq hist s v" and rf: "refuses acc ready log ops"
    and good: "\<forall>k < min (unat batch) (view_pending v). rv_cmds v ! ((rv_head v + k) mod 32)"
  shows "\<exists>s' rc. linqu_ub_kick ram_bus 0 batch s = Some (rc, s') \<and>
    flow acc ready log ops cmdq cq hist s' (view_error LINQU_UB_ERR_QUEUE_OVERFLOW v)"
proof -
  from rf obtain submit doorbell where o: "op_submit_slot ops = Some submit" "op_ring_doorbell ops = Some doorbell"
    and a: "accepts acc ready log submit"
    and d: "\<forall>b n. \<exists>rc p q b'. doorbell b 1 n = (rc, p, q, b') \<and> rc < 0 \<and> acc b' = [] \<and> ready b' = ready b \<and> log b' = log b"
    by (auto simp: refuses_def)
  from f have ok: "ep_ok (ep_at s 0)" "0 < length (endpoints s)"
    and bk: "backend s = ops" "ep_endpoint_id (ep_at s 0) = 1" "acc (opaque s) = []"
    by (simp_all add: flow_def ep_valid_def)
  obtain ds where q: "take (unat batch) (cmdq_queue ram_bus s 0) = map Some ds" "length ds \<le> 32"
    "\<forall>x \<in> set ds. \<exists>d. decode_descriptor x = Inr d"
    using flow_batch [OF f good] by blast
  from submit_run_good [OF a q(3), of "opaque s"] q(2) bk(3) obtain b1 where
    b1: "submit_run submit 1 (opaque s) (map Some ds) = (None, b1)" "ready b1 = ready (opaque s)" "log b1 = log (opaque s)" by auto
  obtain rc p x b2 where b2: "doorbell b1 1 (of_nat (length ds)) = (rc, p, x, b2)" "rc < 0" "acc b2 = []"
    "ready b2 = ready (opaque s)" "log b2 = log (opaque s)"
    using d b1(2,3) by metis
  have "linqu_ub_kick ram_bus 0 batch s = Some (rc, linqu_ub_set_error 0 LINQU_UB_ERR_QUEUE_OVERFLOW (s\<lparr>opaque := b2\<rparr>))"
    using kick_run [OF o [folded bk(1)] ok(2,1), of ram_bus batch] q(1) b1(1) b2(1,2) bk(2) by (simp add: Let_def)
  moreover have "flow acc ready log ops cmdq cq hist (s\<lparr>opaque := b2\<rparr>) v" using f b2 by (simp add: flow_def)
  ultimately show ?thesis using flow_error by blast
qed

text \<open>The doorbell register with such a backend.\<close>

lemma absr_doorbell_refused:
  assumes r: "absr acc ready log ops cmdq cq hist s v" and rf: "refuses acc ready log ops"
    and x: "x < 2 ^ 32" "x \<noteq> 0" and good: "\<forall>k < min (unat x) (view_pending v). rv_cmds v ! ((rv_head v + k) mod 32)"
  shows "\<exists>s'. ep_write ram_bus LINQU_UB_REG_DOORBELL x s = Some s' \<and>
    absr acc ready log ops cmdq cq hist s' (view_error LINQU_UB_ERR_QUEUE_OVERFLOW v)"
proof -
  from r have ok: "dev_ok s" and f: "flow acc ready log ops cmdq cq hist s v" by (simp_all add: absr_def)
  have u: "unat (ucast x :: u32) = unat x" using x(1) ucast_u32_small [of x] by (simp add: word_less_nat_alt)
  obtain s' rc where k: "linqu_ub_kick ram_bus 0 (ucast x) s = Some (rc, s')"
    and f': "flow acc ready log ops cmdq cq hist s' (view_error LINQU_UB_ERR_QUEUE_OVERFLOW v)"
    using flow_doorbell_refused [OF f rf, of "ucast x"] good by (auto simp: u)
  have w: "ep_write ram_bus LINQU_UB_REG_DOORBELL x s = Some s'"
    using ep_write_put [OF ok, of LINQU_UB_REG_DOORBELL ram_bus x] k x(2)
    by (simp add: put_regs_def linqu_ub_ep_reg_write_def Let_def)
  with ep_write_dev_ok [OF ok w] f' show ?thesis by (auto simp: absr_def)
qed

text \<open>The script before the doorbell is rung and after it.\<close>

definition refused_pre :: "probe_op list" where
  "refused_pre = [Put LINQU_UB_REG_CQ_HEAD 0, Put LINQU_UB_REG_CMDQ_TAIL 6]"

definition refused_post :: "probe_op list" where
  "refused_post = [Get LINQU_UB_REG_CMDQ_HEAD, Get LINQU_UB_REG_CQ_TAIL, Get LINQU_UB_REG_LAST_ERROR,
     Get LINQU_UB_REG_IRQ_STATUS, Copy LINQU_UB_REG_IRQ_ACK LINQU_UB_REG_IRQ_STATUS, Get LINQU_UB_REG_IRQ_STATUS]"

definition view_refused_pre :: "view_op list" where
  "view_refused_pre = [VPut LINQU_UB_REG_CQ_HEAD 0, VPut LINQU_UB_REG_CMDQ_TAIL 6]"

definition view_refused_post :: "view_op list" where
  "view_refused_post = [VGet LINQU_UB_REG_CMDQ_HEAD, VGet LINQU_UB_REG_CQ_TAIL, VGet LINQU_UB_REG_LAST_ERROR,
     VGet LINQU_UB_REG_IRQ_STATUS, VCopy LINQU_UB_REG_IRQ_ACK LINQU_UB_REG_IRQ_STATUS, VGet LINQU_UB_REG_IRQ_STATUS]"

lemma refused_split:
  "backend_overflow_phase cmdq cq =
    take 4 (program_rings cmdq cq) @ refused_pre @ Put LINQU_UB_REG_DOORBELL 6 # refused_post"
  by (simp add: backend_overflow_phase_def program_rings_def refused_pre_def refused_post_def)

lemma refused_rel:
  "list_all2 (op_rel cmdq cq) refused_pre view_refused_pre" "list_all2 (op_rel cmdq cq) refused_post view_refused_post"
  "\<not> list_ex rings view_refused_pre" "\<not> list_ex rings view_refused_post"
  by (simp_all add: refused_pre_def refused_post_def view_refused_pre_def view_refused_post_def)

lemma refused_run:
  "run_view view_refused_pre (view_start seg) = Some ([], [], (view_start seg)\<lparr>rv_tail := 6\<rparr>)"
  "\<exists>w. run_view view_refused_post (view_error LINQU_UB_ERR_QUEUE_OVERFLOW ((view_start seg)\<lparr>rv_tail := 6\<rparr>)) =
    Some ([0, 0, 5, 2, 0], [], w)"
  by (simp_all add: view_refused_pre_def view_refused_post_def view_eval view_start_def)

text \<open>
  In the mode that tests a backend without room, where the backend refuses the doorbell, the probe
  sees what it expects: the command head and the completion tail stay 0, the error is queue overflow,
  the error interrupt is raised, and acknowledging it clears it.
\<close>

theorem backend_overflow_verdict:
  assumes "probe_start acc ready log cmdq cq seg s" and "refuses acc ready log (backend s)"
  shows "\<exists>t. probe_ring_path ram_bus True cmdq cq s = Some (True, t) \<and> dev_ok t"
proof -
  let ?v = "(view_start seg)\<lparr>rv_tail := 6\<rparr>"
  from start_run [OF assms(1)] obtain s1 s2 s3 where
    0: "run_probe ram_bus (probe_init cmdq cq) s = Some ([seg], [], s1)"
    "run_probe ram_bus (probe_descriptors cmdq seg) s1 = Some ([], [], s2)"
    "run_probe ram_bus (take 4 (program_rings cmdq cq)) s2 = Some ([], [], s3)"
    and r0: "absr acc ready log (backend s) cmdq cq [] s3 (view_start seg)" by blast
  obtain s4 cs where 1: "run_probe ram_bus refused_pre s3 = Some ([], [], s4)"
    and r1: "absr acc ready log (backend s) cmdq cq cs s4 ?v"
    by (rule phase_sim [OF refused_rel(1) _ r0 refused_run(1)]) (use refused_rel(3) in auto)
  have "\<forall>k < min (unat (6 :: u64)) (view_pending ?v). rv_cmds ?v ! ((rv_head ?v + k) mod 32)"
    by (simp add: view_start_def view_pending_def nth_append)
  from absr_doorbell_refused [OF r1 assms(2) _ _ this] obtain s5 where
    2: "ep_write ram_bus LINQU_UB_REG_DOORBELL 6 s4 = Some s5"
    and r2: "absr acc ready log (backend s) cmdq cq cs s5 (view_error LINQU_UB_ERR_QUEUE_OVERFLOW ?v)" by auto
  obtain w where w: "run_view view_refused_post (view_error LINQU_UB_ERR_QUEUE_OVERFLOW ?v) = Some ([0, 0, 5, 2, 0], [], w)"
    using refused_run(2) by blast
  obtain t where 3: "run_probe ram_bus refused_post s5 = Some ([0, 0, 5, 2, 0], [], t)" and r3: "dev_ok t"
    by (rule phase_sim [OF refused_rel(2) _ r2 w]) (use refused_rel(4) in \<open>auto simp: absr_def\<close>)
  have "run_probe ram_bus (backend_overflow_phase cmdq cq) s2 = Some ([0, 0, 5, 2, 0], [], t)"
    by (simp add: refused_split run_probe_append 0(3) 1 2 3)
  with 0 r3 show ?thesis by (simp add: probe_ring_path_def expect_all_def)
qed

end
