(* ===== verification/UB_Probe_Examples.thy ===== *)
theory UB_Probe_Examples
  imports UB_Examples UB_Probe_Pass
begin

text \<open>
  A backend that keeps the contract of the probe: it queues descriptors, completes each with success and
  numbers the operations the way the services do. Each theorem applies a theorem about the slots or the
  probe to concrete values, which shows that its hypotheses can be met.
\<close>

section \<open>Slots\<close>

definition sample_desc :: guest_descriptor where
  "sample_desc = Service (ShmemPut None 9 0x1122 128)"

theorem descriptor_roundtrip_witness:
  "\<exists>slot. encode_descriptor sample_desc 64 = Inr slot \<and> decode_descriptor slot = Inr sample_desc \<and> length slot = 64"
proof -
  have ok: "descriptor_ok sample_desc" by (simp add: sample_desc_def descriptor_ok_def task_ok_def)
  obtain slot where e: "encode_descriptor sample_desc 64 = Inr slot"
    by (simp add: sample_desc_def encode_descriptor_def bind_enc_def pad_slot_def encode_task_def)
  with descriptor_roundtrip [OF e ok] show ?thesis by simp
qed

definition sample_event :: completion_event where
  "sample_event = \<lparr>ce_op_id = 5, ce_task = None, ce_source = DfsService, ce_status = Success, ce_finished_at = 77\<rparr>"

theorem completion_preview_reads_witness:
  "\<exists>slot p. encode_completion sample_event 64 = Inr slot \<and> decode_completion_preview slot = Some p \<and>
    cp_op_id p = 5 \<and> cp_finished_at p = 77"
proof -
  obtain slot where e: "encode_completion sample_event 64 = Inr slot"
    by (simp add: sample_event_def encode_completion_def bind_enc_def pad_slot_def encode_task_def)
  from completion_preview_reads [OF e] show ?thesis using e by (auto simp: sample_event_def)
qed

section \<open>A backend\<close>

text \<open>The descriptors submitted, the completions delivered and those waiting.\<close>

type_synonym sample_session = "bytes list \<times> nat \<times> nat"

definition sample_done :: "nat \<Rightarrow> bytes" where
  "sample_done k = le64 (of_nat (k mod 2 + 1)) @ [0, of_nat ((k mod 6) div 2 + 3), 1] @ le64 0 @ replicate 45 0"

definition q_acc :: "sample_session \<Rightarrow> bytes list" where "q_acc b = fst b"
definition q_ready :: "sample_session \<Rightarrow> bytes list" where
  "q_ready b = map sample_done [fst (snd b)..<fst (snd b) + snd (snd b)]"
definition q_log :: "sample_session \<Rightarrow> bytes list" where
  "q_log b = map sample_done [0..<fst (snd b) + snd (snd b)]"

definition q_submit :: "sample_session submit_op" where
  "q_submit b eid slot =
     (case decode_descriptor slot of Inr _ \<Rightarrow> (0, (fst b @ [slot], snd b)) | Inl _ \<Rightarrow> (-1, b))"

definition q_doorbell :: "sample_session \<Rightarrow> u16 \<Rightarrow> u32 \<Rightarrow> int \<times> u32 \<times> u32 \<times> sample_session" where
  "q_doorbell b eid n = (0, n, 0, ([], fst (snd b), snd (snd b) + length (fst b)))"

definition q_refuse :: "sample_session \<Rightarrow> u16 \<Rightarrow> u32 \<Rightarrow> int \<times> u32 \<times> u32 \<times> sample_session" where
  "q_refuse b eid n = (-1, 0, 0, ([], snd b))"

definition q_poll :: "sample_session poll_op" where
  "q_poll b eid n =
     (case snd (snd b) of
        0 \<Rightarrow> (1, [], b)
      | Suc left \<Rightarrow> (0, sample_done (fst (snd b)), (fst b, fst (snd b) + 1, left)))"

definition q_ops :: "sample_session backend_ops" where
  "q_ops = \<lparr>op_register_endpoint = Some (\<lambda>b _ _. (0, b)), op_get_default_segment = Some (\<lambda>b _. (0, 7, b)),
     op_submit_slot = Some q_submit, op_ring_doorbell = Some q_doorbell, op_poll_completion = Some q_poll\<rparr>"

lemma q_accepts: "accepts q_acc q_ready q_log q_submit"
  by (auto simp: accepts_def q_submit_def q_acc_def q_ready_def q_log_def split: sum.split)

lemma q_executes: "executes q_acc q_ready q_log q_doorbell"
  by (auto simp: executes_def q_doorbell_def q_acc_def q_ready_def q_log_def add.assoc [symmetric]
      upt_add_eq_append [of 0, OF le0] upt_add_eq_append [OF le_add1] intro!: exI)

lemma q_delivers: "delivers q_acc q_ready q_log q_poll"
  by (auto simp: delivers_def q_poll_def q_acc_def q_ready_def q_log_def sample_done_def upt_conv_Cons
      simp del: upt_Suc split: nat.split list.split)

lemma q_fifo: "fifo_backend q_acc q_ready q_log q_ops"
  using q_accepts q_executes q_delivers by (simp add: fifo_backend_def q_ops_def)

lemma q_refuses: "refuses q_acc q_ready q_log (q_ops\<lparr>op_ring_doorbell := Some q_refuse\<rparr>)"
  using q_accepts by (simp add: refuses_def q_ops_def q_refuse_def q_acc_def q_ready_def q_log_def)

section \<open>The probe on it\<close>

definition probe_ep :: ep_state where
  "probe_ep = sample_ep\<lparr>ep_cmdq_iova := 0, ep_cq_iova := 0, ep_cmdq_head := 0, ep_cmdq_tail := 0, ep_default_segment := 7\<rparr>"

definition probe_dev :: "sample_session backend_ops \<Rightarrow> (guest_ram, sample_session) ub_state" where
  "probe_dev ops = \<lparr>num_endpoints = 1, desc_bytes = 64, scenario_path = None, rust_bridge = False,
     backend = ops, cfg_upi = 0, cfg_th_en = 0, msgq = msgq_zero, decoder = decoder_zero, ummu = ummu_zero,
     endpoints = replicate 16 probe_ep, ubios = [], ubios_readonly = False, irq = False, opaque = ([], 0, 0),
     address_space_memory = \<lparr>ram_limit = 0x100000, ram_byte = (\<lambda>_. 0xaa)\<rparr>\<rparr>"

lemma probe_dev_start: "probe_start q_acc q_ready q_log 0x4000 0x8000 7 (probe_dev ops)"
  by (simp add: probe_start_def dev_ok_def probe_dev_def probe_ep_def sample_ep_def ep_ok_def irq_synced_def
      linqu_ub_has_pending_irq_def msgq_zero_def q_acc_def q_ready_def q_log_def pages_ok_def)

lemma sample_completions: "24 \<le> n \<Longrightarrow> completions_expected (map sample_done [0..<n])"
proof -
  assume "24 \<le> n"
  then have "take 6 (map sample_done [0..<n]) = map sample_done [0..<6]"
    "take 18 (drop 6 (map sample_done [0..<n])) = map sample_done [6..<24]"
    by (simp_all add: take_map drop_map)
  moreover have "expect_all (expect_completions (previews (map sample_done [0..<6])))" by code_simp
  moreover have "expect_all (expect_counts (fold count_completion (previews (map sample_done [6..<24])) no_counts))" by code_simp
  ultimately show ?thesis by (simp only: completions_expected_def)
qed

theorem probe_verdict_witness:
  "\<exists>t. probe_ring_path ram_bus False 0x4000 0x8000 (probe_dev q_ops) = Some (True, t) \<and> 24 \<le> length (q_log (opaque t))"
proof -
  have "fifo_backend q_acc q_ready q_log (backend (probe_dev q_ops))" using q_fifo by (simp add: probe_dev_def)
  from probe_verdict [OF probe_dev_start this] sample_completions show ?thesis by (auto simp: q_log_def)
qed

theorem backend_overflow_verdict_witness:
  "\<exists>t. probe_ring_path ram_bus True 0x4000 0x8000 (probe_dev (q_ops\<lparr>op_ring_doorbell := Some q_refuse\<rparr>)) = Some (True, t)"
proof -
  let ?s = "probe_dev (q_ops\<lparr>op_ring_doorbell := Some q_refuse\<rparr>)"
  have "refuses q_acc q_ready q_log (backend ?s)" using q_refuses by (simp add: probe_dev_def)
  from backend_overflow_verdict [OF probe_dev_start this] show ?thesis by blast
qed

end
