(* ===== verification/Pool_Config.thy ===== *)
theory Pool_Config
  imports RPC_Config
begin

text \<open>
  The set-up of the memory pool demo (\<^verbatim>\<open>ub_obmm_pool_demo.c\<close>): the list of nodes, the memory
  windows the kernel reports, and the placement of the imported regions in them. The lemmas show
  that every node list has two to eight valid addresses with the local one among them, and that
  regions are placed exactly where they fit, aligned and apart from each other.
\<close>

section \<open>Nodes\<close>

definition MAX_NODES :: nat where "MAX_NODES = 8"

definition pool_cmdline_get_value :: "host_env \<Rightarrow> string \<Rightarrow> nat \<Rightarrow> string option" where
  "pool_cmdline_get_value env key out_len =
     (case read_file 4096 (proc_cmdline env) of
        None \<Rightarrow> None
      | Some buf \<Rightarrow>
          (case find (\<lambda>tok. take (length key + 1) tok = key @ ''='') (strtok cmdline_delim buf) of
             None \<Rightarrow> None
           | Some tok \<Rightarrow> Some (snprintf_s out_len (drop (length key + 1) tok))))"

definition env_or_cmdline_value :: "host_env \<Rightarrow> string \<Rightarrow> string \<Rightarrow> nat \<Rightarrow> string option" where
  "env_or_cmdline_value env env_key cmd_key out_len =
     (case getenv env env_key of
        Some v \<Rightarrow> if v \<noteq> [] then Some (snprintf_s out_len v) else pool_cmdline_get_value env cmd_key out_len
      | None \<Rightarrow> pool_cmdline_get_value env cmd_key out_len)"

text \<open>The loop over the tokens, with the addresses found so far.\<close>

fun node_ip_loop :: "(string \<Rightarrow> bool) \<Rightarrow> string list \<Rightarrow> string list \<Rightarrow> string list option" where
  "node_ip_loop valid [] ips = Some ips"
| "node_ip_loop valid (tok # toks) ips =
     (let t = dropWhile (\<lambda>c. c = CHR '' '' \<or> code c = 9) tok
      in if t = [] then node_ip_loop valid toks ips
         else if MAX_NODES \<le> length ips then None
         else let ip = snprintf_s INET_ADDRSTRLEN t
              in if \<not> valid ip then None else node_ip_loop valid toks (ips @ [ip]))"

definition parse_node_ip_list :: "(string \<Rightarrow> bool) \<Rightarrow> string \<Rightarrow> string list option" where
  "parse_node_ip_list valid csv =
     (case node_ip_loop valid (strtok (\<lambda>c. c = CHR '','') (snprintf_s 512 csv)) [] of
        None \<Rightarrow> None
      | Some ips \<Rightarrow> if length ips < 2 then None else Some ips)"

definition atoi :: "string \<Rightarrow> int" where
  "atoi s = to_int (fst (strtol s))"

text \<open>The default list, addresses \<^verbatim>\<open>10.0.0.1\<close> to \<^verbatim>\<open>10.0.0.max_nodes\<close>. At most eight
  addresses of at most eight characters and the commas fit the buffer of 512.\<close>

definition default_csv :: "nat \<Rightarrow> string" where
  "default_csv max_nodes =
     foldl (\<lambda>csv i. (if csv = [] then [] else csv @ '','') @ snprintf_s INET_ADDRSTRLEN (''10.0.0.'' @ show_nat i))
       [] [1..<Suc max_nodes]"

text \<open>The local address, the addresses of all nodes and the index of the local one.\<close>

definition resolve_pool_nodes :: "host_env \<Rightarrow> (string \<times> string list \<times> nat) option" where
  "resolve_pool_nodes env =
     (case env_or_cmdline_value env ''LINQU_UB_LOCAL_IP'' ''linqu_ipourma_ipv4'' INET_ADDRSTRLEN of
        None \<Rightarrow> None
      | Some local_ip \<Rightarrow>
          (let csv =
             (case env_or_cmdline_value env ''LINQU_UB_ALL_IPS'' ''linqu_ipourma_all_ipv4'' 512 of
                Some csv \<Rightarrow> Some csv
              | None \<Rightarrow>
                  (case env_or_cmdline_value env ''LINQU_UB_NODE_COUNT'' ''linqu_ipourma_node_count'' 16 of
                     None \<Rightarrow> Some (default_csv 2)
                   | Some count_buf \<Rightarrow>
                       if atoi count_buf < 2 \<or> int MAX_NODES < atoi count_buf then None
                       else Some (default_csv (nat (atoi count_buf)))))
           in case Option.bind csv (parse_node_ip_list (valid_ipv4 env)) of
                None \<Rightarrow> None
              | Some ips \<Rightarrow>
                  (case find (\<lambda>i. ips ! i = local_ip) [0..<length ips] of
                     None \<Rightarrow> None
                   | Some local_idx \<Rightarrow> Some (local_ip, ips, local_idx))))"

section \<open>Memory windows\<close>

record mem_window =
  mw_base_pa :: u64
  mw_size_bytes :: u64
  mw_decode :: u64
  mw_mar :: u32
  mw_is_cacheable :: bool

definition MAX_WINDOWS :: nat where "MAX_WINDOWS = 16"

text \<open>\<^verbatim>\<open>fgets\<close> on the rest of a file: up to \<open>n - 1\<close> characters, through the first newline.\<close>

definition newline :: char where "newline = CHR 0x0A"

definition fgets_line :: "nat \<Rightarrow> string \<Rightarrow> string" where
  "fgets_line n s = take (n - 1) (takeWhile (\<lambda>c. c \<noteq> newline) s @ (if newline \<in> set s then [newline] else []))"

function fgets_lines :: "string \<Rightarrow> string list" where
  "fgets_lines s =
     (if s = [] then [] else fgets_line 256 s # fgets_lines (drop (length (fgets_line 256 s)) s))"
  by pat_completeness auto

lemma fgets_line_progress: "s \<noteq> [] \<Longrightarrow> fgets_line 256 s \<noteq> []"
  by (cases s) (auto simp: fgets_line_def)

termination fgets_lines
  by (relation "measure length") (simp_all add: fgets_line_progress)

declare fgets_lines.simps [simp del]

text \<open>The directives of \<^verbatim>\<open>sscanf\<close> that are used: literal text, white space and a number.\<close>

datatype scan_item = Lit string | Space | Num nat

definition hex_val :: "char \<Rightarrow> nat option" where
  "hex_val c =
     (let n = code c
      in if 48 \<le> n \<and> n \<le> 57 then Some (n - 48)
         else if 97 \<le> n \<and> n \<le> 102 then Some (n - 87)
         else if 65 \<le> n \<and> n \<le> 70 then Some (n - 55) else None)"

definition is_digit_of :: "nat \<Rightarrow> char \<Rightarrow> bool" where
  "is_digit_of base c = (case hex_val c of None \<Rightarrow> False | Some d \<Rightarrow> d < base)"

definition digits_value :: "nat \<Rightarrow> string \<Rightarrow> int" where
  "digits_value base ds = foldl (\<lambda>n c. n * int base + int (the (hex_val c))) 0 ds"

definition scan_number :: "nat \<Rightarrow> string \<Rightarrow> (u64 \<times> string) option" where
  "scan_number base s =
     (let p = dropWhile c_isspace s;
          neg = (p \<noteq> [] \<and> hd p = CHR ''-'');
          q = (if p \<noteq> [] \<and> (hd p = CHR ''-'' \<or> hd p = CHR ''+'') then tl p else p);
          r = (if base = 16 \<and> (take 2 q = ''0x'' \<or> take 2 q = ''0X'') then drop 2 q else q);
          ds = takeWhile (is_digit_of base) r;
          v = (if 2 ^ 64 \<le> digits_value base ds then - 1
               else if neg then - of_int (digits_value base ds) else of_int (digits_value base ds))
      in if ds = [] then None else Some (v, dropWhile (is_digit_of base) r))"

fun sscanf :: "scan_item list \<Rightarrow> string \<Rightarrow> u64 list" where
  "sscanf [] s = []"
| "sscanf (Lit l # fmt) s = (if take (length l) s = l then sscanf fmt (drop (length l) s) else [])"
| "sscanf (Space # fmt) s = sscanf fmt (dropWhile c_isspace s)"
| "sscanf (Num base # fmt) s =
     (case scan_number base s of None \<Rightarrow> [] | Some (v, r) \<Rightarrow> v # sscanf fmt r)"

definition window_format :: "scan_item list" where
  "window_format =
     [Lit ''mar'', Num 10, Space, Lit ''decode='', Num 16, Space, Lit ''cc_base_mb='', Num 16, Space,
      Lit ''cc_size_mb='', Num 16, Space, Lit ''nc_base_mb='', Num 16, Space, Lit ''nc_size_mb='', Num 16]"

definition window_of_line :: "string \<Rightarrow> mem_window option" where
  "window_of_line line =
     (case sscanf window_format line of
        [mar, decode, cc_base_mb, cc_size_mb, nc_base_mb, nc_size_mb] \<Rightarrow>
          Some (if nc_size_mb \<noteq> 0
                then \<lparr>mw_base_pa = push_bit 20 nc_base_mb, mw_size_bytes = push_bit 20 nc_size_mb,
                      mw_decode = decode, mw_mar = ucast mar, mw_is_cacheable = False\<rparr>
                else \<lparr>mw_base_pa = push_bit 20 cc_base_mb, mw_size_bytes = push_bit 20 cc_size_mb,
                      mw_decode = decode, mw_mar = ucast mar, mw_is_cacheable = True\<rparr>)
      | _ \<Rightarrow> None)"

definition parse_windows :: "string option \<Rightarrow> mem_window list option" where
  "parse_windows contents =
     (case contents of
        None \<Rightarrow> None
      | Some s \<Rightarrow>
          (let ws = take MAX_WINDOWS (List.map_filter window_of_line (fgets_lines s))
           in if ws = [] then None else Some ws))"

section \<open>Placement of imported regions\<close>

definition EXPORT_REGION_SIZE :: u64 where "EXPORT_REGION_SIZE = 2 * 1024 * 1024"
definition IMPORT_ALIGN :: u64 where "IMPORT_ALIGN = 2 * 1024 * 1024"

definition align_up_u64 :: "u64 \<Rightarrow> u64 \<Rightarrow> u64" where
  "align_up_u64 v align = (v + align - 1) AND NOT (align - 1)"

text \<open>The regions placed in one window, at most \<open>n\<close>.\<close>

fun place_in_window :: "nat \<Rightarrow> u64 \<Rightarrow> u64 \<Rightarrow> u64 \<Rightarrow> u64 list" where
  "place_in_window 0 sz cur lim = []"
| "place_in_window (Suc n) sz cur lim =
     (if cur + sz \<le> lim
      then cur # place_in_window n sz (align_up_u64 (cur + sz) IMPORT_ALIGN) lim else [])"

text \<open>The addresses, each with whether the mapping has to be synchronous.\<close>

fun place_in_windows :: "nat \<Rightarrow> u64 \<Rightarrow> mem_window list \<Rightarrow> (u64 \<times> bool) list" where
  "place_in_windows n sz [] = []"
| "place_in_windows n sz (w # ws) =
     (if n = 0 then []
      else let pas = place_in_window n sz (align_up_u64 (mw_base_pa w) IMPORT_ALIGN) (mw_base_pa w + mw_size_bytes w)
           in map (\<lambda>pa. (pa, \<not> mw_is_cacheable w)) pas @ place_in_windows (n - length pas) sz ws)"

definition allocate_import_pas :: "int \<Rightarrow> u64 \<Rightarrow> string option \<Rightarrow> (u64 \<times> bool) list option" where
  "allocate_import_pas import_count size_per_import mem_windows =
     (if import_count \<le> 0 then Some []
      else case parse_windows mem_windows of
             None \<Rightarrow> None
           | Some ws \<Rightarrow>
               (let pas = place_in_windows (nat import_count) size_per_import ws
                in if int (length pas) = import_count then Some pas else None))"

section \<open>Node lists\<close>

lemma node_ip_loop_ok:
  assumes "node_ip_loop valid toks ips = Some r" and "length ips \<le> MAX_NODES" and "\<forall>ip \<in> set ips. valid ip"
  shows "length r \<le> MAX_NODES \<and> (\<forall>ip \<in> set r. valid ip)"
  using assms
proof (induction toks arbitrary: ips)
  case (Cons tok toks)
  define t where "t = dropWhile (\<lambda>c. c = CHR '' '' \<or> code c = 9) tok"
  show ?case
  proof (cases "t = []")
    case True
    with Cons.prems(1) have "node_ip_loop valid toks ips = Some r" by (simp add: t_def [symmetric])
    from Cons.IH [OF this Cons.prems(2,3)] show ?thesis .
  next
    case False
    with Cons.prems(1) have n: "\<not> MAX_NODES \<le> length ips" "valid (snprintf_s INET_ADDRSTRLEN t)"
      "node_ip_loop valid toks (ips @ [snprintf_s INET_ADDRSTRLEN t]) = Some r"
      by (simp_all add: Let_def t_def [symmetric] split: if_splits)
    from Cons.IH [OF n(3)] n(1,2) Cons.prems(3) show ?thesis by simp
  qed
qed simp

lemma resolve_pool_nodes_ok:
  assumes "resolve_pool_nodes env = Some (local_ip, ips, local_idx)"
  shows "2 \<le> length ips" "length ips \<le> MAX_NODES" "local_idx < length ips" "ips ! local_idx = local_ip"
    "\<forall>j < local_idx. ips ! j \<noteq> local_ip" "\<forall>ip \<in> set ips. valid_ipv4 env ip"
proof -
  from assms obtain csv where csv: "parse_node_ip_list (valid_ipv4 env) csv = Some ips"
    and f: "find (\<lambda>i. ips ! i = local_ip) [0..<length ips] = Some local_idx"
    by (auto simp: resolve_pool_nodes_def Let_def bind_eq_Some_conv split: option.splits)
  from csv obtain toks where l: "node_ip_loop (valid_ipv4 env) toks [] = Some ips" and g: "\<not> length ips < 2"
    by (auto simp: parse_node_ip_list_def split: option.splits if_splits)
  from node_ip_loop_ok [OF l] g show "2 \<le> length ips" "length ips \<le> MAX_NODES" "\<forall>ip \<in> set ips. valid_ipv4 env ip" by auto
  from f obtain i where i: "i < length ips" "local_idx = i" "ips ! i = local_ip" "\<forall>j < i. ips ! j \<noteq> local_ip"
    by (auto simp: find_Some_iff)
  then show "local_idx < length ips" "ips ! local_idx = local_ip" "\<forall>j < local_idx. ips ! j \<noteq> local_ip" by auto
qed

section \<open>Placement\<close>

text \<open>A window away from the end of the address space, so that no sum wraps.\<close>

definition window_ok :: "mem_window \<Rightarrow> bool" where
  "window_ok w \<longleftrightarrow> unat (mw_base_pa w) + unat (mw_size_bytes w) + 2 * unat IMPORT_ALIGN \<le> 2 ^ 64"

lemma align_mask: "IMPORT_ALIGN = 2 ^ 21" "unat IMPORT_ALIGN = 2 ^ 21"
  by (simp_all add: IMPORT_ALIGN_def)

lemma mask_off: "x AND NOT (mask 21) = push_bit 21 (drop_bit 21 (x :: u64))"
proof (rule bit_word_eqI)
  fix n
  show "bit (x AND NOT (mask 21)) n = bit (push_bit 21 (drop_bit 21 x)) n" if "n < LENGTH(64)"
    using that by (cases "n < 21") (simp_all add: bit_simps)
qed

lemma unat_align_up:
  assumes "unat v + 2 ^ 21 \<le> 2 ^ 64"
  shows "unat (align_up_u64 v IMPORT_ALIGN) = (unat v + (2 ^ 21 - 1)) div 2 ^ 21 * 2 ^ 21"
proof -
  have m: "IMPORT_ALIGN - 1 = mask 21" "v + IMPORT_ALIGN - 1 = v + (2 ^ 21 - 1)"
    by (simp_all add: IMPORT_ALIGN_def mask_eq_exp_minus_1)
  have u: "unat (v + (2 ^ 21 - 1)) = unat v + (2 ^ 21 - 1)"
    using assms by (simp add: unat_word_ariths)
  have "unat (push_bit 21 (drop_bit 21 x)) = unat x div 2 ^ 21 * 2 ^ 21" for x :: u64
  proof -
    have "unat x div 2 ^ 21 * 2 ^ 21 \<le> unat x" by simp
    also have "unat x < 2 ^ LENGTH(64)" by (rule unsigned_less)
    finally have "unat x div 2 ^ 21 * 2 ^ 21 < 2 ^ 64" by simp
    then show ?thesis
      by (simp add: push_bit_eq_mult drop_bit_eq_div unat_word_ariths unat_div)
  qed
  then show ?thesis unfolding align_up_u64_def m mask_off by (simp only: u)
qed

text \<open>The first aligned address of a window, and the number of regions that fit behind it.\<close>

definition window_start :: "mem_window \<Rightarrow> nat" where
  "window_start w = (unat (mw_base_pa w) + (2 ^ 21 - 1)) div 2 ^ 21 * 2 ^ 21"

definition window_capacity :: "mem_window \<Rightarrow> nat" where
  "window_capacity w = (unat (mw_base_pa w) + unat (mw_size_bytes w) - window_start w) div 2 ^ 21"

definition window_slots :: "mem_window \<Rightarrow> (u64 \<times> bool) list" where
  "window_slots w =
     map (\<lambda>k. (of_nat (window_start w + k * 2 ^ 21), \<not> mw_is_cacheable w)) [0..<window_capacity w]"

lemma place_in_window_slots:
  assumes "unat cur = c * 2 ^ 21" and "unat cur < unat lim + 2 ^ 21" and "unat lim + 2 * 2 ^ 21 \<le> 2 ^ 64"
  shows "place_in_window n EXPORT_REGION_SIZE cur lim =
    map (\<lambda>k. of_nat (unat cur + k * 2 ^ 21)) [0..<min n ((unat lim - unat cur) div 2 ^ 21)]"
  using assms
proof (induction n arbitrary: c cur)
  case (Suc n)
  have e: "unat EXPORT_REGION_SIZE = 2 ^ 21" by (simp add: EXPORT_REGION_SIZE_def)
  have u: "unat (cur + EXPORT_REGION_SIZE) = unat cur + 2 ^ 21"
    using Suc.prems(2,3) by (simp add: unat_word_ariths e)
  show ?case
  proof (cases "unat cur + 2 ^ 21 \<le> unat lim")
    case True
    have a: "unat (align_up_u64 (cur + EXPORT_REGION_SIZE) IMPORT_ALIGN) = Suc c * 2 ^ 21"
      using unat_align_up [of "cur + EXPORT_REGION_SIZE"] u True Suc.prems by simp
    have ih: "place_in_window n EXPORT_REGION_SIZE (align_up_u64 (cur + EXPORT_REGION_SIZE) IMPORT_ALIGN) lim =
        map (\<lambda>k. of_nat (Suc c * 2 ^ 21 + k * 2 ^ 21)) [0..<min n ((unat lim - Suc c * 2 ^ 21) div 2 ^ 21)]"
      using Suc.IH [OF a] a True Suc.prems by simp
    have d: "(unat lim - unat cur) div 2 ^ 21 = Suc ((unat lim - Suc c * 2 ^ 21) div 2 ^ 21)"
      using True Suc.prems(1) div_add_self2 [of "2 ^ 21 :: nat" "unat lim - Suc c * 2 ^ 21"] by simp
    have m: "map f [0..<Suc k] = f 0 # map (\<lambda>i. f (Suc i)) [0..<k]" for f :: "nat \<Rightarrow> u64" and k
      by (simp add: map_upt_Suc del: upt_Suc)
    have "of_nat (unat cur) = cur" by simp
    then have "cur = of_nat c * 2 ^ 21" using Suc.prems(1) by simp
    then show ?thesis
      using True u ih unfolding place_in_window.simps d min_Suc_Suc m
      by (simp add: word_le_nat_alt Suc.prems(1) algebra_simps)
  next
    case False
    then have z: "(unat lim - unat cur) div 2 ^ 21 = 0" by simp
    have "\<not> cur + EXPORT_REGION_SIZE \<le> lim" using u False Suc.prems(2) by (simp add: word_le_nat_alt)
    then show ?thesis by (simp only: place_in_window.simps z if_False) simp
  qed
qed simp

lemma place_in_windows_slots:
  "\<forall>w \<in> set ws. window_ok w \<Longrightarrow> place_in_windows n EXPORT_REGION_SIZE ws = take n (concat (map window_slots ws))"
proof (induction ws arbitrary: n)
  case (Cons w ws)
  let ?cur = "align_up_u64 (mw_base_pa w) IMPORT_ALIGN" and ?lim = "mw_base_pa w + mw_size_bytes w"
  have ok: "unat (mw_base_pa w) + unat (mw_size_bytes w) + 2 * 2 ^ 21 \<le> 2 ^ 64"
    using Cons.prems by (simp add: window_ok_def align_mask)
  have lim: "unat ?lim = unat (mw_base_pa w) + unat (mw_size_bytes w)" using ok by (simp add: unat_word_ariths)
  have cur: "unat ?cur = window_start w" using unat_align_up [of "mw_base_pa w"] ok by (simp add: window_start_def)
  have "window_start w \<le> unat (mw_base_pa w) + (2 ^ 21 - 1)" unfolding window_start_def by simp
  then have "place_in_window n EXPORT_REGION_SIZE ?cur ?lim =
      map (\<lambda>k. of_nat (window_start w + k * 2 ^ 21)) [0..<min n (window_capacity w)]"
    using place_in_window_slots [of ?cur _ ?lim n] lim cur ok
    by (simp add: window_capacity_def) (simp add: window_start_def)
  then have p: "map (\<lambda>pa. (pa, \<not> mw_is_cacheable w)) (place_in_window n EXPORT_REGION_SIZE ?cur ?lim) = take n (window_slots w)"
    "length (place_in_window n EXPORT_REGION_SIZE ?cur ?lim) = min n (length (window_slots w))"
    by (simp_all add: window_slots_def take_map min_def)
  show ?case using Cons.IH [of "n - length (window_slots w)"] Cons.prems p by (auto simp: Let_def min_def)
qed simp

text \<open>Two regions that do not overlap.\<close>

definition apart :: "u64 \<times> bool \<Rightarrow> u64 \<times> bool \<Rightarrow> bool" where
  "apart p q \<longleftrightarrow> unat (fst p) + 2 ^ 21 \<le> unat (fst q) \<or> unat (fst q) + 2 ^ 21 \<le> unat (fst p)"

definition windows_apart :: "mem_window \<Rightarrow> mem_window \<Rightarrow> bool" where
  "windows_apart v w \<longleftrightarrow>
     unat (mw_base_pa v) + unat (mw_size_bytes v) \<le> unat (mw_base_pa w) \<or>
     unat (mw_base_pa w) + unat (mw_size_bytes w) \<le> unat (mw_base_pa v)"

definition in_window :: "mem_window \<Rightarrow> u64 \<times> bool \<Rightarrow> bool" where
  "in_window w p \<longleftrightarrow>
     2 ^ 21 dvd unat (fst p) \<and> unat (mw_base_pa w) \<le> unat (fst p) \<and>
     unat (fst p) + 2 ^ 21 \<le> unat (mw_base_pa w) + unat (mw_size_bytes w) \<and> snd p = (\<not> mw_is_cacheable w)"

lemma slot_unat:
  assumes "window_ok w" and "k < window_capacity w"
  shows "unat (of_nat (window_start w + k * 2 ^ 21) :: u64) = window_start w + k * 2 ^ 21"
    and "window_start w + k * 2 ^ 21 + 2 ^ 21 \<le> unat (mw_base_pa w) + unat (mw_size_bytes w)"
proof -
  have "(k + 1) * 2 ^ 21 \<le> window_capacity w * 2 ^ 21" using assms(2) by simp
  also have "\<dots> \<le> unat (mw_base_pa w) + unat (mw_size_bytes w) - window_start w"
    unfolding window_capacity_def by (rule div_times_less_eq_dividend)
  finally show le: "window_start w + k * 2 ^ 21 + 2 ^ 21 \<le> unat (mw_base_pa w) + unat (mw_size_bytes w)" by simp
  have "unat (of_nat x :: u64) = x" if "x < 2 ^ 64" for x
    using that by (simp add: unat_of_nat take_bit_nat_eq_self)
  moreover have "window_start w + k * 2 ^ 21 < 2 ^ 64" using le assms(1) by (simp add: window_ok_def)
  ultimately show "unat (of_nat (window_start w + k * 2 ^ 21) :: u64) = window_start w + k * 2 ^ 21" by blast
qed

lemma window_start_ge: "unat (mw_base_pa w) \<le> window_start w" "2 ^ 21 dvd window_start w"
proof -
  show "2 ^ 21 dvd window_start w" unfolding window_start_def by simp
  show "unat (mw_base_pa w) \<le> window_start w"
    unfolding window_start_def using div_mult_mod_eq [of "unat (mw_base_pa w) + (2 ^ 21 - 1)" "2 ^ 21"]
      mod_less_divisor [of "2 ^ 21" "unat (mw_base_pa w) + (2 ^ 21 - 1)"] by simp
qed

lemma window_slots_in: "window_ok w \<Longrightarrow> p \<in> set (window_slots w) \<Longrightarrow> in_window w p"
  using slot_unat [of w] window_start_ge [of w] by (fastforce simp: window_slots_def in_window_def)

lemma window_slots_apart:
  assumes "window_ok w"
  shows "sorted_wrt apart (window_slots w)"
proof -
  have "apart (window_slots w ! i) (window_slots w ! j)" if "i < j" "j < window_capacity w" for i j
  proof -
    have "(i + 1) * 2 ^ 21 \<le> j * 2 ^ 21" using that(1) by simp
    with that slot_unat(1) [OF assms, of i] slot_unat(1) [OF assms, of j] show ?thesis
      by (simp add: window_slots_def apart_def del: of_nat_add of_nat_mult)
  qed
  then show ?thesis by (simp add: sorted_wrt_iff_nth_less window_slots_def)
qed

lemma slots_apart:
  "\<forall>w \<in> set ws. window_ok w \<Longrightarrow> sorted_wrt windows_apart ws \<Longrightarrow> sorted_wrt apart (concat (map window_slots ws))"
proof (induction ws)
  case (Cons w ws)
  have "apart p q" if "p \<in> set (window_slots w)" "v \<in> set ws" "q \<in> set (window_slots v)" for p q v
    using window_slots_in [of w p] window_slots_in [of v q] that Cons.prems
    by (auto simp: in_window_def apart_def windows_apart_def)
  with Cons window_slots_apart [of w] show ?case by (auto simp: sorted_wrt_append)
qed simp

text \<open>
  C39: with windows that lie apart and away from the end of the address space, the imported regions
  are placed at 2 MB boundaries inside the windows, no two overlapping, mapped synchronously exactly
  in windows that are not cacheable; placement fails only when the windows have room for fewer
  regions than there are peers.
\<close>

theorem import_placement:
  assumes "parse_windows mem_windows = Some ws" and "\<forall>w \<in> set ws. window_ok w" and "sorted_wrt windows_apart ws"
    and "0 < n"
  shows "case allocate_import_pas (int n) EXPORT_REGION_SIZE mem_windows of
      Some pas \<Rightarrow> length pas = n \<and> sorted_wrt apart pas \<and> (\<forall>p \<in> set pas. \<exists>w \<in> set ws. in_window w p)
    | None \<Rightarrow> (\<Sum>w \<leftarrow> ws. window_capacity w) < n"
proof -
  let ?all = "concat (map window_slots ws)"
  have e: "allocate_import_pas (int n) EXPORT_REGION_SIZE mem_windows =
      (if length (take n ?all) = n then Some (take n ?all) else None)"
    using assms(1,4) place_in_windows_slots [OF assms(2), of n] by (simp add: allocate_import_pas_def Let_def)
  have l: "length ?all = (\<Sum>w \<leftarrow> ws. window_capacity w)"
    by (simp add: length_concat comp_def window_slots_def)
  have "sorted_wrt apart (take n ?all)" using slots_apart [OF assms(2,3)] by (rule sorted_wrt_take)
  moreover have "\<forall>p \<in> set (take n ?all). \<exists>w \<in> set ws. in_window w p"
    using window_slots_in assms(2) by (fastforce dest: in_set_takeD)
  ultimately show ?thesis by (auto simp: e l)
qed

end
