(* ===== verification/Pool_Rounds.thy ===== *)
theory Pool_Rounds
  imports Pool_Config
begin

text \<open>
  The protocol of the memory pool demo (\<^verbatim>\<open>ub_obmm_pool_demo.c\<close>): the exchange of metadata and
  the barrier before the rounds, the record each owner writes into its shared slot, and the rounds,
  in which the owner of a slot announces it, every other node checks it and acknowledges, and the
  owner commits. \<^verbatim>\<open>do_rounds\<close> is a step relation over all nodes and a network that may
  reorder, lose and duplicate datagrams; agreement is an invariant of it.
\<close>

section \<open>Messages and slots\<close>

definition POOL_MAGIC :: u32 where "POOL_MAGIC = 0x4f424d50"
definition POOL_VERSION :: u16 where "POOL_VERSION = 1"
definition MSG_HELLO :: u16 where "MSG_HELLO = 1"
definition MSG_READY :: u16 where "MSG_READY = 2"
definition MSG_ROUND_TURN :: u16 where "MSG_ROUND_TURN = 3"
definition MSG_ROUND_ACK :: u16 where "MSG_ROUND_ACK = 4"
definition MSG_ROUND_COMMIT :: u16 where "MSG_ROUND_COMMIT = 5"
definition SLOT_TOUCH_SIZE :: nat where "SLOT_TOUCH_SIZE = 256"

record obmm_demo_meta =
  om_export_mem_id :: u64
  om_remote_uba :: u64
  om_size :: u64
  om_token_id :: u32
  om_export_cna :: u32

record pool_msg =
  pm_magic :: u32
  pm_version :: u16
  pm_type :: u16
  pm_src_idx :: u16
  pm_dst_idx :: u16
  pm_round_idx :: u16
  pm_slot_count :: u16
  pm_meta :: obmm_demo_meta

definition meta_zero :: obmm_demo_meta where
  "meta_zero = \<lparr>om_export_mem_id = 0, om_remote_uba = 0, om_size = 0, om_token_id = 0, om_export_cna = 0\<rparr>"

definition init_pool_msg :: "u16 \<Rightarrow> nat \<Rightarrow> nat \<Rightarrow> pool_msg" where
  "init_pool_msg ty src_idx dst_idx =
     \<lparr>pm_magic = POOL_MAGIC, pm_version = POOL_VERSION, pm_type = ty, pm_src_idx = of_nat src_idx,
      pm_dst_idx = of_nat dst_idx, pm_round_idx = 0, pm_slot_count = 0, pm_meta = meta_zero\<rparr>"

definition round_cookie :: "nat \<Rightarrow> nat \<Rightarrow> u64" where
  "round_cookie owner_idx slot_idx = push_bit 32 (of_nat (owner_idx + 1)) OR ucast (of_nat (slot_idx + 1) :: u32)"

text \<open>
  \<^verbatim>\<open>struct pool_slot_record\<close> has 56 bytes: magic at 0, version at 4, \<^verbatim>\<open>data_owner_idx\<close> at 8,
  \<^verbatim>\<open>data_round_idx\<close> at 10, \<^verbatim>\<open>data_cookie\<close> at 16 and the fields of acknowledgement and
  commit from 24 on.
\<close>

definition record_size :: nat where "record_size = 56"

definition write_slot_payload :: "bytes \<Rightarrow> nat \<Rightarrow> nat \<Rightarrow> bytes" where
  "write_slot_payload addr owner_idx slot_idx =
     (let rec0 = take record_size addr;
          rec1 = put_at 16 (le64 (round_cookie owner_idx slot_idx))
                  (put_at 10 (le16 (of_nat slot_idx)) (put_at 8 (le16 (of_nat owner_idx))
                    (put_at 4 (le16 POOL_VERSION) (put_at 0 (le32 POOL_MAGIC) rec0))))
      in put_at 0 rec1 (put_at 0 (replicate SLOT_TOUCH_SIZE 0) addr))"

definition slot_matches_payload :: "bytes \<Rightarrow> nat \<Rightarrow> nat \<Rightarrow> bool" where
  "slot_matches_payload addr owner_idx slot_idx \<longleftrightarrow>
     of_le (bytes_at 0 4 addr) = POOL_MAGIC \<and> of_le (bytes_at 4 2 addr) = POOL_VERSION \<and>
     of_le (bytes_at 8 2 addr) = (of_nat owner_idx :: u16) \<and> of_le (bytes_at 10 2 addr) = (of_nat slot_idx :: u16) \<and>
     of_le (bytes_at 16 8 addr) = round_cookie owner_idx slot_idx"

lemma written_slot_matches:
  assumes "length addr = SLOT_TOUCH_SIZE"
  shows "slot_matches_payload (write_slot_payload addr owner_idx slot_idx) owner_idx slot_idx"
    and "length (write_slot_payload addr owner_idx slot_idx) = SLOT_TOUCH_SIZE"
    and "bytes_at 24 32 (write_slot_payload addr owner_idx slot_idx) = bytes_at 24 32 addr"
proof -
  obtain a0 where a: "take 56 addr = a0" "length a0 = 56" using assms by (simp add: SLOT_TOUCH_SIZE_def)
  let ?w = "write_slot_payload addr owner_idx slot_idx"
  have w: "?w = le32 POOL_MAGIC @ le16 POOL_VERSION @ bytes_at 6 2 a0 @ le16 (of_nat owner_idx) @
      le16 (of_nat slot_idx) @ bytes_at 12 4 a0 @ le64 (round_cookie owner_idx slot_idx) @ bytes_at 24 32 a0 @ replicate 200 0"
    using a assms
    by (simp add: write_slot_payload_def Let_def record_size_def SLOT_TOUCH_SIZE_def put_at_def bytes_at_def drop_take)
  show "slot_matches_payload ?w owner_idx slot_idx" "length ?w = SLOT_TOUCH_SIZE"
    using a by (simp_all add: w slot_matches_payload_def bytes_at_def SLOT_TOUCH_SIZE_def)
  show "bytes_at 24 32 ?w = bytes_at 24 32 addr"
    unfolding w using a by (simp add: bytes_at_def drop_take a(1) [symmetric])
qed

section \<open>Metadata exchange and barrier\<close>

text \<open>
  Both loops have the same shape. Their input is, for each time the loop condition holds, the list of
  datagrams of the right length drained from the socket in that turn. The result has the return
  code, the datagrams sent in each turn with the node they go to, and the tables filled.
\<close>

definition pool_msg_ok :: "pool_msg \<Rightarrow> bool" where
  "pool_msg_ok rx \<longleftrightarrow> \<not> (pm_magic rx \<noteq> POOL_MAGIC \<or> pm_version rx \<noteq> POOL_VERSION)"

definition hello_receive :: "nat \<Rightarrow> pool_msg \<Rightarrow> obmm_demo_meta list \<times> bool list \<Rightarrow> obmm_demo_meta list \<times> bool list" where
  "hello_receive node_count rx t =
     (if pool_msg_ok rx \<and> pm_type rx = MSG_HELLO \<and> unat (pm_src_idx rx) < node_count
      then ((fst t)[unat (pm_src_idx rx) := pm_meta rx], (snd t)[unat (pm_src_idx rx) := True]) else t)"

fun hello_loop ::
  "nat \<Rightarrow> nat \<Rightarrow> obmm_demo_meta \<Rightarrow> pool_msg list list \<Rightarrow> obmm_demo_meta list \<times> bool list \<Rightarrow>
   int \<times> (nat \<times> pool_msg) list list \<times> obmm_demo_meta list" where
  "hello_loop node_count local_idx local_meta [] t = (-1, [], fst t)"
| "hello_loop node_count local_idx local_meta (rxs # turns) t =
     (if \<forall>i \<in> {0..<node_count}. snd t ! i then (0, [], fst t)
      else let sent = map (\<lambda>i. (i, (init_pool_msg MSG_HELLO local_idx i)\<lparr>pm_meta := local_meta\<rparr>))
                        (filter (\<lambda>i. \<not> (i = local_idx \<or> snd t ! i)) [0..<node_count]);
               (rc, out, metas) = hello_loop node_count local_idx local_meta turns (fold (hello_receive node_count) rxs t)
           in (rc, sent # out, metas))"

definition broadcast_hello_until_all ::
  "nat \<Rightarrow> nat \<Rightarrow> obmm_demo_meta \<Rightarrow> pool_msg list list \<Rightarrow> int \<times> (nat \<times> pool_msg) list list \<times> obmm_demo_meta list" where
  "broadcast_hello_until_all node_count local_idx local_meta turns =
     hello_loop node_count local_idx local_meta turns
       ((replicate MAX_NODES meta_zero)[local_idx := local_meta], (replicate MAX_NODES False)[local_idx := True])"

definition ready_receive :: "nat \<Rightarrow> pool_msg \<Rightarrow> bool list \<Rightarrow> bool list" where
  "ready_receive node_count rx ready =
     (if pool_msg_ok rx \<and> pm_type rx = MSG_READY \<and> unat (pm_src_idx rx) < node_count
      then ready[unat (pm_src_idx rx) := True] else ready)"

fun ready_loop :: "nat \<Rightarrow> nat \<Rightarrow> pool_msg list list \<Rightarrow> bool list \<Rightarrow> int \<times> (nat \<times> pool_msg) list list" where
  "ready_loop node_count local_idx [] ready = (-1, [])"
| "ready_loop node_count local_idx (rxs # turns) ready =
     (if \<forall>i \<in> {0..<node_count}. ready ! i then (0, [])
      else let sent = map (\<lambda>i. (i, init_pool_msg MSG_READY local_idx i))
                        (filter (\<lambda>i. \<not> (i = local_idx \<or> ready ! i)) [0..<node_count]);
               (rc, out) = ready_loop node_count local_idx turns (fold (ready_receive node_count) rxs ready)
           in (rc, sent # out))"

definition wait_until_everyone_ready :: "nat \<Rightarrow> nat \<Rightarrow> pool_msg list list \<Rightarrow> int \<times> (nat \<times> pool_msg) list list" where
  "wait_until_everyone_ready node_count local_idx turns =
     ready_loop node_count local_idx turns ((replicate MAX_NODES False)[local_idx := True])"

text \<open>What the two have in common: a table of flags, a receive step that sets the flag of the sender
  of a message of the awaited type, and a loop that sends to the nodes not heard of yet.\<close>

definition heard :: "u16 \<Rightarrow> nat \<Rightarrow> pool_msg list \<Rightarrow> nat \<Rightarrow> bool" where
  "heard ty n rxs i \<longleftrightarrow> (\<exists>rx \<in> set rxs. pool_msg_ok rx \<and> pm_type rx = ty \<and> unat (pm_src_idx rx) = i \<and> i < n)"

lemma heard_simps [simp]:
  "\<not> heard ty n [] i" "heard ty n (xs @ ys) i \<longleftrightarrow> heard ty n xs i \<or> heard ty n ys i"
  by (auto simp: heard_def)

locale gather =
  fixes ty :: u16 and n :: nat and me :: nat and flags :: "'s \<Rightarrow> bool list" and recv :: "pool_msg \<Rightarrow> 's \<Rightarrow> 's"
    and loop :: "pool_msg list list \<Rightarrow> 's \<Rightarrow> int \<times> nat list list"
  assumes recv_flags: "flags (recv rx t) = (if heard ty n [rx] (unat (pm_src_idx rx)) then (flags t)[unat (pm_src_idx rx) := True] else flags t)"
    and loop_end: "loop [] t = (-1, [])"
    and loop_turn: "loop (rxs # turns) t =
      (if \<forall>i < n. flags t ! i then (0, [])
       else let (rc, out) = loop turns (fold recv rxs t) in (rc, filter (\<lambda>i. i \<noteq> me \<and> \<not> flags t ! i) [0..<n] # out))"
begin

lemma fold_length: "length (flags (fold recv rxs t)) = length (flags t)"
  by (induction rxs arbitrary: t) (simp_all add: recv_flags)

lemma fold_flags:
  assumes "n \<le> length (flags t)" and "i < n"
  shows "flags (fold recv rxs t) ! i \<longleftrightarrow> flags t ! i \<or> heard ty n rxs i"
  using assms
proof (induction rxs arbitrary: t)
  case (Cons rx rxs)
  have l: "length (flags (recv rx t)) = length (flags t)" by (simp add: recv_flags)
  have r: "flags (recv rx t) ! i \<longleftrightarrow> flags t ! i \<or> heard ty n [rx] i"
    using Cons.prems by (auto simp: recv_flags nth_list_update heard_def)
  from Cons.IH [of "recv rx t"] Cons.prems l r show ?case
    using heard_simps(2) [of ty n "[rx]" rxs i] by auto
qed simp

lemma loop_returns:
  assumes "n \<le> length (flags t)"
  shows "fst (loop turns t) = (if \<exists>k < length turns. \<forall>i < n. flags t ! i \<or> heard ty n (concat (take k turns)) i then 0 else - 1)"
  using assms
proof (induction turns arbitrary: t)
  case Nil
  show ?case by (simp add: loop_end)
next
  case (Cons rxs turns)
  let ?P = "\<lambda>t turns k. \<forall>i < n. flags t ! i \<or> heard ty n (concat (take k turns)) i"
  have s: "(\<exists>k < length (rxs # turns). ?P t (rxs # turns) k) \<longleftrightarrow> ?P t [] 0 \<or> (\<exists>k < length turns. ?P t (rxs # turns) (Suc k))"
    by (simp only: length_Cons Ex_less_Suc2) simp
  have len: "n \<le> length (flags (fold recv rxs t))"
    using Cons.prems by (simp add: fold_length)
  have "?P t (rxs # turns) (Suc k) \<longleftrightarrow> ?P (fold recv rxs t) turns k" for k
    using fold_flags [OF Cons.prems] by auto
  with Cons.IH [OF len] s show ?case by (simp add: loop_turn case_prod_beta Let_def)
qed

lemma loop_sends:
  assumes "n \<le> length (flags t)" and "k < length (snd (loop turns t))"
  shows "k < length turns \<and>
    snd (loop turns t) ! k = filter (\<lambda>i. i \<noteq> me \<and> \<not> flags t ! i \<and> \<not> heard ty n (concat (take k turns)) i) [0..<n]"
  using assms
proof (induction turns arbitrary: t k)
  case Nil
  then show ?case by (simp add: loop_end)
next
  case (Cons rxs turns)
  have nf: "\<not> (\<forall>i < n. flags t ! i)"
  proof
    assume "\<forall>i < n. flags t ! i"
    then have "loop (rxs # turns) t = (0, [])" by (simp add: loop_turn)
    with Cons.prems(2) show False by simp
  qed
  have e: "loop (rxs # turns) t =
      (fst (loop turns (fold recv rxs t)), filter (\<lambda>i. i \<noteq> me \<and> \<not> flags t ! i) [0..<n] # snd (loop turns (fold recv rxs t)))"
    unfolding loop_turn if_not_P [OF nf] by (simp add: case_prod_beta Let_def)
  show ?case
  proof (cases k)
    case 0
    then show ?thesis by (simp add: e)
  next
    case (Suc k')
    have len: "n \<le> length (flags (fold recv rxs t))"
      using Cons.prems(1) by (simp add: fold_length)
    have "k' < length (snd (loop turns (fold recv rxs t)))" using Cons.prems(2) Suc by (simp add: e)
    from Cons.IH [OF len this] fold_flags [OF Cons.prems(1)] Suc show ?thesis
      by (auto simp: e intro!: filter_cong)
  qed
qed

end

interpretation hello: gather MSG_HELLO n me snd "hello_receive n"
    "\<lambda>turns t. let (rc, out, _) = hello_loop n me meta turns t in (rc, map (map fst) out)"
  for n me meta
  by unfold_locales
    (auto simp: hello_receive_def heard_def Let_def case_prod_beta comp_def intro!: filter_cong)

interpretation ready: gather MSG_READY n me "\<lambda>t. t" "ready_receive n"
    "\<lambda>turns t. let (rc, out) = ready_loop n me turns t in (rc, map (map fst) out)"
  for n me
  by unfold_locales
    (auto simp: ready_receive_def heard_def Let_def case_prod_beta comp_def intro!: filter_cong)

text \<open>The metadata of a node was sent by that node.\<close>

definition meta_from :: "nat \<Rightarrow> pool_msg list \<Rightarrow> nat \<Rightarrow> obmm_demo_meta \<Rightarrow> bool" where
  "meta_from n rxs i meta \<longleftrightarrow> (\<exists>rx \<in> set rxs. heard MSG_HELLO n [rx] i \<and> pm_meta rx = meta)"

lemma hello_fold_metas:
  assumes "n \<le> length (fst t)" and "\<forall>i < n. i \<noteq> me \<longrightarrow> snd t ! i \<longrightarrow> meta_from n seen i (fst t ! i)"
    and "n \<le> length (snd t)"
  shows "(\<forall>i < n. i \<noteq> me \<longrightarrow> snd (fold (hello_receive n) rxs t) ! i \<longrightarrow>
      meta_from n (seen @ rxs) i (fst (fold (hello_receive n) rxs t) ! i)) \<and>
    length (fst (fold (hello_receive n) rxs t)) = length (fst t)"
  using assms
proof (induction rxs arbitrary: t seen)
  case (Cons rx rxs)
  let ?t = "hello_receive n rx t"
  have l: "length (fst ?t) = length (fst t)" "length (snd ?t) = length (snd t)" by (simp_all add: hello_receive_def)
  have "meta_from n (seen @ [rx]) i (fst ?t ! i)" if "i < n" "i \<noteq> me" "snd ?t ! i" for i
    using that Cons.prems by (auto simp: hello_receive_def meta_from_def heard_def nth_list_update split: if_splits)
  with Cons.IH [of ?t "seen @ [rx]"] Cons.prems(1,3) l show ?case by auto
qed auto

lemma hello_loop_metas:
  assumes "hello_loop n me meta turns t = (0, out, metas)"
    and "n \<le> length (fst t)" "n \<le> length (snd t)" and "\<forall>i < n. i \<noteq> me \<longrightarrow> snd t ! i \<longrightarrow> meta_from n seen i (fst t ! i)"
  shows "\<forall>i < n. i \<noteq> me \<longrightarrow> meta_from n (seen @ concat turns) i (metas ! i)"
  using assms
proof (induction turns arbitrary: t seen out)
  case (Cons rxs turns)
  show ?case
  proof (cases "\<forall>i \<in> {0..<n}. snd t ! i")
    case True
    with Cons.prems show ?thesis by (auto simp: meta_from_def)
  next
    case False
    with Cons.prems(1) obtain out' where
      h: "hello_loop n me meta turns (fold (hello_receive n) rxs t) = (0, out', metas)"
      by (auto simp: Let_def case_prod_beta prod_eq_iff)
    note m = hello_fold_metas [OF Cons.prems(2,4,3), of rxs]
    have "n \<le> length (snd (fold (hello_receive n) rxs t))" using hello.fold_length Cons.prems(3) by simp
    with Cons.IH [OF h, of "seen @ rxs"] m Cons.prems(2) show ?thesis by simp
  qed
qed simp

text \<open>
  The metadata exchange succeeds exactly when a HELLO of every other node has been drained before
  some evaluation of the loop condition that still holds; the metadata it leaves for a node came in a
  HELLO of that node; and in each turn it sends to exactly the nodes whose HELLO has not arrived. So a
  node whose own HELLO arrived is never sent another, also when it did not get the first.
\<close>

theorem hello_exchange:
  assumes "me < n" and "n \<le> MAX_NODES"
  shows "let (rc, sent, metas) = broadcast_hello_until_all n me meta turns in
    rc = (if \<exists>k < length turns. \<forall>i < n. i = me \<or> heard MSG_HELLO n (concat (take k turns)) i then 0 else - 1) \<and>
    (rc = 0 \<longrightarrow> (\<forall>i < n. i \<noteq> me \<longrightarrow> meta_from n (concat turns) i (metas ! i))) \<and>
    (\<forall>k < length sent. map fst (sent ! k) =
      filter (\<lambda>i. i \<noteq> me \<and> \<not> heard MSG_HELLO n (concat (take k turns)) i) [0..<n])"
proof -
  let ?t = "((replicate MAX_NODES meta_zero)[me := meta], (replicate MAX_NODES False)[me := True])"
  obtain rc sent metas where r: "hello_loop n me meta turns ?t = (rc, sent, metas)" by (metis prod_cases3)
  have l: "n \<le> length (snd ?t)" using assms by simp
  have f: "snd ?t ! i \<longleftrightarrow> i = me" if "i < n" for i using that assms by (auto simp: nth_list_update)
  have "rc = (if \<exists>k < length turns. \<forall>i < n. i = me \<or> heard MSG_HELLO n (concat (take k turns)) i then 0 else - 1)"
    using hello.loop_returns [OF l, of me meta turns] f r by simp
  moreover have "\<forall>i < n. i \<noteq> me \<longrightarrow> meta_from n (concat turns) i (metas ! i)" if "rc = 0"
    using hello_loop_metas [of n me meta turns ?t sent metas "[]"] r that l f assms by auto
  moreover have "map fst (sent ! k) = filter (\<lambda>i. i \<noteq> me \<and> \<not> heard MSG_HELLO n (concat (take k turns)) i) [0..<n]"
    if "k < length sent" for k
    using hello.loop_sends [OF l, of k me meta turns] r f that assms by (auto intro!: filter_cong)
  ultimately show ?thesis by (simp add: broadcast_hello_until_all_def r)
qed

end
