(* ===== verification/Obmm_Os.thy ===== *)
theory Obmm_Os
  imports Pool_Rounds
begin

text \<open>
  What the demos that share memory ask of the operating system: file descriptors, mappings, exported and
  imported regions. The state says what is held; which descriptor, address or identifier a call gives, and
  whether it fails, is a parameter. \<open>obmm_os_ok\<close> is what the kernel promises: fresh descriptors
  and addresses, and identifiers other than 0. That a region is taken back once it is neither open nor
  mapped is not promised; \<open>takes_back\<close> says it of a kernel, and the state remembers the regions that were
  not taken back although they could have been.
\<close>

section \<open>What is held\<close>

text \<open>A descriptor may be that of a region; a mapping is one of a region. Every call is counted, so that two
  calls may be answered differently.\<close>

record os_state =
  os_fds :: "int \<rightharpoonup> u64 option"
  os_maps :: "u64 \<rightharpoonup> u64"
  os_exports :: "u64 set"
  os_imports :: "u64 set"
  os_kept_exports :: "u64 set"
  os_kept_imports :: "u64 set"
  os_calls :: nat

text \<open>The arguments of an import.\<close>

record obmm_cmd_import =
  ic_addr :: u64
  ic_length :: u64
  ic_tokenid :: u32
  ic_scna :: u32
  ic_dcna :: u32
  ic_remote_uba :: u64

record obmm_os =
  os_open :: "os_state \<Rightarrow> string \<Rightarrow> int"
  os_open_region :: "os_state \<Rightarrow> u64 \<Rightarrow> bool \<Rightarrow> int"
  os_socket :: "os_state \<Rightarrow> int"
  os_mmap :: "os_state \<Rightarrow> int \<Rightarrow> nat \<Rightarrow> u64 option"
  os_export :: "os_state \<Rightarrow> u64 \<Rightarrow> (u64 \<times> u64 \<times> u32) option"
  os_import :: "os_state \<Rightarrow> obmm_cmd_import \<Rightarrow> u64 option"
  os_unexport :: "os_state \<Rightarrow> u64 \<Rightarrow> bool"
  os_unimport :: "os_state \<Rightarrow> u64 \<Rightarrow> bool"

definition unused :: "os_state \<Rightarrow> u64 \<Rightarrow> bool" where
  "unused s mem \<longleftrightarrow> (\<forall>a. os_maps s a \<noteq> Some mem) \<and> (\<forall>fd. os_fds s fd \<noteq> Some (Some mem))"

definition obmm_os_ok :: "obmm_os \<Rightarrow> bool" where
  "obmm_os_ok os \<longleftrightarrow>
     (\<forall>s path. 0 \<le> os_open os s path \<longrightarrow> os_fds s (os_open os s path) = None) \<and>
     (\<forall>s mem sync. 0 \<le> os_open_region os s mem sync \<longrightarrow> os_fds s (os_open_region os s mem sync) = None) \<and>
     (\<forall>s. 0 \<le> os_socket os s \<longrightarrow> os_fds s (os_socket os s) = None) \<and>
     (\<forall>s fd len a. os_mmap os s fd len = Some a \<longrightarrow> a \<noteq> 0 \<and> os_maps s a = None) \<and>
     (\<forall>s size mem uba tok. os_export os s size = Some (mem, uba, tok) \<longrightarrow> mem \<noteq> 0) \<and>
     (\<forall>s cmd mem. os_import os s cmd = Some mem \<longrightarrow> mem \<noteq> 0)"

definition takes_back :: "obmm_os \<Rightarrow> bool" where
  "takes_back os \<longleftrightarrow>
     (\<forall>s mem. mem \<in> os_exports s \<longrightarrow> unused s mem \<longrightarrow> os_unexport os s mem) \<and>
     (\<forall>s mem. mem \<in> os_imports s \<longrightarrow> unused s mem \<longrightarrow> os_unimport os s mem)"

section \<open>Calls\<close>

definition tick :: "os_state \<Rightarrow> os_state" where
  "tick s = s\<lparr>os_calls := Suc (os_calls s)\<rparr>"

lemma tick_simps [simp]: "os_fds (tick s) = os_fds s" "os_maps (tick s) = os_maps s" "os_exports (tick s) = os_exports s"
  "os_imports (tick s) = os_imports s" "os_kept_exports (tick s) = os_kept_exports s" "os_kept_imports (tick s) = os_kept_imports s"
  by (simp_all add: tick_def)

text \<open>A call that gives a descriptor; a negative one is a failure.\<close>

definition got_fd :: "int \<Rightarrow> u64 option \<Rightarrow> os_state \<Rightarrow> os_state" where
  "got_fd fd owner s = tick (if fd < 0 then s else s\<lparr>os_fds := (os_fds s)(fd \<mapsto> owner)\<rparr>)"

definition os_close :: "int \<Rightarrow> os_state \<Rightarrow> os_state" where
  "os_close fd s = tick (s\<lparr>os_fds := (os_fds s)(fd := None)\<rparr>)"

definition os_munmap :: "u64 \<Rightarrow> os_state \<Rightarrow> os_state" where
  "os_munmap addr s = tick (s\<lparr>os_maps := (os_maps s)(addr := None)\<rparr>)"

section \<open>Mapped regions\<close>

record mapped_region =
  mr_fd :: int
  mr_addr :: u64
  mr_len :: nat
  mr_mem_id :: u64

definition map_region_device :: "obmm_os \<Rightarrow> u64 \<Rightarrow> nat \<Rightarrow> bool \<Rightarrow> os_state \<Rightarrow> int \<times> mapped_region \<times> os_state" where
  "map_region_device os mem_id len map_osync s =
     (let region = \<lparr>mr_fd = - 1, mr_addr = 0, mr_len = len, mr_mem_id = mem_id\<rparr>;
          fd = os_open_region os s mem_id map_osync;
          s1 = got_fd fd (Some mem_id) s
      in if fd < 0 then (- 1, region\<lparr>mr_fd := fd\<rparr>, s1)
         else case os_mmap os s1 fd len of
                None \<Rightarrow> (- 1, region, os_close fd (tick s1))
              | Some a \<Rightarrow> (0, region\<lparr>mr_fd := fd, mr_addr := a\<rparr>, tick (s1\<lparr>os_maps := (os_maps s1)(a \<mapsto> mem_id)\<rparr>)))"

definition unmap_region_device :: "mapped_region \<Rightarrow> os_state \<Rightarrow> mapped_region \<times> os_state" where
  "unmap_region_device region s =
     (let (region1, s1) =
            (if mr_addr region \<noteq> 0 then (region\<lparr>mr_addr := 0\<rparr>, os_munmap (mr_addr region) s) else (region, s))
      in if 0 \<le> mr_fd region1 then (region1\<lparr>mr_fd := - 1\<rparr>, os_close (mr_fd region1) s1) else (region1, s1))"

section \<open>Regions\<close>

definition do_export_region :: "obmm_os \<Rightarrow> obmm_demo_meta \<Rightarrow> os_state \<Rightarrow> int \<times> obmm_demo_meta \<times> os_state" where
  "do_export_region os meta s =
     (case os_export os s EXPORT_REGION_SIZE of
        None \<Rightarrow> (- 1, meta, tick s)
      | Some (mem, uba, tokenid) \<Rightarrow>
          (0, meta\<lparr>om_export_mem_id := mem, om_remote_uba := uba, om_size := EXPORT_REGION_SIZE, om_token_id := tokenid\<rparr>,
           tick (s\<lparr>os_exports := insert mem (os_exports s)\<rparr>)))"

definition do_unexport_region :: "obmm_os \<Rightarrow> u64 \<Rightarrow> os_state \<Rightarrow> int \<times> os_state" where
  "do_unexport_region os mem s =
     (if os_unexport os s mem then (0, tick (s\<lparr>os_exports := os_exports s - {mem}\<rparr>))
      else (- 1, tick (if mem \<in> os_exports s \<and> unused s mem then s\<lparr>os_kept_exports := insert mem (os_kept_exports s)\<rparr> else s)))"

definition do_import_region :: "obmm_os \<Rightarrow> obmm_demo_meta \<Rightarrow> u32 \<Rightarrow> u64 \<Rightarrow> os_state \<Rightarrow> u64 option \<times> os_state" where
  "do_import_region os meta local_cna local_pa s =
     (let cmd = \<lparr>ic_addr = local_pa, ic_length = om_size meta, ic_tokenid = om_token_id meta, ic_scna = local_cna,
                 ic_dcna = om_export_cna meta, ic_remote_uba = om_remote_uba meta\<rparr>
      in case os_import os s cmd of
           None \<Rightarrow> (None, tick s)
         | Some mem \<Rightarrow> (Some mem, tick (s\<lparr>os_imports := insert mem (os_imports s)\<rparr>)))"

definition do_unimport_region :: "obmm_os \<Rightarrow> u64 \<Rightarrow> os_state \<Rightarrow> int \<times> os_state" where
  "do_unimport_region os mem s =
     (if os_unimport os s mem then (0, tick (s\<lparr>os_imports := os_imports s - {mem}\<rparr>))
      else (- 1, tick (if mem \<in> os_imports s \<and> unused s mem then s\<lparr>os_kept_imports := insert mem (os_kept_imports s)\<rparr> else s)))"

text \<open>Only giving back makes the kernel keep a region, and only one that does not take back what it could.\<close>

definition same_kept :: "os_state \<Rightarrow> os_state \<Rightarrow> bool" where
  "same_kept s s' \<longleftrightarrow> os_kept_exports s' = os_kept_exports s \<and> os_kept_imports s' = os_kept_imports s"

lemma same_kept_refl [simp]: "same_kept s s"
  by (simp add: same_kept_def)

lemma same_kept_trans: "same_kept s t \<Longrightarrow> same_kept t u \<Longrightarrow> same_kept s u"
  by (simp add: same_kept_def)

lemma calls_kept:
  "same_kept s (got_fd fd owner s)" "same_kept s (os_close fd s)" "same_kept s (snd (unmap_region_device region s))"
  "same_kept s (snd (snd (map_region_device os mem len sync s)))" "same_kept s (snd (snd (do_export_region os meta s)))"
  "same_kept s (snd (do_import_region os meta cna pa s))"
  by (auto simp: same_kept_def got_fd_def os_close_def os_munmap_def unmap_region_device_def map_region_device_def
    do_export_region_def do_import_region_def Let_def split: option.split)

lemma giving_back_kept:
  assumes "takes_back os"
  shows "same_kept s (snd (do_unexport_region os mem s))" "same_kept s (snd (do_unimport_region os mem s))"
  using assms by (auto simp: takes_back_def same_kept_def do_unexport_region_def do_unimport_region_def)

section \<open>Numbers in files\<close>

text \<open>\<^verbatim>\<open>strtoull\<close> with base 0: the value, whether it is out of range, and whether there are digits.\<close>

definition strtoull :: "string \<Rightarrow> u64 \<times> bool \<times> bool" where
  "strtoull s =
     (let p = dropWhile c_isspace s;
          neg = (p \<noteq> [] \<and> hd p = CHR ''-'');
          q = (if p \<noteq> [] \<and> (hd p = CHR ''-'' \<or> hd p = CHR ''+'') then tl p else p);
          hex = ((take 2 q = ''0x'' \<or> take 2 q = ''0X'') \<and> drop 2 q \<noteq> [] \<and> is_digit_of 16 (hd (drop 2 q)));
          base = (if hex then 16 else if take 1 q = ''0'' then 8 else 10);
          ds = takeWhile (is_digit_of base) (if hex then drop 2 q else q);
          erange = (2 ^ 64 \<le> digits_value base ds)
      in (if erange then - 1 else if neg then - of_int (digits_value base ds) else of_int (digits_value base ds), erange, ds \<noteq> []))"

definition parse_hex_file_u64 :: "string option \<Rightarrow> u64 option" where
  "parse_hex_file_u64 contents =
     (case read_file 128 contents of
        None \<Rightarrow> None
      | Some buf \<Rightarrow> (case strtoull buf of (v, erange, digits) \<Rightarrow> if erange \<or> \<not> digits then None else Some v))"

end
