(* ===== verification/Pool_System.thy ===== *)
theory Pool_System
  imports Pool_Rounds
begin

text \<open>
  \<^verbatim>\<open>do_rounds\<close> of the memory pool demo on all nodes at once. A node is at one of the points
  where the function waits, \<open>round_step\<close> is what the nodes do, and \<open>net_fault\<close> what the network and
  the clock may do besides. Agreement: no node completes a round before every node has checked the slot of
  that round. It also shows that a round can get stuck although no datagram is lost.
\<close>

section \<open>A node\<close>

text \<open>Where a node is: at the head of the loop, waiting for its own slot to show the record it wrote, for the
  TURN of an owner, for the slot of an owner, for acknowledgements (with \<^verbatim>\<open>got_ack\<close> and
  \<^verbatim>\<open>pending\<close>), for the COMMIT of an owner, at the end, or out after a time-out (with the number of
  slots it had checked and of rounds it had completed).\<close>

datatype pool_pc =
    Enter nat
  | OwnVerify nat
  | WaitTurn nat
  | Verify nat
  | WaitAcks nat "bool list" int
  | WaitCommit nat
  | Finished
  | Failed nat nat

definition round_msg :: "u16 \<Rightarrow> nat \<Rightarrow> nat \<Rightarrow> nat \<Rightarrow> pool_msg" where
  "round_msg ty src_idx dst_idx round_idx = (init_pool_msg ty src_idx dst_idx)\<lparr>pm_round_idx := of_nat round_idx\<rparr>"

definition send_round_turn :: "nat \<Rightarrow> nat \<Rightarrow> nat \<Rightarrow> nat \<times> pool_msg" where
  "send_round_turn local_idx peer_idx round_idx = (peer_idx, round_msg MSG_ROUND_TURN local_idx peer_idx round_idx)"

definition send_round_ack :: "nat \<Rightarrow> nat \<Rightarrow> nat \<Rightarrow> nat \<times> pool_msg" where
  "send_round_ack local_idx owner_idx round_idx = (owner_idx, round_msg MSG_ROUND_ACK local_idx owner_idx round_idx)"

definition others :: "nat \<Rightarrow> nat \<Rightarrow> nat list" where
  "others node_count local_idx = filter (\<lambda>i. i \<noteq> local_idx) [0..<node_count]"

definition broadcast_round_commit :: "nat \<Rightarrow> nat \<Rightarrow> nat \<Rightarrow> (nat \<times> pool_msg) list" where
  "broadcast_round_commit node_count local_idx round_idx =
     concat (replicate 10 (map (\<lambda>i. (i, round_msg MSG_ROUND_COMMIT local_idx i round_idx)) (others node_count local_idx)))"

text \<open>What \<^verbatim>\<open>wait_for_round_msg\<close> and \<^verbatim>\<open>wait_for_all_round_acks\<close> do with a datagram.\<close>

definition round_msg_fits :: "u16 \<Rightarrow> nat \<Rightarrow> nat \<Rightarrow> nat \<Rightarrow> pool_msg \<Rightarrow> bool" where
  "round_msg_fits ty src_idx dst_idx round_idx rx \<longleftrightarrow>
     pool_msg_ok rx \<and> pm_type rx = ty \<and> pm_src_idx rx = of_nat src_idx \<and> pm_dst_idx rx = of_nat dst_idx \<and>
     pm_round_idx rx = of_nat round_idx"

definition round_ack_receive :: "nat \<Rightarrow> nat \<Rightarrow> nat \<Rightarrow> pool_msg \<Rightarrow> bool list \<times> int \<Rightarrow> bool list \<times> int" where
  "round_ack_receive node_count local_idx round_idx rx t =
     (if \<not> pool_msg_ok rx then t
      else if pm_type rx \<noteq> MSG_ROUND_ACK \<or> pm_dst_idx rx \<noteq> of_nat local_idx \<or> pm_round_idx rx \<noteq> of_nat round_idx \<or>
              of_nat node_count \<le> pm_src_idx rx \<or> pm_src_idx rx = of_nat local_idx then t
      else if \<not> fst t ! unat (pm_src_idx rx) then ((fst t)[unat (pm_src_idx rx) := True], snd t - 1)
      else t)"

text \<open>The head of the loop: the owner of the round writes its slot.\<close>

definition round_enter :: "nat \<Rightarrow> nat \<Rightarrow> nat \<Rightarrow> bytes list \<Rightarrow> pool_pc \<times> bytes list" where
  "round_enter node_count local_idx round_idx slots =
     (if node_count \<le> round_idx then (Finished, slots)
      else if local_idx = round_idx
      then (OwnVerify round_idx, slots[round_idx := write_slot_payload (slots ! round_idx) round_idx round_idx])
      else (WaitTurn round_idx, slots))"

text \<open>A datagram at a node that waits for datagrams; one that does not fit is dropped.\<close>

definition round_receive :: "nat \<Rightarrow> nat \<Rightarrow> pool_msg \<Rightarrow> pool_pc \<Rightarrow> pool_pc" where
  "round_receive node_count local_idx rx pc =
     (case pc of
        WaitTurn r \<Rightarrow> if round_msg_fits MSG_ROUND_TURN r local_idx r rx then Verify r else pc
      | WaitCommit r \<Rightarrow> if round_msg_fits MSG_ROUND_COMMIT r local_idx r rx then Enter (Suc r) else pc
      | WaitAcks r got pending \<Rightarrow>
          (case round_ack_receive node_count local_idx r rx (got, pending) of (g, p) \<Rightarrow> WaitAcks r g p)
      | _ \<Rightarrow> pc)"

fun listening :: "pool_pc \<Rightarrow> bool" where
  "listening (WaitTurn r) \<longleftrightarrow> True"
| "listening (WaitCommit r) \<longleftrightarrow> True"
| "listening (WaitAcks r got pending) \<longleftrightarrow> True"
| "listening _ \<longleftrightarrow> False"

section \<open>All nodes\<close>

text \<open>The nodes, the shared slots by owner, and the datagrams under way with their destinations.\<close>

record pool_sys =
  ps_pcs :: "pool_pc list"
  ps_slots :: "bytes list"
  ps_net :: "(nat \<times> pool_msg) list"

inductive round_step :: "nat \<Rightarrow> pool_sys \<Rightarrow> pool_sys \<Rightarrow> bool" for n where
  enter: "i < n \<Longrightarrow> ps_pcs s ! i = Enter r \<Longrightarrow> round_enter n i r (ps_slots s) = (pc, slots) \<Longrightarrow>
    round_step n s (s\<lparr>ps_pcs := (ps_pcs s)[i := pc], ps_slots := slots\<rparr>)"
| own_verify: "i < n \<Longrightarrow> ps_pcs s ! i = OwnVerify r \<Longrightarrow> slot_matches_payload (ps_slots s ! r) r r \<Longrightarrow>
    round_step n s (s\<lparr>ps_pcs := (ps_pcs s)[i := WaitAcks r (replicate MAX_NODES False) (int n - 1)],
      ps_net := ps_net s @ map (\<lambda>j. send_round_turn i j r) (others n i)\<rparr>)"
| verify: "i < n \<Longrightarrow> ps_pcs s ! i = Verify r \<Longrightarrow> slot_matches_payload (ps_slots s ! r) r r \<Longrightarrow>
    round_step n s (s\<lparr>ps_pcs := (ps_pcs s)[i := WaitCommit r], ps_net := ps_net s @ [send_round_ack i r r]\<rparr>)"
| receive: "i < n \<Longrightarrow> listening (ps_pcs s ! i) \<Longrightarrow> ps_net s = xs @ (i, rx) # ys \<Longrightarrow>
    round_step n s (s\<lparr>ps_pcs := (ps_pcs s)[i := round_receive n i rx (ps_pcs s ! i)], ps_net := xs @ ys\<rparr>)"
| acked: "i < n \<Longrightarrow> ps_pcs s ! i = WaitAcks r got 0 \<Longrightarrow>
    round_step n s (s\<lparr>ps_pcs := (ps_pcs s)[i := Enter (Suc r)], ps_net := ps_net s @ broadcast_round_commit n i r\<rparr>)"

text \<open>The slots a node has checked, and the rounds it has completed.\<close>

fun verified :: "nat \<Rightarrow> pool_pc \<Rightarrow> nat" where
  "verified n (Enter r) = r"
| "verified n (OwnVerify r) = r"
| "verified n (WaitTurn r) = r"
| "verified n (Verify r) = r"
| "verified n (WaitAcks r got pending) = Suc r"
| "verified n (WaitCommit r) = Suc r"
| "verified n Finished = n"
| "verified n (Failed v p) = v"

fun completed :: "nat \<Rightarrow> pool_pc \<Rightarrow> nat" where
  "completed n (WaitAcks r got pending) = r"
| "completed n (WaitCommit r) = r"
| "completed n (Failed v p) = p"
| "completed n pc = verified n pc"

text \<open>Datagrams are lost or duplicated; a node that has not finished runs into a time-out.\<close>

inductive net_fault :: "nat \<Rightarrow> pool_sys \<Rightarrow> pool_sys \<Rightarrow> bool" for n where
  lose: "ps_net s = xs @ x # ys \<Longrightarrow> net_fault n s (s\<lparr>ps_net := xs @ ys\<rparr>)"
| duplicate: "x \<in> set (ps_net s) \<Longrightarrow> net_fault n s (s\<lparr>ps_net := ps_net s @ [x]\<rparr>)"
| time_out: "i < n \<Longrightarrow> ps_pcs s ! i \<noteq> Finished \<Longrightarrow>
    net_fault n s (s\<lparr>ps_pcs := (ps_pcs s)[i := Failed (verified n (ps_pcs s ! i)) (completed n (ps_pcs s ! i))]\<rparr>)"

definition rounds_start :: "bytes list \<Rightarrow> pool_sys" where
  "rounds_start slots = \<lparr>ps_pcs = replicate (length slots) (Enter 0), ps_slots = slots, ps_net = []\<rparr>"

inductive rounds_reach :: "bytes list \<Rightarrow> pool_sys \<Rightarrow> bool" for slots where
  start: "rounds_reach slots (rounds_start slots)"
| step: "rounds_reach slots s \<Longrightarrow> round_step (length slots) s t \<Longrightarrow> rounds_reach slots t"
| fault: "rounds_reach slots s \<Longrightarrow> net_fault (length slots) s t \<Longrightarrow> rounds_reach slots t"

section \<open>Agreement\<close>

text \<open>What a node's own state says.\<close>

fun pc_ok :: "nat \<Rightarrow> nat \<Rightarrow> pool_pc \<Rightarrow> bool" where
  "pc_ok n i (Enter r) \<longleftrightarrow> r \<le> n"
| "pc_ok n i (OwnVerify r) \<longleftrightarrow> i = r"
| "pc_ok n i (WaitTurn r) \<longleftrightarrow> r < n \<and> i \<noteq> r"
| "pc_ok n i (Verify r) \<longleftrightarrow> r < n \<and> i \<noteq> r"
| "pc_ok n i (WaitAcks r got pending) \<longleftrightarrow>
     i = r \<and> length got = MAX_NODES \<and> \<not> got ! i \<and> pending = int (length (filter (\<lambda>j. \<not> got ! j) (others n i)))"
| "pc_ok n i (WaitCommit r) \<longleftrightarrow> r < n \<and> i \<noteq> r"
| "pc_ok n i Finished \<longleftrightarrow> True"
| "pc_ok n i (Failed v p) \<longleftrightarrow> p \<le> v"

text \<open>What a datagram says of the slots checked, \<open>v\<close>.\<close>

definition claims :: "nat \<Rightarrow> (nat \<Rightarrow> nat) \<Rightarrow> pool_msg \<Rightarrow> bool" where
  "claims n v rx \<longleftrightarrow>
     (\<exists>r < n. pm_round_idx rx = of_nat r \<and>
        (pm_type rx = MSG_ROUND_TURN \<or>
         pm_type rx = MSG_ROUND_ACK \<and> (\<exists>j < n. pm_src_idx rx = of_nat j \<and> r < v j) \<or>
         pm_type rx = MSG_ROUND_COMMIT \<and> (\<forall>j < n. r < v j)))"

definition vcount :: "nat \<Rightarrow> pool_sys \<Rightarrow> nat \<Rightarrow> nat" where
  "vcount n s j = verified n (ps_pcs s ! j)"

definition rounds_inv :: "nat \<Rightarrow> pool_sys \<Rightarrow> bool" where
  "rounds_inv n s \<longleftrightarrow>
     length (ps_pcs s) = n \<and> length (ps_slots s) = n \<and> (\<forall>r < n. length (ps_slots s ! r) = SLOT_TOUCH_SIZE) \<and>
     (\<forall>i < n. pc_ok n i (ps_pcs s ! i)) \<and>
     (\<forall>r < n. \<forall>i < n. r < vcount n s i \<longrightarrow> slot_matches_payload (ps_slots s ! r) r r) \<and>
     (\<forall>x \<in> set (ps_net s). claims n (vcount n s) (snd x)) \<and>
     (\<forall>i < n. \<forall>r got pending. ps_pcs s ! i = WaitAcks r got pending \<longrightarrow> (\<forall>j < n. got ! j \<longrightarrow> r < vcount n s j)) \<and>
     (\<forall>i < n. \<forall>j < n. completed n (ps_pcs s ! j) \<le> vcount n s i)"

lemma u16_eq:
  assumes "a < n" and "b < n" and "n \<le> MAX_NODES"
  shows "(of_nat a :: u16) = of_nat b \<longleftrightarrow> a = b" and "unat (of_nat a :: u16) = a"
  using assms by (simp_all add: MAX_NODES_def word_unat_eq_iff unat_of_nat take_bit_nat_eq_self)

lemma claims_mono:
  assumes "claims n v rx" and "\<forall>j < n. v j \<le> w j"
  shows "claims n w rx"
  using assms unfolding claims_def by (meson less_le_trans)

lemma others_set: "set (others n i) = {j. j < n \<and> j \<noteq> i}"
  by (auto simp: others_def)

lemma others_length:
  assumes "i < n"
  shows "length (others n i) = n - 1"
proof -
  have "others n i = remove1 i [0..<n]" by (simp add: others_def distinct_remove1_removeAll removeAll_filter_not_eq) metis
  then show ?thesis using assms by (simp add: length_remove1)
qed

text \<open>A step that changes one node.\<close>

lemma inv_update:
  assumes inv: "rounds_inv n s" and i: "i < n"
    and t: "t = s\<lparr>ps_pcs := (ps_pcs s)[i := pc], ps_slots := slots, ps_net := net\<rparr>"
    and ok: "pc_ok n i pc" and mono: "verified n (ps_pcs s ! i) \<le> verified n pc"
    and sl: "length slots = n" "\<forall>r < n. length (slots ! r) = SLOT_TOUCH_SIZE"
      "\<forall>r < n. slots ! r = ps_slots s ! r \<or> slot_matches_payload (slots ! r) r r"
    and new: "\<forall>r < n. r < verified n pc \<longrightarrow> slot_matches_payload (slots ! r) r r"
    and net: "\<forall>x \<in> set net. x \<in> set (ps_net s) \<or> claims n (vcount n t) (snd x)"
    and acks: "\<forall>r got pending. pc = WaitAcks r got pending \<longrightarrow> (\<forall>j < n. got ! j \<longrightarrow> r < vcount n t j)"
    and comp: "\<forall>j < n. completed n pc \<le> vcount n t j"
  shows "rounds_inv n t"
proof -
  have l: "length (ps_pcs s) = n" using inv by (simp add: rounds_inv_def)
  have p: "ps_pcs t ! j = (if j = i then pc else ps_pcs s ! j)" if "j < n" for j
    using that i l by (simp add: t nth_list_update)
  have v: "\<forall>j < n. vcount n s j \<le> vcount n t j" using mono p by (simp add: vcount_def)
  have "slot_matches_payload (ps_slots t ! r) r r" if "r < n" "j < n" "r < vcount n t j" for r j
  proof (cases "j = i")
    case True
    with that p new show ?thesis by (simp add: vcount_def t)
  next
    case False
    with that p have "r < vcount n s j" by (simp add: vcount_def)
    with inv that have "slot_matches_payload (ps_slots s ! r) r r" by (simp add: rounds_inv_def)
    with sl(3) that show ?thesis by (auto simp: t)
  qed
  moreover have "claims n (vcount n t) (snd x)" if "x \<in> set (ps_net t)" for x
    using that net inv claims_mono [OF _ v] by (auto simp: t rounds_inv_def)
  moreover have "r < vcount n t k" if "j < n" "ps_pcs t ! j = WaitAcks r got pending" "k < n" "got ! k" for j r got pending k
  proof (cases "j = i")
    case True
    with that p acks show ?thesis by simp
  next
    case False
    with that p inv have "r < vcount n s k" by (auto simp: rounds_inv_def)
    with v that show ?thesis by (meson less_le_trans)
  qed
  moreover have "completed n (ps_pcs t ! j) \<le> vcount n t k" if "j < n" "k < n" for j k
  proof (cases "j = i")
    case True
    with that p comp show ?thesis by simp
  next
    case False
    with that p inv have "completed n (ps_pcs t ! j) \<le> vcount n s k" by (simp add: rounds_inv_def)
    with v that show ?thesis by (meson le_trans)
  qed
  ultimately show ?thesis using inv sl(1,2) ok p l unfolding rounds_inv_def by (simp add: t nth_list_update)
qed

lemma rounds_invD:
  assumes "rounds_inv n s" and "i < n"
  shows "pc_ok n i (ps_pcs s ! i)" "\<forall>r < n. r < verified n (ps_pcs s ! i) \<longrightarrow> slot_matches_payload (ps_slots s ! r) r r"
    "\<forall>j < n. completed n (ps_pcs s ! i) \<le> vcount n s j" "length (ps_slots s) = n"
    "\<forall>r < n. length (ps_slots s ! r) = SLOT_TOUCH_SIZE" "\<forall>x \<in> set (ps_net s). claims n (vcount n s) (snd x)"
    "length (ps_pcs s) = n"
  using assms by (auto simp: rounds_inv_def vcount_def)

lemma inv_enter:
  assumes inv: "rounds_inv n s" and i: "i < n" and pc: "ps_pcs s ! i = Enter r"
    and e: "round_enter n i r (ps_slots s) = (pc', slots)"
  shows "rounds_inv n (s\<lparr>ps_pcs := (ps_pcs s)[i := pc'], ps_slots := slots\<rparr>)"
proof -
  note d = rounds_invD [OF inv i]
  have r: "r \<le> n" using d(1) pc by simp
  have w: "slot_matches_payload (write_slot_payload (ps_slots s ! r) r r) r r"
    "length (write_slot_payload (ps_slots s ! r) r r) = SLOT_TOUCH_SIZE" if "r < n"
    using written_slot_matches [of "ps_slots s ! r"] d(5) that by simp_all
  have c: "verified n pc' = r \<and> completed n pc' = r \<and> pc_ok n i pc' \<and> (\<forall>r got pending. pc' \<noteq> WaitAcks r got pending)"
    and sl: "length slots = n \<and> (\<forall>k < n. length (slots ! k) = SLOT_TOUCH_SIZE) \<and>
      (\<forall>k < n. slots ! k = ps_slots s ! k \<or> slot_matches_payload (slots ! k) k k)"
    using e r w i d(4,5) by (auto simp: round_enter_def nth_list_update split: if_splits)
  have "\<forall>j < n. r \<le> vcount n s j" using d(3) pc by simp
  then show ?thesis
    using sl c d(2,7) pc i
    by (intro inv_update [OF inv i, where pc = pc' and slots = slots and net = "ps_net s"])
      (auto simp: vcount_def nth_list_update)
qed

lemma inv_own_verify:
  assumes inv: "rounds_inv n s" and i: "i < n" and n: "n \<le> MAX_NODES" and pc: "ps_pcs s ! i = OwnVerify r"
    and m: "slot_matches_payload (ps_slots s ! r) r r"
  shows "rounds_inv n (s\<lparr>ps_pcs := (ps_pcs s)[i := WaitAcks r (replicate MAX_NODES False) (int n - 1)],
      ps_net := ps_net s @ map (\<lambda>j. send_round_turn i j r) (others n i)\<rparr>)"
proof -
  note d = rounds_invD [OF inv i]
  have r: "i = r" using d(1) pc by simp
  have "length (filter (\<lambda>j. \<not> replicate MAX_NODES False ! j) (others n i)) = n - 1"
  proof -
    have "filter (\<lambda>j. \<not> replicate MAX_NODES False ! j) (others n i) = others n i"
      using n by (auto simp: filter_id_conv others_set)
    then show ?thesis using others_length [OF i] by simp
  qed
  then have ok: "pc_ok n i (WaitAcks r (replicate MAX_NODES False) (int n - 1))" using r i n by simp
  have cl: "claims n v (snd (send_round_turn i j r))" for v j
    using i r by (auto simp: claims_def send_round_turn_def round_msg_def init_pool_msg_def)
  have lt: "\<forall>j < n. r \<le> vcount n s j" using d(3) pc by simp
  show ?thesis
    using ok d(2-5,7) pc m cl lt n r i
    by (intro inv_update [OF inv i, where pc = "WaitAcks r (replicate MAX_NODES False) (int n - 1)" and slots = "ps_slots s"
        and net = "ps_net s @ map (\<lambda>j. send_round_turn i j r) (others n i)"])
      (auto simp: vcount_def nth_list_update less_Suc_eq le_Suc_eq)
qed

lemma inv_verify:
  assumes inv: "rounds_inv n s" and i: "i < n" and pc: "ps_pcs s ! i = Verify r"
    and m: "slot_matches_payload (ps_slots s ! r) r r"
  shows "rounds_inv n (s\<lparr>ps_pcs := (ps_pcs s)[i := WaitCommit r], ps_net := ps_net s @ [send_round_ack i r r]\<rparr>)"
proof -
  note d = rounds_invD [OF inv i]
  have ok: "pc_ok n i (WaitCommit r)" using d(1) pc by simp
  have cl: "claims n v (snd (send_round_ack i r r))" if "r < v i" for v
    using i ok that by (auto simp: claims_def send_round_ack_def round_msg_def init_pool_msg_def MSG_ROUND_ACK_def)
  have lt: "\<forall>j < n. r \<le> vcount n s j" using d(3) pc by simp
  show ?thesis
    using ok d(2-5,7) pc m lt cl i
    by (intro inv_update [OF inv i, where pc = "WaitCommit r" and slots = "ps_slots s"
        and net = "ps_net s @ [send_round_ack i r r]"])
      (auto simp: vcount_def nth_list_update less_Suc_eq le_Suc_eq)
qed

lemma inv_acked:
  assumes inv: "rounds_inv n s" and i: "i < n" and pc: "ps_pcs s ! i = WaitAcks r got 0"
  shows "rounds_inv n (s\<lparr>ps_pcs := (ps_pcs s)[i := Enter (Suc r)], ps_net := ps_net s @ broadcast_round_commit n i r\<rparr>)"
proof -
  note d = rounds_invD [OF inv i]
  have r: "i = r" and all: "\<forall>j < n. j \<noteq> i \<longrightarrow> got ! j" using d(1) pc others_set by (auto simp: filter_empty_conv)
  have lt: "\<forall>j < n. Suc r \<le> vcount n s j"
  proof (intro allI impI)
    fix j assume j: "j < n"
    show "Suc r \<le> vcount n s j"
    proof (cases "j = i")
      case True
      then show ?thesis using pc by (simp add: vcount_def)
    next
      case False
      with all j have "got ! j" by simp
      with inv i j pc have "r < vcount n s j" unfolding rounds_inv_def by blast
      then show ?thesis by simp
    qed
  qed
  have cl: "claims n v (snd x)" if "x \<in> set (broadcast_round_commit n i r)" "\<forall>j < n. Suc r \<le> v j" for v x
    using that i r by (auto simp: claims_def broadcast_round_commit_def round_msg_def init_pool_msg_def Suc_le_eq)
  show ?thesis
    using d(2-5,7) pc lt cl i r
    by (intro inv_update [OF inv i, where pc = "Enter (Suc r)" and slots = "ps_slots s"
        and net = "ps_net s @ broadcast_round_commit n i r"])
      (auto simp: vcount_def nth_list_update)
qed

lemma ack_count:
  assumes "j \<in> set xs" and "distinct xs" and "\<not> got ! j" and "j < length got"
  shows "length (filter (\<lambda>k. \<not> got ! k) xs) = Suc (length (filter (\<lambda>k. \<not> got[j := True] ! k) xs))"
proof -
  obtain ys zs where x: "xs = ys @ j # zs" using assms(1) by (auto dest: split_list)
  have f: "filter (\<lambda>k. \<not> got[j := True] ! k) us = filter (\<lambda>k. \<not> got ! k) us" if "j \<notin> set us" for us
    using that by (intro filter_cong refl) (metis nth_list_update_neq)
  have "j \<notin> set ys" "j \<notin> set zs" using assms(2) by (auto simp: x)
  then show ?thesis using assms(3,4) f [of ys] f [of zs] by (simp add: x)
qed

text \<open>A datagram received changes no count of slots checked; an acknowledgement that is counted comes
  from a node that has checked the slot.\<close>

lemma receive_ack:
  assumes n: "n \<le> MAX_NODES" and i: "i < n" and ok: "pc_ok n i (WaitAcks r got pending)" and cl: "claims n v rx"
    and a: "round_ack_receive n i r rx (got, pending) = (got', pending')" and k: "\<forall>j < n. got ! j \<longrightarrow> r < v j"
  shows "pc_ok n i (WaitAcks r got' pending') \<and> (\<forall>j < n. got' ! j \<longrightarrow> r < v j)"
proof (cases "(got', pending') = (got, pending)")
  case True
  with ok k show ?thesis by auto
next
  case False
  let ?j = "unat (pm_src_idx rx)"
  from False a have t: "pm_type rx = MSG_ROUND_ACK" "pm_round_idx rx = of_nat r" "\<not> of_nat n \<le> pm_src_idx rx"
    "pm_src_idx rx \<noteq> of_nat i" "\<not> got ! ?j" "got' = got[?j := True]" "pending' = pending - 1"
    by (auto simp: round_ack_receive_def split: if_splits)
  from cl t(1) obtain r' j where r': "r' < n" "pm_round_idx rx = of_nat r'" and j: "j < n" "pm_src_idx rx = of_nat j" "r' < v j"
    by (auto simp: claims_def MSG_ROUND_TURN_def MSG_ROUND_ACK_def MSG_ROUND_COMMIT_def)
  have ri: "i = r" using ok by simp
  then have "r' = r" using r' t(2) i u16_eq(1) [OF r'(1) _ n, of r] by simp
  have uj: "?j = j" using j(1,2) u16_eq(2) [OF j(1) j(1) n] by simp
  have ji: "j \<noteq> i" using t(4) j(2) by auto
  have "j < length got" using j(1) n ok by simp
  with ack_count [of j "others n i" got] j(1) ji t(5) uj
  have "length (filter (\<lambda>k. \<not> got ! k) (others n i)) = Suc (length (filter (\<lambda>k. \<not> got' ! k) (others n i)))"
    by (simp add: others_set t(6)) (simp add: others_def)
  then have "pc_ok n i (WaitAcks r got' pending')" using ok t(6,7) uj ji by auto
  moreover have "r < v k" if "k < n" "got' ! k" for k
    using that t(6) uj k j(3) \<open>r' = r\<close> by (cases "k = j") auto
  ultimately show ?thesis by blast
qed

lemma inv_receive:
  assumes inv: "rounds_inv n s" and i: "i < n" and n: "n \<le> MAX_NODES" and l: "listening (ps_pcs s ! i)"
    and net: "ps_net s = xs @ (i, rx) # ys"
  shows "rounds_inv n (s\<lparr>ps_pcs := (ps_pcs s)[i := round_receive n i rx (ps_pcs s ! i)], ps_net := xs @ ys\<rparr>)"
proof -
  note d = rounds_invD [OF inv i]
  have cl: "claims n (vcount n s) rx" using d(6) net by auto
  let ?pc = "round_receive n i rx (ps_pcs s ! i)"
  have k: "\<forall>r got pending. ps_pcs s ! i = WaitAcks r got pending \<longrightarrow> (\<forall>j < n. got ! j \<longrightarrow> r < vcount n s j)"
    using inv i by (simp add: rounds_inv_def)
  have p: "pc_ok n i ?pc \<and> verified n ?pc = verified n (ps_pcs s ! i) \<and> (\<forall>j < n. completed n ?pc \<le> vcount n s j) \<and>
      (\<forall>r got pending. ?pc = WaitAcks r got pending \<longrightarrow> (\<forall>j < n. got ! j \<longrightarrow> r < vcount n s j))"
  proof (cases "ps_pcs s ! i")
    case (WaitTurn r)
    with d(1,3) show ?thesis by (auto simp: round_receive_def)
  next
    case (WaitCommit r)
    show ?thesis
    proof (cases "round_msg_fits MSG_ROUND_COMMIT r i r rx")
      case True
      with cl obtain r' where r': "r' < n" "pm_round_idx rx = of_nat r'" "\<forall>j < n. r' < vcount n s j"
        by (auto simp: claims_def round_msg_fits_def MSG_ROUND_TURN_def MSG_ROUND_ACK_def MSG_ROUND_COMMIT_def)
      have "r < n" using d(1) WaitCommit by simp
      with True r' u16_eq(1) [OF r'(1) _ n, of r] have "r' = r" by (simp add: round_msg_fits_def)
      with True WaitCommit d(1) r' show ?thesis by (auto simp: round_receive_def Suc_le_eq)
    next
      case False
      with WaitCommit d(1,3) show ?thesis by (auto simp: round_receive_def)
    qed
  next
    case (WaitAcks r got pending)
    obtain got' pending' where a: "round_ack_receive n i r rx (got, pending) = (got', pending')" by fastforce
    have ok: "pc_ok n i (WaitAcks r got pending)" using d(1) unfolding WaitAcks .
    from receive_ack [OF n i ok cl a] k WaitAcks d(3) a show ?thesis by (auto simp: round_receive_def)
  qed (use l in simp_all)
  show ?thesis
    using p d(2,4,5,7) i net
    by (intro inv_update [OF inv i, where pc = ?pc and slots = "ps_slots s" and net = "xs @ ys"])
      (auto simp: vcount_def nth_list_update)
qed

lemma inv_fault:
  assumes inv: "rounds_inv n s" and f: "net_fault n s t"
  shows "rounds_inv n t"
  using f
proof cases
  case (lose xs x ys)
  with inv show ?thesis by (auto simp: rounds_inv_def vcount_def claims_def)
next
  case (duplicate x)
  with inv show ?thesis by (auto simp: rounds_inv_def vcount_def claims_def)
next
  case (time_out i)
  note d = rounds_invD [OF inv time_out(2)]
  have "completed n (ps_pcs s ! i) \<le> verified n (ps_pcs s ! i)" using d(1) by (cases "ps_pcs s ! i") simp_all
  then show ?thesis
    unfolding time_out(1) using d(2-5,7) time_out(2)
    by (intro inv_update [OF inv time_out(2), where pc = "Failed (verified n (ps_pcs s ! i)) (completed n (ps_pcs s ! i))"
        and slots = "ps_slots s" and net = "ps_net s"])
      (auto simp: vcount_def nth_list_update)
qed

lemma inv_step:
  assumes inv: "rounds_inv n s" and n: "n \<le> MAX_NODES" and st: "round_step n s t"
  shows "rounds_inv n t"
  using st
proof cases
  case (enter i r pc slots)
  then show ?thesis using inv_enter [OF inv] by simp
next
  case (own_verify i r)
  then show ?thesis using inv_own_verify [OF inv _ n] by simp
next
  case (verify i r)
  then show ?thesis using inv_verify [OF inv] by simp
next
  case (receive i xs rx ys)
  then show ?thesis using inv_receive [OF inv _ n] by simp
next
  case (acked i r got)
  then show ?thesis using inv_acked [OF inv] by simp
qed

lemma reach_inv:
  assumes "rounds_reach slots s" and "length slots \<le> MAX_NODES" and "\<forall>x \<in> set slots. length x = SLOT_TOUCH_SIZE"
  shows "rounds_inv (length slots) s"
  using assms(1)
proof induction
  case start
  show ?case using assms(3) by (simp add: rounds_inv_def rounds_start_def vcount_def)
next
  case (step s t)
  from step.IH assms(2) step.hyps(2) show ?case by (rule inv_step)
next
  case (fault s t)
  from fault.IH fault.hyps(2) show ?case by (rule inv_fault)
qed

text \<open>
  agreement. Whatever the network loses, repeats or reorders and whichever nodes run into a
  time-out, no node has completed more rounds than any other node has checked slots, and every slot
  a node has checked holds the record its owner wrote. So when one node finishes, all have checked all slots.
\<close>

theorem rounds_agreement:
  assumes "rounds_reach slots s" and "length slots \<le> MAX_NODES" and "\<forall>x \<in> set slots. length x = SLOT_TOUCH_SIZE"
    and "i < length slots" and "j < length slots"
  shows "completed (length slots) (ps_pcs s ! j) \<le> verified (length slots) (ps_pcs s ! i) \<and>
    (\<forall>r < length slots. r < verified (length slots) (ps_pcs s ! i) \<longrightarrow> slot_matches_payload (ps_slots s ! r) r r)"
  using rounds_invD(2,3) [OF reach_inv [OF assms(1-3)]] assms(4,5) by (simp add: vcount_def)

section \<open>A schedule\<close>

text \<open>The steps as a function: the node that moves, or the position of the datagram that is received.\<close>

datatype sched = Move nat | Take nat

definition exec1 :: "nat \<Rightarrow> sched \<Rightarrow> pool_sys \<Rightarrow> pool_sys option" where
  "exec1 n sc s =
     (case sc of
        Move i \<Rightarrow>
          (if \<not> i < n then None
           else case ps_pcs s ! i of
             Enter r \<Rightarrow>
               (case round_enter n i r (ps_slots s) of
                  (pc, slots) \<Rightarrow> Some (s\<lparr>ps_pcs := (ps_pcs s)[i := pc], ps_slots := slots\<rparr>))
           | OwnVerify r \<Rightarrow>
               if slot_matches_payload (ps_slots s ! r) r r
               then Some (s\<lparr>ps_pcs := (ps_pcs s)[i := WaitAcks r (replicate MAX_NODES False) (int n - 1)],
                 ps_net := ps_net s @ map (\<lambda>j. send_round_turn i j r) (others n i)\<rparr>)
               else None
           | Verify r \<Rightarrow>
               if slot_matches_payload (ps_slots s ! r) r r
               then Some (s\<lparr>ps_pcs := (ps_pcs s)[i := WaitCommit r], ps_net := ps_net s @ [send_round_ack i r r]\<rparr>)
               else None
           | WaitAcks r got pending \<Rightarrow>
               if pending = 0
               then Some (s\<lparr>ps_pcs := (ps_pcs s)[i := Enter (Suc r)], ps_net := ps_net s @ broadcast_round_commit n i r\<rparr>)
               else None
           | _ \<Rightarrow> None)
      | Take k \<Rightarrow>
          (if \<not> k < length (ps_net s) then None
           else case ps_net s ! k of
             (i, rx) \<Rightarrow>
               if i < n \<and> listening (ps_pcs s ! i)
               then Some (s\<lparr>ps_pcs := (ps_pcs s)[i := round_receive n i rx (ps_pcs s ! i)],
                 ps_net := take k (ps_net s) @ drop (Suc k) (ps_net s)\<rparr>)
               else None))"

lemma exec1_sound: "exec1 n sc s = Some t \<Longrightarrow> round_step n s t"
proof (cases sc)
  case (Move i)
  assume "exec1 n sc s = Some t"
  with Move show ?thesis
    by (cases "ps_pcs s ! i") (auto simp: exec1_def split: if_splits prod.splits intro: round_step.intros)
next
  case (Take k)
  assume e: "exec1 n sc s = Some t"
  obtain i rx where x: "ps_net s ! k = (i, rx)" by fastforce
  from e Take x have k: "k < length (ps_net s)" "i < n" "listening (ps_pcs s ! i)"
    and t: "t = s\<lparr>ps_pcs := (ps_pcs s)[i := round_receive n i rx (ps_pcs s ! i)],
      ps_net := take k (ps_net s) @ drop (Suc k) (ps_net s)\<rparr>"
    by (auto simp: exec1_def split: if_splits)
  show ?thesis unfolding t using k x id_take_nth_drop [OF k(1)] by (intro round_step.receive) simp_all
qed

primrec exec :: "nat \<Rightarrow> sched list \<Rightarrow> pool_sys \<Rightarrow> pool_sys option" where
  "exec n [] s = Some s"
| "exec n (sc # scs) s = Option.bind (exec1 n sc s) (exec n scs)"

lemma exec_sound: "exec n scs s = Some t \<Longrightarrow> (round_step n)\<^sup>*\<^sup>* s t"
  by (induction scs arbitrary: s) (auto simp: bind_eq_Some_conv dest: exec1_sound intro: converse_rtranclp_into_rtranclp)

lemma steps_reach: "(round_step (length slots))\<^sup>*\<^sup>* (rounds_start slots) s \<Longrightarrow> rounds_reach slots s"
  by (induction rule: rtranclp_induct) (auto intro: rounds_reach.intros)

text \<open>A node that only waits for datagrams does not move when none is under way.\<close>

fun waiting :: "pool_pc \<Rightarrow> bool" where
  "waiting (WaitTurn r) \<longleftrightarrow> True"
| "waiting (WaitCommit r) \<longleftrightarrow> True"
| "waiting (WaitAcks r got pending) \<longleftrightarrow> pending \<noteq> 0"
| "waiting Finished \<longleftrightarrow> True"
| "waiting (Failed v p) \<longleftrightarrow> True"
| "waiting _ \<longleftrightarrow> False"

lemma stuck:
  assumes "\<forall>i < n. waiting (ps_pcs s ! i)" and "ps_net s = []"
  shows "\<not> round_step n s t"
proof
  assume "round_step n s t"
  then show False using assms by cases auto
qed

text \<open>
  Three nodes. The first commits its round; the second gets the COMMIT and announces the next round before
  the third has taken its COMMIT; the third drops that TURN while it waits for the COMMIT.
\<close>

definition early_turn :: "sched list" where
  "early_turn =
     [Move 0, Move 1, Move 2, Move 0, Take 0, Take 0, Move 1, Move 2, Take 0, Take 0, Move 0,
      Take 0, Move 1, Move 1, Take 20, Move 0, Take 19, Move 0, Take 19, Take 0, Move 2] @ replicate 18 (Take 0)"

text \<open>Datagrams between nodes are told apart by their fields.\<close>

lemma fits_round_msg:
  assumes "src < MAX_NODES" "dst < MAX_NODES" "r < MAX_NODES" "src' < MAX_NODES" "dst' < MAX_NODES" "r' < MAX_NODES"
  shows "round_msg_fits ty src dst r (round_msg ty' src' dst' r') \<longleftrightarrow> ty' = ty \<and> src' = src \<and> dst' = dst \<and> r' = r"
  using assms u16_eq(1) [of _ MAX_NODES]
  by (auto simp: round_msg_fits_def round_msg_def init_pool_msg_def pool_msg_ok_def)

lemma ack_round_msg:
  assumes "i < MAX_NODES" "r < MAX_NODES" "src' < MAX_NODES" "dst' < MAX_NODES" "r' < MAX_NODES" "n \<le> MAX_NODES"
  shows "round_ack_receive n i r (round_msg ty' src' dst' r') (got, pending) =
    (if ty' = MSG_ROUND_ACK \<and> dst' = i \<and> r' = r \<and> src' < n \<and> src' \<noteq> i \<and> \<not> got ! src'
     then (got[src' := True], pending - 1) else (got, pending))"
proof -
  have u: "unat (of_nat k :: u16) = k" if "k \<le> MAX_NODES" for k
    using that by (simp add: MAX_NODES_def unat_of_nat take_bit_nat_eq_self)
  have e: "(of_nat x :: u16) = of_nat y \<longleftrightarrow> x = y" if "x < MAX_NODES" "y < MAX_NODES" for x y
    using u16_eq(1) [OF that] by simp
  have "(of_nat n :: u16) \<le> of_nat src' \<longleftrightarrow> n \<le> src'" using u [of n] u [of src'] assms by (simp add: word_le_nat_alt)
  with e assms u [of src'] show ?thesis
    by (simp add: round_ack_receive_def round_msg_def init_pool_msg_def pool_msg_ok_def not_le)
qed

lemma msg_types: "MSG_ROUND_TURN \<noteq> MSG_ROUND_ACK" "MSG_ROUND_TURN \<noteq> MSG_ROUND_COMMIT" "MSG_ROUND_ACK \<noteq> MSG_ROUND_COMMIT"
  by (simp_all add: MSG_ROUND_TURN_def MSG_ROUND_ACK_def MSG_ROUND_COMMIT_def)

lemma three_nodes:
  "others 3 0 = [1, 2]" "others 3 1 = [0, 2]" "others 3 2 = [0, 1]" "0 < MAX_NODES" "1 < MAX_NODES" "2 < MAX_NODES" "3 \<le> MAX_NODES"
  "replicate 18 x = [x, x, x, x, x, x, x, x, x, x, x, x, x, x, x, x, x, x]" "replicate 10 y = [y, y, y, y, y, y, y, y, y, y]"
  "[u, v, w][0 := z] = [z, v, w]" "[u, v, w][1 := z] = [u, z, w]" "[u, v, w][2 := z] = [u, v, z]"
  "[u, v, w] ! 0 = u" "[u, v, w] ! 1 = v" "[u, v, w] ! 2 = w"
proof -
  show "others 3 0 = [1, 2]" "others 3 1 = [0, 2]" "others 3 2 = [0, 1]" by code_simp+
qed (simp_all add: MAX_NODES_def eval_nat_numeral)

lemma exec_append: "exec n (xs @ ys) s = Option.bind (exec n xs s) (exec n ys)"
  by (induction xs arbitrary: s) (auto split: bind_splits)

text \<open>Datagrams nobody waits for are dropped.\<close>

lemma exec_drain:
  assumes "\<forall>(i, rx) \<in> set net. i < n \<and> listening (ps_pcs s ! i) \<and> round_receive n i rx (ps_pcs s ! i) = ps_pcs s ! i"
    and "ps_net s = net"
  shows "exec n (replicate (length net) (Take 0)) s = Some (s\<lparr>ps_net := []\<rparr>)"
  using assms
proof (induction net arbitrary: s)
  case Nil
  then show ?case by simp
next
  case (Cons x net)
  obtain i rx where x: "x = (i, rx)" by fastforce
  have "exec1 n (Take 0) s = Some (s\<lparr>ps_net := net\<rparr>)" using Cons.prems by (simp add: exec1_def x)
  with Cons.IH [of "s\<lparr>ps_net := net\<rparr>"] Cons.prems(1) show ?case by (simp add: x)
qed

lemmas run_simps = exec1_def round_enter_def three_nodes send_round_turn_def send_round_ack_def
  round_receive_def fits_round_msg ack_round_msg msg_types msg_types [THEN not_sym] nth_list_update

text \<open>The first round up to the commit, the early TURN of the second, and the rest.\<close>

definition commits :: "nat \<Rightarrow> (nat \<times> pool_msg) list" where
  "commits k = concat (replicate k [(1, round_msg MSG_ROUND_COMMIT 0 1 0), (2, round_msg MSG_ROUND_COMMIT 0 2 0)])"

lemma commits_simps: "commits 0 = []"
  "commits (Suc k) = (1, round_msg MSG_ROUND_COMMIT 0 1 0) # (2, round_msg MSG_ROUND_COMMIT 0 2 0) # commits k"
  "length (commits k) = 2 * k" "broadcast_round_commit 3 0 0 = commits 10"
  by (simp_all add: commits_def broadcast_round_commit_def three_nodes length_concat sum_list_replicate)

lemma run_commit:
  assumes "length a = SLOT_TOUCH_SIZE"
  shows "exec 3 [Move 0, Move 1, Move 2, Move 0, Take 0, Take 0, Move 1, Move 2, Take 0, Take 0, Move 0] (rounds_start [a, b, c]) =
    Some \<lparr>ps_pcs = [Enter 1, WaitCommit 0, WaitCommit 0], ps_slots = [write_slot_payload a 0 0, b, c], ps_net = commits 10\<rparr>"
proof -
  have st: "rounds_start [a, b, c] = \<lparr>ps_pcs = [Enter 0, Enter 0, Enter 0], ps_slots = [a, b, c], ps_net = []\<rparr>"
    by (simp add: rounds_start_def)
  show ?thesis
    unfolding st using written_slot_matches(1) [OF assms(1), of 0 0]
    by (simp add: run_simps commits_simps(4) del: One_nat_def list_update.simps)
qed

lemma run_early_turn:
  assumes "length b = SLOT_TOUCH_SIZE" and "slot_matches_payload x 0 0"
  shows "exec 3 [Take 0, Move 1, Move 1, Take 20, Move 0, Take 19, Move 0, Take 19, Take 0, Move 2]
      \<lparr>ps_pcs = [Enter 1, WaitCommit 0, WaitCommit 0], ps_slots = [x, b, c], ps_net = commits 10\<rparr> =
    Some \<lparr>ps_pcs = [WaitCommit 1, WaitAcks 1 ((replicate MAX_NODES False)[0 := True]) 1, WaitTurn 1],
      ps_slots = [x, write_slot_payload b 1 1, c], ps_net = commits 9\<rparr>"
proof -
  have c: "commits 10 = (1, round_msg MSG_ROUND_COMMIT 0 1 0) # (2, round_msg MSG_ROUND_COMMIT 0 2 0) # commits 9"
    using commits_simps(2) [of 9] by simp
  show ?thesis
    unfolding c using written_slot_matches(1) [OF assms(1), of 1 1]
    by (simp add: run_simps commits_simps(3) nth_append One_nat_def [symmetric] del: One_nat_def list_update.simps) simp
qed

lemma early_turn_run:
  assumes "length a = SLOT_TOUCH_SIZE" "length b = SLOT_TOUCH_SIZE"
  shows "exec 3 early_turn (rounds_start [a, b, c]) =
    Some \<lparr>ps_pcs = [WaitCommit 1, WaitAcks 1 ((replicate MAX_NODES False)[0 := True]) 1, WaitTurn 1],
      ps_slots = [write_slot_payload a 0 0, write_slot_payload b 1 1, c], ps_net = []\<rparr>"
proof -
  let ?s = "\<lparr>ps_pcs = [WaitCommit 1, WaitAcks 1 ((replicate MAX_NODES False)[0 := True]) 1, WaitTurn 1],
      ps_slots = [write_slot_payload a 0 0, write_slot_payload b 1 1, c], ps_net = commits 9\<rparr>"
  have e: "early_turn = [Move 0, Move 1, Move 2, Move 0, Take 0, Take 0, Move 1, Move 2, Take 0, Take 0, Move 0] @
      [Take 0, Move 1, Move 1, Take 20, Move 0, Take 19, Move 0, Take 19, Take 0, Move 2] @ replicate (length (commits 9)) (Take 0)"
    by (simp add: early_turn_def commits_simps(3))
  have "exec 3 (replicate (length (commits 9)) (Take 0)) ?s = Some (?s\<lparr>ps_net := []\<rparr>)"
    by (rule exec_drain) (auto simp: commits_def run_simps simp del: One_nat_def list_update.simps)
  then show ?thesis
    unfolding e exec_append run_commit [OF assms(1)] bind.bind_lunit
      run_early_turn [OF assms(2) written_slot_matches(1) [OF assms(1), of 0 0]]
    by simp
qed

text \<open>
  C40: a round can get stuck although no datagram is lost, repeated or overtaken by a later one of the
  same sender, and no node has timed out: with three nodes there is a run after which nothing is under
  way and no node can move, while the first waits for the COMMIT of round 2, the second for an
  acknowledgement and the third for the TURN it dropped while it waited for the COMMIT of round 1.
\<close>

theorem early_turn_deadlock:
  assumes "length a = SLOT_TOUCH_SIZE" and "length b = SLOT_TOUCH_SIZE"
  shows "\<exists>s got. (round_step 3)\<^sup>*\<^sup>* (rounds_start [a, b, c]) s \<and> ps_net s = [] \<and>
    ps_pcs s = [WaitCommit 1, WaitAcks 1 got 1, WaitTurn 1] \<and> (\<forall>t. \<not> round_step 3 s t)"
proof -
  let ?s = "\<lparr>ps_pcs = [WaitCommit 1, WaitAcks 1 ((replicate MAX_NODES False)[0 := True]) 1, WaitTurn 1],
      ps_slots = [write_slot_payload a 0 0, write_slot_payload b 1 1, c], ps_net = []\<rparr>"
  have "\<forall>i < 3. waiting (ps_pcs ?s ! i)" by (auto simp: less_Suc_eq numeral_3_eq_3)
  then have "\<not> round_step 3 ?s t" for t by (rule stuck) simp
  with exec_sound [OF early_turn_run [OF assms]] show ?thesis by (intro exI [of _ ?s]) auto
qed

end
