(* ===== verification/Pool_Node.thy ===== *)
theory Pool_Node
  imports Pool_System
begin

text \<open>
  \<^verbatim>\<open>do_rounds\<close> of the memory pool demo as one node executes it, a function of what the node
  observes: datagrams, an empty socket, the contents of a slot, and the deadline. It is shown to be the
  machine the theory \<open>Pool_System\<close> runs on every node, so that agreement holds for its results.
\<close>

section \<open>The loops\<close>

text \<open>What a node observes, in order: a datagram taken from the socket, a receive that finds nothing before
  the next turn of the loop, the contents of the slot it looks at, and the end of the time allowed.\<close>

datatype pool_ev = Rx pool_msg | Idle | Look bytes | Expire

text \<open>Each loop returns its code and what is left to observe; at the end of the list the alarm has fired.\<close>

fun wait_for_slot_payload :: "nat \<Rightarrow> nat \<Rightarrow> pool_ev list \<Rightarrow> int \<times> pool_ev list" where
  "wait_for_slot_payload owner_idx slot_idx [] = (- 1, [])"
| "wait_for_slot_payload owner_idx slot_idx (ev # evs) =
     (case ev of
        Look addr \<Rightarrow>
          if slot_matches_payload addr owner_idx slot_idx then (0, evs) else wait_for_slot_payload owner_idx slot_idx evs
      | Expire \<Rightarrow> (- 1, evs)
      | _ \<Rightarrow> wait_for_slot_payload owner_idx slot_idx evs)"

fun wait_for_round_msg :: "u16 \<Rightarrow> nat \<Rightarrow> nat \<Rightarrow> nat \<Rightarrow> pool_ev list \<Rightarrow> int \<times> pool_ev list" where
  "wait_for_round_msg ty src_idx dst_idx round_idx [] = (- 1, [])"
| "wait_for_round_msg ty src_idx dst_idx round_idx (ev # evs) =
     (case ev of
        Rx rx \<Rightarrow>
          if round_msg_fits ty src_idx dst_idx round_idx rx then (0, evs)
          else wait_for_round_msg ty src_idx dst_idx round_idx evs
      | Expire \<Rightarrow> (- 1, evs)
      | _ \<Rightarrow> wait_for_round_msg ty src_idx dst_idx round_idx evs)"

text \<open>The deadline of the acknowledgements is looked at after the count.\<close>

fun round_acks_loop :: "nat \<Rightarrow> nat \<Rightarrow> nat \<Rightarrow> bool list \<times> int \<Rightarrow> pool_ev list \<Rightarrow> int \<times> pool_ev list" where
  "round_acks_loop node_count local_idx round_idx t [] = (- 1, [])"
| "round_acks_loop node_count local_idx round_idx t (ev # evs) =
     (case ev of
        Rx rx \<Rightarrow> round_acks_loop node_count local_idx round_idx (round_ack_receive node_count local_idx round_idx rx t) evs
      | Idle \<Rightarrow> if snd t = 0 then (0, evs) else round_acks_loop node_count local_idx round_idx t evs
      | Expire \<Rightarrow> (if snd t = 0 then 0 else - 1, evs)
      | Look addr \<Rightarrow> round_acks_loop node_count local_idx round_idx t evs)"

definition wait_for_all_round_acks :: "nat \<Rightarrow> nat \<Rightarrow> nat \<Rightarrow> pool_ev list \<Rightarrow> int \<times> pool_ev list" where
  "wait_for_all_round_acks node_count local_idx round_idx evs =
     round_acks_loop node_count local_idx round_idx (replicate MAX_NODES False, int node_count - 1) evs"

section \<open>The rounds\<close>

text \<open>The return code, the datagrams sent, and the contents of the node's own slot.\<close>

fun rounds_loop :: "nat \<Rightarrow> nat \<Rightarrow> nat list \<Rightarrow> bytes \<Rightarrow> pool_ev list \<Rightarrow> int \<times> (nat \<times> pool_msg) list \<times> bytes" where
  "rounds_loop node_count local_idx [] own evs = (0, [], own)"
| "rounds_loop node_count local_idx (round_idx # rounds) own evs =
     (if local_idx = round_idx
      then let own1 = write_slot_payload own round_idx round_idx;
               (rc, evs1) = wait_for_slot_payload round_idx round_idx evs
           in if rc \<noteq> 0 then (- 1, [], own1)
              else let turns = map (\<lambda>i. send_round_turn local_idx i round_idx) (others node_count local_idx);
                       (rc, evs2) = wait_for_all_round_acks node_count local_idx round_idx evs1
                   in if rc \<noteq> 0 then (- 1, turns, own1)
                      else let (rc, sent, own2) = rounds_loop node_count local_idx rounds own1 evs2
                           in (rc, turns @ broadcast_round_commit node_count local_idx round_idx @ sent, own2)
      else let (rc, evs1) = wait_for_round_msg MSG_ROUND_TURN round_idx local_idx round_idx evs
           in if rc \<noteq> 0 then (- 1, [], own)
              else let (rc, evs2) = wait_for_slot_payload round_idx round_idx evs1
                   in if rc \<noteq> 0 then (- 1, [], own)
                      else let (rc, evs3) = wait_for_round_msg MSG_ROUND_COMMIT round_idx local_idx round_idx evs2
                           in if rc \<noteq> 0 then (- 1, [send_round_ack local_idx round_idx round_idx], own)
                              else let (rc, sent, own2) = rounds_loop node_count local_idx rounds own evs3
                                   in (rc, send_round_ack local_idx round_idx round_idx # sent, own2))"

definition do_rounds :: "nat \<Rightarrow> nat \<Rightarrow> bytes \<Rightarrow> pool_ev list \<Rightarrow> int \<times> (nat \<times> pool_msg) list \<times> bytes" where
  "do_rounds node_count local_idx own evs = rounds_loop node_count local_idx [0..<node_count] own evs"

section \<open>The node as a machine\<close>

text \<open>The machine of a node: what an observation does, and a run in which the step at the head of the loop is
  taken at once.\<close>

definition head_of :: "nat \<Rightarrow> nat \<Rightarrow> pool_pc \<Rightarrow> pool_pc" where
  "head_of n i pc =
     (case pc of Enter r \<Rightarrow> if n \<le> r then Finished else if i = r then OwnVerify r else WaitTurn r | _ \<Rightarrow> pc)"

definition expired :: "nat \<Rightarrow> pool_pc \<Rightarrow> pool_pc" where
  "expired n pc = Failed (verified n pc) (completed n pc)"

definition node_move :: "nat \<Rightarrow> nat \<Rightarrow> pool_ev \<Rightarrow> pool_pc \<Rightarrow> pool_pc \<times> (nat \<times> pool_msg) list" where
  "node_move n i ev pc =
     (case (pc, ev) of
        (OwnVerify r, Look x) \<Rightarrow>
          if slot_matches_payload x r r
          then (WaitAcks r (replicate MAX_NODES False) (int n - 1), map (\<lambda>j. send_round_turn i j r) (others n i)) else (pc, [])
      | (OwnVerify r, Expire) \<Rightarrow> (expired n pc, [])
      | (Verify r, Look x) \<Rightarrow>
          if slot_matches_payload x r r then (WaitCommit r, [send_round_ack i r r]) else (pc, [])
      | (Verify r, Expire) \<Rightarrow> (expired n pc, [])
      | (WaitTurn r, Rx rx) \<Rightarrow> (round_receive n i rx pc, [])
      | (WaitTurn r, Expire) \<Rightarrow> (expired n pc, [])
      | (WaitCommit r, Rx rx) \<Rightarrow> (round_receive n i rx pc, [])
      | (WaitCommit r, Expire) \<Rightarrow> (expired n pc, [])
      | (WaitAcks r got pending, Rx rx) \<Rightarrow> (round_receive n i rx pc, [])
      | (WaitAcks r got pending, Idle) \<Rightarrow>
          if pending = 0 then (Enter (Suc r), broadcast_round_commit n i r) else (pc, [])
      | (WaitAcks r got pending, Expire) \<Rightarrow>
          if pending = 0 then (Enter (Suc r), broadcast_round_commit n i r) else (expired n pc, [])
      | _ \<Rightarrow> (pc, []))"

primrec node_run :: "nat \<Rightarrow> nat \<Rightarrow> pool_ev list \<Rightarrow> pool_pc \<Rightarrow> pool_pc \<times> (nat \<times> pool_msg) list" where
  "node_run n i [] pc = (pc, [])"
| "node_run n i (ev # evs) pc =
     (case node_move n i ev pc of
        (pc1, out) \<Rightarrow> case node_run n i evs (head_of n i pc1) of (pc2, sent) \<Rightarrow> (pc2, out @ sent))"

lemma node_run_append:
  "node_run n i (xs @ ys) pc =
     (case node_run n i xs pc of (pc1, out) \<Rightarrow> case node_run n i ys pc1 of (pc2, sent) \<Rightarrow> (pc2, out @ sent))"
  by (induction xs arbitrary: pc) (simp_all split: prod.splits)

lemma node_run_stays:
  "node_run n i evs Finished = (Finished, [])" "node_run n i evs (Failed v p) = (Failed v p, [])"
  by (induction evs) (simp_all add: node_move_def head_of_def)

text \<open>A loop of the function is a stretch of the run; where it fails the run has not finished.\<close>

definition stops :: "nat \<Rightarrow> nat \<Rightarrow> pool_pc \<times> (nat \<times> pool_msg) list \<Rightarrow> bool" where
  "stops n r res \<longleftrightarrow> fst res \<noteq> Finished \<and> completed n (fst res) = r \<and> snd res = []"

definition after :: "(nat \<times> pool_msg) list \<Rightarrow> pool_pc \<times> (nat \<times> pool_msg) list \<Rightarrow> pool_pc \<times> (nat \<times> pool_msg) list" where
  "after out res = (fst res, out @ snd res)"

lemmas run_node_simps = node_move_def head_of_def after_def stops_def node_run_stays expired_def round_receive_def

lemma run_own_verify:
  assumes "wait_for_slot_payload r r evs = (rc, rest)"
  shows "if rc = 0
    then node_run n i evs (OwnVerify r) =
      after (map (\<lambda>j. send_round_turn i j r) (others n i)) (node_run n i rest (WaitAcks r (replicate MAX_NODES False) (int n - 1)))
    else stops n r (node_run n i evs (OwnVerify r))"
  using assms
  by (induction evs) (auto simp: run_node_simps split: pool_ev.splits if_splits prod.splits)

lemma run_verify:
  assumes "wait_for_slot_payload r r evs = (rc, rest)"
  shows "if rc = 0 then node_run n i evs (Verify r) = after [send_round_ack i r r] (node_run n i rest (WaitCommit r))
    else stops n r (node_run n i evs (Verify r))"
  using assms
  by (induction evs) (auto simp: run_node_simps split: pool_ev.splits if_splits prod.splits)

lemma run_wait_turn:
  assumes "wait_for_round_msg MSG_ROUND_TURN r i r evs = (rc, rest)"
  shows "if rc = 0 then node_run n i evs (WaitTurn r) = node_run n i rest (Verify r)
    else stops n r (node_run n i evs (WaitTurn r))"
  using assms
  by (induction evs) (auto simp: run_node_simps split: pool_ev.splits if_splits prod.splits)

lemma run_wait_commit:
  assumes "wait_for_round_msg MSG_ROUND_COMMIT r i r evs = (rc, rest)"
  shows "if rc = 0 then node_run n i evs (WaitCommit r) = node_run n i rest (head_of n i (Enter (Suc r)))
    else stops n r (node_run n i evs (WaitCommit r))"
  using assms
  by (induction evs) (auto simp: run_node_simps split: pool_ev.splits if_splits prod.splits)

lemma run_wait_acks:
  assumes "round_acks_loop n i r (got, pending) evs = (rc, rest)"
  shows "if rc = 0
    then node_run n i evs (WaitAcks r got pending) = after (broadcast_round_commit n i r) (node_run n i rest (head_of n i (Enter (Suc r))))
    else stops n r (node_run n i evs (WaitAcks r got pending))"
  using assms
proof (induction evs arbitrary: got pending)
  case Nil
  then show ?case by (auto simp: stops_def)
next
  case (Cons ev evs)
  show ?case
  proof (cases ev)
    case (Rx rx)
    obtain g p where "round_ack_receive n i r rx (got, pending) = (g, p)" by fastforce
    with Cons Rx show ?thesis by (auto simp: node_move_def head_of_def round_receive_def)
  qed (use Cons in \<open>auto simp: run_node_simps split: if_splits prod.splits\<close>)
qed

text \<open>A run does not go back.\<close>

definition in_rounds :: "nat \<Rightarrow> pool_pc \<Rightarrow> bool" where
  "in_rounds n pc \<longleftrightarrow>
     (case pc of Enter r \<Rightarrow> r \<le> n | OwnVerify r \<Rightarrow> r < n | WaitTurn r \<Rightarrow> r < n | Verify r \<Rightarrow> r < n
      | WaitAcks r got pending \<Rightarrow> r < n | WaitCommit r \<Rightarrow> r < n | _ \<Rightarrow> True)"

lemma head_in_rounds:
  "in_rounds n pc \<Longrightarrow> in_rounds n (head_of n i pc) \<and> completed n (head_of n i pc) = completed n pc"
  by (cases pc) (auto simp: in_rounds_def head_of_def)

lemma move_in_rounds:
  "in_rounds n pc \<Longrightarrow> in_rounds n (fst (node_move n i ev pc)) \<and> completed n pc \<le> completed n (fst (node_move n i ev pc))"
  by (cases pc; cases ev) (auto simp: in_rounds_def node_move_def expired_def round_receive_def split: prod.split)

lemma run_completed_mono: "in_rounds n pc \<Longrightarrow> completed n pc \<le> completed n (fst (node_run n i evs pc))"
proof (induction evs arbitrary: pc)
  case (Cons ev evs)
  let ?pc = "fst (node_move n i ev pc)"
  have "completed n pc \<le> completed n (head_of n i ?pc)" "in_rounds n (head_of n i ?pc)"
    using move_in_rounds [OF Cons.prems, of i ev] head_in_rounds [of n ?pc i] by auto
  with Cons.IH [of "head_of n i ?pc"] show ?case by (simp add: case_prod_beta)
qed simp

text \<open>The loop over the rounds before \<open>m\<close> against the run: it returns 0 exactly when the run completes them,
  and the loop over all rounds sends what the run sends.\<close>

definition agrees :: "nat \<Rightarrow> nat \<Rightarrow> pool_pc \<times> (nat \<times> pool_msg) list \<Rightarrow> int \<times> (nat \<times> pool_msg) list \<times> bytes \<Rightarrow> bool" where
  "agrees n m run res \<longleftrightarrow> (fst res = 0 \<longleftrightarrow> m \<le> completed n (fst run)) \<and>
     (m = n \<longrightarrow> snd run = fst (snd res) \<and> (fst run = Finished \<longleftrightarrow> fst res = 0))"

lemma agrees_after:
  "agrees n m (after out run) (rc, out @ sent, own) \<longleftrightarrow> agrees n m run (rc, sent, own)"
  "stops n r run \<Longrightarrow> r < m \<Longrightarrow> agrees n m run (- 1, [], own)"
  "stops n r run \<Longrightarrow> r < m \<Longrightarrow> agrees n m (after out run) (- 1, out, own)"
  by (auto simp: agrees_def after_def stops_def)

lemma head_of_Enter: "r < n \<Longrightarrow> head_of n i (Enter r) = (if i = r then OwnVerify r else WaitTurn r)"
  by (simp add: head_of_def)

lemma own_round_run:
  assumes ih: "\<And>own evs. agrees n m (node_run n r evs (head_of n r (Enter (Suc r)))) (rounds_loop n r rs own evs)"
    and r: "r < m" "m \<le> n"
  shows "agrees n m (node_run n r evs (head_of n r (Enter r))) (rounds_loop n r (r # rs) own evs)"
proof -
  let ?own = "write_slot_payload own r r" and ?out = "map (\<lambda>j. send_round_turn r j r) (others n r)"
  obtain rc1 evs1 where w: "wait_for_slot_payload r r evs = (rc1, evs1)" by fastforce
  obtain rc2 evs2 where a: "wait_for_all_round_acks n r r evs1 = (rc2, evs2)" by fastforce
  obtain rc3 sent own3 where l: "rounds_loop n r rs ?own evs2 = (rc3, sent, own3)" by (metis prod_cases3)
  have run: "head_of n r (Enter r) = OwnVerify r" using r by (simp add: head_of_Enter)
  note v = run_own_verify [OF w, of n r]
  note g = run_wait_acks [OF a [unfolded wait_for_all_round_acks_def]]
  have "agrees n m (node_run n r evs2 (head_of n r (Enter (Suc r)))) (rc3, sent, own3)" using ih [of evs2 ?own] l by simp
  then show ?thesis using w a l v g r(1) by (cases "rc1 = 0"; cases "rc2 = 0") (simp_all add: run agrees_after)
qed

lemma other_round_run:
  assumes ih: "\<And>own evs. agrees n m (node_run n i evs (head_of n i (Enter (Suc r)))) (rounds_loop n i rs own evs)"
    and r: "r < m" "m \<le> n" and i: "i \<noteq> r"
  shows "agrees n m (node_run n i evs (head_of n i (Enter r))) (rounds_loop n i (r # rs) own evs)"
proof -
  obtain rc1 evs1 where t: "wait_for_round_msg MSG_ROUND_TURN r i r evs = (rc1, evs1)" by fastforce
  obtain rc2 evs2 where w: "wait_for_slot_payload r r evs1 = (rc2, evs2)" by fastforce
  obtain rc3 evs3 where c: "wait_for_round_msg MSG_ROUND_COMMIT r i r evs2 = (rc3, evs3)" by fastforce
  obtain rc4 sent own4 where l: "rounds_loop n i rs own evs3 = (rc4, sent, own4)" by (metis prod_cases3)
  have run: "head_of n i (Enter r) = WaitTurn r" using r i by (simp add: head_of_Enter)
  note v = run_wait_turn [OF t, of n] run_verify [OF w, of n i] run_wait_commit [OF c, of n]
  have "agrees n m (node_run n i evs3 (head_of n i (Enter (Suc r)))) (rc4, sent, own4)" using ih [of evs3 own] l by simp
  then show ?thesis
    using t w c l v i r(1) agrees_after(1) [of n m "[send_round_ack i r r]"] agrees_after(3) [of n r _ m "[send_round_ack i r r]"]
    by (cases "rc1 = 0"; cases "rc2 = 0"; cases "rc3 = 0") (simp_all add: run agrees_after(2))
qed

lemma rounds_loop_run:
  assumes "r \<le> m" and "m \<le> n"
  shows "agrees n m (node_run n i evs (head_of n i (Enter r))) (rounds_loop n i [r..<m] own evs)"
  using assms
proof (induction "m - r" arbitrary: r own evs)
  case 0
  then have r: "r = m" by simp
  have "m \<le> completed n (fst (node_run n i evs (head_of n i (Enter m))))"
    using run_completed_mono [of n "head_of n i (Enter m)" i evs] head_in_rounds [of n "Enter m" i] 0(3)
    by (simp add: in_rounds_def)
  moreover have "m = n \<Longrightarrow> node_run n i evs (head_of n i (Enter m)) = (Finished, [])"
    by (simp add: head_of_def node_run_stays)
  ultimately show ?case by (auto simp: agrees_def r)
next
  case (Suc k)
  then have r: "r < m" by simp
  have ih: "agrees n m (node_run n i evs (head_of n i (Enter (Suc r)))) (rounds_loop n i [Suc r..<m] own evs)" for own evs
    using Suc.hyps(2) r Suc.prems(2) by (intro Suc.hyps(1)) simp_all
  from own_round_run [of n m r "[Suc r..<m]"] other_round_run [of n m i r "[Suc r..<m]"] ih r Suc.prems(2) show ?case
    by (cases "i = r") (simp_all add: upt_conv_Cons)
qed

section \<open>All nodes\<close>

text \<open>The system of all nodes with a log of what each node observed and what it sent. An observation comes from
  the slots or the network of the system.\<close>

definition observes :: "pool_sys \<Rightarrow> nat \<Rightarrow> pool_ev \<Rightarrow> (nat \<times> pool_msg) list \<Rightarrow> bool" where
  "observes s i ev net \<longleftrightarrow>
     (case ev of
        Rx rx \<Rightarrow> listening (ps_pcs s ! i) \<and> (\<exists>xs ys. ps_net s = xs @ (i, rx) # ys \<and> net = xs @ ys)
      | Look x \<Rightarrow> net = ps_net s \<and> (\<exists>r. (ps_pcs s ! i = OwnVerify r \<or> ps_pcs s ! i = Verify r) \<and> x = ps_slots s ! r)
      | _ \<Rightarrow> net = ps_net s)"

inductive rounds_log :: "bytes list \<Rightarrow> pool_sys \<Rightarrow> pool_ev list list \<Rightarrow> (nat \<times> pool_msg) list list \<Rightarrow> bool" for slots where
  log_start: "rounds_log slots (rounds_start slots) (replicate (length slots) []) (replicate (length slots) [])"
| log_enter: "rounds_log slots s logs sent \<Longrightarrow> i < length slots \<Longrightarrow> ps_pcs s ! i = Enter r \<Longrightarrow>
    round_enter (length slots) i r (ps_slots s) = (pc, slots') \<Longrightarrow>
    rounds_log slots (s\<lparr>ps_pcs := (ps_pcs s)[i := pc], ps_slots := slots'\<rparr>) logs sent"
| log_observe: "rounds_log slots s logs sent \<Longrightarrow> i < length slots \<Longrightarrow> (\<forall>r. ps_pcs s ! i \<noteq> Enter r) \<Longrightarrow> observes s i ev net \<Longrightarrow>
    node_move (length slots) i ev (ps_pcs s ! i) = (pc, out) \<Longrightarrow>
    rounds_log slots (s\<lparr>ps_pcs := (ps_pcs s)[i := pc], ps_net := net @ out\<rparr>) (logs[i := logs ! i @ [ev]]) (sent[i := sent ! i @ out])"
| log_lose: "rounds_log slots s logs sent \<Longrightarrow> ps_net s = xs @ x # ys \<Longrightarrow> rounds_log slots (s\<lparr>ps_net := xs @ ys\<rparr>) logs sent"
| log_duplicate: "rounds_log slots s logs sent \<Longrightarrow> x \<in> set (ps_net s) \<Longrightarrow>
    rounds_log slots (s\<lparr>ps_net := ps_net s @ [x]\<rparr>) logs sent"

lemma move_reach:
  assumes "rounds_reach slots s" and "i < length slots" and "observes s i ev net"
    and "node_move (length slots) i ev (ps_pcs s ! i) = (pc, out)"
  shows "rounds_reach slots (s\<lparr>ps_pcs := (ps_pcs s)[i := pc], ps_net := net @ out\<rparr>)"
proof -
  let ?n = "length slots" and ?t = "s\<lparr>ps_pcs := (ps_pcs s)[i := pc], ps_net := net @ out\<rparr>"
  have "?t = s \<or> round_step ?n s ?t \<or> net_fault ?n s ?t"
  proof (cases ev)
    case (Rx rx)
    with assms(3) obtain xs ys where n: "listening (ps_pcs s ! i)" "ps_net s = xs @ (i, rx) # ys" "net = xs @ ys"
      by (auto simp: observes_def)
    then have "pc = round_receive ?n i rx (ps_pcs s ! i)" "out = []"
      using assms(4) Rx by (cases "ps_pcs s ! i"; simp add: node_move_def)+
    with round_step.receive [OF assms(2) n(1,2)] n(3) show ?thesis by simp
  next
    case (Look x)
    with assms(3,4) show ?thesis
      using round_step.own_verify [OF assms(2)] round_step.verify [OF assms(2)]
      by (cases "ps_pcs s ! i") (auto simp: observes_def node_move_def split: if_splits)
  next
    case Idle
    have "pc = ps_pcs s ! i \<and> out = [] \<or>
        (\<exists>r got. ps_pcs s ! i = WaitAcks r got 0 \<and> pc = Enter (Suc r) \<and> out = broadcast_round_commit ?n i r)"
      using assms(4) Idle by (cases "ps_pcs s ! i") (auto simp: node_move_def split: if_splits)
    with round_step.acked [OF assms(2)] assms(3) Idle show ?thesis by (auto simp: observes_def)
  next
    case Expire
    have "pc = ps_pcs s ! i \<and> out = [] \<or> ps_pcs s ! i \<noteq> Finished \<and> pc = expired ?n (ps_pcs s ! i) \<and> out = [] \<or>
        (\<exists>r got. ps_pcs s ! i = WaitAcks r got 0 \<and> pc = Enter (Suc r) \<and> out = broadcast_round_commit ?n i r)"
      using assms(4) Expire by (cases "ps_pcs s ! i") (auto simp: node_move_def split: if_splits)
    with round_step.acked [OF assms(2)] net_fault.time_out [OF assms(2)] assms(3) Expire show ?thesis
      by (auto simp: observes_def expired_def)
  qed
  with assms(1) show ?thesis by (metis rounds_reach.step rounds_reach.fault)
qed

lemma log_reach: "rounds_log slots s logs sent \<Longrightarrow> rounds_reach slots s"
proof (induction rule: rounds_log.induct)
  case log_start
  show ?case by (rule rounds_reach.start)
next
  case (log_enter s logs sent i r pc slots')
  from rounds_reach.step [OF log_enter.IH round_step.enter [OF log_enter.hyps(2,3,4)]] show ?case .
next
  case (log_observe s logs sent i ev net pc out)
  from move_reach [OF log_observe.IH log_observe.hyps(2,4,5)] show ?case .
next
  case (log_lose s logs sent xs x ys)
  from rounds_reach.fault [OF log_lose.IH net_fault.lose [OF log_lose.hyps(2)]] show ?case .
next
  case (log_duplicate s logs sent x)
  from rounds_reach.fault [OF log_duplicate.IH net_fault.duplicate [OF log_duplicate.hyps(2)]] show ?case .
qed

text \<open>What a node observed gives where it is and what it sent.\<close>

definition log_ok :: "nat \<Rightarrow> pool_sys \<Rightarrow> pool_ev list list \<Rightarrow> (nat \<times> pool_msg) list list \<Rightarrow> bool" where
  "log_ok n s logs sent \<longleftrightarrow>
     length (ps_pcs s) = n \<and> length logs = n \<and> length sent = n \<and>
     (\<forall>i < n. node_run n i (logs ! i) (head_of n i (Enter 0)) = (head_of n i (ps_pcs s ! i), sent ! i))"

lemma log_run: "rounds_log slots s logs sent \<Longrightarrow> log_ok (length slots) s logs sent"
proof (induction rule: rounds_log.induct)
  case log_start
  show ?case by (simp add: log_ok_def rounds_start_def)
next
  case (log_enter s logs sent i r pc slots')
  then have "head_of (length slots) i pc = head_of (length slots) i (Enter r)"
    by (auto simp: round_enter_def head_of_def split: if_splits)
  with log_enter show ?case by (auto simp: log_ok_def nth_list_update)
next
  case (log_observe s logs sent i ev net pc out)
  then have "head_of (length slots) i (ps_pcs s ! i) = ps_pcs s ! i" by (simp add: head_of_def split: pool_pc.splits)
  with log_observe show ?case by (auto simp: log_ok_def nth_list_update node_run_append split: prod.splits)
qed (simp_all add: log_ok_def)

text \<open>Every schedule of the system can be logged.\<close>

lemma exec1_logged:
  assumes "rounds_log slots s logs sent" and "exec1 (length slots) sc s = Some t"
  shows "\<exists>logs' sent'. rounds_log slots t logs' sent'"
proof (cases sc)
  case (Move i)
  then have i: "i < length slots" using assms(2) by (auto simp: exec1_def split: if_splits)
  show ?thesis
  proof (cases "ps_pcs s ! i")
    case (Enter r)
    then show ?thesis using log_enter [OF assms(1) i Enter] assms(2) Move by (auto simp: exec1_def split: if_splits prod.splits)
  next
    case (OwnVerify r)
    then have "observes s i (Look (ps_slots s ! r)) (ps_net s)" by (simp add: observes_def)
    from log_observe [OF assms(1) i _ this] OwnVerify assms(2) Move show ?thesis
      by (auto simp: exec1_def node_move_def split: if_splits)
  next
    case (Verify r)
    then have "observes s i (Look (ps_slots s ! r)) (ps_net s)" by (simp add: observes_def)
    from log_observe [OF assms(1) i _ this] Verify assms(2) Move show ?thesis
      by (auto simp: exec1_def node_move_def split: if_splits)
  next
    case (WaitAcks r got pending)
    have "observes s i Idle (ps_net s)" by (simp add: observes_def)
    from log_observe [OF assms(1) i _ this] WaitAcks assms(2) Move show ?thesis
      by (auto simp: exec1_def node_move_def split: if_splits)
  qed (use assms(2) Move in \<open>simp_all add: exec1_def split: if_splits\<close>)
next
  case (Take k)
  obtain i rx where x: "ps_net s ! k = (i, rx)" by fastforce
  from assms(2) Take x have k: "k < length (ps_net s)" "i < length slots" "listening (ps_pcs s ! i)"
    and t: "t = s\<lparr>ps_pcs := (ps_pcs s)[i := round_receive (length slots) i rx (ps_pcs s ! i)],
      ps_net := take k (ps_net s) @ drop (Suc k) (ps_net s)\<rparr>"
    by (auto simp: exec1_def split: if_splits)
  have o: "observes s i (Rx rx) (take k (ps_net s) @ drop (Suc k) (ps_net s))"
    using k id_take_nth_drop [OF k(1)] x by (auto simp: observes_def)
  have "\<forall>r. ps_pcs s ! i \<noteq> Enter r" "node_move (length slots) i (Rx rx) (ps_pcs s ! i) = (round_receive (length slots) i rx (ps_pcs s ! i), [])"
    using k(3) by (cases "ps_pcs s ! i"; simp add: node_move_def)+
  from log_observe [OF assms(1) k(2) this(1) o this(2)] show ?thesis by (auto simp: t)
qed

lemma exec_logged:
  "rounds_log slots s logs sent \<Longrightarrow> exec (length slots) scs s = Some t \<Longrightarrow> \<exists>logs' sent'. rounds_log slots t logs' sent'"
  by (induction scs arbitrary: s logs sent) (auto simp: bind_eq_Some_conv dest: exec1_logged)

text \<open>
  C8: the nodes run the round machine, whatever is lost, repeated or runs out of time. The function a node
  executes, fed with what the node observed in a run of the system, sends exactly the datagrams the node
  sent in that run, in order, and returns 0 exactly when its machine is through all rounds. And in every
  round: when the loop over the rounds up to \<open>r\<close> returns 0 on some node, every node has checked slot \<open>r\<close>
  and the slot holds the record of its owner.
\<close>

theorem do_rounds_agree:
  assumes "rounds_log slots s logs sent" and "length slots \<le> MAX_NODES" and "\<forall>x \<in> set slots. length x = SLOT_TOUCH_SIZE"
    and "j < length slots"
  shows "fst (snd (do_rounds (length slots) j (slots ! j) (logs ! j))) = sent ! j \<and>
    (fst (do_rounds (length slots) j (slots ! j) (logs ! j)) = 0 \<longleftrightarrow>
      ps_pcs s ! j = Finished \<or> ps_pcs s ! j = Enter (length slots)) \<and>
    (\<forall>r < length slots. fst (rounds_loop (length slots) j [0..<Suc r] (slots ! j) (logs ! j)) = 0 \<longrightarrow>
      (\<forall>i < length slots. r < verified (length slots) (ps_pcs s ! i)) \<and> slot_matches_payload (ps_slots s ! r) r r)"
proof -
  let ?n = "length slots" and ?pc = "ps_pcs s ! j"
  have inv: "rounds_inv ?n s" by (rule reach_inv [OF log_reach [OF assms(1)] assms(2,3)])
  have h: "node_run ?n j (logs ! j) (head_of ?n j (Enter 0)) = (head_of ?n j ?pc, sent ! j)"
    using log_run [OF assms(1)] assms(4) by (simp add: log_ok_def)
  have d: "fst (snd (do_rounds ?n j (slots ! j) (logs ! j))) = sent ! j"
    "fst (do_rounds ?n j (slots ! j) (logs ! j)) = 0 \<longleftrightarrow> head_of ?n j ?pc = Finished"
    using rounds_loop_run [of 0 ?n ?n j "logs ! j" "slots ! j"] h by (simp_all add: do_rounds_def agrees_def)
  have ok: "pc_ok ?n j ?pc" using rounds_invD(1) [OF inv assms(4)] .
  have c: "head_of ?n j ?pc = Finished \<longleftrightarrow> ?pc = Finished \<or> ?pc = Enter ?n"
    using ok assms(4) by (cases ?pc) (auto simp: head_of_def)
  have "(\<forall>i < ?n. r < verified ?n (ps_pcs s ! i)) \<and> slot_matches_payload (ps_slots s ! r) r r"
    if r: "r < ?n" and z: "fst (rounds_loop ?n j [0..<Suc r] (slots ! j) (logs ! j)) = 0" for r
  proof -
    have "Suc r \<le> completed ?n (head_of ?n j ?pc)"
      using rounds_loop_run [of 0 "Suc r" ?n j "logs ! j" "slots ! j"] h r z unfolding agrees_def by simp
    moreover have "completed ?n (head_of ?n j ?pc) = completed ?n ?pc"
      using ok assms(4) head_in_rounds [of ?n ?pc j] by (cases ?pc) (auto simp: in_rounds_def)
    ultimately have "r < completed ?n ?pc" by simp
    with rounds_invD(3) [OF inv assms(4)] have v: "\<forall>i < ?n. r < verified ?n (ps_pcs s ! i)" by (auto simp: vcount_def)
    with rounds_invD(2) [OF inv assms(4)] r assms(4) show ?thesis by blast
  qed
  with c d show ?thesis by blast
qed

end
