(* ===== verification/Pool_Main.thy ===== *)
theory Pool_Main
  imports Obmm_Os Pool_Node
begin

text \<open>
  \<^verbatim>\<open>main\<close> of the memory pool demo: it exports and maps a region, exchanges metadata, imports and
  maps the regions of all peers, waits for everybody and runs the rounds; whatever fails, it cleans up. The
  theorem says what is still held when it returns.
\<close>

section \<open>Slots\<close>

record pool_slot =
  sl_owner_idx :: nat
  sl_is_local :: bool
  sl_map_osync :: bool
  sl_mem_id :: u64
  sl_local_pa :: u64
  sl_export_cna :: u32
  sl_region :: mapped_region

definition region_zero :: mapped_region where
  "region_zero = \<lparr>mr_fd = 0, mr_addr = 0, mr_len = 0, mr_mem_id = 0\<rparr>"

definition slot_zero :: pool_slot where
  "slot_zero = \<lparr>sl_owner_idx = 0, sl_is_local = False, sl_map_osync = False, sl_mem_id = 0, sl_local_pa = 0,
     sl_export_cna = 0, sl_region = region_zero\<rparr>"

text \<open>The loop over the peers, each with the place of its region.\<close>

fun import_loop ::
  "obmm_os \<Rightarrow> u32 \<Rightarrow> obmm_demo_meta list \<Rightarrow> (nat \<times> u64 \<times> bool) list \<Rightarrow> pool_slot list \<Rightarrow> os_state \<Rightarrow> int \<times> pool_slot list \<times> os_state" where
  "import_loop os local_cna metas [] slots s = (0, slots, s)"
| "import_loop os local_cna metas ((i, pa, osync) # peers) slots s =
     (let slot = (slots ! i)\<lparr>sl_owner_idx := i, sl_is_local := False, sl_local_pa := pa, sl_map_osync := osync,
                   sl_export_cna := om_export_cna (metas ! i)\<rparr>
      in case do_import_region os (metas ! i) local_cna pa s of
           (None, s1) \<Rightarrow> (- 1, slots[i := slot], s1)
         | (Some mem, s1) \<Rightarrow>
             (let (rc, region, s2) = map_region_device os mem SLOT_TOUCH_SIZE osync s1;
                  slots2 = slots[i := slot\<lparr>sl_mem_id := mem, sl_region := region\<rparr>]
              in if rc \<noteq> 0 then (- 1, slots2, s2) else import_loop os local_cna metas peers slots2 s2))"

definition import_all_peers ::
  "obmm_os \<Rightarrow> string option \<Rightarrow> u32 \<Rightarrow> nat \<Rightarrow> nat \<Rightarrow> obmm_demo_meta list \<Rightarrow> pool_slot list \<Rightarrow> os_state \<Rightarrow>
   int \<times> pool_slot list \<times> os_state" where
  "import_all_peers os mem_windows local_cna node_count local_idx metas slots s =
     (case allocate_import_pas (int node_count - 1) EXPORT_REGION_SIZE mem_windows of
        None \<Rightarrow> (- 1, slots, s)
      | Some pas \<Rightarrow> import_loop os local_cna metas (zip (others node_count local_idx) pas) slots s)"

section \<open>Clean-up\<close>

definition unmap_slot :: "nat \<Rightarrow> pool_slot list \<times> os_state \<Rightarrow> pool_slot list \<times> os_state" where
  "unmap_slot i t =
     (let slots = fst t; s = snd t; region = sl_region (slots ! i)
      in if 0 \<le> mr_fd region \<or> mr_addr region \<noteq> 0
         then let (region1, s1) = unmap_region_device region s in (slots[i := (slots ! i)\<lparr>sl_region := region1\<rparr>], s1)
         else (slots, s))"

definition free_slot :: "obmm_os \<Rightarrow> nat \<Rightarrow> pool_slot list \<Rightarrow> nat \<Rightarrow> os_state \<Rightarrow> os_state" where
  "free_slot os local_idx slots i s =
     (if sl_mem_id (slots ! i) = 0 then s
      else if i = local_idx then snd (do_unexport_region os (sl_mem_id (slots ! i)) s)
      else snd (do_unimport_region os (sl_mem_id (slots ! i)) s))"

definition cleanup_slots :: "obmm_os \<Rightarrow> nat \<Rightarrow> nat \<Rightarrow> pool_slot list \<Rightarrow> os_state \<Rightarrow> os_state" where
  "cleanup_slots os node_count local_idx slots s =
     (let (slots1, s1) = fold unmap_slot [0..<node_count] (slots, s)
      in fold (free_slot os local_idx slots1) [0..<node_count] s1)"

section \<open>The program\<close>

text \<open>What the program finds besides the operating system: whether interface and addresses could be set up,
  the files it reads, what the two exchanges drain from the socket, what the rounds observe, and the contents
  of its own region.\<close>

record pool_input =
  pi_iface :: bool
  pi_cna_file :: "string option"
  pi_mem_windows :: "string option"
  pi_hello :: "pool_msg list list"
  pi_ready :: "pool_msg list list"
  pi_rounds :: "pool_ev list"
  pi_own :: bytes

text \<open>The part between opening the control device and the label \<^verbatim>\<open>out\<close>.\<close>

definition pool_body :: "obmm_os \<Rightarrow> pool_input \<Rightarrow> nat \<Rightarrow> nat \<Rightarrow> pool_slot list \<Rightarrow> os_state \<Rightarrow> int \<times> pool_slot list \<times> os_state" where
  "pool_body os inp node_count local_idx slots s =
     (case parse_hex_file_u64 (pi_cna_file inp) of
        None \<Rightarrow> (1, slots, s)
      | Some cna \<Rightarrow>
          (let local_cna = ucast cna;
               (rc, local_meta, s1) = do_export_region os (meta_zero\<lparr>om_export_cna := local_cna\<rparr>) s
           in if rc \<noteq> 0 then (1, slots, s1)
              else let slot = (slots ! local_idx)\<lparr>sl_owner_idx := local_idx, sl_is_local := True,
                                sl_mem_id := om_export_mem_id local_meta, sl_export_cna := local_cna\<rparr>;
                       (rc, region, s2) = map_region_device os (om_export_mem_id local_meta) SLOT_TOUCH_SIZE False s1;
                       slots2 = slots[local_idx := slot\<lparr>sl_region := region\<rparr>]
                   in if rc \<noteq> 0 then (1, slots2, s2)
                      else let (rc, sent, metas) = broadcast_hello_until_all node_count local_idx local_meta (pi_hello inp)
                           in if rc \<noteq> 0 then (1, slots2, s2)
                              else let (rc, slots3, s3) =
                                         import_all_peers os (pi_mem_windows inp) local_cna node_count local_idx metas slots2 s2
                                   in if rc \<noteq> 0 then (1, slots3, s3)
                                      else if fst (wait_until_everyone_ready node_count local_idx (pi_ready inp)) \<noteq> 0 then (1, slots3, s3)
                                      else if fst (do_rounds node_count local_idx (pi_own inp) (pi_rounds inp)) \<noteq> 0 then (1, slots3, s3)
                                      else (0, slots3, s3)))"

definition pool_main :: "obmm_os \<Rightarrow> host_env \<Rightarrow> pool_input \<Rightarrow> os_state \<Rightarrow> int \<times> os_state" where
  "pool_main os env inp s =
     (case resolve_pool_nodes env of
        None \<Rightarrow> (1, s)
      | Some (local_ip, ips, local_idx) \<Rightarrow>
          if \<not> pi_iface inp then (1, s)
          else let sockfd = os_socket os s; s1 = got_fd sockfd None s
               in if sockfd < 0 then (1, s1)
                  else let obmm_fd = os_open os s1 ''/dev/obmm''; s2 = got_fd obmm_fd None s1;
                           slots = replicate MAX_NODES slot_zero;
                           (rc, slots3, s3) =
                             (if obmm_fd < 0 then (1, slots, s2) else pool_body os inp (length ips) local_idx slots s2);
                           s4 = cleanup_slots os (length ips) local_idx slots3 s3;
                           s5 = (if 0 \<le> obmm_fd then os_close obmm_fd s4 else s4)
                       in (rc, os_close sockfd s5))"

section \<open>What is held\<close>

text \<open>Every mapping and every open region is recorded in a slot; what else is open is \<open>b\<close>, with
  descriptor 0 in it.\<close>

definition maps_held :: "nat \<Rightarrow> (int \<rightharpoonup> u64 option) \<Rightarrow> pool_slot list \<Rightarrow> os_state \<Rightarrow> bool" where
  "maps_held n b slots s \<longleftrightarrow>
     n \<le> length slots \<and> b 0 = Some None \<and> (\<forall>fd mem. b fd \<noteq> Some (Some mem)) \<and>
     (\<forall>a mem. os_maps s a = Some mem \<longrightarrow> a \<noteq> 0 \<and> (\<exists>i < n. mr_addr (sl_region (slots ! i)) = a)) \<and>
     (\<forall>fd. os_fds s fd = b fd \<or>
        b fd = None \<and> (\<exists>mem. os_fds s fd = Some (Some mem)) \<and> 0 \<le> fd \<and> (\<exists>i < n. mr_fd (sl_region (slots ! i)) = fd)) \<and>
     (\<forall>i < n. 0 < mr_fd (sl_region (slots ! i)) \<longrightarrow> b (mr_fd (sl_region (slots ! i))) = None)"

text \<open>Every region exported or imported is recorded in a slot.\<close>

definition mems_held :: "nat \<Rightarrow> nat \<Rightarrow> pool_slot list \<Rightarrow> os_state \<Rightarrow> bool" where
  "mems_held n li slots s \<longleftrightarrow>
     0 \<notin> os_exports s \<and> 0 \<notin> os_imports s \<and> os_exports s \<subseteq> {sl_mem_id (slots ! li)} \<and>
     os_imports s \<subseteq> (\<lambda>i. sl_mem_id (slots ! i)) ` {i. i < n \<and> i \<noteq> li}"

text \<open>Clean-up takes away what the slots record.\<close>

lemma unmap_slot_effect:
  assumes "unmap_slot i (slots, s) = (slots', s')" and "i < length slots"
  shows "os_maps s' = (if mr_addr (sl_region (slots ! i)) = 0 then os_maps s else (os_maps s)(mr_addr (sl_region (slots ! i)) := None))"
    "os_fds s' = (if mr_fd (sl_region (slots ! i)) < 0 then os_fds s else (os_fds s)(mr_fd (sl_region (slots ! i)) := None))"
    "os_exports s' = os_exports s" "os_imports s' = os_imports s" "length slots' = length slots"
    "map sl_mem_id slots' = map sl_mem_id slots" "\<And>j. j \<noteq> i \<Longrightarrow> slots' ! j = slots ! j"
  using assms
  by (auto simp: unmap_slot_def unmap_region_device_def os_munmap_def os_close_def Let_def map_update split: if_splits)
     (simp_all add: list_update_same_conv map_update list_update_id [symmetric])

definition slot_addrs :: "nat \<Rightarrow> pool_slot list \<Rightarrow> u64 set" where
  "slot_addrs n slots = (\<lambda>i. mr_addr (sl_region (slots ! i))) ` {..<n} - {0}"

definition slot_fds :: "nat \<Rightarrow> pool_slot list \<Rightarrow> int set" where
  "slot_fds n slots = (\<lambda>i. mr_fd (sl_region (slots ! i))) ` {..<n} \<inter> {0..}"

lemma slot_sets_Suc:
  "- slot_addrs (Suc n) slots = - slot_addrs n slots \<inter> - (if mr_addr (sl_region (slots ! n)) = 0 then {} else {mr_addr (sl_region (slots ! n))})"
  "- slot_fds (Suc n) slots = - slot_fds n slots \<inter> - (if mr_fd (sl_region (slots ! n)) < 0 then {} else {mr_fd (sl_region (slots ! n))})"
  by (auto simp: slot_addrs_def slot_fds_def lessThan_Suc)

lemma unmap_slots_effect:
  assumes "n \<le> length slots" and "fold unmap_slot [0..<n] (slots, s) = (slots', s')"
  shows "os_maps s' = os_maps s |` (- slot_addrs n slots) \<and> os_fds s' = os_fds s |` (- slot_fds n slots) \<and>
    os_exports s' = os_exports s \<and> os_imports s' = os_imports s \<and> length slots' = length slots \<and>
    map sl_mem_id slots' = map sl_mem_id slots \<and> (\<forall>j \<ge> n. slots' ! j = slots ! j)"
  using assms
proof (induction n arbitrary: slots' s')
  case 0
  then show ?case by (auto simp: slot_addrs_def slot_fds_def restrict_map_def)
next
  case (Suc n)
  obtain slots1 s1 where f: "fold unmap_slot [0..<n] (slots, s) = (slots1, s1)" by fastforce
  with Suc.prems have u: "unmap_slot n (slots1, s1) = (slots', s')" by simp
  have ih: "os_maps s1 = os_maps s |` (- slot_addrs n slots)" "os_fds s1 = os_fds s |` (- slot_fds n slots)"
    "os_exports s1 = os_exports s" "os_imports s1 = os_imports s" "length slots1 = length slots"
    "map sl_mem_id slots1 = map sl_mem_id slots" "\<forall>j \<ge> n. slots1 ! j = slots ! j"
    using Suc.IH [OF _ f] Suc.prems(1) by simp_all
  have l: "n < length slots1" "slots1 ! n = slots ! n" using Suc.prems(1) ih(5,7) by simp_all
  note e = unmap_slot_effect [OF u l(1), unfolded l(2)]
  have "os_maps s' = os_maps s |` (- slot_addrs (Suc n) slots)"
    unfolding e(1) ih(1) slot_sets_Suc restrict_restrict [symmetric]
    by (simp add: restrict_map_def fun_eq_iff)
  moreover have "os_fds s' = os_fds s |` (- slot_fds (Suc n) slots)"
    unfolding e(2) ih(2) slot_sets_Suc restrict_restrict [symmetric]
    by (simp add: restrict_map_def fun_eq_iff)
  moreover have "slots' ! j = slots ! j" if "Suc n \<le> j" for j using that e(7) [of j] ih(7) by simp
  ultimately show ?case using e(3-6) ih(3-6) by simp
qed

lemma free_slot_effect:
  assumes "os_maps s = Map.empty" and "\<forall>fd mem. os_fds s fd \<noteq> Some (Some mem)" and "0 \<notin> os_exports s" and "0 \<notin> os_imports s"
    and "s' = free_slot os li slots i s"
  shows "os_maps s' = Map.empty" "os_fds s' = os_fds s"
    "os_exports s' \<subseteq> os_exports s" "os_imports s' \<subseteq> os_imports s"
    "os_kept_exports s \<subseteq> os_kept_exports s'" "os_kept_imports s \<subseteq> os_kept_imports s'"
    "i = li \<Longrightarrow> os_exports s' \<subseteq> os_exports s - {sl_mem_id (slots ! i)} \<union> os_kept_exports s'"
    "i \<noteq> li \<Longrightarrow> os_imports s' \<subseteq> os_imports s - {sl_mem_id (slots ! i)} \<union> os_kept_imports s'"
  using assms(1-4) unfolding assms(5) by (auto simp: free_slot_def do_unexport_region_def do_unimport_region_def unused_def split: if_splits)

lemma free_slots_effect:
  assumes "os_maps s = Map.empty" and "\<forall>fd mem. os_fds s fd \<noteq> Some (Some mem)" and "0 \<notin> os_exports s" and "0 \<notin> os_imports s"
    and "s' = fold (free_slot os li slots) is s"
  shows "os_maps s' = Map.empty \<and> os_fds s' = os_fds s \<and> os_exports s' \<subseteq> os_exports s \<and> os_imports s' \<subseteq> os_imports s \<and>
    os_kept_exports s \<subseteq> os_kept_exports s' \<and> os_kept_imports s \<subseteq> os_kept_imports s' \<and>
    (li \<in> set is \<longrightarrow> os_exports s' \<subseteq> os_exports s - {sl_mem_id (slots ! li)} \<union> os_kept_exports s') \<and>
    os_imports s' \<subseteq> os_imports s - (\<lambda>i. sl_mem_id (slots ! i)) ` (set is - {li}) \<union> os_kept_imports s'"
  using assms
proof (induction "is" arbitrary: s)
  case (Cons i "is")
  let ?s = "free_slot os li slots i s"
  note e = free_slot_effect [OF Cons.prems(1-4) refl, where os = os and li = li and slots = slots and i = i]
  have "0 \<notin> os_exports ?s" "0 \<notin> os_imports ?s" "\<forall>fd mem. os_fds ?s fd \<noteq> Some (Some mem)"
    using e(2-4) Cons.prems(2-4) by auto
  note ih = Cons.IH [OF e(1) this(3,1,2)] and s' = Cons.prems(5)
  have ih: "os_maps s' = Map.empty" "os_fds s' = os_fds ?s" "os_exports s' \<subseteq> os_exports ?s" "os_imports s' \<subseteq> os_imports ?s"
    "os_kept_exports ?s \<subseteq> os_kept_exports s'" "os_kept_imports ?s \<subseteq> os_kept_imports s'"
    "li \<in> set is \<Longrightarrow> os_exports s' \<subseteq> os_exports ?s - {sl_mem_id (slots ! li)} \<union> os_kept_exports s'"
    "os_imports s' \<subseteq> os_imports ?s - (\<lambda>i. sl_mem_id (slots ! i)) ` (set is - {li}) \<union> os_kept_imports s'"
    using ih s' by simp_all
  have "os_exports s' \<subseteq> os_exports s - {sl_mem_id (slots ! li)} \<union> os_kept_exports s'" if "li \<in> set (i # is)"
    using that e(3,7) ih(3,5,7) by (cases "i = li") auto
  moreover have "os_imports s' \<subseteq> os_imports s - (\<lambda>i. sl_mem_id (slots ! i)) ` (set (i # is) - {li}) \<union> os_kept_imports s'"
    using e(4,8) ih(4,6,8) by (cases "i = li") auto
  ultimately show ?case using e(2-6) ih(1-6) by auto
qed simp

lemma cleanup_slots_effect:
  assumes m: "maps_held n b slots s" and e: "mems_held n li slots s" and li: "li < n"
  shows "os_maps (cleanup_slots os n li slots s) = Map.empty"
    "os_exports (cleanup_slots os n li slots s) \<subseteq> os_kept_exports (cleanup_slots os n li slots s)"
    "os_imports (cleanup_slots os n li slots s) \<subseteq> os_kept_imports (cleanup_slots os n li slots s)"
    "os_fds (cleanup_slots os n li slots s) = (if \<exists>i < n. mr_fd (sl_region (slots ! i)) = 0 then b(0 := None) else b)"
proof -
  obtain slots1 s1 where f: "fold unmap_slot [0..<n] (slots, s) = (slots1, s1)" by fastforce
  have n: "n \<le> length slots" using m by (simp add: maps_held_def)
  note u = unmap_slots_effect [OF n f]
  have len: "length slots1 = length slots" and mem: "map sl_mem_id slots1 = map sl_mem_id slots" using u by blast+
  have ids: "sl_mem_id (slots1 ! i) = sl_mem_id (slots ! i)" if "i < n" for i
    using arg_cong [OF mem, of "\<lambda>xs. xs ! i"] that n len by simp
  have "a \<in> slot_addrs n slots" if "os_maps s a = Some mem" for a mem
    using m that by (auto simp: maps_held_def slot_addrs_def image_iff)
  then have "dom (os_maps s) \<subseteq> slot_addrs n slots" by auto
  then have maps: "os_maps s1 = Map.empty" using u by (auto simp: restrict_map_def fun_eq_iff domIff)
  have fds: "os_fds s1 fd = (if fd = 0 \<and> (\<exists>i < n. mr_fd (sl_region (slots ! i)) = 0) then None else b fd)" for fd
  proof -
    have f1: "os_fds s1 fd = (if fd \<in> slot_fds n slots then None else os_fds s fd)" using u by (simp add: restrict_map_def)
    have "fd \<in> slot_fds n slots \<longleftrightarrow> 0 \<le> fd \<and> (\<exists>i < n. mr_fd (sl_region (slots ! i)) = fd)" by (auto simp: slot_fds_def)
    moreover have "b fd = None" if "0 < fd" "\<exists>i < n. mr_fd (sl_region (slots ! i)) = fd"
      using that m by (auto simp: maps_held_def)
    moreover have "os_fds s fd = b fd \<or> 0 \<le> fd \<and> (\<exists>i < n. mr_fd (sl_region (slots ! i)) = fd) \<and> b fd = None"
      using m by (auto simp: maps_held_def)
    moreover have "b 0 \<noteq> None" using m by (simp add: maps_held_def)
    ultimately show ?thesis using f1 by (cases "fd = 0") (auto split: if_splits)
  qed
  then have nr: "\<forall>fd mem. os_fds s1 fd \<noteq> Some (Some mem)" using m by (simp add: maps_held_def)
  have z: "0 \<notin> os_exports s1" "0 \<notin> os_imports s1" using u e by (simp_all add: mems_held_def)
  have c: "cleanup_slots os n li slots s = fold (free_slot os li slots1) [0..<n] s1" by (simp add: cleanup_slots_def f)
  note w = free_slots_effect [OF maps nr z c]
  show "os_maps (cleanup_slots os n li slots s) = Map.empty" using w by simp
  show "os_exports (cleanup_slots os n li slots s) \<subseteq> os_kept_exports (cleanup_slots os n li slots s)"
    using w u e li ids by (auto simp: mems_held_def)
  have "(\<lambda>i. sl_mem_id (slots1 ! i)) ` (set [0..<n] - {li}) = (\<lambda>i. sl_mem_id (slots ! i)) ` {i. i < n \<and> i \<noteq> li}"
    using ids by (intro image_cong) auto
  then show "os_imports (cleanup_slots os n li slots s) \<subseteq> os_kept_imports (cleanup_slots os n li slots s)"
    using w u e by (auto simp: mems_held_def)
  show "os_fds (cleanup_slots os n li slots s) = (if \<exists>i < n. mr_fd (sl_region (slots ! i)) = 0 then b(0 := None) else b)"
    using w fds by (auto simp: fun_eq_iff)
qed

text \<open>Mapping a region into a slot that holds none.\<close>

lemma maps_held_update:
  assumes m: "maps_held n b slots s" and i: "i < n" and free: "sl_region (slots ! i) = region_zero"
    and maps: "\<And>a mem. os_maps s' a = Some mem \<Longrightarrow> os_maps s a = Some mem \<or> a \<noteq> 0 \<and> mr_addr (sl_region slot) = a"
    and fds: "\<And>fd. os_fds s' fd = os_fds s fd \<or>
      os_fds s fd = None \<and> (\<exists>mem. os_fds s' fd = Some (Some mem)) \<and> 0 \<le> fd \<and> mr_fd (sl_region slot) = fd"
    and new: "0 < mr_fd (sl_region slot) \<Longrightarrow> os_fds s (mr_fd (sl_region slot)) = None"
  shows "maps_held n b (slots[i := slot]) s'"
proof -
  have n: "n \<le> length slots" using m by (simp add: maps_held_def)
  have nth: "slots[i := slot] ! j = (if j = i then slot else slots ! j)" if "j < n" for j using that n by (simp add: nth_list_update)
  have keep: "\<exists>j < n. P (slots[i := slot] ! j)" if "j < n" "P (slots ! j)" "\<not> P (slots ! i)" for P j
    using that nth by (intro exI [of _ j]) auto
  have mm: "\<exists>j < n. mr_addr (sl_region (slots[i := slot] ! j)) = a" "a \<noteq> 0" if a: "os_maps s' a = Some mem" for a mem
  proof -
    consider "os_maps s a = Some mem" | "a \<noteq> 0" "mr_addr (sl_region slot) = a" using maps [OF a] by blast
    then have "a \<noteq> 0 \<and> (\<exists>j < n. mr_addr (sl_region (slots[i := slot] ! j)) = a)"
    proof cases
      case 1
      with m obtain j where "j < n" "mr_addr (sl_region (slots ! j)) = a" "a \<noteq> 0" by (auto simp: maps_held_def)
      with keep [of j "\<lambda>x. mr_addr (sl_region x) = a"] free show ?thesis by (simp add: region_zero_def)
    qed (use i nth in auto)
    then show "\<exists>j < n. mr_addr (sl_region (slots[i := slot] ! j)) = a" "a \<noteq> 0" by blast+
  qed
  have ff: "os_fds s' fd = b fd \<or> b fd = None \<and> (\<exists>mem. os_fds s' fd = Some (Some mem)) \<and> 0 \<le> fd \<and>
      (\<exists>j < n. mr_fd (sl_region (slots[i := slot] ! j)) = fd)" for fd
  proof -
    have o: "os_fds s fd = b fd \<or> b fd = None \<and> (\<exists>mem. os_fds s fd = Some (Some mem)) \<and> 0 \<le> fd \<and>
        (\<exists>j < n. mr_fd (sl_region (slots ! j)) = fd)" using m by (simp add: maps_held_def)
    consider "os_fds s' fd = os_fds s fd" | "os_fds s fd = None" "\<exists>mem. os_fds s' fd = Some (Some mem)" "0 \<le> fd" "mr_fd (sl_region slot) = fd"
      using fds [of fd] by (elim disjE) auto
    then show ?thesis
    proof cases
      case 1
      have "\<exists>j < n. mr_fd (sl_region (slots[i := slot] ! j)) = fd" if j: "j < n" "mr_fd (sl_region (slots ! j)) = fd" "b fd = None" for j
      proof -
        have "fd \<noteq> 0" using j(3) m by (auto simp: maps_held_def)
        with keep [of j "\<lambda>x. mr_fd (sl_region x) = fd"] free j show ?thesis by (simp add: region_zero_def)
      qed
      with 1 o show ?thesis by metis
    next
      case 2
      then have "b fd = None" using o by auto
      with 2 i nth show ?thesis by auto
    qed
  qed
  have gg: "b (mr_fd (sl_region (slots[i := slot] ! j))) = None" if "j < n" "0 < mr_fd (sl_region (slots[i := slot] ! j))" for j
  proof (cases "j = i")
    case True
    with that nth new have "os_fds s (mr_fd (sl_region slot)) = None" by simp
    moreover have "os_fds s fd = None \<Longrightarrow> b fd = None" for fd using m unfolding maps_held_def by metis
    ultimately show ?thesis using True that(1) nth by simp
  qed (use that nth m in \<open>auto simp: maps_held_def\<close>)
  show ?thesis using m mm ff gg unfolding maps_held_def by simp
qed

lemma map_region_held:
  assumes ok: "obmm_os_ok os" and m: "maps_held n b slots s" and i: "i < n"
    and free: "sl_region (slots ! i) = region_zero"
    and r: "map_region_device os mem len sync s = (rc, region, s')" and sl: "sl_region slot = region"
  shows "maps_held n b (slots[i := slot]) s'" "mr_fd region \<noteq> 0" "os_exports s' = os_exports s" "os_imports s' = os_imports s"
proof -
  have b0: "os_fds s 0 \<noteq> None" using m unfolding maps_held_def by (metis option.distinct(1))
  define fd where "fd = os_open_region os s mem sync"
  have fresh: "0 \<le> fd \<longrightarrow> os_fds s fd = None" using ok by (simp add: obmm_os_ok_def fd_def)
  consider (open_failed) "fd < 0" "region = \<lparr>mr_fd = fd, mr_addr = 0, mr_len = len, mr_mem_id = mem\<rparr>" "os_fds s' = os_fds s" "os_maps s' = os_maps s"
    | (mmap_failed) "0 \<le> fd" "region = \<lparr>mr_fd = - 1, mr_addr = 0, mr_len = len, mr_mem_id = mem\<rparr>" "os_fds s' = os_fds s" "os_maps s' = os_maps s"
    | (mapped) a where "0 \<le> fd" "region = \<lparr>mr_fd = fd, mr_addr = a, mr_len = len, mr_mem_id = mem\<rparr>"
        "os_fds s' = (os_fds s)(fd \<mapsto> Some mem)" "os_maps s' = (os_maps s)(a \<mapsto> mem)" "a \<noteq> 0"
  proof -
    have e: "os_mmap os t fd len = Some a \<Longrightarrow> a \<noteq> 0" for t a using ok by (simp add: obmm_os_ok_def)
    have "(os_fds s)(fd := None) = os_fds s" if "0 \<le> fd" using fresh that by auto
    then show thesis
      using that r fresh e unfolding map_region_device_def Let_def fd_def [symmetric]
      by (auto simp: got_fd_def os_close_def split: if_splits option.splits)
  qed
  then show "maps_held n b (slots[i := slot]) s'"
  proof cases
    case open_failed
    show ?thesis by (rule maps_held_update [OF m i free]) (use open_failed sl in auto)
  next
    case mmap_failed
    show ?thesis by (rule maps_held_update [OF m i free]) (use mmap_failed sl in auto)
  next
    case mapped
    show ?thesis by (rule maps_held_update [OF m i free]) (use mapped sl fresh in \<open>auto split: if_splits\<close>)
  qed
  show "mr_fd region \<noteq> 0" "os_exports s' = os_exports s" "os_imports s' = os_imports s"
    using r fresh b0 unfolding map_region_device_def Let_def fd_def [symmetric]
    by (auto simp: got_fd_def os_close_def split: if_splits option.splits)
qed

lemma import_loop_held:
  assumes ok: "obmm_os_ok os" and "maps_held n b slots s" and "mems_held n li slots s"
    and "distinct (map fst peers)" and "\<forall>i \<in> set (map fst peers). i < n \<and> i \<noteq> li \<and> slots ! i = slot_zero"
    and "import_loop os cna metas peers slots s = (rc, slots', s')"
  shows "maps_held n b slots' s' \<and> mems_held n li slots' s' \<and>
    (rc = 0 \<longrightarrow> (\<forall>i \<in> set (map fst peers). mr_fd (sl_region (slots' ! i)) \<noteq> 0)) \<and>
    (\<forall>j. j \<notin> set (map fst peers) \<longrightarrow> slots' ! j = slots ! j)"
  using assms(2-)
proof (induction peers arbitrary: slots s)
  case (Cons p peers)
  obtain i pa osync where p: "p = (i, pa, osync)" by (cases p) auto
  have i: "i < n" "i \<noteq> li" "slots ! i = slot_zero" "i < length slots" using Cons.prems(1,4) p by (auto simp: maps_held_def)
  let ?slot = "(slots ! i)\<lparr>sl_owner_idx := i, sl_is_local := False, sl_local_pa := pa, sl_map_osync := osync,
      sl_export_cna := om_export_cna (metas ! i)\<rparr>"
  obtain m s1 where d: "do_import_region os (metas ! i) cna pa s = (m, s1)" by fastforce
  show ?case
  proof (cases m)
    case None
    with Cons.prems(5) p d have e: "rc = - 1" "slots' = slots[i := ?slot]" "s' = s1" by simp_all
    have s1: "os_fds s1 = os_fds s" "os_maps s1 = os_maps s" "os_exports s1 = os_exports s" "os_imports s1 = os_imports s"
      using d None by (auto simp: do_import_region_def Let_def split: option.splits)
    have reg: "sl_region (slots[i := ?slot] ! j) = sl_region (slots ! j)" "sl_mem_id (slots[i := ?slot] ! j) = sl_mem_id (slots ! j)" for j
      using i(4) by (simp_all add: nth_list_update)
    show ?thesis using Cons.prems(1,2) unfolding e maps_held_def mems_held_def s1 reg by (simp add: p)
  next
    case (Some mem)
    have s1: "os_fds s1 = os_fds s" "os_maps s1 = os_maps s" "os_exports s1 = os_exports s" "os_imports s1 = insert mem (os_imports s)" "mem \<noteq> 0"
      using d Some ok by (auto simp: do_import_region_def Let_def obmm_os_ok_def split: option.splits)
    obtain rc1 region s2 where r: "map_region_device os mem SLOT_TOUCH_SIZE osync s1 = (rc1, region, s2)" by (metis prod_cases3)
    let ?slots = "slots[i := ?slot\<lparr>sl_mem_id := mem, sl_region := region\<rparr>]"
    have "maps_held n b slots s1" using Cons.prems(1) by (simp add: maps_held_def s1)
    note h = map_region_held [OF ok this i(1) _ r, of "?slot\<lparr>sl_mem_id := mem, sl_region := region\<rparr>"]
    have mh: "maps_held n b ?slots s2" "mr_fd region \<noteq> 0" "os_exports s2 = os_exports s" "os_imports s2 = insert mem (os_imports s)"
      using h s1 i(3) by (simp_all add: slot_zero_def)
    have ids: "sl_mem_id (?slots ! j) = (if j = i then mem else sl_mem_id (slots ! j))" for j using i(4) by (simp add: nth_list_update)
    have eh: "mems_held n li ?slots s2"
      unfolding mems_held_def mh(3,4)
    proof (intro conjI)
      show "0 \<notin> os_exports s" "0 \<notin> insert mem (os_imports s)" "os_exports s \<subseteq> {sl_mem_id (?slots ! li)}"
        using Cons.prems(2) s1(5) i(2) by (auto simp: mems_held_def ids)
      have "os_imports s \<subseteq> (\<lambda>j. sl_mem_id (?slots ! j)) ` {j. j < n \<and> j \<noteq> li}"
      proof
        fix x
        assume x: "x \<in> os_imports s"
        with Cons.prems(2) have "x \<in> (\<lambda>j. sl_mem_id (slots ! j)) ` {j. j < n \<and> j \<noteq> li}" "x \<noteq> 0" by (auto simp: mems_held_def)
        then obtain j where j: "j < n" "j \<noteq> li" "x = sl_mem_id (slots ! j)" "x \<noteq> 0" by blast
        with i(3) have "j \<noteq> i" by (auto simp: slot_zero_def)
        with j show "x \<in> (\<lambda>j. sl_mem_id (?slots ! j)) ` {j. j < n \<and> j \<noteq> li}" by (auto simp: ids image_iff)
      qed
      with i show "insert mem (os_imports s) \<subseteq> (\<lambda>j. sl_mem_id (?slots ! j)) ` {j. j < n \<and> j \<noteq> li}"
        by (auto simp: ids image_iff)
    qed
    show ?thesis
    proof (cases "rc1 = 0")
      case False
      with Cons.prems(5) p d Some r have "rc = - 1" "slots' = ?slots" "s' = s2" by simp_all
      with mh eh show ?thesis by (simp add: p)
    next
      case True
      with Cons.prems(5) p d Some r have l: "import_loop os cna metas peers ?slots s2 = (rc, slots', s')" by simp
      have ni: "i \<notin> set (map fst peers)" and ds: "distinct (map fst peers)" using Cons.prems(3) p by auto
      have "j < n \<and> j \<noteq> li \<and> ?slots ! j = slot_zero" if "j \<in> set (map fst peers)" for j
        using that Cons.prems(4) p ni by (cases "j = i") auto
      then have z: "\<forall>j \<in> set (map fst peers). j < n \<and> j \<noteq> li \<and> ?slots ! j = slot_zero" by blast
      note ih = Cons.IH [OF mh(1) eh ds z l]
      then have "slots' ! i = ?slots ! i" using ni by blast
      then have "mr_fd (sl_region (slots' ! i)) \<noteq> 0" using mh(2) i(4) by simp
      moreover have "slots' ! j = slots ! j" if "j \<notin> set (map fst (p # peers))" for j using that ih p by simp
      ultimately show ?thesis using ih p by simp
    qed
  qed
qed simp

lemma pool_body_held:
  assumes ok: "obmm_os_ok os" and m: "maps_held n b slots s" and z: "\<forall>i < n. slots ! i = slot_zero" and li: "li < n"
    and none: "os_exports s = {}" "os_imports s = {}" and r: "pool_body os inp n li slots s = (rc, slots', s')"
  shows "maps_held n b slots' s' \<and> mems_held n li slots' s' \<and>
    (rc = 0 \<and> (\<forall>i < n. mr_fd (sl_region (slots' ! i)) \<noteq> 0) \<or> rc = 1)"
proof (cases "parse_hex_file_u64 (pi_cna_file inp)")
  case None
  with r m none show ?thesis by (auto simp: pool_body_def mems_held_def)
next
  case (Some cna)
  have l: "li < length slots" "slots ! li = slot_zero" using m li z by (auto simp: maps_held_def)
  obtain rc1 meta s1 where e: "do_export_region os (meta_zero\<lparr>om_export_cna := ucast cna\<rparr>) s = (rc1, meta, s1)" by (metis prod_cases3)
  have nz: "mem \<noteq> 0" if "os_export os s EXPORT_REGION_SIZE = Some (mem, uba, tok)" for mem uba tok
    using ok that unfolding obmm_os_ok_def by blast
  have s1: "os_fds s1 = os_fds s" "os_maps s1 = os_maps s" "os_imports s1 = {}"
    "if rc1 = 0 then om_export_mem_id meta \<noteq> 0 \<and> os_exports s1 = {om_export_mem_id meta} else os_exports s1 = {}"
    using e none nz by (auto simp: do_export_region_def split: option.splits)
  have m1: "maps_held n b slots s1" using m by (simp add: maps_held_def s1)
  let ?mem = "om_export_mem_id meta"
  let ?slot = "(slots ! li)\<lparr>sl_owner_idx := li, sl_is_local := True, sl_mem_id := ?mem, sl_export_cna := ucast cna\<rparr>"
  obtain rc2 region s2 where g: "map_region_device os ?mem SLOT_TOUCH_SIZE False s1 = (rc2, region, s2)" by (metis prod_cases3)
  let ?slots = "slots[li := ?slot\<lparr>sl_region := region\<rparr>]"
  note h = map_region_held [OF ok m1 li _ g, of "?slot\<lparr>sl_region := region\<rparr>"]
  have m2: "maps_held n b ?slots s2" "mr_fd region \<noteq> 0" "os_exports s2 = os_exports s1" "os_imports s2 = {}"
    using h l(2) s1(3) by (simp_all add: slot_zero_def)
  obtain rc3 sent metas where hl: "broadcast_hello_until_all n li meta (pi_hello inp) = (rc3, sent, metas)" by (metis prod_cases3)
  obtain rc4 slots4 s4 where im: "import_all_peers os (pi_mem_windows inp) (ucast cna) n li metas ?slots s2 = (rc4, slots4, s4)"
    by (metis prod_cases3)
  show ?thesis
  proof (cases "rc1 = 0")
    case False
    with r Some e s1 have "slots' = slots" "s' = s1" "rc = 1" by (simp_all add: pool_body_def)
    with m1 s1 False show ?thesis by (simp add: mems_held_def)
  next
    case True
    have e2: "mems_held n li ?slots s2" using m2 s1(4) True l by (auto simp: mems_held_def)
    have fd4: "maps_held n b slots4 s4 \<and> mems_held n li slots4 s4 \<and> (rc4 = 0 \<longrightarrow> (\<forall>i < n. mr_fd (sl_region (slots4 ! i)) \<noteq> 0))"
    proof (cases "allocate_import_pas (int n - 1) EXPORT_REGION_SIZE (pi_mem_windows inp)")
      case None
      with im m2 e2 show ?thesis by (auto simp: import_all_peers_def)
    next
      case (Some pas)
      let ?peers = "zip (others n li) pas"
      have "int (length pas) = int n - 1" if "1 < n" using Some that by (auto simp: allocate_import_pas_def Let_def split: if_splits option.splits)
      moreover have "others n li = []" if "n = 1" using that li by (simp add: others_def)
      ultimately have len: "length (others n li) \<le> length pas" using others_length [OF li] li by (cases "n = 1") auto
      then have f: "map fst ?peers = others n li" by (simp add: map_fst_zip_take)
      have d: "distinct (map fst ?peers)" unfolding f by (simp add: others_def)
      have "\<forall>i \<in> set (map fst ?peers). i < n \<and> i \<noteq> li \<and> ?slots ! i = slot_zero"
        unfolding f using z by (auto simp: others_set)
      from import_loop_held [OF ok m2(1) e2 d this] im Some have i: "maps_held n b slots4 s4 \<and> mems_held n li slots4 s4 \<and>
          (rc4 = 0 \<longrightarrow> (\<forall>i \<in> set (others n li). mr_fd (sl_region (slots4 ! i)) \<noteq> 0)) \<and> (\<forall>j. j \<notin> set (others n li) \<longrightarrow> slots4 ! j = ?slots ! j)"
        unfolding f by (simp add: import_all_peers_def)
      then have "mr_fd (sl_region (slots4 ! li)) \<noteq> 0" using m2(2) l by (simp add: others_set)
      with i show ?thesis by (auto simp: others_set)
    qed
    show ?thesis
      using r Some e g hl im m2 e2 fd4 True
      by (auto simp: pool_body_def Let_def split: if_splits)
  qed
qed

text \<open>What the kernel has refused to take back: nothing before the clean-up, nothing at all if it takes back what it can.\<close>

lemma import_loop_kept: "same_kept s (snd (snd (import_loop os cna metas peers slots s)))"
proof (induction peers arbitrary: slots s)
  case (Cons p peers)
  obtain i pa osync where p: "p = (i, pa, osync)" by (cases p) auto
  obtain m s1 where d: "do_import_region os (metas ! i) cna pa s = (m, s1)" by fastforce
  have k1: "same_kept s s1" using calls_kept(6) [of s os "metas ! i" cna pa] d by simp
  show ?case
  proof (cases m)
    case None
    with k1 show ?thesis by (simp add: p d Let_def)
  next
    case (Some mem)
    obtain rc region s2 where r: "map_region_device os mem SLOT_TOUCH_SIZE osync s1 = (rc, region, s2)" by (metis prod_cases3)
    have "same_kept s1 s2" using calls_kept(4) [of s1 os mem SLOT_TOUCH_SIZE osync] r by simp
    with k1 have "same_kept s s2" by (rule same_kept_trans)
    with Some show ?thesis by (simp add: p d r Let_def same_kept_trans [OF _ Cons.IH])
  qed
qed simp

lemma pool_body_kept: "same_kept s (snd (snd (pool_body os inp n li slots s)))"
proof (cases "parse_hex_file_u64 (pi_cna_file inp)")
  case (Some cna)
  let ?meta = "meta_zero\<lparr>om_export_cna := ucast cna\<rparr>"
  obtain rc meta s1 where e: "do_export_region os ?meta s = (rc, meta, s1)" by (metis prod_cases3)
  obtain rc' region s2 where g: "map_region_device os (om_export_mem_id meta) SLOT_TOUCH_SIZE False s1 = (rc', region, s2)" by (metis prod_cases3)
  have k1: "same_kept s s1" using calls_kept(5) [of s os ?meta] e by simp
  have k2: "same_kept s s2"
    using calls_kept(4) [of s1 os "om_export_mem_id meta" SLOT_TOUCH_SIZE False] g same_kept_trans [OF k1] by simp
  have "same_kept s (snd (snd (import_all_peers os w c n li metas slots' s2)))" for w c metas slots'
    using same_kept_trans [OF k2 import_loop_kept] k2 by (simp add: import_all_peers_def split: option.split)
  with Some e g k1 k2 show ?thesis by (simp add: pool_body_def Let_def case_prod_beta)
qed (simp add: pool_body_def)

lemma cleanup_slots_kept:
  assumes "takes_back os"
  shows "same_kept s (cleanup_slots os n li slots s)"
proof -
  have "same_kept (snd t) (snd (unmap_slot i t))" for i t
    using calls_kept(3) [of "snd t" "sl_region (fst t ! i)"] by (simp add: unmap_slot_def Let_def case_prod_beta)
  then have u: "same_kept (snd t) (snd (fold unmap_slot is t))" for "is" t
    by (induction "is" arbitrary: t) (simp, metis fold_simps(2) same_kept_trans)
  have "same_kept s (free_slot os li slots i s)" for slots i s
    using giving_back_kept [OF assms] by (simp add: free_slot_def)
  then have "same_kept s (fold (free_slot os li slots) is s)" for slots "is" s
    by (induction "is" arbitrary: s) (simp, metis fold_simps(2) same_kept_trans)
  with u [of "(slots, s)" "[0..<n]"] show ?thesis by (auto simp: cleanup_slots_def case_prod_beta intro: same_kept_trans)
qed

lemma pool_main_kept:
  assumes "takes_back os"
  shows "same_kept s (snd (pool_main os env inp s))"
proof -
  have o: "same_kept s (os_close fd t)" "same_kept s (got_fd fd w t)" "same_kept s (cleanup_slots os n li slots t)"
    "same_kept s (snd (snd (pool_body os inp n li slots t)))" if "same_kept s t" for fd w n li slots t
    using that calls_kept(1,2) cleanup_slots_kept [OF assms] pool_body_kept by (blast intro: same_kept_trans)+
  show ?thesis
    by (auto simp: pool_main_def Let_def case_prod_beta o split: option.split)
qed

text \<open>
  C9: the memory pool demo, whatever call fails, those that give back regions included, with a kernel that hands out
  fresh descriptors and addresses: however it ends, no mapping is left, and what is still exported or imported is what the
  kernel refused to take back although it was no longer open nor mapped; nothing, when the kernel refuses no such
  region. On success the open descriptors are those of the start; on failure they are these too, or descriptor 0
  has been closed besides, which happens always when the control device cannot be opened.
\<close>

theorem pool_main_releases:
  assumes ok: "obmm_os_ok os" and std: "os_fds s 0 = Some None" "\<forall>fd mem. os_fds s fd \<noteq> Some (Some mem)"
    and none: "os_maps s = Map.empty" "os_exports s = {}" "os_imports s = {}" "os_kept_exports s = {}" "os_kept_imports s = {}"
    and r: "pool_main os env inp s = (rc, s')"
  shows "os_maps s' = Map.empty \<and> os_exports s' \<subseteq> os_kept_exports s' \<and> os_imports s' \<subseteq> os_kept_imports s' \<and>
    (takes_back os \<longrightarrow> os_exports s' = {} \<and> os_imports s' = {}) \<and>
    (os_fds s' = os_fds s \<or> rc = 1 \<and> os_fds s' = (os_fds s)(0 := None)) \<and>
    (resolve_pool_nodes env \<noteq> None \<longrightarrow> pi_iface inp \<longrightarrow> 0 \<le> os_socket os s \<longrightarrow>
      os_open os (got_fd (os_socket os s) None s) ''/dev/obmm'' < 0 \<longrightarrow> os_fds s' = (os_fds s)(0 := None))"
proof (cases "resolve_pool_nodes env = None \<or> \<not> pi_iface inp \<or> os_socket os s < 0")
  case True
  with r none show ?thesis by (auto simp: pool_main_def got_fd_def split: option.splits if_splits)
next
  case False
  then obtain ip ips li where n: "resolve_pool_nodes env = Some (ip, ips, li)" and f: "pi_iface inp" "0 \<le> os_socket os s" by auto
  note nodes = resolve_pool_nodes_ok [OF n]
  define sock s1 fd s2 where d: "sock = os_socket os s" "s1 = got_fd sock None s" "fd = os_open os s1 ''/dev/obmm''" "s2 = got_fd fd None s1"
  let ?slots = "replicate MAX_NODES slot_zero" and ?n = "length ips"
  have fresh: "os_fds s sock = None" "0 \<le> fd \<Longrightarrow> os_fds s1 fd = None" using ok f d by (auto simp: obmm_os_ok_def)
  have s12: "os_fds s1 = (os_fds s)(sock \<mapsto> None)" "os_fds s2 = (if fd < 0 then os_fds s1 else (os_fds s1)(fd \<mapsto> None))"
    using f(2) by (simp_all add: d(1,2,4) got_fd_def)
  have s2: "os_maps s2 = Map.empty" "os_exports s2 = {}" "os_imports s2 = {}" using none(1-3) by (simp_all add: d(2,4) got_fd_def)
  have ne: "sock \<noteq> 0" "0 \<le> fd \<Longrightarrow> fd \<noteq> 0 \<and> fd \<noteq> sock" using fresh std(1) s12(1) by (auto split: if_splits)
  have m: "maps_held ?n (os_fds s2) ?slots s2"
    unfolding maps_held_def using nodes s2 s12 std ne by (auto simp: slot_zero_def region_zero_def)
  obtain rc3 slots3 s3 where b: "(if fd < 0 then (1, ?slots, s2) else pool_body os inp ?n li ?slots s2) = (rc3, slots3, s3)"
    by (metis prod_cases3)
  have h: "maps_held ?n (os_fds s2) slots3 s3 \<and> mems_held ?n li slots3 s3 \<and>
      (rc3 = 0 \<and> 0 \<le> fd \<and> (\<forall>i < ?n. mr_fd (sl_region (slots3 ! i)) \<noteq> 0) \<or> rc3 = 1)"
  proof (cases "fd < 0")
    case True
    with b m s2 show ?thesis by (auto simp: mems_held_def)
  next
    case False
    with b pool_body_held [OF ok m _ nodes(3) s2(2,3), of inp rc3 slots3 s3] nodes(2) show ?thesis by auto
  qed
  then have hm: "maps_held ?n (os_fds s2) slots3 s3" and he: "mems_held ?n li slots3 s3" by blast+
  note c = cleanup_slots_effect [OF hm he nodes(3), of os]
  have s': "rc = rc3" "s' = os_close sock (if 0 \<le> fd then os_close fd (cleanup_slots os ?n li slots3 s3) else cleanup_slots os ?n li slots3 s3)"
    using r n f b by (cases "fd < 0"; simp add: pool_main_def Let_def d [symmetric])+
  have z: "\<exists>i < ?n. mr_fd (sl_region (slots3 ! i)) = 0" if "fd < 0"
    using b that nodes by (intro exI [of _ li]) (auto simp: slot_zero_def region_zero_def)
  have fds: "os_fds s' = (if \<exists>i < ?n. mr_fd (sl_region (slots3 ! i)) = 0 then (os_fds s)(0 := None) else os_fds s)"
    unfolding s' using c(4) s12 ne fresh by (auto simp: os_close_def fun_eq_iff)
  have m': "os_maps s' = Map.empty" "os_exports s' \<subseteq> os_kept_exports s'" "os_imports s' \<subseteq> os_kept_imports s'"
    using c(1-3) by (simp_all add: s' os_close_def)
  moreover have "takes_back os \<longrightarrow> os_exports s' = {} \<and> os_imports s' = {}"
    using m'(2,3) pool_main_kept [of os s env inp] r none(4,5) by (auto simp: same_kept_def)
  ultimately show ?thesis using fds h z s'(1) d by auto
qed

end
