(* ===== verification/Pool_Examples.thy ===== *)
theory Pool_Examples
  imports Pool_Main
begin

text \<open>
  Concrete windows, exchanges and slots: each theorem applies a theorem about the memory pool demo to
  them, which shows that its hypotheses can be met.
\<close>

section \<open>Placement\<close>

text \<open>A cacheable window of 5 MB that starts off a 2 MB boundary and a window of 4 MB that is not cacheable.\<close>

definition sample_windows :: string where
  "sample_windows =
     ''mar0 decode=1 cc_base_mb=401 cc_size_mb=5 nc_base_mb=0 nc_size_mb=0'' @ [CHR 0x0A] @
     ''mar1 decode=1 cc_base_mb=0 cc_size_mb=0 nc_base_mb=800 nc_size_mb=4'' @ [CHR 0x0A]"

definition sample_window_list :: "mem_window list" where
  "sample_window_list =
     [\<lparr>mw_base_pa = 0x40100000, mw_size_bytes = 0x500000, mw_decode = 1, mw_mar = 0, mw_is_cacheable = True\<rparr>,
      \<lparr>mw_base_pa = 0x80000000, mw_size_bytes = 0x400000, mw_decode = 1, mw_mar = 1, mw_is_cacheable = False\<rparr>]"

lemma sample_windows_parsed: "parse_windows (Some sample_windows) = Some sample_window_list"
  by code_simp

theorem import_placement_witness:
  "\<exists>pas. allocate_import_pas 3 EXPORT_REGION_SIZE (Some sample_windows) = Some pas \<and> length pas = 3 \<and> sorted_wrt apart pas"
proof -
  have "\<forall>w \<in> set sample_window_list. window_ok w" and "sorted_wrt windows_apart sample_window_list"
    by (simp_all add: sample_window_list_def window_ok_def IMPORT_ALIGN_def windows_apart_def)
  note p = import_placement [OF sample_windows_parsed this, of 3]
  have "(\<Sum>w \<leftarrow> sample_window_list. window_capacity w) = 4"
    by (simp add: sample_window_list_def window_capacity_def window_start_def)
  with p show ?thesis by (auto split: option.splits)
qed

section \<open>Exchange and rounds\<close>

text \<open>Two nodes; the HELLO of the second arrives in the second turn of the first.\<close>

definition sample_hello :: pool_msg where
  "sample_hello = (init_pool_msg MSG_HELLO 1 0)\<lparr>pm_meta := meta_zero\<rparr>"

theorem hello_exchange_witness:
  "fst (broadcast_hello_until_all 2 0 meta_zero [[], [sample_hello], []]) = 0"
proof -
  have "heard MSG_HELLO 2 (concat (take 2 [[], [sample_hello], []])) 1"
    by code_simp
  then have "\<exists>k < length [[], [sample_hello], []]. \<forall>i < 2. i = 0 \<or> heard MSG_HELLO 2 (concat (take k [[], [sample_hello], []])) i"
    by (intro exI [of _ 2]) (auto simp: less_2_cases_iff)
  with hello_exchange [of 0 2 meta_zero "[[], [sample_hello], []]"] show ?thesis
    by (auto simp: MAX_NODES_def Let_def split: prod.splits)
qed

definition zero_slot :: bytes where
  "zero_slot = replicate SLOT_TOUCH_SIZE 0"

theorem rounds_agreement_witness:
  "\<exists>s. rounds_reach [zero_slot, zero_slot, zero_slot] s \<and> completed 3 (ps_pcs s ! 1) = 1 \<and>
    1 \<le> verified 3 (ps_pcs s ! 2) \<and> slot_matches_payload (ps_slots s ! 0) 0 0"
proof -
  let ?z = "[zero_slot, zero_slot, zero_slot]"
  have z: "length zero_slot = SLOT_TOUCH_SIZE" by (simp add: zero_slot_def)
  obtain s where s: "exec 3 early_turn (rounds_start ?z) = Some s" and pc: "ps_pcs s ! 1 = WaitAcks 1 ((replicate MAX_NODES False)[0 := True]) 1"
    using early_turn_run [OF z z] by auto
  from steps_reach [of ?z] exec_sound [OF s] have r: "rounds_reach ?z s" by (simp add: numeral_3_eq_3)
  have "length ?z \<le> MAX_NODES" "\<forall>x \<in> set ?z. length x = SLOT_TOUCH_SIZE" "2 < length ?z" "1 < length ?z"
    by (simp_all add: z MAX_NODES_def)
  from rounds_agreement [OF r this] pc r show ?thesis by (auto simp: numeral_3_eq_3 intro!: exI [of _ s])
qed

theorem early_turn_deadlock_witness:
  "\<exists>s. (round_step 3)\<^sup>*\<^sup>* (rounds_start [zero_slot, zero_slot, zero_slot]) s \<and> (\<forall>t. \<not> round_step 3 s t) \<and> ps_pcs s ! 2 = WaitTurn 1"
proof -
  have "length zero_slot = SLOT_TOUCH_SIZE" by (simp add: zero_slot_def)
  from early_turn_deadlock [OF this this, of zero_slot] show ?thesis by fastforce
qed

text \<open>Both rounds of two nodes.\<close>

definition two_node_run :: "sched list" where
  "two_node_run =
     [Move 0, Move 1, Move 0, Take 0, Move 1, Take 0, Move 0, Take 0, Move 1, Move 1, Move 0, Take 9, Move 0, Take 9, Move 1,
      Take 9, Move 0, Move 1]"

lemma two_nodes:
  "others 2 0 = [1]" "others 2 1 = [0]" "[u, v][0 := z] = [z, v]" "[u, v][1 := z] = [u, z]" "[u, v] ! 0 = u" "[u, v] ! 1 = v"
  "2 \<le> MAX_NODES"
proof -
  show "others 2 0 = [1]" "others 2 1 = [0]" by code_simp+
qed (simp_all add: MAX_NODES_def)

lemma two_node_run_finishes:
  "\<exists>s. exec 2 two_node_run (rounds_start [zero_slot, zero_slot]) = Some s \<and> ps_pcs s = [Finished, Finished]"
proof -
  have z: "length zero_slot = SLOT_TOUCH_SIZE" by (simp add: zero_slot_def)
  have st: "rounds_start [zero_slot, zero_slot] = \<lparr>ps_pcs = [Enter 0, Enter 0], ps_slots = [zero_slot, zero_slot], ps_net = []\<rparr>"
    by (simp add: rounds_start_def)
  show ?thesis
    unfolding st two_node_run_def using written_slot_matches(1) [OF z, of 0 0] written_slot_matches(1) [OF z, of 1 1]
    by (simp add: run_simps two_nodes broadcast_round_commit_def nth_append numeral_2_eq_2 [symmetric] One_nat_def [symmetric]
      del: One_nat_def list_update.simps)
qed

theorem do_rounds_agree_witness:
  "\<exists>s logs sent. rounds_log [zero_slot, zero_slot] s logs sent \<and> fst (do_rounds 2 0 zero_slot (logs ! 0)) = 0 \<and>
    fst (snd (do_rounds 2 0 zero_slot (logs ! 0))) = sent ! 0 \<and> slot_matches_payload (ps_slots s ! 1) 1 1"
proof -
  let ?z = "[zero_slot, zero_slot]"
  obtain s where s: "exec (length ?z) two_node_run (rounds_start ?z) = Some s" and pc: "ps_pcs s = [Finished, Finished]"
    using two_node_run_finishes by (auto simp: numeral_2_eq_2)
  obtain logs sent where l: "rounds_log ?z s logs sent" using exec_logged [OF log_start s] by blast
  have h: "length ?z \<le> MAX_NODES" "\<forall>x \<in> set ?z. length x = SLOT_TOUCH_SIZE" "0 < length ?z" and one: "1 < length ?z"
    by (simp_all add: MAX_NODES_def zero_slot_def)
  have two: "length ?z = 2" "?z ! 0 = zero_slot" by simp_all
  note a = do_rounds_agree [OF l h, unfolded two]
  have z: "fst (do_rounds 2 0 zero_slot (logs ! 0)) = 0" using a pc by simp
  then have "fst (rounds_loop 2 0 [0..<Suc 1] zero_slot (logs ! 0)) = 0" unfolding do_rounds_def by (simp only: Suc_1)
  then have "slot_matches_payload (ps_slots s ! 1) 1 1" using a by (auto simp del: rounds_loop.simps upt_Suc)
  then show ?thesis using a z l by blast
qed

section \<open>The program\<close>

text \<open>A kernel that numbers what it hands out by the calls so far, and refuses a number that is taken.\<close>

definition sample_os :: obmm_os where
  "sample_os =
     \<lparr>os_open = \<lambda>s path. if os_fds s 4 = None then 4 else - 1,
      os_open_region = \<lambda>s mem sync. if os_fds s (5 + int (os_calls s)) = None then 5 + int (os_calls s) else - 1,
      os_socket = \<lambda>s. if os_fds s 3 = None then 3 else - 1,
      os_mmap = \<lambda>s fd len. let a = 4096 * of_nat (os_calls s) in if a \<noteq> 0 \<and> os_maps s a = None then Some a else None,
      os_export = \<lambda>s sz. Some (7, 0x10000, 1),
      os_import = \<lambda>s cmd. let mem = of_nat (os_calls s) in if mem = 0 then None else Some mem,
      os_unexport = \<lambda>s mem. unused s mem, os_unimport = \<lambda>s mem. unused s mem\<rparr>"

lemma sample_os_takes_back: "takes_back sample_os"
  by (simp add: takes_back_def sample_os_def)

lemma sample_os_ok: "obmm_os_ok sample_os"
  by (auto simp: obmm_os_ok_def sample_os_def Let_def split: if_splits)

definition sample_start :: os_state where
  "sample_start = \<lparr>os_fds = [0 \<mapsto> None, 1 \<mapsto> None, 2 \<mapsto> None], os_maps = Map.empty, os_exports = {}, os_imports = {},
     os_kept_exports = {}, os_kept_imports = {}, os_calls = 0\<rparr>"

definition sample_pool_env :: host_env where
  "sample_pool_env = \<lparr>getenv = [''LINQU_UB_LOCAL_IP'' \<mapsto> ''10.0.0.1''], proc_cmdline = None, valid_ipv4 = \<lambda>_. True\<rparr>"

text \<open>The peer is never heard of: the exchange runs into its deadline with the own region exported and mapped.\<close>

definition sample_input :: pool_input where
  "sample_input = \<lparr>pi_iface = True, pi_cna_file = Some ''0x11'', pi_mem_windows = None, pi_hello = [[], []], pi_ready = [],
     pi_rounds = [], pi_own = zero_slot\<rparr>"

theorem pool_main_releases_witness:
  "\<exists>rc s. pool_main sample_os sample_pool_env sample_input sample_start = (rc, s) \<and>
    os_maps s = Map.empty \<and> os_exports s = {} \<and> os_fds s 4 = None"
proof -
  obtain rc s where r: "pool_main sample_os sample_pool_env sample_input sample_start = (rc, s)" by fastforce
  have "os_fds sample_start 0 = Some None" "\<forall>fd mem. os_fds sample_start fd \<noteq> Some (Some mem)"
    "os_maps sample_start = Map.empty" "os_exports sample_start = {}" "os_imports sample_start = {}"
    "os_kept_exports sample_start = {}" "os_kept_imports sample_start = {}"
    by (simp_all add: sample_start_def)
  from pool_main_releases [OF sample_os_ok this r] r sample_os_takes_back show ?thesis by (auto simp: sample_start_def)
qed

end
