(* ===== verification/RDMA_Queues.thy ===== *)
theory RDMA_Queues
  imports UB_Prelude
begin

text \<open>
  The queues of the RDMA demo (\<^verbatim>\<open>ub_rdma_demo.c\<close>): the completion ring whose entries carry an owner
  bit that changes meaning with every pass, the receive queue, and the send queue with its 64-byte entries.
  The ring is shown to hand out completions in the order the device produced them, for any number of them,
  and to show nothing before there is something; what is posted is where and what the device reads.
\<close>

section \<open>Buffers and indices\<close>

definition RDMA_Q_DEPTH :: u32 where "RDMA_Q_DEPTH = 64"
definition RDMA_CQ_SHIFT :: nat where "RDMA_CQ_SHIFT = 6"
definition RDMA_MAX_PAYLOAD :: u32 where "RDMA_MAX_PAYLOAD = 256"
definition UDMA_JFC_DB_VALID_OWNER_M :: u32 where "UDMA_JFC_DB_VALID_OWNER_M = 1"
definition UDMA_JFC_DB_CI_IDX_M :: u32 where "UDMA_JFC_DB_CI_IDX_M = 0x003fffff"
definition UDMA_JFR_DB_PI_M :: u32 where "UDMA_JFR_DB_PI_M = 0x0000ffff"
definition UBCORE_JETTY_USER :: u32 where "UBCORE_JETTY_USER = 1"
definition UBCORE_EID_SIZE :: nat where "UBCORE_EID_SIZE = 16"
definition CQE_FOR_SEND_LOCAL :: u32 where "CQE_FOR_SEND_LOCAL = 0"
definition CQE_FOR_RECEIVE_LOCAL :: u32 where "CQE_FOR_RECEIVE_LOCAL = 1"
definition EIO :: int where "EIO = 5"
definition EINVAL :: int where "EINVAL = 22"
definition ETIMEDOUT :: int where "ETIMEDOUT = 110"

text \<open>What the queue operations use of \<^verbatim>\<open>struct rdma_resources\<close>; the buffers with their contents, the
  completion ring apart, which the device writes.\<close>

record rdma_queues =
  rq_sq_pi :: u32
  rq_rq_pi :: u32
  rq_cq_ci :: u32
  rq_jfc_db_buf :: bytes
  rq_jfr_buf :: bytes
  rq_jfr_idx_buf :: bytes
  rq_jfr_db_buf :: bytes
  rq_jetty_buf :: bytes
  rq_jetty_db_buf :: bytes
  rq_bound_tpn :: u32
  rq_peer_jetty_id :: u32
  rq_peer_eid :: bytes

definition reverse_bytes :: "bytes \<Rightarrow> bytes" where
  "reverse_bytes src = map (\<lambda>i. src ! (length src - i - 1)) [0..<length src]"

section \<open>Completions\<close>

text \<open>An entry is 64 bytes; the fields are bits of its dwords.\<close>

definition dword_at :: "nat \<Rightarrow> bytes \<Rightarrow> u32" where
  "dword_at k xs = of_le (bytes_at (4 * k) 4 xs)"

definition cqe_s_r :: "bytes \<Rightarrow> u32" where "cqe_s_r cqe = dword_at 0 cqe AND 1"
definition cqe_owner :: "bytes \<Rightarrow> u32" where "cqe_owner cqe = drop_bit 2 (dword_at 0 cqe) AND 1"
definition cqe_status :: "bytes \<Rightarrow> u32" where "cqe_status cqe = drop_bit 24 (dword_at 0 cqe)"
definition cqe_byte_cnt :: "bytes \<Rightarrow> u32" where "cqe_byte_cnt cqe = dword_at 4 cqe"

definition rdma_cq_valid_owner :: "u32 \<Rightarrow> u32" where
  "rdma_cq_valid_owner ci = drop_bit RDMA_CQ_SHIFT ci AND UDMA_JFC_DB_VALID_OWNER_M"

definition cqe_at :: "bytes \<Rightarrow> nat \<Rightarrow> bytes" where
  "cqe_at cq i = bytes_at (64 * i) 64 cq"

definition rdma_get_cqe :: "bytes \<Rightarrow> u32 \<Rightarrow> bytes option" where
  "rdma_get_cqe cq ci =
     (let cqe = cqe_at cq (unat (ci AND (RDMA_Q_DEPTH - 1)))
      in if cqe_owner cqe XOR rdma_cq_valid_owner ci = 0 then None else Some cqe)"

definition rdma_consume_cqe :: "rdma_queues \<Rightarrow> rdma_queues" where
  "rdma_consume_cqe res =
     (let ci = rq_cq_ci res + 1
      in res\<lparr>rq_cq_ci := ci, rq_jfc_db_buf := put_at 0 (le32 (ci AND UDMA_JFC_DB_CI_IDX_M)) (rq_jfc_db_buf res)\<rparr>)"

text \<open>The loops get the contents of the ring each time they look at it; the end of a list is the deadline.\<close>

fun rdma_poll_one_cqe :: "rdma_queues \<Rightarrow> bytes list \<Rightarrow> int \<times> bytes \<times> rdma_queues" where
  "rdma_poll_one_cqe res [] = (- ETIMEDOUT, [], res)"
| "rdma_poll_one_cqe res (cq # looks) =
     (case rdma_get_cqe cq (rq_cq_ci res) of
        Some cqe \<Rightarrow> (0, cqe, rdma_consume_cqe res)
      | None \<Rightarrow> rdma_poll_one_cqe res looks)"

text \<open>One list of looks for every poll made before the deadline.\<close>

fun rdma_wait_for_cqe :: "rdma_queues \<Rightarrow> u32 \<Rightarrow> bytes list list \<Rightarrow> int \<times> bytes \<times> rdma_queues" where
  "rdma_wait_for_cqe res expect_s_r [] = (- ETIMEDOUT, [], res)"
| "rdma_wait_for_cqe res expect_s_r (looks # polls) =
     (case rdma_poll_one_cqe res looks of
        (ret, out, res1) \<Rightarrow>
          if ret = - ETIMEDOUT then rdma_wait_for_cqe res1 expect_s_r polls
          else if ret < 0 then (ret, out, res1)
          else if cqe_status out \<noteq> 0 then (- EIO, out, res1)
          else if cqe_s_r out = expect_s_r then (0, out, res1)
          else rdma_wait_for_cqe res1 expect_s_r polls)"

section \<open>Receive and send queue\<close>

definition rdma_post_recv_one :: "rdma_queues \<Rightarrow> u64 \<Rightarrow> u32 \<Rightarrow> int \<times> rdma_queues" where
  "rdma_post_recv_one res buf len =
     (let slot = unat (rq_rq_pi res AND (RDMA_Q_DEPTH - 1));
          new_pi = rq_rq_pi res + 1
      in (0, res\<lparr>rq_jfr_buf := put_at (16 * slot) (le32 len @ le32 0 @ le64 buf) (rq_jfr_buf res),
               rq_jfr_idx_buf := put_at (4 * slot) (le32 (of_nat slot)) (rq_jfr_idx_buf res),
               rq_rq_pi := new_pi, rq_jfr_db_buf := put_at 0 (le32 (new_pi AND UDMA_JFR_DB_PI_M)) (rq_jfr_db_buf res)\<rparr>))"

text \<open>The entry: the control block with its bit fields in the first 48 bytes, then the buffer.\<close>

definition udma_sqe :: "u32 \<Rightarrow> u32 \<Rightarrow> u32 \<Rightarrow> u32 \<Rightarrow> bytes \<Rightarrow> u32 \<Rightarrow> u64 \<Rightarrow> bytes" where
  "udma_sqe sq_pi owner tpn rmt_obj_id rmt_eid len va =
     le32 ((sq_pi AND 0xffff) OR push_bit 21 1 OR push_bit 29 (UBCORE_JETTY_USER AND 3) OR push_bit 31 owner) @
     le32 0 @
     le32 ((tpn AND 0xffffff) OR push_bit 24 1) @
     le32 (rmt_obj_id AND 0xfffff) @
     rmt_eid @ replicate 16 0 @
     le32 len @ le32 0 @ le64 va"

definition rdma_post_send_one :: "rdma_queues \<Rightarrow> u64 \<Rightarrow> u32 \<Rightarrow> int \<times> rdma_queues" where
  "rdma_post_send_one res buf len =
     (if len = 0 \<or> RDMA_MAX_PAYLOAD < len then (- EINVAL, res)
      else let slot = unat (rq_sq_pi res AND (RDMA_Q_DEPTH - 1));
               owner = (if rq_sq_pi res AND RDMA_Q_DEPTH = 0 then 1 else 0);
               new_pi = rq_sq_pi res + 1
           in (0, res\<lparr>rq_jetty_buf := put_at (64 * slot)
                        (udma_sqe (rq_sq_pi res) owner (rq_bound_tpn res) (rq_peer_jetty_id res) (rq_peer_eid res) len buf)
                        (rq_jetty_buf res),
                     rq_sq_pi := new_pi, rq_jetty_db_buf := put_at 0 (le32 new_pi) (rq_jetty_db_buf res)\<rparr>))"

section \<open>The completion ring\<close>

text \<open>The device: it writes the \<open>k\<close>-th completion into entry \<open>k mod 64\<close>, with the owner bit set on even
  passes and clear on odd ones.\<close>

definition hw_owner :: "nat \<Rightarrow> u32" where
  "hw_owner k = (if even (k div 64) then 1 else 0)"

definition hw_produced :: "bytes list \<Rightarrow> bool" where
  "hw_produced cs \<longleftrightarrow> (\<forall>k < length cs. length (cs ! k) = 64 \<and> cqe_owner (cs ! k) = hw_owner k)"

primrec hw_ring :: "bytes list \<Rightarrow> nat \<Rightarrow> bytes" where
  "hw_ring cs 0 = replicate 4096 0"
| "hw_ring cs (Suc k) = put_at (64 * (k mod 64)) (cs ! k) (hw_ring cs k)"

lemma length_hw_ring: "hw_produced cs \<Longrightarrow> p \<le> length cs \<Longrightarrow> length (hw_ring cs p) = 4096"
proof (induction p)
  case (Suc p)
  have "64 * (p mod 64) + 64 \<le> 4096" using mod_less_divisor [of 64 p] by linarith
  with Suc show ?case by (simp add: hw_produced_def)
qed simp

text \<open>What an entry holds after \<open>p\<close> completions: the last one written there, if any.\<close>

lemma cqe_at_put:
  assumes "length xs = 4096" and "length e = 64" and "i < 64" and "j < 64"
  shows "cqe_at (put_at (64 * i) e xs) j = (if j = i then e else cqe_at xs j)"
proof -
  have "64 * i + length e \<le> length xs" using assms by linarith
  moreover have "64 * j + 64 \<le> 64 * i \<or> 64 * i + 64 \<le> 64 * j" if "j \<noteq> i" using that by arith
  ultimately show ?thesis
    using assms(2) bytes_at_put_at_before [of "64 * i" e xs "64 * j" 64] bytes_at_put_at_after [of "64 * i" e xs "64 * j" 64]
    by (auto simp: cqe_at_def)
qed

lemma hw_ring_entry:
  assumes "hw_produced cs" and "p \<le> length cs" and "k < p" and "p \<le> k + 64"
  shows "cqe_at (hw_ring cs p) (k mod 64) = cs ! k"
  using assms
proof (induction p)
  case (Suc p)
  have len: "length (hw_ring cs p) = 4096" "length (cs ! p) = 64" using Suc.prems length_hw_ring by (auto simp: hw_produced_def)
  have e: "cqe_at (hw_ring cs (Suc p)) (k mod 64) = (if k mod 64 = p mod 64 then cs ! p else cqe_at (hw_ring cs p) (k mod 64))"
    using cqe_at_put [OF len, of "p mod 64" "k mod 64"] by simp
  show ?case
  proof (cases "k = p")
    case False
    with Suc.prems have k: "k < p" "p < k + 64" by simp_all
    have "k mod 64 \<noteq> p mod 64"
    proof
      assume "k mod 64 = p mod 64"
      then have "64 dvd p - k" using k mod_eq_dvd_iff_nat [of k p 64] by simp
      with k show False by (auto dest: dvd_imp_le)
    qed
    with e Suc k show ?thesis by simp
  qed (use e in simp)
qed simp

lemma hw_ring_empty:
  assumes "hw_produced cs" and "p \<le> length cs" and "p \<le> i" and "i < 64"
  shows "cqe_at (hw_ring cs p) i = replicate 64 0"
  using assms
proof (induction p)
  case 0
  then have "64 * i + 64 \<le> (4096 :: nat)" by simp
  then show ?case by (simp add: cqe_at_def bytes_at_def min_def)
next
  case (Suc p)
  have "length (hw_ring cs p) = 4096" "length (cs ! p) = 64" using Suc.prems length_hw_ring by (auto simp: hw_produced_def)
  with cqe_at_put [of "hw_ring cs p" "cs ! p" p i] Suc show ?case by simp
qed

text \<open>The index of the consumer counts modulo \<open>2 ^ 32\<close>; entry and pass do not see the difference.\<close>

lemma low_index: "unat ((of_nat k :: u32) AND (RDMA_Q_DEPTH - 1)) = k mod 64"
proof -
  have "(RDMA_Q_DEPTH - 1) = mask 6" by (simp add: RDMA_Q_DEPTH_def mask_eq_exp_minus_1)
  then have "unat ((of_nat k :: u32) AND (RDMA_Q_DEPTH - 1)) = take_bit 6 (take_bit 32 k)"
    by (simp add: take_bit_eq_mask [symmetric] unsigned_take_bit_eq unsigned_of_nat)
  also have "\<dots> = take_bit 6 k" by (simp only: take_bit_take_bit min_def) simp
  finally show ?thesis by (simp add: take_bit_eq_mod)
qed

lemma bit_of_nat_u32: "n < 32 \<Longrightarrow> bit (of_nat k :: u32) n \<longleftrightarrow> odd (k div 2 ^ n)"
proof -
  assume n: "n < 32"
  have "(of_nat k :: u32) = word_of_int (int k)" by simp
  with n have "bit (of_nat k :: u32) n \<longleftrightarrow> bit (int k) n" by (simp only: bit_word_of_int_iff) simp
  then show ?thesis by (simp add: bit_of_nat_iff bit_iff_odd [of k])
qed

lemma drop_bit_and_one: "drop_bit n (w :: u32) AND 1 = of_bool (bit w n)"
  by (simp add: and_one_eq bit_iff_odd_drop_bit odd_iff_mod_2_eq_one)

lemma valid_owner: "rdma_cq_valid_owner (of_nat k) = (if even (k div 64) then 0 else 1)"
  by (simp add: rdma_cq_valid_owner_def RDMA_CQ_SHIFT_def UDMA_JFC_DB_VALID_OWNER_M_def drop_bit_and_one bit_of_nat_u32)

lemma owner_zero_entry: "cqe_owner (replicate 64 0) = 0"
  by (simp add: cqe_owner_def dword_at_def bytes_at_def numeral_eq_Suc)

lemma get_cqe:
  assumes "hw_produced cs" and "p \<le> length cs" and "ci \<le> p" and "p \<le> ci + 64"
  shows "rdma_get_cqe (hw_ring cs p) (of_nat ci) = (if ci < p then Some (cs ! ci) else None)"
proof (cases "ci < p")
  case True
  have "cqe_at (hw_ring cs p) (ci mod 64) = cs ! ci" using hw_ring_entry assms True by blast
  moreover have "cqe_owner (cs ! ci) = hw_owner ci" using assms(1,2) True by (simp add: hw_produced_def)
  ultimately show ?thesis using True by (simp add: rdma_get_cqe_def low_index valid_owner hw_owner_def)
next
  case False
  with assms(3) have c: "ci = p" by simp
  have "cqe_owner (cqe_at (hw_ring cs p) (p mod 64)) = rdma_cq_valid_owner (of_nat p)"
  proof (cases "p < 64")
    case True
    then show ?thesis using hw_ring_empty [OF assms(1,2), of p] by (simp add: owner_zero_entry valid_owner)
  next
    case False
    then obtain q where q: "p = q + 64" by (metis le_add_diff_inverse2 not_less)
    have "cqe_at (hw_ring cs p) (q mod 64) = cs ! q" using hw_ring_entry [OF assms(1,2), of q] q by simp
    moreover have "cqe_owner (cs ! q) = hw_owner q" using assms(1,2) q by (simp add: hw_produced_def)
    moreover have "p div 64 = Suc (q div 64)" "p mod 64 = q mod 64" using q by simp_all
    ultimately show ?thesis using valid_owner [of p] by (simp add: hw_owner_def)
  qed
  then show ?thesis by (simp add: c rdma_get_cqe_def Let_def low_index)
qed

section \<open>Waiting for a completion\<close>

text \<open>What the program sees: at each look the number of completions the device has written, which never falls.
  At most 64 are written beyond those taken.\<close>

definition watches :: "bytes list \<Rightarrow> nat \<Rightarrow> nat list list \<Rightarrow> bool" where
  "watches cs ci pss \<longleftrightarrow>
     hw_produced cs \<and> length cs \<le> ci + 64 \<and> sorted (concat pss) \<and> (\<forall>p \<in> set (concat pss). ci \<le> p \<and> p \<le> length cs)"

definition hw_rings :: "bytes list \<Rightarrow> nat list list \<Rightarrow> bytes list list" where
  "hw_rings cs pss = map (map (hw_ring cs)) pss"

lemma poll_cqe:
  assumes "hw_produced cs" and "length cs \<le> ci + 64" and "\<forall>p \<in> set ps. ci \<le> p \<and> p \<le> length cs" and "rq_cq_ci res = of_nat ci"
  shows "rdma_poll_one_cqe res (map (hw_ring cs) ps) =
    (if \<exists>p \<in> set ps. ci < p then (0, cs ! ci, rdma_consume_cqe res) else (- ETIMEDOUT, [], res))"
  using assms(3) by (induction ps) (use assms(1,2,4) in \<open>auto simp: get_cqe\<close>)

lemma consume_ci: "rq_cq_ci res = of_nat ci \<Longrightarrow> rq_cq_ci (rdma_consume_cqe res) = of_nat (Suc ci)"
  by (simp add: rdma_consume_cqe_def Let_def)

lemma watches_Cons:
  assumes "watches cs ci (ps # pss)"
  shows "watches cs ci pss" "\<exists>p \<in> set ps. ci < p \<Longrightarrow> watches cs (Suc ci) pss" "\<forall>p \<in> set ps. ci \<le> p \<and> p \<le> length cs"
  using assms by (fastforce simp: watches_def sorted_append)+

text \<open>Completions that are taken and dropped: successful ones of the other kind.\<close>

definition passed_over :: "bytes list \<Rightarrow> u32 \<Rightarrow> nat \<Rightarrow> nat \<Rightarrow> bool" where
  "passed_over cs expect a b \<longleftrightarrow> a \<le> b \<and> (\<forall>j \<in> {a..<b}. cqe_status (cs ! j) = 0 \<and> cqe_s_r (cs ! j) \<noteq> expect)"

lemma passed_over_Suc:
  "passed_over cs expect (Suc a) b \<Longrightarrow> cqe_status (cs ! a) = 0 \<Longrightarrow> cqe_s_r (cs ! a) \<noteq> expect \<Longrightarrow> passed_over cs expect a b"
  by (auto simp: passed_over_def) (metis Suc_leI atLeastLessThan_iff le_neq_implies_less)+

lemma wait_sound:
  assumes "watches cs ci pss" and "rq_cq_ci res = of_nat ci" and "rdma_wait_for_cqe res expect (hw_rings cs pss) = (rc, out, res')"
  shows "\<exists>k. passed_over cs expect ci k \<and>
    (rc = - ETIMEDOUT \<and> rq_cq_ci res' = of_nat k \<or>
     k < length cs \<and> out = cs ! k \<and> rq_cq_ci res' = of_nat (Suc k) \<and>
       (rc = 0 \<and> cqe_status out = 0 \<and> cqe_s_r out = expect \<or> rc = - EIO \<and> cqe_status out \<noteq> 0))"
  using assms
proof (induction pss arbitrary: ci res)
  case Nil
  then show ?case by (auto simp: hw_rings_def passed_over_def)
next
  case (Cons ps pss)
  note w = watches_Cons [OF Cons.prems(1)]
  have p: "rdma_poll_one_cqe res (map (hw_ring cs) ps) =
      (if \<exists>p \<in> set ps. ci < p then (0, cs ! ci, rdma_consume_cqe res) else (- ETIMEDOUT, [], res))"
    by (rule poll_cqe) (use Cons.prems w in \<open>auto simp: watches_def\<close>)
  show ?case
  proof (cases "\<exists>p \<in> set ps. ci < p")
    case False
    with Cons.prems(3) p have "rdma_wait_for_cqe res expect (hw_rings cs pss) = (rc, out, res')" by (simp add: hw_rings_def)
    from Cons.IH [OF w(1) Cons.prems(2) this] show ?thesis .
  next
    case True
    then have ci: "ci < length cs" using w(3) by auto
    have nz: "(0 :: int) \<noteq> - ETIMEDOUT" by (simp add: ETIMEDOUT_def)
    have z: "passed_over cs expect ci ci" by (simp add: passed_over_def)
    consider "cqe_status (cs ! ci) \<noteq> 0" | "cqe_status (cs ! ci) = 0" "cqe_s_r (cs ! ci) = expect"
      | "cqe_status (cs ! ci) = 0" "cqe_s_r (cs ! ci) \<noteq> expect" by blast
    then show ?thesis
    proof cases
      case 3
      with Cons.prems(3) p True nz have "rdma_wait_for_cqe (rdma_consume_cqe res) expect (hw_rings cs pss) = (rc, out, res')"
        by (simp add: hw_rings_def)
      from Cons.IH [OF w(2) [OF True] consume_ci [OF Cons.prems(2)] this] passed_over_Suc [OF _ 3] show ?thesis by blast
    qed (use Cons.prems(3) p True nz z ci consume_ci [OF Cons.prems(2)] in \<open>auto simp: hw_rings_def intro!: exI [of _ ci]\<close>)
  qed
qed

lemma wait_finds:
  assumes "watches cs ci pss" and "rq_cq_ci res = of_nat ci" and "passed_over cs expect ci k"
    and "cqe_status (cs ! k) = 0" and "cqe_s_r (cs ! k) = expect"
    and "k - ci < length (filter (\<lambda>ps. \<exists>p \<in> set ps. k < p) pss)"
  shows "\<exists>res'. rdma_wait_for_cqe res expect (hw_rings cs pss) = (0, cs ! k, res') \<and> rq_cq_ci res' = of_nat (Suc k)"
  using assms
proof (induction pss arbitrary: ci res)
  case Nil
  then show ?case by simp
next
  case (Cons ps pss)
  note w = watches_Cons [OF Cons.prems(1)]
  have p: "rdma_poll_one_cqe res (map (hw_ring cs) ps) =
      (if \<exists>p \<in> set ps. ci < p then (0, cs ! ci, rdma_consume_cqe res) else (- ETIMEDOUT, [], res))"
    by (rule poll_cqe) (use Cons.prems w in \<open>auto simp: watches_def\<close>)
  have nz: "(0 :: int) \<noteq> - ETIMEDOUT" by (simp add: ETIMEDOUT_def)
  show ?case
  proof (cases "\<exists>p \<in> set ps. ci < p")
    case False
    have "ci \<le> k" using Cons.prems(3) by (simp add: passed_over_def)
    with False have "\<not> (\<exists>p \<in> set ps. k < p)" by (meson le_less_trans)
    then have "k - ci < length (filter (\<lambda>ps. \<exists>p \<in> set ps. k < p) pss)" using Cons.prems(6) by simp
    with Cons.IH [OF w(1) Cons.prems(2-5)] p False show ?thesis by (simp add: hw_rings_def)
  next
    case True
    show ?thesis
    proof (cases "ci = k")
      case True': True
      with Cons.prems(4,5) p True nz consume_ci [OF Cons.prems(2)] show ?thesis by (simp add: hw_rings_def)
    next
      case False
      with Cons.prems(3) have k: "ci < k" "cqe_status (cs ! ci) = 0" "cqe_s_r (cs ! ci) \<noteq> expect" "passed_over cs expect (Suc ci) k"
        by (auto simp: passed_over_def)
      have "k - Suc ci < length (filter (\<lambda>ps. \<exists>p \<in> set ps. k < p) pss)" using Cons.prems(6) k(1) by (auto split: if_splits)
      with Cons.IH [OF w(2) [OF True] consume_ci [OF Cons.prems(2)] k(4) Cons.prems(4,5)] p True nz k(2,3) show ?thesis
        by (simp add: hw_rings_def)
    qed
  qed
qed

text \<open>
  C10: waiting for a completion of one kind takes completions in the order the device wrote them, drops
  successful ones of the other kind, and stops at the first of its kind or at the first that failed, which it
  reports; the consumer index counts what was taken, also where it wraps around. When enough polls
  see the first completion of its kind behind only successful ones, it is returned; otherwise nothing of its kind was passed over.
\<close>

theorem wait_for_cqe_in_order:
  assumes "watches cs ci pss" and "rq_cq_ci res = of_nat ci" and "rdma_wait_for_cqe res expect (hw_rings cs pss) = (rc, out, res')"
  shows "(\<exists>k. passed_over cs expect ci k \<and>
      (rc = - ETIMEDOUT \<and> rq_cq_ci res' = of_nat k \<or>
       k < length cs \<and> out = cs ! k \<and> rq_cq_ci res' = of_nat (Suc k) \<and>
         (rc = 0 \<and> cqe_status out = 0 \<and> cqe_s_r out = expect \<or> rc = - EIO \<and> cqe_status out \<noteq> 0))) \<and>
    (\<forall>k. passed_over cs expect ci k \<longrightarrow> cqe_status (cs ! k) = 0 \<longrightarrow> cqe_s_r (cs ! k) = expect \<longrightarrow>
      k - ci < length (filter (\<lambda>ps. \<exists>p \<in> set ps. k < p) pss) \<longrightarrow> rc = 0 \<and> out = cs ! k)"
proof (intro conjI allI impI)
  fix k
  assume "passed_over cs expect ci k" "cqe_status (cs ! k) = 0" "cqe_s_r (cs ! k) = expect"
    "k - ci < length (filter (\<lambda>ps. \<exists>p \<in> set ps. k < p) pss)"
  from wait_finds [OF assms(1,2) this] assms(3) show "rc = 0" "out = cs ! k" by simp_all
qed (rule wait_sound [OF assms])

text \<open>
  C13: the program waits for the completion of its send before that of its receive. When the device
  writes the completion of the received reply first, the first wait drops it: it succeeds with the completion
  of the send, and the second wait times out, however long it looks.
\<close>

theorem reply_completion_lost:
  assumes "hw_produced [r, s]" and "cqe_status r = 0" and "cqe_s_r r = CQE_FOR_RECEIVE_LOCAL" and "cqe_status s = 0"
    and "cqe_s_r s = CQE_FOR_SEND_LOCAL" and "rq_cq_ci res = 0" and "2 \<le> n" and "\<forall>ps \<in> set pss. \<forall>p \<in> set ps. p = 2"
  shows "\<exists>res1. rdma_wait_for_cqe res CQE_FOR_SEND_LOCAL (hw_rings [r, s] (replicate n [2])) = (0, s, res1) \<and>
    fst (rdma_wait_for_cqe res1 CQE_FOR_RECEIVE_LOCAL (hw_rings [r, s] pss)) = - ETIMEDOUT"
proof -
  let ?cs = "[r, s]"
  have ne: "CQE_FOR_RECEIVE_LOCAL \<noteq> CQE_FOR_SEND_LOCAL" by (simp add: CQE_FOR_RECEIVE_LOCAL_def CQE_FOR_SEND_LOCAL_def)
  have w: "watches ?cs 0 (replicate n [2])"
    using assms(1) by (auto simp: watches_def sorted_wrt_iff_nth_less)
  have "passed_over ?cs CQE_FOR_SEND_LOCAL 0 1" using assms(2,3) ne by (simp add: passed_over_def)
  moreover have "1 - 0 < length (filter (\<lambda>ps. \<exists>p \<in> set ps. 1 < p) (replicate n [2 :: nat]))" using assms(7) by simp
  ultimately obtain res1 where r: "rdma_wait_for_cqe res CQE_FOR_SEND_LOCAL (hw_rings ?cs (replicate n [2])) = (0, s, res1)"
    "rq_cq_ci res1 = of_nat 2"
    using wait_finds [OF w, of res CQE_FOR_SEND_LOCAL 1] assms(4-6) by (auto simp: numeral_2_eq_2)
  have "replicate (length (concat pss)) 2 = concat pss" using assms(8) by (intro replicate_length_same) auto
  then have "sorted (concat pss)" by (metis sorted_replicate)
  moreover have "\<forall>p \<in> set (concat pss). 2 \<le> p \<and> p \<le> length ?cs" using assms(8) by fastforce
  ultimately have w2: "watches ?cs 2 pss" using assms(1) by (simp add: watches_def)
  obtain rc out res2 where e: "rdma_wait_for_cqe res1 CQE_FOR_RECEIVE_LOCAL (hw_rings ?cs pss) = (rc, out, res2)" by (metis prod_cases3)
  from wait_sound [OF w2 r(2) e] have "rc = - ETIMEDOUT" by (auto simp: passed_over_def)
  with r(1) e show ?thesis by simp
qed

section \<open>Posting a send\<close>

text \<open>The fields the device reads from an entry of the send queue.\<close>

definition sqe_bb_idx :: "bytes \<Rightarrow> u32" where "sqe_bb_idx e = dword_at 0 e AND 0xffff"
definition sqe_owner :: "bytes \<Rightarrow> u32" where "sqe_owner e = drop_bit 31 (dword_at 0 e)"
definition sqe_tpn :: "bytes \<Rightarrow> u32" where "sqe_tpn e = dword_at 2 e AND 0xffffff"
definition sqe_sge_num :: "bytes \<Rightarrow> u32" where "sqe_sge_num e = drop_bit 24 (dword_at 2 e)"
definition sqe_rmt_obj_id :: "bytes \<Rightarrow> u32" where "sqe_rmt_obj_id e = dword_at 3 e AND 0xfffff"

lemma length_udma_sqe: "length rmt_eid = 16 \<Longrightarrow> length (udma_sqe sq_pi owner tpn obj rmt_eid len va) = 64"
  by (simp add: udma_sqe_def)

lemma mask_consts: "(0xffff :: u32) = mask 16" "(0xffffff :: u32) = mask 24" "(0xfffff :: u32) = mask 20" "(3 :: u32) = mask 2"
  by (simp_all add: mask_eq_exp_minus_1)

lemma field_masks:
  fixes w :: u32
  shows "push_bit 31 w AND 0xffff = 0" "drop_bit 31 (w AND 0xffff) = 0" "drop_bit 24 (w AND 0xffffff) = 0"
  unfolding mask_consts by (rule bit_word_eqI; auto simp: bit_simps)+

lemma udma_sqe_fields:
  assumes "length rmt_eid = 16"
  shows "sqe_bb_idx (udma_sqe sq_pi owner tpn obj rmt_eid len va) = sq_pi AND 0xffff"
    "owner = 0 \<or> owner = 1 \<Longrightarrow> sqe_owner (udma_sqe sq_pi owner tpn obj rmt_eid len va) = owner"
    "sqe_tpn (udma_sqe sq_pi owner tpn obj rmt_eid len va) = tpn AND 0xffffff"
    "sqe_sge_num (udma_sqe sq_pi owner tpn obj rmt_eid len va) = 1"
    "sqe_rmt_obj_id (udma_sqe sq_pi owner tpn obj rmt_eid len va) = obj AND 0xfffff"
    "bytes_at 16 16 (udma_sqe sq_pi owner tpn obj rmt_eid len va) = rmt_eid"
    "dword_at 12 (udma_sqe sq_pi owner tpn obj rmt_eid len va) = len"
    "of_le (bytes_at 56 8 (udma_sqe sq_pi owner tpn obj rmt_eid len va)) = va"
proof -
  let ?e = "udma_sqe sq_pi owner tpn obj rmt_eid len va"
  have d0: "dword_at 0 ?e = (sq_pi AND 0xffff) OR 0x200000 OR 0x20000000 OR push_bit 31 owner"
    by (simp add: udma_sqe_def dword_at_def bytes_at_def UBCORE_JETTY_USER_def)
  have d2: "dword_at 2 ?e = (tpn AND 0xffffff) OR 0x1000000" by (simp add: udma_sqe_def dword_at_def bytes_at_def)
  have d3: "dword_at 3 ?e = obj AND 0xfffff" by (simp add: udma_sqe_def dword_at_def bytes_at_def)
  show "sqe_bb_idx ?e = sq_pi AND 0xffff"
    unfolding sqe_bb_idx_def d0 bit.conj_disj_distrib2 by (simp add: field_masks and.assoc)
  show "sqe_owner ?e = owner" if "owner = 0 \<or> owner = 1"
    unfolding sqe_owner_def d0 drop_bit_or using that by (auto simp: field_masks)
  show "sqe_tpn ?e = tpn AND 0xffffff"
    unfolding sqe_tpn_def d2 bit.conj_disj_distrib2 by (simp add: and.assoc)
  show "sqe_sge_num ?e = 1" unfolding sqe_sge_num_def d2 drop_bit_or by (simp add: field_masks)
  show "sqe_rmt_obj_id ?e = obj AND 0xfffff" by (simp add: sqe_rmt_obj_id_def d3)
  show "bytes_at 16 16 ?e = rmt_eid" "dword_at 12 ?e = len" "of_le (bytes_at 56 8 ?e) = va"
    using assms by (simp_all add: udma_sqe_def dword_at_def bytes_at_def)
qed

lemma sq_owner: "(if (of_nat n :: u32) AND RDMA_Q_DEPTH = 0 then 1 else 0) = hw_owner n"
proof -
  have "RDMA_Q_DEPTH = 2 ^ 6" by (simp add: RDMA_Q_DEPTH_def)
  then have "(of_nat n :: u32) AND RDMA_Q_DEPTH = 0 \<longleftrightarrow> \<not> bit (of_nat n :: u32) 6"
    by (metis and_exp_eq_0_iff_not_bit)
  then show ?thesis by (simp add: bit_of_nat_u32 hw_owner_def)
qed

text \<open>
  C12: the \<open>n\<close>-th send, for any \<open>n\<close>: a length of 0 or above 256 is refused and changes nothing; otherwise
  entry \<open>n mod 64\<close> of the send queue reads back as the request, with the owner bit the device expects
  in that pass and the peer's numbers cut to the width of their fields, every other entry is unchanged and the
  doorbell shows one more.
\<close>

theorem post_send_entry:
  assumes "length (rq_jetty_buf res) = 4096" and "length (rq_peer_eid res) = 16" and "4 \<le> length (rq_jetty_db_buf res)"
    and "rq_sq_pi res = of_nat n" and "rdma_post_send_one res buf len = (rc, res')"
  shows "if len = 0 \<or> RDMA_MAX_PAYLOAD < len then rc = - EINVAL \<and> res' = res
    else rc = 0 \<and> rq_sq_pi res' = of_nat (Suc n) \<and> dword_at 0 (rq_jetty_db_buf res') = of_nat (Suc n) \<and>
      (\<forall>j < 64. j \<noteq> n mod 64 \<longrightarrow> cqe_at (rq_jetty_buf res') j = cqe_at (rq_jetty_buf res) j) \<and>
      (let e = cqe_at (rq_jetty_buf res') (n mod 64)
       in sqe_owner e = hw_owner n \<and> sqe_bb_idx e = of_nat n AND 0xffff \<and> sqe_tpn e = rq_bound_tpn res AND 0xffffff \<and>
          sqe_rmt_obj_id e = rq_peer_jetty_id res AND 0xfffff \<and> bytes_at 16 16 e = rq_peer_eid res \<and>
          sqe_sge_num e = 1 \<and> dword_at 12 e = len \<and> of_le (bytes_at 56 8 e) = buf)"
proof (cases "len = 0 \<or> RDMA_MAX_PAYLOAD < len")
  case True
  with assms(5) show ?thesis by (auto simp: rdma_post_send_one_def)
next
  case False
  define e where "e = udma_sqe (of_nat n) (hw_owner n) (rq_bound_tpn res) (rq_peer_jetty_id res) (rq_peer_eid res) len buf"
  have l: "length e = 64" by (simp add: e_def length_udma_sqe assms(2))
  have r: "rc = 0" "res' = res\<lparr>rq_jetty_buf := put_at (64 * (n mod 64)) e (rq_jetty_buf res), rq_sq_pi := of_nat (Suc n),
      rq_jetty_db_buf := put_at 0 (le32 (of_nat (Suc n))) (rq_jetty_db_buf res)\<rparr>"
    using assms(4,5) False by (auto simp: rdma_post_send_one_def Let_def sq_owner low_index e_def add.commute)
  have c: "cqe_at (put_at (64 * (n mod 64)) e (rq_jetty_buf res)) j = (if j = n mod 64 then e else cqe_at (rq_jetty_buf res) j)" if "j < 64" for j
    using cqe_at_put [OF assms(1) l, of "n mod 64" j] that by simp
  have "dword_at 0 (put_at 0 (le32 (of_nat (Suc n))) (rq_jetty_db_buf res)) = of_nat (Suc n)"
    using assms(3) by (simp add: dword_at_def)
  moreover have "hw_owner n = 0 \<or> hw_owner n = 1" by (simp add: hw_owner_def)
  ultimately show ?thesis
    using False r c udma_sqe_fields [OF assms(2), where owner = "hw_owner n" and sq_pi = "of_nat n"] by (simp add: e_def [symmetric] Let_def) (simp add: e_def)
qed

text \<open>Posting a receive, for any number of them.\<close>

lemma post_recv_entry:
  assumes "length (rq_jfr_buf res) = 4096" and "length (rq_jfr_idx_buf res) = 4096" and "rq_rq_pi res = of_nat n"
    and "rdma_post_recv_one res buf len = (rc, res')"
  shows "rc = 0" "bytes_at (16 * (n mod 64)) 16 (rq_jfr_buf res') = le32 len @ le32 0 @ le64 buf"
    "dword_at (n mod 64) (rq_jfr_idx_buf res') = of_nat (n mod 64)" "rq_rq_pi res' = of_nat (Suc n)"
proof -
  have "n mod 64 < 64" by simp
  then have "16 * (n mod 64) + 16 \<le> 4096" "4 * (n mod 64) + 4 \<le> 4096" by linarith+
  with assms show "rc = 0" "bytes_at (16 * (n mod 64)) 16 (rq_jfr_buf res') = le32 len @ le32 0 @ le64 buf"
    "dword_at (n mod 64) (rq_jfr_idx_buf res') = of_nat (n mod 64)" "rq_rq_pi res' = of_nat (Suc n)"
    by (auto simp: rdma_post_recv_one_def Let_def low_index dword_at_def add.commute)
qed

end
