(* ===== verification/RDMA_Layout.thy ===== *)
theory RDMA_Layout
  imports UB_Prelude
begin

text \<open>
  The argument blocks of the uburma commands (\<^verbatim>\<open>uburma_cmd_user_compat.h\<close>) and the attribute numbers
  of \<^verbatim>\<open>ub_rdma_demo.c\<close>: C types with size, alignment and the place of a field as the AArch64 ABI
  lays them out, and every struct, union and enumeration of the two files as a value of them.
\<close>

section \<open>C types\<close>

text \<open>Integers by size, arrays, structs, unions, and a struct of bit fields of 32-bit type by their widths. Sizes are
  integers, so that they are computed in binary.\<close>

datatype ctype =
    CInt int
  | CArr int ctype
  | CStruct "(string \<times> ctype) list"
  | CUnion "(string \<times> ctype) list"
  | CBits "(string \<times> int) list"

definition round_up :: "int \<Rightarrow> int \<Rightarrow> int" where
  "round_up a n = (n + a - 1) div a * a"

fun c_align :: "ctype \<Rightarrow> int" where
  "c_align (CInt n) = n"
| "c_align (CArr k t) = c_align t"
| "c_align (CStruct fs) = foldr max (map (\<lambda>f. c_align (snd f)) fs) 1"
| "c_align (CUnion fs) = foldr max (map (\<lambda>f. c_align (snd f)) fs) 1"
| "c_align (CBits fs) = 4"

text \<open>The end of a struct whose fields have the given alignments and sizes, and where the fields start.\<close>

fun c_end :: "int \<Rightarrow> (int \<times> int) list \<Rightarrow> int" where
  "c_end off [] = off"
| "c_end off ((a, n) # fs) = c_end (round_up a off + n) fs"

fun c_size :: "ctype \<Rightarrow> int" where
  "c_size (CInt n) = n"
| "c_size (CArr k t) = k * c_size t"
| "c_size (CStruct fs) = round_up (c_align (CStruct fs)) (c_end 0 (map (\<lambda>f. (c_align (snd f), c_size (snd f))) fs))"
| "c_size (CUnion fs) = round_up (c_align (CUnion fs)) (foldr max (map (\<lambda>f. c_size (snd f)) fs) 0)"
| "c_size (CBits fs) = 4 * ((sum_list (map snd fs) + 31) div 32)"

fun c_field :: "int \<Rightarrow> (string \<times> ctype) list \<Rightarrow> string \<Rightarrow> (int \<times> ctype) option" where
  "c_field off [] name = None"
| "c_field off ((f, t) # fs) name =
     (if f = name then Some (round_up (c_align t) off, t) else c_field (round_up (c_align t) off + c_size t) fs name)"

text \<open>Offset and type of a nested field, as in \<^verbatim>\<open>offsetof\<close>.\<close>

fun c_resolve :: "ctype \<Rightarrow> string list \<Rightarrow> (int \<times> ctype) option" where
  "c_resolve t [] = Some (0, t)"
| "c_resolve t (f # path) =
     (case (case t of CStruct fs \<Rightarrow> c_field 0 fs f | CUnion fs \<Rightarrow> map_option (\<lambda>u. (0, u)) (map_of fs f) | _ \<Rightarrow> None) of
        None \<Rightarrow> None
      | Some (off, u) \<Rightarrow> map_option (\<lambda>(o', v). (off + o', v)) (c_resolve u path))"

section \<open>Argument blocks\<close>

definition ubcore_eid_user :: ctype where
  "ubcore_eid_user = CUnion
     [(''raw'', CArr 16 (CInt 1)),
      (''in4'', CStruct
         [(''reserved'', CInt 8),
          (''prefix'', CInt 4),
          (''addr'', CInt 4)]),
      (''in6'', CStruct
         [(''subnet_prefix'', CInt 8),
          (''interface_id'', CInt 8)])]"

definition ubcore_eid_info_user :: ctype where
  "ubcore_eid_info_user = CStruct
     [(''eid'', ubcore_eid_user),
      (''eid_index'', CInt 4)]"

definition ubcore_device_feat_user :: ctype where
  "ubcore_device_feat_user = CUnion
     [(''bs'', CBits [(''oor'', 1), (''jfc_per_wr'', 1), (''stride_op'', 1), (''load_store_op'', 1), (''non_pin'', 1),
                      (''pmem'', 1), (''jfc_inline'', 1), (''spray_en'', 1), (''selective_retrans'', 1),
                      (''live_migrate'', 1), (''dca'', 1), (''jetty_grp'', 1), (''err_suspend'', 1),
                      (''outorder_comp'', 1), (''mn'', 1), (''clan'', 1), (''muti_seg_per_token_id'', 1),
                      (''ipourma_en'', 1), (''ctp_en'', 1), (''uboe'', 1), (''reserved'', 12)]),
      (''value'', CInt 4)]"

definition ubcore_atomic_feat_user :: ctype where
  "ubcore_atomic_feat_user = CUnion
     [(''bs'', CBits [(''cas'', 1), (''swap'', 1), (''fetch_and_add'', 1), (''fetch_and_sub'', 1),
                      (''fetch_and_and'', 1), (''fetch_and_or'', 1), (''fetch_and_xor'', 1), (''reserved'', 25)]),
      (''value'', CInt 4)]"

definition ubcore_order_type_cap_user :: ctype where
  "ubcore_order_type_cap_user = CUnion
     [(''bs'', CBits [(''ot'', 1), (''oi'', 1), (''ol'', 1), (''no'', 1), (''reserved'', 28)]),
      (''value'', CInt 4)]"

definition urma_tp_type_cap_user :: ctype where
  "urma_tp_type_cap_user = CUnion
     [(''bs'', CBits [(''rtp'', 1), (''ctp'', 1), (''utp'', 1), (''reserved'', 29)]),
      (''value'', CInt 4)]"

definition urma_tp_feature_user :: ctype where
  "urma_tp_feature_user = CUnion
     [(''bs'', CBits [(''rm_multi_path'', 1), (''rc_multi_path'', 1), (''reserved'', 30)]),
      (''value'', CInt 4)]"

definition ubcore_sl_info_user :: ctype where
  "ubcore_sl_info_user = CStruct
     [(''SL'', CInt 4),
      (''tp_type'', urma_tp_type_cap_user)]"

definition uburma_cmd_hdr :: ctype where
  "uburma_cmd_hdr = CStruct
     [(''command'', CInt 4),
      (''args_len'', CInt 4),
      (''args_addr'', CInt 8)]"

definition uburma_cmd_udrv_priv :: ctype where
  "uburma_cmd_udrv_priv = CStruct
     [(''in_addr'', CInt 8),
      (''in_len'', CInt 4),
      (''out_addr'', CInt 8),
      (''out_len'', CInt 4)]"

definition uburma_cmd_token_id_flag :: ctype where
  "uburma_cmd_token_id_flag = CUnion
     [(''bs'', CBits [(''multi_seg'', 1), (''reserved'', 31)]),
      (''value'', CInt 4)]"

definition uburma_cmd_alloc_token_id :: ctype where
  "uburma_cmd_alloc_token_id = CStruct
     [(''out'', CStruct
         [(''token_id'', CInt 4),
          (''handle'', CInt 8)]),
      (''udata'', uburma_cmd_udrv_priv),
      (''flag'', uburma_cmd_token_id_flag)]"

definition uburma_cmd_free_token_id :: ctype where
  "uburma_cmd_free_token_id = CStruct
     [(''in'', CStruct
         [(''handle'', CInt 8),
          (''token_id'', CInt 4)])]"

definition uburma_cmd_create_ctx :: ctype where
  "uburma_cmd_create_ctx = CStruct
     [(''in'', CStruct
         [(''eid'', CArr 16 (CInt 1)),
          (''eid_index'', CInt 4)]),
      (''out'', CStruct
         [(''async_fd'', CInt 4)]),
      (''udata'', uburma_cmd_udrv_priv)]"

definition uburma_cmd_alloc_jfc :: ctype where
  "uburma_cmd_alloc_jfc = CStruct
     [(''in'', CStruct
         [(''depth'', CInt 4),
          (''flag'', CInt 4),
          (''jfce_fd'', CInt 4),
          (''urma_jfc'', CInt 8),
          (''ceqn'', CInt 4)]),
      (''out'', CStruct
         [(''id'', CInt 4),
          (''depth'', CInt 4),
          (''handle'', CInt 8)]),
      (''udata'', uburma_cmd_udrv_priv)]"

definition uburma_cmd_active_jfc :: ctype where
  "uburma_cmd_active_jfc = CStruct
     [(''in'', CStruct
         [(''handle'', CInt 8),
          (''depth'', CInt 4),
          (''flag'', CInt 4),
          (''ceqn'', CInt 4),
          (''urma_jfc_opt'', CInt 8)]),
      (''out'', CStruct
         [(''id'', CInt 4),
          (''depth'', CInt 4),
          (''handle'', CInt 8)]),
      (''udata'', uburma_cmd_udrv_priv)]"

definition uburma_cmd_alloc_jfr :: ctype where
  "uburma_cmd_alloc_jfr = CStruct
     [(''in'', CStruct
         [(''depth'', CInt 4),
          (''flag'', CInt 4),
          (''trans_mode'', CInt 4),
          (''max_sge'', CInt 1),
          (''min_rnr_timer'', CInt 1),
          (''jfc_id'', CInt 4),
          (''jfc_handle'', CInt 8),
          (''token'', CInt 4),
          (''id'', CInt 4),
          (''urma_jfr'', CInt 8)]),
      (''out'', CStruct
         [(''id'', CInt 4),
          (''depth'', CInt 4),
          (''handle'', CInt 8),
          (''max_sge'', CInt 1)]),
      (''udata'', uburma_cmd_udrv_priv)]"

definition uburma_cmd_active_jfr :: ctype where
  "uburma_cmd_active_jfr = CStruct
     [(''in'', CStruct
         [(''handle'', CInt 8),
          (''depth'', CInt 4),
          (''flag'', CInt 4),
          (''trans_mode'', CInt 4),
          (''max_sge'', CInt 1),
          (''min_rnr_timer'', CInt 1),
          (''jfc_id'', CInt 4),
          (''jfc_handle'', CInt 8),
          (''token_value'', CInt 4),
          (''urma_jfr_opt'', CInt 8)]),
      (''out'', CStruct
         [(''id'', CInt 4),
          (''depth'', CInt 4),
          (''handle'', CInt 8),
          (''max_sge'', CInt 1)]),
      (''udata'', uburma_cmd_udrv_priv)]"

definition uburma_cmd_alloc_jfs :: ctype where
  "uburma_cmd_alloc_jfs = CStruct
     [(''in'', CStruct
         [(''depth'', CInt 4),
          (''flag'', CInt 4),
          (''trans_mode'', CInt 4),
          (''priority'', CInt 1),
          (''max_sge'', CInt 1),
          (''max_rsge'', CInt 1),
          (''max_inline_data'', CInt 4),
          (''rnr_retry'', CInt 1),
          (''err_timeout'', CInt 1),
          (''jfc_id'', CInt 4),
          (''jfc_handle'', CInt 8),
          (''urma_jfs'', CInt 8)]),
      (''out'', CStruct
         [(''id'', CInt 4),
          (''depth'', CInt 4),
          (''max_sge'', CInt 1),
          (''max_rsge'', CInt 1),
          (''max_inline_data'', CInt 4),
          (''handle'', CInt 8)]),
      (''udata'', uburma_cmd_udrv_priv)]"

definition uburma_cmd_active_jfs :: ctype where
  "uburma_cmd_active_jfs = CStruct
     [(''in'', CStruct
         [(''handle'', CInt 8),
          (''depth'', CInt 4),
          (''flag'', CInt 4),
          (''trans_mode'', CInt 4),
          (''priority'', CInt 4),
          (''max_sge'', CInt 1),
          (''max_rsge'', CInt 1),
          (''max_inline_data'', CInt 4),
          (''rnr_retry'', CInt 1),
          (''err_timeout'', CInt 1),
          (''jfc_id'', CInt 4),
          (''jfc_handle'', CInt 8),
          (''jfs_opt'', CInt 8)]),
      (''out'', CStruct
         [(''id'', CInt 4),
          (''depth'', CInt 4),
          (''max_sge'', CInt 1),
          (''max_rsge'', CInt 1),
          (''max_inline_data'', CInt 4),
          (''handle'', CInt 8)]),
      (''udata'', uburma_cmd_udrv_priv)]"

definition uburma_cmd_create_jetty :: ctype where
  "uburma_cmd_create_jetty = CStruct
     [(''in'', CStruct
         [(''id'', CInt 4),
          (''jetty_flag'', CInt 4),
          (''jfs_depth'', CInt 4),
          (''jfs_flag'', CInt 4),
          (''trans_mode'', CInt 4),
          (''priority'', CInt 1),
          (''max_send_sge'', CInt 1),
          (''max_send_rsge'', CInt 1),
          (''max_inline_data'', CInt 4),
          (''rnr_retry'', CInt 1),
          (''err_timeout'', CInt 1),
          (''send_jfc_id'', CInt 4),
          (''send_jfc_handle'', CInt 8),
          (''jfr_depth'', CInt 4),
          (''jfr_flag'', CInt 4),
          (''max_recv_sge'', CInt 1),
          (''min_rnr_timer'', CInt 1),
          (''recv_jfc_id'', CInt 4),
          (''recv_jfc_handle'', CInt 8),
          (''token'', CInt 4),
          (''jfr_id'', CInt 4),
          (''jfr_handle'', CInt 8),
          (''jetty_grp_handle'', CInt 8),
          (''is_jetty_grp'', CInt 1),
          (''urma_jetty'', CInt 8)]),
      (''out'', CStruct
         [(''id'', CInt 4),
          (''handle'', CInt 8),
          (''jfs_depth'', CInt 4),
          (''jfr_depth'', CInt 4),
          (''max_send_sge'', CInt 1),
          (''max_send_rsge'', CInt 1),
          (''max_recv_sge'', CInt 1),
          (''max_inline_data'', CInt 4)]),
      (''udata'', uburma_cmd_udrv_priv)]"

definition uburma_cmd_alloc_jetty :: ctype where
  "uburma_cmd_alloc_jetty = CStruct
     [(''create_jetty'', uburma_cmd_create_jetty)]"

definition uburma_cmd_active_jetty :: ctype where
  "uburma_cmd_active_jetty = CStruct
     [(''in'', CStruct
         [(''flag'', CInt 4),
          (''handle'', CInt 8),
          (''send_jfc_handle'', CInt 8),
          (''recv_jfc_handle'', CInt 8),
          (''urma_jetty'', CInt 8),
          (''jetty_opt'', CInt 8)]),
      (''out'', CStruct
         [(''jetty_id'', CInt 4)]),
      (''udata'', uburma_cmd_udrv_priv)]"

definition uburma_cmd_register_seg :: ctype where
  "uburma_cmd_register_seg = CStruct
     [(''in'', CStruct
         [(''va'', CInt 8),
          (''len'', CInt 8),
          (''token_id'', CInt 4),
          (''token_id_handle'', CInt 8),
          (''token'', CInt 4),
          (''flag'', CInt 4)]),
      (''out'', CStruct
         [(''token_id'', CInt 4),
          (''handle'', CInt 8)]),
      (''udata'', uburma_cmd_udrv_priv)]"

definition uburma_cmd_unregister_seg :: ctype where
  "uburma_cmd_unregister_seg = CStruct
     [(''in'', CStruct
         [(''handle'', CInt 8)])]"

definition uburma_cmd_get_eid_list :: ctype where
  "uburma_cmd_get_eid_list = CStruct
     [(''in'', CStruct
         [(''max_eid_cnt'', CInt 4)]),
      (''out'', CStruct
         [(''eid_cnt'', CInt 4),
          (''eid_list'', CArr 1024 (ubcore_eid_info_user))])]"

definition uburma_cmd_import_jetty :: ctype where
  "uburma_cmd_import_jetty = CStruct
     [(''in'', CStruct
         [(''eid'', CArr 16 (CInt 1)),
          (''id'', CInt 4),
          (''flag'', CInt 4),
          (''token'', CInt 4),
          (''trans_mode'', CInt 4),
          (''policy'', CInt 4),
          (''type'', CInt 4),
          (''tp_type'', CInt 4)]),
      (''out'', CStruct
         [(''tpn'', CInt 4),
          (''handle'', CInt 8)]),
      (''udata'', uburma_cmd_udrv_priv)]"

definition uburma_cmd_bind_jetty :: ctype where
  "uburma_cmd_bind_jetty = CStruct
     [(''in'', CStruct
         [(''jetty_handle'', CInt 8),
          (''tjetty_handle'', CInt 8)]),
      (''out'', CStruct
         [(''tpn'', CInt 4)]),
      (''udata'', uburma_cmd_udrv_priv)]"

definition ubcore_guid_user :: ctype where
  "ubcore_guid_user = CStruct
     [(''raw'', CArr 16 (CInt 1))]"

definition uburma_cmd_device_cap :: ctype where
  "uburma_cmd_device_cap = CStruct
     [(''feature'', ubcore_device_feat_user),
      (''max_jfc'', CInt 4),
      (''max_jfs'', CInt 4),
      (''max_jfr'', CInt 4),
      (''max_jetty'', CInt 4),
      (''max_jetty_grp'', CInt 4),
      (''max_jetty_in_jetty_grp'', CInt 4),
      (''max_jfc_depth'', CInt 4),
      (''max_jfs_depth'', CInt 4),
      (''max_jfr_depth'', CInt 4),
      (''max_jfs_inline_len'', CInt 4),
      (''max_jfs_sge'', CInt 4),
      (''max_jfs_rsge'', CInt 4),
      (''max_jfr_sge'', CInt 4),
      (''max_msg_size'', CInt 8),
      (''max_read_size'', CInt 4),
      (''max_write_size'', CInt 4),
      (''max_cas_size'', CInt 4),
      (''max_swap_size'', CInt 4),
      (''max_fetch_and_add_size'', CInt 4),
      (''max_fetch_and_sub_size'', CInt 4),
      (''max_fetch_and_and_size'', CInt 4),
      (''max_fetch_and_or_size'', CInt 4),
      (''max_fetch_and_xor_size'', CInt 4),
      (''atomic_feat'', ubcore_atomic_feat_user),
      (''trans_mode'', CInt 2),
      (''sub_trans_mode_cap'', CInt 2),
      (''congestion_ctrl_alg'', CInt 2),
      (''ceq_cnt'', CInt 4),
      (''max_tp_in_tpg'', CInt 4),
      (''max_eid_cnt'', CInt 4),
      (''page_size_cap'', CInt 8),
      (''max_oor_cnt'', CInt 4),
      (''mn'', CInt 4),
      (''max_netaddr_cnt'', CInt 4),
      (''rm_order_cap'', ubcore_order_type_cap_user),
      (''rc_order_cap'', ubcore_order_type_cap_user),
      (''rm_tp_cap'', urma_tp_type_cap_user),
      (''rc_tp_cap'', urma_tp_type_cap_user),
      (''um_tp_cap'', urma_tp_type_cap_user),
      (''tp_feature'', urma_tp_feature_user),
      (''priority_info'', CArr 16 (ubcore_sl_info_user))]"

definition uburma_cmd_port_attr :: ctype where
  "uburma_cmd_port_attr = CStruct
     [(''max_mtu'', CInt 4),
      (''state'', CInt 4),
      (''active_width'', CInt 4),
      (''active_speed'', CInt 4),
      (''active_mtu'', CInt 4)]"

definition uburma_cmd_device_attr :: ctype where
  "uburma_cmd_device_attr = CStruct
     [(''guid'', ubcore_guid_user),
      (''dev_cap'', uburma_cmd_device_cap),
      (''port_cnt'', CInt 1),
      (''port_attr'', CArr 8 (uburma_cmd_port_attr)),
      (''reserved_jetty_id_min'', CInt 4),
      (''reserved_jetty_id_max'', CInt 4)]"

definition uburma_cmd_query_device_attr :: ctype where
  "uburma_cmd_query_device_attr = CStruct
     [(''in'', CStruct
         [(''dev_name'', CArr 64 (CInt 1))]),
      (''out'', CStruct
         [(''attr'', uburma_cmd_device_attr)])]"

definition uburma_cmd_unbind_jetty_local :: ctype where
  "uburma_cmd_unbind_jetty_local = CStruct
     [(''in'', CStruct
         [(''jetty_handle'', CInt 8),
          (''tjetty_handle'', CInt 8)])]"

definition uburma_cmd_unimport_jetty_local :: ctype where
  "uburma_cmd_unimport_jetty_local = CStruct
     [(''in'', CStruct
         [(''handle'', CInt 8)])]"

section \<open>Enumerations\<close>

named_theorems tlv_numbers \<open>the numbers of commands and attributes\<close>

definition UBURMA_CMD_OUT_TYPE_INIT :: int where [tlv_numbers]: "UBURMA_CMD_OUT_TYPE_INIT = 0x80"

text \<open>The commands of \<^verbatim>\<open>enum uburma_cmd_user\<close> that have attribute lists.\<close>

definition UBURMA_CMD_CREATE_CTX :: u32 where [tlv_numbers]: "UBURMA_CMD_CREATE_CTX = 1"
definition UBURMA_CMD_ALLOC_TOKEN_ID :: u32 where [tlv_numbers]: "UBURMA_CMD_ALLOC_TOKEN_ID = 2"
definition UBURMA_CMD_FREE_TOKEN_ID :: u32 where [tlv_numbers]: "UBURMA_CMD_FREE_TOKEN_ID = 3"
definition UBURMA_CMD_REGISTER_SEG :: u32 where [tlv_numbers]: "UBURMA_CMD_REGISTER_SEG = 4"
definition UBURMA_CMD_UNREGISTER_SEG :: u32 where [tlv_numbers]: "UBURMA_CMD_UNREGISTER_SEG = 5"
definition UBURMA_CMD_IMPORT_JETTY :: u32 where [tlv_numbers]: "UBURMA_CMD_IMPORT_JETTY = 26"
definition UBURMA_CMD_UNIMPORT_JETTY :: u32 where [tlv_numbers]: "UBURMA_CMD_UNIMPORT_JETTY = 27"
definition UBURMA_CMD_BIND_JETTY :: u32 where [tlv_numbers]: "UBURMA_CMD_BIND_JETTY = 32"
definition UBURMA_CMD_UNBIND_JETTY :: u32 where [tlv_numbers]: "UBURMA_CMD_UNBIND_JETTY = 33"
definition UBURMA_CMD_GET_EID_LIST :: u32 where [tlv_numbers]: "UBURMA_CMD_GET_EID_LIST = 37"
definition UBURMA_CMD_QUERY_DEV_ATTR :: u32 where [tlv_numbers]: "UBURMA_CMD_QUERY_DEV_ATTR = 40"
definition UBURMA_CMD_ALLOC_JFC :: u32 where [tlv_numbers]: "UBURMA_CMD_ALLOC_JFC = 61"
definition UBURMA_CMD_ACTIVE_JFC :: u32 where [tlv_numbers]: "UBURMA_CMD_ACTIVE_JFC = 65"
definition UBURMA_CMD_ALLOC_JFR :: u32 where [tlv_numbers]: "UBURMA_CMD_ALLOC_JFR = 67"
definition UBURMA_CMD_ACTIVE_JFR :: u32 where [tlv_numbers]: "UBURMA_CMD_ACTIVE_JFR = 71"
definition UBURMA_CMD_ALLOC_JFS :: u32 where [tlv_numbers]: "UBURMA_CMD_ALLOC_JFS = 73"
definition UBURMA_CMD_ACTIVE_JFS :: u32 where [tlv_numbers]: "UBURMA_CMD_ACTIVE_JFS = 77"
definition UBURMA_CMD_ALLOC_JETTY :: u32 where [tlv_numbers]: "UBURMA_CMD_ALLOC_JETTY = 79"
definition UBURMA_CMD_ACTIVE_JETTY :: u32 where [tlv_numbers]: "UBURMA_CMD_ACTIVE_JETTY = 83"

text \<open>\<^verbatim>\<open>enum uburma_cmd_create_ctx_type\<close>.\<close>

definition CREATE_CTX_IN_EID :: int where [tlv_numbers]: "CREATE_CTX_IN_EID = 0"
definition CREATE_CTX_IN_EID_INDEX :: int where [tlv_numbers]: "CREATE_CTX_IN_EID_INDEX = 1"
definition CREATE_CTX_IN_UDATA :: int where [tlv_numbers]: "CREATE_CTX_IN_UDATA = 2"
definition CREATE_CTX_IN_NUM :: int where [tlv_numbers]: "CREATE_CTX_IN_NUM = 3"
definition CREATE_CTX_OUT_ASYNC_FD :: int where [tlv_numbers]: "CREATE_CTX_OUT_ASYNC_FD = UBURMA_CMD_OUT_TYPE_INIT"
definition CREATE_CTX_OUT_UDATA :: int where [tlv_numbers]: "CREATE_CTX_OUT_UDATA = UBURMA_CMD_OUT_TYPE_INIT + 1"
definition CREATE_CTX_OUT_NUM :: int where [tlv_numbers]: "CREATE_CTX_OUT_NUM = UBURMA_CMD_OUT_TYPE_INIT + 2"

text \<open>\<^verbatim>\<open>enum uburma_cmd_alloc_token_id_type\<close>.\<close>

definition ALLOC_TOKEN_ID_IN_UDATA :: int where [tlv_numbers]: "ALLOC_TOKEN_ID_IN_UDATA = 0"
definition ALLOC_TOKEN_ID_IN_FLAG :: int where [tlv_numbers]: "ALLOC_TOKEN_ID_IN_FLAG = 1"
definition ALLOC_TOKEN_ID_IN_NUM :: int where [tlv_numbers]: "ALLOC_TOKEN_ID_IN_NUM = 2"
definition ALLOC_TOKEN_ID_OUT_TOKEN_ID :: int where [tlv_numbers]: "ALLOC_TOKEN_ID_OUT_TOKEN_ID = UBURMA_CMD_OUT_TYPE_INIT"
definition ALLOC_TOKEN_ID_OUT_HANDLE :: int where [tlv_numbers]: "ALLOC_TOKEN_ID_OUT_HANDLE = UBURMA_CMD_OUT_TYPE_INIT + 1"
definition ALLOC_TOKEN_ID_OUT_UDATA :: int where [tlv_numbers]: "ALLOC_TOKEN_ID_OUT_UDATA = UBURMA_CMD_OUT_TYPE_INIT + 2"
definition ALLOC_TOKEN_ID_OUT_NUM :: int where [tlv_numbers]: "ALLOC_TOKEN_ID_OUT_NUM = UBURMA_CMD_OUT_TYPE_INIT + 3"

text \<open>\<^verbatim>\<open>enum uburma_cmd_free_token_id_type\<close>.\<close>

definition FREE_TOKEN_ID_IN_HANDLE :: int where [tlv_numbers]: "FREE_TOKEN_ID_IN_HANDLE = 0"
definition FREE_TOKEN_ID_IN_TOKEN_ID :: int where [tlv_numbers]: "FREE_TOKEN_ID_IN_TOKEN_ID = 1"
definition FREE_TOKEN_ID_IN_NUM :: int where [tlv_numbers]: "FREE_TOKEN_ID_IN_NUM = 2"

text \<open>\<^verbatim>\<open>enum uburma_cmd_register_seg_type\<close>.\<close>

definition REGISTER_SEG_IN_VA :: int where [tlv_numbers]: "REGISTER_SEG_IN_VA = 0"
definition REGISTER_SEG_IN_LEN :: int where [tlv_numbers]: "REGISTER_SEG_IN_LEN = 1"
definition REGISTER_SEG_IN_TOKEN_ID :: int where [tlv_numbers]: "REGISTER_SEG_IN_TOKEN_ID = 2"
definition REGISTER_SEG_IN_TOKEN_ID_HANDLE :: int where [tlv_numbers]: "REGISTER_SEG_IN_TOKEN_ID_HANDLE = 3"
definition REGISTER_SEG_IN_TOKEN :: int where [tlv_numbers]: "REGISTER_SEG_IN_TOKEN = 4"
definition REGISTER_SEG_IN_FLAG :: int where [tlv_numbers]: "REGISTER_SEG_IN_FLAG = 5"
definition REGISTER_SEG_IN_UDATA :: int where [tlv_numbers]: "REGISTER_SEG_IN_UDATA = 6"
definition REGISTER_SEG_IN_NUM :: int where [tlv_numbers]: "REGISTER_SEG_IN_NUM = 7"
definition REGISTER_SEG_OUT_TOKEN_ID :: int where [tlv_numbers]: "REGISTER_SEG_OUT_TOKEN_ID = UBURMA_CMD_OUT_TYPE_INIT"
definition REGISTER_SEG_OUT_HANDLE :: int where [tlv_numbers]: "REGISTER_SEG_OUT_HANDLE = UBURMA_CMD_OUT_TYPE_INIT + 1"
definition REGISTER_SEG_OUT_UDATA :: int where [tlv_numbers]: "REGISTER_SEG_OUT_UDATA = UBURMA_CMD_OUT_TYPE_INIT + 2"
definition REGISTER_SEG_OUT_NUM :: int where [tlv_numbers]: "REGISTER_SEG_OUT_NUM = UBURMA_CMD_OUT_TYPE_INIT + 3"

text \<open>\<^verbatim>\<open>enum uburma_cmd_unregister_seg_type\<close>.\<close>

definition UNREGISTER_SEG_IN_HANDLE :: int where [tlv_numbers]: "UNREGISTER_SEG_IN_HANDLE = 0"
definition UNREGISTER_SEG_IN_NUM :: int where [tlv_numbers]: "UNREGISTER_SEG_IN_NUM = 1"

text \<open>\<^verbatim>\<open>enum uburma_cmd_get_eid_list_type\<close>.\<close>

definition GET_EID_LIST_IN_MAX_EID_CNT :: int where [tlv_numbers]: "GET_EID_LIST_IN_MAX_EID_CNT = 0"
definition GET_EID_LIST_IN_NUM :: int where [tlv_numbers]: "GET_EID_LIST_IN_NUM = 1"
definition GET_EID_LIST_OUT_EID_CNT :: int where [tlv_numbers]: "GET_EID_LIST_OUT_EID_CNT = UBURMA_CMD_OUT_TYPE_INIT"
definition GET_EID_LIST_OUT_EID_LIST :: int where [tlv_numbers]: "GET_EID_LIST_OUT_EID_LIST = UBURMA_CMD_OUT_TYPE_INIT + 1"
definition GET_EID_LIST_OUT_NUM :: int where [tlv_numbers]: "GET_EID_LIST_OUT_NUM = UBURMA_CMD_OUT_TYPE_INIT + 2"

text \<open>\<^verbatim>\<open>enum uburma_cmd_alloc_jfs_type\<close>.\<close>

definition ALLOC_JFS_IN_DEPTH :: int where [tlv_numbers]: "ALLOC_JFS_IN_DEPTH = 0"
definition ALLOC_JFS_IN_FLAG :: int where [tlv_numbers]: "ALLOC_JFS_IN_FLAG = 1"
definition ALLOC_JFS_IN_TRANS_MODE :: int where [tlv_numbers]: "ALLOC_JFS_IN_TRANS_MODE = 2"
definition ALLOC_JFS_IN_PRIORITY :: int where [tlv_numbers]: "ALLOC_JFS_IN_PRIORITY = 3"
definition ALLOC_JFS_IN_MAX_SGE :: int where [tlv_numbers]: "ALLOC_JFS_IN_MAX_SGE = 4"
definition ALLOC_JFS_IN_MAX_RSGE :: int where [tlv_numbers]: "ALLOC_JFS_IN_MAX_RSGE = 5"
definition ALLOC_JFS_IN_MAX_INLINE_DATA :: int where [tlv_numbers]: "ALLOC_JFS_IN_MAX_INLINE_DATA = 6"
definition ALLOC_JFS_IN_RNR_RETRY :: int where [tlv_numbers]: "ALLOC_JFS_IN_RNR_RETRY = 7"
definition ALLOC_JFS_IN_ERR_TIMEOUT :: int where [tlv_numbers]: "ALLOC_JFS_IN_ERR_TIMEOUT = 8"
definition ALLOC_JFS_IN_JFC_ID :: int where [tlv_numbers]: "ALLOC_JFS_IN_JFC_ID = 9"
definition ALLOC_JFS_IN_JFC_HANDLE :: int where [tlv_numbers]: "ALLOC_JFS_IN_JFC_HANDLE = 10"
definition ALLOC_JFS_IN_URMA_JFS :: int where [tlv_numbers]: "ALLOC_JFS_IN_URMA_JFS = 11"
definition ALLOC_JFS_IN_UDATA :: int where [tlv_numbers]: "ALLOC_JFS_IN_UDATA = 12"
definition ALLOC_JFS_IN_NUM :: int where [tlv_numbers]: "ALLOC_JFS_IN_NUM = 13"
definition ALLOC_JFS_OUT_ID :: int where [tlv_numbers]: "ALLOC_JFS_OUT_ID = UBURMA_CMD_OUT_TYPE_INIT"
definition ALLOC_JFS_OUT_DEPTH :: int where [tlv_numbers]: "ALLOC_JFS_OUT_DEPTH = UBURMA_CMD_OUT_TYPE_INIT + 1"
definition ALLOC_JFS_OUT_MAX_SGE :: int where [tlv_numbers]: "ALLOC_JFS_OUT_MAX_SGE = UBURMA_CMD_OUT_TYPE_INIT + 2"
definition ALLOC_JFS_OUT_MAX_RSGE :: int where [tlv_numbers]: "ALLOC_JFS_OUT_MAX_RSGE = UBURMA_CMD_OUT_TYPE_INIT + 3"
definition ALLOC_JFS_OUT_MAX_INLINE_DATA :: int where [tlv_numbers]: "ALLOC_JFS_OUT_MAX_INLINE_DATA = UBURMA_CMD_OUT_TYPE_INIT + 4"
definition ALLOC_JFS_OUT_HANDLE :: int where [tlv_numbers]: "ALLOC_JFS_OUT_HANDLE = UBURMA_CMD_OUT_TYPE_INIT + 5"
definition ALLOC_JFS_OUT_UDATA :: int where [tlv_numbers]: "ALLOC_JFS_OUT_UDATA = UBURMA_CMD_OUT_TYPE_INIT + 6"
definition ALLOC_JFS_OUT_NUM :: int where [tlv_numbers]: "ALLOC_JFS_OUT_NUM = UBURMA_CMD_OUT_TYPE_INIT + 7"

text \<open>\<^verbatim>\<open>enum uburma_cmd_active_jfs_type\<close>.\<close>

definition ACTIVE_JFS_IN_HANDLE :: int where [tlv_numbers]: "ACTIVE_JFS_IN_HANDLE = 0"
definition ACTIVE_JFS_IN_DEPTH :: int where [tlv_numbers]: "ACTIVE_JFS_IN_DEPTH = 1"
definition ACTIVE_JFS_IN_FLAG :: int where [tlv_numbers]: "ACTIVE_JFS_IN_FLAG = 2"
definition ACTIVE_JFS_IN_TRANS_MODE :: int where [tlv_numbers]: "ACTIVE_JFS_IN_TRANS_MODE = 3"
definition ACTIVE_JFS_IN_PRIORITY :: int where [tlv_numbers]: "ACTIVE_JFS_IN_PRIORITY = 4"
definition ACTIVE_JFS_IN_MAX_SGE :: int where [tlv_numbers]: "ACTIVE_JFS_IN_MAX_SGE = 5"
definition ACTIVE_JFS_IN_MAX_RSGE :: int where [tlv_numbers]: "ACTIVE_JFS_IN_MAX_RSGE = 6"
definition ACTIVE_JFS_IN_MAX_INLINE_DATA :: int where [tlv_numbers]: "ACTIVE_JFS_IN_MAX_INLINE_DATA = 7"
definition ACTIVE_JFS_IN_RNR_RETRY :: int where [tlv_numbers]: "ACTIVE_JFS_IN_RNR_RETRY = 8"
definition ACTIVE_JFS_IN_ERR_TIMEOUT :: int where [tlv_numbers]: "ACTIVE_JFS_IN_ERR_TIMEOUT = 9"
definition ACTIVE_JFS_IN_JFC_ID :: int where [tlv_numbers]: "ACTIVE_JFS_IN_JFC_ID = 10"
definition ACTIVE_JFS_IN_JFC_HANDLE :: int where [tlv_numbers]: "ACTIVE_JFS_IN_JFC_HANDLE = 11"
definition ACTIVE_JFS_IN_JFS_OPT :: int where [tlv_numbers]: "ACTIVE_JFS_IN_JFS_OPT = 12"
definition ACTIVE_JFS_IN_UDATA :: int where [tlv_numbers]: "ACTIVE_JFS_IN_UDATA = 13"
definition ACTIVE_JFS_IN_NUM :: int where [tlv_numbers]: "ACTIVE_JFS_IN_NUM = 14"
definition ACTIVE_JFS_OUT_ID :: int where [tlv_numbers]: "ACTIVE_JFS_OUT_ID = UBURMA_CMD_OUT_TYPE_INIT"
definition ACTIVE_JFS_OUT_DEPTH :: int where [tlv_numbers]: "ACTIVE_JFS_OUT_DEPTH = UBURMA_CMD_OUT_TYPE_INIT + 1"
definition ACTIVE_JFS_OUT_MAX_SGE :: int where [tlv_numbers]: "ACTIVE_JFS_OUT_MAX_SGE = UBURMA_CMD_OUT_TYPE_INIT + 2"
definition ACTIVE_JFS_OUT_MAX_RSGE :: int where [tlv_numbers]: "ACTIVE_JFS_OUT_MAX_RSGE = UBURMA_CMD_OUT_TYPE_INIT + 3"
definition ACTIVE_JFS_OUT_MAX_INLINE_DATA :: int where [tlv_numbers]: "ACTIVE_JFS_OUT_MAX_INLINE_DATA = UBURMA_CMD_OUT_TYPE_INIT + 4"
definition ACTIVE_JFS_OUT_HANDLE :: int where [tlv_numbers]: "ACTIVE_JFS_OUT_HANDLE = UBURMA_CMD_OUT_TYPE_INIT + 5"
definition ACTIVE_JFS_OUT_UDATA :: int where [tlv_numbers]: "ACTIVE_JFS_OUT_UDATA = UBURMA_CMD_OUT_TYPE_INIT + 6"
definition ACTIVE_JFS_OUT_NUM :: int where [tlv_numbers]: "ACTIVE_JFS_OUT_NUM = UBURMA_CMD_OUT_TYPE_INIT + 7"

text \<open>\<^verbatim>\<open>enum uburma_cmd_alloc_jfr_type\<close>.\<close>

definition ALLOC_JFR_IN_DEPTH :: int where [tlv_numbers]: "ALLOC_JFR_IN_DEPTH = 0"
definition ALLOC_JFR_IN_FLAG :: int where [tlv_numbers]: "ALLOC_JFR_IN_FLAG = 1"
definition ALLOC_JFR_IN_TRANS_MODE :: int where [tlv_numbers]: "ALLOC_JFR_IN_TRANS_MODE = 2"
definition ALLOC_JFR_IN_MAX_SGE :: int where [tlv_numbers]: "ALLOC_JFR_IN_MAX_SGE = 3"
definition ALLOC_JFR_IN_MIN_RNR_TIMER :: int where [tlv_numbers]: "ALLOC_JFR_IN_MIN_RNR_TIMER = 4"
definition ALLOC_JFR_IN_JFC_ID :: int where [tlv_numbers]: "ALLOC_JFR_IN_JFC_ID = 5"
definition ALLOC_JFR_IN_JFC_HANDLE :: int where [tlv_numbers]: "ALLOC_JFR_IN_JFC_HANDLE = 6"
definition ALLOC_JFR_IN_TOKEN :: int where [tlv_numbers]: "ALLOC_JFR_IN_TOKEN = 7"
definition ALLOC_JFR_IN_ID :: int where [tlv_numbers]: "ALLOC_JFR_IN_ID = 8"
definition ALLOC_JFR_IN_URMA_JFR :: int where [tlv_numbers]: "ALLOC_JFR_IN_URMA_JFR = 9"
definition ALLOC_JFR_IN_UDATA :: int where [tlv_numbers]: "ALLOC_JFR_IN_UDATA = 10"
definition ALLOC_JFR_IN_NUM :: int where [tlv_numbers]: "ALLOC_JFR_IN_NUM = 11"
definition ALLOC_JFR_OUT_ID :: int where [tlv_numbers]: "ALLOC_JFR_OUT_ID = UBURMA_CMD_OUT_TYPE_INIT"
definition ALLOC_JFR_OUT_DEPTH :: int where [tlv_numbers]: "ALLOC_JFR_OUT_DEPTH = UBURMA_CMD_OUT_TYPE_INIT + 1"
definition ALLOC_JFR_OUT_HANDLE :: int where [tlv_numbers]: "ALLOC_JFR_OUT_HANDLE = UBURMA_CMD_OUT_TYPE_INIT + 2"
definition ALLOC_JFR_OUT_MAX_SGE :: int where [tlv_numbers]: "ALLOC_JFR_OUT_MAX_SGE = UBURMA_CMD_OUT_TYPE_INIT + 3"
definition ALLOC_JFR_OUT_UDATA :: int where [tlv_numbers]: "ALLOC_JFR_OUT_UDATA = UBURMA_CMD_OUT_TYPE_INIT + 4"
definition ALLOC_JFR_OUT_NUM :: int where [tlv_numbers]: "ALLOC_JFR_OUT_NUM = UBURMA_CMD_OUT_TYPE_INIT + 5"

text \<open>\<^verbatim>\<open>enum uburma_cmd_active_jfr_type\<close>.\<close>

definition ACTIVE_JFR_IN_HANDLE :: int where [tlv_numbers]: "ACTIVE_JFR_IN_HANDLE = 0"
definition ACTIVE_JFR_IN_DEPTH :: int where [tlv_numbers]: "ACTIVE_JFR_IN_DEPTH = 1"
definition ACTIVE_JFR_IN_FLAG :: int where [tlv_numbers]: "ACTIVE_JFR_IN_FLAG = 2"
definition ACTIVE_JFR_IN_TRANS_MODE :: int where [tlv_numbers]: "ACTIVE_JFR_IN_TRANS_MODE = 3"
definition ACTIVE_JFR_IN_MAX_SGE :: int where [tlv_numbers]: "ACTIVE_JFR_IN_MAX_SGE = 4"
definition ACTIVE_JFR_IN_MIN_RNR_TIMER :: int where [tlv_numbers]: "ACTIVE_JFR_IN_MIN_RNR_TIMER = 5"
definition ACTIVE_JFR_IN_JFC_ID :: int where [tlv_numbers]: "ACTIVE_JFR_IN_JFC_ID = 6"
definition ACTIVE_JFR_IN_JFC_HANDLE :: int where [tlv_numbers]: "ACTIVE_JFR_IN_JFC_HANDLE = 7"
definition ACTIVE_JFR_IN_TOKEN :: int where [tlv_numbers]: "ACTIVE_JFR_IN_TOKEN = 8"
definition ACTIVE_JFR_IN_JFR_OPT :: int where [tlv_numbers]: "ACTIVE_JFR_IN_JFR_OPT = 9"
definition ACTIVE_JFR_IN_UDATA :: int where [tlv_numbers]: "ACTIVE_JFR_IN_UDATA = 10"
definition ACTIVE_JFR_IN_NUM :: int where [tlv_numbers]: "ACTIVE_JFR_IN_NUM = 11"
definition ACTIVE_JFR_OUT_ID :: int where [tlv_numbers]: "ACTIVE_JFR_OUT_ID = UBURMA_CMD_OUT_TYPE_INIT"
definition ACTIVE_JFR_OUT_DEPTH :: int where [tlv_numbers]: "ACTIVE_JFR_OUT_DEPTH = UBURMA_CMD_OUT_TYPE_INIT + 1"
definition ACTIVE_JFR_OUT_HANDLE :: int where [tlv_numbers]: "ACTIVE_JFR_OUT_HANDLE = UBURMA_CMD_OUT_TYPE_INIT + 2"
definition ACTIVE_JFR_OUT_MAX_SGE :: int where [tlv_numbers]: "ACTIVE_JFR_OUT_MAX_SGE = UBURMA_CMD_OUT_TYPE_INIT + 3"
definition ACTIVE_JFR_OUT_UDATA :: int where [tlv_numbers]: "ACTIVE_JFR_OUT_UDATA = UBURMA_CMD_OUT_TYPE_INIT + 4"
definition ACTIVE_JFR_OUT_NUM :: int where [tlv_numbers]: "ACTIVE_JFR_OUT_NUM = UBURMA_CMD_OUT_TYPE_INIT + 5"

text \<open>\<^verbatim>\<open>enum uburma_cmd_alloc_jfc_type\<close>.\<close>

definition ALLOC_JFC_IN_DEPTH :: int where [tlv_numbers]: "ALLOC_JFC_IN_DEPTH = 0"
definition ALLOC_JFC_IN_FLAG :: int where [tlv_numbers]: "ALLOC_JFC_IN_FLAG = 1"
definition ALLOC_JFC_IN_JFCE_FD :: int where [tlv_numbers]: "ALLOC_JFC_IN_JFCE_FD = 2"
definition ALLOC_JFC_IN_URMA_JFC :: int where [tlv_numbers]: "ALLOC_JFC_IN_URMA_JFC = 3"
definition ALLOC_JFC_IN_CEQN :: int where [tlv_numbers]: "ALLOC_JFC_IN_CEQN = 4"
definition ALLOC_JFC_IN_UDATA :: int where [tlv_numbers]: "ALLOC_JFC_IN_UDATA = 5"
definition ALLOC_JFC_IN_NUM :: int where [tlv_numbers]: "ALLOC_JFC_IN_NUM = 6"
definition ALLOC_JFC_OUT_ID :: int where [tlv_numbers]: "ALLOC_JFC_OUT_ID = UBURMA_CMD_OUT_TYPE_INIT"
definition ALLOC_JFC_OUT_DEPTH :: int where [tlv_numbers]: "ALLOC_JFC_OUT_DEPTH = UBURMA_CMD_OUT_TYPE_INIT + 1"
definition ALLOC_JFC_OUT_HANDLE :: int where [tlv_numbers]: "ALLOC_JFC_OUT_HANDLE = UBURMA_CMD_OUT_TYPE_INIT + 2"
definition ALLOC_JFC_OUT_UDATA :: int where [tlv_numbers]: "ALLOC_JFC_OUT_UDATA = UBURMA_CMD_OUT_TYPE_INIT + 3"
definition ALLOC_JFC_OUT_NUM :: int where [tlv_numbers]: "ALLOC_JFC_OUT_NUM = UBURMA_CMD_OUT_TYPE_INIT + 4"

text \<open>\<^verbatim>\<open>enum uburma_cmd_active_jfc_type\<close>.\<close>

definition ACTIVE_JFC_IN_HANDLE :: int where [tlv_numbers]: "ACTIVE_JFC_IN_HANDLE = 0"
definition ACTIVE_JFC_IN_DEPTH :: int where [tlv_numbers]: "ACTIVE_JFC_IN_DEPTH = 1"
definition ACTIVE_JFC_IN_FLAG :: int where [tlv_numbers]: "ACTIVE_JFC_IN_FLAG = 2"
definition ACTIVE_JFC_IN_CEQN :: int where [tlv_numbers]: "ACTIVE_JFC_IN_CEQN = 3"
definition ACTIVE_JFC_IN_JFC_OPT :: int where [tlv_numbers]: "ACTIVE_JFC_IN_JFC_OPT = 4"
definition ACTIVE_JFC_IN_UDATA :: int where [tlv_numbers]: "ACTIVE_JFC_IN_UDATA = 5"
definition ACTIVE_JFC_IN_NUM :: int where [tlv_numbers]: "ACTIVE_JFC_IN_NUM = 6"
definition ACTIVE_JFC_OUT_ID :: int where [tlv_numbers]: "ACTIVE_JFC_OUT_ID = UBURMA_CMD_OUT_TYPE_INIT"
definition ACTIVE_JFC_OUT_DEPTH :: int where [tlv_numbers]: "ACTIVE_JFC_OUT_DEPTH = UBURMA_CMD_OUT_TYPE_INIT + 1"
definition ACTIVE_JFC_OUT_HANDLE :: int where [tlv_numbers]: "ACTIVE_JFC_OUT_HANDLE = UBURMA_CMD_OUT_TYPE_INIT + 2"
definition ACTIVE_JFC_OUT_UDATA :: int where [tlv_numbers]: "ACTIVE_JFC_OUT_UDATA = UBURMA_CMD_OUT_TYPE_INIT + 3"
definition ACTIVE_JFC_OUT_NUM :: int where [tlv_numbers]: "ACTIVE_JFC_OUT_NUM = UBURMA_CMD_OUT_TYPE_INIT + 4"

text \<open>\<^verbatim>\<open>enum uburma_cmd_import_jetty_type\<close>.\<close>

definition IMPORT_JETTY_IN_EID :: int where [tlv_numbers]: "IMPORT_JETTY_IN_EID = 0"
definition IMPORT_JETTY_IN_ID :: int where [tlv_numbers]: "IMPORT_JETTY_IN_ID = 1"
definition IMPORT_JETTY_IN_FLAG :: int where [tlv_numbers]: "IMPORT_JETTY_IN_FLAG = 2"
definition IMPORT_JETTY_IN_TOKEN :: int where [tlv_numbers]: "IMPORT_JETTY_IN_TOKEN = 3"
definition IMPORT_JETTY_IN_TRANS_MODE :: int where [tlv_numbers]: "IMPORT_JETTY_IN_TRANS_MODE = 4"
definition IMPORT_JETTY_IN_POLICY :: int where [tlv_numbers]: "IMPORT_JETTY_IN_POLICY = 5"
definition IMPORT_JETTY_IN_TYPE :: int where [tlv_numbers]: "IMPORT_JETTY_IN_TYPE = 6"
definition IMPORT_JETTY_IN_TP_TYPE :: int where [tlv_numbers]: "IMPORT_JETTY_IN_TP_TYPE = 7"
definition IMPORT_JETTY_IN_UDATA :: int where [tlv_numbers]: "IMPORT_JETTY_IN_UDATA = 8"
definition IMPORT_JETTY_IN_NUM :: int where [tlv_numbers]: "IMPORT_JETTY_IN_NUM = 9"
definition IMPORT_JETTY_OUT_TPN :: int where [tlv_numbers]: "IMPORT_JETTY_OUT_TPN = UBURMA_CMD_OUT_TYPE_INIT"
definition IMPORT_JETTY_OUT_HANDLE :: int where [tlv_numbers]: "IMPORT_JETTY_OUT_HANDLE = UBURMA_CMD_OUT_TYPE_INIT + 1"
definition IMPORT_JETTY_OUT_UDATA :: int where [tlv_numbers]: "IMPORT_JETTY_OUT_UDATA = UBURMA_CMD_OUT_TYPE_INIT + 2"
definition IMPORT_JETTY_OUT_NUM :: int where [tlv_numbers]: "IMPORT_JETTY_OUT_NUM = UBURMA_CMD_OUT_TYPE_INIT + 3"

text \<open>\<^verbatim>\<open>enum uburma_cmd_bind_jetty_type\<close>.\<close>

definition BIND_JETTY_IN_JETTY_HANDLE :: int where [tlv_numbers]: "BIND_JETTY_IN_JETTY_HANDLE = 0"
definition BIND_JETTY_IN_TJETTY_HANDLE :: int where [tlv_numbers]: "BIND_JETTY_IN_TJETTY_HANDLE = 1"
definition BIND_JETTY_IN_UDATA :: int where [tlv_numbers]: "BIND_JETTY_IN_UDATA = 2"
definition BIND_JETTY_IN_NUM :: int where [tlv_numbers]: "BIND_JETTY_IN_NUM = 3"
definition BIND_JETTY_OUT_TPN :: int where [tlv_numbers]: "BIND_JETTY_OUT_TPN = UBURMA_CMD_OUT_TYPE_INIT"
definition BIND_JETTY_OUT_UDATA :: int where [tlv_numbers]: "BIND_JETTY_OUT_UDATA = UBURMA_CMD_OUT_TYPE_INIT + 1"
definition BIND_JETTY_OUT_NUM :: int where [tlv_numbers]: "BIND_JETTY_OUT_NUM = UBURMA_CMD_OUT_TYPE_INIT + 2"

text \<open>\<^verbatim>\<open>enum uburma_cmd_unimport_jetty_type\<close>.\<close>

definition UNIMPORT_JETTY_IN_HANDLE :: int where [tlv_numbers]: "UNIMPORT_JETTY_IN_HANDLE = 0"
definition UNIMPORT_JETTY_IN_NUM :: int where [tlv_numbers]: "UNIMPORT_JETTY_IN_NUM = 1"

text \<open>\<^verbatim>\<open>enum uburma_cmd_unadvise_jetty_type\<close>.\<close>

definition UNADVISE_JETTY_IN_JETTY_HANDLE :: int where [tlv_numbers]: "UNADVISE_JETTY_IN_JETTY_HANDLE = 0"
definition UNADVISE_JETTY_IN_TJETTY_HANDLE :: int where [tlv_numbers]: "UNADVISE_JETTY_IN_TJETTY_HANDLE = 1"
definition UNADVISE_JETTY_IN_NUM :: int where [tlv_numbers]: "UNADVISE_JETTY_IN_NUM = 2"

text \<open>\<^verbatim>\<open>enum uburma_cmd_query_device_attr_type\<close>.\<close>

definition QUERY_DEVICE_IN_DEV_NAME :: int where [tlv_numbers]: "QUERY_DEVICE_IN_DEV_NAME = 0"
definition QUERY_DEVICE_IN_NUM :: int where [tlv_numbers]: "QUERY_DEVICE_IN_NUM = 1"
definition QUERY_DEVICE_OUT_GUID :: int where [tlv_numbers]: "QUERY_DEVICE_OUT_GUID = UBURMA_CMD_OUT_TYPE_INIT"
definition QUERY_DEVICE_OUT_DEV_CAP_FEATURE :: int where [tlv_numbers]: "QUERY_DEVICE_OUT_DEV_CAP_FEATURE = UBURMA_CMD_OUT_TYPE_INIT + 1"
definition QUERY_DEVICE_OUT_DEV_CAP_MAX_JFC :: int where [tlv_numbers]: "QUERY_DEVICE_OUT_DEV_CAP_MAX_JFC = UBURMA_CMD_OUT_TYPE_INIT + 2"
definition QUERY_DEVICE_OUT_DEV_CAP_MAX_JFS :: int where [tlv_numbers]: "QUERY_DEVICE_OUT_DEV_CAP_MAX_JFS = UBURMA_CMD_OUT_TYPE_INIT + 3"
definition QUERY_DEVICE_OUT_DEV_CAP_MAX_JFR :: int where [tlv_numbers]: "QUERY_DEVICE_OUT_DEV_CAP_MAX_JFR = UBURMA_CMD_OUT_TYPE_INIT + 4"
definition QUERY_DEVICE_OUT_DEV_CAP_MAX_JETTY :: int where [tlv_numbers]: "QUERY_DEVICE_OUT_DEV_CAP_MAX_JETTY = UBURMA_CMD_OUT_TYPE_INIT + 5"
definition QUERY_DEVICE_OUT_DEV_CAP_MAX_JETTY_GRP :: int where [tlv_numbers]: "QUERY_DEVICE_OUT_DEV_CAP_MAX_JETTY_GRP = UBURMA_CMD_OUT_TYPE_INIT + 6"
definition QUERY_DEVICE_OUT_DEV_CAP_MAX_JETTY_IN_JETTY_GRP :: int where [tlv_numbers]: "QUERY_DEVICE_OUT_DEV_CAP_MAX_JETTY_IN_JETTY_GRP = UBURMA_CMD_OUT_TYPE_INIT + 7"
definition QUERY_DEVICE_OUT_DEV_CAP_MAX_JFC_DEPTH :: int where [tlv_numbers]: "QUERY_DEVICE_OUT_DEV_CAP_MAX_JFC_DEPTH = UBURMA_CMD_OUT_TYPE_INIT + 8"
definition QUERY_DEVICE_OUT_DEV_CAP_MAX_JFS_DEPTH :: int where [tlv_numbers]: "QUERY_DEVICE_OUT_DEV_CAP_MAX_JFS_DEPTH = UBURMA_CMD_OUT_TYPE_INIT + 9"
definition QUERY_DEVICE_OUT_DEV_CAP_MAX_JFR_DEPTH :: int where [tlv_numbers]: "QUERY_DEVICE_OUT_DEV_CAP_MAX_JFR_DEPTH = UBURMA_CMD_OUT_TYPE_INIT + 10"
definition QUERY_DEVICE_OUT_DEV_CAP_MAX_JFS_INLINE_LEN :: int where [tlv_numbers]: "QUERY_DEVICE_OUT_DEV_CAP_MAX_JFS_INLINE_LEN = UBURMA_CMD_OUT_TYPE_INIT + 11"
definition QUERY_DEVICE_OUT_DEV_CAP_MAX_JFS_SGE :: int where [tlv_numbers]: "QUERY_DEVICE_OUT_DEV_CAP_MAX_JFS_SGE = UBURMA_CMD_OUT_TYPE_INIT + 12"
definition QUERY_DEVICE_OUT_DEV_CAP_MAX_JFS_RSGE :: int where [tlv_numbers]: "QUERY_DEVICE_OUT_DEV_CAP_MAX_JFS_RSGE = UBURMA_CMD_OUT_TYPE_INIT + 13"
definition QUERY_DEVICE_OUT_DEV_CAP_MAX_JFR_SGE :: int where [tlv_numbers]: "QUERY_DEVICE_OUT_DEV_CAP_MAX_JFR_SGE = UBURMA_CMD_OUT_TYPE_INIT + 14"
definition QUERY_DEVICE_OUT_DEV_CAP_MAX_MSG_SIZE :: int where [tlv_numbers]: "QUERY_DEVICE_OUT_DEV_CAP_MAX_MSG_SIZE = UBURMA_CMD_OUT_TYPE_INIT + 15"
definition QUERY_DEVICE_OUT_DEV_CAP_MAX_READ_SIZE :: int where [tlv_numbers]: "QUERY_DEVICE_OUT_DEV_CAP_MAX_READ_SIZE = UBURMA_CMD_OUT_TYPE_INIT + 16"
definition QUERY_DEVICE_OUT_DEV_CAP_MAX_WRITE_SIZE :: int where [tlv_numbers]: "QUERY_DEVICE_OUT_DEV_CAP_MAX_WRITE_SIZE = UBURMA_CMD_OUT_TYPE_INIT + 17"
definition QUERY_DEVICE_OUT_DEV_CAP_MAX_CAS_SIZE :: int where [tlv_numbers]: "QUERY_DEVICE_OUT_DEV_CAP_MAX_CAS_SIZE = UBURMA_CMD_OUT_TYPE_INIT + 18"
definition QUERY_DEVICE_OUT_DEV_CAP_MAX_SWAP_SIZE :: int where [tlv_numbers]: "QUERY_DEVICE_OUT_DEV_CAP_MAX_SWAP_SIZE = UBURMA_CMD_OUT_TYPE_INIT + 19"
definition QUERY_DEVICE_OUT_DEV_CAP_MAX_FETCH_AND_ADD_SIZE :: int where [tlv_numbers]: "QUERY_DEVICE_OUT_DEV_CAP_MAX_FETCH_AND_ADD_SIZE = UBURMA_CMD_OUT_TYPE_INIT + 20"
definition QUERY_DEVICE_OUT_DEV_CAP_MAX_FETCH_AND_SUB_SIZE :: int where [tlv_numbers]: "QUERY_DEVICE_OUT_DEV_CAP_MAX_FETCH_AND_SUB_SIZE = UBURMA_CMD_OUT_TYPE_INIT + 21"
definition QUERY_DEVICE_OUT_DEV_CAP_MAX_FETCH_AND_AND_SIZE :: int where [tlv_numbers]: "QUERY_DEVICE_OUT_DEV_CAP_MAX_FETCH_AND_AND_SIZE = UBURMA_CMD_OUT_TYPE_INIT + 22"
definition QUERY_DEVICE_OUT_DEV_CAP_MAX_FETCH_AND_OR_SIZE :: int where [tlv_numbers]: "QUERY_DEVICE_OUT_DEV_CAP_MAX_FETCH_AND_OR_SIZE = UBURMA_CMD_OUT_TYPE_INIT + 23"
definition QUERY_DEVICE_OUT_DEV_CAP_MAX_FETCH_AND_XOR_SIZE :: int where [tlv_numbers]: "QUERY_DEVICE_OUT_DEV_CAP_MAX_FETCH_AND_XOR_SIZE = UBURMA_CMD_OUT_TYPE_INIT + 24"
definition QUERY_DEVICE_OUT_DEV_CAP_ATOMIC_FEAT :: int where [tlv_numbers]: "QUERY_DEVICE_OUT_DEV_CAP_ATOMIC_FEAT = UBURMA_CMD_OUT_TYPE_INIT + 25"
definition QUERY_DEVICE_OUT_DEV_CAP_TRANS_MODE :: int where [tlv_numbers]: "QUERY_DEVICE_OUT_DEV_CAP_TRANS_MODE = UBURMA_CMD_OUT_TYPE_INIT + 26"
definition QUERY_DEVICE_OUT_DEV_CAP_SUB_TRANS_MODE_CAP :: int where [tlv_numbers]: "QUERY_DEVICE_OUT_DEV_CAP_SUB_TRANS_MODE_CAP = UBURMA_CMD_OUT_TYPE_INIT + 27"
definition QUERY_DEVICE_OUT_DEV_CAP_CONGESTION_CTRL_ALG :: int where [tlv_numbers]: "QUERY_DEVICE_OUT_DEV_CAP_CONGESTION_CTRL_ALG = UBURMA_CMD_OUT_TYPE_INIT + 28"
definition QUERY_DEVICE_OUT_DEV_CAP_CEQ_CNT :: int where [tlv_numbers]: "QUERY_DEVICE_OUT_DEV_CAP_CEQ_CNT = UBURMA_CMD_OUT_TYPE_INIT + 29"
definition QUERY_DEVICE_OUT_DEV_CAP_MAX_TP_IN_TPG :: int where [tlv_numbers]: "QUERY_DEVICE_OUT_DEV_CAP_MAX_TP_IN_TPG = UBURMA_CMD_OUT_TYPE_INIT + 30"
definition QUERY_DEVICE_OUT_DEV_CAP_MAX_EID_CNT :: int where [tlv_numbers]: "QUERY_DEVICE_OUT_DEV_CAP_MAX_EID_CNT = UBURMA_CMD_OUT_TYPE_INIT + 31"
definition QUERY_DEVICE_OUT_DEV_CAP_PAGE_SIZE_CAP :: int where [tlv_numbers]: "QUERY_DEVICE_OUT_DEV_CAP_PAGE_SIZE_CAP = UBURMA_CMD_OUT_TYPE_INIT + 32"
definition QUERY_DEVICE_OUT_DEV_CAP_MAX_OOR_CNT :: int where [tlv_numbers]: "QUERY_DEVICE_OUT_DEV_CAP_MAX_OOR_CNT = UBURMA_CMD_OUT_TYPE_INIT + 33"
definition QUERY_DEVICE_OUT_DEV_CAP_MN :: int where [tlv_numbers]: "QUERY_DEVICE_OUT_DEV_CAP_MN = UBURMA_CMD_OUT_TYPE_INIT + 34"
definition QUERY_DEVICE_OUT_DEV_CAP_MAX_NETADDR_CN :: int where [tlv_numbers]: "QUERY_DEVICE_OUT_DEV_CAP_MAX_NETADDR_CN = UBURMA_CMD_OUT_TYPE_INIT + 35"
definition QUERY_DEVICE_OUT_PORT_CNT :: int where [tlv_numbers]: "QUERY_DEVICE_OUT_PORT_CNT = UBURMA_CMD_OUT_TYPE_INIT + 36"
definition QUERY_DEVICE_OUT_PORT_ATTR_MAX_MTU :: int where [tlv_numbers]: "QUERY_DEVICE_OUT_PORT_ATTR_MAX_MTU = UBURMA_CMD_OUT_TYPE_INIT + 37"
definition QUERY_DEVICE_OUT_PORT_ATTR_STATE :: int where [tlv_numbers]: "QUERY_DEVICE_OUT_PORT_ATTR_STATE = UBURMA_CMD_OUT_TYPE_INIT + 38"
definition QUERY_DEVICE_OUT_PORT_ATTR_ACTIVE_WIDTH :: int where [tlv_numbers]: "QUERY_DEVICE_OUT_PORT_ATTR_ACTIVE_WIDTH = UBURMA_CMD_OUT_TYPE_INIT + 39"
definition QUERY_DEVICE_OUT_PORT_ATTR_ACTIVE_SPEED :: int where [tlv_numbers]: "QUERY_DEVICE_OUT_PORT_ATTR_ACTIVE_SPEED = UBURMA_CMD_OUT_TYPE_INIT + 40"
definition QUERY_DEVICE_OUT_PORT_ATTR_ACTIVE_MTU :: int where [tlv_numbers]: "QUERY_DEVICE_OUT_PORT_ATTR_ACTIVE_MTU = UBURMA_CMD_OUT_TYPE_INIT + 41"
definition QUERY_DEVICE_OUT_RESERVED_JETTY_ID_MIN :: int where [tlv_numbers]: "QUERY_DEVICE_OUT_RESERVED_JETTY_ID_MIN = UBURMA_CMD_OUT_TYPE_INIT + 42"
definition QUERY_DEVICE_OUT_RESERVED_JETTY_ID_MAX :: int where [tlv_numbers]: "QUERY_DEVICE_OUT_RESERVED_JETTY_ID_MAX = UBURMA_CMD_OUT_TYPE_INIT + 43"
definition QUERY_DEVICE_OUT_DEV_CAP_RM_ORDER_CAP :: int where [tlv_numbers]: "QUERY_DEVICE_OUT_DEV_CAP_RM_ORDER_CAP = UBURMA_CMD_OUT_TYPE_INIT + 44"
definition QUERY_DEVICE_OUT_DEV_CAP_RC_ORDER_CAP :: int where [tlv_numbers]: "QUERY_DEVICE_OUT_DEV_CAP_RC_ORDER_CAP = UBURMA_CMD_OUT_TYPE_INIT + 45"
definition QUERY_DEVICE_OUT_DEV_CAP_RM_TP_CAP :: int where [tlv_numbers]: "QUERY_DEVICE_OUT_DEV_CAP_RM_TP_CAP = UBURMA_CMD_OUT_TYPE_INIT + 46"
definition QUERY_DEVICE_OUT_DEV_CAP_RC_TP_CAP :: int where [tlv_numbers]: "QUERY_DEVICE_OUT_DEV_CAP_RC_TP_CAP = UBURMA_CMD_OUT_TYPE_INIT + 47"
definition QUERY_DEVICE_OUT_DEV_CAP_UM_TP_CAP :: int where [tlv_numbers]: "QUERY_DEVICE_OUT_DEV_CAP_UM_TP_CAP = UBURMA_CMD_OUT_TYPE_INIT + 48"
definition QUERY_DEVICE_OUT_DEV_CAP_TP_FEATURE :: int where [tlv_numbers]: "QUERY_DEVICE_OUT_DEV_CAP_TP_FEATURE = UBURMA_CMD_OUT_TYPE_INIT + 49"
definition QUERY_DEVICE_OUT_DEV_CAP_PRIORITY_INFO :: int where [tlv_numbers]: "QUERY_DEVICE_OUT_DEV_CAP_PRIORITY_INFO = UBURMA_CMD_OUT_TYPE_INIT + 50"
definition QUERY_DEVICE_OUT_NUM :: int where [tlv_numbers]: "QUERY_DEVICE_OUT_NUM = UBURMA_CMD_OUT_TYPE_INIT + 51"

text \<open>\<^verbatim>\<open>enum uburma_cmd_alloc_jetty_type\<close>.\<close>

definition ALLOC_JETTY_IN_CFG :: int where [tlv_numbers]: "ALLOC_JETTY_IN_CFG = 0"
definition ALLOC_JETTY_IN_NUM :: int where [tlv_numbers]: "ALLOC_JETTY_IN_NUM = 1"
definition ALLOC_JETTY_OUT_CFG :: int where [tlv_numbers]: "ALLOC_JETTY_OUT_CFG = UBURMA_CMD_OUT_TYPE_INIT"
definition ALLOC_JETTY_OUT_NUM :: int where [tlv_numbers]: "ALLOC_JETTY_OUT_NUM = UBURMA_CMD_OUT_TYPE_INIT + 1"

text \<open>\<^verbatim>\<open>enum uburma_cmd_active_jetty_type\<close>.\<close>

definition ACTIVE_JETTY_IN_FLAG :: int where [tlv_numbers]: "ACTIVE_JETTY_IN_FLAG = 0"
definition ACTIVE_JETTY_IN_HANDLE :: int where [tlv_numbers]: "ACTIVE_JETTY_IN_HANDLE = 1"
definition ACTIVE_JETTY_IN_SEND_JFC_HANDLE :: int where [tlv_numbers]: "ACTIVE_JETTY_IN_SEND_JFC_HANDLE = 2"
definition ACTIVE_JETTY_IN_RECV_JFC_HANDLE :: int where [tlv_numbers]: "ACTIVE_JETTY_IN_RECV_JFC_HANDLE = 3"
definition ACTIVE_JETTY_IN_URMA_JETTY :: int where [tlv_numbers]: "ACTIVE_JETTY_IN_URMA_JETTY = 4"
definition ACTIVE_JETTY_IN_JETTY_OPT :: int where [tlv_numbers]: "ACTIVE_JETTY_IN_JETTY_OPT = 5"
definition ACTIVE_JETTY_IN_UDATA :: int where [tlv_numbers]: "ACTIVE_JETTY_IN_UDATA = 6"
definition ACTIVE_JETTY_IN_NUM :: int where [tlv_numbers]: "ACTIVE_JETTY_IN_NUM = 7"
definition ACTIVE_JETTY_OUT_JETTY_ID :: int where [tlv_numbers]: "ACTIVE_JETTY_OUT_JETTY_ID = UBURMA_CMD_OUT_TYPE_INIT"
definition ACTIVE_JETTY_OUT_UDATA :: int where [tlv_numbers]: "ACTIVE_JETTY_OUT_UDATA = UBURMA_CMD_OUT_TYPE_INIT + 1"
definition ACTIVE_JETTY_OUT_NUM :: int where [tlv_numbers]: "ACTIVE_JETTY_OUT_NUM = UBURMA_CMD_OUT_TYPE_INIT + 2"

section \<open>Sizes\<close>

text \<open>Size and alignment, from the inner types to the outer.\<close>

lemma size_ubcore_eid_user [simp]: "c_size ubcore_eid_user = 16" "c_align ubcore_eid_user = 8"
  by (simp_all add: ubcore_eid_user_def round_up_def)

lemma size_ubcore_eid_info_user [simp]: "c_size ubcore_eid_info_user = 24" "c_align ubcore_eid_info_user = 8"
  by (simp_all add: ubcore_eid_info_user_def round_up_def)

lemma size_ubcore_device_feat_user [simp]: "c_size ubcore_device_feat_user = 4" "c_align ubcore_device_feat_user = 4"
  by (simp_all add: ubcore_device_feat_user_def round_up_def)

lemma size_ubcore_atomic_feat_user [simp]: "c_size ubcore_atomic_feat_user = 4" "c_align ubcore_atomic_feat_user = 4"
  by (simp_all add: ubcore_atomic_feat_user_def round_up_def)

lemma size_ubcore_order_type_cap_user [simp]: "c_size ubcore_order_type_cap_user = 4" "c_align ubcore_order_type_cap_user = 4"
  by (simp_all add: ubcore_order_type_cap_user_def round_up_def)

lemma size_urma_tp_type_cap_user [simp]: "c_size urma_tp_type_cap_user = 4" "c_align urma_tp_type_cap_user = 4"
  by (simp_all add: urma_tp_type_cap_user_def round_up_def)

lemma size_urma_tp_feature_user [simp]: "c_size urma_tp_feature_user = 4" "c_align urma_tp_feature_user = 4"
  by (simp_all add: urma_tp_feature_user_def round_up_def)

lemma size_ubcore_sl_info_user [simp]: "c_size ubcore_sl_info_user = 8" "c_align ubcore_sl_info_user = 4"
  by (simp_all add: ubcore_sl_info_user_def round_up_def)

lemma size_uburma_cmd_hdr [simp]: "c_size uburma_cmd_hdr = 16" "c_align uburma_cmd_hdr = 8"
  by (simp_all add: uburma_cmd_hdr_def round_up_def)

lemma size_uburma_cmd_udrv_priv [simp]: "c_size uburma_cmd_udrv_priv = 32" "c_align uburma_cmd_udrv_priv = 8"
  by (simp_all add: uburma_cmd_udrv_priv_def round_up_def)

lemma size_uburma_cmd_token_id_flag [simp]: "c_size uburma_cmd_token_id_flag = 4" "c_align uburma_cmd_token_id_flag = 4"
  by (simp_all add: uburma_cmd_token_id_flag_def round_up_def)

lemma size_uburma_cmd_alloc_token_id [simp]: "c_size uburma_cmd_alloc_token_id = 56" "c_align uburma_cmd_alloc_token_id = 8"
  by (simp_all add: uburma_cmd_alloc_token_id_def round_up_def)

lemma size_uburma_cmd_free_token_id [simp]: "c_size uburma_cmd_free_token_id = 16" "c_align uburma_cmd_free_token_id = 8"
  by (simp_all add: uburma_cmd_free_token_id_def round_up_def)

lemma size_uburma_cmd_create_ctx [simp]: "c_size uburma_cmd_create_ctx = 56" "c_align uburma_cmd_create_ctx = 8"
  by (simp_all add: uburma_cmd_create_ctx_def round_up_def)

lemma size_uburma_cmd_alloc_jfc [simp]: "c_size uburma_cmd_alloc_jfc = 80" "c_align uburma_cmd_alloc_jfc = 8"
  by (simp_all add: uburma_cmd_alloc_jfc_def round_up_def)

lemma size_uburma_cmd_active_jfc [simp]: "c_size uburma_cmd_active_jfc = 80" "c_align uburma_cmd_active_jfc = 8"
  by (simp_all add: uburma_cmd_active_jfc_def round_up_def)

lemma size_uburma_cmd_alloc_jfr [simp]: "c_size uburma_cmd_alloc_jfr = 104" "c_align uburma_cmd_alloc_jfr = 8"
  by (simp_all add: uburma_cmd_alloc_jfr_def round_up_def)

lemma size_uburma_cmd_active_jfr [simp]: "c_size uburma_cmd_active_jfr = 112" "c_align uburma_cmd_active_jfr = 8"
  by (simp_all add: uburma_cmd_active_jfr_def round_up_def)

lemma size_uburma_cmd_alloc_jfs [simp]: "c_size uburma_cmd_alloc_jfs = 104" "c_align uburma_cmd_alloc_jfs = 8"
  by (simp_all add: uburma_cmd_alloc_jfs_def round_up_def)

lemma size_uburma_cmd_active_jfs [simp]: "c_size uburma_cmd_active_jfs = 112" "c_align uburma_cmd_active_jfs = 8"
  by (simp_all add: uburma_cmd_active_jfs_def round_up_def)

lemma size_uburma_cmd_create_jetty [simp]: "c_size uburma_cmd_create_jetty = 176" "c_align uburma_cmd_create_jetty = 8"
  by (simp_all add: uburma_cmd_create_jetty_def round_up_def)

lemma size_uburma_cmd_alloc_jetty [simp]: "c_size uburma_cmd_alloc_jetty = 176" "c_align uburma_cmd_alloc_jetty = 8"
  by (simp_all add: uburma_cmd_alloc_jetty_def round_up_def)

lemma size_uburma_cmd_active_jetty [simp]: "c_size uburma_cmd_active_jetty = 88" "c_align uburma_cmd_active_jetty = 8"
  by (simp_all add: uburma_cmd_active_jetty_def round_up_def)

lemma size_uburma_cmd_register_seg [simp]: "c_size uburma_cmd_register_seg = 88" "c_align uburma_cmd_register_seg = 8"
  by (simp_all add: uburma_cmd_register_seg_def round_up_def)

lemma size_uburma_cmd_unregister_seg [simp]: "c_size uburma_cmd_unregister_seg = 8" "c_align uburma_cmd_unregister_seg = 8"
  by (simp_all add: uburma_cmd_unregister_seg_def round_up_def)

lemma size_uburma_cmd_get_eid_list [simp]: "c_size uburma_cmd_get_eid_list = 24592" "c_align uburma_cmd_get_eid_list = 8"
  by (simp_all add: uburma_cmd_get_eid_list_def round_up_def)

lemma size_uburma_cmd_import_jetty [simp]: "c_size uburma_cmd_import_jetty = 96" "c_align uburma_cmd_import_jetty = 8"
  by (simp_all add: uburma_cmd_import_jetty_def round_up_def)

lemma size_uburma_cmd_bind_jetty [simp]: "c_size uburma_cmd_bind_jetty = 56" "c_align uburma_cmd_bind_jetty = 8"
  by (simp_all add: uburma_cmd_bind_jetty_def round_up_def)

lemma size_ubcore_guid_user [simp]: "c_size ubcore_guid_user = 16" "c_align ubcore_guid_user = 1"
  by (simp_all add: ubcore_guid_user_def round_up_def)

lemma size_uburma_cmd_device_cap [simp]: "c_size uburma_cmd_device_cap = 304" "c_align uburma_cmd_device_cap = 8"
  by (simp_all add: uburma_cmd_device_cap_def round_up_def)

lemma size_uburma_cmd_port_attr [simp]: "c_size uburma_cmd_port_attr = 20" "c_align uburma_cmd_port_attr = 4"
  by (simp_all add: uburma_cmd_port_attr_def round_up_def)

lemma size_uburma_cmd_device_attr [simp]: "c_size uburma_cmd_device_attr = 496" "c_align uburma_cmd_device_attr = 8"
  by (simp_all add: uburma_cmd_device_attr_def round_up_def)

lemma size_uburma_cmd_query_device_attr [simp]: "c_size uburma_cmd_query_device_attr = 560" "c_align uburma_cmd_query_device_attr = 8"
  by (simp_all add: uburma_cmd_query_device_attr_def round_up_def)

lemma size_uburma_cmd_unbind_jetty_local [simp]: "c_size uburma_cmd_unbind_jetty_local = 16" "c_align uburma_cmd_unbind_jetty_local = 8"
  by (simp_all add: uburma_cmd_unbind_jetty_local_def round_up_def)

lemma size_uburma_cmd_unimport_jetty_local [simp]: "c_size uburma_cmd_unimport_jetty_local = 8" "c_align uburma_cmd_unimport_jetty_local = 8"
  by (simp_all add: uburma_cmd_unimport_jetty_local_def round_up_def)

text \<open>
  The sizes the header asserts at compile time are those the layout gives: the assertions hold, and the layout
  of the model is that of the compiler as far as they tell.
\<close>

theorem static_asserts:
  "c_size uburma_cmd_hdr = 16 \<and>
   c_size uburma_cmd_udrv_priv = 32 \<and>
   c_size uburma_cmd_alloc_token_id = 56 \<and>
   c_size uburma_cmd_free_token_id = 16 \<and>
   c_size uburma_cmd_create_ctx = 56 \<and>
   c_size uburma_cmd_alloc_jfc = 80 \<and>
   c_size uburma_cmd_active_jfc = 80 \<and>
   c_size uburma_cmd_alloc_jfr = 104 \<and>
   c_size uburma_cmd_active_jfr = 112 \<and>
   c_size uburma_cmd_alloc_jfs = 104 \<and>
   c_size uburma_cmd_active_jfs = 112 \<and>
   c_size uburma_cmd_create_jetty = 176 \<and>
   c_size uburma_cmd_alloc_jetty = 176 \<and>
   c_size uburma_cmd_active_jetty = 88 \<and>
   c_size uburma_cmd_register_seg = 88 \<and>
   c_size uburma_cmd_unregister_seg = 8 \<and>
   c_size uburma_cmd_import_jetty = 96 \<and>
   c_size uburma_cmd_bind_jetty = 56 \<and>
   c_size uburma_cmd_device_cap = 304 \<and>
   c_size uburma_cmd_device_attr = 496 \<and>
   c_size uburma_cmd_query_device_attr = 560"
  by simp

end
