(* ===== verification/RDMA_Tlv.thy ===== *)
theory RDMA_Tlv
  imports RDMA_Layout
begin

text \<open>
  The attribute lists of the uburma commands (\<^verbatim>\<open>ub_rdma_demo.c\<close>): every function that fills them. The
  switch over the commands and \<^verbatim>\<open>ub_ioctl\<close>, which hands them to the kernel, follow in \<open>RDMA_Request\<close>. For every command the
  lists are as long as the counts passed on, each attribute lies inside the argument block, no two results
  share a byte, and all fit the array they are copied to.
\<close>

section \<open>Attributes\<close>

record uburma_cmd_spec =
  sp_type :: u8
  sp_flag :: u8
  sp_field_size :: u16
  sp_attr_data :: u32
  sp_data :: u64

record uburma_cmd_attr =
  at_type :: u8
  at_flag :: u8
  at_field_size :: u16
  at_attr_data :: u32
  at_data :: u64

definition fill_spec :: "int \<Rightarrow> int \<Rightarrow> int \<Rightarrow> int \<Rightarrow> u64 \<Rightarrow> uburma_cmd_spec" where
  "fill_spec ty field_size el_num el_size data =
     \<lparr>sp_type = of_int ty, sp_flag = 1, sp_field_size = of_int field_size,
      sp_attr_data = (of_int el_num AND 0xfff) OR push_bit 12 (of_int el_size AND 0xfff), sp_data = data\<rparr>"

text \<open>The two macros, with the number of the attribute and the path of the field. An entry has the number of the
  attribute, the size of the field, number and size of the elements, and the offset of the field.\<close>

datatype spec_item = SPEC int "string list" | SPEC_ARRAY int "string list" string

type_synonym spec_entry = "int \<times> int \<times> int \<times> int \<times> int"

definition spec_entry_of :: "ctype \<Rightarrow> spec_item \<Rightarrow> spec_entry list" where
  "spec_entry_of t item =
     (case item of
        SPEC ty path \<Rightarrow> (case c_resolve t path of Some (off, u) \<Rightarrow> [(ty, c_size u, 1, 0, off)] | None \<Rightarrow> [])
      | SPEC_ARRAY ty path field \<Rightarrow>
          (case c_resolve t path of
             Some (off, CArr k u) \<Rightarrow>
               (case c_resolve u [field] of Some (o', v) \<Rightarrow> [(ty, c_size v, k, c_size u, off + o')] | None \<Rightarrow> [])
           | _ \<Rightarrow> []))"

definition spec_entries :: "ctype \<Rightarrow> spec_item list \<Rightarrow> spec_entry list" where
  "spec_entries t items = concat (map (spec_entry_of t) items)"

definition fill_entry :: "u64 \<Rightarrow> spec_entry \<Rightarrow> uburma_cmd_spec" where
  "fill_entry arg e = (case e of (ty, n, el_num, el_size, off) \<Rightarrow> fill_spec ty n el_num el_size (arg + of_int off))"

section \<open>The commands\<close>

definition uburma_create_ctx_fill_spec_in :: "spec_entry list" where
  "uburma_create_ctx_fill_spec_in = spec_entries uburma_cmd_create_ctx
     [SPEC CREATE_CTX_IN_EID [''in'', ''eid''],
      SPEC CREATE_CTX_IN_EID_INDEX [''in'', ''eid_index''],
      SPEC CREATE_CTX_IN_UDATA [''udata'']]"

definition uburma_create_ctx_fill_spec_out :: "spec_entry list" where
  "uburma_create_ctx_fill_spec_out = spec_entries uburma_cmd_create_ctx
     [SPEC CREATE_CTX_OUT_ASYNC_FD [''out'', ''async_fd''],
      SPEC CREATE_CTX_OUT_UDATA [''udata'']]"

definition uburma_alloc_token_id_fill_spec_in :: "spec_entry list" where
  "uburma_alloc_token_id_fill_spec_in = spec_entries uburma_cmd_alloc_token_id
     [SPEC ALLOC_TOKEN_ID_IN_FLAG [''flag''],
      SPEC ALLOC_TOKEN_ID_IN_UDATA [''udata'']]"

definition uburma_alloc_token_id_fill_spec_out :: "spec_entry list" where
  "uburma_alloc_token_id_fill_spec_out = spec_entries uburma_cmd_alloc_token_id
     [SPEC ALLOC_TOKEN_ID_OUT_TOKEN_ID [''out'', ''token_id''],
      SPEC ALLOC_TOKEN_ID_OUT_HANDLE [''out'', ''handle''],
      SPEC ALLOC_TOKEN_ID_OUT_UDATA [''udata'']]"

definition uburma_free_token_id_fill_spec_in :: "spec_entry list" where
  "uburma_free_token_id_fill_spec_in = spec_entries uburma_cmd_free_token_id
     [SPEC FREE_TOKEN_ID_IN_HANDLE [''in'', ''handle''],
      SPEC FREE_TOKEN_ID_IN_TOKEN_ID [''in'', ''token_id'']]"

definition uburma_unregister_seg_fill_spec_in :: "spec_entry list" where
  "uburma_unregister_seg_fill_spec_in = spec_entries uburma_cmd_unregister_seg
     [SPEC UNREGISTER_SEG_IN_HANDLE [''in'', ''handle'']]"

definition uburma_get_eid_list_fill_spec_in :: "spec_entry list" where
  "uburma_get_eid_list_fill_spec_in = spec_entries uburma_cmd_get_eid_list
     [SPEC GET_EID_LIST_IN_MAX_EID_CNT [''in'', ''max_eid_cnt'']]"

definition uburma_get_eid_list_fill_spec_out :: "spec_entry list" where
  "uburma_get_eid_list_fill_spec_out = spec_entries uburma_cmd_get_eid_list
     [SPEC GET_EID_LIST_OUT_EID_CNT [''out'', ''eid_cnt''],
      SPEC GET_EID_LIST_OUT_EID_LIST [''out'', ''eid_list'']]"

definition uburma_register_seg_fill_spec_in :: "spec_entry list" where
  "uburma_register_seg_fill_spec_in = spec_entries uburma_cmd_register_seg
     [SPEC REGISTER_SEG_IN_VA [''in'', ''va''],
      SPEC REGISTER_SEG_IN_LEN [''in'', ''len''],
      SPEC REGISTER_SEG_IN_TOKEN_ID [''in'', ''token_id''],
      SPEC REGISTER_SEG_IN_TOKEN_ID_HANDLE [''in'', ''token_id_handle''],
      SPEC REGISTER_SEG_IN_TOKEN [''in'', ''token''],
      SPEC REGISTER_SEG_IN_FLAG [''in'', ''flag''],
      SPEC REGISTER_SEG_IN_UDATA [''udata'']]"

definition uburma_register_seg_fill_spec_out :: "spec_entry list" where
  "uburma_register_seg_fill_spec_out = spec_entries uburma_cmd_register_seg
     [SPEC REGISTER_SEG_OUT_TOKEN_ID [''out'', ''token_id''],
      SPEC REGISTER_SEG_OUT_HANDLE [''out'', ''handle''],
      SPEC REGISTER_SEG_OUT_UDATA [''udata'']]"

definition uburma_alloc_jfc_fill_spec_in :: "spec_entry list" where
  "uburma_alloc_jfc_fill_spec_in = spec_entries uburma_cmd_alloc_jfc
     [SPEC ALLOC_JFC_IN_DEPTH [''in'', ''depth''],
      SPEC ALLOC_JFC_IN_FLAG [''in'', ''flag''],
      SPEC ALLOC_JFC_IN_JFCE_FD [''in'', ''jfce_fd''],
      SPEC ALLOC_JFC_IN_URMA_JFC [''in'', ''urma_jfc''],
      SPEC ALLOC_JFC_IN_CEQN [''in'', ''ceqn''],
      SPEC ALLOC_JFC_IN_UDATA [''udata'']]"

definition uburma_alloc_jfc_fill_spec_out :: "spec_entry list" where
  "uburma_alloc_jfc_fill_spec_out = spec_entries uburma_cmd_alloc_jfc
     [SPEC ALLOC_JFC_OUT_DEPTH [''out'', ''depth''],
      SPEC ALLOC_JFC_OUT_ID [''out'', ''id''],
      SPEC ALLOC_JFC_OUT_HANDLE [''out'', ''handle''],
      SPEC ALLOC_JFC_IN_UDATA [''udata'']]"

definition uburma_active_jfc_fill_spec_in :: "spec_entry list" where
  "uburma_active_jfc_fill_spec_in = spec_entries uburma_cmd_active_jfc
     [SPEC ACTIVE_JFC_IN_HANDLE [''in'', ''handle''],
      SPEC ACTIVE_JFC_IN_DEPTH [''in'', ''depth''],
      SPEC ACTIVE_JFC_IN_FLAG [''in'', ''flag''],
      SPEC ACTIVE_JFC_IN_CEQN [''in'', ''ceqn''],
      SPEC ACTIVE_JFC_IN_JFC_OPT [''in'', ''urma_jfc_opt''],
      SPEC ACTIVE_JFC_IN_UDATA [''udata'']]"

definition uburma_active_jfc_fill_spec_out :: "spec_entry list" where
  "uburma_active_jfc_fill_spec_out = spec_entries uburma_cmd_active_jfc
     [SPEC ACTIVE_JFC_OUT_ID [''out'', ''id''],
      SPEC ACTIVE_JFC_OUT_DEPTH [''out'', ''depth''],
      SPEC ACTIVE_JFC_OUT_HANDLE [''out'', ''handle''],
      SPEC ACTIVE_JFC_OUT_UDATA [''udata'']]"

definition uburma_alloc_jfr_fill_spec_in :: "spec_entry list" where
  "uburma_alloc_jfr_fill_spec_in = spec_entries uburma_cmd_alloc_jfr
     [SPEC ALLOC_JFR_IN_DEPTH [''in'', ''depth''],
      SPEC ALLOC_JFR_IN_FLAG [''in'', ''flag''],
      SPEC ALLOC_JFR_IN_TRANS_MODE [''in'', ''trans_mode''],
      SPEC ALLOC_JFR_IN_MAX_SGE [''in'', ''max_sge''],
      SPEC ALLOC_JFR_IN_MIN_RNR_TIMER [''in'', ''min_rnr_timer''],
      SPEC ALLOC_JFR_IN_JFC_ID [''in'', ''jfc_id''],
      SPEC ALLOC_JFR_IN_JFC_HANDLE [''in'', ''jfc_handle''],
      SPEC ALLOC_JFR_IN_TOKEN [''in'', ''token''],
      SPEC ALLOC_JFR_IN_ID [''in'', ''id''],
      SPEC ALLOC_JFR_IN_URMA_JFR [''in'', ''urma_jfr''],
      SPEC ALLOC_JFR_IN_UDATA [''udata'']]"

definition uburma_alloc_jfr_fill_spec_out :: "spec_entry list" where
  "uburma_alloc_jfr_fill_spec_out = spec_entries uburma_cmd_alloc_jfr
     [SPEC ALLOC_JFR_OUT_ID [''out'', ''id''],
      SPEC ALLOC_JFR_OUT_DEPTH [''out'', ''depth''],
      SPEC ALLOC_JFR_OUT_HANDLE [''out'', ''handle''],
      SPEC ALLOC_JFR_OUT_MAX_SGE [''out'', ''max_sge''],
      SPEC ALLOC_JFR_OUT_UDATA [''udata'']]"

definition uburma_active_jfr_fill_spec_in :: "spec_entry list" where
  "uburma_active_jfr_fill_spec_in = spec_entries uburma_cmd_active_jfr
     [SPEC ACTIVE_JFR_IN_HANDLE [''in'', ''handle''],
      SPEC ACTIVE_JFR_IN_DEPTH [''in'', ''depth''],
      SPEC ACTIVE_JFR_IN_FLAG [''in'', ''flag''],
      SPEC ACTIVE_JFR_IN_TRANS_MODE [''in'', ''trans_mode''],
      SPEC ACTIVE_JFR_IN_MAX_SGE [''in'', ''max_sge''],
      SPEC ACTIVE_JFR_IN_MIN_RNR_TIMER [''in'', ''min_rnr_timer''],
      SPEC ACTIVE_JFR_IN_JFC_ID [''in'', ''jfc_id''],
      SPEC ACTIVE_JFR_IN_JFC_HANDLE [''in'', ''jfc_handle''],
      SPEC ACTIVE_JFR_IN_TOKEN [''in'', ''token_value''],
      SPEC ACTIVE_JFR_IN_JFR_OPT [''in'', ''urma_jfr_opt''],
      SPEC ACTIVE_JFR_IN_UDATA [''udata'']]"

definition uburma_active_jfr_fill_spec_out :: "spec_entry list" where
  "uburma_active_jfr_fill_spec_out = spec_entries uburma_cmd_active_jfr
     [SPEC ACTIVE_JFR_OUT_ID [''out'', ''id''],
      SPEC ACTIVE_JFR_OUT_DEPTH [''out'', ''depth''],
      SPEC ACTIVE_JFR_OUT_HANDLE [''out'', ''handle''],
      SPEC ACTIVE_JFR_OUT_MAX_SGE [''out'', ''max_sge''],
      SPEC ACTIVE_JFR_OUT_UDATA [''udata'']]"

definition uburma_alloc_jfs_fill_spec_in :: "spec_entry list" where
  "uburma_alloc_jfs_fill_spec_in = spec_entries uburma_cmd_alloc_jfs
     [SPEC ALLOC_JFS_IN_DEPTH [''in'', ''depth''],
      SPEC ALLOC_JFS_IN_FLAG [''in'', ''flag''],
      SPEC ALLOC_JFS_IN_TRANS_MODE [''in'', ''trans_mode''],
      SPEC ALLOC_JFS_IN_PRIORITY [''in'', ''priority''],
      SPEC ALLOC_JFS_IN_MAX_SGE [''in'', ''max_sge''],
      SPEC ALLOC_JFS_IN_MAX_RSGE [''in'', ''max_rsge''],
      SPEC ALLOC_JFS_IN_MAX_INLINE_DATA [''in'', ''max_inline_data''],
      SPEC ALLOC_JFS_IN_RNR_RETRY [''in'', ''rnr_retry''],
      SPEC ALLOC_JFS_IN_ERR_TIMEOUT [''in'', ''err_timeout''],
      SPEC ALLOC_JFS_IN_JFC_ID [''in'', ''jfc_id''],
      SPEC ALLOC_JFS_IN_JFC_HANDLE [''in'', ''jfc_handle''],
      SPEC ALLOC_JFS_IN_URMA_JFS [''in'', ''urma_jfs''],
      SPEC ALLOC_JFS_IN_UDATA [''udata'']]"

definition uburma_alloc_jfs_fill_spec_out :: "spec_entry list" where
  "uburma_alloc_jfs_fill_spec_out = spec_entries uburma_cmd_alloc_jfs
     [SPEC ALLOC_JFS_OUT_ID [''out'', ''id''],
      SPEC ALLOC_JFS_OUT_DEPTH [''out'', ''depth''],
      SPEC ALLOC_JFS_OUT_MAX_SGE [''out'', ''max_sge''],
      SPEC ALLOC_JFS_OUT_MAX_RSGE [''out'', ''max_rsge''],
      SPEC ALLOC_JFS_OUT_MAX_INLINE_DATA [''out'', ''max_inline_data''],
      SPEC ALLOC_JFS_OUT_HANDLE [''out'', ''handle''],
      SPEC ALLOC_JFS_OUT_UDATA [''udata'']]"

definition uburma_active_jfs_fill_spec_in :: "spec_entry list" where
  "uburma_active_jfs_fill_spec_in = spec_entries uburma_cmd_active_jfs
     [SPEC ACTIVE_JFS_IN_HANDLE [''in'', ''handle''],
      SPEC ACTIVE_JFS_IN_DEPTH [''in'', ''depth''],
      SPEC ACTIVE_JFS_IN_FLAG [''in'', ''flag''],
      SPEC ACTIVE_JFS_IN_TRANS_MODE [''in'', ''trans_mode''],
      SPEC ACTIVE_JFS_IN_PRIORITY [''in'', ''priority''],
      SPEC ACTIVE_JFS_IN_MAX_SGE [''in'', ''max_sge''],
      SPEC ACTIVE_JFS_IN_MAX_RSGE [''in'', ''max_rsge''],
      SPEC ACTIVE_JFS_IN_MAX_INLINE_DATA [''in'', ''max_inline_data''],
      SPEC ACTIVE_JFS_IN_RNR_RETRY [''in'', ''rnr_retry''],
      SPEC ACTIVE_JFS_IN_ERR_TIMEOUT [''in'', ''err_timeout''],
      SPEC ACTIVE_JFS_IN_JFC_ID [''in'', ''jfc_id''],
      SPEC ACTIVE_JFS_IN_JFC_HANDLE [''in'', ''jfc_handle''],
      SPEC ACTIVE_JFS_IN_JFS_OPT [''in'', ''jfs_opt''],
      SPEC ACTIVE_JFS_IN_UDATA [''udata'']]"

definition uburma_active_jfs_fill_spec_out :: "spec_entry list" where
  "uburma_active_jfs_fill_spec_out = spec_entries uburma_cmd_active_jfs
     [SPEC ACTIVE_JFS_OUT_ID [''out'', ''id''],
      SPEC ACTIVE_JFS_OUT_DEPTH [''out'', ''depth''],
      SPEC ACTIVE_JFS_OUT_MAX_SGE [''out'', ''max_sge''],
      SPEC ACTIVE_JFS_OUT_MAX_RSGE [''out'', ''max_rsge''],
      SPEC ACTIVE_JFS_OUT_MAX_INLINE_DATA [''out'', ''max_inline_data''],
      SPEC ACTIVE_JFS_OUT_HANDLE [''out'', ''handle''],
      SPEC ACTIVE_JFS_OUT_UDATA [''udata'']]"

definition uburma_alloc_jetty_fill_spec_in :: "spec_entry list" where
  "uburma_alloc_jetty_fill_spec_in = spec_entries uburma_cmd_alloc_jetty
     [SPEC ALLOC_JETTY_IN_CFG [''create_jetty'']]"

definition uburma_alloc_jetty_fill_spec_out :: "spec_entry list" where
  "uburma_alloc_jetty_fill_spec_out = spec_entries uburma_cmd_alloc_jetty
     [SPEC ALLOC_JETTY_OUT_CFG [''create_jetty'']]"

definition uburma_active_jetty_fill_spec_in :: "spec_entry list" where
  "uburma_active_jetty_fill_spec_in = spec_entries uburma_cmd_active_jetty
     [SPEC ACTIVE_JETTY_IN_FLAG [''in'', ''flag''],
      SPEC ACTIVE_JETTY_IN_HANDLE [''in'', ''handle''],
      SPEC ACTIVE_JETTY_IN_SEND_JFC_HANDLE [''in'', ''send_jfc_handle''],
      SPEC ACTIVE_JETTY_IN_RECV_JFC_HANDLE [''in'', ''recv_jfc_handle''],
      SPEC ACTIVE_JETTY_IN_URMA_JETTY [''in'', ''urma_jetty''],
      SPEC ACTIVE_JETTY_IN_JETTY_OPT [''in'', ''jetty_opt''],
      SPEC ACTIVE_JETTY_IN_UDATA [''udata'']]"

definition uburma_active_jetty_fill_spec_out :: "spec_entry list" where
  "uburma_active_jetty_fill_spec_out = spec_entries uburma_cmd_active_jetty
     [SPEC ACTIVE_JETTY_OUT_JETTY_ID [''out'', ''jetty_id''],
      SPEC ACTIVE_JETTY_OUT_UDATA [''udata'']]"

definition uburma_import_jetty_fill_spec_in :: "spec_entry list" where
  "uburma_import_jetty_fill_spec_in = spec_entries uburma_cmd_import_jetty
     [SPEC IMPORT_JETTY_IN_EID [''in'', ''eid''],
      SPEC IMPORT_JETTY_IN_ID [''in'', ''id''],
      SPEC IMPORT_JETTY_IN_FLAG [''in'', ''flag''],
      SPEC IMPORT_JETTY_IN_TOKEN [''in'', ''token''],
      SPEC IMPORT_JETTY_IN_TRANS_MODE [''in'', ''trans_mode''],
      SPEC IMPORT_JETTY_IN_POLICY [''in'', ''policy''],
      SPEC IMPORT_JETTY_IN_TYPE [''in'', ''type''],
      SPEC IMPORT_JETTY_IN_TP_TYPE [''in'', ''tp_type''],
      SPEC IMPORT_JETTY_IN_UDATA [''udata'']]"

definition uburma_import_jetty_fill_spec_out :: "spec_entry list" where
  "uburma_import_jetty_fill_spec_out = spec_entries uburma_cmd_import_jetty
     [SPEC IMPORT_JETTY_OUT_TPN [''out'', ''tpn''],
      SPEC IMPORT_JETTY_OUT_HANDLE [''out'', ''handle''],
      SPEC IMPORT_JETTY_OUT_UDATA [''udata'']]"

definition uburma_bind_jetty_fill_spec_in :: "spec_entry list" where
  "uburma_bind_jetty_fill_spec_in = spec_entries uburma_cmd_bind_jetty
     [SPEC BIND_JETTY_IN_JETTY_HANDLE [''in'', ''jetty_handle''],
      SPEC BIND_JETTY_IN_TJETTY_HANDLE [''in'', ''tjetty_handle''],
      SPEC BIND_JETTY_IN_UDATA [''udata'']]"

definition uburma_bind_jetty_fill_spec_out :: "spec_entry list" where
  "uburma_bind_jetty_fill_spec_out = spec_entries uburma_cmd_bind_jetty
     [SPEC BIND_JETTY_OUT_TPN [''out'', ''tpn''],
      SPEC BIND_JETTY_OUT_UDATA [''udata'']]"

definition uburma_unimport_jetty_fill_spec_in :: "spec_entry list" where
  "uburma_unimport_jetty_fill_spec_in = spec_entries uburma_cmd_unimport_jetty_local
     [SPEC UNIMPORT_JETTY_IN_HANDLE [''in'', ''handle'']]"

definition uburma_unbind_jetty_fill_spec_in :: "spec_entry list" where
  "uburma_unbind_jetty_fill_spec_in = spec_entries uburma_cmd_unbind_jetty_local
     [SPEC UNADVISE_JETTY_IN_JETTY_HANDLE [''in'', ''jetty_handle''],
      SPEC UNADVISE_JETTY_IN_TJETTY_HANDLE [''in'', ''tjetty_handle'']]"

definition uburma_query_device_fill_spec_in :: "spec_entry list" where
  "uburma_query_device_fill_spec_in = spec_entries uburma_cmd_query_device_attr
     [SPEC QUERY_DEVICE_IN_DEV_NAME [''in'', ''dev_name'']]"

definition uburma_query_device_fill_spec_out :: "spec_entry list" where
  "uburma_query_device_fill_spec_out = spec_entries uburma_cmd_query_device_attr
     [SPEC QUERY_DEVICE_OUT_GUID [''out'', ''attr'', ''guid''],
      SPEC QUERY_DEVICE_OUT_DEV_CAP_FEATURE [''out'', ''attr'', ''dev_cap'', ''feature''],
      SPEC QUERY_DEVICE_OUT_DEV_CAP_MAX_JFC [''out'', ''attr'', ''dev_cap'', ''max_jfc''],
      SPEC QUERY_DEVICE_OUT_DEV_CAP_MAX_JFS [''out'', ''attr'', ''dev_cap'', ''max_jfs''],
      SPEC QUERY_DEVICE_OUT_DEV_CAP_MAX_JFR [''out'', ''attr'', ''dev_cap'', ''max_jfr''],
      SPEC QUERY_DEVICE_OUT_DEV_CAP_MAX_JETTY [''out'', ''attr'', ''dev_cap'', ''max_jetty''],
      SPEC QUERY_DEVICE_OUT_DEV_CAP_MAX_JETTY_GRP [''out'', ''attr'', ''dev_cap'', ''max_jetty_grp''],
      SPEC QUERY_DEVICE_OUT_DEV_CAP_MAX_JETTY_IN_JETTY_GRP [''out'', ''attr'', ''dev_cap'', ''max_jetty_in_jetty_grp''],
      SPEC QUERY_DEVICE_OUT_DEV_CAP_MAX_JFC_DEPTH [''out'', ''attr'', ''dev_cap'', ''max_jfc_depth''],
      SPEC QUERY_DEVICE_OUT_DEV_CAP_MAX_JFS_DEPTH [''out'', ''attr'', ''dev_cap'', ''max_jfs_depth''],
      SPEC QUERY_DEVICE_OUT_DEV_CAP_MAX_JFR_DEPTH [''out'', ''attr'', ''dev_cap'', ''max_jfr_depth''],
      SPEC QUERY_DEVICE_OUT_DEV_CAP_MAX_JFS_INLINE_LEN [''out'', ''attr'', ''dev_cap'', ''max_jfs_inline_len''],
      SPEC QUERY_DEVICE_OUT_DEV_CAP_MAX_JFS_SGE [''out'', ''attr'', ''dev_cap'', ''max_jfs_sge''],
      SPEC QUERY_DEVICE_OUT_DEV_CAP_MAX_JFS_RSGE [''out'', ''attr'', ''dev_cap'', ''max_jfs_rsge''],
      SPEC QUERY_DEVICE_OUT_DEV_CAP_MAX_JFR_SGE [''out'', ''attr'', ''dev_cap'', ''max_jfr_sge''],
      SPEC QUERY_DEVICE_OUT_DEV_CAP_MAX_MSG_SIZE [''out'', ''attr'', ''dev_cap'', ''max_msg_size''],
      SPEC QUERY_DEVICE_OUT_DEV_CAP_MAX_READ_SIZE [''out'', ''attr'', ''dev_cap'', ''max_read_size''],
      SPEC QUERY_DEVICE_OUT_DEV_CAP_MAX_WRITE_SIZE [''out'', ''attr'', ''dev_cap'', ''max_write_size''],
      SPEC QUERY_DEVICE_OUT_DEV_CAP_MAX_CAS_SIZE [''out'', ''attr'', ''dev_cap'', ''max_cas_size''],
      SPEC QUERY_DEVICE_OUT_DEV_CAP_MAX_SWAP_SIZE [''out'', ''attr'', ''dev_cap'', ''max_swap_size''],
      SPEC QUERY_DEVICE_OUT_DEV_CAP_MAX_FETCH_AND_ADD_SIZE [''out'', ''attr'', ''dev_cap'', ''max_fetch_and_add_size''],
      SPEC QUERY_DEVICE_OUT_DEV_CAP_MAX_FETCH_AND_SUB_SIZE [''out'', ''attr'', ''dev_cap'', ''max_fetch_and_sub_size''],
      SPEC QUERY_DEVICE_OUT_DEV_CAP_MAX_FETCH_AND_AND_SIZE [''out'', ''attr'', ''dev_cap'', ''max_fetch_and_and_size''],
      SPEC QUERY_DEVICE_OUT_DEV_CAP_MAX_FETCH_AND_OR_SIZE [''out'', ''attr'', ''dev_cap'', ''max_fetch_and_or_size''],
      SPEC QUERY_DEVICE_OUT_DEV_CAP_MAX_FETCH_AND_XOR_SIZE [''out'', ''attr'', ''dev_cap'', ''max_fetch_and_xor_size''],
      SPEC QUERY_DEVICE_OUT_DEV_CAP_ATOMIC_FEAT [''out'', ''attr'', ''dev_cap'', ''atomic_feat''],
      SPEC QUERY_DEVICE_OUT_DEV_CAP_TRANS_MODE [''out'', ''attr'', ''dev_cap'', ''trans_mode''],
      SPEC QUERY_DEVICE_OUT_DEV_CAP_SUB_TRANS_MODE_CAP [''out'', ''attr'', ''dev_cap'', ''sub_trans_mode_cap''],
      SPEC QUERY_DEVICE_OUT_DEV_CAP_CONGESTION_CTRL_ALG [''out'', ''attr'', ''dev_cap'', ''congestion_ctrl_alg''],
      SPEC QUERY_DEVICE_OUT_DEV_CAP_CEQ_CNT [''out'', ''attr'', ''dev_cap'', ''ceq_cnt''],
      SPEC QUERY_DEVICE_OUT_DEV_CAP_MAX_TP_IN_TPG [''out'', ''attr'', ''dev_cap'', ''max_tp_in_tpg''],
      SPEC QUERY_DEVICE_OUT_DEV_CAP_MAX_EID_CNT [''out'', ''attr'', ''dev_cap'', ''max_eid_cnt''],
      SPEC QUERY_DEVICE_OUT_DEV_CAP_PAGE_SIZE_CAP [''out'', ''attr'', ''dev_cap'', ''page_size_cap''],
      SPEC QUERY_DEVICE_OUT_DEV_CAP_MAX_OOR_CNT [''out'', ''attr'', ''dev_cap'', ''max_oor_cnt''],
      SPEC QUERY_DEVICE_OUT_DEV_CAP_MN [''out'', ''attr'', ''dev_cap'', ''mn''],
      SPEC QUERY_DEVICE_OUT_DEV_CAP_MAX_NETADDR_CN [''out'', ''attr'', ''dev_cap'', ''max_netaddr_cnt''],
      SPEC QUERY_DEVICE_OUT_PORT_CNT [''out'', ''attr'', ''port_cnt''],
      SPEC QUERY_DEVICE_OUT_RESERVED_JETTY_ID_MIN [''out'', ''attr'', ''reserved_jetty_id_min''],
      SPEC QUERY_DEVICE_OUT_RESERVED_JETTY_ID_MAX [''out'', ''attr'', ''reserved_jetty_id_max''],
      SPEC_ARRAY QUERY_DEVICE_OUT_PORT_ATTR_MAX_MTU [''out'', ''attr'', ''port_attr''] ''max_mtu'',
      SPEC_ARRAY QUERY_DEVICE_OUT_PORT_ATTR_STATE [''out'', ''attr'', ''port_attr''] ''state'',
      SPEC_ARRAY QUERY_DEVICE_OUT_PORT_ATTR_ACTIVE_WIDTH [''out'', ''attr'', ''port_attr''] ''active_width'',
      SPEC_ARRAY QUERY_DEVICE_OUT_PORT_ATTR_ACTIVE_SPEED [''out'', ''attr'', ''port_attr''] ''active_speed'',
      SPEC_ARRAY QUERY_DEVICE_OUT_PORT_ATTR_ACTIVE_MTU [''out'', ''attr'', ''port_attr''] ''active_mtu'',
      SPEC QUERY_DEVICE_OUT_DEV_CAP_RM_ORDER_CAP [''out'', ''attr'', ''dev_cap'', ''rm_order_cap'', ''value''],
      SPEC QUERY_DEVICE_OUT_DEV_CAP_RC_ORDER_CAP [''out'', ''attr'', ''dev_cap'', ''rc_order_cap'', ''value''],
      SPEC QUERY_DEVICE_OUT_DEV_CAP_RM_TP_CAP [''out'', ''attr'', ''dev_cap'', ''rm_tp_cap'', ''value''],
      SPEC QUERY_DEVICE_OUT_DEV_CAP_RC_TP_CAP [''out'', ''attr'', ''dev_cap'', ''rc_tp_cap'', ''value''],
      SPEC QUERY_DEVICE_OUT_DEV_CAP_UM_TP_CAP [''out'', ''attr'', ''dev_cap'', ''um_tp_cap'', ''value''],
      SPEC QUERY_DEVICE_OUT_DEV_CAP_TP_FEATURE [''out'', ''attr'', ''dev_cap'', ''tp_feature'', ''value''],
      SPEC QUERY_DEVICE_OUT_DEV_CAP_PRIORITY_INFO [''out'', ''attr'', ''dev_cap'', ''priority_info'']]"

section \<open>Tables\<close>

text \<open>What the functions fill in: number, size of the field, elements, size of an element, offset.\<close>

lemmas entry_simps = spec_entries_def spec_entry_of_def round_up_def tlv_numbers

lemma uburma_create_ctx_fill_spec_in_table:
  "uburma_create_ctx_fill_spec_in =
     [(0, 16, 1, 0, 0), (1, 4, 1, 0, 16), (2, 32, 1, 0, 24)]"
  unfolding uburma_create_ctx_fill_spec_in_def uburma_cmd_create_ctx_def by (simp add: entry_simps)

lemma uburma_create_ctx_fill_spec_out_table:
  "uburma_create_ctx_fill_spec_out =
     [(128, 4, 1, 0, 20), (129, 32, 1, 0, 24)]"
  unfolding uburma_create_ctx_fill_spec_out_def uburma_cmd_create_ctx_def by (simp add: entry_simps)

lemma uburma_alloc_token_id_fill_spec_in_table:
  "uburma_alloc_token_id_fill_spec_in =
     [(1, 4, 1, 0, 48), (0, 32, 1, 0, 16)]"
  unfolding uburma_alloc_token_id_fill_spec_in_def uburma_cmd_alloc_token_id_def by (simp add: entry_simps)

lemma uburma_alloc_token_id_fill_spec_out_table:
  "uburma_alloc_token_id_fill_spec_out =
     [(128, 4, 1, 0, 0), (129, 8, 1, 0, 8), (130, 32, 1, 0, 16)]"
  unfolding uburma_alloc_token_id_fill_spec_out_def uburma_cmd_alloc_token_id_def by (simp add: entry_simps)

lemma uburma_free_token_id_fill_spec_in_table:
  "uburma_free_token_id_fill_spec_in =
     [(0, 8, 1, 0, 0), (1, 4, 1, 0, 8)]"
  unfolding uburma_free_token_id_fill_spec_in_def uburma_cmd_free_token_id_def by (simp add: entry_simps)

lemma uburma_unregister_seg_fill_spec_in_table:
  "uburma_unregister_seg_fill_spec_in =
     [(0, 8, 1, 0, 0)]"
  unfolding uburma_unregister_seg_fill_spec_in_def uburma_cmd_unregister_seg_def by (simp add: entry_simps)

lemma uburma_get_eid_list_fill_spec_in_table:
  "uburma_get_eid_list_fill_spec_in =
     [(0, 4, 1, 0, 0)]"
  unfolding uburma_get_eid_list_fill_spec_in_def uburma_cmd_get_eid_list_def by (simp add: entry_simps)

lemma uburma_get_eid_list_fill_spec_out_table:
  "uburma_get_eid_list_fill_spec_out =
     [(128, 4, 1, 0, 8), (129, 24576, 1, 0, 16)]"
  unfolding uburma_get_eid_list_fill_spec_out_def uburma_cmd_get_eid_list_def by (simp add: entry_simps)

lemma uburma_register_seg_fill_spec_in_table:
  "uburma_register_seg_fill_spec_in =
     [(0, 8, 1, 0, 0), (1, 8, 1, 0, 8), (2, 4, 1, 0, 16), (3, 8, 1, 0, 24), (4, 4, 1, 0, 32), (5, 4, 1, 0, 36),
      (6, 32, 1, 0, 56)]"
  unfolding uburma_register_seg_fill_spec_in_def uburma_cmd_register_seg_def by (simp add: entry_simps)

lemma uburma_register_seg_fill_spec_out_table:
  "uburma_register_seg_fill_spec_out =
     [(128, 4, 1, 0, 40), (129, 8, 1, 0, 48), (130, 32, 1, 0, 56)]"
  unfolding uburma_register_seg_fill_spec_out_def uburma_cmd_register_seg_def by (simp add: entry_simps)

lemma uburma_alloc_jfc_fill_spec_in_table:
  "uburma_alloc_jfc_fill_spec_in =
     [(0, 4, 1, 0, 0), (1, 4, 1, 0, 4), (2, 4, 1, 0, 8), (3, 8, 1, 0, 16), (4, 4, 1, 0, 24), (5, 32, 1, 0, 48)]"
  unfolding uburma_alloc_jfc_fill_spec_in_def uburma_cmd_alloc_jfc_def by (simp add: entry_simps)

lemma uburma_alloc_jfc_fill_spec_out_table:
  "uburma_alloc_jfc_fill_spec_out =
     [(129, 4, 1, 0, 36), (128, 4, 1, 0, 32), (130, 8, 1, 0, 40), (5, 32, 1, 0, 48)]"
  unfolding uburma_alloc_jfc_fill_spec_out_def uburma_cmd_alloc_jfc_def by (simp add: entry_simps)

lemma uburma_active_jfc_fill_spec_in_table:
  "uburma_active_jfc_fill_spec_in =
     [(0, 8, 1, 0, 0), (1, 4, 1, 0, 8), (2, 4, 1, 0, 12), (3, 4, 1, 0, 16), (4, 8, 1, 0, 24), (5, 32, 1, 0, 48)]"
  unfolding uburma_active_jfc_fill_spec_in_def uburma_cmd_active_jfc_def by (simp add: entry_simps)

lemma uburma_active_jfc_fill_spec_out_table:
  "uburma_active_jfc_fill_spec_out =
     [(128, 4, 1, 0, 32), (129, 4, 1, 0, 36), (130, 8, 1, 0, 40), (131, 32, 1, 0, 48)]"
  unfolding uburma_active_jfc_fill_spec_out_def uburma_cmd_active_jfc_def by (simp add: entry_simps)

lemma uburma_alloc_jfr_fill_spec_in_table:
  "uburma_alloc_jfr_fill_spec_in =
     [(0, 4, 1, 0, 0), (1, 4, 1, 0, 4), (2, 4, 1, 0, 8), (3, 1, 1, 0, 12), (4, 1, 1, 0, 13), (5, 4, 1, 0, 16),
      (6, 8, 1, 0, 24), (7, 4, 1, 0, 32), (8, 4, 1, 0, 36), (9, 8, 1, 0, 40), (10, 32, 1, 0, 72)]"
  unfolding uburma_alloc_jfr_fill_spec_in_def uburma_cmd_alloc_jfr_def by (simp add: entry_simps)

lemma uburma_alloc_jfr_fill_spec_out_table:
  "uburma_alloc_jfr_fill_spec_out =
     [(128, 4, 1, 0, 48), (129, 4, 1, 0, 52), (130, 8, 1, 0, 56), (131, 1, 1, 0, 64), (132, 32, 1, 0, 72)]"
  unfolding uburma_alloc_jfr_fill_spec_out_def uburma_cmd_alloc_jfr_def by (simp add: entry_simps)

lemma uburma_active_jfr_fill_spec_in_table:
  "uburma_active_jfr_fill_spec_in =
     [(0, 8, 1, 0, 0), (1, 4, 1, 0, 8), (2, 4, 1, 0, 12), (3, 4, 1, 0, 16), (4, 1, 1, 0, 20), (5, 1, 1, 0, 21),
      (6, 4, 1, 0, 24), (7, 8, 1, 0, 32), (8, 4, 1, 0, 40), (9, 8, 1, 0, 48), (10, 32, 1, 0, 80)]"
  unfolding uburma_active_jfr_fill_spec_in_def uburma_cmd_active_jfr_def by (simp add: entry_simps)

lemma uburma_active_jfr_fill_spec_out_table:
  "uburma_active_jfr_fill_spec_out =
     [(128, 4, 1, 0, 56), (129, 4, 1, 0, 60), (130, 8, 1, 0, 64), (131, 1, 1, 0, 72), (132, 32, 1, 0, 80)]"
  unfolding uburma_active_jfr_fill_spec_out_def uburma_cmd_active_jfr_def by (simp add: entry_simps)

lemma uburma_alloc_jfs_fill_spec_in_table:
  "uburma_alloc_jfs_fill_spec_in =
     [(0, 4, 1, 0, 0), (1, 4, 1, 0, 4), (2, 4, 1, 0, 8), (3, 1, 1, 0, 12), (4, 1, 1, 0, 13), (5, 1, 1, 0, 14),
      (6, 4, 1, 0, 16), (7, 1, 1, 0, 20), (8, 1, 1, 0, 21), (9, 4, 1, 0, 24), (10, 8, 1, 0, 32), (11, 8, 1, 0, 40),
      (12, 32, 1, 0, 72)]"
  unfolding uburma_alloc_jfs_fill_spec_in_def uburma_cmd_alloc_jfs_def by (simp add: entry_simps)

lemma uburma_alloc_jfs_fill_spec_out_table:
  "uburma_alloc_jfs_fill_spec_out =
     [(128, 4, 1, 0, 48), (129, 4, 1, 0, 52), (130, 1, 1, 0, 56), (131, 1, 1, 0, 57), (132, 4, 1, 0, 60),
      (133, 8, 1, 0, 64), (134, 32, 1, 0, 72)]"
  unfolding uburma_alloc_jfs_fill_spec_out_def uburma_cmd_alloc_jfs_def by (simp add: entry_simps)

lemma uburma_active_jfs_fill_spec_in_table:
  "uburma_active_jfs_fill_spec_in =
     [(0, 8, 1, 0, 0), (1, 4, 1, 0, 8), (2, 4, 1, 0, 12), (3, 4, 1, 0, 16), (4, 4, 1, 0, 20), (5, 1, 1, 0, 24),
      (6, 1, 1, 0, 25), (7, 4, 1, 0, 28), (8, 1, 1, 0, 32), (9, 1, 1, 0, 33), (10, 4, 1, 0, 36), (11, 8, 1, 0, 40),
      (12, 8, 1, 0, 48), (13, 32, 1, 0, 80)]"
  unfolding uburma_active_jfs_fill_spec_in_def uburma_cmd_active_jfs_def by (simp add: entry_simps)

lemma uburma_active_jfs_fill_spec_out_table:
  "uburma_active_jfs_fill_spec_out =
     [(128, 4, 1, 0, 56), (129, 4, 1, 0, 60), (130, 1, 1, 0, 64), (131, 1, 1, 0, 65), (132, 4, 1, 0, 68),
      (133, 8, 1, 0, 72), (134, 32, 1, 0, 80)]"
  unfolding uburma_active_jfs_fill_spec_out_def uburma_cmd_active_jfs_def by (simp add: entry_simps)

lemma uburma_alloc_jetty_fill_spec_in_table:
  "uburma_alloc_jetty_fill_spec_in =
     [(0, 176, 1, 0, 0)]"
  unfolding uburma_alloc_jetty_fill_spec_in_def uburma_cmd_alloc_jetty_def by (simp add: entry_simps)

lemma uburma_alloc_jetty_fill_spec_out_table:
  "uburma_alloc_jetty_fill_spec_out =
     [(128, 176, 1, 0, 0)]"
  unfolding uburma_alloc_jetty_fill_spec_out_def uburma_cmd_alloc_jetty_def by (simp add: entry_simps)

lemma uburma_active_jetty_fill_spec_in_table:
  "uburma_active_jetty_fill_spec_in =
     [(0, 4, 1, 0, 0), (1, 8, 1, 0, 8), (2, 8, 1, 0, 16), (3, 8, 1, 0, 24), (4, 8, 1, 0, 32), (5, 8, 1, 0, 40),
      (6, 32, 1, 0, 56)]"
  unfolding uburma_active_jetty_fill_spec_in_def uburma_cmd_active_jetty_def by (simp add: entry_simps)

lemma uburma_active_jetty_fill_spec_out_table:
  "uburma_active_jetty_fill_spec_out =
     [(128, 4, 1, 0, 48), (129, 32, 1, 0, 56)]"
  unfolding uburma_active_jetty_fill_spec_out_def uburma_cmd_active_jetty_def by (simp add: entry_simps)

lemma uburma_import_jetty_fill_spec_in_table:
  "uburma_import_jetty_fill_spec_in =
     [(0, 16, 1, 0, 0), (1, 4, 1, 0, 16), (2, 4, 1, 0, 20), (3, 4, 1, 0, 24), (4, 4, 1, 0, 28), (5, 4, 1, 0, 32),
      (6, 4, 1, 0, 36), (7, 4, 1, 0, 40), (8, 32, 1, 0, 64)]"
  unfolding uburma_import_jetty_fill_spec_in_def uburma_cmd_import_jetty_def by (simp add: entry_simps)

lemma uburma_import_jetty_fill_spec_out_table:
  "uburma_import_jetty_fill_spec_out =
     [(128, 4, 1, 0, 48), (129, 8, 1, 0, 56), (130, 32, 1, 0, 64)]"
  unfolding uburma_import_jetty_fill_spec_out_def uburma_cmd_import_jetty_def by (simp add: entry_simps)

lemma uburma_bind_jetty_fill_spec_in_table:
  "uburma_bind_jetty_fill_spec_in =
     [(0, 8, 1, 0, 0), (1, 8, 1, 0, 8), (2, 32, 1, 0, 24)]"
  unfolding uburma_bind_jetty_fill_spec_in_def uburma_cmd_bind_jetty_def by (simp add: entry_simps)

lemma uburma_bind_jetty_fill_spec_out_table:
  "uburma_bind_jetty_fill_spec_out =
     [(128, 4, 1, 0, 16), (129, 32, 1, 0, 24)]"
  unfolding uburma_bind_jetty_fill_spec_out_def uburma_cmd_bind_jetty_def by (simp add: entry_simps)

lemma uburma_unimport_jetty_fill_spec_in_table:
  "uburma_unimport_jetty_fill_spec_in =
     [(0, 8, 1, 0, 0)]"
  unfolding uburma_unimport_jetty_fill_spec_in_def uburma_cmd_unimport_jetty_local_def by (simp add: entry_simps)

lemma uburma_unbind_jetty_fill_spec_in_table:
  "uburma_unbind_jetty_fill_spec_in =
     [(0, 8, 1, 0, 0), (1, 8, 1, 0, 8)]"
  unfolding uburma_unbind_jetty_fill_spec_in_def uburma_cmd_unbind_jetty_local_def by (simp add: entry_simps)

lemma uburma_query_device_fill_spec_in_table:
  "uburma_query_device_fill_spec_in =
     [(0, 64, 1, 0, 0)]"
  unfolding uburma_query_device_fill_spec_in_def uburma_cmd_query_device_attr_def by (simp add: entry_simps)

text \<open>The layout of the device attributes, computed once.\<close>

fun c_layout :: "int \<Rightarrow> (string \<times> ctype) list \<Rightarrow> (string \<times> int \<times> ctype) list" where
  "c_layout off [] = []"
| "c_layout off ((f, t) # fs) =
     (f, round_up (c_align t) off, t) # c_layout (round_up (c_align t) off + c_size t) fs"

lemma c_field_layout: "c_field off fs name = map_of (c_layout off fs) name"
  by (induction off fs name rule: c_field.induct) simp_all

definition device_cap_fields :: "(string \<times> ctype) list" where
  "device_cap_fields = (case uburma_cmd_device_cap of CStruct fs \<Rightarrow> fs | _ \<Rightarrow> [])"

lemma device_cap_struct: "uburma_cmd_device_cap = CStruct device_cap_fields"
  by (simp add: device_cap_fields_def uburma_cmd_device_cap_def)

lemma device_cap_layout:
  "c_layout 0 device_cap_fields =
     [(''feature'', 0, ubcore_device_feat_user),
      (''max_jfc'', 4, CInt 4),
      (''max_jfs'', 8, CInt 4),
      (''max_jfr'', 12, CInt 4),
      (''max_jetty'', 16, CInt 4),
      (''max_jetty_grp'', 20, CInt 4),
      (''max_jetty_in_jetty_grp'', 24, CInt 4),
      (''max_jfc_depth'', 28, CInt 4),
      (''max_jfs_depth'', 32, CInt 4),
      (''max_jfr_depth'', 36, CInt 4),
      (''max_jfs_inline_len'', 40, CInt 4),
      (''max_jfs_sge'', 44, CInt 4),
      (''max_jfs_rsge'', 48, CInt 4),
      (''max_jfr_sge'', 52, CInt 4),
      (''max_msg_size'', 56, CInt 8),
      (''max_read_size'', 64, CInt 4),
      (''max_write_size'', 68, CInt 4),
      (''max_cas_size'', 72, CInt 4),
      (''max_swap_size'', 76, CInt 4),
      (''max_fetch_and_add_size'', 80, CInt 4),
      (''max_fetch_and_sub_size'', 84, CInt 4),
      (''max_fetch_and_and_size'', 88, CInt 4),
      (''max_fetch_and_or_size'', 92, CInt 4),
      (''max_fetch_and_xor_size'', 96, CInt 4),
      (''atomic_feat'', 100, ubcore_atomic_feat_user),
      (''trans_mode'', 104, CInt 2),
      (''sub_trans_mode_cap'', 106, CInt 2),
      (''congestion_ctrl_alg'', 108, CInt 2),
      (''ceq_cnt'', 112, CInt 4),
      (''max_tp_in_tpg'', 116, CInt 4),
      (''max_eid_cnt'', 120, CInt 4),
      (''page_size_cap'', 128, CInt 8),
      (''max_oor_cnt'', 136, CInt 4),
      (''mn'', 140, CInt 4),
      (''max_netaddr_cnt'', 144, CInt 4),
      (''rm_order_cap'', 148, ubcore_order_type_cap_user),
      (''rc_order_cap'', 152, ubcore_order_type_cap_user),
      (''rm_tp_cap'', 156, urma_tp_type_cap_user),
      (''rc_tp_cap'', 160, urma_tp_type_cap_user),
      (''um_tp_cap'', 164, urma_tp_type_cap_user),
      (''tp_feature'', 168, urma_tp_feature_user),
      (''priority_info'', 172, CArr 16 (ubcore_sl_info_user))]"
  by (simp add: device_cap_fields_def uburma_cmd_device_cap_def round_up_def)

lemma device_cap_at:
  "c_resolve uburma_cmd_query_device_attr (''out'' # ''attr'' # ''dev_cap'' # f # path) =
     (case map_of (c_layout 0 device_cap_fields) f of
        None \<Rightarrow> None | Some (off, u) \<Rightarrow> map_option (\<lambda>(o', v). (80 + off + o', v)) (c_resolve u path))"
proof -
  have "c_resolve uburma_cmd_device_cap (f # path) = (case map_of (c_layout 0 device_cap_fields) f of
      None \<Rightarrow> None | Some (off, u) \<Rightarrow> map_option (\<lambda>(o', v). (off + o', v)) (c_resolve u path))"
    by (simp add: device_cap_struct c_field_layout)
  then show ?thesis
    by (simp del: c_resolve.simps add: c_resolve.simps(2) [of uburma_cmd_query_device_attr] c_resolve.simps(2) [of "CStruct _"]
      uburma_cmd_query_device_attr_def uburma_cmd_device_attr_def round_up_def option.map_comp comp_def case_prod_unfold add.assoc
      split: option.splits)
qed

lemma device_attr_at:
  "c_resolve uburma_cmd_query_device_attr [''out'', ''attr'', ''guid''] = Some (64, ubcore_guid_user)"
  "c_resolve uburma_cmd_query_device_attr [''out'', ''attr'', ''port_cnt''] = Some (384, CInt 1)"
  "c_resolve uburma_cmd_query_device_attr [''out'', ''attr'', ''port_attr''] = Some (388, CArr 8 uburma_cmd_port_attr)"
  "c_resolve uburma_cmd_query_device_attr [''out'', ''attr'', ''reserved_jetty_id_min''] = Some (548, CInt 4)"
  "c_resolve uburma_cmd_query_device_attr [''out'', ''attr'', ''reserved_jetty_id_max''] = Some (552, CInt 4)"
  by (simp_all add: uburma_cmd_query_device_attr_def uburma_cmd_device_attr_def round_up_def)

lemma device_attr_parts:
  "c_resolve ubcore_order_type_cap_user [''value''] = Some (0, CInt 4)" "c_resolve urma_tp_type_cap_user [''value''] = Some (0, CInt 4)"
  "c_resolve urma_tp_feature_user [''value''] = Some (0, CInt 4)" "c_resolve uburma_cmd_port_attr [''max_mtu''] = Some (0, CInt 4)"
  "c_resolve uburma_cmd_port_attr [''state''] = Some (4, CInt 4)" "c_resolve uburma_cmd_port_attr [''active_width''] = Some (8, CInt 4)"
  "c_resolve uburma_cmd_port_attr [''active_speed''] = Some (12, CInt 4)" "c_resolve uburma_cmd_port_attr [''active_mtu''] = Some (16, CInt 4)"
  by (simp_all add: ubcore_order_type_cap_user_def urma_tp_type_cap_user_def urma_tp_feature_user_def uburma_cmd_port_attr_def round_up_def)

lemma uburma_query_device_fill_spec_out_table:
  "uburma_query_device_fill_spec_out =
     [(128, 16, 1, 0, 64), (129, 4, 1, 0, 80), (130, 4, 1, 0, 84), (131, 4, 1, 0, 88), (132, 4, 1, 0, 92),
      (133, 4, 1, 0, 96), (134, 4, 1, 0, 100), (135, 4, 1, 0, 104), (136, 4, 1, 0, 108), (137, 4, 1, 0, 112),
      (138, 4, 1, 0, 116), (139, 4, 1, 0, 120), (140, 4, 1, 0, 124), (141, 4, 1, 0, 128), (142, 4, 1, 0, 132),
      (143, 8, 1, 0, 136), (144, 4, 1, 0, 144), (145, 4, 1, 0, 148), (146, 4, 1, 0, 152), (147, 4, 1, 0, 156),
      (148, 4, 1, 0, 160), (149, 4, 1, 0, 164), (150, 4, 1, 0, 168), (151, 4, 1, 0, 172), (152, 4, 1, 0, 176),
      (153, 4, 1, 0, 180), (154, 2, 1, 0, 184), (155, 2, 1, 0, 186), (156, 2, 1, 0, 188), (157, 4, 1, 0, 192),
      (158, 4, 1, 0, 196), (159, 4, 1, 0, 200), (160, 8, 1, 0, 208), (161, 4, 1, 0, 216), (162, 4, 1, 0, 220),
      (163, 4, 1, 0, 224), (164, 1, 1, 0, 384), (170, 4, 1, 0, 548), (171, 4, 1, 0, 552), (165, 4, 8, 20, 388),
      (166, 4, 8, 20, 392), (167, 4, 8, 20, 396), (168, 4, 8, 20, 400), (169, 4, 8, 20, 404), (172, 4, 1, 0, 228),
      (173, 4, 1, 0, 232), (174, 4, 1, 0, 236), (175, 4, 1, 0, 240), (176, 4, 1, 0, 244), (177, 4, 1, 0, 248),
      (178, 128, 1, 0, 252)]"
  unfolding uburma_query_device_fill_spec_out_def
  by (simp add: spec_entries_def spec_entry_of_def tlv_numbers device_cap_at device_cap_layout device_attr_at device_attr_parts
    del: c_resolve.simps(2))

end
