(* ===== verification/RDMA_Request.thy ===== *)
theory RDMA_Request
  imports RDMA_Tlv
begin

text \<open>The TLV requests of the RDMA demo (src/simulator/guest-linux/aarch64/ub\_rdma\_demo.c): the switch over the
  commands, the attribute list made from the two specification lists, and the ioctl wrapper. The theorem at the
  end shows that every request of the switch is complete and stays inside its argument block.\<close>

section \<open>Requests\<close>

definition ENOTSUP :: int where "ENOTSUP = 95"
definition E2BIG :: int where "E2BIG = 7"
definition UBURMA_TLV_MAX_ATTRS :: int where [tlv_numbers]: "UBURMA_TLV_MAX_ATTRS = UBURMA_CMD_OUT_TYPE_INIT"

text \<open>The switch over the commands: the type of the argument block, the functions that fill the two lists, and the
  counts passed on.\<close>

definition tlv_switch :: "(u32 \<times> ctype \<times> spec_entry list \<times> int \<times> spec_entry list \<times> int) list" where
  "tlv_switch =
     [(UBURMA_CMD_CREATE_CTX, uburma_cmd_create_ctx, uburma_create_ctx_fill_spec_in, CREATE_CTX_IN_NUM, uburma_create_ctx_fill_spec_out, CREATE_CTX_OUT_NUM - UBURMA_CMD_OUT_TYPE_INIT),
      (UBURMA_CMD_ALLOC_TOKEN_ID, uburma_cmd_alloc_token_id, uburma_alloc_token_id_fill_spec_in, ALLOC_TOKEN_ID_IN_NUM, uburma_alloc_token_id_fill_spec_out, ALLOC_TOKEN_ID_OUT_NUM - UBURMA_CMD_OUT_TYPE_INIT),
      (UBURMA_CMD_FREE_TOKEN_ID, uburma_cmd_free_token_id, uburma_free_token_id_fill_spec_in, FREE_TOKEN_ID_IN_NUM, [], 0),
      (UBURMA_CMD_UNREGISTER_SEG, uburma_cmd_unregister_seg, uburma_unregister_seg_fill_spec_in, UNREGISTER_SEG_IN_NUM, [], 0),
      (UBURMA_CMD_GET_EID_LIST, uburma_cmd_get_eid_list, uburma_get_eid_list_fill_spec_in, GET_EID_LIST_IN_NUM, uburma_get_eid_list_fill_spec_out, GET_EID_LIST_OUT_NUM - UBURMA_CMD_OUT_TYPE_INIT),
      (UBURMA_CMD_ALLOC_JFC, uburma_cmd_alloc_jfc, uburma_alloc_jfc_fill_spec_in, ALLOC_JFC_IN_NUM, uburma_alloc_jfc_fill_spec_out, ALLOC_JFC_OUT_NUM - UBURMA_CMD_OUT_TYPE_INIT),
      (UBURMA_CMD_ACTIVE_JFC, uburma_cmd_active_jfc, uburma_active_jfc_fill_spec_in, ACTIVE_JFC_IN_NUM, uburma_active_jfc_fill_spec_out, ACTIVE_JFC_OUT_NUM - UBURMA_CMD_OUT_TYPE_INIT),
      (UBURMA_CMD_ALLOC_JFR, uburma_cmd_alloc_jfr, uburma_alloc_jfr_fill_spec_in, ALLOC_JFR_IN_NUM, uburma_alloc_jfr_fill_spec_out, ALLOC_JFR_OUT_NUM - UBURMA_CMD_OUT_TYPE_INIT),
      (UBURMA_CMD_ACTIVE_JFR, uburma_cmd_active_jfr, uburma_active_jfr_fill_spec_in, ACTIVE_JFR_IN_NUM, uburma_active_jfr_fill_spec_out, ACTIVE_JFR_OUT_NUM - UBURMA_CMD_OUT_TYPE_INIT),
      (UBURMA_CMD_ALLOC_JFS, uburma_cmd_alloc_jfs, uburma_alloc_jfs_fill_spec_in, ALLOC_JFS_IN_NUM, uburma_alloc_jfs_fill_spec_out, ALLOC_JFS_OUT_NUM - UBURMA_CMD_OUT_TYPE_INIT),
      (UBURMA_CMD_ACTIVE_JFS, uburma_cmd_active_jfs, uburma_active_jfs_fill_spec_in, ACTIVE_JFS_IN_NUM, uburma_active_jfs_fill_spec_out, ACTIVE_JFS_OUT_NUM - UBURMA_CMD_OUT_TYPE_INIT),
      (UBURMA_CMD_ALLOC_JETTY, uburma_cmd_alloc_jetty, uburma_alloc_jetty_fill_spec_in, ALLOC_JETTY_IN_NUM, uburma_alloc_jetty_fill_spec_out, ALLOC_JETTY_OUT_NUM - UBURMA_CMD_OUT_TYPE_INIT),
      (UBURMA_CMD_ACTIVE_JETTY, uburma_cmd_active_jetty, uburma_active_jetty_fill_spec_in, ACTIVE_JETTY_IN_NUM, uburma_active_jetty_fill_spec_out, ACTIVE_JETTY_OUT_NUM - UBURMA_CMD_OUT_TYPE_INIT),
      (UBURMA_CMD_REGISTER_SEG, uburma_cmd_register_seg, uburma_register_seg_fill_spec_in, REGISTER_SEG_IN_NUM, uburma_register_seg_fill_spec_out, REGISTER_SEG_OUT_NUM - UBURMA_CMD_OUT_TYPE_INIT),
      (UBURMA_CMD_IMPORT_JETTY, uburma_cmd_import_jetty, uburma_import_jetty_fill_spec_in, IMPORT_JETTY_IN_NUM, uburma_import_jetty_fill_spec_out, IMPORT_JETTY_OUT_NUM - UBURMA_CMD_OUT_TYPE_INIT),
      (UBURMA_CMD_BIND_JETTY, uburma_cmd_bind_jetty, uburma_bind_jetty_fill_spec_in, BIND_JETTY_IN_NUM, uburma_bind_jetty_fill_spec_out, BIND_JETTY_OUT_NUM - UBURMA_CMD_OUT_TYPE_INIT),
      (UBURMA_CMD_UNIMPORT_JETTY, uburma_cmd_unimport_jetty_local, uburma_unimport_jetty_fill_spec_in, UNIMPORT_JETTY_IN_NUM, [], 0),
      (UBURMA_CMD_UNBIND_JETTY, uburma_cmd_unbind_jetty_local, uburma_unbind_jetty_fill_spec_in, UNADVISE_JETTY_IN_NUM, [], 0),
      (UBURMA_CMD_QUERY_DEV_ATTR, uburma_cmd_query_device_attr, uburma_query_device_fill_spec_in, QUERY_DEVICE_IN_NUM, uburma_query_device_fill_spec_out, QUERY_DEVICE_OUT_NUM - UBURMA_CMD_OUT_TYPE_INIT)]"

definition build_tlv_specs :: "u32 \<Rightarrow> u64 \<Rightarrow> int + uburma_cmd_spec list \<times> int \<times> uburma_cmd_spec list \<times> int" where
  "build_tlv_specs cmd arg =
     (case find (\<lambda>row. fst row = cmd) tlv_switch of
        None \<Rightarrow> Inl (- ENOTSUP)
      | Some (_, _, ins, in_count, outs, out_count) \<Rightarrow>
          Inr (map (fill_entry arg) ins, in_count, map (fill_entry arg) outs, out_count))"

definition specs_to_attrs :: "uburma_cmd_spec list \<Rightarrow> int \<Rightarrow> uburma_cmd_attr list" where
  "specs_to_attrs specs count =
     map (\<lambda>i. let s = specs ! i
               in \<lparr>at_type = sp_type s, at_flag = sp_flag s, at_field_size = sp_field_size s,
                   at_attr_data = sp_attr_data s, at_data = sp_data s\<rparr>) [0..<nat count]"

text \<open>The header: command, length of the arguments, and the attributes or the address of the block. An
  attribute takes 16 bytes.\<close>

datatype ioctl_args = Attrs "uburma_cmd_attr list" | Block u64

definition ioctl_request :: "u32 \<Rightarrow> u64 \<Rightarrow> nat \<Rightarrow> int + u32 \<times> u32 \<times> ioctl_args" where
  "ioctl_request cmd arg arg_size =
     (case build_tlv_specs cmd arg of
        Inr (ins, in_count, outs, out_count) \<Rightarrow>
          if UBURMA_TLV_MAX_ATTRS < in_count + out_count then Inl (- E2BIG)
          else let attrs = specs_to_attrs ins in_count @ specs_to_attrs outs out_count
               in Inr (cmd, of_nat (length attrs * 16), Attrs attrs)
      | Inl _ \<Rightarrow> Inr (cmd, of_nat arg_size, Block arg))"

text \<open>The kernel is a parameter: it answers a request with a number that is negative on an error.\<close>

definition ub_ioctl :: "(u32 \<times> u32 \<times> ioctl_args \<Rightarrow> int) \<Rightarrow> u32 \<Rightarrow> u64 \<Rightarrow> nat \<Rightarrow> int" where
  "ub_ioctl ioctl cmd arg arg_size =
     (case ioctl_request cmd arg arg_size of Inl e \<Rightarrow> e | Inr hdr \<Rightarrow> if ioctl hdr < 0 then ioctl hdr else 0)"

section \<open>Every request is complete and in bounds\<close>

text \<open>The places of an entry, one for each element.\<close>

definition entry_ranges :: "spec_entry \<Rightarrow> (int \<times> int) list" where
  "entry_ranges e = (case e of (ty, n, k, es, off) \<Rightarrow> map (\<lambda>j. (off + j * es, off + j * es + n)) [0..k - 1])"

definition entry_fits :: "ctype \<Rightarrow> spec_entry \<Rightarrow> bool" where
  "entry_fits t e =
     (case e of (ty, n, k, es, off) \<Rightarrow>
        0 \<le> ty \<and> ty < 256 \<and> 0 < n \<and> n < 2 ^ 16 \<and> 0 < k \<and> k < 2 ^ 12 \<and> 0 \<le> es \<and> es < 2 ^ 12 \<and>
        0 \<le> off \<and> off + (k - 1) * es + n \<le> c_size t)"

definition row_ok :: "u32 \<times> ctype \<times> spec_entry list \<times> int \<times> spec_entry list \<times> int \<Rightarrow> bool" where
  "row_ok row =
     (case row of (cmd, t, ins, in_count, outs, out_count) \<Rightarrow>
        int (length ins) = in_count \<and> int (length outs) = out_count \<and> in_count + out_count \<le> UBURMA_TLV_MAX_ATTRS \<and>
        c_size t \<le> 2 ^ 32 \<and> list_all (entry_fits t) ins \<and> list_all (entry_fits t) outs \<and> distinct (map fst ins) \<and> distinct (map fst outs) \<and>
        sorted_wrt (\<lambda>r q. snd r \<le> fst q \<or> snd q \<le> fst r) (concat (map entry_ranges outs)))"

lemma upto_7: "[0..7 :: int] = [0, 1, 2, 3, 4, 5, 6, 7]"
  by (simp add: upto.simps)

text \<open>One lemma per row, over the tables of its two lists.\<close>

lemmas row_rules = row_ok_def tlv_numbers entry_fits_def entry_ranges_def

lemma row_create_ctx:
  "row_ok (UBURMA_CMD_CREATE_CTX, uburma_cmd_create_ctx, uburma_create_ctx_fill_spec_in, CREATE_CTX_IN_NUM, uburma_create_ctx_fill_spec_out, CREATE_CTX_OUT_NUM - UBURMA_CMD_OUT_TYPE_INIT)"
  by (simp add: row_rules uburma_create_ctx_fill_spec_in_table uburma_create_ctx_fill_spec_out_table)

lemma row_alloc_token_id:
  "row_ok (UBURMA_CMD_ALLOC_TOKEN_ID, uburma_cmd_alloc_token_id, uburma_alloc_token_id_fill_spec_in, ALLOC_TOKEN_ID_IN_NUM, uburma_alloc_token_id_fill_spec_out, ALLOC_TOKEN_ID_OUT_NUM - UBURMA_CMD_OUT_TYPE_INIT)"
  by (simp add: row_rules uburma_alloc_token_id_fill_spec_in_table uburma_alloc_token_id_fill_spec_out_table)

lemma row_free_token_id:
  "row_ok (UBURMA_CMD_FREE_TOKEN_ID, uburma_cmd_free_token_id, uburma_free_token_id_fill_spec_in, FREE_TOKEN_ID_IN_NUM, [], 0)"
  by (simp add: row_rules uburma_free_token_id_fill_spec_in_table)

lemma row_unregister_seg:
  "row_ok (UBURMA_CMD_UNREGISTER_SEG, uburma_cmd_unregister_seg, uburma_unregister_seg_fill_spec_in, UNREGISTER_SEG_IN_NUM, [], 0)"
  by (simp add: row_rules uburma_unregister_seg_fill_spec_in_table)

lemma row_get_eid_list:
  "row_ok (UBURMA_CMD_GET_EID_LIST, uburma_cmd_get_eid_list, uburma_get_eid_list_fill_spec_in, GET_EID_LIST_IN_NUM, uburma_get_eid_list_fill_spec_out, GET_EID_LIST_OUT_NUM - UBURMA_CMD_OUT_TYPE_INIT)"
  by (simp add: row_rules uburma_get_eid_list_fill_spec_in_table uburma_get_eid_list_fill_spec_out_table)

lemma row_alloc_jfc:
  "row_ok (UBURMA_CMD_ALLOC_JFC, uburma_cmd_alloc_jfc, uburma_alloc_jfc_fill_spec_in, ALLOC_JFC_IN_NUM, uburma_alloc_jfc_fill_spec_out, ALLOC_JFC_OUT_NUM - UBURMA_CMD_OUT_TYPE_INIT)"
  by (simp add: row_rules uburma_alloc_jfc_fill_spec_in_table uburma_alloc_jfc_fill_spec_out_table)

lemma row_active_jfc:
  "row_ok (UBURMA_CMD_ACTIVE_JFC, uburma_cmd_active_jfc, uburma_active_jfc_fill_spec_in, ACTIVE_JFC_IN_NUM, uburma_active_jfc_fill_spec_out, ACTIVE_JFC_OUT_NUM - UBURMA_CMD_OUT_TYPE_INIT)"
  by (simp add: row_rules uburma_active_jfc_fill_spec_in_table uburma_active_jfc_fill_spec_out_table)

lemma row_alloc_jfr:
  "row_ok (UBURMA_CMD_ALLOC_JFR, uburma_cmd_alloc_jfr, uburma_alloc_jfr_fill_spec_in, ALLOC_JFR_IN_NUM, uburma_alloc_jfr_fill_spec_out, ALLOC_JFR_OUT_NUM - UBURMA_CMD_OUT_TYPE_INIT)"
  by (simp add: row_rules uburma_alloc_jfr_fill_spec_in_table uburma_alloc_jfr_fill_spec_out_table)

lemma row_active_jfr:
  "row_ok (UBURMA_CMD_ACTIVE_JFR, uburma_cmd_active_jfr, uburma_active_jfr_fill_spec_in, ACTIVE_JFR_IN_NUM, uburma_active_jfr_fill_spec_out, ACTIVE_JFR_OUT_NUM - UBURMA_CMD_OUT_TYPE_INIT)"
  by (simp add: row_rules uburma_active_jfr_fill_spec_in_table uburma_active_jfr_fill_spec_out_table)

lemma row_alloc_jfs:
  "row_ok (UBURMA_CMD_ALLOC_JFS, uburma_cmd_alloc_jfs, uburma_alloc_jfs_fill_spec_in, ALLOC_JFS_IN_NUM, uburma_alloc_jfs_fill_spec_out, ALLOC_JFS_OUT_NUM - UBURMA_CMD_OUT_TYPE_INIT)"
  by (simp add: row_rules uburma_alloc_jfs_fill_spec_in_table uburma_alloc_jfs_fill_spec_out_table)

lemma row_active_jfs:
  "row_ok (UBURMA_CMD_ACTIVE_JFS, uburma_cmd_active_jfs, uburma_active_jfs_fill_spec_in, ACTIVE_JFS_IN_NUM, uburma_active_jfs_fill_spec_out, ACTIVE_JFS_OUT_NUM - UBURMA_CMD_OUT_TYPE_INIT)"
  by (simp add: row_rules uburma_active_jfs_fill_spec_in_table uburma_active_jfs_fill_spec_out_table)

lemma row_alloc_jetty:
  "row_ok (UBURMA_CMD_ALLOC_JETTY, uburma_cmd_alloc_jetty, uburma_alloc_jetty_fill_spec_in, ALLOC_JETTY_IN_NUM, uburma_alloc_jetty_fill_spec_out, ALLOC_JETTY_OUT_NUM - UBURMA_CMD_OUT_TYPE_INIT)"
  by (simp add: row_rules uburma_alloc_jetty_fill_spec_in_table uburma_alloc_jetty_fill_spec_out_table)

lemma row_active_jetty:
  "row_ok (UBURMA_CMD_ACTIVE_JETTY, uburma_cmd_active_jetty, uburma_active_jetty_fill_spec_in, ACTIVE_JETTY_IN_NUM, uburma_active_jetty_fill_spec_out, ACTIVE_JETTY_OUT_NUM - UBURMA_CMD_OUT_TYPE_INIT)"
  by (simp add: row_rules uburma_active_jetty_fill_spec_in_table uburma_active_jetty_fill_spec_out_table)

lemma row_register_seg:
  "row_ok (UBURMA_CMD_REGISTER_SEG, uburma_cmd_register_seg, uburma_register_seg_fill_spec_in, REGISTER_SEG_IN_NUM, uburma_register_seg_fill_spec_out, REGISTER_SEG_OUT_NUM - UBURMA_CMD_OUT_TYPE_INIT)"
  by (simp add: row_rules uburma_register_seg_fill_spec_in_table uburma_register_seg_fill_spec_out_table)

lemma row_import_jetty:
  "row_ok (UBURMA_CMD_IMPORT_JETTY, uburma_cmd_import_jetty, uburma_import_jetty_fill_spec_in, IMPORT_JETTY_IN_NUM, uburma_import_jetty_fill_spec_out, IMPORT_JETTY_OUT_NUM - UBURMA_CMD_OUT_TYPE_INIT)"
  by (simp add: row_rules uburma_import_jetty_fill_spec_in_table uburma_import_jetty_fill_spec_out_table)

lemma row_bind_jetty:
  "row_ok (UBURMA_CMD_BIND_JETTY, uburma_cmd_bind_jetty, uburma_bind_jetty_fill_spec_in, BIND_JETTY_IN_NUM, uburma_bind_jetty_fill_spec_out, BIND_JETTY_OUT_NUM - UBURMA_CMD_OUT_TYPE_INIT)"
  by (simp add: row_rules uburma_bind_jetty_fill_spec_in_table uburma_bind_jetty_fill_spec_out_table)

lemma row_unimport_jetty:
  "row_ok (UBURMA_CMD_UNIMPORT_JETTY, uburma_cmd_unimport_jetty_local, uburma_unimport_jetty_fill_spec_in, UNIMPORT_JETTY_IN_NUM, [], 0)"
  by (simp add: row_rules uburma_unimport_jetty_fill_spec_in_table)

lemma row_unbind_jetty:
  "row_ok (UBURMA_CMD_UNBIND_JETTY, uburma_cmd_unbind_jetty_local, uburma_unbind_jetty_fill_spec_in, UNADVISE_JETTY_IN_NUM, [], 0)"
  by (simp add: row_rules uburma_unbind_jetty_fill_spec_in_table)

lemma query_device_in_bounds:
  "list_all (entry_fits uburma_cmd_query_device_attr) uburma_query_device_fill_spec_in" "list_all (entry_fits uburma_cmd_query_device_attr) uburma_query_device_fill_spec_out"
  by (simp_all add: uburma_query_device_fill_spec_in_table uburma_query_device_fill_spec_out_table entry_fits_def)

lemma query_device_disjoint:
  "sorted_wrt (\<lambda>r q. snd r \<le> fst q \<or> snd q \<le> fst r) (concat (map entry_ranges uburma_query_device_fill_spec_out))"
  unfolding uburma_query_device_fill_spec_out_table by code_simp

lemma row_query_dev_attr: "row_ok (UBURMA_CMD_QUERY_DEV_ATTR, uburma_cmd_query_device_attr, uburma_query_device_fill_spec_in, QUERY_DEVICE_IN_NUM, uburma_query_device_fill_spec_out, QUERY_DEVICE_OUT_NUM - UBURMA_CMD_OUT_TYPE_INIT)"
  using query_device_in_bounds query_device_disjoint by (simp add: row_ok_def tlv_numbers uburma_query_device_fill_spec_in_table uburma_query_device_fill_spec_out_table)

lemma rows_ok: "list_all row_ok tlv_switch"
  unfolding tlv_switch_def
  by (simp only: list.pred_inject simp_thms row_create_ctx row_alloc_token_id row_free_token_id row_unregister_seg row_get_eid_list row_alloc_jfc
    row_active_jfc row_alloc_jfr row_active_jfr row_alloc_jfs row_active_jfs row_alloc_jetty
    row_active_jetty row_register_seg row_import_jetty row_bind_jetty row_unimport_jetty row_unbind_jetty
    row_query_dev_attr)

section \<open>What the kernel reads\<close>

text \<open>A reader of the attribute gets back the entry it was made from: nothing is cut off by the 8, 16 and 12 bits
  of its fields.\<close>

definition entry_of_attr :: "u64 \<Rightarrow> uburma_cmd_attr \<Rightarrow> spec_entry" where
  "entry_of_attr arg a =
     (uint (at_type a), uint (at_field_size a), uint (at_attr_data a AND 0xfff),
      uint (drop_bit 12 (at_attr_data a) AND 0xfff), uint (at_data a - arg))"

definition attr_of_spec :: "uburma_cmd_spec \<Rightarrow> uburma_cmd_attr" where
  "attr_of_spec s =
     \<lparr>at_type = sp_type s, at_flag = sp_flag s, at_field_size = sp_field_size s,
      at_attr_data = sp_attr_data s, at_data = sp_data s\<rparr>"

lemma specs_to_attrs_all: "int (length specs) = n \<Longrightarrow> specs_to_attrs specs n = map attr_of_spec specs"
  by (auto simp: specs_to_attrs_def attr_of_spec_def Let_def intro!: nth_equalityI)

lemma el_fields:
  fixes k es :: int
  assumes "0 \<le> k" "k < 2 ^ 12" "0 \<le> es" "es < 2 ^ 12"
  defines "w \<equiv> (of_int k AND 0xfff) OR push_bit 12 (of_int es AND 0xfff) :: u32"
  shows "uint (w AND 0xfff) = k" "uint (drop_bit 12 w AND 0xfff) = es"
proof -
  have m: "x AND 0xfff = take_bit 12 x" for x :: u32
    by (simp add: take_bit_eq_mask mask_eq_exp_minus_1)
  have "take_bit 12 w = take_bit 12 (of_int k)" "take_bit 12 (drop_bit 12 w) = take_bit 12 (of_int es)"
    unfolding w_def m by (rule bit_eqI; auto simp: bit_simps)+
  then show "uint (w AND 0xfff) = k" "uint (drop_bit 12 w AND 0xfff) = es"
    using assms by (simp_all add: m unsigned_take_bit_eq unsigned_of_int take_bit_int_eq_self)
qed

lemma entry_of_fill_entry:
  assumes "entry_fits t e" "c_size t \<le> 2 ^ 32"
  shows "entry_of_attr arg (attr_of_spec (fill_entry arg e)) = e"
proof -
  obtain ty n k es off where e: "e = (ty, n, k, es, off)" by (cases e)
  have "0 \<le> (k - 1) * es" using assms(1) by (simp add: entry_fits_def e)
  moreover have "off + (k - 1) * es + n \<le> 2 ^ 32" "0 < n" using assms by (auto simp: entry_fits_def e)
  ultimately have "off < 2 ^ 32" by linarith
  with assms(1) el_fields [of k es] show ?thesis
    by (simp add: e fill_entry_def attr_of_spec_def entry_of_attr_def fill_spec_def entry_fits_def
        unsigned_of_int take_bit_int_eq_self)
qed

lemma switch_commands_distinct: "distinct (map fst tlv_switch)"
  by (simp add: tlv_switch_def tlv_numbers)

lemma find_keyed: "distinct (map fst rows) \<Longrightarrow> row \<in> set rows \<Longrightarrow> find (\<lambda>r. fst r = fst row) rows = Some row"
  by (induction rows) (auto simp: rev_image_eqI)

lemma find_row: "row \<in> set tlv_switch \<Longrightarrow> find (\<lambda>r. fst r = fst row) tlv_switch = Some row"
  by (rule find_keyed [OF switch_commands_distinct])

text \<open>C11: for every command of the switch, whatever the address of its argument block, the request goes out with
  one attribute for every input and output field: a reader of the attributes gets back their numbers, sizes, element
  counts and offsets in order, every element of every field lies inside the block, numbers are not used twice
  in a direction, and no two outputs share a byte. The error for too many attributes never happens.\<close>

theorem tlv_request_complete:
  assumes "(cmd, t, ins, in_count, outs, out_count) \<in> set tlv_switch"
  shows "\<exists>attrs. ioctl_request cmd arg arg_size = Inr (cmd, of_nat (length attrs * 16), Attrs attrs) \<and>
    map (entry_of_attr arg) attrs = ins @ outs \<and> int (length attrs) = in_count + out_count \<and>
    list_all (entry_fits t) (ins @ outs) \<and> distinct (map fst ins) \<and> distinct (map fst outs) \<and>
    sorted_wrt (\<lambda>r q. snd r \<le> fst q \<or> snd q \<le> fst r) (concat (map entry_ranges outs))"
proof (intro exI conjI)
  let ?attrs = "map (attr_of_spec \<circ> fill_entry arg) (ins @ outs)"
  have ok: "row_ok (cmd, t, ins, in_count, outs, out_count)"
    using rows_ok assms by (auto simp: list_all_iff)
  have "build_tlv_specs cmd arg = Inr (map (fill_entry arg) ins, in_count, map (fill_entry arg) outs, out_count)"
    using find_row [OF assms] by (simp add: build_tlv_specs_def)
  with ok show "ioctl_request cmd arg arg_size = Inr (cmd, of_nat (length ?attrs * 16), Attrs ?attrs)"
    by (simp add: ioctl_request_def row_ok_def specs_to_attrs_all)
  show "map (entry_of_attr arg) ?attrs = ins @ outs"
    using ok by (auto simp: row_ok_def list_all_iff entry_of_fill_entry intro!: map_idI)
qed (use rows_ok assms in \<open>auto simp: list_all_iff row_ok_def\<close>)

text \<open>A command outside the switch is passed on untouched.\<close>

lemma other_request: "cmd \<notin> fst ` set tlv_switch \<Longrightarrow> ioctl_request cmd arg n = Inr (cmd, of_nat n, Block arg)"
proof -
  assume "cmd \<notin> fst ` set tlv_switch"
  then have "find (\<lambda>row. fst row = cmd) tlv_switch = None" unfolding find_None_iff by blast
  then show ?thesis by (simp add: ioctl_request_def build_tlv_specs_def)
qed

end
