(* ===== verification/RDMA_Examples.thy ===== *)
theory RDMA_Examples
  imports RDMA_Queues RDMA_Request
begin

text \<open>Concrete inputs for the theorems on the queues and the requests of the RDMA demo.\<close>

section \<open>The completion ring\<close>

text \<open>A completion of a receive and one of a send, both successful, from the first pass of the device.\<close>

definition recv_cqe :: bytes where "recv_cqe = 5 # replicate 63 0"
definition send_cqe :: bytes where "send_cqe = 4 # replicate 63 0"

definition fresh_queues :: rdma_queues where
  "fresh_queues =
     \<lparr>rq_sq_pi = 0, rq_rq_pi = 0, rq_cq_ci = 0, rq_jfc_db_buf = replicate 64 0, rq_jfr_buf = replicate 4096 0,
      rq_jfr_idx_buf = replicate 4096 0, rq_jfr_db_buf = replicate 64 0, rq_jetty_buf = replicate 4096 0,
      rq_jetty_db_buf = replicate 64 0, rq_bound_tpn = 0x1000007, rq_peer_jetty_id = 9, rq_peer_eid = replicate 16 3\<rparr>"

lemma dword_samples: "dword_at 0 recv_cqe = 5" "dword_at 0 send_cqe = 4"
  by code_simp+

lemma cqe_samples:
  "cqe_status recv_cqe = 0" "cqe_s_r recv_cqe = CQE_FOR_RECEIVE_LOCAL" "cqe_owner recv_cqe = 1" "length recv_cqe = 64"
  "cqe_status send_cqe = 0" "cqe_s_r send_cqe = CQE_FOR_SEND_LOCAL" "cqe_owner send_cqe = 1" "length send_cqe = 64"
  by (simp_all add: dword_samples cqe_status_def cqe_s_r_def cqe_owner_def CQE_FOR_RECEIVE_LOCAL_def CQE_FOR_SEND_LOCAL_def)
    (simp_all add: recv_cqe_def send_cqe_def)

lemma produced_samples: "hw_produced [recv_cqe, send_cqe]"
  by (auto simp: hw_produced_def hw_owner_def less_Suc_eq nth_Cons' cqe_samples)

theorem wait_for_cqe_in_order_witness:
  "fst (rdma_wait_for_cqe fresh_queues CQE_FOR_SEND_LOCAL (hw_rings [recv_cqe, send_cqe] [[0, 1], [2], [2]])) = 0"
proof -
  let ?w = "rdma_wait_for_cqe fresh_queues CQE_FOR_SEND_LOCAL (hw_rings [recv_cqe, send_cqe] [[0, 1], [2], [2]])"
  obtain rc out res' where e: "?w = (rc, out, res')" by (metis prod_cases3)
  have w: "watches [recv_cqe, send_cqe] 0 [[0, 1], [2], [2]]" using produced_samples by (simp add: watches_def)
  have p: "passed_over [recv_cqe, send_cqe] CQE_FOR_SEND_LOCAL 0 1"
    by (simp add: passed_over_def cqe_samples CQE_FOR_RECEIVE_LOCAL_def CQE_FOR_SEND_LOCAL_def)
  have "rq_cq_ci fresh_queues = of_nat 0" by (simp add: fresh_queues_def)
  from wait_for_cqe_in_order [OF w this e] p have "rc = 0" by (elim conjE allE [of _ 1]) (simp add: cqe_samples)
  with e show ?thesis by simp
qed

theorem reply_completion_lost_witness:
  "\<exists>res1. rdma_wait_for_cqe fresh_queues CQE_FOR_SEND_LOCAL (hw_rings [recv_cqe, send_cqe] (replicate 2 [2])) = (0, send_cqe, res1) \<and>
    fst (rdma_wait_for_cqe res1 CQE_FOR_RECEIVE_LOCAL (hw_rings [recv_cqe, send_cqe] [[2], [2, 2]])) = - ETIMEDOUT"
  by (rule reply_completion_lost [OF produced_samples]) (simp_all add: cqe_samples fresh_queues_def)

section \<open>Posting\<close>

theorem post_send_entry_witness:
  "let res' = snd (rdma_post_send_one fresh_queues 0x1000 32)
   in fst (rdma_post_send_one fresh_queues 0x1000 32) = 0 \<and> sqe_tpn (cqe_at (rq_jetty_buf res') 0) = 7 \<and>
      dword_at 0 (rq_jetty_db_buf res') = 1"
proof -
  obtain rc res' where e: "rdma_post_send_one fresh_queues 0x1000 32 = (rc, res')" by fastforce
  have l: "length (rq_jetty_buf fresh_queues) = 4096" "length (rq_peer_eid fresh_queues) = 16"
      "4 \<le> length (rq_jetty_db_buf fresh_queues)" "rq_sq_pi fresh_queues = of_nat 0"
    by (simp_all add: fresh_queues_def)
  show ?thesis
    using post_send_entry [OF l e] e by (simp add: Let_def RDMA_MAX_PAYLOAD_def) (simp add: fresh_queues_def)
qed

section \<open>Requests\<close>

theorem tlv_request_complete_witness:
  "\<exists>attrs. ioctl_request UBURMA_CMD_FREE_TOKEN_ID 0x7fff0000 64 =
      Inr (UBURMA_CMD_FREE_TOKEN_ID, of_nat (length attrs * 16), Attrs attrs) \<and>
    map (entry_of_attr 0x7fff0000) attrs = uburma_free_token_id_fill_spec_in"
proof -
  have "(UBURMA_CMD_FREE_TOKEN_ID, uburma_cmd_free_token_id, uburma_free_token_id_fill_spec_in, FREE_TOKEN_ID_IN_NUM, [], 0) \<in> set tlv_switch"
    by (simp add: tlv_switch_def)
  from tlv_request_complete [OF this, of "0x7fff0000" 64] show ?thesis by auto
qed

end
