(* ===== verification/RDMA_Setup.thy ===== *)
theory RDMA_Setup
  imports RDMA_Queues RDMA_Request
begin

text \<open>
  The RDMA demo up to its data path (\<^verbatim>\<open>ub_rdma_demo.c\<close>): the resources it keeps, what the kernel holds
  for it, the buffers, the argument block of every command with the bytes of its fields, the steps of
  \<^verbatim>\<open>main\<close> that issue them, and \<^verbatim>\<open>cleanup_resources\<close>. The kernel is a parameter;
  \<open>rdma_os_ok\<close> is what it promises. It may refuse any command, those that give back objects included;
  \<open>rdma_takes_back\<close> says of a kernel that it does not refuse these.
\<close>

section \<open>Resources\<close>

definition DEMO_PAGE_SIZE :: nat where "DEMO_PAGE_SIZE = 4096"
definition UDMA_TID_SHIFT_USER :: nat where "UDMA_TID_SHIFT_USER = 8"
definition UDMA_KERNEL_STARS_JFC_TYPE :: u32 where "UDMA_KERNEL_STARS_JFC_TYPE = 2"
definition UDMA_URMA_NORMAL_JETTY_TYPE :: u32 where "UDMA_URMA_NORMAL_JETTY_TYPE = 3"
definition UDMA_MMAP_KERNEL_BUF :: u64 where "UDMA_MMAP_KERNEL_BUF = 4"
definition UDMA_MMAP_JETTY_DSQE_LOCAL :: u64 where "UDMA_MMAP_JETTY_DSQE_LOCAL = 2"
definition MAP_INDEX_SHIFT_LOCAL :: nat where "MAP_INDEX_SHIFT_LOCAL = 4"
definition UDMA_DOORBELL_OFFSET_LOCAL :: u64 where "UDMA_DOORBELL_OFFSET_LOCAL = 0x80"
definition UBCORE_TP_RM_USER :: u32 where "UBCORE_TP_RM_USER = 1"
definition UBCORE_TP_RC_USER :: u32 where "UBCORE_TP_RC_USER = 2"
definition UBCORE_TP_UM_USER :: u32 where "UBCORE_TP_UM_USER = 4"
definition UBCORE_MAX_EID_CNT :: u32 where "UBCORE_MAX_EID_CNT = 1024"
definition UBCORE_JETTY_GRP_POLICY_RR_USER :: u32 where "UBCORE_JETTY_GRP_POLICY_RR_USER = 0"
definition UBCORE_RTP_USER :: u32 where "UBCORE_RTP_USER = 0"
definition ENOMEM :: int where "ENOMEM = 12"
definition EBUSY :: int where "EBUSY = 16"
definition EAGAIN :: int where "EAGAIN = 11"

text \<open>The buffers of \<^verbatim>\<open>struct rdma_resources\<close> by name, each with pointer, length and whether it is a
  mapping; where the struct has no such field it stays 0.\<close>

datatype rdma_buf_name =
    Seg_buf | Jfc_ucmd_buf | Jfc_db_buf | Jfr_buf | Jfr_idx_buf | Jfr_db_buf | Jfs_buf | Jfs_db_buf
  | Jetty_buf | Jetty_db_buf | Jetty_dsqe_page

record rdma_buf =
  b_ptr :: u64
  b_len :: nat
  b_mmap :: bool

definition buf_zero :: rdma_buf where "buf_zero = \<lparr>b_ptr = 0, b_len = 0, b_mmap = False\<rparr>"

record rdma_resources =
  res_fd :: int
  res_ummu_fd :: int
  res_jfc_id :: u32
  res_jfr_id :: u32
  res_jfs_id :: u32
  res_jetty_id :: u32
  res_ummu_tid :: u32
  res_jfc_handle :: u64
  res_jfr_handle :: u64
  res_jfs_handle :: u64
  res_jetty_handle :: u64
  res_tjetty_handle :: u64
  res_token_id :: u32
  res_token_id_handle :: u64
  res_seg_handle :: u64
  res_ctx_created :: bool
  res_ummu_tid_allocated :: bool
  res_jfc_alloc :: bool
  res_jfr_alloc :: bool
  res_jfs_alloc :: bool
  res_jetty_alloc :: bool
  res_seg_registered :: bool
  res_tjetty_imported :: bool
  res_local_hw_jetty_id :: u32
  res_buf :: "rdma_buf_name \<Rightarrow> rdma_buf"
  res_q :: rdma_queues

text \<open>After \<^verbatim>\<open>memset\<close> and the two descriptors set to -1; the pages of the queues are cleared when
  they are mapped.\<close>

definition queues_zero :: rdma_queues where
  "queues_zero =
     \<lparr>rq_sq_pi = 0, rq_rq_pi = 0, rq_cq_ci = 0, rq_jfc_db_buf = replicate 4096 0, rq_jfr_buf = replicate 4096 0,
      rq_jfr_idx_buf = replicate 4096 0, rq_jfr_db_buf = replicate 4096 0, rq_jetty_buf = replicate 4096 0,
      rq_jetty_db_buf = replicate 4096 0, rq_bound_tpn = 0, rq_peer_jetty_id = 0, rq_peer_eid = replicate 16 0\<rparr>"

definition res_zero :: rdma_resources where
  "res_zero =
     \<lparr>res_fd = - 1, res_ummu_fd = - 1, res_jfc_id = 0, res_jfr_id = 0, res_jfs_id = 0, res_jetty_id = 0, res_ummu_tid = 0,
      res_jfc_handle = 0, res_jfr_handle = 0, res_jfs_handle = 0, res_jetty_handle = 0, res_tjetty_handle = 0,
      res_token_id = 0, res_token_id_handle = 0, res_seg_handle = 0, res_ctx_created = False,
      res_ummu_tid_allocated = False, res_jfc_alloc = False, res_jfr_alloc = False, res_jfs_alloc = False,
      res_jetty_alloc = False, res_seg_registered = False, res_tjetty_imported = False, res_local_hw_jetty_id = 0,
      res_buf = (\<lambda>_. buf_zero), res_q = queues_zero\<rparr>"

section \<open>What the kernel holds\<close>

text \<open>Descriptors, allocated memory, mappings with their lengths, and the objects that have to be given back: thread
  identifiers, tokens, segments, imported jettys. \<open>ks_bad\<close> records a release of something not held. The kept
  objects are those the kernel has refused to take back although nothing stood in the way: a segment or a thread identifier
  that was held, a token when every segment still held was refused itself. Calls are counted, so that two calls may be answered differently.\<close>

record rdma_ks =
  ks_fds :: "int set"
  ks_heap :: "u64 set"
  ks_maps :: "u64 \<rightharpoonup> nat"
  ks_tids :: "u32 set"
  ks_tokens :: "u64 set"
  ks_segs :: "u64 set"
  ks_tjettys :: "u64 set"
  ks_kept_tids :: "u32 set"
  ks_kept_tokens :: "u64 set"
  ks_kept_segs :: "u64 set"
  ks_bad :: bool
  ks_calls :: nat

record rdma_os =
  rk_addr :: "string \<Rightarrow> u64"
  rk_open :: "rdma_ks \<Rightarrow> string \<Rightarrow> int"
  rk_socket :: "rdma_ks \<Rightarrow> int"
  rk_bind :: "rdma_ks \<Rightarrow> bool"
  rk_ioctl :: "rdma_ks \<Rightarrow> u32 \<times> u32 \<times> ioctl_args \<Rightarrow> bytes \<Rightarrow> (u64 \<times> bytes) list \<Rightarrow> int \<times> bytes"
  rk_alloc_tid :: "rdma_ks \<Rightarrow> int + u32"
  rk_free_tid :: "rdma_ks \<Rightarrow> u32 \<Rightarrow> int"
  rk_mmap :: "rdma_ks \<Rightarrow> int \<Rightarrow> nat \<Rightarrow> u64 \<Rightarrow> u64 option"
  rk_memalign :: "rdma_ks \<Rightarrow> nat \<Rightarrow> u64 option"

definition ks_tick :: "rdma_ks \<Rightarrow> rdma_ks" where
  "ks_tick ks = ks\<lparr>ks_calls := Suc (ks_calls ks)\<rparr>"

definition ks_got_fd :: "int \<Rightarrow> rdma_ks \<Rightarrow> rdma_ks" where
  "ks_got_fd fd ks = ks_tick (if fd < 0 then ks else ks\<lparr>ks_fds := insert fd (ks_fds ks)\<rparr>)"

definition ks_close :: "int \<Rightarrow> rdma_ks \<Rightarrow> rdma_ks" where
  "ks_close fd ks = ks_tick (ks\<lparr>ks_fds := ks_fds ks - {fd}, ks_bad := (ks_bad ks \<or> fd \<notin> ks_fds ks)\<rparr>)"

definition ks_munmap :: "u64 \<Rightarrow> nat \<Rightarrow> rdma_ks \<Rightarrow> rdma_ks" where
  "ks_munmap a len ks =
     ks_tick (ks\<lparr>ks_maps := (if ks_maps ks a = Some len then (ks_maps ks)(a := None) else ks_maps ks),
                ks_bad := (ks_bad ks \<or> ks_maps ks a \<noteq> Some len)\<rparr>)"

definition ks_free :: "u64 \<Rightarrow> rdma_ks \<Rightarrow> rdma_ks" where
  "ks_free a ks = ks_tick (ks\<lparr>ks_heap := ks_heap ks - {a}, ks_bad := (ks_bad ks \<or> a \<notin> ks_heap ks)\<rparr>)"

section \<open>Argument blocks\<close>

text \<open>A block is cleared, then its fields are set one by one: paths with the bytes stored there.\<close>

definition put_field :: "ctype \<Rightarrow> string list \<times> bytes \<Rightarrow> bytes \<Rightarrow> bytes" where
  "put_field t f block = (case c_resolve t (fst f) of Some (off, u) \<Rightarrow> put_at (nat off) (snd f) block | None \<Rightarrow> block)"

definition fields_block :: "ctype \<Rightarrow> (string list \<times> bytes) list \<Rightarrow> bytes" where
  "fields_block t fs = fold (put_field t) fs (replicate (nat (c_size t)) 0)"

definition get_field :: "ctype \<Rightarrow> string list \<Rightarrow> bytes \<Rightarrow> bytes" where
  "get_field t path block =
     (case c_resolve t path of Some (off, u) \<Rightarrow> bytes_at (nat off) (nat (c_size u)) block | None \<Rightarrow> [])"

definition get_u32 :: "ctype \<Rightarrow> string list \<Rightarrow> bytes \<Rightarrow> u32" where
  "get_u32 t path block = of_le (get_field t path block)"

definition get_u64 :: "ctype \<Rightarrow> string list \<Rightarrow> bytes \<Rightarrow> u64" where
  "get_u64 t path block = of_le (get_field t path block)"

text \<open>What a command that succeeds changes of the objects held. The handle 0 stands for none.\<close>

definition ks_objects :: "u32 \<Rightarrow> bytes \<Rightarrow> bytes \<Rightarrow> rdma_ks \<Rightarrow> rdma_ks" where
  "ks_objects cmd block out ks =
     (if cmd = UBURMA_CMD_ALLOC_TOKEN_ID then
        ks\<lparr>ks_tokens := ks_tokens ks \<union> ({get_u64 uburma_cmd_alloc_token_id [''out'', ''handle''] out} - {0})\<rparr>
      else if cmd = UBURMA_CMD_FREE_TOKEN_ID then
        ks\<lparr>ks_tokens := ks_tokens ks - {get_u64 uburma_cmd_free_token_id [''in'', ''handle''] block}\<rparr>
      else if cmd = UBURMA_CMD_REGISTER_SEG then
        ks\<lparr>ks_segs := insert (get_u64 uburma_cmd_register_seg [''out'', ''handle''] out) (ks_segs ks)\<rparr>
      else if cmd = UBURMA_CMD_UNREGISTER_SEG then
        ks\<lparr>ks_segs := ks_segs ks - {get_u64 uburma_cmd_unregister_seg [''in'', ''handle''] block}\<rparr>
      else if cmd = UBURMA_CMD_IMPORT_JETTY then
        ks\<lparr>ks_tjettys := insert (get_u64 uburma_cmd_import_jetty [''out'', ''handle''] out) (ks_tjettys ks)\<rparr>
      else if cmd = UBURMA_CMD_UNIMPORT_JETTY then
        ks\<lparr>ks_tjettys := ks_tjettys ks - {get_u64 uburma_cmd_unimport_jetty_local [''in'', ''handle''] block}\<rparr>
      else ks)"

text \<open>What a command that is refused leaves behind.\<close>

definition ks_refused :: "u32 \<Rightarrow> bytes \<Rightarrow> rdma_ks \<Rightarrow> rdma_ks" where
  "ks_refused cmd block ks =
     (if cmd = UBURMA_CMD_FREE_TOKEN_ID then
        ks\<lparr>ks_kept_tokens := ks_kept_tokens ks \<union>
             (if ks_segs ks \<subseteq> ks_kept_segs ks then {get_u64 uburma_cmd_free_token_id [''in'', ''handle''] block} \<inter> ks_tokens ks else {})\<rparr>
      else if cmd = UBURMA_CMD_UNREGISTER_SEG then
        ks\<lparr>ks_kept_segs := ks_kept_segs ks \<union> ({get_u64 uburma_cmd_unregister_seg [''in'', ''handle''] block} \<inter> ks_segs ks)\<rparr>
      else ks)"

text \<open>A command: the request made by \<^verbatim>\<open>ub_ioctl\<close> from the block, with the driver data it points to.\<close>

definition rdma_ioctl :: "rdma_os \<Rightarrow> u32 \<Rightarrow> bytes \<Rightarrow> (u64 \<times> bytes) list \<Rightarrow> rdma_ks \<Rightarrow> int \<times> bytes \<times> rdma_ks" where
  "rdma_ioctl os cmd block priv ks =
     (case ioctl_request cmd (rk_addr os ''cmd'') (length block) of
        Inl e \<Rightarrow> (e, block, ks)
      | Inr hdr \<Rightarrow>
          (case rk_ioctl os ks hdr block priv of
             (ret, out) \<Rightarrow> if ret < 0 then (ret, out, ks_tick (ks_refused cmd block ks)) else (0, out, ks_tick (ks_objects cmd block out ks))))"

definition rdma_os_ok :: "rdma_os \<Rightarrow> bool" where
  "rdma_os_ok os \<longleftrightarrow>
     (\<forall>ks path. 0 \<le> rk_open os ks path \<longrightarrow> rk_open os ks path \<notin> ks_fds ks) \<and>
     (\<forall>ks. 0 \<le> rk_socket os ks \<longrightarrow> rk_socket os ks \<notin> ks_fds ks) \<and>
     (\<forall>ks fd n off a. rk_mmap os ks fd n off = Some a \<longrightarrow> a \<noteq> 0 \<and> a \<notin> dom (ks_maps ks) \<and> a \<notin> ks_heap ks) \<and>
     (\<forall>ks n a. rk_memalign os ks n = Some a \<longrightarrow> a \<noteq> 0 \<and> a \<notin> dom (ks_maps ks) \<and> a \<notin> ks_heap ks)"

definition rdma_takes_back :: "rdma_os \<Rightarrow> bool" where
  "rdma_takes_back os \<longleftrightarrow>
     (\<forall>ks tid. tid \<in> ks_tids ks \<longrightarrow> 0 \<le> rk_free_tid os ks tid) \<and>
     (\<forall>ks n args block priv. get_u64 uburma_cmd_unregister_seg [''in'', ''handle''] block \<in> ks_segs ks \<longrightarrow>
        0 \<le> fst (rk_ioctl os ks (UBURMA_CMD_UNREGISTER_SEG, n, args) block priv)) \<and>
     (\<forall>ks n args block priv. ks_segs ks = {} \<longrightarrow> get_u64 uburma_cmd_free_token_id [''in'', ''handle''] block \<in> ks_tokens ks \<longrightarrow>
        0 \<le> fst (rk_ioctl os ks (UBURMA_CMD_FREE_TOKEN_ID, n, args) block priv))"

section \<open>Buffers\<close>

type_synonym rdma_st = "rdma_resources \<times> rdma_ks"

definition set_buf :: "rdma_buf_name \<Rightarrow> rdma_buf \<Rightarrow> rdma_resources \<Rightarrow> rdma_resources" where
  "set_buf n b res = res\<lparr>res_buf := (res_buf res)(n := b)\<rparr>"

definition alloc_aligned_zero :: "rdma_os \<Rightarrow> nat \<Rightarrow> rdma_ks \<Rightarrow> u64 \<times> rdma_ks" where
  "alloc_aligned_zero os n ks =
     (case rk_memalign os ks n of None \<Rightarrow> (0, ks_tick ks) | Some p \<Rightarrow> (p, ks_tick (ks\<lparr>ks_heap := insert p (ks_heap ks)\<rparr>)))"

definition rdma_mmap :: "rdma_os \<Rightarrow> int \<Rightarrow> nat \<Rightarrow> u64 \<Rightarrow> rdma_ks \<Rightarrow> u64 \<times> rdma_ks" where
  "rdma_mmap os fd len offset ks =
     (case rk_mmap os ks fd len offset of
        None \<Rightarrow> (0, ks_tick ks) | Some p \<Rightarrow> (p, ks_tick (ks\<lparr>ks_maps := (ks_maps ks)(p \<mapsto> len)\<rparr>)))"

definition map_udma_kernel_buf :: "rdma_os \<Rightarrow> int \<Rightarrow> nat \<Rightarrow> rdma_ks \<Rightarrow> u64 \<times> rdma_ks" where
  "map_udma_kernel_buf os fd len ks = rdma_mmap os fd len (UDMA_MMAP_KERNEL_BUF * of_nat DEMO_PAGE_SIZE) ks"

definition map_udma_jetty_dsqe_page :: "rdma_os \<Rightarrow> int \<Rightarrow> u32 \<Rightarrow> rdma_ks \<Rightarrow> u64 \<times> rdma_ks" where
  "map_udma_jetty_dsqe_page os fd jetty_id ks =
     rdma_mmap os fd DEMO_PAGE_SIZE
       ((push_bit MAP_INDEX_SHIFT_LOCAL (ucast jetty_id) OR UDMA_MMAP_JETTY_DSQE_LOCAL) * of_nat DEMO_PAGE_SIZE) ks"

definition free_ptr :: "rdma_buf_name \<Rightarrow> rdma_st \<Rightarrow> rdma_st" where
  "free_ptr n st =
     (case st of (res, ks) \<Rightarrow>
        let b = res_buf res n
        in if b_ptr b \<noteq> 0 then (set_buf n (b\<lparr>b_ptr := 0\<rparr>) res, ks_free (b_ptr b) ks) else st)"

text \<open>One buffer of \<^verbatim>\<open>ensure_runtime_buffers\<close>: nothing when it is there already, memory or a mapping otherwise.\<close>

definition ensure_heap :: "rdma_os \<Rightarrow> rdma_buf_name \<Rightarrow> nat \<Rightarrow> rdma_st \<Rightarrow> bool \<times> rdma_st" where
  "ensure_heap os n len st =
     (case st of (res, ks) \<Rightarrow>
        if b_ptr (res_buf res n) \<noteq> 0 then (True, st)
        else case alloc_aligned_zero os DEMO_PAGE_SIZE ks of
               (p, ks1) \<Rightarrow> (p \<noteq> 0, set_buf n (if p = 0 then (res_buf res n)\<lparr>b_ptr := 0\<rparr> else \<lparr>b_ptr = p, b_len = len, b_mmap = False\<rparr>) res, ks1))"

definition ensure_map :: "rdma_os \<Rightarrow> rdma_buf_name \<Rightarrow> rdma_st \<Rightarrow> bool \<times> rdma_st" where
  "ensure_map os n st =
     (case st of (res, ks) \<Rightarrow>
        if b_ptr (res_buf res n) \<noteq> 0 then (True, st)
        else case map_udma_kernel_buf os (res_fd res) DEMO_PAGE_SIZE ks of
               (p, ks1) \<Rightarrow> (p \<noteq> 0, set_buf n (if p = 0 then (res_buf res n)\<lparr>b_ptr := 0\<rparr>
                                          else \<lparr>b_ptr = p, b_len = DEMO_PAGE_SIZE, b_mmap = True\<rparr>) res, ks1))"

text \<open>Steps one after the other, until one fails.\<close>

fun rdma_steps :: "(rdma_st \<Rightarrow> bool \<times> rdma_st) list \<Rightarrow> rdma_st \<Rightarrow> bool \<times> rdma_st" where
  "rdma_steps [] st = (True, st)"
| "rdma_steps (f # fs) st = (case f st of (ok, st1) \<Rightarrow> if ok then rdma_steps fs st1 else (False, st1))"

definition ensure_runtime_buffers :: "rdma_os \<Rightarrow> rdma_st \<Rightarrow> bool \<times> rdma_st" where
  "ensure_runtime_buffers os =
     rdma_steps
       [ensure_heap os Seg_buf DEMO_PAGE_SIZE, ensure_map os Jfc_ucmd_buf, ensure_map os Jfc_db_buf, ensure_map os Jfr_buf,
        ensure_map os Jfr_idx_buf, ensure_map os Jfr_db_buf, ensure_heap os Jfs_buf 0, ensure_heap os Jfs_db_buf 0,
        ensure_map os Jetty_buf, ensure_heap os Jetty_db_buf 0]"

section \<open>Clean-up\<close>

text \<open>A mapping is unmapped, other memory freed.\<close>

definition release_buf :: "rdma_buf_name \<Rightarrow> rdma_st \<Rightarrow> rdma_st" where
  "release_buf n st =
     (case st of (res, ks) \<Rightarrow>
        let b = res_buf res n
        in if b_mmap b \<and> b_ptr b \<noteq> 0 then (set_buf n (b\<lparr>b_ptr := 0\<rparr>) res, ks_munmap (b_ptr b) (b_len b) ks)
           else free_ptr n st)"

text \<open>The doorbell lies in the mapped page once there is one.\<close>

definition release_jetty_db :: "rdma_st \<Rightarrow> rdma_st" where
  "release_jetty_db st =
     (case st of (res, ks) \<Rightarrow>
        let st1 = (if b_mmap (res_buf res Jetty_dsqe_page) then (set_buf Jetty_db_buf ((res_buf res Jetty_db_buf)\<lparr>b_ptr := 0\<rparr>) res, ks)
                   else free_ptr Jetty_db_buf st);
            b = res_buf (fst st1) Jetty_dsqe_page
        in if b_mmap b \<and> b_ptr b \<noteq> 0 then (set_buf Jetty_dsqe_page (b\<lparr>b_ptr := 0\<rparr>) (fst st1), ks_munmap (b_ptr b) (b_len b) (snd st1))
           else st1)"

definition cleanup_seg :: "rdma_os \<Rightarrow> rdma_st \<Rightarrow> rdma_st" where
  "cleanup_seg os st =
     (case st of (res, ks) \<Rightarrow>
        if res_seg_registered res then
          case rdma_ioctl os UBURMA_CMD_UNREGISTER_SEG
                 (fields_block uburma_cmd_unregister_seg [([''in'', ''handle''], le64 (res_seg_handle res))]) [] ks of
            (ret, _, ks1) \<Rightarrow> (if ret < 0 then res else res\<lparr>res_seg_registered := False, res_seg_handle := 0\<rparr>, ks1)
        else st)"

definition cleanup_token :: "rdma_os \<Rightarrow> rdma_st \<Rightarrow> rdma_st" where
  "cleanup_token os st =
     (case st of (res, ks) \<Rightarrow>
        if res_token_id_handle res \<noteq> 0 then
          case rdma_ioctl os UBURMA_CMD_FREE_TOKEN_ID
                 (fields_block uburma_cmd_free_token_id
                    [([''in'', ''handle''], le64 (res_token_id_handle res)), ([''in'', ''token_id''], le32 (res_token_id res))]) [] ks of
            (ret, _, ks1) \<Rightarrow> (if ret < 0 then res else res\<lparr>res_token_id := 0, res_token_id_handle := 0\<rparr>, ks1)
        else st)"

definition cleanup_device :: "rdma_os \<Rightarrow> rdma_st \<Rightarrow> rdma_st" where
  "cleanup_device os st =
     (if 0 \<le> res_fd (fst st) then
        case cleanup_token os (cleanup_seg os st) of (res, ks) \<Rightarrow> (res\<lparr>res_fd := - 1\<rparr>, ks_close (res_fd res) ks)
      else st)"

definition free_ummu_tid :: "rdma_os \<Rightarrow> u32 \<Rightarrow> rdma_ks \<Rightarrow> int \<times> rdma_ks" where
  "free_ummu_tid os tid ks =
     (if rk_free_tid os ks tid < 0
      then (rk_free_tid os ks tid, ks_tick (ks\<lparr>ks_kept_tids := ks_kept_tids ks \<union> ({tid} \<inter> ks_tids ks)\<rparr>))
      else (0, ks_tick (ks\<lparr>ks_tids := ks_tids ks - {tid}\<rparr>)))"

definition cleanup_tid :: "rdma_os \<Rightarrow> rdma_st \<Rightarrow> rdma_st" where
  "cleanup_tid os st =
     (if 0 \<le> res_ummu_fd (fst st) then
        case (if res_ummu_tid_allocated (fst st) then
                case free_ummu_tid os (res_ummu_tid (fst st)) (snd st) of
                  (ret, ks) \<Rightarrow> (if ret < 0 then fst st else (fst st)\<lparr>res_ummu_tid := 0, res_ummu_tid_allocated := False\<rparr>, ks)
              else st) of
          (res, ks) \<Rightarrow> (res\<lparr>res_ummu_fd := - 1\<rparr>, ks_close (res_ummu_fd res) ks)
      else st)"

definition cleanup_resources :: "rdma_os \<Rightarrow> rdma_st \<Rightarrow> rdma_st" where
  "cleanup_resources os st =
     (case fold (\<lambda>f. f)
             [cleanup_device os, cleanup_tid os, free_ptr Seg_buf, release_buf Jfc_ucmd_buf, release_buf Jfc_db_buf,
              release_buf Jfr_buf, release_buf Jfr_idx_buf, release_buf Jfr_db_buf, free_ptr Jfs_buf, free_ptr Jfs_db_buf,
              release_buf Jetty_buf, release_jetty_db] st of
        (res, ks) \<Rightarrow> (res\<lparr>res_buf := (\<lambda>n. \<lparr>b_ptr = b_ptr (res_buf res n), b_len = 0, b_mmap = False\<rparr>)\<rparr>, ks))"

end
