(* ===== verification/RDMA_Steps.thy ===== *)
theory RDMA_Steps
  imports RDMA_Setup
begin

text \<open>
  The steps of \<^verbatim>\<open>main\<close> of the RDMA demo that talk to the device (\<^verbatim>\<open>ub_rdma_demo.c\<close>): for
  every command the fields it sets, in the order of the code, and the step that issues it and keeps what comes
  back. Every field that is set is handed to the kernel by the request made of the block.
\<close>

section \<open>Driver data\<close>

definition udma_create_jfc_ucmd_compat :: ctype where
  "udma_create_jfc_ucmd_compat = CStruct
     [(''buf_addr'', CInt 8),
      (''buf_len'', CInt 4),
      (''mode'', CInt 4),
      (''db_addr'', CInt 8),
      (''bits'', CBits [(''is_hugepage'', 1), (''rsv'', 31)]),
      (''rsv1'', CInt 4)]"

definition udma_create_jetty_ucmd_compat :: ctype where
  "udma_create_jetty_ucmd_compat = CStruct
     [(''buf_addr'', CInt 8),
      (''buf_len'', CInt 4),
      (''jfr_id'', CInt 4),
      (''db_addr'', CInt 8),
      (''idx_addr'', CInt 8),
      (''idx_len'', CInt 4),
      (''sqe_bb_cnt'', CInt 4),
      (''jetty_addr'', CInt 8),
      (''bits'', CBits [(''pi_type'', 1), (''non_pin'', 1), (''is_hugepage'', 1), (''rsv'', 29)]),
      (''jetty_type'', CInt 4),
      (''jfr_sleep_buf'', CInt 8),
      (''jfs_id'', CInt 4),
      (''rsv1'', CInt 4)]"

definition zero_udrv_priv :: "string list \<Rightarrow> (string list \<times> bytes) list" where
  "zero_udrv_priv p =
     [(p @ [''in_addr''], le64 0), (p @ [''in_len''], le32 0), (p @ [''out_addr''], le64 0), (p @ [''out_len''], le32 0)]"

definition udata_in :: "u64 \<Rightarrow> nat \<Rightarrow> (string list \<times> bytes) list" where
  "udata_in a n = [([''udata'', ''in_addr''], le64 a), ([''udata'', ''in_len''], le32 (of_nat n))]"

definition udata_out :: "u64 \<Rightarrow> nat \<Rightarrow> (string list \<times> bytes) list" where
  "udata_out a n = [([''udata'', ''out_addr''], le64 a), ([''udata'', ''out_len''], le32 (of_nat n))]"

text \<open>The pointer of a buffer as a number.\<close>

definition buf_at :: "rdma_resources \<Rightarrow> rdma_buf_name \<Rightarrow> u64" where
  "buf_at res n = b_ptr (res_buf res n)"

text \<open>The bit fields of the two blocks are all 0, as the block is.\<close>

definition jfc_ucmd :: "rdma_resources \<Rightarrow> (string list \<times> bytes) list" where
  "jfc_ucmd res =
     [([''buf_addr''], le64 (buf_at res Jfc_ucmd_buf)), ([''buf_len''], le32 (of_nat DEMO_PAGE_SIZE)),
      ([''mode''], le32 UDMA_KERNEL_STARS_JFC_TYPE), ([''db_addr''], le64 (buf_at res Jfc_db_buf))]"

definition jfr_ucmd :: "rdma_resources \<Rightarrow> (string list \<times> bytes) list" where
  "jfr_ucmd res =
     [([''buf_addr''], le64 (buf_at res Jfr_buf)), ([''buf_len''], le32 (of_nat DEMO_PAGE_SIZE)),
      ([''db_addr''], le64 (buf_at res Jfr_db_buf)), ([''idx_addr''], le64 (buf_at res Jfr_idx_buf)),
      ([''idx_len''], le32 (of_nat DEMO_PAGE_SIZE)), ([''jetty_addr''], le64 (buf_at res Jfr_buf)), ([''jfr_sleep_buf''], le64 0)]"

definition send_ucmd :: "u64 \<Rightarrow> u64 \<Rightarrow> (string list \<times> bytes) list" where
  "send_ucmd buf db =
     [([''buf_addr''], le64 buf), ([''buf_len''], le32 (of_nat DEMO_PAGE_SIZE)), ([''db_addr''], le64 db),
      ([''idx_addr''], le64 0), ([''idx_len''], le32 0), ([''sqe_bb_cnt''], le32 1), ([''jetty_addr''], le64 buf),
      ([''jfr_sleep_buf''], le64 0), ([''jfs_id''], le32 0), ([''jetty_type''], le32 UDMA_URMA_NORMAL_JETTY_TYPE)]"

section \<open>The fields of the commands\<close>

definition create_ctx_fields :: "rdma_os \<Rightarrow> bytes \<Rightarrow> (string list \<times> bytes) list" where
  "create_ctx_fields os eid =
     [([''in'', ''eid''], eid), ([''in'', ''eid_index''], le32 0)] @ zero_udrv_priv [''udata''] @
     udata_out (rk_addr os ''ctx_resp'') 256"

definition alloc_token_fields :: "rdma_os \<Rightarrow> (string list \<times> bytes) list" where
  "alloc_token_fields os = zero_udrv_priv [''udata''] @ [([''flag'', ''value''], le32 0)] @ udata_in (rk_addr os ''user_token_id'') 4"

definition alloc_jfc_fields :: "(string list \<times> bytes) list" where
  "alloc_jfc_fields =
     [([''in'', ''depth''], le32 64), ([''in'', ''flag''], le32 0), ([''in'', ''jfce_fd''], le32 (- 1)), ([''in'', ''urma_jfc''], le64 0),
      ([''in'', ''ceqn''], le32 0)] @ zero_udrv_priv [''udata'']"

definition active_jfc_fields :: "rdma_os \<Rightarrow> rdma_resources \<Rightarrow> (string list \<times> bytes) list" where
  "active_jfc_fields os res =
     [([''in'', ''handle''], le64 (res_jfc_handle res)), ([''in'', ''depth''], le32 64), ([''in'', ''flag''], le32 0), ([''in'', ''ceqn''], le32 0),
      ([''in'', ''urma_jfc_opt''], le64 (rk_addr os ''jfc_opt_blob''))] @ zero_udrv_priv [''udata''] @
     udata_in (rk_addr os ''ucmd'') (nat (c_size udma_create_jfc_ucmd_compat))"

definition alloc_jfr_fields :: "rdma_resources \<Rightarrow> (string list \<times> bytes) list" where
  "alloc_jfr_fields res =
     [([''in'', ''depth''], le32 64), ([''in'', ''flag''], le32 0), ([''in'', ''trans_mode''], le32 UBCORE_TP_RC_USER), ([''in'', ''max_sge''], [1]),
      ([''in'', ''min_rnr_timer''], [0]), ([''in'', ''jfc_id''], le32 (res_jfc_id res)), ([''in'', ''jfc_handle''], le64 (res_jfc_handle res)),
      ([''in'', ''token''], le32 0), ([''in'', ''id''], le32 0), ([''in'', ''urma_jfr''], le64 0)] @ zero_udrv_priv [''udata'']"

definition active_jfr_fields :: "rdma_os \<Rightarrow> rdma_resources \<Rightarrow> (string list \<times> bytes) list" where
  "active_jfr_fields os res =
     [([''in'', ''handle''], le64 (res_jfr_handle res)), ([''in'', ''depth''], le32 64), ([''in'', ''flag''], le32 0),
      ([''in'', ''trans_mode''], le32 UBCORE_TP_RC_USER), ([''in'', ''max_sge''], [1]), ([''in'', ''min_rnr_timer''], [0]),
      ([''in'', ''jfc_id''], le32 (res_jfc_id res)), ([''in'', ''jfc_handle''], le64 (res_jfc_handle res)), ([''in'', ''token_value''], le32 0),
      ([''in'', ''urma_jfr_opt''], le64 (rk_addr os ''jfr_opt_blob''))] @ zero_udrv_priv [''udata''] @
     udata_in (rk_addr os ''ucmd'') (nat (c_size udma_create_jetty_ucmd_compat))"

definition alloc_jfs_fields :: "u32 \<Rightarrow> rdma_resources \<Rightarrow> (string list \<times> bytes) list" where
  "alloc_jfs_fields mode res =
     [([''in'', ''depth''], le32 64), ([''in'', ''flag''], le32 0), ([''in'', ''trans_mode''], le32 mode), ([''in'', ''priority''], [0]),
      ([''in'', ''max_sge''], [1]), ([''in'', ''max_rsge''], [0]), ([''in'', ''max_inline_data''], le32 0), ([''in'', ''rnr_retry''], [0]),
      ([''in'', ''err_timeout''], [0]), ([''in'', ''jfc_id''], le32 (res_jfc_id res)), ([''in'', ''jfc_handle''], le64 (res_jfc_handle res)),
      ([''in'', ''urma_jfs''], le64 0)] @ zero_udrv_priv [''udata'']"

definition active_jfs_fields :: "rdma_os \<Rightarrow> u32 \<Rightarrow> rdma_resources \<Rightarrow> (string list \<times> bytes) list" where
  "active_jfs_fields os mode res =
     [([''in'', ''handle''], le64 (res_jfs_handle res)), ([''in'', ''depth''], le32 64), ([''in'', ''flag''], le32 0), ([''in'', ''trans_mode''], le32 mode),
      ([''in'', ''priority''], le32 0), ([''in'', ''max_sge''], [1]), ([''in'', ''max_rsge''], [0]), ([''in'', ''max_inline_data''], le32 0),
      ([''in'', ''rnr_retry''], [0]), ([''in'', ''err_timeout''], [0]), ([''in'', ''jfc_id''], le32 (res_jfc_id res)),
      ([''in'', ''jfc_handle''], le64 (res_jfc_handle res)), ([''in'', ''jfs_opt''], le64 (rk_addr os ''jfs_opt_blob''))] @
     zero_udrv_priv [''udata''] @ udata_in (rk_addr os ''ucmd'') (nat (c_size udma_create_jetty_ucmd_compat))"

definition alloc_jetty_fields :: "rdma_resources \<Rightarrow> (string list \<times> bytes) list" where
  "alloc_jetty_fields res =
     map (\<lambda>(f, v). ([''create_jetty'', ''in'', f], v))
       [(''id'', le32 0), (''jetty_flag'', le32 0), (''jfs_depth'', le32 64), (''jfs_flag'', le32 0), (''trans_mode'', le32 UBCORE_TP_RC_USER),
        (''priority'', [0]), (''max_send_sge'', [1]), (''max_send_rsge'', [0]), (''max_inline_data'', le32 0), (''rnr_retry'', [0]),
        (''err_timeout'', [0]), (''send_jfc_id'', le32 (res_jfc_id res)), (''send_jfc_handle'', le64 (res_jfc_handle res)),
        (''jfr_depth'', le32 64), (''jfr_flag'', le32 0), (''max_recv_sge'', [1]), (''min_rnr_timer'', [0]),
        (''recv_jfc_id'', le32 (res_jfc_id res)), (''recv_jfc_handle'', le64 (res_jfc_handle res)), (''token'', le32 0),
        (''jfr_id'', le32 (res_jfr_id res)), (''jfr_handle'', le64 (res_jfr_handle res)), (''jetty_grp_handle'', le64 0),
        (''is_jetty_grp'', [0]), (''urma_jetty'', le64 0)] @
     zero_udrv_priv [''create_jetty'', ''udata'']"

definition active_jetty_fields :: "rdma_os \<Rightarrow> rdma_resources \<Rightarrow> (string list \<times> bytes) list" where
  "active_jetty_fields os res =
     [([''in'', ''flag''], le32 0), ([''in'', ''handle''], le64 (res_jetty_handle res)), ([''in'', ''send_jfc_handle''], le64 (res_jfc_handle res)),
      ([''in'', ''recv_jfc_handle''], le64 (res_jfc_handle res)), ([''in'', ''urma_jetty''], le64 0),
      ([''in'', ''jetty_opt''], le64 (rk_addr os ''jetty_opt_blob''))] @ zero_udrv_priv [''udata''] @
     udata_in (rk_addr os ''ucmd'') (nat (c_size udma_create_jetty_ucmd_compat)) @ udata_out (rk_addr os ''jetty_resp'') 8"

definition make_register_seg_flag :: u32 where
  "make_register_seg_flag = push_bit 5 1 OR push_bit 13 1"

definition register_seg_fields :: "rdma_resources \<Rightarrow> (string list \<times> bytes) list" where
  "register_seg_fields res =
     [([''in'', ''va''], le64 (buf_at res Seg_buf)), ([''in'', ''len''], le64 (of_nat (b_len (res_buf res Seg_buf)))),
      ([''in'', ''token_id''], le32 (res_token_id res)), ([''in'', ''token_id_handle''], le64 (res_token_id_handle res)),
      ([''in'', ''token''], le32 0), ([''in'', ''flag''], le32 make_register_seg_flag)] @ zero_udrv_priv [''udata'']"

record peer_info =
  pi_eid :: bytes
  pi_jetty_id :: u32
  pi_token :: u32

definition import_jetty_fields :: "peer_info \<Rightarrow> (string list \<times> bytes) list" where
  "import_jetty_fields remote =
     [([''in'', ''eid''], pi_eid remote), ([''in'', ''id''], le32 (pi_jetty_id remote)), ([''in'', ''flag''], le32 0),
      ([''in'', ''token''], le32 (pi_token remote)), ([''in'', ''trans_mode''], le32 UBCORE_TP_RC_USER),
      ([''in'', ''policy''], le32 UBCORE_JETTY_GRP_POLICY_RR_USER), ([''in'', ''type''], le32 UBCORE_JETTY_USER),
      ([''in'', ''tp_type''], le32 UBCORE_RTP_USER)] @ zero_udrv_priv [''udata'']"

definition bind_jetty_fields :: "rdma_resources \<Rightarrow> (string list \<times> bytes) list" where
  "bind_jetty_fields res =
     [([''in'', ''jetty_handle''], le64 (res_jetty_handle res)), ([''in'', ''tjetty_handle''], le64 (res_tjetty_handle res))] @
     zero_udrv_priv [''udata'']"

definition unbind_jetty_fields :: "rdma_resources \<Rightarrow> (string list \<times> bytes) list" where
  "unbind_jetty_fields res =
     [([''in'', ''jetty_handle''], le64 (res_jetty_handle res)), ([''in'', ''tjetty_handle''], le64 (res_tjetty_handle res))]"

section \<open>Steps\<close>

text \<open>A command is issued; when it fails so does the step, otherwise its answer is kept, unless it is refused.\<close>

definition rdma_command ::
  "rdma_os \<Rightarrow> u32 \<Rightarrow> bytes \<Rightarrow> (u64 \<times> bytes) list \<Rightarrow> (bytes \<Rightarrow> rdma_resources \<Rightarrow> rdma_resources option) \<Rightarrow> rdma_st \<Rightarrow> bool \<times> rdma_st" where
  "rdma_command os cmd block priv keep st =
     (case rdma_ioctl os cmd block priv (snd st) of
        (ret, out, ks) \<Rightarrow>
          if ret < 0 then (False, fst st, ks)
          else case keep out (fst st) of None \<Rightarrow> (False, fst st, ks) | Some res \<Rightarrow> (True, res, ks))"

definition copy_dev_name :: "nat \<Rightarrow> string \<Rightarrow> bytes option" where
  "copy_dev_name dst_size dev_name = (if dst_size \<le> length dev_name then None else Some (str_bytes dev_name @ [0]))"

definition step_query_device :: "rdma_os \<Rightarrow> string \<Rightarrow> rdma_st \<Rightarrow> bool \<times> rdma_st" where
  "step_query_device os dev_name st =
     (case copy_dev_name 64 dev_name of
        None \<Rightarrow> (False, st)
      | Some name \<Rightarrow>
          rdma_command os UBURMA_CMD_QUERY_DEV_ATTR (fields_block uburma_cmd_query_device_attr [([''in'', ''dev_name''], name)]) []
            (\<lambda>out res. Some res) st)"

definition read_eid_from_uburma :: "rdma_os \<Rightarrow> rdma_ks \<Rightarrow> bytes option \<times> rdma_ks" where
  "read_eid_from_uburma os ks =
     (case rdma_ioctl os UBURMA_CMD_GET_EID_LIST
             (fields_block uburma_cmd_get_eid_list [([''in'', ''max_eid_cnt''], le32 UBCORE_MAX_EID_CNT)]) [] ks of
        (ret, out, ks1) \<Rightarrow>
          (if ret \<noteq> 0 \<or> get_u32 uburma_cmd_get_eid_list [''out'', ''eid_cnt''] out = 0 then None
           else Some (take 16 (get_field uburma_cmd_get_eid_list [''out'', ''eid_list''] out)), ks1))"

definition step_create_ctx :: "rdma_os \<Rightarrow> rdma_st \<Rightarrow> bool \<times> rdma_st" where
  "step_create_ctx os st =
     (case read_eid_from_uburma os (snd st) of
        (eid, ks) \<Rightarrow>
          rdma_command os UBURMA_CMD_CREATE_CTX
            (fields_block uburma_cmd_create_ctx (create_ctx_fields os (case eid of Some e \<Rightarrow> e | None \<Rightarrow> replicate 16 0)))
            [(rk_addr os ''ctx_resp'', replicate 256 0)] (\<lambda>out res. Some (res\<lparr>res_ctx_created := True\<rparr>)) (fst st, ks))"

definition alloc_ummu_tid :: "rdma_os \<Rightarrow> rdma_st \<Rightarrow> bool \<times> rdma_st" where
  "alloc_ummu_tid os st =
     (case rk_alloc_tid os (snd st) of
        Inl e \<Rightarrow> (False, fst st, ks_tick (snd st))
      | Inr tid \<Rightarrow>
          (True, (fst st)\<lparr>res_ummu_tid := tid, res_ummu_tid_allocated := True\<rparr>,
           ks_tick ((snd st)\<lparr>ks_tids := insert tid (ks_tids (snd st))\<rparr>)))"

definition step_alloc_token :: "rdma_os \<Rightarrow> rdma_st \<Rightarrow> bool \<times> rdma_st" where
  "step_alloc_token os st =
     rdma_command os UBURMA_CMD_ALLOC_TOKEN_ID (fields_block uburma_cmd_alloc_token_id (alloc_token_fields os))
       [(rk_addr os ''user_token_id'', le32 (push_bit UDMA_TID_SHIFT_USER (res_ummu_tid (fst st))))]
       (\<lambda>out res.
          if get_u64 uburma_cmd_alloc_token_id [''out'', ''handle''] out = 0 then None
          else Some (res\<lparr>res_token_id := get_u32 uburma_cmd_alloc_token_id [''out'', ''token_id''] out,
                         res_token_id_handle := get_u64 uburma_cmd_alloc_token_id [''out'', ''handle''] out\<rparr>)) st"

definition step_alloc_jfc :: "rdma_os \<Rightarrow> rdma_st \<Rightarrow> bool \<times> rdma_st" where
  "step_alloc_jfc os =
     rdma_command os UBURMA_CMD_ALLOC_JFC (fields_block uburma_cmd_alloc_jfc alloc_jfc_fields) []
       (\<lambda>out res. Some (res\<lparr>res_jfc_id := get_u32 uburma_cmd_alloc_jfc [''out'', ''id''] out,
                            res_jfc_handle := get_u64 uburma_cmd_alloc_jfc [''out'', ''handle''] out, res_jfc_alloc := True\<rparr>))"

definition step_active_jfc :: "rdma_os \<Rightarrow> rdma_st \<Rightarrow> bool \<times> rdma_st" where
  "step_active_jfc os st =
     rdma_command os UBURMA_CMD_ACTIVE_JFC (fields_block uburma_cmd_active_jfc (active_jfc_fields os (fst st)))
       [(rk_addr os ''ucmd'', fields_block udma_create_jfc_ucmd_compat (jfc_ucmd (fst st))), (rk_addr os ''jfc_opt_blob'', replicate 256 0)]
       (\<lambda>out res. Some res) st"

definition step_alloc_jfr :: "rdma_os \<Rightarrow> rdma_st \<Rightarrow> bool \<times> rdma_st" where
  "step_alloc_jfr os st =
     rdma_command os UBURMA_CMD_ALLOC_JFR (fields_block uburma_cmd_alloc_jfr (alloc_jfr_fields (fst st))) []
       (\<lambda>out res.
          if get_u64 uburma_cmd_alloc_jfr [''out'', ''handle''] out = 0 then None
          else Some (res\<lparr>res_jfr_id := get_u32 uburma_cmd_alloc_jfr [''out'', ''id''] out,
                         res_jfr_handle := get_u64 uburma_cmd_alloc_jfr [''out'', ''handle''] out, res_jfr_alloc := True\<rparr>)) st"

definition step_active_jfr :: "rdma_os \<Rightarrow> rdma_st \<Rightarrow> bool \<times> rdma_st" where
  "step_active_jfr os st =
     rdma_command os UBURMA_CMD_ACTIVE_JFR (fields_block uburma_cmd_active_jfr (active_jfr_fields os (fst st)))
       [(rk_addr os ''ucmd'', fields_block udma_create_jetty_ucmd_compat (jfr_ucmd (fst st))), (rk_addr os ''jfr_opt_blob'', replicate 256 0)]
       (\<lambda>out res. Some res) st"

text \<open>The probe of a standalone send queue tries the modes until one works; that none does is no error.\<close>

fun jfs_probe :: "rdma_os \<Rightarrow> u32 list \<Rightarrow> rdma_st \<Rightarrow> rdma_st" where
  "jfs_probe os [] st = st"
| "jfs_probe os (mode # modes) st =
     (case rdma_command os UBURMA_CMD_ALLOC_JFS (fields_block uburma_cmd_alloc_jfs (alloc_jfs_fields mode (fst st))) []
             (\<lambda>out res.
                if get_u64 uburma_cmd_alloc_jfs [''out'', ''handle''] out = 0 then None
                else Some (res\<lparr>res_jfs_id := get_u32 uburma_cmd_alloc_jfs [''out'', ''id''] out,
                               res_jfs_handle := get_u64 uburma_cmd_alloc_jfs [''out'', ''handle''] out, res_jfs_alloc := True\<rparr>)) st of
        (False, st1) \<Rightarrow> jfs_probe os modes st1
      | (True, st1) \<Rightarrow>
          (case rdma_command os UBURMA_CMD_ACTIVE_JFS (fields_block uburma_cmd_active_jfs (active_jfs_fields os mode (fst st1)))
                  [(rk_addr os ''ucmd'', fields_block udma_create_jetty_ucmd_compat (send_ucmd (buf_at (fst st1) Jfs_buf) (buf_at (fst st1) Jfs_db_buf))),
                   (rk_addr os ''jfs_opt_blob'', replicate 256 0)] (\<lambda>out res. Some res) st1 of
             (False, res, ks) \<Rightarrow> jfs_probe os modes (res\<lparr>res_jfs_alloc := False, res_jfs_id := 0, res_jfs_handle := 0\<rparr>, ks)
           | (True, st2) \<Rightarrow> st2))"

definition step_jfs_probe :: "rdma_os \<Rightarrow> bool \<Rightarrow> rdma_st \<Rightarrow> bool \<times> rdma_st" where
  "step_jfs_probe os enabled st =
     (True, if enabled then jfs_probe os [UBCORE_TP_RM_USER, UBCORE_TP_UM_USER, UBCORE_TP_RC_USER] st else st)"

definition step_alloc_jetty :: "rdma_os \<Rightarrow> rdma_st \<Rightarrow> bool \<times> rdma_st" where
  "step_alloc_jetty os st =
     rdma_command os UBURMA_CMD_ALLOC_JETTY (fields_block uburma_cmd_alloc_jetty (alloc_jetty_fields (fst st))) []
       (\<lambda>out res. Some (res\<lparr>res_jetty_id := get_u32 uburma_cmd_alloc_jetty [''create_jetty'', ''out'', ''id''] out,
                            res_jetty_handle := get_u64 uburma_cmd_alloc_jetty [''create_jetty'', ''out'', ''handle''] out,
                            res_jetty_alloc := True\<rparr>)) st"

definition step_active_jetty :: "rdma_os \<Rightarrow> rdma_st \<Rightarrow> bool \<times> rdma_st" where
  "step_active_jetty os st =
     rdma_command os UBURMA_CMD_ACTIVE_JETTY (fields_block uburma_cmd_active_jetty (active_jetty_fields os (fst st)))
       [(rk_addr os ''ucmd'', fields_block udma_create_jetty_ucmd_compat (send_ucmd (buf_at (fst st) Jetty_buf) (buf_at (fst st) Jetty_db_buf))),
        (rk_addr os ''jetty_opt_blob'', replicate 256 0), (rk_addr os ''jetty_resp'', replicate 8 0)]
       (\<lambda>out res. Some (res\<lparr>res_local_hw_jetty_id := get_u32 uburma_cmd_active_jetty [''out'', ''jetty_id''] out\<rparr>)) st"

text \<open>The doorbell the jetty was activated with is given up for the one in the page of the jetty.\<close>

definition step_map_doorbell :: "rdma_os \<Rightarrow> rdma_st \<Rightarrow> bool \<times> rdma_st" where
  "step_map_doorbell os st =
     (case free_ptr Jetty_db_buf st of
        (res, ks) \<Rightarrow>
          (case map_udma_jetty_dsqe_page os (res_fd res) (res_local_hw_jetty_id res) ks of
             (p, ks1) \<Rightarrow>
               if p = 0 then (False, set_buf Jetty_dsqe_page ((res_buf res Jetty_dsqe_page)\<lparr>b_ptr := 0\<rparr>) res, ks1)
               else (True, set_buf Jetty_db_buf ((res_buf res Jetty_db_buf)\<lparr>b_ptr := p + UDMA_DOORBELL_OFFSET_LOCAL\<rparr>)
                       (set_buf Jetty_dsqe_page \<lparr>b_ptr = p, b_len = DEMO_PAGE_SIZE, b_mmap = True\<rparr> res), ks1)))"

definition step_register_seg :: "rdma_os \<Rightarrow> rdma_st \<Rightarrow> bool \<times> rdma_st" where
  "step_register_seg os st =
     rdma_command os UBURMA_CMD_REGISTER_SEG (fields_block uburma_cmd_register_seg (register_seg_fields (fst st))) []
       (\<lambda>out res. Some (res\<lparr>res_token_id := get_u32 uburma_cmd_register_seg [''out'', ''token_id''] out,
                            res_seg_handle := get_u64 uburma_cmd_register_seg [''out'', ''handle''] out, res_seg_registered := True\<rparr>)) st"

definition step_import_jetty :: "rdma_os \<Rightarrow> peer_info \<Rightarrow> rdma_st \<Rightarrow> bool \<times> rdma_st" where
  "step_import_jetty os remote st =
     rdma_command os UBURMA_CMD_IMPORT_JETTY (fields_block uburma_cmd_import_jetty (import_jetty_fields remote)) []
       (\<lambda>out res. Some (res\<lparr>res_tjetty_handle := get_u64 uburma_cmd_import_jetty [''out'', ''handle''] out, res_tjetty_imported := True\<rparr>)) st"

definition step_bind_jetty :: "rdma_os \<Rightarrow> rdma_st \<Rightarrow> bool \<times> rdma_st" where
  "step_bind_jetty os st =
     rdma_command os UBURMA_CMD_BIND_JETTY (fields_block uburma_cmd_bind_jetty (bind_jetty_fields (fst st))) []
       (\<lambda>out res. Some (res\<lparr>res_q := (res_q res)\<lparr>rq_bound_tpn := get_u32 uburma_cmd_bind_jetty [''out'', ''tpn''] out\<rparr>\<rparr>)) st"

definition step_unbind_jetty :: "rdma_os \<Rightarrow> rdma_st \<Rightarrow> bool \<times> rdma_st" where
  "step_unbind_jetty os st =
     rdma_command os UBURMA_CMD_UNBIND_JETTY (fields_block uburma_cmd_unbind_jetty_local (unbind_jetty_fields (fst st))) []
       (\<lambda>out res. Some res) st"

text \<open>Ten attempts while the kernel is busy.\<close>

fun unimport_attempts :: "rdma_os \<Rightarrow> nat \<Rightarrow> rdma_st \<Rightarrow> bool \<times> rdma_st" where
  "unimport_attempts os 0 st = (False, st)"
| "unimport_attempts os (Suc n) st =
     (case rdma_ioctl os UBURMA_CMD_UNIMPORT_JETTY
             (fields_block uburma_cmd_unimport_jetty_local [([''in'', ''handle''], le64 (res_tjetty_handle (fst st)))]) [] (snd st) of
        (ret, _, ks) \<Rightarrow>
          if ret = 0 then (True, (fst st)\<lparr>res_tjetty_imported := False\<rparr>, ks)
          else if ret \<noteq> - EBUSY \<and> ret \<noteq> - EAGAIN then (False, fst st, ks)
          else unimport_attempts os n (fst st, ks))"

definition step_unimport_jetty :: "rdma_os \<Rightarrow> rdma_st \<Rightarrow> bool \<times> rdma_st" where
  "step_unimport_jetty os = unimport_attempts os 10"

text \<open>Steps 1 to 7.\<close>

definition rdma_setup :: "rdma_os \<Rightarrow> string \<Rightarrow> bool \<Rightarrow> rdma_st \<Rightarrow> bool \<times> rdma_st" where
  "rdma_setup os dev_name probe =
     rdma_steps
       [step_query_device os dev_name, step_create_ctx os, alloc_ummu_tid os, step_alloc_token os, ensure_runtime_buffers os,
        step_alloc_jfc os, step_active_jfc os, step_alloc_jfr os, step_active_jfr os, step_jfs_probe os probe,
        step_alloc_jetty os, step_active_jetty os, step_map_doorbell os, step_register_seg os]"

end
