(* ===== verification/RDMA_Ledger.thy ===== *)
theory RDMA_Ledger
  imports RDMA_Steps
begin

text \<open>
  What the RDMA demo records of its resources agrees with what the kernel holds for it: an invariant of every
  step, and \<^verbatim>\<open>cleanup_resources\<close> gives everything back from any state in which it holds, but for
  what the kernel refuses to take.
\<close>

section \<open>Buffers\<close>

text \<open>The doorbell pointer is not memory of its own once the page of the jetty is mapped.\<close>

definition owns :: "(rdma_buf_name \<Rightarrow> rdma_buf) \<Rightarrow> rdma_buf_name \<Rightarrow> bool" where
  "owns B n \<longleftrightarrow> b_ptr (B n) \<noteq> 0 \<and> (n = Jetty_db_buf \<longrightarrow> \<not> b_mmap (B Jetty_dsqe_page))"

definition never_mapped :: "rdma_buf_name \<Rightarrow> bool" where
  "never_mapped n \<longleftrightarrow> n \<in> {Seg_buf, Jfs_buf, Jfs_db_buf, Jetty_db_buf}"

definition own_heap :: "(rdma_buf_name \<Rightarrow> rdma_buf) \<Rightarrow> rdma_buf_name set" where
  "own_heap B = {n. owns B n \<and> \<not> b_mmap (B n)}"

definition own_maps :: "(rdma_buf_name \<Rightarrow> rdma_buf) \<Rightarrow> rdma_buf_name set" where
  "own_maps B = {n. owns B n \<and> b_mmap (B n)}"

definition bufs_held :: "(rdma_buf_name \<Rightarrow> rdma_buf) \<Rightarrow> rdma_ks \<Rightarrow> bool" where
  "bufs_held B ks \<longleftrightarrow>
     ks_heap ks = (\<lambda>n. b_ptr (B n)) ` own_heap B \<and>
     Map.graph (ks_maps ks) = (\<lambda>n. (b_ptr (B n), b_len (B n))) ` own_maps B \<and>
     inj_on (\<lambda>n. b_ptr (B n)) {n. owns B n} \<and>
     (\<forall>n. never_mapped n \<longrightarrow> \<not> b_mmap (B n)) \<and>
     (b_ptr (B Jetty_dsqe_page) \<noteq> 0 \<longrightarrow> b_mmap (B Jetty_dsqe_page))"

lemmas ks_ops = ks_tick_def ks_got_fd_def ks_close_def ks_munmap_def ks_free_def

lemma held_parts:
  assumes "bufs_held B ks"
  shows "own_heap B \<subseteq> {n. owns B n}" "own_maps B \<subseteq> {n. owns B n}" "own_heap B \<inter> own_maps B = {}"
    "inj_on (\<lambda>n. b_ptr (B n)) {n. owns B n}" "ks_heap ks = (\<lambda>n. b_ptr (B n)) ` own_heap B"
    "Map.graph (ks_maps ks) = (\<lambda>n. (b_ptr (B n), b_len (B n))) ` own_maps B"
    "\<And>n. never_mapped n \<Longrightarrow> \<not> b_mmap (B n)" "b_ptr (B Jetty_dsqe_page) \<noteq> 0 \<Longrightarrow> b_mmap (B Jetty_dsqe_page)"
  using assms by (auto simp: bufs_held_def own_heap_def own_maps_def)

lemma held_same_ptr: "bufs_held B ks \<Longrightarrow> owns B n \<Longrightarrow> owns B m \<Longrightarrow> b_ptr (B n) = b_ptr (B m) \<Longrightarrow> n = m"
  using held_parts(4) by (fastforce dest: inj_onD)

lemma drop_owns:
  assumes "bufs_held B ks" and "owns B n"
  shows "owns (B(n := (B n)\<lparr>b_ptr := 0\<rparr>)) m \<longleftrightarrow> m \<noteq> n \<and> owns B m"
    "own_heap (B(n := (B n)\<lparr>b_ptr := 0\<rparr>)) = own_heap B - {n}" "own_maps (B(n := (B n)\<lparr>b_ptr := 0\<rparr>)) = own_maps B - {n}"
  by (auto simp: owns_def own_heap_def own_maps_def split: if_splits)

text \<open>The two images without the buffer that is dropped.\<close>

lemma drop_images:
  assumes "bufs_held B ks" and "owns B n"
  shows "(\<lambda>m. b_ptr ((B(n := b)) m)) ` (own_heap B - {n}) = (\<lambda>m. b_ptr (B m)) ` own_heap B - {b_ptr (B n)}"
    "(\<lambda>m. (b_ptr ((B(n := b)) m), b_len ((B(n := b)) m))) ` (own_maps B - {n}) =
     {e \<in> (\<lambda>m. (b_ptr (B m), b_len (B m))) ` own_maps B. fst e \<noteq> b_ptr (B n)}"
    "inj_on (\<lambda>m. b_ptr ((B(n := b)) m)) {m. m \<noteq> n \<and> owns B m}"
proof -
  have s: "b_ptr (B m) = b_ptr (B n) \<Longrightarrow> m = n" if "owns B m" for m using held_same_ptr assms that by metis
  show "(\<lambda>m. b_ptr ((B(n := b)) m)) ` (own_heap B - {n}) = (\<lambda>m. b_ptr (B m)) ` own_heap B - {b_ptr (B n)}"
    using s by (auto simp: own_heap_def image_iff)
  show "(\<lambda>m. (b_ptr ((B(n := b)) m), b_len ((B(n := b)) m))) ` (own_maps B - {n}) =
     {e \<in> (\<lambda>m. (b_ptr (B m), b_len (B m))) ` own_maps B. fst e \<noteq> b_ptr (B n)}"
    using s by (auto simp: own_maps_def image_iff)
  have "inj_on (\<lambda>m. b_ptr (B m)) {m. m \<noteq> n \<and> owns B m}" using held_parts(4) [OF assms(1)] by (rule inj_on_subset) auto
  then show "inj_on (\<lambda>m. b_ptr ((B(n := b)) m)) {m. m \<noteq> n \<and> owns B m}"
    by (rule inj_on_cong [THEN iffD1, rotated]) auto
qed

lemma drop_heap:
  assumes "bufs_held B ks" and "owns B n" and "\<not> b_mmap (B n)"
  shows "bufs_held (B(n := (B n)\<lparr>b_ptr := 0\<rparr>)) (ks_free (b_ptr (B n)) ks)" "b_ptr (B n) \<in> ks_heap ks"
proof -
  note d = drop_owns [OF assms(1,2)] and i = drop_images [OF assms(1,2)] and h = held_parts [OF assms(1)]
  show "b_ptr (B n) \<in> ks_heap ks" using assms h(5) by (auto simp: own_heap_def)
  have "n \<notin> own_maps B" using assms(3) by (simp add: own_maps_def)
  then have "b_ptr (B m) \<noteq> b_ptr (B n)" if "m \<in> own_maps B" for m
    using held_same_ptr [OF assms(1) _ assms(2), of m] h(2) that by auto
  then have m: "{e \<in> (\<lambda>m. (b_ptr (B m), b_len (B m))) ` own_maps B. fst e \<noteq> b_ptr (B n)} = Map.graph (ks_maps ks)"
    unfolding h(6) by auto
  show "bufs_held (B(n := (B n)\<lparr>b_ptr := 0\<rparr>)) (ks_free (b_ptr (B n)) ks)"
    unfolding bufs_held_def d i m
  proof (intro conjI)
    show "inj_on (\<lambda>na. b_ptr ((B(n := B n\<lparr>b_ptr := 0\<rparr>)) na)) {na. na \<noteq> n \<and> owns B na}" by (rule i)
  qed (use h(5,7,8) in \<open>auto simp: ks_ops\<close>)
qed

lemma drop_map:
  assumes "bufs_held B ks" and "owns B n" and "b_mmap (B n)"
  shows "bufs_held (B(n := (B n)\<lparr>b_ptr := 0\<rparr>)) (ks_munmap (b_ptr (B n)) (b_len (B n)) ks)" "ks_maps ks (b_ptr (B n)) = Some (b_len (B n))"
proof -
  note d = drop_owns [OF assms(1,2)] and i = drop_images [OF assms(1,2)] and h = held_parts [OF assms(1)]
  have "(b_ptr (B n), b_len (B n)) \<in> Map.graph (ks_maps ks)" using assms h(6) by (auto simp: own_maps_def)
  then show m: "ks_maps ks (b_ptr (B n)) = Some (b_len (B n))" by (rule in_graphD)
  have "n \<notin> own_heap B" using assms(3) by (simp add: own_heap_def)
  then have "b_ptr (B m) \<noteq> b_ptr (B n)" if "m \<in> own_heap B" for m
    using held_same_ptr [OF assms(1) _ assms(2), of m] h(1) that by auto
  then have e: "(\<lambda>m. b_ptr (B m)) ` own_heap B - {b_ptr (B n)} = ks_heap ks"
    unfolding h(5) by auto
  have g: "Map.graph ((ks_maps ks)(b_ptr (B n) := None)) =
      {e \<in> (\<lambda>m. (b_ptr (B m), b_len (B m))) ` own_maps B. fst e \<noteq> b_ptr (B n)}"
    by (auto simp: graph_fun_upd_None h(6))
  show "bufs_held (B(n := (B n)\<lparr>b_ptr := 0\<rparr>)) (ks_munmap (b_ptr (B n)) (b_len (B n)) ks)"
    unfolding bufs_held_def d i e
  proof (intro conjI)
    show "inj_on (\<lambda>na. b_ptr ((B(n := B n\<lparr>b_ptr := 0\<rparr>)) na)) {na. na \<noteq> n \<and> owns B na}" by (rule i)
    show "Map.graph (ks_maps (ks_munmap (b_ptr (B n)) (b_len (B n)) ks)) =
        {e \<in> (\<lambda>m. (b_ptr (B m), b_len (B m))) ` own_maps B. fst e \<noteq> b_ptr (B n)}"
      using m g by (simp add: ks_ops)
  qed (use h(5,7,8) assms(3) in \<open>auto simp: ks_ops\<close>)
qed

text \<open>A new buffer.\<close>

lemma add_owns:
  fixes len :: nat
  assumes "\<not> owns B n" and "n = Jetty_db_buf \<longrightarrow> \<not> b_mmap (B Jetty_dsqe_page)" and "p \<noteq> 0"
    and "n = Jetty_dsqe_page \<longrightarrow> mm \<and> b_ptr (B Jetty_db_buf) = 0"
  defines "B' \<equiv> B(n := \<lparr>b_ptr = p, b_len = len, b_mmap = mm\<rparr>)"
  shows "owns B' m \<longleftrightarrow> m = n \<or> owns B m"
    "own_heap B' = (if mm then own_heap B else insert n (own_heap B))" "own_maps B' = (if mm then insert n (own_maps B) else own_maps B)"
proof -
  show o: "owns B' m \<longleftrightarrow> m = n \<or> owns B m" for m using assms by (auto simp: owns_def)
  have "owns B m \<Longrightarrow> m \<noteq> n" for m using assms(1) by auto
  moreover have "b_mmap (B' m) = (if m = n then mm else b_mmap (B m))" for m by (simp add: B'_def)
  ultimately show "own_heap B' = (if mm then own_heap B else insert n (own_heap B))" "own_maps B' = (if mm then insert n (own_maps B) else own_maps B)"
    by (auto simp: own_heap_def own_maps_def o split: if_splits)
qed

lemma unchanged_images:
  assumes "\<not> owns B n"
  shows "(\<lambda>m. b_ptr ((B(n := b)) m)) ` own_heap B = (\<lambda>m. b_ptr (B m)) ` own_heap B"
    "(\<lambda>m. (b_ptr ((B(n := b)) m), b_len ((B(n := b)) m))) ` own_maps B = (\<lambda>m. (b_ptr (B m), b_len (B m))) ` own_maps B"
    "inj_on (\<lambda>m. b_ptr ((B(n := b)) m)) {m. owns B m} = inj_on (\<lambda>m. b_ptr (B m)) {m. owns B m}"
  using assms by (auto intro!: image_cong inj_on_cong simp: own_heap_def own_maps_def)

lemma fresh_ptr:
  assumes "bufs_held B ks" and "p \<notin> dom (ks_maps ks)" and "p \<notin> ks_heap ks" and "owns B m"
  shows "b_ptr (B m) \<noteq> p"
proof
  assume p: "b_ptr (B m) = p"
  show False
  proof (cases "b_mmap (B m)")
    case True
    then have "(p, b_len (B m)) \<in> Map.graph (ks_maps ks)" using p assms(4) held_parts(6) [OF assms(1)] by (auto simp: own_maps_def)
    then show False using assms(2) by (auto dest: in_graphD)
  next
    case False
    then show False using p assms(3,4) held_parts(5) [OF assms(1)] by (auto simp: own_heap_def)
  qed
qed

lemma add_buf:
  assumes "bufs_held B ks" and "\<not> owns B n" and "n = Jetty_db_buf \<longrightarrow> \<not> b_mmap (B Jetty_dsqe_page)"
    and "n = Jetty_dsqe_page \<longrightarrow> mm \<and> b_ptr (B Jetty_db_buf) = 0" and "mm \<longrightarrow> \<not> never_mapped n"
    and "p \<noteq> 0" and "p \<notin> dom (ks_maps ks)" and "p \<notin> ks_heap ks"
  shows "bufs_held (B(n := \<lparr>b_ptr = p, b_len = len, b_mmap = mm\<rparr>))
    (ks_tick (if mm then ks\<lparr>ks_maps := (ks_maps ks)(p \<mapsto> len)\<rparr> else ks\<lparr>ks_heap := insert p (ks_heap ks)\<rparr>))"
proof -
  note a = add_owns [OF assms(2,3,6,4), where len = len] and u = unchanged_images [OF assms(2)]
    and h = held_parts [OF assms(1)] and f = fresh_ptr [OF assms(1,7,8)]
  let ?B = "B(n := \<lparr>b_ptr = p, b_len = len, b_mmap = mm\<rparr>)"
  have s: "{m. m = n \<or> owns B m} = insert n {m. owns B m}" by auto
  have n: "p \<notin> (\<lambda>m. b_ptr (?B m)) ` ({m. owns B m} - {n})"
  proof (rule notI, elim imageE)
    fix m
    assume "p = b_ptr (?B m)" "m \<in> {m. owns B m} - {n}"
    then have "owns B m" "b_ptr (B m) = p" by auto
    with f show False by blast
  qed
  have g: "(ks_maps ks)(p := None) = ks_maps ks" using assms(7) by (auto simp: fun_upd_idem_iff domIff)
  show ?thesis
    unfolding bufs_held_def a(1) s
  proof (intro conjI)
    show "inj_on (\<lambda>m. b_ptr (?B m)) (insert n {m. owns B m})"
      unfolding inj_on_insert u using h(4) n by simp
    show "ks_heap (ks_tick (if mm then ks\<lparr>ks_maps := (ks_maps ks)(p \<mapsto> len)\<rparr> else ks\<lparr>ks_heap := insert p (ks_heap ks)\<rparr>)) =
        (\<lambda>m. b_ptr (?B m)) ` own_heap ?B"
      unfolding a(2) by (cases mm) (simp_all only: if_True if_False image_insert u h(5) [symmetric], simp_all add: ks_ops)
    show "Map.graph (ks_maps (ks_tick (if mm then ks\<lparr>ks_maps := (ks_maps ks)(p \<mapsto> len)\<rparr> else ks\<lparr>ks_heap := insert p (ks_heap ks)\<rparr>))) =
        (\<lambda>m. (b_ptr (?B m), b_len (?B m))) ` own_maps ?B"
      unfolding a(3) by (cases mm) (simp_all only: if_True if_False image_insert u h(6) [symmetric], simp_all add: ks_ops g)
  qed (use h(7,8) assms(4,5) in auto)
qed

text \<open>A pointer that is not owned may change.\<close>

lemma change_unowned:
  assumes "bufs_held B ks" and "\<not> owns B n" and "\<not> owns (B(n := b)) n" and "n \<noteq> Jetty_dsqe_page" and "never_mapped n \<longrightarrow> \<not> b_mmap b"
  shows "bufs_held (B(n := b)) ks"
proof -
  have o: "owns (B(n := b)) m \<longleftrightarrow> owns B m" for m using assms by (cases "m = n") (auto simp: owns_def)
  have "owns B m \<Longrightarrow> m \<noteq> n" for m using assms(2) by auto
  then have "own_heap (B(n := b)) = own_heap B" "own_maps (B(n := b)) = own_maps B" by (auto simp: own_heap_def own_maps_def o)
  then show ?thesis
    unfolding bufs_held_def o using unchanged_images [OF assms(2)] held_parts(4-8) [OF assms(1)] assms(4,5) by auto
qed

section \<open>Descriptors and objects\<close>

definition objs_listed :: "int set \<Rightarrow> rdma_resources \<Rightarrow> rdma_ks \<Rightarrow> bool" where
  "objs_listed E res ks \<longleftrightarrow>
     ks_fds ks = E \<union> {fd \<in> {res_fd res, res_ummu_fd res}. 0 \<le> fd} \<and>
     (0 \<le> res_fd res \<longrightarrow> res_fd res \<notin> E \<and> res_fd res \<noteq> res_ummu_fd res) \<and> (0 \<le> res_ummu_fd res \<longrightarrow> res_ummu_fd res \<notin> E) \<and>
     ks_tids ks = (if res_ummu_tid_allocated res then {res_ummu_tid res} else {}) \<and>
     ks_tokens ks = (if res_token_id_handle res = 0 then {} else {res_token_id_handle res}) \<and>
     ks_segs ks = (if res_seg_registered res then {res_seg_handle res} else {}) \<and>
     ks_tjettys ks = (if res_tjetty_imported res then {res_tjetty_handle res} else {}) \<and>
     \<not> ks_bad ks"

text \<open>An object is held only while the descriptor is open through which it can be given back.\<close>

definition attached :: "rdma_resources \<Rightarrow> bool" where
  "attached res \<longleftrightarrow> (res_ummu_tid_allocated res \<longrightarrow> 0 \<le> res_ummu_fd res) \<and>
     (res_token_id_handle res \<noteq> 0 \<or> res_seg_registered res \<longrightarrow> 0 \<le> res_fd res)"

definition objs_held :: "int set \<Rightarrow> rdma_resources \<Rightarrow> rdma_ks \<Rightarrow> bool" where
  "objs_held E res ks \<longleftrightarrow> objs_listed E res ks \<and> attached res"

lemmas objs_held_defs = objs_held_def objs_listed_def attached_def

definition listed :: "int set \<Rightarrow> rdma_st \<Rightarrow> bool" where
  "listed E st \<longleftrightarrow> bufs_held (res_buf (fst st)) (snd st) \<and> objs_listed E (fst st) (snd st)"

definition holds :: "int set \<Rightarrow> rdma_st \<Rightarrow> bool" where
  "holds E st \<longleftrightarrow> bufs_held (res_buf (fst st)) (snd st) \<and> objs_held E (fst st) (snd st)"

lemma holds_listed: "holds E st \<longleftrightarrow> listed E st \<and> attached (fst st)"
  by (auto simp: holds_def listed_def objs_held_def)

text \<open>Operations that only touch the buffers, and operations that leave them alone.\<close>

lemma objs_held_bufs:
  "objs_held E (set_buf n b res) ks = objs_held E res ks" "objs_held E (res\<lparr>res_q := q\<rparr>) ks = objs_held E res ks"
  "objs_held E (res\<lparr>res_buf := B\<rparr>) ks = objs_held E res ks"
  by (simp_all add: objs_held_defs set_buf_def)

lemma objs_held_ks:
  "p \<in> ks_heap ks \<Longrightarrow> objs_held E res (ks_free p ks) = objs_held E res ks"
  "ks_maps ks p = Some len \<Longrightarrow> objs_held E res (ks_munmap p len ks) = objs_held E res ks"
  "objs_held E res (ks_tick (ks\<lparr>ks_heap := H\<rparr>)) = objs_held E res ks"
  "objs_held E res (ks_tick (ks\<lparr>ks_maps := M\<rparr>)) = objs_held E res ks"
  "objs_held E res (ks_tick ks) = objs_held E res ks" "objs_held E res (ks\<lparr>ks_heap := H\<rparr>) = objs_held E res ks"
  "objs_held E res (ks\<lparr>ks_maps := M\<rparr>) = objs_held E res ks"
  by (simp_all add: objs_held_defs ks_ops)

lemma objs_listed_bufs:
  "objs_listed E (set_buf n b res) ks = objs_listed E res ks" "objs_listed E (res\<lparr>res_q := q\<rparr>) ks = objs_listed E res ks"
  "objs_listed E (res\<lparr>res_buf := B\<rparr>) ks = objs_listed E res ks"
  by (simp_all add: objs_listed_def set_buf_def)

lemma objs_listed_ks:
  "p \<in> ks_heap ks \<Longrightarrow> objs_listed E res (ks_free p ks) = objs_listed E res ks"
  "ks_maps ks p = Some len \<Longrightarrow> objs_listed E res (ks_munmap p len ks) = objs_listed E res ks"
  "objs_listed E res (ks_tick (ks\<lparr>ks_heap := H\<rparr>)) = objs_listed E res ks"
  "objs_listed E res (ks_tick (ks\<lparr>ks_maps := M\<rparr>)) = objs_listed E res ks"
  "objs_listed E res (ks_tick ks) = objs_listed E res ks" "objs_listed E res (ks\<lparr>ks_heap := H\<rparr>) = objs_listed E res ks"
  "objs_listed E res (ks\<lparr>ks_maps := M\<rparr>) = objs_listed E res ks"
  by (simp_all add: objs_listed_def ks_ops)

text \<open>Giving back one buffer.\<close>

lemma free_ptr_listed:
  assumes "listed E st" and "never_mapped n" and "n = Jetty_db_buf \<longrightarrow> \<not> b_mmap (res_buf (fst st) Jetty_dsqe_page)"
  shows "listed E (free_ptr n st)"
proof (cases "b_ptr (res_buf (fst st) n) = 0")
  case True
  with assms(1) show ?thesis by (cases st) (simp add: free_ptr_def)
next
  case False
  have o: "owns (res_buf (fst st)) n" "\<not> b_mmap (res_buf (fst st) n)"
    using assms False by (auto simp: owns_def listed_def bufs_held_def)
  note d = drop_heap [of "res_buf (fst st)" "snd st", OF _ o]
  from False assms(1) d show ?thesis by (cases st) (auto simp: free_ptr_def listed_def set_buf_def Let_def objs_listed_bufs objs_listed_ks)
qed

lemma release_buf_listed:
  assumes "listed E st" and "n \<noteq> Jetty_db_buf"
  shows "listed E (release_buf n st)"
proof -
  obtain res ks where st: "st = (res, ks)" by (cases st)
  have h: "bufs_held (res_buf res) ks" "objs_listed E res ks" using assms(1) by (simp_all add: st listed_def)
  show ?thesis
  proof (cases "b_ptr (res_buf res n) = 0")
    case True
    with assms(1) show ?thesis by (simp add: st release_buf_def free_ptr_def)
  next
    case False
    then have o: "owns (res_buf res) n" using assms(2) by (simp add: owns_def)
    show ?thesis
    proof (cases "b_mmap (res_buf res n)")
      case True
      with False h drop_map [OF h(1) o] show ?thesis by (auto simp: st release_buf_def listed_def set_buf_def Let_def objs_listed_bufs objs_listed_ks)
    next
      case m: False
      with False h drop_heap [OF h(1) o] show ?thesis
        by (auto simp: st release_buf_def free_ptr_def listed_def set_buf_def Let_def objs_listed_bufs objs_listed_ks)
    qed
  qed
qed

lemma release_jetty_db_listed:
  assumes "listed E st"
  shows "listed E (release_jetty_db st)"
proof -
  obtain res ks where st: "st = (res, ks)" by (cases st)
  have h: "bufs_held (res_buf res) ks" "objs_listed E res ks" using assms by (simp_all add: st listed_def)
  show ?thesis
  proof (cases "b_mmap (res_buf res Jetty_dsqe_page)")
    case True
    let ?res = "set_buf Jetty_db_buf ((res_buf res Jetty_db_buf)\<lparr>b_ptr := 0\<rparr>) res"
    have "bufs_held ((res_buf res)(Jetty_db_buf := (res_buf res Jetty_db_buf)\<lparr>b_ptr := 0\<rparr>)) ks"
      using True held_parts(7) [OF h(1)] by (intro change_unowned [OF h(1)]) (auto simp: owns_def never_mapped_def)
    with h(2) have "listed E (?res, ks)" by (simp add: listed_def objs_listed_bufs) (simp add: set_buf_def)
    from release_buf_listed [OF this, of Jetty_dsqe_page] True show ?thesis
      by (auto simp: st release_jetty_db_def release_buf_def set_buf_def free_ptr_def Let_def split: if_splits)
  next
    case False
    with free_ptr_listed [OF assms, of Jetty_db_buf] show ?thesis
      by (auto simp: st release_jetty_db_def never_mapped_def free_ptr_def set_buf_def Let_def)
  qed
qed

text \<open>The descriptors and objects are left alone.\<close>

lemma buffers_attached [simp]:
  "attached (fst (free_ptr n st)) = attached (fst st)" "attached (res\<lparr>res_buf := B\<rparr>) = attached res"
  by (cases st; simp add: free_ptr_def set_buf_def Let_def attached_def)+

lemma free_ptr_holds:
  "holds E st \<Longrightarrow> never_mapped n \<Longrightarrow> n = Jetty_db_buf \<longrightarrow> \<not> b_mmap (res_buf (fst st) Jetty_dsqe_page) \<Longrightarrow> holds E (free_ptr n st)"
  by (simp add: holds_listed free_ptr_listed)

section \<open>Commands\<close>

text \<open>Every command is handed to the kernel.\<close>

lemma request_sent: "\<exists>n args. ioctl_request cmd arg k = Inr (cmd, n, args)"
proof (cases "find (\<lambda>row. fst row = cmd) tlv_switch")
  case None
  then show ?thesis by (simp add: ioctl_request_def build_tlv_specs_def)
next
  case (Some row)
  then have "row \<in> set tlv_switch" by (auto simp: find_Some_iff)
  then have "row_ok row" using rows_ok by (auto simp: list_all_iff)
  with Some show ?thesis by (cases row) (auto simp: ioctl_request_def build_tlv_specs_def row_ok_def Let_def)
qed

lemma rdma_ioctl_cases:
  assumes "rdma_ioctl os cmd block priv ks = (ret, out, ks')"
  shows "ret < 0 \<and> ks' = ks_tick (ks_refused cmd block ks) \<or> ret = 0 \<and> ks' = ks_tick (ks_objects cmd block out ks)"
    "\<exists>n args. ret < 0 \<longleftrightarrow> fst (rk_ioctl os ks (cmd, n, args) block priv) < 0"
proof -
  obtain n args where r: "ioctl_request cmd (rk_addr os ''cmd'') (length block) = Inr (cmd, n, args)" using request_sent by blast
  with assms show "ret < 0 \<and> ks' = ks_tick (ks_refused cmd block ks) \<or> ret = 0 \<and> ks' = ks_tick (ks_objects cmd block out ks)"
    by (auto simp: rdma_ioctl_def split: prod.splits if_splits)
  show "\<exists>n args. ret < 0 \<longleftrightarrow> fst (rk_ioctl os ks (cmd, n, args) block priv) < 0"
    using assms r by (intro exI [of _ n] exI [of _ args]) (auto simp: rdma_ioctl_def split: prod.splits if_splits)
qed

lemma bufs_held_ks: "ks_heap ks' = ks_heap ks \<Longrightarrow> ks_maps ks' = ks_maps ks \<Longrightarrow> bufs_held B ks' = bufs_held B ks"
  by (simp add: bufs_held_def)

lemma ks_objects_bufs [simp]:
  "ks_heap (ks_objects cmd block out ks) = ks_heap ks" "ks_maps (ks_objects cmd block out ks) = ks_maps ks"
  "ks_fds (ks_objects cmd block out ks) = ks_fds ks" "ks_tids (ks_objects cmd block out ks) = ks_tids ks"
  "ks_bad (ks_objects cmd block out ks) = ks_bad ks"
  by (simp_all add: ks_objects_def)

lemma ks_tick_simps [simp]:
  "ks_heap (ks_tick ks) = ks_heap ks" "ks_maps (ks_tick ks) = ks_maps ks" "ks_fds (ks_tick ks) = ks_fds ks"
  "ks_tids (ks_tick ks) = ks_tids ks" "ks_tokens (ks_tick ks) = ks_tokens ks" "ks_segs (ks_tick ks) = ks_segs ks"
  "ks_tjettys (ks_tick ks) = ks_tjettys ks" "ks_bad (ks_tick ks) = ks_bad ks" "ks_kept_tids (ks_tick ks) = ks_kept_tids ks"
  "ks_kept_tokens (ks_tick ks) = ks_kept_tokens ks" "ks_kept_segs (ks_tick ks) = ks_kept_segs ks"
  by (simp_all add: ks_tick_def)

lemma ks_refused_simps [simp]:
  "ks_heap (ks_refused cmd block ks) = ks_heap ks" "ks_maps (ks_refused cmd block ks) = ks_maps ks"
  "ks_fds (ks_refused cmd block ks) = ks_fds ks" "ks_tids (ks_refused cmd block ks) = ks_tids ks"
  "ks_tokens (ks_refused cmd block ks) = ks_tokens ks" "ks_segs (ks_refused cmd block ks) = ks_segs ks"
  "ks_tjettys (ks_refused cmd block ks) = ks_tjettys ks" "ks_kept_tids (ks_refused cmd block ks) = ks_kept_tids ks"
  "ks_bad (ks_refused cmd block ks) = ks_bad ks"
  by (simp_all add: ks_refused_def)

lemma refused_other: "cmd \<noteq> UBURMA_CMD_FREE_TOKEN_ID \<Longrightarrow> cmd \<noteq> UBURMA_CMD_UNREGISTER_SEG \<Longrightarrow> ks_refused cmd block ks = ks"
  by (simp add: ks_refused_def)

lemmas tlv_commands = UBURMA_CMD_ALLOC_TOKEN_ID_def UBURMA_CMD_FREE_TOKEN_ID_def UBURMA_CMD_REGISTER_SEG_def
  UBURMA_CMD_UNREGISTER_SEG_def UBURMA_CMD_IMPORT_JETTY_def UBURMA_CMD_UNIMPORT_JETTY_def

lemma handle_sent:
  "get_u64 uburma_cmd_unregister_seg [''in'', ''handle'']
     (fields_block uburma_cmd_unregister_seg [([''in'', ''handle''], le64 h)]) = h"
  "get_u64 uburma_cmd_free_token_id [''in'', ''handle'']
     (fields_block uburma_cmd_free_token_id [([''in'', ''handle''], le64 h), ([''in'', ''token_id''], le32 k)]) = h"
  "get_u64 uburma_cmd_unimport_jetty_local [''in'', ''handle'']
     (fields_block uburma_cmd_unimport_jetty_local [([''in'', ''handle''], le64 h)]) = h"
proof -
  have r: "c_resolve uburma_cmd_unregister_seg [''in'', ''handle''] = Some (0, CInt 8)"
    "c_resolve uburma_cmd_free_token_id [''in'', ''handle''] = Some (0, CInt 8)"
    "c_resolve uburma_cmd_free_token_id [''in'', ''token_id''] = Some (8, CInt 4)"
    "c_resolve uburma_cmd_unimport_jetty_local [''in'', ''handle''] = Some (0, CInt 8)"
    by (simp_all add: uburma_cmd_unregister_seg_def uburma_cmd_free_token_id_def uburma_cmd_unimport_jetty_local_def round_up_def)
  have l: "length (le64 h) = 8" "length (le32 k) = 4" by simp_all
  have b: "bytes_at 0 8 (put_at 0 (le64 h) (replicate n (0 :: u8))) = le64 h" if "8 \<le> n" for n
    using bytes_at_put_at_same [of 0 "le64 h" "replicate n (0 :: u8)"] that by (simp add: l)
  show "get_u64 uburma_cmd_unregister_seg [''in'', ''handle'']
     (fields_block uburma_cmd_unregister_seg [([''in'', ''handle''], le64 h)]) = h"
    "get_u64 uburma_cmd_unimport_jetty_local [''in'', ''handle'']
     (fields_block uburma_cmd_unimport_jetty_local [([''in'', ''handle''], le64 h)]) = h"
    by (simp_all add: get_u64_def get_field_def fields_block_def put_field_def r b del: c_resolve.simps)
  show "get_u64 uburma_cmd_free_token_id [''in'', ''handle'']
     (fields_block uburma_cmd_free_token_id [([''in'', ''handle''], le64 h), ([''in'', ''token_id''], le32 k)]) = h"
    by (simp add: get_u64_def get_field_def fields_block_def put_field_def r b bytes_at_put_at_before l del: c_resolve.simps)
qed

section \<open>Clean-up\<close>

lemma os_okD:
  assumes "rdma_os_ok os"
  shows "0 \<le> rk_open os ks path \<Longrightarrow> rk_open os ks path \<notin> ks_fds ks" "0 \<le> rk_socket os ks \<Longrightarrow> rk_socket os ks \<notin> ks_fds ks"
    "rk_mmap os ks fd k off = Some a \<Longrightarrow> a \<noteq> 0 \<and> a \<notin> dom (ks_maps ks) \<and> a \<notin> ks_heap ks"
    "rk_memalign os ks k = Some a \<Longrightarrow> a \<noteq> 0 \<and> a \<notin> dom (ks_maps ks) \<and> a \<notin> ks_heap ks"
proof -
  note c = assms [unfolded rdma_os_ok_def]
  show "0 \<le> rk_open os ks path \<Longrightarrow> rk_open os ks path \<notin> ks_fds ks"
    using c [THEN conjunct1] by blast
  show "0 \<le> rk_socket os ks \<Longrightarrow> rk_socket os ks \<notin> ks_fds ks"
    using c [THEN conjunct2, THEN conjunct1] by blast
  show "rk_mmap os ks fd k off = Some a \<Longrightarrow> a \<noteq> 0 \<and> a \<notin> dom (ks_maps ks) \<and> a \<notin> ks_heap ks"
    using c [THEN conjunct2, THEN conjunct2, THEN conjunct1] by blast
  show "rk_memalign os ks k = Some a \<Longrightarrow> a \<noteq> 0 \<and> a \<notin> dom (ks_maps ks) \<and> a \<notin> ks_heap ks"
    using c [THEN conjunct2, THEN conjunct2, THEN conjunct2] by blast
qed

lemma takes_backD:
  assumes "rdma_takes_back os"
  shows "tid \<in> ks_tids ks \<Longrightarrow> 0 \<le> rk_free_tid os ks tid"
    "get_u64 uburma_cmd_unregister_seg [''in'', ''handle''] block \<in> ks_segs ks \<Longrightarrow>
       \<not> fst (rk_ioctl os ks (UBURMA_CMD_UNREGISTER_SEG, n, args) block priv) < 0"
    "ks_segs ks = {} \<Longrightarrow> get_u64 uburma_cmd_free_token_id [''in'', ''handle''] block \<in> ks_tokens ks \<Longrightarrow>
       \<not> fst (rk_ioctl os ks (UBURMA_CMD_FREE_TOKEN_ID, n, args) block priv) < 0"
proof -
  note c = assms [unfolded rdma_takes_back_def]
  show "tid \<in> ks_tids ks \<Longrightarrow> 0 \<le> rk_free_tid os ks tid"
    using c [THEN conjunct1] by blast
  show "get_u64 uburma_cmd_unregister_seg [''in'', ''handle''] block \<in> ks_segs ks \<Longrightarrow>
       \<not> fst (rk_ioctl os ks (UBURMA_CMD_UNREGISTER_SEG, n, args) block priv) < 0"
    using c [THEN conjunct2, THEN conjunct1] by (blast dest: leD)
  show "ks_segs ks = {} \<Longrightarrow> get_u64 uburma_cmd_free_token_id [''in'', ''handle''] block \<in> ks_tokens ks \<Longrightarrow>
       \<not> fst (rk_ioctl os ks (UBURMA_CMD_FREE_TOKEN_ID, n, args) block priv) < 0"
    using c [THEN conjunct2, THEN conjunct2] by (blast dest: leD)
qed

text \<open>Each part of the clean-up ends with its object given back, or refused; given back, if the kernel takes back.\<close>

definition seg_done :: "rdma_os \<Rightarrow> rdma_st \<Rightarrow> bool" where
  "seg_done os st \<longleftrightarrow> (res_seg_registered (fst st) \<longrightarrow> res_seg_handle (fst st) \<in> ks_kept_segs (snd st)) \<and>
     (rdma_takes_back os \<longrightarrow> \<not> res_seg_registered (fst st))"

definition token_done :: "rdma_os \<Rightarrow> rdma_st \<Rightarrow> bool" where
  "token_done os st \<longleftrightarrow> (res_token_id_handle (fst st) \<noteq> 0 \<longrightarrow> res_token_id_handle (fst st) \<in> ks_kept_tokens (snd st)) \<and>
     (rdma_takes_back os \<longrightarrow> res_token_id_handle (fst st) = 0)"

definition tid_done :: "rdma_os \<Rightarrow> rdma_st \<Rightarrow> bool" where
  "tid_done os st \<longleftrightarrow> (res_ummu_tid_allocated (fst st) \<longrightarrow> res_ummu_tid (fst st) \<in> ks_kept_tids (snd st)) \<and>
     (rdma_takes_back os \<longrightarrow> \<not> res_ummu_tid_allocated (fst st))"

lemma cleanup_seg_listed:
  assumes "listed E st"
  shows "listed E (cleanup_seg os st)" "seg_done os (cleanup_seg os st)" "res_fd (fst (cleanup_seg os st)) = res_fd (fst st)"
proof -
  obtain res ks where st: "st = (res, ks)" by (cases st)
  let ?b = "fields_block uburma_cmd_unregister_seg [([''in'', ''handle''], le64 (res_seg_handle res))]"
  obtain ret out ks' where i: "rdma_ioctl os UBURMA_CMD_UNREGISTER_SEG ?b [] ks = (ret, out, ks')" by (metis prod_cases3)
  have "listed E (cleanup_seg os st) \<and> seg_done os (cleanup_seg os st) \<and> res_fd (fst (cleanup_seg os st)) = res_fd (fst st)"
  proof (cases "res_seg_registered res")
    case True
    then have m: "res_seg_handle res \<in> ks_segs ks" using assms by (simp add: st listed_def objs_listed_def)
    show ?thesis
    proof (cases "ret < 0")
      case neg: True
      have "\<not> rdma_takes_back os"
        using rdma_ioctl_cases(2) [OF i] takes_backD(2) [of os ?b ks] m neg by (auto simp: handle_sent)
      moreover have "ks' = ks_tick (ks\<lparr>ks_kept_segs := ks_kept_segs ks \<union> {res_seg_handle res}\<rparr>)"
        using rdma_ioctl_cases(1) [OF i] neg m by (auto simp: ks_refused_def handle_sent tlv_commands)
      ultimately show ?thesis
        using assms True neg by (simp add: st cleanup_seg_def i seg_done_def listed_def objs_listed_def bufs_held_def)
    next
      case False
      with rdma_ioctl_cases(1) [OF i] have "ret = 0" "ks' = ks_tick (ks_objects UBURMA_CMD_UNREGISTER_SEG ?b out ks)" by simp_all
      moreover have "ks_objects UBURMA_CMD_UNREGISTER_SEG ?b out ks = ks\<lparr>ks_segs := ks_segs ks - {res_seg_handle res}\<rparr>"
        unfolding ks_objects_def handle_sent by (simp add: tlv_commands)
      ultimately show ?thesis
        using assms True by (simp add: st cleanup_seg_def i seg_done_def listed_def objs_listed_def bufs_held_def)
    qed
  qed (use assms in \<open>simp add: st cleanup_seg_def seg_done_def\<close>)
  then show "listed E (cleanup_seg os st)" "seg_done os (cleanup_seg os st)" "res_fd (fst (cleanup_seg os st)) = res_fd (fst st)"
    by simp_all
qed

lemma cleanup_token_listed:
  assumes "listed E st" and "seg_done os st"
  shows "listed E (cleanup_token os st)" "token_done os (cleanup_token os st)" "seg_done os (cleanup_token os st)"
    "res_fd (fst (cleanup_token os st)) = res_fd (fst st)"
proof -
  obtain res ks where st: "st = (res, ks)" by (cases st)
  let ?b = "fields_block uburma_cmd_free_token_id
              [([''in'', ''handle''], le64 (res_token_id_handle res)), ([''in'', ''token_id''], le32 (res_token_id res))]"
  obtain ret out ks' where i: "rdma_ioctl os UBURMA_CMD_FREE_TOKEN_ID ?b [] ks = (ret, out, ks')" by (metis prod_cases3)
  have "listed E (cleanup_token os st) \<and> token_done os (cleanup_token os st) \<and> seg_done os (cleanup_token os st) \<and>
      res_fd (fst (cleanup_token os st)) = res_fd (fst st)"
  proof (cases "res_token_id_handle res = 0")
    case False
    have m: "res_token_id_handle res \<in> ks_tokens ks" "ks_segs ks \<subseteq> ks_kept_segs ks" "rdma_takes_back os \<Longrightarrow> ks_segs ks = {}"
      using assms False by (auto simp: st listed_def objs_listed_def seg_done_def)
    show ?thesis
    proof (cases "ret < 0")
      case neg: True
      have "\<not> rdma_takes_back os"
        using rdma_ioctl_cases(2) [OF i] takes_backD(3) [of os ks ?b] m neg by (auto simp: handle_sent)
      moreover have "ks' = ks_tick (ks\<lparr>ks_kept_tokens := ks_kept_tokens ks \<union> {res_token_id_handle res}\<rparr>)"
        using rdma_ioctl_cases(1) [OF i] neg m(1,2) by (auto simp: ks_refused_def handle_sent)
      ultimately show ?thesis
        using assms False neg by (simp add: st cleanup_token_def i token_done_def seg_done_def listed_def objs_listed_def bufs_held_def)
    next
      case pos: False
      with rdma_ioctl_cases(1) [OF i] have "ret = 0" "ks' = ks_tick (ks_objects UBURMA_CMD_FREE_TOKEN_ID ?b out ks)" by simp_all
      moreover have "ks_objects UBURMA_CMD_FREE_TOKEN_ID ?b out ks = ks\<lparr>ks_tokens := ks_tokens ks - {res_token_id_handle res}\<rparr>"
        unfolding ks_objects_def handle_sent by (simp add: tlv_commands)
      ultimately show ?thesis
        using assms False by (simp add: st cleanup_token_def i token_done_def seg_done_def listed_def objs_listed_def bufs_held_def)
    qed
  qed (use assms in \<open>simp add: st cleanup_token_def token_done_def\<close>)
  then show "listed E (cleanup_token os st)" "token_done os (cleanup_token os st)" "seg_done os (cleanup_token os st)"
    "res_fd (fst (cleanup_token os st)) = res_fd (fst st)" by simp_all
qed

lemma cleanup_tid_kept:
  "res_ummu_fd (fst (cleanup_seg os st)) = res_ummu_fd (fst st)" "res_ummu_fd (fst (cleanup_token os st)) = res_ummu_fd (fst st)"
  "res_ummu_tid_allocated (fst (cleanup_seg os st)) = res_ummu_tid_allocated (fst st)"
  "res_ummu_tid_allocated (fst (cleanup_token os st)) = res_ummu_tid_allocated (fst st)"
  by (cases st; simp add: cleanup_seg_def cleanup_token_def split: prod.split)+

lemma cleanup_device_listed:
  assumes "holds E st"
  shows "listed E (cleanup_device os st) \<and> res_fd (fst (cleanup_device os st)) < 0 \<and> seg_done os (cleanup_device os st) \<and>
    token_done os (cleanup_device os st) \<and>
    (res_ummu_tid_allocated (fst (cleanup_device os st)) \<longrightarrow> 0 \<le> res_ummu_fd (fst (cleanup_device os st)))"
proof (cases "0 \<le> res_fd (fst st)")
  case True
  have l: "listed E st" using assms by (simp add: holds_listed)
  obtain res ks where c: "cleanup_token os (cleanup_seg os st) = (res, ks)" by fastforce
  note s = cleanup_seg_listed [OF l, of os] and t = cleanup_token_listed [OF cleanup_seg_listed(1,2) [OF l], of os]
  have "res_ummu_tid_allocated (fst (cleanup_token os (cleanup_seg os st))) \<longrightarrow> 0 \<le> res_ummu_fd (fst (cleanup_token os (cleanup_seg os st)))"
    using assms by (simp add: cleanup_tid_kept holds_listed attached_def)
  with s t True c have h: "listed E (res, ks)" "token_done os (res, ks)" "seg_done os (res, ks)" "0 \<le> res_fd res"
    "res_ummu_tid_allocated res \<longrightarrow> 0 \<le> res_ummu_fd res"
    by auto
  then show ?thesis
    using True c by (auto simp: cleanup_device_def token_done_def seg_done_def listed_def objs_listed_def ks_ops bufs_held_def)
qed (use assms in \<open>auto simp: cleanup_device_def holds_listed attached_def seg_done_def token_done_def\<close>)

lemma cleanup_tid_listed:
  assumes "listed E st" and "res_ummu_tid_allocated (fst st) \<longrightarrow> 0 \<le> res_ummu_fd (fst st)"
  shows "listed E (cleanup_tid os st) \<and> res_ummu_fd (fst (cleanup_tid os st)) < 0 \<and> tid_done os (cleanup_tid os st) \<and>
    res_fd (fst (cleanup_tid os st)) = res_fd (fst st) \<and> seg_done os (cleanup_tid os st) = seg_done os st \<and>
    token_done os (cleanup_tid os st) = token_done os st"
proof (cases "0 \<le> res_ummu_fd (fst st)")
  case True
  obtain res ks where st: "st = (res, ks)" by (cases st)
  note defs = st cleanup_tid_def free_ummu_tid_def tid_done_def seg_done_def token_done_def listed_def objs_listed_def ks_ops bufs_held_def
  show ?thesis
  proof (cases "res_ummu_tid_allocated res")
    case a: True
    then have m: "res_ummu_tid res \<in> ks_tids ks" using assms(1) by (simp add: st listed_def objs_listed_def)
    then have "rdma_takes_back os \<Longrightarrow> \<not> rk_free_tid os ks (res_ummu_tid res) < 0" using takes_backD(1) by force
    with a m True assms(1) show ?thesis by (auto simp: defs)
  qed (use True assms(1) in \<open>auto simp: defs\<close>)
qed (use assms in \<open>auto simp: cleanup_tid_def tid_done_def\<close>)

text \<open>What a release does to the buffers.\<close>

lemma release_effects:
  "res_buf (fst (free_ptr n st)) = (res_buf (fst st))(n := (res_buf (fst st) n)\<lparr>b_ptr := 0\<rparr>)"
  "res_buf (fst (release_buf n st)) = (res_buf (fst st))(n := (res_buf (fst st) n)\<lparr>b_ptr := 0\<rparr>)"
  "b_ptr (res_buf (fst (release_jetty_db st)) m) = (if m = Jetty_db_buf \<or> m = Jetty_dsqe_page \<and> b_mmap (res_buf (fst st) m) then 0 else b_ptr (res_buf (fst st) m))"
  "b_mmap (res_buf (fst (release_jetty_db st)) m) = b_mmap (res_buf (fst st) m)"
  "res_fd (fst (free_ptr n st)) = res_fd (fst st)" "res_ummu_fd (fst (free_ptr n st)) = res_ummu_fd (fst st)"
  "res_fd (fst (release_buf n st)) = res_fd (fst st)" "res_ummu_fd (fst (release_buf n st)) = res_ummu_fd (fst st)"
  "res_fd (fst (release_jetty_db st)) = res_fd (fst st)" "res_ummu_fd (fst (release_jetty_db st)) = res_ummu_fd (fst st)"
  by (cases st; auto simp: free_ptr_def release_buf_def release_jetty_db_def set_buf_def Let_def)+

lemma buf_names: "(\<forall>n. P n) \<longleftrightarrow> P Seg_buf \<and> P Jfc_ucmd_buf \<and> P Jfc_db_buf \<and> P Jfr_buf \<and> P Jfr_idx_buf \<and> P Jfr_db_buf \<and>
    P Jfs_buf \<and> P Jfs_db_buf \<and> P Jetty_buf \<and> P Jetty_db_buf \<and> P Jetty_dsqe_page"
proof (intro iffI allI)
  fix n
  assume "P Seg_buf \<and> P Jfc_ucmd_buf \<and> P Jfc_db_buf \<and> P Jfr_buf \<and> P Jfr_idx_buf \<and> P Jfr_db_buf \<and>
    P Jfs_buf \<and> P Jfs_db_buf \<and> P Jetty_buf \<and> P Jetty_db_buf \<and> P Jetty_dsqe_page"
  then show "P n" by (cases n) simp_all
qed simp

text \<open>No thread identifier, no token, no segment is held.\<close>

definition none_held :: "rdma_ks \<Rightarrow> bool" where
  "none_held ks \<longleftrightarrow> ks_tids ks = {} \<and> ks_tokens ks = {} \<and> ks_segs ks = {}"

text \<open>The descriptors of \<open>E\<close> are open, no memory and no mapping is left, nothing was released that was not held; and
  the objects still held were refused by the kernel; there are none, if it takes them back.\<close>

definition released :: "rdma_os \<Rightarrow> int set \<Rightarrow> rdma_ks \<Rightarrow> bool" where
  "released os E ks \<longleftrightarrow> ks_fds ks = E \<and> ks_heap ks = {} \<and> ks_maps ks = Map.empty \<and> \<not> ks_bad ks \<and>
     ks_tids ks \<subseteq> ks_kept_tids ks \<and> ks_tokens ks \<subseteq> ks_kept_tokens ks \<and> ks_segs ks \<subseteq> ks_kept_segs ks \<and>
     (rdma_takes_back os \<longrightarrow> none_held ks)"

definition untouched :: "int set \<Rightarrow> rdma_ks \<Rightarrow> bool" where
  "untouched E ks \<longleftrightarrow> ks_fds ks = E \<and> ks_heap ks = {} \<and> ks_maps ks = Map.empty \<and> \<not> ks_bad ks \<and> none_held ks \<and>
     ks_tjettys ks = {} \<and> ks_kept_tids ks = {} \<and> ks_kept_tokens ks = {} \<and> ks_kept_segs ks = {}"

text \<open>The releases of the buffers leave the objects alone.\<close>

lemma objects_kept:
  "tid_done os (free_ptr n st) = tid_done os st" "token_done os (free_ptr n st) = token_done os st" "seg_done os (free_ptr n st) = seg_done os st"
  "tid_done os (release_buf n st) = tid_done os st" "token_done os (release_buf n st) = token_done os st"
  "seg_done os (release_buf n st) = seg_done os st"
  "tid_done os (release_jetty_db st) = tid_done os st" "token_done os (release_jetty_db st) = token_done os st"
  "seg_done os (release_jetty_db st) = seg_done os st"
  by (cases st; auto simp: tid_done_def token_done_def seg_done_def free_ptr_def release_buf_def release_jetty_db_def set_buf_def ks_ops Let_def)+

lemma cleanup_releases:
  assumes "holds E st"
  shows "released os E (snd (cleanup_resources os st))"
proof -
  define s1 where "s1 = cleanup_tid os (cleanup_device os st)"
  define s2 where "s2 = release_buf Jfr_db_buf (release_buf Jfr_idx_buf (release_buf Jfr_buf (release_buf Jfc_db_buf (release_buf Jfc_ucmd_buf (free_ptr Seg_buf s1)))))"
  define s3 where "s3 = release_jetty_db (release_buf Jetty_buf (free_ptr Jfs_db_buf (free_ptr Jfs_buf s2)))"
  have s1: "listed E s1" "res_fd (fst s1) < 0" "res_ummu_fd (fst s1) < 0" "tid_done os s1" "token_done os s1" "seg_done os s1"
    using cleanup_device_listed [OF assms, of os] cleanup_tid_listed [of E "cleanup_device os st" os] by (auto simp: s1_def)
  have s3: "listed E s3"
    unfolding s3_def s2_def
    by (intro release_jetty_db_listed release_buf_listed free_ptr_listed s1(1)) (simp_all add: never_mapped_def)
  then have "b_ptr (res_buf (fst s3) Jetty_dsqe_page) \<noteq> 0 \<longrightarrow> b_mmap (res_buf (fst s3) Jetty_dsqe_page)"
    by (simp add: listed_def bufs_held_def)
  then have "b_ptr (res_buf (fst s3) Jetty_dsqe_page) = 0"
    by (auto simp: s3_def release_effects split: if_splits)
  then have p: "\<forall>n. b_ptr (res_buf (fst s3) n) = 0"
    unfolding buf_names by (simp add: s3_def s2_def release_effects)
  then have "\<not> owns (res_buf (fst s3)) n" for n by (simp add: owns_def)
  then have e: "ks_heap (snd s3) = {}" "Map.graph (ks_maps (snd s3)) = {}"
    using s3 by (simp_all add: listed_def bufs_held_def own_heap_def own_maps_def)
  have "ks_maps (snd s3) = Map.empty" using e(2) by (simp add: graph_def fun_eq_iff)
  moreover have "res_fd (fst s3) < 0" "res_ummu_fd (fst s3) < 0" using s1 by (simp_all add: s3_def s2_def release_effects)
  moreover have "tid_done os s3" "token_done os s3" "seg_done os s3" using s1 by (simp_all add: s3_def s2_def objects_kept)
  ultimately have "released os E (snd s3)"
    using s3 e(1) by (auto simp: released_def none_held_def listed_def objs_listed_def tid_done_def token_done_def seg_done_def)
  moreover have "snd (cleanup_resources os st) = snd s3"
    by (simp add: cleanup_resources_def s1_def s2_def s3_def split: prod.split)
  ultimately show ?thesis by simp
qed

section \<open>Steps\<close>

text \<open>A step from states with \<open>P\<close> ends in a state with \<open>Q\<close> when it succeeds and with \<open>R\<close> when it fails.\<close>

definition triple :: "(rdma_st \<Rightarrow> bool) \<Rightarrow> (rdma_st \<Rightarrow> bool \<times> rdma_st) \<Rightarrow> (rdma_st \<Rightarrow> bool) \<Rightarrow> (rdma_st \<Rightarrow> bool) \<Rightarrow> bool" where
  "triple P f Q R \<longleftrightarrow> (\<forall>st. P st \<longrightarrow> (if fst (f st) then Q (snd (f st)) else R (snd (f st))))"

lemma tripleI: "(\<And>st ok st'. P st \<Longrightarrow> f st = (ok, st') \<Longrightarrow> if ok then Q st' else R st') \<Longrightarrow> triple P f Q R"
  unfolding triple_def by (metis prod.collapse)

lemma tripleD: "triple P f Q R \<Longrightarrow> P st \<Longrightarrow> f st = (ok, st') \<Longrightarrow> if ok then Q st' else R st'"
  unfolding triple_def by (metis fst_conv snd_conv)

lemma triple_Nil: "triple P (rdma_steps []) P R"
  by (simp add: triple_def)

lemma triple_Cons: "triple P f Q R \<Longrightarrow> triple Q (rdma_steps fs) S R \<Longrightarrow> triple P (rdma_steps (f # fs)) S R"
proof (rule tripleI)
  fix st ok st'
  assume t: "triple P f Q R" "triple Q (rdma_steps fs) S R" "P st" "rdma_steps (f # fs) st = (ok, st')"
  obtain ok1 st1 where f: "f st = (ok1, st1)" by (cases "f st")
  show "if ok then S st' else R st'"
  proof (cases ok1)
    case True
    with t(4) f have "rdma_steps fs st1 = (ok, st')" by simp
    moreover have "Q st1" using tripleD [OF t(1,3) f] True by simp
    ultimately show ?thesis using tripleD [OF t(2)] by blast
  qed (use tripleD [OF t(1,3) f] t(4) f in simp)
qed

text \<open>What is held at a point of the program: the thread identifier, a token, a segment, an imported jetty, the page of
  the jetty.\<close>

definition phase :: "int set \<Rightarrow> bool \<Rightarrow> bool \<Rightarrow> bool \<Rightarrow> bool \<Rightarrow> bool \<Rightarrow> rdma_st \<Rightarrow> bool" where
  "phase E tid tok seg imp dsqe st \<longleftrightarrow>
     holds E st \<and> 0 \<le> res_fd (fst st) \<and> 0 \<le> res_ummu_fd (fst st) \<and> res_ummu_tid_allocated (fst st) = tid \<and>
     (res_token_id_handle (fst st) \<noteq> 0) = tok \<and> res_seg_registered (fst st) = seg \<and> res_tjetty_imported (fst st) = imp \<and>
     b_mmap (res_buf (fst st) Jetty_dsqe_page) = dsqe"

definition same_ledger :: "rdma_resources \<Rightarrow> rdma_resources \<Rightarrow> bool" where
  "same_ledger r s \<longleftrightarrow>
     res_fd r = res_fd s \<and> res_ummu_fd r = res_ummu_fd s \<and> res_ummu_tid r = res_ummu_tid s \<and>
     res_ummu_tid_allocated r = res_ummu_tid_allocated s \<and> res_token_id_handle r = res_token_id_handle s \<and>
     res_seg_handle r = res_seg_handle s \<and> res_seg_registered r = res_seg_registered s \<and>
     res_tjetty_handle r = res_tjetty_handle s \<and> res_tjetty_imported r = res_tjetty_imported s \<and> res_buf r = res_buf s"

lemma same_ledger_phase: "same_ledger r s \<Longrightarrow> phase E tid tok seg imp dsqe (r, ks) = phase E tid tok seg imp dsqe (s, ks)"
  by (simp add: same_ledger_def phase_def holds_def objs_held_defs)

lemma phase_holds: "phase E tid tok seg imp dsqe st \<Longrightarrow> holds E st"
  by (simp add: phase_def)

lemma phase_tick: "phase E tid tok seg imp dsqe (res, ks_tick ks) = phase E tid tok seg imp dsqe (res, ks)"
  by (simp add: phase_def holds_def objs_held_defs bufs_held_def)

lemma holds_tick: "holds E (res, ks_tick ks) = holds E (res, ks)"
  by (simp add: holds_def objs_held_defs bufs_held_def)

definition object_command :: "u32 \<Rightarrow> bool" where
  "object_command cmd \<longleftrightarrow>
     cmd \<in> {UBURMA_CMD_ALLOC_TOKEN_ID, UBURMA_CMD_FREE_TOKEN_ID, UBURMA_CMD_REGISTER_SEG, UBURMA_CMD_UNREGISTER_SEG,
            UBURMA_CMD_IMPORT_JETTY, UBURMA_CMD_UNIMPORT_JETTY}"

lemma plain_ioctl:
  "rdma_ioctl os cmd block priv ks = (ret, out, ks') \<Longrightarrow> \<not> object_command cmd \<Longrightarrow> ks' = ks_tick ks"
  using rdma_ioctl_cases(1) [of os cmd block priv ks ret out ks'] by (auto simp: ks_objects_def ks_refused_def object_command_def)

lemma plain_command:
  assumes "\<not> object_command cmd" and "\<And>out res res'. keep out res = Some res' \<Longrightarrow> same_ledger res' res"
    and "rdma_command os cmd block priv keep st = (ok, st')" and "phase E tid tok seg imp dsqe st"
  shows "phase E tid tok seg imp dsqe st'"
proof -
  obtain ret out ks' where i: "rdma_ioctl os cmd block priv (snd st) = (ret, out, ks')" by (metis prod_cases3)
  have ks': "ks' = ks_tick (snd st)" using plain_ioctl [OF i assms(1)] .
  obtain res where st': "st' = (res, ks')" "same_ledger res (fst st)"
    using assms(2,3) by (auto simp: rdma_command_def i same_ledger_def split: if_splits option.splits)
  with assms(4) same_ledger_phase [OF st'(2)] show ?thesis by (simp add: ks' phase_tick)
qed

lemma plain_step:
  assumes "\<not> object_command cmd" and "\<And>out res res'. keep out res = Some res' \<Longrightarrow> same_ledger res' res"
  shows "triple (phase E tid tok seg imp dsqe) (\<lambda>st. rdma_command os cmd (block st) (priv st) keep st) (phase E tid tok seg imp dsqe) (holds E)"
proof (rule tripleI)
  fix st ok st'
  assume p: "phase E tid tok seg imp dsqe st" and f: "rdma_command os cmd (block st) (priv st) keep st = (ok, st')"
  have "phase E tid tok seg imp dsqe st'" by (rule plain_command [OF assms(1) _ f p]) (rule assms(2))
  then show "if ok then phase E tid tok seg imp dsqe st' else holds E st'" by (simp add: phase_holds)
qed

lemmas plain_numbers = object_command_def tlv_commands UBURMA_CMD_QUERY_DEV_ATTR_def UBURMA_CMD_CREATE_CTX_def UBURMA_CMD_GET_EID_LIST_def
  UBURMA_CMD_ALLOC_JFC_def UBURMA_CMD_ACTIVE_JFC_def UBURMA_CMD_ALLOC_JFR_def UBURMA_CMD_ACTIVE_JFR_def UBURMA_CMD_ALLOC_JFS_def
  UBURMA_CMD_ACTIVE_JFS_def UBURMA_CMD_ALLOC_JETTY_def UBURMA_CMD_ACTIVE_JETTY_def UBURMA_CMD_BIND_JETTY_def UBURMA_CMD_UNBIND_JETTY_def

text \<open>The steps one by one.\<close>

lemma query_device_triple: "triple (phase E tid tok seg imp dsqe) (step_query_device os dev_name) (phase E tid tok seg imp dsqe) (holds E)"
proof (cases "copy_dev_name 64 dev_name")
  case None
  then show ?thesis by (auto simp: step_query_device_def triple_def phase_holds)
next
  case (Some name)
  then have "step_query_device os dev_name =
      (\<lambda>st. rdma_command os UBURMA_CMD_QUERY_DEV_ATTR (fields_block uburma_cmd_query_device_attr [([''in'', ''dev_name''], name)]) []
        (\<lambda>out res. Some res) st)"
    by (simp add: step_query_device_def fun_eq_iff)
  then show ?thesis by (simp only:) (rule plain_step, auto simp: same_ledger_def plain_numbers)
qed

lemma create_ctx_triple: "triple (phase E tid tok seg imp dsqe) (step_create_ctx os) (phase E tid tok seg imp dsqe) (holds E)"
proof (rule tripleI)
  fix st ok st'
  assume p: "phase E tid tok seg imp dsqe st" and f: "step_create_ctx os st = (ok, st')"
  obtain eid ks where e: "read_eid_from_uburma os (snd st) = (eid, ks)" by fastforce
  then have "ks = ks_tick (snd st)"
    by (auto simp: read_eid_from_uburma_def plain_numbers split: prod.splits dest!: plain_ioctl)
  with p have p': "phase E tid tok seg imp dsqe (fst st, ks)" by (simp add: phase_tick)
  have "phase E tid tok seg imp dsqe st'"
    by (rule plain_command [OF _ _ f [unfolded step_create_ctx_def e prod.case] p']) (auto simp: plain_numbers same_ledger_def)
  then show "if ok then phase E tid tok seg imp dsqe st' else holds E st'" by (simp add: phase_holds)
qed

lemma alloc_tid_triple: "triple (phase E False tok seg imp dsqe) (alloc_ummu_tid os) (phase E True tok seg imp dsqe) (holds E)"
proof (rule tripleI)
  fix st ok st'
  assume p: "phase E False tok seg imp dsqe st" and f: "alloc_ummu_tid os st = (ok, st')"
  show "if ok then phase E True tok seg imp dsqe st' else holds E st'"
  proof (cases "rk_alloc_tid os (snd st)")
    case (Inl e)
    with f p show ?thesis by (auto simp: alloc_ummu_tid_def holds_tick phase_holds)
  next
    case (Inr tid)
    with f have "ok" "st' = ((fst st)\<lparr>res_ummu_tid := tid, res_ummu_tid_allocated := True\<rparr>,
        ks_tick ((snd st)\<lparr>ks_tids := insert tid (ks_tids (snd st))\<rparr>))" by (simp_all add: alloc_ummu_tid_def)
    with p show ?thesis by (simp add: phase_def holds_def objs_held_defs bufs_held_def) blast
  qed
qed

lemmas plain_steps = step_alloc_jfc_def step_active_jfc_def step_alloc_jfr_def step_active_jfr_def step_alloc_jetty_def
  step_active_jetty_def step_bind_jetty_def step_unbind_jetty_def

lemma plain_triples:
  "triple (phase E tid tok seg imp dsqe) (step_alloc_jfc os) (phase E tid tok seg imp dsqe) (holds E)"
  "triple (phase E tid tok seg imp dsqe) (step_active_jfc os) (phase E tid tok seg imp dsqe) (holds E)"
  "triple (phase E tid tok seg imp dsqe) (step_alloc_jfr os) (phase E tid tok seg imp dsqe) (holds E)"
  "triple (phase E tid tok seg imp dsqe) (step_active_jfr os) (phase E tid tok seg imp dsqe) (holds E)"
  "triple (phase E tid tok seg imp dsqe) (step_alloc_jetty os) (phase E tid tok seg imp dsqe) (holds E)"
  "triple (phase E tid tok seg imp dsqe) (step_active_jetty os) (phase E tid tok seg imp dsqe) (holds E)"
  "triple (phase E tid tok seg imp dsqe) (step_bind_jetty os) (phase E tid tok seg imp dsqe) (holds E)"
  "triple (phase E tid tok seg imp dsqe) (step_unbind_jetty os) (phase E tid tok seg imp dsqe) (holds E)"
  unfolding plain_steps by (rule plain_step; auto simp: plain_numbers same_ledger_def split: if_splits)+

text \<open>The commands that change what is held.\<close>

lemma command_ok:
  assumes "rdma_command os cmd block priv keep st = (ok, st')" and "cmd \<noteq> UBURMA_CMD_FREE_TOKEN_ID \<and> cmd \<noteq> UBURMA_CMD_UNREGISTER_SEG"
  obtains out where "ok" "keep out (fst st) = Some (fst st')" "snd st' = ks_tick (ks_objects cmd block out (snd st))"
  | "\<not> ok" "fst st' = fst st" "snd st' = ks_tick (snd st)"
  | out where "\<not> ok" "keep out (fst st) = None" "fst st' = fst st" "snd st' = ks_tick (ks_objects cmd block out (snd st))"
proof -
  obtain ret out ks' where i: "rdma_ioctl os cmd block priv (snd st) = (ret, out, ks')" by (metis prod_cases3)
  show thesis
  proof (cases "ret < 0")
    case True
    with i rdma_ioctl_cases(1) [OF i] assms show thesis by (intro that(2)) (auto simp: rdma_command_def refused_other)
  next
    case False
    with i rdma_ioctl_cases(1) [OF i] assms show thesis
      by (cases "keep out (fst st)") (auto simp: rdma_command_def intro: that)
  qed
qed

lemma alloc_token_triple: "triple (phase E tid False seg imp dsqe) (step_alloc_token os) (phase E tid True seg imp dsqe) (holds E)"
proof (rule tripleI)
  fix st ok st'
  assume p: "phase E tid False seg imp dsqe st" and f: "step_alloc_token os st = (ok, st')"
  have o: "ks_objects UBURMA_CMD_ALLOC_TOKEN_ID block out ks =
      ks\<lparr>ks_tokens := ks_tokens ks \<union> ({get_u64 uburma_cmd_alloc_token_id [''out'', ''handle''] out} - {0})\<rparr>" for block out ks
    by (simp add: ks_objects_def)
  have c: "cmd \<noteq> UBURMA_CMD_FREE_TOKEN_ID \<and> cmd \<noteq> UBURMA_CMD_UNREGISTER_SEG" if "cmd = UBURMA_CMD_ALLOC_TOKEN_ID" for cmd
    using that by (simp add: tlv_commands)
  from f [unfolded step_alloc_token_def] c [OF refl] show "if ok then phase E tid True seg imp dsqe st' else holds E st'"
  proof (cases rule: command_ok)
    case (1 out)
    define h where "h = get_u64 uburma_cmd_alloc_token_id [''out'', ''handle''] out"
    have "h \<noteq> 0" "fst st' = (fst st)\<lparr>res_token_id := get_u32 uburma_cmd_alloc_token_id [''out'', ''token_id''] out, res_token_id_handle := h\<rparr>"
      using 1 by (simp_all add: h_def split: if_splits)
    moreover have "snd st' = ks_tick ((snd st)\<lparr>ks_tokens := ks_tokens (snd st) \<union> ({h} - {0})\<rparr>)" using 1 by (simp add: o h_def)
    ultimately show ?thesis using p 1(1) by (simp add: phase_def holds_def objs_held_defs bufs_held_def) blast
  next
    case 2
    with p show ?thesis by (cases st') (simp add: holds_tick phase_holds)
  next
    case (3 out)
    then have "snd st' = ks_tick (snd st)" by (simp add: o split: if_splits)
    with p 3 show ?thesis by (cases st') (simp add: holds_tick phase_holds)
  qed
qed

lemma register_seg_triple: "triple (phase E tid tok False imp dsqe) (step_register_seg os) (phase E tid tok True imp dsqe) (holds E)"
proof (rule tripleI)
  fix st ok st'
  assume p: "phase E tid tok False imp dsqe st" and f: "step_register_seg os st = (ok, st')"
  have c: "cmd \<noteq> UBURMA_CMD_FREE_TOKEN_ID \<and> cmd \<noteq> UBURMA_CMD_UNREGISTER_SEG" if "cmd = UBURMA_CMD_REGISTER_SEG" for cmd
    using that by (simp add: tlv_commands)
  from f [unfolded step_register_seg_def] c [OF refl] show "if ok then phase E tid tok True imp dsqe st' else holds E st'"
  proof (cases rule: command_ok)
    case (1 out)
    define h where "h = get_u64 uburma_cmd_register_seg [''out'', ''handle''] out"
    have "fst st' = (fst st)\<lparr>res_token_id := get_u32 uburma_cmd_register_seg [''out'', ''token_id''] out, res_seg_handle := h,
        res_seg_registered := True\<rparr>" "snd st' = ks_tick ((snd st)\<lparr>ks_segs := insert h (ks_segs (snd st))\<rparr>)"
      using 1 by (simp_all add: h_def ks_objects_def tlv_commands)
    then show ?thesis using p 1(1) by (simp add: phase_def holds_def objs_held_defs bufs_held_def) blast
  next
    case 2
    with p show ?thesis by (cases st') (simp add: holds_tick phase_holds)
  qed simp
qed

lemma import_jetty_triple: "triple (phase E tid tok seg False dsqe) (step_import_jetty os remote) (phase E tid tok seg True dsqe) (holds E)"
proof (rule tripleI)
  fix st ok st'
  assume p: "phase E tid tok seg False dsqe st" and f: "step_import_jetty os remote st = (ok, st')"
  have c: "cmd \<noteq> UBURMA_CMD_FREE_TOKEN_ID \<and> cmd \<noteq> UBURMA_CMD_UNREGISTER_SEG" if "cmd = UBURMA_CMD_IMPORT_JETTY" for cmd
    using that by (simp add: tlv_commands)
  from f [unfolded step_import_jetty_def] c [OF refl] show "if ok then phase E tid tok seg True dsqe st' else holds E st'"
  proof (cases rule: command_ok)
    case (1 out)
    define h where "h = get_u64 uburma_cmd_import_jetty [''out'', ''handle''] out"
    have "fst st' = (fst st)\<lparr>res_tjetty_handle := h, res_tjetty_imported := True\<rparr>"
      "snd st' = ks_tick ((snd st)\<lparr>ks_tjettys := insert h (ks_tjettys (snd st))\<rparr>)"
      using 1 by (simp_all add: h_def ks_objects_def tlv_commands)
    then show ?thesis using p 1(1) by (simp add: phase_def holds_def objs_held_defs bufs_held_def) blast
  next
    case 2
    with p show ?thesis by (cases st') (simp add: holds_tick phase_holds)
  qed simp
qed

lemma unimport_attempts_triple:
  "triple (phase E tid tok seg True dsqe) (unimport_attempts os n) (phase E tid tok seg False dsqe) (holds E)"
proof (induction n)
  case 0
  then show ?case by (simp add: triple_def phase_holds)
next
  case (Suc n)
  show ?case
  proof (rule tripleI)
    fix st ok st'
    assume p: "phase E tid tok seg True dsqe st" and f: "unimport_attempts os (Suc n) st = (ok, st')"
    let ?b = "fields_block uburma_cmd_unimport_jetty_local [([''in'', ''handle''], le64 (res_tjetty_handle (fst st)))]"
    obtain ret out ks' where i: "rdma_ioctl os UBURMA_CMD_UNIMPORT_JETTY ?b [] (snd st) = (ret, out, ks')" by (metis prod_cases3)
    show "if ok then phase E tid tok seg False dsqe st' else holds E st'"
    proof (cases "ret = 0")
      case True
      with rdma_ioctl_cases(1) [OF i] have "ks' = ks_tick (ks_objects UBURMA_CMD_UNIMPORT_JETTY ?b out (snd st))" by simp
      moreover have "ks_objects UBURMA_CMD_UNIMPORT_JETTY ?b out (snd st) = (snd st)\<lparr>ks_tjettys := ks_tjettys (snd st) - {res_tjetty_handle (fst st)}\<rparr>"
        unfolding ks_objects_def handle_sent by (simp add: tlv_commands)
      ultimately have "ok" "st' = ((fst st)\<lparr>res_tjetty_imported := False\<rparr>, ks_tick ((snd st)\<lparr>ks_tjettys := ks_tjettys (snd st) - {res_tjetty_handle (fst st)}\<rparr>))"
        using f i True by simp_all
      with p show ?thesis by (simp add: phase_def holds_def objs_held_defs bufs_held_def) blast
    next
      case False
      with rdma_ioctl_cases(1) [OF i] have "ks' = ks_tick (snd st)"
        by (simp add: ks_refused_def UBURMA_CMD_UNIMPORT_JETTY_def UBURMA_CMD_FREE_TOKEN_ID_def UBURMA_CMD_UNREGISTER_SEG_def)
      with p have p': "phase E tid tok seg True dsqe (fst st, ks')" by (simp add: phase_tick)
      show ?thesis
      proof (cases "ret \<noteq> - EBUSY \<and> ret \<noteq> - EAGAIN")
        case True
        with f i False p' show ?thesis by (auto simp: phase_holds)
      next
        case busy: False
        with f i False have "unimport_attempts os n (fst st, ks') = (ok, st')" by auto
        from tripleD [OF Suc.IH p' this] show ?thesis .
      qed
    qed
  qed
qed

text \<open>Buffers.\<close>

lemma phase_set_buf:
  "phase E tid tok seg imp dsqe (set_buf n b res, ks) \<longleftrightarrow>
     bufs_held ((res_buf res)(n := b)) ks \<and> objs_held E res ks \<and> 0 \<le> res_fd res \<and> 0 \<le> res_ummu_fd res \<and>
     res_ummu_tid_allocated res = tid \<and> (res_token_id_handle res \<noteq> 0) = tok \<and> res_seg_registered res = seg \<and>
     res_tjetty_imported res = imp \<and> b_mmap (((res_buf res)(n := b)) Jetty_dsqe_page) = dsqe"
  by (simp add: phase_def holds_def objs_held_bufs) (auto simp: set_buf_def)

lemma ensure_heap_triple:
  assumes "rdma_os_ok os" and "n \<noteq> Jetty_dsqe_page"
  shows "triple (phase E tid tok seg imp False) (ensure_heap os n len) (phase E tid tok seg imp False) (holds E)"
proof (rule tripleI)
  fix st ok st'
  assume p: "phase E tid tok seg imp False st" and f: "ensure_heap os n len st = (ok, st')"
  obtain res ks where st: "st = (res, ks)" by (cases st)
  have h: "bufs_held (res_buf res) ks" "objs_held E res ks" "\<not> b_mmap (res_buf res Jetty_dsqe_page)"
    using p by (auto simp: st phase_def holds_def)
  show "if ok then phase E tid tok seg imp False st' else holds E st'"
  proof (cases "b_ptr (res_buf res n) = 0")
    case False
    with f p show ?thesis by (auto simp: st ensure_heap_def)
  next
    case True
    then have o: "\<not> owns (res_buf res) n" by (simp add: owns_def)
    show ?thesis
    proof (cases "rk_memalign os ks DEMO_PAGE_SIZE")
      case None
      have e: "(res_buf res n)\<lparr>b_ptr := 0\<rparr> = res_buf res n" using True by simp
      from f True None have "\<not> ok" "st' = (set_buf n (res_buf res n) res, ks_tick ks)"
        by (auto simp: st ensure_heap_def alloc_aligned_zero_def e)
      with p show ?thesis by (simp add: st set_buf_def holds_tick phase_holds)
    next
      case (Some a)
      note a = os_okD(4) [OF assms(1) Some]
      with f True Some have "ok" "st' = (set_buf n \<lparr>b_ptr = a, b_len = len, b_mmap = False\<rparr> res, ks_tick (ks\<lparr>ks_heap := insert a (ks_heap ks)\<rparr>))"
        by (auto simp: st ensure_heap_def alloc_aligned_zero_def)
      moreover have "bufs_held ((res_buf res)(n := \<lparr>b_ptr = a, b_len = len, b_mmap = False\<rparr>)) (ks_tick (ks\<lparr>ks_heap := insert a (ks_heap ks)\<rparr>))"
        using add_buf [OF h(1) o, of False a len] h(3) a assms(2) by simp
      ultimately show ?thesis using p assms(2) by (simp add: phase_set_buf objs_held_ks) (simp add: st phase_def holds_def)
    qed
  qed
qed

lemma ensure_map_triple:
  assumes "rdma_os_ok os" and "\<not> never_mapped n" and "n \<noteq> Jetty_dsqe_page"
  shows "triple (phase E tid tok seg imp False) (ensure_map os n) (phase E tid tok seg imp False) (holds E)"
proof (rule tripleI)
  fix st ok st'
  assume p: "phase E tid tok seg imp False st" and f: "ensure_map os n st = (ok, st')"
  obtain res ks where st: "st = (res, ks)" by (cases st)
  have h: "bufs_held (res_buf res) ks" "objs_held E res ks" using p by (auto simp: st phase_def holds_def)
  show "if ok then phase E tid tok seg imp False st' else holds E st'"
  proof (cases "b_ptr (res_buf res n) = 0")
    case False
    with f p show ?thesis by (auto simp: st ensure_map_def)
  next
    case True
    then have o: "\<not> owns (res_buf res) n" by (simp add: owns_def)
    define m where "m = rk_mmap os ks (res_fd res) DEMO_PAGE_SIZE (UDMA_MMAP_KERNEL_BUF * of_nat DEMO_PAGE_SIZE)"
    show ?thesis
    proof (cases m)
      case None
      have e: "(res_buf res n)\<lparr>b_ptr := 0\<rparr> = res_buf res n" using True by simp
      from f True None have "\<not> ok" "st' = (set_buf n (res_buf res n) res, ks_tick ks)"
        by (auto simp: st m_def ensure_map_def map_udma_kernel_buf_def rdma_mmap_def e)
      with p show ?thesis by (simp add: st set_buf_def holds_tick phase_holds)
    next
      case (Some a)
      note a = os_okD(3) [OF assms(1) Some [unfolded m_def]]
      with f True Some have "ok" "st' = (set_buf n \<lparr>b_ptr = a, b_len = DEMO_PAGE_SIZE, b_mmap = True\<rparr> res,
          ks_tick (ks\<lparr>ks_maps := (ks_maps ks)(a \<mapsto> DEMO_PAGE_SIZE)\<rparr>))"
        by (auto simp: st m_def ensure_map_def map_udma_kernel_buf_def rdma_mmap_def)
      moreover have "bufs_held ((res_buf res)(n := \<lparr>b_ptr = a, b_len = DEMO_PAGE_SIZE, b_mmap = True\<rparr>))
          (ks_tick (ks\<lparr>ks_maps := (ks_maps ks)(a \<mapsto> DEMO_PAGE_SIZE)\<rparr>))"
        using add_buf [OF h(1) o, of True a DEMO_PAGE_SIZE] a assms(2,3) by (auto simp: never_mapped_def)
      ultimately show ?thesis using p assms(3) by (simp add: phase_set_buf objs_held_ks) (simp add: st phase_def holds_def)
    qed
  qed
qed

lemma ensure_buffers_triple:
  assumes "rdma_os_ok os"
  shows "triple (phase E tid tok seg imp False) (ensure_runtime_buffers os) (phase E tid tok seg imp False) (holds E)"
  unfolding ensure_runtime_buffers_def
  by (rule triple_Cons triple_Nil ensure_heap_triple ensure_map_triple assms | simp add: never_mapped_def)+

lemma map_doorbell_triple:
  assumes "rdma_os_ok os"
  shows "triple (phase E tid tok seg imp False) (step_map_doorbell os) (phase E tid tok seg imp True) (holds E)"
proof (rule tripleI)
  fix st ok st'
  assume p: "phase E tid tok seg imp False st" and f: "step_map_doorbell os st = (ok, st')"
  obtain res ks where r: "free_ptr Jetty_db_buf st = (res, ks)" by fastforce
  have q: "b_ptr (res_buf res Jetty_db_buf) = 0" "\<not> b_mmap (res_buf res Jetty_dsqe_page)"
    using release_effects(1) [of Jetty_db_buf st] p by (simp_all add: r phase_def)
  have hr: "holds E (res, ks)" using free_ptr_holds [of E st Jetty_db_buf] p by (simp add: r phase_def never_mapped_def)
  then have h: "bufs_held (res_buf res) ks" "objs_held E res ks" by (simp_all add: holds_def)
  have pr: "0 \<le> res_fd res \<and> 0 \<le> res_ummu_fd res \<and> res_ummu_tid_allocated res = tid \<and> (res_token_id_handle res \<noteq> 0) = tok \<and>
      res_seg_registered res = seg \<and> res_tjetty_imported res = imp"
    using p r by (cases st) (auto simp: free_ptr_def set_buf_def phase_def Let_def split: if_splits)
  have z: "b_ptr (res_buf res Jetty_dsqe_page) = 0" using held_parts(8) [OF h(1)] q(2) by blast
  then have o: "\<not> owns (res_buf res) Jetty_dsqe_page" by (simp add: owns_def)
  define m where "m = rk_mmap os ks (res_fd res) DEMO_PAGE_SIZE
      ((push_bit MAP_INDEX_SHIFT_LOCAL (ucast (res_local_hw_jetty_id res)) OR UDMA_MMAP_JETTY_DSQE_LOCAL) * of_nat DEMO_PAGE_SIZE)"
  show "if ok then phase E tid tok seg imp True st' else holds E st'"
  proof (cases m)
    case None
    have "(res_buf res Jetty_dsqe_page)\<lparr>b_ptr := 0\<rparr> = res_buf res Jetty_dsqe_page" using z by simp
    with f None have "\<not> ok" "st' = (set_buf Jetty_dsqe_page (res_buf res Jetty_dsqe_page) res, ks_tick ks)"
      by (auto simp: r m_def step_map_doorbell_def map_udma_jetty_dsqe_page_def rdma_mmap_def)
    with hr show ?thesis by (simp add: set_buf_def holds_tick)
  next
    case (Some a)
    note a = os_okD(3) [OF assms(1) Some [unfolded m_def]]
    let ?page = "\<lparr>b_ptr = a, b_len = DEMO_PAGE_SIZE, b_mmap = True\<rparr>" and ?db = "(res_buf res Jetty_db_buf)\<lparr>b_ptr := a + UDMA_DOORBELL_OFFSET_LOCAL\<rparr>"
    let ?ks = "ks_tick (ks\<lparr>ks_maps := (ks_maps ks)(a \<mapsto> DEMO_PAGE_SIZE)\<rparr>)"
    have e: "ok" "st' = (set_buf Jetty_db_buf ?db (set_buf Jetty_dsqe_page ?page res), ?ks)"
      using f Some a by (auto simp: r m_def step_map_doorbell_def map_udma_jetty_dsqe_page_def rdma_mmap_def)
    have b: "bufs_held ((res_buf res)(Jetty_dsqe_page := ?page)) ?ks"
      using add_buf [OF h(1) o, of True a DEMO_PAGE_SIZE] a q(1) by (simp add: never_mapped_def)
    have "bufs_held (((res_buf res)(Jetty_dsqe_page := ?page))(Jetty_db_buf := ?db)) ?ks"
      by (rule change_unowned [OF b]) (use held_parts(7) [OF h(1), of Jetty_db_buf] in \<open>simp_all add: owns_def never_mapped_def\<close>)
    then have "phase E tid tok seg imp True st'"
      unfolding e(2) phase_set_buf using h(2) pr by (simp add: objs_held_bufs objs_held_ks) (simp add: set_buf_def)
    with e(1) show ?thesis by simp
  qed
qed

declare jfs_probe.simps [simp del]

lemma jfs_probe_phase: "phase E tid tok seg imp dsqe st \<Longrightarrow> phase E tid tok seg imp dsqe (jfs_probe os modes st)"
proof (induction modes arbitrary: st)
  case (Cons mode modes)
  let ?alloc = "rdma_command os UBURMA_CMD_ALLOC_JFS (fields_block uburma_cmd_alloc_jfs (alloc_jfs_fields mode (fst st))) []
      (\<lambda>out res. if get_u64 uburma_cmd_alloc_jfs [''out'', ''handle''] out = 0 then None
                 else Some (res\<lparr>res_jfs_id := get_u32 uburma_cmd_alloc_jfs [''out'', ''id''] out,
                                res_jfs_handle := get_u64 uburma_cmd_alloc_jfs [''out'', ''handle''] out, res_jfs_alloc := True\<rparr>)) st"
  obtain ok1 st1 where a: "?alloc = (ok1, st1)" by (rule prod.exhaust)
  have p1: "phase E tid tok seg imp dsqe st1"
    by (rule plain_command [OF _ _ a Cons.prems]) (auto simp: plain_numbers same_ledger_def split: if_splits)
  let ?active = "rdma_command os UBURMA_CMD_ACTIVE_JFS (fields_block uburma_cmd_active_jfs (active_jfs_fields os mode (fst st1)))
      [(rk_addr os ''ucmd'', fields_block udma_create_jetty_ucmd_compat (send_ucmd (buf_at (fst st1) Jfs_buf) (buf_at (fst st1) Jfs_db_buf))),
       (rk_addr os ''jfs_opt_blob'', replicate 256 0)] (\<lambda>out res. Some res) st1"
  obtain ok2 res2 ks2 where b: "?active = (ok2, res2, ks2)" by (metis prod_cases3)
  have p2: "phase E tid tok seg imp dsqe (res2, ks2)"
    by (rule plain_command [OF _ _ b p1]) (auto simp: plain_numbers same_ledger_def)
  have p3: "phase E tid tok seg imp dsqe (res2\<lparr>res_jfs_alloc := False, res_jfs_id := 0, res_jfs_handle := 0\<rparr>, ks2)"
    using p2 same_ledger_phase [of "res2\<lparr>res_jfs_alloc := False, res_jfs_id := 0, res_jfs_handle := 0\<rparr>" res2] by (simp add: same_ledger_def)
  show ?case
    using Cons.IH [OF p1] Cons.IH [OF p3] p2 by (cases ok1; cases ok2) (simp_all only: jfs_probe.simps a b prod.case bool.case)
qed (simp add: jfs_probe.simps)

lemma setup_triple:
  assumes "rdma_os_ok os"
  shows "triple (phase E False False False False False) (rdma_setup os dev_name probe) (phase E True True True False True) (holds E)"
proof -
  have j: "triple (phase E True True False False False) (step_jfs_probe os probe) (phase E True True False False False) (holds E)"
    by (auto simp: triple_def step_jfs_probe_def jfs_probe_phase)
  show ?thesis
    unfolding rdma_setup_def
    by (rule j triple_Cons triple_Nil query_device_triple create_ctx_triple alloc_tid_triple alloc_token_triple
        ensure_buffers_triple [OF assms] plain_triples map_doorbell_triple [OF assms] register_seg_triple | assumption)+
qed

end
