(* ===== verification/RDMA_Net.thy ===== *)
theory RDMA_Net
  imports RDMA_Steps RPC_Config
begin

text \<open>
  What the RDMA demo says over UDP (\<^verbatim>\<open>ub_rdma_demo.c\<close>): roles and addresses, the start-up
  synchronisation, the exchange of peer information, the readiness of the data path, and the round trip of a payload
  over the queues. Sockets and clock are sequences of what the calls return.
\<close>

section \<open>Roles and addresses\<close>

datatype rdma_role = RDMA_ROLE_UNKNOWN | RDMA_ROLE_INITIATOR | RDMA_ROLE_RESPONDER

definition parse_rdma_role :: "string \<Rightarrow> rdma_role" where
  "parse_rdma_role role =
     (if role = ''initiator'' \<or> role = ''nodeA'' then RDMA_ROLE_INITIATOR
      else if role = ''responder'' \<or> role = ''nodeB'' then RDMA_ROLE_RESPONDER
      else RDMA_ROLE_UNKNOWN)"

definition role_default_ipv4_pair :: "string \<Rightarrow> nat \<Rightarrow> nat \<Rightarrow> (string \<times> string) option" where
  "role_default_ipv4_pair role local_len peer_len =
     (if role = ''initiator'' \<or> role = ''nodeA'' then Some (snprintf_s local_len ''10.0.0.1'', snprintf_s peer_len ''10.0.0.2'')
      else if role = ''responder'' \<or> role = ''nodeB'' then Some (snprintf_s local_len ''10.0.0.2'', snprintf_s peer_len ''10.0.0.1'')
      else None)"

text \<open>The environment comes first, then the kernel command line.\<close>

definition env_or_cmdline :: "host_env \<Rightarrow> string \<Rightarrow> string \<Rightarrow> nat \<Rightarrow> string option" where
  "env_or_cmdline env env_key key len =
     (case getenv env env_key of
        Some v \<Rightarrow> if v \<noteq> [] then Some (snprintf_s len v) else cmdline_get_value env key len
      | None \<Rightarrow> cmdline_get_value env key len)"

definition resolve_ipv4_pair :: "host_env \<Rightarrow> string \<Rightarrow> nat \<Rightarrow> nat \<Rightarrow> (string \<times> string) option" where
  "resolve_ipv4_pair env role local_len peer_len =
     (let have_local = env_or_cmdline env ''LINQU_UB_LOCAL_IP'' ''linqu_ipourma_ipv4'' local_len;
          have_peer = env_or_cmdline env ''LINQU_UB_PEER_IP'' ''linqu_ipourma_peer_ipv4'' peer_len;
          pair = (case (have_local, have_peer) of
                    (Some l, Some p) \<Rightarrow> Some (l, p)
                  | _ \<Rightarrow> (case role_default_ipv4_pair role INET_ADDRSTRLEN INET_ADDRSTRLEN of
                            None \<Rightarrow> None
                          | Some (dl, dp) \<Rightarrow>
                              Some (case have_local of Some l \<Rightarrow> l | None \<Rightarrow> snprintf_s local_len dl,
                                    case have_peer of Some p \<Rightarrow> p | None \<Rightarrow> snprintf_s peer_len dp)))
      in case pair of
           None \<Rightarrow> None
         | Some (l, p) \<Rightarrow> if valid_ipv4 env l \<and> valid_ipv4 env p then Some (l, p) else None)"

definition cmdline_get_bool :: "host_env \<Rightarrow> string \<Rightarrow> bool" where
  "cmdline_get_bool env key =
     (case cmdline_get_value env key 32 of
        None \<Rightarrow> False
      | Some val \<Rightarrow> val = ''1'' \<or> val = ''true'' \<or> val = ''yes'' \<or> val = ''on'')"

section \<open>Datagrams\<close>

definition EPROTO :: int where "EPROTO = 71"

text \<open>An address is host and port. A receive gives a datagram with its sender, or nothing in time, or it is
  interrupted, or fails.\<close>

type_synonym sock_addr = "u32 \<times> u16"

datatype udp_ev = Dgram sock_addr bytes | Again | Interrupted | Recv_error

text \<open>A send takes some of the bytes, is interrupted, or fails; it fails too when the list ends.\<close>

datatype send_ev = Sent nat | Send_interrupted | Send_error

fun udp_send_all :: "bytes \<Rightarrow> send_ev list \<Rightarrow> int \<times> bytes list" where
  "udp_send_all buf [] = (if buf = [] then 0 else - 1, [])"
| "udp_send_all buf (e # es) =
     (if buf = [] then (0, [])
      else case e of
             Send_interrupted \<Rightarrow> udp_send_all buf es
           | Send_error \<Rightarrow> (- 1, [])
           | Sent n \<Rightarrow> (case udp_send_all (drop n buf) es of (ret, ds) \<Rightarrow> (ret, take n buf # ds)))"

text \<open>Datagrams of other senders are dropped; nothing in time is an error.\<close>

fun udp_recv_all :: "nat \<Rightarrow> sock_addr option \<Rightarrow> udp_ev list \<Rightarrow> (int \<times> bytes) \<times> udp_ev list" where
  "udp_recv_all remaining src [] = ((if remaining = 0 then 0 else - 1, []), [])"
| "udp_recv_all remaining src (e # es) =
     (if remaining = 0 then ((0, []), e # es)
      else case e of
             Interrupted \<Rightarrow> udp_recv_all remaining src es
           | Again \<Rightarrow> ((- 1, []), es)
           | Recv_error \<Rightarrow> ((- 1, []), es)
           | Dgram from d \<Rightarrow>
               if src \<noteq> None \<and> src \<noteq> Some from then udp_recv_all remaining src es
               else case udp_recv_all (remaining - length (take remaining d)) src es of
                      ((ret, later), rest) \<Rightarrow> ((ret, take remaining d @ later), rest))"

section \<open>Start-up synchronisation\<close>

text \<open>A text is looked for at the start of a datagram, or two bytes further on.\<close>

definition sync_matches :: "string \<Rightarrow> bytes \<Rightarrow> bool" where
  "sync_matches text d =
     (let buf = take 63 d
      in take 13 buf = str_bytes text \<or> 15 \<le> length buf \<and> take 13 (drop 2 buf) = str_bytes text)"

fun sync_wait :: "string \<Rightarrow> udp_ev list \<Rightarrow> sock_addr option" where
  "sync_wait text [] = None"
| "sync_wait text (e # es) =
     (case e of
        Again \<Rightarrow> sync_wait text es
      | Interrupted \<Rightarrow> None
      | Recv_error \<Rightarrow> None
      | Dgram from d \<Rightarrow> if sync_matches text d then Some from else sync_wait text es)"

text \<open>Result and what was sent to whom. The initiator asks once and waits; the responder answers the first
  question, to whoever asked.\<close>

definition do_startup_sync :: "rdma_role \<Rightarrow> sock_addr \<Rightarrow> send_ev list \<Rightarrow> udp_ev list \<Rightarrow> int \<times> (sock_addr \<times> bytes) list" where
  "do_startup_sync role peer_addr sends recvs =
     (if role = RDMA_ROLE_INITIATOR then
        case udp_send_all (str_bytes ''RDMA_SYNC_REQ'') sends of
          (ret, ds) \<Rightarrow>
            if ret < 0 then (- 1, map (Pair peer_addr) ds)
            else (case sync_wait ''RDMA_SYNC_ACK'' recvs of None \<Rightarrow> - 1 | Some _ \<Rightarrow> 0, map (Pair peer_addr) ds)
      else
        case sync_wait ''RDMA_SYNC_REQ'' recvs of
          None \<Rightarrow> (- 1, [])
        | Some src \<Rightarrow>
            (case udp_send_all (str_bytes ''RDMA_SYNC_ACK'') sends of
               (ret, ds) \<Rightarrow> (if ret < 0 then - 1 else 0, map (Pair src) ds)))"

section \<open>Peer information\<close>

definition peer_info_bytes :: "peer_info \<Rightarrow> bytes" where
  "peer_info_bytes i = pi_eid i @ le32 (pi_jetty_id i) @ le32 (pi_token i)"

definition peer_info_of :: "bytes \<Rightarrow> peer_info" where
  "peer_info_of b = \<lparr>pi_eid = take 16 b, pi_jetty_id = of_le (bytes_at 16 4 b), pi_token = of_le (bytes_at 20 4 b)\<rparr>"

definition exchange_peer_info :: "rdma_role \<Rightarrow> sock_addr \<Rightarrow> peer_info \<Rightarrow> send_ev list \<Rightarrow> udp_ev list \<Rightarrow> peer_info option \<times> bytes list" where
  "exchange_peer_info role peer_addr local sends recvs =
     (if role = RDMA_ROLE_INITIATOR then
        case udp_send_all (peer_info_bytes local) sends of
          (ret, ds) \<Rightarrow>
            if ret < 0 then (None, ds)
            else (case udp_recv_all 24 (Some peer_addr) recvs of ((r, b), _) \<Rightarrow> if r < 0 then None else Some (peer_info_of b), ds)
      else
        case udp_recv_all 24 (Some peer_addr) recvs of
          ((r, b), _) \<Rightarrow>
            if r < 0 then (None, [])
            else (case udp_send_all (peer_info_bytes local) sends of
                    (ret, ds) \<Rightarrow> (if ret < 0 then None else Some (peer_info_of b), ds)))"

section \<open>Data path\<close>

text \<open>A text with its terminator, and a buffer read as a text.\<close>

definition msg_bytes :: "string \<Rightarrow> bytes" where
  "msg_bytes s = str_bytes s @ [0]"

definition holds_text :: "bytes \<Rightarrow> string \<Rightarrow> bool" where
  "holds_text buf s \<longleftrightarrow> takeWhile (\<lambda>b. b \<noteq> 0) buf = str_bytes s"

text \<open>One datagram each way, unlike above without repetition; anything else that arrives is an error.\<close>

definition recv_exactly :: "bytes \<Rightarrow> udp_ev list \<Rightarrow> int" where
  "recv_exactly msg recvs =
     (case recvs of Dgram _ d # _ \<Rightarrow> if take 64 d = msg then 0 else - EPROTO | _ \<Rightarrow> - EIO)"

definition sync_datapath_ready :: "rdma_role \<Rightarrow> bool \<Rightarrow> udp_ev list \<Rightarrow> int \<times> bytes list" where
  "sync_datapath_ready role send_ok recvs =
     (if role = RDMA_ROLE_INITIATOR then
        if \<not> send_ok then (- EIO, [])
        else (recv_exactly (msg_bytes ''RDMA_DEMO_READY_ACK'') recvs, [msg_bytes ''RDMA_DEMO_READY''])
      else
        let ret = recv_exactly (msg_bytes ''RDMA_DEMO_READY'') recvs
        in if ret < 0 then (ret, [])
           else if \<not> send_ok then (- EIO, [])
           else (0, [msg_bytes ''RDMA_DEMO_READY_ACK'']))"

definition req_msg :: string where "req_msg = ''rdma request payload from initiator''"
definition reply_msg :: string where "reply_msg = ''rdma reply payload from responder''"

text \<open>What is seen on the way: the datagrams, the looks at the completion ring in the two waits, and the receive
  buffer when it is read.\<close>

record payload_env =
  pe_send_ok :: bool
  pe_recvs :: "udp_ev list"
  pe_first :: "bytes list list"
  pe_second :: "bytes list list"
  pe_rx :: bytes

definition payload_initiator :: "rdma_queues \<Rightarrow> u64 \<Rightarrow> payload_env \<Rightarrow> bool \<times> rdma_queues" where
  "payload_initiator q seg env =
     (case rdma_post_send_one q seg (of_nat (length (msg_bytes req_msg))) of
        (ret, q1) \<Rightarrow>
          if ret < 0 then (False, q1)
          else case rdma_wait_for_cqe q1 CQE_FOR_SEND_LOCAL (pe_first env) of
                 (ret2, _, q2) \<Rightarrow>
                   if ret2 < 0 then (False, q2)
                   else case rdma_wait_for_cqe q2 CQE_FOR_RECEIVE_LOCAL (pe_second env) of
                          (ret3, _, q3) \<Rightarrow> (\<not> ret3 < 0 \<and> holds_text (pe_rx env) reply_msg, q3))"

definition payload_responder :: "rdma_queues \<Rightarrow> u64 \<Rightarrow> payload_env \<Rightarrow> bool \<times> rdma_queues" where
  "payload_responder q seg env =
     (case rdma_wait_for_cqe q CQE_FOR_RECEIVE_LOCAL (pe_first env) of
        (ret, _, q1) \<Rightarrow>
          if ret < 0 then (False, q1)
          else if \<not> holds_text (pe_rx env) req_msg then (False, q1)
          else case rdma_post_send_one q1 seg (of_nat (length (msg_bytes reply_msg))) of
                 (ret2, q2) \<Rightarrow>
                   if ret2 < 0 then (False, q2)
                   else case rdma_wait_for_cqe q2 CQE_FOR_SEND_LOCAL (pe_second env) of
                          (ret3, _, q3) \<Rightarrow> (\<not> ret3 < 0, q3))"

definition payload_exchange :: "rdma_role \<Rightarrow> rdma_queues \<Rightarrow> u64 \<Rightarrow> payload_env \<Rightarrow> bool \<times> rdma_queues" where
  "payload_exchange role q seg env =
     (case rdma_post_recv_one q (seg + 2048) RDMA_MAX_PAYLOAD of
        (ret, q1) \<Rightarrow>
          if ret < 0 then (False, q1)
          else if fst (sync_datapath_ready role (pe_send_ok env) (pe_recvs env)) < 0 then (False, q1)
          else if role = RDMA_ROLE_INITIATOR then payload_initiator q1 seg env
          else payload_responder q1 seg env)"

end
