(* ===== verification/RDMA_Main.thy ===== *)
theory RDMA_Main
  imports RDMA_Ledger RDMA_Net
begin

text \<open>
  The RDMA demo as a whole (\<^verbatim>\<open>main\<close> of \<^verbatim>\<open>ub_rdma_demo.c\<close>): set-up, exchange with the
  peer and data path over two sockets, unbinding, clean-up. The theorem at the end says what is given back on
  every path, and what is not.
\<close>

section \<open>The exchange with the peer\<close>

text \<open>What the program meets: the state of the network interface, the device found, and what the sockets and
  the queues show.\<close>

record rdma_input =
  ri_iface_ready :: bool
  ri_has_ip :: bool
  ri_set_ip :: bool
  ri_get_ip :: bool
  ri_device :: "string option"
  ri_tid_device :: string
  ri_peer :: u32
  ri_sync_sends :: "send_ev list"
  ri_sync_recvs :: "udp_ev list"
  ri_info_sends :: "send_ev list"
  ri_info_recvs :: "udp_ev list"
  ri_payload :: payload_env

definition RDMA_PORT :: u16 where "RDMA_PORT = 18558"
definition SYNC_PORT :: u16 where "SYNC_PORT = 18559"

text \<open>A socket that is bound, or none.\<close>

definition open_bound_socket :: "rdma_os \<Rightarrow> rdma_ks \<Rightarrow> int option \<times> rdma_ks" where
  "open_bound_socket os ks =
     (let fd = rk_socket os ks;
          ks1 = ks_got_fd fd ks
      in if fd < 0 then (None, ks1)
         else if \<not> rk_bind os ks1 then (None, ks_close fd (ks_tick ks1))
         else (Some fd, ks_tick ks1))"

text \<open>Steps 8 to 9.5 on the second socket: a failure to import or bind the jetty returns through
  \<^verbatim>\<open>STEP_CHECK\<close>, which does not close the socket; the other failures close it.\<close>

definition rdma_attach :: "rdma_os \<Rightarrow> rdma_role \<Rightarrow> payload_env \<Rightarrow> int \<Rightarrow> peer_info \<Rightarrow> rdma_st \<Rightarrow> bool \<times> rdma_st" where
  "rdma_attach os role env udp_fd remote st =
     (let q = (res_q (fst st))\<lparr>rq_peer_eid := reverse_bytes (pi_eid remote), rq_peer_jetty_id := pi_jetty_id remote\<rparr>
      in case rdma_steps [step_import_jetty os remote, step_bind_jetty os] ((fst st)\<lparr>res_q := q\<rparr>, snd st) of
           (ok, res, ks) \<Rightarrow>
             if \<not> ok then (False, res, ks)
             else case payload_exchange role (res_q res) (buf_at res Seg_buf) env of
                    (fin, q1) \<Rightarrow> (fin, res\<lparr>res_q := q1\<rparr>, ks_close udp_fd ks))"

definition local_info :: "bytes option \<Rightarrow> rdma_resources \<Rightarrow> peer_info" where
  "local_info eid res =
     \<lparr>pi_eid = (case eid of Some e \<Rightarrow> e | None \<Rightarrow> replicate 16 0), pi_jetty_id = res_local_hw_jetty_id res, pi_token = res_token_id res\<rparr>"

definition rdma_exchange :: "rdma_os \<Rightarrow> rdma_role \<Rightarrow> rdma_input \<Rightarrow> rdma_st \<Rightarrow> bool \<times> rdma_st" where
  "rdma_exchange os role inp st =
     (case open_bound_socket os (snd st) of
        (None, ks) \<Rightarrow> (False, fst st, ks)
      | (Some fd, ks) \<Rightarrow>
          if fst (do_startup_sync role (ri_peer inp, SYNC_PORT) (ri_sync_sends inp) (ri_sync_recvs inp)) < 0
          then (False, fst st, ks_close fd ks)
          else (case read_eid_from_uburma os ks of
                  (eid, ks1) \<Rightarrow>
                    (case open_bound_socket os (ks_close fd ks1) of
                       (None, ks2) \<Rightarrow> (False, fst st, ks2)
                     | (Some fd2, ks2) \<Rightarrow>
                         (case exchange_peer_info role (ri_peer inp, RDMA_PORT) (local_info eid (fst st))
                                 (ri_info_sends inp) (ri_info_recvs inp) of
                            (None, _) \<Rightarrow> (False, fst st, ks_close fd2 ks2)
                          | (Some remote, _) \<Rightarrow> rdma_attach os role (ri_payload inp) fd2 remote (fst st, ks2)))))"

section \<open>The program\<close>

definition open_uburma_device :: "rdma_os \<Rightarrow> string \<Rightarrow> rdma_ks \<Rightarrow> int \<times> rdma_ks" where
  "open_uburma_device os dev_name ks =
     (let path = ''/dev/uburma/'' @ dev_name
      in if 256 \<le> length path then (- 1, ks)
         else let fd = rk_open os ks path in (if fd < 0 then - 1 else fd, ks_got_fd fd ks))"

definition open_ummu_tid_device :: "rdma_os \<Rightarrow> string \<Rightarrow> rdma_ks \<Rightarrow> int \<times> rdma_ks" where
  "open_ummu_tid_device os path ks =
     (let fd = rk_open os ks path in (if fd < 0 then - 1 else fd, ks_got_fd fd ks))"

text \<open>Descriptors of the device and of the thread identifiers, then the steps.\<close>

definition rdma_device :: "rdma_os \<Rightarrow> rdma_role \<Rightarrow> bool \<Rightarrow> rdma_input \<Rightarrow> string \<Rightarrow> rdma_ks \<Rightarrow> int \<times> rdma_ks" where
  "rdma_device os role probe inp dev_name ks =
     (case open_uburma_device os dev_name ks of
        (fd, ks1) \<Rightarrow>
          if fd < 0 then (1, ks1)
          else case open_ummu_tid_device os (ri_tid_device inp) ks1 of
                 (ufd, ks2) \<Rightarrow>
                   if ufd < 0 then (1, snd (cleanup_resources os (res_zero\<lparr>res_fd := fd, res_ummu_fd := ufd\<rparr>, ks2)))
                   else case rdma_steps [rdma_setup os dev_name probe, rdma_exchange os role inp, step_unbind_jetty os, step_unimport_jetty os]
                               (res_zero\<lparr>res_fd := fd, res_ummu_fd := ufd\<rparr>, ks2) of
                          (ok, st) \<Rightarrow> (if ok then 0 else 1, snd (cleanup_resources os st)))"

definition rdma_main :: "rdma_os \<Rightarrow> host_env \<Rightarrow> rdma_input \<Rightarrow> rdma_ks \<Rightarrow> int \<times> rdma_ks" where
  "rdma_main os env inp ks =
     (case env_or_cmdline env ''LINQU_UB_ROLE'' ''linqu_urma_dp_role'' 32 of
        None \<Rightarrow> (1, ks)
      | Some role \<Rightarrow>
          if parse_rdma_role role = RDMA_ROLE_UNKNOWN then (1, ks)
          else case resolve_ipv4_pair env role INET_ADDRSTRLEN INET_ADDRSTRLEN of
                 None \<Rightarrow> (1, ks)
               | Some (my_ip, peer_ip) \<Rightarrow>
                   if \<not> ri_iface_ready inp then (1, ks)
                   else if \<not> ri_has_ip inp \<and> \<not> ri_set_ip inp then (1, ks)
                   else if \<not> ri_get_ip inp then (1, ks)
                   else if \<not> valid_ipv4 env peer_ip then (1, ks)
                   else case ri_device inp of
                          None \<Rightarrow> (0, ks)
                        | Some dev_name \<Rightarrow>
                            rdma_device os (parse_rdma_role role) (cmdline_get_bool env ''linqu_rdma_probe_standalone_jfs'') inp
                              (snprintf_s 256 dev_name) ks)"

section \<open>Everything is given back\<close>

text \<open>A new descriptor joins those that are not the program's; closing it undoes that.\<close>

lemma got_fd_phase:
  assumes "phase E tid tok seg imp dsqe (res, ks)" and "0 \<le> fd" and "fd \<notin> ks_fds ks"
  shows "phase (insert fd E) tid tok seg imp dsqe (res, ks_got_fd fd ks)" "fd \<notin> E"
proof -
  have f: "fd \<notin> E" "fd \<noteq> res_fd res" "fd \<noteq> res_ummu_fd res"
    using assms by (auto simp: phase_def holds_def objs_held_defs)
  then show "fd \<notin> E" by simp
  show "phase (insert fd E) tid tok seg imp dsqe (res, ks_got_fd fd ks)"
    using assms(1,2) f by (simp add: phase_def holds_def objs_held_defs bufs_held_def ks_ops) blast
qed

lemma close_phase:
  assumes "phase (insert fd E) tid tok seg imp dsqe (res, ks)" and "fd \<notin> E"
  shows "phase E tid tok seg imp dsqe (res, ks_close fd ks)"
proof -
  have f: "fd \<noteq> res_fd res" "fd \<noteq> res_ummu_fd res"
    using assms by (auto simp: phase_def holds_def objs_held_defs)
  then have "insert fd (E \<union> {f. (f = res_fd res \<or> f = res_ummu_fd res) \<and> 0 \<le> f}) - {fd} =
      E \<union> {f. (f = res_fd res \<or> f = res_ummu_fd res) \<and> 0 \<le> f}" using assms(2) by auto
  with assms show ?thesis by (simp add: phase_def holds_def objs_held_defs bufs_held_def ks_ops) blast
qed

lemma open_bound_socket_phase:
  assumes "rdma_os_ok os" and "phase E tid tok seg imp dsqe (res, ks)" and "open_bound_socket os ks = (sock, ks')"
  shows "sock = None \<Longrightarrow> phase E tid tok seg imp dsqe (res, ks')"
    "sock = Some fd \<Longrightarrow> phase (insert fd E) tid tok seg imp dsqe (res, ks')" "sock = Some fd \<Longrightarrow> fd \<notin> E"
proof -
  let ?fd = "rk_socket os ks"
  have "sock = None \<and> phase E tid tok seg imp dsqe (res, ks') \<or>
      (\<exists>fd. sock = Some fd \<and> phase (insert fd E) tid tok seg imp dsqe (res, ks') \<and> fd \<notin> E)"
  proof (cases "?fd < 0")
    case True
    with assms(2,3) show ?thesis by (auto simp: open_bound_socket_def Let_def ks_got_fd_def phase_tick)
  next
    case False
    note g = got_fd_phase [OF assms(2), of ?fd] os_okD(2) [OF assms(1), of ks]
    with False have g: "phase (insert ?fd E) tid tok seg imp dsqe (res, ks_tick (ks_got_fd ?fd ks))" "?fd \<notin> E"
      by (auto simp: phase_tick)
    show ?thesis using assms(3) False g close_phase [OF g] by (auto simp: open_bound_socket_def Let_def split: if_splits)
  qed
  then show "sock = None \<Longrightarrow> phase E tid tok seg imp dsqe (res, ks')"
    "sock = Some fd \<Longrightarrow> phase (insert fd E) tid tok seg imp dsqe (res, ks')" "sock = Some fd \<Longrightarrow> fd \<notin> E" by auto
qed

text \<open>Failures that leave a socket open.\<close>

definition holds_or_leaks :: "int set \<Rightarrow> rdma_st \<Rightarrow> bool" where
  "holds_or_leaks E st \<longleftrightarrow> holds E st \<or> (\<exists>fd. fd \<notin> E \<and> holds (insert fd E) st)"

lemma phase_set_q: "phase E tid tok seg imp dsqe (res\<lparr>res_q := q\<rparr>, ks) = phase E tid tok seg imp dsqe (res, ks)"
  by (rule same_ledger_phase) (simp add: same_ledger_def)

lemma attach_phase:
  assumes "phase (insert fd E) tid tok seg False dsqe st" and "fd \<notin> E" and "rdma_attach os role env fd remote st = (ok, st')"
  shows "if ok then phase E tid tok seg True dsqe st' else holds_or_leaks E st'"
proof -
  let ?st = "((fst st)\<lparr>res_q := (res_q (fst st))\<lparr>rq_peer_eid := reverse_bytes (pi_eid remote), rq_peer_jetty_id := pi_jetty_id remote\<rparr>\<rparr>, snd st)"
  have p: "phase (insert fd E) tid tok seg False dsqe ?st" using assms(1) by (simp add: phase_set_q)
  obtain ok1 res ks where s: "rdma_steps [step_import_jetty os remote, step_bind_jetty os] ?st = (ok1, res, ks)" by (metis prod_cases3)
  have "triple (phase (insert fd E) tid tok seg False dsqe) (rdma_steps [step_import_jetty os remote, step_bind_jetty os])
      (phase (insert fd E) tid tok seg True dsqe) (holds (insert fd E))"
    by (rule triple_Cons triple_Nil import_jetty_triple plain_triples)+
  from tripleD [OF this p s] have t: "if ok1 then phase (insert fd E) tid tok seg True dsqe (res, ks) else holds (insert fd E) (res, ks)" .
  show ?thesis
  proof (cases ok1)
    case False
    with assms(2,3) s t show ?thesis by (auto simp: rdma_attach_def Let_def holds_or_leaks_def)
  next
    case True
    obtain fin q1 where d: "payload_exchange role (res_q res) (buf_at res Seg_buf) env = (fin, q1)" by (rule prod.exhaust)
    have "phase E tid tok seg True dsqe (res\<lparr>res_q := q1\<rparr>, ks_close fd ks)"
      using close_phase [OF _ assms(2)] t True by (simp add: phase_set_q)
    with assms(3) s d True show ?thesis by (auto simp: rdma_attach_def Let_def holds_or_leaks_def phase_holds)
  qed
qed

lemma exchange_triple:
  assumes "rdma_os_ok os"
  shows "triple (phase E tid tok seg False dsqe) (rdma_exchange os role inp) (phase E tid tok seg True dsqe) (holds_or_leaks E)"
proof (rule tripleI)
  fix st ok st'
  assume p: "phase E tid tok seg False dsqe st" and f: "rdma_exchange os role inp st = (ok, st')"
  have l: "holds_or_leaks E s" if "phase E tid tok seg False dsqe s" for s using that by (simp add: holds_or_leaks_def phase_holds)
  obtain sock ks1 where s1: "open_bound_socket os (snd st) = (sock, ks1)" by fastforce
  note o1 = open_bound_socket_phase [OF assms _ s1, of E tid tok seg False dsqe "fst st", simplified, OF p]
  show "if ok then phase E tid tok seg True dsqe st' else holds_or_leaks E st'"
  proof (cases sock)
    case None
    with f s1 o1(1) l show ?thesis by (auto simp: rdma_exchange_def)
  next
    case (Some fd)
    have p1: "phase E tid tok seg False dsqe (fst st, ks_close fd ks1)" using close_phase o1(2,3) Some by blast
    show ?thesis
    proof (cases "fst (do_startup_sync role (ri_peer inp, SYNC_PORT) (ri_sync_sends inp) (ri_sync_recvs inp)) < 0")
      case True
      with f s1 Some l [OF p1] show ?thesis by (auto simp: rdma_exchange_def)
    next
      case sync: False
      obtain eid ks2 where e: "read_eid_from_uburma os ks1 = (eid, ks2)" by fastforce
      then have "ks2 = ks_tick ks1" by (auto simp: read_eid_from_uburma_def plain_numbers split: prod.splits dest!: plain_ioctl)
      then have p2: "phase E tid tok seg False dsqe (fst st, ks_close fd ks2)"
        using close_phase [OF _ o1(3)] o1(2) Some by (simp add: phase_tick)
      obtain sock2 ks3 where s2: "open_bound_socket os (ks_close fd ks2) = (sock2, ks3)" by fastforce
      note o2 = open_bound_socket_phase [OF assms p2 s2]
      show ?thesis
      proof (cases sock2)
        case None
        with f s1 Some sync e s2 l [OF o2(1)] show ?thesis by (auto simp: rdma_exchange_def)
      next
        case fd2: (Some fd2)
        have p3: "phase E tid tok seg False dsqe (fst st, ks_close fd2 ks3)" using close_phase o2(2,3) fd2 by blast
        obtain remote ds where x: "exchange_peer_info role (ri_peer inp, RDMA_PORT) (local_info eid (fst st))
            (ri_info_sends inp) (ri_info_recvs inp) = (remote, ds)" by fastforce
        show ?thesis
        proof (cases remote)
          case None
          with f s1 Some sync e s2 fd2 x l [OF p3] show ?thesis by (auto simp: rdma_exchange_def)
        next
          case r: (Some r)
          with f s1 Some sync e s2 fd2 x have "rdma_attach os role (ri_payload inp) fd2 r (fst st, ks3) = (ok, st')"
            by (simp add: rdma_exchange_def)
          from attach_phase [OF o2(2) [OF fd2] o2(3) [OF fd2] this] show ?thesis .
        qed
      qed
    qed
  qed
qed

text \<open>The clean-up does not look at imported jettys.\<close>

lemma cleanup_object_tjettys:
  "ks_tjettys (snd (cleanup_seg os st)) = ks_tjettys (snd st)" "ks_tjettys (snd (cleanup_token os st)) = ks_tjettys (snd st)"
proof -
  have k: "ks_tjettys ks' = ks_tjettys ks" if "rdma_ioctl os cmd block priv ks = (ret, out, ks')"
    "cmd = UBURMA_CMD_UNREGISTER_SEG \<or> cmd = UBURMA_CMD_FREE_TOKEN_ID" for cmd block priv ks ret out ks'
    using rdma_ioctl_cases(1) [OF that(1)] that(2) by (auto simp: ks_objects_def tlv_commands)
  show "ks_tjettys (snd (cleanup_seg os st)) = ks_tjettys (snd st)"
    by (cases st) (auto simp: cleanup_seg_def split: prod.split dest: k)
  show "ks_tjettys (snd (cleanup_token os st)) = ks_tjettys (snd st)"
    by (cases st) (auto simp: cleanup_token_def split: prod.split dest: k)
qed

lemma cleanup_tjettys: "ks_tjettys (snd (cleanup_resources os st)) = ks_tjettys (snd st)"
proof -
  have k: "ks_tjettys (ks_close fd ks) = ks_tjettys ks" "ks_tjettys (ks_free p ks) = ks_tjettys ks"
    "ks_tjettys (ks_munmap p len ks) = ks_tjettys ks" for fd p len ks by (simp_all add: ks_ops)
  have d: "ks_tjettys (snd (cleanup_device os s)) = ks_tjettys (snd s)" for s
    by (simp add: cleanup_device_def case_prod_beta k cleanup_object_tjettys)
  have i: "ks_tjettys (snd (cleanup_tid os s)) = ks_tjettys (snd s)" for s
    by (simp add: cleanup_tid_def free_ummu_tid_def case_prod_beta k)
  have f: "ks_tjettys (snd (free_ptr n s)) = ks_tjettys (snd s)" for n s
    by (cases s) (auto simp: free_ptr_def k Let_def)
  have r: "ks_tjettys (snd (release_buf n s)) = ks_tjettys (snd s)" for n s
    using f [of n s] by (cases s) (auto simp: release_buf_def k Let_def)
  have j: "ks_tjettys (snd (release_jetty_db s)) = ks_tjettys (snd s)" for s
    using f [of Jetty_db_buf s] by (cases s) (auto simp: release_jetty_db_def k Let_def)
  show ?thesis by (simp add: cleanup_resources_def case_prod_beta d i f r j)
qed

text \<open>The steps after the descriptors are open.\<close>

lemma run_triple:
  assumes "rdma_os_ok os"
  shows "triple (phase E False False False False False)
    (rdma_steps [rdma_setup os dev_name probe, rdma_exchange os role inp, step_unbind_jetty os, step_unimport_jetty os])
    (phase E True True True False True) (holds_or_leaks E)"
proof -
  have w: "triple P f Q (holds_or_leaks E)" if "triple P f Q (holds E)" for P f Q
    by (rule tripleI, drule (1) tripleD [OF that]) (simp add: holds_or_leaks_def split: if_splits)
  show ?thesis
    unfolding step_unimport_jetty_def
    by (rule triple_Cons triple_Nil exchange_triple [OF assms] w [OF setup_triple [OF assms]] w [OF plain_triples(8)]
        w [OF unimport_attempts_triple])+
qed

lemma cleanup_leaks:
  assumes "holds_or_leaks E st"
  shows "released os E (snd (cleanup_resources os st)) \<or> (\<exists>fd. fd \<notin> E \<and> released os (insert fd E) (snd (cleanup_resources os st)))"
  using assms cleanup_releases unfolding holds_or_leaks_def by blast

text \<open>Every buffer is unowned at the start.\<close>

lemma start_phase:
  assumes "untouched E ks" and "0 \<le> fd" and "fd \<notin> E"
  shows "holds E (res_zero\<lparr>res_fd := fd\<rparr>, ks_got_fd fd ks)"
    "0 \<le> ufd \<Longrightarrow> ufd \<notin> insert fd E \<Longrightarrow>
       phase E False False False False False (res_zero\<lparr>res_fd := fd, res_ummu_fd := ufd\<rparr>, ks_got_fd ufd (ks_got_fd fd ks))"
proof -
  have "\<not> owns (\<lambda>_. buf_zero) n" for n by (simp add: owns_def buf_zero_def)
  then have b: "bufs_held (\<lambda>_. buf_zero) k" if "ks_heap k = {}" "ks_maps k = Map.empty" for k
    using that by (simp add: bufs_held_def own_heap_def own_maps_def buf_zero_def)
  show "holds E (res_zero\<lparr>res_fd := fd\<rparr>, ks_got_fd fd ks)"
    using assms by (auto simp: holds_def objs_held_defs untouched_def none_held_def res_zero_def ks_ops intro!: b)
  show "0 \<le> ufd \<Longrightarrow> ufd \<notin> insert fd E \<Longrightarrow>
       phase E False False False False False (res_zero\<lparr>res_fd := fd, res_ummu_fd := ufd\<rparr>, ks_got_fd ufd (ks_got_fd fd ks))"
    using assms by (auto simp: phase_def holds_def objs_held_defs untouched_def none_held_def res_zero_def ks_ops buf_zero_def
        intro!: b [unfolded buf_zero_def])
qed

lemma open_device:
  assumes "rdma_os_ok os" and "open_uburma_device os dev_name ks = (fd, ks1) \<or> open_ummu_tid_device os path ks = (fd, ks1)"
  shows "0 \<le> fd \<Longrightarrow> ks1 = ks_got_fd fd ks \<and> fd \<notin> ks_fds ks" "fd < 0 \<Longrightarrow> fd = - 1 \<and> (ks1 = ks \<or> ks1 = ks_tick ks)"
  using assms(2) os_okD(1) [OF assms(1), of ks] unfolding open_uburma_device_def open_ummu_tid_device_def Let_def
  by (auto simp: ks_got_fd_def split: if_splits)

lemma device_releases:
  assumes "rdma_os_ok os" and "untouched E ks" and "rdma_device os role probe inp dev_name ks = (rc, ks')"
  shows "released os E ks' \<and> (rc = 0 \<longrightarrow> ks_tjettys ks' = {}) \<or> rc = 1 \<and> (\<exists>fd. fd \<notin> E \<and> released os (insert fd E) ks')"
proof -
  obtain fd ks1 where f: "open_uburma_device os dev_name ks = (fd, ks1)" by fastforce
  obtain ufd ks2 where u: "open_ummu_tid_device os (ri_tid_device inp) ks1 = (ufd, ks2)" by fastforce
  note fo = open_device [OF assms(1) disjI1, OF f] and uo = open_device [OF assms(1) disjI2, OF u]
  let ?st = "(res_zero\<lparr>res_fd := fd, res_ummu_fd := ufd\<rparr>, ks2)"
  consider "fd < 0" | "0 \<le> fd" "ufd < 0" | "0 \<le> fd" "0 \<le> ufd" by linarith
  then show ?thesis
  proof cases
    case 1
    then have "released os E ks1" using fo(2) assms(2) by (auto simp: released_def untouched_def none_held_def)
    with 1 f assms(3) show ?thesis by (auto simp: rdma_device_def)
  next
    case 2
    then have e: "fd \<notin> E" "ks1 = ks_got_fd fd ks" using fo(1) assms(2) by (auto simp: untouched_def)
    have "?st = (res_zero\<lparr>res_fd := fd\<rparr>, ks2)" using uo(2) 2 by (simp add: res_zero_def)
    moreover have "holds E (res_zero\<lparr>res_fd := fd\<rparr>, ks2)"
      using start_phase(1) [OF assms(2) 2(1) e(1)] uo(2) 2 e(2) by (auto simp: holds_tick)
    ultimately have "released os E (snd (cleanup_resources os ?st))" using cleanup_releases by simp
    with 2 f u assms(3) show ?thesis by (auto simp: rdma_device_def)
  next
    case 3
    then have e: "fd \<notin> E" "ks1 = ks_got_fd fd ks" "ufd \<notin> ks_fds ks1" "ks2 = ks_got_fd ufd ks1"
      using fo(1) uo(1) assms(2) by (auto simp: untouched_def)
    then have "ufd \<notin> insert fd E" using 3 assms(2) by (simp add: ks_got_fd_def untouched_def)
    from start_phase(2) [OF assms(2) 3(1) e(1) 3(2) this] e have p: "phase E False False False False False ?st" by simp
    obtain ok st where s: "rdma_steps [rdma_setup os dev_name probe, rdma_exchange os role inp, step_unbind_jetty os, step_unimport_jetty os] ?st = (ok, st)"
      by (rule prod.exhaust)
    have r: "rc = (if ok then 0 else 1)" "ks' = snd (cleanup_resources os st)"
      using 3 f u s assms(3) by (simp_all add: rdma_device_def del: rdma_steps.simps)
    note t = tripleD [OF run_triple [OF assms(1)] p s]
    show ?thesis
    proof (cases ok)
      case True
      with t have "holds E st" "ks_tjettys (snd st) = {}" by (simp_all add: phase_def holds_def objs_held_defs)
      then show ?thesis using cleanup_releases cleanup_tjettys r by simp
    next
      case False
      with t have "holds_or_leaks E st" by simp
      from cleanup_leaks [OF this, of os] show ?thesis using r False by auto
    qed
  qed
qed

text \<open>
  C14: whatever the kernel, the peer and the network answer, refusals to take something back included, the program
  gives back the memory and the mappings with their lengths, never something it does not hold, and all descriptors but
  at most one socket, which only a failing run leaves open; a run that succeeds leaves none, and no imported jetty.
  A thread identifier, token or segment is still held only if the kernel has refused to take it back, a token only after no
  segment but refused ones was left; with a kernel that does not refuse, none is.
\<close>

theorem rdma_main_releases:
  assumes "rdma_os_ok os" and "untouched E ks" and "rdma_main os env inp ks = (rc, ks')"
  shows "released os E ks' \<and> (rc = 0 \<longrightarrow> ks_tjettys ks' = {}) \<or> rc = 1 \<and> (\<exists>fd. fd \<notin> E \<and> released os (insert fd E) ks')"
proof -
  have "released os E ks" "ks_tjettys ks = {}" using assms(2) by (simp_all add: released_def untouched_def none_held_def)
  then show ?thesis
    using assms device_releases [OF assms(1,2)]
    by (auto simp: rdma_main_def split: option.splits if_splits prod.splits)
qed

end
