(* ===== verification/RDMA_Runs.thy ===== *)
theory RDMA_Runs
  imports RDMA_Main
begin

text \<open>
  Runs of the RDMA demo: every field a command sets reaches the kernel, a kernel that accepts the commands lets
  the set-up succeed, two peers synchronise and learn each other's information whatever else arrives, and a socket
  stays open when the import is refused.
\<close>

section \<open>Commands and attributes\<close>

text \<open>A field is handed over when it lies in the bytes of one attribute.\<close>

definition in_entry :: "int \<times> ctype \<Rightarrow> spec_entry \<Rightarrow> bool" where
  "in_entry r e = (case (r, e) of ((off, u), (ty, n, k, es, o')) \<Rightarrow> o' \<le> off \<and> off + c_size u \<le> o' + n)"

definition field_sent :: "ctype \<Rightarrow> spec_entry list \<Rightarrow> string list \<times> bytes \<Rightarrow> bool" where
  "field_sent t ins f =
     (case c_resolve t (fst f) of None \<Rightarrow> False | Some (off, u) \<Rightarrow> int (length (snd f)) \<le> c_size u \<and> list_ex (in_entry (off, u)) ins)"

definition field_returned :: "ctype \<Rightarrow> spec_entry list \<Rightarrow> string list \<Rightarrow> bool" where
  "field_returned t outs path = (case c_resolve t path of None \<Rightarrow> False | Some r \<Rightarrow> list_ex (in_entry r) outs)"

text \<open>The commands of the program with the fields they set and the results that are read.\<close>

definition rdma_commands ::
  "rdma_os \<Rightarrow> rdma_resources \<Rightarrow> bytes \<Rightarrow> bytes \<Rightarrow> u32 \<Rightarrow> peer_info \<Rightarrow> (u32 \<times> (string list \<times> bytes) list \<times> string list list) list" where
  "rdma_commands os res name eid mode remote =
     [(UBURMA_CMD_QUERY_DEV_ATTR, [([''in'', ''dev_name''], name)], []),
      (UBURMA_CMD_GET_EID_LIST, [([''in'', ''max_eid_cnt''], le32 UBCORE_MAX_EID_CNT)], [[''out'', ''eid_cnt''], [''out'', ''eid_list'']]),
      (UBURMA_CMD_CREATE_CTX, create_ctx_fields os eid, [[''udata'']]),
      (UBURMA_CMD_ALLOC_TOKEN_ID, alloc_token_fields os, [[''out'', ''token_id''], [''out'', ''handle'']]),
      (UBURMA_CMD_ALLOC_JFC, alloc_jfc_fields, [[''out'', ''id''], [''out'', ''handle'']]),
      (UBURMA_CMD_ACTIVE_JFC, active_jfc_fields os res, []),
      (UBURMA_CMD_ALLOC_JFR, alloc_jfr_fields res, [[''out'', ''id''], [''out'', ''handle'']]),
      (UBURMA_CMD_ACTIVE_JFR, active_jfr_fields os res, []),
      (UBURMA_CMD_ALLOC_JFS, alloc_jfs_fields mode res, [[''out'', ''id''], [''out'', ''handle'']]),
      (UBURMA_CMD_ACTIVE_JFS, active_jfs_fields os mode res, []),
      (UBURMA_CMD_ALLOC_JETTY, alloc_jetty_fields res, [[''create_jetty'', ''out'', ''id''], [''create_jetty'', ''out'', ''handle'']]),
      (UBURMA_CMD_ACTIVE_JETTY, active_jetty_fields os res, [[''out'', ''jetty_id'']]),
      (UBURMA_CMD_REGISTER_SEG, register_seg_fields res, [[''out'', ''token_id''], [''out'', ''handle'']]),
      (UBURMA_CMD_IMPORT_JETTY, import_jetty_fields remote, [[''out'', ''handle'']]),
      (UBURMA_CMD_BIND_JETTY, bind_jetty_fields res, [[''out'', ''tpn'']]),
      (UBURMA_CMD_UNBIND_JETTY, unbind_jetty_fields res, []),
      (UBURMA_CMD_UNIMPORT_JETTY, [([''in'', ''handle''], le64 (res_tjetty_handle res))], []),
      (UBURMA_CMD_UNREGISTER_SEG, [([''in'', ''handle''], le64 (res_seg_handle res))], []),
      (UBURMA_CMD_FREE_TOKEN_ID, [([''in'', ''handle''], le64 (res_token_id_handle res)), ([''in'', ''token_id''], le32 (res_token_id res))], [])]"

definition command_covered :: "u32 \<Rightarrow> (string list \<times> bytes) list \<Rightarrow> string list list \<Rightarrow> bool" where
  "command_covered cmd fs rs =
     (case find (\<lambda>row. fst row = cmd) tlv_switch of
        None \<Rightarrow> False
      | Some (_, t, ins, _, outs, _) \<Rightarrow> list_all (field_sent t ins) fs \<and> list_all (field_returned t outs) rs)"

lemma coveredI:
  "(cmd, t, ins, m, outs, k) \<in> set tlv_switch \<Longrightarrow> list_all (field_sent t ins) fs \<Longrightarrow> list_all (field_returned t outs) rs \<Longrightarrow>
   command_covered cmd fs rs"
  using find_row [of "(cmd, t, ins, m, outs, k)"] by (simp add: command_covered_def)

lemmas cover_rules = field_sent_def field_returned_def in_entry_def zero_udrv_priv_def udata_in_def udata_out_def round_up_def

text \<open>One lemma per command.\<close>

lemma cover_query_dev_attr: "length name \<le> 64 \<Longrightarrow> command_covered UBURMA_CMD_QUERY_DEV_ATTR ([([''in'', ''dev_name''], name)]) []"
  by (rule coveredI [of _ uburma_cmd_query_device_attr uburma_query_device_fill_spec_in QUERY_DEVICE_IN_NUM uburma_query_device_fill_spec_out "QUERY_DEVICE_OUT_NUM - UBURMA_CMD_OUT_TYPE_INIT"], simp only: tlv_switch_def list.set insert_iff simp_thms)
    (simp_all add: cover_rules uburma_query_device_fill_spec_in_table uburma_cmd_query_device_attr_def)

lemma cover_get_eid_list: "command_covered UBURMA_CMD_GET_EID_LIST ([([''in'', ''max_eid_cnt''], le32 UBCORE_MAX_EID_CNT)]) [[''out'', ''eid_cnt''], [''out'', ''eid_list'']]"
  by (rule coveredI [of _ uburma_cmd_get_eid_list uburma_get_eid_list_fill_spec_in GET_EID_LIST_IN_NUM uburma_get_eid_list_fill_spec_out "GET_EID_LIST_OUT_NUM - UBURMA_CMD_OUT_TYPE_INIT"], simp only: tlv_switch_def list.set insert_iff simp_thms)
    (simp_all add: cover_rules uburma_get_eid_list_fill_spec_in_table uburma_get_eid_list_fill_spec_out_table uburma_cmd_get_eid_list_def ubcore_eid_info_user_def)

lemma cover_create_ctx: "length eid = 16 \<Longrightarrow> command_covered UBURMA_CMD_CREATE_CTX (create_ctx_fields os eid) [[''udata'']]"
  by (rule coveredI [of _ uburma_cmd_create_ctx uburma_create_ctx_fill_spec_in CREATE_CTX_IN_NUM uburma_create_ctx_fill_spec_out "CREATE_CTX_OUT_NUM - UBURMA_CMD_OUT_TYPE_INIT"], simp only: tlv_switch_def list.set insert_iff simp_thms)
    (simp_all add: cover_rules uburma_create_ctx_fill_spec_in_table uburma_create_ctx_fill_spec_out_table uburma_cmd_create_ctx_def create_ctx_fields_def uburma_cmd_udrv_priv_def)

lemma cover_alloc_token_id: "command_covered UBURMA_CMD_ALLOC_TOKEN_ID (alloc_token_fields os) [[''out'', ''token_id''], [''out'', ''handle'']]"
  by (rule coveredI [of _ uburma_cmd_alloc_token_id uburma_alloc_token_id_fill_spec_in ALLOC_TOKEN_ID_IN_NUM uburma_alloc_token_id_fill_spec_out "ALLOC_TOKEN_ID_OUT_NUM - UBURMA_CMD_OUT_TYPE_INIT"], simp only: tlv_switch_def list.set insert_iff simp_thms)
    (simp_all add: cover_rules uburma_alloc_token_id_fill_spec_in_table uburma_alloc_token_id_fill_spec_out_table uburma_cmd_alloc_token_id_def alloc_token_fields_def uburma_cmd_udrv_priv_def uburma_cmd_token_id_flag_def)

lemma cover_alloc_jfc: "command_covered UBURMA_CMD_ALLOC_JFC (alloc_jfc_fields) [[''out'', ''id''], [''out'', ''handle'']]"
  by (rule coveredI [of _ uburma_cmd_alloc_jfc uburma_alloc_jfc_fill_spec_in ALLOC_JFC_IN_NUM uburma_alloc_jfc_fill_spec_out "ALLOC_JFC_OUT_NUM - UBURMA_CMD_OUT_TYPE_INIT"], simp only: tlv_switch_def list.set insert_iff simp_thms)
    (simp_all add: cover_rules uburma_alloc_jfc_fill_spec_in_table uburma_alloc_jfc_fill_spec_out_table uburma_cmd_alloc_jfc_def alloc_jfc_fields_def uburma_cmd_udrv_priv_def)

lemma cover_active_jfc: "command_covered UBURMA_CMD_ACTIVE_JFC (active_jfc_fields os res) []"
  by (rule coveredI [of _ uburma_cmd_active_jfc uburma_active_jfc_fill_spec_in ACTIVE_JFC_IN_NUM uburma_active_jfc_fill_spec_out "ACTIVE_JFC_OUT_NUM - UBURMA_CMD_OUT_TYPE_INIT"], simp only: tlv_switch_def list.set insert_iff simp_thms)
    (simp_all add: cover_rules uburma_active_jfc_fill_spec_in_table uburma_active_jfc_fill_spec_out_table uburma_cmd_active_jfc_def active_jfc_fields_def uburma_cmd_udrv_priv_def)

lemma cover_alloc_jfr: "command_covered UBURMA_CMD_ALLOC_JFR (alloc_jfr_fields res) [[''out'', ''id''], [''out'', ''handle'']]"
  by (rule coveredI [of _ uburma_cmd_alloc_jfr uburma_alloc_jfr_fill_spec_in ALLOC_JFR_IN_NUM uburma_alloc_jfr_fill_spec_out "ALLOC_JFR_OUT_NUM - UBURMA_CMD_OUT_TYPE_INIT"], simp only: tlv_switch_def list.set insert_iff simp_thms)
    (simp_all add: cover_rules uburma_alloc_jfr_fill_spec_in_table uburma_alloc_jfr_fill_spec_out_table uburma_cmd_alloc_jfr_def alloc_jfr_fields_def uburma_cmd_udrv_priv_def)

lemma cover_active_jfr: "command_covered UBURMA_CMD_ACTIVE_JFR (active_jfr_fields os res) []"
  by (rule coveredI [of _ uburma_cmd_active_jfr uburma_active_jfr_fill_spec_in ACTIVE_JFR_IN_NUM uburma_active_jfr_fill_spec_out "ACTIVE_JFR_OUT_NUM - UBURMA_CMD_OUT_TYPE_INIT"], simp only: tlv_switch_def list.set insert_iff simp_thms)
    (simp_all add: cover_rules uburma_active_jfr_fill_spec_in_table uburma_active_jfr_fill_spec_out_table uburma_cmd_active_jfr_def active_jfr_fields_def uburma_cmd_udrv_priv_def)

lemma cover_alloc_jfs: "command_covered UBURMA_CMD_ALLOC_JFS (alloc_jfs_fields mode res) [[''out'', ''id''], [''out'', ''handle'']]"
  by (rule coveredI [of _ uburma_cmd_alloc_jfs uburma_alloc_jfs_fill_spec_in ALLOC_JFS_IN_NUM uburma_alloc_jfs_fill_spec_out "ALLOC_JFS_OUT_NUM - UBURMA_CMD_OUT_TYPE_INIT"], simp only: tlv_switch_def list.set insert_iff simp_thms)
    (simp_all add: cover_rules uburma_alloc_jfs_fill_spec_in_table uburma_alloc_jfs_fill_spec_out_table uburma_cmd_alloc_jfs_def alloc_jfs_fields_def uburma_cmd_udrv_priv_def)

lemma cover_active_jfs: "command_covered UBURMA_CMD_ACTIVE_JFS (active_jfs_fields os mode res) []"
  by (rule coveredI [of _ uburma_cmd_active_jfs uburma_active_jfs_fill_spec_in ACTIVE_JFS_IN_NUM uburma_active_jfs_fill_spec_out "ACTIVE_JFS_OUT_NUM - UBURMA_CMD_OUT_TYPE_INIT"], simp only: tlv_switch_def list.set insert_iff simp_thms)
    (simp_all add: cover_rules uburma_active_jfs_fill_spec_in_table uburma_active_jfs_fill_spec_out_table uburma_cmd_active_jfs_def active_jfs_fields_def uburma_cmd_udrv_priv_def)

lemma cover_alloc_jetty: "command_covered UBURMA_CMD_ALLOC_JETTY (alloc_jetty_fields res) [[''create_jetty'', ''out'', ''id''], [''create_jetty'', ''out'', ''handle'']]"
  by (rule coveredI [of _ uburma_cmd_alloc_jetty uburma_alloc_jetty_fill_spec_in ALLOC_JETTY_IN_NUM uburma_alloc_jetty_fill_spec_out "ALLOC_JETTY_OUT_NUM - UBURMA_CMD_OUT_TYPE_INIT"], simp only: tlv_switch_def list.set insert_iff simp_thms)
    (simp_all add: cover_rules uburma_alloc_jetty_fill_spec_in_table uburma_alloc_jetty_fill_spec_out_table uburma_cmd_alloc_jetty_def alloc_jetty_fields_def uburma_cmd_udrv_priv_def uburma_cmd_create_jetty_def)

lemma cover_active_jetty: "command_covered UBURMA_CMD_ACTIVE_JETTY (active_jetty_fields os res) [[''out'', ''jetty_id'']]"
  by (rule coveredI [of _ uburma_cmd_active_jetty uburma_active_jetty_fill_spec_in ACTIVE_JETTY_IN_NUM uburma_active_jetty_fill_spec_out "ACTIVE_JETTY_OUT_NUM - UBURMA_CMD_OUT_TYPE_INIT"], simp only: tlv_switch_def list.set insert_iff simp_thms)
    (simp_all add: cover_rules uburma_active_jetty_fill_spec_in_table uburma_active_jetty_fill_spec_out_table uburma_cmd_active_jetty_def active_jetty_fields_def uburma_cmd_udrv_priv_def)

lemma cover_register_seg: "command_covered UBURMA_CMD_REGISTER_SEG (register_seg_fields res) [[''out'', ''token_id''], [''out'', ''handle'']]"
  by (rule coveredI [of _ uburma_cmd_register_seg uburma_register_seg_fill_spec_in REGISTER_SEG_IN_NUM uburma_register_seg_fill_spec_out "REGISTER_SEG_OUT_NUM - UBURMA_CMD_OUT_TYPE_INIT"], simp only: tlv_switch_def list.set insert_iff simp_thms)
    (simp_all add: cover_rules uburma_register_seg_fill_spec_in_table uburma_register_seg_fill_spec_out_table uburma_cmd_register_seg_def register_seg_fields_def uburma_cmd_udrv_priv_def)

lemma cover_import_jetty: "length (pi_eid remote) = 16 \<Longrightarrow> command_covered UBURMA_CMD_IMPORT_JETTY (import_jetty_fields remote) [[''out'', ''handle'']]"
  by (rule coveredI [of _ uburma_cmd_import_jetty uburma_import_jetty_fill_spec_in IMPORT_JETTY_IN_NUM uburma_import_jetty_fill_spec_out "IMPORT_JETTY_OUT_NUM - UBURMA_CMD_OUT_TYPE_INIT"], simp only: tlv_switch_def list.set insert_iff simp_thms)
    (simp_all add: cover_rules uburma_import_jetty_fill_spec_in_table uburma_import_jetty_fill_spec_out_table uburma_cmd_import_jetty_def import_jetty_fields_def uburma_cmd_udrv_priv_def)

lemma cover_bind_jetty: "command_covered UBURMA_CMD_BIND_JETTY (bind_jetty_fields res) [[''out'', ''tpn'']]"
  by (rule coveredI [of _ uburma_cmd_bind_jetty uburma_bind_jetty_fill_spec_in BIND_JETTY_IN_NUM uburma_bind_jetty_fill_spec_out "BIND_JETTY_OUT_NUM - UBURMA_CMD_OUT_TYPE_INIT"], simp only: tlv_switch_def list.set insert_iff simp_thms)
    (simp_all add: cover_rules uburma_bind_jetty_fill_spec_in_table uburma_bind_jetty_fill_spec_out_table uburma_cmd_bind_jetty_def bind_jetty_fields_def uburma_cmd_udrv_priv_def)

lemma cover_unbind_jetty: "command_covered UBURMA_CMD_UNBIND_JETTY (unbind_jetty_fields res) []"
  by (rule coveredI [of _ uburma_cmd_unbind_jetty_local uburma_unbind_jetty_fill_spec_in UNADVISE_JETTY_IN_NUM "[]" 0], simp only: tlv_switch_def list.set insert_iff simp_thms)
    (simp_all add: cover_rules uburma_unbind_jetty_fill_spec_in_table uburma_cmd_unbind_jetty_local_def unbind_jetty_fields_def)

lemma cover_unimport_jetty: "command_covered UBURMA_CMD_UNIMPORT_JETTY ([([''in'', ''handle''], le64 (res_tjetty_handle res))]) []"
  by (rule coveredI [of _ uburma_cmd_unimport_jetty_local uburma_unimport_jetty_fill_spec_in UNIMPORT_JETTY_IN_NUM "[]" 0], simp only: tlv_switch_def list.set insert_iff simp_thms)
    (simp_all add: cover_rules uburma_unimport_jetty_fill_spec_in_table uburma_cmd_unimport_jetty_local_def)

lemma cover_unregister_seg: "command_covered UBURMA_CMD_UNREGISTER_SEG ([([''in'', ''handle''], le64 (res_seg_handle res))]) []"
  by (rule coveredI [of _ uburma_cmd_unregister_seg uburma_unregister_seg_fill_spec_in UNREGISTER_SEG_IN_NUM "[]" 0], simp only: tlv_switch_def list.set insert_iff simp_thms)
    (simp_all add: cover_rules uburma_unregister_seg_fill_spec_in_table uburma_cmd_unregister_seg_def)

lemma cover_free_token_id: "command_covered UBURMA_CMD_FREE_TOKEN_ID ([([''in'', ''handle''], le64 (res_token_id_handle res)), ([''in'', ''token_id''], le32 (res_token_id res))]) []"
  by (rule coveredI [of _ uburma_cmd_free_token_id uburma_free_token_id_fill_spec_in FREE_TOKEN_ID_IN_NUM "[]" 0], simp only: tlv_switch_def list.set insert_iff simp_thms)
    (simp_all add: cover_rules uburma_free_token_id_fill_spec_in_table uburma_cmd_free_token_id_def)

text \<open>
  C15: every field a command of the program sets fits its place in the argument block and lies within one of the
  attributes that are handed to the kernel, and every result the program reads back lies within one of those
  the kernel writes.
\<close>

theorem command_fields_sent:
  assumes "length name \<le> 64" and "length eid = 16" and "length (pi_eid remote) = 16"
  shows "list_all (\<lambda>(cmd, fs, rs). command_covered cmd fs rs) (rdma_commands os res name eid mode remote)"
  unfolding rdma_commands_def list.pred_inject prod.case
  using assms by (intro conjI list.pred_inject(1) TrueI cover_query_dev_attr cover_get_eid_list cover_create_ctx cover_alloc_token_id cover_alloc_jfc
    cover_active_jfc cover_alloc_jfr cover_active_jfr cover_alloc_jfs cover_active_jfs
    cover_alloc_jetty cover_active_jetty cover_register_seg cover_import_jetty cover_bind_jetty
    cover_unbind_jetty cover_unimport_jetty cover_unregister_seg cover_free_token_id)

section \<open>Two peers\<close>

text \<open>What may arrive besides the text that is waited for.\<close>

definition sync_noise :: "string \<Rightarrow> udp_ev list \<Rightarrow> bool" where
  "sync_noise text es \<longleftrightarrow> (\<forall>e \<in> set es. e = Again \<or> (\<exists>from d. e = Dgram from d \<and> \<not> sync_matches text d))"

lemma sync_wait_noise: "sync_noise text es \<Longrightarrow> sync_wait text (es @ es') = sync_wait text es'"
  by (induction es) (auto simp: sync_noise_def)

lemma send_all_concat: "udp_send_all buf es = (ret, ds) \<Longrightarrow> 0 \<le> ret \<Longrightarrow> ret = 0 \<and> concat ds = buf"
  by (induction buf es arbitrary: ret ds rule: udp_send_all.induct)
    (auto split: if_splits send_ev.splits prod.splits)

lemma sync_text_matches: "length text = 13 \<Longrightarrow> sync_matches text (str_bytes text)"
  by (simp add: sync_matches_def str_bytes_def Let_def)

text \<open>
  When the two sends go out whole and arrive, both peers get past the start-up synchronisation, whatever
  delays and other datagrams come before; the responder answers whoever asked.
\<close>

theorem startup_sync_meets:
  assumes "sync_noise ''RDMA_SYNC_REQ'' n1" and "sync_noise ''RDMA_SYNC_ACK'' n2" and "13 \<le> k" and "13 \<le> m"
  shows "do_startup_sync RDMA_ROLE_INITIATOR b [Sent k] (n2 @ Dgram c (str_bytes ''RDMA_SYNC_ACK'') # e2) =
      (0, [(b, str_bytes ''RDMA_SYNC_REQ'')]) \<and>
    do_startup_sync RDMA_ROLE_RESPONDER a [Sent m] (n1 @ Dgram d (str_bytes ''RDMA_SYNC_REQ'') # e1) =
      (0, [(d, str_bytes ''RDMA_SYNC_ACK'')])"
  using assms(3,4) sync_text_matches [of "''RDMA_SYNC_REQ''"] sync_text_matches [of "''RDMA_SYNC_ACK''"]
  by (simp add: do_startup_sync_def sync_wait_noise [OF assms(1)] sync_wait_noise [OF assms(2)] str_bytes_def)

text \<open>The bytes of one sender in a sequence without delays and errors.\<close>

definition bytes_from :: "sock_addr \<Rightarrow> udp_ev list \<Rightarrow> bytes" where
  "bytes_from src es = concat (map (\<lambda>e. case e of Dgram s d \<Rightarrow> if s = src then d else [] | _ \<Rightarrow> []) es)"

lemma recv_all_bytes:
  assumes "\<forall>e \<in> set es. e \<noteq> Again \<and> e \<noteq> Recv_error" and "length (bytes_from src es) = n"
  shows "fst (udp_recv_all n (Some src) es) = (0, bytes_from src es)"
  using assms
proof (induction es arbitrary: n)
  case Nil
  then show ?case by (simp add: bytes_from_def)
next
  case (Cons e es)
  show ?case
  proof (cases "n = 0")
    case True
    with Cons.prems(2) have "bytes_from src (e # es) = []" by simp
    with True show ?thesis by simp
  next
    case False
    show ?thesis
    proof (cases "\<exists>d. e = Dgram src d")
      case True
      then obtain d where e: "e = Dgram src d" by blast
      then have b: "bytes_from src (e # es) = d @ bytes_from src es" by (simp add: bytes_from_def)
      then have "take n d = d" "length (bytes_from src es) = n - length d" using Cons.prems(2) by auto
      with Cons.IH [of "n - length d"] Cons.prems(1) False show ?thesis
        unfolding b by (auto simp: e split: prod.split)
    next
      case other: False
      then have b: "bytes_from src (e # es) = bytes_from src es" by (auto simp: bytes_from_def split: udp_ev.split)
      with Cons.IH [of n] Cons.prems False other show ?thesis
        unfolding b by (cases e) auto
    qed
  qed
qed

lemma peer_info_bytes_of: "length (pi_eid i) = 16 \<Longrightarrow> peer_info_of (peer_info_bytes i) = i"
  by (cases i) (simp add: peer_info_of_def peer_info_bytes_def bytes_at_def)

lemma length_peer_info: "length (pi_eid i) = 16 \<Longrightarrow> length (peer_info_bytes i) = 24"
  by (simp add: peer_info_bytes_def)

text \<open>
  C16: each peer ends with the information of the other, however the kernel cuts the two messages into
  datagrams, whoever else sends and however often a call is interrupted.
\<close>

theorem peer_info_exchanged:
  assumes "length (pi_eid info_a) = 16" and "length (pi_eid info_b) = 16"
    and "udp_send_all (peer_info_bytes info_a) sends_a = (0, ds_a)" and "udp_send_all (peer_info_bytes info_b) sends_b = (0, ds_b)"
    and "\<forall>e \<in> set recvs_a \<union> set recvs_b. e \<noteq> Again \<and> e \<noteq> Recv_error"
    and "bytes_from b recvs_a = concat ds_b" and "bytes_from a recvs_b = concat ds_a"
  shows "exchange_peer_info RDMA_ROLE_INITIATOR b info_a sends_a recvs_a = (Some info_b, ds_a) \<and>
    exchange_peer_info RDMA_ROLE_RESPONDER a info_b sends_b recvs_b = (Some info_a, ds_b)"
proof
  have c: "concat ds_a = peer_info_bytes info_a" "concat ds_b = peer_info_bytes info_b"
    using send_all_concat assms(3,4) by force+
  obtain r1 where "udp_recv_all 24 (Some b) recvs_a = ((0, peer_info_bytes info_b), r1)"
    using recv_all_bytes [of recvs_a b 24] assms(2,5,6) c length_peer_info by (metis UnCI fst_conv surj_pair)
  with assms(2,3) show "exchange_peer_info RDMA_ROLE_INITIATOR b info_a sends_a recvs_a = (Some info_b, ds_a)"
    by (simp add: exchange_peer_info_def peer_info_bytes_of)
  obtain r2 where "udp_recv_all 24 (Some a) recvs_b = ((0, peer_info_bytes info_a), r2)"
    using recv_all_bytes [of recvs_b a 24] assms(1,5,7) c length_peer_info by (metis UnCI fst_conv surj_pair)
  with assms(1,4) show "exchange_peer_info RDMA_ROLE_RESPONDER a info_b sends_b recvs_b = (Some info_a, ds_b)"
    by (simp add: exchange_peer_info_def peer_info_bytes_of)
qed

section \<open>Set-up\<close>

text \<open>A kernel that refuses no command, and runs out of addresses only when none is free.\<close>

definition accepting :: "rdma_os \<Rightarrow> bool" where
  "accepting os \<longleftrightarrow>
     (\<forall>ks hdr block priv. 0 \<le> fst (rk_ioctl os ks hdr block priv)) \<and>
     (\<forall>ks n args block priv.
        get_u64 uburma_cmd_alloc_token_id [''out'', ''handle''] (snd (rk_ioctl os ks (UBURMA_CMD_ALLOC_TOKEN_ID, n, args) block priv)) \<noteq> 0 \<and>
        get_u64 uburma_cmd_alloc_jfr [''out'', ''handle''] (snd (rk_ioctl os ks (UBURMA_CMD_ALLOC_JFR, n, args) block priv)) \<noteq> 0) \<and>
     (\<forall>ks. \<exists>tid. rk_alloc_tid os ks = Inr tid) \<and>
     (\<forall>ks fd n off. rk_mmap os ks fd n off = None \<longrightarrow> insert 0 (ks_heap ks \<union> dom (ks_maps ks)) = UNIV) \<and>
     (\<forall>ks n. rk_memalign os ks n = None \<longrightarrow> insert 0 (ks_heap ks \<union> dom (ks_maps ks)) = UNIV)"

lemma acceptingD:
  assumes "accepting os"
  shows "\<not> fst (rk_ioctl os ks hdr block priv) < 0"
    "get_u64 uburma_cmd_alloc_token_id [''out'', ''handle''] (snd (rk_ioctl os ks (UBURMA_CMD_ALLOC_TOKEN_ID, n, args) block priv)) \<noteq> 0"
    "get_u64 uburma_cmd_alloc_jfr [''out'', ''handle''] (snd (rk_ioctl os ks (UBURMA_CMD_ALLOC_JFR, n, args) block priv)) \<noteq> 0"
    "\<exists>tid. rk_alloc_tid os ks = Inr tid"
    "insert 0 (ks_heap ks \<union> dom (ks_maps ks)) \<noteq> UNIV \<Longrightarrow> \<exists>a. rk_mmap os ks fd k off = Some a"
    "insert 0 (ks_heap ks \<union> dom (ks_maps ks)) \<noteq> UNIV \<Longrightarrow> \<exists>a. rk_memalign os ks k = Some a"
proof -
  note c = assms [unfolded accepting_def]
  show "\<not> fst (rk_ioctl os ks hdr block priv) < 0" using c [THEN conjunct1] unfolding not_less by blast
  show "get_u64 uburma_cmd_alloc_token_id [''out'', ''handle''] (snd (rk_ioctl os ks (UBURMA_CMD_ALLOC_TOKEN_ID, n, args) block priv)) \<noteq> 0"
    using c [THEN conjunct2, THEN conjunct1] by blast
  show "get_u64 uburma_cmd_alloc_jfr [''out'', ''handle''] (snd (rk_ioctl os ks (UBURMA_CMD_ALLOC_JFR, n, args) block priv)) \<noteq> 0"
    using c [THEN conjunct2, THEN conjunct1] by blast
  show "\<exists>tid. rk_alloc_tid os ks = Inr tid" using c [THEN conjunct2, THEN conjunct2, THEN conjunct1] by blast
  show "insert 0 (ks_heap ks \<union> dom (ks_maps ks)) \<noteq> UNIV \<Longrightarrow> \<exists>a. rk_mmap os ks fd k off = Some a"
    using c [THEN conjunct2, THEN conjunct2, THEN conjunct2, THEN conjunct1] by (cases "rk_mmap os ks fd k off") blast+
  show "insert 0 (ks_heap ks \<union> dom (ks_maps ks)) \<noteq> UNIV \<Longrightarrow> \<exists>a. rk_memalign os ks k = Some a"
    using c [THEN conjunct2, THEN conjunct2, THEN conjunct2, THEN conjunct2] by (cases "rk_memalign os ks k") blast+
qed

lemma accepted_ioctl:
  assumes "accepting os" and "rdma_ioctl os cmd block priv ks = (ret, out, ks')"
  shows "ret = 0" "\<exists>n args. out = snd (rk_ioctl os ks (cmd, n, args) block priv)"
proof -
  obtain n args where r: "ioctl_request cmd (rk_addr os ''cmd'') (length block) = Inr (cmd, n, args)" using request_sent by blast
  with acceptingD(1) [OF assms(1)] assms(2) show "ret = 0" by (auto simp: rdma_ioctl_def split: prod.splits if_splits) (metis fst_conv)
  show "\<exists>n args. out = snd (rk_ioctl os ks (cmd, n, args) block priv)"
    using r assms(2) by (intro exI [of _ n] exI [of _ args]) (auto simp: rdma_ioctl_def split: prod.splits if_splits)
qed

lemma accepted_command:
  assumes "accepting os" and "\<And>out res ks n args. out = snd (rk_ioctl os ks (cmd, n, args) block priv) \<Longrightarrow> keep out res \<noteq> None"
  shows "fst (rdma_command os cmd block priv keep st)"
proof -
  obtain ret out ks' where i: "rdma_ioctl os cmd block priv (snd st) = (ret, out, ks')" by (metis prod_cases3)
  from accepted_ioctl [OF assms(1) i] assms(2) [of out] show ?thesis
    by (auto simp: rdma_command_def i split: option.split)
qed

text \<open>The program itself never holds all addresses.\<close>

lemma address_free:
  assumes "bufs_held B ks"
  shows "insert 0 (ks_heap ks \<union> dom (ks_maps ks)) \<noteq> UNIV"
proof
  assume u: "insert 0 (ks_heap ks \<union> dom (ks_maps ks)) = UNIV"
  have d: "dom (ks_maps ks) = fst ` Map.graph (ks_maps ks)" by (auto simp: graph_def image_iff)
  let ?S = "{Seg_buf, Jfc_ucmd_buf, Jfc_db_buf, Jfr_buf, Jfr_idx_buf, Jfr_db_buf, Jfs_buf, Jfs_db_buf, Jetty_buf, Jetty_db_buf, Jetty_dsqe_page}"
  have s: "UNIV = ?S" using buf_names [of "\<lambda>n. n \<in> ?S"] by auto
  then have "finite (UNIV :: rdma_buf_name set)" "card (UNIV :: rdma_buf_name set) \<le> 11"
    by (metis finite.intros, simp add: s card_insert_if)
  moreover have "ks_heap ks \<union> dom (ks_maps ks) \<subseteq> (\<lambda>n. b_ptr (B n)) ` UNIV"
    unfolding d held_parts(5,6) [OF assms] by auto
  ultimately have c: "card (ks_heap ks \<union> dom (ks_maps ks)) \<le> 11"
    by (meson card_image_le card_mono finite_imageI le_trans)
  have "card (insert 0 (ks_heap ks \<union> dom (ks_maps ks))) \<le> Suc (card (ks_heap ks \<union> dom (ks_maps ks)))"
    by (rule card_insert_le_m1) simp_all
  with c have "card (insert 0 (ks_heap ks \<union> dom (ks_maps ks))) \<le> 12" by linarith
  moreover have "card (UNIV :: u64 set) = 2 ^ 64" by (simp add: card_word)
  ultimately show False using u by simp
qed

text \<open>Steps that succeed.\<close>

lemma succeeding: "triple P f Q R \<Longrightarrow> (\<And>st. P st \<Longrightarrow> fst (f st)) \<Longrightarrow> triple P f Q (\<lambda>_. False)"
  by (simp only: triple_def) (metis (mono_tags))

lemma phase_held: "phase E tid tok seg imp dsqe st \<Longrightarrow> bufs_held (res_buf (fst st)) (snd st)"
  by (simp add: phase_def holds_def)

lemma accepted_ensure:
  assumes "accepting os" and "rdma_os_ok os" and "phase E tid tok seg imp dsqe st"
  shows "fst (ensure_heap os n len st)" "fst (ensure_map os n st)"
proof -
  note f = address_free [OF phase_held [OF assms(3)]]
  obtain a b where "rk_memalign os (snd st) DEMO_PAGE_SIZE = Some a"
    "rk_mmap os (snd st) (res_fd (fst st)) DEMO_PAGE_SIZE (UDMA_MMAP_KERNEL_BUF * of_nat DEMO_PAGE_SIZE) = Some b"
    using acceptingD(5,6) [OF assms(1) f] by metis
  with os_okD(3,4) [OF assms(2)] show "fst (ensure_heap os n len st)" "fst (ensure_map os n st)"
    by (cases st; auto simp: ensure_heap_def ensure_map_def alloc_aligned_zero_def map_udma_kernel_buf_def rdma_mmap_def)+
qed

lemma accepted_doorbell:
  assumes "accepting os" and "rdma_os_ok os" and "phase E tid tok seg imp False st"
  shows "fst (step_map_doorbell os st)"
proof -
  obtain res ks where r: "free_ptr Jetty_db_buf st = (res, ks)" by fastforce
  have "holds E (free_ptr Jetty_db_buf st)" using free_ptr_holds [of E st Jetty_db_buf] assms(3) by (simp add: phase_def never_mapped_def)
  then have f: "insert 0 (ks_heap ks \<union> dom (ks_maps ks)) \<noteq> UNIV" using address_free [of "res_buf res" ks] by (simp add: r holds_def)
  obtain a where "rk_mmap os ks (res_fd res) DEMO_PAGE_SIZE
      ((push_bit MAP_INDEX_SHIFT_LOCAL (ucast (res_local_hw_jetty_id res)) OR UDMA_MMAP_JETTY_DSQE_LOCAL) * of_nat DEMO_PAGE_SIZE) = Some a"
    using acceptingD(5) [OF assms(1) f] by blast
  with os_okD(3) [OF assms(2) this] show ?thesis
    by (simp add: step_map_doorbell_def r map_udma_jetty_dsqe_page_def rdma_mmap_def)
qed

lemma accepted_steps:
  assumes "accepting os"
  shows "length dev_name < 64 \<Longrightarrow> fst (step_query_device os dev_name st)" "fst (step_create_ctx os st)" "fst (alloc_ummu_tid os st)"
    "fst (step_alloc_token os st)" "fst (step_alloc_jfc os st)" "fst (step_active_jfc os st)" "fst (step_alloc_jfr os st)"
    "fst (step_active_jfr os st)" "fst (step_alloc_jetty os st)" "fst (step_active_jetty os st)" "fst (step_register_seg os st)"
proof -
  show "fst (alloc_ummu_tid os st)" using acceptingD(4) [OF assms, of "snd st"] by (auto simp: alloc_ummu_tid_def)
  show "length dev_name < 64 \<Longrightarrow> fst (step_query_device os dev_name st)"
    by (simp add: step_query_device_def copy_dev_name_def accepted_command [OF assms])
  show "fst (step_create_ctx os st)"
    by (simp add: step_create_ctx_def accepted_command [OF assms] split: prod.split)
  show "fst (step_alloc_token os st)"
    unfolding step_alloc_token_def by (rule accepted_command [OF assms]) (simp add: acceptingD(2) [OF assms])
  show "fst (step_alloc_jfr os st)"
    unfolding step_alloc_jfr_def by (rule accepted_command [OF assms]) (simp add: acceptingD(3) [OF assms])
  show "fst (step_alloc_jfc os st)" "fst (step_active_jfc os st)" "fst (step_active_jfr os st)" "fst (step_alloc_jetty os st)"
    "fst (step_active_jetty os st)" "fst (step_register_seg os st)"
    by (simp_all add: step_alloc_jfc_def step_active_jfc_def step_active_jfr_def step_alloc_jetty_def step_active_jetty_def
        step_register_seg_def accepted_command [OF assms])
qed

text \<open>
  With a kernel that accepts the commands the set-up goes through, with or without the probe of a standalone
  send queue: it ends with a thread identifier, a token, a registered segment and the page of the jetty held.
\<close>

theorem rdma_setup_succeeds:
  assumes "accepting os" and "rdma_os_ok os" and "length dev_name < 64" and "phase E False False False False False st"
  shows "fst (rdma_setup os dev_name probe st) \<and> phase E True True True False True (snd (rdma_setup os dev_name probe st))"
proof -
  note s = accepted_steps [OF assms(1)] and e = accepted_ensure [OF assms(1,2)]
  have b: "triple (phase E True True False False False) (ensure_runtime_buffers os) (phase E True True False False False) (\<lambda>_. False)"
    unfolding ensure_runtime_buffers_def
    by (rule triple_Cons triple_Nil succeeding [OF ensure_heap_triple [OF assms(2)]] succeeding [OF ensure_map_triple [OF assms(2)]]
        e | simp add: never_mapped_def | assumption)+
  have j: "triple (phase E True True False False False) (step_jfs_probe os probe) (phase E True True False False False) (\<lambda>_. False)"
  proof (rule tripleI)
    fix st :: rdma_st and ok st1
    assume p: "phase E True True False False False st" and "step_jfs_probe os probe st = (ok, st1)"
    then have "ok" "st1 = (if probe then jfs_probe os [UBCORE_TP_RM_USER, UBCORE_TP_UM_USER, UBCORE_TP_RC_USER] st else st)"
      by (simp_all add: step_jfs_probe_def del: jfs_probe.simps)
    with p jfs_probe_phase [OF p] show "if ok then phase E True True False False False st1 else False"
      by presburger
  qed
  have "triple (phase E False False False False False) (rdma_setup os dev_name probe) (phase E True True True False True) (\<lambda>_. False)"
    unfolding rdma_setup_def
    by (rule triple_Cons triple_Nil b j succeeding [OF query_device_triple] succeeding [OF create_ctx_triple]
        succeeding [OF alloc_tid_triple] succeeding [OF alloc_token_triple] succeeding [OF plain_triples(1)]
        succeeding [OF plain_triples(2)] succeeding [OF plain_triples(3)] succeeding [OF plain_triples(4)]
        succeeding [OF plain_triples(5)] succeeding [OF plain_triples(6)] succeeding [OF map_doorbell_triple [OF assms(2)]]
        succeeding [OF register_seg_triple] s assms(3) accepted_doorbell [OF assms(1,2)] | assumption)+
  from tripleD [OF this assms(4)] show ?thesis by (metis prod.collapse)
qed

section \<open>A socket that stays open\<close>

text \<open>
  C17: when the kernel refuses to import the peer's jetty, the run fails and the clean-up leaves the socket of
  the exchange open: it is closed on every other failure, but not on this one.
\<close>

theorem import_failure_leaks_socket:
  assumes "phase (insert fd E) tid tok seg False dsqe st" and "fd \<notin> E"
    and "\<forall>ks n args block priv. fst (rk_ioctl os ks (UBURMA_CMD_IMPORT_JETTY, n, args) block priv) < 0"
  shows "\<not> fst (rdma_attach os role env fd remote st) \<and>
    released os (insert fd E) (snd (cleanup_resources os (snd (rdma_attach os role env fd remote st))))"
proof -
  let ?q = "(res_q (fst st))\<lparr>rq_peer_eid := reverse_bytes (pi_eid remote), rq_peer_jetty_id := pi_jetty_id remote\<rparr>"
  let ?st = "((fst st)\<lparr>res_q := ?q\<rparr>, snd st)"
  have p: "phase (insert fd E) tid tok seg False dsqe ?st" using assms(1) by (simp add: phase_set_q)
  obtain ok res ks where i: "step_import_jetty os remote ?st = (ok, res, ks)" by (metis prod_cases3)
  have "\<not> ok"
  proof -
    obtain ret out ks' where r: "rdma_ioctl os UBURMA_CMD_IMPORT_JETTY (fields_block uburma_cmd_import_jetty (import_jetty_fields remote)) [] (snd ?st) =
        (ret, out, ks')" by (metis prod_cases3)
    with rdma_ioctl_cases(2) [OF r] assms(3) have "ret < 0" by auto
    with i r show ?thesis by (simp add: step_import_jetty_def rdma_command_def)
  qed
  with tripleD [OF import_jetty_triple p i] i have "holds (insert fd E) (res, ks)"
    "rdma_attach os role env fd remote st = (False, res, ks)" by (simp_all add: rdma_attach_def Let_def)
  with cleanup_releases show ?thesis by simp
qed

end
