(* ===== verification/RDMA_Run_Examples.thy ===== *)
theory RDMA_Run_Examples
  imports RDMA_Runs
begin

text \<open>Concrete inputs for the theorems on whole runs of the RDMA demo: a kernel that accepts every command, and
  one that refuses to import jettys.\<close>

section \<open>Kernels\<close>

text \<open>A descriptor from the number of the call, the first free address, and answers that are all ones.\<close>

definition rdma_sample_fd :: "rdma_ks \<Rightarrow> int" where
  "rdma_sample_fd ks = (let fd = 3 + int (ks_calls ks) in if fd \<in> ks_fds ks then - 1 else fd)"

definition rdma_sample_address :: "rdma_ks \<Rightarrow> u64 option" where
  "rdma_sample_address ks = find (\<lambda>a. a \<notin> insert 0 (ks_heap ks \<union> dom (ks_maps ks))) (map of_nat [0..<2 ^ 64])"

definition rdma_sample_os :: "u32 list \<Rightarrow> rdma_os" where
  "rdma_sample_os refused =
     \<lparr>rk_addr = (\<lambda>_. 0x1000), rk_open = (\<lambda>ks _. rdma_sample_fd ks), rk_socket = rdma_sample_fd, rk_bind = (\<lambda>_. True),
      rk_ioctl = (\<lambda>ks (cmd, n, args) block priv. (if cmd \<in> set refused then - 22 else 0, replicate 512 1)),
      rk_alloc_tid = (\<lambda>_. Inr 5), rk_free_tid = (\<lambda>_ _. 0), rk_mmap = (\<lambda>ks _ _ _. rdma_sample_address ks),
      rk_memalign = (\<lambda>ks _. rdma_sample_address ks)\<rparr>"

definition rdma_sample_ks :: rdma_ks where
  "rdma_sample_ks =
     \<lparr>ks_fds = {0, 1, 2}, ks_heap = {}, ks_maps = Map.empty, ks_tids = {}, ks_tokens = {}, ks_segs = {}, ks_tjettys = {},
      ks_kept_tids = {}, ks_kept_tokens = {}, ks_kept_segs = {}, ks_bad = False, ks_calls = 0\<rparr>"

lemma find_someD: "find P xs = Some a \<Longrightarrow> P a"
  by (auto simp: find_Some_iff)

lemma rdma_sample_address_fresh: "rdma_sample_address ks = Some a \<Longrightarrow> a \<noteq> 0 \<and> a \<notin> dom (ks_maps ks) \<and> a \<notin> ks_heap ks"
  unfolding rdma_sample_address_def by (drule find_someD) blast

lemma rdma_sample_address_full: "rdma_sample_address ks = None \<Longrightarrow> insert 0 (ks_heap ks \<union> dom (ks_maps ks)) = UNIV"
proof -
  assume n: "rdma_sample_address ks = None"
  have "a \<in> insert 0 (ks_heap ks \<union> dom (ks_maps ks))" for a :: u64
  proof -
    have "unat a < 2 ^ 64" using unsigned_less [of a] by simp
    moreover have "a = of_nat (unat a)" by simp
    ultimately have "a \<in> set (map of_nat [0..<2 ^ 64])"
      unfolding set_map set_upt by (metis (no_types) image_eqI atLeastLessThan_iff zero_le)
    with n show ?thesis unfolding rdma_sample_address_def find_None_iff by blast
  qed
  then show ?thesis by blast
qed

lemma rdma_sample_os_ok: "rdma_os_ok (rdma_sample_os refused)"
  using rdma_sample_address_fresh by (simp add: rdma_os_ok_def rdma_sample_os_def rdma_sample_fd_def Let_def)

lemma rdma_sample_os_accepting: "accepting (rdma_sample_os [])"
proof -
  have "get_u64 uburma_cmd_alloc_token_id [''out'', ''handle''] (replicate 512 1) \<noteq> 0"
    "get_u64 uburma_cmd_alloc_jfr [''out'', ''handle''] (replicate 512 1) \<noteq> 0" by code_simp+
  then show ?thesis using rdma_sample_address_full by (simp add: accepting_def rdma_sample_os_def)
qed

section \<open>Commands and messages\<close>

definition rdma_sample_peer :: peer_info where
  "rdma_sample_peer = \<lparr>pi_eid = replicate 16 7, pi_jetty_id = 9, pi_token = 0x1234\<rparr>"

definition rdma_sample_local :: peer_info where
  "rdma_sample_local = \<lparr>pi_eid = replicate 16 3, pi_jetty_id = 4, pi_token = 0x4321\<rparr>"

theorem command_fields_sent_witness:
  "list_all (\<lambda>(cmd, fs, rs). command_covered cmd fs rs)
     (rdma_commands (rdma_sample_os []) res_zero (str_bytes ''udma0'' @ [0]) (replicate 16 3) UBCORE_TP_RM_USER rdma_sample_peer)"
  by (rule command_fields_sent) (simp_all add: rdma_sample_peer_def str_bytes_def)

theorem startup_sync_meets_witness:
  "do_startup_sync RDMA_ROLE_INITIATOR (2, 7) [Sent 13] ([Again, Dgram (3, 7) [1]] @ Dgram (2, 7) (str_bytes ''RDMA_SYNC_ACK'') # []) =
     (0, [((2, 7), str_bytes ''RDMA_SYNC_REQ'')]) \<and>
   do_startup_sync RDMA_ROLE_RESPONDER (1, 7) [Sent 13] ([Again] @ Dgram (1, 9) (str_bytes ''RDMA_SYNC_REQ'') # []) =
     (0, [((1, 9), str_bytes ''RDMA_SYNC_ACK'')])"
  by (rule startup_sync_meets) (simp_all add: sync_noise_def sync_matches_def str_bytes_def)

theorem peer_info_exchanged_witness:
  "exchange_peer_info RDMA_ROLE_INITIATOR (2, 7) rdma_sample_local [Sent 10, Send_interrupted, Sent 14]
     [Dgram (9, 9) [1, 2], Interrupted, Dgram (2, 7) (peer_info_bytes rdma_sample_peer)] =
     (Some rdma_sample_peer, [take 10 (peer_info_bytes rdma_sample_local), drop 10 (peer_info_bytes rdma_sample_local)]) \<and>
   exchange_peer_info RDMA_ROLE_RESPONDER (1, 7) rdma_sample_peer [Sent 24]
     [Dgram (1, 7) (take 10 (peer_info_bytes rdma_sample_local)), Dgram (1, 7) (drop 10 (peer_info_bytes rdma_sample_local))] =
     (Some rdma_sample_local, [peer_info_bytes rdma_sample_peer])"
  by (rule peer_info_exchanged) code_simp+

section \<open>Runs\<close>

lemma no_buffers: "bufs_held (\<lambda>_. buf_zero) rdma_sample_ks"
  by (simp add: bufs_held_def own_heap_def own_maps_def owns_def buf_zero_def rdma_sample_ks_def)

lemma rdma_sample_phase:
  "phase {0, 1, 2} False False False False False (res_zero\<lparr>res_fd := 3, res_ummu_fd := 4\<rparr>, rdma_sample_ks\<lparr>ks_fds := {0, 1, 2, 3, 4}\<rparr>)"
  using no_buffers by (auto simp: phase_def holds_def objs_held_defs bufs_held_def res_zero_def rdma_sample_ks_def buf_zero_def)

theorem rdma_setup_succeeds_witness:
  "fst (rdma_setup (rdma_sample_os []) ''udma0'' True (res_zero\<lparr>res_fd := 3, res_ummu_fd := 4\<rparr>, rdma_sample_ks\<lparr>ks_fds := {0, 1, 2, 3, 4}\<rparr>)) \<and>
   phase {0, 1, 2} True True True False True
     (snd (rdma_setup (rdma_sample_os []) ''udma0'' True (res_zero\<lparr>res_fd := 3, res_ummu_fd := 4\<rparr>, rdma_sample_ks\<lparr>ks_fds := {0, 1, 2, 3, 4}\<rparr>)))"
  by (rule rdma_setup_succeeds [OF rdma_sample_os_accepting rdma_sample_os_ok _ rdma_sample_phase]) simp

definition rdma_sample_input :: rdma_input where
  "rdma_sample_input =
     \<lparr>ri_iface_ready = True, ri_has_ip = True, ri_set_ip = True, ri_get_ip = True, ri_device = Some ''udma0'',
      ri_tid_device = ''/dev/ummu_tid'', ri_peer = 0x0a000002, ri_sync_sends = [Send_error], ri_sync_recvs = [],
      ri_info_sends = [], ri_info_recvs = [],
      ri_payload = \<lparr>pe_send_ok = True, pe_recvs = [], pe_first = [], pe_second = [], pe_rx = []\<rparr>\<rparr>"

text \<open>A run that gets as far as the synchronisation.\<close>

lemma exchange_without_sync: "fst (rdma_exchange os RDMA_ROLE_INITIATOR rdma_sample_input st) = False"
  by (auto simp: rdma_exchange_def rdma_sample_input_def do_startup_sync_def str_bytes_def split: prod.split option.split)

definition bare_env_a :: host_env where
  "bare_env_a = \<lparr>getenv = [''LINQU_UB_ROLE'' \<mapsto> ''nodeA''], proc_cmdline = None, valid_ipv4 = (\<lambda>_. True)\<rparr>"

lemma steps_fail: "(\<And>st. fst (g st) = False) \<Longrightarrow> fst (rdma_steps (f # g # fs) st) = False"
  by (auto split: prod.split) (metis fst_conv)

lemma sample_run: "\<exists>ks'. rdma_main (rdma_sample_os []) bare_env_a rdma_sample_input rdma_sample_ks = (1, ks')"
proof -
  have e: "env_or_cmdline bare_env_a ''LINQU_UB_ROLE'' ''linqu_urma_dp_role'' 32 = Some ''nodeA''" by code_simp
  have i: "resolve_ipv4_pair bare_env_a ''nodeA'' INET_ADDRSTRLEN INET_ADDRSTRLEN = Some (''10.0.0.1'', ''10.0.0.2'')" by code_simp
  have o1: "open_uburma_device (rdma_sample_os []) ''udma0'' rdma_sample_ks = (3, rdma_sample_ks\<lparr>ks_fds := {3, 0, 1, 2}, ks_calls := 1\<rparr>)"
    by (simp add: open_uburma_device_def rdma_sample_os_def rdma_sample_fd_def rdma_sample_ks_def ks_got_fd_def ks_tick_def)
  have o2: "open_ummu_tid_device (rdma_sample_os []) path (rdma_sample_ks\<lparr>ks_fds := {3, 0, 1, 2}, ks_calls := 1\<rparr>) =
      (4, rdma_sample_ks\<lparr>ks_fds := {4, 3, 0, 1, 2}, ks_calls := 2\<rparr>)" for path
    by (simp add: open_ummu_tid_device_def rdma_sample_os_def rdma_sample_fd_def rdma_sample_ks_def ks_got_fd_def ks_tick_def)
  have "fst (rdma_device (rdma_sample_os []) RDMA_ROLE_INITIATOR probe rdma_sample_input ''udma0'' rdma_sample_ks) = 1" for probe
    using steps_fail [of "rdma_exchange (rdma_sample_os []) RDMA_ROLE_INITIATOR rdma_sample_input" "rdma_setup (rdma_sample_os []) ''udma0'' probe"
        "[step_unbind_jetty (rdma_sample_os []), step_unimport_jetty (rdma_sample_os [])]", OF exchange_without_sync]
    by (simp add: rdma_device_def o1 o2 split: prod.split del: rdma_steps.simps) (metis fst_conv)
  then show ?thesis
    using e i by (simp add: rdma_main_def parse_rdma_role_def rdma_sample_input_def bare_env_a_def snprintf_s_def) (metis prod.collapse)
qed

lemma rdma_sample_os_takes_back: "rdma_takes_back (rdma_sample_os [])"
  by (simp add: rdma_takes_back_def rdma_sample_os_def)

theorem rdma_main_releases_witness:
  "\<exists>ks' E. rdma_main (rdma_sample_os []) bare_env_a rdma_sample_input rdma_sample_ks = (1, ks') \<and>
     released (rdma_sample_os []) E ks' \<and> none_held ks' \<and> (E = {0, 1, 2} \<or> (\<exists>fd. fd \<notin> {0, 1, 2} \<and> E = insert fd {0, 1, 2}))"
proof -
  have u: "untouched {0, 1, 2} rdma_sample_ks" by (simp add: untouched_def none_held_def rdma_sample_ks_def)
  have n: "none_held ks" if "released (rdma_sample_os []) E ks" for E ks
    using that rdma_sample_os_takes_back by (simp add: released_def)
  obtain ks' where r: "rdma_main (rdma_sample_os []) bare_env_a rdma_sample_input rdma_sample_ks = (1, ks')" using sample_run by blast
  from rdma_main_releases [OF rdma_sample_os_ok u r] r n show ?thesis by blast
qed

theorem import_failure_leaks_socket_witness:
  "\<not> fst (rdma_attach (rdma_sample_os [UBURMA_CMD_IMPORT_JETTY]) RDMA_ROLE_INITIATOR (ri_payload rdma_sample_input) 2 rdma_sample_peer
        (res_zero\<lparr>res_fd := 3, res_ummu_fd := 4\<rparr>, rdma_sample_ks\<lparr>ks_fds := {0, 1, 2, 3, 4}\<rparr>)) \<and>
   released (rdma_sample_os [UBURMA_CMD_IMPORT_JETTY]) {0, 1, 2} (snd (cleanup_resources (rdma_sample_os [UBURMA_CMD_IMPORT_JETTY])
     (snd (rdma_attach (rdma_sample_os [UBURMA_CMD_IMPORT_JETTY]) RDMA_ROLE_INITIATOR (ri_payload rdma_sample_input) 2 rdma_sample_peer
        (res_zero\<lparr>res_fd := 3, res_ummu_fd := 4\<rparr>, rdma_sample_ks\<lparr>ks_fds := {0, 1, 2, 3, 4}\<rparr>)))))"
proof -
  have p: "phase (insert 2 {0, 1}) False False False False False
      (res_zero\<lparr>res_fd := 3, res_ummu_fd := 4\<rparr>, rdma_sample_ks\<lparr>ks_fds := {0, 1, 2, 3, 4}\<rparr>)"
    using rdma_sample_phase by (simp add: insert_commute)
  have n: "\<forall>ks n args block priv. fst (rk_ioctl (rdma_sample_os [UBURMA_CMD_IMPORT_JETTY]) ks (UBURMA_CMD_IMPORT_JETTY, n, args) block priv) < 0"
    by (simp add: rdma_sample_os_def)
  show ?thesis using import_failure_leaks_socket [OF p _ n, of RDMA_ROLE_INITIATOR "ri_payload rdma_sample_input" rdma_sample_peer]
    by (simp add: insert_commute)
qed

end
