(* ===== verification/Net_If.thy ===== *)
theory Net_If
  imports Pool_Config
begin

text \<open>
  How the demos prepare the network interface: they look for it in \<^verbatim>\<open>/proc/net/dev\<close>, wait until it is
  up, give it its address and install the entry of the peer. The text follows \<^verbatim>\<open>ub_chat.c\<close>; the other
  demos have copies of it. The kernel is a parameter; \<open>holding\<close> says which descriptors are open, and every
  function gives back the socket it opens.
\<close>

section \<open>The kernel\<close>

text \<open>Addresses are numbers in host order. Every call is counted, so that two calls may be answered differently; a
  close of something that is not open is remembered.\<close>

record net_ks =
  nk_fds :: "int set"
  nk_bad :: bool
  nk_calls :: nat

record net_os =
  nt_net_dev :: "net_ks \<Rightarrow> string option"
  nt_if_index :: "net_ks \<Rightarrow> string \<Rightarrow> nat"
  nt_socket :: "net_ks \<Rightarrow> string \<Rightarrow> int"
  nt_ioctl :: "net_ks \<Rightarrow> string \<Rightarrow> string \<Rightarrow> u32 \<Rightarrow> u32 option"
  nt_set_arp :: "net_ks \<Rightarrow> string \<Rightarrow> u32 \<Rightarrow> bytes \<Rightarrow> bool"
  nt_setsockopt :: "net_ks \<Rightarrow> string \<Rightarrow> bool"
  nt_bind :: "net_ks \<Rightarrow> u16 \<Rightarrow> bool"
  nt_pton :: "string \<Rightarrow> u32 option"

definition nk_tick :: "net_ks \<Rightarrow> net_ks" where
  "nk_tick ks = ks\<lparr>nk_calls := Suc (nk_calls ks)\<rparr>"

definition nk_open :: "int \<Rightarrow> net_ks \<Rightarrow> net_ks" where
  "nk_open fd ks = nk_tick (if fd < 0 then ks else ks\<lparr>nk_fds := insert fd (nk_fds ks)\<rparr>)"

definition nk_close :: "int \<Rightarrow> net_ks \<Rightarrow> net_ks" where
  "nk_close fd ks = nk_tick (ks\<lparr>nk_fds := nk_fds ks - {fd}, nk_bad := (nk_bad ks \<or> fd \<notin> nk_fds ks)\<rparr>)"

text \<open>The kernel gives descriptors that are not open.\<close>

definition net_os_ok :: "net_os \<Rightarrow> bool" where
  "net_os_ok os \<longleftrightarrow> (\<forall>ks kind. 0 \<le> nt_socket os ks kind \<longrightarrow> nt_socket os ks kind \<notin> nk_fds ks)"

definition holding :: "int set \<Rightarrow> net_ks \<Rightarrow> bool" where
  "holding E ks \<longleftrightarrow> nk_fds ks = E \<and> \<not> nk_bad ks"

lemma holding_tick [simp]: "holding E (nk_tick ks) = holding E ks"
  by (simp add: holding_def nk_tick_def)

lemma holding_failed [simp]: "fd < 0 \<Longrightarrow> holding E (nk_open fd ks) = holding E ks"
  by (simp add: nk_open_def)

lemma holding_open: "holding E ks \<Longrightarrow> 0 \<le> fd \<Longrightarrow> holding (insert fd E) (nk_open fd ks)"
  by (simp add: nk_open_def holding_def nk_tick_def)

lemma holding_close: "holding (insert fd E) ks \<Longrightarrow> fd \<notin> E \<Longrightarrow> holding E (nk_close fd ks)"
  by (auto simp: nk_close_def holding_def nk_tick_def)

lemma fresh_socket:
  assumes "net_os_ok os" and "holding E ks" and "\<not> nt_socket os ks kind < 0"
  shows "holding (insert (nt_socket os ks kind) E) (nk_open (nt_socket os ks kind) ks)" "nt_socket os ks kind \<notin> E"
  using assms holding_open [OF assms(2)] by (auto simp: net_os_ok_def holding_def)

text \<open>A socket that is used and closed.\<close>

lemma socket_closed:
  assumes "net_os_ok os" and "holding E ks" and "\<not> nt_socket os ks kind < 0"
  shows "holding E (nk_close (nt_socket os ks kind) (nk_open (nt_socket os ks kind) ks))"
    "holding E (nk_close (nt_socket os ks kind) (nk_tick (nk_open (nt_socket os ks kind) ks)))"
    "holding E (nk_close (nt_socket os ks kind) (nk_tick (nk_tick (nk_open (nt_socket os ks kind) ks))))"
  using fresh_socket [OF assms] by (simp_all add: holding_close)

section \<open>Addresses\<close>

text \<open>Each address that is not configured is taken from the defaults of the role.\<close>

definition ipv4_pair :: "(string \<times> string) option \<Rightarrow> host_env \<Rightarrow> string option \<Rightarrow> string option \<Rightarrow> nat \<Rightarrow> nat \<Rightarrow> (string \<times> string) option" where
  "ipv4_pair defaults env have_local have_peer local_len peer_len =
     (case (case (have_local, have_peer) of
              (Some l, Some p) \<Rightarrow> Some (l, p)
            | _ \<Rightarrow> map_option (\<lambda>(dl, dp). (case have_local of Some l \<Rightarrow> l | None \<Rightarrow> snprintf_s local_len dl,
                                         case have_peer of Some p \<Rightarrow> p | None \<Rightarrow> snprintf_s peer_len dp)) defaults) of
        None \<Rightarrow> None
      | Some (l, p) \<Rightarrow> if valid_ipv4 env l \<and> valid_ipv4 env p then Some (l, p) else None)"

text \<open>The URMA and TCP demos ask the command line only, and have addresses for two roles.\<close>

definition node_default_ipv4_pair :: "string \<Rightarrow> nat \<Rightarrow> nat \<Rightarrow> (string \<times> string) option" where
  "node_default_ipv4_pair role local_len peer_len =
     (if role = ''nodeA'' then Some (snprintf_s local_len ''10.0.0.1'', snprintf_s peer_len ''10.0.0.2'')
      else if role = ''nodeB'' then Some (snprintf_s local_len ''10.0.0.2'', snprintf_s peer_len ''10.0.0.1'')
      else None)"

definition node_ipv4_pair :: "host_env \<Rightarrow> string \<Rightarrow> nat \<Rightarrow> nat \<Rightarrow> (string \<times> string) option" where
  "node_ipv4_pair env role local_len peer_len =
     ipv4_pair (node_default_ipv4_pair role INET_ADDRSTRLEN INET_ADDRSTRLEN) env
       (cmdline_get_value env ''linqu_ipourma_ipv4'' local_len) (cmdline_get_value env ''linqu_ipourma_peer_ipv4'' peer_len)
       local_len peer_len"

section \<open>The interface\<close>

definition IFNAMSIZ :: nat where "IFNAMSIZ = 16"
definition IFF_UP :: u32 where "IFF_UP = 1"

text \<open>The lines of a file, as \<^verbatim>\<open>fgets\<close> reads them into a buffer of \<open>n\<close> bytes.\<close>

function lines_of :: "nat \<Rightarrow> string \<Rightarrow> string list" where
  "lines_of n s =
     (if s = [] \<or> n < 2 then [] else fgets_line n s # lines_of n (drop (length (fgets_line n s)) s))"
  by pat_completeness auto

lemma fgets_line_nonempty: "s \<noteq> [] \<Longrightarrow> 2 \<le> n \<Longrightarrow> fgets_line n s \<noteq> []"
  by (cases s; cases n) (auto simp: fgets_line_def)

termination lines_of
  by (relation "measure (\<lambda>(_, s). length s)") (auto simp: fgets_line_nonempty)

declare lines_of.simps [simp del]

text \<open>The name in a line: what precedes the colon, without leading blanks, through the first blank.\<close>

definition iface_of_line :: "nat \<Rightarrow> string \<Rightarrow> string option" where
  "iface_of_line name_len line =
     (if CHR '':'' \<notin> set line then None
      else let left = dropWhile (\<lambda>c. c = CHR '' '' \<or> c = CHR 0x09) (takeWhile (\<lambda>c. c \<noteq> CHR '':'') line)
           in if take 7 left \<noteq> ''ipourma'' then None
              else Some (take (name_len - 1) (takeWhile (\<lambda>c. c \<notin> {CHR '' '', CHR 0x09, CHR 0x0D, CHR 0x0A}) left)))"

fun first_iface :: "nat \<Rightarrow> string list \<Rightarrow> string option" where
  "first_iface name_len [] = None"
| "first_iface name_len (l # ls) =
     (case iface_of_line name_len l of None \<Rightarrow> first_iface name_len ls | Some name \<Rightarrow> Some name)"

definition find_ipourma_iface :: "nat \<Rightarrow> string option \<Rightarrow> string option" where
  "find_ipourma_iface name_len net_dev =
     (case net_dev of None \<Rightarrow> None | Some s \<Rightarrow> first_iface name_len (lines_of 512 s))"

definition iface_is_up :: "net_os \<Rightarrow> string \<Rightarrow> net_ks \<Rightarrow> bool \<times> net_ks" where
  "iface_is_up os ifname ks =
     (let fd = nt_socket os ks ''SOCK_DGRAM''; ks1 = nk_open fd ks
      in if fd < 0 then (False, ks1)
         else (case nt_ioctl os ks1 ''SIOCGIFFLAGS'' (snprintf_s IFNAMSIZ ifname) 0 of
                 None \<Rightarrow> False | Some flags \<Rightarrow> flags AND IFF_UP \<noteq> 0,
               nk_close fd (nk_tick ks1)))"

text \<open>Looks while there is time; \<open>looks\<close> says how often the clock is read before the deadline.\<close>

fun wait_iface_ready :: "net_os \<Rightarrow> nat \<Rightarrow> net_ks \<Rightarrow> (string \<times> nat) option \<times> net_ks" where
  "wait_iface_ready os 0 ks = (None, ks)"
| "wait_iface_ready os (Suc looks) ks =
     (case find_ipourma_iface IFNAMSIZ (nt_net_dev os ks) of
        None \<Rightarrow> wait_iface_ready os looks (nk_tick ks)
      | Some name \<Rightarrow>
          (let ifindex = nt_if_index os (nk_tick ks) name
           in if ifindex = 0 then wait_iface_ready os looks (nk_tick (nk_tick ks))
              else case iface_is_up os name (nk_tick (nk_tick ks)) of
                     (up, ks1) \<Rightarrow> if up then (Some (name, ifindex), ks1) else wait_iface_ready os looks ks1))"

definition set_ipv4_addr :: "net_os \<Rightarrow> string \<Rightarrow> string \<Rightarrow> net_ks \<Rightarrow> bool \<times> net_ks" where
  "set_ipv4_addr os ifname addr_str ks =
     (let fd = nt_socket os ks ''SOCK_DGRAM''; ks1 = nk_open fd ks; name = snprintf_s IFNAMSIZ ifname
      in if fd < 0 then (False, ks1)
         else case nt_pton os addr_str of
                None \<Rightarrow> (False, nk_close fd ks1)
              | Some a \<Rightarrow>
                  if nt_ioctl os ks1 ''SIOCSIFADDR'' name a = None then (False, nk_close fd (nk_tick ks1))
                  else let ks2 = nk_tick ks1;
                           mask = (case nt_pton os ''255.255.255.0'' of None \<Rightarrow> 0 | Some m \<Rightarrow> m)
                       in (nt_ioctl os ks2 ''SIOCSIFNETMASK'' name mask \<noteq> None, nk_close fd (nk_tick ks2)))"

text \<open>An address of 0 counts as none.\<close>

definition get_local_ipv4 :: "net_os \<Rightarrow> string \<Rightarrow> net_ks \<Rightarrow> u32 option \<times> net_ks" where
  "get_local_ipv4 os ifname ks =
     (let fd = nt_socket os ks ''SOCK_DGRAM''; ks1 = nk_open fd ks
      in if fd < 0 then (None, ks1)
         else (case nt_ioctl os ks1 ''SIOCGIFADDR'' (snprintf_s IFNAMSIZ ifname) 0 of
                 None \<Rightarrow> None | Some a \<Rightarrow> if a \<noteq> 0 then Some a else None,
               nk_close fd (nk_tick ks1)))"

definition arp_mac :: "u32 \<Rightarrow> bytes" where
  "arp_mac peer = [0x02, 0, 0, 0, ucast (drop_bit 8 peer AND 0xff), ucast (peer AND 0xff)]"

text \<open>A failure is only reported.\<close>

definition install_static_arp :: "net_os \<Rightarrow> string \<Rightarrow> u32 \<Rightarrow> net_ks \<Rightarrow> bool \<times> net_ks" where
  "install_static_arp os ifname peer ks =
     (let fd = nt_socket os ks ''SOCK_DGRAM''; ks1 = nk_open fd ks
      in if fd < 0 then (False, ks1)
         else (nt_set_arp os ks1 (snprintf_s IFNAMSIZ ifname) peer (arp_mac peer), nk_close fd (nk_tick ks1)))"

text \<open>The part of \<^verbatim>\<open>main\<close> between waiting for the interface and opening sockets: the local and the peer
  address.\<close>

definition net_setup :: "net_os \<Rightarrow> string \<Rightarrow> string \<Rightarrow> string \<Rightarrow> net_ks \<Rightarrow> (u32 \<times> u32) option \<times> net_ks" where
  "net_setup os ifname my_ip peer_ip ks =
     (let desired = (case nt_pton os my_ip of None \<Rightarrow> 0 | Some a \<Rightarrow> a)
      in case get_local_ipv4 os ifname ks of
           (cur, ks1) \<Rightarrow>
             (case (if cur = Some desired then (True, ks1) else set_ipv4_addr os ifname my_ip ks1) of
                (ok, ks2) \<Rightarrow>
                  if \<not> ok then (None, ks2)
                  else case get_local_ipv4 os ifname ks2 of
                         (None, ks3) \<Rightarrow> (None, ks3)
                       | (Some l, ks3) \<Rightarrow>
                           (case nt_pton os peer_ip of
                              None \<Rightarrow> (None, ks3)
                            | Some p \<Rightarrow> (Some (l, p), snd (install_static_arp os ifname p ks3)))))"

section \<open>Nothing stays open\<close>

lemma iface_holding:
  assumes "net_os_ok os" and "holding E ks"
  shows "holding E (snd (iface_is_up os ifname ks))" "holding E (snd (set_ipv4_addr os ifname addr_str ks))"
    "holding E (snd (get_local_ipv4 os ifname ks))" "holding E (snd (install_static_arp os ifname peer ks))"
proof -
  note s = socket_closed [OF assms]
  show "holding E (snd (iface_is_up os ifname ks))"
    using s assms(2) by (simp add: iface_is_up_def Let_def)
  show "holding E (snd (set_ipv4_addr os ifname addr_str ks))"
    using s assms(2) by (simp add: set_ipv4_addr_def Let_def split: option.split)
  show "holding E (snd (get_local_ipv4 os ifname ks))"
    using s assms(2) by (simp add: get_local_ipv4_def Let_def)
  show "holding E (snd (install_static_arp os ifname peer ks))"
    using s assms(2) by (simp add: install_static_arp_def Let_def)
qed

lemma wait_iface_holding: "net_os_ok os \<Longrightarrow> holding E ks \<Longrightarrow> holding E (snd (wait_iface_ready os looks ks))"
proof (induction looks arbitrary: ks)
  case (Suc looks)
  have "holding E (snd (iface_is_up os name (nk_tick (nk_tick ks))))" for name
    using iface_holding(1) Suc.prems by simp
  with Suc show ?case by (auto simp: Let_def case_prod_beta split: option.split)
qed simp

lemma net_setup_holding:
  assumes "net_os_ok os" and "holding E ks"
  shows "holding E (snd (net_setup os ifname my_ip peer_ip ks))"
proof -
  obtain cur ks1 where g: "get_local_ipv4 os ifname ks = (cur, ks1)" by fastforce
  then have k1: "holding E ks1" using iface_holding(3) [OF assms, of ifname] by simp
  let ?s = "if cur = Some (case nt_pton os my_ip of None \<Rightarrow> 0 | Some a \<Rightarrow> a) then (True, ks1) else set_ipv4_addr os ifname my_ip ks1"
  obtain ok ks2 where s: "?s = (ok, ks2)" by (rule prod.exhaust)
  have "holding E (snd ?s)" using k1 iface_holding(2) [OF assms(1) k1] by simp
  then have k2: "holding E ks2" by (simp add: s)
  obtain cur2 ks3 where g2: "get_local_ipv4 os ifname ks2 = (cur2, ks3)" by fastforce
  then have k3: "holding E ks3" using iface_holding(3) [OF assms(1) k2, of ifname] by simp
  show ?thesis
    unfolding net_setup_def Let_def g prod.case s
    using k2 k3 iface_holding(4) [OF assms(1) k3] by (cases ok; cases cur2; cases "nt_pton os peer_ip") (simp_all add: g2)
qed

text \<open>The name that is found fits a \<^verbatim>\<open>struct ifreq\<close> and has no blank in it.\<close>

lemma iface_of_line_name:
  assumes "iface_of_line IFNAMSIZ line = Some name"
  shows "take 7 name = ''ipourma'' \<and> length name < IFNAMSIZ \<and> CHR '' '' \<notin> set name \<and> CHR '':'' \<notin> set name"
proof -
  define left where "left = dropWhile (\<lambda>c. c = CHR '' '' \<or> c = CHR 0x09) (takeWhile (\<lambda>c. c \<noteq> CHR '':'') line)"
  have n: "name = take 15 (takeWhile (\<lambda>c. c \<notin> {CHR '' '', CHR 0x09, CHR 0x0D, CHR 0x0A}) left)" and p: "take 7 left = ''ipourma''"
    using assms by (auto simp: iface_of_line_def Let_def IFNAMSIZ_def left_def split: if_splits)
  have "left = ''ipourma'' @ drop 7 left" using append_take_drop_id [of 7 left] unfolding p by (rule sym)
  then obtain r where l: "left = ''ipourma'' @ r" by blast
  have "take 7 name = ''ipourma''" unfolding n l by simp
  moreover have "length name < IFNAMSIZ" unfolding n by (simp add: IFNAMSIZ_def)
  moreover have "CHR '' '' \<notin> set name" using n by (auto dest!: in_set_takeD set_takeWhileD)
  moreover have "set name \<subseteq> set left" using n by (auto dest!: in_set_takeD set_takeWhileD)
  then have "CHR '':'' \<notin> set name" unfolding left_def by (auto dest!: set_dropWhileD set_takeWhileD)
  ultimately show ?thesis by blast
qed

lemma first_iface_name:
  "first_iface IFNAMSIZ ls = Some name \<Longrightarrow>
     take 7 name = ''ipourma'' \<and> length name < IFNAMSIZ \<and> CHR '' '' \<notin> set name \<and> CHR '':'' \<notin> set name"
  by (induction ls) (auto split: option.splits dest: iface_of_line_name)

lemma wait_iface_name:
  "wait_iface_ready os looks ks = (Some (name, ifindex), ks') \<Longrightarrow>
     take 7 name = ''ipourma'' \<and> length name < IFNAMSIZ \<and> CHR '' '' \<notin> set name \<and> CHR '':'' \<notin> set name \<and> 0 < ifindex"
proof (induction looks arbitrary: ks)
  case (Suc looks)
  show ?case
  proof (cases "find_ipourma_iface IFNAMSIZ (nt_net_dev os ks)")
    case None
    with Suc show ?thesis by simp
  next
    case (Some n)
    then have "take 7 n = ''ipourma'' \<and> length n < IFNAMSIZ \<and> CHR '' '' \<notin> set n \<and> CHR '':'' \<notin> set n"
      by (auto simp: find_ipourma_iface_def split: option.splits dest: first_iface_name)
    with Some Suc show ?thesis by (auto simp: Let_def split: if_splits prod.splits)
  qed
qed simp

end
