(* ===== verification/RPC_Main.thy ===== *)
theory RPC_Main
  imports RPC_Server Net_If
begin

text \<open>
  The program of the RPC demo around its server and client: it finds out which of the two it is, prepares the
  interface and opens its one socket. The functions for the interface are, line for line, those of
  \<^verbatim>\<open>ub_chat.c\<close> (theory \<open>Net_If\<close>). The lemmas show that the socket is closed on every path, what it takes for
  the program to run its part, and what becomes of the client when the last answer of the server is lost.
\<close>

section \<open>The program\<close>

definition RPC_PORT :: u16 where "RPC_PORT = 18557"

text \<open>Only the first option and the binding can make it fail; the other options are reported when they fail.\<close>

definition create_rpc_socket :: "net_os \<Rightarrow> u16 \<Rightarrow> net_ks \<Rightarrow> int \<times> net_ks" where
  "create_rpc_socket os port ks =
     (let fd = nt_socket os ks ''SOCK_DGRAM''; ks1 = nk_open fd ks
      in if fd < 0 then (- 1, ks1)
         else if \<not> nt_setsockopt os ks1 ''SO_REUSEADDR'' then (- 1, nk_close fd (nk_tick ks1))
         else if \<not> nt_bind os (nk_tick ks1) port then (- 1, nk_close fd (nk_tick (nk_tick ks1)))
         else (fd, nk_tick (nk_tick ks1)))"

text \<open>The local address, set when the interface has none or another one.\<close>

definition addr_setup :: "net_os \<Rightarrow> string \<Rightarrow> string \<Rightarrow> net_ks \<Rightarrow> u32 option \<times> net_ks" where
  "addr_setup os ifname my_ip ks =
     (let desired = (case nt_pton os my_ip of None \<Rightarrow> 0 | Some a \<Rightarrow> a)
      in case get_local_ipv4 os ifname ks of
           (cur, ks1) \<Rightarrow>
             (case (if cur = Some desired then (True, ks1) else set_ipv4_addr os ifname my_ip ks1) of
                (ok, ks2) \<Rightarrow> if \<not> ok then (None, ks2) else get_local_ipv4 os ifname ks2))"

text \<open>Only the client needs the peer: its address and the entry for it.\<close>

definition peer_setup :: "net_os \<Rightarrow> rpc_mode \<Rightarrow> string \<Rightarrow> string \<Rightarrow> net_ks \<Rightarrow> bool \<times> net_ks" where
  "peer_setup os mode ifname peer_ip ks =
     (if mode = RPC_MODE_CLIENT
      then (case nt_pton os peer_ip of
              None \<Rightarrow> (False, ks)
            | Some p \<Rightarrow> (True, snd (install_static_arp os ifname p ks)))
      else (True, ks))"

text \<open>What the sockets and the clock deliver to the server or to the two calls of the client.\<close>

record rpc_log =
  rl_start_ms :: int
  rl_events :: "net_event list"
  rl_echo_start :: int
  rl_echo :: "attempt list"
  rl_crc_start :: int
  rl_crc :: "attempt list"

text \<open>A server may still run at the end of the events, and a request may ask for undefined arithmetic.\<close>

datatype rpc_end = Exited int | Still_running | Undefined_arith

definition server_end :: "u32 \<Rightarrow> rpc_log \<Rightarrow> rpc_end" where
  "server_end expected_calls log =
     (case run_rpc_server expected_calls (rl_events log) (server_init (rl_start_ms log)) of
        None \<Rightarrow> Undefined_arith
      | Some (rc, _, _) \<Rightarrow> (case rc of None \<Rightarrow> Still_running | Some ret \<Rightarrow> Exited ret))"

definition rpc_main :: "net_os \<Rightarrow> host_env \<Rightarrow> nat \<Rightarrow> rpc_log \<Rightarrow> net_ks \<Rightarrow> rpc_end \<times> net_ks" where
  "rpc_main os env looks log ks =
     (case get_rpc_mode env 32 of
        None \<Rightarrow> (Exited 1, ks)
      | Some (mode, role_hint) \<Rightarrow>
          (case wait_iface_ready os looks ks of
             (None, ks1) \<Rightarrow> (Exited 1, ks1)
           | (Some (ifname, ifindex), ks1) \<Rightarrow>
               (case resolve_local_ipv4 env role_hint INET_ADDRSTRLEN of
                  None \<Rightarrow> (Exited 1, ks1)
                | Some my_ip \<Rightarrow>
                    (case (if mode = RPC_MODE_CLIENT then resolve_peer_ipv4 env role_hint INET_ADDRSTRLEN else Some []) of
                       None \<Rightarrow> (Exited 1, ks1)
                     | Some peer_ip \<Rightarrow>
                         (case addr_setup os ifname my_ip ks1 of
                            (None, ks2) \<Rightarrow> (Exited 1, ks2)
                          | (Some local_addr, ks2) \<Rightarrow>
                              (case peer_setup os mode ifname peer_ip ks2 of
                                 (ok, ks3) \<Rightarrow>
                                   if \<not> ok then (Exited 1, ks3)
                                   else case create_rpc_socket os (if mode = RPC_MODE_SERVER then RPC_PORT else 0) ks3 of
                                          (sock, ks4) \<Rightarrow>
                                            if sock < 0 then (Exited 1, ks4)
                                            else (case (if mode = RPC_MODE_SERVER
                                                        then server_end (get_expected_call_count env mode) log
                                                        else Exited (run_rpc_client my_ip peer_ip (rl_echo_start log) (rl_echo log) (rl_crc_start log) (rl_crc log))) of
                                                    Exited ret \<Rightarrow> (Exited ret, nk_close sock ks4)
                                                  | unfinished \<Rightarrow> (unfinished, ks4))))))))"

section \<open>The socket\<close>

text \<open>The other demos do both in one.\<close>

lemma net_setup_parts:
  "net_setup os ifname my_ip peer_ip ks =
     (case addr_setup os ifname my_ip ks of
        (None, ks1) \<Rightarrow> (None, ks1)
      | (Some l, ks1) \<Rightarrow>
          (map_option (Pair l) (nt_pton os peer_ip), snd (peer_setup os RPC_MODE_CLIENT ifname peer_ip ks1)))"
  by (auto simp: net_setup_def addr_setup_def peer_setup_def Let_def split: prod.split option.split)

lemma addr_setup_holding:
  assumes "net_os_ok os" and "holding E ks"
  shows "holding E (snd (addr_setup os ifname my_ip ks))"
proof -
  obtain cur ks1 where g: "get_local_ipv4 os ifname ks = (cur, ks1)" by (rule prod.exhaust)
  then have k1: "holding E ks1" using iface_holding(3) [OF assms, of ifname] by simp
  let ?s = "if cur = Some (case nt_pton os my_ip of None \<Rightarrow> 0 | Some a \<Rightarrow> a) then (True, ks1) else set_ipv4_addr os ifname my_ip ks1"
  obtain ok ks2 where s: "?s = (ok, ks2)" by (rule prod.exhaust)
  have "holding E (snd ?s)" using k1 iface_holding(2) [OF assms(1) k1] by simp
  then have k2: "holding E ks2" by (simp add: s)
  show ?thesis
    unfolding addr_setup_def Let_def g prod.case s using k2 iface_holding(3) [OF assms(1) k2] by simp
qed

lemma peer_setup_holding: "net_os_ok os \<Longrightarrow> holding E ks \<Longrightarrow> holding E (snd (peer_setup os mode ifname peer_ip ks))"
  by (simp add: peer_setup_def iface_holding(4) split: option.split)

lemma rpc_socket_holding:
  assumes "net_os_ok os" and "holding E ks" and "create_rpc_socket os port ks = (fd, ks')"
  shows "fd < 0 \<Longrightarrow> holding E ks'" "\<not> fd < 0 \<Longrightarrow> holding (insert fd E) ks' \<and> fd \<notin> E"
  using assms(3) socket_closed [OF assms(1,2)] fresh_socket [OF assms(1,2)] assms(2)
  by (auto simp: create_rpc_socket_def Let_def split: if_splits)

lemma server_exit_code: "run_rpc_server n es sv = Some (Some ret, out, sv') \<Longrightarrow> ret = 0 \<or> ret = 1"
  by (induction n es sv arbitrary: out rule: run_rpc_server.induct)
    (auto simp: Let_def split: option.splits if_splits)

lemma run_ends_codes: "server_end n log = Exited ret \<Longrightarrow> ret = 0 \<or> ret = 1" "run_rpc_client a b t as u bs \<in> {0, 1}"
  by (auto simp: server_end_def run_rpc_client_def Let_def split: option.splits prod.splits dest: server_exit_code)

text \<open>
  Whatever the kernel and the network answer, the program ends with status 0 or 1 and the descriptors open that
  were open before; while the server still runs, or when a request makes it compute what C leaves undefined,
  exactly one socket more is open.
\<close>

lemma rpc_main_releases:
  assumes "net_os_ok os" and "holding E ks"
  shows "case rpc_main os env looks log ks of (e, ks') \<Rightarrow>
    (case e of Exited ret \<Rightarrow> holding E ks' \<and> (ret = 0 \<or> ret = 1)
     | _ \<Rightarrow> \<exists>sock. sock \<notin> E \<and> holding (insert sock E) ks')"
proof (cases "get_rpc_mode env 32")
  case None
  with assms show ?thesis by (simp add: rpc_main_def)
next
  case g: (Some mh)
  obtain mode hint where mh: "mh = (mode, hint)" by (rule prod.exhaust)
  obtain found ks1 where w: "wait_iface_ready os looks ks = (found, ks1)" by (rule prod.exhaust)
  then have k1: "holding E ks1" using wait_iface_holding [OF assms, of looks] by simp
  let ?peer = "if mode = RPC_MODE_CLIENT then resolve_peer_ipv4 env hint INET_ADDRSTRLEN else Some []"
  show ?thesis
  proof (cases "\<exists>ifname ifindex my_ip peer_ip. found = Some (ifname, ifindex) \<and>
      resolve_local_ipv4 env hint INET_ADDRSTRLEN = Some my_ip \<and> ?peer = Some peer_ip")
    case False
    have "rpc_main os env looks log ks = (Exited 1, ks1)"
    proof (cases found)
      case None
      with g mh w show ?thesis by (simp add: rpc_main_def)
    next
      case f: (Some ni)
      obtain ifname ifindex where ni: "ni = (ifname, ifindex)" by (rule prod.exhaust)
      show ?thesis
        using False by (cases "resolve_local_ipv4 env hint INET_ADDRSTRLEN"; cases ?peer) (simp_all add: rpc_main_def g mh w f ni)
    qed
    with k1 show ?thesis by simp
  next
    case True
    then obtain ifname ifindex my_ip peer_ip where f: "found = Some (ifname, ifindex)"
      "resolve_local_ipv4 env hint INET_ADDRSTRLEN = Some my_ip" "?peer = Some peer_ip" by blast
    obtain addr ks2 where a: "addr_setup os ifname my_ip ks1 = (addr, ks2)" by (rule prod.exhaust)
    then have k2: "holding E ks2" using addr_setup_holding [OF assms(1) k1, of ifname my_ip] by simp
    obtain ok ks3 where p: "peer_setup os mode ifname peer_ip ks2 = (ok, ks3)" by (rule prod.exhaust)
    then have k3: "holding E ks3" using peer_setup_holding [OF assms(1) k2, of mode ifname peer_ip] by simp
    obtain sock ks4 where c: "create_rpc_socket os (if mode = RPC_MODE_SERVER then RPC_PORT else 0) ks3 = (sock, ks4)"
      by (rule prod.exhaust)
    note hs = rpc_socket_holding [OF assms(1) k3 c]
    define e where "e = (if mode = RPC_MODE_SERVER then server_end (get_expected_call_count env mode) log
      else Exited (run_rpc_client my_ip peer_ip (rl_echo_start log) (rl_echo log) (rl_crc_start log) (rl_crc log)))"
    have code: "ret = 0 \<or> ret = 1" if "e = Exited ret" for ret
      using that run_ends_codes(1) run_ends_codes(2) [of my_ip peer_ip "rl_echo_start log" "rl_echo log" "rl_crc_start log" "rl_crc log"] by (auto simp: e_def split: if_splits)
    have "rpc_main os env looks log ks =
        (case addr of None \<Rightarrow> (Exited 1, ks2)
         | Some l \<Rightarrow> if \<not> ok then (Exited 1, ks3) else if sock < 0 then (Exited 1, ks4)
           else case e of Exited ret \<Rightarrow> (Exited ret, nk_close sock ks4) | unfinished \<Rightarrow> (unfinished, ks4))"
      unfolding rpc_main_def g mh w f option.case prod.case a p c e_def by (cases addr) (simp_all only: option.case prod.case p c)
    then show ?thesis
      using k2 k3 hs code holding_close [of sock E ks4] by (auto split: option.split rpc_end.split)
  qed
qed

text \<open>The alarm ends a server, whatever came before.\<close>

lemma alarm_ends_server:
  assumes "Alarm \<in> set (rl_events log)"
  shows "server_end n log \<noteq> Still_running"
proof -
  have "Alarm \<in> set es \<Longrightarrow> run_rpc_server n es sv = Some (rc, out, sv') \<Longrightarrow> rc \<noteq> None" for es sv rc out sv'
    by (induction n es sv arbitrary: rc out rule: run_rpc_server.induct)
      (auto simp: Let_def split: option.splits if_splits)
  from this [OF assms] show ?thesis by (fastforce simp: server_end_def split: option.splits)
qed

section \<open>The last answer\<close>

lemma room_after_one: "seen_room (seen_put (sv_seen (server_init now)) (ip, i, op) p)"
proof -
  have "replicate RPC_SERVER_MAX_SEEN free_entry = free_entry # replicate 255 free_entry"
    using replicate_Suc [of 255 free_entry] by (simp add: RPC_SERVER_MAX_SEEN_def)
  then show ?thesis by (simp add: server_init_def seen_room_def free_entry_def)
qed

lemma init_unseen: "seen_look (sv_seen (server_init now)) k = None"
  by (cases k) (auto simp: seen_look_def server_init_def find_None_iff free_entry_def)

text \<open>A call to which nothing is answered.\<close>

lemma client_loop_silent:
  "\<forall>a \<in> set as. at_recv a = None \<Longrightarrow> fst (client_loop i d k as) = - 1"
proof (induction as arbitrary: k)
  case (Cons a as)
  then have "fst (client_loop i d (Suc k) as) = - 1" by simp
  with Cons.prems show ?case by (cases "client_loop i d (Suc k) as") (auto simp: Let_def)
qed simp

lemma client_silent:
  assumes "\<forall>a \<in> set as. at_recv a = None"
  shows "fst (rpc_client_send_recv i op payload t as) = - 1"
  using client_loop_silent [OF assms] by (simp add: rpc_client_send_recv_def split: option.split)

lemma default_count:
  assumes "getenv env ''LINQU_RPC_EXPECT_CALLS'' = None" and "cmdline_get_value env ''linqu_rpc_expected_calls'' 32 = None"
  shows "get_expected_call_count env RPC_MODE_SERVER = 2"
  using assms by (simp add: get_expected_call_count_def get_env_value_def)

text \<open>
  C28: with the default number of calls the repetition that makes up for lost datagrams does not cover the last
  one. The server stops with success as soon as it has sent the second answer, whatever arrives later; when just
  this answer is lost, every repetition of the request meets a closed port and the client, which heard the first
  answer, fails. A server without a limit on the calls sends the same answer again.
\<close>

theorem last_answer_lost:
  assumes "length local_ip \<le> 15" and "no_nul local_ip" and "no_nul peer_ip"
    and "getenv env ''LINQU_RPC_EXPECT_CALLS'' = None" and "cmdline_get_value env ''linqu_rpc_expected_calls'' 32 = None"
    and "\<forall>a \<in> set unanswered. at_recv a = None"
  shows "\<exists>s1 s2 r1 r2 sv.
    rpc_build_request 1024 1 ''ECHO'' (echo_text local_ip) = Some s1 \<and>
    rpc_build_request 1024 2 ''CRC32'' (crc_payload local_ip peer_ip) = Some s2 \<and>
    run_rpc_server (get_expected_call_count env RPC_MODE_SERVER)
      (Datagram e1 local_ip s1 # Datagram e2 local_ip s2 # later) (server_init now) = Some (Some 0, [r1, r2], sv) \<and>
    (\<forall>start1 as1 start2. heard_in_time r1 start1 start1 as1 \<longrightarrow>
      run_rpc_client local_ip peer_ip start1 as1 start2 unanswered = 1) \<and>
    run_rpc_server 0 [Datagram e1 local_ip s1, Datagram e2 local_ip s2, Datagram e3 local_ip s2] (server_init now) =
      Some (None, [r1, r2, r2], sv)"
proof -
  let ?sv = "server_init now" and ?c = "crc_payload local_ip peer_ip" and ?h = "crc_reply local_ip peer_ip"
  let ?t1 = "seen_put (sv_seen ?sv) (local_ip, 1, ''ECHO'') (echo_text local_ip)"
  let ?t2 = "seen_put ?t1 (local_ip, 2, ''CRC32'') ?h"
  from client_calls_served [OF assms(1-3) init_unseen init_unseen, of e1 now e2] obtain s1 s2 r1 r2 where
    s: "rpc_build_request 1024 1 ''ECHO'' (echo_text local_ip) = Some s1" "rpc_build_request 1024 2 ''CRC32'' ?c = Some s2"
      "parsed s2 = Some \<lparr>rm_id = 2, rm_tag = ''CRC32'', rm_plen = length ?c, rm_payload = ?c\<rparr>"
    and h: "\<And>n. rpc_server_handle n e1 local_ip s1 ?sv = Some (Some r1, 0 < n \<and> n \<le> 1, ?sv\<lparr>sv_seen := ?t1, sv_count := 1\<rparr>)"
      "\<And>n. rpc_server_handle n e2 local_ip s2 (?sv\<lparr>sv_seen := ?t1, sv_count := 1\<rparr>) =
        Some (Some r2, 0 < n \<and> n \<le> 2, ?sv\<lparr>sv_seen := ?t2, sv_count := 2\<rparr>)"
    and r: "rpc_parse_response 64 512 (c_string (take 1023 r1)) =
        Some \<lparr>rm_id = 1, rm_tag = ''OK'', rm_plen = length (echo_text local_ip), rm_payload = echo_text local_ip\<rparr>"
      and b: "rpc_build_response 1024 2 ''OK'' ?h = Some r2"
    by (auto simp: server_init_def simp del: seen_put.simps)
  have ok: "reply_ok ?h" by (simp add: reply_ok_def crc_reply_def length_show_hex32)
  have k: "key_ok (local_ip, 1, ''ECHO'')" "key_ok (local_ip, 2, ''CRC32'')" "reply_ok (echo_text local_ip)"
    using assms(1) by (simp_all add: reply_ok_def echo_text_def snprintf_s_def)
  have "seen_look ?t1 (local_ip, 2, ''CRC32'') = None"
    using seen.look_put_other [OF k(1,3), of "(local_ip, 2, ''CRC32'')"] init_unseen by (simp del: seen_put.simps)
  from seen.look_put [OF k(2) ok room_after_one this]
  have l: "seen_look ?t2 (local_ip, 2, ''CRC32'') = Some ?h" .
  have "rpc_build_response 1024 2 ''OK'' (snprintf_s 512 ?h) = Some r2"
    using b by (simp add: crc_reply_def snprintf_s_def length_show_hex32)
  then have again: "rpc_server_handle n e3 local_ip s2 (?sv\<lparr>sv_seen := ?t2, sv_count := 2\<rparr>) =
      Some (Some r2, False, ?sv\<lparr>sv_seen := ?t2, sv_count := 2\<rparr>)" for n
    using handle_hit [OF s(3), of "?sv\<lparr>sv_seen := ?t2, sv_count := 2\<rparr>" local_ip ?h n e3] l
    by (simp add: key_of_def del: seen_put.simps)
  have "run_rpc_client local_ip peer_ip start1 as1 start2 unanswered = 1" for start1 as1 start2
    using client_silent [OF assms(6), of 2 "''CRC32''" ?c start2] by (auto simp: run_rpc_client_def Let_def split: prod.split)
  moreover have "\<not> (2 :: u32) \<le> 1" by (simp add: word_le_nat_alt)
  then have "run_rpc_server 2 (Datagram e1 local_ip s1 # Datagram e2 local_ip s2 # later) ?sv =
      Some (Some 0, [r1, r2], ?sv\<lparr>sv_seen := ?t2, sv_count := 2\<rparr>)"
    by (simp add: h Let_def del: seen_put.simps)
  moreover have "run_rpc_server 0 [Datagram e1 local_ip s1, Datagram e2 local_ip s2, Datagram e3 local_ip s2] ?sv =
      Some (None, [r1, r2, r2], ?sv\<lparr>sv_seen := ?t2, sv_count := 2\<rparr>)"
    by (simp add: h again Let_def del: seen_put.simps)
  ultimately show ?thesis using s(1,2) unfolding default_count [OF assms(4,5)] by blast
qed

end
