(* ===== verification/Chat.thy ===== *)
theory Chat
  imports Net_If
begin

text \<open>
  The chat demo (\<^verbatim>\<open>ub_chat.c\<close>): two guests synchronise over one UDP port and exchange five
  greetings and replies over another. Times, and what each receive returns, are inputs: one list per loop, which
  ends where the deadline passes or the alarm fires. Latencies are only printed and left out.
\<close>

section \<open>Configuration\<close>

definition CHAT_PORT :: u16 where "CHAT_PORT = 18556"
definition CHAT_SYNC_PORT :: u16 where "CHAT_SYNC_PORT = 18559"
definition CHAT_ROUNDS :: nat where "CHAT_ROUNDS = 5"
definition RUN_TIMEOUT_S :: nat where "RUN_TIMEOUT_S = 30"
definition CHAT_REQ_TEXT :: string where "CHAT_REQ_TEXT = ''greeting from initiator''"
definition CHAT_RSP_TEXT :: string where "CHAT_RSP_TEXT = ''copy, greeting back from responder''"

definition resolve_timeout_s :: "host_env \<Rightarrow> nat" where
  "resolve_timeout_s env =
     (case get_config_value env ''LINQU_UB_TIMEOUT_S'' ''linqu_ub_chat_timeout_s'' 32 of
        None \<Rightarrow> RUN_TIMEOUT_S
      | Some buf \<Rightarrow>
          (case strtoul buf of
             (v, rest, err) \<Rightarrow> if err \<or> rest = buf \<or> rest \<noteq> [] then RUN_TIMEOUT_S else if v < 5 then 5 else if 600 < v then 600 else v))"

definition resolve_post_sync_settle_ms :: "host_env \<Rightarrow> nat" where
  "resolve_post_sync_settle_ms env =
     (case get_config_value env ''LINQU_UB_POST_SYNC_SETTLE_MS'' ''linqu_ub_chat_post_sync_settle_ms'' 32 of
        None \<Rightarrow> 0
      | Some buf \<Rightarrow>
          (case strtoul buf of (v, rest, err) \<Rightarrow> if err \<or> rest = buf \<or> rest \<noteq> [] then 0 else if 30000 < v then 30000 else v))"

text \<open>Comparison without regard to case is that of the lower-case letters.\<close>

definition to_lower :: "char \<Rightarrow> char" where
  "to_lower c = (if 65 \<le> code c \<and> code c \<le> 90 then char_of (code c + 32) else c)"

definition resolve_shared_socket_mode :: "host_env \<Rightarrow> bool" where
  "resolve_shared_socket_mode env =
     (case get_config_value env ''LINQU_UB_CHAT_SHARED_SOCKET'' ''linqu_ub_chat_shared_socket'' 16 of
        None \<Rightarrow> False
      | Some buf \<Rightarrow> buf = ''1'' \<or> map to_lower buf = ''true'' \<or> map to_lower buf = ''yes'')"

definition normalize_role :: "nat \<Rightarrow> string \<Rightarrow> string option" where
  "normalize_role out_len s =
     (if s = ''initiator'' \<or> s = ''nodeA'' then Some (snprintf_s out_len ''initiator'')
      else if s = ''responder'' \<or> s = ''nodeB'' then Some (snprintf_s out_len ''responder'')
      else None)"

definition role_is_initiator :: "string \<Rightarrow> bool" where
  "role_is_initiator role \<longleftrightarrow> role = ''initiator''"

definition chat_default_ipv4_pair :: "string \<Rightarrow> nat \<Rightarrow> nat \<Rightarrow> (string \<times> string) option" where
  "chat_default_ipv4_pair role local_len peer_len =
     (if role_is_initiator role then Some (snprintf_s local_len ''10.0.0.1'', snprintf_s peer_len ''10.0.0.2'')
      else if role = ''responder'' then Some (snprintf_s local_len ''10.0.0.2'', snprintf_s peer_len ''10.0.0.1'')
      else None)"

definition chat_ipv4_pair :: "host_env \<Rightarrow> string \<Rightarrow> nat \<Rightarrow> nat \<Rightarrow> (string \<times> string) option" where
  "chat_ipv4_pair env role local_len peer_len =
     ipv4_pair (chat_default_ipv4_pair role INET_ADDRSTRLEN INET_ADDRSTRLEN) env
       (get_config_value env ''LINQU_UB_LOCAL_IP'' ''linqu_ipourma_ipv4'' local_len)
       (get_config_value env ''LINQU_UB_PEER_IP'' ''linqu_ipourma_peer_ipv4'' peer_len) local_len peer_len"

section \<open>Sockets\<close>

text \<open>Only the first option and the binding can make it fail; the other options are reported when they fail.\<close>

definition chat_socket :: "net_os \<Rightarrow> u16 \<Rightarrow> net_ks \<Rightarrow> int \<times> net_ks" where
  "chat_socket os port ks =
     (let fd = nt_socket os ks ''SOCK_DGRAM''; ks1 = nk_open fd ks
      in if fd < 0 then (- 1, ks1)
         else if \<not> nt_setsockopt os ks1 ''SO_REUSEADDR'' then (- 1, nk_close fd (nk_tick ks1))
         else if \<not> nt_bind os (nk_tick ks1) port then (- 1, nk_close fd (nk_tick (nk_tick ks1)))
         else (fd, nk_tick (nk_tick ks1)))"

definition create_chat_socket :: "net_os \<Rightarrow> net_ks \<Rightarrow> int \<times> net_ks" where
  "create_chat_socket os ks = chat_socket os CHAT_PORT ks"

definition create_sync_socket :: "net_os \<Rightarrow> net_ks \<Rightarrow> int \<times> net_ks" where
  "create_sync_socket os ks = chat_socket os CHAT_SYNC_PORT ks"

section \<open>Synchronisation\<close>

text \<open>A receive gives a datagram with its sender, or nothing, or fails.\<close>

datatype chat_ev = Chat_dgram "u32 \<times> u16" string | Chat_again | Chat_error

definition sync_text_in :: "string \<Rightarrow> string \<Rightarrow> bool" where
  "sync_text_in text d =
     (let buf = take 63 d in take 8 buf = text \<or> 10 \<le> length buf \<and> take 8 (drop 2 buf) = text)"

text \<open>Result and number of requests: one is sent before every look, whether the last look failed or not.\<close>

fun do_startup_sync_initiator :: "chat_ev list \<Rightarrow> int \<times> nat" where
  "do_startup_sync_initiator [] = (- 1, 0)"
| "do_startup_sync_initiator (e # es) =
     (if \<exists>from d. e = Chat_dgram from d \<and> sync_text_in ''SYNC_ACK'' d then (0, 1)
      else case do_startup_sync_initiator es of (ret, n) \<Rightarrow> (ret, Suc n))"

text \<open>Result and who is answered: the first to ask, once.\<close>

fun do_startup_sync_responder :: "chat_ev list \<Rightarrow> int \<times> (u32 \<times> u16) option" where
  "do_startup_sync_responder [] = (- 1, None)"
| "do_startup_sync_responder (e # es) =
     (case e of
        Chat_dgram from d \<Rightarrow> if sync_text_in ''SYNC_REQ'' d then (0, Some from) else do_startup_sync_responder es
      | _ \<Rightarrow> do_startup_sync_responder es)"

section \<open>Messages\<close>

definition chat_msg :: "string \<Rightarrow> string \<Rightarrow> int \<Rightarrow> int \<Rightarrow> string" where
  "chat_msg role text seq ts = ''CHAT:'' @ role @ '':'' @ text @ '':'' @ show_int seq @ '':'' @ show_int ts"

definition c_str :: "string \<Rightarrow> string" where
  "c_str d = takeWhile (\<lambda>c. c \<noteq> CHR 0x00) d"

fun find_chat_payload_start :: "string \<Rightarrow> string option" where
  "find_chat_payload_start [] = None"
| "find_chat_payload_start (c # cs) =
     (if take 5 (c # cs) = ''CHAT:'' then Some (c # cs) else find_chat_payload_start cs)"

text \<open>\<^verbatim>\<open>strsep\<close> at colons: a field and what follows it, if anything.\<close>

definition strsep :: "string option \<Rightarrow> (string \<times> string option) option" where
  "strsep p =
     (case p of
        None \<Rightarrow> None
      | Some s \<Rightarrow> Some (takeWhile (\<lambda>c. c \<noteq> CHR '':'') s,
                      if CHR '':'' \<in> set s then Some (tl (dropWhile (\<lambda>c. c \<noteq> CHR '':'') s)) else None))"

text \<open>Text, number and time of a message of the other role; nothing for anything else.\<close>

definition parse_chat :: "string \<Rightarrow> string \<Rightarrow> (string \<times> int \<times> int) option" where
  "parse_chat local_role d =
     (let saved = take 511 d
      in if take 8 saved = ''SYNC_REQ'' \<or> take 8 saved = ''SYNC_ACK'' then None
         else case find_chat_payload_start saved of
                None \<Rightarrow> None
              | Some payload \<Rightarrow>
                  (case strsep (Some (c_str payload)) of
                     None \<Rightarrow> None
                   | Some (tag, p1) \<Rightarrow>
                       if tag \<noteq> ''CHAT'' then None
                       else case strsep p1 of
                              None \<Rightarrow> None
                            | Some (role, p2) \<Rightarrow>
                                if snprintf_s 32 role = local_role then None
                                else (case strsep p2 of
                                        None \<Rightarrow> None
                                      | Some (text, p3) \<Rightarrow>
                                          (case strsep p3 of
                                             None \<Rightarrow> None
                                           | Some (seq, p4) \<Rightarrow>
                                               (case strsep p4 of
                                                  None \<Rightarrow> None
                                                | Some (ts, p5) \<Rightarrow> Some (snprintf_s 128 text, atoi seq, fst (strtol ts)))))))"

fun wait_for_peer_chat :: "string \<Rightarrow> chat_ev list \<Rightarrow> (string \<times> int \<times> int) option" where
  "wait_for_peer_chat local_role [] = None"
| "wait_for_peer_chat local_role (e # es) =
     (case e of
        Chat_again \<Rightarrow> wait_for_peer_chat local_role es
      | Chat_error \<Rightarrow> None
      | Chat_dgram from d \<Rightarrow>
          (case parse_chat local_role d of None \<Rightarrow> wait_for_peer_chat local_role es | Some m \<Rightarrow> Some m))"

section \<open>Rounds\<close>

text \<open>What a round meets: the time put into the message, whether the send succeeds, and what is received. The list
  of rounds ends where the alarm fires; \<open>alarm\<close> says whether it has fired at the end.\<close>

record chat_round =
  cr_now :: int
  cr_send_ok :: bool
  cr_evs :: "chat_ev list"

fun initiator_rounds :: "string \<Rightarrow> bool \<Rightarrow> nat \<Rightarrow> chat_round list \<Rightarrow> int \<times> string list" where
  "initiator_rounds role alarm i [] = (if alarm \<or> i < CHAT_ROUNDS then 1 else 0, [])"
| "initiator_rounds role alarm i (r # rs) =
     (if CHAT_ROUNDS \<le> i then (if alarm then 1 else 0, [])
      else let tx = snprintf_s 256 (chat_msg role CHAT_REQ_TEXT (int i) (cr_now r))
           in if \<not> cr_send_ok r then (1, [])
              else case wait_for_peer_chat role (cr_evs r) of
                     None \<Rightarrow> (1, [tx])
                   | Some (peer_text, peer_seq, peer_ts) \<Rightarrow>
                       if peer_seq \<noteq> int i then (1, [tx])
                       else if peer_text \<noteq> CHAT_RSP_TEXT then (1, [tx])
                       else case initiator_rounds role alarm (Suc i) rs of (rc, txs) \<Rightarrow> (rc, tx # txs))"

fun responder_rounds :: "string \<Rightarrow> bool \<Rightarrow> nat \<Rightarrow> chat_round list \<Rightarrow> int \<times> string list" where
  "responder_rounds role alarm rounds [] = (if alarm \<or> rounds < CHAT_ROUNDS then 1 else 0, [])"
| "responder_rounds role alarm rounds (r # rs) =
     (if CHAT_ROUNDS \<le> rounds then (if alarm then 1 else 0, [])
      else case wait_for_peer_chat role (cr_evs r) of
             None \<Rightarrow> (1, [])
           | Some (peer_text, peer_seq, peer_ts) \<Rightarrow>
               if peer_seq \<noteq> int rounds then (1, [])
               else if peer_text \<noteq> CHAT_REQ_TEXT then (1, [])
               else if \<not> cr_send_ok r then (1, [])
               else case responder_rounds role alarm (Suc rounds) rs of
                      (rc, txs) \<Rightarrow> (rc, snprintf_s 256 (chat_msg role CHAT_RSP_TEXT peer_seq (cr_now r)) # txs))"

record chat_log =
  cl_sync :: "chat_ev list"
  cl_rounds :: "chat_round list"
  cl_alarm :: bool

definition run_initiator :: "string \<Rightarrow> chat_log \<Rightarrow> int \<times> string list" where
  "run_initiator role log =
     (if fst (do_startup_sync_initiator (cl_sync log)) \<noteq> 0 then (1, [])
      else initiator_rounds role (cl_alarm log) 0 (cl_rounds log))"

definition run_responder :: "string \<Rightarrow> chat_log \<Rightarrow> int \<times> string list" where
  "run_responder role log =
     (if fst (do_startup_sync_responder (cl_sync log)) \<noteq> 0 then (1, [])
      else responder_rounds role (cl_alarm log) 0 (cl_rounds log))"

definition chat_main :: "net_os \<Rightarrow> host_env \<Rightarrow> nat \<Rightarrow> chat_log \<Rightarrow> net_ks \<Rightarrow> int \<times> net_ks" where
  "chat_main os env looks log ks =
     (case get_config_value env ''LINQU_UB_ROLE'' ''linqu_urma_dp_role'' 32 of
        None \<Rightarrow> (1, ks)
      | Some given \<Rightarrow>
          (case normalize_role 32 given of
             None \<Rightarrow> (1, ks)
           | Some role \<Rightarrow>
               (case wait_iface_ready os looks ks of
                  (None, ks1) \<Rightarrow> (1, ks1)
                | (Some (ifname, ifindex), ks1) \<Rightarrow>
                    (case chat_ipv4_pair env role INET_ADDRSTRLEN INET_ADDRSTRLEN of
                       None \<Rightarrow> (1, ks1)
                     | Some (my_ip, peer_ip) \<Rightarrow>
                         (case net_setup os ifname my_ip peer_ip ks1 of
                            (None, ks2) \<Rightarrow> (1, ks2)
                          | (Some addrs, ks2) \<Rightarrow>
                              (case create_sync_socket os ks2 of
                                 (sync_fd, ks3) \<Rightarrow>
                                   if sync_fd < 0 then (1, ks3)
                                   else let rc = fst (if role_is_initiator role then run_initiator role log else run_responder role log)
                                        in if resolve_shared_socket_mode env then (rc, nk_close sync_fd ks3)
                                           else case create_chat_socket os ks3 of
                                                  (chat_fd, ks4) \<Rightarrow>
                                                    if chat_fd < 0 then (1, nk_close sync_fd ks4)
                                                    else (rc, nk_close chat_fd (nk_close sync_fd ks4))))))))"

end
