(* ===== verification/Chat_Runs.thy ===== *)
theory Chat_Runs
  imports Chat
begin

text \<open>
  What holds of the chat demo: a message is read back as it was written, whatever precedes it; two guests whose
  datagrams arrive finish all rounds, and a guest that reports success has had every answer; one more copy of
  an answer is enough to fail; and no socket stays open.
\<close>

section \<open>A message\<close>

lemma span_until [simp]:
  "c \<notin> set f \<Longrightarrow> takeWhile (\<lambda>x. x \<noteq> c) (f @ c # r) = f" "c \<notin> set f \<Longrightarrow> dropWhile (\<lambda>x. x \<noteq> c) (f @ c # r) = c # r"
  by (induction f) auto

lemma strsep_field [simp]:
  "CHR '':'' \<notin> set f \<Longrightarrow> strsep (Some (f @ CHR '':'' # r)) = Some (f, Some r)"
  "CHR '':'' \<notin> set f \<Longrightarrow> strsep (Some f) = Some (f, None)"
  by (auto simp: strsep_def takeWhile_eq_all_conv)

lemma digits_plain: "c \<in> set (show_int i) \<Longrightarrow> c \<noteq> CHR '':'' \<and> c \<noteq> CHR 0x00"
  using show_nat_digits by (auto simp: show_int_def is_digit_def code_def split: if_splits) (fastforce simp: is_digit_def code_def)+

lemma digits_no_colon [simp]: "CHR '':'' \<notin> set (show_int i)"
  using digits_plain by blast

lemma payload_start:
  assumes "CHR ''C'' \<notin> set junk"
  shows "find_chat_payload_start (junk @ ''CHAT:'' @ r) = Some (''CHAT:'' @ r)"
  using assms by (induction junk) auto

lemma not_control:
  assumes "CHR ''C'' \<notin> set junk"
  shows "take 8 (junk @ ''CHAT:'' @ r) \<noteq> ''SYNC_REQ'' \<and> take 8 (junk @ ''CHAT:'' @ r) \<noteq> ''SYNC_ACK''"
proof -
  have "takeWhile (\<lambda>c. c \<noteq> CHR ''C'') (junk @ ''CHAT:'' @ r) = junk" using assms by simp
  moreover have "takeWhile (\<lambda>c. c \<noteq> CHR ''C'') s = ''SYN''" if "take 8 s = ''SYN'' @ CHR ''C'' # w" for s w
  proof -
    have "s = (''SYN'' @ CHR ''C'' # w) @ drop 8 s" using append_take_drop_id [of 8 s] unfolding that by (rule sym)
    then obtain t where "s = (''SYN'' @ CHR ''C'' # w) @ t" by blast
    then show ?thesis by simp
  qed
  ultimately have "junk = ''SYN''" if "take 8 (junk @ ''CHAT:'' @ r) = ''SYN'' @ CHR ''C'' # w" for w
    using that by metis
  then show ?thesis by fastforce
qed

lemma parse_chat_msg:
  assumes "CHR ''C'' \<notin> set junk" and "length (junk @ chat_msg role text seq ts) \<le> 511"
    and "CHR '':'' \<notin> set role" and "CHR 0x00 \<notin> set role" and "length role < 32" and "role \<noteq> local_role"
    and "CHR '':'' \<notin> set text" and "CHR 0x00 \<notin> set text" and "length text < 128"
    and "- (2 ^ 31) \<le> seq" and "seq < 2 ^ 31" and "in_long ts"
  shows "parse_chat local_role (junk @ chat_msg role text seq ts) = Some (text, seq, ts)"
proof -
  let ?m = "''CHAT:'' @ role @ '':'' @ text @ '':'' @ show_int seq @ '':'' @ show_int ts"
  have m: "chat_msg role text seq ts = ?m" by (simp add: chat_msg_def)
  have t: "take 511 (junk @ chat_msg role text seq ts) = junk @ ?m" using assms(2) by (simp add: m)
  have c: "c_str ?m = ?m" using assms(4,8) digits_plain by (auto simp: c_str_def takeWhile_eq_all_conv)
  have n: "atoi (show_int seq) = seq" "fst (strtol (show_int ts)) = ts"
    using strtol_end [of seq] strtol_end [of ts] assms(10-12) by (simp_all add: atoi_def to_int_id in_long_def)
  have s: "strsep (Some ?m) = Some (''CHAT'', Some (role @ CHR '':'' # text @ CHR '':'' # show_int seq @ CHR '':'' # show_int ts))"
    using strsep_field(1) [of "''CHAT''"] by simp
  have k: "\<not> (take 8 (junk @ ?m) = ''SYNC_REQ'' \<or> take 8 (junk @ ?m) = ''SYNC_ACK'')"
    and f: "find_chat_payload_start (junk @ ?m) = Some ?m"
    using not_control [OF assms(1)] payload_start [OF assms(1)] by blast+
  show ?thesis
    unfolding parse_chat_def t Let_def if_not_P [OF k] f option.case c s prod.case
    using assms(3,5,6,7,9) by (simp add: n snprintf_s_def)
qed

lemma length_show_long: "in_long i \<Longrightarrow> length (show_int i) \<le> 20"
  using length_show_nat [of "nat i" 19] length_show_nat [of "nat (- i)" 19]
  by (auto simp: show_int_def in_long_def nat_less_iff)

definition initiator_says :: "nat \<Rightarrow> int \<Rightarrow> string" where
  "initiator_says i t = chat_msg ''initiator'' CHAT_REQ_TEXT (int i) t"

definition responder_says :: "nat \<Rightarrow> int \<Rightarrow> string" where
  "responder_says i t = chat_msg ''responder'' CHAT_RSP_TEXT (int i) t"

lemma says_short:
  assumes "i < CHAT_ROUNDS" and "in_long t"
  shows "length (initiator_says i t) \<le> 200" "length (responder_says i t) \<le> 200"
  using assms length_show_int [of "int i"] length_show_long [OF assms(2)]
  by (simp_all add: initiator_says_def responder_says_def chat_msg_def CHAT_REQ_TEXT_def CHAT_RSP_TEXT_def CHAT_ROUNDS_def)

lemma says_parsed:
  assumes "i < CHAT_ROUNDS" and "in_long t" and "CHR ''C'' \<notin> set hdr" and "length hdr \<le> 300"
  shows "parse_chat ''initiator'' (hdr @ responder_says i t) = Some (CHAT_RSP_TEXT, int i, t)"
    "parse_chat ''responder'' (hdr @ initiator_says i t) = Some (CHAT_REQ_TEXT, int i, t)"
  using says_short [OF assms(1,2)] assms unfolding initiator_says_def responder_says_def
  by (intro parse_chat_msg; simp add: CHAT_REQ_TEXT_def CHAT_RSP_TEXT_def CHAT_ROUNDS_def)+

section \<open>Two guests\<close>

text \<open>What a wait passes over: nothing received, and datagrams that are not a message of the other role.\<close>

definition chat_noise :: "string \<Rightarrow> chat_ev \<Rightarrow> bool" where
  "chat_noise local_role e \<longleftrightarrow> (case e of Chat_again \<Rightarrow> True | Chat_error \<Rightarrow> False | Chat_dgram from d \<Rightarrow> parse_chat local_role d = None)"

lemma wait_noise:
  "list_all (chat_noise role) es \<Longrightarrow> wait_for_peer_chat role (es @ es') = wait_for_peer_chat role es'"
  by (induction es) (auto simp: chat_noise_def split: chat_ev.splits)

lemma initiator_step:
  assumes "i < CHAT_ROUNDS" and "in_long t" and "in_long t'" and "list_all (chat_noise ''initiator'') es"
    and "CHR ''C'' \<notin> set hdr" and "length hdr \<le> 300"
  shows "initiator_rounds ''initiator'' alarm i
      (\<lparr>cr_now = t, cr_send_ok = True, cr_evs = es @ Chat_dgram q (hdr @ responder_says i t') # es'\<rparr> # rs) =
    (case initiator_rounds ''initiator'' alarm (Suc i) rs of (rc, txs) \<Rightarrow> (rc, initiator_says i t # txs))"
  using assms(1) says_short(1) [OF assms(1,2)]
  by (simp add: wait_noise [OF assms(4)] says_parsed [OF assms(1,3,5,6)] snprintf_s_def initiator_says_def)

lemma responder_step:
  assumes "i < CHAT_ROUNDS" and "in_long t" and "in_long t'" and "list_all (chat_noise ''responder'') es"
    and "CHR ''C'' \<notin> set hdr" and "length hdr \<le> 300"
  shows "responder_rounds ''responder'' alarm i
      (\<lparr>cr_now = t', cr_send_ok = True, cr_evs = es @ Chat_dgram q (hdr @ initiator_says i t) # es'\<rparr> # rs) =
    (case responder_rounds ''responder'' alarm (Suc i) rs of (rc, txs) \<Rightarrow> (rc, responder_says i t' # txs))"
  using assms(1) says_short(2) [OF assms(1,3)]
  by (simp add: wait_noise [OF assms(4)] says_parsed [OF assms(1,2,5,6)] snprintf_s_def responder_says_def)

lemma sync_returns:
  "fst (do_startup_sync_initiator (es @ Chat_dgram p ''SYNC_ACK'' # es')) = 0"
  "fst (do_startup_sync_responder (es @ Chat_dgram p ''SYNC_REQ'' # es')) = 0"
proof -
  show "fst (do_startup_sync_initiator (es @ Chat_dgram p ''SYNC_ACK'' # es')) = 0"
    by (induction es) (auto simp: sync_text_in_def split: prod.splits)
  show "fst (do_startup_sync_responder (es @ Chat_dgram p ''SYNC_REQ'' # es')) = 0"
    by (induction es) (auto simp: sync_text_in_def split: chat_ev.splits)
qed

lemma five_rounds: "[0..<CHAT_ROUNDS] = [0, 1, 2, 3, 4]"
  by (simp add: CHAT_ROUNDS_def upt_rec)

lemma rounds_meet:
  assumes "\<forall>i < CHAT_ROUNDS. in_long (ta i) \<and> in_long (tb i) \<and> CHR ''C'' \<notin> set (ha i) \<and> CHR ''C'' \<notin> set (hb i) \<and>
      length (ha i) \<le> 300 \<and> length (hb i) \<le> 300"
    and "\<forall>i < CHAT_ROUNDS. list_all (chat_noise ''initiator'') (na i) \<and> list_all (chat_noise ''responder'') (nb i)"
  shows "initiator_rounds ''initiator'' False 0
      (map (\<lambda>i. \<lparr>cr_now = ta i, cr_send_ok = True, cr_evs = na i @ Chat_dgram q (hb i @ responder_says i (tb i)) # la i\<rparr>) [0..<CHAT_ROUNDS]) =
      (0, map (\<lambda>i. initiator_says i (ta i)) [0..<CHAT_ROUNDS])"
    "responder_rounds ''responder'' False 0
      (map (\<lambda>i. \<lparr>cr_now = tb i, cr_send_ok = True, cr_evs = nb i @ Chat_dgram p (ha i @ initiator_says i (ta i)) # lb i\<rparr>) [0..<CHAT_ROUNDS]) =
      (0, map (\<lambda>i. responder_says i (tb i)) [0..<CHAT_ROUNDS])"
proof -
  have r: "0 < CHAT_ROUNDS" "1 < CHAT_ROUNDS" "2 < CHAT_ROUNDS" "3 < CHAT_ROUNDS" "4 < CHAT_ROUNDS" "\<not> 5 < CHAT_ROUNDS"
    by (simp_all add: CHAT_ROUNDS_def)
  have s: "Suc 0 = 1" "Suc 1 = 2" "Suc 2 = 3" "Suc 3 = 4" "Suc 4 = 5" by simp_all
  note i = initiator_step [of _ "ta _" "tb _" "na _" "hb _"] and b = responder_step [of _ "ta _" "tb _" "nb _" "ha _"]
  show "initiator_rounds ''initiator'' False 0
      (map (\<lambda>i. \<lparr>cr_now = ta i, cr_send_ok = True, cr_evs = na i @ Chat_dgram q (hb i @ responder_says i (tb i)) # la i\<rparr>) [0..<CHAT_ROUNDS]) =
      (0, map (\<lambda>i. initiator_says i (ta i)) [0..<CHAT_ROUNDS])"
    unfolding five_rounds list.map using assms r by (simp add: i s del: initiator_rounds.simps(2) One_nat_def)
  show "responder_rounds ''responder'' False 0
      (map (\<lambda>i. \<lparr>cr_now = tb i, cr_send_ok = True, cr_evs = nb i @ Chat_dgram p (ha i @ initiator_says i (ta i)) # lb i\<rparr>) [0..<CHAT_ROUNDS]) =
      (0, map (\<lambda>i. responder_says i (tb i)) [0..<CHAT_ROUNDS])"
    unfolding five_rounds list.map using assms r by (simp add: b s del: responder_rounds.simps(2) One_nat_def)
qed

text \<open>
  C23: when the question and the answer of the synchronisation arrive, and in every round the message of the one
  guest for that round is the first message of the other role that its peer receives, both report success after five
  messages each. Before it a round may receive nothing, or datagrams that are no message of the other role; behind it, and
  around the synchronisation, anything; and the message may follow a header of at most 300 bytes that has no letter C.
\<close>

theorem chat_meets:
  assumes "\<forall>i < CHAT_ROUNDS. in_long (ta i) \<and> in_long (tb i) \<and> CHR ''C'' \<notin> set (ha i) \<and> CHR ''C'' \<notin> set (hb i) \<and>
      length (ha i) \<le> 300 \<and> length (hb i) \<le> 300"
    and "\<forall>i < CHAT_ROUNDS. list_all (chat_noise ''initiator'') (na i) \<and> list_all (chat_noise ''responder'') (nb i)"
  shows "run_initiator ''initiator''
      \<lparr>cl_sync = sa @ Chat_dgram p ''SYNC_ACK'' # sa',
       cl_rounds = map (\<lambda>i. \<lparr>cr_now = ta i, cr_send_ok = True, cr_evs = na i @ Chat_dgram q (hb i @ responder_says i (tb i)) # la i\<rparr>)
         [0..<CHAT_ROUNDS], cl_alarm = False\<rparr> = (0, map (\<lambda>i. initiator_says i (ta i)) [0..<CHAT_ROUNDS]) \<and>
    run_responder ''responder''
      \<lparr>cl_sync = sb @ Chat_dgram q ''SYNC_REQ'' # sb',
       cl_rounds = map (\<lambda>i. \<lparr>cr_now = tb i, cr_send_ok = True, cr_evs = nb i @ Chat_dgram p (ha i @ initiator_says i (ta i)) # lb i\<rparr>)
         [0..<CHAT_ROUNDS], cl_alarm = False\<rparr> = (0, map (\<lambda>i. responder_says i (tb i)) [0..<CHAT_ROUNDS])"
  using rounds_meet [OF assms] by (simp add: run_initiator_def run_responder_def sync_returns)

section \<open>What success means\<close>

lemma initiator_rounds_pass:
  "initiator_rounds role alarm i rs = (0, txs) \<Longrightarrow> i \<le> CHAT_ROUNDS \<Longrightarrow>
     \<not> alarm \<and> CHAT_ROUNDS - i \<le> length rs \<and> length txs = CHAT_ROUNDS - i \<and>
     (\<forall>k < CHAT_ROUNDS - i. cr_send_ok (rs ! k) \<and> txs ! k = snprintf_s 256 (chat_msg role CHAT_REQ_TEXT (int (i + k)) (cr_now (rs ! k))) \<and>
        (\<exists>ts. wait_for_peer_chat role (cr_evs (rs ! k)) = Some (CHAT_RSP_TEXT, int (i + k), ts)))"
proof (induction rs arbitrary: i txs)
  case Nil
  then show ?case by (auto split: if_splits)
next
  case (Cons r rs)
  show ?case
  proof (cases "i < CHAT_ROUNDS")
    case False
    with Cons.prems show ?thesis by (auto split: if_splits)
  next
    case True
    with Cons.prems obtain ts rest where w: "cr_send_ok r" "wait_for_peer_chat role (cr_evs r) = Some (CHAT_RSP_TEXT, int i, ts)"
      "initiator_rounds role alarm (Suc i) rs = (0, rest)" "txs = snprintf_s 256 (chat_msg role CHAT_REQ_TEXT (int i) (cr_now r)) # rest"
      by (auto simp: Let_def split: if_splits option.splits prod.splits)
    note ih = Cons.IH [OF w(3)]
    have "cr_send_ok ((r # rs) ! k) \<and> txs ! k = snprintf_s 256 (chat_msg role CHAT_REQ_TEXT (int (i + k)) (cr_now ((r # rs) ! k))) \<and>
        (\<exists>ts. wait_for_peer_chat role (cr_evs ((r # rs) ! k)) = Some (CHAT_RSP_TEXT, int (i + k), ts))"
      if "k < CHAT_ROUNDS - i" for k
      using that ih True w by (cases k) auto
    moreover have "\<not> alarm \<and> CHAT_ROUNDS - i \<le> length (r # rs) \<and> length txs = CHAT_ROUNDS - i" using ih True w(4) by auto
    ultimately show ?thesis by blast
  qed
qed

lemma responder_rounds_pass:
  "responder_rounds role alarm i rs = (0, txs) \<Longrightarrow> i \<le> CHAT_ROUNDS \<Longrightarrow>
     \<not> alarm \<and> CHAT_ROUNDS - i \<le> length rs \<and> length txs = CHAT_ROUNDS - i \<and>
     (\<forall>k < CHAT_ROUNDS - i. cr_send_ok (rs ! k) \<and> txs ! k = snprintf_s 256 (chat_msg role CHAT_RSP_TEXT (int (i + k)) (cr_now (rs ! k))) \<and>
        (\<exists>ts. wait_for_peer_chat role (cr_evs (rs ! k)) = Some (CHAT_REQ_TEXT, int (i + k), ts)))"
proof (induction rs arbitrary: i txs)
  case Nil
  then show ?case by (auto split: if_splits)
next
  case (Cons r rs)
  show ?case
  proof (cases "i < CHAT_ROUNDS")
    case False
    with Cons.prems show ?thesis by (auto split: if_splits)
  next
    case True
    with Cons.prems obtain ts rest where w: "cr_send_ok r" "wait_for_peer_chat role (cr_evs r) = Some (CHAT_REQ_TEXT, int i, ts)"
      "responder_rounds role alarm (Suc i) rs = (0, rest)" "txs = snprintf_s 256 (chat_msg role CHAT_RSP_TEXT (int i) (cr_now r)) # rest"
      by (auto simp: Let_def split: if_splits option.splits prod.splits)
    note ih = Cons.IH [OF w(3)]
    have "cr_send_ok ((r # rs) ! k) \<and> txs ! k = snprintf_s 256 (chat_msg role CHAT_RSP_TEXT (int (i + k)) (cr_now ((r # rs) ! k))) \<and>
        (\<exists>ts. wait_for_peer_chat role (cr_evs ((r # rs) ! k)) = Some (CHAT_REQ_TEXT, int (i + k), ts))"
      if "k < CHAT_ROUNDS - i" for k
      using that ih True w by (cases k) auto
    moreover have "\<not> alarm \<and> CHAT_ROUNDS - i \<le> length (r # rs) \<and> length txs = CHAT_ROUNDS - i" using ih True w(4) by auto
    ultimately show ?thesis by blast
  qed
qed

text \<open>
  C24: a guest that reports success has sent its five messages, numbered from 0, and in every round the first
  message of the other role that it received carried the expected text and the number of the round; so no
  greeting and no answer is missing, repeated or out of order.
\<close>

theorem chat_pass_sound:
  assumes "run_initiator role_a log_a = (0, sent_a)" and "run_responder role_b log_b = (0, sent_b)"
  shows "length sent_a = CHAT_ROUNDS \<and> length sent_b = CHAT_ROUNDS \<and>
    (\<forall>k < CHAT_ROUNDS.
       sent_a ! k = snprintf_s 256 (chat_msg role_a CHAT_REQ_TEXT (int k) (cr_now (cl_rounds log_a ! k))) \<and>
       sent_b ! k = snprintf_s 256 (chat_msg role_b CHAT_RSP_TEXT (int k) (cr_now (cl_rounds log_b ! k))) \<and>
       (\<exists>ts. wait_for_peer_chat role_a (cr_evs (cl_rounds log_a ! k)) = Some (CHAT_RSP_TEXT, int k, ts)) \<and>
       (\<exists>ts. wait_for_peer_chat role_b (cr_evs (cl_rounds log_b ! k)) = Some (CHAT_REQ_TEXT, int k, ts)))"
proof -
  have "initiator_rounds role_a (cl_alarm log_a) 0 (cl_rounds log_a) = (0, sent_a)"
    "responder_rounds role_b (cl_alarm log_b) 0 (cl_rounds log_b) = (0, sent_b)"
    using assms by (auto simp: run_initiator_def run_responder_def split: if_splits)
  from initiator_rounds_pass [OF this(1)] responder_rounds_pass [OF this(2)] show ?thesis by simp
qed

lemma initiator_rounds_result: "fst (initiator_rounds role alarm i rs) = 0 \<or> fst (initiator_rounds role alarm i rs) = 1"
  by (induction rs arbitrary: i) (auto simp: Let_def split: prod.split option.split, metis fst_conv)

text \<open>
  C25: one datagram delivered twice ends the conversation: when the first message the initiator receives in a
  round is another copy of the answer of the round before, it reports failure, although nothing was lost.
\<close>

theorem duplicate_reply_fails:
  assumes "Suc k < CHAT_ROUNDS" and "in_long t" and "list_all (chat_noise ''initiator'') es"
    and "Suc k < length (cl_rounds log)"
    and "cr_evs (cl_rounds log ! Suc k) = es @ Chat_dgram q (responder_says k t) # es'"
  shows "fst (run_initiator ''initiator'' log) = 1"
proof (rule ccontr)
  assume n: "fst (run_initiator ''initiator'' log) \<noteq> 1"
  then have r: "run_initiator ''initiator'' log = initiator_rounds ''initiator'' (cl_alarm log) 0 (cl_rounds log)"
    by (auto simp: run_initiator_def split: if_splits)
  with n initiator_rounds_result obtain txs where "initiator_rounds ''initiator'' (cl_alarm log) 0 (cl_rounds log) = (0, txs)"
    by (metis prod.collapse)
  from initiator_rounds_pass [OF this] assms(1) obtain ts where
    "wait_for_peer_chat ''initiator'' (cr_evs (cl_rounds log ! Suc k)) = Some (CHAT_RSP_TEXT, int (Suc k), ts)" by auto
  moreover have "wait_for_peer_chat ''initiator'' (cr_evs (cl_rounds log ! Suc k)) = Some (CHAT_RSP_TEXT, int k, t)"
    using says_parsed(1) [OF _ assms(2), of k "[]"] assms(1) by (simp add: assms(5) wait_noise [OF assms(3)])
  ultimately show False by simp
qed

section \<open>Sockets\<close>

lemma chat_socket_holding:
  assumes "net_os_ok os" and "holding E ks" and "chat_socket os port ks = (fd, ks')"
  shows "fd < 0 \<Longrightarrow> holding E ks'" "\<not> fd < 0 \<Longrightarrow> holding (insert fd E) ks' \<and> fd \<notin> E"
  using assms(3) socket_closed [OF assms(1,2)] fresh_socket [OF assms(1,2)] assms(2)
  by (auto simp: chat_socket_def Let_def split: if_splits)

text \<open>
  Whatever the kernel and the network answer, the chat leaves the descriptors open that were open before, closes
  nothing twice and nothing that is not its own, with one socket for both purposes as well as with two.
\<close>

theorem chat_main_releases:
  assumes "net_os_ok os" and "holding E ks"
  shows "holding E (snd (chat_main os env looks log ks))"
proof (cases "get_config_value env ''LINQU_UB_ROLE'' ''linqu_urma_dp_role'' 32")
  case None
  with assms show ?thesis by (simp add: chat_main_def)
next
  case g: (Some given)
  show ?thesis
  proof (cases "normalize_role 32 given")
    case None
    with g assms show ?thesis by (simp add: chat_main_def)
  next
    case r: (Some role)
    obtain found ks1 where w: "wait_iface_ready os looks ks = (found, ks1)" by (rule prod.exhaust)
    then have k1: "holding E ks1" using wait_iface_holding [OF assms, of looks] by simp
    show ?thesis
    proof (cases "\<exists>ifname ifindex my_ip peer_ip. found = Some (ifname, ifindex) \<and>
        chat_ipv4_pair env role INET_ADDRSTRLEN INET_ADDRSTRLEN = Some (my_ip, peer_ip)")
      case False
      with g r w k1 show ?thesis by (cases found; cases "chat_ipv4_pair env role INET_ADDRSTRLEN INET_ADDRSTRLEN") (auto simp: chat_main_def)
    next
      case True
      then obtain ifname ifindex my_ip peer_ip where f: "found = Some (ifname, ifindex)"
        "chat_ipv4_pair env role INET_ADDRSTRLEN INET_ADDRSTRLEN = Some (my_ip, peer_ip)" by blast
      obtain addrs ks2 where n: "net_setup os ifname my_ip peer_ip ks1 = (addrs, ks2)" by (rule prod.exhaust)
      then have k2: "holding E ks2" using net_setup_holding [OF assms(1) k1, of ifname my_ip peer_ip] by simp
      obtain sfd ks3 where s: "chat_socket os CHAT_SYNC_PORT ks2 = (sfd, ks3)" by (rule prod.exhaust)
      note hs = chat_socket_holding [OF assms(1) k2 s]
      obtain cfd ks4 where c: "chat_socket os CHAT_PORT ks3 = (cfd, ks4)" by (rule prod.exhaust)
      have hc: "\<not> sfd < 0 \<Longrightarrow> cfd < 0 \<Longrightarrow> holding E (nk_close sfd ks4)"
        "\<not> sfd < 0 \<Longrightarrow> \<not> cfd < 0 \<Longrightarrow> holding E (nk_close cfd (nk_close sfd ks4))"
        using hs(2) chat_socket_holding [OF assms(1) _ c, of "insert sfd E"]
        by (auto intro!: holding_close simp: insert_commute)
      show ?thesis
        using k2 hs hc holding_close [of sfd E ks3]
        by (simp add: chat_main_def g r w f n create_sync_socket_def create_chat_socket_def s c Let_def split: option.split)
    qed
  qed
qed

end
