(* ===== verification/Urma_Dp.thy ===== *)
theory Urma_Dp
  imports Net_If
begin

text \<open>
  The URMA data path demo (\<^verbatim>\<open>urma_dp.c\<close>): two nodes send each other probes over UDP until one of
  the other arrives, and may then measure the path with a burst of packets. Every packet is looked for on a
  datagram socket and on a raw one. What the sockets return and the times are inputs; printing is left out.
\<close>

section \<open>Configuration\<close>

definition DP_PORT :: u16 where "DP_PORT = 18555"
definition RUN_TIMEOUT_MS :: nat where "RUN_TIMEOUT_MS = 30000"

definition cmdline_get_u32_default :: "host_env \<Rightarrow> string \<Rightarrow> u32 \<Rightarrow> u32" where
  "cmdline_get_u32_default env key default_value =
     (case cmdline_get_value env key 64 of
        None \<Rightarrow> default_value
      | Some buf \<Rightarrow>
          (case strtoul buf of
             (parsed, rest, err) \<Rightarrow> if err \<or> rest = buf \<or> rest \<noteq> [] \<or> 2 ^ 32 - 1 < parsed then default_value else of_nat parsed))"

section \<open>Packets\<close>

text \<open>The prefix stands at the start, or behind a header of two bytes. A packet of another interface, of the own role, or
  without a role is not taken. In the code the copy overlaps its source when the packet lies in the buffer it is
  copied to and has a header; it is taken to copy nevertheless.\<close>

definition urma_prefix :: string where "urma_prefix = ''urma-dp:''"

definition consume_probe_payload :: "string \<Rightarrow> nat \<Rightarrow> nat \<Rightarrow> string \<Rightarrow> nat \<Rightarrow> string option" where
  "consume_probe_payload pkt rx_ifindex ifindex local_role payload_len =
     (if rx_ifindex \<noteq> 0 \<and> rx_ifindex \<noteq> ifindex then None
      else case (if take 8 pkt = urma_prefix then Some pkt
                 else if 10 < length pkt \<and> take 8 (drop 2 pkt) = urma_prefix then Some (drop 2 pkt)
                 else None) of
             None \<Rightarrow> None
           | Some body \<Rightarrow>
               if length body \<le> 9 then None
               else let rest = drop 8 body; role = takeWhile (\<lambda>c. c \<noteq> CHR '':'') rest
                    in if CHR '':'' \<notin> set rest then None
                       else if role = [] then None
                       else if local_role = role then None
                       else Some (take (payload_len - 1) body))"

text \<open>What a receive gives: a packet and the interface it came from (0 where it is not known), or nothing, or a
  failure. A list that ends gives nothing more.\<close>

datatype dp_ev = Dp_dgram nat string | Dp_again | Dp_error

fun recv_dgrams :: "nat \<Rightarrow> nat \<Rightarrow> string \<Rightarrow> nat \<Rightarrow> dp_ev list \<Rightarrow> int \<times> string" where
  "recv_dgrams 0 ifindex local_role payload_len es = (0, [])"
| "recv_dgrams (Suc n) ifindex local_role payload_len [] = (0, [])"
| "recv_dgrams (Suc n) ifindex local_role payload_len (e # es) =
     (case e of
        Dp_again \<Rightarrow> (0, [])
      | Dp_error \<Rightarrow> (- 1, [])
      | Dp_dgram rx d \<Rightarrow>
          (case consume_probe_payload (take (payload_len - 1) d) rx ifindex local_role payload_len of
             None \<Rightarrow> recv_dgrams n ifindex local_role payload_len es
           | Some payload \<Rightarrow> (1, payload)))"

text \<open>The UDP payload of an IP packet to the port.\<close>

definition raw_udp_payload :: "string \<Rightarrow> string option" where
  "raw_udp_payload pkt =
     (let raw = take 2048 pkt; ihl = 4 * (code (raw ! 0) mod 16)
      in if length raw < 20 then None
         else if code (raw ! 0) div 16 \<noteq> 4 \<or> ihl < 20 \<or> code (raw ! 9) \<noteq> 17 then None
         else if length raw < ihl + 8 then None
         else if 256 * code (raw ! (ihl + 2)) + code (raw ! (ihl + 3)) \<noteq> unat DP_PORT then None
         else Some (drop (ihl + 8) raw))"

datatype raw_ev = Raw_packet string | Raw_again | Raw_error

fun recv_raw :: "nat \<Rightarrow> nat \<Rightarrow> string \<Rightarrow> nat \<Rightarrow> raw_ev list \<Rightarrow> int \<times> string" where
  "recv_raw 0 ifindex local_role payload_len es = (0, [])"
| "recv_raw (Suc n) ifindex local_role payload_len [] = (0, [])"
| "recv_raw (Suc n) ifindex local_role payload_len (e # es) =
     (case e of
        Raw_again \<Rightarrow> (0, [])
      | Raw_error \<Rightarrow> (- 1, [])
      | Raw_packet d \<Rightarrow>
          (case raw_udp_payload d of
             None \<Rightarrow> recv_raw n ifindex local_role payload_len es
           | Some udp \<Rightarrow>
               (case consume_probe_payload udp ifindex ifindex local_role payload_len of
                  None \<Rightarrow> recv_raw n ifindex local_role payload_len es
                | Some payload \<Rightarrow> (1, payload))))"

text \<open>What both sockets return in one call; there may be no raw socket.\<close>

type_synonym dp_look = "dp_ev list \<times> raw_ev list"

definition try_recv_peer :: "bool \<Rightarrow> nat \<Rightarrow> string \<Rightarrow> nat \<Rightarrow> dp_look \<Rightarrow> int \<times> string" where
  "try_recv_peer have_raw ifindex local_role payload_len look =
     (case recv_dgrams 64 ifindex local_role payload_len (fst look) of
        (got, payload) \<Rightarrow>
          if got \<noteq> 0 then (got, payload)
          else if have_raw then recv_raw 64 ifindex local_role payload_len (snd look)
          else (0, []))"

section \<open>Measuring\<close>

record bench =
  bn_rx :: u32
  bn_done :: bool
  bn_peer_tx :: u32

text \<open>\<^verbatim>\<open>%31[^:]:\<close> reads up to 31 characters that are not colons, at least one, and the colon.\<close>

definition scan_word :: "string \<Rightarrow> (string \<times> string) option" where
  "scan_word s =
     (let w = take 31 (takeWhile (\<lambda>c. c \<noteq> CHR '':'') s); r = drop (length w) s
      in if w = [] \<or> take 1 r \<noteq> '':'' then None else Some (w, drop 1 r))"

definition bench_consume_rx :: "string \<Rightarrow> bench \<Rightarrow> bench" where
  "bench_consume_rx payload b =
     (let p = takeWhile (\<lambda>c. c \<noteq> CHR 0x00) payload
      in if take 8 p \<noteq> urma_prefix then b
         else case scan_word (drop 8 p) of
                None \<Rightarrow> b
              | Some (role, p1) \<Rightarrow>
                  (case scan_word p1 of
                     None \<Rightarrow> b
                   | Some (nonce, p2) \<Rightarrow>
                       (case scan_word p2 of
                          None \<Rightarrow> b
                        | Some (kind, p3) \<Rightarrow>
                            (case scan_number 10 p3 of
                               None \<Rightarrow> b
                             | Some (v, rest) \<Rightarrow>
                                 if kind = ''bench'' then b\<lparr>bn_rx := bn_rx b + 1\<rparr>
                                 else if kind = ''done'' then b\<lparr>bn_done := True, bn_peer_tx := ucast v\<rparr>
                                 else b))))"

text \<open>\<^verbatim>\<open>%08x\<close>.\<close>

definition show_hex8 :: "u32 \<Rightarrow> string" where
  "show_hex8 w =
     map (\<lambda>i. let d = unat (drop_bit (4 * i) w AND 0xf) in if d < 10 then char_of (48 + d) else char_of (87 + d)) [7, 6, 5, 4, 3, 2, 1, 0]"

definition probe_msg :: "string \<Rightarrow> u32 \<Rightarrow> nat \<Rightarrow> string" where
  "probe_msg role nonce seq = urma_prefix @ role @ '':'' @ show_hex8 nonce @ '':'' @ show_nat seq"

definition bench_msg :: "string \<Rightarrow> u32 \<Rightarrow> nat \<Rightarrow> string" where
  "bench_msg role nonce i = urma_prefix @ role @ '':'' @ show_hex8 nonce @ '':bench:'' @ show_nat i"

definition done_msg :: "string \<Rightarrow> u32 \<Rightarrow> u32 \<Rightarrow> string" where
  "done_msg role nonce tx_ok = urma_prefix @ role @ '':'' @ show_hex8 nonce @ '':done:'' @ show_nat (unat tx_ok)"

text \<open>One turn of the burst: whether the send succeeds, and what a look gives. The list ends when the alarm fires.
  The result is \<open>None\<close> where a receive fails.\<close>

fun bench_burst :: "bool \<Rightarrow> nat \<Rightarrow> string \<Rightarrow> u32 \<Rightarrow> nat \<Rightarrow> u32 \<Rightarrow> bench \<Rightarrow> (bool \<times> dp_look) list \<Rightarrow> (u32 \<times> bench) option" where
  "bench_burst have_raw ifindex role nonce 0 tx_ok b ts = Some (tx_ok, b)"
| "bench_burst have_raw ifindex role nonce (Suc n) tx_ok b [] = Some (tx_ok, b)"
| "bench_burst have_raw ifindex role nonce (Suc n) tx_ok b ((sent, look) # ts) =
     (let tx_ok1 = (if sent then tx_ok + 1 else tx_ok)
      in case try_recv_peer have_raw ifindex role 256 look of
           (got, rx) \<Rightarrow>
             if got < 0 then None
             else bench_burst have_raw ifindex role nonce n tx_ok1 (if 0 < got then bench_consume_rx rx b else b) ts)"

text \<open>The wait for what is still under way; it ends with the list, or when the peer has said that it is done.\<close>

fun bench_drain :: "bool \<Rightarrow> nat \<Rightarrow> string \<Rightarrow> bench \<Rightarrow> dp_look list \<Rightarrow> bench option" where
  "bench_drain have_raw ifindex role b [] = Some b"
| "bench_drain have_raw ifindex role b (look # looks) =
     (case try_recv_peer have_raw ifindex role 256 look of
        (got, rx) \<Rightarrow>
          if got < 0 then None
          else let b1 = (if 0 < got then bench_consume_rx rx b else b)
               in if 0 < got \<and> bn_done b1 then Some b1 else bench_drain have_raw ifindex role b1 looks)"

text \<open>The summary: packets per second sent and received, and packets lost in a million; times in milliseconds.\<close>

definition bench_pps :: "u32 \<Rightarrow> int \<Rightarrow> u32" where
  "bench_pps pkts window_ms = ucast ((ucast pkts * 1000 :: u64) div of_int (if window_ms \<le> 0 then 1 else window_ms))"

definition bench_loss_ppm :: "u32 \<Rightarrow> u32 \<Rightarrow> u32" where
  "bench_loss_ppm peer_tx rx_ok =
     (let loss_pkts = (if rx_ok < peer_tx then peer_tx - rx_ok else 0)
      in if peer_tx = 0 then 0 else ucast ((ucast loss_pkts * 1000000 :: u64) div ucast peer_tx))"

record bench_log =
  bl_burst :: "(bool \<times> dp_look) list"
  bl_drain :: "dp_look list"
  bl_rx_window_ms :: int

definition run_bench_phase :: "bool \<Rightarrow> nat \<Rightarrow> string \<Rightarrow> u32 \<Rightarrow> u32 \<Rightarrow> u32 \<Rightarrow> u32 \<Rightarrow> bench_log \<Rightarrow> int" where
  "run_bench_phase have_raw ifindex role nonce bench_pkts min_rx_pps max_loss_ppm log =
     (if bench_pkts = 0 then 0
      else case bench_burst have_raw ifindex role nonce (unat bench_pkts) 0 \<lparr>bn_rx = 0, bn_done = False, bn_peer_tx = 0\<rparr> (bl_burst log) of
             None \<Rightarrow> 1
           | Some (tx_ok, b) \<Rightarrow>
               (case bench_drain have_raw ifindex role b (bl_drain log) of
                  None \<Rightarrow> 1
                | Some b1 \<Rightarrow>
                    (let peer_tx = (if bn_done b1 then bn_peer_tx b1 else bench_pkts)
                     in if bench_pps (bn_rx b1) (bl_rx_window_ms log) < min_rx_pps then 1
                        else if max_loss_ppm < bench_loss_ppm peer_tx (bn_rx b1) then 1
                        else 0)))"

section \<open>The program\<close>

text \<open>At most forty probes, one before each look; the list of looks ends at the deadline or when the alarm fires. The
  result is what the look gave that ended the loop, 0 for none, and how many probes went out.\<close>

fun probe_loop :: "bool \<Rightarrow> nat \<Rightarrow> string \<Rightarrow> nat \<Rightarrow> dp_look list \<Rightarrow> int \<times> nat" where
  "probe_loop have_raw ifindex role 0 looks = (0, 0)"
| "probe_loop have_raw ifindex role (Suc n) [] = (0, 0)"
| "probe_loop have_raw ifindex role (Suc n) (look # looks) =
     (case try_recv_peer have_raw ifindex role 256 look of
        (got, rx) \<Rightarrow>
          if got \<noteq> 0 then (got, 1)
          else case probe_loop have_raw ifindex role n looks of (r, k) \<Rightarrow> (r, Suc k))"

record dp_log =
  dl_iface_looks :: nat
  dl_nonce :: u32
  dl_looks :: "dp_look list"
  dl_bench :: bench_log

definition dp_close :: "int \<Rightarrow> int \<Rightarrow> net_ks \<Rightarrow> net_ks" where
  "dp_close rawfd sockfd ks = nk_close sockfd (if 0 \<le> rawfd then nk_close rawfd ks else ks)"

text \<open>From the sockets to the end. A failure to set the receive timeout or to bind closes the one socket only.\<close>

definition dp_run :: "net_os \<Rightarrow> host_env \<Rightarrow> string \<Rightarrow> nat \<Rightarrow> dp_log \<Rightarrow> net_ks \<Rightarrow> int \<times> net_ks" where
  "dp_run os env role ifindex log ks =
     (let sockfd = nt_socket os ks ''SOCK_DGRAM''; ks1 = nk_open sockfd ks
      in if sockfd < 0 then (1, ks1)
         else if \<not> nt_setsockopt os ks1 ''SO_REUSEADDR'' then (1, nk_close sockfd (nk_tick ks1))
         else let rawfd = nt_socket os (nk_tick ks1) ''SOCK_RAW''; ks2 = nk_open rawfd (nk_tick ks1)
              in if \<not> nt_setsockopt os ks2 ''SO_RCVTIMEO'' then (1, nk_close sockfd (nk_tick ks2))
                 else if \<not> nt_bind os (nk_tick ks2) DP_PORT then (1, nk_close sockfd (nk_tick (nk_tick ks2)))
                 else let ks3 = nk_tick (nk_tick ks2);
                          bench_pkts = cmdline_get_u32_default env ''linqu_urma_dp_bench_pkts'' 0;
                          got = fst (probe_loop (0 \<le> rawfd) ifindex role 40 (dl_looks log))
                      in if got \<le> 0 then (1, dp_close rawfd sockfd ks3)
                         else if 0 < bench_pkts \<and>
                                 run_bench_phase (0 \<le> rawfd) ifindex role (dl_nonce log) bench_pkts
                                   (cmdline_get_u32_default env ''linqu_urma_dp_bench_min_rx_pps'' 0)
                                   (cmdline_get_u32_default env ''linqu_urma_dp_bench_max_loss_ppm'' 1000000) (dl_bench log) \<noteq> 0
                              then (1, dp_close rawfd sockfd ks3)
                              else (0, dp_close rawfd sockfd ks3))"

definition urma_main :: "net_os \<Rightarrow> host_env \<Rightarrow> dp_log \<Rightarrow> net_ks \<Rightarrow> int \<times> net_ks" where
  "urma_main os env log ks =
     (let role = (case cmdline_get_value env ''linqu_urma_dp_role'' 32 of None \<Rightarrow> ''unknown'' | Some r \<Rightarrow> r)
      in case wait_iface_ready os (dl_iface_looks log) ks of
           (None, ks1) \<Rightarrow> (1, ks1)
         | (Some (ifname, ifindex), ks1) \<Rightarrow>
             (case node_ipv4_pair env role INET_ADDRSTRLEN INET_ADDRSTRLEN of
                None \<Rightarrow> (1, ks1)
              | Some (my_ip, peer_ip) \<Rightarrow>
                  (case net_setup os ifname my_ip peer_ip ks1 of
                     (None, ks2) \<Rightarrow> (1, ks2)
                   | (Some addrs, ks2) \<Rightarrow> dp_run os env role ifindex log ks2)))"

end
