(* ===== verification/Urma_Runs.thy ===== *)
theory Urma_Runs
  imports Urma_Dp
begin

text \<open>
  What holds of the URMA data path demo: a node takes the packets of the other node and none of its own, the
  measurement reads its own messages and computes the loss exactly, but counts a packet once per socket; the probes
  end as soon as the other node is heard; and which sockets stay open when it fails.
\<close>

section \<open>Packets\<close>

definition dp_role_ok :: "string \<Rightarrow> bool" where
  "dp_role_ok r \<longleftrightarrow> r \<noteq> [] \<and> length r \<le> 31 \<and> CHR '':'' \<notin> set r \<and> CHR 0x00 \<notin> set r"

text \<open>A header the network may put before the packet.\<close>

definition dp_header :: "string \<Rightarrow> bool" where
  "dp_header h \<longleftrightarrow> h = [] \<or> length h = 2"

lemma until_colon:
  "c \<notin> set f \<Longrightarrow> takeWhile (\<lambda>x. x \<noteq> c) (f @ c # r) = f"
  by (induction f) auto

lemma consume_body:
  assumes "dp_role_ok r" and "dp_header h" and "rx = 0 \<or> rx = ifindex" and "length t \<le> 200"
  shows "consume_probe_payload (h @ urma_prefix @ r @ CHR '':'' # t) rx ifindex local_role 256 =
    (if local_role = r then None else Some (urma_prefix @ r @ CHR '':'' # t))"
proof -
  let ?body = "urma_prefix @ r @ CHR '':'' # t"
  have b: "(if take 8 (h @ ?body) = urma_prefix then Some (h @ ?body)
      else if 10 < length (h @ ?body) \<and> take 8 (drop 2 (h @ ?body)) = urma_prefix then Some (drop 2 (h @ ?body)) else None) = Some ?body"
  proof (cases "h = []")
    case False
    with assms(2) obtain a b where "h = [a, b]" by (auto simp: dp_header_def length_Suc_conv numeral_2_eq_2)
    then show ?thesis using assms(1) by (auto simp: urma_prefix_def dp_role_ok_def)
  qed (simp add: urma_prefix_def)
  have l: "9 < length ?body" "length ?body \<le> 255"
    using assms(1,4) by (cases r; simp add: dp_role_ok_def urma_prefix_def)+
  have d: "drop 8 ?body = r @ CHR '':'' # t" by (simp add: urma_prefix_def)
  show ?thesis
    unfolding consume_probe_payload_def b option.case d
    using assms(1,3) l by (auto simp: Let_def until_colon dp_role_ok_def)
qed

lemma length_show_hex8 [simp]: "length (show_hex8 w) = 8"
  by (simp add: show_hex8_def)

lemma hex8_plain: "c \<in> set (show_hex8 w) \<Longrightarrow> c \<noteq> CHR '':'' \<and> c \<noteq> CHR 0x00"
proof -
  have u: "unat (drop_bit k w AND 0xf) < 16" for k
  proof -
    have "drop_bit k w AND 0xf \<le> 0xf" by (rule word_and_le1)
    then show ?thesis by (simp add: word_le_nat_alt)
  qed
  have "\<forall>n \<in> set [0..<16]. (if n < 10 then char_of (48 + n) else char_of (87 + n)) \<noteq> CHR '':'' \<and>
      (if n < 10 then char_of (48 + n) else char_of (87 + n)) \<noteq> CHR 0x00" by code_simp
  then have d: "(if n < 10 then char_of (48 + n) else char_of (87 + n)) \<noteq> CHR '':'' \<and>
      (if n < 10 then char_of (48 + n) else char_of (87 + n)) \<noteq> CHR 0x00" if "n < 16" for n :: nat
    using that by (simp add: Ball_def)
  assume "c \<in> set (show_hex8 w)"
  then obtain k where "c = (let n = unat (drop_bit (4 * k) w AND 0xf) in if n < 10 then char_of (48 + n) else char_of (87 + n))"
    unfolding show_hex8_def set_map by blast
  with d [OF u] show ?thesis by (simp add: Let_def)
qed

lemma digits_plain_nat: "c \<in> set (show_nat n) \<Longrightarrow> c \<noteq> CHR '':'' \<and> c \<noteq> CHR 0x00"
  using show_nat_digits [of n] by (auto simp: is_digit_def code_def)

text \<open>What follows the role.\<close>

lemma msg_tail:
  "probe_msg role nonce seq = urma_prefix @ role @ CHR '':'' # (show_hex8 nonce @ '':'' @ show_nat seq)"
  "bench_msg role nonce seq = urma_prefix @ role @ CHR '':'' # (show_hex8 nonce @ '':bench:'' @ show_nat seq)"
  "done_msg role nonce tx = urma_prefix @ role @ CHR '':'' # (show_hex8 nonce @ '':done:'' @ show_nat (unat tx))"
  by (simp_all add: probe_msg_def bench_msg_def done_msg_def)

lemma length_u32: "n < 2 ^ 32 \<Longrightarrow> length (show_nat n) \<le> 10"
  using length_show_nat [of n 10] by simp

lemma tail_length:
  assumes "seq < 2 ^ 32"
  shows "length (show_hex8 nonce @ '':'' @ show_nat seq) \<le> 200" "length (show_hex8 nonce @ '':bench:'' @ show_nat seq) \<le> 200"
    "length (show_hex8 nonce @ '':done:'' @ show_nat (unat (tx :: u32))) \<le> 200"
proof -
  have "unat tx < 2 ^ 32" using unsigned_less [of tx] by simp
  with length_u32 [OF assms] length_u32 [of "unat tx"]
  show "length (show_hex8 nonce @ '':'' @ show_nat seq) \<le> 200" "length (show_hex8 nonce @ '':bench:'' @ show_nat seq) \<le> 200"
    "length (show_hex8 nonce @ '':done:'' @ show_nat (unat tx)) \<le> 200" by simp_all
qed

lemmas consume_msg = consume_body [OF _ _ _ tail_length(1)] consume_body [OF _ _ _ tail_length(2)]

text \<open>
  A node takes every kind of packet of another node as it was sent, with or without a header in front and
  with or without the number of the interface, and none of a node with its own role.
\<close>

theorem peer_packets_taken:
  assumes "dp_role_ok r" and "dp_header h" and "rx = 0 \<or> rx = ifindex" and "n < 2 ^ 32"
  shows "consume_probe_payload (h @ probe_msg r nonce n) rx ifindex local_role 256 = (if local_role = r then None else Some (probe_msg r nonce n)) \<and>
    consume_probe_payload (h @ bench_msg r nonce n) rx ifindex local_role 256 = (if local_role = r then None else Some (bench_msg r nonce n)) \<and>
    consume_probe_payload (h @ done_msg r nonce tx) rx ifindex local_role 256 = (if local_role = r then None else Some (done_msg r nonce tx))"
  unfolding msg_tail using consume_body [OF assms(1-3)] tail_length [OF assms(4)] by blast

section \<open>Measuring\<close>

lemma digits_value_nat: "digits_value 10 (show_nat n) = int n"
proof -
  have "the (hex_val c) = digit_val c" if "is_digit c" for c
    using that by (simp add: hex_val_def is_digit_def digit_val_def Let_def)
  then have "foldl (\<lambda>n c. n * 10 + int (the (hex_val c))) (int a) ds = int (foldl (\<lambda>a c. a * 10 + digit_val c) a ds)"
    if "\<forall>c \<in> set ds. is_digit c" for a ds
    using that
  proof (induction ds arbitrary: a)
    case (Cons c ds)
    then show ?case using Cons.IH [of "a * 10 + digit_val c"] by simp
  qed simp
  from this [OF show_nat_digits, of 0 n] show ?thesis
    using num_of_show_nat [of n] by (simp add: digits_value_def num_of_def)
qed

lemma scan_show_nat: "n < 2 ^ 64 \<Longrightarrow> scan_number 10 (show_nat n) = Some (of_nat n, [])"
proof -
  assume n: "n < 2 ^ 64"
  have d: "is_digit_of 10 c" if "is_digit c" for c
    using that by (auto simp: is_digit_of_def hex_val_def is_digit_def Let_def)
  have t: "takeWhile (is_digit_of 10) (show_nat n) = show_nat n" "dropWhile (is_digit_of 10) (show_nat n) = []"
    using show_nat_digits [of n] d by (auto simp: takeWhile_eq_all_conv dropWhile_eq_Nil_conv)
  have s: "dropWhile c_isspace (show_nat n) = show_nat n"
    using digit_not_special [OF hd_show_nat [of n]] by (cases "show_nat n") simp_all
  have "int n < 2 ^ 64" using n of_nat_less_iff [of n "2 ^ 64", where 'a = int] by simp
  then show ?thesis
    using digit_not_special [OF hd_show_nat [of n]] by (simp add: scan_number_def s t Let_def digits_value_nat)
qed

lemma scan_word_colon:
  "w \<noteq> [] \<Longrightarrow> length w \<le> 31 \<Longrightarrow> CHR '':'' \<notin> set w \<Longrightarrow> scan_word (w @ CHR '':'' # r) = Some (w, r)"
  by (simp add: scan_word_def until_colon Let_def)

lemma scan_word_last: "length w \<le> 31 \<Longrightarrow> CHR '':'' \<notin> set w \<Longrightarrow> scan_word w = None"
proof -
  assume a: "length w \<le> 31" "CHR '':'' \<notin> set w"
  then have t: "takeWhile (\<lambda>c. c \<noteq> CHR '':'') w = w" by (auto simp: takeWhile_eq_all_conv)
  show ?thesis using a(1) by (simp add: scan_word_def Let_def t)
qed

lemma scan_hex8: "scan_word (show_hex8 w @ CHR '':'' # r) = Some (show_hex8 w, r)"
proof (rule scan_word_colon)
  show "show_hex8 w \<noteq> []" "length (show_hex8 w) \<le> 31" using length_show_hex8 [of w] by (auto simp del: length_show_hex8)
  show "CHR '':'' \<notin> set (show_hex8 w)" using hex8_plain by blast
qed

lemma role_plain: "dp_role_ok r \<Longrightarrow> c \<in> set r \<Longrightarrow> c \<noteq> CHR 0x00"
  by (auto simp: dp_role_ok_def)

lemma tail_text:
  assumes "dp_role_ok r" and "CHR 0x00 \<notin> set t"
  shows "takeWhile (\<lambda>c. c \<noteq> CHR 0x00) (urma_prefix @ r @ CHR '':'' # show_hex8 nonce @ CHR '':'' # t) =
    urma_prefix @ r @ CHR '':'' # show_hex8 nonce @ CHR '':'' # t"
  using role_plain [OF assms(1)] hex8_plain assms(2) by (auto simp: takeWhile_eq_all_conv urma_prefix_def)

lemma consume_tail:
  assumes "dp_role_ok r" and "CHR 0x00 \<notin> set t"
  shows "bench_consume_rx (urma_prefix @ r @ CHR '':'' # show_hex8 nonce @ CHR '':'' # t) b =
    (case scan_word t of
       None \<Rightarrow> b
     | Some (kind, p3) \<Rightarrow>
         (case scan_number 10 p3 of
            None \<Rightarrow> b
          | Some (v, rest) \<Rightarrow>
              if kind = ''bench'' then b\<lparr>bn_rx := bn_rx b + 1\<rparr>
              else if kind = ''done'' then b\<lparr>bn_done := True, bn_peer_tx := ucast v\<rparr>
              else b))"
proof -
  have "length urma_prefix = 8" by (simp add: urma_prefix_def)
  moreover have "scan_word (r @ CHR '':'' # x) = Some (r, x)" for x
    using assms(1) by (intro scan_word_colon) (simp_all add: dp_role_ok_def)
  ultimately show ?thesis by (simp add: bench_consume_rx_def tail_text [OF assms] scan_hex8)
qed

lemma nat_plain [simp]: "CHR 0x00 \<notin> set (show_nat n)" "CHR '':'' \<notin> set (show_nat n)"
  using digits_plain_nat by blast+

lemma bench_counted:
  assumes "dp_role_ok r" and "n < 2 ^ 32"
  shows "bench_consume_rx (bench_msg r nonce n) b = b\<lparr>bn_rx := bn_rx b + 1\<rparr>"
    "bench_consume_rx (done_msg r nonce tx) b = b\<lparr>bn_done := True, bn_peer_tx := tx\<rparr>"
    "bench_consume_rx (probe_msg r nonce n) b = b"
proof -
  have "unat tx < 2 ^ 32" using unsigned_less [of tx] by simp
  then have "unat tx < 2 ^ 64" by simp
  then have t: "scan_number 10 (show_nat (unat tx)) = Some (of_nat (unat tx), [])" by (rule scan_show_nat)
  have w: "ucast (word_of_nat (unat tx) :: u64) = tx" by simp
  have n: "scan_number 10 (show_nat n) = Some (of_nat n, [])" using assms(2) by (simp add: scan_show_nat)
  have k: "scan_word (''bench'' @ CHR '':'' # x) = Some (''bench'', x)" "scan_word (''done'' @ CHR '':'' # x) = Some (''done'', x)" for x
    by (rule scan_word_colon; simp)+
  have l: "scan_word (show_nat n) = None" using length_u32 [OF assms(2)] by (simp add: scan_word_last)
  have m: "bench_msg r nonce n = urma_prefix @ r @ CHR '':'' # show_hex8 nonce @ CHR '':'' # (''bench'' @ CHR '':'' # show_nat n)"
    "done_msg r nonce tx = urma_prefix @ r @ CHR '':'' # show_hex8 nonce @ CHR '':'' # (''done'' @ CHR '':'' # show_nat (unat tx))"
    "probe_msg r nonce n = urma_prefix @ r @ CHR '':'' # show_hex8 nonce @ CHR '':'' # show_nat n"
    by (simp_all add: msg_tail)
  show "bench_consume_rx (bench_msg r nonce n) b = b\<lparr>bn_rx := bn_rx b + 1\<rparr>"
    unfolding m by (subst consume_tail [OF assms(1)]) (simp, simp only: k option.case prod.case n, simp)
  show "bench_consume_rx (done_msg r nonce tx) b = b\<lparr>bn_done := True, bn_peer_tx := tx\<rparr>"
    unfolding m by (subst consume_tail [OF assms(1)]) (simp, simp only: k option.case prod.case t w, simp)
  show "bench_consume_rx (probe_msg r nonce n) b = b"
    unfolding m by (subst consume_tail [OF assms(1)]) (simp_all add: l)
qed

text \<open>The loss in a million, without wrap-around at either width.\<close>

lemma bench_loss_exact: "unat (bench_loss_ppm p r) = (unat p - unat r) * 1000000 div unat p"
proof (cases "p = 0")
  case False
  let ?l = "if r < p then p - r else 0"
  have l: "unat ?l = unat p - unat r" by (auto simp: unat_sub word_less_nat_alt word_le_nat_alt)
  have b: "unat ?l < 2 ^ 32" using unsigned_less [of ?l] by simp
  have u: "unat (ucast ?l :: u64) = unat p - unat r" using l by (simp add: unsigned_ucast_eq take_bit_nat_eq_self b)
  have m: "unat (ucast ?l * 1000000 :: u64) = (unat p - unat r) * 1000000"
    using b l u by (simp add: unat_word_ariths)
  have p: "unat (ucast p :: u64) = unat p"
  proof -
    have "unat p < 2 ^ 32" using unsigned_less [of p] by simp
    then show ?thesis by (simp add: unsigned_ucast_eq take_bit_nat_eq_self)
  qed
  have "(unat p - unat r) * 1000000 div unat p \<le> unat p * 1000000 div unat p" by (intro div_le_mono mult_le_mono) simp_all
  also have "unat p * 1000000 div unat p = 1000000" using False by (simp add: unat_eq_zero)
  finally have q: "(unat p - unat r) * 1000000 div unat p < 2 ^ 32" by simp
  have "unat ((ucast ?l * 1000000 :: u64) div ucast p) = (unat p - unat r) * 1000000 div unat p"
    by (simp only: unat_div_distrib m p)
  then show ?thesis using False q by (simp add: bench_loss_ppm_def Let_def unsigned_ucast_eq take_bit_nat_eq_self)
qed (simp add: bench_loss_ppm_def)

text \<open>The rate, of which the program keeps 32 bits; a window of less than a millisecond counts as one.\<close>

lemma bench_pps_exact:
  assumes "w < 2 ^ 63"
  shows "unat (bench_pps r w) = unat r * 1000 div nat (max 1 w) mod 2 ^ 32"
proof -
  have b: "unat r < 2 ^ 32" using unsigned_less [of r] by simp
  then have u: "unat (ucast r :: u64) = unat r" by (simp add: unsigned_ucast_eq take_bit_nat_eq_self)
  have m: "unat (ucast r * 1000 :: u64) = unat r * 1000" using b u by (simp add: unat_word_ariths)
  have "max 1 w < 2 ^ 64" using assms by simp
  then have "uint (of_int (max 1 w) :: u64) = max 1 w" by (simp add: unsigned_of_int take_bit_int_eq_self)
  then have w: "unat (of_int (max 1 w) :: u64) = nat (max 1 w)" by (metis nat_uint_eq)
  have "unat ((ucast r * 1000 :: u64) div of_int (max 1 w)) = unat r * 1000 div nat (max 1 w)"
    by (simp only: unat_div_distrib m w)
  moreover have "(if w \<le> 0 then 1 else w) = max 1 w" by simp
  ultimately show ?thesis unfolding bench_pps_def by (simp add: unsigned_ucast_eq take_bit_eq_mod)
qed

text \<open>What a look shows: nothing, or a message on the datagram socket, or one on the raw socket.\<close>

definition raw_header :: "string \<Rightarrow> bool" where
  "raw_header h \<longleftrightarrow> length h = 28 \<and> code (h ! 0) = 0x45 \<and> code (h ! 9) = 17 \<and> 256 * code (h ! 22) + code (h ! 23) = 18555"

datatype shown = Nothing | On_udp nat | On_raw nat

fun look_of :: "nat \<Rightarrow> string \<Rightarrow> string \<Rightarrow> u32 \<Rightarrow> shown \<Rightarrow> dp_look" where
  "look_of ifindex h r nonce Nothing = ([Dp_again], [Raw_again])"
| "look_of ifindex h r nonce (On_udp n) = ([Dp_dgram ifindex (bench_msg r nonce n)], [Raw_again])"
| "look_of ifindex h r nonce (On_raw n) = ([Dp_again], [Raw_packet (h @ bench_msg r nonce n)])"

fun shown_ok :: "shown \<Rightarrow> bool" where
  "shown_ok Nothing = True"
| "shown_ok (On_udp n) = (n < 2 ^ 32)"
| "shown_ok (On_raw n) = (n < 2 ^ 32)"

definition packets :: "bool \<Rightarrow> shown list \<Rightarrow> nat" where
  "packets have_raw ss = length (filter (\<lambda>s. case s of Nothing \<Rightarrow> False | On_udp n \<Rightarrow> True | On_raw n \<Rightarrow> have_raw) ss)"

lemma raw_payload: "raw_header h \<Longrightarrow> length t \<le> 2000 \<Longrightarrow> raw_udp_payload (h @ t) = Some t"
proof -
  assume h: "raw_header h" and t: "length t \<le> 2000"
  have c: "take 2048 (h @ t) = h @ t" using h t by (simp add: raw_header_def)
  show ?thesis unfolding raw_udp_payload_def c using h
    by (simp add: raw_header_def nth_append DP_PORT_def Let_def)
qed

lemma short_msg:
  assumes "dp_role_ok r" and "n < 2 ^ 32"
  shows "length (bench_msg r nonce n) \<le> 255" "length (done_msg r nonce tx) \<le> 255"
  using tail_length(2) [OF assms(2), of nonce] tail_length(3) [OF assms(2), of nonce tx] assms(1)
  by (simp_all add: msg_tail dp_role_ok_def urma_prefix_def)

lemma taken_udp:
  assumes "dp_role_ok r" and "r \<noteq> role" and "n < 2 ^ 32" and "rx = 0 \<or> rx = ifindex"
  shows "consume_probe_payload (bench_msg r nonce n) rx ifindex role 256 = Some (bench_msg r nonce n)"
    "consume_probe_payload (done_msg r nonce tx) rx ifindex role 256 = Some (done_msg r nonce tx)"
  using consume_body [OF assms(1) _ assms(4), of "[]"] tail_length [OF assms(3)] assms(2)
  by (auto simp: msg_tail dp_header_def)

lemma take_short [simp]: "length m \<le> 255 \<Longrightarrow> take 255 m = m"
  by simp

lemma recv_once [simp]:
  "recv_dgrams 64 ifindex role 256 (Dp_again # es) = (0, [])"
  "recv_dgrams 64 ifindex role 256 (Dp_dgram rx d # es) =
     (case consume_probe_payload (take 255 d) rx ifindex role 256 of
        None \<Rightarrow> recv_dgrams 63 ifindex role 256 es
      | Some payload \<Rightarrow> (1, payload))"
  "recv_raw 64 ifindex role 256 (Raw_again # rs) = (0, [])"
  "recv_raw 64 ifindex role 256 (Raw_packet d # rs) =
     (case raw_udp_payload d of
        None \<Rightarrow> recv_raw 63 ifindex role 256 rs
      | Some udp \<Rightarrow>
          (case consume_probe_payload udp ifindex ifindex role 256 of
             None \<Rightarrow> recv_raw 63 ifindex role 256 rs
           | Some payload \<Rightarrow> (1, payload)))"
  using recv_dgrams.simps(3) [of 63 ifindex role 256 Dp_again es] recv_dgrams.simps(3) [of 63 ifindex role 256 "Dp_dgram rx d" es]
    recv_raw.simps(3) [of 63 ifindex role 256 Raw_again rs] recv_raw.simps(3) [of 63 ifindex role 256 "Raw_packet d" rs] by simp_all

lemma look_seen:
  assumes "dp_role_ok r" and "r \<noteq> role" and "raw_header h" and "shown_ok s"
  shows "try_recv_peer have_raw ifindex role 256 (look_of ifindex h r nonce s) =
    (case s of Nothing \<Rightarrow> (0, []) | On_udp n \<Rightarrow> (1, bench_msg r nonce n)
     | On_raw n \<Rightarrow> if have_raw then (1, bench_msg r nonce n) else (0, []))"
proof (cases s)
  case (On_raw n)
  moreover from this assms have "raw_udp_payload (h @ bench_msg r nonce n) = Some (bench_msg r nonce n)"
    using short_msg(1) [OF assms(1), of n nonce] by (intro raw_payload) simp_all
  ultimately show ?thesis using assms by (simp add: try_recv_peer_def taken_udp)
qed (use assms short_msg in \<open>simp_all add: try_recv_peer_def taken_udp\<close>)

lemma packets_simps [simp]:
  "packets hr [] = 0" "packets hr (Nothing # ss) = packets hr ss" "packets hr (On_udp n # ss) = Suc (packets hr ss)"
  "packets hr (On_raw n # ss) = (if hr then Suc (packets hr ss) else packets hr ss)"
  by (simp_all add: packets_def)

lemma burst_counts:
  assumes "dp_role_ok r" and "r \<noteq> role" and "raw_header h"
  shows "list_all shown_ok ss \<Longrightarrow>
    bench_burst have_raw ifindex role mine (length ss) tx b (map (\<lambda>s. (True, look_of ifindex h r nonce s)) ss) =
      Some (tx + of_nat (length ss), b\<lparr>bn_rx := bn_rx b + of_nat (packets have_raw ss)\<rparr>)"
proof (induction ss arbitrary: tx b)
  case (Cons s ss)
  then have s: "shown_ok s" by simp
  show ?case
    using Cons look_seen [OF assms s, of have_raw ifindex nonce]
    by (cases s; cases have_raw) (simp_all add: bench_counted [OF assms(1)] add.assoc add.commute add.left_commute)
qed simp

lemma drain_counts:
  assumes "dp_role_ok r" and "r \<noteq> role" and "raw_header h"
  shows "list_all shown_ok ss \<Longrightarrow> \<not> bn_done b \<Longrightarrow>
    bench_drain have_raw ifindex role b (map (look_of ifindex h r nonce) ss @ ([Dp_dgram ifindex (done_msg r nonce tx)], rs) # looks) =
      Some (b\<lparr>bn_rx := bn_rx b + of_nat (packets have_raw ss), bn_done := True, bn_peer_tx := tx\<rparr>)"
proof (induction ss arbitrary: b)
  case Nil
  have "try_recv_peer have_raw ifindex role 256 ([Dp_dgram ifindex (done_msg r nonce tx)], rs) = (1, done_msg r nonce tx)"
    using short_msg(2) [OF assms(1), of 0 nonce tx] taken_udp(2) [OF assms(1,2), of 0 ifindex ifindex]
    by (simp add: try_recv_peer_def)
  then show ?case using bench_counted(2) [OF assms(1), of 0] by simp
next
  case (Cons s ss)
  then have s: "shown_ok s" by simp
  show ?case
    using Cons look_seen [OF assms s, of have_raw ifindex nonce]
    by (cases s; cases have_raw) (simp_all add: bench_counted [OF assms(1)] add.assoc add.commute add.left_commute)
qed

lemma drain_ends:
  assumes "dp_role_ok r" and "r \<noteq> role" and "raw_header h"
  shows "list_all shown_ok ss \<Longrightarrow> \<not> bn_done b \<Longrightarrow>
    bench_drain have_raw ifindex role b (map (look_of ifindex h r nonce) ss) = Some (b\<lparr>bn_rx := bn_rx b + of_nat (packets have_raw ss)\<rparr>)"
proof (induction ss arbitrary: b)
  case (Cons s ss)
  then have s: "shown_ok s" by simp
  show ?case
    using Cons look_seen [OF assms s, of have_raw ifindex nonce]
    by (cases s; cases have_raw) (simp_all add: bench_counted [OF assms(1)] add.assoc add.commute add.left_commute)
qed simp

text \<open>How the wait ends: the other node says how many packets it has sent, or the time is over.\<close>

fun told_looks :: "nat \<Rightarrow> string \<Rightarrow> u32 \<Rightarrow> (u32 \<times> raw_ev list \<times> dp_look list) option \<Rightarrow> dp_look list" where
  "told_looks ifindex r nonce None = []"
| "told_looks ifindex r nonce (Some (tx, rs, looks)) = ([Dp_dgram ifindex (done_msg r nonce tx)], rs) # looks"

definition told_tx :: "u32 \<Rightarrow> (u32 \<times> raw_ev list \<times> dp_look list) option \<Rightarrow> u32" where
  "told_tx pkts told = (case told of None \<Rightarrow> pkts | Some (tx, _) \<Rightarrow> tx)"

lemma bench_outcome:
  assumes "dp_role_ok r" and "r \<noteq> role" and "raw_header h" and "list_all shown_ok (ss @ ds)" and "length ss = unat pkts" and "pkts \<noteq> 0"
    and "bl_burst log = map (\<lambda>s. (True, look_of ifindex h r nonce s)) ss"
    and "bl_drain log = map (look_of ifindex h r nonce) ds @ told_looks ifindex r nonce told"
  shows "run_bench_phase have_raw ifindex role mine pkts min_pps limit log =
    (if bench_pps (of_nat (packets have_raw (ss @ ds))) (bl_rx_window_ms log) < min_pps then 1
     else if limit < bench_loss_ppm (told_tx pkts told) (of_nat (packets have_raw (ss @ ds))) then 1 else 0)"
proof -
  have b: "bench_burst have_raw ifindex role mine (unat pkts) 0 \<lparr>bn_rx = 0, bn_done = False, bn_peer_tx = 0\<rparr> (bl_burst log) =
      Some (of_nat (length ss), \<lparr>bn_rx = of_nat (packets have_raw ss), bn_done = False, bn_peer_tx = 0\<rparr>)"
    unfolding assms(5) [symmetric] assms(7) using burst_counts [OF assms(1-3), of ss] assms(4) by simp
  have "\<exists>b1. bench_drain have_raw ifindex role \<lparr>bn_rx = of_nat (packets have_raw ss), bn_done = False, bn_peer_tx = 0\<rparr> (bl_drain log) =
      Some b1 \<and> bn_rx b1 = of_nat (packets have_raw (ss @ ds)) \<and> (if bn_done b1 then bn_peer_tx b1 else pkts) = told_tx pkts told"
  proof (cases told)
    case None
    then show ?thesis unfolding assms(8) using drain_ends [OF assms(1-3), of ds] assms(4) by (simp add: packets_def told_tx_def)
  next
    case (Some t)
    obtain tx rs looks where t: "t = (tx, rs, looks)" by (rule prod_cases3)
    show ?thesis unfolding assms(8) Some t using drain_counts [OF assms(1-3), of ds] assms(4) by (simp add: packets_def told_tx_def)
  qed
  then show ?thesis using assms(6) b by (auto simp: run_bench_phase_def)
qed

text \<open>
  C26: the measurement is exact when no packet is seen twice: a node that sees \<open>m\<close> packets, on the sockets it has,
  in its \<open>pkts\<close> turns and the wait behind them, passes exactly when the rate over the receive window, rounded down and
  kept in 32 bits, is at least the minimum, and the packets lost in a million, rounded down, are not more than the limit.
  The loss is measured against the number the other node says it has sent or, when it does not say so in time, against
  its own; no number of packets makes that arithmetic wrap.
\<close>

theorem bench_loss_measured:
  assumes "dp_role_ok r" and "r \<noteq> role" and "raw_header h" and "list_all shown_ok (ss @ ds)" and "length ss = unat pkts" and "pkts \<noteq> 0"
    and "packets have_raw (ss @ ds) < 2 ^ 32" and "bl_rx_window_ms log < 2 ^ 63"
    and "bl_burst log = map (\<lambda>s. (True, look_of ifindex h r nonce s)) ss"
    and "bl_drain log = map (look_of ifindex h r nonce) ds @ told_looks ifindex r nonce told"
  shows "run_bench_phase have_raw ifindex role mine pkts min_pps limit log =
    (if unat min_pps \<le> packets have_raw (ss @ ds) * 1000 div nat (max 1 (bl_rx_window_ms log)) mod 2 ^ 32 \<and>
        (unat (told_tx pkts told) - packets have_raw (ss @ ds)) * 1000000 div unat (told_tx pkts told) \<le> unat limit
     then 0 else 1)"
proof -
  let ?m = "packets have_raw (ss @ ds)"
  have u: "unat (of_nat ?m :: u32) = ?m"
    using assms(7) by (simp add: unsigned_of_nat take_bit_nat_eq_self)
  have "bench_pps (of_nat ?m) (bl_rx_window_ms log) < min_pps \<longleftrightarrow>
      \<not> unat min_pps \<le> ?m * 1000 div nat (max 1 (bl_rx_window_ms log)) mod 2 ^ 32"
    unfolding word_less_nat_alt bench_pps_exact [OF assms(8)] u by (rule not_le [symmetric])
  moreover have "limit < bench_loss_ppm (told_tx pkts told) (of_nat ?m) \<longleftrightarrow>
      \<not> (unat (told_tx pkts told) - ?m) * 1000000 div unat (told_tx pkts told) \<le> unat limit"
    unfolding word_less_nat_alt bench_loss_exact u by (rule not_le [symmetric])
  ultimately show ?thesis unfolding bench_outcome [OF assms(1-6,9,10)] by simp
qed

text \<open>
  C27: with a raw socket the measurement counts a packet once for each socket it is seen on: a node that takes
  only half of the packets sent to it, each on both sockets, passes with no loss allowed at all.
\<close>

theorem bench_double_count:
  assumes "dp_role_ok r" and "r \<noteq> role" and "raw_header h" and "0 < n" and "2 * n < 2 ^ 32"
    and "bl_burst log = map (\<lambda>s. (True, look_of ifindex h r nonce s)) (replicate (2 * n) Nothing)"
    and "bl_drain log = map (look_of ifindex h r nonce) (concat (map (\<lambda>i. [On_udp i, On_raw i]) [0..<n])) @
      ([Dp_dgram ifindex (done_msg r nonce (of_nat (2 * n)))], rs) # looks"
  shows "run_bench_phase True ifindex role mine (of_nat (2 * n)) 0 0 log = 0"
proof -
  let ?ss = "replicate (2 * n) Nothing" and ?ds = "concat (map (\<lambda>i. [On_udp i, On_raw i]) [0..<n])"
  have "unat (of_nat m :: u32) = m" if "m < 2 ^ 32" for m
    using that by (simp add: unsigned_of_nat take_bit_nat_eq_self)
  from this [OF assms(5)] have u: "unat (of_nat (2 * n) :: u32) = 2 * n" .
  have h: "packets True (?ss @ ?ds) = 2 * n"
  proof -
    have r: "packets True (replicate k Nothing @ xs) = packets True xs" for k xs by (induction k) simp_all
    have d: "packets True (concat (map (\<lambda>i. [On_udp i, On_raw i]) js)) = 2 * length js" for js by (induction js) simp_all
    show ?thesis unfolding r d by simp
  qed
  have o: "list_all shown_ok (?ss @ ?ds)" using assms(5) by (auto simp: list_all_iff)
  have z: "(of_nat (2 * n) :: u32) \<noteq> 0" using u assms(4) by (metis unsigned_0 mult_eq_0_iff neq0_conv zero_neq_numeral)
  have "unat (bench_loss_ppm (of_nat (2 * n)) (of_nat (2 * n))) = 0" unfolding bench_loss_exact by simp
  then have l: "bench_loss_ppm (of_nat (2 * n)) (of_nat (2 * n)) = 0" by (simp add: unat_eq_zero)
  have s: "length ?ss = unat (of_nat (2 * n) :: u32)" unfolding u by simp
  show ?thesis
    using bench_outcome [OF assms(1-3) o s z assms(6), of "Some (of_nat (2 * n), rs, looks)" True mine 0 0] assms(7)
    unfolding h by (simp add: told_tx_def l [simplified])
qed

section \<open>Probes\<close>

lemma probe_first:
  "probe_loop have_raw ifindex role n looks =
     (let quiet = takeWhile (\<lambda>l. fst (try_recv_peer have_raw ifindex role 256 l) = 0) (take n looks)
      in if length quiet < min n (length looks)
         then (fst (try_recv_peer have_raw ifindex role 256 (looks ! length quiet)), Suc (length quiet))
         else (0, length quiet))"
proof (induction have_raw ifindex role n looks rule: probe_loop.induct)
  case (3 have_raw ifindex role n look looks)
  then show ?case by (auto simp: Let_def split: prod.splits)
qed simp_all

text \<open>
  The probes end at the first look that shows a packet of the other node, and not before: a node that hears
  nothing sends a probe for each look, at most forty, and fails; one that hears the other at look \<open>k\<close> has sent
  \<open>k + 1\<close> probes and goes on.
\<close>

theorem probes_until_heard:
  "case probe_loop have_raw ifindex role 40 looks of
     (got, sent) \<Rightarrow>
       sent \<le> 40 \<and> sent \<le> length looks \<and>
       (\<forall>k < (if got = 0 then sent else sent - 1). fst (try_recv_peer have_raw ifindex role 256 (looks ! k)) = 0) \<and>
       (got = 0 \<longrightarrow> sent = min 40 (length looks)) \<and>
       (got \<noteq> 0 \<longrightarrow> 0 < sent \<and> got = fst (try_recv_peer have_raw ifindex role 256 (looks ! (sent - 1))))"
proof -
  define f where "f l = fst (try_recv_peer have_raw ifindex role 256 l)" for l
  define k where "k = length (takeWhile (\<lambda>l. f l = 0) (take 40 looks))"
  have l: "k \<le> min 40 (length looks)" using length_takeWhile_le [of "\<lambda>l. f l = 0" "take 40 looks"] by (simp add: k_def)
  have q: "f (looks ! i) = 0" if "i < k" for i
    using that l nth_mem [OF that [unfolded k_def]] takeWhile_nth [OF that [unfolded k_def]] set_takeWhileD
    by (fastforce simp: k_def)
  have s: "f (looks ! k) \<noteq> 0" if "k < min 40 (length looks)"
    using nth_length_takeWhile [of "\<lambda>l. f l = 0" "take 40 looks"] that by (simp add: k_def)
  have r: "probe_loop have_raw ifindex role 40 looks = (if k < min 40 (length looks) then (f (looks ! k), Suc k) else (0, k))"
    unfolding probe_first [of have_raw ifindex role 40 looks] Let_def f_def [symmetric] k_def ..
  show ?thesis
    unfolding r f_def [symmetric] using l q s by (cases "k < min 40 (length looks)") auto
qed

section \<open>Descriptors\<close>

lemma dp_close_raw:
  assumes "holding (insert sockfd (if 0 \<le> rawfd then insert rawfd E else E)) ks" and "sockfd \<notin> E" and "rawfd \<notin> E" and "0 \<le> rawfd \<longrightarrow> rawfd \<noteq> sockfd"
  shows "holding E (dp_close rawfd sockfd ks)"
  using assms by (auto simp: dp_close_def insert_commute intro!: holding_close)

lemma raw_left:
  assumes "holding (insert sockfd (insert rawfd E)) ks" and "sockfd \<notin> E" and "rawfd \<noteq> sockfd"
  shows "holding (insert rawfd E) (nk_close sockfd ks)"
  using assms by (intro holding_close) auto

lemma dp_run_descriptors:
  assumes "net_os_ok os" and "holding E ks"
  shows "case dp_run os env role ifindex log ks of
    (rc, ks') \<Rightarrow> \<not> nk_bad ks' \<and> (holding E ks' \<or> (rc = 1 \<and> (\<exists>rawfd. 0 \<le> rawfd \<and> rawfd \<notin> E \<and> holding (insert rawfd E) ks')))"
proof (cases "nt_socket os ks ''SOCK_DGRAM'' < 0")
  case True
  with assms(2) show ?thesis by (simp add: dp_run_def Let_def holding_def nk_open_def nk_tick_def)
next
  case False
  define sockfd where "sockfd = nt_socket os ks ''SOCK_DGRAM''"
  define ks1 where "ks1 = nk_open sockfd ks"
  have k1: "holding (insert sockfd E) ks1" and e: "sockfd \<notin> E"
    using fresh_socket [OF assms False] by (simp_all add: sockfd_def ks1_def)
  define rawfd where "rawfd = nt_socket os (nk_tick ks1) ''SOCK_RAW''"
  define ks2 where "ks2 = nk_open rawfd (nk_tick ks1)"
  have t1: "holding (insert sockfd E) (nk_tick ks1)" using k1 by simp
  have raw: "rawfd \<notin> insert sockfd E" "holding (insert sockfd (insert rawfd E)) ks2" if "0 \<le> rawfd"
    using fresh_socket [OF assms(1) t1, of "''SOCK_RAW''"] that
    by (auto simp: rawfd_def ks2_def insert_commute)
  have noraw: "holding (insert sockfd E) ks2" if "rawfd < 0" using that t1 by (simp add: ks2_def)
  have all: "holding E (dp_close rawfd sockfd ks')" if "holding (nk_fds ks2) ks'" for ks'
    using that raw noraw e dp_close_raw [of sockfd rawfd E ks']
    by (cases "0 \<le> rawfd") (auto simp: holding_def dp_close_def nk_close_def nk_tick_def)
  have one: "\<not> nk_bad ks' \<and> (holding E ks' \<or> (\<exists>rawfd. 0 \<le> rawfd \<and> rawfd \<notin> E \<and> holding (insert rawfd E) ks'))"
    if "ks' = nk_close sockfd (nk_tick ks2) \<or> ks' = nk_close sockfd (nk_tick (nk_tick ks2))" for ks'
  proof (cases "0 \<le> rawfd")
    case True
    then have "holding (insert rawfd E) ks'" using that raw raw_left [OF _ e, of rawfd] by auto
    with True raw show ?thesis by (auto simp: holding_def)
  next
    case F: False
    then have "holding E ks'" using that noraw holding_close [OF _ e] by auto
    then show ?thesis by (simp add: holding_def)
  qed
  have two: "holding (nk_fds ks2) (nk_tick (nk_tick ks2))"
    using raw noraw by (cases "0 \<le> rawfd") (auto simp: holding_def nk_tick_def)
  have c: "holding E (nk_close sockfd (nk_tick ks1))" using t1 e by (rule holding_close)
  show ?thesis
    using False one all [OF two] c
    unfolding dp_run_def Let_def sockfd_def [symmetric] ks1_def [symmetric] rawfd_def [symmetric] ks2_def [symmetric]
    by (auto simp: holding_def split: if_splits)
qed

text \<open>
  Whatever the kernel and the network answer, a run of the demo that succeeds leaves the descriptors open that were
  open before; one that fails may in addition leave one raw socket open, and only where setting the receive
  timeout or the address of the other socket fails.
\<close>

theorem urma_main_descriptors:
  assumes "net_os_ok os" and "holding E ks"
  shows "case urma_main os env log ks of
    (rc, ks') \<Rightarrow> \<not> nk_bad ks' \<and> (holding E ks' \<or> (rc = 1 \<and> (\<exists>rawfd. 0 \<le> rawfd \<and> rawfd \<notin> E \<and> holding (insert rawfd E) ks')))"
proof -
  define role where "role = (case cmdline_get_value env ''linqu_urma_dp_role'' 32 of None \<Rightarrow> ''unknown'' | Some r \<Rightarrow> r)"
  obtain found ks1 where w: "wait_iface_ready os (dl_iface_looks log) ks = (found, ks1)" by (rule prod.exhaust)
  then have k1: "holding E ks1" using wait_iface_holding [OF assms, of "dl_iface_looks log"] by simp
  show ?thesis
  proof (cases "\<exists>ifname ifindex my_ip peer_ip. found = Some (ifname, ifindex) \<and>
      node_ipv4_pair env role INET_ADDRSTRLEN INET_ADDRSTRLEN = Some (my_ip, peer_ip)")
    case False
    then have "urma_main os env log ks = (1, ks1)"
      by (cases found; cases "node_ipv4_pair env role INET_ADDRSTRLEN INET_ADDRSTRLEN")
        (auto simp: urma_main_def Let_def role_def [symmetric] w)
    then show ?thesis using k1 by (simp add: holding_def)
  next
    case True
    then obtain ifname ifindex my_ip peer_ip where f: "found = Some (ifname, ifindex)"
      "node_ipv4_pair env role INET_ADDRSTRLEN INET_ADDRSTRLEN = Some (my_ip, peer_ip)" by blast
    obtain addrs ks2 where n: "net_setup os ifname my_ip peer_ip ks1 = (addrs, ks2)" by (rule prod.exhaust)
    then have k2: "holding E ks2" using net_setup_holding [OF assms(1) k1, of ifname my_ip peer_ip] by simp
    have m: "urma_main os env log ks = (case addrs of None \<Rightarrow> (1, ks2) | Some a \<Rightarrow> dp_run os env role ifindex log ks2)"
      by (simp add: urma_main_def Let_def role_def [symmetric] w f n split: option.split)
    show ?thesis
      unfolding m using dp_run_descriptors [OF assms(1) k2, of env role ifindex log] k2
      by (cases addrs) (simp_all add: holding_def)
  qed
qed

end
