(* ===== verification/Tcp_Each.thy ===== *)
theory Tcp_Each
  imports Net_If
begin

text \<open>
  The TCP demo in which each node is a server and a client (\<^verbatim>\<open>ub_tcp_each_server_demo.c\<close>): a child
  waits for the other node's connection, reads a line and answers with one, while the parent connects to the other
  node, sends its line and reads the answer. Which descriptors are open and which child is not yet waited for are
  part of the state. The kernel's answers and the bytes that arrive are inputs; printing is left out.
\<close>

section \<open>The kernel\<close>

record tcp_os =
  tp_net :: net_os
  tp_listen :: "net_ks \<Rightarrow> bool"
  tp_accept :: "net_ks \<Rightarrow> int"
  tp_nonblock :: "net_ks \<Rightarrow> bool"

definition tcp_os_ok :: "tcp_os \<Rightarrow> bool" where
  "tcp_os_ok os \<longleftrightarrow> net_os_ok (tp_net os) \<and> (\<forall>ks. 0 \<le> tp_accept os ks \<longrightarrow> tp_accept os ks \<notin> nk_fds ks)"

text \<open>What a look at the listening socket gives (\<open>Acc_ready\<close> with whether an error of \<^verbatim>\<open>accept\<close> is one that
  passes), what a connection attempt gives (\<open>Con_pending\<close> with whether it has come up in time), and what
  \<^verbatim>\<open>send\<close>, \<^verbatim>\<open>recv\<close> and \<^verbatim>\<open>waitpid\<close> give. A list that ends is a deadline or a timeout.\<close>

datatype acc_ev = Acc_interrupted | Acc_select_fails | Acc_idle | Acc_ready bool
datatype con_ev = Con_ok | Con_pending bool | Con_fails
datatype tx_ev = Tx_sent nat | Tx_interrupted | Tx_fails
datatype rx_ev = Rx_char char | Rx_eof | Rx_interrupted | Rx_fails
datatype wait_ev = Wait_fails | Wait_exited | Wait_signalled

section \<open>Sockets\<close>

definition TCP_EACH_SERVER_PORT :: u16 where "TCP_EACH_SERVER_PORT = 18620"

text \<open>The answers to these options do not matter.\<close>

definition set_socket_timeouts :: "net_ks \<Rightarrow> net_ks" where
  "set_socket_timeouts ks = nk_tick (nk_tick ks)"

definition bind_socket_to_iface :: "net_ks \<Rightarrow> net_ks" where
  "bind_socket_to_iface ks = nk_tick ks"

definition create_listener :: "tcp_os \<Rightarrow> string \<Rightarrow> net_ks \<Rightarrow> int \<times> net_ks" where
  "create_listener os local_ip ks =
     (let fd = nt_socket (tp_net os) ks ''SOCK_STREAM''; ks1 = nk_open fd ks
      in if fd < 0 then (- 1, ks1)
         else let ks2 = set_socket_timeouts (bind_socket_to_iface (nk_tick ks1))
              in if nt_pton (tp_net os) local_ip = None then (- 1, nk_close fd ks2)
                 else if \<not> nt_bind (tp_net os) ks2 TCP_EACH_SERVER_PORT then (- 1, nk_close fd (nk_tick ks2))
                 else if \<not> tp_listen os (nk_tick ks2) then (- 1, nk_close fd (nk_tick (nk_tick ks2)))
                 else (fd, nk_tick (nk_tick ks2)))"

fun wait_for_accept :: "tcp_os \<Rightarrow> acc_ev list \<Rightarrow> net_ks \<Rightarrow> int \<times> net_ks" where
  "wait_for_accept os [] ks = (- 1, ks)"
| "wait_for_accept os (e # es) ks =
     (case e of
        Acc_interrupted \<Rightarrow> wait_for_accept os es (nk_tick ks)
      | Acc_select_fails \<Rightarrow> (- 1, nk_tick ks)
      | Acc_idle \<Rightarrow> wait_for_accept os es (nk_tick ks)
      | Acc_ready passes \<Rightarrow>
          (let accepted_fd = tp_accept os (nk_tick ks); ks1 = nk_open accepted_fd (nk_tick ks)
           in if 0 \<le> accepted_fd then (accepted_fd, set_socket_timeouts ks1)
              else if \<not> passes then (- 1, ks1)
              else wait_for_accept os es ks1))"

text \<open>The result is not used.\<close>

definition restore_blocking :: "net_ks \<Rightarrow> net_ks" where
  "restore_blocking ks = nk_tick (nk_tick ks)"

fun connect_to_peer_retry :: "tcp_os \<Rightarrow> string \<Rightarrow> con_ev list \<Rightarrow> net_ks \<Rightarrow> int \<times> net_ks" where
  "connect_to_peer_retry os peer_ip [] ks = (- 1, ks)"
| "connect_to_peer_retry os peer_ip (e # es) ks =
     (let fd = nt_socket (tp_net os) ks ''SOCK_STREAM''; ks1 = nk_open fd ks
      in if fd < 0 then (- 1, ks1)
         else let ks2 = bind_socket_to_iface (nk_tick ks1); ks3 = nk_tick ks2; ks4 = nk_tick ks3
              in if \<not> nt_bind (tp_net os) ks2 0 then (- 1, nk_close fd ks3)
                 else if \<not> tp_nonblock os ks3 then (- 1, nk_close fd ks4)
                 else if nt_pton (tp_net os) peer_ip = None then (- 1, nk_close fd ks4)
                 else if e = Con_ok \<or> e = Con_pending True then (fd, set_socket_timeouts (restore_blocking (nk_tick ks4)))
                 else connect_to_peer_retry os peer_ip es (nk_close fd (nk_tick ks4)))"

section \<open>Lines\<close>

text \<open>The result is whether everything has gone out, and what has. The kernel may take less than it is given.\<close>

fun send_all :: "string \<Rightarrow> tx_ev list \<Rightarrow> bool \<times> string" where
  "send_all [] es = (True, [])"
| "send_all (c # cs) [] = (False, [])"
| "send_all (c # cs) (e # es) =
     (case e of
        Tx_sent n \<Rightarrow>
          if 0 < n then case send_all (drop n (c # cs)) es of (ok, out) \<Rightarrow> (ok, take n (c # cs) @ out)
          else (False, [])
      | Tx_interrupted \<Rightarrow> send_all (c # cs) es
      | Tx_fails \<Rightarrow> (False, []))"

definition NEWLINE :: char where "NEWLINE = CHR 0x0A"

definition send_line :: "string \<Rightarrow> tx_ev list \<Rightarrow> bool \<times> string" where
  "send_line line es =
     (if 256 \<le> length (line @ [NEWLINE]) then (False, []) else send_all (line @ [NEWLINE]) es)"

text \<open>\<open>buf\<close> is what has been read, \<open>room\<close> how many characters still fit. A line that fills the buffer, or
  that the peer ends by closing, is taken as it is, unless it is empty.\<close>

fun recv_chars :: "nat \<Rightarrow> string \<Rightarrow> rx_ev list \<Rightarrow> string option" where
  "recv_chars 0 buf es = (if buf \<noteq> [] then Some buf else None)"
| "recv_chars (Suc room) buf [] = None"
| "recv_chars (Suc room) buf (e # es) =
     (case e of
        Rx_char ch \<Rightarrow> if ch = NEWLINE then Some buf else recv_chars room (buf @ [ch]) es
      | Rx_eof \<Rightarrow> if buf \<noteq> [] then Some buf else None
      | Rx_interrupted \<Rightarrow> recv_chars (Suc room) buf es
      | Rx_fails \<Rightarrow> None)"

definition recv_line :: "nat \<Rightarrow> rx_ev list \<Rightarrow> string option" where
  "recv_line buf_len es = recv_chars (buf_len - 1) [] es"

text \<open>\<^verbatim>\<open>strcmp\<close> of what was read with a constant.\<close>

definition same_text :: "string \<Rightarrow> string \<Rightarrow> bool" where
  "same_text buf s \<longleftrightarrow> takeWhile (\<lambda>c. c \<noteq> CHR 0x00) buf = s"

section \<open>The program\<close>

record role_msgs =
  rm_client_msg :: string
  rm_expected_server_msg :: string
  rm_server_ack :: string
  rm_expected_client_ack :: string

definition role_messages :: "string \<Rightarrow> role_msgs option" where
  "role_messages role =
     (if role = ''nodeA'' then
        Some \<lparr>rm_client_msg = ''tcp hello from nodeA client'', rm_expected_server_msg = ''tcp hello from nodeB client'',
              rm_server_ack = ''tcp ack from nodeA server'', rm_expected_client_ack = ''tcp ack from nodeB server''\<rparr>
      else if role = ''nodeB'' then
        Some \<lparr>rm_client_msg = ''tcp hello from nodeB client'', rm_expected_server_msg = ''tcp hello from nodeA client'',
              rm_server_ack = ''tcp ack from nodeB server'', rm_expected_client_ack = ''tcp ack from nodeA server''\<rparr>
      else None)"

record tcp_log =
  tl_iface_looks :: nat
  tl_fork :: bool
  tl_accept :: "acc_ev list"
  tl_server_rx :: "rx_ev list"
  tl_server_tx :: "tx_ev list"
  tl_connect :: "con_ev list"
  tl_client_tx :: "tx_ev list"
  tl_client_rx :: "rx_ev list"
  tl_wait :: wait_ev

text \<open>The child: its exit status, what it has sent, and its descriptors after it has closed the listening socket.\<close>

definition run_server_child :: "tcp_os \<Rightarrow> string \<Rightarrow> string \<Rightarrow> tcp_log \<Rightarrow> net_ks \<Rightarrow> int \<times> string \<times> net_ks" where
  "run_server_child os expected_server_msg server_ack log ks =
     (case wait_for_accept os (tl_accept log) ks of
        (accepted_fd, ks1) \<Rightarrow>
          if accepted_fd < 0 then (1, [], ks1)
          else case recv_line 256 (tl_server_rx log) of
                 None \<Rightarrow> (1, [], nk_close accepted_fd ks1)
               | Some recv_buf \<Rightarrow>
                   if \<not> same_text recv_buf expected_server_msg then (1, [], nk_close accepted_fd ks1)
                   else case send_line server_ack (tl_server_tx log) of
                          (ok, out) \<Rightarrow> (if ok then 0 else 1, out, nk_close accepted_fd ks1))"

text \<open>How a node ends: the exit status, the parent's descriptors, how many children are not waited for, what the client
  and the server have sent (the server at most, where it was killed), and the descriptors of the child, where it was
  not killed.\<close>

record tcp_end =
  te_rc :: int
  te_ks :: net_ks
  te_children :: nat
  te_client_out :: string
  te_server_out :: string
  te_child_ks :: "net_ks option"

text \<open>Kills the child and waits for it.\<close>

definition cleanup_child :: "tcp_end \<Rightarrow> tcp_end" where
  "cleanup_child e = e\<lparr>te_children := 0, te_child_ks := None\<rparr>"

definition tcp_stop :: "net_ks \<Rightarrow> tcp_end" where
  "tcp_stop ks = \<lparr>te_rc = 1, te_ks = ks, te_children = 0, te_client_out = [], te_server_out = [], te_child_ks = None\<rparr>"

text \<open>From the listening socket to the end; the child has a copy of the descriptors.\<close>

definition tcp_run :: "tcp_os \<Rightarrow> role_msgs \<Rightarrow> string \<Rightarrow> string \<Rightarrow> tcp_log \<Rightarrow> net_ks \<Rightarrow> tcp_end" where
  "tcp_run os ms local_ip peer_ip log ks =
     (case create_listener os local_ip ks of
        (listener_fd, ks1) \<Rightarrow>
          if listener_fd < 0 then tcp_stop ks1
          else if \<not> tl_fork log then tcp_stop (nk_close listener_fd ks1)
          else case run_server_child os (rm_expected_server_msg ms) (rm_server_ack ms) log ks1 of
                 (child, server_out, cks) \<Rightarrow>
                   (case connect_to_peer_retry os peer_ip (tl_connect log) (nk_close listener_fd ks1) of
                      (client_fd, ks2) \<Rightarrow>
                        let e = \<lparr>te_rc = 1, te_ks = ks2, te_children = 1, te_client_out = [], te_server_out = server_out,
                                 te_child_ks = Some (nk_close listener_fd cks)\<rparr>
                        in if client_fd < 0 then cleanup_child e
                           else case send_line (rm_client_msg ms) (tl_client_tx log) of
                                  (ok, out) \<Rightarrow>
                                    let e1 = e\<lparr>te_ks := nk_close client_fd ks2, te_client_out := out\<rparr>
                                    in if \<not> ok then cleanup_child e1
                                       else case recv_line 256 (tl_client_rx log) of
                                              None \<Rightarrow> cleanup_child e1
                                            | Some recv_buf \<Rightarrow>
                                                if \<not> same_text recv_buf (rm_expected_client_ack ms) then cleanup_child e1
                                                else if tl_wait log = Wait_fails then e1
                                                else e1\<lparr>te_children := 0,
                                                        te_rc := (if tl_wait log = Wait_exited \<and> child = 0 then 0 else 1)\<rparr>))"

definition tcp_main :: "tcp_os \<Rightarrow> host_env \<Rightarrow> tcp_log \<Rightarrow> net_ks \<Rightarrow> tcp_end" where
  "tcp_main os env log ks =
     (case cmdline_get_value env ''linqu_urma_dp_role'' 32 of
        None \<Rightarrow> tcp_stop ks
      | Some role \<Rightarrow>
          (case node_ipv4_pair env role INET_ADDRSTRLEN INET_ADDRSTRLEN of
             None \<Rightarrow> tcp_stop ks
           | Some (local_ip, peer_ip) \<Rightarrow>
               (case role_messages role of
                  None \<Rightarrow> tcp_stop ks
                | Some ms \<Rightarrow>
                    (case wait_iface_ready (tp_net os) (tl_iface_looks log) ks of
                       (None, ks1) \<Rightarrow> tcp_stop ks1
                     | (Some (ifname, ifindex), ks1) \<Rightarrow>
                         (case (nt_pton (tp_net os) local_ip, nt_pton (tp_net os) peer_ip) of
                            (Some local_addr, Some peer_addr) \<Rightarrow>
                              (case get_local_ipv4 (tp_net os) ifname ks1 of
                                 (cur, ks2) \<Rightarrow>
                                   (case (if cur = Some local_addr then (True, ks2)
                                          else set_ipv4_addr (tp_net os) ifname local_ip ks2) of
                                      (ok, ks3) \<Rightarrow>
                                        if \<not> ok then tcp_stop ks3
                                        else tcp_run os ms local_ip peer_ip log
                                               (snd (install_static_arp (tp_net os) ifname peer_addr ks3))))
                          | _ \<Rightarrow> tcp_stop ks1)))))"

end
