(* ===== verification/Tcp_Runs.thy ===== *)
theory Tcp_Runs
  imports Tcp_Each
begin

text \<open>
  What holds of the TCP demo: a line that can be sent is received as it was, however the kernel cuts it up; two nodes
  that reach each other both succeed; a node that succeeds has said and heard everything; and no descriptor stays
  open and no child is left behind, unless waiting for it fails.
\<close>

section \<open>Lines\<close>

text \<open>What goes out is a prefix of the text, all of it exactly when the send succeeds.\<close>

lemma send_all_prefix: "send_all s es = (ok, out) \<Longrightarrow> \<exists>rest. s = out @ rest \<and> (ok \<longleftrightarrow> rest = [])"
proof (induction s es arbitrary: ok out rule: send_all.induct)
  case (3 c cs e es)
  show ?case
  proof (cases e)
    case (Tx_sent n)
    show ?thesis
    proof (cases "0 < n")
      case True
      obtain ok' out' where r: "send_all (drop n (c # cs)) es = (ok', out')" by (rule prod.exhaust)
      from "3.IH"(1) [OF Tx_sent True r] obtain rest where "drop n (c # cs) = out' @ rest" "ok' \<longleftrightarrow> rest = []" by blast
      moreover have "ok = ok'" "out = take n (c # cs) @ out'" using "3.prems" Tx_sent True r by simp_all
      ultimately show ?thesis using append_take_drop_id [of n "c # cs"] by (metis append_assoc)
    qed (use "3.prems" Tx_sent in simp)
  qed (use "3.IH"(2) "3.prems" in auto)
qed auto

lemma send_line_sends:
  "send_line line es = (True, out) \<Longrightarrow> out = line @ [NEWLINE] \<and> length line \<le> 254"
  using send_all_prefix [of "line @ [NEWLINE]" es True out] by (auto simp: send_line_def split: if_splits)

lemma send_line_part: "send_line line es = (ok, out) \<Longrightarrow> \<exists>rest. line @ [NEWLINE] = out @ rest \<and> (ok \<longrightarrow> rest = [])"
  using send_all_prefix [of "line @ [NEWLINE]" es ok out] by (fastforce simp: send_line_def split: if_splits)

text \<open>Bytes that arrive in order, with interruptions in between.\<close>

definition carries :: "rx_ev list \<Rightarrow> string \<Rightarrow> bool" where
  "carries es s \<longleftrightarrow> (\<exists>more. filter (\<lambda>e. e \<noteq> Rx_interrupted) es = map Rx_char s @ more)"

lemma carries_Nil [simp]: "carries es []"
  by (simp add: carries_def)

lemma carries_Cons:
  "carries (e # es) (c # s) \<longleftrightarrow> (if e = Rx_interrupted then carries es (c # s) else e = Rx_char c \<and> carries es s)"
  by (auto simp: carries_def)

lemma carries_interrupted [simp]: "carries (Rx_interrupted # es) s \<longleftrightarrow> carries es s"
  by (simp add: carries_def)

lemma recv_carried:
  "carries es (line @ [NEWLINE]) \<Longrightarrow> NEWLINE \<notin> set line \<Longrightarrow> length line < room \<Longrightarrow> recv_chars room buf es = Some (buf @ line)"
proof (induction room buf es arbitrary: line rule: recv_chars.induct)
  case (2 room buf)
  then show ?case by (simp add: carries_def)
next
  case (3 room buf e es)
  show ?case
  proof (cases "e = Rx_interrupted")
    case False
    with 3 show ?thesis by (cases line; cases e) (auto simp: carries_Cons)
  qed (use 3 in simp)
qed simp

text \<open>
  What one side can send the other side receives: a line that goes out in whatever pieces the kernel takes, with
  calls that are interrupted on both sides, is read as it was, and what follows it is left for the next read.
\<close>

theorem line_round_trip:
  assumes "send_line line txs = (True, out)" and "carries rxs (out @ rest)" and "NEWLINE \<notin> set line"
  shows "recv_line 256 rxs = Some line"
proof -
  have "carries rxs out" using assms(2) by (auto simp: carries_def)
  with send_line_sends [OF assms(1)] show ?thesis
    using recv_carried [OF _ assms(3), of rxs 255 "[]"] by (simp add: recv_line_def)
qed

section \<open>Two nodes\<close>

text \<open>A log in which the kernel lets the node listen, fork, accept and connect.\<close>

definition con_up :: "tcp_os \<Rightarrow> role_msgs \<Rightarrow> string \<Rightarrow> string \<Rightarrow> tcp_log \<Rightarrow> net_ks \<Rightarrow> bool" where
  "con_up os ms local_ip peer_ip log ks \<longleftrightarrow>
     0 \<le> fst (create_listener os local_ip ks) \<and> tl_fork log \<and>
     0 \<le> fst (wait_for_accept os (tl_accept log) (snd (create_listener os local_ip ks))) \<and>
     0 \<le> fst (connect_to_peer_retry os peer_ip (tl_connect log)
               (nk_close (fst (create_listener os local_ip ks)) (snd (create_listener os local_ip ks))))"

lemma same_refl [simp]: "CHR 0x00 \<notin> set s \<Longrightarrow> same_text s s"
  by (auto simp: same_text_def takeWhile_eq_all_conv)

lemma msgs_plain:
  "role_messages role = Some ms \<Longrightarrow>
     \<forall>s \<in> {rm_client_msg ms, rm_expected_server_msg ms, rm_server_ack ms, rm_expected_client_ack ms}.
       NEWLINE \<notin> set s \<and> CHR 0x00 \<notin> set s \<and> length s \<le> 254"
  by (auto simp: role_messages_def NEWLINE_def split: if_splits)

lemma server_answers:
  assumes "0 \<le> fst (wait_for_accept os (tl_accept log) ks)" and "carries (tl_server_rx log) (hello @ [NEWLINE])"
    and "NEWLINE \<notin> set hello \<and> CHR 0x00 \<notin> set hello \<and> length hello \<le> 254" and "fst (send_line ack (tl_server_tx log))"
  shows "fst (run_server_child os hello ack log ks) = 0 \<and> fst (snd (run_server_child os hello ack log ks)) = ack @ [NEWLINE]"
proof -
  have r: "recv_line 256 (tl_server_rx log) = Some hello"
    using recv_carried [OF assms(2), of 255 "[]"] assms(3) by (simp add: recv_line_def)
  obtain out where o: "send_line ack (tl_server_tx log) = (True, out)" using assms(4) by (cases "send_line ack (tl_server_tx log)") simp
  then have "out = ack @ [NEWLINE]" using send_line_sends by blast
  with r o assms(1,3) show ?thesis by (simp add: run_server_child_def case_prod_beta)
qed

text \<open>A node that is up, whose message has gone out.\<close>

lemma run_when_up:
  assumes "con_up os ms local_ip peer_ip log ks" and "fst (send_line (rm_client_msg ms) (tl_client_tx log))"
  defines "server \<equiv> run_server_child os (rm_expected_server_msg ms) (rm_server_ack ms) log (snd (create_listener os local_ip ks))"
  shows "te_client_out (tcp_run os ms local_ip peer_ip log ks) = rm_client_msg ms @ [NEWLINE]"
    "te_server_out (tcp_run os ms local_ip peer_ip log ks) = fst (snd server)"
    "recv_line 256 (tl_client_rx log) = Some (rm_expected_client_ack ms) \<Longrightarrow> same_text (rm_expected_client_ack ms) (rm_expected_client_ack ms) \<Longrightarrow>
      tl_wait log = Wait_exited \<Longrightarrow> fst server = 0 \<Longrightarrow> te_rc (tcp_run os ms local_ip peer_ip log ks) = 0"
proof -
  obtain listener_fd ks1 where l: "create_listener os local_ip ks = (listener_fd, ks1)" by (rule prod.exhaust)
  obtain client_fd ks2 where c: "connect_to_peer_retry os peer_ip (tl_connect log) (nk_close listener_fd ks1) = (client_fd, ks2)"
    by (rule prod.exhaust)
  have up: "\<not> listener_fd < 0" "tl_fork log" "\<not> client_fd < 0" using assms(1) by (auto simp: con_up_def l c)
  obtain out where o: "send_line (rm_client_msg ms) (tl_client_tx log) = (True, out)"
    using assms(2) by (cases "send_line (rm_client_msg ms) (tl_client_tx log)") simp
  obtain child server_out cks where s: "server = (child, server_out, cks)" by (rule prod_cases3)
  note run = tcp_run_def l c s [unfolded server_def l snd_conv] up o cleanup_child_def Let_def
  show "te_client_out (tcp_run os ms local_ip peer_ip log ks) = rm_client_msg ms @ [NEWLINE]"
    using send_line_sends [OF o] by (simp add: run split: option.split)
  show "te_server_out (tcp_run os ms local_ip peer_ip log ks) = fst (snd server)"
    by (simp add: run s split: option.split)
  show "te_rc (tcp_run os ms local_ip peer_ip log ks) = 0"
    if "recv_line 256 (tl_client_rx log) = Some (rm_expected_client_ack ms)" "same_text (rm_expected_client_ack ms) (rm_expected_client_ack ms)"
      "tl_wait log = Wait_exited" "fst server = 0"
    using that by (simp add: run s)
qed

lemma peers_agree:
  assumes "role_messages ''nodeA'' = Some ma" and "role_messages ''nodeB'' = Some mb"
  shows "rm_client_msg ma = rm_expected_server_msg mb" "rm_server_ack ma = rm_expected_client_ack mb"
    "rm_client_msg mb = rm_expected_server_msg ma" "rm_server_ack mb = rm_expected_client_ack ma"
  using assms by (auto simp: role_messages_def)

text \<open>One of the two nodes, when the other one has sent its message and its answer.\<close>

lemma node_meets:
  assumes "role_messages role = Some ms" and "con_up os ms local_ip peer_ip log ks"
    and "fst (send_line (rm_client_msg ms) (tl_client_tx log))" and "fst (send_line (rm_server_ack ms) (tl_server_tx log))"
    and "carries (tl_server_rx log) (rm_expected_server_msg ms @ [NEWLINE])"
  shows "te_server_out (tcp_run os ms local_ip peer_ip log ks) = rm_server_ack ms @ [NEWLINE]"
    "carries (tl_client_rx log) (rm_expected_client_ack ms @ [NEWLINE]) \<Longrightarrow> tl_wait log = Wait_exited \<Longrightarrow>
      te_rc (tcp_run os ms local_ip peer_ip log ks) = 0"
proof -
  note plain = msgs_plain [OF assms(1), simplified]
  have a: "0 \<le> fst (wait_for_accept os (tl_accept log) (snd (create_listener os local_ip ks)))"
    using assms(2) by (simp add: con_up_def)
  have s: "fst (run_server_child os (rm_expected_server_msg ms) (rm_server_ack ms) log (snd (create_listener os local_ip ks))) = 0"
    "fst (snd (run_server_child os (rm_expected_server_msg ms) (rm_server_ack ms) log (snd (create_listener os local_ip ks)))) =
      rm_server_ack ms @ [NEWLINE]"
    using server_answers [OF a assms(5) _ assms(4)] plain by simp_all
  show "te_server_out (tcp_run os ms local_ip peer_ip log ks) = rm_server_ack ms @ [NEWLINE]"
    using run_when_up(2) [OF assms(2,3)] s by simp
  show "te_rc (tcp_run os ms local_ip peer_ip log ks) = 0"
    if "carries (tl_client_rx log) (rm_expected_client_ack ms @ [NEWLINE])" "tl_wait log = Wait_exited"
  proof -
    have "recv_line 256 (tl_client_rx log) = Some (rm_expected_client_ack ms)"
      using recv_carried [OF that(1), of 255 "[]"] plain by (simp add: recv_line_def)
    then show ?thesis using run_when_up(3) [OF assms(2,3)] that(2) s(1) plain by simp
  qed
qed

text \<open>
  C20: two nodes that come up and reach each other both succeed, whatever pieces their messages travel in, when each
  server reads what the other node's client has sent and each client what the other node's server has answered.
\<close>

theorem tcp_each_meets:
  assumes "role_messages ''nodeA'' = Some ma" and "role_messages ''nodeB'' = Some mb"
    and "con_up os ma ip_a ip_b la ks" and "con_up os' mb ip_b ip_a lb ks'"
    and "fst (send_line (rm_client_msg ma) (tl_client_tx la))" and "fst (send_line (rm_client_msg mb) (tl_client_tx lb))"
    and "fst (send_line (rm_server_ack ma) (tl_server_tx la))" and "fst (send_line (rm_server_ack mb) (tl_server_tx lb))"
    and "carries (tl_server_rx lb) (te_client_out (tcp_run os ma ip_a ip_b la ks))"
    and "carries (tl_client_rx lb) (te_server_out (tcp_run os ma ip_a ip_b la ks))"
    and "carries (tl_server_rx la) (te_client_out (tcp_run os' mb ip_b ip_a lb ks'))"
    and "carries (tl_client_rx la) (te_server_out (tcp_run os' mb ip_b ip_a lb ks'))"
    and "tl_wait la = Wait_exited" and "tl_wait lb = Wait_exited"
  shows "te_rc (tcp_run os ma ip_a ip_b la ks) = 0 \<and> te_rc (tcp_run os' mb ip_b ip_a lb ks') = 0"
proof -
  note eq = peers_agree [OF assms(1,2)]
  have "carries (tl_server_rx lb) (rm_expected_server_msg mb @ [NEWLINE])"
    using assms(9) run_when_up(1) [OF assms(3,5)] eq by simp
  note b = node_meets [OF assms(2,4,6,8) this]
  have "carries (tl_server_rx la) (rm_expected_server_msg ma @ [NEWLINE])"
    using assms(11) run_when_up(1) [OF assms(4,6)] eq by simp
  note a = node_meets [OF assms(1,3,5,7) this]
  show ?thesis using a b assms(10,12-14) eq by simp
qed

lemma tcp_run_sound:
  assumes "te_rc (tcp_run os ms local_ip peer_ip log ks) = 0"
  shows "te_client_out (tcp_run os ms local_ip peer_ip log ks) = rm_client_msg ms @ [NEWLINE] \<and>
    te_server_out (tcp_run os ms local_ip peer_ip log ks) = rm_server_ack ms @ [NEWLINE] \<and>
    (\<exists>b. recv_line 256 (tl_server_rx log) = Some b \<and> same_text b (rm_expected_server_msg ms)) \<and>
    (\<exists>b. recv_line 256 (tl_client_rx log) = Some b \<and> same_text b (rm_expected_client_ack ms)) \<and>
    te_children (tcp_run os ms local_ip peer_ip log ks) = 0"
proof -
  obtain lfd ks1 where l: "create_listener os local_ip ks = (lfd, ks1)" by (rule prod.exhaust)
  obtain child sout cks where s: "run_server_child os (rm_expected_server_msg ms) (rm_server_ack ms) log ks1 = (child, sout, cks)"
    by (rule prod_cases3)
  obtain cfd ks2 where n: "connect_to_peer_retry os peer_ip (tl_connect log) (nk_close lfd ks1) = (cfd, ks2)" by (rule prod.exhaust)
  obtain ok out where o: "send_line (rm_client_msg ms) (tl_client_tx log) = (ok, out)" by (rule prod.exhaust)
  have c: "child = 0 \<and> ok \<and> (\<exists>b. recv_line 256 (tl_client_rx log) = Some b \<and> same_text b (rm_expected_client_ack ms))"
    and e: "te_client_out (tcp_run os ms local_ip peer_ip log ks) = out" "te_server_out (tcp_run os ms local_ip peer_ip log ks) = sout"
      "te_children (tcp_run os ms local_ip peer_ip log ks) = 0"
    using assms by (auto simp: tcp_run_def l s n o Let_def tcp_stop_def cleanup_child_def split: if_splits option.splits)
  from c s have "(\<exists>b. recv_line 256 (tl_server_rx log) = Some b \<and> same_text b (rm_expected_server_msg ms)) \<and>
      send_line (rm_server_ack ms) (tl_server_tx log) = (True, sout)"
    by (auto simp: run_server_child_def split: if_splits option.splits prod.splits)
  with c o e show ?thesis using send_line_sends [of "rm_client_msg ms" "tl_client_tx log" out] send_line_sends [of "rm_server_ack ms" "tl_server_tx log" sout] by simp
qed

text \<open>
  C22: a node that reports success has sent its own message and its own answer in full, and has received the other
  node's message and the other node's answer; its child is waited for.
\<close>

theorem tcp_pass_sound:
  assumes "te_rc (tcp_main os env log ks) = 0"
  shows "\<exists>role ms. cmdline_get_value env ''linqu_urma_dp_role'' 32 = Some role \<and> role_messages role = Some ms \<and>
    te_client_out (tcp_main os env log ks) = rm_client_msg ms @ [NEWLINE] \<and>
    te_server_out (tcp_main os env log ks) = rm_server_ack ms @ [NEWLINE] \<and>
    (\<exists>b. recv_line 256 (tl_server_rx log) = Some b \<and> same_text b (rm_expected_server_msg ms)) \<and>
    (\<exists>b. recv_line 256 (tl_client_rx log) = Some b \<and> same_text b (rm_expected_client_ack ms)) \<and>
    te_children (tcp_main os env log ks) = 0"
proof -
  have stop: "te_rc (tcp_stop k) \<noteq> 0" for k by (simp add: tcp_stop_def)
  from assms stop obtain role ms local_ip peer_ip ks3 where
    r: "cmdline_get_value env ''linqu_urma_dp_role'' 32 = Some role" "role_messages role = Some ms"
    and m: "tcp_main os env log ks = tcp_run os ms local_ip peer_ip log ks3"
    unfolding tcp_main_def by (auto split: option.splits prod.splits if_splits)
  show ?thesis
    using r tcp_run_sound [of os ms local_ip peer_ip log ks3] assms unfolding m by blast
qed

section \<open>Descriptors and children\<close>

lemma listener_holding:
  assumes "tcp_os_ok os" and "holding E ks" and "create_listener os local_ip ks = (fd, ks')"
  shows "if fd < 0 then holding E ks' else holding (insert fd E) ks' \<and> fd \<notin> E"
proof -
  have n: "net_os_ok (tp_net os)" using assms(1) by (simp add: tcp_os_ok_def)
  show ?thesis
  proof (cases "nt_socket (tp_net os) ks ''SOCK_STREAM'' < 0")
    case False
    with assms(3) fresh_socket [OF n assms(2), of "''SOCK_STREAM''"] show ?thesis
      by (auto simp: create_listener_def Let_def bind_socket_to_iface_def set_socket_timeouts_def holding_close split: if_splits)
  qed (use assms(2,3) in \<open>auto simp: create_listener_def Let_def\<close>)
qed

lemma accept_holding:
  assumes "tcp_os_ok os"
  shows "wait_for_accept os es ks = (fd, ks') \<Longrightarrow> holding E ks \<Longrightarrow>
    if fd < 0 then holding E ks' else holding (insert fd E) ks' \<and> fd \<notin> E"
proof (induction es arbitrary: ks)
  case (Cons e es)
  show ?case
  proof (cases e)
    case (Acc_ready passes)
    have h: "holding E (nk_tick ks)" using Cons.prems by simp
    show ?thesis
    proof (cases "0 \<le> tp_accept os (nk_tick ks)")
      case True
      moreover from this have "tp_accept os (nk_tick ks) \<notin> E" using assms h by (auto simp: tcp_os_ok_def holding_def)
      ultimately show ?thesis using Cons.prems Acc_ready holding_open [OF h] by (auto simp: set_socket_timeouts_def Let_def)
    next
      case False
      then have "holding E (nk_open (tp_accept os (nk_tick ks)) (nk_tick ks))" using h by simp
      with Cons Acc_ready False show ?thesis by (auto simp: Let_def split: if_splits)
    qed
  qed (use Cons in auto)
qed simp

lemma connect_holding:
  assumes "tcp_os_ok os"
  shows "connect_to_peer_retry os peer_ip es ks = (fd, ks') \<Longrightarrow> holding E ks \<Longrightarrow>
    if fd < 0 then holding E ks' else holding (insert fd E) ks' \<and> fd \<notin> E"
proof (induction es arbitrary: ks)
  case (Cons e es)
  have n: "net_os_ok (tp_net os)" using assms by (simp add: tcp_os_ok_def)
  define s where "s = nt_socket (tp_net os) ks ''SOCK_STREAM''"
  show ?case
  proof (cases "s < 0")
    case True
    then show ?thesis using Cons.prems by (auto simp: Let_def s_def)
  next
    case False
    have h: "holding (insert s E) (nk_open s ks)" "s \<notin> E"
      using fresh_socket [OF n Cons.prems(2), of "''SOCK_STREAM''"] False by (simp_all add: s_def)
    show ?thesis
      using False h Cons.prems Cons.IH
      by (auto simp: Let_def s_def [symmetric] bind_socket_to_iface_def set_socket_timeouts_def restore_blocking_def holding_close split: if_splits)
  qed
qed simp

lemma child_holding:
  assumes "tcp_os_ok os" and "holding E ks" and "run_server_child os hello ack log ks = (status, out, ks')"
  shows "holding E ks'"
proof -
  obtain fd ks1 where a: "wait_for_accept os (tl_accept log) ks = (fd, ks1)" by (rule prod.exhaust)
  note h = accept_holding [OF assms(1) a assms(2)]
  have "\<not> fd < 0 \<Longrightarrow> holding E (nk_close fd ks1)" using h by (auto intro: holding_close)
  with h assms(3) show ?thesis by (auto simp: run_server_child_def a split: if_splits option.splits prod.splits)
qed

definition tcp_clean :: "int set \<Rightarrow> tcp_log \<Rightarrow> tcp_end \<Rightarrow> bool" where
  "tcp_clean E log e \<longleftrightarrow> holding E (te_ks e) \<and> (\<forall>cks. te_child_ks e = Some cks \<longrightarrow> holding E cks) \<and>
     (te_children e = 0 \<or> te_children e = 1 \<and> te_rc e = 1 \<and> tl_wait log = Wait_fails)"

lemma tcp_stop_clean: "holding E ks \<Longrightarrow> tcp_clean E log (tcp_stop ks)"
  by (simp add: tcp_clean_def tcp_stop_def)

lemma tcp_run_clean:
  assumes "tcp_os_ok os" and "holding E ks"
  shows "tcp_clean E log (tcp_run os ms local_ip peer_ip log ks)"
proof -
  obtain lfd ks1 where l: "create_listener os local_ip ks = (lfd, ks1)" by (rule prod.exhaust)
  note hl = listener_holding [OF assms l]
  show ?thesis
  proof (cases "lfd < 0")
    case True
    then show ?thesis using hl by (simp add: tcp_run_def l tcp_stop_clean)
  next
    case False
    then have e: "holding (insert lfd E) ks1" "lfd \<notin> E" using hl by simp_all
    have k: "holding E (nk_close lfd ks1)" using e by (rule holding_close)
    obtain child out cks where s: "run_server_child os (rm_expected_server_msg ms) (rm_server_ack ms) log ks1 = (child, out, cks)"
      by (rule prod_cases3)
    have c: "holding E (nk_close lfd cks)" using child_holding [OF assms(1) e(1) s] e(2) by (rule holding_close)
    obtain cfd ks2 where n: "connect_to_peer_retry os peer_ip (tl_connect log) (nk_close lfd ks1) = (cfd, ks2)" by (rule prod.exhaust)
    note hc = connect_holding [OF assms(1) n k]
    have d: "\<not> cfd < 0 \<Longrightarrow> holding E (nk_close cfd ks2)" using hc by (auto intro: holding_close)
    show ?thesis
      using False k c hc d
      by (auto simp: tcp_run_def l s n Let_def tcp_stop_def cleanup_child_def tcp_clean_def split: option.split prod.split)
  qed
qed

text \<open>
  C21: however the demo ends, the parent leaves the descriptors open that were open before, and so does the child when
  it was not killed; the child is killed or waited for on every path, unless waiting for it fails itself.
\<close>

theorem tcp_main_releases:
  assumes "tcp_os_ok os" and "holding E ks"
  shows "holding E (te_ks (tcp_main os env log ks)) \<and>
    (\<forall>cks. te_child_ks (tcp_main os env log ks) = Some cks \<longrightarrow> holding E cks) \<and>
    (te_children (tcp_main os env log ks) = 0 \<or> te_rc (tcp_main os env log ks) = 1 \<and> tl_wait log = Wait_fails)"
proof -
  have n: "net_os_ok (tp_net os)" using assms(1) by (simp add: tcp_os_ok_def)
  note iface = iface_holding [OF n]
  have w: "holding E ks1" if "wait_iface_ready (tp_net os) looks ks = (r, ks1)" for looks r ks1
    using wait_iface_holding [OF n assms(2), of looks] that by simp
  have g: "holding E ks2" if "get_local_ipv4 (tp_net os) ifname k = (cur, ks2)" "holding E k" for ifname k cur ks2
    using iface(3) [OF that(2), of ifname] that(1) by simp
  have t: "holding E ks3" if "set_ipv4_addr (tp_net os) ifname a k = (ok, ks3)" "holding E k" for ifname a k ok ks3
    using iface(2) [OF that(2), of ifname a] that(1) by simp
  have "tcp_clean E log (tcp_main os env log ks)"
    unfolding tcp_main_def using assms(2)
    by (auto split: option.split prod.split if_split intro!: tcp_stop_clean tcp_run_clean [OF assms(1)] iface(4) dest: w g t)
  then show ?thesis by (auto simp: tcp_clean_def)
qed

end
