(* ===== verification/Obmm_Demo.thy ===== *)
theory Obmm_Demo
  imports Obmm_Os Net_If
begin

text \<open>
  The memory sharing demo of two nodes (\<^verbatim>\<open>ub_obmm_demo.c\<close>): the exporter exports and maps a region
  and sends its metadata until the importer has imported and mapped it; each then writes a text and the other one
  waits until it sees it; in the end the importer gives the import back and then the exporter the export. The
  operating system is that of \<open>Obmm_Os\<close>, the interface that of \<open>Net_If\<close>; what the socket and the region
  show is an input, and so is whether a deadline has passed. Printing is left out.
\<close>

section \<open>Roles and messages\<close>

definition OBMM_PORT :: u16 where "OBMM_PORT = 18560"
definition DEMO_SIZE :: nat where "DEMO_SIZE = 256 * 1024"
definition DEMO_IMPORT_ALIGN :: u64 where "DEMO_IMPORT_ALIGN = 0x1000"
definition DEMO_PAYLOAD_A :: string where "DEMO_PAYLOAD_A = ''obmm-export-payload-from-exporter''"
definition DEMO_PAYLOAD_B :: string where "DEMO_PAYLOAD_B = ''obmm-import-payload-from-importer''"

datatype obmm_role = OBMM_ROLE_UNKNOWN | OBMM_ROLE_EXPORTER | OBMM_ROLE_IMPORTER

definition parse_obmm_role :: "string \<Rightarrow> obmm_role" where
  "parse_obmm_role role =
     (if role = ''exporter'' \<or> role = ''nodeA'' then OBMM_ROLE_EXPORTER
      else if role = ''importer'' \<or> role = ''nodeB'' then OBMM_ROLE_IMPORTER
      else OBMM_ROLE_UNKNOWN)"

definition obmm_role_name :: "obmm_role \<Rightarrow> string" where
  "obmm_role_name role =
     (case role of OBMM_ROLE_EXPORTER \<Rightarrow> ''exporter'' | OBMM_ROLE_IMPORTER \<Rightarrow> ''importer'' | OBMM_ROLE_UNKNOWN \<Rightarrow> ''unknown'')"

text \<open>The addresses of a role, unless the command line has them.\<close>

definition obmm_default_ipv4_pair :: "string \<Rightarrow> nat \<Rightarrow> nat \<Rightarrow> (string \<times> string) option" where
  "obmm_default_ipv4_pair role local_len peer_len =
     (if role = ''exporter'' \<or> role = ''nodeA'' then Some (snprintf_s local_len ''10.0.0.1'', snprintf_s peer_len ''10.0.0.2'')
      else if role = ''importer'' \<or> role = ''nodeB'' then Some (snprintf_s local_len ''10.0.0.2'', snprintf_s peer_len ''10.0.0.1'')
      else None)"

definition obmm_ipv4_pair :: "host_env \<Rightarrow> string \<Rightarrow> nat \<Rightarrow> nat \<Rightarrow> (string \<times> string) option" where
  "obmm_ipv4_pair env role local_len peer_len =
     ipv4_pair (obmm_default_ipv4_pair role INET_ADDRSTRLEN INET_ADDRSTRLEN) env
       (cmdline_get_value env ''linqu_ipourma_ipv4'' local_len) (cmdline_get_value env ''linqu_ipourma_peer_ipv4'' peer_len)
       local_len peer_len"

text \<open>\<^verbatim>\<open>struct obmm_demo_meta\<close> has 32 bytes.\<close>

definition meta_bytes :: "obmm_demo_meta \<Rightarrow> bytes" where
  "meta_bytes m =
     le64 (om_export_mem_id m) @ le64 (om_remote_uba m) @ le64 (om_size m) @ le32 (om_token_id m) @ le32 (om_export_cna m)"

definition meta_of_bytes :: "bytes \<Rightarrow> obmm_demo_meta" where
  "meta_of_bytes d =
     \<lparr>om_export_mem_id = of_le (bytes_at 0 8 d), om_remote_uba = of_le (bytes_at 8 8 d), om_size = of_le (bytes_at 16 8 d),
      om_token_id = of_le (bytes_at 24 4 d), om_export_cna = of_le (bytes_at 28 4 d)\<rparr>"

text \<open>What a look at the socket gives: a datagram, or \<open>None\<close>. A list of looks ends when the alarm fires or the
  deadline passes.\<close>

type_synonym look = "bytes option"

text \<open>\<^verbatim>\<open>strcmp\<close> with what was received into a buffer of 64 bytes.\<close>

definition ack_is :: "string \<Rightarrow> bytes \<Rightarrow> bool" where
  "ack_is txt d \<longleftrightarrow> takeWhile (\<lambda>b. b \<noteq> 0) (take 63 d) = str_bytes txt"

fun await_ack :: "string \<Rightarrow> look list \<Rightarrow> bool" where
  "await_ack txt [] = False"
| "await_ack txt (l # ls) = (case l of Some d \<Rightarrow> if ack_is txt d then True else await_ack txt ls | None \<Rightarrow> await_ack txt ls)"

text \<open>The exporter sends its metadata and looks for an answer when that was sent; the result is whether the importer
  is ready, and how often the metadata was sent.\<close>

fun announce :: "(bool \<times> look) list \<Rightarrow> bool \<times> nat" where
  "announce [] = (False, 0)"
| "announce ((sent, l) # ls) =
     (if \<not> sent then announce ls
      else case l of
             None \<Rightarrow> (case announce ls of (r, k) \<Rightarrow> (r, Suc k))
           | Some d \<Rightarrow> if ack_is ''IMPORT_READY'' d then (True, 1) else (case announce ls of (r, k) \<Rightarrow> (r, Suc k)))"

text \<open>The importer takes the first datagram that fills the structure.\<close>

fun await_meta :: "look list \<Rightarrow> obmm_demo_meta option" where
  "await_meta [] = None"
| "await_meta (l # ls) =
     (case l of
        Some d \<Rightarrow> if length (take 32 d) = 32 then Some (meta_of_bytes (take 32 d)) else await_meta ls
      | None \<Rightarrow> await_meta ls)"

section \<open>Where to import\<close>

text \<open>The first cacheable window that is large enough and aligned.\<close>

fun first_window :: "u64 \<Rightarrow> string list \<Rightarrow> (u64 \<times> u64) option" where
  "first_window needed_size [] = None"
| "first_window needed_size (l # ls) =
     (case sscanf window_format l of
        [mar, decode, cc_base_mb, cc_size_mb, nc_base_mb, nc_size_mb] \<Rightarrow>
          (let base_pa = push_bit 20 cc_base_mb; size_bytes = push_bit 20 cc_size_mb
           in if size_bytes < needed_size then first_window needed_size ls
              else if base_pa AND (2 * 1024 * 1024 - 1) \<noteq> 0 then first_window needed_size ls
              else Some (base_pa, size_bytes))
      | _ \<Rightarrow> first_window needed_size ls)"

definition find_import_window :: "u64 \<Rightarrow> string option \<Rightarrow> (u64 \<times> u64) option" where
  "find_import_window needed_size contents =
     (case contents of None \<Rightarrow> None | Some s \<Rightarrow> first_window needed_size (lines_of 256 s))"

section \<open>Writing and looking\<close>

datatype msync_ev = Msync_ok | Msync_unsupported | Msync_fails

definition stamp_payload :: "string \<Rightarrow> msync_ev \<Rightarrow> mapped_region \<Rightarrow> bytes \<Rightarrow> int \<times> bytes" where
  "stamp_payload payload ms region mem =
     (let payload_len = length payload + 1
      in if mr_len region < payload_len then (- 1, mem)
         else (if ms = Msync_fails then - 1 else 0, put_at 0 (str_bytes payload @ [0]) (put_at 0 (replicate payload_len 0) mem)))"

definition region_matches_payload :: "bytes \<Rightarrow> string \<Rightarrow> bool" where
  "region_matches_payload mem payload \<longleftrightarrow> take (length payload + 1) mem = str_bytes payload @ [0]"

text \<open>The list holds what the region shows at each look.\<close>

fun wait_for_payload :: "string \<Rightarrow> bytes list \<Rightarrow> int" where
  "wait_for_payload payload [] = - 1"
| "wait_for_payload payload (mem # mems) =
     (if region_matches_payload mem payload then 0 else wait_for_payload payload mems)"

section \<open>The two nodes\<close>

text \<open>\<open>late\<close> says whether the deadline of a wait has passed, or the alarm has fired, when the wait is over.\<close>

record exporter_log =
  xl_announce :: "(bool \<times> look) list"
  xl_late_ready :: bool
  xl_mem :: bytes
  xl_msync :: msync_ev
  xl_send_a :: bool
  xl_ok_looks :: "look list"
  xl_late_ok :: bool
  xl_region_looks :: "bytes list"
  xl_send_wb :: bool
  xl_end_looks :: "look list"
  xl_late_end :: bool

record importer_log =
  il_meta_looks :: "look list"
  il_late_meta :: bool
  il_windows :: "string option"
  il_send_ready :: bool
  il_a_looks :: "look list"
  il_late_a :: bool
  il_region_looks :: "bytes list"
  il_mem :: bytes
  il_msync :: msync_ev
  il_send_ok :: bool
  il_wb_looks :: "look list"
  il_late_wb :: bool
  il_send_end :: bool

text \<open>How a node ends: the exit status, the datagrams it has sent, what it has left in the region, where it has
  written, and the state of the operating system.\<close>

record demo_end =
  de_rc :: int
  de_sent :: "bytes list"
  de_wrote :: "bytes option"
  de_os :: os_state

definition give_back_export :: "obmm_os \<Rightarrow> mapped_region \<Rightarrow> u64 \<Rightarrow> os_state \<Rightarrow> int \<times> os_state" where
  "give_back_export os region mem_id s = do_unexport_region os mem_id (snd (unmap_region_device region s))"

definition run_exporter :: "obmm_os \<Rightarrow> u32 \<Rightarrow> exporter_log \<Rightarrow> os_state \<Rightarrow> demo_end" where
  "run_exporter os local_cna log s =
     (let (rc, meta, s1) = do_export_region os (meta_zero\<lparr>om_export_cna := local_cna\<rparr>) s
      in if rc \<noteq> 0 then \<lparr>de_rc = 1, de_sent = [], de_wrote = None, de_os = s1\<rparr>
         else let (rc, region, s2) = map_region_device os (om_export_mem_id meta) DEMO_SIZE False s1
              in if rc \<noteq> 0 then \<lparr>de_rc = 1, de_sent = [], de_wrote = None, de_os = snd (do_unexport_region os (om_export_mem_id meta) s2)\<rparr>
                 else let (back, s3) = give_back_export os region (om_export_mem_id meta) s2;
                          (ready, sends) = announce (xl_announce log);
                          metas = replicate sends (meta_bytes meta);
                          (stamped, mem1) = stamp_payload DEMO_PAYLOAD_A (xl_msync log) region (xl_mem log);
                          sent_a = metas @ [str_bytes ''WRITE_A_DONE''];
                          sent_wb = sent_a @ [str_bytes ''WRITEBACK_OK'']
                      in if \<not> ready \<or> xl_late_ready log then \<lparr>de_rc = 1, de_sent = metas, de_wrote = None, de_os = s3\<rparr>
                         else if stamped \<noteq> 0 then \<lparr>de_rc = 1, de_sent = metas, de_wrote = Some mem1, de_os = s3\<rparr>
                         else if \<not> xl_send_a log then \<lparr>de_rc = 1, de_sent = metas, de_wrote = Some mem1, de_os = s3\<rparr>
                         else if \<not> await_ack ''IMPORT_OK'' (xl_ok_looks log) \<or> xl_late_ok log
                              then \<lparr>de_rc = 1, de_sent = sent_a, de_wrote = Some mem1, de_os = s3\<rparr>
                         else if wait_for_payload DEMO_PAYLOAD_B (xl_region_looks log) \<noteq> 0
                              then \<lparr>de_rc = 1, de_sent = sent_a, de_wrote = Some mem1, de_os = s3\<rparr>
                         else if \<not> xl_send_wb log then \<lparr>de_rc = 1, de_sent = sent_a, de_wrote = Some mem1, de_os = s3\<rparr>
                         else if \<not> await_ack ''UNIMPORT_OK'' (xl_end_looks log) \<or> xl_late_end log
                              then \<lparr>de_rc = 1, de_sent = sent_wb, de_wrote = Some mem1, de_os = s3\<rparr>
                         else \<lparr>de_rc = (if back \<noteq> 0 then 1 else 0), de_sent = sent_wb, de_wrote = Some mem1, de_os = s3\<rparr>)"

definition give_back_import :: "obmm_os \<Rightarrow> mapped_region \<Rightarrow> u64 \<Rightarrow> os_state \<Rightarrow> int \<times> os_state" where
  "give_back_import os region mem_id s = do_unimport_region os mem_id (snd (unmap_region_device region s))"

definition run_importer :: "obmm_os \<Rightarrow> u32 \<Rightarrow> importer_log \<Rightarrow> os_state \<Rightarrow> demo_end" where
  "run_importer os local_cna log s =
     (case (await_meta (il_meta_looks log), il_late_meta log) of
        (Some meta, False) \<Rightarrow>
          (case find_import_window (om_size meta) (il_windows log) of
             None \<Rightarrow> \<lparr>de_rc = 1, de_sent = [], de_wrote = None, de_os = s\<rparr>
           | Some (base_pa, window_size) \<Rightarrow>
               (case do_import_region os meta local_cna (align_up_u64 base_pa DEMO_IMPORT_ALIGN) s of
                  (None, s1) \<Rightarrow> \<lparr>de_rc = 1, de_sent = [], de_wrote = None, de_os = s1\<rparr>
                | (Some mem_id, s1) \<Rightarrow>
                    (let (rc, region, s2) = map_region_device os mem_id DEMO_SIZE False s1
                     in if rc \<noteq> 0 then \<lparr>de_rc = 1, de_sent = [], de_wrote = None, de_os = snd (do_unimport_region os mem_id s2)\<rparr>
                        else let (back, s3) = give_back_import os region mem_id s2;
                                 (stamped, mem1) = stamp_payload DEMO_PAYLOAD_B (il_msync log) region (il_mem log);
                                 sent_ready = [str_bytes ''IMPORT_READY''];
                                 sent_ok = sent_ready @ [str_bytes ''IMPORT_OK''];
                                 sent_end = sent_ok @ [str_bytes ''UNIMPORT_OK'']
                             in if \<not> il_send_ready log then \<lparr>de_rc = 1, de_sent = [], de_wrote = None, de_os = s3\<rparr>
                                else if \<not> await_ack ''WRITE_A_DONE'' (il_a_looks log) \<or> il_late_a log
                                     then \<lparr>de_rc = 1, de_sent = sent_ready, de_wrote = None, de_os = s3\<rparr>
                                else if wait_for_payload DEMO_PAYLOAD_A (il_region_looks log) \<noteq> 0
                                     then \<lparr>de_rc = 1, de_sent = sent_ready, de_wrote = None, de_os = s3\<rparr>
                                else if stamped \<noteq> 0 then \<lparr>de_rc = 1, de_sent = sent_ready, de_wrote = Some mem1, de_os = s3\<rparr>
                                else if \<not> il_send_ok log then \<lparr>de_rc = 1, de_sent = sent_ready, de_wrote = Some mem1, de_os = s3\<rparr>
                                else if \<not> await_ack ''WRITEBACK_OK'' (il_wb_looks log) \<or> il_late_wb log
                                     then \<lparr>de_rc = 1, de_sent = sent_ok, de_wrote = Some mem1, de_os = s3\<rparr>
                                else if back \<noteq> 0 then \<lparr>de_rc = 1, de_sent = sent_ok, de_wrote = Some mem1, de_os = s3\<rparr>
                                else if \<not> il_send_end log then \<lparr>de_rc = 1, de_sent = sent_ok, de_wrote = Some mem1, de_os = s3\<rparr>
                                else \<lparr>de_rc = 0, de_sent = sent_end, de_wrote = Some mem1, de_os = s3\<rparr>)))
      | _ \<Rightarrow> \<lparr>de_rc = 1, de_sent = [], de_wrote = None, de_os = s\<rparr>)"

section \<open>The program\<close>

record obmm_log =
  ol_iface_looks :: nat
  ol_cna_file :: "string option"
  ol_bind :: bool
  ol_exporter :: exporter_log
  ol_importer :: importer_log

definition create_udp_socket :: "obmm_os \<Rightarrow> bool \<Rightarrow> os_state \<Rightarrow> int \<times> os_state" where
  "create_udp_socket os bind_ok s =
     (let sockfd = os_socket os s; s1 = got_fd sockfd None s
      in if sockfd < 0 then (- 1, s1) else if \<not> bind_ok then (- 1, os_close sockfd s1) else (sockfd, s1))"

definition demo_parse_hex_file_u64 :: "string option \<Rightarrow> u64 option" where
  "demo_parse_hex_file_u64 contents =
     (case read_file 256 contents of
        None \<Rightarrow> None
      | Some buf \<Rightarrow> (case strtoull buf of (v, erange, digits) \<Rightarrow> if erange \<or> \<not> digits then None else Some v))"

text \<open>From reading the address of the controller to the end.\<close>

definition obmm_session :: "obmm_os \<Rightarrow> obmm_role \<Rightarrow> obmm_log \<Rightarrow> os_state \<Rightarrow> demo_end" where
  "obmm_session os role log s =
     (case demo_parse_hex_file_u64 (ol_cna_file log) of
        None \<Rightarrow> \<lparr>de_rc = 1, de_sent = [], de_wrote = None, de_os = s\<rparr>
      | Some local_cna \<Rightarrow>
          (case create_udp_socket os (ol_bind log) s of
             (sockfd, s1) \<Rightarrow>
               if sockfd < 0 then \<lparr>de_rc = 1, de_sent = [], de_wrote = None, de_os = s1\<rparr>
               else let obmm_fd = os_open os s1 ''/dev/obmm''; s2 = got_fd obmm_fd None s1
                    in if obmm_fd < 0 then \<lparr>de_rc = 1, de_sent = [], de_wrote = None, de_os = os_close sockfd s2\<rparr>
                       else let e = (if role = OBMM_ROLE_EXPORTER then run_exporter os (ucast local_cna) (ol_exporter log) s2
                                     else run_importer os (ucast local_cna) (ol_importer log) s2)
                            in e\<lparr>de_os := os_close sockfd (os_close obmm_fd (de_os e))\<rparr>))"

text \<open>The sockets of the set-up are counted apart: they are closed before the session starts.\<close>

definition obmm_main :: "obmm_os \<Rightarrow> net_os \<Rightarrow> host_env \<Rightarrow> obmm_log \<Rightarrow> os_state \<Rightarrow> net_ks \<Rightarrow> demo_end \<times> net_ks" where
  "obmm_main os nos env log s ks =
     (let stop = \<lparr>de_rc = 1, de_sent = [], de_wrote = None, de_os = s\<rparr>
      in case cmdline_get_value env ''linqu_urma_dp_role'' 32 of
           None \<Rightarrow> (stop, ks)
         | Some role \<Rightarrow>
             if parse_obmm_role role = OBMM_ROLE_UNKNOWN then (stop, ks)
             else case obmm_ipv4_pair env role INET_ADDRSTRLEN INET_ADDRSTRLEN of
                    None \<Rightarrow> (stop, ks)
                  | Some (my_ip, peer_ip) \<Rightarrow>
                      (case wait_iface_ready nos (ol_iface_looks log) ks of
                         (None, ks1) \<Rightarrow> (stop, ks1)
                       | (Some (ifname, ifindex), ks1) \<Rightarrow>
                           (case get_local_ipv4 nos ifname ks1 of
                              (cur, ks2) \<Rightarrow>
                                (case (if cur = Some (case nt_pton nos my_ip of None \<Rightarrow> 0 | Some a \<Rightarrow> a) then (True, ks2)
                                       else set_ipv4_addr nos ifname my_ip ks2) of
                                   (ok, ks3) \<Rightarrow>
                                     if \<not> ok then (stop, ks3)
                                     else case nt_pton nos peer_ip of
                                            None \<Rightarrow> (stop, ks3)
                                          | Some peer_addr \<Rightarrow>
                                              (obmm_session os (parse_obmm_role role) log s,
                                               snd (install_static_arp nos ifname peer_addr ks3))))))"

end
