(* ===== verification/Obmm_Demo_Runs.thy ===== *)
theory Obmm_Demo_Runs
  imports Obmm_Demo
begin

text \<open>
  What holds of the memory sharing demo: the window that is chosen is large enough and aligned; metadata survives the
  wire; two nodes that hear and see each other both succeed; a node that succeeds has seen the text of the other one;
  and nothing stays open or mapped, and exported or imported only what the kernel refuses to take back, however the demo ends.
\<close>

section \<open>Windows and metadata\<close>

lemma first_window_ok:
  "first_window n ls = Some (base, sz) \<Longrightarrow> n \<le> sz \<and> base AND (2 * 1024 * 1024 - 1) = 0"
proof (induction ls)
  case (Cons l ls)
  show ?case
  proof (cases "\<exists>a b c d e f. sscanf window_format l = [a, b, c, d, e, f]")
    case True
    then obtain a b c d e f where s: "sscanf window_format l = [a, b, c, d, e, f]" by blast
    from Cons show ?thesis by (auto simp: s Let_def split: if_splits)
  next
    case False
    then have "first_window n (l # ls) = first_window n ls" by (auto split: list.split)
    with Cons show ?thesis by simp
  qed
qed simp

lemma align_up_aligned:
  assumes "base AND (2 * 1024 * 1024 - 1) = (0 :: u64)"
  shows "align_up_u64 base DEMO_IMPORT_ALIGN = base"
proof -
  have m: "(2 * 1024 * 1024 - 1 :: u64) = mask 21" "(0xfff :: u64) = mask 12" by (simp_all add: mask_eq_exp_minus_1)
  have z: "\<not> bit base k" if "k < 21" for k
    using arg_cong [OF assms [unfolded m(1)], of "\<lambda>w. bit w k"] that by (auto simp: bit_simps)
  have d: "base AND mask 12 = 0" using z by (intro bit_word_eqI) (auto simp: bit_simps)
  have "base + mask 12 = base OR mask 12" using word_plus_and_or [of base "mask 12"] d by simp
  moreover have "(base OR mask 12) AND NOT (mask 12) = base" using z by (intro bit_word_eqI) (auto simp: bit_simps)
  ultimately have "(base + mask 12) AND NOT (mask 12) = base" by simp
  then show ?thesis by (simp add: align_up_u64_def DEMO_IMPORT_ALIGN_def m(2) [symmetric] algebra_simps)
qed

text \<open>
  A window that is chosen holds the region to be imported and starts at a multiple of 2 MiB, so that the address that
  is passed to the kernel is the start of the window, not moved by the alignment.
\<close>

theorem import_window_fits:
  assumes "find_import_window needed contents = Some (base, sz)"
  shows "needed \<le> sz \<and> base AND (2 * 1024 * 1024 - 1) = 0 \<and> align_up_u64 base DEMO_IMPORT_ALIGN = base"
  using assms first_window_ok align_up_aligned by (auto simp: find_import_window_def split: option.splits)

lemma length_meta_bytes [simp]: "length (meta_bytes m) = 32"
  by (simp add: meta_bytes_def)

lemma meta_decoded: "meta_of_bytes (meta_bytes m @ rest) = m"
  by (simp add: meta_of_bytes_def meta_bytes_def bytes_at_def)

text \<open>A look that is not metadata.\<close>

definition short_look :: "look \<Rightarrow> bool" where
  "short_look l \<longleftrightarrow> (case l of None \<Rightarrow> True | Some d \<Rightarrow> length d < 32)"

lemma await_meta_skips: "list_all short_look ls \<Longrightarrow> await_meta (ls @ ls') = await_meta ls'"
  by (induction ls) (auto simp: short_look_def split: option.splits)

lemma await_meta_sent:
  assumes "list_all short_look ls"
  shows "await_meta (ls @ Some (meta_bytes m @ rest) # ls') = Some m"
  using meta_decoded [of m "[]"] by (simp add: await_meta_skips [OF assms] meta_bytes_def)

section \<open>What is held\<close>

definition same_held :: "os_state \<Rightarrow> os_state \<Rightarrow> bool" where
  "same_held s s' \<longleftrightarrow> os_fds s' = os_fds s \<and> os_maps s' = os_maps s \<and> os_exports s' = os_exports s \<and> os_imports s' = os_imports s"

text \<open>No region is open, mapped, exported or imported, and none was refused so far.\<close>

definition no_regions :: "os_state \<Rightarrow> bool" where
  "no_regions s \<longleftrightarrow> os_maps s = Map.empty \<and> (\<forall>fd mem. os_fds s fd \<noteq> Some (Some mem)) \<and> os_exports s = {} \<and> os_imports s = {} \<and>
     os_kept_exports s = {} \<and> os_kept_imports s = {}"

text \<open>Nothing is exported or imported.\<close>

definition none_left :: "os_state \<Rightarrow> bool" where
  "none_left s \<longleftrightarrow> os_exports s = {} \<and> os_imports s = {}"

text \<open>Descriptors and mappings are those of the start, and what is still exported or imported is what the kernel has refused
  to take back although it was neither open nor mapped; nothing, if the kernel refuses no such region.\<close>

definition given_back :: "obmm_os \<Rightarrow> os_state \<Rightarrow> os_state \<Rightarrow> bool" where
  "given_back os s s' \<longleftrightarrow> os_fds s' = os_fds s \<and> os_maps s' = os_maps s \<and> os_exports s' \<subseteq> os_kept_exports s' \<and>
     os_imports s' \<subseteq> os_kept_imports s' \<and> (takes_back os \<longrightarrow> none_left s')"

lemma nothing_taken: "no_regions s \<Longrightarrow> same_held s s' \<Longrightarrow> given_back os s s' \<and> none_left s'"
  by (simp add: no_regions_def same_held_def given_back_def none_left_def)

text \<open>A call that gives back: what it returns, and what is held then.\<close>

definition gives_back :: "obmm_os \<Rightarrow> os_state \<Rightarrow> int \<times> os_state \<Rightarrow> bool" where
  "gives_back os s p \<longleftrightarrow> given_back os s (snd p) \<and> (fst p = 0 \<longrightarrow> none_left (snd p)) \<and> (takes_back os \<longrightarrow> fst p = 0)"

text \<open>Mapping a region and taking the mapping away.\<close>

lemma map_unmap:
  assumes "obmm_os_ok os" and "map_region_device os mem len sync s = (rc, region, s1)"
  shows "rc \<noteq> 0 \<Longrightarrow> same_held s s1" "rc = 0 \<Longrightarrow> same_held s (snd (unmap_region_device region s1))" "mr_len region = len"
proof -
  define fd where "fd = os_open_region os s mem sync"
  define s2 where "s2 = got_fd fd (Some mem) s"
  have fresh: "os_fds s fd = None" if "\<not> fd < 0" using that assms(1) by (simp add: obmm_os_ok_def fd_def)
  have m: "a \<noteq> 0 \<and> os_maps s2 a = None" if "os_mmap os s2 fd len = Some a" for a
    using that assms(1) by (simp add: obmm_os_ok_def)
  note d = assms(2) [unfolded map_region_device_def Let_def fd_def [symmetric] s2_def [symmetric]]
  have c: "os_fds s2 = (if fd < 0 then os_fds s else (os_fds s)(fd \<mapsto> Some mem))" "os_maps s2 = os_maps s"
    "os_exports s2 = os_exports s" "os_imports s2 = os_imports s"
    by (simp_all add: s2_def got_fd_def)
  show "mr_len region = len" using d by (auto split: if_splits option.splits)
  show "same_held s s1" if "rc \<noteq> 0"
    using that d c fresh by (auto simp: same_held_def os_close_def fun_upd_idem split: if_splits option.splits)
  show "same_held s (snd (unmap_region_device region s1))" if rc: "rc = 0"
  proof -
    from rc d obtain a where a: "\<not> fd < 0" "os_mmap os s2 fd len = Some a"
      "region = \<lparr>mr_fd = fd, mr_addr = a, mr_len = len, mr_mem_id = mem\<rparr>" "s1 = tick (s2\<lparr>os_maps := (os_maps s2)(a \<mapsto> mem)\<rparr>)"
      by (auto split: if_splits option.splits)
    with m [OF a(2)] c fresh show ?thesis
      by (simp add: unmap_region_device_def os_munmap_def os_close_def same_held_def fun_upd_idem)
  qed
qed

lemma no_regions_unused: "no_regions s \<Longrightarrow> os_fds s' = os_fds s \<Longrightarrow> os_maps s' = os_maps s \<Longrightarrow> unused s' mem"
  by (simp add: no_regions_def unused_def)

lemma unexport_held:
  assumes "no_regions s" and "os_exports s1 = {mem}" and "os_fds s1 = os_fds s" and "os_maps s1 = os_maps s"
    and "os_imports s1 = os_imports s"
  shows "gives_back os s (do_unexport_region os mem s1)"
  using assms no_regions_unused [OF assms(1,3,4), of mem]
  by (auto simp: gives_back_def given_back_def none_left_def do_unexport_region_def no_regions_def takes_back_def)

lemma unimport_held:
  assumes "no_regions s" and "os_imports s1 = {mem}" and "os_fds s1 = os_fds s" and "os_maps s1 = os_maps s"
    and "os_exports s1 = os_exports s"
  shows "gives_back os s (do_unimport_region os mem s1)"
  using assms no_regions_unused [OF assms(1,3,4), of mem]
  by (auto simp: gives_back_def given_back_def none_left_def do_unimport_region_def no_regions_def takes_back_def)

text \<open>A region that was exported and perhaps mapped is given back.\<close>

lemma export_given_back:
  assumes "obmm_os_ok os" and "no_regions s" and "do_export_region os meta s = (0, meta', s1)"
    and "map_region_device os (om_export_mem_id meta') len sync s1 = (rc, region, s2)"
  shows "rc \<noteq> 0 \<Longrightarrow> gives_back os s (do_unexport_region os (om_export_mem_id meta') s2)"
    "rc = 0 \<Longrightarrow> gives_back os s (give_back_export os region (om_export_mem_id meta') s2)"
proof -
  have e: "os_exports s1 = {om_export_mem_id meta'}" "os_fds s1 = os_fds s" "os_maps s1 = os_maps s" "os_imports s1 = os_imports s"
    using assms(2,3) by (auto simp: do_export_region_def no_regions_def split: option.splits)
  note m = map_unmap [OF assms(1,4)]
  show "rc \<noteq> 0 \<Longrightarrow> gives_back os s (do_unexport_region os (om_export_mem_id meta') s2)"
    using m(1) e unexport_held [OF assms(2), of s2 "om_export_mem_id meta'"] by (simp add: same_held_def)
  show "rc = 0 \<Longrightarrow> gives_back os s (give_back_export os region (om_export_mem_id meta') s2)"
    using m(2) e unexport_held [OF assms(2), of "snd (unmap_region_device region s2)" "om_export_mem_id meta'"]
    by (simp add: same_held_def give_back_export_def)
qed

lemma import_given_back:
  assumes "obmm_os_ok os" and "no_regions s" and "do_import_region os meta cna pa s = (Some mem, s1)"
    and "map_region_device os mem len sync s1 = (rc, region, s2)"
  shows "rc \<noteq> 0 \<Longrightarrow> gives_back os s (do_unimport_region os mem s2)"
    "rc = 0 \<Longrightarrow> gives_back os s (give_back_import os region mem s2)"
proof -
  have e: "os_imports s1 = {mem}" "os_fds s1 = os_fds s" "os_maps s1 = os_maps s" "os_exports s1 = os_exports s"
    using assms(2,3) by (auto simp: do_import_region_def no_regions_def Let_def split: option.splits)
  note m = map_unmap [OF assms(1,4)]
  show "rc \<noteq> 0 \<Longrightarrow> gives_back os s (do_unimport_region os mem s2)"
    using m(1) e unimport_held [OF assms(2), of s2 mem] by (simp add: same_held_def)
  show "rc = 0 \<Longrightarrow> gives_back os s (give_back_import os region mem s2)"
    using m(2) e unimport_held [OF assms(2), of "snd (unmap_region_device region s2)" mem]
    by (simp add: same_held_def give_back_import_def)
qed

lemma export_none: "do_export_region os meta s = (rc, meta', s1) \<Longrightarrow> rc \<noteq> 0 \<Longrightarrow> same_held s s1"
  by (auto simp: do_export_region_def same_held_def split: option.splits)

lemma import_none: "do_import_region os meta cna pa s = (None, s1) \<Longrightarrow> same_held s s1"
  by (auto simp: do_import_region_def same_held_def Let_def split: option.splits)

text \<open>What holds at the end of a run.\<close>

definition ends_clean :: "obmm_os \<Rightarrow> os_state \<Rightarrow> demo_end \<Rightarrow> bool" where
  "ends_clean os s e \<longleftrightarrow> given_back os s (de_os e) \<and> (de_rc e = 0 \<longrightarrow> none_left (de_os e))"

lemma ends_clean_simps [simp]:
  "ends_clean os s \<lparr>de_rc = 1, de_sent = sent, de_wrote = w, de_os = s'\<rparr> \<longleftrightarrow> given_back os s s'"
  "ends_clean os s \<lparr>de_rc = 0, de_sent = sent, de_wrote = w, de_os = s'\<rparr> \<longleftrightarrow> given_back os s s' \<and> none_left s'"
  by (simp_all add: ends_clean_def)

lemma exporter_held:
  assumes "obmm_os_ok os" and "no_regions s"
  shows "ends_clean os s (run_exporter os cna log s)"
proof -
  obtain rc meta s1 where e: "do_export_region os (meta_zero\<lparr>om_export_cna := cna\<rparr>) s = (rc, meta, s1)" by (rule prod_cases3)
  obtain rc' region s2 where m: "map_region_device os (om_export_mem_id meta) DEMO_SIZE False s1 = (rc', region, s2)" by (rule prod_cases3)
  obtain ret s3 where b: "give_back_export os region (om_export_mem_id meta) s2 = (ret, s3)" by (rule prod.exhaust)
  note g = export_given_back [OF assms, of "meta_zero\<lparr>om_export_cna := cna\<rparr>" meta s1, OF _ m]
  show ?thesis
    using nothing_taken [OF assms(2) export_none [OF e], of os] g e b
    by (cases "rc = 0"; cases "rc' = 0")
      (simp_all add: run_exporter_def m Let_def case_prod_beta gives_back_def)
qed

lemma importer_held:
  assumes "obmm_os_ok os" and "no_regions s"
  shows "ends_clean os s (run_importer os cna log s)"
proof -
  have refl: "given_back os s s" using nothing_taken [OF assms(2), of s os] by (simp add: same_held_def)
  show ?thesis
  proof (cases "\<exists>meta base sz. await_meta (il_meta_looks log) = Some meta \<and> \<not> il_late_meta log \<and>
      find_import_window (om_size meta) (il_windows log) = Some (base, sz)")
    case False
    then show ?thesis using refl by (auto simp: run_importer_def split: option.split bool.split)
  next
    case True
    then obtain meta base sz where w: "await_meta (il_meta_looks log) = Some meta" "il_late_meta log = False"
      "find_import_window (om_size meta) (il_windows log) = Some (base, sz)" by blast
    obtain got s1 where i: "do_import_region os meta cna (align_up_u64 base DEMO_IMPORT_ALIGN) s = (got, s1)" by (rule prod.exhaust)
    show ?thesis
    proof (cases got)
      case None
      with i w nothing_taken [OF assms(2) import_none [of os meta cna _ s s1], of _ os] show ?thesis by (simp add: run_importer_def)
    next
      case (Some mem)
      obtain rc' region s2 where m: "map_region_device os mem DEMO_SIZE False s1 = (rc', region, s2)" by (rule prod_cases3)
      obtain ret s3 where b: "give_back_import os region mem s2 = (ret, s3)" by (rule prod.exhaust)
      show ?thesis
        using import_given_back [OF assms i [unfolded Some] m] b
        by (cases "rc' = 0") (simp_all add: run_importer_def w i Some m Let_def case_prod_beta gives_back_def)
    qed
  qed
qed

lemma session_held:
  assumes "obmm_os_ok os" and "no_regions s"
  shows "ends_clean os s (obmm_session os role log s)"
proof -
  define sockfd where "sockfd = os_socket os s"
  define s1 where "s1 = got_fd sockfd None s"
  define obmm_fd where "obmm_fd = os_open os s1 ''/dev/obmm''"
  define s2 where "s2 = got_fd obmm_fd None s1"
  have f: "os_fds s sockfd = None" if "\<not> sockfd < 0" using that assms(1) by (simp add: obmm_os_ok_def sockfd_def)
  have f': "os_fds s1 obmm_fd = None" if "\<not> obmm_fd < 0" using that assms(1) by (simp add: obmm_os_ok_def obmm_fd_def)
  have h1: "os_fds s1 = (if sockfd < 0 then os_fds s else (os_fds s)(sockfd \<mapsto> None))" "os_maps s1 = os_maps s"
    "os_exports s1 = os_exports s" "os_imports s1 = os_imports s"
    by (simp_all add: s1_def got_fd_def)
  have h2: "os_fds s2 = (if obmm_fd < 0 then os_fds s1 else (os_fds s1)(obmm_fd \<mapsto> None))" "os_maps s2 = os_maps s"
    "os_exports s2 = os_exports s" "os_imports s2 = os_imports s"
    using h1 by (simp_all add: s2_def got_fd_def)
  have k: "os_kept_exports s2 = os_kept_exports s" "os_kept_imports s2 = os_kept_imports s"
    using calls_kept(1) [of s sockfd None] calls_kept(1) [of s1 obmm_fd None] by (simp_all add: s2_def s1_def same_kept_def)
  have n: "no_regions s2" using assms(2) h1(1) h2 k by (simp add: no_regions_def)
  have taken: "given_back os s t" if "same_held s t" for t using nothing_taken [OF assms(2) that] by blast
  have refl: "given_back os s s" by (rule taken) (simp add: same_held_def)
  have none: "given_back os s s1" if "sockfd < 0" by (rule taken) (use that h1 in \<open>simp add: same_held_def\<close>)
  have one: "given_back os s (os_close sockfd s1)" if "\<not> sockfd < 0"
    by (rule taken) (use that h1 f in \<open>simp add: same_held_def os_close_def fun_upd_idem\<close>)
  have two: "given_back os s (os_close sockfd s2)" if "\<not> sockfd < 0" "obmm_fd < 0"
    by (rule taken) (use that h1 h2 f in \<open>simp add: same_held_def os_close_def fun_upd_idem\<close>)
  have all: "ends_clean os s (e\<lparr>de_os := os_close sockfd (os_close obmm_fd (de_os e))\<rparr>)"
    if "\<not> sockfd < 0" "\<not> obmm_fd < 0" "ends_clean os s2 e" for e
    using that h1 h2 f f' by (simp add: ends_clean_def given_back_def none_left_def os_close_def fun_upd_idem)
  show ?thesis
    using refl none one two [unfolded s2_def obmm_fd_def] all [unfolded s2_def obmm_fd_def]
      exporter_held [OF assms(1) n, unfolded s2_def obmm_fd_def] importer_held [OF assms(1) n, unfolded s2_def obmm_fd_def]
    unfolding obmm_session_def create_udp_socket_def Let_def sockfd_def [symmetric] s1_def [symmetric]
    by (auto split: option.split)
qed

text \<open>
  C18: whatever the other node does and whichever call fails, those that give back regions included, with a kernel that
  hands out fresh descriptors and addresses: the demo ends with the descriptors open that were open before, and
  with nothing mapped; what is still exported or imported is what the kernel refused to take back although it was neither
  open nor mapped any more, and it is nothing when the demo succeeds, or when the kernel refuses no such region.
\<close>

theorem obmm_main_releases:
  assumes "obmm_os_ok os" and "net_os_ok nos" and "no_regions s" and "holding E ks"
  shows "given_back os s (de_os (fst (obmm_main os nos env log s ks))) \<and>
    (de_rc (fst (obmm_main os nos env log s ks)) = 0 \<longrightarrow> none_left (de_os (fst (obmm_main os nos env log s ks)))) \<and>
    holding E (snd (obmm_main os nos env log s ks))"
proof -
  have refl: "given_back os s s" using nothing_taken [OF assms(3), of s os] by (simp add: same_held_def)
  note iface = iface_holding [OF assms(2)]
  have w: "holding E ks1" if "wait_iface_ready nos looks ks = (r, ks1)" for looks r ks1
    using wait_iface_holding [OF assms(2,4), of looks] that by simp
  have g: "holding E ks2" if "get_local_ipv4 nos ifname k = (cur, ks2)" "holding E k" for ifname k cur ks2
    using iface(3) [OF that(2), of ifname] that(1) by simp
  have t: "holding E ks3" if "set_ipv4_addr nos ifname a k = (ok, ks3)" "holding E k" for ifname a k ok ks3
    using iface(2) [OF that(2), of ifname a] that(1) by simp
  show ?thesis
    unfolding obmm_main_def Let_def using refl assms(4) session_held [OF assms(1,3), unfolded ends_clean_def]
    by (auto split: option.split prod.split if_split intro!: iface(4) dest: w g t)
qed

section \<open>Two nodes\<close>

lemma await_ack_heard: "Some (str_bytes txt) \<in> set ls \<Longrightarrow> length txt \<le> 63 \<Longrightarrow> 0 \<notin> set (str_bytes txt) \<Longrightarrow> await_ack txt ls"
proof (induction ls)
  case (Cons l ls)
  have "ack_is txt (str_bytes txt)"
    using Cons.prems by (auto simp: ack_is_def str_bytes_def takeWhile_eq_all_conv)
  with Cons show ?case by (auto split: option.split)
qed simp

lemma announce_heard: "(True, Some (str_bytes ''IMPORT_READY'')) \<in> set ls \<Longrightarrow> fst (announce ls) \<and> 0 < snd (announce ls)"
proof (induction ls)
  case (Cons l ls)
  have "ack_is ''IMPORT_READY'' (str_bytes ''IMPORT_READY'')" by (simp add: ack_is_def str_bytes_def)
  with Cons show ?case by (cases l) (auto split: option.split prod.split)
qed simp

lemma wait_shown: "m \<in> set ms \<Longrightarrow> region_matches_payload m p \<Longrightarrow> wait_for_payload p ms = 0"
  by (induction ms) auto

lemma stamp_shown:
  assumes "length p + 1 \<le> mr_len region" and "ms \<noteq> Msync_fails"
  shows "fst (stamp_payload p ms region mem) = 0" "region_matches_payload (snd (stamp_payload p ms region mem)) p"
  using assms by (simp_all add: stamp_payload_def region_matches_payload_def put_at_def str_bytes_def)

text \<open>The metadata of a region and the request to import it.\<close>

definition announced :: "u64 \<Rightarrow> u64 \<Rightarrow> u32 \<Rightarrow> u32 \<Rightarrow> obmm_demo_meta" where
  "announced mem uba tok cna =
     \<lparr>om_export_mem_id = mem, om_remote_uba = uba, om_size = EXPORT_REGION_SIZE, om_token_id = tok, om_export_cna = cna\<rparr>"

definition requested :: "obmm_demo_meta \<Rightarrow> u32 \<Rightarrow> u64 \<Rightarrow> obmm_cmd_import" where
  "requested m cna pa =
     \<lparr>ic_addr = pa, ic_length = om_size m, ic_tokenid = om_token_id m, ic_scna = cna, ic_dcna = om_export_cna m,
      ic_remote_uba = om_remote_uba m\<rparr>"

text \<open>The kernel grants the region and its mapping.\<close>

definition export_granted :: "obmm_os \<Rightarrow> os_state \<Rightarrow> u64 \<Rightarrow> u64 \<Rightarrow> u32 \<Rightarrow> bool" where
  "export_granted os s mem uba tok \<longleftrightarrow>
     os_export os s EXPORT_REGION_SIZE = Some (mem, uba, tok) \<and>
     fst (map_region_device os mem DEMO_SIZE False (tick (s\<lparr>os_exports := insert mem (os_exports s)\<rparr>))) = 0"

definition import_granted :: "obmm_os \<Rightarrow> os_state \<Rightarrow> obmm_cmd_import \<Rightarrow> bool" where
  "import_granted os s cmd \<longleftrightarrow>
     (case os_import os s cmd of
        None \<Rightarrow> False
      | Some mem \<Rightarrow> fst (map_region_device os mem DEMO_SIZE False (tick (s\<lparr>os_imports := insert mem (os_imports s)\<rparr>))) = 0)"

text \<open>The network carries the messages, and no deadline passes.\<close>

definition exporter_hears :: "exporter_log \<Rightarrow> bool" where
  "exporter_hears log \<longleftrightarrow>
     (True, Some (str_bytes ''IMPORT_READY'')) \<in> set (xl_announce log) \<and> Some (str_bytes ''IMPORT_OK'') \<in> set (xl_ok_looks log) \<and>
     Some (str_bytes ''UNIMPORT_OK'') \<in> set (xl_end_looks log) \<and> xl_msync log \<noteq> Msync_fails \<and> xl_send_a log \<and> xl_send_wb log \<and>
     \<not> xl_late_ready log \<and> \<not> xl_late_ok log \<and> \<not> xl_late_end log"

definition importer_hears :: "obmm_demo_meta \<Rightarrow> importer_log \<Rightarrow> bool" where
  "importer_hears m log \<longleftrightarrow>
     (case dropWhile short_look (il_meta_looks log) of Some d # ls \<Rightarrow> d = meta_bytes m | _ \<Rightarrow> False) \<and>
     Some (str_bytes ''WRITE_A_DONE'') \<in> set (il_a_looks log) \<and> Some (str_bytes ''WRITEBACK_OK'') \<in> set (il_wb_looks log) \<and>
     il_msync log \<noteq> Msync_fails \<and> il_send_ready log \<and> il_send_ok log \<and> il_send_end log \<and>
     \<not> il_late_meta log \<and> \<not> il_late_a log \<and> \<not> il_late_wb log"

lemma ack_texts:
  "0 \<notin> set (str_bytes ''IMPORT_OK'')" "0 \<notin> set (str_bytes ''UNIMPORT_OK'')" "0 \<notin> set (str_bytes ''WRITE_A_DONE'')"
  "0 \<notin> set (str_bytes ''WRITEBACK_OK'')"
  by (simp_all add: str_bytes_def)

lemma payload_fits: "length DEMO_PAYLOAD_A + 1 \<le> DEMO_SIZE" "length DEMO_PAYLOAD_B + 1 \<le> DEMO_SIZE"
  by (simp_all add: DEMO_PAYLOAD_A_def DEMO_PAYLOAD_B_def DEMO_SIZE_def)

text \<open>What the exporter leaves in its region shows the text to the importer; it succeeds when it sees the other text.\<close>

lemma exporter_runs:
  fixes cna :: u32
  assumes "obmm_os_ok os \<and> takes_back os" and "no_regions s" and "export_granted os s mem uba tok" and "exporter_hears log"
  defines "e \<equiv> run_exporter os cna log s"
  shows "\<exists>w. de_wrote e = Some w \<and> region_matches_payload w DEMO_PAYLOAD_A"
    "wait_for_payload DEMO_PAYLOAD_B (xl_region_looks log) = 0 \<Longrightarrow>
      de_rc e = 0 \<and> (\<exists>k > 0. de_sent e = replicate k (meta_bytes (announced mem uba tok cna)) @ [str_bytes ''WRITE_A_DONE'', str_bytes ''WRITEBACK_OK''])"
proof -
  let ?m = "announced mem uba tok cna" and ?s1 = "tick (s\<lparr>os_exports := insert mem (os_exports s)\<rparr>)"
  have x: "do_export_region os (meta_zero\<lparr>om_export_cna := cna\<rparr>) s = (0, ?m, ?s1)" and mem: "om_export_mem_id ?m = mem"
    using assms(3) by (simp_all add: export_granted_def do_export_region_def announced_def meta_zero_def)
  obtain region s2 where m: "map_region_device os mem DEMO_SIZE False ?s1 = (0, region, s2)"
    using assms(3) by (cases "map_region_device os mem DEMO_SIZE False ?s1") (simp add: export_granted_def)
  obtain ret s3 where b: "give_back_export os region mem s2 = (ret, s3)" by (rule prod.exhaust)
  have ok: "obmm_os_ok os" and tb: "takes_back os" using assms(1) by blast+
  from b have r: "ret = 0" using export_given_back(2) [OF ok assms(2) x, unfolded mem, OF m] tb by (simp add: gives_back_def)
  have len: "mr_len region = DEMO_SIZE" using map_unmap(3) [OF ok m] .
  note h = assms(4) [unfolded exporter_hears_def]
  obtain k where a: "announce (xl_announce log) = (True, k)" "0 < k"
    using announce_heard [of "xl_announce log"] h by (cases "announce (xl_announce log)") auto
  obtain rc w where p: "stamp_payload DEMO_PAYLOAD_A (xl_msync log) region (xl_mem log) = (rc, w)" by (rule prod.exhaust)
  have w: "rc = 0" "region_matches_payload w DEMO_PAYLOAD_A"
    using stamp_shown [of DEMO_PAYLOAD_A region "xl_msync log" "xl_mem log"] h payload_fits len p by simp_all
  have acks: "await_ack ''IMPORT_OK'' (xl_ok_looks log)" "await_ack ''UNIMPORT_OK'' (xl_end_looks log)"
    using h ack_texts by (simp_all add: await_ack_heard)
  note run = e_def run_exporter_def x mem m b r a(1) p w(1) acks Let_def
  show "\<exists>w. de_wrote e = Some w \<and> region_matches_payload w DEMO_PAYLOAD_A"
    using w(2) h by (simp add: run)
  show "de_rc e = 0 \<and> (\<exists>k > 0. de_sent e = replicate k (meta_bytes ?m) @ [str_bytes ''WRITE_A_DONE'', str_bytes ''WRITEBACK_OK''])"
    if "wait_for_payload DEMO_PAYLOAD_B (xl_region_looks log) = 0"
    using that h a(2) by (auto simp: run)
qed

lemma importer_runs:
  assumes "obmm_os_ok os \<and> takes_back os" and "no_regions s" and "import_granted os s (requested m cna base)" and "importer_hears m log"
    and "find_import_window (om_size m) (il_windows log) = Some (base, sz)"
    and "wait_for_payload DEMO_PAYLOAD_A (il_region_looks log) = 0"
  defines "e \<equiv> run_importer os cna log s"
  shows "de_rc e = 0" "de_sent e = [str_bytes ''IMPORT_READY'', str_bytes ''IMPORT_OK'', str_bytes ''UNIMPORT_OK'']"
    "\<exists>w. de_wrote e = Some w \<and> region_matches_payload w DEMO_PAYLOAD_B"
proof -
  obtain ls where "dropWhile short_look (il_meta_looks log) = Some (meta_bytes m) # ls"
    using assms(4) by (auto simp: importer_hears_def split: list.splits option.splits)
  then have "il_meta_looks log = takeWhile short_look (il_meta_looks log) @ Some (meta_bytes m) # ls"
    using takeWhile_dropWhile_id [of short_look "il_meta_looks log"] by simp
  moreover have "list_all short_look (takeWhile short_look (il_meta_looks log))" by (auto simp: list_all_iff dest: set_takeWhileD)
  ultimately have am: "await_meta (il_meta_looks log) = Some m" using await_meta_sent [of _ m "[]" ls] by (metis append_Nil2)
  have al: "align_up_u64 base DEMO_IMPORT_ALIGN = base"
    using assms(5) first_window_ok align_up_aligned by (auto simp: find_import_window_def split: option.splits)
  obtain mem where i: "os_import os s (requested m cna base) = Some mem"
    using assms(3) by (auto simp: import_granted_def split: option.splits)
  let ?s1 = "tick (s\<lparr>os_imports := insert mem (os_imports s)\<rparr>)"
  have di: "do_import_region os m cna base s = (Some mem, ?s1)"
    using i by (simp add: do_import_region_def requested_def)
  obtain region s2 where mp: "map_region_device os mem DEMO_SIZE False ?s1 = (0, region, s2)"
    using assms(3) i by (cases "map_region_device os mem DEMO_SIZE False ?s1") (simp add: import_granted_def)
  obtain ret s3 where b: "give_back_import os region mem s2 = (ret, s3)" by (rule prod.exhaust)
  have ok: "obmm_os_ok os" and tb: "takes_back os" using assms(1) by blast+
  from b have r: "ret = 0" using import_given_back(2) [OF ok assms(2) di mp] tb by (simp add: gives_back_def)
  have len: "mr_len region = DEMO_SIZE" using map_unmap(3) [OF ok mp] .
  note h = assms(4) [unfolded importer_hears_def]
  obtain rc w where p: "stamp_payload DEMO_PAYLOAD_B (il_msync log) region (il_mem log) = (rc, w)" by (rule prod.exhaust)
  have w: "rc = 0" "region_matches_payload w DEMO_PAYLOAD_B"
    using stamp_shown [of DEMO_PAYLOAD_B region "il_msync log" "il_mem log"] h payload_fits len p by simp_all
  have acks: "await_ack ''WRITE_A_DONE'' (il_a_looks log)" "await_ack ''WRITEBACK_OK'' (il_wb_looks log)"
    using h ack_texts by (simp_all add: await_ack_heard)
  have late: "il_late_meta log = False" using h by simp
  note run = e_def run_importer_def am late assms(5,6) al di mp b r p w(1) acks Let_def
  show "de_rc e = 0" using h by (simp add: run)
  show "de_sent e = [str_bytes ''IMPORT_READY'', str_bytes ''IMPORT_OK'', str_bytes ''UNIMPORT_OK'']" using h by (simp add: run)
  show "\<exists>w. de_wrote e = Some w \<and> region_matches_payload w DEMO_PAYLOAD_B" using h w(2) by (simp add: run)
qed

text \<open>
  C19: two nodes to which the kernel grants what they ask, and from which it takes back regions no longer in use, both succeed when each hears the other's messages and sees in
  its region what the other one has written: the importer asks for just the region the exporter has announced, at the
  start of its window, and each sends its messages once, in order, and the metadata until it is answered.
\<close>

theorem obmm_demo_meets:
  assumes "obmm_os_ok os \<and> takes_back os" and "no_regions s" and "obmm_os_ok os' \<and> takes_back os'" and "no_regions s'"
    and "export_granted os s mem uba tok" and "exporter_hears xlog"
    and "find_import_window EXPORT_REGION_SIZE (il_windows ilog) = Some (base, sz)"
    and "import_granted os' s' (requested (announced mem uba tok cna) cna' base)" and "importer_hears (announced mem uba tok cna) ilog"
    and "\<exists>w \<in> set (il_region_looks ilog). de_wrote (run_exporter os cna xlog s) = Some w"
    and "\<exists>w \<in> set (xl_region_looks xlog). de_wrote (run_importer os' cna' ilog s') = Some w"
  shows "de_rc (run_exporter os cna xlog s) = 0 \<and> de_rc (run_importer os' cna' ilog s') = 0 \<and>
    (\<exists>k > 0. de_sent (run_exporter os cna xlog s) =
       replicate k (meta_bytes (announced mem uba tok cna)) @ [str_bytes ''WRITE_A_DONE'', str_bytes ''WRITEBACK_OK'']) \<and>
    de_sent (run_importer os' cna' ilog s') = [str_bytes ''IMPORT_READY'', str_bytes ''IMPORT_OK'', str_bytes ''UNIMPORT_OK'']"
proof -
  note x = exporter_runs [OF assms(1,2,5,6), of cna]
  have seen: "wait_for_payload DEMO_PAYLOAD_A (il_region_looks ilog) = 0" using x(1) assms(10) wait_shown by fastforce
  have win: "find_import_window (om_size (announced mem uba tok cna)) (il_windows ilog) = Some (base, sz)"
    using assms(7) by (simp add: announced_def)
  note i = importer_runs [OF assms(3,4,8,9) win seen]
  have "wait_for_payload DEMO_PAYLOAD_B (xl_region_looks xlog) = 0" using i(3) assms(11) wait_shown by fastforce
  with x(2) i(1,2) show ?thesis by blast
qed

lemma ack_heard: "await_ack txt ls \<Longrightarrow> \<exists>d. Some d \<in> set ls \<and> ack_is txt d"
  by (induction ls) (auto split: option.splits if_splits)

lemma announce_heard_ready: "announce ls = (True, k) \<Longrightarrow> 0 < k \<and> (\<exists>d. (True, Some d) \<in> set ls \<and> ack_is ''IMPORT_READY'' d)"
proof (induction ls arbitrary: k)
  case (Cons l ls)
  obtain a b where "l = (a, b)" by (rule prod.exhaust)
  with Cons show ?case by (auto split: if_splits option.splits prod.splits)
qed simp

lemma wait_saw: "wait_for_payload p ms = 0 \<Longrightarrow> \<exists>m \<in> set ms. region_matches_payload m p"
  by (induction ms) (auto split: if_splits)

text \<open>
  An exporter that reports success has announced its region until it was answered, has left its text in the region
  before it said so, has heard that the other node has seen it, has seen the other node's text, and was told that
  the import is given back before it gave back the region.
\<close>

theorem exporter_pass_sound:
  assumes "de_rc (run_exporter os cna log s) = 0"
  shows "\<exists>m k w. de_sent (run_exporter os cna log s) = replicate k (meta_bytes m) @ [str_bytes ''WRITE_A_DONE'', str_bytes ''WRITEBACK_OK''] \<and>
    0 < k \<and> om_export_cna m = cna \<and> de_wrote (run_exporter os cna log s) = Some w \<and>
    (\<exists>d. (True, Some d) \<in> set (xl_announce log) \<and> ack_is ''IMPORT_READY'' d) \<and>
    (\<exists>d. Some d \<in> set (xl_ok_looks log) \<and> ack_is ''IMPORT_OK'' d) \<and>
    (\<exists>mem \<in> set (xl_region_looks log). region_matches_payload mem DEMO_PAYLOAD_B) \<and>
    (\<exists>d. Some d \<in> set (xl_end_looks log) \<and> ack_is ''UNIMPORT_OK'' d)"
proof -
  obtain rc meta s1 where e: "do_export_region os (meta_zero\<lparr>om_export_cna := cna\<rparr>) s = (rc, meta, s1)" by (rule prod_cases3)
  have c: "rc = 0 \<Longrightarrow> om_export_cna meta = cna" using e by (auto simp: do_export_region_def split: option.splits)
  obtain rc' region s2 where m: "map_region_device os (om_export_mem_id meta) DEMO_SIZE False s1 = (rc', region, s2)" by (rule prod_cases3)
  obtain ret s3 where b: "give_back_export os region (om_export_mem_id meta) s2 = (ret, s3)" by (rule prod.exhaust)
  obtain ready k where a: "announce (xl_announce log) = (ready, k)" by (rule prod.exhaust)
  obtain st w where p: "stamp_payload DEMO_PAYLOAD_A (xl_msync log) region (xl_mem log) = (st, w)" by (rule prod.exhaust)
  have h: "rc = 0 \<and> ready \<and> await_ack ''IMPORT_OK'' (xl_ok_looks log) \<and> wait_for_payload DEMO_PAYLOAD_B (xl_region_looks log) = 0 \<and>
      await_ack ''UNIMPORT_OK'' (xl_end_looks log)"
    and o: "de_sent (run_exporter os cna log s) = replicate k (meta_bytes meta) @ [str_bytes ''WRITE_A_DONE'', str_bytes ''WRITEBACK_OK'']"
      "de_wrote (run_exporter os cna log s) = Some w"
    using assms by (auto simp: run_exporter_def e m b a p Let_def split: if_splits)
  from h a have "0 < k \<and> (\<exists>d. (True, Some d) \<in> set (xl_announce log) \<and> ack_is ''IMPORT_READY'' d)" using announce_heard_ready by simp
  with h o c ack_heard [of "''IMPORT_OK''" "xl_ok_looks log"] ack_heard [of "''UNIMPORT_OK''" "xl_end_looks log"]
    wait_saw [of DEMO_PAYLOAD_B "xl_region_looks log"] show ?thesis
    by (intro exI [of _ meta] exI [of _ k] exI [of _ w]) simp
qed

end
