(* ===== verification/Init_Boot.thy ===== *)
theory Init_Boot
  imports Net_If
begin

text \<open>
  The first process of a guest (\<^verbatim>\<open>init.c\<close>): it reads what to do from the kernel's command line, loads
  modules, checks the message path of the device with a probe of a configuration register, sets up the network
  interface and starts the demos one after the other, some with a time limit. Files, child processes and the
  register are parameters; what is only printed for diagnosis (\<^verbatim>\<open>dump_*\<close>) is left out.
\<close>

section \<open>The command line\<close>

text \<open>\<^verbatim>\<open>strstr\<close>: whether one text occurs in another.\<close>

fun occurs_in :: "string \<Rightarrow> string \<Rightarrow> bool" where
  "occurs_in needle [] = (needle = [])"
| "occurs_in needle (c # cs) = (take (length needle) (c # cs) = needle \<or> occurs_in needle cs)"

definition cmdline_has_option :: "host_env \<Rightarrow> string \<Rightarrow> bool" where
  "cmdline_has_option env needle =
     (case read_file 2048 (proc_cmdline env) of None \<Rightarrow> False | Some buf \<Rightarrow> occurs_in needle buf)"

definition should_run_linqu_probe :: "host_env \<Rightarrow> bool" where
  "should_run_linqu_probe env \<longleftrightarrow> \<not> cmdline_has_option env ''linqu_probe_skip=1''"

definition should_hold_after_probe :: "host_env \<Rightarrow> bool" where
  "should_hold_after_probe env \<longleftrightarrow> cmdline_has_option env ''linqu_probe_hold=1''"

definition should_run_bizmsg_verify :: "host_env \<Rightarrow> bool" where
  "should_run_bizmsg_verify env \<longleftrightarrow> cmdline_has_option env ''linqu_bizmsg_verify=1''"

definition should_run_urma_dp_verify :: "host_env \<Rightarrow> bool" where
  "should_run_urma_dp_verify env \<longleftrightarrow> cmdline_has_option env ''linqu_urma_dp_verify=1''"

definition should_run_ub_chat :: "host_env \<Rightarrow> bool" where
  "should_run_ub_chat env \<longleftrightarrow> cmdline_has_option env ''linqu_ub_chat=1''"

definition should_run_ub_rdma_demo :: "host_env \<Rightarrow> bool" where
  "should_run_ub_rdma_demo env \<longleftrightarrow> cmdline_has_option env ''linqu_ub_rdma_demo=1''"

definition should_run_ub_tcp_each_server_demo :: "host_env \<Rightarrow> bool" where
  "should_run_ub_tcp_each_server_demo env \<longleftrightarrow> cmdline_has_option env ''linqu_ub_tcp_each_server_demo=1''"

definition should_run_obmm_demo :: "host_env \<Rightarrow> bool" where
  "should_run_obmm_demo env \<longleftrightarrow> cmdline_has_option env ''linqu_obmm_demo=1''"

definition should_enter_demo_boot_flow :: "host_env \<Rightarrow> bool" where
  "should_enter_demo_boot_flow env \<longleftrightarrow> getenv env ''UB_RUN_DEMO_FROM_INIT'' = Some ''1''"

definition should_run_ub_rpc_demo :: "host_env \<Rightarrow> bool" where
  "should_run_ub_rpc_demo env \<longleftrightarrow> cmdline_has_option env ''linqu_ub_rpc_demo=1''"

section \<open>The message path of the device\<close>

text \<open>The first line that has the name and a colon, and a number after it that is in range (none counts as 0).\<close>

fun interrupt_count_in :: "string \<Rightarrow> string list \<Rightarrow> u64 option" where
  "interrupt_count_in name [] = None"
| "interrupt_count_in name (line # ls) =
     (if \<not> occurs_in name line \<or> CHR '':'' \<notin> set line then interrupt_count_in name ls
      else case strtoul (dropWhile (\<lambda>c. c = CHR '' '' \<or> c = CHR 0x09) (drop 1 (dropWhile (\<lambda>c. c \<noteq> CHR '':'') line))) of
             (v, rest, err) \<Rightarrow> if err then interrupt_count_in name ls else Some (of_nat v))"

definition read_interrupt_count :: "string option \<Rightarrow> string \<Rightarrow> u64 option" where
  "read_interrupt_count interrupts name =
     (case interrupts of None \<Rightarrow> None | Some s \<Rightarrow> interrupt_count_in name (lines_of 512 s))"

definition nonzero_masked_u15 :: "u32 \<Rightarrow> u32 \<Rightarrow> u32" where
  "nonzero_masked_u15 value fallback = (if value AND 0x7fff = 0 then fallback AND 0x7fff else value AND 0x7fff)"

definition UB_CFG_UPI_OFFSET :: u64 where "UB_CFG_UPI_OFFSET = 0x7c"

record payload_case =
  pc_offset :: u64
  pc_pattern :: u32
  pc_mask :: u32

text \<open>The configuration file: a read of four bytes and a write of four bytes, each of which may fail.\<close>

record 's cfg_dev =
  cd_read :: "'s \<Rightarrow> u64 \<Rightarrow> u32 option \<times> 's"
  cd_write :: "'s \<Rightarrow> u64 \<Rightarrow> u32 \<Rightarrow> bool \<times> 's"

definition payload_cases :: "u64 \<Rightarrow> payload_case list" where
  "payload_cases seed =
     [\<lparr>pc_offset = UB_CFG_UPI_OFFSET, pc_pattern = nonzero_masked_u15 (ucast seed XOR 0x1357) 1, pc_mask = 0x7fff\<rparr>,
      \<lparr>pc_offset = UB_CFG_UPI_OFFSET, pc_pattern = nonzero_masked_u15 (ucast (drop_bit 16 seed) XOR 0x2a5a) 2, pc_mask = 0x7fff\<rparr>,
      \<lparr>pc_offset = UB_CFG_UPI_OFFSET, pc_pattern = nonzero_masked_u15 (ucast (drop_bit 32 seed) XOR 0x55a5) 4, pc_mask = 0x7fff\<rparr>]"

text \<open>One case: how many errors it finds, and the state of the device after it.\<close>

definition run_case :: "'s cfg_dev \<Rightarrow> payload_case \<Rightarrow> 's \<Rightarrow> nat \<times> 's" where
  "run_case dev c s =
     (case cd_read dev s (pc_offset c) of
        (None, s1) \<Rightarrow> (1, s1)
      | (Some before, s1) \<Rightarrow>
          (case cd_write dev s1 (pc_offset c) (pc_pattern c) of
             (False, s2) \<Rightarrow> (1, s2)
           | (True, s2) \<Rightarrow>
               (case cd_read dev s2 (pc_offset c) of
                  (None, s3) \<Rightarrow> (1, snd (cd_write dev s3 (pc_offset c) before))
                | (Some now, s3) \<Rightarrow>
                    (let e = (if now AND pc_mask c \<noteq> pc_pattern c AND pc_mask c then 1 else 0)
                     in case cd_write dev s3 (pc_offset c) before of
                          (False, s4) \<Rightarrow> (e + 1, s4)
                        | (True, s4) \<Rightarrow>
                            (case cd_read dev s4 (pc_offset c) of
                               (None, s5) \<Rightarrow> (e + 1, s5)
                             | (Some again, s5) \<Rightarrow> (if again AND pc_mask c \<noteq> before AND pc_mask c then e + 1 else e, s5))))))"

fun run_cases :: "'s cfg_dev \<Rightarrow> payload_case list \<Rightarrow> 's \<Rightarrow> nat \<times> 's" where
  "run_cases dev [] s = (0, s)"
| "run_cases dev (c # cs) s =
     (case run_case dev c s of (e, s1) \<Rightarrow> (case run_cases dev cs s1 of (es, s2) \<Rightarrow> (e + es, s2)))"

text \<open>\<open>opened\<close> says whether the file could be opened.\<close>

definition run_bizmsg_payload_consistency_probe :: "bool \<Rightarrow> 's cfg_dev \<Rightarrow> u64 \<Rightarrow> 's \<Rightarrow> int \<times> 's" where
  "run_bizmsg_payload_consistency_probe opened dev seed s =
     (if \<not> opened then (- 1, s)
      else case run_cases dev (payload_cases seed) s of (errors, s1) \<Rightarrow> (if errors = 0 then 0 else - 1, s1))"

text \<open>What the probe of the message path finds: whether the remote device is there, what the file with the link state
  holds at each attempt, the interrupt counters before and after, whether the 32 rounds of reads all succeed, and
  the process's number.\<close>

record msg_log =
  ml_present :: bool
  ml_linkup :: "string option list"
  ml_before :: "string option"
  ml_touched :: "bool list"
  ml_open :: bool
  ml_pid :: u64
  ml_after :: "string option"

definition run_bizmsg_roundtrip_probe :: "'s cfg_dev \<Rightarrow> msg_log \<Rightarrow> 's \<Rightarrow> int \<times> 's" where
  "run_bizmsg_roundtrip_probe dev log s =
     (if \<not> ml_present log then (0, s)
      else if \<not> list_ex (\<lambda>l. case read_file 64 l of None \<Rightarrow> False | Some b \<Rightarrow> occurs_in ''1'' b) (take 100 (ml_linkup log)) then (- 1, s)
      else case read_interrupt_count (ml_before log) ''hi_msgq0-0'' of
             None \<Rightarrow> (- 1, s)
           | Some before \<Rightarrow>
               (case run_bizmsg_payload_consistency_probe (ml_open log) dev (before XOR ml_pid log) s of
                  (rc, s1) \<Rightarrow>
                    (case read_interrupt_count (ml_after log) ''hi_msgq0-0'' of
                       None \<Rightarrow> (- 1, s1)
                     | Some now \<Rightarrow>
                         (if list_all id (take (32 * 6) (ml_touched log)) \<and> rc = 0 \<and> before < now then 0 else - 1, s1))))"

section \<open>Children\<close>

datatype child_status = Exited nat | Signalled nat | Other_status

text \<open>What is reported of a child, and whether it was waited for.\<close>

datatype verdict = No_child | Not_waited | Passed | Failed_exit nat | Failed_signal nat | Failed_timeout | Failed_other

definition verdict_of :: "child_status \<Rightarrow> verdict" where
  "verdict_of st = (case st of Exited n \<Rightarrow> if n = 0 then Passed else Failed_exit n | Signalled n \<Rightarrow> Failed_signal n | Other_status \<Rightarrow> Failed_other)"

text \<open>A child that is waited for as long as it takes; \<open>None\<close> is a failure of the wait. Four functions do the same.\<close>

definition child_verdict :: "bool \<Rightarrow> child_status option \<Rightarrow> verdict" where
  "child_verdict forked st =
     (if \<not> forked then No_child else case st of None \<Rightarrow> Not_waited | Some st \<Rightarrow> verdict_of st)"

definition run_urma_dp_probe :: "bool \<Rightarrow> child_status option \<Rightarrow> verdict" where "run_urma_dp_probe = child_verdict"
definition run_ub_chat_probe :: "bool \<Rightarrow> child_status option \<Rightarrow> verdict" where "run_ub_chat_probe = child_verdict"
definition run_ub_rpc_demo_probe :: "bool \<Rightarrow> child_status option \<Rightarrow> verdict" where "run_ub_rpc_demo_probe = child_verdict"

definition run_ub_tcp_each_server_demo_probe :: "bool \<Rightarrow> child_status option \<Rightarrow> verdict" where
  "run_ub_tcp_each_server_demo_probe = child_verdict"

text \<open>The answers of \<^verbatim>\<open>waitpid\<close> without waiting, one for each turn.\<close>

datatype poll = Poll_running | Poll_ended child_status | Poll_error

text \<open>A child that is killed after \<open>limit\<close> milliseconds; the second component is how often it was asked for.\<close>

function poll_child :: "nat \<Rightarrow> (nat \<Rightarrow> poll) \<Rightarrow> nat \<Rightarrow> verdict \<times> nat" where
  "poll_child limit polls waited_ms =
     (case polls (waited_ms div 100) of
        Poll_ended st \<Rightarrow> (verdict_of st, 1)
      | Poll_error \<Rightarrow> (Not_waited, 1)
      | Poll_running \<Rightarrow>
          if limit \<le> waited_ms then (Failed_timeout, 1)
          else case poll_child limit polls (waited_ms + 100) of (v, n) \<Rightarrow> (v, Suc n))"
  by pat_completeness auto

termination poll_child
  by (relation "measure (\<lambda>(limit, polls, waited_ms). limit - waited_ms)") auto

declare poll_child.simps [simp del]

definition run_ub_rdma_demo_probe :: "bool \<Rightarrow> (nat \<Rightarrow> poll) \<Rightarrow> verdict \<times> nat" where
  "run_ub_rdma_demo_probe forked polls = (if \<not> forked then (No_child, 0) else poll_child 60000 polls 0)"

definition run_obmm_demo_probe :: "bool \<Rightarrow> (nat \<Rightarrow> poll) \<Rightarrow> verdict \<times> nat" where
  "run_obmm_demo_probe forked polls = (if \<not> forked then (No_child, 0) else poll_child 60000 polls 0)"

section \<open>The interface\<close>

definition ipourma_role_ipv4_defaults :: "string \<Rightarrow> nat \<Rightarrow> nat \<Rightarrow> (string \<times> string) option" where
  "ipourma_role_ipv4_defaults role local_len peer_len =
     (if role = ''nodeA'' \<or> role = ''initiator'' \<or> role = ''client'' \<or> role = ''exporter''
      then Some (snprintf_s local_len ''10.0.0.1'', snprintf_s peer_len ''10.0.0.2'')
      else if role = ''nodeB'' \<or> role = ''responder'' \<or> role = ''server'' \<or> role = ''importer''
      then Some (snprintf_s local_len ''10.0.0.2'', snprintf_s peer_len ''10.0.0.1'')
      else None)"

text \<open>The local address, and the peer's where there is one that is valid.\<close>

definition resolve_ipourma_ipv4_config :: "host_env \<Rightarrow> nat \<Rightarrow> nat \<Rightarrow> (string \<times> string option) option" where
  "resolve_ipourma_ipv4_config env local_len peer_len =
     (let have_local = cmdline_get_value env ''linqu_ipourma_ipv4'' local_len;
          have_peer = cmdline_get_value env ''linqu_ipourma_peer_ipv4'' peer_len;
          defaults = (if have_local = None \<or> have_peer = None
                      then Option.bind (cmdline_get_value env ''linqu_urma_dp_role'' 32)
                             (\<lambda>role. ipourma_role_ipv4_defaults role INET_ADDRSTRLEN INET_ADDRSTRLEN)
                      else None);
          local_ip = (case have_local of Some l \<Rightarrow> Some l | None \<Rightarrow> map_option (\<lambda>d. snprintf_s local_len (fst d)) defaults);
          peer_ip = (case have_peer of Some p \<Rightarrow> Some p | None \<Rightarrow> map_option (\<lambda>d. snprintf_s peer_len (snd d)) defaults)
      in case local_ip of
           None \<Rightarrow> None
         | Some l \<Rightarrow>
             if \<not> valid_ipv4 env l then None
             else Some (l, case peer_ip of None \<Rightarrow> None | Some p \<Rightarrow> if valid_ipv4 env p then Some p else None))"

text \<open>The names in \<^verbatim>\<open>/sys/class/net\<close>, where the directory can be opened.\<close>

definition is_ipourma_ready :: "string list option \<Rightarrow> bool" where
  "is_ipourma_ready entries = (case entries of None \<Rightarrow> False | Some ns \<Rightarrow> list_ex (\<lambda>n. take 7 n = ''ipourma'') ns)"

definition net_class_iface :: "nat \<Rightarrow> string list option \<Rightarrow> string option" where
  "net_class_iface name_len entries =
     (case entries of
        None \<Rightarrow> None
      | Some ns \<Rightarrow>
          (case find (\<lambda>n. take 7 n = ''ipourma'') ns of
             None \<Rightarrow> None
           | Some n \<Rightarrow>
               if name_len = 0 then None
               else Some (take (name_len - 1) (takeWhile (\<lambda>c. c \<notin> {CHR '' '', CHR 0x09, CHR 0x0D, CHR 0x0A}) n))))"

text \<open>The looks at the directory before the time is over. It does not matter for what follows whether it is seen.\<close>

definition wait_for_ipourma_interface :: "nat \<Rightarrow> string list option list \<Rightarrow> bool" where
  "wait_for_ipourma_interface timeout_secs looks = list_ex is_ipourma_ready (take (timeout_secs * 2) looks)"

text \<open>The address is set even where it is the one the interface has.\<close>

definition configure_ipourma_network :: "net_os \<Rightarrow> host_env \<Rightarrow> string list option \<Rightarrow> net_ks \<Rightarrow> bool \<times> net_ks" where
  "configure_ipourma_network os env entries ks =
     (case resolve_ipourma_ipv4_config env INET_ADDRSTRLEN INET_ADDRSTRLEN of
        None \<Rightarrow> (False, ks)
      | Some (local_ip, peer_ip) \<Rightarrow>
          (case net_class_iface IFNAMSIZ entries of
             None \<Rightarrow> (False, ks)
           | Some ifname \<Rightarrow>
               if nt_pton os local_ip = None then (False, ks)
               else case set_ipv4_addr os ifname local_ip ks of
                      (False, ks1) \<Rightarrow> (False, ks1)
                    | (True, ks1) \<Rightarrow>
                        (case get_local_ipv4 os ifname ks1 of
                           (None, ks2) \<Rightarrow> (False, ks2)
                         | (Some a, ks2) \<Rightarrow>
                             (case Option.bind peer_ip (nt_pton os) of
                                None \<Rightarrow> (True, ks2)
                              | Some peer \<Rightarrow> (True, snd (install_static_arp os ifname peer ks2))))))"

section \<open>Modules\<close>

text \<open>Which paths exist, and which files may be read and executed.\<close>

record file_view =
  fv_exists :: "string \<Rightarrow> bool"
  fv_readable :: "string \<Rightarrow> bool"
  fv_executable :: "string \<Rightarrow> bool"

definition is_module_loaded :: "file_view \<Rightarrow> string \<Rightarrow> bool" where
  "is_module_loaded fv module_name \<longleftrightarrow> module_name \<noteq> [] \<and> fv_exists fv (snprintf_s 256 (''/sys/module/'' @ module_name))"

definition wait_for_path :: "(nat \<Rightarrow> file_view) \<Rightarrow> string \<Rightarrow> nat \<Rightarrow> bool" where
  "wait_for_path views path attempts = list_ex (\<lambda>i. fv_exists (views i) path) [0..<attempts]"

text \<open>Whether the module is to be loaded by a child.\<close>

definition try_insmod_module :: "file_view \<Rightarrow> string \<Rightarrow> string \<Rightarrow> bool" where
  "try_insmod_module fv path module_name \<longleftrightarrow>
     \<not> is_module_loaded fv module_name \<and> fv_executable fv ''/bin/insmod'' \<and> fv_readable fv path"

text \<open>The modules in the order in which they are tried.\<close>

definition bootstrap_drivers :: "host_env \<Rightarrow> (string \<times> string) list" where
  "bootstrap_drivers env =
     [(''/lib/modules/ubus.ko'', ''ubus''), (''/lib/modules/ummu-core.ko'', ''ummu_core''), (''/lib/modules/ummu.ko'', ''ummu''),
      (''/lib/modules/ubase.ko'', ''ubase''), (''/lib/modules/hisi_ubus.ko'', ''hisi_ubus''), (''/lib/modules/obmm.ko'', ''obmm''),
      (''/lib/modules/ub-sim-decoder.ko'', ''ub_sim_decoder''), (''/lib/modules/ubcore.ko'', ''ubcore''),
      (''/lib/modules/udma.ko'', ''udma''), (''/lib/modules/ipourma.ko'', ''ipourma'')] @
     (if cmdline_has_option env ''linqu_probe_load_helper=1'' then [(''/lib/modules/linqu_ub_drv.ko'', ''linqu_ub_drv'')] else [])"

section \<open>The order of things\<close>

datatype boot_act =
    Load_modules "(string \<times> string) list" | Wait_sysfs | Check_messages | Configure_network | Wait_interface
  | Start string | Switch_to_demo | Hold | Power_off

text \<open>Each demo waits for the interface before it is started. \<open>demo_ok\<close> says whether \<^verbatim>\<open>/bin/run_demo\<close> can be
  executed; then nothing follows, when the call succeeds. A guest that holds does not power off.\<close>

definition init_main :: "host_env \<Rightarrow> bool \<Rightarrow> boot_act list" where
  "init_main env demo_ok =
     [Load_modules (bootstrap_drivers env), Wait_sysfs] @
     (if should_run_bizmsg_verify env then [Check_messages] else []) @
     [Configure_network] @
     (if should_run_urma_dp_verify env then [Wait_interface, Start ''/bin/linqu_urma_dp''] else []) @
     (if should_run_ub_chat env then [Wait_interface, Start ''/bin/linqu_ub_chat''] else []) @
     (if should_run_ub_rpc_demo env then [Wait_interface, Start ''/bin/linqu_ub_rpc''] else []) @
     (if should_run_ub_tcp_each_server_demo env then [Wait_interface, Start ''/bin/linqu_ub_tcp_each_server''] else []) @
     (if should_run_ub_rdma_demo env then [Wait_interface, Start ''/bin/linqu_ub_rdma_demo''] else []) @
     (if should_run_obmm_demo env then [Wait_interface, Start ''/bin/linqu_ub_obmm_demo''] else []) @
     (if should_run_linqu_probe env then [Start ''/bin/linqu_probe''] else []) @
     (if should_enter_demo_boot_flow env \<and> demo_ok then [Switch_to_demo]
      else if should_hold_after_probe env then [Hold] else [Power_off])"

end
