(* ===== verification/Init_Runs.thy ===== *)
theory Init_Runs
  imports Init_Boot Chat Obmm_Demo
begin

text \<open>
  What holds of the first process: the probe of the register passes on a register that works and leaves it as it was,
  and finds one that does not; a demo with a time limit does not hold up the boot; the addresses it resolves are
  those the demos find; and an option is also taken for set when it is the beginning of another.
\<close>

section \<open>The probe of the register\<close>

text \<open>A register whose low 15 bits can be written, and one that ignores writes.\<close>

definition works_as_register :: "'s cfg_dev \<Rightarrow> u64 \<Rightarrow> ('s \<Rightarrow> u32) \<Rightarrow> bool" where
  "works_as_register dev off val \<longleftrightarrow>
     (\<forall>s. \<exists>r s'. cd_read dev s off = (Some r, s') \<and> r AND 0x7fff = val s AND 0x7fff \<and> val s' = val s) \<and>
     (\<forall>s w. \<exists>s'. cd_write dev s off w = (True, s') \<and> val s' AND 0x7fff = w AND 0x7fff)"

definition ignores_writes :: "'s cfg_dev \<Rightarrow> u64 \<Rightarrow> u32 \<Rightarrow> bool" where
  "ignores_writes dev off v \<longleftrightarrow>
     (\<forall>s. fst (cd_read dev s off) = Some v) \<and> (\<forall>s w. fst (cd_write dev s off w))"

lemma working_case:
  assumes "works_as_register dev (pc_offset c) val" and "pc_mask c = 0x7fff" and "run_case dev c s = (e, s')"
  shows "e = 0 \<and> val s' AND 0x7fff = val s AND 0x7fff"
proof -
  have rd: "\<exists>r s'. cd_read dev s (pc_offset c) = (Some r, s') \<and> r AND 0x7fff = val s AND 0x7fff \<and> val s' = val s" for s
    using assms(1) by (simp add: works_as_register_def)
  have wr: "\<exists>s'. cd_write dev s (pc_offset c) w = (True, s') \<and> val s' AND 0x7fff = w AND 0x7fff" for s w
    using assms(1) by (simp add: works_as_register_def)
  obtain b s1 where 1: "cd_read dev s (pc_offset c) = (Some b, s1)" "b AND 0x7fff = val s AND 0x7fff" "val s1 = val s" using rd by blast
  obtain s2 where 2: "cd_write dev s1 (pc_offset c) (pc_pattern c) = (True, s2)" "val s2 AND 0x7fff = pc_pattern c AND 0x7fff"
    using wr by blast
  obtain n s3 where 3: "cd_read dev s2 (pc_offset c) = (Some n, s3)" "n AND 0x7fff = val s2 AND 0x7fff" using rd by blast
  obtain s4 where 4: "cd_write dev s3 (pc_offset c) b = (True, s4)" "val s4 AND 0x7fff = b AND 0x7fff" using wr by blast
  obtain g s5 where 5: "cd_read dev s4 (pc_offset c) = (Some g, s5)" "g AND 0x7fff = val s4 AND 0x7fff" "val s5 = val s4" using rd by blast
  show ?thesis using assms(2,3) 1 2 3 4 5 by (simp add: run_case_def Let_def)
qed

lemma working_cases:
  "(\<And>c. c \<in> set cs \<Longrightarrow> works_as_register dev (pc_offset c) val \<and> pc_mask c = 0x7fff) \<Longrightarrow> run_cases dev cs s = (e, s') \<Longrightarrow>
     e = 0 \<and> val s' AND 0x7fff = val s AND 0x7fff"
proof (induction cs arbitrary: s e s')
  case (Cons c cs)
  obtain e1 s1 where 1: "run_case dev c s = (e1, s1)" by (rule prod.exhaust)
  obtain e2 s2 where 2: "run_cases dev cs s1 = (e2, s2)" by (rule prod.exhaust)
  have r: "works_as_register dev (pc_offset c) val" "pc_mask c = 0x7fff" using Cons.prems(1) [of c] by simp_all
  have "e2 = 0 \<and> val s2 AND 0x7fff = val s1 AND 0x7fff" using Cons.IH [OF _ 2] Cons.prems(1) by simp
  with working_case [OF r 1] Cons.prems(2) 1 2 show ?case by simp
qed simp

text \<open>
  On a register whose low 15 bits keep what is written, the probe passes and leaves those bits as they were,
  whatever the other bits read, and whatever the seed.
\<close>

theorem payload_probe_restores:
  assumes "works_as_register dev UB_CFG_UPI_OFFSET val"
  shows "case run_bizmsg_payload_consistency_probe True dev seed s of
    (rc, s') \<Rightarrow> rc = 0 \<and> val s' AND 0x7fff = val s AND 0x7fff"
proof -
  obtain e s' where r: "run_cases dev (payload_cases seed) s = (e, s')" by (rule prod.exhaust)
  have "e = 0 \<and> val s' AND 0x7fff = val s AND 0x7fff"
    using assms by (intro working_cases [OF _ r]) (auto simp: payload_cases_def)
  then show ?thesis by (simp add: run_bizmsg_payload_consistency_probe_def r)
qed

lemma stuck_case:
  assumes "ignores_writes dev (pc_offset c) v"
  shows "fst (run_case dev c s) = (if v AND pc_mask c = pc_pattern c AND pc_mask c then 0 else 1)"
proof -
  have rd: "\<exists>s'. cd_read dev s (pc_offset c) = (Some v, s')" for s
    using assms by (auto simp: ignores_writes_def prod_eq_iff)
  have wr: "\<exists>s'. cd_write dev s (pc_offset c) w = (True, s')" for s w
    using assms by (auto simp: ignores_writes_def prod_eq_iff)
  obtain s1 where 1: "cd_read dev s (pc_offset c) = (Some v, s1)" using rd by blast
  obtain s2 where 2: "cd_write dev s1 (pc_offset c) (pc_pattern c) = (True, s2)" using wr by blast
  obtain s3 where 3: "cd_read dev s2 (pc_offset c) = (Some v, s3)" using rd by blast
  obtain s4 where 4: "cd_write dev s3 (pc_offset c) v = (True, s4)" using wr by blast
  obtain s5 where 5: "cd_read dev s4 (pc_offset c) = (Some v, s5)" using rd by blast
  show ?thesis using 1 2 3 4 5 by (simp add: run_case_def Let_def)
qed

lemma stuck_cases:
  "(\<And>c. c \<in> set cs \<Longrightarrow> ignores_writes dev (pc_offset c) v) \<Longrightarrow>
     fst (run_cases dev cs s) = length (filter (\<lambda>c. v AND pc_mask c \<noteq> pc_pattern c AND pc_mask c) cs)"
proof (induction cs arbitrary: s)
  case (Cons c cs)
  obtain e1 s1 where 1: "run_case dev c s = (e1, s1)" by (rule prod.exhaust)
  obtain e2 s2 where 2: "run_cases dev cs s1 = (e2, s2)" by (rule prod.exhaust)
  have "e1 = (if v AND pc_mask c = pc_pattern c AND pc_mask c then 0 else 1)" using stuck_case [of dev c v s] Cons.prems 1 by simp
  moreover have "e2 = length (filter (\<lambda>c. v AND pc_mask c \<noteq> pc_pattern c AND pc_mask c) cs)"
    using Cons.IH [of s1] Cons.prems 2 by simp
  ultimately show ?case by (simp add: 1 2)
qed simp

lemma masked_pattern: "nonzero_masked_u15 a b AND 0x7fff = nonzero_masked_u15 a b"
  by (simp add: nonzero_masked_u15_def and.assoc)

text \<open>
  A register that accepts writes and ignores them is found, unless its low 15 bits are those of all three patterns;
  as no pattern is 0, one that reads as 0 is always found.
\<close>

theorem payload_probe_stuck:
  assumes "ignores_writes dev UB_CFG_UPI_OFFSET v"
  shows "(fst (run_bizmsg_payload_consistency_probe True dev seed s) = 0 \<longleftrightarrow>
      (\<forall>c \<in> set (payload_cases seed). v AND 0x7fff = pc_pattern c)) \<and>
    (v AND 0x7fff = 0 \<longrightarrow> fst (run_bizmsg_payload_consistency_probe True dev seed s) = - 1)"
proof -
  obtain e s' where r: "run_cases dev (payload_cases seed) s = (e, s')" by (rule prod.exhaust)
  have "pc_offset c = UB_CFG_UPI_OFFSET" if "c \<in> set (payload_cases seed)" for c using that by (auto simp: payload_cases_def)
  then have "e = length (filter (\<lambda>c. v AND pc_mask c \<noteq> pc_pattern c AND pc_mask c) (payload_cases seed))"
    using stuck_cases [of "payload_cases seed" dev v s] assms r by simp
  moreover have "pc_mask c = 0x7fff \<and> pc_pattern c AND 0x7fff = pc_pattern c" if "c \<in> set (payload_cases seed)" for c
    using that by (auto simp: payload_cases_def masked_pattern)
  ultimately have e: "e = 0 \<longleftrightarrow> (\<forall>c \<in> set (payload_cases seed). v AND 0x7fff = pc_pattern c)"
    by (auto simp: filter_empty_conv)
  have nz: "nonzero_masked_u15 (ucast seed XOR 0x1357) 1 \<noteq> 0" by (simp add: nonzero_masked_u15_def)
  have ne: "e \<noteq> 0" if "v AND 0x7fff = 0" using that nz unfolding e payload_cases_def by auto
  have p: "fst (run_bizmsg_payload_consistency_probe True dev seed s) = (if e = 0 then 0 else - 1)"
    by (simp add: run_bizmsg_payload_consistency_probe_def r)
  show ?thesis
  proof (intro conjI impI)
    show "fst (run_bizmsg_payload_consistency_probe True dev seed s) = 0 \<longleftrightarrow> (\<forall>c \<in> set (payload_cases seed). v AND 0x7fff = pc_pattern c)"
      unfolding p e [symmetric] by simp
    show "fst (run_bizmsg_payload_consistency_probe True dev seed s) = - 1" if "v AND 0x7fff = 0"
      unfolding p using ne [OF that] by simp
  qed
qed

section \<open>Children\<close>

lemma poll_child_steps:
  "\<forall>i < n. polls (k + i) = Poll_running \<and> 100 * (k + i) < limit \<Longrightarrow>
     poll_child limit polls (100 * k) = (case poll_child limit polls (100 * (k + n)) of (v, m) \<Rightarrow> (v, n + m))"
proof (induction n arbitrary: k)
  case (Suc n)
  have 0: "polls k = Poll_running" "100 * k < limit" using Suc.prems by force+
  have t: "\<forall>i < n. polls (Suc k + i) = Poll_running \<and> 100 * (Suc k + i) < limit"
    using Suc.prems by (metis Suc_less_eq add_Suc_shift)
  have "poll_child limit polls (100 * k) = (case poll_child limit polls (100 * Suc k) of (v, m) \<Rightarrow> (v, Suc m))"
    using 0 by (subst poll_child.simps) (simp add: add.commute)
  then show ?case using Suc.IH [OF t] by (simp add: case_prod_beta)
qed simp

text \<open>
  A demo with a time limit is asked for at most 601 times, so it does not hold up the boot: it passes when it has
  ended with status 0 by then, and is killed and reported as too slow when it has not ended.
\<close>

theorem demo_time_limit:
  "snd (run_obmm_demo_probe True polls) \<le> 601 \<and>
   ((\<forall>k \<le> 600. polls k = Poll_running) \<longrightarrow> run_obmm_demo_probe True polls = (Failed_timeout, 601)) \<and>
   (\<forall>k \<le> 600. (\<forall>i < k. polls i = Poll_running) \<longrightarrow> polls k = Poll_ended st \<longrightarrow>
      run_obmm_demo_probe True polls = (verdict_of st, Suc k))"
proof -
  have s: "poll_child 60000 polls 0 = (case poll_child 60000 polls (100 * k) of (v, m) \<Rightarrow> (v, k + m))"
    if "k \<le> 600" "\<forall>i < k. polls i = Poll_running" for k
    using poll_child_steps [where n = k and k = 0 and limit = 60000 and polls = polls] that by simp
  have last: "poll_child 60000 polls (100 * 600) = (Failed_timeout, 1)" if "polls 600 = Poll_running"
    using that by (subst poll_child.simps) simp
  have stop: "snd (poll_child 60000 polls (100 * k)) = 1" if "polls k \<noteq> Poll_running" for k
    using that by (subst poll_child.simps) (simp split: poll.splits)
  have fin: "poll_child 60000 polls (100 * k) = (verdict_of st, 1)" if "polls k = Poll_ended st" for k
    using that by (subst poll_child.simps) simp
  have run: "poll_child 60000 polls 0 = (Failed_timeout, 601)" if r: "\<forall>k \<le> 600. polls k = Poll_running"
  proof -
    have "\<forall>i < 600. polls i = Poll_running" using r by simp
    from s [OF order_refl this] last r show ?thesis by simp
  qed
  have bound: "snd (poll_child 60000 polls 0) \<le> 601"
  proof (cases "\<forall>k \<le> 600. polls k = Poll_running")
    case False
    then obtain k where k: "k \<le> 600" "polls k \<noteq> Poll_running" by blast
    from k(2) obtain j where "polls j \<noteq> Poll_running \<and> (\<forall>i < j. \<not> polls i \<noteq> Poll_running)"
      using exists_least_iff [of "\<lambda>k. polls k \<noteq> Poll_running"] by blast
    then have j: "polls j \<noteq> Poll_running" "\<forall>i < j. polls i = Poll_running" "j \<le> k"
      using k(2) by (blast, blast, meson not_less)
    then show ?thesis unfolding s [OF order_trans [OF j(3) k(1)] j(2)] using stop [OF j(1)] k(1) by (simp add: case_prod_beta)
  qed (simp add: run)
  have ended: "poll_child 60000 polls 0 = (verdict_of st, Suc k)"
    if "k \<le> 600" "\<forall>i < k. polls i = Poll_running" "polls k = Poll_ended st" for k
    unfolding s [OF that(1,2)] fin [OF that(3)] by simp
  have r: "run_obmm_demo_probe True polls = poll_child 60000 polls 0" by (simp add: run_obmm_demo_probe_def)
  show ?thesis unfolding r by (intro conjI allI impI; (rule bound | rule run | rule ended); assumption)
qed

section \<open>Configuration\<close>

lemma init_resolves:
  assumes "cmdline_get_value env ''linqu_urma_dp_role'' 32 = Some role"
    and "ipv4_pair defaults env (cmdline_get_value env ''linqu_ipourma_ipv4'' n) (cmdline_get_value env ''linqu_ipourma_peer_ipv4'' n) n n =
      Some (my_ip, peer_ip)"
    and "\<And>d. defaults = Some d \<Longrightarrow> ipourma_role_ipv4_defaults role INET_ADDRSTRLEN INET_ADDRSTRLEN = Some d"
  shows "resolve_ipourma_ipv4_config env n n = Some (my_ip, Some peer_ip)"
  using assms(2,3)
  by (cases "cmdline_get_value env ''linqu_ipourma_ipv4'' n"; cases "cmdline_get_value env ''linqu_ipourma_peer_ipv4'' n"; cases defaults)
    (simp_all add: ipv4_pair_def resolve_ipourma_ipv4_config_def Let_def assms(1) case_prod_beta split: if_splits)

text \<open>The chat takes its role and its addresses from the environment first; here the environment has none.\<close>

definition chat_unset :: "host_env \<Rightarrow> bool" where
  "chat_unset env \<longleftrightarrow> getenv env ''LINQU_UB_ROLE'' = None \<and> getenv env ''LINQU_UB_LOCAL_IP'' = None \<and> getenv env ''LINQU_UB_PEER_IP'' = None"

text \<open>The two addresses that the URMA and TCP demos, the memory sharing demo or the chat find for a role given on the
  command line.\<close>

definition demo_finds :: "host_env \<Rightarrow> string \<Rightarrow> string \<times> string \<Rightarrow> bool" where
  "demo_finds env role pair \<longleftrightarrow>
     node_ipv4_pair env role INET_ADDRSTRLEN INET_ADDRSTRLEN = Some pair \<or>
     parse_obmm_role role \<noteq> OBMM_ROLE_UNKNOWN \<and> obmm_ipv4_pair env role INET_ADDRSTRLEN INET_ADDRSTRLEN = Some pair \<or>
     chat_unset env \<and> (\<exists>chat_role. normalize_role 32 role = Some chat_role \<and>
       chat_ipv4_pair env chat_role INET_ADDRSTRLEN INET_ADDRSTRLEN = Some pair)"

text \<open>
  C29: where the URMA demo, the TCP demo, the memory sharing demo or, with nothing set in the environment, the chat finds
  the two addresses of its node, the first process resolves the same two from the command line; and when it then
  succeeds to configure the interface, it has set the first of them there.
\<close>

theorem init_agrees_with_demos:
  assumes "cmdline_get_value env ''linqu_urma_dp_role'' 32 = Some role" and "demo_finds env role (my_ip, peer_ip)"
  shows "resolve_ipourma_ipv4_config env INET_ADDRSTRLEN INET_ADDRSTRLEN = Some (my_ip, Some peer_ip) \<and>
    (fst (configure_ipourma_network os env entries ks) \<longrightarrow>
      (\<exists>ifname. net_class_iface IFNAMSIZ entries = Some ifname \<and> fst (set_ipv4_addr os ifname my_ip ks)))"
proof -
  have r: "resolve_ipourma_ipv4_config env INET_ADDRSTRLEN INET_ADDRSTRLEN = Some (my_ip, Some peer_ip)"
    using assms(2) unfolding demo_finds_def
  proof (elim disjE exE conjE)
    assume "node_ipv4_pair env role INET_ADDRSTRLEN INET_ADDRSTRLEN = Some (my_ip, peer_ip)"
    then show ?thesis
      unfolding node_ipv4_pair_def
      by (rule init_resolves [OF assms(1)]) (auto simp: node_default_ipv4_pair_def ipourma_role_ipv4_defaults_def split: if_splits)
  next
    assume "obmm_ipv4_pair env role INET_ADDRSTRLEN INET_ADDRSTRLEN = Some (my_ip, peer_ip)"
    then show ?thesis
      unfolding obmm_ipv4_pair_def
      by (rule init_resolves [OF assms(1)]) (auto simp: obmm_default_ipv4_pair_def ipourma_role_ipv4_defaults_def split: if_splits)
  next
    fix chat_role
    assume c: "chat_unset env" "normalize_role 32 role = Some chat_role"
      "chat_ipv4_pair env chat_role INET_ADDRSTRLEN INET_ADDRSTRLEN = Some (my_ip, peer_ip)"
    have g: "get_config_value env ''LINQU_UB_LOCAL_IP'' k n = cmdline_get_value env k n"
      "get_config_value env ''LINQU_UB_PEER_IP'' k n = cmdline_get_value env k n" for k n
      using c(1) by (simp_all add: chat_unset_def get_config_value_def get_env_value_def)
    show ?thesis
      using c(3) unfolding chat_ipv4_pair_def g
      by (rule init_resolves [OF assms(1)])
        (use c(2) in \<open>auto simp: chat_default_ipv4_pair_def role_is_initiator_def normalize_role_def snprintf_s_def
          ipourma_role_ipv4_defaults_def split: if_splits\<close>)
  qed
  then show ?thesis
    by (auto simp: configure_ipourma_network_def split: option.splits if_splits prod.splits bool.splits)
qed

lemma occurs_in_prefix: "occurs_in needle (needle @ post)"
  by (cases needle; cases post) auto

lemma occurs_in_append: "occurs_in needle (pre @ needle @ post)"
  by (induction pre) (simp_all add: occurs_in_prefix)

text \<open>
  An option counts as given wherever its text occurs on the command line, so also as the beginning of a longer value or
  as the end of a longer name: with \<open>linqu_ub_chat=10\<close>, or \<open>no_linqu_ub_chat=1\<close>, the chat is started, although no option
  has that name and the value 1.
\<close>

theorem option_taken_for_another:
  assumes "proc_cmdline env = Some (pre @ ''linqu_ub_chat=1'' @ post)" and "length pre + 15 + length post < 2048"
  shows "should_run_ub_chat env \<and> Start ''/bin/linqu_ub_chat'' \<in> set (init_main env demo_ok)"
proof -
  have "should_run_ub_chat env"
    using assms occurs_in_append [of "''linqu_ub_chat=1''" pre post]
    by (simp add: should_run_ub_chat_def cmdline_has_option_def read_file_def)
  then show ?thesis by (simp add: init_main_def)
qed

end
