(* ===== verification/Demo_Examples.thy ===== *)
theory Demo_Examples
  imports RPC_Main RPC_Examples Chat_Runs Urma_Runs Tcp_Runs Obmm_Demo_Runs Init_Runs
begin

text \<open>
  The properties of the demos at concrete inputs: a kernel that grants everything with fresh descriptors, and logs of
  short runs.
\<close>

section \<open>Kernels\<close>

definition fresh_fd :: "net_ks \<Rightarrow> int" where
  "fresh_fd ks = (let fd = 3 + int (nk_calls ks) in if fd \<in> nk_fds ks then - 1 else fd)"

definition demo_net :: net_os where
  "demo_net =
     \<lparr>nt_net_dev = \<lambda>ks. Some (''Inter-|'' @ [NEWLINE] @ ''    lo: 0'' @ [NEWLINE] @ '' ipourma0: 7''), nt_if_index = \<lambda>ks name. 2, nt_socket = \<lambda>ks kind. fresh_fd ks,
      nt_ioctl = \<lambda>ks req name v. if req = ''SIOCGIFFLAGS'' then Some 1 else if req = ''SIOCGIFADDR'' then Some 0x0a000001 else Some 0,
      nt_set_arp = \<lambda>ks name peer mac. True, nt_setsockopt = \<lambda>ks opt. True, nt_bind = \<lambda>ks port. True,
      nt_pton = \<lambda>s. if s = ''10.0.0.1'' then Some 0x0a000001 else if s = ''10.0.0.2'' then Some 0x0a000002 else None\<rparr>"

definition demo_ks :: net_ks where
  "demo_ks = \<lparr>nk_fds = {0, 1, 2}, nk_bad = False, nk_calls = 0\<rparr>"

lemma demo_net_ok: "net_os_ok demo_net"
  by (simp add: net_os_ok_def demo_net_def fresh_fd_def Let_def)

lemma demo_holding: "holding {0, 1, 2} demo_ks"
  by (simp add: holding_def demo_ks_def)

definition demo_env :: host_env where
  "demo_env = \<lparr>getenv = \<lambda>_. None, proc_cmdline = Some ''quiet linqu_urma_dp_role=nodeA'', valid_ipv4 = \<lambda>_. True\<rparr>"

section \<open>RPC\<close>

text \<open>The first answer comes to the second attempt, the other request is never answered.\<close>

definition no_answers :: "attempt list" where
  "no_answers =
     map (\<lambda>j. \<lparr>at_alarm = False, at_now = 2000 + 1000 * int j, at_send_fails = False, at_recv_from = 2000 + 1000 * int j,
               at_polls = [quiet_poll (2000 + 1000 * int j), quiet_poll (3000 + 1000 * int j)]\<rparr>) [0..<5]"

theorem last_answer_lost_witness:
  "\<exists>s1 s2 r1 r2 sv.
    rpc_build_request 1024 1 ''ECHO'' (echo_text ''10.0.0.1'') = Some s1 \<and>
    rpc_build_request 1024 2 ''CRC32'' (crc_payload ''10.0.0.1'' ''10.0.0.2'') = Some s2 \<and>
    run_rpc_server (get_expected_call_count \<lparr>getenv = \<lambda>_. None, proc_cmdline = None, valid_ipv4 = \<lambda>_. True\<rparr> RPC_MODE_SERVER)
      (Datagram \<lparr>pe_now_ms = 1, pe_meminfo = None\<rparr> ''10.0.0.1'' s1 # Datagram \<lparr>pe_now_ms = 2, pe_meminfo = None\<rparr> ''10.0.0.1'' s2 # [Alarm])
      (server_init 0) = Some (Some 0, [r1, r2], sv) \<and>
    run_rpc_client ''10.0.0.1'' ''10.0.0.2'' 0 (late_answer 1 r1) 2000 no_answers = 1 \<and>
    run_rpc_server 0 [Datagram \<lparr>pe_now_ms = 1, pe_meminfo = None\<rparr> ''10.0.0.1'' s1, Datagram \<lparr>pe_now_ms = 2, pe_meminfo = None\<rparr> ''10.0.0.1'' s2,
      Datagram \<lparr>pe_now_ms = 3, pe_meminfo = None\<rparr> ''10.0.0.1'' s2] (server_init 0) = Some (None, [r1, r2, r2], sv)"
proof -
  let ?env = "\<lparr>getenv = \<lambda>_. None, proc_cmdline = None, valid_ipv4 = \<lambda>_. True\<rparr> :: host_env"
  have e: "length ''10.0.0.1'' \<le> 15" "no_nul ''10.0.0.1''" "no_nul ''10.0.0.2''" "getenv ?env ''LINQU_RPC_EXPECT_CALLS'' = None"
    "cmdline_get_value ?env ''linqu_rpc_expected_calls'' 32 = None"
    by (simp_all add: no_nul_def code_def cmdline_get_value_def read_file_def)
  have u: "\<forall>a \<in> set no_answers. at_recv a = None" by (simp add: no_answers_def quiet_poll_def at_recv_def)
  have h: "heard_in_time r 0 0 (late_answer 1 r)" for r by (simp add: late_answer_def quiet_poll_def at_recv_def upt_rec)
  show ?thesis using last_answer_lost [OF e u] h by blast
qed

section \<open>Chat\<close>

theorem chat_meets_witness:
  "run_initiator ''initiator''
     \<lparr>cl_sync = [Chat_again] @ Chat_dgram (2, 18556) ''SYNC_ACK'' # [],
      cl_rounds = map (\<lambda>i. \<lparr>cr_now = 7, cr_send_ok = True, cr_evs = [Chat_again] @ Chat_dgram (2, 18556) ([] @ responder_says i 9) # []\<rparr>)
        [0..<CHAT_ROUNDS], cl_alarm = False\<rparr> = (0, map (\<lambda>i. initiator_says i 7) [0..<CHAT_ROUNDS]) \<and>
   run_responder ''responder''
     \<lparr>cl_sync = [] @ Chat_dgram (2, 18556) ''SYNC_REQ'' # [],
      cl_rounds = map (\<lambda>i. \<lparr>cr_now = 9, cr_send_ok = True, cr_evs = [] @ Chat_dgram (2, 18556) (''ab'' @ initiator_says i 7) # []\<rparr>)
        [0..<CHAT_ROUNDS], cl_alarm = False\<rparr> = (0, map (\<lambda>i. responder_says i 9) [0..<CHAT_ROUNDS])"
  by (rule chat_meets) (simp_all add: in_long_def chat_noise_def)

definition chat_log_a :: chat_log where
  "chat_log_a = \<lparr>cl_sync = [Chat_dgram (2, 18556) ''SYNC_ACK''],
     cl_rounds = map (\<lambda>i. \<lparr>cr_now = 7, cr_send_ok = True, cr_evs = [Chat_dgram (2, 18556) (responder_says i 9)]\<rparr>) [0..<CHAT_ROUNDS], cl_alarm = False\<rparr>"

definition chat_log_b :: chat_log where
  "chat_log_b = \<lparr>cl_sync = [Chat_dgram (1, 18556) ''SYNC_REQ''],
     cl_rounds = map (\<lambda>i. \<lparr>cr_now = 9, cr_send_ok = True, cr_evs = [Chat_dgram (1, 18556) (initiator_says i 7)]\<rparr>) [0..<CHAT_ROUNDS], cl_alarm = False\<rparr>"

lemma chat_logs_run:
  "run_initiator ''initiator'' chat_log_a = (0, map (\<lambda>i. initiator_says i 7) [0..<CHAT_ROUNDS])"
  "run_responder ''responder'' chat_log_b = (0, map (\<lambda>i. responder_says i 9) [0..<CHAT_ROUNDS])"
  using rounds_meet(1) [of "\<lambda>_. 7" "\<lambda>_. 9" "\<lambda>_. []" "\<lambda>_. []" "\<lambda>_. []" "\<lambda>_. []" "(2, 18556)" "\<lambda>_. []"]
    rounds_meet(2) [of "\<lambda>_. 7" "\<lambda>_. 9" "\<lambda>_. []" "\<lambda>_. []" "\<lambda>_. []" "\<lambda>_. []" "(1, 18556)" "\<lambda>_. []"]
    sync_returns(1) [of "[]" "(2, 18556)" "[]"] sync_returns(2) [of "[]" "(1, 18556)" "[]"]
  by (simp_all add: run_initiator_def run_responder_def chat_log_a_def chat_log_b_def in_long_def)

theorem chat_pass_sound_witness:
  "length (map (\<lambda>i. initiator_says i 7) [0..<CHAT_ROUNDS]) = CHAT_ROUNDS \<and>
   (\<exists>ts. wait_for_peer_chat ''responder'' (cr_evs (cl_rounds chat_log_b ! 4)) = Some (CHAT_REQ_TEXT, 4, ts))"
  using chat_pass_sound [OF chat_logs_run, THEN conjunct2, THEN conjunct2, rule_format, of 4] by (simp add: CHAT_ROUNDS_def)

definition chat_repeat_log :: chat_log where
  "chat_repeat_log =
     \<lparr>cl_sync = [Chat_dgram (2, 18556) ''SYNC_ACK''],
      cl_rounds = [\<lparr>cr_now = 7, cr_send_ok = True, cr_evs = [Chat_dgram (2, 18556) (responder_says 0 9)]\<rparr>,
        \<lparr>cr_now = 8, cr_send_ok = True, cr_evs = [Chat_again] @ Chat_dgram (2, 18556) (responder_says 0 9) # []\<rparr>], cl_alarm = False\<rparr>"

theorem duplicate_reply_fails_witness: "fst (run_initiator ''initiator'' chat_repeat_log) = 1"
  by (rule duplicate_reply_fails [of 0 9 "[Chat_again]" _ "(2, 18556)" "[]"])
    (simp_all add: chat_repeat_log_def CHAT_ROUNDS_def in_long_def chat_noise_def)

section \<open>URMA data path\<close>

definition udp_header :: string where
  "udp_header = [CHR 0x45] @ replicate 8 (CHR 0x00) @ [CHR 0x11] @ replicate 12 (CHR 0x00) @ [CHR 0x48, CHR 0x7B] @ replicate 4 (CHR 0x00)"

lemma udp_header_ok: "raw_header udp_header"
  by code_simp

lemma node_b_ok: "dp_role_ok ''nodeB''"
  by (simp add: dp_role_ok_def)

text \<open>Half of the packets arrive, in 10 milliseconds: the loss is too high for the one limit, and not for the other; the
  rate is high enough for 5 packets in a second, not for 500.\<close>

definition half_log :: bench_log where
  "half_log = \<lparr>bl_burst = map (\<lambda>s. (True, look_of 2 udp_header ''nodeB'' 5 s)) [On_udp 0, Nothing],
     bl_drain = map (look_of 2 udp_header ''nodeB'' 5) [] @ told_looks 2 ''nodeB'' 5 (Some (2, [], [])), bl_rx_window_ms = 10\<rparr>"

theorem bench_loss_measured_witness:
  "run_bench_phase False 2 ''nodeA'' 1 2 5 400000 half_log = 1 \<and> run_bench_phase False 2 ''nodeA'' 1 2 5 500000 half_log = 0 \<and>
   run_bench_phase False 2 ''nodeA'' 1 2 500 500000 half_log = 1"
proof -
  note m = bench_loss_measured [OF node_b_ok _ udp_header_ok, of "''nodeA''" "[On_udp 0, Nothing]" "[]" 2 False half_log 2 5
      "Some (2, [], [])" 1]
  show ?thesis using m [of 5 400000] m [of 5 500000] m [of 500 500000] by (simp add: half_log_def told_tx_def)
qed

theorem bench_double_count_witness:
  "run_bench_phase True 2 ''nodeA'' 1 (of_nat (2 * 1)) 0 0
     \<lparr>bl_burst = map (\<lambda>s. (True, look_of 2 udp_header ''nodeB'' 5 s)) (replicate (2 * 1) Nothing),
      bl_drain = map (look_of 2 udp_header ''nodeB'' 5) (concat (map (\<lambda>i. [On_udp i, On_raw i]) [0..<1])) @
        ([Dp_dgram 2 (done_msg ''nodeB'' 5 (of_nat (2 * 1)))], []) # [],
      bl_rx_window_ms = 10\<rparr> = 0"
  by (rule bench_double_count [OF node_b_ok _ udp_header_ok]) simp_all

section \<open>TCP demo\<close>

definition demo_tcp :: tcp_os where
  "demo_tcp = \<lparr>tp_net = demo_net, tp_listen = \<lambda>ks. True, tp_accept = fresh_fd, tp_nonblock = \<lambda>ks. True\<rparr>"

lemma demo_tcp_ok: "tcp_os_ok demo_tcp"
  by (simp add: tcp_os_ok_def demo_tcp_def demo_net_ok fresh_fd_def Let_def)

text \<open>A node that hears \<open>hello\<close> and \<open>ack\<close>.\<close>

definition tcp_hears :: "string \<Rightarrow> string \<Rightarrow> tcp_log" where
  "tcp_hears hello ack =
     \<lparr>tl_iface_looks = 1, tl_fork = True, tl_accept = [Acc_idle, Acc_ready True],
      tl_server_rx = map Rx_char (hello @ [NEWLINE]), tl_server_tx = [Tx_sent 3, Tx_interrupted, Tx_sent 99],
      tl_connect = [Con_fails, Con_pending True], tl_client_tx = [Tx_sent 99], tl_client_rx = Rx_interrupted # map Rx_char (ack @ [NEWLINE]),
      tl_wait = Wait_exited\<rparr>"

definition msgs_a :: role_msgs where "msgs_a = the (role_messages ''nodeA'')"
definition msgs_b :: role_msgs where "msgs_b = the (role_messages ''nodeB'')"
definition tcp_log_a :: tcp_log where "tcp_log_a = tcp_hears ''tcp hello from nodeB client'' ''tcp ack from nodeB server''"
definition tcp_log_b :: tcp_log where "tcp_log_b = tcp_hears ''tcp hello from nodeA client'' ''tcp ack from nodeA server''"

lemma tcp_runs:
  "con_up demo_tcp msgs_a ''10.0.0.1'' ''10.0.0.2'' tcp_log_a demo_ks" "con_up demo_tcp msgs_b ''10.0.0.2'' ''10.0.0.1'' tcp_log_b demo_ks"
  "te_client_out (tcp_run demo_tcp msgs_a ''10.0.0.1'' ''10.0.0.2'' tcp_log_a demo_ks) = ''tcp hello from nodeA client'' @ [NEWLINE]"
  "te_server_out (tcp_run demo_tcp msgs_a ''10.0.0.1'' ''10.0.0.2'' tcp_log_a demo_ks) = ''tcp ack from nodeA server'' @ [NEWLINE]"
  "te_client_out (tcp_run demo_tcp msgs_b ''10.0.0.2'' ''10.0.0.1'' tcp_log_b demo_ks) = ''tcp hello from nodeB client'' @ [NEWLINE]"
  "te_server_out (tcp_run demo_tcp msgs_b ''10.0.0.2'' ''10.0.0.1'' tcp_log_b demo_ks) = ''tcp ack from nodeB server'' @ [NEWLINE]"
  "fst (send_line (rm_client_msg msgs_a) (tl_client_tx tcp_log_a))" "fst (send_line (rm_client_msg msgs_b) (tl_client_tx tcp_log_b))"
  "fst (send_line (rm_server_ack msgs_a) (tl_server_tx tcp_log_a))" "fst (send_line (rm_server_ack msgs_b) (tl_server_tx tcp_log_b))"
  by code_simp+

lemma tcp_heard:
  "carries (tl_server_rx (tcp_hears hello ack)) (hello @ [NEWLINE])" "carries (tl_client_rx (tcp_hears hello ack)) (ack @ [NEWLINE])"
proof -
  have "carries (map Rx_char s) s" for s
  proof -
    have "filter (\<lambda>e. e \<noteq> Rx_interrupted) (map Rx_char s) = map Rx_char s @ []" by (induction s) simp_all
    then show ?thesis unfolding carries_def by blast
  qed
  then show "carries (tl_server_rx (tcp_hears hello ack)) (hello @ [NEWLINE])" "carries (tl_client_rx (tcp_hears hello ack)) (ack @ [NEWLINE])"
    by (simp_all add: tcp_hears_def del: map_append)
qed

theorem tcp_each_meets_witness:
  "te_rc (tcp_run demo_tcp msgs_a ''10.0.0.1'' ''10.0.0.2'' tcp_log_a demo_ks) = 0 \<and>
   te_rc (tcp_run demo_tcp msgs_b ''10.0.0.2'' ''10.0.0.1'' tcp_log_b demo_ks) = 0"
proof (rule tcp_each_meets)
  show "role_messages ''nodeA'' = Some msgs_a" "role_messages ''nodeB'' = Some msgs_b"
    by (simp_all add: msgs_a_def msgs_b_def role_messages_def)
  show "carries (tl_server_rx tcp_log_b) (te_client_out (tcp_run demo_tcp msgs_a ''10.0.0.1'' ''10.0.0.2'' tcp_log_a demo_ks))"
    "carries (tl_client_rx tcp_log_b) (te_server_out (tcp_run demo_tcp msgs_a ''10.0.0.1'' ''10.0.0.2'' tcp_log_a demo_ks))"
    unfolding tcp_runs(3,4) tcp_log_b_def by (rule tcp_heard)+
  show "carries (tl_server_rx tcp_log_a) (te_client_out (tcp_run demo_tcp msgs_b ''10.0.0.2'' ''10.0.0.1'' tcp_log_b demo_ks))"
    "carries (tl_client_rx tcp_log_a) (te_server_out (tcp_run demo_tcp msgs_b ''10.0.0.2'' ''10.0.0.1'' tcp_log_b demo_ks))"
    unfolding tcp_runs(5,6) tcp_log_a_def by (rule tcp_heard)+
  show "tl_wait tcp_log_a = Wait_exited" "tl_wait tcp_log_b = Wait_exited"
    by (simp_all add: tcp_log_a_def tcp_log_b_def tcp_hears_def)
qed (rule tcp_runs)+

theorem tcp_pass_sound_witness:
  "\<exists>role ms. cmdline_get_value demo_env ''linqu_urma_dp_role'' 32 = Some role \<and> role_messages role = Some ms \<and>
     te_client_out (tcp_main demo_tcp demo_env tcp_log_a demo_ks) = rm_client_msg ms @ [NEWLINE]"
proof -
  have "te_rc (tcp_main demo_tcp demo_env tcp_log_a demo_ks) = 0" by code_simp
  from tcp_pass_sound [OF this] show ?thesis by blast
qed

theorem tcp_main_releases_witness: "holding {0, 1, 2} (te_ks (tcp_main demo_tcp demo_env tcp_log_a demo_ks))"
  using tcp_main_releases [OF demo_tcp_ok demo_holding] by blast

section \<open>Memory sharing demo\<close>

definition demo_os :: obmm_os where
  "demo_os =
     \<lparr>os_open = \<lambda>s path. if os_fds s 4 = None then 4 else - 1,
      os_open_region = \<lambda>s mem sync. if os_fds s 5 = None then 5 else - 1,
      os_socket = \<lambda>s. if os_fds s 3 = None then 3 else - 1,
      os_mmap = \<lambda>s fd len. if os_maps s 4096 = None then Some 4096 else None,
      os_export = \<lambda>s sz. Some (7, 0x10000, 1),
      os_import = \<lambda>s cmd. Some 8,
      os_unexport = \<lambda>s mem. True, os_unimport = \<lambda>s mem. True\<rparr>"

lemma demo_os_ok: "obmm_os_ok demo_os"
  by (simp add: obmm_os_ok_def demo_os_def)

lemma demo_os_fine: "obmm_os_ok demo_os \<and> takes_back demo_os"
  using demo_os_ok by (simp add: takes_back_def demo_os_def)

definition demo_start :: os_state where
  "demo_start = \<lparr>os_fds = [0 \<mapsto> None, 1 \<mapsto> None, 2 \<mapsto> None], os_maps = Map.empty, os_exports = {}, os_imports = {},
     os_kept_exports = {}, os_kept_imports = {}, os_calls = 0\<rparr>"

lemma demo_start_empty: "no_regions demo_start"
  by (simp add: no_regions_def demo_start_def)

definition demo_xlog :: exporter_log where
  "demo_xlog =
     \<lparr>xl_announce = [(False, None), (True, None), (True, Some (str_bytes ''IMPORT_READY''))], xl_late_ready = False, xl_mem = [],
      xl_msync = Msync_unsupported, xl_send_a = True, xl_ok_looks = [None, Some (str_bytes ''IMPORT_OK'')], xl_late_ok = False,
      xl_region_looks = [str_bytes DEMO_PAYLOAD_B @ [0]], xl_send_wb = True, xl_end_looks = [Some (str_bytes ''UNIMPORT_OK'')],
      xl_late_end = False\<rparr>"

definition demo_ilog :: importer_log where
  "demo_ilog =
     \<lparr>il_meta_looks = [None, Some (meta_bytes (announced 7 0x10000 1 0x11))], il_late_meta = False,
      il_windows = Some ''mar0 decode=1 cc_base_mb=200 cc_size_mb=40 nc_base_mb=0 nc_size_mb=0'', il_send_ready = True,
      il_a_looks = [Some (str_bytes ''WRITE_A_DONE'')], il_late_a = False,
      il_region_looks = [[], str_bytes DEMO_PAYLOAD_A @ [0]], il_mem = [], il_msync = Msync_ok, il_send_ok = True,
      il_wb_looks = [Some (str_bytes ''WRITEBACK_OK'')], il_late_wb = False, il_send_end = True\<rparr>"

lemma demo_window: "find_import_window EXPORT_REGION_SIZE (il_windows demo_ilog) = Some (0x20000000, 0x4000000)"
  by code_simp

lemma demo_heard:
  "announce (xl_announce demo_xlog) = (True, 2)" "await_ack ''IMPORT_OK'' (xl_ok_looks demo_xlog)"
  "await_meta (il_meta_looks demo_ilog) = Some (announced 7 0x10000 1 0x11)" "await_ack ''WRITE_A_DONE'' (il_a_looks demo_ilog)"
  "wait_for_payload DEMO_PAYLOAD_A (il_region_looks demo_ilog) = 0"
  by code_simp+

lemma demo_wrote:
  "de_wrote (run_exporter demo_os 0x11 demo_xlog demo_start) = Some (str_bytes DEMO_PAYLOAD_A @ [0])"
  "de_wrote (run_importer demo_os 0x12 demo_ilog demo_start) = Some (str_bytes DEMO_PAYLOAD_B @ [0])"
proof -
  have st: "stamp_payload p ms r [] = (if ms = Msync_fails then - 1 else 0, str_bytes p @ [0])" if "mr_len r = DEMO_SIZE" "length p + 1 \<le> DEMO_SIZE" for p ms r
    using that by (simp add: stamp_payload_def put_at_def str_bytes_def)
  show "de_wrote (run_exporter demo_os 0x11 demo_xlog demo_start) = Some (str_bytes DEMO_PAYLOAD_A @ [0])"
    using demo_heard payload_fits
    by (simp add: run_exporter_def Let_def case_prod_beta do_export_region_def map_region_device_def demo_os_def demo_start_def
        got_fd_def st demo_xlog_def)
  have w: "await_meta (il_meta_looks demo_ilog) = Some (announced 7 0x10000 1 0x11)" "il_late_meta demo_ilog = False"
    "find_import_window (om_size (announced 7 0x10000 1 0x11)) (il_windows demo_ilog) = Some (0x20000000, 0x4000000)"
    using demo_heard(3) demo_window by (simp_all add: announced_def demo_ilog_def)
  show "de_wrote (run_importer demo_os 0x12 demo_ilog demo_start) = Some (str_bytes DEMO_PAYLOAD_B @ [0])"
  proof -
    have i: "il_mem demo_ilog = []" "il_msync demo_ilog \<noteq> Msync_fails" "il_send_ready demo_ilog" "\<not> il_late_a demo_ilog"
      by (simp_all add: demo_ilog_def)
    show ?thesis
      using demo_heard(4,5) payload_fits i
      by (simp add: run_importer_def w Let_def case_prod_beta do_import_region_def map_region_device_def demo_os_def demo_start_def
          got_fd_def st)
  qed
qed

theorem obmm_demo_meets_witness:
  "de_rc (run_exporter demo_os 0x11 demo_xlog demo_start) = 0 \<and> de_rc (run_importer demo_os 0x12 demo_ilog demo_start) = 0"
proof -
  have "de_rc (run_exporter demo_os 0x11 demo_xlog demo_start) = 0 \<and> de_rc (run_importer demo_os 0x12 demo_ilog demo_start) = 0 \<and>
    (\<exists>k > 0. de_sent (run_exporter demo_os 0x11 demo_xlog demo_start) =
       replicate k (meta_bytes (announced 7 0x10000 1 0x11)) @ [str_bytes ''WRITE_A_DONE'', str_bytes ''WRITEBACK_OK'']) \<and>
    de_sent (run_importer demo_os 0x12 demo_ilog demo_start) = [str_bytes ''IMPORT_READY'', str_bytes ''IMPORT_OK'', str_bytes ''UNIMPORT_OK'']"
  proof (rule obmm_demo_meets [OF demo_os_fine demo_start_empty demo_os_fine demo_start_empty _ _ demo_window])
    show "export_granted demo_os demo_start 7 0x10000 1"
      by (simp add: export_granted_def demo_os_def demo_start_def map_region_device_def got_fd_def tick_def)
    show "import_granted demo_os demo_start (requested (announced 7 0x10000 1 0x11) 0x12 0x20000000)"
      by (simp add: import_granted_def demo_os_def demo_start_def map_region_device_def got_fd_def tick_def)
    show "exporter_hears demo_xlog" by (simp add: exporter_hears_def demo_xlog_def)
    show "importer_hears (announced 7 0x10000 1 0x11) demo_ilog" by (simp add: importer_hears_def demo_ilog_def short_look_def)
    show "\<exists>w \<in> set (il_region_looks demo_ilog). de_wrote (run_exporter demo_os 0x11 demo_xlog demo_start) = Some w"
      "\<exists>w \<in> set (xl_region_looks demo_xlog). de_wrote (run_importer demo_os 0x12 demo_ilog demo_start) = Some w"
      unfolding demo_wrote by (simp_all add: demo_ilog_def demo_xlog_def)
  qed
  then show ?thesis by blast
qed

text \<open>A kernel that takes no region back: even so no mapping is left.\<close>

definition stubborn_os :: obmm_os where
  "stubborn_os = demo_os\<lparr>os_unexport := \<lambda>s mem. False, os_unimport := \<lambda>s mem. False\<rparr>"

lemma stubborn_os_ok: "obmm_os_ok stubborn_os"
  using demo_os_ok by (simp add: obmm_os_ok_def stubborn_os_def)

definition demo_log :: obmm_log where
  "demo_log = \<lparr>ol_iface_looks = 1, ol_cna_file = Some ''0x11'', ol_bind = True, ol_exporter = demo_xlog, ol_importer = demo_ilog\<rparr>"

definition exporter_env :: host_env where
  "exporter_env = \<lparr>getenv = \<lambda>_. None, proc_cmdline = Some ''quiet linqu_urma_dp_role=exporter'', valid_ipv4 = \<lambda>_. True\<rparr>"

theorem obmm_main_releases_witness:
  "none_left (de_os (fst (obmm_main demo_os demo_net exporter_env demo_log demo_start demo_ks))) \<and>
   os_maps (de_os (fst (obmm_main stubborn_os demo_net exporter_env demo_log demo_start demo_ks))) = Map.empty"
  using obmm_main_releases [OF demo_os_ok demo_net_ok demo_start_empty demo_holding, of exporter_env demo_log] demo_os_fine
    obmm_main_releases [OF stubborn_os_ok demo_net_ok demo_start_empty demo_holding, of exporter_env demo_log]
  by (simp add: given_back_def demo_start_def)

section \<open>The first process\<close>

theorem init_agrees_with_demos_witness:
  "resolve_ipourma_ipv4_config demo_env INET_ADDRSTRLEN INET_ADDRSTRLEN = Some (''10.0.0.1'', Some ''10.0.0.2'') \<and>
   resolve_ipourma_ipv4_config exporter_env INET_ADDRSTRLEN INET_ADDRSTRLEN = Some (''10.0.0.1'', Some ''10.0.0.2'')"
proof -
  have r: "cmdline_get_value demo_env ''linqu_urma_dp_role'' 32 = Some ''nodeA''"
    "cmdline_get_value exporter_env ''linqu_urma_dp_role'' 32 = Some ''exporter''" by code_simp+
  have n: "node_ipv4_pair demo_env ''nodeA'' INET_ADDRSTRLEN INET_ADDRSTRLEN = Some (''10.0.0.1'', ''10.0.0.2'')"
    "obmm_ipv4_pair exporter_env ''exporter'' INET_ADDRSTRLEN INET_ADDRSTRLEN = Some (''10.0.0.1'', ''10.0.0.2'')" by code_simp+
  have "demo_finds demo_env ''nodeA'' (''10.0.0.1'', ''10.0.0.2'')" "demo_finds exporter_env ''exporter'' (''10.0.0.1'', ''10.0.0.2'')"
    using n by (simp_all add: demo_finds_def parse_obmm_role_def)
  from init_agrees_with_demos [OF r(1) this(1)] init_agrees_with_demos [OF r(2) this(2)] show ?thesis by blast
qed

end
