(* ===== verification/Spec2Isabelle.thy ===== *)
theory Spec2Isabelle
  imports UB_Ubios UB_Examples RPC_Examples UB_Probe_Examples Pool_Examples RDMA_Examples RDMA_Run_Examples Demo_Examples
begin

text \<open>
  A verification of the LinQu UB device and of the guest programs that use it.

  \<^bold>\<open>The program.\<close> A QEMU device (\<^verbatim>\<open>hw/misc/linqu_ub.c\<close>) shows a guest a UB controller:
  a register window for each of up to 16 endpoints, each with a command ring and a completion ring in
  guest memory, a message queue for enumeration and configuration, decoder and UMMU registers, and
  firmware tables. Descriptors taken from a command ring are handed to a backend, a function table
  that \<^verbatim>\<open>backend/linqu_ub_rust_bridge.c\<close> fills with calls into a Rust simulator; completions
  polled from the backend are written to the completion ring and raise an interrupt. In the guest a
  driver (\<^verbatim>\<open>driver/linqu_ub_drv.c\<close>) serves the interrupt and hands snapshots to readers, a
  probe (\<^verbatim>\<open>probe.c\<close>) exercises the rings through the registers, and demos run protocols over
  the interface: a remote procedure call over UDP (\<^verbatim>\<open>ub_rpc_demo.c\<close>), a chat
  (\<^verbatim>\<open>ub_chat.c\<close>), a packet measurement (\<^verbatim>\<open>urma_dp.c\<close>), a TCP exchange
  (\<^verbatim>\<open>ub_tcp_each_server_demo.c\<close>), shared memory of two and of many nodes
  (\<^verbatim>\<open>ub_obmm_demo.c\<close>, \<^verbatim>\<open>ub_obmm_pool_demo.c\<close>) and remote direct memory access
  through the uburma character device (\<^verbatim>\<open>ub_rdma_demo.c\<close>). The first process of a guest
  (\<^verbatim>\<open>init.c\<close>) sets up the interface and starts the demos the command line names.

  \<^bold>\<open>The theories\<close>, in the order of the imports:

  \<^item> \<open>UB_Prelude\<close>: word widths, little-endian fields, byte strings, the fact collections the other
    theories share, the locales \<open>ring\<close> (index arithmetic of a ring) and \<open>inv_machine\<close> (a partial
    step function with an invariant).
  \<^item> \<open>UB_Regs\<close>: register offsets and constants (\<^verbatim>\<open>linqu_ub_regs.h\<close> and the defines of
    \<^verbatim>\<open>linqu_ub.c\<close>).
  \<^item> \<open>UB_State\<close>: the structs of \<^verbatim>\<open>linqu_ub.h\<close> and \<^verbatim>\<open>linqu_ub_backend.h\<close> as records,
    the locale \<open>dma_memory\<close> of what DMA promises, and flat guest RAM as an interpretation of it.
  \<^item> \<open>UB_Core\<close>: status word, errors, interrupt line, configuration space; \<open>ring\<close> interpreted for both depths.
  \<^item> \<open>UB_Ubios\<close>: the firmware tables, byte for byte.
  \<^item> \<open>UB_Msgq\<close>: the message queue; each handler of a message, an interpretation of the locale
    \<open>msgq_responder\<close>, and the loop over the backlog.
  \<^item> \<open>UB_Rings\<close>: slot access, \<^verbatim>\<open>linqu_ub_kick\<close> and \<^verbatim>\<open>linqu_ub_flush_cq\<close>, with the
    rings as refinements of abstract queues.
  \<^item> \<open>UB_Mmio\<close>: all register windows, access width, reset, realize, and the bridge to the Rust ABI.
  \<^item> \<open>UB_Device\<close>: the device as a machine; its invariant \<open>dev_ok\<close>, isolation of endpoints,
    the interrupt of the message queue, unreachable message registers.
  \<^item> \<open>UB_Driver\<close>: the guest driver on top of the device; its probe as a sequence of acquisitions.
  \<^item> \<open>Slot_Wire\<close>: the encoding of descriptors and completions (\<^verbatim>\<open>sim-qemu/src/types.rs\<close>), with
    the locale \<open>field\<close> for a self-delimiting field, interpreted for each field type.
  \<^item> \<open>UB_Probe\<close>: builders and decoders of \<^verbatim>\<open>probe.c\<close> and \<^verbatim>\<open>probe_ring_path\<close> as scripts.
  \<^item> \<open>UB_Probe_Run\<close>, \<open>UB_Probe_Pass\<close>: an abstract machine for the rings, a simulation of it by the
    device, and the verdict of the probe computed on it.
  \<^item> \<open>RPC_Wire\<close>, \<open>RPC_Config\<close>, \<open>RPC_Server\<close>: the RPC demo; texts and checksum, configuration, and
    the server with its reply table and the client with its retries. The locale \<open>codec\<close> is interpreted for requests and responses; the locale \<open>reply_cache\<close> states
    what at-most-once execution needs and is interpreted on the table the server searches.
  \<^item> \<open>Pool_Config\<close>, \<open>Pool_Rounds\<close>, \<open>Pool_System\<close>, \<open>Pool_Node\<close>, \<open>Pool_Main\<close>: the memory pool demo; its
    configuration and the placement of imports, its messages and metadata exchange, the rounds of all nodes as
    a step relation, the program of one node as a refinement of it, and \<open>main\<close> with its clean-up.
  \<^item> \<open>Obmm_Os\<close>: what the demos that share memory ask of the kernel: descriptors, mappings, regions.
  \<^item> \<open>RDMA_Layout\<close>, \<open>RDMA_Tlv\<close>, \<open>RDMA_Ledger\<close>, \<open>RDMA_Request\<close>: the argument blocks of the uburma commands
    as C types with computed offsets, the attribute lists made from them, and the requests handed to the kernel.
  \<^item> \<open>RDMA_Queues\<close>, \<open>RDMA_Net\<close>, \<open>RDMA_Setup\<close>, \<open>RDMA_Steps\<close>, \<open>RDMA_Main\<close>, \<open>RDMA_Runs\<close>: the RDMA demo;
    its rings, its messages, its resources, the steps of \<open>main\<close> in order, clean-up, and what holds of runs.
  \<^item> \<open>Net_If\<close>: how the demos find and set up the interface; which descriptors are open is part of the state.
    \<open>RPC_Main\<close>: \<^verbatim>\<open>main\<close> of the RPC demo on top of it.
  \<^item> \<open>Chat\<close> and \<open>Chat_Runs\<close>, \<open>Urma_Dp\<close> and \<open>Urma_Runs\<close>, \<open>Tcp_Each\<close> and \<open>Tcp_Runs\<close>, \<open>Obmm_Demo\<close> and
    \<open>Obmm_Demo_Runs\<close>, \<open>Init_Boot\<close> and \<open>Init_Runs\<close>: each program, and what holds of it.
  \<^item> \<open>UB_Examples\<close>, \<open>RPC_Examples\<close>, \<open>UB_Probe_Examples\<close>, \<open>Pool_Examples\<close>, \<open>RDMA_Examples\<close>,
    \<open>RDMA_Run_Examples\<close>, \<open>Demo_Examples\<close>: concrete devices, kernels and message histories on which the theorems
    with hypotheses are applied.

  \<^bold>\<open>How state and operations correspond.\<close> A C struct is a record with the names of its fields (a
  prefix where two structs share one), a C function is a definition of the same name that returns the
  changed state, and the return code where the C function has one. Integers are words of the C
  width; ring indices wrap by \<open>mod\<close> as in the code. A \<^verbatim>\<open>goto\<close> or an early return is a branch.
  Loops are \<open>fun\<close> where a counter bounds them and \<open>partial_function (option)\<close> otherwise
  (\<open>flush_cq_loop\<close>, \<open>kick_loop\<close>, \<open>msgq_ring_loop\<close>); for the latter the theorems show that the
  result is not \<open>None\<close>. A loop that waits for an event until a deadline is a recursion over the list of what its
  calls return; a list that ends is the deadline, and a theorem holds for every list. Printing is left out.

  \<^bold>\<open>Parameters.\<close> Guest memory and its bus (\<open>dma_bus\<close>), the session of the backend and its
  operations (\<open>backend_ops\<close>, \<open>rust_abi\<close>), the kernel as the programs see it (\<open>obmm_os\<close>, \<open>rdma_os\<close>, \<open>net_os\<close>,
  \<open>tcp_os\<close>, the register file \<open>cfg_dev\<close>), whether an allocation or a kernel service succeeds, and
  what a socket delivers. What is assumed of them is written in the theorems: \<open>dma_memory\<close>,
  that a poll fills the slot it is given, and for the probe \<open>fifo_backend\<close>, the contract of
  \<^verbatim>\<open>linqu_ub_bridge.h\<close>. Of a kernel it is assumed that it gives descriptors and addresses that are not in
  use (\<open>obmm_os_ok\<close>, \<open>rdma_os_ok\<close>, \<open>net_os_ok\<close>, \<open>tcp_os_ok\<close>). It may refuse to take something back: its state remembers
  what it refused although nothing stood in the way, and the theorems on clean-up say that nothing else is left; that
  nothing is left at all they say of a kernel that refuses no such thing (\<open>takes_back\<close>, \<open>rdma_takes_back\<close>), which is
  otherwise assumed only for the meeting of two nodes that share memory. Liveness theorems say which calls have to succeed and which messages have to arrive.

  \<^bold>\<open>What is shown.\<close>

  \<^item> Rings: a doorbell submits the pending descriptors in order and advances the head only when all
    are accepted; a flush appends completions in order and never overwrites an unread one.
  \<^item> Device: every sequence of accesses, resets and changes by the environment is answered and keeps
    the invariant; a read or write of one endpoint does not touch another.
  \<^item> Message queue: the loop over the backlog ends; a configuration read is answered with the value and completed; the
    queue asks for an interrupt when a message fails, and not when all succeed.
  \<^item> Tables: written where the root table says, with valid checksums.
  \<^item> Driver: a failing probe releases what it acquired; the interrupt thread acknowledges exactly the
    causes it read.
  \<^item> Slots and probe: encodings round-trip between C and Rust; the ring probe reports success
    exactly when the backend completes its requests as expected.
  \<^item> RPC: texts round-trip; a request is executed at most once while the table has room; client and
    server finish both calls although up to four rounds of each are lost, which is what five seconds leave time for, but not when
    the very last answer is;
    the program closes its socket on every path.
  \<^item> Memory pool: imports are placed apart and inside the windows; a node that finishes a round finished it after
    every node checked it, and sends what the model of the rounds sends; a round can get stuck without loss; on every
    path everything is given back that the kernel takes back.
  \<^item> RDMA demo: every field of every command lies in an attribute handed to the kernel; completions are taken in
    order, and one can be dropped; the peers end with each other's information; what the clean-up gives back.
  \<^item> Chat, URMA, TCP and memory sharing demos: two nodes that hear each other both succeed; a node that succeeds
    has said and heard everything; what stays open when one fails; and where the code falls short: an answer
    delivered twice ends the chat, and a packet seen on two sockets is counted twice.
  \<^item> First process: it resolves the addresses the demos find; its probe of a register leaves a register that
    works as it was and finds one that is stuck; a demo with a time limit does not hold up the boot.

  \<^bold>\<open>Bounds.\<close> Rings have the depths of the code (32 and 64, one slot unused), slots 64 bytes, the
  reply table 256 entries, a client call ten rounds of a second within five seconds, a chat five rounds, a URMA run forty probes, a buffer for a line
  256 bytes; nothing is scaled down. Recursions are over what the calls return or over these bounds, without fuel.

  \<^bold>\<open>Not modelled.\<close> QOM type registration, property tables and VM state of the device: no logic.
  Of the probe the walk through the device tree, the register dumps and the two modes in which a driver or a
  UIO file acknowledges interrupts in between. The copies of the interface functions in the pool and RDMA demos:
  \<open>Net_If\<close> has them once; in the models of these two their success is an input. Socket options whose failure is only
  reported, latencies and rates that are only printed. Of the first process mounts, the diagnostic dumps, the
  wait for a module loader and the forced binding of a driver; the helper programs
  \<^verbatim>\<open>init_manual_bind.c\<close> and \<^verbatim>\<open>insmod.c\<close> only call the kernel.
\<close>

end
